(* ===== verification/Prelude.thy ===== *)
theory Prelude imports Main "HOL-Library.Word" begin

text \<open>
  Shared vocabulary of the development: the C integer types at their width, the errno values the
  drivers return, and the generic facts on words, lists and finite ranges that several components
  use.  A C function that returns 0 or a negative errno is modelled by a value of
  \<open>errno + 'a\<close>: \<open>Inl e\<close> for \<open>return -e\<close>, \<open>Inr v\<close> for success.  Where the C code would dereference
  a pointer that is not valid, the model returns \<open>None\<close> (an option around the result), so that a
  crash is a value of the model and not an arbitrary result.
\<close>

section \<open>Machine integers and error codes\<close>

unbundle bit_operations_syntax

type_synonym u8 = "8 word"
type_synonym u16 = "16 word"
type_synonym u32 = "32 word"
type_synonym u64 = "64 word"

datatype errno =
    EPERM \<comment> \<open>also the value of a bare \<open>return -1\<close>\<close>
  | ENOENT | EINTR | ENXIO | E2BIG | EAGAIN | ENOMEM | EFAULT | EBUSY | ENODEV | EINVAL | ENOSPC | ERANGE | ENOMSG
  | EBADE | ERESTARTSYS | ETIME | ENOSYS | ENOTEMPTY | EOPNOTSUPP | EADDRINUSE | ECONNRESET | ETIMEDOUT

named_theorems range_simps \<open>facts on the address ranges of allocator chunks\<close>
named_theorems word_facts \<open>transfer of word comparisons and sums to nat\<close>

section \<open>Words\<close>

lemma unat_add_no_wrap [word_facts]:
  fixes a s :: "'w::len word"
  assumes "unat a + unat s < 2 ^ LENGTH('w)"
  shows "unat (a + s) = unat a + unat s"
  using assms by (simp add: unat_word_ariths)

lemma word_eq_add_iff:
  fixes a s c :: "'w::len word"
  assumes "unat a + unat s \<le> 2 ^ LENGTH('w)" and "0 < unat c"
  shows "c = a + s \<longleftrightarrow> unat c = unat a + unat s"
proof (cases "unat a + unat s = 2 ^ LENGTH('w)")
  case True
  then have "unat (a + s) = 0" by (simp add: unat_word_ariths)
  then have "c \<noteq> a + s" using assms(2) by auto
  moreover have "unat c < 2 ^ LENGTH('w)" by (rule unsigned_less)
  then have "unat c \<noteq> unat a + unat s" using True by linarith
  ultimately show ?thesis by simp
next
  case False
  with assms(1) have "unat (a + s) = unat a + unat s" by (simp add: unat_word_ariths)
  then show ?thesis by (simp add: word_unat_eq_iff)
qed

lemma unat_sub_le [word_facts]:
  fixes a s :: "'w::len word"
  assumes "unat s \<le> unat a"
  shows "unat (a - s) = unat a - unat s"
  using assms by (simp add: unat_sub_if_size)

lemma word_less_unat: "a < b \<longleftrightarrow> unat a < unat (b :: 'w::len word)"
  by (rule word_less_nat_alt)

lemma word_le_unat: "a \<le> b \<longleftrightarrow> unat a \<le> unat (b :: 'w::len word)"
  by (rule word_le_nat_alt)

lemma unat_lt2p_64: "unat (x :: u64) < 2 ^ 64"
proof -
  have "unat x < 2 ^ LENGTH(64)" by (rule unsigned_less)
  then show ?thesis by simp
qed

lemma unat_lt2p_32: "unat (x :: u32) < 2 ^ 32"
proof -
  have "unat x < 2 ^ LENGTH(32)" by (rule unsigned_less)
  then show ?thesis by simp
qed

section \<open>Lists\<close>

lemma sorted_wrt_snoc: "sorted_wrt P (xs @ [x]) \<longleftrightarrow> sorted_wrt P xs \<and> (\<forall>y \<in> set xs. P y x)"
  by (auto simp: sorted_wrt_append)

lemma in_set_splitI: "x \<in> set xs \<Longrightarrow> \<exists>ys zs. xs = ys @ x # zs"
  by (rule split_list)

end
