(* ===== verification/Chunk_List.thy ===== *)
theory Chunk_List imports Prelude begin

text \<open>
  The chunk lists on which both address-space allocators of the tree are built
  (\<^verbatim>\<open>drivers/misc/nvscic2c-pcie/iova-mngr.c\<close> and
  \<^verbatim>\<open>drivers/platform/tegra/nvadsp/mem_manager.c\<close>).  The two files contain the same best-fit loop and
  the same coalescing loop over a circular list sorted by address; they are written here once, over
  the fields the two structures share, and each allocator theory composes them as its file does.
  A list of the kernel is an HOL list in traversal order; \<open>node\<close> is the identity of a list element,
  i.e. the pointer that the C code hands out as the handle of the chunk.
\<close>

section \<open>Chunks\<close>

record chunk =
  node :: nat
  address :: u64
  csize :: u64

definition cstart :: "'a chunk_scheme \<Rightarrow> nat" where
  "cstart c = unat (address c)"

definition cend :: "'a chunk_scheme \<Rightarrow> nat" where
  "cend c = unat (address c) + unat (csize c)"

definition crange :: "'a chunk_scheme \<Rightarrow> nat set" where
  "crange c = {cstart c ..< cend c}"

definition cranges :: "'a chunk_scheme list \<Rightarrow> nat set" where
  "cranges cs = (\<Union>c \<in> set cs. crange c)"

text \<open>
  A managed space \<open>[lo, hi)\<close> fits the 64-bit address arithmetic, and its length fits a
  \<open>size_t\<close>; a chunk of it is not empty and lies inside.
\<close>

definition space_bounds :: "nat \<Rightarrow> nat \<Rightarrow> bool" where
  "space_bounds lo hi \<longleftrightarrow> hi \<le> 2 ^ 64 \<and> hi - lo < 2 ^ 64"

definition wf_chunk :: "nat \<Rightarrow> nat \<Rightarrow> 'a chunk_scheme \<Rightarrow> bool" where
  "wf_chunk lo hi c \<longleftrightarrow> 0 < unat (csize c) \<and> lo \<le> cstart c \<and> cend c \<le> hi"

text \<open>A free list is in order and fully coalesced: consecutive chunks leave a gap.\<close>

definition gap_sorted :: "'a chunk_scheme list \<Rightarrow> bool" where
  "gap_sorted cs \<longleftrightarrow> sorted_wrt (\<lambda>a b. cend a < cstart b) cs"

definition disjoint_chunks :: "'a chunk_scheme list \<Rightarrow> bool" where
  "disjoint_chunks cs \<longleftrightarrow> sorted_wrt (\<lambda>a b. crange a \<inter> crange b = {}) cs"

section \<open>The loops\<close>

text \<open>\<open>list_for_each_entry\<close> with the running \<open>best\<close> pointer.\<close>

fun best_fit :: "u64 \<Rightarrow> 'a chunk_scheme option \<Rightarrow> 'a chunk_scheme list \<Rightarrow> 'a chunk_scheme option" where
  "best_fit sz best [] = best"
| "best_fit sz best (cur # rest) =
     (if csize cur \<ge> sz then
        (case best of
           None \<Rightarrow> best_fit sz (Some cur) rest
         | Some b \<Rightarrow> if csize cur < csize b then best_fit sz (Some cur) rest
                     else best_fit sz (Some b) rest)
      else best_fit sz best rest)"

text \<open>\<open>list_del(&c->node)\<close>.\<close>

definition list_del :: "nat \<Rightarrow> 'a chunk_scheme list \<Rightarrow> 'a chunk_scheme list" where
  "list_del n cs = filter (\<lambda>c. node c \<noteq> n) cs"

text \<open>Writing through the pointer to one element (\<open>best->address += size; best->size -= size\<close>).\<close>

definition update_node :: "nat \<Rightarrow> ('a chunk_scheme \<Rightarrow> 'a chunk_scheme) \<Rightarrow> 'a chunk_scheme list \<Rightarrow> 'a chunk_scheme list" where
  "update_node n f cs = map (\<lambda>c. if node c = n then f c else c) cs"

definition chunk_at :: "nat \<Rightarrow> 'a chunk_scheme list \<Rightarrow> 'a chunk_scheme option" where
  "chunk_at n cs = List.find (\<lambda>c. node c = n) cs"

text \<open>
  The coalescing loop: walk the free list with the previous element at hand until an element with
  a larger address is met, and merge or insert there.  \<open>None\<close> when the walk reaches the end of the
  list (\<open>done\<close> is still false).  The result is the list from \<open>prev\<close> on.
\<close>

fun release_scan :: "'a chunk_scheme \<Rightarrow> 'a chunk_scheme option \<Rightarrow> 'a chunk_scheme list \<Rightarrow> 'a chunk_scheme list option" where
  "release_scan r prev [] = None"
| "release_scan r prev (cur # rest) =
     (if address r < address cur then
        (if address cur = address r + csize r then
           (let cur' = cur\<lparr>address := address r, csize := csize cur + csize r\<rparr> in
            case prev of
              Some p \<Rightarrow> if address p + csize p = address cur'
                         then Some (p\<lparr>csize := csize p + csize cur'\<rparr> # rest)
                         else Some (p # cur' # rest)
            | None \<Rightarrow> Some (cur' # rest))
         else
           (case prev of
              Some p \<Rightarrow> if address p + csize p = address r
                         then Some (p\<lparr>csize := csize p + csize r\<rparr> # cur # rest)
                         else Some (p # r # cur # rest)
            | None \<Rightarrow> Some (r # cur # rest)))
      else
        (case prev of
           None \<Rightarrow> release_scan r (Some cur) rest
         | Some p \<Rightarrow> map_option ((#) p) (release_scan r (Some cur) rest)))"


section \<open>Ranges\<close>

lemma cranges_simps [simp]:
  "cranges [] = {}"
  "cranges (c # cs) = crange c \<union> cranges cs"
  "cranges (cs @ ds) = cranges cs \<union> cranges ds"
  by (auto simp: cranges_def)

lemma wf_chunk_nonempty: "wf_chunk lo hi c \<Longrightarrow> cstart c < cend c"
  by (simp add: wf_chunk_def cstart_def cend_def)

lemma crange_disjoint_iff:
  assumes "cstart a < cend a" and "cstart b < cend b"
  shows "crange a \<inter> crange b = {} \<longleftrightarrow> cend a \<le> cstart b \<or> cend b \<le> cstart a"
  using assms by (auto simp: crange_def)

lemma chunk_before:
  assumes "wf_chunk lo hi a" and "wf_chunk lo hi b" and "crange a \<inter> crange b = {}"
  shows "address a < address b \<longleftrightarrow> cend a \<le> cstart b"
  using assms crange_disjoint_iff [of a b] wf_chunk_nonempty [of lo hi a] wf_chunk_nonempty [of lo hi b]
  by (auto simp: word_less_unat cstart_def)

lemma chunk_adjacent_iff:
  assumes "space_bounds lo hi" and "wf_chunk lo hi a" and "wf_chunk lo hi b" and "cend a \<le> cstart b"
  shows "address b = address a + csize a \<longleftrightarrow> cstart b = cend a"
    and "address a + csize a = address b \<longleftrightarrow> cstart b = cend a"
proof -
  have "unat (address a) + unat (csize a) \<le> 2 ^ 64" "0 < unat (address b)"
    using assms by (auto simp: space_bounds_def wf_chunk_def cend_def cstart_def)
  then show "address b = address a + csize a \<longleftrightarrow> cstart b = cend a"
    using word_eq_add_iff [of "address a" "csize a" "address b"] by (simp add: cstart_def cend_def)
  then show "address a + csize a = address b \<longleftrightarrow> cstart b = cend a" by auto
qed

text \<open>The two ways of merging neighbours: extend the upper chunk down, or the lower chunk up.\<close>

lemma merge_size:
  assumes "space_bounds lo hi" and "wf_chunk lo hi a" and "wf_chunk lo hi b" and "cstart b = cend a"
  shows "unat (csize b + csize a) = unat (csize b) + unat (csize a)"
    and "unat (csize a + csize b) = unat (csize a) + unat (csize b)"
proof -
  have "unat (csize b) + unat (csize a) < 2 ^ 64"
    using assms by (auto simp: space_bounds_def wf_chunk_def cend_def cstart_def)
  then show "unat (csize b + csize a) = unat (csize b) + unat (csize a)"
    by (simp add: unat_word_ariths)
  then show "unat (csize a + csize b) = unat (csize a) + unat (csize b)"
    by (simp add: add.commute)
qed

lemma merge_down:
  assumes "space_bounds lo hi" and "wf_chunk lo hi a" and "wf_chunk lo hi b" and "cstart b = cend a"
  defines "m \<equiv> b\<lparr>address := address a, csize := csize b + csize a\<rparr>"
  shows "cstart m = cstart a" and "cend m = cend b" and "wf_chunk lo hi m"
    and "crange m = crange a \<union> crange b" and "node m = node b"
proof -
  note sz = merge_size (1) [OF assms(1-4)]
  show st: "cstart m = cstart a" by (simp add: m_def cstart_def)
  show en: "cend m = cend b"
    using assms(4) sz by (simp add: m_def cend_def cstart_def)
  show "wf_chunk lo hi m"
    using assms(2,3) st en sz by (simp add: wf_chunk_def m_def)
  show "crange m = crange a \<union> crange b"
    using st en assms(4) wf_chunk_nonempty [OF assms(2)] wf_chunk_nonempty [OF assms(3)]
    by (auto simp: crange_def)
  show "node m = node b" by (simp add: m_def)
qed

lemma merge_up:
  assumes "space_bounds lo hi" and "wf_chunk lo hi a" and "wf_chunk lo hi b" and "cstart b = cend a"
  defines "m \<equiv> a\<lparr>csize := csize a + csize b\<rparr>"
  shows "cstart m = cstart a" and "cend m = cend b" and "wf_chunk lo hi m"
    and "crange m = crange a \<union> crange b" and "node m = node a"
proof -
  note sz = merge_size (2) [OF assms(1-4)]
  show st: "cstart m = cstart a" by (simp add: m_def cstart_def)
  show en: "cend m = cend b"
    using assms(4) sz by (simp add: m_def cend_def cstart_def)
  show "wf_chunk lo hi m"
    using assms(2,3) st en sz by (simp add: wf_chunk_def m_def)
  show "crange m = crange a \<union> crange b"
    using st en assms(4) wf_chunk_nonempty [OF assms(2)] wf_chunk_nonempty [OF assms(3)]
    by (auto simp: crange_def)
  show "node m = node a" by (simp add: m_def)
qed

section \<open>Order of a free list\<close>

lemma gap_sorted_simps [simp]:
  "gap_sorted []"
  "gap_sorted (c # cs) \<longleftrightarrow> (\<forall>d \<in> set cs. cend c < cstart d) \<and> gap_sorted cs"
  "gap_sorted (cs @ ds) \<longleftrightarrow> gap_sorted cs \<and> gap_sorted ds \<and> (\<forall>c \<in> set cs. \<forall>d \<in> set ds. cend c < cstart d)"
  by (auto simp: gap_sorted_def sorted_wrt_append)

lemma disjoint_chunks_simps [simp]:
  "disjoint_chunks []"
  "disjoint_chunks (c # cs) \<longleftrightarrow> crange c \<inter> cranges cs = {} \<and> disjoint_chunks cs"
  "disjoint_chunks (cs @ ds) \<longleftrightarrow>
     disjoint_chunks cs \<and> disjoint_chunks ds \<and> cranges cs \<inter> cranges ds = {}"
  by (auto simp: disjoint_chunks_def sorted_wrt_append cranges_def)

lemma crange_in_cranges: "c \<in> set cs \<Longrightarrow> crange c \<subseteq> cranges cs"
  by (auto simp: cranges_def)

lemma disjoint_chunks_mem:
  assumes "disjoint_chunks cs" and "c \<in> set cs" and "d \<in> set cs" and "c \<noteq> d"
  shows "crange c \<inter> crange d = {}"
  using assms
proof (induction cs)
  case Nil
  then show ?case by simp
next
  case (Cons x xs)
  consider "c \<in> set xs" "d \<in> set xs" | "c = x" "d \<in> set xs" | "c \<in> set xs" "d = x"
    using Cons.prems by auto
  then show ?case
    using Cons by cases (simp, (use crange_in_cranges [of _ xs] in fastforce)+)
qed

lemma update_node_split:
  assumes "distinct (map node (xs @ c # ys))"
  shows "update_node (node c) f (xs @ c # ys) = xs @ f c # ys"
  using assms by (auto simp: update_node_def image_iff intro!: map_idI)

lemma list_del_split:
  assumes "distinct (map node (xs @ c # ys))"
  shows "list_del (node c) (xs @ c # ys) = xs @ ys"
proof -
  have "filter (\<lambda>d. node d \<noteq> node c) xs = xs" "filter (\<lambda>d. node d \<noteq> node c) ys = ys"
    using assms by (auto simp: image_iff intro!: filter_True)
  then show ?thesis by (simp add: list_del_def)
qed

lemma chunk_at_Some: "chunk_at n cs = Some c \<Longrightarrow> c \<in> set cs \<and> node c = n"
  by (auto simp: chunk_at_def find_Some_iff)

lemma chunk_at_None: "chunk_at n cs = None \<longleftrightarrow> n \<notin> node ` set cs"
  by (induction cs) (simp_all add: chunk_at_def)

lemma chunk_at_append:
  "chunk_at n (xs @ ys) = (case chunk_at n xs of None \<Rightarrow> chunk_at n ys | Some c \<Rightarrow> Some c)"
  by (induction xs) (simp_all add: chunk_at_def)

lemma chunk_at_Cons: "chunk_at n (c # cs) = (if node c = n then Some c else chunk_at n cs)"
  by (simp add: chunk_at_def)

lemma chunk_at_mem:
  assumes "distinct (map node cs)" and "c \<in> set cs"
  shows "chunk_at (node c) cs = Some c"
  using assms by (induction cs) (auto simp: chunk_at_def image_iff)

section \<open>The best-fit loop\<close>

lemma best_fit_sound:
  assumes "best_fit sz best cs = Some b" and "\<And>a. best = Some a \<Longrightarrow> sz \<le> csize a"
  shows "(b \<in> set cs \<or> best = Some b) \<and> sz \<le> csize b"
  using assms by (induction sz best cs rule: best_fit.induct) (auto split: if_splits option.splits)

lemma best_fit_minimal:
  assumes "best_fit sz best cs = Some b"
  shows "\<forall>c \<in> set_option best \<union> {c \<in> set cs. sz \<le> csize c}. csize b \<le> csize c"
  using assms
proof (induction sz best cs rule: best_fit.induct)
  case (1 sz best)
  then show ?case by simp
next
  case (2 sz best cur rest)
  show ?case
  proof (cases "sz \<le> csize cur")
    case False
    with "2" show ?thesis by auto
  next
    case fit: True
    show ?thesis
    proof (cases best)
      case None
      with fit "2" show ?thesis by auto
    next
      case (Some a)
      show ?thesis
      proof (cases "csize cur < csize a")
        case True
        with fit Some "2" have *: "\<forall>c \<in> {cur} \<union> {c \<in> set rest. sz \<le> csize c}. csize b \<le> csize c" by simp
        then have "csize b \<le> csize a" using True by (meson Un_iff insertI1 order_less_imp_le order_trans)
        with * Some show ?thesis by auto
      next
        case False
        with fit Some "2" have *: "\<forall>c \<in> {a} \<union> {c \<in> set rest. sz \<le> csize c}. csize b \<le> csize c" by simp
        then have "csize b \<le> csize cur" using False by (meson Un_iff insertI1 leI order_trans)
        with * Some show ?thesis by auto
      qed
    qed
  qed
qed

lemma best_fit_Some:
  assumes "best_fit sz None cs = Some b"
  shows "b \<in> set cs" and "sz \<le> csize b"
    and "\<And>c. c \<in> set cs \<Longrightarrow> sz \<le> csize c \<Longrightarrow> csize b \<le> csize c"
  using best_fit_sound [OF assms] best_fit_minimal [OF assms] by auto

lemma best_fit_keeps: "best_fit sz (Some a) cs \<noteq> None"
  by (induction cs arbitrary: a) auto

lemma best_fit_None: "best_fit sz None cs = None \<longleftrightarrow> (\<forall>c \<in> set cs. csize c < sz)"
  by (induction cs) (auto simp: best_fit_keeps not_le)

section \<open>The coalescing loop\<close>

abbreviation prev_list :: "'a chunk_scheme option \<Rightarrow> 'a chunk_scheme list" where
  "prev_list prev \<equiv> (case prev of None \<Rightarrow> [] | Some p \<Rightarrow> [p])"

text \<open>What inserting the chunk \<open>r\<close> into the free list \<open>cs\<close> has to achieve.\<close>

definition inserted :: "nat \<Rightarrow> nat \<Rightarrow> 'a chunk_scheme \<Rightarrow> 'a chunk_scheme list \<Rightarrow> 'a chunk_scheme list \<Rightarrow> bool" where
  "inserted lo hi r cs ys \<longleftrightarrow>
     gap_sorted ys \<and> (\<forall>c \<in> set ys. wf_chunk lo hi c) \<and> cranges ys = cranges cs \<union> crange r \<and>
     (distinct (map node (r # cs)) \<longrightarrow>
        distinct (map node ys) \<and> node ` set ys \<subseteq> insert (node r) (node ` set cs))"

lemma inserted_below:
  assumes ins: "inserted lo hi r cs ys" and cs: "\<forall>c \<in> set (r # cs). m < cstart c"
  shows "\<forall>c \<in> set ys. m < cstart c"
proof
  fix c assume c: "c \<in> set ys"
  with ins have "cstart c \<in> crange c" "crange c \<subseteq> cranges ys"
    by (auto simp: inserted_def crange_def cranges_def wf_chunk_nonempty dest!: bspec)
  with ins have "cstart c \<in> cranges cs \<union> crange r" by (auto simp: inserted_def)
  then obtain d where "d \<in> set (r # cs)" "cstart c \<in> crange d" by (auto simp: cranges_def)
  with cs show "m < cstart c" by (auto simp: crange_def)
qed

text \<open>The four places a chunk can go, each with its merges.\<close>

lemma insert_between:
  assumes "gap_sorted (ps @ rest)" and "\<forall>c \<in> set (ps @ rest). wf_chunk lo hi c" and "wf_chunk lo hi r"
    and "\<forall>p \<in> set ps. cend p < cstart r" and "\<forall>c \<in> set rest. cend r < cstart c"
  shows "inserted lo hi r (ps @ rest) (ps @ r # rest)"
  using assms by (auto simp: inserted_def)

lemma insert_merge_next:
  assumes "space_bounds lo hi" and "gap_sorted (ps @ cur # rest)"
    and "\<forall>c \<in> set (ps @ cur # rest). wf_chunk lo hi c" and "wf_chunk lo hi r"
    and "\<forall>p \<in> set ps. cend p < cstart r" and "cstart cur = cend r"
  shows "inserted lo hi r (ps @ cur # rest)
    (ps @ cur\<lparr>address := address r, csize := csize cur + csize r\<rparr> # rest)"
proof -
  have "wf_chunk lo hi cur" using assms(3) by simp
  note m = merge_down [OF assms(1,4) this assms(6)]
  show ?thesis using assms m by (auto simp: inserted_def simp del: chunk.update_convs)
qed

lemma insert_merge_prev:
  assumes "space_bounds lo hi" and "gap_sorted (ps @ p # rest)"
    and "\<forall>c \<in> set (ps @ p # rest). wf_chunk lo hi c" and "wf_chunk lo hi r"
    and "cstart r = cend p" and "\<forall>c \<in> set rest. cend r < cstart c"
  shows "inserted lo hi r (ps @ p # rest) (ps @ p\<lparr>csize := csize p + csize r\<rparr> # rest)"
proof -
  have "wf_chunk lo hi p" using assms(3) by simp
  note m = merge_up [OF assms(1) this assms(4,5)]
  show ?thesis using assms m by (auto simp: inserted_def simp del: chunk.update_convs)
qed

lemma insert_merge_both:
  assumes "space_bounds lo hi" and "gap_sorted (p # cur # rest)"
    and "\<forall>c \<in> set (p # cur # rest). wf_chunk lo hi c" and "wf_chunk lo hi r"
    and "cstart r = cend p" and "cstart cur = cend r"
  defines "cur' \<equiv> cur\<lparr>address := address r, csize := csize cur + csize r\<rparr>"
  shows "inserted lo hi r (p # cur # rest) (p\<lparr>csize := csize p + csize cur'\<rparr> # rest)"
proof -
  have w: "wf_chunk lo hi cur" "wf_chunk lo hi p" using assms(3) by simp_all
  note d = merge_down [OF assms(1,4) w(1) assms(6), folded cur'_def]
  have "cstart cur' = cend p" using d(1) assms(5) by simp
  note u = merge_up [OF assms(1) w(2) d(3) this]
  show ?thesis using assms d u by (auto simp: inserted_def simp del: chunk.update_convs)
qed

lemma release_scan_here:
  assumes sb: "space_bounds lo hi" and gs: "gap_sorted (prev_list prev @ cur # rest)"
    and wf: "\<forall>c \<in> set (prev_list prev @ cur # rest). wf_chunk lo hi c" and r: "wf_chunk lo hi r"
    and dj: "crange r \<inter> cranges (prev_list prev @ cur # rest) = {}"
    and pr: "\<forall>p \<in> set (prev_list prev). address p < address r" and lt: "address r < address cur"
    and eq: "release_scan r prev (cur # rest) = Some ys"
  shows "inserted lo hi r (prev_list prev @ cur # rest) ys"
proof -
  have wc: "wf_chunk lo hi cur" using wf by simp
  have rc: "cend r \<le> cstart cur" using chunk_before [OF r wc] dj lt by auto
  have cr: "cstart cur < cend cur" using wc by (rule wf_chunk_nonempty)
  have rest: "\<forall>c \<in> set rest. cend r < cstart c" using gs rc cr by (auto split: option.splits)
  note ac = chunk_adjacent_iff [OF sb r wc rc]
  have pl: "cend p \<le> cstart r" "wf_chunk lo hi p" "address p + csize p = address r \<longleftrightarrow> cstart r = cend p"
    if "prev = Some p" for p
  proof -
    show wp: "wf_chunk lo hi p" using wf that by simp
    show le: "cend p \<le> cstart r" using chunk_before [OF wp r] pr dj that by auto
    show "address p + csize p = address r \<longleftrightarrow> cstart r = cend p"
      using chunk_adjacent_iff [OF sb wp r le] by simp
  qed
  show ?thesis
  proof (cases "cstart cur = cend r")
    case True
    show ?thesis
    proof (cases "\<exists>p. prev = Some p \<and> cstart r = cend p")
      case True
      then obtain p where p: "prev = Some p" "cstart r = cend p" by blast
      with \<open>cstart cur = cend r\<close> eq lt ac pl [OF p(1)]
      have "ys = p\<lparr>csize := csize p + csize (cur\<lparr>address := address r, csize := csize cur + csize r\<rparr>)\<rparr> # rest"
        by simp
      with insert_merge_both [OF sb _ _ r p(2) \<open>cstart cur = cend r\<close>] gs wf p(1) show ?thesis by simp
    next
      case False
      then have ne: "cend p < cstart r" if "prev = Some p" for p using pl(1) that by force
      with True eq lt ac pl
      have "ys = prev_list prev @ cur\<lparr>address := address r, csize := csize cur + csize r\<rparr> # rest"
        by (auto split: option.splits)
      moreover have "\<forall>p \<in> set (prev_list prev). cend p < cstart r" using ne by (auto split: option.splits)
      ultimately show ?thesis using insert_merge_next [OF sb gs wf r _ True] by simp
    qed
  next
    case False
    with rc have rlt: "\<forall>c \<in> set (cur # rest). cend r < cstart c" using rest by auto
    show ?thesis
    proof (cases "\<exists>p. prev = Some p \<and> cstart r = cend p")
      case True
      then obtain p where p: "prev = Some p" "cstart r = cend p" by blast
      with False eq lt ac pl [OF p(1)] have "ys = [] @ p\<lparr>csize := csize p + csize r\<rparr> # cur # rest" by simp
      with insert_merge_prev [of lo hi "[]" p "cur # rest" r] sb gs wf r p rlt show ?thesis by simp
    next
      case nomerge: False
      then have ne: "cend p < cstart r" if "prev = Some p" for p using pl(1) that by force
      with nomerge False eq lt ac pl have "ys = prev_list prev @ r # cur # rest"
        by (auto split: option.splits)
      moreover have "\<forall>p \<in> set (prev_list prev). cend p < cstart r" using ne by (auto split: option.splits)
      ultimately show ?thesis using insert_between [OF gs wf r _ rlt] by simp
    qed
  qed
qed

lemma release_scan_inserted:
  assumes "space_bounds lo hi" and "gap_sorted (prev_list prev @ cs)"
    and "\<forall>c \<in> set (prev_list prev @ cs). wf_chunk lo hi c" and "wf_chunk lo hi r"
    and "crange r \<inter> cranges (prev_list prev @ cs) = {}"
    and "\<forall>p \<in> set (prev_list prev). address p < address r"
    and "release_scan r prev cs = Some ys"
  shows "inserted lo hi r (prev_list prev @ cs) ys"
  using assms(2,3,5-)
proof (induction cs arbitrary: prev ys)
  case Nil
  then show ?case by simp
next
  case (Cons cur rest)
  show ?case
  proof (cases "address r < address cur")
    case True
    with release_scan_here [OF assms(1) Cons.prems(1,2) assms(4) Cons.prems(3,4)] Cons.prems(5)
    show ?thesis by blast
  next
    case False
    have wc: "wf_chunk lo hi cur" using Cons.prems(2) by simp
    have "address cur \<noteq> address r"
    proof
      assume "address cur = address r"
      then have "cstart cur \<in> crange r \<inter> crange cur"
        using wf_chunk_nonempty [OF wc] wf_chunk_nonempty [OF assms(4)] by (simp add: crange_def cstart_def)
      with Cons.prems(3) show False by auto
    qed
    with False have lt: "address cur < address r" by simp
    from False Cons.prems(5) obtain zs where zs: "release_scan r (Some cur) rest = Some zs" "ys = prev_list prev @ zs"
      by (auto split: option.splits)
    have ins: "inserted lo hi r (cur # rest) zs"
    proof -
      have dj: "crange r \<inter> cranges (cur # rest) = {}" using Cons.prems(3) by auto
      show ?thesis using Cons.IH [of "Some cur" zs] Cons.prems(1,2) dj lt zs(1) by simp
    qed
    show ?thesis
    proof (cases prev)
      case None
      with ins zs show ?thesis by simp
    next
      case (Some p)
      have "cstart cur < cstart r" using lt by (simp add: cstart_def word_less_unat)
      then have "\<forall>c \<in> set (r # cur # rest). cend p < cstart c" using Some Cons.prems(1) by auto
      then have "\<forall>c \<in> set zs. cend p < cstart c" by (rule inserted_below [OF ins])
      with ins zs Some Cons.prems(2) show ?thesis by (auto simp: inserted_def)
    qed
  qed
qed

lemma release_scan_None:
  assumes "release_scan r prev cs = None"
  shows "\<forall>c \<in> set cs. address c \<le> address r"
  using assms by (induction r prev cs rule: release_scan.induct) (auto split: if_splits option.splits simp: Let_def)

lemma release_scan_None_iff: "release_scan r prev cs = None \<longleftrightarrow> (\<forall>c \<in> set cs. address c \<le> address r)"
  by (induction r prev cs rule: release_scan.induct) (auto split: option.splits simp: Let_def not_less)

section \<open>A managed space: free list and reserved list\<close>

definition space_inv :: "nat \<Rightarrow> nat \<Rightarrow> 'a chunk_scheme list \<Rightarrow> 'a chunk_scheme list \<Rightarrow> bool" where
  "space_inv lo hi fr rs \<longleftrightarrow>
     space_bounds lo hi \<and> (\<forall>c \<in> set fr \<union> set rs. wf_chunk lo hi c) \<and> gap_sorted fr \<and> disjoint_chunks rs \<and>
     cranges fr \<inter> cranges rs = {} \<and> cranges fr \<union> cranges rs = {lo..<hi} \<and> distinct (map node (fr @ rs))"

text \<open>Moving a whole free chunk to the reserved list.\<close>

lemma space_take:
  assumes "space_inv lo hi (xs @ b # ys) (us @ vs)"
  shows "space_inv lo hi (xs @ ys) (us @ b # vs)"
    and "cranges (xs @ ys) = cranges (xs @ b # ys) - crange b"
proof -
  have gs: "gap_sorted (xs @ b # ys)" and wf: "\<forall>c \<in> set (xs @ b # ys). wf_chunk lo hi c"
    using assms by (auto simp: space_inv_def)
  have "crange b \<inter> cranges (xs @ ys) = {}"
  proof -
    have "crange b \<inter> crange c = {}" if "c \<in> set (xs @ ys)" for c
      using that gs wf by (force simp: crange_def)
    then show ?thesis unfolding cranges_def by blast
  qed
  then show "cranges (xs @ ys) = cranges (xs @ b # ys) - crange b" by auto
  then show "space_inv lo hi (xs @ ys) (us @ b # vs)"
    using assms by (auto simp: space_inv_def)
qed

text \<open>Carving a new chunk off the front of a free chunk.\<close>

lemma carve_facts:
  assumes "wf_chunk lo hi b" and "space_bounds lo hi" and "0 < unat sz" and "unat sz < unat (csize b)"
    and "address c = address b" and "csize c = sz"
  defines "b' \<equiv> b\<lparr>address := address b + sz, csize := csize b - sz\<rparr>"
  shows "wf_chunk lo hi c" and "wf_chunk lo hi b'" and "crange b = crange c \<union> crange b'"
    and "crange c \<inter> crange b' = {}" and "cstart b < cstart b'" and "cend b' = cend b" and "node b' = node b"
    and "crange c = {cstart b ..< cstart b + unat sz}"
proof -
  have le: "unat (address b) + unat (csize b) \<le> 2 ^ 64"
    using assms(1,2) by (simp add: wf_chunk_def cend_def space_bounds_def)
  have a: "unat (address b + sz) = unat (address b) + unat sz"
    using le assms(4) by (intro unat_add_no_wrap) simp
  have s: "unat (csize b - sz) = unat (csize b) - unat sz"
    using assms(4) by (simp add: unat_sub_le)
  show "wf_chunk lo hi c" "wf_chunk lo hi b'" "crange b = crange c \<union> crange b'" "crange c \<inter> crange b' = {}"
    "cstart b < cstart b'" "cend b' = cend b" "node b' = node b" "crange c = {cstart b ..< cstart b + unat sz}"
    using assms(1,3,4,5,6) a s
    by (auto simp: b'_def wf_chunk_def cstart_def cend_def crange_def)
qed

lemma space_carve:
  assumes inv: "space_inv lo hi (xs @ b # ys) (us @ vs)" and "0 < unat sz" and "unat sz < unat (csize b)"
    and "address c = address b" and "csize c = sz"
    and fresh: "node c \<notin> node ` set (xs @ b # ys @ us @ vs)"
  defines "b' \<equiv> b\<lparr>address := address b + sz, csize := csize b - sz\<rparr>"
  shows "space_inv lo hi (xs @ b' # ys) (us @ c # vs)"
    and "cranges (xs @ b' # ys) = cranges (xs @ b # ys) - crange c"
    and "crange c \<subseteq> cranges (xs @ b # ys)"
proof -
  have sb: "space_bounds lo hi" and wb: "wf_chunk lo hi b" using inv by (auto simp: space_inv_def)
  note f = carve_facts [OF wb sb assms(2-5), folded b'_def]
  have taken: "cranges (xs @ ys) = cranges (xs @ b # ys) - crange b" by (rule space_take (2) [OF inv])
  with f(3,4) show rng: "cranges (xs @ b' # ys) = cranges (xs @ b # ys) - crange c" by auto
  show "crange c \<subseteq> cranges (xs @ b # ys)" using f(3) by auto
  have gs: "gap_sorted (xs @ b' # ys)" using inv f(5,6) by (force simp: space_inv_def)
  show "space_inv lo hi (xs @ b' # ys) (us @ c # vs)"
    using inv f gs fresh rng by (auto simp: space_inv_def)
qed

text \<open>Returning a reserved chunk to the free list.\<close>

lemma space_return:
  assumes "space_inv lo hi fr (us @ r # vs)" and "inserted lo hi r' fr ys"
    and "crange r' = crange r" and "node r' = node r"
  shows "space_inv lo hi ys (us @ vs)" and "cranges ys = cranges fr \<union> crange r"
proof -
  show rng: "cranges ys = cranges fr \<union> crange r" using assms(2,3) by (simp add: inserted_def)
  have nd: "distinct (map node (r' # fr))" using assms(1,4) by (auto simp: space_inv_def)
  then have "distinct (map node ys)" "node ` set ys \<subseteq> insert (node r) (node ` set fr)"
    using assms(2,4) by (auto simp: inserted_def)
  moreover have "insert (node r) (node ` set fr) \<inter> node ` set (us @ vs) = {}"
    using assms(1) by (simp add: space_inv_def Int_Un_distrib image_Un Int_commute)
  ultimately have nodes: "distinct (map node ys)" "node ` set ys \<inter> node ` set (us @ vs) = {}" by blast+
  have "gap_sorted ys" "\<forall>c \<in> set ys. wf_chunk lo hi c" using assms(2) by (simp_all add: inserted_def)
  with nodes show "space_inv lo hi ys (us @ vs)"
    using assms(1) rng by (auto simp: space_inv_def)
qed

text \<open>Fields beyond node, address and size play no role.\<close>

lemma space_rename:
  assumes "space_inv lo hi fr (us @ c # vs)"
    and "node d = node c" and "address d = address c" and "csize d = csize c"
  shows "space_inv lo hi fr (us @ d # vs)"
proof -
  have "cstart d = cstart c" "cend d = cend c" using assms(3,4) by (simp_all add: cstart_def cend_def)
  then have "crange d = crange c" "wf_chunk lo hi d = wf_chunk lo hi c"
    using assms(4) by (simp_all add: crange_def wf_chunk_def)
  then show ?thesis using assms(1,2) by (simp add: space_inv_def)
qed

text \<open>A coalesced free list that covers an interval is one chunk.\<close>

lemma coalesced_interval:
  assumes "gap_sorted cs" and "\<forall>c \<in> set cs. wf_chunk lo hi c" and "cranges cs = {lo..<hi}" and "lo < hi"
  shows "\<exists>c. cs = [c] \<and> cstart c = lo \<and> cend c = hi"
proof (cases cs)
  case Nil
  with assms show ?thesis by simp
next
  case (Cons c ds)
  have c: "wf_chunk lo hi c" using assms(2) Cons by simp
  have lo: "lo \<in> cranges cs" and "hi - 1 \<in> cranges cs" using assms(3,4) by auto
  have ds: "ds = []"
  proof (rule ccontr)
    assume "ds \<noteq> []"
    then obtain d where d: "d \<in> set ds" by (cases ds) auto
    then have "cend c < cstart d" "wf_chunk lo hi d" using assms(1,2) Cons by auto
    with c have "cend c \<in> {lo..<hi}" using wf_chunk_nonempty [of lo hi d] wf_chunk_nonempty [OF c]
      by (auto simp: wf_chunk_def)
    moreover have "cend c \<notin> cranges cs" using assms(1) Cons by (force simp: cranges_def crange_def)
    ultimately show False using assms(3) by simp
  qed
  with Cons assms(3) have "{cstart c..<cend c} = {lo..<hi}" by (simp add: crange_def)
  with assms(4) wf_chunk_nonempty [OF c] have "cstart c = lo \<and> cend c = hi"
    by (simp add: atLeastLessThan_eq_iff)
  with Cons ds show ?thesis by simp
qed

text \<open>The ranges in use: what a handle of the reserved list stands for.\<close>

definition live_range :: "'a chunk_scheme list \<Rightarrow> nat \<Rightarrow> (nat \<times> nat) option" where
  "live_range rs h = map_option (\<lambda>c. (cstart c, cend c)) (chunk_at h rs)"

lemma live_range_Some:
  "live_range rs h = Some (a, b) \<Longrightarrow> \<exists>c \<in> set rs. node c = h \<and> cstart c = a \<and> cend c = b"
  by (auto simp: live_range_def dest: chunk_at_Some)

lemma live_range_split:
  assumes "distinct (map node (us @ c # vs))"
  shows "live_range (us @ c # vs) = (live_range (us @ vs))(node c \<mapsto> (cstart c, cend c))"
    and "live_range (us @ vs) = (live_range (us @ c # vs))(node c := None)"
proof -
  have none: "chunk_at (node c) (us @ vs) = None" using assms by (simp add: chunk_at_None image_Un)
  have at: "chunk_at h (us @ c # vs) = (if h = node c then Some c else chunk_at h (us @ vs))" for h
    using none by (auto simp: chunk_at_append chunk_at_Cons split: option.splits)
  show "live_range (us @ c # vs) = (live_range (us @ vs))(node c \<mapsto> (cstart c, cend c))"
    by (rule ext) (simp add: live_range_def at)
  show "live_range (us @ vs) = (live_range (us @ c # vs))(node c := None)"
    by (rule ext) (simp add: live_range_def at none)
qed

lemma space_live_disjoint:
  assumes "space_inv lo hi fr rs" and "live_range rs h = Some (a, b)" and "live_range rs h' = Some (a', b')"
    and "h \<noteq> h'"
  shows "{a..<b} \<inter> {a'..<b'} = {}"
proof -
  obtain c c' where c: "c \<in> set rs" "node c = h" "crange c = {a..<b}" "c' \<in> set rs" "node c' = h'" "crange c' = {a'..<b'}"
    using live_range_Some [OF assms(2)] live_range_Some [OF assms(3)] by (metis crange_def)
  have "disjoint_chunks rs" using assms(1) by (simp add: space_inv_def)
  moreover have "c \<noteq> c'" using c(2,5) assms(4) by auto
  ultimately have "crange c \<inter> crange c' = {}" using c(1,4) by (intro disjoint_chunks_mem)
  with c show ?thesis by simp
qed

lemma space_live_free:
  assumes "space_inv lo hi fr rs" and "live_range rs h = Some (a, b)"
  shows "{a..<b} \<inter> cranges fr = {}" and "{a..<b} \<subseteq> {lo..<hi}" and "a < b"
proof -
  obtain c where c: "c \<in> set rs" "crange c = {a..<b}" "cstart c = a" "cend c = b"
    using assms(2) by (auto simp: crange_def dest!: live_range_Some)
  then have "{a..<b} \<subseteq> cranges rs" by (auto simp: cranges_def)
  with assms(1) show "{a..<b} \<inter> cranges fr = {}" "{a..<b} \<subseteq> {lo..<hi}"
    unfolding space_inv_def by blast+
  have "wf_chunk lo hi c" using c(1) assms(1) by (auto simp: space_inv_def)
  with c show "a < b" using wf_chunk_nonempty by blast
qed

end
