(* ===== verification/Range_Alloc.thy ===== *)
theory Range_Alloc imports Prelude begin

text \<open>
  The contract of an address-range allocator, as its clients use it: a request returns a handle of
  a range that was free, a release gives the range back or refuses and changes nothing.  The client
  facts are proved once here; \<^verbatim>\<open>Iova_Mngr\<close> and \<^verbatim>\<open>Mem_Manager\<close> interpret the locale on their models.
\<close>

locale range_allocator =
  fixes inv :: "'s \<Rightarrow> bool"
    and free_space :: "'s \<Rightarrow> nat set"
    and live :: "'s \<Rightarrow> nat \<Rightarrow> (nat \<times> nat) option"
    and fresh :: "'k \<Rightarrow> 's \<Rightarrow> bool"
    and request :: "'k \<Rightarrow> u64 \<Rightarrow> 's \<Rightarrow> (nat \<times> 's) option"
    and release :: "nat \<Rightarrow> 's \<Rightarrow> (bool \<times> 's) option"
  assumes live_disjoint: "inv s \<Longrightarrow> live s h = Some (a, b) \<Longrightarrow> live s h' = Some (a', b') \<Longrightarrow> h \<noteq> h' \<Longrightarrow>
      {a..<b} \<inter> {a'..<b'} = {}"
    and live_not_free: "inv s \<Longrightarrow> live s h = Some (a, b) \<Longrightarrow> {a..<b} \<inter> free_space s = {}"
    and request_some: "inv s \<Longrightarrow> fresh k s \<Longrightarrow> n \<noteq> 0 \<Longrightarrow> request k n s = Some (h, s') \<Longrightarrow>
      inv s' \<and> live s h = None \<and>
      (\<exists>a. live s' = (live s)(h \<mapsto> (a, a + unat n)) \<and> {a..<a + unat n} \<subseteq> free_space s \<and>
           free_space s' = free_space s - {a..<a + unat n})"
    and release_defined: "inv s \<Longrightarrow> live s h = Some r \<Longrightarrow> release h s \<noteq> None"
    and release_done: "inv s \<Longrightarrow> live s h = Some (a, b) \<Longrightarrow> release h s = Some (True, s') \<Longrightarrow>
      inv s' \<and> live s' = (live s)(h := None) \<and> free_space s' = free_space s \<union> {a..<b}"
    and release_refused: "inv s \<Longrightarrow> live s h = Some r \<Longrightarrow> release h s = Some (False, s') \<Longrightarrow> s' = s"
begin

definition live_space :: "'s \<Rightarrow> nat set" where
  "live_space s = (\<Union>(a, b) \<in> ran (live s). {a..<b})"

lemma in_live_space: "x \<in> live_space s \<longleftrightarrow> (\<exists>h a b. live s h = Some (a, b) \<and> a \<le> x \<and> x < b)"
  by (force simp: live_space_def ran_def)

lemma live_space_upd:
  assumes "live s h = None" and "live s' = (live s)(h \<mapsto> (a, b))"
  shows "live_space s' = live_space s \<union> {a..<b}"
proof (rule set_eqI)
  fix x
  have "x \<in> live_space s' \<longleftrightarrow> (\<exists>h' a' b'. h' \<noteq> h \<and> live s h' = Some (a', b') \<and> a' \<le> x \<and> x < b') \<or> (a \<le> x \<and> x < b)"
    unfolding in_live_space assms(2) by (auto split: if_splits)
  moreover have "h' \<noteq> h" if "live s h' = Some r" for h' r using that assms(1) by auto
  ultimately show "x \<in> live_space s' \<longleftrightarrow> x \<in> live_space s \<union> {a..<b}"
    unfolding Un_iff in_live_space atLeastLessThan_iff by blast
qed

lemma live_space_drop:
  assumes "inv s" and "live s h = Some (a, b)" and "live s' = (live s)(h := None)"
  shows "live_space s' = live_space s - {a..<b}"
proof (rule set_eqI)
  fix x
  have uniq: "h' \<noteq> h" if "live s h' = Some (a', b')" "a' \<le> x" "x < b'" "\<not> (a \<le> x \<and> x < b)" for h' a' b'
    using that assms(2) by auto
  have "x \<in> live_space s' \<longleftrightarrow> (\<exists>h' a' b'. h' \<noteq> h \<and> live s h' = Some (a', b') \<and> a' \<le> x \<and> x < b')"
    unfolding in_live_space assms(3) by (auto split: if_splits)
  moreover have "\<not> (a' \<le> x \<and> x < b' \<and> a \<le> x \<and> x < b)" if "h' \<noteq> h" "live s h' = Some (a', b')" for h' a' b'
    using live_disjoint [OF assms(1) that(2) assms(2) that(1)] by (auto simp: disjoint_iff)
  ultimately show "x \<in> live_space s' \<longleftrightarrow> x \<in> live_space s - {a..<b}"
    unfolding Diff_iff in_live_space atLeastLessThan_iff using uniq by blast
qed

lemma live_space_not_free:
  assumes "inv s"
  shows "free_space s \<inter> live_space s = {}"
proof -
  have "x \<notin> free_space s" if "x \<in> live_space s" for x
  proof -
    obtain h a b where h: "live s h = Some (a, b)" "x \<in> {a..<b}" using \<open>x \<in> live_space s\<close> by (auto simp: in_live_space)
    then show ?thesis using live_not_free [OF assms h(1)] by blast
  qed
  then show ?thesis by blast
qed

text \<open>One operation of a client, and runs of operations.\<close>

inductive client_step :: "'s \<Rightarrow> 's \<Rightarrow> bool" where
  step_request: "fresh k s \<Longrightarrow> n \<noteq> 0 \<Longrightarrow> request k n s = Some (h, s') \<Longrightarrow> client_step s s'"
| step_release: "live s h = Some r \<Longrightarrow> release h s = Some (ok, s') \<Longrightarrow> client_step s s'"

lemma client_step_sound:
  assumes "client_step s s'" and "inv s"
  shows "inv s' \<and> free_space s' \<union> live_space s' = free_space s \<union> live_space s"
  using assms
proof (induction rule: client_step.induct)
  case (step_request k s n h s')
  note sp = request_some [OF step_request(4,1-3)]
  obtain a where a: "live s' = (live s)(h \<mapsto> (a, a + unat n))" "{a..<a + unat n} \<subseteq> free_space s"
    "free_space s' = free_space s - {a..<a + unat n}" using sp by blast
  have "live_space s' = live_space s \<union> {a..<a + unat n}" using live_space_upd sp a(1) by blast
  then show ?case using sp a(2,3) by blast
next
  case (step_release s h r ok s')
  obtain a b where r: "live s h = Some (a, b)" using step_release(1) by (cases r) auto
  show ?case
  proof (cases ok)
    case True
    with step_release(2) have rel: "release h s = Some (True, s')" by simp
    note sp = release_done [OF step_release(3) r rel]
    have "live_space s' = live_space s - {a..<b}" using live_space_drop [OF step_release(3) r] sp by blast
    moreover have "{a..<b} \<subseteq> live_space s" using r unfolding in_live_space subset_iff atLeastLessThan_iff by blast
    ultimately show ?thesis using sp by blast
  next
    case False
    with step_release(2) have "release h s = Some (False, s')" by simp
    then have "s' = s" by (rule release_refused [OF step_release(3) r])
    then show ?thesis using step_release(3) by simp
  qed
qed

text \<open>
  After any number of operations the managed space is the same, split without overlap into the
  free space and the live ranges, and live ranges do not overlap each other.
\<close>

lemma client_run_sound:
  assumes "client_step\<^sup>*\<^sup>* s t" and "inv s"
  shows "inv t \<and> free_space t \<union> live_space t = free_space s \<union> live_space s \<and> free_space t \<inter> live_space t = {}"
proof -
  have "inv t \<and> free_space t \<union> live_space t = free_space s \<union> live_space s"
    using assms by (induction rule: rtranclp_induct) (auto dest: client_step_sound)
  then show ?thesis using live_space_not_free by blast
qed

end

text \<open>An allocator whose release never refuses gives back what it handed out.\<close>

locale reclaiming_allocator = range_allocator +
  assumes release_total: "inv s \<Longrightarrow> live s h = Some r \<Longrightarrow> \<exists>s'. release h s = Some (True, s')"
begin

lemma request_release_roundtrip:
  assumes "inv s" and "fresh k s" and "n \<noteq> 0" and "request k n s = Some (h, s')"
  shows "\<exists>s''. release h s' = Some (True, s'') \<and> inv s'' \<and> free_space s'' = free_space s \<and> live s'' = live s"
proof -
  note sp = request_some [OF assms]
  then obtain a where a: "live s' = (live s)(h \<mapsto> (a, a + unat n))" "{a..<a + unat n} \<subseteq> free_space s"
    "free_space s' = free_space s - {a..<a + unat n}" and i: "inv s'" and n: "live s h = None" by blast
  have l: "live s' h = Some (a, a + unat n)" using a(1) by simp
  obtain s'' where s'': "release h s' = Some (True, s'')" using release_total [OF i l] by blast
  have "live s'' = live s" using release_done [OF i l s''] a(1) n by auto
  then show ?thesis using release_done [OF i l s''] a s'' by blast
qed

end

end
