(* ===== verification/Iova_Mngr.thy ===== *)
theory Iova_Mngr imports Chunk_List Range_Alloc begin

text \<open>
  The IOVA space manager of nvscic2c-pcie (\<^verbatim>\<open>drivers/misc/nvscic2c-pcie/iova-mngr.c\<close>): a context with
  a free list sorted by address and a reserved list in order of reservation.  A block handle is the
  address of the list element.  The critical sections hold \<open>ctx->lock\<close> from entry to exit, so each
  operation is one atomic step.  \<open>kzalloc\<close> is the kernel's: each call site takes its outcome as an
  argument (\<open>None\<close> when the allocation fails, else the address of the new element).
\<close>

section \<open>State\<close>

type_synonym block_t = chunk

definition NAME_MAX :: nat where
  "NAME_MAX = 255"

record mngr_ctx_t =
  mngr_name :: string
  free_list :: "block_t list"
  reserved_list :: "block_t list"
  base_address :: u64

section \<open>Operations\<close>

text \<open>
  \<open>iova_mngr_block_reserve\<close>: \<open>blkh\<close> is the caller's \<open>*block_handle\<close> on entry, \<open>kz\<close> the result of the
  \<open>kzalloc\<close> on the chunking branch.  On success the new handle, the address and the offset are
  returned.
\<close>

definition iova_mngr_block_reserve ::
  "mngr_ctx_t option \<Rightarrow> u64 \<Rightarrow> nat option \<Rightarrow> nat option \<Rightarrow> (errno + nat \<times> u64 \<times> u64) \<times> mngr_ctx_t option" where
  "iova_mngr_block_reserve mngr sz blkh kz =
     (case mngr of
        None \<Rightarrow> (Inl EINVAL, mngr)
      | Some ctx \<Rightarrow>
        if blkh \<noteq> None \<or> sz = 0 then (Inl EINVAL, mngr)
        else if free_list ctx = [] then (Inl ENOMEM, mngr)
        else (case best_fit sz None (free_list ctx) of
            None \<Rightarrow> (Inl ENOMEM, mngr)
          | Some best \<Rightarrow>
            if csize best = sz then
              (Inr (node best, address best, address best - base_address ctx),
               Some (ctx\<lparr>free_list := list_del (node best) (free_list ctx),
                         reserved_list := reserved_list ctx @ [best]\<rparr>))
            else (case kz of
                None \<Rightarrow> (Inl ENOMEM, mngr)
              | Some n \<Rightarrow>
                let reserve = \<lparr>node = n, address = address best, csize = sz\<rparr> in
                (Inr (n, address reserve, address reserve - base_address ctx),
                 Some (ctx\<lparr>free_list := update_node (node best)
                             (\<lambda>b. b\<lparr>address := address b + sz, csize := csize b - sz\<rparr>) (free_list ctx),
                           reserved_list := reserved_list ctx @ [reserve]\<rparr>)))))"

text \<open>
  \<open>iova_mngr_block_release\<close>: \<open>None\<close> when the handle is not an element of the reserved list (the C
  code would follow a dangling pointer); otherwise the return value, \<open>*block_handle\<close> on exit, and
  the context.
\<close>

definition iova_mngr_block_release ::
  "mngr_ctx_t option \<Rightarrow> nat option \<Rightarrow> ((errno + unit) \<times> nat option \<times> mngr_ctx_t option) option" where
  "iova_mngr_block_release mngr blkh =
     (case (mngr, blkh) of
        (Some ctx, Some h) \<Rightarrow>
          (case chunk_at h (reserved_list ctx) of
             None \<Rightarrow> None
           | Some rel \<Rightarrow>
             let free' =
               (case release_scan rel None (free_list ctx) of
                  Some fl \<Rightarrow> fl
                | None \<Rightarrow>
                  if free_list ctx \<noteq> [] then
                    (let l = last (free_list ctx) in
                     if address l + csize l = address rel
                     then butlast (free_list ctx) @ [l\<lparr>csize := csize l + csize rel\<rparr>]
                     else free_list ctx @ [rel])
                  else [rel])
             in Some (Inr (), None,
                  Some (ctx\<lparr>free_list := free', reserved_list := list_del h (reserved_list ctx)\<rparr>)))
      | _ \<Rightarrow> Some (Inl EINVAL, blkh, mngr))"

text \<open>
  \<open>iova_mngr_deinit\<close> releases every block that is still reserved (\<open>list_for_each_safe\<close> over the
  reserved list as it was), then frees all elements and the context, and clears the handle.
\<close>

fun iova_mngr_deinit_release :: "mngr_ctx_t \<Rightarrow> block_t list \<Rightarrow> mngr_ctx_t option" where
  "iova_mngr_deinit_release ctx [] = Some ctx"
| "iova_mngr_deinit_release ctx (b # bs) =
     (case iova_mngr_block_release (Some ctx) (Some (node b)) of
        Some (_, _, Some ctx') \<Rightarrow> iova_mngr_deinit_release ctx' bs
      | _ \<Rightarrow> None)"

definition iova_mngr_deinit :: "mngr_ctx_t option \<Rightarrow> mngr_ctx_t option option" where
  "iova_mngr_deinit mngr =
     (case mngr of
        None \<Rightarrow> Some None
      | Some ctx \<Rightarrow> map_option (\<lambda>_. None) (iova_mngr_deinit_release ctx (reserved_list ctx)))"

text \<open>
  \<open>iova_mngr_init\<close>: \<open>kz_ctx\<close>, \<open>kz_free\<close>, \<open>kz_reserved\<close> tell whether the first three allocations succeed,
  \<open>kz_block\<close> is the fourth.  The error label calls \<open>iova_mngr_deinit\<close> on the partly built context: it
  returns at once when the context itself could not be allocated, but walks both lists otherwise.
  Before \<open>INIT_LIST_HEAD\<close> the list heads are NULL pointers or zeroed memory and the walk follows a
  NULL pointer: \<open>None\<close>.
\<close>

definition iova_mngr_init ::
  "string option \<Rightarrow> u64 \<Rightarrow> u64 \<Rightarrow> mngr_ctx_t option option \<Rightarrow> bool \<Rightarrow> bool \<Rightarrow> bool \<Rightarrow> nat option \<Rightarrow>
     ((errno + mngr_ctx_t)) option" where
  "iova_mngr_init name base sz mngr_handle kz_ctx kz_free kz_reserved kz_block =
     (case (name, mngr_handle) of
        (Some nm, Some None) \<Rightarrow>
          if base = 0 \<or> sz = 0 then Some (Inl EINVAL)
          else if \<not> kz_ctx then Some (Inl ENOMEM)
          else if \<not> kz_free then None
          else if \<not> kz_reserved then None
          else if length nm > NAME_MAX - 1 then None
          else
            let ctx = \<lparr>mngr_name = nm, free_list = [], reserved_list = [], base_address = base\<rparr> in
            (case kz_block of
               None \<Rightarrow> (case iova_mngr_deinit (Some ctx) of None \<Rightarrow> None | Some _ \<Rightarrow> Some (Inl ENOMEM))
             | Some n \<Rightarrow>
                 Some (Inr (ctx\<lparr>free_list := [\<lparr>node = n, address = base, csize = sz\<rparr>]\<rparr>)))
      | _ \<Rightarrow> Some (Inl EINVAL))"

section \<open>Invariant\<close>

text \<open>The blocks partition \<open>[base, hi)\<close>; the free ones are in order and coalesced.\<close>

definition iova_inv :: "nat \<Rightarrow> mngr_ctx_t \<Rightarrow> bool" where
  "iova_inv hi ctx \<longleftrightarrow> space_inv (unat (base_address ctx)) hi (free_list ctx) (reserved_list ctx)"

definition iova_free :: "mngr_ctx_t \<Rightarrow> nat set" where
  "iova_free ctx = cranges (free_list ctx)"

definition iova_live :: "mngr_ctx_t \<Rightarrow> nat \<Rightarrow> (nat \<times> nat) option" where
  "iova_live ctx = live_range (reserved_list ctx)"

definition iova_fresh :: "nat option \<Rightarrow> mngr_ctx_t \<Rightarrow> bool" where
  "iova_fresh kz ctx \<longleftrightarrow> (\<forall>n. kz = Some n \<longrightarrow> n \<notin> node ` set (free_list ctx @ reserved_list ctx))"

section \<open>Reserve\<close>

lemma reserve_split:
  assumes "iova_inv hi ctx" and "best_fit sz None (free_list ctx) = Some best"
  obtains xs ys where "free_list ctx = xs @ best # ys" and "distinct (map node (xs @ best # ys))"
proof -
  have "best \<in> set (free_list ctx)" by (rule best_fit_Some(1) [OF assms(2)])
  then obtain xs ys where fl: "free_list ctx = xs @ best # ys" using split_list by metis
  have "distinct (map node (free_list ctx))" using assms(1) by (simp add: iova_inv_def space_inv_def)
  then show ?thesis using that [OF fl] unfolding fl by blast
qed

lemma reserve_success:
  assumes inv: "iova_inv hi ctx" and fr: "iova_fresh kz ctx" and sz: "sz \<noteq> 0"
    and eq: "iova_mngr_block_reserve (Some ctx) sz None kz = (Inr (h, addr, off), mngr')"
  shows "\<exists>ctx'. mngr' = Some ctx' \<and> base_address ctx' = base_address ctx \<and> iova_inv hi ctx' \<and>
    iova_live ctx h = None \<and>
    iova_live ctx' = (iova_live ctx)(h \<mapsto> (unat addr, unat addr + unat sz)) \<and>
    {unat addr ..< unat addr + unat sz} \<subseteq> iova_free ctx \<and>
    iova_free ctx' = iova_free ctx - {unat addr ..< unat addr + unat sz} \<and>
    off = addr - base_address ctx"
proof -
  from eq sz obtain best where best: "best_fit sz None (free_list ctx) = Some best"
    by (auto simp: iova_mngr_block_reserve_def split: if_splits option.splits)
  obtain xs ys where fl: "free_list ctx = xs @ best # ys" and dn: "distinct (map node (xs @ best # ys))"
    by (rule reserve_split [OF inv best])
  have si: "space_inv (unat (base_address ctx)) hi (xs @ best # ys) (reserved_list ctx @ [])"
    using inv fl by (simp add: iova_inv_def)
  have szp: "0 < unat sz" using sz by (simp add: unat_gt_0)
  have ne: "free_list ctx \<noteq> []" using fl by simp
  show ?thesis
  proof (cases "csize best = sz")
    case True
    let ?ctx' = "ctx\<lparr>free_list := xs @ ys, reserved_list := reserved_list ctx @ [best]\<rparr>"
    have res: "h = node best" "addr = address best" "off = addr - base_address ctx" "mngr' = Some ?ctx'"
      using eq best True sz ne fl list_del_split [OF dn]
      by (auto simp: iova_mngr_block_reserve_def)
    note sp = space_take [OF si]
    have rg: "crange best = {unat addr ..< unat addr + unat sz}"
      using True res(2) by (simp add: crange_def cstart_def cend_def)
    have dr: "distinct (map node (reserved_list ctx @ best # []))" using sp(1) by (simp add: space_inv_def)
    have "iova_live ctx h = None" using dr res(1) by (simp add: iova_live_def live_range_def chunk_at_None)
    moreover have "iova_live ?ctx' = (iova_live ctx)(h \<mapsto> (unat addr, unat addr + unat sz))"
      using live_range_split(1) [OF dr] True res(1,2) by (simp add: iova_live_def cstart_def cend_def)
    ultimately show ?thesis
      using res sp rg fl by (auto simp: iova_inv_def iova_free_def)
  next
    case False
    from eq best False sz ne obtain n where n: "kz = Some n"
      by (auto simp: iova_mngr_block_reserve_def split: option.splits)
    let ?r = "\<lparr>node = n, address = address best, csize = sz\<rparr>"
    let ?b = "best\<lparr>address := address best + sz, csize := csize best - sz\<rparr>"
    let ?ctx' = "ctx\<lparr>free_list := xs @ ?b # ys, reserved_list := reserved_list ctx @ [?r]\<rparr>"
    have res: "h = n" "addr = address best" "off = addr - base_address ctx" "mngr' = Some ?ctx'"
      using eq best False sz ne n fl update_node_split [OF dn]
      by (auto simp: iova_mngr_block_reserve_def Let_def)
    have "sz \<le> csize best" by (rule best_fit_Some(2) [OF best])
    with False have lt: "unat sz < unat (csize best)"
      by (metis order_le_neq_trans word_less_unat)
    have fresh: "node ?r \<notin> node ` set (xs @ best # ys @ reserved_list ctx @ [])"
      using fr n fl by (auto simp: iova_fresh_def)
    note sp = space_carve [OF si szp lt _ _ fresh, simplified]
    have rg: "crange ?r = {unat addr ..< unat addr + unat sz}"
      using res(2) by (simp add: crange_def cstart_def cend_def)
    have dr: "distinct (map node (reserved_list ctx @ ?r # []))" using sp(1) by (simp add: space_inv_def)
    have "iova_live ctx h = None" using dr res(1) by (simp add: iova_live_def live_range_def chunk_at_None)
    moreover have "iova_live ?ctx' = (iova_live ctx)(h \<mapsto> (unat addr, unat addr + unat sz))"
      using live_range_split(1) [OF dr] res(1,2) by (simp add: iova_live_def cstart_def cend_def)
    ultimately show ?thesis
      using res sp rg fl by (auto simp: iova_inv_def iova_free_def)
  qed
qed

section \<open>Release\<close>

text \<open>The list that \<open>iova_mngr_block_release\<close> leaves in \<open>free_list\<close>.\<close>

definition released_list :: "block_t \<Rightarrow> block_t list \<Rightarrow> block_t list" where
  "released_list rel fl =
     (case release_scan rel None fl of
        Some fl' \<Rightarrow> fl'
      | None \<Rightarrow>
        if fl \<noteq> [] then
          (let l = last fl in
           if address l + csize l = address rel
           then butlast fl @ [l\<lparr>csize := csize l + csize rel\<rparr>]
           else fl @ [rel])
        else [rel])"

lemma released_inserted:
  assumes sb: "space_bounds lo hi" and gs: "gap_sorted fl" and wf: "\<forall>c \<in> set fl. wf_chunk lo hi c"
    and r: "wf_chunk lo hi rel" and dj: "crange rel \<inter> cranges fl = {}"
  shows "inserted lo hi rel fl (released_list rel fl)"
proof (cases "release_scan rel None fl")
  case (Some ys)
  then show ?thesis
    using release_scan_inserted [of lo hi None fl rel ys] assms by (simp add: released_list_def)
next
  case None
  show ?thesis
  proof (cases fl rule: rev_cases)
    case Nil
    then show ?thesis using insert_between [of "[]" "[]" lo hi rel] r by (simp add: released_list_def)
  next
    case (snoc ps l)
    have wl: "wf_chunk lo hi l" using wf snoc by simp
    have "address l \<le> address rel" using release_scan_None [OF None] snoc by simp
    moreover have dl: "crange l \<inter> crange rel = {}" using dj snoc by auto
    moreover have "address l \<noteq> address rel"
    proof
      assume "address l = address rel"
      then have "cstart l \<in> crange l \<inter> crange rel"
        using wf_chunk_nonempty [OF wl] wf_chunk_nonempty [OF r] by (simp add: crange_def cstart_def)
      with dl show False by simp
    qed
    ultimately have le: "cend l \<le> cstart rel" using chunk_before [OF wl r] by (simp add: order_less_le)
    note adj = chunk_adjacent_iff(2) [OF sb wl r le]
    show ?thesis
    proof (cases "cstart rel = cend l")
      case True
      then have "released_list rel fl = ps @ l\<lparr>csize := csize l + csize rel\<rparr> # []"
        using None snoc adj by (simp add: released_list_def Let_def)
      then show ?thesis using insert_merge_prev [of lo hi ps l "[]" rel] sb gs wf r True snoc by simp
    next
      case False
      with le have lt: "\<forall>p \<in> set fl. cend p < cstart rel" using snoc gs wf_chunk_nonempty [OF wl] by auto
      have "released_list rel fl = fl @ rel # []"
        using None snoc adj False by (simp add: released_list_def Let_def)
      then show ?thesis using insert_between [of fl "[]" lo hi rel] gs wf r lt by simp
    qed
  qed
qed

lemma release_live:
  assumes inv: "iova_inv hi ctx" and lv: "iova_live ctx h = Some (a, b)"
  shows "\<exists>ctx'. iova_mngr_block_release (Some ctx) (Some h) = Some (Inr (), None, Some ctx') \<and>
    base_address ctx' = base_address ctx \<and> reserved_list ctx' = list_del h (reserved_list ctx) \<and>
    iova_inv hi ctx' \<and> iova_live ctx' = (iova_live ctx)(h := None) \<and>
    iova_free ctx' = iova_free ctx \<union> {a..<b}"
proof -
  obtain rel where at: "chunk_at h (reserved_list ctx) = Some rel" and ab: "a = cstart rel" "b = cend rel"
    using lv by (auto simp: iova_live_def live_range_def)
  have nh: "node rel = h" using chunk_at_Some [OF at] by simp
  obtain us vs where rs: "reserved_list ctx = us @ rel # vs" using chunk_at_Some [OF at] split_list by metis
  let ?lo = "unat (base_address ctx)"
  have si: "space_inv ?lo hi (free_list ctx) (us @ rel # vs)" using inv rs by (simp add: iova_inv_def)
  have dr: "distinct (map node (us @ rel # vs))" using si by (simp add: space_inv_def)
  have ins: "inserted ?lo hi rel (free_list ctx) (released_list rel (free_list ctx))"
    by (rule released_inserted) (use si in \<open>auto simp: space_inv_def\<close>)
  let ?ctx' = "ctx\<lparr>free_list := released_list rel (free_list ctx), reserved_list := us @ vs\<rparr>"
  have "iova_mngr_block_release (Some ctx) (Some h) = Some (Inr (), None, Some ?ctx')"
    using at rs nh list_del_split [OF dr] by (simp add: iova_mngr_block_release_def released_list_def Let_def)
  moreover note space_return [OF si ins refl refl]
  moreover have "iova_live ?ctx' = (iova_live ctx)(h := None)"
    using live_range_split(2) [OF dr] nh rs by (simp add: iova_live_def)
  moreover have "us @ vs = list_del h (reserved_list ctx)" using list_del_split [OF dr] nh rs by simp
  moreover have "{a..<b} = crange rel" using ab by (simp add: crange_def)
  ultimately show ?thesis by (auto simp: iova_inv_def iova_free_def)
qed

section \<open>The allocator contract\<close>

definition iova_request :: "nat option \<Rightarrow> u64 \<Rightarrow> mngr_ctx_t \<Rightarrow> (nat \<times> mngr_ctx_t) option" where
  "iova_request kz sz ctx =
     (case iova_mngr_block_reserve (Some ctx) sz None kz of
        (Inr (h, _, _), Some ctx') \<Rightarrow> Some (h, ctx') | _ \<Rightarrow> None)"

definition iova_give_back :: "nat \<Rightarrow> mngr_ctx_t \<Rightarrow> (bool \<times> mngr_ctx_t) option" where
  "iova_give_back h ctx =
     (case iova_mngr_block_release (Some ctx) (Some h) of
        Some (Inr _, None, Some ctx') \<Rightarrow> Some (True, ctx') | _ \<Rightarrow> None)"

lemma iova_request_Some:
  assumes "iova_inv hi ctx" and "iova_fresh kz ctx" and "n \<noteq> 0" and "iova_request kz n ctx = Some (h, ctx')"
  shows "iova_inv hi ctx' \<and> iova_live ctx h = None \<and>
    (\<exists>a. iova_live ctx' = (iova_live ctx)(h \<mapsto> (a, a + unat n)) \<and> {a..<a + unat n} \<subseteq> iova_free ctx \<and>
         iova_free ctx' = iova_free ctx - {a..<a + unat n})"
proof -
  obtain addr off where eq: "iova_mngr_block_reserve (Some ctx) n None kz = (Inr (h, addr, off), Some ctx')"
    using assms(4) unfolding iova_request_def
    by (cases "iova_mngr_block_reserve (Some ctx) n None kz" rule: prod.exhaust)
       (auto split: sum.split_asm option.split_asm)
  from reserve_success [OF assms(1-3) eq] obtain ctx2 where "Some ctx' = Some ctx2" and
    *: "iova_inv hi ctx2" "iova_live ctx h = None"
      "iova_live ctx2 = (iova_live ctx)(h \<mapsto> (unat addr, unat addr + unat n))"
      "{unat addr..<unat addr + unat n} \<subseteq> iova_free ctx"
      "iova_free ctx2 = iova_free ctx - {unat addr..<unat addr + unat n}" by blast
  then have "ctx2 = ctx'" by simp
  with * show ?thesis by blast
qed

lemma iova_give_back_eq:
  assumes "iova_inv hi ctx" and "iova_live ctx h = Some (a, b)"
  shows "\<exists>ctx'. iova_give_back h ctx = Some (True, ctx') \<and> iova_inv hi ctx' \<and>
    iova_live ctx' = (iova_live ctx)(h := None) \<and> iova_free ctx' = iova_free ctx \<union> {a..<b}"
proof -
  obtain ctx' where rel: "iova_mngr_block_release (Some ctx) (Some h) = Some (Inr (), None, Some ctx')"
    and *: "iova_inv hi ctx'" "iova_live ctx' = (iova_live ctx)(h := None)" "iova_free ctx' = iova_free ctx \<union> {a..<b}"
    using release_live [OF assms] by blast
  have "iova_give_back h ctx = Some (True, ctx')" unfolding iova_give_back_def rel by simp
  with * show ?thesis by blast
qed

interpretation iova: reclaiming_allocator "iova_inv hi" iova_free iova_live iova_fresh iova_request iova_give_back
  for hi :: nat
proof (unfold_locales, goal_cases)
  case (1 s h a b h' a' b')
  then show ?case unfolding iova_inv_def iova_live_def by (rule space_live_disjoint)
next
  case (2 s h a b)
  then show ?case unfolding iova_inv_def iova_live_def iova_free_def by (rule space_live_free(1))
next
  case (3 s k n h s')
  then show ?case by (rule iova_request_Some)
next
  case (4 s h r)
  then show ?case using iova_give_back_eq [of hi s h] by (cases r) fastforce
next
  case (5 s h a b s')
  then show ?case using iova_give_back_eq [of hi s h] by fastforce
next
  case (6 s h r s')
  then show ?case using iova_give_back_eq [of hi s h] by (cases r) fastforce
next
  case (7 s h r)
  then show ?case using iova_give_back_eq [of hi s h] by (cases r) fastforce
qed

section \<open>Life cycle\<close>

lemma init_ctx_inv:
  assumes "0 < unat base" and "0 < unat sz" and "unat base + unat sz \<le> 2 ^ 64"
  shows "iova_inv (unat base + unat sz)
    \<lparr>mngr_name = nm, free_list = [\<lparr>node = n, address = base, csize = sz\<rparr>], reserved_list = [], base_address = base\<rparr>"
  using assms unat_lt2p_64 [of sz]
  by (simp add: iova_inv_def space_inv_def space_bounds_def wf_chunk_def cstart_def cend_def crange_def)

lemma deinit_release_all:
  assumes "iova_inv hi ctx" and "reserved_list ctx = rs"
  shows "\<exists>ctx'. iova_mngr_deinit_release ctx rs = Some ctx' \<and> reserved_list ctx' = [] \<and>
    base_address ctx' = base_address ctx \<and> iova_inv hi ctx'"
  using assms
proof (induction rs arbitrary: ctx)
  case Nil
  then show ?case by simp
next
  case (Cons b bs)
  have dn: "distinct (map node ([] @ b # bs))" using Cons.prems by (simp add: iova_inv_def space_inv_def)
  have "iova_live ctx (node b) = Some (cstart b, cend b)"
    using Cons.prems(2) by (simp add: iova_live_def live_range_def chunk_at_Cons)
  from release_live [OF Cons.prems(1) this] obtain ctx1 where
    c1: "iova_mngr_block_release (Some ctx) (Some (node b)) = Some (Inr (), None, Some ctx1)"
      "base_address ctx1 = base_address ctx" "reserved_list ctx1 = list_del (node b) (reserved_list ctx)"
      "iova_inv hi ctx1" by blast
  have "reserved_list ctx1 = bs" using c1(3) Cons.prems(2) list_del_split [OF dn] by simp
  from Cons.IH [OF c1(4) this] c1(1,2) show ?case by (auto simp del: split_paired_Ex)
qed

lemma deinit_coalesces:
  assumes "iova_inv hi ctx" and "unat (base_address ctx) < hi"
  shows "\<exists>ctx' c. iova_mngr_deinit_release ctx (reserved_list ctx) = Some ctx' \<and> reserved_list ctx' = [] \<and>
    free_list ctx' = [c] \<and> cstart c = unat (base_address ctx) \<and> cend c = hi"
proof -
  obtain ctx' where c: "iova_mngr_deinit_release ctx (reserved_list ctx) = Some ctx'" "reserved_list ctx' = []"
    "base_address ctx' = base_address ctx" "iova_inv hi ctx'"
    using deinit_release_all [OF assms(1) refl] by blast
  have "\<exists>c. free_list ctx' = [c] \<and> cstart c = unat (base_address ctx) \<and> cend c = hi"
    by (rule coalesced_interval) (use c assms(2) in \<open>auto simp: iova_inv_def space_inv_def\<close>)
  with c show ?thesis by blast
qed

section \<open>Properties\<close>

text \<open>C16: a reservation is best fit.  From a consistent manager, a non-empty request either returns a range that
  was free, the front of the smallest block that is large enough, inside the managed space and with its offset
  from the base, keeping every other live range; or fails with ENOMEM, changing nothing, exactly when no free
  block is large enough, or none has exactly the size and the allocation of a chunk for the split fails.\<close>

theorem iova_reserve_best_fit:
  assumes "iova_inv hi ctx" and "iova_fresh kz ctx" and "sz \<noteq> 0"
  shows "case iova_mngr_block_reserve (Some ctx) sz None kz of
      (Inl e, m) \<Rightarrow> e = ENOMEM \<and> m = Some ctx \<and>
        ((\<forall>c \<in> set (free_list ctx). csize c < sz) \<or> kz = None \<and> (\<forall>c \<in> set (free_list ctx). csize c \<noteq> sz))
    | (Inr (h, addr, off), m) \<Rightarrow>
        (\<exists>best \<in> set (free_list ctx). addr = address best \<and> sz \<le> csize best \<and> (kz = None \<longrightarrow> csize best = sz) \<and>
           (\<forall>c \<in> set (free_list ctx). sz \<le> csize c \<longrightarrow> csize best \<le> csize c)) \<and>
        off = addr - base_address ctx \<and>
        (\<exists>ctx'. m = Some ctx' \<and> iova_inv hi ctx' \<and> base_address ctx' = base_address ctx \<and>
           iova_live ctx h = None \<and> {unat addr ..< unat addr + unat sz} \<subseteq> iova_free ctx \<and>
           iova_live ctx' = (iova_live ctx)(h \<mapsto> (unat addr, unat addr + unat sz)) \<and>
           iova_free ctx' = iova_free ctx - {unat addr ..< unat addr + unat sz})"
proof (cases "best_fit sz None (free_list ctx)")
  case None
  then have "iova_mngr_block_reserve (Some ctx) sz None kz = (Inl ENOMEM, Some ctx)"
    using assms(3) by (simp add: iova_mngr_block_reserve_def)
  with None show ?thesis by (simp add: best_fit_None)
next
  case (Some best)
  note bf = best_fit_Some [OF Some]
  show ?thesis
  proof (cases "kz = None \<and> csize best \<noteq> sz")
    case True
    have "iova_mngr_block_reserve (Some ctx) sz None kz = (Inl ENOMEM, Some ctx)"
      using Some True assms(3) by (auto simp: iova_mngr_block_reserve_def)
    moreover have "\<forall>c \<in> set (free_list ctx). csize c \<noteq> sz" using bf(2) bf(3) True by force
    ultimately show ?thesis using True by simp
  next
    case False
    obtain h addr off m where eq: "iova_mngr_block_reserve (Some ctx) sz None kz = (Inr (h, addr, off), m)"
      and addr: "addr = address best"
    proof (cases "csize best = sz")
      case True
      show ?thesis by (rule that) (use Some assms(3) bf(1) True in \<open>auto simp: iova_mngr_block_reserve_def\<close>)
    next
      case other: False
      then obtain n where "kz = Some n" using False by auto
      then show ?thesis by (intro that) (use Some assms(3) bf(1) other in \<open>auto simp: iova_mngr_block_reserve_def Let_def\<close>)
    qed
    from reserve_success [OF assms eq] bf addr False show ?thesis unfolding eq by auto
  qed
qed

text \<open>C17: a release returns exactly the block's range to the free space, forgets the handle, keeps
  all other live ranges and leaves a free list that is again sorted and fully coalesced.\<close>

theorem iova_release_coalesces:
  assumes "iova_inv hi ctx" and "iova_live ctx h = Some (a, b)"
  shows "\<exists>ctx'. iova_mngr_block_release (Some ctx) (Some h) = Some (Inr (), None, Some ctx') \<and>
    iova_inv hi ctx' \<and> gap_sorted (free_list ctx') \<and> iova_free ctx' = iova_free ctx \<union> {a..<b} \<and>
    iova_live ctx' = (iova_live ctx)(h := None)"
  using release_live [OF assms] by (auto simp: iova_inv_def space_inv_def simp del: split_paired_Ex)

text \<open>C18: whatever sequence of reservations and releases clients perform, the managed space stays the
  same, split without overlap into the free space and the live ranges.\<close>

theorem iova_run_partitions:
  assumes "iova.client_step\<^sup>*\<^sup>* s t" and "iova_inv hi s"
  shows "iova_inv hi t \<and> iova_free t \<union> iova.live_space t = iova_free s \<union> iova.live_space s \<and>
    iova_free t \<inter> iova.live_space t = {}"
  using assms by (rule iova.client_run_sound)

text \<open>C19: reserving a block and releasing it again restores the free space and the live ranges.\<close>

theorem iova_reserve_release_roundtrip:
  assumes "iova_inv hi ctx" and "iova_fresh kz ctx" and "n \<noteq> 0" and "iova_request kz n ctx = Some (h, ctx')"
  shows "\<exists>ctx''. iova_give_back h ctx' = Some (True, ctx'') \<and> iova_inv hi ctx'' \<and>
    iova_free ctx'' = iova_free ctx \<and> iova_live ctx'' = iova_live ctx"
  using assms by (rule iova.request_release_roundtrip)

text \<open>The expectation stated in \<open>iova_mngr_deinit\<close>, that just one whole free block remains, holds
  even when clients left blocks reserved: the release loop ends with one block that spans the space,
  and the manager is gone afterwards.\<close>

theorem iova_deinit_one_block:
  assumes "iova_inv hi ctx" and "unat (base_address ctx) < hi"
  shows "iova_mngr_deinit (Some ctx) = Some None \<and>
    (\<exists>ctx' c. iova_mngr_deinit_release ctx (reserved_list ctx) = Some ctx' \<and> reserved_list ctx' = [] \<and>
       free_list ctx' = [c] \<and> cstart c = unat (base_address ctx) \<and> cend c = hi)"
proof -
  from deinit_coalesces [OF assms] obtain ctx' c where
    "iova_mngr_deinit_release ctx (reserved_list ctx) = Some ctx'" "reserved_list ctx' = []"
    "free_list ctx' = [c]" "cstart c = unat (base_address ctx)" "cend c = hi" by blast
  then show ?thesis by (auto simp: iova_mngr_deinit_def)
qed

text \<open>Initialisation.  It succeeds with a consistent manager whose whole space is free exactly when
  the arguments are valid, the name fits and all allocations succeed; but when an allocation of a list
  head fails or the name is too long, the error path walks lists that were never initialised and
  follows a NULL pointer.\<close>

theorem iova_init_outcomes:
  assumes "base \<noteq> 0" and "sz \<noteq> 0" and "unat base + unat sz \<le> 2 ^ 64"
  shows "(iova_mngr_init (Some nm) base sz (Some None) True f r (Some n) = None \<longleftrightarrow> \<not> f \<or> \<not> r \<or> 254 < length nm) \<and>
    (f \<and> r \<and> length nm \<le> 254 \<longrightarrow>
      (\<exists>ctx. iova_mngr_init (Some nm) base sz (Some None) True f r (Some n) = Some (Inr ctx) \<and>
         iova_inv (unat base + unat sz) ctx \<and> iova_free ctx = {unat base ..< unat base + unat sz} \<and>
         (\<forall>h. iova_live ctx h = None)))"
proof -
  have "0 < unat base" "0 < unat sz" using assms(1,2) by (simp_all add: unat_gt_0)
  note inv = init_ctx_inv [OF this assms(3)]
  show ?thesis
    using assms(1,2) inv
    by (auto simp: iova_mngr_init_def NAME_MAX_def Let_def iova_free_def crange_def cstart_def cend_def
        iova_live_def live_range_def chunk_at_def)
qed

section \<open>Concrete runs\<close>

definition iova_ex :: mngr_ctx_t where
  "iova_ex = \<lparr>mngr_name = ''pool'', free_list = [\<lparr>node = 1, address = 4096, csize = 12288\<rparr>],
     reserved_list = [], base_address = 4096\<rparr>"

definition iova_ex2 :: mngr_ctx_t where
  "iova_ex2 = \<lparr>mngr_name = ''pool'', free_list = [\<lparr>node = 1, address = 8192, csize = 8192\<rparr>],
     reserved_list = [\<lparr>node = 2, address = 4096, csize = 4096\<rparr>], base_address = 4096\<rparr>"

lemma iova_ex_inv: "iova_inv 16384 iova_ex"
  by (simp add: iova_ex_def iova_inv_def space_inv_def space_bounds_def wf_chunk_def cstart_def cend_def crange_def)

lemma iova_ex_fresh: "iova_fresh (Some 2) iova_ex"
  by (simp add: iova_fresh_def iova_ex_def)

lemma iova_ex_request: "iova_request (Some 2) 4096 iova_ex = Some (2, iova_ex2)"
  by (simp add: iova_request_def iova_mngr_block_reserve_def iova_ex_def iova_ex2_def update_node_def)

lemma iova_ex2_inv: "iova_inv 16384 iova_ex2"
proof -
  have "{8192..<16384::nat} \<union> {4096..<8192} = {4096..<16384}" by auto
  then show ?thesis
    by (simp add: iova_ex2_def iova_inv_def space_inv_def space_bounds_def wf_chunk_def cstart_def cend_def
        crange_def)
qed

lemma iova_ex2_live: "iova_live iova_ex2 2 = Some (4096, 8192)"
  by (simp add: iova_live_def live_range_def chunk_at_def iova_ex2_def cstart_def cend_def)

theorem iova_reserve_best_fit_witness:
  "(\<exists>ctx'. iova_mngr_block_reserve (Some iova_ex) 4096 None (Some 2) = (Inr (2, 4096, 0), Some ctx') \<and>
     iova_inv 16384 ctx' \<and> iova_free ctx' = iova_free iova_ex - {4096..<8192}) \<and>
   iova_mngr_block_reserve (Some iova_ex) 4096 None None = (Inl ENOMEM, Some iova_ex) \<and>
   4096 \<notin> csize ` set (free_list iova_ex)"
proof -
  have eq: "iova_mngr_block_reserve (Some iova_ex) 4096 None (Some 2) = (Inr (2, 4096, 0), Some iova_ex2)"
    "iova_mngr_block_reserve (Some iova_ex) 4096 None None = (Inl ENOMEM, Some iova_ex)"
    by (simp_all add: iova_mngr_block_reserve_def iova_ex_def iova_ex2_def update_node_def)
  have nz: "(4096 :: u64) \<noteq> 0" by simp
  have fr: "iova_fresh None iova_ex" by (simp add: iova_fresh_def)
  from iova_reserve_best_fit [OF iova_ex_inv iova_ex_fresh nz, unfolded eq(1)]
    iova_reserve_best_fit [OF iova_ex_inv fr nz, unfolded eq(2)] eq show ?thesis by auto
qed

theorem iova_release_coalesces_witness:
  "\<exists>ctx'. iova_mngr_block_release (Some iova_ex2) (Some 2) = Some (Inr (), None, Some ctx') \<and>
     iova_inv 16384 ctx' \<and> iova_free ctx' = iova_free iova_ex2 \<union> {4096..<8192}"
  using iova_release_coalesces [OF iova_ex2_inv iova_ex2_live] by blast

theorem iova_run_partitions_witness:
  "iova_inv 16384 iova_ex2 \<and> iova_free iova_ex2 \<inter> iova.live_space iova_ex2 = {}"
proof -
  have "iova.client_step iova_ex iova_ex2"
    by (rule iova.step_request [OF iova_ex_fresh _ iova_ex_request]) simp
  then have "iova.client_step\<^sup>*\<^sup>* iova_ex iova_ex2" by simp
  from iova_run_partitions [OF this iova_ex_inv] show ?thesis by blast
qed

theorem iova_reserve_release_roundtrip_witness:
  "\<exists>ctx''. iova_give_back 2 iova_ex2 = Some (True, ctx'') \<and> iova_free ctx'' = iova_free iova_ex"
proof -
  have "(4096 :: u64) \<noteq> 0" by simp
  from iova_reserve_release_roundtrip [OF iova_ex_inv iova_ex_fresh this iova_ex_request] show ?thesis by blast
qed

theorem iova_deinit_one_block_witness:
  "iova_mngr_deinit (Some iova_ex2) = Some None \<and>
     (\<exists>ctx' c. iova_mngr_deinit_release iova_ex2 (reserved_list iova_ex2) = Some ctx' \<and> free_list ctx' = [c] \<and>
        cstart c = 4096 \<and> cend c = 16384)"
proof -
  have lt: "unat (base_address iova_ex2) < 16384" and b: "unat (base_address iova_ex2) = 4096"
    by (simp_all add: iova_ex2_def)
  from iova_deinit_one_block [OF iova_ex2_inv lt] b show ?thesis by auto
qed

theorem iova_init_outcomes_witness:
  "iova_mngr_init (Some ''pool'') 4096 12288 (Some None) True False True (Some 1) = None \<and>
   (\<exists>ctx. iova_mngr_init (Some ''pool'') 4096 12288 (Some None) True True True (Some 1) = Some (Inr ctx) \<and>
      iova_inv 16384 ctx)"
proof -
  have h: "(4096 :: u64) \<noteq> 0" "(12288 :: u64) \<noteq> 0" "unat (4096 :: u64) + unat (12288 :: u64) \<le> 2 ^ 64" by simp_all
  from iova_init_outcomes [OF h, of "''pool''" False True 1] iova_init_outcomes [OF h, of "''pool''" True True 1]
  show ?thesis by auto
qed

end
