(* ===== verification/Mem_Manager.thy ===== *)
theory Mem_Manager imports Chunk_List Range_Alloc begin

text \<open>
  The ADSP memory manager (\<^verbatim>\<open>drivers/platform/tegra/nvadsp/mem_manager.c\<close>), which hands out ranges of
  ARAM and of the DRAM for ADSP applications: named chunks on a free list sorted by address and an
  allocation list.  Each function takes \<open>mm_info->lock\<close> for its whole body and is one atomic step.
  A \<open>kzalloc\<close> is an argument: the address of the new element, or \<open>None\<close>/\<open>False\<close> when it fails.
\<close>

section \<open>State\<close>

record mem_chunk = chunk +
  chunk_name :: string

record mem_manager_info =
  alloc_list :: "mem_chunk list"
  mfree_list :: "mem_chunk list"
  mm_name :: string
  start_address :: u64
  mm_size :: u64

definition NAME_SIZE :: nat where
  "NAME_SIZE = 16"

text \<open>\<open>strscpy(dst, src, NAME_SIZE)\<close> keeps room for the terminating NUL.\<close>

definition strscpy :: "string \<Rightarrow> string" where
  "strscpy src = take (NAME_SIZE - 1) src"

section \<open>Operations\<close>

text \<open>The search of the allocation list for the first larger address; \<open>None\<close> when there is none.\<close>

fun insert_before :: "mem_chunk \<Rightarrow> mem_chunk list \<Rightarrow> mem_chunk list option" where
  "insert_before c [] = None"
| "insert_before c (m # ms) =
     (if address c < address m then Some (c # m # ms) else map_option ((#) m) (insert_before c ms))"

definition mem_request ::
  "mem_manager_info \<Rightarrow> string \<Rightarrow> u64 \<Rightarrow> nat option \<Rightarrow> (errno + nat) \<times> mem_manager_info" where
  "mem_request mm name sz kz =
     (if mfree_list mm = [] then (Inl ENOMEM, mm)
      else case best_fit sz None (mfree_list mm) of
        None \<Rightarrow> (Inl ENOMEM, mm)
      | Some best \<Rightarrow>
        if csize best = sz then
          (let mc = best\<lparr>chunk_name := strscpy name\<rparr> in
           (Inr (node best),
            mm\<lparr>mfree_list := list_del (node best) (mfree_list mm),
               alloc_list := (case insert_before mc (alloc_list mm) of
                    Some al \<Rightarrow> al
                  | None \<Rightarrow> mc # alloc_list mm)\<rparr>))
        else (case kz of
            None \<Rightarrow> (Inl ENOMEM, mm)
          | Some n \<Rightarrow>
            let new_mc = \<lparr>node = n, address = address best, csize = sz, chunk_name = strscpy name\<rparr> in
            (Inr n,
             mm\<lparr>mfree_list := update_node (node best)
                   (\<lambda>b. b\<lparr>address := address b + sz, csize := csize b - sz\<rparr>) (mfree_list mm),
                alloc_list := (case insert_before new_mc (alloc_list mm) of
                    Some al \<Rightarrow> al
                  | None \<Rightarrow> alloc_list mm @ [new_mc])\<rparr>)))"

text \<open>
  \<open>mem_release\<close>: \<open>None\<close> when the handle is not an allocated chunk (a dangling pointer in C).  Unlike
  the IOVA manager, nothing is done when the walk over the free list ends without a larger address:
  the function returns \<open>false\<close> and the chunk stays allocated.
\<close>

definition mem_release :: "mem_manager_info \<Rightarrow> nat \<Rightarrow> (bool \<times> mem_manager_info) option" where
  "mem_release mm h =
     (case chunk_at h (alloc_list mm) of
        None \<Rightarrow> None
      | Some mc \<Rightarrow>
        (case release_scan (mc\<lparr>chunk_name := ''FREE''\<rparr>) None (mfree_list mm) of
           Some fl \<Rightarrow> Some (True, mm\<lparr>mfree_list := fl, alloc_list := list_del h (alloc_list mm)\<rparr>)
         | None \<Rightarrow> Some (False, mm)))"

definition mem_get_address :: "mem_manager_info \<Rightarrow> nat \<Rightarrow> u64 option" where
  "mem_get_address mm h = map_option address (chunk_at h (alloc_list mm))"

text \<open>\<open>clear_alloc_list\<close>: \<open>list_for_each_safe\<close> over the allocation list, results of the releases ignored.\<close>

fun clear_alloc_list :: "mem_manager_info \<Rightarrow> mem_chunk list \<Rightarrow> mem_manager_info option" where
  "clear_alloc_list mm [] = Some mm"
| "clear_alloc_list mm (mc # mcs) =
     (case mem_release mm (node mc) of
        None \<Rightarrow> None
      | Some (_, mm') \<Rightarrow> clear_alloc_list mm' mcs)"

definition create_mem_manager ::
  "string \<Rightarrow> u64 \<Rightarrow> u64 \<Rightarrow> bool \<Rightarrow> bool \<Rightarrow> bool \<Rightarrow> nat option \<Rightarrow> errno + mem_manager_info" where
  "create_mem_manager name start sz kz_info kz_alloc kz_free kz_mc =
     (if \<not> kz_info then Inl ENOMEM
      else if \<not> kz_alloc then Inl ENOMEM
      else if \<not> kz_free then Inl ENOMEM
      else case kz_mc of
        None \<Rightarrow> Inl ENOMEM
      | Some n \<Rightarrow>
        Inr \<lparr>alloc_list = [],
             mfree_list = [\<lparr>node = n, address = start, csize = sz, chunk_name = ''FREE''\<rparr>],
             mm_name = strscpy name, start_address = start, mm_size = sz\<rparr>)"

text \<open>
  \<open>destroy_mem_manager\<close> releases what is allocated, then deletes and frees the first element of the
  free list and frees the list heads.  With an empty free list that element is the list head itself,
  which is unlinked and freed twice: \<open>None\<close>.  Otherwise the result is the list of chunks that nobody
  frees any more.
\<close>

definition destroy_mem_manager :: "mem_manager_info \<Rightarrow> mem_chunk list option" where
  "destroy_mem_manager mm =
     (case clear_alloc_list mm (alloc_list mm) of
        None \<Rightarrow> None
      | Some mm' \<Rightarrow> (case mfree_list mm' of [] \<Rightarrow> None | _ # rest \<Rightarrow> Some (rest @ alloc_list mm')))"

section \<open>Invariant\<close>

definition mem_hi :: "mem_manager_info \<Rightarrow> nat" where
  "mem_hi mm = unat (start_address mm) + unat (mm_size mm)"

definition mem_inv :: "mem_manager_info \<Rightarrow> bool" where
  "mem_inv mm \<longleftrightarrow> space_inv (unat (start_address mm)) (mem_hi mm) (mfree_list mm) (alloc_list mm)"

definition mem_free :: "mem_manager_info \<Rightarrow> nat set" where
  "mem_free mm = cranges (mfree_list mm)"

definition mem_live :: "mem_manager_info \<Rightarrow> nat \<Rightarrow> (nat \<times> nat) option" where
  "mem_live mm = live_range (alloc_list mm)"

definition mem_fresh :: "string \<times> nat option \<Rightarrow> mem_manager_info \<Rightarrow> bool" where
  "mem_fresh k mm \<longleftrightarrow> (\<forall>n. snd k = Some n \<longrightarrow> n \<notin> node ` set (mfree_list mm @ alloc_list mm))"

lemma insert_before_split:
  "insert_before c cs = Some ds \<Longrightarrow> \<exists>us vs. cs = us @ vs \<and> ds = us @ c # vs"
proof (induction cs arbitrary: ds)
  case Nil
  then show ?case by simp
next
  case (Cons m ms)
  show ?case
  proof (cases "address c < address m")
    case True
    with Cons.prems have "m # ms = [] @ m # ms \<and> ds = [] @ c # m # ms" by simp
    then show ?thesis by blast
  next
    case False
    with Cons.prems obtain es where "insert_before c ms = Some es" "ds = m # es" by auto
    with Cons.IH obtain us vs where "ms = us @ vs" "ds = (m # us) @ c # vs" by force
    then show ?thesis by (metis append_Cons)
  qed
qed

lemma insert_before_or:
  "\<exists>us vs. cs = us @ vs \<and> (case insert_before c cs of Some al \<Rightarrow> al | None \<Rightarrow> c # cs) = us @ c # vs"
  "\<exists>us vs. cs = us @ vs \<and> (case insert_before c cs of Some al \<Rightarrow> al | None \<Rightarrow> cs @ [c]) = us @ c # vs"
  by (cases "insert_before c cs"; force dest: insert_before_split)+

section \<open>Request\<close>

lemma request_success:
  assumes inv: "mem_inv mm" and fr: "mem_fresh (nm, kz) mm" and sz: "sz \<noteq> 0"
    and eq: "mem_request mm nm sz kz = (Inr h, mm')"
  shows "\<exists>best c. best_fit sz None (mfree_list mm) = Some best \<and> c \<in> set (alloc_list mm') \<and> node c = h \<and>
    address c = address best \<and> csize c = sz \<and> chunk_name c = strscpy nm \<and>
    start_address mm' = start_address mm \<and> mm_size mm' = mm_size mm \<and> mem_inv mm' \<and> mem_live mm h = None \<and>
    mem_live mm' = (mem_live mm)(h \<mapsto> (cstart best, cstart best + unat sz)) \<and>
    {cstart best ..< cstart best + unat sz} \<subseteq> mem_free mm \<and>
    mem_free mm' = mem_free mm - {cstart best ..< cstart best + unat sz}"
proof -
  from eq obtain best where best: "best_fit sz None (mfree_list mm) = Some best"
    by (auto simp: mem_request_def split: if_split_asm option.split_asm)
  have "best \<in> set (mfree_list mm)" by (rule best_fit_Some(1) [OF best])
  then obtain xs ys where fl: "mfree_list mm = xs @ best # ys" using split_list by metis
  have "distinct (map node (mfree_list mm))" using inv by (simp add: mem_inv_def space_inv_def)
  then have dn: "distinct (map node (xs @ best # ys))" unfolding fl .
  let ?lo = "unat (start_address mm)" and ?hi = "mem_hi mm"
  have szp: "0 < unat sz" using sz by (simp add: unat_gt_0)
  have ne: "mfree_list mm \<noteq> []" using fl by simp
  let ?R = "{cstart best ..< cstart best + unat sz}"
  show ?thesis
  proof (cases "csize best = sz")
    case True
    let ?mc = "best\<lparr>chunk_name := strscpy nm\<rparr>"
    obtain us vs where al: "alloc_list mm = us @ vs"
      "(case insert_before ?mc (alloc_list mm) of Some al \<Rightarrow> al | None \<Rightarrow> ?mc # alloc_list mm) = us @ ?mc # vs"
      using insert_before_or(1) by metis
    let ?mm' = "mm\<lparr>mfree_list := xs @ ys, alloc_list := us @ ?mc # vs\<rparr>"
    have res: "h = node best" "mm' = ?mm'"
      using eq best True ne al(2) fl list_del_split [OF dn] by (simp_all add: mem_request_def Let_def)
    have si: "space_inv ?lo ?hi (xs @ best # ys) (us @ vs)" using inv fl al(1) by (simp add: mem_inv_def)
    note sp = space_take [OF si]
    have si': "space_inv ?lo ?hi (xs @ ys) (us @ ?mc # vs)"
      by (rule space_rename [OF sp(1)]) simp_all
    have dr: "distinct (map node (us @ ?mc # vs))" using si' by (simp add: space_inv_def)
    have "chunk_at (node best) (us @ vs) = None" using dr by (simp add: chunk_at_None image_Un)
    then have "mem_live mm h = None" using res(1) al(1) by (simp add: mem_live_def live_range_def)
    moreover have "mem_live ?mm' = (mem_live mm)(h \<mapsto> (cstart best, cstart best + unat sz))"
      using live_range_split(1) [OF dr] True res(1) al(1) by (simp add: mem_live_def cstart_def cend_def)
    moreover have "crange best = ?R" using True by (simp add: crange_def cstart_def cend_def)
    moreover have "mem_inv ?mm'" using si' by (simp add: mem_inv_def mem_hi_def)
    ultimately show ?thesis
      using best res sp(2) fl True by (intro exI [of _ best] exI [of _ ?mc]) (auto simp: mem_free_def)
  next
    case False
    from eq best False ne obtain n where n: "kz = Some n" by (auto simp: mem_request_def split: option.split_asm)
    let ?r = "\<lparr>node = n, address = address best, csize = sz, chunk_name = strscpy nm\<rparr>"
    let ?b = "best\<lparr>address := address best + sz, csize := csize best - sz\<rparr>"
    obtain us vs where al: "alloc_list mm = us @ vs"
      "(case insert_before ?r (alloc_list mm) of Some al \<Rightarrow> al | None \<Rightarrow> alloc_list mm @ [?r]) = us @ ?r # vs"
      using insert_before_or(2) by metis
    let ?mm' = "mm\<lparr>mfree_list := xs @ ?b # ys, alloc_list := us @ ?r # vs\<rparr>"
    have "mem_request mm nm sz kz = (Inr n, ?mm')"
      using best False ne n al(2) fl update_node_split [OF dn] by (simp add: mem_request_def Let_def)
    from trans [OF eq [symmetric] this]
    have res: "h = n" "mm' = ?mm'" unfolding prod.inject sum.inject by blast+
    have si: "space_inv ?lo ?hi (xs @ best # ys) (us @ vs)" using inv fl al(1) by (simp add: mem_inv_def)
    have "sz \<le> csize best" by (rule best_fit_Some(2) [OF best])
    with False have lt: "unat sz < unat (csize best)" by (metis order_le_neq_trans word_less_unat)
    have fresh: "node ?r \<notin> node ` set (xs @ best # ys @ us @ vs)"
      using fr n fl al(1) by (auto simp: mem_fresh_def)
    note sp = space_carve [OF si szp lt _ _ fresh, simplified]
    have dr: "distinct (map node (us @ ?r # vs))" using sp(1) by (simp add: space_inv_def)
    have "chunk_at n (us @ vs) = None" using dr by (simp add: chunk_at_None image_Un)
    then have "mem_live mm h = None" using res(1) al(1) by (simp add: mem_live_def live_range_def)
    moreover have "mem_live ?mm' = (mem_live mm)(h \<mapsto> (cstart best, cstart best + unat sz))"
      using live_range_split(1) [OF dr] res(1) al(1) by (simp add: mem_live_def cstart_def cend_def)
    moreover have "crange ?r = ?R" by (simp add: crange_def cstart_def cend_def)
    moreover have "mem_inv ?mm'" using sp(1) by (simp add: mem_inv_def mem_hi_def)
    ultimately show ?thesis
      using best res sp(2,3) fl by (intro exI [of _ best] exI [of _ ?r]) (auto simp: mem_free_def)
  qed
qed

section \<open>Release\<close>

lemma release_cases:
  assumes inv: "mem_inv mm" and lv: "mem_live mm h = Some (a, b)"
  shows "if \<exists>c \<in> set (mfree_list mm). a < cstart c
    then \<exists>mm'. mem_release mm h = Some (True, mm') \<and> start_address mm' = start_address mm \<and>
      mm_size mm' = mm_size mm \<and> alloc_list mm' = list_del h (alloc_list mm) \<and> mem_inv mm' \<and>
      mem_live mm' = (mem_live mm)(h := None) \<and> mem_free mm' = mem_free mm \<union> {a..<b}
    else mem_release mm h = Some (False, mm)"
proof -
  obtain mc where at: "chunk_at h (alloc_list mm) = Some mc" and ab: "a = cstart mc" "b = cend mc"
    using lv by (auto simp: mem_live_def live_range_def)
  have nh: "node mc = h" using chunk_at_Some [OF at] by simp
  obtain us vs where al: "alloc_list mm = us @ mc # vs" using chunk_at_Some [OF at] split_list by metis
  let ?r = "mc\<lparr>chunk_name := ''FREE''\<rparr>" and ?lo = "unat (start_address mm)" and ?hi = "mem_hi mm"
  have si: "space_inv ?lo ?hi (mfree_list mm) (us @ mc # vs)" using inv al by (simp add: mem_inv_def)
  have dr: "distinct (map node (us @ mc # vs))" using si by (simp add: space_inv_def)
  have r: "crange ?r = crange mc" "wf_chunk ?lo ?hi ?r = wf_chunk ?lo ?hi mc" "node ?r = node mc"
    by (simp_all add: crange_def wf_chunk_def cstart_def cend_def)
  have none: "release_scan ?r None (mfree_list mm) = None \<longleftrightarrow> \<not> (\<exists>c \<in> set (mfree_list mm). a < cstart c)"
    unfolding release_scan_None_iff using ab by (auto simp: cstart_def word_le_unat not_less)
  show ?thesis
  proof (cases "release_scan ?r None (mfree_list mm)")
    case None
    then show ?thesis using none at by (simp add: mem_release_def)
  next
    case (Some fl)
    have "crange mc \<inter> cranges (mfree_list mm) = {}" using si unfolding space_inv_def by auto
    then have ins: "inserted ?lo ?hi ?r (mfree_list mm) fl"
      using release_scan_inserted [of ?lo ?hi None "mfree_list mm" ?r fl] Some si r
      by (auto simp: space_inv_def)
    note sp = space_return [OF si ins r(1,3)]
    let ?mm' = "mm\<lparr>mfree_list := fl, alloc_list := us @ vs\<rparr>"
    have del: "list_del h (alloc_list mm) = us @ vs" using list_del_split [OF dr] nh al by simp
    have rel: "mem_release mm h = Some (True, ?mm')" using at Some del by (simp add: mem_release_def)
    have inv': "mem_inv ?mm'" using sp(1) by (simp add: mem_inv_def mem_hi_def)
    have lv': "mem_live ?mm' = (mem_live mm)(h := None)"
      using live_range_split(2) [OF dr] nh al by (simp add: mem_live_def)
    have fr': "mem_free ?mm' = mem_free mm \<union> {a..<b}" using sp(2) ab by (simp add: mem_free_def crange_def)
    have "\<exists>c \<in> set (mfree_list mm). a < cstart c" using none Some by auto
    then show ?thesis using rel inv' lv' fr' del by (auto intro: exI [of _ ?mm'])
  qed
qed

section \<open>The allocator contract\<close>

definition mem_try_request :: "string \<times> nat option \<Rightarrow> u64 \<Rightarrow> mem_manager_info \<Rightarrow> (nat \<times> mem_manager_info) option" where
  "mem_try_request k sz mm =
     (case mem_request mm (fst k) sz (snd k) of (Inr h, mm') \<Rightarrow> Some (h, mm') | (Inl _, _) \<Rightarrow> None)"

lemma mem_try_request_Some:
  assumes "mem_inv mm" and "mem_fresh k mm" and "n \<noteq> 0" and "mem_try_request k n mm = Some (h, mm')"
  shows "mem_inv mm' \<and> mem_live mm h = None \<and>
    (\<exists>a. mem_live mm' = (mem_live mm)(h \<mapsto> (a, a + unat n)) \<and> {a..<a + unat n} \<subseteq> mem_free mm \<and>
         mem_free mm' = mem_free mm - {a..<a + unat n})"
proof -
  have eq: "mem_request mm (fst k) n (snd k) = (Inr h, mm')"
    using assms(4) unfolding mem_try_request_def
    by (cases "mem_request mm (fst k) n (snd k)" rule: prod.exhaust) (auto split: sum.split_asm)
  have fr: "mem_fresh (fst k, snd k) mm" using assms(2) by simp
  show ?thesis using request_success [OF assms(1) fr assms(3) eq] by blast
qed

interpretation mem: range_allocator mem_inv mem_free mem_live mem_fresh mem_try_request "\<lambda>h mm. mem_release mm h"
proof (unfold_locales, goal_cases)
  case (1 s h a b h' a' b')
  then show ?case unfolding mem_inv_def mem_live_def by (rule space_live_disjoint)
next
  case (2 s h a b)
  then show ?case unfolding mem_inv_def mem_live_def mem_free_def by (rule space_live_free(1))
next
  case (3 s k n h s')
  then show ?case by (rule mem_try_request_Some)
next
  case (4 s h r)
  then show ?case using release_cases [of s h "fst r" "snd r"] by (auto split: if_split_asm)
next
  case (5 s h a b s')
  then show ?case using release_cases [of s h a b] by (simp split: if_split_asm)
next
  case (6 s h r s')
  then show ?case using release_cases [of s h "fst r" "snd r"] by (auto split: if_split_asm)
qed

section \<open>Tearing a manager down\<close>

text \<open>A free chunk at the top of the space makes every release succeed.\<close>

definition top_free :: "mem_manager_info \<Rightarrow> bool" where
  "top_free mm \<longleftrightarrow> (\<exists>c \<in> set (mfree_list mm). cend c = mem_hi mm)"

lemma top_free_range:
  assumes "mem_inv mm"
  shows "top_free mm \<longleftrightarrow> 0 < mem_hi mm \<and> mem_hi mm - 1 \<in> mem_free mm"
proof -
  have wf: "wf_chunk (unat (start_address mm)) (mem_hi mm) c" if "c \<in> set (mfree_list mm)" for c
    using assms that by (simp add: mem_inv_def space_inv_def)
  show ?thesis
  proof
    assume "top_free mm"
    then obtain c where c: "c \<in> set (mfree_list mm)" "cend c = mem_hi mm" by (auto simp: top_free_def)
    then have "mem_hi mm - 1 \<in> crange c" "0 < mem_hi mm"
      using wf_chunk_nonempty [OF wf [OF c(1)]] by (auto simp: crange_def)
    then show "0 < mem_hi mm \<and> mem_hi mm - 1 \<in> mem_free mm"
      using c(1) by (auto simp: mem_free_def cranges_def)
  next
    assume "0 < mem_hi mm \<and> mem_hi mm - 1 \<in> mem_free mm"
    then obtain c where c: "c \<in> set (mfree_list mm)" "mem_hi mm - 1 < cend c" "0 < mem_hi mm"
      by (auto simp: mem_free_def cranges_def crange_def)
    have "cend c \<le> mem_hi mm" using wf [OF c(1)] by (simp add: wf_chunk_def)
    with c(2,3) have "cend c = mem_hi mm" by linarith
    with c(1) show "top_free mm" by (auto simp: top_free_def)
  qed
qed

lemma top_free_above:
  assumes "mem_inv mm" and "top_free mm" and "mem_live mm h = Some (a, b)"
  shows "\<exists>c \<in> set (mfree_list mm). a < cstart c"
proof -
  obtain c where c: "c \<in> set (mfree_list mm)" "cend c = mem_hi mm" using assms(2) by (auto simp: top_free_def)
  note lf = space_live_free [OF assms(1) [unfolded mem_inv_def] assms(3) [unfolded mem_live_def]]
  have "wf_chunk (unat (start_address mm)) (mem_hi mm) c" using c(1) assms(1) by (simp add: mem_inv_def space_inv_def)
  then have "cstart c < cend c" by (rule wf_chunk_nonempty)
  have sub: "crange c \<subseteq> cranges (mfree_list mm)" using c(1) by (rule crange_in_cranges)
  have "\<not> cstart c \<le> a"
  proof
    assume that: "cstart c \<le> a"
    have "a \<in> {a..<b}" "a < mem_hi mm" using lf(2,3) by auto
    then have "a \<in> crange c" using that c(2) by (simp add: crange_def)
    with sub lf(1,3) show False by auto
  qed
  then show ?thesis using c(1) by (auto simp: not_le)
qed

lemma clear_all:
  assumes "mem_inv mm" and "top_free mm" and "alloc_list mm = mcs"
  shows "\<exists>mm'. clear_alloc_list mm mcs = Some mm' \<and> alloc_list mm' = [] \<and> mem_inv mm' \<and>
    start_address mm' = start_address mm \<and> mm_size mm' = mm_size mm"
  using assms
proof (induction mcs arbitrary: mm)
  case Nil
  then show ?case by simp
next
  case (Cons m ms)
  have dn: "distinct (map node ([] @ m # ms))" using Cons.prems(1,3) by (simp add: mem_inv_def space_inv_def)
  have lv: "mem_live mm (node m) = Some (cstart m, cend m)"
    using Cons.prems(3) by (simp add: mem_live_def live_range_def chunk_at_Cons)
  have ab: "\<exists>c \<in> set (mfree_list mm). cstart m < cstart c" by (rule top_free_above [OF Cons.prems(1,2) lv])
  obtain m1 where m1: "mem_release mm (node m) = Some (True, m1)" "start_address m1 = start_address mm"
    "mm_size m1 = mm_size mm" "alloc_list m1 = list_del (node m) (alloc_list mm)" "mem_inv m1"
    "mem_free m1 = mem_free mm \<union> {cstart m..<cend m}"
    using release_cases [OF Cons.prems(1) lv] ab by auto
  have hi: "mem_hi m1 = mem_hi mm" using m1(2,3) by (simp add: mem_hi_def)
  have "top_free m1" using Cons.prems(2) top_free_range [OF Cons.prems(1)] top_free_range [OF m1(5)] m1(6) hi by simp
  moreover have "alloc_list m1 = ms" using m1(4) Cons.prems(3) list_del_split [OF dn] by simp
  ultimately obtain mm' where "clear_alloc_list m1 ms = Some mm'" "alloc_list mm' = []" "mem_inv mm'"
    "start_address mm' = start_address m1" "mm_size mm' = mm_size m1"
    using Cons.IH [OF m1(5)] by blast
  with m1(1-3) show ?case by auto
qed

lemma clear_stuck:
  assumes "mem_inv mm" and "mfree_list mm = []" and "set mcs \<subseteq> set (alloc_list mm)"
  shows "clear_alloc_list mm mcs = Some mm"
  using assms(3)
proof (induction mcs)
  case Nil
  then show ?case by simp
next
  case (Cons m ms)
  have "distinct (map node (alloc_list mm))" using assms(1) by (simp add: mem_inv_def space_inv_def)
  then have "chunk_at (node m) (alloc_list mm) = Some m" using Cons.prems by (intro chunk_at_mem) simp_all
  then have lv: "mem_live mm (node m) = Some (cstart m, cend m)" by (simp add: mem_live_def live_range_def)
  have "mem_release mm (node m) = Some (False, mm)" using release_cases [OF assms(1) lv] assms(2) by simp
  with Cons show ?case by simp
qed

section \<open>Properties\<close>

text \<open>C20: a request is best fit: it returns the front of the smallest free chunk that is large enough,
  named by the caller's name cut to 15 characters, or fails with ENOMEM and changes nothing when no
  free chunk is large enough.\<close>

theorem mem_request_best_fit:
  assumes "mem_inv mm" and "mem_fresh (nm, Some n) mm" and "sz \<noteq> 0"
  shows "case mem_request mm nm sz (Some n) of
      (Inl e, mm') \<Rightarrow> e = ENOMEM \<and> mm' = mm \<and> (\<forall>c \<in> set (mfree_list mm). csize c < sz)
    | (Inr h, mm') \<Rightarrow>
        (\<exists>best \<in> set (mfree_list mm). mem_get_address mm' h = Some (address best) \<and>
          (\<forall>c \<in> set (mfree_list mm). sz \<le> csize c \<longrightarrow> csize best \<le> csize c) \<and>
          {cstart best ..< cstart best + unat sz} \<subseteq> mem_free mm \<and>
          mem_free mm' = mem_free mm - {cstart best ..< cstart best + unat sz} \<and>
          mem_live mm' = (mem_live mm)(h \<mapsto> (cstart best, cstart best + unat sz))) \<and>
        map_option chunk_name (chunk_at h (alloc_list mm')) = Some (take 15 nm) \<and>
        mem_live mm h = None \<and> mem_inv mm'"
proof (cases "mem_request mm nm sz (Some n)")
  case (Pair r mm')
  show ?thesis
  proof (cases r)
    case (Inl e)
    have "e = ENOMEM \<and> mm' = mm \<and> (mfree_list mm = [] \<or> best_fit sz None (mfree_list mm) = None)"
      using Pair Inl by (auto simp: mem_request_def Let_def split: if_split_asm option.split_asm)
    then show ?thesis using Pair Inl by (auto simp: best_fit_None)
  next
    case (Inr h)
    note eq = Pair [unfolded Inr]
    obtain best c where bc: "best_fit sz None (mfree_list mm) = Some best" "c \<in> set (alloc_list mm')" "node c = h"
      "address c = address best" "chunk_name c = strscpy nm" "mem_inv mm'" "mem_live mm h = None"
      "mem_live mm' = (mem_live mm)(h \<mapsto> (cstart best, cstart best + unat sz))"
      "{cstart best ..< cstart best + unat sz} \<subseteq> mem_free mm"
      "mem_free mm' = mem_free mm - {cstart best ..< cstart best + unat sz}"
      using request_success [OF assms eq] by blast
    have "distinct (map node (alloc_list mm'))" using bc(6) by (simp add: mem_inv_def space_inv_def)
    then have at: "chunk_at h (alloc_list mm') = Some c" using bc(2,3) chunk_at_mem by blast
    show ?thesis unfolding eq prod.case sum.case
      using bc at best_fit_Some [OF bc(1)] by (auto simp: mem_get_address_def strscpy_def NAME_SIZE_def)
  qed
qed

text \<open>A release succeeds exactly when some free chunk lies above the released one.  Then the range
  returns to the free space with its neighbours merged; otherwise the function returns false and the
  chunk stays allocated.\<close>

theorem mem_release_iff_free_above:
  assumes "mem_inv mm" and "mem_live mm h = Some (a, b)"
  shows "if \<exists>c \<in> set (mfree_list mm). a < cstart c
    then \<exists>mm'. mem_release mm h = Some (True, mm') \<and> mem_inv mm' \<and> gap_sorted (mfree_list mm') \<and>
      mem_live mm' = (mem_live mm)(h := None) \<and> mem_free mm' = mem_free mm \<union> {a..<b}
    else mem_release mm h = Some (False, mm)"
proof (cases "\<exists>c \<in> set (mfree_list mm). a < cstart c")
  case True
  then obtain mm' where "mem_release mm h = Some (True, mm')" "mem_inv mm'"
    "mem_live mm' = (mem_live mm)(h := None)" "mem_free mm' = mem_free mm \<union> {a..<b}"
    using release_cases [OF assms] by auto
  moreover from this(2) have "gap_sorted (mfree_list mm')" by (simp add: mem_inv_def space_inv_def)
  ultimately show ?thesis using True by simp
next
  case False
  with release_cases [OF assms] show ?thesis by simp
qed

text \<open>Whatever sequence of requests and releases is performed, the managed memory stays split
  without overlap into free memory and allocated chunks.\<close>

theorem mem_run_partitions:
  assumes "mem.client_step\<^sup>*\<^sup>* s t" and "mem_inv s"
  shows "mem_inv t \<and> mem_free t \<union> mem.live_space t = mem_free s \<union> mem.live_space s \<and>
    mem_free t \<inter> mem.live_space t = {}"
  using assms by (rule mem.client_run_sound)

text \<open>Destroying a manager frees everything when the top of the memory is free, whatever is still
  allocated; but a manager whose memory is fully allocated never gets any of it back: every release
  is refused, and destroying it unlinks and frees the list head as if it were a chunk.\<close>

theorem mem_destroy_outcomes:
  assumes "mem_inv mm"
  shows "(top_free mm \<longrightarrow> destroy_mem_manager mm = Some []) \<and>
    (mfree_list mm = [] \<longrightarrow> destroy_mem_manager mm = None \<and>
       (\<forall>h \<in> dom (mem_live mm). mem_release mm h = Some (False, mm)))"
proof (intro conjI impI ballI)
  assume top: "top_free mm"
  obtain mm' where mm': "clear_alloc_list mm (alloc_list mm) = Some mm'" "alloc_list mm' = []" "mem_inv mm'"
    "start_address mm' = start_address mm" "mm_size mm' = mm_size mm"
    using clear_all [OF assms top refl] by blast
  have hi: "mem_hi mm' = mem_hi mm" using mm'(4,5) by (simp add: mem_hi_def)
  have "unat (start_address mm) < mem_hi mm"
  proof -
    obtain c where "c \<in> set (mfree_list mm)" using top by (auto simp: top_free_def)
    then have "wf_chunk (unat (start_address mm)) (mem_hi mm) c" using assms by (simp add: mem_inv_def space_inv_def)
    then show ?thesis using wf_chunk_nonempty [of "unat (start_address mm)" "mem_hi mm" c] by (simp add: wf_chunk_def)
  qed
  then have "\<exists>c. mfree_list mm' = [c] \<and> cstart c = unat (start_address mm) \<and> cend c = mem_hi mm"
    using mm'(2-4) hi by (intro coalesced_interval) (auto simp: mem_inv_def space_inv_def)
  then show "destroy_mem_manager mm = Some []" using mm'(1,2) by (auto simp: destroy_mem_manager_def)
next
  assume "mfree_list mm = []"
  then show "destroy_mem_manager mm = None"
    using clear_stuck [OF assms, of "alloc_list mm"] by (simp add: destroy_mem_manager_def)
next
  fix h assume "mfree_list mm = []" "h \<in> dom (mem_live mm)"
  then show "mem_release mm h = Some (False, mm)" using release_cases [OF assms] by fastforce
qed

section \<open>Concrete runs\<close>

definition mem_ex :: mem_manager_info where
  "mem_ex = \<lparr>alloc_list = [], mfree_list = [\<lparr>node = 1, address = 4096, csize = 8192, chunk_name = ''FREE''\<rparr>],
     mm_name = ''ARAM'', start_address = 4096, mm_size = 8192\<rparr>"

definition mem_ex2 :: mem_manager_info where
  "mem_ex2 = \<lparr>alloc_list = [\<lparr>node = 2, address = 4096, csize = 4096, chunk_name = ''app''\<rparr>],
     mfree_list = [\<lparr>node = 1, address = 8192, csize = 4096, chunk_name = ''FREE''\<rparr>],
     mm_name = ''ARAM'', start_address = 4096, mm_size = 8192\<rparr>"

definition mem_ex_full :: mem_manager_info where
  "mem_ex_full = \<lparr>alloc_list = [\<lparr>node = 1, address = 4096, csize = 8192, chunk_name = ''app''\<rparr>],
     mfree_list = [], mm_name = ''ARAM'', start_address = 4096, mm_size = 8192\<rparr>"

lemma mem_ex_created: "create_mem_manager ''ARAM'' 4096 8192 True True True (Some 1) = Inr mem_ex"
  by (simp add: create_mem_manager_def mem_ex_def strscpy_def NAME_SIZE_def)

lemmas mem_inv_eval = mem_inv_def mem_hi_def space_inv_def space_bounds_def wf_chunk_def cstart_def cend_def crange_def

lemma mem_ex_inv: "mem_inv mem_ex"
  by (simp add: mem_ex_def mem_inv_eval)

lemma mem_ex_full_inv: "mem_inv mem_ex_full"
  by (simp add: mem_ex_full_def mem_inv_eval)

lemma mem_ex2_inv: "mem_inv mem_ex2"
proof -
  have "{8192..<12288::nat} \<union> {4096..<8192} = {4096..<12288}" by auto
  then show ?thesis by (simp add: mem_ex2_def mem_inv_eval)
qed

lemma mem_ex_fresh: "mem_fresh (''app'', Some 2) mem_ex"
  by (simp add: mem_fresh_def mem_ex_def)

lemma mem_ex_request: "mem_request mem_ex ''app'' 4096 (Some 2) = (Inr 2, mem_ex2)"
  by (simp add: mem_request_def mem_ex_def mem_ex2_def update_node_def strscpy_def NAME_SIZE_def)

lemma mem_ex_full_request: "mem_request mem_ex ''app'' 8192 None = (Inr 1, mem_ex_full)"
  by (simp add: mem_request_def mem_ex_def mem_ex_full_def list_del_def strscpy_def NAME_SIZE_def)

lemma mem_ex2_live: "mem_live mem_ex2 2 = Some (4096, 8192)"
  by (simp add: mem_live_def live_range_def chunk_at_def mem_ex2_def cstart_def cend_def)

theorem mem_request_best_fit_witness:
  "mem_request mem_ex ''app'' 4096 (Some 2) = (Inr 2, mem_ex2) \<and> mem_inv mem_ex2 \<and>
   mem_get_address mem_ex2 2 = Some 4096"
proof -
  have "(4096 :: u64) \<noteq> 0" by simp
  from mem_request_best_fit [OF mem_ex_inv mem_ex_fresh this, unfolded mem_ex_request prod.case sum.case]
  have "mem_inv mem_ex2" by blast
  then show ?thesis by (simp add: mem_ex_request mem_get_address_def chunk_at_def mem_ex2_def)
qed

theorem mem_release_iff_free_above_witness:
  "(\<exists>mm'. mem_release mem_ex2 2 = Some (True, mm') \<and> mem_inv mm' \<and> mem_free mm' = mem_free mem_ex2 \<union> {4096..<8192}) \<and>
   mem_release mem_ex_full 1 = Some (False, mem_ex_full)"
proof -
  have above: "\<exists>c \<in> set (mfree_list mem_ex2). 4096 < cstart c" by (simp add: mem_ex2_def cstart_def)
  have lv: "mem_live mem_ex_full 1 = Some (4096, 12288)"
    by (simp add: mem_live_def live_range_def chunk_at_def mem_ex_full_def cstart_def cend_def)
  have "mfree_list mem_ex_full = []" by (simp add: mem_ex_full_def)
  with mem_release_iff_free_above [OF mem_ex2_inv mem_ex2_live] above
    mem_release_iff_free_above [OF mem_ex_full_inv lv] show ?thesis by auto
qed

theorem mem_run_partitions_witness:
  "mem_inv mem_ex2 \<and> mem_free mem_ex2 \<inter> mem.live_space mem_ex2 = {}"
proof -
  have "mem_try_request (''app'', Some 2) 4096 mem_ex = Some (2, mem_ex2)"
    by (simp add: mem_try_request_def mem_ex_request)
  then have "mem.client_step mem_ex mem_ex2"
    by (rule mem.step_request [OF mem_ex_fresh, rotated]) simp
  then have "mem.client_step\<^sup>*\<^sup>* mem_ex mem_ex2" by simp
  from mem_run_partitions [OF this mem_ex_inv] show ?thesis by blast
qed

theorem mem_destroy_outcomes_witness:
  "destroy_mem_manager mem_ex2 = Some [] \<and> destroy_mem_manager mem_ex_full = None"
proof -
  have "top_free mem_ex2" "mfree_list mem_ex_full = []"
    by (simp_all add: top_free_def mem_ex2_def mem_ex_full_def mem_hi_def cend_def)
  with mem_destroy_outcomes [OF mem_ex2_inv] mem_destroy_outcomes [OF mem_ex_full_inv] show ?thesis by blast
qed

end
