(* ===== verification/Fifo.thy ===== *)
theory Fifo imports Prelude begin

text \<open>
  Bounded first-in first-out queues: the contract as a locale, with what clients get from it, and the
  arithmetic of rings addressed with a power-of-two mask, on which the mailbox queues of the ADSP
  driver are built.
\<close>

section \<open>The contract\<close>

datatype 'a fifo_op = Put 'a | Get

text \<open>Running a sequence of operations: the elements accepted, those delivered, the final queue.\<close>

fun fifo_run ::
  "('q \<Rightarrow> 'a \<Rightarrow> (errno + unit) \<times> 'q) \<Rightarrow> ('q \<Rightarrow> (errno + 'a) \<times> 'q) \<Rightarrow> 'a fifo_op list \<Rightarrow> 'q \<Rightarrow>
    'a list \<times> 'a list \<times> 'q" where
  "fifo_run enq deq [] q = ([], [], q)"
| "fifo_run enq deq (Put x # ops) q =
     (case enq q x of (r, q') \<Rightarrow>
       (case fifo_run enq deq ops q' of (acc, del, q'') \<Rightarrow> (if isl r then acc else x # acc, del, q'')))"
| "fifo_run enq deq (Get # ops) q =
     (case deq q of (r, q') \<Rightarrow>
       (case fifo_run enq deq ops q' of (acc, del, q'') \<Rightarrow>
         (acc, case r of Inl e \<Rightarrow> del | Inr x \<Rightarrow> x # del, q'')))"

locale bounded_fifo =
  fixes inv :: "'q \<Rightarrow> bool"
    and contents :: "'q \<Rightarrow> 'a list"
    and cap :: nat
    and enq :: "'q \<Rightarrow> 'a \<Rightarrow> (errno + unit) \<times> 'q"
    and deq :: "'q \<Rightarrow> (errno + 'a) \<times> 'q"
    and efull eempty :: errno
  assumes bound: "inv q \<Longrightarrow> length (contents q) \<le> cap"
    and enq_space: "inv q \<Longrightarrow> length (contents q) < cap \<Longrightarrow> enq q x = (r, q') \<Longrightarrow>
      r = Inr () \<and> inv q' \<and> contents q' = contents q @ [x]"
    and enq_full: "inv q \<Longrightarrow> length (contents q) = cap \<Longrightarrow> enq q x = (r, q') \<Longrightarrow>
      r = Inl efull \<and> inv q' \<and> contents q' = contents q"
    and deq_some: "inv q \<Longrightarrow> contents q = x # xs \<Longrightarrow> deq q = (d, q') \<Longrightarrow>
      d = Inr x \<and> inv q' \<and> contents q' = xs"
    and deq_none: "inv q \<Longrightarrow> contents q = [] \<Longrightarrow> deq q = (d, q') \<Longrightarrow>
      d = Inl eempty \<and> inv q' \<and> contents q' = []"
begin

lemma enq_step:
  assumes "inv q" and "enq q x = (r, q')"
  shows "inv q' \<and> r = (if length (contents q) < cap then Inr () else Inl efull) \<and>
    contents q' = contents q @ (if isl r then [] else [x])"
  using enq_space [OF assms(1) _ assms(2)] enq_full [OF assms(1) _ assms(2)] bound [OF assms(1)]
  by (cases "length (contents q) < cap") auto

lemma deq_step:
  assumes "inv q" and "deq q = (r, q')"
  shows "inv q' \<and> contents q = (case r of Inr x \<Rightarrow> [x] | Inl e \<Rightarrow> []) @ contents q' \<and>
    r = (case contents q of [] \<Rightarrow> Inl eempty | x # xs \<Rightarrow> Inr x)"
  using deq_some [OF assms(1) _ assms(2)] deq_none [OF assms(1) _ assms(2)]
  by (cases "contents q") auto

text \<open>Nothing is lost, duplicated or reordered: what went in is what came out followed by what is left.\<close>

lemma run_fifo:
  assumes "inv q" and "fifo_run enq deq ops q = (acc, del, q')"
  shows "inv q' \<and> contents q @ acc = del @ contents q'"
  using assms
proof (induction ops arbitrary: q acc del q')
  case Nil
  then show ?case by simp
next
  case (Cons op ops)
  show ?case
  proof (cases op)
    case (Put x)
    obtain r q1 where e: "enq q x = (r, q1)" by fastforce
    obtain acc1 del1 q2 where f: "fifo_run enq deq ops q1 = (acc1, del1, q2)" by (rule prod_cases3)
    have st: "inv q1" "contents q1 = contents q @ (if isl r then [] else [x])"
      using enq_step [OF Cons.prems(1) e] by simp_all
    from Cons.IH [OF st(1) f] st(2) Cons.prems(2) Put e f show ?thesis by (cases r) auto
  next
    case Get
    obtain r q1 where e: "deq q = (r, q1)" by fastforce
    obtain acc1 del1 q2 where f: "fifo_run enq deq ops q1 = (acc1, del1, q2)" by (rule prod_cases3)
    have st: "inv q1" "contents q = (case r of Inr y \<Rightarrow> [y] | Inl e \<Rightarrow> []) @ contents q1"
      using deq_step [OF Cons.prems(1) e] by blast+
    have fin: "acc = acc1" "del = (case r of Inl e \<Rightarrow> del1 | Inr x \<Rightarrow> x # del1)" "q' = q2"
      using Cons.prems(2) Get e f by simp_all
    show ?thesis unfolding fin st(2) using Cons.IH [OF st(1) f] by (cases r) simp_all
  qed
qed

end

section \<open>Rings\<close>

definition ring_contents :: "'a list \<Rightarrow> nat \<Rightarrow> nat \<Rightarrow> 'a list" where
  "ring_contents arr h c = map (\<lambda>i. arr ! ((h + i) mod length arr)) [0..<c]"

lemma length_ring_contents [simp]: "length (ring_contents arr h c) = c"
  by (simp add: ring_contents_def)

lemma ring_contents_0 [simp]: "ring_contents arr h 0 = []"
  by (simp add: ring_contents_def)

lemma mod_add_inj:
  fixes h i c n :: nat
  assumes "(h + i) mod n = (h + c) mod n" and "i < n" and "c < n"
  shows "i = c"
proof -
  have "int n dvd int (h + i) - int (h + c)"
    using assms(1) by (simp only: mod_eq_dvd_iff [symmetric] of_nat_mod [symmetric])
  then have "int n dvd int i - int c" by simp
  then show ?thesis using assms(2,3) zdvd_not_zless [of "int i - int c" "int n"] zdvd_not_zless [of "int c - int i" "int n"]
    by (cases i c rule: linorder_cases) (auto simp: dvd_diff_commute)
qed

lemma ring_put:
  assumes "c < length arr"
  shows "ring_contents (arr[(h + c) mod length arr := x]) h (Suc c) = ring_contents arr h c @ [x]"
proof -
  let ?n = "length arr"
  have n: "(h + c) mod ?n < ?n" using assms by (intro mod_less_divisor) linarith
  have "(h + i) mod ?n \<noteq> (h + c) mod ?n" if "i < c" for i
    using mod_add_inj [of h i ?n c] that assms by auto
  then have "map (\<lambda>i. arr[(h + c) mod ?n := x] ! ((h + i) mod ?n)) [0..<c] = ring_contents arr h c"
    unfolding ring_contents_def by (intro map_cong refl nth_list_update_neq) (metis atLeastLessThan_iff set_upt)
  then show ?thesis using n by (simp add: ring_contents_def)
qed

lemma ring_get:
  assumes "h < length arr" and "0 < c"
  shows "ring_contents arr h c = arr ! h # ring_contents arr (Suc h mod length arr) (c - 1)"
proof -
  obtain k where k: "c = Suc k" using assms(2) by (cases c) auto
  have "[0..<Suc k] = 0 # map Suc [0..<k]" by (simp add: map_Suc_upt upt_conv_Cons)
  then show ?thesis using assms(1)
    by (simp add: ring_contents_def k mod_simps del: upt_Suc)
qed

text \<open>A mask \<open>2 ^ k - 1\<close> on a 16-bit index is the remainder.\<close>

lemma unat_and_mask16:
  fixes x :: u16
  assumes "k < 16"
  shows "unat (x AND mask k) = unat x mod 2 ^ k"
  by (simp only: take_bit_eq_mask [symmetric] unsigned_take_bit_eq) (simp add: take_bit_eq_mod)

end
