(* ===== verification/Adsp_Queue.thy ===== *)
theory Adsp_Queue imports Fifo begin

text \<open>
  The two message queues of the ADSP mailbox driver: \<open>nvadsp_mbox_queue\<close> (32 words, one per open
  mailbox, \<open>drivers/platform/tegra/nvadsp/mailbox.c\<close>) and \<open>hwmbox_queue\<close> (1024 words, the words that
  wait for the hardware mailbox, \<open>hwmailbox.c\<close>), each with a completion; and the layout of a hardware
  mailbox word (\<open>hwmailbox.h\<close>).  Both queues are shown to be bounded FIFOs.  The completion of a
  struct is its done flag: \<open>complete_all\<close> sets it for good, \<open>reinit_completion\<close> clears it.
\<close>

section \<open>The structs\<close>

text \<open>\<open>struct nvadsp_mbox_queue\<close> and \<open>struct hwmbox_queue\<close> differ in the length of the array only.\<close>

record mbox_queue =
  q_array :: "u32 list"
  q_head :: u16
  q_tail :: u16
  q_count :: u16
  q_comp :: bool

definition NVADSP_MBOX_QUEUE_SIZE :: u16 where "NVADSP_MBOX_QUEUE_SIZE = 32"
definition NVADSP_MBOX_QUEUE_SIZE_MASK :: u16 where "NVADSP_MBOX_QUEUE_SIZE_MASK = NVADSP_MBOX_QUEUE_SIZE - 1"
definition HWMBOX_QUEUE_SIZE :: u16 where "HWMBOX_QUEUE_SIZE = 1024"
definition HWMBOX_QUEUE_SIZE_MASK :: u16 where "HWMBOX_QUEUE_SIZE_MASK = HWMBOX_QUEUE_SIZE - 1"

section \<open>Mailbox queues\<close>

definition is_mboxq_empty :: "mbox_queue \<Rightarrow> bool" where
  "is_mboxq_empty q = (q_count q = 0)"

definition is_mboxq_full :: "mbox_queue \<Rightarrow> bool" where
  "is_mboxq_full q = (q_count q = NVADSP_MBOX_QUEUE_SIZE)"

definition mboxq_init :: "mbox_queue \<Rightarrow> mbox_queue" where
  "mboxq_init q = q\<lparr>q_head := 0, q_tail := 0, q_count := 0, q_comp := False\<rparr>"

definition mboxq_destroy :: "mbox_queue \<Rightarrow> mbox_queue" where
  "mboxq_destroy q = q\<lparr>q_head := 0, q_tail := 0, q_count := 0\<rparr>"

text \<open>The critical section of the enqueue, which the code enters without testing again.\<close>

definition mboxq_enqueue_locked :: "mbox_queue \<Rightarrow> u32 \<Rightarrow> mbox_queue" where
  "mboxq_enqueue_locked q data =
     (let q = (if is_mboxq_empty q then q\<lparr>q_comp := True\<rparr> else q);
          q = q\<lparr>q_array := (q_array q)[unat (q_tail q) := data]\<rparr>;
          q = q\<lparr>q_tail := (q_tail q + 1) AND NVADSP_MBOX_QUEUE_SIZE_MASK\<rparr>
      in q\<lparr>q_count := q_count q + 1\<rparr>)"

definition mboxq_enqueue :: "mbox_queue \<Rightarrow> u32 \<Rightarrow> (errno + unit) \<times> mbox_queue" where
  "mboxq_enqueue q data =
     (if is_mboxq_full q then (Inl EINVAL, q) else (Inr (), mboxq_enqueue_locked q data))"

definition nvadsp_mboxq_enqueue :: "mbox_queue \<Rightarrow> u32 \<Rightarrow> (errno + unit) \<times> mbox_queue" where
  "nvadsp_mboxq_enqueue q data = mboxq_enqueue q data"

definition mboxq_dequeue :: "mbox_queue \<Rightarrow> (errno + u32) \<times> mbox_queue" where
  "mboxq_dequeue q =
     (if is_mboxq_empty q then (Inl EBUSY, q\<lparr>q_comp := False\<rparr>)
      else
        let data = q_array q ! unat (q_head q);
            q = q\<lparr>q_head := (q_head q + 1) AND NVADSP_MBOX_QUEUE_SIZE_MASK\<rparr>;
            q = q\<lparr>q_count := q_count q - 1\<rparr>
        in (Inr data, if is_mboxq_empty q then q\<lparr>q_comp := False\<rparr> else q))"

section \<open>The hardware mailbox queue\<close>

definition hwmboxq_init :: "mbox_queue \<Rightarrow> mbox_queue" where
  "hwmboxq_init q = q\<lparr>q_head := 0, q_tail := 0, q_count := 0, q_comp := False\<rparr>"

definition is_hwmboxq_empty :: "mbox_queue \<Rightarrow> bool" where
  "is_hwmboxq_empty q = (q_count q = 0)"

definition is_hwmboxq_full :: "mbox_queue \<Rightarrow> bool" where
  "is_hwmboxq_full q = (q_count q = HWMBOX_QUEUE_SIZE)"

definition hwmboxq_enqueue :: "mbox_queue \<Rightarrow> u32 \<Rightarrow> (errno + unit) \<times> mbox_queue" where
  "hwmboxq_enqueue q data =
     (if is_hwmboxq_full q then (Inl EBUSY, q\<lparr>q_comp := False\<rparr>)
      else
        let q = q\<lparr>q_array := (q_array q)[unat (q_tail q) := data]\<rparr>;
            q = q\<lparr>q_tail := (q_tail q + 1) AND HWMBOX_QUEUE_SIZE_MASK\<rparr>;
            q = q\<lparr>q_count := q_count q + 1\<rparr>
        in (Inr (), if is_hwmboxq_full q then q\<lparr>q_comp := False\<rparr> else q))"

text \<open>The code completes \<open>nvadsp_drv_data->hwmbox_send_queue.comp\<close>, which is the queue's own.\<close>

definition hwmboxq_dequeue :: "mbox_queue \<Rightarrow> (errno + u32) \<times> mbox_queue" where
  "hwmboxq_dequeue q =
     (if is_hwmboxq_empty q then (Inl EBUSY, q)
      else
        let q = (if is_hwmboxq_full q then q\<lparr>q_comp := True\<rparr> else q);
            data = q_array q ! unat (q_head q);
            q = q\<lparr>q_head := (q_head q + 1) AND HWMBOX_QUEUE_SIZE_MASK\<rparr>
        in (Inr data, q\<lparr>q_count := q_count q - 1\<rparr>))"

section \<open>Rings over 16-bit indices\<close>

definition queue_ok :: "nat \<Rightarrow> mbox_queue \<Rightarrow> bool" where
  "queue_ok k q \<longleftrightarrow> length (q_array q) = 2 ^ k \<and> unat (q_head q) < 2 ^ k \<and> unat (q_count q) \<le> 2 ^ k \<and>
     unat (q_tail q) = (unat (q_head q) + unat (q_count q)) mod 2 ^ k"

definition queue_words :: "mbox_queue \<Rightarrow> u32 list" where
  "queue_words q = ring_contents (q_array q) (unat (q_head q)) (unat (q_count q))"

lemma length_queue_words [simp]: "length (queue_words q) = unat (q_count q)"
  by (simp add: queue_words_def)

lemma queue_words_empty: "queue_words q = [] \<longleftrightarrow> q_count q = 0"
  by (metis length_queue_words list.size(3) length_0_conv unat_eq_zero)

lemma queue_words_comp [simp]: "queue_words (q\<lparr>q_comp := b\<rparr>) = queue_words q"
  by (simp add: queue_words_def)

lemma queue_ok_comp [simp]: "queue_ok k (q\<lparr>q_comp := b\<rparr>) = queue_ok k q"
  by (simp add: queue_ok_def)

lemma two_pow_16: "k < 16 \<Longrightarrow> (2::nat) ^ k < 2 ^ 16"
  by (rule power_strict_increasing) simp_all

lemma unat_succ16: "unat (x :: u16) < 2 ^ k \<Longrightarrow> k < 16 \<Longrightarrow> unat (x + 1) = unat x + 1"
  using two_pow_16 [of k] by (simp add: unat_word_ariths)

lemma queue_put:
  assumes ok: "queue_ok k q" and k: "k < 16" and sp: "unat (q_count q) < 2 ^ k"
  shows "queue_ok k (q\<lparr>q_array := (q_array q)[unat (q_tail q) := x], q_tail := (q_tail q + 1) AND mask k,
      q_count := q_count q + 1, q_comp := b\<rparr>)"
    and "queue_words (q\<lparr>q_array := (q_array q)[unat (q_tail q) := x], q_tail := (q_tail q + 1) AND mask k,
      q_count := q_count q + 1, q_comp := b\<rparr>) = queue_words q @ [x]"
proof -
  have t: "unat (q_tail q) < 2 ^ k" using ok by (simp add: queue_ok_def)
  have c: "unat (q_count q + 1) = unat (q_count q) + 1" using unat_succ16 [OF sp k] .
  have "unat ((q_tail q + 1) AND mask k) = (unat (q_head q) + unat (q_count q) + 1) mod 2 ^ k"
    using ok by (simp add: unat_and_mask16 [OF k] unat_succ16 [OF t k] queue_ok_def mod_simps)
  then show "queue_ok k (q\<lparr>q_array := (q_array q)[unat (q_tail q) := x], q_tail := (q_tail q + 1) AND mask k,
      q_count := q_count q + 1, q_comp := b\<rparr>)"
    using ok sp by (simp add: queue_ok_def c)
  show "queue_words (q\<lparr>q_array := (q_array q)[unat (q_tail q) := x], q_tail := (q_tail q + 1) AND mask k,
      q_count := q_count q + 1, q_comp := b\<rparr>) = queue_words q @ [x]"
    using ok sp ring_put [of "unat (q_count q)" "q_array q" "unat (q_head q)" x]
    by (simp add: queue_words_def queue_ok_def c)
qed

lemma queue_get:
  assumes ok: "queue_ok k q" and k: "k < 16" and ne: "q_count q \<noteq> 0"
  shows "queue_ok k (q\<lparr>q_head := (q_head q + 1) AND mask k, q_count := q_count q - 1, q_comp := b\<rparr>)"
    and "queue_words q = q_array q ! unat (q_head q) #
      queue_words (q\<lparr>q_head := (q_head q + 1) AND mask k, q_count := q_count q - 1, q_comp := b\<rparr>)"
proof -
  have h: "unat (q_head q) < 2 ^ k" using ok by (simp add: queue_ok_def)
  have c0: "0 < unat (q_count q)" using ne by (simp add: unat_gt_0)
  then have c: "unat (q_count q - 1) = unat (q_count q) - 1" by (simp add: unat_sub_le)
  have h': "unat ((q_head q + 1) AND mask k) = Suc (unat (q_head q)) mod 2 ^ k"
    by (simp add: unat_and_mask16 [OF k] unat_succ16 [OF h k])
  have "(Suc (unat (q_head q)) mod 2 ^ k + (unat (q_count q) - 1)) mod 2 ^ k =
      (unat (q_head q) + unat (q_count q)) mod 2 ^ k"
    by (cases "unat (q_count q)") (use c0 in simp, simp add: mod_simps)
  then show "queue_ok k (q\<lparr>q_head := (q_head q + 1) AND mask k, q_count := q_count q - 1, q_comp := b\<rparr>)"
    using ok by (auto simp: queue_ok_def c h' intro: order_trans [OF diff_le_self])
  show "queue_words q = q_array q ! unat (q_head q) #
      queue_words (q\<lparr>q_head := (q_head q + 1) AND mask k, q_count := q_count q - 1, q_comp := b\<rparr>)"
    using ok c0 h by (simp add: queue_words_def queue_ok_def c h' ring_get)
qed

lemma mbox_masks:
  "NVADSP_MBOX_QUEUE_SIZE_MASK = mask 5" "HWMBOX_QUEUE_SIZE_MASK = mask 10"
  by (simp_all add: NVADSP_MBOX_QUEUE_SIZE_MASK_def NVADSP_MBOX_QUEUE_SIZE_def HWMBOX_QUEUE_SIZE_MASK_def
      HWMBOX_QUEUE_SIZE_def mask_eq_decr_exp)

lemma mbox_full_iff: "is_mboxq_full q \<longleftrightarrow> unat (q_count q) = 32"
  by (auto simp: is_mboxq_full_def NVADSP_MBOX_QUEUE_SIZE_def word_unat_eq_iff)

lemma hwmbox_full_iff: "is_hwmboxq_full q \<longleftrightarrow> unat (q_count q) = 1024"
  by (auto simp: is_hwmboxq_full_def HWMBOX_QUEUE_SIZE_def word_unat_eq_iff)

section \<open>Both queues are bounded FIFOs\<close>

text \<open>A mailbox queue's completion is done exactly when there is something to receive.\<close>

definition mboxq_ok :: "mbox_queue \<Rightarrow> bool" where
  "mboxq_ok q \<longleftrightarrow> queue_ok 5 q \<and> (q_comp q \<longleftrightarrow> q_count q \<noteq> 0)"

text \<open>The hardware queue's completion is never done while the queue is full.\<close>

definition hwmboxq_ok :: "mbox_queue \<Rightarrow> bool" where
  "hwmboxq_ok q \<longleftrightarrow> queue_ok 10 q \<and> (q_comp q \<longrightarrow> unat (q_count q) < 1024)"

lemma count_succ_nonzero:
  fixes x :: u16
  assumes "unat x < 2 ^ k" and "k < 16"
  shows "x + 1 \<noteq> 0"
  using unat_succ16 [OF assms] by (metis add_is_0 unat_0 zero_neq_one)

lemma mboxq_enqueue_space:
  assumes "mboxq_ok q" and "unat (q_count q) < 32"
  shows "fst (mboxq_enqueue q x) = Inr ()" and "mboxq_ok (snd (mboxq_enqueue q x))"
    and "queue_words (snd (mboxq_enqueue q x)) = queue_words q @ [x]"
proof -
  have ok: "queue_ok 5 q" and c: "unat (q_count q) < 2 ^ 5" and b: "q_comp q \<longleftrightarrow> q_count q \<noteq> 0"
    using assms by (simp_all add: mboxq_ok_def)
  have e: "mboxq_enqueue q x = (Inr (), q\<lparr>q_array := (q_array q)[unat (q_tail q) := x],
      q_tail := (q_tail q + 1) AND mask 5, q_count := q_count q + 1, q_comp := True\<rparr>)"
    using assms b by (simp add: mboxq_enqueue_def mbox_full_iff mboxq_enqueue_locked_def mbox_masks is_mboxq_empty_def)
  show "fst (mboxq_enqueue q x) = Inr ()" by (simp add: e)
  show "mboxq_ok (snd (mboxq_enqueue q x))"
    using queue_put(1) [OF ok _ c] count_succ_nonzero [OF c] by (simp add: e mboxq_ok_def)
  show "queue_words (snd (mboxq_enqueue q x)) = queue_words q @ [x]"
    using queue_put(2) [OF ok _ c] by (simp add: e)
qed

lemma mboxq_dequeue_some:
  assumes "mboxq_ok q" and "queue_words q = x # xs"
  shows "fst (mboxq_dequeue q) = Inr x" and "mboxq_ok (snd (mboxq_dequeue q))"
    and "queue_words (snd (mboxq_dequeue q)) = xs"
proof -
  have ok: "queue_ok 5 q" and b: "q_comp q \<longleftrightarrow> q_count q \<noteq> 0" using assms by (simp_all add: mboxq_ok_def)
  have ne: "q_count q \<noteq> 0" using assms(2) queue_words_empty [of q] by auto
  have e: "mboxq_dequeue q = (Inr (q_array q ! unat (q_head q)), q\<lparr>q_head := (q_head q + 1) AND mask 5,
      q_count := q_count q - 1, q_comp := (q_count q - 1 \<noteq> 0)\<rparr>)"
    using ne b by (simp add: mboxq_dequeue_def is_mboxq_empty_def mbox_masks Let_def)
  show "fst (mboxq_dequeue q) = Inr x" and "queue_words (snd (mboxq_dequeue q)) = xs"
    using queue_get(2) [OF ok _ ne] assms(2) by (simp_all add: e)
  show "mboxq_ok (snd (mboxq_dequeue q))" using queue_get(1) [OF ok _ ne] by (simp add: e mboxq_ok_def)
qed

lemma queue_ok_bound: "queue_ok k q \<Longrightarrow> length (queue_words q) \<le> 2 ^ k"
  by (simp add: queue_ok_def)

interpretation mboxq: bounded_fifo mboxq_ok queue_words 32 mboxq_enqueue mboxq_dequeue EINVAL EBUSY
proof (unfold_locales, goal_cases)
  case (1 q) then show ?case using queue_ok_bound [of 5 q] by (simp add: mboxq_ok_def)
next
  case (2 q x r q') then show ?case using mboxq_enqueue_space [of q x] by simp
next
  case (3 q x r q') then show ?case by (auto simp: mboxq_enqueue_def mbox_full_iff)
next
  case (4 q x xs d q') then show ?case using mboxq_dequeue_some [of q x xs] by simp
next
  case (5 q d q')
  then have "q_count q = 0" by (simp add: queue_words_empty)
  with 5 show ?case by (auto simp: mboxq_dequeue_def is_mboxq_empty_def mboxq_ok_def)
qed

lemma hwmboxq_enqueue_space:
  assumes "hwmboxq_ok q" and "unat (q_count q) < 1024"
  shows "fst (hwmboxq_enqueue q x) = Inr ()" and "hwmboxq_ok (snd (hwmboxq_enqueue q x))"
    and "queue_words (snd (hwmboxq_enqueue q x)) = queue_words q @ [x]"
proof -
  have ok: "queue_ok 10 q" and c: "unat (q_count q) < 2 ^ 10" using assms by (simp_all add: hwmboxq_ok_def)
  define b where "b = (q_comp q \<and> unat (q_count q + 1) \<noteq> 1024)"
  have e: "hwmboxq_enqueue q x = (Inr (), q\<lparr>q_array := (q_array q)[unat (q_tail q) := x],
      q_tail := (q_tail q + 1) AND mask 10, q_count := q_count q + 1, q_comp := b\<rparr>)"
    using assms by (simp add: hwmboxq_enqueue_def hwmbox_full_iff mbox_masks Let_def b_def)
  show "fst (hwmboxq_enqueue q x) = Inr ()" by (simp add: e)
  show "hwmboxq_ok (snd (hwmboxq_enqueue q x))"
    using queue_put(1) [OF ok _ c] unat_succ16 [OF c] assms(2) by (auto simp: e hwmboxq_ok_def b_def)
  show "queue_words (snd (hwmboxq_enqueue q x)) = queue_words q @ [x]"
    using queue_put(2) [OF ok _ c] by (simp add: e)
qed

lemma hwmboxq_dequeue_some:
  assumes "hwmboxq_ok q" and "queue_words q = x # xs"
  shows "fst (hwmboxq_dequeue q) = Inr x" and "hwmboxq_ok (snd (hwmboxq_dequeue q))"
    and "queue_words (snd (hwmboxq_dequeue q)) = xs"
    and "q_comp (snd (hwmboxq_dequeue q)) \<longleftrightarrow> q_comp q \<or> unat (q_count q) = 1024"
proof -
  have ok: "queue_ok 10 q" using assms by (simp add: hwmboxq_ok_def)
  have ne: "q_count q \<noteq> 0" using assms(2) queue_words_empty [of q] by auto
  then have c: "unat (q_count q - 1) = unat (q_count q) - 1" "0 < unat (q_count q)"
    using unat_sub_le [of 1 "q_count q"] by (simp_all add: unat_gt_0 Suc_le_eq)
  define b where "b = (q_comp q \<or> unat (q_count q) = 1024)"
  have e: "hwmboxq_dequeue q = (Inr (q_array q ! unat (q_head q)), q\<lparr>q_head := (q_head q + 1) AND mask 10,
      q_count := q_count q - 1, q_comp := b\<rparr>)"
    using ne by (simp add: hwmboxq_dequeue_def is_hwmboxq_empty_def hwmbox_full_iff mbox_masks Let_def b_def)
  show "fst (hwmboxq_dequeue q) = Inr x" and "queue_words (snd (hwmboxq_dequeue q)) = xs"
    using queue_get(2) [OF ok _ ne] assms(2) by (simp_all add: e)
  have "unat (q_count q) \<le> 1024" using ok by (simp add: queue_ok_def)
  then show "hwmboxq_ok (snd (hwmboxq_dequeue q))"
    using queue_get(1) [OF ok _ ne] c by (auto simp: e hwmboxq_ok_def)
  show "q_comp (snd (hwmboxq_dequeue q)) \<longleftrightarrow> q_comp q \<or> unat (q_count q) = 1024"
    by (simp add: e b_def)
qed

interpretation hwmboxq: bounded_fifo hwmboxq_ok queue_words 1024 hwmboxq_enqueue hwmboxq_dequeue EBUSY EBUSY
proof (unfold_locales, goal_cases)
  case (1 q) then show ?case using queue_ok_bound [of 10 q] by (simp add: hwmboxq_ok_def)
next
  case (2 q x r q') then show ?case using hwmboxq_enqueue_space [of q x] by simp
next
  case (3 q x r q') then show ?case by (auto simp: hwmboxq_enqueue_def hwmbox_full_iff hwmboxq_ok_def)
next
  case (4 q x xs d q') then show ?case using hwmboxq_dequeue_some [of q x xs] by simp
next
  case (5 q d q')
  then have "q_count q = 0" by (simp add: queue_words_empty)
  with 5 show ?case by (auto simp: hwmboxq_dequeue_def is_hwmboxq_empty_def)
qed

lemma mboxq_init_ok: "length (q_array q) = 32 \<Longrightarrow> mboxq_ok (mboxq_init q) \<and> queue_words (mboxq_init q) = []"
  by (simp add: mboxq_init_def mboxq_ok_def queue_ok_def queue_words_def)

lemma hwmboxq_init_ok: "length (q_array q) = 1024 \<Longrightarrow> hwmboxq_ok (hwmboxq_init q) \<and> queue_words (hwmboxq_init q) = []"
  by (simp add: hwmboxq_init_def hwmboxq_ok_def queue_ok_def queue_words_def)

section \<open>Properties\<close>

text \<open>C21: after initialisation, whatever the sequence of enqueues and dequeues, a mailbox queue gives
  back the accepted words in order and keeps the rest, and its completion is done exactly when words
  are waiting; an enqueue is refused with EINVAL only at 32 words, a dequeue with EBUSY only at none.\<close>

theorem mboxq_fifo:
  assumes "length (q_array q0) = 32"
    and "fifo_run mboxq_enqueue mboxq_dequeue ops (mboxq_init q0) = (acc, del, q)"
  shows "acc = del @ queue_words q \<and> length (queue_words q) \<le> 32 \<and> (q_comp q \<longleftrightarrow> queue_words q \<noteq> []) \<and>
    (fst (nvadsp_mboxq_enqueue q x) = (if length (queue_words q) = 32 then Inl EINVAL else Inr ())) \<and>
    (fst (mboxq_dequeue q) = (case queue_words q of [] \<Rightarrow> Inl EBUSY | y # ys \<Rightarrow> Inr y))"
proof -
  have i: "mboxq_ok (mboxq_init q0)" "queue_words (mboxq_init q0) = []" using mboxq_init_ok [OF assms(1)] by auto
  have r: "mboxq_ok q" "acc = del @ queue_words q" using mboxq.run_fifo [OF i(1) assms(2)] i(2) by auto
  have e: "fst (nvadsp_mboxq_enqueue q x) = (if length (queue_words q) < 32 then Inr () else Inl EINVAL)"
    using mboxq.enq_step [OF r(1) surjective_pairing] by (simp add: nvadsp_mboxq_enqueue_def)
  have d: "fst (mboxq_dequeue q) = (case queue_words q of [] \<Rightarrow> Inl EBUSY | y # ys \<Rightarrow> Inr y)"
    using mboxq.deq_step [OF r(1) surjective_pairing] by blast
  have c: "q_comp q \<longleftrightarrow> queue_words q \<noteq> []" using r(1) by (simp add: mboxq_ok_def queue_words_empty)
  have l: "length (queue_words q) \<le> 32" using mboxq.bound [OF r(1)] .
  then have e': "fst (nvadsp_mboxq_enqueue q x) = (if length (queue_words q) = 32 then Inl EINVAL else Inr ())"
    using e by auto
  show ?thesis using r(2) l c e' d by (intro conjI)
qed

theorem mboxq_fifo_witness:
  "fifo_run mboxq_enqueue mboxq_dequeue [Put 7, Put 9, Get]
     (mboxq_init \<lparr>q_array = replicate 32 0, q_head = 3, q_tail = 5, q_count = 2, q_comp = True\<rparr>) =
   ([7, 9], [7], \<lparr>q_array = (replicate 32 0)[0 := 7, 1 := 9], q_head = 1, q_tail = 2, q_count = 1, q_comp = True\<rparr>) \<and>
   fst (mboxq_dequeue \<lparr>q_array = (replicate 32 0)[0 := 7, 1 := 9], q_head = 1, q_tail = 2, q_count = 1, q_comp = True\<rparr>) = Inr 9"
proof -
  let ?a = "\<lparr>q_array = replicate 32 0, q_head = 3, q_tail = 5, q_count = 2, q_comp = True\<rparr>"
  let ?q = "\<lparr>q_array = (replicate 32 0)[0 := 7, 1 := 9], q_head = 1, q_tail = 2, q_count = 1, q_comp = True\<rparr>"
  have run: "fifo_run mboxq_enqueue mboxq_dequeue [Put 7, Put 9, Get] (mboxq_init ?a) = ([7, 9], [7], ?q)"
    by code_simp
  have len: "length (q_array ?a) = 32" by simp
  note th = mboxq_fifo [OF len run, of 0]
  then have w: "queue_words ?q = [9]" by (metis append_Cons append_Nil list.inject)
  have "fst (mboxq_dequeue ?q) = Inr 9" using th unfolding w by (metis list.simps(5))
  with run show ?thesis by (rule conjI)
qed

end
