(* ===== verification/Adsp_Mailbox.thy ===== *)
theory Adsp_Mailbox imports Adsp_Queue begin

text \<open>
  The ADSP mailbox driver: the hardware mailbox (\<open>drivers/platform/tegra/nvadsp/hwmailbox.c\<close>, word
  layout in \<open>hwmailbox.h\<close>) and the mailboxes multiplexed over it (\<open>mailbox.c\<close>).  One state record
  holds the driver data, the two register words and the clients' mailbox objects; an interrupt handler
  is a state transformer.  \<open>None\<close> is an access through an invalid pointer or beyond an array.
\<close>

section \<open>Hardware mailbox words\<close>

definition PREPARE_HWMBOX_SMSG :: "u16 \<Rightarrow> u32 \<Rightarrow> u32" where
  "PREPARE_HWMBOX_SMSG mid data =
     push_bit 31 1 OR push_bit 30 0 OR push_bit 20 (ucast mid AND 0x3FF) OR (data AND 0xFFFFF)"

definition PREPARE_HWMBOX_EMPTY_MSG :: u32 where "PREPARE_HWMBOX_EMPTY_MSG = 0 OR 0"

definition IS_HWMBOX_MSG_SMSG :: "u32 \<Rightarrow> bool" where
  "IS_HWMBOX_MSG_SMSG val = (drop_bit 30 val AND 1 = 0)"

definition HWMBOX_SMSG_MID :: "u32 \<Rightarrow> u32" where
  "HWMBOX_SMSG_MID val = drop_bit 20 val AND 0x3FF"

definition HWMBOX_SMSG_MSG :: "u32 \<Rightarrow> u32" where
  "HWMBOX_SMSG_MSG val = drop_bit 0 val AND 0xFFFFF"

definition HWMBOX_TAG :: "u32 \<Rightarrow> u32" where
  "HWMBOX_TAG val = push_bit 31 (val AND 1)"

section \<open>The state\<close>

record nvadsp_mbox =
  mb_id :: u16
  mb_name :: "char list"
  recv_queue :: mbox_queue
  mb_handler :: "nat option"
  mb_hdata :: u64

text \<open>
  \<open>mbox_drv\<close> and \<open>hwmbox_drv\<close>: the static \<open>nvadsp_drv_data\<close> pointers of \<open>mailbox.c\<close> and \<open>hwmailbox.c\<close>
  have been set.  \<open>mbox_regs i r\<close> is the register at offset \<open>r\<close> of \<open>base_regs[i]\<close>, \<open>mbox_writes\<close> the
  register writes in order, \<open>mbox_obj\<close> the mailbox objects the clients own, by address.
\<close>

record adsp_state =
  mbox_drv :: bool
  hwmbox_drv :: bool
  mbox_ids :: "bool list"
  mboxes :: "nat option list"
  hwmbox_send_queue :: mbox_queue
  is_hwmbox_busy :: bool
  hwmbox0_reg :: u32
  hwmbox1_reg :: u32
  reg_idx :: u32
  empty_int_ie :: u32
  mbox_regs :: "u32 \<Rightarrow> u32 \<Rightarrow> u32"
  mbox_writes :: "(u32 \<times> u32) list"
  mbox_obj :: "nat \<Rightarrow> nvadsp_mbox"
  irq_recv :: bool
  irq_send :: bool
  irq_bad_free :: bool

definition NVADSP_MAILBOX_START :: nat where "NVADSP_MAILBOX_START = 512"
definition NVADSP_MAILBOX_MAX :: nat where "NVADSP_MAILBOX_MAX = 1024"

definition recv_hwmbox :: "adsp_state \<Rightarrow> u32" where "recv_hwmbox s = hwmbox0_reg s"
definition send_hwmbox :: "adsp_state \<Rightarrow> u32" where "send_hwmbox s = hwmbox1_reg s"
definition hwmb_reg_idx :: "adsp_state \<Rightarrow> u32" where "hwmb_reg_idx s = reg_idx s"

definition hwmbox_readl :: "u32 \<Rightarrow> adsp_state \<Rightarrow> u32" where
  "hwmbox_readl reg s = mbox_regs s (hwmb_reg_idx s) reg"

definition hwmbox_writel :: "u32 \<Rightarrow> u32 \<Rightarrow> adsp_state \<Rightarrow> adsp_state" where
  "hwmbox_writel val reg s =
     s\<lparr>mbox_regs := (mbox_regs s)(hwmb_reg_idx s := (mbox_regs s (hwmb_reg_idx s))(reg := val)),
       mbox_writes := mbox_writes s @ [(reg, val)]\<rparr>"

section \<open>Sending: the hardware mailbox and its queue\<close>

definition NVADSP_MBOX_SMSG :: u32 where "NVADSP_MBOX_SMSG = 1"

definition nvadsp_hwmbox_send_data ::
  "u16 \<Rightarrow> u32 \<Rightarrow> u32 \<Rightarrow> adsp_state \<Rightarrow> ((errno + unit) \<times> adsp_state) option" where
  "nvadsp_hwmbox_send_data mid data flags s =
     (if \<not> hwmbox_drv s then None
      else
        let data = (if flags AND NVADSP_MBOX_SMSG \<noteq> 0 then PREPARE_HWMBOX_SMSG mid data else data)
        in if \<not> is_hwmbox_busy s then
             Some (Inr (), hwmbox_writel data (send_hwmbox s) (s\<lparr>is_hwmbox_busy := True\<rparr>))
           else
             (case hwmboxq_enqueue (hwmbox_send_queue s) data of
                (r, q) \<Rightarrow> Some (r, s\<lparr>hwmbox_send_queue := q\<rparr>)))"

text \<open>The interrupt that the ADSP raises when it has emptied the send mailbox.\<close>

definition hwmbox_send_empty_int_handler :: "adsp_state \<Rightarrow> adsp_state" where
  "hwmbox_send_empty_int_handler s =
     (if \<not> is_hwmbox_busy s then s
      else
        (case hwmboxq_dequeue (hwmbox_send_queue s) of
           (Inr data, q) \<Rightarrow> hwmbox_writel data (send_hwmbox s) (s\<lparr>hwmbox_send_queue := q\<rparr>)
         | (Inl e, q) \<Rightarrow> s\<lparr>hwmbox_send_queue := q, is_hwmbox_busy := False\<rparr>))"

section \<open>Receiving\<close>

text \<open>\<open>hcall h msg hdata\<close> is the client's handler \<open>h\<close>, called with the message and its data.\<close>

definition hwmbox_recv_full_int_handler ::
  "(nat \<Rightarrow> u32 \<Rightarrow> u64 \<Rightarrow> adsp_state \<Rightarrow> adsp_state) \<Rightarrow> adsp_state \<Rightarrow> adsp_state option" where
  "hwmbox_recv_full_int_handler hcall s =
     (if \<not> hwmbox_drv s then None
      else
        let data = hwmbox_readl (recv_hwmbox s) s;
            s = hwmbox_writel PREPARE_HWMBOX_EMPTY_MSG (recv_hwmbox s) s
        in if IS_HWMBOX_MSG_SMSG data then
             let mboxid = unat (HWMBOX_SMSG_MID data)
             in if \<not> mbox_drv s \<or> length (mboxes s) \<le> mboxid then None
                else
                  (case mboxes s ! mboxid of
                     None \<Rightarrow> Some s
                   | Some p \<Rightarrow>
                       (case mb_handler (mbox_obj s p) of
                          Some h \<Rightarrow> Some (hcall h (HWMBOX_SMSG_MSG data) (mb_hdata (mbox_obj s p)) s)
                        | None \<Rightarrow>
                            (case nvadsp_mboxq_enqueue (recv_queue (mbox_obj s p)) (HWMBOX_SMSG_MSG data) of
                               (_, q) \<Rightarrow>
                                 Some (s\<lparr>mbox_obj := (mbox_obj s)(p := (mbox_obj s p)\<lparr>recv_queue := q\<rparr>)\<rparr>))))
           else Some s)"

section \<open>Mailbox identifiers\<close>

text \<open>\<open>fnd map size start nr align\<close> is the kernel's \<open>bitmap_find_next_zero_area\<close>.\<close>

type_synonym zero_area = "bool list \<Rightarrow> nat \<Rightarrow> nat \<Rightarrow> nat \<Rightarrow> nat \<Rightarrow> nat"

definition nvadsp_mbox_alloc_mboxid :: "zero_area \<Rightarrow> adsp_state \<Rightarrow> (u16 \<times> adsp_state) option" where
  "nvadsp_mbox_alloc_mboxid fnd s =
     (let mid = (of_nat (fnd (mbox_ids s) (NVADSP_MAILBOX_MAX - 1) NVADSP_MAILBOX_START 1 0) :: u16)
      in if length (mbox_ids s) \<le> unat mid then None
         else Some (mid, s\<lparr>mbox_ids := (mbox_ids s)[unat mid := True]\<rparr>))"

definition nvadsp_mbox_free_mboxid :: "u16 \<Rightarrow> adsp_state \<Rightarrow> adsp_state option" where
  "nvadsp_mbox_free_mboxid mid s =
     (if length (mbox_ids s) \<le> unat mid then None
      else Some (s\<lparr>mbox_ids := (mbox_ids s)[unat mid := False]\<rparr>))"

section \<open>Opening and closing\<close>

text \<open>\<open>strncpy (dst, src, n)\<close>: at most \<open>n\<close> bytes of the string, the rest of the \<open>n\<close> bytes cleared.\<close>

definition strncpy :: "char list \<Rightarrow> string \<Rightarrow> nat \<Rightarrow> char list" where
  "strncpy dst src n = take n (src @ replicate n (CHR 0x00)) @ drop n dst"

text \<open>The last part of the open, once the identifier is chosen.\<close>

definition mbox_open_fill ::
  "nat \<Rightarrow> u16 \<Rightarrow> string \<Rightarrow> nat option \<Rightarrow> u64 \<Rightarrow> adsp_state \<Rightarrow> adsp_state option" where
  "mbox_open_fill p i name handler hdata s =
     (if length (mboxes s) \<le> unat i then None
      else
        let m = mbox_obj s p;
            m = m\<lparr>mb_id := i, mb_name := strncpy (mb_name m) name 16,
                  recv_queue := mboxq_init (recv_queue m), mb_handler := handler, mb_hdata := hdata\<rparr>
        in Some (s\<lparr>mbox_obj := (mbox_obj s)(p := m), mboxes := (mboxes s)[unat i := Some p]\<rparr>))"

text \<open>The result is the identifier stored in \<open>*mid\<close>.\<close>

definition nvadsp_mbox_open ::
  "zero_area \<Rightarrow> nat option \<Rightarrow> u16 \<Rightarrow> string \<Rightarrow> nat option \<Rightarrow> u64 \<Rightarrow> adsp_state \<Rightarrow>
    ((errno + u16) \<times> adsp_state) option" where
  "nvadsp_mbox_open fnd mbox mid name handler hdata s =
     (if \<not> mbox_drv s then Some (Inl ENOSYS, s)
      else
        (case mbox of
           None \<Rightarrow> Some (Inl EINVAL, s)
         | Some p \<Rightarrow>
             if mid = 0 then
               (case nvadsp_mbox_alloc_mboxid fnd s of
                  None \<Rightarrow> None
                | Some (i, s) \<Rightarrow>
                    if NVADSP_MAILBOX_MAX \<le> unat i then
                      Some (Inl ENOMEM, s\<lparr>mbox_obj := (mbox_obj s)(p := (mbox_obj s p)\<lparr>mb_id := 0\<rparr>)\<rparr>)
                    else map_option (\<lambda>s. (Inr i, s)) (mbox_open_fill p i name handler hdata s))
             else if NVADSP_MAILBOX_MAX \<le> unat mid then Some (Inl ERANGE, s)
             else if length (mboxes s) \<le> unat mid then None
             else if mboxes s ! unat mid \<noteq> None then Some (Inl EADDRINUSE, s)
             else map_option (\<lambda>s. (Inr mid, s)) (mbox_open_fill p mid name handler hdata s)))"

definition nvadsp_mbox_close :: "nat option \<Rightarrow> adsp_state \<Rightarrow> ((errno + unit) \<times> adsp_state) option" where
  "nvadsp_mbox_close mbox s =
     (if \<not> mbox_drv s then Some (Inl ENOSYS, s)
      else
        (case mbox of
           None \<Rightarrow> Some (Inl EINVAL, s)
         | Some p \<Rightarrow>
             let m = mbox_obj s p
             in if \<not> is_mboxq_empty (recv_queue m) then Some (Inl ENOTEMPTY, s)
                else
                  (case nvadsp_mbox_free_mboxid (mb_id m) s of
                     None \<Rightarrow> None
                   | Some s \<Rightarrow>
                       if length (mboxes s) \<le> unat (mb_id m) then None
                       else
                         Some (Inr (),
                           s\<lparr>mbox_obj := (mbox_obj s)(p := m\<lparr>recv_queue := mboxq_destroy (recv_queue m)\<rparr>),
                             mboxes := (mboxes s)[unat (mb_id m) := None]\<rparr>))))"

section \<open>Blocking operations\<close>

text \<open>
  \<open>wait_for_completion_timeout\<close>: other contexts run, one step of \<open>es\<close> after another, until the
  completion is done; then the waiter is woken, and may be overtaken by \<open>late\<close> before it runs.  When
  the steps end with the completion not done, the timeout has expired.
\<close>

fun wait_for_completion_timeout :: "('s \<Rightarrow> bool) \<Rightarrow> ('s \<Rightarrow> 's) list \<Rightarrow> ('s \<Rightarrow> 's) \<Rightarrow> 's \<Rightarrow> bool \<times> 's" where
  "wait_for_completion_timeout dn [] late s = (if dn s then (True, late s) else (False, s))"
| "wait_for_completion_timeout dn (e # es) late s =
     (if dn s then (True, late s) else wait_for_completion_timeout dn es late (e s))"

definition nvadsp_mbox_send ::
  "(adsp_state \<Rightarrow> adsp_state) list \<Rightarrow> (adsp_state \<Rightarrow> adsp_state) \<Rightarrow> nat option \<Rightarrow> u32 \<Rightarrow> u32 \<Rightarrow> bool \<Rightarrow>
    adsp_state \<Rightarrow> ((errno + unit) \<times> adsp_state) option" where
  "nvadsp_mbox_send es late mbox data flags block s =
     (if \<not> mbox_drv s then Some (Inl ENOSYS, s)
      else
        (case mbox of
           None \<Rightarrow> Some (Inl EINVAL, s)
         | Some p \<Rightarrow>
             (case nvadsp_hwmbox_send_data (mb_id (mbox_obj s p)) data flags s of
                None \<Rightarrow> None
              | Some (Inr _, s) \<Rightarrow> Some (Inr (), s)
              | Some (Inl e, s) \<Rightarrow>
                  if e = EBUSY \<and> block then
                    (case wait_for_completion_timeout (\<lambda>s. q_comp (hwmbox_send_queue s)) es late s of
                       (True, s) \<Rightarrow> nvadsp_hwmbox_send_data (mb_id (mbox_obj s p)) data flags s
                     | (False, s) \<Rightarrow> Some (Inl ETIME, s))
                  else Some (Inl e, s))))"

definition set_recv_queue :: "nat \<Rightarrow> mbox_queue \<Rightarrow> adsp_state \<Rightarrow> adsp_state" where
  "set_recv_queue p q s = s\<lparr>mbox_obj := (mbox_obj s)(p := (mbox_obj s p)\<lparr>recv_queue := q\<rparr>)\<rparr>"

definition nvadsp_mbox_recv ::
  "(adsp_state \<Rightarrow> adsp_state) list \<Rightarrow> (adsp_state \<Rightarrow> adsp_state) \<Rightarrow> nat option \<Rightarrow> bool \<Rightarrow>
    adsp_state \<Rightarrow> (errno + u32) \<times> adsp_state" where
  "nvadsp_mbox_recv es late mbox block s =
     (if \<not> mbox_drv s then (Inl ENOSYS, s)
      else
        (case mbox of
           None \<Rightarrow> (Inl EINVAL, s)
         | Some p \<Rightarrow>
             (case mboxq_dequeue (recv_queue (mbox_obj s p)) of
                (Inr x, q) \<Rightarrow> (Inr x, set_recv_queue p q s)
              | (Inl e, q) \<Rightarrow>
                  let s = set_recv_queue p q s
                  in if e = EBUSY \<and> block then
                       (case wait_for_completion_timeout (\<lambda>s. q_comp (recv_queue (mbox_obj s p))) es late s of
                          (True, s) \<Rightarrow>
                            (case mboxq_dequeue (recv_queue (mbox_obj s p)) of
                               (r, q) \<Rightarrow> (r, set_recv_queue p q s))
                        | (False, s) \<Rightarrow> (Inl ETIME, s))
                     else (Inl e, s))))"

section \<open>Initialisation and interrupts\<close>

text \<open>The static arrays of \<open>mailbox.c\<close> are zero before the driver is loaded.\<close>

definition nvadsp_mbox_init :: "adsp_state \<Rightarrow> adsp_state" where
  "nvadsp_mbox_init s =
     s\<lparr>mboxes := replicate NVADSP_MAILBOX_MAX None, mbox_ids := replicate NVADSP_MAILBOX_MAX False, mbox_drv := True\<rparr>"

definition nvadsp_hwmbox_init :: "adsp_state \<Rightarrow> adsp_state" where
  "nvadsp_hwmbox_init s = s\<lparr>hwmbox_drv := True, hwmbox_send_queue := hwmboxq_init (hwmbox_send_queue s)\<rparr>"

text \<open>\<open>devm_free_irq\<close> on an interrupt that was not requested is recorded in \<open>irq_bad_free\<close>.\<close>

definition nvadsp_free_hwmbox_interrupts :: "adsp_state \<Rightarrow> adsp_state" where
  "nvadsp_free_hwmbox_interrupts s =
     (let s = s\<lparr>irq_bad_free := irq_bad_free s \<or> \<not> irq_recv s, irq_recv := False\<rparr>
      in s\<lparr>irq_bad_free := irq_bad_free s \<or> \<not> irq_send s, irq_send := False\<rparr>)"

text \<open>\<open>r1\<close> and \<open>r2\<close> are the errors of the two \<open>devm_request_irq\<close> calls, \<open>None\<close> for success.\<close>

definition nvadsp_setup_hwmbox_interrupts ::
  "errno option \<Rightarrow> errno option \<Rightarrow> adsp_state \<Rightarrow> (errno + unit) \<times> adsp_state" where
  "nvadsp_setup_hwmbox_interrupts r1 r2 s =
     (case r1 of
        Some e \<Rightarrow> (Inl e, s)
      | None \<Rightarrow>
          let s = s\<lparr>irq_recv := True\<rparr>;
              ie = empty_int_ie s;
              s = (if ie \<noteq> 0 then hwmbox_writel 0 (send_hwmbox s + ie) s else s);
              s = (if r2 = None then s\<lparr>irq_send := True\<rparr> else s);
              s = (if ie \<noteq> 0 then hwmbox_writel 1 (send_hwmbox s + ie) s else s)
          in (case r2 of
                Some e \<Rightarrow> (Inl e, nvadsp_free_hwmbox_interrupts s)
              | None \<Rightarrow> (Inr (), s)))"

section \<open>Words\<close>

lemma smsg_masks: "(0x3FF :: u32) = mask 10" "(0xFFFFF :: u32) = mask 20"
  by (simp_all add: mask_eq_decr_exp)

lemma smsg_fields:
  fixes b t d :: u32 and m :: u16
  shows "drop_bit 20 (push_bit 31 b OR push_bit 30 0 OR push_bit 20 (ucast m AND mask 10) OR (d AND mask 20)) AND mask 10 =
      ucast m AND mask 10"
    and "drop_bit 0 (push_bit 31 b OR push_bit 30 0 OR push_bit 20 (ucast m AND mask 10) OR (d AND mask 20)) AND mask 20 =
      d AND mask 20"
  by (rule bit_word_eqI, auto simp: bit_simps)+

lemma smsg_bit_0:
  fixes b e d :: u32
  shows "push_bit 31 ((push_bit 31 b OR push_bit 30 0 OR push_bit 20 e OR (d AND mask 20)) AND mask 1) =
    push_bit 31 (d AND mask 1)"
  by (rule bit_word_eqI) (auto simp: bit_simps)

lemma smsg_mid: "HWMBOX_SMSG_MID (PREPARE_HWMBOX_SMSG mid data) = ucast mid AND mask 10"
  unfolding HWMBOX_SMSG_MID_def PREPARE_HWMBOX_SMSG_def smsg_masks by (rule smsg_fields)

lemma smsg_msg: "HWMBOX_SMSG_MSG (PREPARE_HWMBOX_SMSG mid data) = data AND mask 20"
  unfolding HWMBOX_SMSG_MSG_def PREPARE_HWMBOX_SMSG_def smsg_masks by (rule smsg_fields)

lemma smsg_type: "IS_HWMBOX_MSG_SMSG (PREPARE_HWMBOX_SMSG mid data)"
  unfolding IS_HWMBOX_MSG_SMSG_def PREPARE_HWMBOX_SMSG_def smsg_masks
  by (rule bit_word_eqI) (auto simp: bit_simps)

lemma unat_and_mask32: "unat ((x :: u32) AND mask k) = unat x mod 2 ^ k"
  by (simp only: take_bit_eq_mask [symmetric] unsigned_take_bit_eq) (simp add: take_bit_eq_mod)

lemma smsg_mid_bound: "unat (HWMBOX_SMSG_MID w) < 1024"
  by (simp add: HWMBOX_SMSG_MID_def smsg_masks unat_and_mask32)

lemma unat_ucast_16_32: "unat (ucast (m :: u16) :: u32) = unat m"
proof -
  have "unat m < 2 ^ LENGTH(16)" by (rule unsigned_less)
  then show ?thesis by (simp add: unsigned_ucast_eq take_bit_nat_eq_self_iff)
qed

section \<open>The hardware mailbox as a FIFO\<close>

text \<open>The words written to one register.\<close>

definition words_written :: "u32 \<Rightarrow> adsp_state \<Rightarrow> u32 list" where
  "words_written reg s = map snd (filter (\<lambda>w. fst w = reg) (mbox_writes s))"

lemma words_written_simps [simp]:
  "words_written r (hwmbox_writel v r' s) = words_written r s @ (if r' = r then [v] else [])"
  "words_written r (s\<lparr>is_hwmbox_busy := b\<rparr>) = words_written r s"
  "words_written r (s\<lparr>hwmbox_send_queue := q\<rparr>) = words_written r s"
  "hwmbox1_reg (hwmbox_writel v r' s) = hwmbox1_reg s"
  "hwmbox_send_queue (hwmbox_writel v r' s) = hwmbox_send_queue s"
  "is_hwmbox_busy (hwmbox_writel v r' s) = is_hwmbox_busy s"
  "hwmbox_drv (hwmbox_writel v r' s) = hwmbox_drv s"
  by (simp_all add: words_written_def hwmbox_writel_def)

definition hwmbox_ok :: "adsp_state \<Rightarrow> bool" where
  "hwmbox_ok s \<longleftrightarrow> hwmbox_drv s \<and> hwmboxq_ok (hwmbox_send_queue s) \<and>
     (queue_words (hwmbox_send_queue s) \<noteq> [] \<longrightarrow> is_hwmbox_busy s)"

text \<open>What the driver has taken over from its callers: written to the hardware, or waiting.\<close>

definition sent_words :: "adsp_state \<Rightarrow> u32 list" where
  "sent_words s = words_written (send_hwmbox s) s @ queue_words (hwmbox_send_queue s)"

definition mbox_word :: "u16 \<Rightarrow> u32 \<Rightarrow> u32 \<Rightarrow> u32" where
  "mbox_word mid data flags = (if flags AND NVADSP_MBOX_SMSG \<noteq> 0 then PREPARE_HWMBOX_SMSG mid data else data)"

lemma send_data_step:
  assumes "hwmbox_ok s"
  obtains r s' where "nvadsp_hwmbox_send_data mid data flags s = Some (r, s')"
    and "hwmbox_ok s'" and "send_hwmbox s' = send_hwmbox s"
    and "r = (if is_hwmbox_busy s \<and> length (queue_words (hwmbox_send_queue s)) = 1024 then Inl EBUSY else Inr ())"
    and "sent_words s' = sent_words s @ (if isl r then [] else [mbox_word mid data flags])"
    and "length (queue_words (hwmbox_send_queue s')) =
      length (queue_words (hwmbox_send_queue s)) + (if is_hwmbox_busy s \<and> \<not> isl r then 1 else 0)"
    and "is_hwmbox_busy s'"
proof (cases "is_hwmbox_busy s")
  case False
  then have "queue_words (hwmbox_send_queue s) = []" using assms by (auto simp: hwmbox_ok_def)
  with False assms show ?thesis
    by (intro that [of "Inr ()" "hwmbox_writel (mbox_word mid data flags) (send_hwmbox s) (s\<lparr>is_hwmbox_busy := True\<rparr>)"])
      (auto simp: nvadsp_hwmbox_send_data_def hwmbox_ok_def sent_words_def send_hwmbox_def mbox_word_def Let_def)
next
  case True
  let ?q = "hwmbox_send_queue s" and ?w = "mbox_word mid data flags"
  obtain r q where e: "hwmboxq_enqueue ?q ?w = (r, q)" by fastforce
  have ok: "hwmboxq_ok ?q" using assms by (simp add: hwmbox_ok_def)
  have st: "hwmboxq_ok q" "r = (if length (queue_words ?q) < 1024 then Inr () else Inl EBUSY)"
      "queue_words q = queue_words ?q @ (if isl r then [] else [?w])"
    using hwmboxq.enq_step [OF ok e] by blast+
  have b: "length (queue_words ?q) \<le> 1024" by (rule hwmboxq.bound [OF ok])
  have len: "length (queue_words q) = length (queue_words ?q) + (if isl r then 0 else 1)"
    unfolding st(3) by simp
  from True assms st(1,3) e show ?thesis
    by (intro that [of r "s\<lparr>hwmbox_send_queue := q\<rparr>"])
      (use st(2) b len in \<open>auto simp: nvadsp_hwmbox_send_data_def hwmbox_ok_def sent_words_def send_hwmbox_def mbox_word_def
        Let_def\<close>)
qed

lemma send_irq_step:
  assumes "hwmbox_ok s"
  shows "hwmbox_ok (hwmbox_send_empty_int_handler s)"
    and "send_hwmbox (hwmbox_send_empty_int_handler s) = send_hwmbox s"
    and "sent_words (hwmbox_send_empty_int_handler s) = sent_words s"
    and "queue_words (hwmbox_send_queue (hwmbox_send_empty_int_handler s)) = tl (queue_words (hwmbox_send_queue s))"
    and "is_hwmbox_busy (hwmbox_send_empty_int_handler s) \<longleftrightarrow> queue_words (hwmbox_send_queue s) \<noteq> []"
proof -
  let ?q = "hwmbox_send_queue s" and ?s = "hwmbox_send_empty_int_handler s"
  obtain r q where e: "hwmboxq_dequeue ?q = (r, q)" by fastforce
  have ok: "hwmboxq_ok ?q" using assms by (simp add: hwmbox_ok_def)
  have "hwmbox_ok ?s \<and> send_hwmbox ?s = send_hwmbox s \<and> sent_words ?s = sent_words s \<and>
      queue_words (hwmbox_send_queue ?s) = tl (queue_words ?q) \<and> (is_hwmbox_busy ?s \<longleftrightarrow> queue_words ?q \<noteq> [])"
  proof (cases "queue_words ?q")
    case Nil
    then have "r = Inl EBUSY" "hwmboxq_ok q" "queue_words q = []" using hwmboxq.deq_none [OF ok Nil e] by auto
    with Nil e assms show ?thesis
      by (auto simp: hwmbox_send_empty_int_handler_def hwmbox_ok_def sent_words_def send_hwmbox_def)
  next
    case (Cons x xs)
    then have d: "r = Inr x" "hwmboxq_ok q" "queue_words q = xs" using hwmboxq.deq_some [OF ok Cons e] by auto
    have "is_hwmbox_busy s" using assms Cons by (simp add: hwmbox_ok_def)
    with d Cons e assms show ?thesis
      by (auto simp: hwmbox_send_empty_int_handler_def hwmbox_ok_def sent_words_def send_hwmbox_def)
  qed
  then show "hwmbox_ok ?s" "send_hwmbox ?s = send_hwmbox s" "sent_words ?s = sent_words s"
    "queue_words (hwmbox_send_queue ?s) = tl (queue_words ?q)" "is_hwmbox_busy ?s \<longleftrightarrow> queue_words ?q \<noteq> []"
    by blast+
qed

text \<open>Callers and the interrupt in any order; the run collects the words of the accepted sends.\<close>

datatype hwmbox_event = Send_data u16 u32 u32 | Send_empty_irq

fun hwmbox_run :: "hwmbox_event list \<Rightarrow> adsp_state \<Rightarrow> (u32 list \<times> adsp_state) option" where
  "hwmbox_run [] s = Some ([], s)"
| "hwmbox_run (Send_data mid data flags # evs) s =
     (case nvadsp_hwmbox_send_data mid data flags s of
        None \<Rightarrow> None
      | Some (r, s) \<Rightarrow>
          map_option (\<lambda>(acc, s). (if isl r then acc else mbox_word mid data flags # acc, s)) (hwmbox_run evs s))"
| "hwmbox_run (Send_empty_irq # evs) s = hwmbox_run evs (hwmbox_send_empty_int_handler s)"

lemma hwmbox_run_sound:
  assumes "hwmbox_ok s"
  shows "\<exists>acc s'. hwmbox_run evs s = Some (acc, s') \<and> hwmbox_ok s' \<and> send_hwmbox s' = send_hwmbox s \<and>
    sent_words s' = sent_words s @ acc"
  using assms
proof (induction evs arbitrary: s)
  case Nil
  then show ?case by simp
next
  case (Cons e evs)
  show ?case
  proof (cases e)
    case (Send_data mid data flags)
    obtain r s1 where st: "nvadsp_hwmbox_send_data mid data flags s = Some (r, s1)" "hwmbox_ok s1"
        "send_hwmbox s1 = send_hwmbox s"
        "sent_words s1 = sent_words s @ (if isl r then [] else [mbox_word mid data flags])"
      using send_data_step [OF Cons.prems] by metis
    then show ?thesis using Cons.IH [OF st(2)] Send_data by (cases r) auto
  next
    case Send_empty_irq
    then show ?thesis using Cons.IH [OF send_irq_step(1) [OF Cons.prems]] send_irq_step(2,3) [OF Cons.prems] by simp
  qed
qed

lemma send_irq_drain:
  assumes "hwmbox_ok s" and "length (queue_words (hwmbox_send_queue s)) = n"
  shows "hwmbox_ok ((hwmbox_send_empty_int_handler ^^ Suc n) s) \<and>
    send_hwmbox ((hwmbox_send_empty_int_handler ^^ Suc n) s) = send_hwmbox s \<and>
    sent_words ((hwmbox_send_empty_int_handler ^^ Suc n) s) = sent_words s \<and>
    queue_words (hwmbox_send_queue ((hwmbox_send_empty_int_handler ^^ Suc n) s)) = [] \<and>
    \<not> is_hwmbox_busy ((hwmbox_send_empty_int_handler ^^ Suc n) s)"
  using assms
proof (induction n arbitrary: s)
  case 0
  then have "queue_words (hwmbox_send_queue s) = []" by (simp only: length_0_conv)
  then show ?case using send_irq_step [OF 0(1)] by simp
next
  case (Suc n)
  note st = send_irq_step [OF Suc.prems(1)]
  have "length (queue_words (hwmbox_send_queue (hwmbox_send_empty_int_handler s))) = n"
    unfolding st(4) using Suc.prems(2) by (simp del: length_queue_words)
  from Suc.IH [OF st(1) this] show ?case using st by (simp only: funpow_Suc_right o_apply) simp
qed

section \<open>Delivery\<close>

text \<open>The driver is loaded: both static pointers are set and the table has its 1024 entries.\<close>

definition mbox_loaded :: "adsp_state \<Rightarrow> bool" where
  "mbox_loaded s \<longleftrightarrow> mbox_drv s \<and> hwmbox_drv s \<and> length (mboxes s) = 1024 \<and> length (mbox_ids s) = 1024"

lemma writel_mbox [simp]:
  "mboxes (hwmbox_writel v r s) = mboxes s" "mbox_drv (hwmbox_writel v r s) = mbox_drv s"
  "mbox_obj (hwmbox_writel v r s) = mbox_obj s" "mbox_ids (hwmbox_writel v r s) = mbox_ids s"
  "reg_idx (hwmbox_writel v r s) = reg_idx s" "hwmbox0_reg (hwmbox_writel v r s) = hwmbox0_reg s"
  by (simp_all add: hwmbox_writel_def)

lemma readl_writel: "hwmbox_readl r (hwmbox_writel v r s) = v"
  by (simp add: hwmbox_readl_def hwmbox_writel_def hwmb_reg_idx_def)

section \<open>Blocking receive\<close>

text \<open>The state after the first \<open>n\<close> steps of the other contexts.\<close>

definition after_steps :: "('s \<Rightarrow> 's) list \<Rightarrow> nat \<Rightarrow> 's \<Rightarrow> 's" where
  "after_steps es n s = fold (\<lambda>f s. f s) (take n es) s"

lemma after_steps_simps [simp]:
  "after_steps es 0 s = s" "after_steps (e # es) (Suc n) s = after_steps es n (e s)"
  by (simp_all add: after_steps_def)

lemma wait_outcome:
  "(\<exists>n \<le> length es. dn (after_steps es n s) \<and> (\<forall>m < n. \<not> dn (after_steps es m s)) \<and>
      wait_for_completion_timeout dn es late s = (True, late (after_steps es n s))) \<or>
   ((\<forall>n \<le> length es. \<not> dn (after_steps es n s)) \<and>
      wait_for_completion_timeout dn es late s = (False, after_steps es (length es) s))"
proof (induction es arbitrary: s)
  case Nil
  then show ?case by simp
next
  case (Cons e es)
  show ?case
  proof (cases "dn s")
    case True
    then show ?thesis by (intro disjI1 exI [of _ 0]) simp
  next
    case False
    have sh: "(\<forall>m < Suc n. \<not> dn (after_steps (e # es) m s)) \<longleftrightarrow> (\<forall>m < n. \<not> dn (after_steps es m (e s)))" for n
      using False by (auto simp: less_Suc_eq_0_disj)
    from Cons.IH [of "e s"] show ?thesis
    proof (elim disjE exE conjE)
      fix n
      assume "n \<le> length es" "dn (after_steps es n (e s))" "\<forall>m < n. \<not> dn (after_steps es m (e s))"
        "wait_for_completion_timeout dn es late (e s) = (True, late (after_steps es n (e s)))"
      then show ?thesis using False sh by (intro disjI1 exI [of _ "Suc n"]) simp
    next
      assume a: "\<forall>n \<le> length es. \<not> dn (after_steps es n (e s))"
        "wait_for_completion_timeout dn es late (e s) = (False, after_steps es (length es) (e s))"
      have "\<not> dn (after_steps (e # es) n s)" if "n \<le> length (e # es)" for n
        using that a(1) False by (cases n) auto
      then show ?thesis using a(2) False by simp
    qed
  qed
qed

section \<open>Properties\<close>

text \<open>C22: a short message survives the 32-bit mailbox word: its receiver finds a short message, the low
  ten bits of the mailbox identifier, always an index of the 1024 mailboxes, and the low twenty bits of
  the data.\<close>

theorem smsg_roundtrip:
  "IS_HWMBOX_MSG_SMSG (PREPARE_HWMBOX_SMSG mid data) \<and>
   unat (HWMBOX_SMSG_MID (PREPARE_HWMBOX_SMSG mid data)) = unat mid mod NVADSP_MAILBOX_MAX \<and>
   unat (HWMBOX_SMSG_MSG (PREPARE_HWMBOX_SMSG mid data)) = unat data mod 2 ^ 20 \<and>
   PREPARE_HWMBOX_SMSG mid data \<noteq> PREPARE_HWMBOX_EMPTY_MSG"
proof -
  have "bit (PREPARE_HWMBOX_SMSG mid data) 31"
    by (simp add: PREPARE_HWMBOX_SMSG_def bit_simps)
  then have "PREPARE_HWMBOX_SMSG mid data \<noteq> PREPARE_HWMBOX_EMPTY_MSG"
    by (auto simp: PREPARE_HWMBOX_EMPTY_MSG_def)
  then show ?thesis
    by (simp add: smsg_type smsg_mid smsg_msg unat_and_mask32 unat_ucast_16_32 NVADSP_MAILBOX_MAX_def)
qed

text \<open>The tag macro does not read the tag: on every short message it gives bit 0 of the data moved
  to bit 31, so two messages with the same valid tag are told apart.\<close>

theorem hwmbox_tag_reads_data:
  "HWMBOX_TAG (PREPARE_HWMBOX_SMSG mid data) = push_bit 31 (data AND 1)"
  unfolding HWMBOX_TAG_def PREPARE_HWMBOX_SMSG_def smsg_masks by (rule smsg_bit_0 [unfolded mask_1])

text \<open>C23: from the initialised driver, with callers and the mailbox-empty interrupt in any order, no run
  faults, the accepted words are in order those written to the send register followed by those queued,
  and a further send is refused with EBUSY only when the register is taken and 1024 words wait.  The
  driver makes progress: as many interrupts as there are waiting words, plus one, write all accepted
  words to the register and leave the mailbox idle.\<close>

theorem hwmbox_fifo:
  assumes "length (q_array (hwmbox_send_queue s0)) = 1024" and "\<not> is_hwmbox_busy s0" and "mbox_writes s0 = []"
  shows "\<exists>acc s. hwmbox_run evs (nvadsp_hwmbox_init s0) = Some (acc, s) \<and>
    acc = words_written (send_hwmbox s) s @ queue_words (hwmbox_send_queue s) \<and>
    length (queue_words (hwmbox_send_queue s)) \<le> 1024 \<and>
    (\<exists>r s'. nvadsp_hwmbox_send_data mid data flags s = Some (r, s') \<and>
       r = (if is_hwmbox_busy s \<and> length (queue_words (hwmbox_send_queue s)) = 1024 then Inl EBUSY else Inr ())) \<and>
    (let n = length (queue_words (hwmbox_send_queue s));
         s' = (hwmbox_send_empty_int_handler ^^ Suc n) s
     in words_written (send_hwmbox s) s' = acc \<and> \<not> is_hwmbox_busy s')"
proof -
  have ok: "hwmbox_ok (nvadsp_hwmbox_init s0)" and w: "sent_words (nvadsp_hwmbox_init s0) = []"
    using assms hwmboxq_init_ok [of "hwmbox_send_queue s0"]
    by (simp_all add: hwmbox_ok_def nvadsp_hwmbox_init_def sent_words_def words_written_def send_hwmbox_def)
  obtain acc s where r: "hwmbox_run evs (nvadsp_hwmbox_init s0) = Some (acc, s)" "hwmbox_ok s" "sent_words s = acc"
    using hwmbox_run_sound [OF ok] w by fastforce
  have qok: "hwmboxq_ok (hwmbox_send_queue s)" using r(2) by (simp add: hwmbox_ok_def)
  obtain x s' where snd: "nvadsp_hwmbox_send_data mid data flags s = Some (x, s')"
      "x = (if is_hwmbox_busy s \<and> length (queue_words (hwmbox_send_queue s)) = 1024 then Inl EBUSY else Inr ())"
    using send_data_step [OF r(2)] by metis
  have dr: "let n = length (queue_words (hwmbox_send_queue s));
         s' = (hwmbox_send_empty_int_handler ^^ Suc n) s
     in words_written (send_hwmbox s) s' = acc \<and> \<not> is_hwmbox_busy s'"
    using send_irq_drain [OF r(2) refl] r(3) by (auto simp: sent_words_def Let_def simp del: funpow.simps)
  show ?thesis
    using r(1,3) hwmboxq.bound [OF qok] snd dr by (intro exI [of _ acc] exI [of _ s]) (simp add: sent_words_def)
qed

text \<open>The mailbox-full interrupt clears the register and delivers a short message to the mailbox its
  identifier names: to the handler when there is one, otherwise to the end of that mailbox's queue
  unless it holds 32 words; a message for a mailbox that is not open, or one that is not a short
  message, changes nothing else.  It never reads beyond the mailbox table.\<close>

theorem hwmbox_recv_delivers:
  assumes "mbox_loaded s" and w: "w = hwmbox_readl (recv_hwmbox s) s"
    and "\<And>i p. mboxes s ! i = Some p \<Longrightarrow> i < 1024 \<Longrightarrow> mboxq_ok (recv_queue (mbox_obj s p))"
  shows "\<exists>s'. hwmbox_recv_full_int_handler hcall s = Some s' \<and>
    (let s1 = hwmbox_writel 0 (recv_hwmbox s) s;
         msg = HWMBOX_SMSG_MSG w;
         target = (if IS_HWMBOX_MSG_SMSG w then mboxes s ! unat (HWMBOX_SMSG_MID w) else None)
     in hwmbox_readl (recv_hwmbox s) s1 = 0 \<and>
        (case target of
           None \<Rightarrow> s' = s1
         | Some p \<Rightarrow>
             (case mb_handler (mbox_obj s p) of
                Some h \<Rightarrow> s' = hcall h msg (mb_hdata (mbox_obj s p)) s1
              | None \<Rightarrow>
                  s' = set_recv_queue p (recv_queue (mbox_obj s' p)) s1 \<and>
                  mboxq_ok (recv_queue (mbox_obj s' p)) \<and>
                  queue_words (recv_queue (mbox_obj s' p)) =
                    queue_words (recv_queue (mbox_obj s p)) @
                      (if length (queue_words (recv_queue (mbox_obj s p))) < 32 then [msg] else []))))"
proof (cases "IS_HWMBOX_MSG_SMSG w \<and> mboxes s ! unat (HWMBOX_SMSG_MID w) \<noteq> None")
  case False
  then show ?thesis using assms(1) smsg_mid_bound [of w] unfolding w
    by (auto simp: hwmbox_recv_full_int_handler_def mbox_loaded_def Let_def PREPARE_HWMBOX_EMPTY_MSG_def readl_writel)
next
  case True
  then obtain p where p: "mboxes s ! unat (HWMBOX_SMSG_MID w) = Some p" and t: "IS_HWMBOX_MSG_SMSG w" by auto
  let ?s1 = "hwmbox_writel 0 (recv_hwmbox s) s" and ?msg = "HWMBOX_SMSG_MSG w"
  have ld: "hwmbox_drv s" "mbox_drv s" "\<not> length (mboxes s) \<le> unat (HWMBOX_SMSG_MID w)"
    using assms(1) smsg_mid_bound [of w] by (auto simp: mbox_loaded_def)
  show ?thesis
  proof (cases "mb_handler (mbox_obj s p)")
    case (Some h)
    then show ?thesis using p t ld
      by (simp add: hwmbox_recv_full_int_handler_def Let_def PREPARE_HWMBOX_EMPTY_MSG_def readl_writel w [symmetric])
  next
    case None
    obtain r q where e: "mboxq_enqueue (recv_queue (mbox_obj s p)) ?msg = (r, q)" by fastforce
    have qok: "mboxq_ok (recv_queue (mbox_obj s p))" using assms(3) [OF p smsg_mid_bound] .
    have st: "mboxq_ok q" "r = (if length (queue_words (recv_queue (mbox_obj s p))) < 32 then Inr () else Inl EINVAL)"
        "queue_words q = queue_words (recv_queue (mbox_obj s p)) @ (if isl r then [] else [?msg])"
      using mboxq.enq_step [OF qok e] by blast+
    have "hwmbox_recv_full_int_handler hcall s = Some (set_recv_queue p q ?s1)"
      using p t ld None e
      by (simp add: hwmbox_recv_full_int_handler_def Let_def PREPARE_HWMBOX_EMPTY_MSG_def w [symmetric]
          nvadsp_mboxq_enqueue_def set_recv_queue_def)
    then show ?thesis using p t None st
      by (simp add: Let_def readl_writel set_recv_queue_def)
  qed
qed

text \<open>A driver just loaded, with the queue and register words of the witnesses below.\<close>

definition empty_queue :: "nat \<Rightarrow> mbox_queue" where
  "empty_queue n = \<lparr>q_array = replicate n 0, q_head = 0, q_tail = 0, q_count = 0, q_comp = False\<rparr>"

definition loaded_adsp :: adsp_state where
  "loaded_adsp = \<lparr>mbox_drv = True, hwmbox_drv = True, mbox_ids = replicate 1024 False,
     mboxes = (replicate 1024 None)[5 := Some 3], hwmbox_send_queue = empty_queue 1024, is_hwmbox_busy = False,
     hwmbox0_reg = 0, hwmbox1_reg = 4, reg_idx = 2, empty_int_ie = 0,
     mbox_regs = (\<lambda>i r. if r = 0 then PREPARE_HWMBOX_SMSG 5 77 else 0), mbox_writes = [],
     mbox_obj = (\<lambda>p. \<lparr>mb_id = of_nat (p + 2), mb_name = [], recv_queue = empty_queue 32, mb_handler = None, mb_hdata = 0\<rparr>),
     irq_recv = False, irq_send = False, irq_bad_free = False\<rparr>"

theorem hwmbox_fifo_witness:
  "\<exists>acc s. hwmbox_run [Send_data 5 77 1, Send_data 6 78 1, Send_empty_irq, Send_data 0 9 0]
      (nvadsp_hwmbox_init loaded_adsp) = Some (acc, s) \<and>
    acc = words_written (send_hwmbox s) s @ queue_words (hwmbox_send_queue s)"
proof -
  have "length (q_array (hwmbox_send_queue loaded_adsp)) = 1024" "\<not> is_hwmbox_busy loaded_adsp"
      "mbox_writes loaded_adsp = []"
    by (simp_all add: loaded_adsp_def empty_queue_def)
  from hwmbox_fifo [OF this, of "[Send_data 5 77 1, Send_data 6 78 1, Send_empty_irq, Send_data 0 9 0]" 0 0 0]
  show ?thesis by blast
qed

lemma loaded_adsp_queues: "mboxq_ok (recv_queue (mbox_obj loaded_adsp p))"
  by (simp add: loaded_adsp_def empty_queue_def mboxq_ok_def queue_ok_def)

theorem hwmbox_recv_delivers_witness:
  "\<exists>s'. hwmbox_recv_full_int_handler (\<lambda>h m d s. s) loaded_adsp = Some s' \<and>
     queue_words (recv_queue (mbox_obj s' 3)) = [77]"
proof -
  have l: "mbox_loaded loaded_adsp" by (simp add: mbox_loaded_def loaded_adsp_def)
  have w: "PREPARE_HWMBOX_SMSG 5 77 = hwmbox_readl (recv_hwmbox loaded_adsp) loaded_adsp"
    by (simp add: hwmbox_readl_def recv_hwmbox_def hwmb_reg_idx_def loaded_adsp_def)
  have m: "unat (HWMBOX_SMSG_MID (PREPARE_HWMBOX_SMSG 5 77)) = 5"
    by (simp add: smsg_mid unat_and_mask32 unat_ucast_16_32)
  have v: "HWMBOX_SMSG_MSG (PREPARE_HWMBOX_SMSG 5 77) = 77"
    by (rule word_unat_eq_iff [THEN iffD2]) (simp add: smsg_msg unat_and_mask32)
  have t: "mboxes loaded_adsp ! 5 = Some 3" "mb_handler (mbox_obj loaded_adsp 3) = None"
      "queue_words (recv_queue (mbox_obj loaded_adsp 3)) = []"
    by (simp_all add: loaded_adsp_def empty_queue_def queue_words_def)
  from hwmbox_recv_delivers [OF l w loaded_adsp_queues, of "\<lambda>h m d s. s"]
  show ?thesis by (auto simp: Let_def smsg_type m v t simp del: length_queue_words)
qed

text \<open>A blocking receive on a mailbox whose completion the other contexts keep accurate returns the
  word at the front of the queue as soon as there is one, without waiting when there is one already;
  ETIME means that the queue was empty at every step until the timeout, and EBUSY cannot be returned
  unless another context overtakes the woken receiver.\<close>

theorem mbox_recv_blocking:
  assumes "mbox_drv s"
    and "\<And>n. n \<le> length es \<Longrightarrow> mboxq_ok (recv_queue (mbox_obj (after_steps es n s) p))"
    and "nvadsp_mbox_recv es id (Some p) True s = (r, s')"
  shows "(\<exists>n x xs. n \<le> length es \<and> queue_words (recv_queue (mbox_obj (after_steps es n s) p)) = x # xs \<and>
      (\<forall>m < n. queue_words (recv_queue (mbox_obj (after_steps es m s) p)) = []) \<and> r = Inr x \<and>
      queue_words (recv_queue (mbox_obj s' p)) = xs) \<or>
    ((\<forall>m \<le> length es. queue_words (recv_queue (mbox_obj (after_steps es m s) p)) = []) \<and> r = Inl ETIME)"
proof -
  let ?q = "\<lambda>s. recv_queue (mbox_obj s p)"
  have dn: "q_comp (?q (after_steps es n s)) \<longleftrightarrow> queue_words (?q (after_steps es n s)) \<noteq> []" if "n \<le> length es" for n
    using assms(2) [OF that] by (simp add: mboxq_ok_def queue_words_empty)
  have deq: "\<exists>q. mboxq_dequeue (?q t) = (Inr x, q) \<and> queue_words q = xs"
    if "mboxq_ok (?q t)" "queue_words (?q t) = x # xs" for t x xs
    using mboxq_dequeue_some [OF that] by (metis prod.collapse)
  show ?thesis
  proof (cases "queue_words (?q s)")
    case (Cons x xs)
    then show ?thesis using deq [of s, OF _ Cons] assms(1,3) assms(2) [of 0]
      by (intro disjI1 exI [of _ "0::nat"]) (auto simp: nvadsp_mbox_recv_def set_recv_queue_def)
  next
    case Nil
    have ok: "mboxq_ok (?q s)" using assms(2) [of 0] by simp
    then have "\<not> q_comp (?q s)" using Nil dn [of 0] by simp
    then have e: "mboxq_dequeue (?q s) = (Inl EBUSY, ?q s)"
      using Nil by (simp add: mboxq_dequeue_def is_mboxq_empty_def queue_words_empty)
    have same: "set_recv_queue p (?q s) s = s" by (simp add: set_recv_queue_def)
    show ?thesis
      using wait_outcome [of es "\<lambda>s. q_comp (?q s)" s id]
    proof (elim disjE exE conjE)
      fix n
      assume n: "n \<le> length es" "q_comp (?q (after_steps es n s))" "\<forall>m < n. \<not> q_comp (?q (after_steps es m s))"
        "wait_for_completion_timeout (\<lambda>s. q_comp (?q s)) es id s = (True, id (after_steps es n s))"
      then obtain x xs where x: "queue_words (?q (after_steps es n s)) = x # xs" using dn [OF n(1)] by (meson neq_Nil_conv)
      obtain q where d: "mboxq_dequeue (?q (after_steps es n s)) = (Inr x, q)" "queue_words q = xs"
        using deq [OF assms(2) [OF n(1)] x] by blast
      have "\<forall>m < n. queue_words (?q (after_steps es m s)) = []" using n(1,3) dn by (meson le_trans less_imp_le)
      moreover have "r = Inr x" "queue_words (?q s') = xs"
        using assms(1,3) e same n(4) d by (auto simp: nvadsp_mbox_recv_def set_recv_queue_def)
      ultimately show ?thesis using n(1) x by blast
    next
      assume w: "\<forall>n \<le> length es. \<not> q_comp (?q (after_steps es n s))"
        "wait_for_completion_timeout (\<lambda>s. q_comp (?q s)) es id s = (False, after_steps es (length es) s)"
      then have "r = Inl ETIME" using assms(1,3) e same by (auto simp: nvadsp_mbox_recv_def)
      then show ?thesis using w(1) dn by blast
    qed
  qed
qed

theorem mbox_recv_blocking_witness:
  "fst (nvadsp_mbox_recv [\<lambda>s. s, set_recv_queue 3 (snd (mboxq_enqueue (empty_queue 32) 8))] id (Some 3) True
     loaded_adsp) = Inr 8"
proof -
  let ?q = "snd (mboxq_enqueue (empty_queue 32) 8)"
  let ?es = "[\<lambda>s. s, set_recv_queue 3 ?q]"
  have e: "mboxq_ok (empty_queue 32)" "queue_words (empty_queue 32) = []" "q_count (empty_queue 32) = 0"
    by (simp_all add: mboxq_ok_def queue_ok_def queue_words_def empty_queue_def)
  have q: "mboxq_ok ?q" "queue_words ?q = [8]" using mboxq_enqueue_space [OF e(1), of 8] e(2,3) by simp_all
  have l: "mbox_drv loaded_adsp" "recv_queue (mbox_obj loaded_adsp 3) = empty_queue 32"
    by (simp_all add: loaded_adsp_def)
  have st: "recv_queue (mbox_obj (after_steps ?es n loaded_adsp) 3) = (if n = 2 then ?q else empty_queue 32)"
    if "n \<le> length ?es" for n
  proof -
    have "n = 0 \<or> n = 1 \<or> n = 2" using that by auto
    then show ?thesis by (auto simp: after_steps_def l(2) set_recv_queue_def)
  qed
  have ok: "mboxq_ok (recv_queue (mbox_obj (after_steps ?es n loaded_adsp) 3))" if "n \<le> length ?es" for n
    unfolding st [OF that] using q(1) e(1) by simp
  obtain r s' where r: "nvadsp_mbox_recv ?es id (Some 3) True loaded_adsp = (r, s')" by fastforce
  from mbox_recv_blocking [OF l(1) ok r] st [of 2] q(2) st e(2) show ?thesis unfolding r
    by (auto split: if_split_asm)
qed

text \<open>An open with an identifier of the caller's choice succeeds exactly for identifiers below 1024
  that no mailbox holds: the mailbox is then registered under it with an empty queue and the name cut
  to 16 bytes, and nothing else changes; the errors ENOSYS, EINVAL, ERANGE and EADDRINUSE change
  nothing at all.\<close>

theorem mbox_open_explicit:
  assumes "mbox_loaded s" and "mid \<noteq> 0" and "length (q_array (recv_queue (mbox_obj s p))) = 32"
  shows "\<exists>r s'. nvadsp_mbox_open fnd (Some p) mid name handler hdata s = Some (r, s') \<and>
    (r = (if 1024 \<le> unat mid then Inl ERANGE else if mboxes s ! unat mid \<noteq> None then Inl EADDRINUSE else Inr mid)) \<and>
    (case r of
       Inl e \<Rightarrow> s' = s
     | Inr i \<Rightarrow>
         s' = s\<lparr>mboxes := (mboxes s)[unat mid := Some p], mbox_obj := (mbox_obj s)(p := mbox_obj s' p)\<rparr> \<and>
         mboxes s' ! unat mid = Some p \<and> mb_id (mbox_obj s' p) = mid \<and>
         mboxq_ok (recv_queue (mbox_obj s' p)) \<and> queue_words (recv_queue (mbox_obj s' p)) = [] \<and>
         mb_handler (mbox_obj s' p) = handler \<and> mb_hdata (mbox_obj s' p) = hdata \<and>
         take (min 16 (length name)) (mb_name (mbox_obj s' p)) = take 16 name)"
proof (cases "1024 \<le> unat mid \<or> mboxes s ! unat mid \<noteq> None")
  case True
  then show ?thesis using assms by (auto simp: nvadsp_mbox_open_def mbox_loaded_def NVADSP_MAILBOX_MAX_def)
next
  case False
  let ?m = "(mbox_obj s p)\<lparr>mb_id := mid, mb_name := strncpy (mb_name (mbox_obj s p)) name 16,
    recv_queue := mboxq_init (recv_queue (mbox_obj s p)), mb_handler := handler, mb_hdata := hdata\<rparr>"
  have "nvadsp_mbox_open fnd (Some p) mid name handler hdata s =
      Some (Inr mid, s\<lparr>mbox_obj := (mbox_obj s)(p := ?m), mboxes := (mboxes s)[unat mid := Some p]\<rparr>)"
    using False assms by (simp add: nvadsp_mbox_open_def mbox_open_fill_def mbox_loaded_def NVADSP_MAILBOX_MAX_def Let_def)
  moreover have "take (min 16 (length name)) (strncpy (mb_name (mbox_obj s p)) name 16) = take 16 name"
    by (simp add: strncpy_def min_def)
  ultimately show ?thesis using False assms mboxq_init_ok [OF assms(3)] by (simp add: mbox_loaded_def)
qed

theorem mbox_open_explicit_witness:
  "\<exists>s'. nvadsp_mbox_open (\<lambda>m size start n a. size) (Some 9) 700 ''os'' None 0 loaded_adsp = Some (Inr 700, s') \<and>
     mboxes s' ! 700 = Some 9"
proof -
  have "mbox_loaded loaded_adsp" "(700::u16) \<noteq> 0" "length (q_array (recv_queue (mbox_obj loaded_adsp 9))) = 32"
    by (simp_all add: mbox_loaded_def loaded_adsp_def empty_queue_def)
  from mbox_open_explicit [OF this, of "\<lambda>m size start n a. size" "''os''" None 0]
  have "\<exists>s'. nvadsp_mbox_open (\<lambda>m size start n a. size) (Some 9) 700 ''os'' None 0 loaded_adsp = Some (Inr 700, s') \<and>
     mboxes s' ! unat (700::u16) = Some 9"
    by (auto simp: loaded_adsp_def split: if_split_asm)
  then show ?thesis by simp
qed

text \<open>What the kernel documents of \<open>bitmap_find_next_zero_area\<close> for areas of one bit without
  alignment: an index of a clear bit in range, or the end of the area that did not fit.\<close>

definition zero_area_ok :: "zero_area \<Rightarrow> bool" where
  "zero_area_ok fnd \<longleftrightarrow> (\<forall>m sz start. sz \<le> length m \<longrightarrow>
     (if \<exists>i. start \<le> i \<and> i < sz \<and> \<not> m ! i
      then start \<le> fnd m sz start 1 0 \<and> fnd m sz start 1 0 < sz \<and> \<not> m ! fnd m sz start 1 0
      else fnd m sz start 1 0 = sz + 1))"

fun first_zero :: zero_area where
  "first_zero m sz start nr al =
     (case dropWhile (\<lambda>i. m ! i) [start..<sz] of [] \<Rightarrow> sz + nr | i # xs \<Rightarrow> i)"

lemma first_zero_ok: "zero_area_ok first_zero"
  unfolding zero_area_ok_def
proof (intro allI impI)
  fix m :: "bool list" and sz start
  assume "sz \<le> length m"
  show "if \<exists>i. start \<le> i \<and> i < sz \<and> \<not> m ! i
      then start \<le> first_zero m sz start 1 0 \<and> first_zero m sz start 1 0 < sz \<and> \<not> m ! first_zero m sz start 1 0
      else first_zero m sz start 1 0 = sz + 1"
  proof (cases "dropWhile (\<lambda>i. m ! i) [start..<sz]")
    case Nil
    then have "\<forall>i. start \<le> i \<and> i < sz \<longrightarrow> m ! i" by (auto simp: dropWhile_eq_Nil_conv)
    moreover have "first_zero m sz start 1 0 = sz + 1" unfolding first_zero.simps Nil by simp
    ultimately show ?thesis by auto
  next
    case (Cons i xs)
    from Cons have "i \<in> set [start..<sz]" by (metis list.set_intros(1) set_dropWhileD)
    moreover have "\<not> m ! i" using Cons by (simp add: dropWhile_eq_Cons_conv)
    ultimately show ?thesis using Cons by auto
  qed
qed

text \<open>An open with identifier 0 takes an identifier from 512 to 1022 whose bit is clear, marks it
  and registers the mailbox there, even over a mailbox opened under that number by choice, since such
  an open does not mark the bitmap.  When all those bits are set it does not fail with ENOMEM as
  intended: the bit it marks first is the one after the end of the bitmap.\<close>

theorem mbox_open_auto:
  assumes "mbox_loaded s" and "zero_area_ok fnd"
  shows "if \<forall>i. 512 \<le> i \<and> i < 1023 \<longrightarrow> mbox_ids s ! i
    then nvadsp_mbox_open fnd (Some p) 0 name handler hdata s = None
    else \<exists>i s'. nvadsp_mbox_open fnd (Some p) 0 name handler hdata s = Some (Inr i, s') \<and>
      512 \<le> unat i \<and> unat i < 1023 \<and> \<not> mbox_ids s ! unat i \<and>
      mbox_ids s' = (mbox_ids s)[unat i := True] \<and> mboxes s' = (mboxes s)[unat i := Some p] \<and>
      mb_id (mbox_obj s' p) = i \<and> (\<forall>p'. p' \<noteq> p \<longrightarrow> mbox_obj s' p' = mbox_obj s p')"
proof -
  define j where "j = fnd (mbox_ids s) 1023 512 1 0"
  have len: "length (mbox_ids s) = 1024" "length (mboxes s) = 1024" "mbox_drv s" using assms(1) by (auto simp: mbox_loaded_def)
  have j: "if \<exists>i. 512 \<le> i \<and> i < 1023 \<and> \<not> mbox_ids s ! i
      then 512 \<le> j \<and> j < 1023 \<and> \<not> mbox_ids s ! j else j = 1023 + 1"
    unfolding j_def by (rule assms(2) [unfolded zero_area_ok_def, rule_format]) (simp add: len)
  then have jb: "j \<le> 1024" by (auto split: if_split_asm)
  then have u: "unat (of_nat j :: u16) = j" by (simp add: unat_of_nat take_bit_nat_eq_self_iff)
  have eq: "fnd (mbox_ids s) (1024 - 1) 512 1 0 = j" by (simp add: j_def)
  have al: "nvadsp_mbox_alloc_mboxid fnd s =
      (if 1024 \<le> j then None else Some (of_nat j, s\<lparr>mbox_ids := (mbox_ids s)[j := True]\<rparr>))"
    unfolding nvadsp_mbox_alloc_mboxid_def NVADSP_MAILBOX_MAX_def NVADSP_MAILBOX_START_def eq Let_def u len ..
  show ?thesis
  proof (cases "\<forall>i. 512 \<le> i \<and> i < 1023 \<longrightarrow> mbox_ids s ! i")
    case True
    then have "j = 1024" using j by auto
    then show ?thesis using True len by (simp add: nvadsp_mbox_open_def al)
  next
    case False
    then have jj: "512 \<le> j" "j < 1023" "\<not> mbox_ids s ! j" using j by (auto split: if_split_asm)
    have "\<exists>s'. nvadsp_mbox_open fnd (Some p) 0 name handler hdata s = Some (Inr (of_nat j), s') \<and>
        mbox_ids s' = (mbox_ids s)[j := True] \<and> mboxes s' = (mboxes s)[j := Some p] \<and>
        mb_id (mbox_obj s' p) = of_nat j \<and> (\<forall>p'. p' \<noteq> p \<longrightarrow> mbox_obj s' p' = mbox_obj s p')"
      using jj len by (simp add: nvadsp_mbox_open_def al mbox_open_fill_def NVADSP_MAILBOX_MAX_def u Let_def)
    then show ?thesis unfolding if_not_P [OF False] using jj u by metis
  qed
qed

theorem mbox_open_auto_witness:
  "\<exists>s'. nvadsp_mbox_open first_zero (Some 9) 0 ''x'' None 0
      (loaded_adsp\<lparr>mboxes := (replicate 1024 None)[512 := Some 8],
         mbox_ids := replicate 513 False @ replicate 511 True\<rparr>) = Some (Inr 512, s') \<and> mboxes s' ! 512 = Some 9"
proof -
  let ?s = "loaded_adsp\<lparr>mboxes := (replicate 1024 None)[512 := Some 8],
         mbox_ids := replicate 513 False @ replicate 511 True\<rparr>"
  have l: "mbox_loaded ?s" by (simp add: mbox_loaded_def loaded_adsp_def)
  have z: "(\<forall>i. 512 \<le> i \<and> i < 1023 \<longrightarrow> mbox_ids ?s ! i) = False"
    by (auto simp: nth_append intro!: exI [of _ 512])
  obtain i s' where o: "nvadsp_mbox_open first_zero (Some 9) 0 ''x'' None 0 ?s = Some (Inr i, s')"
      "512 \<le> unat i" "unat i < 1023" "\<not> mbox_ids ?s ! unat i" "mboxes s' = (mboxes ?s)[unat i := Some 9]"
    using mbox_open_auto [OF l first_zero_ok, of 9 "''x''" None 0] unfolding z if_False by blast
  have "unat i = 512"
  proof (rule ccontr)
    assume "unat i \<noteq> 512"
    with o(2,3) have "mbox_ids ?s ! unat i" by (simp add: nth_append)
    with o(4) show False ..
  qed
  then have "i = 512" by (simp add: word_unat_eq_iff)
  with o show ?thesis by auto
qed

text \<open>Closing a mailbox just opened succeeds, frees its identifier and its table entry and leaves
  every other mailbox as it was before the open; closing one with words in its queue is refused with
  ENOTEMPTY and changes nothing.\<close>

theorem mbox_open_close:
  assumes "mbox_loaded s" and "nvadsp_mbox_open fnd (Some p) mid name handler hdata s = Some (Inr i, s1)"
  shows "(\<exists>s2. nvadsp_mbox_close (Some p) s1 = Some (Inr (), s2) \<and>
      mboxes s2 = (mboxes s)[unat i := None] \<and> mbox_ids s2 = (mbox_ids s)[unat i := False] \<and>
      (\<forall>p'. p' \<noteq> p \<longrightarrow> mbox_obj s2 p' = mbox_obj s p')) \<and>
    (q_count q \<noteq> 0 \<longrightarrow>
      nvadsp_mbox_close (Some p) (set_recv_queue p q s1) = Some (Inl ENOTEMPTY, set_recv_queue p q s1))"
proof -
  have len: "length (mbox_ids s) = 1024" "length (mboxes s) = 1024" "mbox_drv s" using assms(1) by (auto simp: mbox_loaded_def)
  let ?m = "(mbox_obj s p)\<lparr>mb_id := i, mb_name := strncpy (mb_name (mbox_obj s p)) name 16,
    recv_queue := mboxq_init (recv_queue (mbox_obj s p)), mb_handler := handler, mb_hdata := hdata\<rparr>"
  have s1: "\<exists>ids. s1 = s\<lparr>mbox_ids := ids, mbox_obj := (mbox_obj s)(p := ?m), mboxes := (mboxes s)[unat i := Some p]\<rparr> \<and>
      length ids = 1024 \<and> ids[unat i := False] = (mbox_ids s)[unat i := False]" and i: "unat i < 1024"
  proof -
    have eta: "s = s\<lparr>mbox_ids := mbox_ids s\<rparr>" by simp
    show "\<exists>ids. s1 = s\<lparr>mbox_ids := ids, mbox_obj := (mbox_obj s)(p := ?m), mboxes := (mboxes s)[unat i := Some p]\<rparr> \<and>
      length ids = 1024 \<and> ids[unat i := False] = (mbox_ids s)[unat i := False]"
    proof (cases "mid = 0")
      case True
      then show ?thesis using assms(2) len
        by (intro exI [of _ "(mbox_ids s)[unat i := True]"])
          (auto simp: nvadsp_mbox_open_def nvadsp_mbox_alloc_mboxid_def mbox_open_fill_def Let_def split: if_split_asm)
    next
      case False
      then show ?thesis using assms(2) len
        by (intro exI [of _ "mbox_ids s"])
          (auto simp: nvadsp_mbox_open_def mbox_open_fill_def Let_def split: if_split_asm)
    qed
    show "unat i < 1024" using assms(2) len
      by (auto simp: nvadsp_mbox_open_def nvadsp_mbox_alloc_mboxid_def mbox_open_fill_def Let_def NVADSP_MAILBOX_MAX_def
          split: if_split_asm)
  qed
  obtain ids where ids: "s1 = s\<lparr>mbox_ids := ids, mbox_obj := (mbox_obj s)(p := ?m), mboxes := (mboxes s)[unat i := Some p]\<rparr>"
      "length ids = 1024" "ids[unat i := False] = (mbox_ids s)[unat i := False]" using s1 by blast
  have a: "\<exists>s2. nvadsp_mbox_close (Some p) s1 = Some (Inr (), s2) \<and>
      mboxes s2 = (mboxes s)[unat i := None] \<and> mbox_ids s2 = (mbox_ids s)[unat i := False] \<and>
      (\<forall>p'. p' \<noteq> p \<longrightarrow> mbox_obj s2 p' = mbox_obj s p')"
    unfolding ids(1) using ids(2,3) i len
    by (simp add: nvadsp_mbox_close_def nvadsp_mbox_free_mboxid_def is_mboxq_empty_def mboxq_init_def Let_def)
  have b: "nvadsp_mbox_close (Some p) (set_recv_queue p q s1) = Some (Inl ENOTEMPTY, set_recv_queue p q s1)"
    if "q_count q \<noteq> 0"
    unfolding ids(1) using that len by (simp add: nvadsp_mbox_close_def set_recv_queue_def is_mboxq_empty_def)
  from a b show ?thesis by blast
qed

theorem mbox_open_close_witness:
  "\<exists>s1 s2. nvadsp_mbox_open first_zero (Some 9) 5 ''x'' None 0 (nvadsp_mbox_init loaded_adsp) = Some (Inr 5, s1) \<and>
     nvadsp_mbox_close (Some 9) s1 = Some (Inr (), s2) \<and> mboxes s2 ! 5 = None"
proof -
  let ?s = "nvadsp_mbox_init loaded_adsp"
  have l: "mbox_loaded ?s" by (simp add: mbox_loaded_def loaded_adsp_def nvadsp_mbox_init_def NVADSP_MAILBOX_MAX_def)
  obtain s1 where o: "nvadsp_mbox_open first_zero (Some 9) 5 ''x'' None 0 ?s = Some (Inr 5, s1)"
    by (simp add: nvadsp_mbox_open_def mbox_open_fill_def nvadsp_mbox_init_def loaded_adsp_def NVADSP_MAILBOX_MAX_def Let_def)
  from mbox_open_close [OF l o, of "empty_queue 32"] l
  obtain s2 where "nvadsp_mbox_close (Some 9) s1 = Some (Inr (), s2)" "mboxes s2 = (mboxes ?s)[unat (5::u16) := None]" by blast
  with o l show ?thesis by (auto simp: mbox_loaded_def)
qed

end
