(* ===== verification/Msgq.thy ===== *)
theory Msgq imports Prelude begin

text \<open>
  The circular message queue that the ADSP driver shares with its clients
  (\<open>drivers/platform/tegra/nvadsp/msgq.c\<close>, structs in \<open>include/linux/tegra_nvadsp.h\<close>): messages of
  varying length, each a size word followed by its payload, stored one after the other in a ring of
  32-bit words.  Words and indices are integers; an assignment to an \<open>int32_t\<close> of a value that may not
  fit goes through \<open>s32\<close>.  \<open>None\<close> is an access outside the queue's or the message's memory.
\<close>

section \<open>The structs\<close>

definition s32 :: "int \<Rightarrow> int" where "s32 x = (x + 2 ^ 31) mod 2 ^ 32 - 2 ^ 31"

lemma s32_id [simp]: "- (2 ^ 31) \<le> x \<Longrightarrow> x < 2 ^ 31 \<Longrightarrow> s32 x = x"
  by (simp add: s32_def)

text \<open>\<open>mq_queue\<close> is the memory from \<open>msgq->queue\<close> on; a message buffer is the list of its words, the
  size first.\<close>

record msgq =
  mq_size :: int
  mq_write :: int
  mq_read :: int
  mq_queue :: "int list"

definition MSGQ_MAX_QUEUE_WSIZE :: int where "MSGQ_MAX_QUEUE_WSIZE = 8192 - 3"
definition MSGQ_MESSAGE_HEADER_WSIZE :: int where "MSGQ_MESSAGE_HEADER_WSIZE = 1"

text \<open>\<open>msgq_wmemcpy\<close> between word arrays: a negative count is a huge unsigned one.\<close>

definition wmemcpy :: "int list \<Rightarrow> int \<Rightarrow> int list \<Rightarrow> int \<Rightarrow> int \<Rightarrow> int list option" where
  "wmemcpy dest d src s n =
     (if n < 0 \<or> d < 0 \<or> int (length dest) < d + n \<or> s < 0 \<or> int (length src) < s + n then None
      else Some (take (nat d) dest @ take (nat n) (drop (nat s) src) @ drop (nat d + nat n) dest))"

section \<open>Operations\<close>

text \<open>The limit is a \<open>size_t\<close>, so the comparison is unsigned: a negative size is above it.\<close>

definition msgq_init :: "int \<Rightarrow> msgq \<Rightarrow> msgq" where
  "msgq_init sz q =
     q\<lparr>mq_size := (if MSGQ_MAX_QUEUE_WSIZE < sz \<or> sz < 0 then MSGQ_MAX_QUEUE_WSIZE else sz),
       mq_read := 0, mq_write := 0\<rparr>"

definition msgq_queue_message :: "int list option \<Rightarrow> msgq \<Rightarrow> ((errno + unit) \<times> msgq) option" where
  "msgq_queue_message message q =
     (case message of
        None \<Rightarrow> Some (Inl EFAULT, q)
      | Some m \<Rightarrow>
          if m = [] then None
          else
            let ri = mq_read q;
                wi = mq_write q;
                wrap = (ri \<le> wi);
                qremainder = s32 (if wrap then mq_size q - wi else ri - wi);
                qsize = s32 (if wrap then qremainder + ri else qremainder);
                msize = s32 (MSGQ_MESSAGE_HEADER_WSIZE + m ! 0)
            in if qsize \<le> msize then Some (Inl ENOSPC, q)
               else if msize < qremainder then
                 (case wmemcpy (mq_queue q) wi m 0 msize of
                    None \<Rightarrow> None
                  | Some a \<Rightarrow>
                      Some (Inr (), q\<lparr>mq_queue := a, mq_write := s32 (wi + MSGQ_MESSAGE_HEADER_WSIZE + m ! 0)\<rparr>))
               else
                 (case wmemcpy (mq_queue q) wi m 0 qremainder of
                    None \<Rightarrow> None
                  | Some a \<Rightarrow>
                      (case wmemcpy a 0 m qremainder (msize - qremainder) of
                         None \<Rightarrow> None
                       | Some a \<Rightarrow>
                           Some (Inr (), q\<lparr>mq_queue := a,
                             mq_write := s32 (wi + MSGQ_MESSAGE_HEADER_WSIZE + m ! 0 - mq_size q)\<rparr>))))"

text \<open>Dequeue into the buffer \<open>message\<close>, whose first word holds the payload size it can take; the
  result carries the buffer back.\<close>

definition msgq_dequeue_message ::
  "int list option \<Rightarrow> msgq \<Rightarrow> ((errno + unit) \<times> int list option \<times> msgq) option" where
  "msgq_dequeue_message message q =
     (let ri = mq_read q; wi = mq_write q
      in if message = Some [] then None
         else if ri = wi then Some (Inl ENOMSG, map_option (\<lambda>m. m[0 := 0]) message, q)
         else if ri < 0 \<or> int (length (mq_queue q)) \<le> ri then None
         else
           let msg_size = mq_queue q ! nat ri
           in (case message of
                 None \<Rightarrow>
                   let ri = s32 (ri + MSGQ_MESSAGE_HEADER_WSIZE + msg_size)
                   in Some (Inr (), None, q\<lparr>mq_read := if ri < mq_size q then ri else s32 (ri - mq_size q)\<rparr>)
               | Some m \<Rightarrow>
                   if m ! 0 < msg_size then Some (Inl ENOSPC, Some (m[0 := msg_size]), q)
                   else
                     let msize = s32 (MSGQ_MESSAGE_HEADER_WSIZE + msg_size);
                         qremainder = s32 (mq_size q - ri)
                     in if msize < qremainder then
                          (case wmemcpy m 0 (mq_queue q) ri msize of
                             None \<Rightarrow> None
                           | Some m \<Rightarrow>
                               Some (Inr (), Some m, q\<lparr>mq_read := s32 (ri + MSGQ_MESSAGE_HEADER_WSIZE + msg_size)\<rparr>))
                        else
                          (case wmemcpy m 0 (mq_queue q) ri qremainder of
                             None \<Rightarrow> None
                           | Some m \<Rightarrow>
                               (case wmemcpy m qremainder (mq_queue q) 0 (msize - qremainder) of
                                  None \<Rightarrow> None
                                | Some m \<Rightarrow>
                                    Some (Inr (), Some m,
                                      q\<lparr>mq_read := s32 (ri + MSGQ_MESSAGE_HEADER_WSIZE + msg_size - mq_size q)\<rparr>)))))"

section \<open>The queue as a list of messages\<close>

text \<open>The words from the read index to the write index, around the end of the ring.\<close>

definition ring_words :: "nat \<Rightarrow> nat \<Rightarrow> nat \<Rightarrow> 'a list \<Rightarrow> 'a list" where
  "ring_words n r w a = (if r \<le> w then take (w - r) (drop r a) else drop r (take n a) @ take w a)"

definition enc_msg :: "int list \<Rightarrow> int list" where "enc_msg p = int (length p) # p"

definition msgq_rel :: "msgq \<Rightarrow> int list list \<Rightarrow> bool" where
  "msgq_rel q ms \<longleftrightarrow> 0 \<le> mq_read q \<and> mq_read q < mq_size q \<and> 0 \<le> mq_write q \<and> mq_write q < mq_size q \<and>
     mq_size q \<le> MSGQ_MAX_QUEUE_WSIZE \<and> mq_size q \<le> int (length (mq_queue q)) \<and>
     ring_words (nat (mq_size q)) (nat (mq_read q)) (nat (mq_write q)) (mq_queue q) = concat (map enc_msg ms)"

text \<open>The words that the stored messages take.\<close>

definition used_words :: "int list list \<Rightarrow> nat" where
  "used_words ms = length (concat (map enc_msg ms))"

lemma length_enc_msg [simp]: "length (enc_msg p) = Suc (length p)"
  by (simp add: enc_msg_def)

lemma length_ring_words:
  assumes "r < n" "w < n" "n \<le> length a"
  shows "length (ring_words n r w a) = (if r \<le> w then w - r else n - r + w)"
  using assms by (simp add: ring_words_def)

definition splice :: "'a list \<Rightarrow> nat \<Rightarrow> 'a list \<Rightarrow> 'a list" where
  "splice a d xs = take d a @ xs @ drop (d + length xs) a"

lemma length_splice [simp]: "d + length xs \<le> length a \<Longrightarrow> length (splice a d xs) = length a"
  by (simp add: splice_def)

lemma wmemcpy_splice:
  assumes "d + n \<le> length dest" "s + n \<le> length src"
  shows "wmemcpy dest (int d) src (int s) (int n) = Some (splice dest d (take n (drop s src)))"
proof -
  have "length (take n (drop s src)) = n" using assms(2) by simp
  then show ?thesis using assms by (simp add: wmemcpy_def splice_def nat_add_distrib)
qed

lemma split4:
  assumes "i \<le> j" "j \<le> k" "k \<le> length a"
  obtains A B C D where "a = A @ B @ C @ D" "length A = i" "length B = j - i" "length C = k - j"
proof
  show "a = take i a @ take (j - i) (drop i a) @ take (k - j) (drop j a) @ drop k a"
    using assms by (metis append_take_drop_id drop_drop le_add_diff_inverse2)
qed (use assms in auto)

text \<open>Writing behind the write index extends the words of the ring.\<close>

lemma ring_put_flat:
  assumes "r < n" "w < n" "n \<le> length a" and "if r \<le> w then w + length xs < n else w + length xs < r"
  shows "ring_words n r (w + length xs) (splice a w xs) = ring_words n r w a @ xs"
proof (cases "r \<le> w")
  case True
  obtain A B C D where a: "a = A @ B @ C @ D" "length A = r" "length B = w - r" "length C = n - w"
    by (rule split4 [of r w n a]) (use True assms in auto)
  have "splice a w xs = A @ B @ xs @ drop (length xs) (C @ D)"
    using True by (simp add: splice_def a)
  then show ?thesis using True a by (simp add: ring_words_def)
next
  case False
  obtain A B C D where a: "a = A @ B @ C @ D" "length A = w" "length B = r - w" "length C = n - r"
    by (rule split4 [of w r n a]) (use False assms in auto)
  have "length xs \<le> length B" using False assms a by simp
  then have "splice a w xs = A @ xs @ drop (length xs) B @ C @ D"
    by (simp add: splice_def a flip: a(2))
  then show ?thesis using False a assms by (simp add: ring_words_def)
qed

lemma ring_put_wrap:
  assumes "r < n" "w < n" "n \<le> length a" "r \<le> w" and "n - w \<le> length xs" "w + length xs - n < r"
  shows "ring_words n r (w + length xs - n)
      (splice (splice a w (take (n - w) xs)) 0 (drop (n - w) xs)) = ring_words n r w a @ xs"
proof -
  let ?u = "take (n - w) xs" and ?v = "drop (n - w) xs"
  obtain A B C D where a: "a = A @ B @ C @ D" "length A = r" "length B = w - r" "length C = n - w"
    by (rule split4 [of r w n a]) (use assms in auto)
  have u: "length ?u = n - w" and v: "length ?v = w + length xs - n" using assms by auto
  have "splice a w ?u = A @ B @ ?u @ D"
    unfolding splice_def u using assms(4) by (simp add: a)
  then have sp: "splice (splice a w ?u) 0 ?v = ?v @ drop (length ?v) A @ B @ ?u @ D"
    unfolding splice_def using v assms a by simp
  have "ring_words n r (w + length xs - n) (?v @ drop (length ?v) A @ B @ ?u @ D) = B @ ?u @ ?v"
    unfolding ring_words_def using u v assms a by simp
  moreover have "ring_words n r w a = B" using assms a by (simp add: ring_words_def)
  ultimately show ?thesis unfolding sp by simp
qed

text \<open>Reading at the read index takes words off the front.\<close>

lemma ring_get_flat:
  assumes "r < n" "w < n" "n \<le> length a" and "ring_words n r w a = xs @ ys" and "r + length xs < n"
  shows "take (length xs) (drop r a) = xs" and "ring_words n (r + length xs) w a = ys"
proof -
  have "take (length xs) (drop r a) = xs \<and> ring_words n (r + length xs) w a = ys"
  proof (cases "r \<le> w")
    case True
    obtain A B C D where a: "a = A @ B @ C @ D" "length A = r" "length B = w - r" "length C = n - w"
      by (rule split4 [of r w n a]) (use True assms in auto)
    have b: "B = xs @ ys" using assms(4) True a by (simp add: ring_words_def)
    then have "length xs + length ys = w - r" using a(3) by simp
    then have "r + length xs \<le> w" using True by linarith
    then show ?thesis using a b True by (simp add: ring_words_def)
  next
    case False
    obtain A B C D where a: "a = A @ B @ C @ D" "length A = w" "length B = r - w" "length C = n - r"
      by (rule split4 [of w r n a]) (use False assms in auto)
    have e: "C @ A = xs @ ys" using assms(1,4) False a by (simp add: ring_words_def)
    have "length xs < length C" using assms a by simp
    then have c: "take (length xs) C = xs" "ys = drop (length xs) C @ A"
      using e by (auto simp: append_eq_append_conv_if split: if_split_asm)
    then show ?thesis using a False assms by (simp add: ring_words_def)
  qed
  then show "take (length xs) (drop r a) = xs" "ring_words n (r + length xs) w a = ys" by simp_all
qed

lemma ring_get_wrap:
  assumes "r < n" "w < n" "n \<le> length a" and "ring_words n r w a = xs @ ys" and "n \<le> r + length xs"
  shows "take (n - r) (drop r a) @ take (length xs - (n - r)) a = xs" and "ring_words n (r + length xs - n) w a = ys"
    and "r + length xs - n \<le> w"
proof -
  have "(if r \<le> w then w - r else n - r + w) = length xs + length ys"
    using length_ring_words [OF assms(1-3)] assms(4) by simp
  then have False: "\<not> r \<le> w" using assms(2,5) by (auto split: if_split_asm)
  obtain A B C D where a: "a = A @ B @ C @ D" "length A = w" "length B = r - w" "length C = n - r"
    by (rule split4 [of w r n a]) (use False assms in auto)
  have e: "C @ A = xs @ ys" using assms(1,4) False a by (simp add: ring_words_def)
  have "length C \<le> length xs" using a assms by simp
  then have "take (length C) xs = C" using arg_cong [OF e, of "take (length C)"] by simp
  then obtain vs where vs: "xs = C @ vs" "A = vs @ ys" using e by (metis append_assoc append_take_drop_id same_append_eq)
  show "r + length xs - n \<le> w" using vs a assms by simp
  show "take (n - r) (drop r a) @ take (length xs - (n - r)) a = xs"
    using vs a False assms by simp
  show "ring_words n (r + length xs - n) w a = ys"
    using vs a assms by (simp add: ring_words_def)
qed

section \<open>Queueing\<close>

lemma msgq_nat:
  assumes "msgq_rel q ms"
  obtains n r w where "mq_size q = int n" "mq_read q = int r" "mq_write q = int w" "r < n" "w < n"
    "n \<le> length (mq_queue q)" "n \<le> 8189" "ring_words n r w (mq_queue q) = concat (map enc_msg ms)"
    "used_words ms = (if r \<le> w then w - r else n - r + w)" "used_words ms < n"
proof -
  let ?n = "nat (mq_size q)" and ?r = "nat (mq_read q)" and ?w = "nat (mq_write q)"
  have a: "?r < ?n" "?w < ?n" "?n \<le> length (mq_queue q)" "?n \<le> 8189"
      "ring_words ?n ?r ?w (mq_queue q) = concat (map enc_msg ms)"
    using assms by (auto simp: msgq_rel_def MSGQ_MAX_QUEUE_WSIZE_def)
  have u: "used_words ms = (if ?r \<le> ?w then ?w - ?r else ?n - ?r + ?w)"
    using length_ring_words [OF a(1-3)] unfolding a(5) used_words_def .
  then have "used_words ms < ?n" using a(1,2) by (cases "?r \<le> ?w") (simp_all only: if_True if_False, linarith+)
  with a u assms show ?thesis by (intro that [of ?n ?r ?w]) (auto simp: msgq_rel_def)
qed

lemma msgq_relI:
  assumes "mq_size q = int n" "mq_read q = int r" "mq_write q = int w" "r < n" "w < n"
    "n \<le> length (mq_queue q)" "n \<le> 8189" "ring_words n r w (mq_queue q) = concat (map enc_msg ms)"
  shows "msgq_rel q ms"
  using assms by (simp add: msgq_rel_def MSGQ_MAX_QUEUE_WSIZE_def)

lemma queue_message_space:
  assumes rel: "msgq_rel q ms" and m: "m = enc_msg p @ rest" and len: "length p < 2 ^ 31 - 1"
    and sp: "used_words ms + Suc (length p) < nat (mq_size q)"
  shows "\<exists>q'. msgq_queue_message (Some m) q = Some (Inr (), q') \<and> msgq_rel q' (ms @ [p]) \<and> mq_size q' = mq_size q"
proof -
  obtain n r w where q: "mq_size q = int n" "mq_read q = int r" "mq_write q = int w" "r < n" "w < n"
    "n \<le> length (mq_queue q)" "n \<le> 8189" "ring_words n r w (mq_queue q) = concat (map enc_msg ms)"
    "used_words ms = (if r \<le> w then w - r else n - r + w)" "used_words ms < n" using msgq_nat [OF rel] .
  let ?k = "Suc (length p)" and ?a = "mq_queue q"
  have k: "?k + used_words ms < n" using sp q(1) by simp
  have m0: "m \<noteq> []" "m ! 0 = int (length p)" "take ?k m = enc_msg p" by (simp_all add: m enc_msg_def)
  have km: "?k \<le> length m" by (simp add: m)
  have ms: "s32 (1 + int (length p)) = int ?k" using len by simp
  show ?thesis
  proof (cases "if r \<le> w then w + ?k < n else w + ?k < r")
    case True
    have c: "wmemcpy ?a (int w) m 0 (int ?k) = Some (splice ?a w (enc_msg p))"
      using wmemcpy_splice [of w ?k ?a 0 m] True q(4,6) km by (auto simp: m0 split: if_split_asm)
    have "msgq_queue_message (Some m) q =
        Some (Inr (), q\<lparr>mq_queue := splice ?a w (enc_msg p), mq_write := int (w + ?k)\<rparr>)"
      using True q(1-7) k ms c m0(1,2)
      by (auto simp: msgq_queue_message_def Let_def MSGQ_MESSAGE_HEADER_WSIZE_def q(9) split: if_split_asm)
    moreover have "ring_words n r (w + ?k) (splice ?a w (enc_msg p)) = concat (map enc_msg (ms @ [p]))"
      using ring_put_flat [OF q(4-6), of "enc_msg p"] True q(8) by (cases "r \<le> w") simp_all
    then have "msgq_rel (q\<lparr>mq_queue := splice ?a w (enc_msg p), mq_write := int (w + ?k)\<rparr>) (ms @ [p])"
      using True q by (intro msgq_relI [of _ n r "w + ?k"]) (auto split: if_split_asm)
    ultimately show ?thesis by simp
  next
    case False
    then have W: "r \<le> w" "n - w \<le> ?k" "w + ?k - n < r" using k q(9) q(5) by (auto split: if_split_asm)
    let ?u = "take (n - w) (enc_msg p)" and ?v = "drop (n - w) (enc_msg p)"
    have c1: "wmemcpy ?a (int w) m 0 (int (n - w)) = Some (splice ?a w ?u)"
      using wmemcpy_splice [of w "n - w" ?a 0 m] W q(5,6) km
      by (simp add: m)
    have v: "take (?k - (n - w)) (drop (n - w) m) = ?v"
      unfolding m0(3) [symmetric] by (simp add: drop_take)
    have c2: "wmemcpy (splice ?a w ?u) 0 m (int (n - w)) (int (?k - (n - w))) = Some (splice (splice ?a w ?u) 0 ?v)"
      using wmemcpy_splice [of 0 "?k - (n - w)" "splice ?a w ?u" "n - w" m] W q(4-6) km unfolding v by simp
    have i: "s32 (int n - int w) = int (n - w)" "s32 (int (n - w) + int r) = int (n - w + r)"
      "int ?k - int (n - w) = int (?k - (n - w))" "s32 (int w + 1 + int (length p) - int n) = int (w + ?k - n)"
      "(int (n - w + r) \<le> int ?k) = False" "(int ?k < int (n - w)) = False" "(int r \<le> int w) = True" "(m = []) = False"
      using W q(4-7) k q(9) m0(1) by (auto simp: of_nat_diff)
    have e: "msgq_queue_message (Some m) q =
        Some (Inr (), q\<lparr>mq_queue := splice (splice ?a w ?u) 0 ?v, mq_write := int (w + ?k - n)\<rparr>)"
      by (simp only: msgq_queue_message_def Let_def MSGQ_MESSAGE_HEADER_WSIZE_def q(1-3) m0(2) option.case if_True
          if_False i ms c1 c2)
    have "ring_words n r (w + ?k - n) (splice (splice ?a w ?u) 0 ?v) = concat (map enc_msg (ms @ [p]))"
      using ring_put_wrap [OF q(4-6) W(1), of "enc_msg p"] W q(8) by simp
    moreover have "length (splice (splice ?a w ?u) 0 ?v) = length ?a" using W q(4-6) by simp
    ultimately have "msgq_rel (q\<lparr>mq_queue := splice (splice ?a w ?u) 0 ?v, mq_write := int (w + ?k - n)\<rparr>) (ms @ [p])"
      using W q by (intro msgq_relI [of _ n r "w + ?k - n"]) auto
    then show ?thesis using e by simp
  qed
qed

section \<open>Dequeueing\<close>

lemma used_words_Cons: "used_words (p # ps) = Suc (length p) + used_words ps"
  by (simp add: used_words_def)

text \<open>The first word of a stored message is its size, wherever the read index stands.\<close>

lemma msgq_head:
  assumes "r < n" "w < n" "n \<le> length a" "ring_words n r w a = concat (map enc_msg (p # ps))"
  shows "a ! r = int (length p)" and "r \<noteq> w"
proof -
  have e: "ring_words n r w a = int (length p) # p @ concat (map enc_msg ps)" using assms(4) by (simp add: enc_msg_def)
  show ne: "r \<noteq> w" using e by (auto simp: ring_words_def)
  have "ring_words n r w a ! 0 = a ! r"
    using assms(1-3) ne by (auto simp: ring_words_def nth_append)
  then show "a ! r = int (length p)" using e by simp
qed

text \<open>The read index and the messages that are left once the first one is taken.\<close>

lemma msgq_next:
  assumes q: "mq_size q = int n" "mq_write q = int w" "r < n" "w < n" "n \<le> length (mq_queue q)" "n \<le> 8189"
    and ring: "ring_words n r w (mq_queue q) = concat (map enc_msg (p # ps))"
    and i: "i = (if r + Suc (length p) < n then int (r + Suc (length p)) else int (r + Suc (length p) - n))"
  shows "msgq_rel (q\<lparr>mq_read := i\<rparr>) ps"
proof (cases "r + Suc (length p) < n")
  case True
  have "ring_words n (r + length (enc_msg p)) w (mq_queue q) = concat (map enc_msg ps)"
    using ring_get_flat(2) [OF q(3-5), of "enc_msg p" "concat (map enc_msg ps)"] ring True by simp
  with True q i show ?thesis by (intro msgq_relI [of _ n "r + Suc (length p)" w]) auto
next
  case False
  have "ring_words n (r + length (enc_msg p) - n) w (mq_queue q) = concat (map enc_msg ps) \<and> r + length (enc_msg p) - n \<le> w"
    using ring_get_wrap(2,3) [OF q(3-5), of "enc_msg p" "concat (map enc_msg ps)"] ring False by simp
  with False q i show ?thesis by (intro msgq_relI [of _ n "r + Suc (length p) - n" w]) auto
qed

lemma splice_twice:
  assumes "length us \<le> length m" and "length us + length vs \<le> length m"
  shows "splice (splice m 0 us) (length us) vs = (us @ vs) @ drop (length (us @ vs)) m"
  using assms by (simp add: splice_def add.commute)

lemma dequeue_copies:
  assumes rel: "msgq_rel q (p # ps)" and m: "m \<noteq> []" "int (length p) \<le> m ! 0" "length p < length m"
  shows "\<exists>q'. msgq_dequeue_message (Some m) q =
      Some (Inr (), Some (enc_msg p @ drop (Suc (length p)) m), q') \<and> msgq_rel q' ps \<and> mq_size q' = mq_size q"
proof -
  obtain n r w where q: "mq_size q = int n" "mq_read q = int r" "mq_write q = int w" "r < n" "w < n"
    "n \<le> length (mq_queue q)" "n \<le> 8189" "ring_words n r w (mq_queue q) = concat (map enc_msg (p # ps))"
    "used_words (p # ps) < n" using msgq_nat [OF rel] by metis
  let ?k = "Suc (length p)" and ?a = "mq_queue q"
  have hd: "?a ! r = int (length p)" "r \<noteq> w" using msgq_head [OF q(4-6,8)] .
  have k: "?k < n" using q(9) by (simp add: used_words_Cons)
  have ring: "ring_words n r w ?a = enc_msg p @ concat (map enc_msg ps)" using q(8) by simp
  note nx = msgq_next [OF q(1,3) q(4-8)]
  show ?thesis
  proof (cases "r + ?k < n")
    case True
    have "take ?k (drop r ?a) = enc_msg p" using ring_get_flat(1) [OF q(4-6) ring] True by simp
    then have c: "wmemcpy m 0 ?a (int r) (int ?k) = Some (splice m 0 (enc_msg p))"
      using wmemcpy_splice [of 0 ?k m r ?a] True q(6) m(3) by simp
    have "msgq_dequeue_message (Some m) q = Some (Inr (), Some (splice m 0 (enc_msg p)), q\<lparr>mq_read := int (r + ?k)\<rparr>)"
      using True q(1-7) hd m c k
      by (simp add: msgq_dequeue_message_def Let_def MSGQ_MESSAGE_HEADER_WSIZE_def)
    moreover have "msgq_rel (q\<lparr>mq_read := int (r + ?k)\<rparr>) ps" by (rule nx) (use True in simp)
    ultimately show ?thesis by (simp add: splice_def)
  next
    case False
    let ?u = "take (n - r) (drop r ?a)" and ?v = "take (?k - (n - r)) ?a"
    have uv: "?u @ ?v = enc_msg p" using ring_get_wrap(1) [OF q(4-6) ring] False by simp
    have u: "length ?u = n - r" and v: "length ?v = ?k - (n - r)" using q(4-6) k by auto
    have c1: "wmemcpy m 0 ?a (int r) (int (n - r)) = Some (splice m 0 ?u)"
      using wmemcpy_splice [of 0 "n - r" m r ?a] False q(4-6) m(3) by simp
    have c2: "wmemcpy (splice m 0 ?u) (int (n - r)) ?a 0 (int (?k - (n - r))) = Some (splice (splice m 0 ?u) (length ?u) ?v)"
      using wmemcpy_splice [of "n - r" "?k - (n - r)" "splice m 0 ?u" 0 ?a] False q(4-6) m(3) k u by simp
    have sp: "splice (splice m 0 ?u) (length ?u) ?v = enc_msg p @ drop ?k m"
    proof -
      have "length ?u \<le> length m" "length ?u + length ?v \<le> length m" unfolding u v using m(3) False q(4) by linarith+
      then show ?thesis using splice_twice [of ?u m ?v] unfolding uv by simp
    qed
    have i: "s32 (int n - int r) = int (n - r)" "s32 (1 + int (length p)) = int ?k"
      "int ?k - int (n - r) = int (?k - (n - r))" "s32 (int r + 1 + int (length p) - int n) = int (r + ?k - n)"
      "(int ?k < int (n - r)) = False" "(int r = int w) = False" "(m = []) = False" "(int r < 0) = False"
      "(int (length ?a) \<le> int r) = False" "nat (int r) = r" "(m ! 0 < int (length p)) = False"
      using False q(4-7) k m hd(2) by (auto simp: of_nat_diff)
    have "msgq_dequeue_message (Some m) q = Some (Inr (), Some (enc_msg p @ drop ?k m), q\<lparr>mq_read := int (r + ?k - n)\<rparr>)"
      using c2 unfolding sp
      by (simp only: msgq_dequeue_message_def Let_def MSGQ_MESSAGE_HEADER_WSIZE_def q(1-3) option.case if_True
          if_False i c1 hd(1) simp_thms option.inject)
    moreover have "msgq_rel (q\<lparr>mq_read := int (r + ?k - n)\<rparr>) ps" by (rule nx) (use False in simp)
    ultimately show ?thesis by simp
  qed
qed

lemma dequeue_discards:
  assumes rel: "msgq_rel q (p # ps)"
  shows "\<exists>q'. msgq_dequeue_message None q = Some (Inr (), None, q') \<and> msgq_rel q' ps \<and> mq_size q' = mq_size q"
proof -
  obtain n r w where q: "mq_size q = int n" "mq_read q = int r" "mq_write q = int w" "r < n" "w < n"
    "n \<le> length (mq_queue q)" "n \<le> 8189" "ring_words n r w (mq_queue q) = concat (map enc_msg (p # ps))"
    "used_words (p # ps) < n" using msgq_nat [OF rel] by metis
  let ?i = "if r + Suc (length p) < n then int (r + Suc (length p)) else int (r + Suc (length p) - n)"
  have hd: "mq_queue q ! r = int (length p)" "r \<noteq> w" using msgq_head [OF q(4-6,8)] .
  have k: "Suc (length p) < n" using q(9) by (simp add: used_words_Cons)
  have "msgq_dequeue_message None q = Some (Inr (), None, q\<lparr>mq_read := ?i\<rparr>)"
    using q(1-7) hd k by (auto simp: msgq_dequeue_message_def Let_def MSGQ_MESSAGE_HEADER_WSIZE_def of_nat_diff)
  moreover have "msgq_rel (q\<lparr>mq_read := ?i\<rparr>) ps" by (rule msgq_next [OF q(1,3) q(4-8) refl])
  ultimately show ?thesis by simp
qed

section \<open>Properties\<close>

text \<open>C24: queueing a message of less than \<open>2 ^ 31 - 1\<close> words into a queue that holds the messages \<open>ms\<close> appends it
  when its words and those stored stay below the queue's size, wherever the ring wraps, and otherwise returns
  ENOSPC (where the comment of the function says ERR_NO_MEMORY) without touching the queue; a missing message is
  refused with EFAULT.\<close>

theorem msgq_queue_appends:
  assumes "msgq_rel q ms" and "length p < 2 ^ 31 - 1"
  shows "(if used_words ms + Suc (length p) < nat (mq_size q)
      then \<exists>q'. msgq_queue_message (Some (enc_msg p @ rest)) q = Some (Inr (), q') \<and> msgq_rel q' (ms @ [p])
      else msgq_queue_message (Some (enc_msg p @ rest)) q = Some (Inl ENOSPC, q)) \<and>
    msgq_queue_message None q = Some (Inl EFAULT, q)"
proof (cases "used_words ms + Suc (length p) < nat (mq_size q)")
  case True
  have "msgq_queue_message None q = Some (Inl EFAULT, q)" by (simp add: msgq_queue_message_def)
  then show ?thesis using queue_message_space [OF assms(1) refl assms(2) True, of rest] True by auto
next
  case False
  obtain n r w where q: "mq_size q = int n" "mq_read q = int r" "mq_write q = int w" "r < n" "w < n" "n \<le> 8189"
    "used_words ms = (if r \<le> w then w - r else n - r + w)" using msgq_nat [OF assms(1)] by metis
  have "s32 (1 + int (length p)) = 1 + int (length p)" using assms(2) by simp
  then have "msgq_queue_message (Some (enc_msg p @ rest)) q = Some (Inl ENOSPC, q)"
    using q False
    by (auto simp: msgq_queue_message_def Let_def MSGQ_MESSAGE_HEADER_WSIZE_def enc_msg_def split: if_split_asm)
  then show ?thesis using False by (simp add: msgq_queue_message_def)
qed

theorem msgq_queue_appends_witness:
  "\<exists>q'. msgq_queue_message (Some (enc_msg [7, 8] @ []))
      \<lparr>mq_size = 6, mq_write = 4, mq_read = 3, mq_queue = [0, 0, 0, 0, 0, 0]\<rparr> = Some (Inr (), q') \<and>
    msgq_rel q' ([[]] @ [[7, 8]])"
proof -
  let ?q = "\<lparr>mq_size = 6, mq_write = 4, mq_read = 3, mq_queue = [0, 0, 0, 0, 0, 0]\<rparr>"
  have r: "msgq_rel ?q [[]]" by (simp add: msgq_rel_def MSGQ_MAX_QUEUE_WSIZE_def ring_words_def enc_msg_def numeral_eq_Suc)
  have l: "length [7, 8::int] < 2 ^ 31 - 1" by simp
  have u: "used_words [[]] + Suc (length [7, 8::int]) < nat (mq_size ?q)" by (simp add: used_words_def)
  from msgq_queue_appends [OF r l, of "[]"] show ?thesis unfolding if_P [OF u] by (rule conjunct1)
qed

text \<open>C25: dequeueing from a queue that holds messages hands out the oldest one: whole, in a buffer that
  has the size it names and is large enough, leaving the rest of the buffer alone; the required size and ENOSPC
  (where the comment of the function says ERR_NO_MEMORY) without consuming it when the buffer is too small; consumed
  unread when no buffer is given.  An empty queue returns ENOMSG and size 0.\<close>

theorem msgq_dequeue_oldest:
  assumes "msgq_rel q ms" and "m \<noteq> []" and "m ! 0 < int (length m)"
  shows "case ms of
      [] \<Rightarrow> msgq_dequeue_message (Some m) q = Some (Inl ENOMSG, Some (m[0 := 0]), q) \<and>
            msgq_dequeue_message None q = Some (Inl ENOMSG, None, q)
    | p # ps \<Rightarrow>
        (if m ! 0 < int (length p)
         then msgq_dequeue_message (Some m) q = Some (Inl ENOSPC, Some (m[0 := int (length p)]), q)
         else \<exists>q'. msgq_dequeue_message (Some m) q = Some (Inr (), Some (enc_msg p @ drop (Suc (length p)) m), q') \<and>
                msgq_rel q' ps) \<and>
        (\<exists>q'. msgq_dequeue_message None q = Some (Inr (), None, q') \<and> msgq_rel q' ps)"
proof -
  obtain n r w where q: "mq_size q = int n" "mq_read q = int r" "mq_write q = int w" "r < n" "w < n"
    "n \<le> length (mq_queue q)" "ring_words n r w (mq_queue q) = concat (map enc_msg ms)" using msgq_nat [OF assms(1)] by metis
  show ?thesis
  proof (cases ms)
    case Nil
    then have "r = w" using q(4-7) length_ring_words [OF q(4-6)] by (auto split: if_split_asm)
    with Nil q assms(2) show ?thesis by (simp add: msgq_dequeue_message_def)
  next
    case (Cons p ps)
    note rel = assms(1) [unfolded Cons]
    have hd: "mq_queue q ! r = int (length p)" "r \<noteq> w" using msgq_head [OF q(4-6)] q(7) Cons by auto
    have "\<exists>q'. msgq_dequeue_message (Some m) q = Some (Inr (), Some (enc_msg p @ drop (Suc (length p)) m), q') \<and> msgq_rel q' ps"
      if "\<not> m ! 0 < int (length p)"
      using dequeue_copies [OF rel assms(2)] assms(3) that by auto
    moreover have "msgq_dequeue_message (Some m) q = Some (Inl ENOSPC, Some (m[0 := int (length p)]), q)"
      if "m ! 0 < int (length p)"
      using that q hd assms(2) by (simp add: msgq_dequeue_message_def Let_def)
    ultimately show ?thesis using dequeue_discards [OF rel] Cons by auto
  qed
qed

theorem msgq_dequeue_oldest_witness:
  "\<exists>q'. msgq_dequeue_message (Some [3, 0, 0, 5])
      \<lparr>mq_size = 6, mq_write = 1, mq_read = 4, mq_queue = [8, 9, 0, 0, 2, 7]\<rparr> = Some (Inr (), Some [2, 7, 8, 5], q')"
proof -
  let ?q = "\<lparr>mq_size = 6, mq_write = 1, mq_read = 4, mq_queue = [8, 9, 0, 0, 2, 7]\<rparr>"
  have r: "msgq_rel ?q [[7, 8]]"
    by (simp add: msgq_rel_def MSGQ_MAX_QUEUE_WSIZE_def ring_words_def enc_msg_def numeral_eq_Suc)
  from msgq_dequeue_oldest [OF r, of "[3, 0, 0, 5]"] show ?thesis by (auto simp: enc_msg_def)
qed

text \<open>Initialisation gives an empty queue of the requested size, cut to 8189 words; a negative size
  passes for a huge one and gives the full 8189 words whatever memory is there.\<close>

theorem msgq_init_size:
  "(0 < sz \<and> min sz 8189 \<le> int (length (mq_queue q)) \<longrightarrow>
      msgq_rel (msgq_init sz q) [] \<and> mq_size (msgq_init sz q) = min sz 8189) \<and>
   (sz < 0 \<longrightarrow> mq_size (msgq_init sz q) = 8189)"
  by (auto simp: msgq_rel_def msgq_init_def MSGQ_MAX_QUEUE_WSIZE_def ring_words_def)

theorem msgq_init_size_witness:
  "msgq_rel (msgq_init 6 \<lparr>mq_size = 0, mq_write = 5, mq_read = 5, mq_queue = replicate 6 0\<rparr>) [] \<and>
   mq_size (msgq_init (- 1) \<lparr>mq_size = 0, mq_write = 5, mq_read = 5, mq_queue = replicate 6 0\<rparr>) = 8189"
  using msgq_init_size [of 6 "\<lparr>mq_size = 0, mq_write = 5, mq_read = 5, mq_queue = replicate 6 0\<rparr>"]
    msgq_init_size [of "- 1" "\<lparr>mq_size = 0, mq_write = 5, mq_read = 5, mq_queue = replicate 6 0\<rparr>"] by simp

end
