(* ===== verification/Dce_Types.thy ===== *)
theory Dce_Types imports Prelude "HOL-Library.Monad_Syntax" begin

text \<open>
  The data of the display-controller-engine driver (\<open>drivers/platform/tegra/dce\<close>): the enums of
  \<open>dce-fsm.h\<close>, the mailbox interfaces of \<open>dce-mailbox.h\<close>, the signal instances and channels of
  \<open>dce-ipc.h\<close>, the clients of \<open>dce-client-ipc-internal.h\<close> and \<open>struct tegra_dce\<close> of \<open>dce.h\<close>.  An
  operation takes and returns the whole device; \<open>None\<close> stands for an invalid memory access, a lock
  taken twice or a wait or loop that never ends.

  What the DCE firmware and the user do from now on is the field \<open>d_env\<close>, a list of actions consumed
  by the waits: an interrupt with the register contents and IVC queues it finds, or a signal to the
  waiting process.  The IVC queues themselves belong to the kernel: their type \<open>'v\<close> and the
  operations \<open>'v ivc_ops\<close> on them are parameters.
\<close>

type_synonym ret = "errno + unit"

abbreviation OK :: ret where "OK \<equiv> Inr ()"

section \<open>The state machine\<close>

datatype dce_fsm_event =
    EVENT_ID_DCE_INVALID
  | EVENT_ID_DCE_FSM_START
  | EVENT_ID_DCE_BOOT_COMPLETE_REQUESTED
  | EVENT_ID_DCE_BOOT_COMPLETE_RECEIVED
  | EVENT_ID_DCE_BOOT_CMD_MSG_REQUESTED
  | EVENT_ID_DCE_BOOT_CMD_MSG_RECEIVED
  | EVENT_ID_DCE_ADMIN_IPC_MSG_REQUESTED
  | EVENT_ID_DCE_ADMIN_IPC_MSG_RECEIVED
  | EVENT_ID_DCE_SC7_ENTER_REQUESTED
  | EVENT_ID_DCE_SC7_ENTERED_RECEIVED
  | EVENT_ID_DCE_SC7_EXIT_RECEIVED
  | EVENT_ID_DCE_LOG_REQUESTED
  | EVENT_ID_DCE_LOG_READY_RECEIVED
  | EVENT_ID_DCE_ABORT_RECEIVED
  | EVENT_ID_DCE_CRASH_LOG_RECEIVED
  | EVENT_ID_DCE_LOG_OVERFLOW_RECEIVED
  | EVENT_ID_DCE_FSM_STOP

datatype dce_fsm_state =
    STATE_DCE_INVALID
  | STATE_DCE_FSM_IDLE
  | STATE_DCE_BOOT_WAIT
  | STATE_DCE_BOOTCMD_WFI
  | STATE_DCE_ADMIN_WFI
  | STATE_DCE_SC7_ENTER_WFI
  | STATE_DCE_SC7_ENTERED
  | STATE_DCE_LOG_READY_WFI
  | STATE_DCE_ABORT

section \<open>Mailboxes, signals, channels, clients\<close>

text \<open>The two functions a mailbox interface's \<open>notify\<close> is ever set to; the only wait function.\<close>

datatype mb_notify = Boot_interface_isr | Ipc_mbox_handle_signal
datatype mb_wait = Wait_boot_interface

text \<open>A signal instance lives in a channel: \<open>Sig_to ch\<close> is \<open>&ivc_channels[ch].signal.to_d\<close>, \<open>Sig_from ch\<close>
  its \<open>from_d\<close>.\<close>

datatype sig_ptr = Sig_to nat | Sig_from nat

record dce_mailbox_interface =
  s_mb :: u8
  r_mb :: u8
  mb_valid :: bool
  ack_value :: u32
  mb_waitf :: "mb_wait option"
  mb_notifyf :: "mb_notify option"
  notify_data :: "sig_ptr option"
  mb_locked :: bool

record dce_ipc_signal_instance =
  sig_mailbox :: bool
  sema_num :: u32
  sema_bit :: u32
  mb_type :: u8
  mb_num :: u32
  sig_linked :: bool \<comment> \<open>the \<open>signal\<close> pointer is set, to the signal of its own channel\<close>
  sig_next :: "sig_ptr option"

record 'v dce_ipc_channel =
  ch_valid :: bool
  ch_initialized :: bool
  ch_synced :: bool
  ch_msg_header :: bool
  w_type :: u32
  ch_ipc_type :: u32
  ch_d :: bool \<comment> \<open>\<open>ch->d\<close> has been set\<close>
  d_ivc :: 'v
  sig_ch :: bool \<comment> \<open>\<open>ch->signal.ch\<close> is set, to the channel itself\<close>
  sig_notify :: bool
  to_d :: dce_ipc_signal_instance
  from_d :: dce_ipc_signal_instance
  nframes :: u8
  frame_sz :: u32
  rx_iova :: u64
  tx_iova :: u64

record dce_client =
  cl_valid :: bool
  cl_type :: u32
  cl_handle :: u32
  cl_int_type :: u32
  cl_d :: bool
  cl_complete :: bool
  cl_callback :: "nat option"
  cl_data :: u64

text \<open>\<open>struct dce_ipc_message\<close> with its two buffers, as bytes.\<close>

record dce_msg =
  tx_data :: "u8 list"
  rx_data :: "u8 list"

text \<open>What the kernel's IVC library does for a channel: the results of its calls on a queue \<open>'v\<close>; a frame
  is the list of its bytes.  \<open>ivc_iosys\<close> tells which of the two kernel interfaces the driver is built
  for (\<open>NV_TEGRA_IVC_STRUCT_HAS_IOSYS_MAP\<close>).\<close>

record 'v ivc_ops =
  ivc_iosys :: bool
  ivc_align :: "nat \<Rightarrow> nat"
  ivc_total_queue_size :: "nat \<Rightarrow> nat"
  ivc_init :: "'v \<Rightarrow> u64 \<Rightarrow> u64 \<Rightarrow> u8 \<Rightarrow> u32 \<Rightarrow> ret \<times> 'v" \<comment> \<open>receive and transmit address, frames, frame size\<close>
  ivc_write_ready :: "'v \<Rightarrow> ret" \<comment> \<open>\<open>tegra_ivc_write_get_next_frame\<close>\<close>
  ivc_put :: "'v \<Rightarrow> u8 list \<Rightarrow> 'v" \<comment> \<open>the bytes stored at the front of that frame\<close>
  ivc_write_advance :: "'v \<Rightarrow> ret \<times> 'v"
  ivc_read_frame :: "'v \<Rightarrow> errno + u8 list" \<comment> \<open>\<open>tegra_ivc_read_get_next_frame\<close>\<close>
  ivc_read_put :: "'v \<Rightarrow> u8 list \<Rightarrow> 'v" \<comment> \<open>the bytes stored at the front of that frame\<close>
  ivc_read_advance :: "'v \<Rightarrow> ret \<times> 'v"
  ivc_notified :: "'v \<Rightarrow> ret \<times> 'v"
  ivc_reset :: "'v \<Rightarrow> 'v"

text \<open>What happens while the driver waits: the DCE raises the mailbox interrupt, with the interrupt
  register, the mailbox registers and the IVC queues as given; or the waiting process gets a signal.\<close>

datatype 'v dce_action = Dce_irq u32 "(u32 \<times> u32) list" "(nat \<times> 'v) list" | Signal_pending

section \<open>The device\<close>

definition DCE_WAIT_BOOT_COMPLETE :: nat where "DCE_WAIT_BOOT_COMPLETE = 0"
definition DCE_WAIT_BOOT_CMD :: nat where "DCE_WAIT_BOOT_CMD = 1"
definition DCE_WAIT_ADMIN_IPC :: nat where "DCE_WAIT_ADMIN_IPC = 2"
definition DCE_WAIT_SC7_ENTER :: nat where "DCE_WAIT_SC7_ENTER = 3"
definition DCE_WAIT_LOG :: nat where "DCE_WAIT_LOG = 4"
definition DCE_MAX_WAIT :: nat where "DCE_MAX_WAIT = 5"

record 'v tegra_dce =
  hsp_id :: u32
  io_mapped :: bool
  dce_regs :: "u32 \<Rightarrow> u32"
  reg_writes :: "(u32 \<times> u32) list"
  fsm_initialized :: bool
  c_state :: dce_fsm_state
  requested_ipcs :: u32
  wait_complete :: "bool list"
  cond_init :: "bool list"
  boot_cond_init :: bool
  boot_broadcasts :: nat
  d_mb :: "dce_mailbox_interface list"
  boot_status :: u32
  boot_complete :: bool
  bootstrap_work :: nat \<comment> \<open>times \<open>dce_bootstrap_work\<close> has been queued\<close>
  resume_work :: nat
  sc7_hsp_ie :: u32
  ivc_channels :: "'v dce_ipc_channel list"
  ipc_ch :: "bool list" \<comment> \<open>\<open>d_ipc.ch[i]\<close> is set, to \<open>&ivc_channels[i]\<close>\<close>
  region_base :: bool
  region_iova :: u64
  region_size :: u64
  region_s_offset :: u32
  mb_signals :: "sig_ptr option list"
  client_handles :: "dce_client list"
  d_clients :: "nat option list"
  async_in_use :: "bool list"
  async_queued :: nat
  kzalloc_ok :: "bool list" \<comment> \<open>the outcomes of the next allocations\<close>
  msg_heap :: "nat \<Rightarrow> dce_msg option" \<comment> \<open>the messages allocated and not freed\<close>
  msg_next :: nat
  stream_id :: u8
  fw_data :: bool
  fw_dce_addr :: u32
  d_env :: "'v dce_action list"

section \<open>The device as the probe allocates it\<close>

text \<open>The static table \<open>ivc_channels\<close> of \<open>dce-ipc.c\<close>; entry 2 (HDCP) is all zero.\<close>

definition sig_inst :: "u8 \<Rightarrow> u32 \<Rightarrow> dce_ipc_signal_instance" where
  "sig_inst typ num = \<lparr>sig_mailbox = True, sema_num = 4, sema_bit = 0, mb_type = typ, mb_num = num,
     sig_linked = False, sig_next = None\<rparr>"

definition ivc_channel :: "u32 \<Rightarrow> u8 \<Rightarrow> u32 \<Rightarrow> u32 \<Rightarrow> u8 \<Rightarrow> u32 \<Rightarrow> 'v \<Rightarrow> 'v dce_ipc_channel" where
  "ivc_channel typ mb tod fromd nfr fsz v =
     \<lparr>ch_valid = True, ch_initialized = False, ch_synced = False, ch_msg_header = True, w_type = 0, ch_ipc_type = typ,
      ch_d = False, d_ivc = v, sig_ch = False, sig_notify = False, to_d = sig_inst mb tod, from_d = sig_inst mb fromd,
      nframes = nfr, frame_sz = fsz, rx_iova = 0, tx_iova = 0\<rparr>"

definition zero_channel :: "'v \<Rightarrow> 'v dce_ipc_channel" where
  "zero_channel v =
     (let s = \<lparr>sig_mailbox = False, sema_num = 0, sema_bit = 0, mb_type = 0, mb_num = 0, sig_linked = False, sig_next = None\<rparr>
      in \<lparr>ch_valid = False, ch_initialized = False, ch_synced = False, ch_msg_header = False, w_type = 0, ch_ipc_type = 0,
          ch_d = False, d_ivc = v, sig_ch = False, sig_notify = False, to_d = s, from_d = s,
          nframes = 0, frame_sz = 0, rx_iova = 0, tx_iova = 0\<rparr>)"

definition ivc_channels0 :: "'v \<Rightarrow> 'v dce_ipc_channel list" where
  "ivc_channels0 v =
     [ivc_channel 0 1 5 4 4 2048 v, ivc_channel 1 2 1 0 1 4096 v, zero_channel v, ivc_channel 3 3 2 3 4 4096 v]"

definition zero_mb :: dce_mailbox_interface where
  "zero_mb = \<lparr>s_mb = 0, r_mb = 0, mb_valid = False, ack_value = 0, mb_waitf = None, mb_notifyf = None,
     notify_data = None, mb_locked = False\<rparr>"

definition zero_client :: dce_client where
  "zero_client = \<lparr>cl_valid = False, cl_type = 0, cl_handle = 0, cl_int_type = 0, cl_d = False, cl_complete = False,
     cl_callback = None, cl_data = 0\<rparr>"

text \<open>\<open>struct tegra_dce\<close> zeroed, its registers mapped.\<close>

definition dce_probe :: "'v \<Rightarrow> 'v tegra_dce" where
  "dce_probe v =
     \<lparr>hsp_id = 0, io_mapped = True, dce_regs = (\<lambda>r. 0), reg_writes = [], fsm_initialized = False,
      c_state = STATE_DCE_FSM_IDLE, requested_ipcs = 0, wait_complete = replicate DCE_MAX_WAIT False,
      cond_init = replicate DCE_MAX_WAIT False, boot_cond_init = False, boot_broadcasts = 0,
      d_mb = replicate 4 zero_mb, boot_status = 0, boot_complete = False, bootstrap_work = 0, resume_work = 0,
      sc7_hsp_ie = 0, ivc_channels = ivc_channels0 v, ipc_ch = replicate 4 False, region_base = False, region_iova = 0,
      region_size = 0, region_s_offset = 0, mb_signals = replicate 8 None, client_handles = replicate 3 zero_client,
      d_clients = replicate 3 None, async_in_use = replicate 8 False, async_queued = 0, kzalloc_ok = [], msg_heap = (\<lambda>p. None), msg_next = 0,
      stream_id = 8, fw_data = False, fw_dce_addr = 0x40000000, d_env = []\<rparr>"

section \<open>Registers\<close>

text \<open>\<open>dce_writel\<close> and \<open>dce_readl\<close> of \<open>dce-util-common.c\<close>.\<close>

definition dce_writel :: "u32 \<Rightarrow> u32 \<Rightarrow> 'v tegra_dce \<Rightarrow> 'v tegra_dce" where
  "dce_writel r v d =
     (if \<not> io_mapped d then d
      else d\<lparr>dce_regs := (dce_regs d)(r := v), reg_writes := reg_writes d @ [(r, v)]\<rparr>)"

definition dce_readl :: "u32 \<Rightarrow> 'v tegra_dce \<Rightarrow> u32" where
  "dce_readl r d = (if \<not> io_mapped d then 0xffffffff else dce_regs d r)"

section \<open>Bit fields\<close>

text \<open>\<open>dce-bitops.h\<close>.\<close>

definition DCE_BIT :: "nat \<Rightarrow> u32" where "DCE_BIT b = push_bit b 1"

definition DCE_MASK :: "nat \<Rightarrow> nat \<Rightarrow> u32" where
  "DCE_MASK msb lsb = ((DCE_BIT msb - 1) OR DCE_BIT msb) AND NOT (DCE_BIT lsb - 1)"

definition DCE_EXTRACT :: "u32 \<Rightarrow> nat \<Rightarrow> nat \<Rightarrow> u32" where
  "DCE_EXTRACT x msb lsb = drop_bit lsb (x AND DCE_MASK msb lsb)"

definition DCE_INSERT :: "u32 \<Rightarrow> nat \<Rightarrow> nat \<Rightarrow> u32 \<Rightarrow> u32" where
  "DCE_INSERT x msb lsb v = (x AND DCE_MASK msb lsb) OR (push_bit lsb v AND DCE_MASK msb lsb)"

lemma bit_DCE_MASK:
  assumes "lsb \<le> msb" and "msb < 32"
  shows "bit (DCE_MASK msb lsb) n \<longleftrightarrow> lsb \<le> n \<and> n \<le> msb"
proof -
  have m: "DCE_BIT k - 1 = mask k" for k by (simp add: DCE_BIT_def mask_eq_decr_exp push_bit_eq_mult)
  show ?thesis using assms unfolding DCE_MASK_def m unfolding DCE_BIT_def
    by (auto simp: bit_simps)
qed

text \<open>Extracting a field gives back the low bits of what was inserted.\<close>

lemma extract_insert:
  assumes "lsb \<le> msb" and "msb < 32"
  shows "DCE_EXTRACT (DCE_INSERT 0 msb lsb v) msb lsb = v AND mask (Suc msb - lsb)"
  using assms unfolding DCE_EXTRACT_def DCE_INSERT_def
  by (intro bit_word_eqI) (auto simp: bit_simps bit_DCE_MASK)

lemma extract_or: "DCE_EXTRACT (x OR y) msb lsb = DCE_EXTRACT x msb lsb OR DCE_EXTRACT y msb lsb"
  unfolding DCE_EXTRACT_def by (simp add: bit.conj_disj_distrib2)

lemma extract_insert_disjoint:
  assumes "lsb \<le> msb" "msb < 32" "lsb' \<le> msb'" "msb' < 32" and "msb < lsb' \<or> msb' < lsb"
  shows "DCE_EXTRACT (DCE_INSERT 0 msb' lsb' v) msb lsb = 0"
  using assms unfolding DCE_EXTRACT_def DCE_INSERT_def
  by (intro bit_word_eqI) (auto simp: bit_simps bit_DCE_MASK)

end
