(* ===== verification/Dce_Hsp.thy ===== *)
theory Dce_Hsp imports Dce_Types begin

text \<open>
  Access to the hardware synchronisation primitives: shared mailboxes and interrupt registers
  (\<open>dce-hsp-smb.c\<close>), shared semaphores (\<open>dce-hsp-ss.c\<close>), the reset and power registers
  (\<open>dce-reset.c\<close>), with the register offsets of \<open>include/hw\<close>.  The register tables have
  \<open>DCE_MAX_HSP\<close> = 3 rows, of which only row 0 is filled in: \<open>None\<close> is a call through a null entry, or an
  access outside a table.
\<close>

section \<open>Register tables\<close>

definition DCE_MAX_HSP :: u32 where "DCE_MAX_HSP = 3"
definition DCE_MAX_NO_SMB :: u8 where "DCE_MAX_NO_SMB = 8"
definition DCE_MAX_HSP_IE :: u8 where "DCE_MAX_HSP_IE = 8"
definition DCE_MAX_NO_SS :: u8 where "DCE_MAX_NO_SS = 4"

definition row0 :: "u32 \<Rightarrow> u8 \<Rightarrow> u32 list \<Rightarrow> u32 option" where
  "row0 hsp i regs = (if hsp = 0 \<and> unat i < length regs then Some (regs ! unat i) else None)"

definition smb_regs :: "u32 \<Rightarrow> u8 \<Rightarrow> u32 option" where
  "smb_regs hsp i = row0 hsp i
     [0x160000, 0x168000, 0x170000, 0x178000, 0x180000, 0x188000, 0x190000, 0x198000]"

definition smb_full_ie_regs :: "u32 \<Rightarrow> u8 \<Rightarrow> u32 option" where
  "smb_full_ie_regs hsp i = row0 hsp i
     [0x160004, 0x168004, 0x170004, 0x178004, 0x180004, 0x188004, 0x190004, 0x198004]"

definition smb_empty_ie_regs :: "u32 \<Rightarrow> u8 \<Rightarrow> u32 option" where
  "smb_empty_ie_regs hsp i = row0 hsp i
     [0x160008, 0x168008, 0x170008, 0x178008, 0x180008, 0x188008, 0x190008, 0x198008]"

definition hsp_int_ie_regs :: "u32 \<Rightarrow> u8 \<Rightarrow> u32 option" where
  "hsp_int_ie_regs hsp i = row0 hsp i
     [0x150100, 0x150104, 0x150108, 0x15010c, 0x150110, 0x150114, 0x150118, 0x15011c]"

definition hsp_int_ir_regs :: "u32 \<Rightarrow> u32 option" where
  "hsp_int_ir_regs hsp = row0 hsp 0 [0x150304]"

definition ss_state_regs :: "u32 \<Rightarrow> u8 \<Rightarrow> u32 option" where
  "ss_state_regs hsp i = row0 hsp i [0x1a0000, 0x1b0000, 0x1c0000, 0x1d0000]"

definition ss_set_regs :: "u32 \<Rightarrow> u8 \<Rightarrow> u32 option" where
  "ss_set_regs hsp i = row0 hsp i [0x1a0004, 0x1b0004, 0x1c0004, 0x1d0004]"

definition ss_clear_regs :: "u32 \<Rightarrow> u8 \<Rightarrow> u32 option" where
  "ss_clear_regs hsp i = row0 hsp i [0x1a0008, 0x1b0008, 0x1c0008, 0x1d0008]"

section \<open>Shared mailboxes\<close>

definition dce_smb_set :: "u32 \<Rightarrow> u8 \<Rightarrow> 'v tegra_dce \<Rightarrow> 'v tegra_dce option" where
  "dce_smb_set val i d =
     (if DCE_MAX_NO_SMB \<le> i \<or> DCE_MAX_HSP \<le> hsp_id d then Some d
      else do { r \<leftarrow> smb_regs (hsp_id d) i; Some (dce_writel r val d) })"

definition dce_smb_set_full_ie :: "bool \<Rightarrow> u8 \<Rightarrow> 'v tegra_dce \<Rightarrow> 'v tegra_dce option" where
  "dce_smb_set_full_ie en i d =
     (if DCE_MAX_NO_SMB \<le> i \<or> DCE_MAX_HSP \<le> hsp_id d then Some d
      else do { r \<leftarrow> smb_full_ie_regs (hsp_id d) i; Some (dce_writel r (if en then 1 else 0) d) })"

definition dce_smb_read_full_ie :: "u8 \<Rightarrow> 'v tegra_dce \<Rightarrow> u32 option" where
  "dce_smb_read_full_ie i d =
     (if DCE_MAX_NO_SMB \<le> i \<or> DCE_MAX_HSP \<le> hsp_id d then Some 0xffffffff
      else do { r \<leftarrow> smb_full_ie_regs (hsp_id d) i; Some (dce_readl r d) })"

definition dce_smb_set_empty_ie :: "bool \<Rightarrow> u8 \<Rightarrow> 'v tegra_dce \<Rightarrow> 'v tegra_dce option" where
  "dce_smb_set_empty_ie en i d =
     (if DCE_MAX_NO_SMB \<le> i \<or> DCE_MAX_HSP \<le> hsp_id d then Some d
      else do { r \<leftarrow> smb_empty_ie_regs (hsp_id d) i; Some (dce_writel r (if en then 1 else 0) d) })"

definition dce_smb_read :: "u8 \<Rightarrow> 'v tegra_dce \<Rightarrow> u32 option" where
  "dce_smb_read i d =
     (if DCE_MAX_NO_SMB \<le> i \<or> DCE_MAX_HSP \<le> hsp_id d then Some 0xffffffff
      else do { r \<leftarrow> smb_regs (hsp_id d) i; Some (dce_readl r d) })"

section \<open>Interrupt registers\<close>

definition dce_hsp_ie_read :: "u8 \<Rightarrow> 'v tegra_dce \<Rightarrow> u32 option" where
  "dce_hsp_ie_read i d =
     (if DCE_MAX_HSP_IE \<le> i \<or> DCE_MAX_HSP \<le> hsp_id d then Some 0xffffffff
      else do { r \<leftarrow> hsp_int_ie_regs (hsp_id d) i; Some (dce_readl r d) })"

definition dce_hsp_ie_write :: "u32 \<Rightarrow> u8 \<Rightarrow> 'v tegra_dce \<Rightarrow> 'v tegra_dce option" where
  "dce_hsp_ie_write val i d =
     (if DCE_MAX_HSP_IE \<le> i \<or> DCE_MAX_HSP \<le> hsp_id d then Some d
      else do { r \<leftarrow> hsp_int_ie_regs (hsp_id d) i; Some (dce_writel r (val OR dce_readl r d) d) })"

definition dce_hsp_ir_read :: "'v tegra_dce \<Rightarrow> u32 option" where
  "dce_hsp_ir_read d =
     (if DCE_MAX_HSP \<le> hsp_id d then Some 0xffffffff
      else do { r \<leftarrow> hsp_int_ir_regs (hsp_id d); Some (dce_readl r d) })"

section \<open>Shared semaphores\<close>

definition dce_ss_get_state :: "u8 \<Rightarrow> 'v tegra_dce \<Rightarrow> u32 option" where
  "dce_ss_get_state i d = do { r \<leftarrow> ss_state_regs (hsp_id d) i; Some (dce_readl r d) }"

text \<open>\<open>dce_bitmap_set (&val, bpos, 1)\<close> on a 64-bit local, then cut to 32 bits.\<close>

definition set_bit_local :: "u32 \<Rightarrow> u8 \<Rightarrow> u32 option" where
  "set_bit_local val bpos = (if 64 \<le> unat bpos then None else Some (val OR push_bit (unat bpos) 1))"

definition dce_ss_set :: "u8 \<Rightarrow> u8 \<Rightarrow> 'v tegra_dce \<Rightarrow> 'v tegra_dce option" where
  "dce_ss_set bpos i d =
     (if DCE_MAX_HSP \<le> hsp_id d \<or> DCE_MAX_NO_SS \<le> i then Some d
      else do {
        val \<leftarrow> dce_ss_get_state i d;
        val \<leftarrow> set_bit_local val bpos;
        r \<leftarrow> ss_set_regs (hsp_id d) i;
        Some (dce_writel r val d) })"

definition dce_ss_clear :: "u8 \<Rightarrow> u8 \<Rightarrow> 'v tegra_dce \<Rightarrow> 'v tegra_dce option" where
  "dce_ss_clear bpos i d =
     (if DCE_MAX_HSP \<le> hsp_id d \<or> DCE_MAX_NO_SS \<le> i then Some d
      else do {
        val \<leftarrow> dce_ss_get_state i d;
        val \<leftarrow> set_bit_local val bpos;
        r \<leftarrow> ss_clear_regs (hsp_id d) i;
        Some (dce_writel r val d) })"

section \<open>Reset\<close>

datatype pm_controls = FW_LOAD_HALTED | FW_LOAD_DONE

definition dce_evp_set_reset_addr :: "u32 \<Rightarrow> 'v tegra_dce \<Rightarrow> 'v tegra_dce" where
  "dce_evp_set_reset_addr addr d = dce_writel 0x20 addr d"

definition dce_pm_set_pm_ctrl :: "pm_controls \<Rightarrow> 'v tegra_dce \<Rightarrow> 'v tegra_dce" where
  "dce_pm_set_pm_ctrl val d =
     (case val of
        FW_LOAD_DONE \<Rightarrow> dce_writel 0x1f0040 2 d
      | FW_LOAD_HALTED \<Rightarrow> dce_writel 0x1f0040 0 d)"

definition dce_reset_dce :: "'v tegra_dce \<Rightarrow> ret \<times> 'v tegra_dce" where
  "dce_reset_dce d =
     (if \<not> fw_data d then (Inl EPERM, d)
      else
        let d = dce_evp_set_reset_addr (fw_dce_addr d) d
        in (OK, dce_pm_set_pm_ctrl FW_LOAD_DONE d))"

section \<open>The platform the driver runs on\<close>

text \<open>Instance 0 with its registers mapped: the only configuration in which every table entry exists.\<close>

definition hsp_ok :: "'v tegra_dce \<Rightarrow> bool" where
  "hsp_ok d \<longleftrightarrow> hsp_id d = 0 \<and> io_mapped d"

definition smb_reg :: "u8 \<Rightarrow> u32" where "smb_reg i = the (smb_regs 0 i)"

lemma row0_0: "row0 0 i regs = (if unat i < length regs then Some (regs ! unat i) else None)"
  by (simp add: row0_def)

lemma smb_regs_0: "i < 8 \<Longrightarrow> smb_regs 0 i = Some (smb_reg i)"
  by (simp add: smb_reg_def smb_regs_def row0_0 word_less_nat_alt)

lemma DCE_consts: "DCE_MAX_HSP = 3" "DCE_MAX_NO_SMB = 8" "DCE_MAX_HSP_IE = 8" "DCE_MAX_NO_SS = 4"
  by (simp_all add: DCE_MAX_HSP_def DCE_MAX_NO_SMB_def DCE_MAX_HSP_IE_def DCE_MAX_NO_SS_def)

lemma smb_set_ok: "hsp_ok d \<Longrightarrow> i < 8 \<Longrightarrow> dce_smb_set v i d = Some (dce_writel (smb_reg i) v d)"
  by (simp add: dce_smb_set_def hsp_ok_def DCE_consts smb_regs_0 not_le)

lemma smb_read_ok: "hsp_ok d \<Longrightarrow> i < 8 \<Longrightarrow> dce_smb_read i d = Some (dce_regs d (smb_reg i))"
  by (simp add: dce_smb_read_def hsp_ok_def DCE_consts smb_regs_0 dce_readl_def word_le_nat_alt word_less_nat_alt)

lemma hsp_ie_read_ok: "hsp_ok d \<Longrightarrow> dce_hsp_ie_read 1 d = Some (dce_regs d 0x150104)"
  by (simp add: dce_hsp_ie_read_def hsp_ok_def DCE_consts hsp_int_ie_regs_def row0_0 dce_readl_def word_le_nat_alt)

lemma hsp_ir_read_ok: "hsp_ok d \<Longrightarrow> dce_hsp_ir_read d = Some (dce_regs d 0x150304)"
  by (simp add: dce_hsp_ir_read_def hsp_ok_def DCE_consts hsp_int_ir_regs_def row0_0 dce_readl_def)

lemma ss_get_state_ok: "hsp_ok d \<Longrightarrow> dce_ss_get_state 0 d = Some (dce_regs d 0x1a0000)"
  by (simp add: dce_ss_get_state_def hsp_ok_def ss_state_regs_def row0_0 dce_readl_def)

lemma ss_set_ok:
  "hsp_ok d \<Longrightarrow> unat b < 64 \<Longrightarrow>
    dce_ss_set b 0 d = Some (dce_writel 0x1a0004 (dce_regs d 0x1a0000 OR push_bit (unat b) 1) d)"
  by (simp add: dce_ss_set_def ss_get_state_ok hsp_ok_def DCE_consts ss_set_regs_def row0_0 set_bit_local_def)

lemma unat_less_8: "i < 8 \<Longrightarrow> unat (i :: u8) \<in> {0, 1, 2, 3, 4, 5, 6, 7}"
  by (simp add: word_less_nat_alt) presburger

lemma smb_reg_inj:
  assumes "i < 8" and "j < 8"
  shows "smb_reg i = smb_reg j \<longleftrightarrow> i = j"
proof -
  have d: "distinct [0x160000 :: u32, 0x168000, 0x170000, 0x178000, 0x180000, 0x188000, 0x190000, 0x198000]"
    by simp
  have "smb_reg k = [0x160000, 0x168000, 0x170000, 0x178000, 0x180000, 0x188000, 0x190000, 0x198000] ! unat k"
    if "k < 8" for k
    using that by (simp add: smb_reg_def smb_regs_def row0_0 word_less_nat_alt)
  then show ?thesis
    using assms nth_eq_iff_index_eq [OF d, of "unat i" "unat j"]
    by (simp add: word_less_nat_alt word_unat_eq_iff)
qed

lemma writel_simps [simp]:
  "hsp_id (dce_writel r v d) = hsp_id d" "io_mapped (dce_writel r v d) = io_mapped d"
  "fsm_initialized (dce_writel r v d) = fsm_initialized d" "c_state (dce_writel r v d) = c_state d"
  "requested_ipcs (dce_writel r v d) = requested_ipcs d" "wait_complete (dce_writel r v d) = wait_complete d"
  "d_mb (dce_writel r v d) = d_mb d" "boot_status (dce_writel r v d) = boot_status d"
  "d_env (dce_writel r v d) = d_env d" "boot_complete (dce_writel r v d) = boot_complete d"
  "ivc_channels (dce_writel r v d) = ivc_channels d" "ipc_ch (dce_writel r v d) = ipc_ch d"
  "mb_signals (dce_writel r v d) = mb_signals d" "stream_id (dce_writel r v d) = stream_id d"
  "kzalloc_ok (dce_writel r v d) = kzalloc_ok d" "msg_heap (dce_writel r v d) = msg_heap d"
  "msg_next (dce_writel r v d) = msg_next d"
  "client_handles (dce_writel r v d) = client_handles d" "d_clients (dce_writel r v d) = d_clients d"
  "region_base (dce_writel r v d) = region_base d" "region_iova (dce_writel r v d) = region_iova d"
  "region_size (dce_writel r v d) = region_size d"
  by (simp_all add: dce_writel_def)

text \<open>The words written to one register, in order.\<close>

definition writes_to :: "u32 \<Rightarrow> 'v tegra_dce \<Rightarrow> u32 list" where
  "writes_to r d = map snd (filter (\<lambda>w. fst w = r) (reg_writes d))"

lemma writes_to_writel: "hsp_ok d \<Longrightarrow> writes_to r (dce_writel r' v d) = writes_to r d @ (if r' = r then [v] else [])"
  by (simp add: writes_to_def dce_writel_def hsp_ok_def)

lemma regs_writel: "hsp_ok d \<Longrightarrow> dce_regs (dce_writel r v d) = (dce_regs d)(r := v)"
  by (simp add: dce_writel_def hsp_ok_def)

section \<open>Properties\<close>

text \<open>Clearing one semaphore bit writes to the clear register the whole state of the semaphore with
  that bit added, so whatever else the peer has set there is cleared with it; for an HSP instance that
  passes the range check but has no register table the access goes through a null entry.\<close>

theorem ss_clear_writes_state:
  assumes "io_mapped d" and "unat bpos < 64" and "i < 4"
  shows "(hsp_id d = 0 \<longrightarrow>
      (\<exists>val. dce_ss_get_state i d = Some val \<and>
        dce_ss_clear bpos i d =
          Some (dce_writel (the (ss_clear_regs 0 i)) (val OR push_bit (unat bpos) 1) d))) \<and>
    (hsp_id d = 1 \<or> hsp_id d = 2 \<longrightarrow> dce_ss_clear bpos i d = None \<and> dce_smb_read i d = None)"
proof (intro conjI impI)
  have i: "unat i < 4" "i < 8" using assms(3) by (simp_all add: word_less_nat_alt)
  assume "hsp_id d = 0"
  then show "\<exists>val. dce_ss_get_state i d = Some val \<and>
        dce_ss_clear bpos i d = Some (dce_writel (the (ss_clear_regs 0 i)) (val OR push_bit (unat bpos) 1) d)"
    using assms i
    by (simp add: dce_ss_clear_def dce_ss_get_state_def ss_state_regs_def ss_clear_regs_def row0_def DCE_consts
        set_bit_local_def not_le)
next
  have i: "i < 8" using assms(3) by (simp add: word_less_nat_alt)
  assume h: "hsp_id d = 1 \<or> hsp_id d = 2"
  then show "dce_ss_clear bpos i d = None"
    using assms by (auto simp: dce_ss_clear_def dce_ss_get_state_def ss_state_regs_def row0_def DCE_consts not_le)
  show "dce_smb_read i d = None"
    using h i by (auto simp: dce_smb_read_def smb_regs_def row0_def DCE_consts not_le)
qed

theorem ss_clear_writes_state_witness:
  "dce_ss_clear 4 1 (dce_probe () \<lparr>dce_regs := (\<lambda>r. 0xF0)\<rparr>) =
     Some (dce_writel 0x1b0008 0xF0 (dce_probe () \<lparr>dce_regs := (\<lambda>r. 0xF0)\<rparr>))"
proof -
  let ?d = "dce_probe () \<lparr>dce_regs := (\<lambda>r. 0xF0)\<rparr>"
  have a: "io_mapped ?d" "unat (4 :: u8) < 64" "(1 :: u8) < 4" "hsp_id ?d = 0" by (simp_all add: dce_probe_def)
  have r: "the (ss_clear_regs 0 1) = 0x1b0008" by (simp add: ss_clear_regs_def row0_def)
  have v: "dce_ss_get_state 1 ?d = Some 0xF0"
    using a by (simp add: dce_ss_get_state_def ss_state_regs_def row0_def dce_readl_def)
  have o: "(0xF0 :: u32) OR push_bit (unat (4 :: u8)) 1 = 0xF0" by simp
  have "\<exists>val. dce_ss_get_state 1 ?d = Some val \<and>
      dce_ss_clear 4 1 ?d = Some (dce_writel (the (ss_clear_regs 0 1)) (val OR push_bit (unat (4 :: u8)) 1) ?d)"
    using ss_clear_writes_state [OF a(1-3)] a(4) by blast
  then show ?thesis unfolding v r by (metis o option.inject)
qed

end
