(* ===== verification/Dce_Fsm.thy ===== *)
theory Dce_Fsm imports Dce_Hsp begin

text \<open>
  The event state machine (\<open>dce-fsm.c\<close>) and the wait conditions its handlers signal
  (\<open>dce-worker.c\<close>).  \<open>fsm_post_with\<close> is the body of \<open>dce_fsm_post_event\<close> over an event table; the
  driver's table is put together in \<open>Dce_Boot\<close>, the part of it whose handlers neither wait nor post in
  \<open>Dce_Isr\<close>.  The state machine's mutex is held around each check and update and released on every path.
\<close>

section \<open>Wait conditions\<close>

definition dce_wakeup_interruptible :: "nat \<Rightarrow> 'v tegra_dce \<Rightarrow> 'v tegra_dce" where
  "dce_wakeup_interruptible msg_id d =
     (if DCE_MAX_WAIT \<le> msg_id then d else d\<lparr>wait_complete := (wait_complete d)[msg_id := True]\<rparr>)"

definition dce_cond_wait_reset :: "nat \<Rightarrow> 'v tegra_dce \<Rightarrow> 'v tegra_dce" where
  "dce_cond_wait_reset msg_id d =
     (if DCE_MAX_WAIT \<le> msg_id then d else d\<lparr>wait_complete := (wait_complete d)[msg_id := False]\<rparr>)"

section \<open>State and validation\<close>

definition dce_fsm_set_state :: "dce_fsm_event \<Rightarrow> 'v tegra_dce \<Rightarrow> 'v tegra_dce" where
  "dce_fsm_set_state event d =
     (let request = \<lambda>st b. d\<lparr>c_state := st, requested_ipcs := requested_ipcs d OR DCE_BIT b\<rparr>;
          receive = \<lambda>st b. d\<lparr>c_state := st, requested_ipcs := requested_ipcs d AND NOT (DCE_BIT b)\<rparr>
      in (case event of
            EVENT_ID_DCE_FSM_START \<Rightarrow> d\<lparr>c_state := STATE_DCE_FSM_IDLE, requested_ipcs := 0\<rparr>
          | EVENT_ID_DCE_BOOT_COMPLETE_REQUESTED \<Rightarrow> request STATE_DCE_BOOT_WAIT DCE_WAIT_BOOT_COMPLETE
          | EVENT_ID_DCE_BOOT_COMPLETE_RECEIVED \<Rightarrow> receive STATE_DCE_FSM_IDLE DCE_WAIT_BOOT_COMPLETE
          | EVENT_ID_DCE_BOOT_CMD_MSG_REQUESTED \<Rightarrow> request STATE_DCE_BOOTCMD_WFI DCE_WAIT_BOOT_CMD
          | EVENT_ID_DCE_BOOT_CMD_MSG_RECEIVED \<Rightarrow> receive STATE_DCE_FSM_IDLE DCE_WAIT_BOOT_CMD
          | EVENT_ID_DCE_ADMIN_IPC_MSG_REQUESTED \<Rightarrow> request STATE_DCE_ADMIN_WFI DCE_WAIT_ADMIN_IPC
          | EVENT_ID_DCE_ADMIN_IPC_MSG_RECEIVED \<Rightarrow> receive STATE_DCE_FSM_IDLE DCE_WAIT_ADMIN_IPC
          | EVENT_ID_DCE_SC7_ENTER_REQUESTED \<Rightarrow> request STATE_DCE_SC7_ENTER_WFI DCE_WAIT_SC7_ENTER
          | EVENT_ID_DCE_SC7_ENTERED_RECEIVED \<Rightarrow> receive STATE_DCE_SC7_ENTERED DCE_WAIT_SC7_ENTER
          | EVENT_ID_DCE_SC7_EXIT_RECEIVED \<Rightarrow> d\<lparr>c_state := STATE_DCE_FSM_IDLE, requested_ipcs := 0\<rparr>
          | EVENT_ID_DCE_LOG_REQUESTED \<Rightarrow> request STATE_DCE_LOG_READY_WFI DCE_WAIT_LOG
          | EVENT_ID_DCE_LOG_READY_RECEIVED \<Rightarrow> receive STATE_DCE_FSM_IDLE DCE_WAIT_LOG
          | EVENT_ID_DCE_FSM_STOP \<Rightarrow> d\<lparr>c_state := STATE_DCE_INVALID\<rparr>
          | EVENT_ID_DCE_ABORT_RECEIVED \<Rightarrow> d\<lparr>c_state := STATE_DCE_ABORT\<rparr>
          | EVENT_ID_DCE_CRASH_LOG_RECEIVED \<Rightarrow> d\<lparr>c_state := STATE_DCE_ABORT\<rparr>
          | EVENT_ID_DCE_LOG_OVERFLOW_RECEIVED \<Rightarrow> d\<lparr>c_state := STATE_DCE_ABORT\<rparr>
          | EVENT_ID_DCE_INVALID \<Rightarrow> d))"

text \<open>The switch on the state; the outer \<open>default\<close>, which only \<open>STATE_DCE_ABORT\<close> reaches, logs and leaves
  \<open>ret\<close> at 0.  The events are passed as an enum value no larger than \<open>EVENT_ID_DCE_FSM_STOP\<close>.\<close>

definition dce_fsm_validate_event :: "dce_fsm_event \<Rightarrow> 'v tegra_dce \<Rightarrow> ret" where
  "dce_fsm_validate_event event d =
     (if \<not> fsm_initialized d then Inl EINVAL
      else
        let valid = \<lambda>evs. if event \<in> set evs then OK else Inl EINVAL
        in (case c_state d of
              STATE_DCE_INVALID \<Rightarrow> valid [EVENT_ID_DCE_FSM_START]
            | STATE_DCE_FSM_IDLE \<Rightarrow>
                if event \<in> set [EVENT_ID_DCE_BOOT_COMPLETE_RECEIVED, EVENT_ID_DCE_BOOT_CMD_MSG_RECEIVED,
                    EVENT_ID_DCE_ADMIN_IPC_MSG_RECEIVED, EVENT_ID_DCE_SC7_ENTERED_RECEIVED,
                    EVENT_ID_DCE_LOG_READY_RECEIVED, EVENT_ID_DCE_FSM_START]
                then Inl EINVAL else OK
            | STATE_DCE_BOOT_WAIT \<Rightarrow>
                valid [EVENT_ID_DCE_BOOT_COMPLETE_RECEIVED, EVENT_ID_DCE_ABORT_RECEIVED,
                  EVENT_ID_DCE_CRASH_LOG_RECEIVED, EVENT_ID_DCE_SC7_ENTER_REQUESTED,
                  EVENT_ID_DCE_LOG_OVERFLOW_RECEIVED, EVENT_ID_DCE_FSM_STOP]
            | STATE_DCE_BOOTCMD_WFI \<Rightarrow>
                valid [EVENT_ID_DCE_BOOT_CMD_MSG_RECEIVED, EVENT_ID_DCE_ABORT_RECEIVED,
                  EVENT_ID_DCE_CRASH_LOG_RECEIVED, EVENT_ID_DCE_SC7_ENTER_REQUESTED,
                  EVENT_ID_DCE_LOG_OVERFLOW_RECEIVED, EVENT_ID_DCE_FSM_STOP]
            | STATE_DCE_ADMIN_WFI \<Rightarrow>
                valid [EVENT_ID_DCE_ADMIN_IPC_MSG_RECEIVED, EVENT_ID_DCE_ABORT_RECEIVED,
                  EVENT_ID_DCE_CRASH_LOG_RECEIVED, EVENT_ID_DCE_SC7_ENTER_REQUESTED,
                  EVENT_ID_DCE_LOG_OVERFLOW_RECEIVED, EVENT_ID_DCE_FSM_STOP]
            | STATE_DCE_SC7_ENTER_WFI \<Rightarrow>
                valid [EVENT_ID_DCE_SC7_ENTERED_RECEIVED, EVENT_ID_DCE_ABORT_RECEIVED,
                  EVENT_ID_DCE_CRASH_LOG_RECEIVED, EVENT_ID_DCE_LOG_OVERFLOW_RECEIVED, EVENT_ID_DCE_FSM_STOP]
            | STATE_DCE_LOG_READY_WFI \<Rightarrow>
                valid [EVENT_ID_DCE_LOG_READY_RECEIVED, EVENT_ID_DCE_ABORT_RECEIVED,
                  EVENT_ID_DCE_CRASH_LOG_RECEIVED, EVENT_ID_DCE_SC7_ENTER_REQUESTED,
                  EVENT_ID_DCE_LOG_OVERFLOW_RECEIVED, EVENT_ID_DCE_FSM_STOP]
            | STATE_DCE_SC7_ENTERED \<Rightarrow> valid [EVENT_ID_DCE_SC7_EXIT_RECEIVED]
            | STATE_DCE_ABORT \<Rightarrow> OK))"

section \<open>Posting an event\<close>

type_synonym ('p, 'v) fsm_handler = "'p \<Rightarrow> 'v tegra_dce \<Rightarrow> (ret \<times> 'v tegra_dce) option"
type_synonym ('p, 'v) event_table = "(dce_fsm_event \<times> ('p, 'v) fsm_handler option) list"

fun dce_fsm_get_event_index :: "dce_fsm_event \<Rightarrow> ('p, 'v) event_table \<Rightarrow> nat" where
  "dce_fsm_get_event_index event [] = 0"
| "dce_fsm_get_event_index event (e # es) =
     (if fst e = event then 0 else Suc (dce_fsm_get_event_index event es))"

definition fsm_post_with :: "('p, 'v) event_table \<Rightarrow> dce_fsm_event \<Rightarrow> ('p, 'v) fsm_handler" where
  "fsm_post_with table event params d =
     (case dce_fsm_validate_event event d of
        Inl e \<Rightarrow> Some (Inl e, d)
      | Inr _ \<Rightarrow>
          let prev_state = c_state d;
              d = dce_fsm_set_state event d;
              i = dce_fsm_get_event_index event table
          in if i < length table then
               (case snd (table ! i) of
                  None \<Rightarrow> Some (OK, d)
                | Some handle \<Rightarrow> do {
                    (ret, d) \<leftarrow> handle params d;
                    Some (ret, if isl ret then d\<lparr>c_state := prev_state\<rparr> else d) })
             else Some (OK, d))"

definition dce_fsm_init :: "'v tegra_dce \<Rightarrow> ret \<times> 'v tegra_dce" where
  "dce_fsm_init d = (OK, d\<lparr>c_state := STATE_DCE_INVALID, fsm_initialized := True\<rparr>)"

definition dce_fsm_deinit :: "'v tegra_dce \<Rightarrow> 'v tegra_dce" where
  "dce_fsm_deinit d = d\<lparr>fsm_initialized := False\<rparr>"

definition dce_fsm_start :: "'v tegra_dce \<Rightarrow> 'v tegra_dce" where
  "dce_fsm_start d = d\<lparr>bootstrap_work := Suc (bootstrap_work d)\<rparr>"

definition dce_handle_fsm_start_event :: "('p, 'v) fsm_handler" where
  "dce_handle_fsm_start_event params d = Some (OK, d)"

definition dce_handle_event_stub :: "('p, 'v) fsm_handler" where
  "dce_handle_event_stub params d = Some (OK, d)"

section \<open>What the machine promises\<close>

text \<open>The waiting states, the event that ends each, and the bit of \<open>requested_ipcs\<close> that goes with it.\<close>

fun reply_of :: "dce_fsm_state \<Rightarrow> dce_fsm_event option" where
  "reply_of STATE_DCE_BOOT_WAIT = Some EVENT_ID_DCE_BOOT_COMPLETE_RECEIVED"
| "reply_of STATE_DCE_BOOTCMD_WFI = Some EVENT_ID_DCE_BOOT_CMD_MSG_RECEIVED"
| "reply_of STATE_DCE_ADMIN_WFI = Some EVENT_ID_DCE_ADMIN_IPC_MSG_RECEIVED"
| "reply_of STATE_DCE_SC7_ENTER_WFI = Some EVENT_ID_DCE_SC7_ENTERED_RECEIVED"
| "reply_of STATE_DCE_LOG_READY_WFI = Some EVENT_ID_DCE_LOG_READY_RECEIVED"
| "reply_of _ = None"

definition abort_events :: "dce_fsm_event set" where
  "abort_events = {EVENT_ID_DCE_ABORT_RECEIVED, EVENT_ID_DCE_CRASH_LOG_RECEIVED, EVENT_ID_DCE_LOG_OVERFLOW_RECEIVED}"

text \<open>The specification: replies are taken in the state that waits for them and nowhere else.\<close>

fun fsm_allowed :: "dce_fsm_state \<Rightarrow> dce_fsm_event \<Rightarrow> bool" where
  "fsm_allowed STATE_DCE_INVALID ev \<longleftrightarrow> ev = EVENT_ID_DCE_FSM_START"
| "fsm_allowed STATE_DCE_SC7_ENTERED ev \<longleftrightarrow> ev = EVENT_ID_DCE_SC7_EXIT_RECEIVED"
| "fsm_allowed STATE_DCE_FSM_IDLE ev \<longleftrightarrow> ev \<noteq> EVENT_ID_DCE_FSM_START \<and> (\<forall>st. reply_of st \<noteq> Some ev)"
| "fsm_allowed STATE_DCE_ABORT ev \<longleftrightarrow> True"
| "fsm_allowed st ev \<longleftrightarrow>
     reply_of st = Some ev \<or> ev \<in> abort_events \<or> ev = EVENT_ID_DCE_FSM_STOP \<or>
     (ev = EVENT_ID_DCE_SC7_ENTER_REQUESTED \<and> st \<noteq> STATE_DCE_SC7_ENTER_WFI)"

text \<open>The state each event leads to.\<close>

fun fsm_target :: "dce_fsm_event \<Rightarrow> dce_fsm_state \<Rightarrow> dce_fsm_state" where
  "fsm_target EVENT_ID_DCE_INVALID st = st"
| "fsm_target EVENT_ID_DCE_BOOT_COMPLETE_REQUESTED st = STATE_DCE_BOOT_WAIT"
| "fsm_target EVENT_ID_DCE_BOOT_CMD_MSG_REQUESTED st = STATE_DCE_BOOTCMD_WFI"
| "fsm_target EVENT_ID_DCE_ADMIN_IPC_MSG_REQUESTED st = STATE_DCE_ADMIN_WFI"
| "fsm_target EVENT_ID_DCE_SC7_ENTER_REQUESTED st = STATE_DCE_SC7_ENTER_WFI"
| "fsm_target EVENT_ID_DCE_SC7_ENTERED_RECEIVED st = STATE_DCE_SC7_ENTERED"
| "fsm_target EVENT_ID_DCE_LOG_REQUESTED st = STATE_DCE_LOG_READY_WFI"
| "fsm_target EVENT_ID_DCE_FSM_STOP st = STATE_DCE_INVALID"
| "fsm_target ev st = (if ev \<in> abort_events then STATE_DCE_ABORT else STATE_DCE_FSM_IDLE)"

lemma set_state_target: "c_state (dce_fsm_set_state ev d) = fsm_target ev (c_state d)"
  by (cases ev) (simp_all add: dce_fsm_set_state_def abort_events_def)

lemma replies: "(\<exists>st. reply_of st = Some ev) \<longleftrightarrow> ev \<in> {EVENT_ID_DCE_BOOT_COMPLETE_RECEIVED,
    EVENT_ID_DCE_BOOT_CMD_MSG_RECEIVED, EVENT_ID_DCE_ADMIN_IPC_MSG_RECEIVED, EVENT_ID_DCE_SC7_ENTERED_RECEIVED,
    EVENT_ID_DCE_LOG_READY_RECEIVED}"
proof
  assume "\<exists>st. reply_of st = Some ev"
  then obtain st where "reply_of st = Some ev" ..
  then show "ev \<in> {EVENT_ID_DCE_BOOT_COMPLETE_RECEIVED, EVENT_ID_DCE_BOOT_CMD_MSG_RECEIVED,
      EVENT_ID_DCE_ADMIN_IPC_MSG_RECEIVED, EVENT_ID_DCE_SC7_ENTERED_RECEIVED, EVENT_ID_DCE_LOG_READY_RECEIVED}"
    by (cases st) auto
next
  assume "ev \<in> {EVENT_ID_DCE_BOOT_COMPLETE_RECEIVED, EVENT_ID_DCE_BOOT_CMD_MSG_RECEIVED,
      EVENT_ID_DCE_ADMIN_IPC_MSG_RECEIVED, EVENT_ID_DCE_SC7_ENTERED_RECEIVED, EVENT_ID_DCE_LOG_READY_RECEIVED}"
  then show "\<exists>st. reply_of st = Some ev"
    by (elim insertE emptyE) (metis reply_of.simps)+
qed

lemma validate_allowed:
  "dce_fsm_validate_event ev d = (if fsm_initialized d \<and> fsm_allowed (c_state d) ev then OK else Inl EINVAL)"
proof (cases "c_state d = STATE_DCE_FSM_IDLE")
  case True
  have "fsm_allowed STATE_DCE_FSM_IDLE ev \<longleftrightarrow> ev \<notin> {EVENT_ID_DCE_BOOT_COMPLETE_RECEIVED,
      EVENT_ID_DCE_BOOT_CMD_MSG_RECEIVED, EVENT_ID_DCE_ADMIN_IPC_MSG_RECEIVED, EVENT_ID_DCE_SC7_ENTERED_RECEIVED,
      EVENT_ID_DCE_LOG_READY_RECEIVED, EVENT_ID_DCE_FSM_START}"
    using replies [of ev] by auto
  then show ?thesis using True by (simp add: dce_fsm_validate_event_def)
next
  case False
  then show ?thesis
    by (cases "c_state d"; cases ev) (simp_all add: dce_fsm_validate_event_def abort_events_def)
qed

section \<open>Reachable states\<close>

text \<open>What happens to the machine as long as no abort is reported and no handler fails: it is initialised
  once with nothing requested, takes events it accepts (from the driver or, during a handler, from an
  interrupt), and is left alone by everything else.\<close>

inductive fsm_reachable :: "'v tegra_dce \<Rightarrow> bool" where
  init: "requested_ipcs d = 0 \<Longrightarrow> fsm_reachable (snd (dce_fsm_init d))"
| event: "fsm_reachable d \<Longrightarrow> dce_fsm_validate_event ev d = OK \<Longrightarrow> ev \<notin> abort_events \<Longrightarrow>
    fsm_reachable (dce_fsm_set_state ev d)"
| other: "fsm_reachable d \<Longrightarrow> c_state d' = c_state d \<Longrightarrow> requested_ipcs d' = requested_ipcs d \<Longrightarrow>
    fsm_initialized d' = fsm_initialized d \<Longrightarrow> fsm_reachable d'"

text \<open>The request bits each state goes with: its own, and while suspending or suspended at most one of a
  request that the suspension overtook.\<close>

fun fsm_tracks :: "dce_fsm_state \<Rightarrow> u32 \<Rightarrow> bool" where
  "fsm_tracks STATE_DCE_INVALID b \<longleftrightarrow> True"
| "fsm_tracks STATE_DCE_FSM_IDLE b \<longleftrightarrow> b = 0"
| "fsm_tracks STATE_DCE_BOOT_WAIT b \<longleftrightarrow> b = DCE_BIT DCE_WAIT_BOOT_COMPLETE"
| "fsm_tracks STATE_DCE_BOOTCMD_WFI b \<longleftrightarrow> b = DCE_BIT DCE_WAIT_BOOT_CMD"
| "fsm_tracks STATE_DCE_ADMIN_WFI b \<longleftrightarrow> b = DCE_BIT DCE_WAIT_ADMIN_IPC"
| "fsm_tracks STATE_DCE_LOG_READY_WFI b \<longleftrightarrow> b = DCE_BIT DCE_WAIT_LOG"
| "fsm_tracks STATE_DCE_SC7_ENTER_WFI b \<longleftrightarrow>
     b \<in> set (map (\<lambda>x. DCE_BIT DCE_WAIT_SC7_ENTER OR x) [0, DCE_BIT DCE_WAIT_BOOT_COMPLETE, DCE_BIT DCE_WAIT_BOOT_CMD,
       DCE_BIT DCE_WAIT_ADMIN_IPC, DCE_BIT DCE_WAIT_LOG])"
| "fsm_tracks STATE_DCE_SC7_ENTERED b \<longleftrightarrow>
     b \<in> set [0, DCE_BIT DCE_WAIT_BOOT_COMPLETE, DCE_BIT DCE_WAIT_BOOT_CMD, DCE_BIT DCE_WAIT_ADMIN_IPC, DCE_BIT DCE_WAIT_LOG]"
| "fsm_tracks STATE_DCE_ABORT b \<longleftrightarrow> False"

lemma wait_bits: "DCE_BIT DCE_WAIT_BOOT_COMPLETE = 1" "DCE_BIT DCE_WAIT_BOOT_CMD = 2" "DCE_BIT DCE_WAIT_ADMIN_IPC = 4"
  "DCE_BIT DCE_WAIT_SC7_ENTER = 8" "DCE_BIT DCE_WAIT_LOG = 16"
  by (simp_all add: DCE_BIT_def DCE_WAIT_BOOT_COMPLETE_def DCE_WAIT_BOOT_CMD_def DCE_WAIT_ADMIN_IPC_def
      DCE_WAIT_SC7_ENTER_def DCE_WAIT_LOG_def)

lemma fsm_tracks_step:
  assumes "fsm_tracks (c_state d) (requested_ipcs d)" and "fsm_allowed (c_state d) ev" and "ev \<notin> abort_events"
  shows "fsm_tracks (c_state (dce_fsm_set_state ev d)) (requested_ipcs (dce_fsm_set_state ev d))"
proof (cases "c_state d = STATE_DCE_FSM_IDLE")
  case True
  have "ev \<notin> {EVENT_ID_DCE_BOOT_COMPLETE_RECEIVED, EVENT_ID_DCE_BOOT_CMD_MSG_RECEIVED,
      EVENT_ID_DCE_ADMIN_IPC_MSG_RECEIVED, EVENT_ID_DCE_SC7_ENTERED_RECEIVED, EVENT_ID_DCE_LOG_READY_RECEIVED}"
    using replies [of ev] assms(2) True by auto
  with assms True show ?thesis
    by (cases ev) (simp_all add: dce_fsm_set_state_def wait_bits abort_events_def)
next
  case False
  with assms show ?thesis
    by (cases "c_state d"; cases ev)
      (auto simp: dce_fsm_set_state_def wait_bits abort_events_def)
qed

lemma fsm_reachable_tracks: "fsm_reachable d \<Longrightarrow> fsm_tracks (c_state d) (requested_ipcs d)"
proof (induction rule: fsm_reachable.induct)
  case (init d)
  then show ?case by (simp add: dce_fsm_init_def)
next
  case (event d ev)
  then have "fsm_allowed (c_state d) ev" by (simp add: validate_allowed split: if_split_asm)
  with event show ?case by (intro fsm_tracks_step)
next
  case (other d d')
  then show ?case by simp
qed

section \<open>Properties\<close>

text \<open>C26: an event is refused with EINVAL and no effect unless the machine is initialised and the
  specification allows the event in its state; an accepted event moves the machine to its target state
  before its handler runs, the handler's result is the result, and a failing handler puts the machine
  back into the state before the event, whatever state it has reached meanwhile.\<close>

theorem fsm_post_decides:
  "fsm_post_with table ev p d =
     (if \<not> (fsm_initialized d \<and> fsm_allowed (c_state d) ev) then Some (Inl EINVAL, d)
      else
        let d1 = dce_fsm_set_state ev d
        in (case find (\<lambda>e. fst e = ev) table of
              Some (_, Some h) \<Rightarrow>
                map_option (\<lambda>(r, d2). (r, if isl r then d2\<lparr>c_state := c_state d\<rparr> else d2)) (h p d1)
            | _ \<Rightarrow> Some (OK, d1))) \<and>
   c_state (dce_fsm_set_state ev d) = fsm_target ev (c_state d)"
proof -
  have idx: "dce_fsm_get_event_index ev table < length table \<longleftrightarrow> find (\<lambda>e. fst e = ev) table \<noteq> None"
    by (induction table) auto
  have nth: "find (\<lambda>e. fst e = ev) table = Some e \<Longrightarrow> table ! dce_fsm_get_event_index ev table = e" for e
    by (induction table) (auto split: if_split_asm)
  show ?thesis
  proof (cases "find (\<lambda>e. fst e = ev) table")
    case None
    then show ?thesis using idx by (simp add: fsm_post_with_def validate_allowed set_state_target Let_def)
  next
    case (Some e)
    then have "table ! dce_fsm_get_event_index ev table = e" "dce_fsm_get_event_index ev table < length table"
      using idx nth by simp_all
    then show ?thesis using Some
      by (cases e; cases "snd e")
        (auto simp: fsm_post_with_def validate_allowed set_state_target Let_def map_conv_bind_option
          split: prod.splits intro!: Option.bind_cong)
  qed
qed

text \<open>C27: as long as nothing aborts and no handler fails, the request bits agree with the state: none when
  idle, exactly the awaited one in a waiting state, the suspend bit and at most one overtaken request
  while suspending; so a reply is only ever accepted while its request bit is set.\<close>

theorem fsm_requests_tracked:
  assumes "fsm_reachable d"
  shows "fsm_tracks (c_state d) (requested_ipcs d) \<and>
    (\<forall>ev. ev \<in> set [EVENT_ID_DCE_BOOT_COMPLETE_RECEIVED, EVENT_ID_DCE_BOOT_CMD_MSG_RECEIVED,
        EVENT_ID_DCE_ADMIN_IPC_MSG_RECEIVED, EVENT_ID_DCE_LOG_READY_RECEIVED] \<and>
      dce_fsm_validate_event ev d = OK \<longrightarrow>
      requested_ipcs d \<noteq> 0 \<and> requested_ipcs (dce_fsm_set_state ev d) = 0)"
proof (intro conjI allI impI)
  show t: "fsm_tracks (c_state d) (requested_ipcs d)" by (rule fsm_reachable_tracks [OF assms])
  fix ev
  assume a: "ev \<in> set [EVENT_ID_DCE_BOOT_COMPLETE_RECEIVED, EVENT_ID_DCE_BOOT_CMD_MSG_RECEIVED,
        EVENT_ID_DCE_ADMIN_IPC_MSG_RECEIVED, EVENT_ID_DCE_LOG_READY_RECEIVED] \<and> dce_fsm_validate_event ev d = OK"
  then have al: "fsm_allowed (c_state d) ev" by (simp add: validate_allowed split: if_split_asm)
  have ni: "c_state d \<noteq> STATE_DCE_FSM_IDLE"
  proof
    assume "c_state d = STATE_DCE_FSM_IDLE"
    then have "\<not> (\<exists>st. reply_of st = Some ev)" using al by auto
    then show False using a unfolding replies by auto
  qed
  have "requested_ipcs d \<noteq> 0 \<and> requested_ipcs (dce_fsm_set_state ev d) = 0"
    using a al ni t by (cases "c_state d") (auto simp: dce_fsm_set_state_def wait_bits abort_events_def)
  then show "requested_ipcs d \<noteq> 0" "requested_ipcs (dce_fsm_set_state ev d) = 0" by auto
qed

theorem fsm_requests_tracked_witness:
  "fsm_tracks (c_state (dce_fsm_set_state EVENT_ID_DCE_FSM_START (snd (dce_fsm_init (dce_probe ()))))) 0"
proof -
  let ?d = "dce_fsm_set_state EVENT_ID_DCE_FSM_START (snd (dce_fsm_init (dce_probe ())))"
  have "fsm_reachable ?d"
    by (intro fsm_reachable.event fsm_reachable.init)
      (simp_all add: dce_probe_def validate_allowed dce_fsm_init_def abort_events_def)
  from fsm_requests_tracked [OF this] show ?thesis by (simp add: dce_fsm_set_state_def)
qed

text \<open>The abort state stops nothing: an initialised machine in it accepts every event, and the next
  reply, or a new request, takes it back to work as if nothing had happened.\<close>

theorem fsm_abort_not_terminal:
  assumes "fsm_initialized d" and "c_state d = STATE_DCE_ABORT"
  shows "dce_fsm_validate_event ev d = OK \<and>
    c_state (dce_fsm_set_state EVENT_ID_DCE_BOOT_CMD_MSG_RECEIVED d) = STATE_DCE_FSM_IDLE"
  using assms by (simp add: validate_allowed set_state_target abort_events_def)

theorem fsm_abort_not_terminal_witness:
  "dce_fsm_validate_event EVENT_ID_DCE_ADMIN_IPC_MSG_REQUESTED
     (dce_fsm_set_state EVENT_ID_DCE_ABORT_RECEIVED (snd (dce_fsm_init (dce_probe ())))) = OK"
proof -
  let ?d = "dce_fsm_set_state EVENT_ID_DCE_ABORT_RECEIVED (snd (dce_fsm_init (dce_probe ())))"
  have "fsm_initialized ?d" "c_state ?d = STATE_DCE_ABORT" by (simp_all add: dce_fsm_init_def dce_fsm_set_state_def)
  from fsm_abort_not_terminal [OF this] show ?thesis by blast
qed

end
