(* ===== verification/Dce_Mailbox.thy ===== *)
theory Dce_Mailbox imports Dce_Fsm begin

text \<open>
  The mailbox interfaces (\<open>dce-mailbox.c\<close>): status words, the send side, initialisation and the
  interrupt service routine, whose dispatch through \<open>notify\<close> is an argument here and is filled in in
  \<open>Dce_Isr\<close>.  The mutex of an interface is the flag \<open>mb_locked\<close>: taking it twice never returns.
\<close>

section \<open>Interfaces\<close>

definition DCE_MAILBOX_BOOT_INTERFACE :: nat where "DCE_MAILBOX_BOOT_INTERFACE = 0"
definition DCE_MAILBOX_ADMIN_INTERFACE :: nat where "DCE_MAILBOX_ADMIN_INTERFACE = 1"
definition CCPLEX_HSP_IE :: u8 where "CCPLEX_HSP_IE = 1"

definition get_mb :: "nat \<Rightarrow> 'v tegra_dce \<Rightarrow> dce_mailbox_interface option" where
  "get_mb i d = (if i < length (d_mb d) then Some (d_mb d ! i) else None)"

definition set_mb :: "nat \<Rightarrow> dce_mailbox_interface \<Rightarrow> 'v tegra_dce \<Rightarrow> 'v tegra_dce" where
  "set_mb i m d = d\<lparr>d_mb := (d_mb d)[i := m]\<rparr>"

definition mb_lock :: "nat \<Rightarrow> 'v tegra_dce \<Rightarrow> 'v tegra_dce option" where
  "mb_lock i d = do { m \<leftarrow> get_mb i d; if mb_locked m then None else Some (set_mb i (m\<lparr>mb_locked := True\<rparr>) d) }"

definition mb_unlock :: "nat \<Rightarrow> 'v tegra_dce \<Rightarrow> 'v tegra_dce option" where
  "mb_unlock i d = do { m \<leftarrow> get_mb i d; Some (set_mb i (m\<lparr>mb_locked := False\<rparr>) d) }"

section \<open>Status\<close>

definition dce_mailbox_store_interface_status :: "u32 \<Rightarrow> nat \<Rightarrow> 'v tegra_dce \<Rightarrow> 'v tegra_dce option" where
  "dce_mailbox_store_interface_status v i d = do {
     d \<leftarrow> mb_lock i d;
     m \<leftarrow> get_mb i d;
     mb_unlock i (set_mb i (m\<lparr>ack_value := v, mb_valid := True\<rparr>) d) }"

definition dce_mailbox_get_interface_status :: "nat \<Rightarrow> 'v tegra_dce \<Rightarrow> u32 option" where
  "dce_mailbox_get_interface_status i d = do {
     m \<leftarrow> get_mb i d;
     Some (if mb_valid m then ack_value m else 0xffffffff) }"

definition dce_mailbox_invalidate_status :: "nat \<Rightarrow> 'v tegra_dce \<Rightarrow> 'v tegra_dce option" where
  "dce_mailbox_invalidate_status i d = do {
     d \<leftarrow> mb_lock i d;
     m \<leftarrow> get_mb i d;
     mb_unlock i (set_mb i (m\<lparr>mb_valid := False\<rparr>) d) }"

section \<open>Sending\<close>

definition dce_mailbox_write_safe :: "u8 \<Rightarrow> 'v tegra_dce \<Rightarrow> bool option" where
  "dce_mailbox_write_safe i d = do { val \<leftarrow> dce_smb_read i d; Some (val AND DCE_BIT 31 = 0) }"

definition dce_mailbox_set_full_interrupt :: "nat \<Rightarrow> 'v tegra_dce \<Rightarrow> 'v tegra_dce option" where
  "dce_mailbox_set_full_interrupt i d = do {
     d \<leftarrow> mb_lock i d;
     m \<leftarrow> get_mb i d;
     safe \<leftarrow> dce_mailbox_write_safe (s_mb m) d;
     d \<leftarrow> dce_smb_set (DCE_BIT 31) (s_mb m) d;
     mb_unlock i d }"

text \<open>The early return leaves the lock taken.  \<open>wait\<close> is what \<open>d_mb->dce_mailbox_wait\<close> points to.\<close>

definition dce_handle_mailbox_send_cmd_sync ::
  "(mb_wait \<Rightarrow> 'v tegra_dce \<Rightarrow> (ret \<times> 'v tegra_dce) option) \<Rightarrow> u32 \<Rightarrow> nat \<Rightarrow> 'v tegra_dce \<Rightarrow>
    (ret \<times> 'v tegra_dce) option" where
  "dce_handle_mailbox_send_cmd_sync wait cmd interface d = do {
     d \<leftarrow> mb_lock interface d;
     m \<leftarrow> get_mb interface d;
     safe \<leftarrow> dce_mailbox_write_safe (s_mb m) d;
     if \<not> safe then Some (Inl EPERM, d)
     else do {
       d \<leftarrow> dce_smb_set (cmd OR DCE_BIT 31) (s_mb m) d;
       d \<leftarrow> mb_unlock interface (set_mb interface (m\<lparr>mb_valid := False\<rparr>) d);
       m \<leftarrow> get_mb interface d;
       f \<leftarrow> mb_waitf m;
       wait f d } }"

section \<open>Initialisation\<close>

definition dce_mailbox_init_interface ::
  "nat \<Rightarrow> u8 \<Rightarrow> u8 \<Rightarrow> mb_wait option \<Rightarrow> sig_ptr option \<Rightarrow> mb_notify option \<Rightarrow> 'v tegra_dce \<Rightarrow>
    (ret \<times> 'v tegra_dce) option" where
  "dce_mailbox_init_interface i smb rmb waitf data notify d = do {
     m \<leftarrow> get_mb i d;
     d \<leftarrow> dce_smb_set_full_ie True rmb (set_mb i (m\<lparr>mb_locked := False, mb_valid := False\<rparr>) d);
     d \<leftarrow> dce_hsp_ie_write (push_bit (unat rmb + 8) 1) CCPLEX_HSP_IE d;
     m \<leftarrow> get_mb i d;
     Some (OK, set_mb i (m\<lparr>s_mb := smb, r_mb := rmb, mb_notifyf := notify, notify_data := data, mb_waitf := waitf\<rparr>) d) }"

text \<open>\<open>mutex_destroy\<close> has no effect on what follows.\<close>

definition dce_mailbox_deinit_interface :: "nat \<Rightarrow> 'v tegra_dce \<Rightarrow> 'v tegra_dce option" where
  "dce_mailbox_deinit_interface i d = do { m \<leftarrow> get_mb i d; Some d }"

section \<open>Interrupts\<close>

definition dce_hsp_get_irq_sources :: "'v tegra_dce \<Rightarrow> u32 option" where
  "dce_hsp_get_irq_sources d = do {
     ie \<leftarrow> dce_hsp_ie_read CCPLEX_HSP_IE d;
     ir \<leftarrow> dce_hsp_ir_read d;
     Some (ie AND ir) }"

type_synonym 'v notifier = "mb_notify \<Rightarrow> sig_ptr option \<Rightarrow> 'v tegra_dce \<Rightarrow> 'v tegra_dce option"

text \<open>One turn of the loop over the interfaces.\<close>

definition mailbox_isr_turn :: "'v notifier \<Rightarrow> u32 \<Rightarrow> nat \<Rightarrow> 'v tegra_dce \<Rightarrow> 'v tegra_dce option" where
  "mailbox_isr_turn nf irq_sources i d = do {
     m \<leftarrow> get_mb i d;
     if irq_sources AND push_bit (unat (r_mb m) + 8) 1 = 0 then Some d
     else do {
       value \<leftarrow> dce_smb_read (r_mb m) d;
       d \<leftarrow> dce_smb_set 0 (r_mb m) d;
       d \<leftarrow> dce_mailbox_store_interface_status value i d;
       f \<leftarrow> mb_notifyf m;
       nf f (notify_data m) d } }"

definition dce_mailbox_isr :: "'v notifier \<Rightarrow> 'v tegra_dce \<Rightarrow> 'v tegra_dce option" where
  "dce_mailbox_isr nf d = do {
     irq_sources \<leftarrow> dce_hsp_get_irq_sources d;
     d \<leftarrow> mailbox_isr_turn nf irq_sources 0 d;
     d \<leftarrow> mailbox_isr_turn nf irq_sources 1 d;
     d \<leftarrow> mailbox_isr_turn nf irq_sources 2 d;
     mailbox_isr_turn nf irq_sources 3 d }"

section \<open>Effects of the mailbox operations\<close>

lemma get_set_mb [simp]: "i < length (d_mb d) \<Longrightarrow> get_mb i (set_mb i m d) = Some m"
  by (simp add: get_mb_def set_mb_def)

lemma get_set_mb_other: "i \<noteq> j \<Longrightarrow> get_mb j (set_mb i m d) = get_mb j d"
  by (simp add: get_mb_def set_mb_def)

lemma set_mb_simps [simp]:
  "set_mb i m (set_mb i m' d) = set_mb i m d" "length (d_mb (set_mb i m d)) = length (d_mb d)"
  "hsp_id (set_mb i m d) = hsp_id d" "io_mapped (set_mb i m d) = io_mapped d" "dce_regs (set_mb i m d) = dce_regs d"
  "reg_writes (set_mb i m d) = reg_writes d" "c_state (set_mb i m d) = c_state d"
  "requested_ipcs (set_mb i m d) = requested_ipcs d" "fsm_initialized (set_mb i m d) = fsm_initialized d"
  "wait_complete (set_mb i m d) = wait_complete d" "boot_status (set_mb i m d) = boot_status d"
  "d_env (set_mb i m d) = d_env d" "hsp_ok (set_mb i m d) = hsp_ok d" "writes_to r (set_mb i m d) = writes_to r d"
  "stream_id (set_mb i m d) = stream_id d" "ipc_ch (set_mb i m d) = ipc_ch d" "region_base (set_mb i m d) = region_base d"
  "region_iova (set_mb i m d) = region_iova d" "region_size (set_mb i m d) = region_size d"
  "ivc_channels (set_mb i m d) = ivc_channels d"
  by (simp_all add: set_mb_def hsp_ok_def writes_to_def)

lemma get_mb_writel [simp]: "get_mb i (dce_writel r v d) = get_mb i d"
  by (simp add: get_mb_def)

lemma hsp_ok_writel [simp]: "hsp_ok (dce_writel r v d) = hsp_ok d"
  by (simp add: hsp_ok_def)

lemma get_mb_length: "get_mb i d = Some m \<Longrightarrow> i < length (d_mb d)"
  by (simp add: get_mb_def split: if_split_asm)

lemma store_status_eq:
  assumes "get_mb i d = Some m" and "\<not> mb_locked m"
  shows "dce_mailbox_store_interface_status v i d = Some (set_mb i (m\<lparr>ack_value := v, mb_valid := True, mb_locked := False\<rparr>) d)"
  using assms get_mb_length [OF assms(1)]
  by (simp add: dce_mailbox_store_interface_status_def mb_lock_def mb_unlock_def)

text \<open>Sending on an interface whose mailbox word is free: one write, the status invalidated, then the wait.\<close>

lemma send_cmd_free:
  assumes "hsp_ok d" and "get_mb i d = Some m" and "\<not> mb_locked m" and "s_mb m < 8"
    and "dce_regs d (smb_reg (s_mb m)) AND DCE_BIT 31 = 0"
  shows "dce_handle_mailbox_send_cmd_sync wait cmd i d =
    (case mb_waitf m of
       None \<Rightarrow> None
     | Some f \<Rightarrow> wait f (set_mb i (m\<lparr>mb_valid := False, mb_locked := False\<rparr>) (dce_writel (smb_reg (s_mb m)) (cmd OR DCE_BIT 31) d)))"
proof -
  have l: "i < length (d_mb d)" by (rule get_mb_length [OF assms(2)])
  have sw: "set_mb i x (dce_writel r v (set_mb i y d)) = set_mb i x (dce_writel r v d)" for x y r v
    by (simp add: set_mb_def dce_writel_def)
  have lw: "length (d_mb (dce_writel r v d)) = length (d_mb d)" for r v by simp
  show ?thesis using assms l
    by (simp add: dce_handle_mailbox_send_cmd_sync_def mb_lock_def mb_unlock_def dce_mailbox_write_safe_def smb_read_ok
        smb_set_ok sw lw split: option.split)
qed

section \<open>Properties\<close>

text \<open>A command sent while the peer has not taken the previous one is refused with EPERM, but the
  interface stays locked: every later operation that takes its lock, the interrupt handler's included,
  never returns.\<close>

theorem mailbox_send_busy_keeps_lock:
  assumes "hsp_ok d" and "get_mb i d = Some m" and "\<not> mb_locked m" and "s_mb m < 8"
    and "dce_regs d (smb_reg (s_mb m)) AND DCE_BIT 31 \<noteq> 0"
  shows "\<exists>d'. dce_handle_mailbox_send_cmd_sync wait cmd i d = Some (Inl EPERM, d') \<and>
    reg_writes d' = reg_writes d \<and>
    dce_handle_mailbox_send_cmd_sync wait cmd' i d' = None \<and>
    dce_mailbox_store_interface_status v i d' = None \<and> dce_mailbox_set_full_interrupt i d' = None"
proof -
  have l: "i < length (d_mb d)" by (rule get_mb_length [OF assms(2)])
  have "dce_handle_mailbox_send_cmd_sync wait cmd i d = Some (Inl EPERM, set_mb i (m\<lparr>mb_locked := True\<rparr>) d)"
    using assms l
    by (simp add: dce_handle_mailbox_send_cmd_sync_def mb_lock_def dce_mailbox_write_safe_def smb_read_ok)
  moreover have "mb_lock i (set_mb i (m\<lparr>mb_locked := True\<rparr>) d) = None"
    using l by (simp add: mb_lock_def)
  ultimately show ?thesis
    by (simp add: dce_handle_mailbox_send_cmd_sync_def dce_mailbox_store_interface_status_def
        dce_mailbox_set_full_interrupt_def)
qed

theorem mailbox_send_busy_keeps_lock_witness:
  "\<exists>d'. dce_handle_mailbox_send_cmd_sync (\<lambda>f d. Some (OK, d)) 5 0 (dce_probe () \<lparr>dce_regs := (\<lambda>r. DCE_BIT 31)\<rparr>) =
      Some (Inl EPERM, d') \<and> dce_mailbox_store_interface_status 0 0 d' = None"
proof -
  let ?d = "dce_probe () \<lparr>dce_regs := (\<lambda>r. DCE_BIT 31)\<rparr>"
  have a: "hsp_ok ?d" "get_mb 0 ?d = Some zero_mb" "\<not> mb_locked zero_mb" "s_mb zero_mb < 8"
    "dce_regs ?d (smb_reg (s_mb zero_mb)) AND DCE_BIT 31 \<noteq> 0"
    by (simp_all add: hsp_ok_def dce_probe_def get_mb_def zero_mb_def DCE_BIT_def)
  from mailbox_send_busy_keeps_lock [OF a, of "\<lambda>f d. Some (OK, d)" 5 5 0] show ?thesis by blast
qed

text \<open>The interrupt routine takes the word from exactly the receive mailboxes whose interrupt is
  raised and enabled: it clears the register, stores the word as the interface's status and calls its
  notifier with the interface's data; an interface whose interrupt is not raised is left alone.\<close>

theorem mailbox_isr_takes_word:
  assumes "hsp_ok d" and "get_mb i d = Some m" and "\<not> mb_locked m" and "r_mb m < 8" and "mb_notifyf m = Some f"
  shows "mailbox_isr_turn nf irq i d =
    (if bit irq (unat (r_mb m) + 8)
     then nf f (notify_data m)
       (set_mb i (m\<lparr>ack_value := dce_regs d (smb_reg (r_mb m)), mb_valid := True, mb_locked := False\<rparr>)
         (dce_writel (smb_reg (r_mb m)) 0 d))
     else Some d)"
proof -
  have l: "i < length (d_mb d)" by (rule get_mb_length [OF assms(2)])
  have b: "irq AND push_bit k 1 = 0 \<longleftrightarrow> \<not> bit irq k" if "k < 32" for k
    using that by (metis and_exp_eq_0_iff_not_bit push_bit_of_1)
  have k: "unat (r_mb m) + 8 < 32" using assms(4) by (simp add: word_less_nat_alt)
  have g: "get_mb i (dce_writel r v d) = Some m" for r v using assms(2) by simp
  show ?thesis
    using assms(1-3,5) b [OF k]
    by (simp add: mailbox_isr_turn_def smb_read_ok smb_set_ok assms(4) store_status_eq [OF g assms(3)])
qed

theorem mailbox_isr_takes_word_witness:
  "mailbox_isr_turn (\<lambda>f p d. Some d) 0x8000 0
     (set_mb 0 (zero_mb\<lparr>r_mb := 7, mb_notifyf := Some Boot_interface_isr\<rparr>) (dce_probe () \<lparr>dce_regs := (\<lambda>r. 42)\<rparr>)) =
   Some (set_mb 0 (zero_mb\<lparr>r_mb := 7, mb_notifyf := Some Boot_interface_isr, ack_value := 42, mb_valid := True\<rparr>)
     (dce_writel 0x198000 0 (dce_probe () \<lparr>dce_regs := (\<lambda>r. 42)\<rparr>)))"
proof -
  let ?m = "zero_mb\<lparr>r_mb := 7, mb_notifyf := Some Boot_interface_isr\<rparr>"
  let ?d = "set_mb 0 ?m (dce_probe () \<lparr>dce_regs := (\<lambda>r. 42)\<rparr>)"
  have a: "hsp_ok ?d" "get_mb 0 ?d = Some ?m" "\<not> mb_locked ?m" "r_mb ?m < 8" "mb_notifyf ?m = Some Boot_interface_isr"
    by (simp_all add: hsp_ok_def dce_probe_def zero_mb_def get_mb_def set_mb_def)
  have r: "smb_reg 7 = 0x198000" by (simp add: smb_reg_def smb_regs_def row0_def)
  have "bit (0x8000 :: u32) (unat (7 :: u8) + 8)" by simp
  with mailbox_isr_takes_word [OF a, of "\<lambda>f p d. Some d" "0x8000"] show ?thesis
    by (simp add: r set_mb_def dce_writel_def dce_probe_def zero_mb_def)
qed

end
