(* ===== verification/Dce_Signal.thy ===== *)
theory Dce_Signal imports Dce_Mailbox begin

text \<open>
  Signalling between the channels and the mailboxes (\<open>dce-ipc-signal.c\<close>).  Signal instances are structs
  inside the static channel table, linked through \<open>next\<close> when they share a mailbox; a pointer is a
  \<open>sig_ptr\<close>.  The walk along a chain is given eight steps, one per instance in the table: a walk that
  needs more has come back to an instance it has seen and never ends, which is \<open>None\<close>.
\<close>

section \<open>Signal instances\<close>

definition DCE_NUM_SEMA_REGS :: u32 where "DCE_NUM_SEMA_REGS = 4"
definition DCE_NUM_MBOX_REGS :: u32 where "DCE_NUM_MBOX_REGS = 8"

definition get_ch :: "nat \<Rightarrow> 'v tegra_dce \<Rightarrow> 'v dce_ipc_channel option" where
  "get_ch i d = (if i < length (ivc_channels d) then Some (ivc_channels d ! i) else None)"

definition set_ch :: "nat \<Rightarrow> 'v dce_ipc_channel \<Rightarrow> 'v tegra_dce \<Rightarrow> 'v tegra_dce" where
  "set_ch i c d = d\<lparr>ivc_channels := (ivc_channels d)[i := c]\<rparr>"

fun sig_chan :: "sig_ptr \<Rightarrow> nat" where
  "sig_chan (Sig_to i) = i"
| "sig_chan (Sig_from i) = i"

fun get_sig :: "sig_ptr \<Rightarrow> 'v tegra_dce \<Rightarrow> dce_ipc_signal_instance option" where
  "get_sig (Sig_to i) d = map_option to_d (get_ch i d)"
| "get_sig (Sig_from i) d = map_option from_d (get_ch i d)"

section \<open>Notifying the peer\<close>

definition dce_ipc_mbox_notify :: "sig_ptr option \<Rightarrow> 'v tegra_dce \<Rightarrow> 'v tegra_dce option" where
  "dce_ipc_mbox_notify p d =
     (case p of
        None \<Rightarrow> Some d
      | Some p \<Rightarrow> do {
          s \<leftarrow> get_sig p d;
          d \<leftarrow> (if sema_num s < DCE_NUM_SEMA_REGS then dce_ss_set (ucast (sema_bit s)) (ucast (sema_num s)) d else Some d);
          dce_mailbox_set_full_interrupt (unat (mb_type s)) d })"

section \<open>Being notified\<close>

text \<open>\<open>handle\<close> is \<open>dce_admin_ipc_handle_signal\<close>, called with the channel's type, which is its index in the
  table.  The semaphore is cleared with the arguments the code passes: the semaphore number for the bit
  and the bit mask for the semaphore number.\<close>

definition sig_turn :: "(nat \<Rightarrow> 'v tegra_dce \<Rightarrow> 'v tegra_dce option) \<Rightarrow> sig_ptr \<Rightarrow> 'v tegra_dce \<Rightarrow> 'v tegra_dce option" where
  "sig_turn handle p d = do {
     s \<leftarrow> get_sig p d;
     pending \<leftarrow> (if sema_num s < DCE_NUM_SEMA_REGS
        then do { v \<leftarrow> dce_ss_get_state (ucast (sema_num s)) d; Some (v AND push_bit (unat (sema_bit s)) 1 \<noteq> 0) }
        else Some True);
     if \<not> pending then Some d
     else do {
       d \<leftarrow> dce_ss_clear (ucast (sema_num s)) (push_bit (unat (sema_bit s)) 1) d;
       c \<leftarrow> get_ch (sig_chan p) d;
       if sig_linked s \<and> sig_ch c then handle (sig_chan p) d else None } }"

fun sig_walk ::
  "nat \<Rightarrow> (nat \<Rightarrow> 'v tegra_dce \<Rightarrow> 'v tegra_dce option) \<Rightarrow> sig_ptr option \<Rightarrow> 'v tegra_dce \<Rightarrow> 'v tegra_dce option" where
  "sig_walk n handle None d = Some d"
| "sig_walk 0 handle (Some p) d = None"
| "sig_walk (Suc n) handle (Some p) d = do {
     d \<leftarrow> sig_turn handle p d;
     s \<leftarrow> get_sig p d;
     sig_walk n handle (sig_next s) d }"

definition dce_ipc_mbox_handle_signal ::
  "(nat \<Rightarrow> 'v tegra_dce \<Rightarrow> 'v tegra_dce option) \<Rightarrow> sig_ptr option \<Rightarrow> 'v tegra_dce \<Rightarrow> 'v tegra_dce option" where
  "dce_ipc_mbox_handle_signal handle data d =
     (case data of
        None \<Rightarrow> Some d
      | Some p \<Rightarrow> do {
          s \<leftarrow> get_sig p d;
          c \<leftarrow> get_ch (sig_chan p) d;
          if \<not> sig_linked s \<or> \<not> sig_ch c \<or> DCE_NUM_MBOX_REGS < mb_num s then Some d
          else sig_walk 8 handle (Some p) d })"

section \<open>Setting signals up and down\<close>

definition set_mb_signal :: "u32 \<Rightarrow> sig_ptr \<Rightarrow> 'v tegra_dce \<Rightarrow> 'v tegra_dce option" where
  "set_mb_signal i p d =
     (if length (mb_signals d) \<le> unat i then None else Some (d\<lparr>mb_signals := (mb_signals d)[unat i := Some p]\<rparr>))"

definition dce_ipc_init_signaling :: "nat \<Rightarrow> 'v tegra_dce \<Rightarrow> (ret \<times> 'v tegra_dce) option" where
  "dce_ipc_init_signaling i d = do {
     c \<leftarrow> get_ch i d;
     let c = c\<lparr>sig_ch := True\<rparr>;
     let d = set_ch i c d;
     if mb_type (to_d c) \<noteq> mb_type (from_d c) then Some (Inl EPERM, d)
     else do {
       let to_mbox = mb_num (to_d c);
       let from_mbox = mb_num (from_d c);
       let c = c\<lparr>to_d := (to_d c)\<lparr>sig_linked := True\<rparr>\<rparr>;
       let c = (if sig_mailbox (to_d c) then c\<lparr>sig_notify := True\<rparr> else c);
       d \<leftarrow> (if sig_mailbox (to_d c) then set_mb_signal to_mbox (Sig_to i) (set_ch i c d) else Some (set_ch i c d));
       let c = c\<lparr>from_d := (from_d c)\<lparr>sig_linked := True\<rparr>\<rparr>;
       if sig_mailbox (from_d c) \<and> (sig_next (from_d c) \<noteq> None \<or> DCE_NUM_MBOX_REGS \<le> from_mbox)
       then Some (Inl EPERM, set_ch i c d)
       else do {
         let c = (if sig_mailbox (from_d c) \<and> mb_signals d ! unat from_mbox \<noteq> None
                  then c\<lparr>from_d := (from_d c)\<lparr>sig_next := mb_signals d ! unat from_mbox\<rparr>\<rparr> else c);
         d \<leftarrow> (if sig_mailbox (from_d c) then set_mb_signal from_mbox (Sig_from i) (set_ch i c d) else Some (set_ch i c d));
         dce_mailbox_init_interface (unat (mb_type (to_d c))) (ucast to_mbox) (ucast from_mbox) None
           (Some (Sig_from i)) (Some Ipc_mbox_handle_signal) d } } }"

definition dce_ipc_deinit_signaling :: "nat \<Rightarrow> 'v tegra_dce \<Rightarrow> 'v tegra_dce option" where
  "dce_ipc_deinit_signaling i d = do {
     c \<leftarrow> get_ch i d;
     if mb_type (to_d c) \<noteq> mb_type (from_d c) then Some d
     else do {
       d \<leftarrow> dce_mailbox_deinit_interface (unat (mb_type (to_d c))) d;
       Some (set_ch i (c\<lparr>sig_ch := False\<rparr>) d) } }"

section \<open>Chains\<close>

lemma get_ch_length: "get_ch i d = Some c \<Longrightarrow> i < length (ivc_channels d)"
  by (simp add: get_ch_def split: if_split_asm)

lemma get_set_ch [simp]: "i < length (ivc_channels d) \<Longrightarrow> get_ch i (set_ch i c d) = Some c"
  by (simp add: get_ch_def set_ch_def)

text \<open>The next pointers are not changed by a turn whose handler does not change them, so a node that is
  its own successor keeps the walk going for any number of steps.\<close>

lemma sig_walk_loops:
  assumes "\<And>d. P d \<Longrightarrow> \<exists>s. get_sig p d = Some s \<and> sig_next s = Some p"
    and "\<And>d d'. P d \<Longrightarrow> sig_turn handle p d = Some d' \<Longrightarrow> P d'" and "P d"
  shows "sig_walk n handle (Some p) d = None"
  using assms(3)
proof (induction n arbitrary: d)
  case 0
  then show ?case by simp
next
  case (Suc n)
  show ?case
  proof (cases "sig_turn handle p d")
    case None
    then show ?thesis by simp
  next
    case (Some d')
    then have "P d'" using assms(2) Suc.prems by blast
    moreover obtain s where "get_sig p d' = Some s" "sig_next s = Some p" using assms(1) [OF \<open>P d'\<close>] by blast
    ultimately show ?thesis using Some Suc.IH by simp
  qed
qed

lemma get_sig_writel [simp]: "get_sig p (dce_writel r v d) = get_sig p d" "get_ch i (dce_writel r v d) = get_ch i d"
  by (cases p; simp add: get_ch_def)+

text \<open>A turn without a handler effect on the table leaves the table alone.\<close>

lemma ss_clear_channels: "dce_ss_clear b i d = Some d' \<Longrightarrow> ivc_channels d' = ivc_channels d"
  by (auto simp: dce_ss_clear_def bind_eq_Some_conv split: if_split_asm)

lemma sig_turn_channels:
  assumes "\<And>i d d'. handle i d = Some d' \<Longrightarrow> ivc_channels d' = ivc_channels d"
    and "sig_turn handle p d = Some d'"
  shows "ivc_channels d' = ivc_channels d"
  using assms(2)
  by (auto simp: sig_turn_def bind_eq_Some_conv split: if_split_asm dest!: ss_clear_channels assms(1))

text \<open>Initialising the signalling of a channel whose instance is not yet chained to anything.\<close>

definition signal_set_up :: "nat \<Rightarrow> 'v dce_ipc_channel \<Rightarrow> 'v tegra_dce \<Rightarrow> 'v tegra_dce" where
  "signal_set_up i c d =
     d\<lparr>mb_signals := (mb_signals d)[unat (mb_num (to_d c)) := Some (Sig_to i), unat (mb_num (from_d c)) := Some (Sig_from i)],
       ivc_channels := (ivc_channels d)[i := c\<lparr>sig_ch := True, sig_notify := True, to_d := (to_d c)\<lparr>sig_linked := True\<rparr>,
         from_d := (from_d c)\<lparr>sig_linked := True, sig_next := mb_signals d ! unat (mb_num (from_d c))\<rparr>\<rparr>]\<rparr>"

lemma init_signaling_eq:
  assumes "get_ch i d = Some c" and "mb_type (to_d c) = mb_type (from_d c)" and "sig_mailbox (from_d c)" "sig_mailbox (to_d c)"
    and "sig_next (from_d c) = None" and "mb_num (from_d c) < 8" "mb_num (to_d c) < 8" "length (mb_signals d) = 8"
    and "mb_num (from_d c) \<noteq> mb_num (to_d c)"
  shows "dce_ipc_init_signaling i d =
    dce_mailbox_init_interface (unat (mb_type (to_d c))) (ucast (mb_num (to_d c))) (ucast (mb_num (from_d c))) None
      (Some (Sig_from i)) (Some Ipc_mbox_handle_signal) (signal_set_up i c d)"
proof -
  have u: "unat (mb_num (from_d c)) < 8" "unat (mb_num (to_d c)) < 8" using assms(6,7) by (simp_all add: word_less_nat_alt)
  have ne: "unat (mb_num (to_d c)) \<noteq> unat (mb_num (from_d c))" using assms(9) by (simp add: word_unat_eq_iff)
  have nl: "\<not> DCE_NUM_MBOX_REGS \<le> mb_num (from_d c)" using assms(6) by (simp add: DCE_NUM_MBOX_REGS_def not_le)
  have cm: "d\<lparr>ivc_channels := a, mb_signals := b\<rparr> = d\<lparr>mb_signals := b, ivc_channels := a\<rparr>" for a b by simp
  have cc: "c\<lparr>sig_ch := True, to_d := x, sig_notify := True, from_d := y\<rparr> =
    c\<lparr>sig_ch := True, sig_notify := True, to_d := x, from_d := y\<rparr>" for x y by simp
  show ?thesis
  proof (cases "mb_signals d ! unat (mb_num (from_d c))")
    case None
    have same: "from_d c\<lparr>sig_linked := True, sig_next := None\<rparr> = from_d c\<lparr>sig_linked := True\<rparr>"
      using assms(5) by (cases "from_d c") simp
    from None show ?thesis using assms(1-5,8) u ne nl
      by (simp add: same cm cc dce_ipc_init_signaling_def set_mb_signal_def set_ch_def signal_set_up_def Let_def)
  next
    case (Some p)
    then show ?thesis using assms(1-5,8) u ne nl
      by (simp add: cm cc dce_ipc_init_signaling_def set_mb_signal_def set_ch_def signal_set_up_def Let_def)
  qed
qed

lemma smb_set_full_ie_keeps:
  "dce_smb_set_full_ie en i d = Some d' \<Longrightarrow> ivc_channels d' = ivc_channels d \<and> mb_signals d' = mb_signals d"
  by (auto simp: dce_smb_set_full_ie_def bind_eq_Some_conv split: if_split_asm)

lemma hsp_ie_write_keeps:
  "dce_hsp_ie_write v i d = Some d' \<Longrightarrow> ivc_channels d' = ivc_channels d \<and> mb_signals d' = mb_signals d"
  by (auto simp: dce_hsp_ie_write_def bind_eq_Some_conv split: if_split_asm)

lemma set_mb_signals [simp]: "mb_signals (set_mb i m d) = mb_signals d"
  by (simp add: set_mb_def)

lemma mailbox_init_channels:
  assumes "dce_mailbox_init_interface a b e f g h d = Some (r, d')"
  shows "ivc_channels d' = ivc_channels d" and "mb_signals d' = mb_signals d"
  using assms
  by (auto simp: dce_mailbox_init_interface_def bind_eq_Some_conv dest!: smb_set_full_ie_keeps hsp_ie_write_keeps)

text \<open>The condition under which a channel of the static table is set up.\<close>

definition signal_fresh :: "nat \<Rightarrow> 'v dce_ipc_channel \<Rightarrow> 'v tegra_dce \<Rightarrow> bool" where
  "signal_fresh i c d \<longleftrightarrow> get_ch i d = Some c \<and> mb_type (to_d c) = mb_type (from_d c) \<and>
     sig_mailbox (from_d c) \<and> sig_mailbox (to_d c) \<and> sig_next (from_d c) = None \<and> mb_num (from_d c) < 8 \<and>
     mb_num (to_d c) < 8 \<and> mb_num (from_d c) \<noteq> mb_num (to_d c) \<and> length (mb_signals d) = 8"

lemma init_signaling_fresh:
  assumes "signal_fresh i c d" and "dce_ipc_init_signaling i d = Some (r, d')"
  obtains c' where "get_ch i d' = Some c'"
    and "c' = c\<lparr>sig_ch := True, sig_notify := True, to_d := (to_d c)\<lparr>sig_linked := True\<rparr>,
         from_d := (from_d c)\<lparr>sig_linked := True, sig_next := mb_signals d ! unat (mb_num (from_d c))\<rparr>\<rparr>"
    and "mb_signals d' ! unat (mb_num (from_d c)) = Some (Sig_from i)" and "length (mb_signals d') = 8"
proof -
  have l: "i < length (ivc_channels d)" using assms(1) get_ch_length by (auto simp: signal_fresh_def)
  have u: "unat (mb_num (from_d c)) < 8" using assms(1) by (simp add: signal_fresh_def word_less_nat_alt)
  have "dce_mailbox_init_interface (unat (mb_type (to_d c))) (ucast (mb_num (to_d c))) (ucast (mb_num (from_d c))) None
      (Some (Sig_from i)) (Some Ipc_mbox_handle_signal) (signal_set_up i c d) = Some (r, d')"
    using assms init_signaling_eq [of i d c] by (simp add: signal_fresh_def)
  from mailbox_init_channels [OF this] show ?thesis
    using l u assms(1) by (intro that) (auto simp: signal_set_up_def get_ch_def signal_fresh_def)
qed

section \<open>Properties\<close>

text \<open>C28: a channel set up once delivers a mailbox signal in one turn.  Set up, torn down and set up again,
  its instance follows itself in the chain, because the table of mailbox signals still names it: the
  next interrupt on its mailbox never leaves the walk, whatever number of steps it is given.\<close>

theorem signal_reinit_loops:
  assumes "signal_fresh i c d" and "mb_signals d ! unat (mb_num (from_d c)) = None"
    and "dce_ipc_init_signaling i d = Some (r1, d1)" and "dce_ipc_deinit_signaling i d1 = Some d2"
    and "dce_ipc_init_signaling i d2 = Some (r2, d3)"
    and handle: "\<And>j e e'. handle j e = Some e' \<Longrightarrow> ivc_channels e' = ivc_channels e"
  shows "dce_ipc_mbox_handle_signal handle (Some (Sig_from i)) d1 = sig_turn handle (Sig_from i) d1 \<and>
    dce_ipc_mbox_handle_signal handle (Some (Sig_from i)) d3 = None \<and>
    (\<forall>n. sig_walk n handle (Some (Sig_from i)) d3 = None)"
proof (intro conjI allI)
  obtain c1 where c1: "get_ch i d1 = Some c1"
    "c1 = c\<lparr>sig_ch := True, sig_notify := True, to_d := (to_d c)\<lparr>sig_linked := True\<rparr>,
         from_d := (from_d c)\<lparr>sig_linked := True, sig_next := mb_signals d ! unat (mb_num (from_d c))\<rparr>\<rparr>"
    "mb_signals d1 ! unat (mb_num (from_d c)) = Some (Sig_from i)" "length (mb_signals d1) = 8"
    by (rule init_signaling_fresh [OF assms(1,3)])
  have one: "sig_walk 8 handle (Some (Sig_from i)) d1 = sig_turn handle (Sig_from i) d1"
  proof (cases "sig_turn handle (Sig_from i) d1")
    case None
    then show ?thesis by (simp add: eval_nat_numeral)
  next
    case (Some d')
    have "ivc_channels d' = ivc_channels d1" by (rule sig_turn_channels [OF handle Some])
    then have "get_ch i d' = get_ch i d1" by (simp add: get_ch_def)
    then have "get_ch i d' = Some c1" using c1(1) by simp
    then show ?thesis using Some c1(2) assms(2) by (simp add: eval_nat_numeral)
  qed
  have nb: "\<not> DCE_NUM_MBOX_REGS < mb_num (from_d c)"
    using assms(1) by (auto simp: signal_fresh_def DCE_NUM_MBOX_REGS_def word_less_nat_alt)
  show "dce_ipc_mbox_handle_signal handle (Some (Sig_from i)) d1 = sig_turn handle (Sig_from i) d1"
    using one c1(1,2) nb by (simp add: dce_ipc_mbox_handle_signal_def)
  have d2: "get_ch i d2 = Some (c1\<lparr>sig_ch := False\<rparr>)" "mb_signals d2 = mb_signals d1"
    using assms(1,4) c1 get_ch_length [OF c1(1)]
    by (auto simp: dce_ipc_deinit_signaling_def dce_mailbox_deinit_interface_def bind_eq_Some_conv signal_fresh_def
        set_ch_def get_ch_def split: if_split_asm)
  have "signal_fresh i (c1\<lparr>sig_ch := False\<rparr>) d2"
    using assms(1,2) d2 c1(2,4) by (simp add: signal_fresh_def)
  then obtain c3 where c3: "get_ch i d3 = Some c3" "sig_next (from_d c3) = Some (Sig_from i)" "sig_ch c3"
      "sig_linked (from_d c3)" "mb_num (from_d c3) = mb_num (from_d c)"
    using assms(5) d2(2) c1(2,3) by (elim init_signaling_fresh) auto
  show loop: "sig_walk n handle (Some (Sig_from i)) d3 = None" for n
  proof (rule sig_walk_loops [where P = "\<lambda>e. ivc_channels e = ivc_channels d3"])
    show "\<exists>s. get_sig (Sig_from i) e = Some s \<and> sig_next s = Some (Sig_from i)" if "ivc_channels e = ivc_channels d3" for e
      using c3(1,2) that by (auto simp: get_ch_def split: if_split_asm)
    show "ivc_channels e' = ivc_channels d3" if "ivc_channels e = ivc_channels d3" "sig_turn handle (Sig_from i) e = Some e'" for e e'
      using sig_turn_channels [OF handle that(2)] that(1) by simp
  qed simp
  show "dce_ipc_mbox_handle_signal handle (Some (Sig_from i)) d3 = None"
    using c3 nb loop [of 8] by (simp add: dce_ipc_mbox_handle_signal_def)
qed

theorem signal_reinit_loops_witness:
  "\<exists>r1 d1 d2 r2 d3. dce_ipc_init_signaling 0 (dce_probe ()) = Some (r1, d1) \<and> dce_ipc_deinit_signaling 0 d1 = Some d2 \<and>
     dce_ipc_init_signaling 0 d2 = Some (r2, d3) \<and>
     dce_ipc_mbox_handle_signal (\<lambda>i d. Some d) (Some (Sig_from 0)) d3 = None"
proof -
  let ?c = "ivc_channel 0 1 5 4 4 2048 ()"
  have f: "signal_fresh 0 ?c (dce_probe ())" "mb_signals (dce_probe ()) ! unat (mb_num (from_d ?c)) = None"
    by (simp_all add: signal_fresh_def get_ch_def dce_probe_def ivc_channels0_def ivc_channel_def sig_inst_def)
  have "\<exists>r1 d1 d2 r2 d3. dce_ipc_init_signaling 0 (dce_probe ()) = Some (r1, d1) \<and>
      dce_ipc_deinit_signaling 0 d1 = Some d2 \<and> dce_ipc_init_signaling 0 d2 = Some (r2, d3)"
    by (simp add: dce_ipc_init_signaling_def dce_ipc_deinit_signaling_def dce_mailbox_deinit_interface_def
        dce_mailbox_init_interface_def get_ch_def set_ch_def set_mb_signal_def get_mb_def set_mb_def dce_probe_def
        ivc_channels0_def ivc_channel_def sig_inst_def dce_smb_set_full_ie_def dce_hsp_ie_write_def smb_full_ie_regs_def
        hsp_int_ie_regs_def row0_def DCE_consts CCPLEX_HSP_IE_def dce_writel_def dce_readl_def DCE_NUM_MBOX_REGS_def Let_def)
  then obtain r1 d1 d2 r2 d3 where e: "dce_ipc_init_signaling 0 (dce_probe ()) = Some (r1, d1)"
      "dce_ipc_deinit_signaling 0 d1 = Some d2" "dce_ipc_init_signaling 0 d2 = Some (r2, d3)" by blast
  have "dce_ipc_mbox_handle_signal (\<lambda>i d. Some d) (Some (Sig_from 0)) d3 = None"
    using signal_reinit_loops [OF f e, of "\<lambda>i d. Some d"] by simp
  with e show ?thesis by blast
qed

end
