(* ===== verification/Dce_Client.thy ===== *)
theory Dce_Client imports Dce_Signal begin

text \<open>
  The clients of the driver (\<open>dce-client-ipc.c\<close>): the three client slots with their handles, their
  registration, the wake-ups on channel signals, and the pool of eight work items for asynchronous
  events.  A client is identified by its slot; \<open>d_clients\<close> maps a client type to the slot that serves it.
\<close>

section \<open>Handles\<close>

definition DCE_CLIENT_IPC_TYPE_RM_EVENT :: nat where "DCE_CLIENT_IPC_TYPE_RM_EVENT = 2"
definition DCE_CLIENT_IPC_TYPE_MAX :: nat where "DCE_CLIENT_IPC_TYPE_MAX = 3"
definition DCE_CLIENT_IPC_HANDLE_VALID :: u32 where "DCE_CLIENT_IPC_HANDLE_VALID = DCE_BIT 31"
definition DCE_MAX_ASYNC_WORK :: nat where "DCE_MAX_ASYNC_WORK = 8"

definition dce_interface_type_map :: "u32 list" where "dce_interface_type_map = [1, 2, 3]"

fun type_index :: "u32 \<Rightarrow> u32 list \<Rightarrow> nat" where
  "type_index t [] = 0"
| "type_index t (x # xs) = (if x = t then 0 else Suc (type_index t xs))"

definition dce_client_get_type :: "u32 \<Rightarrow> nat" where
  "dce_client_get_type int_type = type_index int_type dce_interface_type_map"

definition client_handle_to_index :: "u32 \<Rightarrow> u32" where
  "client_handle_to_index handle = handle AND NOT DCE_CLIENT_IPC_HANDLE_VALID"

definition is_client_handle_valid :: "u32 \<Rightarrow> bool" where
  "is_client_handle_valid handle \<longleftrightarrow> handle AND DCE_CLIENT_IPC_HANDLE_VALID \<noteq> 0 \<and>
     \<not> DCE_CLIENT_IPC_TYPE_MAX \<le> unat (client_handle_to_index handle)"

definition dce_client_ipc_lookup_handle :: "u32 \<Rightarrow> nat option" where
  "dce_client_ipc_lookup_handle handle =
     (if \<not> is_client_handle_valid handle then None else Some (unat (client_handle_to_index handle)))"

fun first_free :: "dce_client list \<Rightarrow> nat option" where
  "first_free [] = None"
| "first_free (c # cs) = (if \<not> cl_valid c then Some 0 else map_option Suc (first_free cs))"

definition dce_client_ipc_handle_alloc :: "'v tegra_dce \<Rightarrow> (errno + u32) \<times> 'v tegra_dce" where
  "dce_client_ipc_handle_alloc d =
     (case first_free (client_handles d) of
        None \<Rightarrow> (Inl EPERM, d)
      | Some i \<Rightarrow> (Inr (of_nat i OR DCE_CLIENT_IPC_HANDLE_VALID),
          d\<lparr>client_handles := (client_handles d)[i := (client_handles d ! i)\<lparr>cl_valid := True\<rparr>]\<rparr>))"

text \<open>\<open>None\<close>: the slot's device pointer is null, or its type is not an index of \<open>d_clients\<close>.\<close>

definition dce_client_ipc_handle_free :: "nat option \<Rightarrow> 'v tegra_dce \<Rightarrow> (ret \<times> 'v tegra_dce) option" where
  "dce_client_ipc_handle_free p d =
     (case p of
        None \<Rightarrow> Some (Inl EINVAL, d)
      | Some i \<Rightarrow>
          let cl = client_handles d ! i
          in if \<not> cl_valid cl then Some (Inl EINVAL, d)
             else if \<not> cl_d cl \<or> length (d_clients d) \<le> unat (cl_type cl) then None
             else Some (OK, d\<lparr>d_clients := (d_clients d)[unat (cl_type cl) := None],
                              client_handles := (client_handles d)[i := zero_client]\<rparr>))"

section \<open>Registration\<close>

text \<open>\<open>dce_ipc_get_dce_from_ch\<close> of \<open>dce-ipc.c\<close>: whether the channel's device pointer is set.\<close>

definition dce_ipc_get_dce_from_ch :: "u32 \<Rightarrow> 'v tegra_dce \<Rightarrow> bool" where
  "dce_ipc_get_dce_from_ch typ d \<longleftrightarrow> unat typ < 4 \<and> ch_d (ivc_channels d ! unat typ)"

definition DCE_FW_BOOT_DONE :: u32 where "DCE_FW_BOOT_DONE = DCE_BIT 1"

definition dce_is_bootstrap_done :: "'v tegra_dce \<Rightarrow> bool" where
  "dce_is_bootstrap_done d \<longleftrightarrow> boot_status d AND DCE_FW_BOOT_DONE \<noteq> 0"

text \<open>\<open>boot_wait\<close> is what the rest of the system does while the caller waits for the bootstrap, and how
  that wait ends; a caller that finds it done does not wait.  The handle is the second result: 0, which is
  invalid, with every error, and \<open>None\<close> when nothing is stored.\<close>

definition tegra_dce_register_ipc_client ::
  "('v tegra_dce \<Rightarrow> ret \<times> 'v tegra_dce) \<Rightarrow> u32 \<Rightarrow> nat option \<Rightarrow> u64 \<Rightarrow> bool \<Rightarrow> 'v tegra_dce \<Rightarrow>
    (ret \<times> u32 option \<times> 'v tegra_dce) option" where
  "tegra_dce_register_ipc_client boot_wait typ callback_fn data handlep d =
     (if \<not> handlep then Some (Inl EINVAL, None, d)
      else if DCE_CLIENT_IPC_TYPE_MAX \<le> unat typ then Some (Inl EINVAL, None, d)
      else
        let int_type = dce_interface_type_map ! unat typ
        in if \<not> dce_ipc_get_dce_from_ch int_type d then Some (Inl EINVAL, Some 0, d)
           else
             (case (if dce_is_bootstrap_done d then (OK, d) else boot_wait d) of
                (Inl e, d) \<Rightarrow> Some (Inl e, Some 0, d)
              | (Inr _, d) \<Rightarrow>
                  (case dce_client_ipc_handle_alloc d of
                     (Inl e, d) \<Rightarrow> Some (Inl e, Some 0, d)
                   | (Inr handle, d) \<Rightarrow>
                       let i = unat (client_handle_to_index handle);
                           cl = (client_handles d ! i)\<lparr>cl_d := True, cl_type := typ, cl_data := data, cl_handle := handle,
                             cl_int_type := int_type, cl_callback := callback_fn, cl_complete := False, cl_valid := True\<rparr>
                       in Some (OK, Some handle,
                            d\<lparr>client_handles := (client_handles d)[i := cl],
                              d_clients := (d_clients d)[unat typ := Some i]\<rparr>))))"

definition tegra_dce_unregister_ipc_client :: "u32 \<Rightarrow> 'v tegra_dce \<Rightarrow> (ret \<times> 'v tegra_dce) option" where
  "tegra_dce_unregister_ipc_client handle d =
     (case dce_client_ipc_lookup_handle handle of
        None \<Rightarrow> Some (Inl EINVAL, d)
      | Some i \<Rightarrow>
          dce_client_ipc_handle_free (Some i)
            (d\<lparr>client_handles := (client_handles d)[i := (client_handles d ! i)\<lparr>cl_complete := False\<rparr>]\<rparr>))"

section \<open>Wake-ups\<close>

fun first_unused :: "bool list \<Rightarrow> nat option" where
  "first_unused [] = None"
| "first_unused (b # bs) = (if \<not> b then Some 0 else map_option Suc (first_unused bs))"

definition dce_client_schedule_event_work :: "'v tegra_dce \<Rightarrow> 'v tegra_dce" where
  "dce_client_schedule_event_work d =
     (case first_unused (async_in_use d) of
        None \<Rightarrow> d
      | Some i \<Rightarrow> d\<lparr>async_in_use := (async_in_use d)[i := True], async_queued := Suc (async_queued d)\<rparr>)"

definition dce_client_ipc_wakeup :: "u32 \<Rightarrow> 'v tegra_dce \<Rightarrow> 'v tegra_dce" where
  "dce_client_ipc_wakeup ch_typ d =
     (let typ = dce_client_get_type ch_typ
      in if typ = DCE_CLIENT_IPC_TYPE_MAX then d
         else
           (case d_clients d ! typ of
              None \<Rightarrow> d
            | Some i \<Rightarrow>
                let cl = client_handles d ! i
                in if \<not> cl_valid cl \<or> cl_int_type cl \<noteq> ch_typ then d
                   else if typ = DCE_CLIENT_IPC_TYPE_RM_EVENT then dce_client_schedule_event_work d
                   else d\<lparr>client_handles := (client_handles d)[i := cl\<lparr>cl_complete := True\<rparr>]\<rparr>))"

definition dce_client_init :: "'v tegra_dce \<Rightarrow> ret \<times> 'v tegra_dce" where
  "dce_client_init d = (OK, d\<lparr>async_in_use := replicate DCE_MAX_ASYNC_WORK False\<rparr>)"

section \<open>Invariant\<close>

text \<open>Every valid slot is complete, and a type is only ever served by a valid slot of that type.\<close>

definition clients_ok :: "'v tegra_dce \<Rightarrow> bool" where
  "clients_ok d \<longleftrightarrow> length (client_handles d) = 3 \<and> length (d_clients d) = 3 \<and>
     (\<forall>i < 3. cl_valid (client_handles d ! i) \<longrightarrow>
        cl_d (client_handles d ! i) \<and> unat (cl_type (client_handles d ! i)) < 3 \<and>
        cl_handle (client_handles d ! i) = of_nat i OR DCE_CLIENT_IPC_HANDLE_VALID \<and>
        cl_int_type (client_handles d ! i) = dce_interface_type_map ! unat (cl_type (client_handles d ! i))) \<and>
     (\<forall>t < 3. \<forall>i. d_clients d ! t = Some i \<longrightarrow>
        i < 3 \<and> cl_valid (client_handles d ! i) \<and> unat (cl_type (client_handles d ! i)) = t)"

lemma first_free_some: "first_free cs = Some i \<Longrightarrow> i < length cs \<and> \<not> cl_valid (cs ! i)"
  by (induction cs arbitrary: i) (auto split: if_split_asm)

lemma first_free_none: "first_free cs = None \<Longrightarrow> \<forall>i < length cs. cl_valid (cs ! i)"
proof (induction cs)
  case Nil
  then show ?case by simp
next
  case (Cons c cs)
  then have "cl_valid c" "first_free cs = None" by (simp_all split: if_split_asm)
  with Cons.IH show ?case by (auto simp: less_Suc_eq_0_disj)
qed

lemma handle_index:
  assumes "i < 3"
  shows "unat (client_handle_to_index (of_nat i OR DCE_CLIENT_IPC_HANDLE_VALID)) = i"
    and "is_client_handle_valid (of_nat i OR DCE_CLIENT_IPC_HANDLE_VALID)"
proof -
  have "i = 0 \<or> i = 1 \<or> i = 2" using assms by linarith
  then show a: "unat (client_handle_to_index (of_nat i OR DCE_CLIENT_IPC_HANDLE_VALID)) = i"
    by (auto simp: client_handle_to_index_def DCE_CLIENT_IPC_HANDLE_VALID_def DCE_BIT_def)
  have "(of_nat i OR DCE_CLIENT_IPC_HANDLE_VALID) AND DCE_CLIENT_IPC_HANDLE_VALID = DCE_CLIENT_IPC_HANDLE_VALID"
    by (rule bit_word_eqI) (auto simp: bit_simps)
  moreover have "DCE_CLIENT_IPC_HANDLE_VALID \<noteq> 0" by (simp add: DCE_CLIENT_IPC_HANDLE_VALID_def DCE_BIT_def)
  ultimately show "is_client_handle_valid (of_nat i OR DCE_CLIENT_IPC_HANDLE_VALID)"
    using a assms by (simp add: is_client_handle_valid_def DCE_CLIENT_IPC_TYPE_MAX_def)
qed

lemma lookup_handle: "i < 3 \<Longrightarrow> dce_client_ipc_lookup_handle (of_nat i OR DCE_CLIENT_IPC_HANDLE_VALID) = Some i"
  using handle_index by (simp add: dce_client_ipc_lookup_handle_def)

lemma clients_ok_slot:
  assumes "clients_ok d" and "i < 3" and "unat t < 3" and "\<not> cl_valid (client_handles d ! i)"
  shows "clients_ok (d\<lparr>client_handles := (client_handles d)[i := \<lparr>cl_valid = True, cl_type = t,
      cl_handle = of_nat i OR DCE_CLIENT_IPC_HANDLE_VALID, cl_int_type = dce_interface_type_map ! unat t, cl_d = True,
      cl_complete = b, cl_callback = f, cl_data = x\<rparr>], d_clients := (d_clients d)[unat t := Some i]\<rparr>)"
  using assms unfolding clients_ok_def
  by (auto simp: nth_list_update)

lemma clients_ok_free:
  assumes "clients_ok d" and "i < 3" and "cl_valid (client_handles d ! i)" and "t = unat (cl_type (client_handles d ! i))"
  shows "clients_ok (d\<lparr>client_handles := (client_handles d)[i := zero_client], d_clients := (d_clients d)[t := None]\<rparr>)"
  unfolding clients_ok_def
proof (intro conjI allI impI)
  let ?d = "d\<lparr>client_handles := (client_handles d)[i := zero_client], d_clients := (d_clients d)[t := None]\<rparr>"
  show "length (client_handles ?d) = 3" "length (d_clients ?d) = 3" using assms(1) by (simp_all add: clients_ok_def)
  fix j :: nat
  assume j: "j < 3" "cl_valid (client_handles ?d ! j)"
  have "length (client_handles d) = 3" using assms(1) by (simp add: clients_ok_def)
  then have "j \<noteq> i" using j by (cases "j = i") (auto simp: zero_client_def)
  then have "client_handles ?d ! j = client_handles d ! j" by simp
  then show "cl_d (client_handles ?d ! j)" "unat (cl_type (client_handles ?d ! j)) < 3"
      "cl_handle (client_handles ?d ! j) = of_nat j OR DCE_CLIENT_IPC_HANDLE_VALID"
      "cl_int_type (client_handles ?d ! j) = dce_interface_type_map ! unat (cl_type (client_handles ?d ! j))"
    using assms(1) j unfolding clients_ok_def by auto
next
  let ?d = "d\<lparr>client_handles := (client_handles d)[i := zero_client], d_clients := (d_clients d)[t := None]\<rparr>"
  fix u j
  assume u: "u < (3 :: nat)" "d_clients ?d ! u = Some j"
  have len: "length (d_clients d) = 3" using assms(1) by (simp add: clients_ok_def)
  then have ut: "u \<noteq> t" using u by (cases "u = t") auto
  then have "d_clients d ! u = Some j" using u by simp
  with ut have "u \<noteq> t" "d_clients d ! u = Some j" by simp_all
  then have "j < 3 \<and> cl_valid (client_handles d ! j) \<and> unat (cl_type (client_handles d ! j)) = u" "j \<noteq> i"
    using assms u(1) unfolding clients_ok_def by auto
  then show "j < 3" "cl_valid (client_handles ?d ! j)" "unat (cl_type (client_handles ?d ! j)) = u" by simp_all
qed

lemma client_type_of_int: "t < 3 \<Longrightarrow> dce_client_get_type (dce_interface_type_map ! t) = t"
proof -
  assume "t < 3"
  then have "t = 0 \<or> t = 1 \<or> t = 2" by linarith
  then show ?thesis by (auto simp: dce_client_get_type_def dce_interface_type_map_def)
qed

section \<open>Properties\<close>

text \<open>Registering a client of a known type, once the channel has its device and the bootstrap is done,
  takes the first free slot: the handle leads back to it, the type's signals go to it and the other
  slots are untouched; with all three slots in use it fails with EPERM and hands out the invalid
  handle.\<close>

theorem client_register_takes_slot:
  assumes "clients_ok d" and "unat typ < 3" and "dce_ipc_get_dce_from_ch (dce_interface_type_map ! unat typ) d"
    and "dce_is_bootstrap_done d"
  shows "if \<forall>i < 3. cl_valid (client_handles d ! i)
    then tegra_dce_register_ipc_client w typ f x True d = Some (Inl EPERM, Some 0, d)
    else \<exists>h i d'. tegra_dce_register_ipc_client w typ f x True d = Some (OK, Some h, d') \<and>
      i < 3 \<and> \<not> cl_valid (client_handles d ! i) \<and> dce_client_ipc_lookup_handle h = Some i \<and>
      d_clients d' = (d_clients d)[unat typ := Some i] \<and>
      client_handles d' = (client_handles d)[i := client_handles d' ! i] \<and>
      cl_callback (client_handles d' ! i) = f \<and> cl_data (client_handles d' ! i) = x \<and> clients_ok d'"
proof -
  have len: "length (client_handles d) = 3" using assms(1) by (simp add: clients_ok_def)
  have t: "\<not> DCE_CLIENT_IPC_TYPE_MAX \<le> unat typ" using assms(2) by (simp add: DCE_CLIENT_IPC_TYPE_MAX_def)
  show ?thesis
  proof (cases "first_free (client_handles d)")
    case None
    then have "\<forall>i < 3. cl_valid (client_handles d ! i)" using first_free_none len by fastforce
    then show ?thesis using None assms t
      by (simp add: tegra_dce_register_ipc_client_def dce_client_ipc_handle_alloc_def Let_def)
  next
    case (Some i)
    then have i: "i < 3" "\<not> cl_valid (client_handles d ! i)" using first_free_some len by fastforce+
    let ?h = "of_nat i OR DCE_CLIENT_IPC_HANDLE_VALID"
    let ?cl = "\<lparr>cl_valid = True, cl_type = typ, cl_handle = ?h, cl_int_type = dce_interface_type_map ! unat typ,
      cl_d = True, cl_complete = False, cl_callback = f, cl_data = x\<rparr>"
    let ?d = "d\<lparr>client_handles := (client_handles d)[i := ?cl], d_clients := (d_clients d)[unat typ := Some i]\<rparr>"
    have cl: "(client_handles d ! i)\<lparr>cl_d := True, cl_type := typ, cl_data := x, cl_handle := ?h,
        cl_int_type := dce_interface_type_map ! unat typ, cl_callback := f, cl_complete := False, cl_valid := True\<rparr> = ?cl"
      by (cases "client_handles d ! i") simp
    have al: "dce_client_ipc_handle_alloc d =
        (Inr ?h, d\<lparr>client_handles := (client_handles d)[i := (client_handles d ! i)\<lparr>cl_valid := True\<rparr>]\<rparr>)"
      by (simp add: dce_client_ipc_handle_alloc_def Some)
    have ix: "unat (client_handle_to_index ?h) = i" by (rule handle_index(1) [OF i(1)])
    have set: "d\<lparr>client_handles := (client_handles d)[i := c], client_handles := e, d_clients := g\<rparr> =
        d\<lparr>client_handles := e, d_clients := g\<rparr>" for c e g by simp
    have "tegra_dce_register_ipc_client w typ f x True d = Some (OK, Some ?h, ?d)"
      unfolding tegra_dce_register_ipc_client_def Let_def if_not_P [OF t] using assms(3,4) i(1) len
      by (simp add: al ix) (simp flip: cl)
    moreover have "clients_ok ?d" by (rule clients_ok_slot [OF assms(1) i(1) assms(2) i(2)])
    ultimately show ?thesis using i len lookup_handle [OF i(1)] by auto
  qed
qed

text \<open>Unregistering a client frees its slot, and a second unregistration of the same handle is refused
  with EINVAL; but it also disconnects its type from whichever slot serves it: after two registrations
  of one type, unregistering the older handle leaves the newer client, still valid, without any wake-up
  for its channel.\<close>

theorem client_unregister_disconnects_type:
  assumes "clients_ok d" and "i < 3" and "cl_valid (client_handles d ! i)"
    and "t = unat (cl_type (client_handles d ! i))"
  shows "\<exists>d'. tegra_dce_unregister_ipc_client (cl_handle (client_handles d ! i)) d = Some (OK, d') \<and> clients_ok d' \<and>
    client_handles d' = (client_handles d)[i := zero_client] \<and> d_clients d' = (d_clients d)[t := None] \<and>
    dce_client_ipc_wakeup (dce_interface_type_map ! t) d' = d' \<and>
    tegra_dce_unregister_ipc_client (cl_handle (client_handles d ! i)) d' = Some (Inl EINVAL, d')"
proof -
  let ?h = "of_nat i OR DCE_CLIENT_IPC_HANDLE_VALID" and ?c = "client_handles d ! i"
  have ok: "length (client_handles d) = 3" "length (d_clients d) = 3" "cl_d ?c" "t < 3" "cl_handle ?c = ?h"
    using assms by (auto simp: clients_ok_def)
  let ?d = "d\<lparr>client_handles := (client_handles d)[i := zero_client], d_clients := (d_clients d)[t := None]\<rparr>"
  have un: "tegra_dce_unregister_ipc_client ?h d = Some (OK, ?d)"
    using assms(2-4) ok
    by (simp add: tegra_dce_unregister_ipc_client_def lookup_handle dce_client_ipc_handle_free_def)
  have "zero_client\<lparr>cl_complete := False\<rparr> = zero_client" by (simp add: zero_client_def)
  then have un2: "tegra_dce_unregister_ipc_client ?h ?d = Some (Inl EINVAL, ?d)"
    using assms(2) ok by (simp add: tegra_dce_unregister_ipc_client_def lookup_handle dce_client_ipc_handle_free_def)
      (simp add: zero_client_def)
  have inv: "clients_ok ?d" by (rule clients_ok_free [OF assms])
  have wk: "dce_client_ipc_wakeup (dce_interface_type_map ! t) ?d = ?d"
    using ok(2,4) by (simp add: dce_client_ipc_wakeup_def client_type_of_int DCE_CLIENT_IPC_TYPE_MAX_def)
  show ?thesis using un un2 inv wk unfolding ok(5) by (intro exI [of _ ?d]) simp
qed

text \<open>The probed device with its channels initialised and the bootstrap done.\<close>

definition booted_dce :: "unit tegra_dce" where
  "booted_dce = dce_probe () \<lparr>boot_status := DCE_FW_BOOT_DONE, ivc_channels := map (\<lambda>c. c\<lparr>ch_d := True\<rparr>) (ivc_channels0 ())\<rparr>"

lemma booted_clients_ok: "clients_ok booted_dce"
  by (simp add: clients_ok_def booted_dce_def dce_probe_def zero_client_def)

lemma booted_registers:
  assumes "unat typ < 3"
  shows "dce_ipc_get_dce_from_ch (dce_interface_type_map ! unat typ) booted_dce" and "dce_is_bootstrap_done booted_dce"
proof -
  have "unat typ = 0 \<or> unat typ = 1 \<or> unat typ = 2" using assms by linarith
  then show "dce_ipc_get_dce_from_ch (dce_interface_type_map ! unat typ) booted_dce"
    by (auto simp: dce_ipc_get_dce_from_ch_def dce_interface_type_map_def booted_dce_def dce_probe_def ivc_channels0_def)
  show "dce_is_bootstrap_done booted_dce"
    by (simp add: dce_is_bootstrap_done_def booted_dce_def dce_probe_def DCE_FW_BOOT_DONE_def DCE_BIT_def)
qed

theorem client_register_takes_slot_witness:
  "\<exists>h i d'. tegra_dce_register_ipc_client (\<lambda>d. (OK, d)) 2 (Some 1) 0 True booted_dce = Some (OK, Some h, d') \<and>
     dce_client_ipc_lookup_handle h = Some i"
proof -
  have "\<not> (\<forall>i < 3. cl_valid (client_handles booted_dce ! i))"
    by (simp add: booted_dce_def dce_probe_def zero_client_def) (rule exI [of _ 0], simp)
  with client_register_takes_slot [OF booted_clients_ok _ booted_registers, of "2 :: u32" "2 :: u32" "\<lambda>d. (OK, d)" "Some 1" 0]
  show ?thesis by auto
qed

theorem client_unregister_disconnects_type_witness:
  "\<exists>h1 d1 h2 d2 d3. tegra_dce_register_ipc_client (\<lambda>d. (OK, d)) 0 None 0 True booted_dce = Some (OK, Some h1, d1) \<and>
     tegra_dce_register_ipc_client (\<lambda>d. (OK, d)) 0 None 0 True d1 = Some (OK, Some h2, d2) \<and>
     tegra_dce_unregister_ipc_client h1 d2 = Some (OK, d3) \<and>
     cl_valid (client_handles d3 ! 1) \<and> dce_client_ipc_wakeup 1 d3 = d3"
proof -
  let ?h = "\<lambda>i. of_nat i OR DCE_CLIENT_IPC_HANDLE_VALID :: u32"
  let ?cl = "\<lambda>i. \<lparr>cl_valid = True, cl_type = 0, cl_handle = ?h i, cl_int_type = 1, cl_d = True, cl_complete = False,
    cl_callback = None, cl_data = 0\<rparr>"
  let ?d1 = "booted_dce\<lparr>client_handles := [?cl 0, zero_client, zero_client], d_clients := [Some 0, None, None]\<rparr>"
  let ?d2 = "booted_dce\<lparr>client_handles := [?cl 0, ?cl 1, zero_client], d_clients := [Some 1, None, None]\<rparr>"
  have b: "client_handles booted_dce = [zero_client, zero_client, zero_client]" "d_clients booted_dce = [None, None, None]"
    by (simp_all add: booted_dce_def dce_probe_def eval_nat_numeral)
  have reg: "dce_ipc_get_dce_from_ch 1 (booted_dce\<lparr>client_handles := a, d_clients := c\<rparr>)"
    "dce_is_bootstrap_done (booted_dce\<lparr>client_handles := a, d_clients := c\<rparr>)" for a c
    using booted_registers [of 0] by (simp_all add: dce_ipc_get_dce_from_ch_def dce_is_bootstrap_done_def dce_interface_type_map_def)
  have i: "unat (client_handle_to_index (?h 0)) = 0" "unat (client_handle_to_index (?h 1)) = 1" 
    using handle_index(1) [of 0] handle_index(1) [of 1] by simp_all
  have r1: "tegra_dce_register_ipc_client (\<lambda>d. (OK, d)) 0 None 0 True booted_dce = Some (OK, Some (?h 0), ?d1)"
    using booted_registers [of 0] i
    by (simp add: tegra_dce_register_ipc_client_def dce_client_ipc_handle_alloc_def b zero_client_def
        dce_interface_type_map_def DCE_CLIENT_IPC_TYPE_MAX_def)
  have r2: "tegra_dce_register_ipc_client (\<lambda>d. (OK, d)) 0 None 0 True ?d1 = Some (OK, Some (?h 1), ?d2)"
    using reg i
    by (simp add: tegra_dce_register_ipc_client_def dce_client_ipc_handle_alloc_def b zero_client_def
        dce_interface_type_map_def DCE_CLIENT_IPC_TYPE_MAX_def)
  have ok: "clients_ok ?d2"
    by (auto simp: clients_ok_def nth_Cons less_Suc_eq eval_nat_numeral zero_client_def dce_interface_type_map_def
        split: nat.split)
  have "\<exists>d3. tegra_dce_unregister_ipc_client (?h 0) ?d2 = Some (OK, d3) \<and>
      client_handles d3 = (client_handles ?d2)[0 := zero_client] \<and> dce_client_ipc_wakeup (dce_interface_type_map ! 0) d3 = d3"
    using client_unregister_disconnects_type [OF ok, of 0 0] by auto
  then obtain d3 where "tegra_dce_unregister_ipc_client (?h 0) ?d2 = Some (OK, d3)"
      "client_handles d3 = (client_handles ?d2)[0 := zero_client]" "dce_client_ipc_wakeup 1 d3 = d3"
    by (auto simp: dce_interface_type_map_def)
  with r1 r2 show ?thesis by (intro exI [of _ "?h 0"] exI [of _ ?d1] exI [of _ "?h 1"] exI [of _ ?d2] exI [of _ d3]) simp
qed

end
