(* ===== verification/Dce_Isr.thy ===== *)
theory Dce_Isr imports Dce_Client begin

text \<open>
  What runs in interrupt context: the boot interface's handler (\<open>dce-bootstrap.c\<close>), the signal handler
  of the IVC channels (\<open>dce-admin.c\<close>), the rows of the event table whose handlers neither wait nor post,
  and the interrupt routine with its notifiers; then the waits, during which interrupts arrive
  (\<open>dce-worker.c\<close>, \<open>dce-client-ipc.c\<close>).
\<close>

section \<open>Events posted by interrupts\<close>

definition dce_handle_boot_cmd_received_event :: "('p, 'v) fsm_handler" where
  "dce_handle_boot_cmd_received_event params d = Some (OK, dce_wakeup_interruptible DCE_WAIT_BOOT_CMD d)"

definition dce_handle_boot_complete_received_event :: "('p, 'v) fsm_handler" where
  "dce_handle_boot_complete_received_event params d = Some (OK, dce_wakeup_interruptible DCE_WAIT_BOOT_COMPLETE d)"

definition dce_admin_handle_ipc_received_event :: "('p, 'v) fsm_handler" where
  "dce_admin_handle_ipc_received_event params d = Some (OK, dce_wakeup_interruptible DCE_WAIT_ADMIN_IPC d)"

definition dce_pm_handle_sc7_enter_received_event :: "('p, 'v) fsm_handler" where
  "dce_pm_handle_sc7_enter_received_event params d = Some (OK, dce_wakeup_interruptible DCE_WAIT_SC7_ENTER d)"

definition dce_pm_handle_sc7_exit_received_event :: "('p, 'v) fsm_handler" where
  "dce_pm_handle_sc7_exit_received_event params d = Some (OK, d\<lparr>resume_work := Suc (resume_work d)\<rparr>)"

text \<open>The rows of \<open>event_process_table\<close> other than those of the four events that the driver requests.\<close>

definition received_table :: "('p, 'v) event_table" where
  "received_table =
    [(EVENT_ID_DCE_FSM_START, Some dce_handle_fsm_start_event),
     (EVENT_ID_DCE_BOOT_COMPLETE_RECEIVED, Some dce_handle_boot_complete_received_event),
     (EVENT_ID_DCE_BOOT_CMD_MSG_RECEIVED, Some dce_handle_boot_cmd_received_event),
     (EVENT_ID_DCE_ADMIN_IPC_MSG_RECEIVED, Some dce_admin_handle_ipc_received_event),
     (EVENT_ID_DCE_SC7_ENTERED_RECEIVED, Some dce_pm_handle_sc7_enter_received_event),
     (EVENT_ID_DCE_SC7_EXIT_RECEIVED, Some dce_pm_handle_sc7_exit_received_event),
     (EVENT_ID_DCE_LOG_REQUESTED, Some dce_handle_event_stub),
     (EVENT_ID_DCE_LOG_READY_RECEIVED, Some dce_handle_event_stub),
     (EVENT_ID_DCE_ABORT_RECEIVED, Some dce_handle_event_stub),
     (EVENT_ID_DCE_CRASH_LOG_RECEIVED, Some dce_handle_event_stub),
     (EVENT_ID_DCE_LOG_OVERFLOW_RECEIVED, Some dce_handle_event_stub),
     (EVENT_ID_DCE_FSM_STOP, Some dce_handle_event_stub)]"

definition post_received :: "dce_fsm_event \<Rightarrow> 'v tegra_dce \<Rightarrow> (ret \<times> 'v tegra_dce) option" where
  "post_received ev d = fsm_post_with received_table ev () d"

section \<open>The boot interface\<close>

definition DCE_IRQ_READY :: u32 where "DCE_IRQ_READY = DCE_BIT 23"
definition DCE_IRQ_LOG_OVERFLOW :: u32 where "DCE_IRQ_LOG_OVERFLOW = DCE_BIT 22"
definition DCE_IRQ_LOG_READY :: u32 where "DCE_IRQ_LOG_READY = DCE_BIT 21"
definition DCE_IRQ_CRASH_LOG :: u32 where "DCE_IRQ_CRASH_LOG = DCE_BIT 20"
definition DCE_IRQ_ABORT :: u32 where "DCE_IRQ_ABORT = DCE_BIT 19"
definition DCE_IRQ_SC7_ENTERED :: u32 where "DCE_IRQ_SC7_ENTERED = DCE_BIT 18"
definition DCE_IRQ_GET_STATUS_TYPE :: "u32 \<Rightarrow> u32" where "DCE_IRQ_GET_STATUS_TYPE x = DCE_EXTRACT x 30 27"

definition dce_handle_irq_status :: "u32 \<Rightarrow> 'v tegra_dce \<Rightarrow> 'v tegra_dce option" where
  "dce_handle_irq_status status d = do {
     d \<leftarrow> (if status AND DCE_IRQ_READY \<noteq> 0
       then map_option snd (post_received EVENT_ID_DCE_BOOT_COMPLETE_RECEIVED d) else Some d);
     d \<leftarrow> (if status AND DCE_IRQ_SC7_ENTERED \<noteq> 0
       then map_option snd (post_received EVENT_ID_DCE_SC7_ENTERED_RECEIVED d) else Some d);
     d \<leftarrow> (if status AND DCE_IRQ_LOG_READY \<noteq> 0 then Some (dce_wakeup_interruptible DCE_WAIT_LOG d) else Some d);
     (if status AND (DCE_IRQ_LOG_OVERFLOW OR DCE_IRQ_CRASH_LOG OR DCE_IRQ_ABORT) \<noteq> 0
      then map_option snd (post_received EVENT_ID_DCE_ABORT_RECEIVED d) else Some d) }"

definition dce_bootstrap_handle_boot_status :: "u32 \<Rightarrow> 'v tegra_dce \<Rightarrow> 'v tegra_dce option" where
  "dce_bootstrap_handle_boot_status status d = do {
     d \<leftarrow> dce_mailbox_store_interface_status status DCE_MAILBOX_BOOT_INTERFACE d;
     map_option snd (post_received EVENT_ID_DCE_BOOT_CMD_MSG_RECEIVED d) }"

definition dce_boot_interface_isr :: "'v tegra_dce \<Rightarrow> 'v tegra_dce option" where
  "dce_boot_interface_isr d = do {
     status \<leftarrow> dce_mailbox_get_interface_status DCE_MAILBOX_BOOT_INTERFACE d;
     if status = 0xffffffff then Some d
     else if DCE_IRQ_GET_STATUS_TYPE status = 0 then dce_handle_irq_status status d
     else if DCE_IRQ_GET_STATUS_TYPE status = 1 then dce_bootstrap_handle_boot_status status d
     else Some d }"

section \<open>Channel signals\<close>

text \<open>\<open>d->d_ipc.ch[i]\<close> dereferenced (\<open>dce-ipc.c\<close>).\<close>

definition ipc_chan :: "nat \<Rightarrow> 'v tegra_dce \<Rightarrow> 'v dce_ipc_channel option" where
  "ipc_chan i d = (if i < length (ipc_ch d) \<and> ipc_ch d ! i then get_ch i d else None)"

definition dce_ipc_channel_is_synced :: "nat \<Rightarrow> 'v tegra_dce \<Rightarrow> bool option" where
  "dce_ipc_channel_is_synced i d = do { c \<leftarrow> ipc_chan i d; Some (ch_synced c) }"

definition dce_ipc_is_data_available :: "'v ivc_ops \<Rightarrow> nat \<Rightarrow> 'v tegra_dce \<Rightarrow> bool option" where
  "dce_ipc_is_data_available ops i d = do { c \<leftarrow> ipc_chan i d; Some (\<not> isl (ivc_read_frame ops (d_ivc c))) }"

definition dce_admin_wakeup_ipc :: "'v tegra_dce \<Rightarrow> 'v tegra_dce option" where
  "dce_admin_wakeup_ipc d = map_option snd (post_received EVENT_ID_DCE_ADMIN_IPC_MSG_RECEIVED d)"

definition dce_admin_ipc_handle_signal :: "'v ivc_ops \<Rightarrow> nat \<Rightarrow> 'v tegra_dce \<Rightarrow> 'v tegra_dce option" where
  "dce_admin_ipc_handle_signal ops ch_typ d = do {
     synced \<leftarrow> dce_ipc_channel_is_synced ch_typ d;
     if \<not> synced then Some d
     else do {
       wakeup_needed \<leftarrow> dce_ipc_is_data_available ops ch_typ d;
       if \<not> wakeup_needed then Some d
       else if ch_typ = 0 then dce_admin_wakeup_ipc d
       else Some (dce_client_ipc_wakeup (of_nat ch_typ) d) } }"

section \<open>The interrupt\<close>

definition dce_notify :: "'v ivc_ops \<Rightarrow> 'v notifier" where
  "dce_notify ops f data d =
     (case f of
        Boot_interface_isr \<Rightarrow> dce_boot_interface_isr d
      | Ipc_mbox_handle_signal \<Rightarrow> dce_ipc_mbox_handle_signal (dce_admin_ipc_handle_signal ops) data d)"

text \<open>What the peer has done when it raises the interrupt, then the routine.\<close>

definition peer_writes :: "u32 \<Rightarrow> (u32 \<times> u32) list \<Rightarrow> (nat \<times> 'v) list \<Rightarrow> 'v tegra_dce \<Rightarrow> 'v tegra_dce" where
  "peer_writes ir regs ivcs d =
     (let d = d\<lparr>dce_regs := (fold (\<lambda>(r, v) f. f(r := v)) regs (dce_regs d))(0x150304 := ir)\<rparr>
      in fold (\<lambda>(i, v) d. d\<lparr>ivc_channels := (ivc_channels d)[i := (ivc_channels d ! i)\<lparr>d_ivc := v\<rparr>]\<rparr>) ivcs d)"

definition dce_interrupt ::
  "'v ivc_ops \<Rightarrow> u32 \<Rightarrow> (u32 \<times> u32) list \<Rightarrow> (nat \<times> 'v) list \<Rightarrow> 'v tegra_dce \<Rightarrow> 'v tegra_dce option" where
  "dce_interrupt ops ir regs ivcs d = dce_mailbox_isr (dce_notify ops) (peer_writes ir regs ivcs d)"

section \<open>Waiting\<close>

text \<open>\<open>wait_event_interruptible\<close>: the condition, else the next action.  \<open>True\<close>: the condition held;
  \<open>False\<close>: a signal came.  When nothing more happens and the condition does not hold, the wait never ends.\<close>

fun wait_event ::
  "'v ivc_ops \<Rightarrow> ('v tegra_dce \<Rightarrow> bool) \<Rightarrow> 'v dce_action list \<Rightarrow> 'v tegra_dce \<Rightarrow> (bool \<times> 'v tegra_dce) option" where
  "wait_event ops cond [] d = (if cond d then Some (True, d) else None)"
| "wait_event ops cond (a # as) d =
     (if cond d then Some (True, d)
      else
        (case a of
           Signal_pending \<Rightarrow> Some (False, d\<lparr>d_env := as\<rparr>)
         | Dce_irq ir regs ivcs \<Rightarrow> do {
             d \<leftarrow> dce_interrupt ops ir regs ivcs (d\<lparr>d_env := as\<rparr>);
             wait_event ops cond as d }))"

definition dce_wait_interruptible :: "'v ivc_ops \<Rightarrow> nat \<Rightarrow> 'v tegra_dce \<Rightarrow> (ret \<times> 'v tegra_dce) option" where
  "dce_wait_interruptible ops msg_id d =
     (if DCE_MAX_WAIT \<le> msg_id then Some (Inl EINVAL, d)
      else do {
        (_, d) \<leftarrow> wait_event ops (\<lambda>d. wait_complete d ! msg_id) (d_env d) d;
        if \<not> wait_complete d ! msg_id then Some (Inl EINTR, d)
        else Some (OK, d\<lparr>wait_complete := (wait_complete d)[msg_id := False]\<rparr>) })"

text \<open>A client's wait starts over after a signal.\<close>

fun client_wait_event ::
  "'v ivc_ops \<Rightarrow> nat \<Rightarrow> 'v dce_action list \<Rightarrow> 'v tegra_dce \<Rightarrow> 'v tegra_dce option" where
  "client_wait_event ops i [] d = (if cl_complete (client_handles d ! i) then Some d else None)"
| "client_wait_event ops i (a # as) d =
     (if cl_complete (client_handles d ! i) then Some d
      else
        (case a of
           Signal_pending \<Rightarrow> client_wait_event ops i as (d\<lparr>d_env := as\<rparr>)
         | Dce_irq ir regs ivcs \<Rightarrow> do {
             d \<leftarrow> dce_interrupt ops ir regs ivcs (d\<lparr>d_env := as\<rparr>);
             client_wait_event ops i as d }))"

definition dce_client_ipc_wait :: "'v ivc_ops \<Rightarrow> u32 \<Rightarrow> 'v tegra_dce \<Rightarrow> (ret \<times> 'v tegra_dce) option" where
  "dce_client_ipc_wait ops int_type d =
     (let typ = dce_client_get_type int_type
      in if DCE_CLIENT_IPC_TYPE_MAX \<le> typ then Some (Inl EINVAL, d)
         else
           (case d_clients d ! typ of
              None \<Rightarrow> Some (Inl EINVAL, d)
            | Some i \<Rightarrow>
                if cl_int_type (client_handles d ! i) \<noteq> int_type then Some (Inl EINVAL, d)
                else do {
                  d \<leftarrow> client_wait_event ops i (d_env d) d;
                  Some (OK, d\<lparr>client_handles := (client_handles d)[i := (client_handles d ! i)\<lparr>cl_complete := False\<rparr>]\<rparr>) }))"

section \<open>A reply on the boot interface\<close>

text \<open>The four interfaces as the driver sets them up: the boot interface receives in mailbox 7, the others
  elsewhere, and the boot mailbox interrupt is enabled.\<close>

definition boot_mb_ok :: "'v tegra_dce \<Rightarrow> bool" where
  "boot_mb_ok d \<longleftrightarrow> hsp_ok d \<and> length (d_mb d) = 4 \<and> bit (dce_regs d 0x150104) 15 \<and>
     r_mb (d_mb d ! 0) = 7 \<and> s_mb (d_mb d ! 0) = 6 \<and> \<not> mb_locked (d_mb d ! 0) \<and>
     mb_notifyf (d_mb d ! 0) = Some Boot_interface_isr \<and> mb_waitf (d_mb d ! 0) = Some Wait_boot_interface \<and>
     (\<forall>i \<in> {1, 2, 3}. r_mb (d_mb d ! i) < 7) \<and> length (wait_complete d) = 5"

text \<open>A firmware that takes the command and answers it with the status \<open>v\<close>.\<close>

definition boot_reply :: "u32 \<Rightarrow> 'v dce_action" where
  "boot_reply v = Dce_irq 0x8000 [(smb_reg 6, 0), (smb_reg 7, v)] []"

text \<open>The device after the interrupt that carries the reply.\<close>

definition after_reply :: "u32 \<Rightarrow> 'v tegra_dce \<Rightarrow> 'v tegra_dce" where
  "after_reply v d =
     d\<lparr>dce_regs := (dce_regs d)(smb_reg 6 := 0, smb_reg 7 := 0, 0x150304 := 0x8000),
       reg_writes := reg_writes d @ [(smb_reg 7, 0)],
       d_mb := (d_mb d)[0 := (d_mb d ! 0)\<lparr>ack_value := v, mb_valid := True, mb_locked := False\<rparr>],
       c_state := STATE_DCE_FSM_IDLE, requested_ipcs := requested_ipcs d AND NOT (DCE_BIT DCE_WAIT_BOOT_CMD),
       wait_complete := (wait_complete d)[DCE_WAIT_BOOT_CMD := True]\<rparr>"

lemma smb_reg_values: "smb_reg 6 = 0x190000" "smb_reg 7 = 0x198000"
  by (simp_all add: smb_reg_def smb_regs_def row0_def)

lemma post_boot_cmd_received:
  assumes "fsm_initialized d" and "c_state d = STATE_DCE_BOOTCMD_WFI"
  shows "post_received EVENT_ID_DCE_BOOT_CMD_MSG_RECEIVED d =
    Some (OK, dce_wakeup_interruptible DCE_WAIT_BOOT_CMD (dce_fsm_set_state EVENT_ID_DCE_BOOT_CMD_MSG_RECEIVED d))"
  using assms
  by (simp add: post_received_def fsm_post_with_def validate_allowed received_table_def Let_def
      dce_handle_boot_cmd_received_event_def)

lemma isr_turn_skip:
  assumes "get_mb i d = Some m" and "unat (r_mb m) + 8 < 32" and "\<not> bit irq (unat (r_mb m) + 8)"
  shows "mailbox_isr_turn nf irq i d = Some d"
proof -
  have "irq AND push_bit (unat (r_mb m) + 8) 1 = 0" using assms(2,3)
    by (metis and_exp_eq_0_iff_not_bit push_bit_of_1)
  with assms(1) show ?thesis by (simp add: mailbox_isr_turn_def)
qed

lemma isr_turn_take:
  assumes "hsp_ok d" and "get_mb i d = Some m" and "\<not> mb_locked m" and "r_mb m < 8" and "mb_notifyf m = Some f"
    and "bit irq (unat (r_mb m) + 8)"
  shows "mailbox_isr_turn nf irq i d = nf f (notify_data m)
       (set_mb i (m\<lparr>ack_value := dce_regs d (smb_reg (r_mb m)), mb_valid := True, mb_locked := False\<rparr>)
         (dce_writel (smb_reg (r_mb m)) 0 d))"
proof -
  have l: "i < length (d_mb d)" by (rule get_mb_length [OF assms(2)])
  have k: "unat (r_mb m) + 8 < 32" using assms(4) by (simp add: word_less_nat_alt)
  have b: "irq AND push_bit (unat (r_mb m) + 8) 1 \<noteq> 0" using assms(6)
    by (metis and_exp_eq_0_iff_not_bit push_bit_of_1)
  have g: "get_mb i (dce_writel r v d) = Some m" for r v using assms(2) by simp
  show ?thesis
    using assms(1-3,5) b
    by (simp add: mailbox_isr_turn_def smb_read_ok smb_set_ok assms(4) store_status_eq [OF g assms(3)])
qed

lemma boot_status_type_small: "DCE_IRQ_GET_STATUS_TYPE v = 1 \<Longrightarrow> v \<noteq> 0xffffffff"
  by (auto simp: DCE_IRQ_GET_STATUS_TYPE_def DCE_EXTRACT_def DCE_MASK_def DCE_BIT_def)

text \<open>The interrupt that carries the reply, on a device that waits for it.\<close>

lemma boot_reply_interrupt:
  assumes ok: "boot_mb_ok d" and fsm: "fsm_initialized d" "c_state d = STATE_DCE_BOOTCMD_WFI"
    and v: "DCE_IRQ_GET_STATUS_TYPE v = 1"
  shows "dce_interrupt ops 0x8000 [(smb_reg 6, 0), (smb_reg 7, v)] [] d = Some (after_reply v d)"
proof -
  let ?d0 = "d\<lparr>dce_regs := (dce_regs d)(smb_reg 6 := 0, smb_reg 7 := v, 0x150304 := 0x8000)\<rparr>"
  let ?m = "d_mb d ! 0"
  have pw: "peer_writes 0x8000 [(smb_reg 6, 0), (smb_reg 7, v)] [] d = ?d0"
    by (simp add: peer_writes_def)
  have h: "hsp_ok ?d0" using ok by (simp add: boot_mb_ok_def hsp_ok_def)
  have l4: "length (d_mb d) = 4" using ok by (simp add: boot_mb_ok_def)
  have g: "get_mb i ?d0 = Some (d_mb d ! i)" if "i < 4" for i using that l4 by (simp add: get_mb_def)
  have irq: "dce_hsp_get_irq_sources ?d0 = Some (dce_regs d 0x150104 AND 0x8000)" (is "_ = Some ?irq")
    using h by (simp add: dce_hsp_get_irq_sources_def CCPLEX_HSP_IE_def hsp_ie_read_ok hsp_ir_read_ok smb_reg_values)
  have bits: "bit ?irq n \<longleftrightarrow> n = 15" for n
  proof -
    have e: "bit (0x8000 :: u32) n \<longleftrightarrow> n = 15" using bit_exp_iff [where 'a = u32, of 15 n] by auto
    have "bit (dce_regs d 0x150104) 15" using ok by (simp add: boot_mb_ok_def)
    with e show ?thesis by (auto simp: bit_and_iff)
  qed
  let ?d1 = "set_mb 0 (?m\<lparr>ack_value := v, mb_valid := True, mb_locked := False\<rparr>) (dce_writel (smb_reg 7) 0 ?d0)"
  have m: "r_mb ?m = 7" "\<not> mb_locked ?m" "mb_notifyf ?m = Some Boot_interface_isr"
    using ok by (simp_all add: boot_mb_ok_def)
  have t0: "mailbox_isr_turn (dce_notify ops) ?irq 0 ?d0 = dce_boot_interface_isr ?d1"
    using isr_turn_take [OF h g m(2) _ m(3), of "?irq" "dce_notify ops"] m bits
    by (simp add: dce_notify_def smb_reg_values)
  have g1: "get_mb 0 ?d1 = Some (?m\<lparr>ack_value := v, mb_valid := True, mb_locked := False\<rparr>)"
    using l4 by (simp add: get_mb_def set_mb_def)
  have st: "dce_mailbox_store_interface_status v 0 ?d1 = Some ?d1"
    using store_status_eq [OF g1] by (simp add: set_mb_def)
  have post: "post_received EVENT_ID_DCE_BOOT_CMD_MSG_RECEIVED ?d1 =
      Some (OK, dce_wakeup_interruptible DCE_WAIT_BOOT_CMD (dce_fsm_set_state EVENT_ID_DCE_BOOT_CMD_MSG_RECEIVED ?d1))"
    by (rule post_boot_cmd_received) (use fsm in \<open>simp_all add: set_mb_def dce_writel_def\<close>)
  have af: "dce_wakeup_interruptible DCE_WAIT_BOOT_CMD (dce_fsm_set_state EVENT_ID_DCE_BOOT_CMD_MSG_RECEIVED ?d1) = after_reply v d"
    using ok
    by (simp add: after_reply_def dce_wakeup_interruptible_def dce_fsm_set_state_def set_mb_def dce_writel_def
        boot_mb_ok_def hsp_ok_def DCE_WAIT_BOOT_CMD_def DCE_MAX_WAIT_def DCE_BIT_def fun_upd_twist smb_reg_values)
  have isr: "dce_boot_interface_isr ?d1 = Some (after_reply v d)"
    using v boot_status_type_small [OF v] g1 st post af
    by (simp add: dce_boot_interface_isr_def dce_mailbox_get_interface_status_def DCE_MAILBOX_BOOT_INTERFACE_def
        dce_bootstrap_handle_boot_status_def)
  have rest: "mailbox_isr_turn (dce_notify ops) ?irq i (after_reply v d) = Some (after_reply v d)" if "i \<in> {1, 2, 3}" for i
  proof (rule isr_turn_skip)
    show "get_mb i (after_reply v d) = Some (d_mb d ! i)"
      using that l4 by (auto simp: get_mb_def after_reply_def)
    have r: "r_mb (d_mb d ! i) < 7" using ok that by (auto simp: boot_mb_ok_def)
    then show "unat (r_mb (d_mb d ! i)) + 8 < 32" "\<not> bit ?irq (unat (r_mb (d_mb d ! i)) + 8)"
      by (simp_all add: bits word_less_nat_alt)
  qed
  show ?thesis
    unfolding dce_interrupt_def pw dce_mailbox_isr_def
    by (simp add: irq t0 isr rest)
qed

end
