(* ===== verification/Dce_Ipc.thy ===== *)
theory Dce_Ipc imports Dce_Isr begin

text \<open>
  The IVC channels (\<open>dce-ipc.c\<close>): the shared-memory region and its size, the setup, teardown and reset of
  a channel, messages with their length header in both variants the driver can be built for, the
  synchronous exchange, and what \<open>dce-client-ipc.c\<close> does on a channel for its clients.  Channel locks are
  never held across a call that takes them again, so they do not show in the model.  \<open>None\<close> also stands for
  a copy beyond a frame or a buffer.
\<close>

section \<open>The region\<close>

text \<open>\<open>find_first_bit\<close> and \<open>find_next_bit\<close> of the kernel: the first set bit from \<open>k\<close> on, or \<open>n\<close>.\<close>

function find_next_bit :: "u64 \<Rightarrow> nat \<Rightarrow> nat \<Rightarrow> nat" where
  "find_next_bit v n k = (if n \<le> k then n else if bit v k then k else find_next_bit v n (Suc k))"
  by auto
termination by (relation "measure (\<lambda>(v, n, k). n - k)") auto

declare find_next_bit.simps [simp del]

lemma find_next_bit_bounds: "k \<le> n \<Longrightarrow> k \<le> find_next_bit v n k \<and> find_next_bit v n k \<le> n"
proof (induction v n k rule: find_next_bit.induct)
  case (1 v n k)
  then show ?case by (subst (1 2) find_next_bit.simps) (auto simp: Suc_le_eq)
qed

text \<open>The loop of \<open>dce_get_nxt_pow_of_2\<close>: the last index it stores in \<open>l_bit\<close>.\<close>

function last_bit :: "u64 \<Rightarrow> nat \<Rightarrow> nat \<Rightarrow> nat \<Rightarrow> nat" where
  "last_bit v n l_bit bit_index =
     (if bit_index \<noteq> 0 \<and> bit_index < n then last_bit v n bit_index (find_next_bit v n (bit_index + 1)) else l_bit)"
  by auto
termination
proof (relation "measure (\<lambda>(v, n, l, b). n - b)")
  fix v :: u64 and n l b :: nat
  assume a: "b \<noteq> 0 \<and> b < n"
  then have "b + 1 \<le> find_next_bit v n (b + 1)" using find_next_bit_bounds[of "b + 1" n v] by simp
  then have "n - find_next_bit v n (b + 1) < n - b" using a by arith
  then show "((v, n, b, find_next_bit v n (b + 1)), (v, n, l, b)) \<in> measure (\<lambda>(v, n, l, b). n - b)"
    by simp
qed simp

declare last_bit.simps [simp del]

definition dce_get_nxt_pow_of_2 :: "u64 \<Rightarrow> nat \<Rightarrow> u64" where
  "dce_get_nxt_pow_of_2 v nbits =
     (if v = 0 then 0
      else
        let l_bit = last_bit v nbits 0 (find_next_bit v nbits 0)
        in if push_bit l_bit 1 < v then push_bit (l_bit + 1) 1 else v)"

text \<open>\<open>dma_alloc\<close> is what \<open>dma_alloc_coherent\<close> returns: the bus address of the buffer, or no buffer.  The
  products are those of the code, with its constants.\<close>

definition dce_ipc_allocate_region :: "'v ivc_ops \<Rightarrow> u64 option \<Rightarrow> 'v tegra_dce \<Rightarrow> ret \<times> 'v tegra_dce" where
  "dce_ipc_allocate_region ops dma_alloc d =
     (let tot_q_sz = 4 * ivc_align ops 2048 * 2 + 1 * ivc_align ops 4096 * 2 + 4 * ivc_align ops 1728 * 2 +
            4 * ivc_align ops 4096 * 2;
          tot_ivc_q_sz = of_nat (ivc_total_queue_size ops tot_q_sz);
          d = d\<lparr>region_size := dce_get_nxt_pow_of_2 tot_ivc_q_sz 32\<rparr>
      in (case dma_alloc of
            None \<Rightarrow> (Inl ENOMEM, d\<lparr>region_base := False\<rparr>)
          | Some iova \<Rightarrow> (OK, d\<lparr>region_base := True, region_iova := iova, region_s_offset := 0\<rparr>)))"

text \<open>The base pointer keeps its value after the buffer is freed.\<close>

definition dce_ipc_free_region :: "'v tegra_dce \<Rightarrow> 'v tegra_dce" where
  "dce_ipc_free_region d = d\<lparr>region_s_offset := 0\<rparr>"

definition dce_ipc_get_region_iova_info :: "'v tegra_dce \<Rightarrow> errno + u64 \<times> u32" where
  "dce_ipc_get_region_iova_info d = (if \<not> region_base d then Inl ENOMEM else Inr (region_iova d, ucast (region_size d)))"

section \<open>Channels\<close>

definition dce_ipc_channel_init :: "'v ivc_ops \<Rightarrow> nat \<Rightarrow> 'v tegra_dce \<Rightarrow> (ret \<times> 'v tegra_dce) option" where
  "dce_ipc_channel_init ops i d =
     (if 4 \<le> i then Some (Inl EINVAL, d)
      else do {
        c \<leftarrow> get_ch i d;
        if \<not> ch_valid c then Some (OK, d)
        else do {
          (r, d) \<leftarrow> dce_ipc_init_signaling i (set_ch i (c\<lparr>ch_d := True\<rparr>) d);
          if isl r then Some (r, d)
          else do {
            c \<leftarrow> get_ch i d;
            let msg_sz = (of_nat (ivc_align ops (unat (frame_sz c))) :: u32);
            let q_sz = (of_nat (ivc_total_queue_size ops (unat (msg_sz * ucast (nframes c)))) :: u32);
            if \<not> region_base d then Some (Inl ENOMEM, d)
            else do {
              let rx = region_iova d + ucast (region_s_offset d);
              let tx = rx + ucast q_sz;
              let (r, v) = ivc_init ops (d_ivc c) rx tx (nframes c) msg_sz;
              if isl r then Some (r, set_ch i (c\<lparr>d_ivc := v\<rparr>) d)
              else Some (OK,
                (set_ch i (c\<lparr>d_ivc := v, ch_initialized := True, rx_iova := rx, tx_iova := tx\<rparr>) d)
                  \<lparr>ipc_ch := (ipc_ch d)[i := True], region_s_offset := region_s_offset d + 2 * q_sz\<rparr>) } } } })"

definition dce_ipc_channel_deinit :: "nat \<Rightarrow> 'v tegra_dce \<Rightarrow> 'v tegra_dce option" where
  "dce_ipc_channel_deinit i d =
     (if length (ipc_ch d) \<le> i then None
      else if \<not> ipc_ch d ! i then Some d
      else do {
        c \<leftarrow> get_ch i d;
        if \<not> ch_initialized c then Some d
        else do {
          d \<leftarrow> dce_ipc_deinit_signaling i d;
          c \<leftarrow> get_ch i d;
          Some ((set_ch i (c\<lparr>ch_initialized := False, ch_synced := False\<rparr>) d)\<lparr>ipc_ch := (ipc_ch d)[i := False]\<rparr>) } })"

text \<open>The call \<open>ch->signal.notify(d, &ch->signal.to_d)\<close>.\<close>

definition notify_peer :: "nat \<Rightarrow> 'v tegra_dce \<Rightarrow> 'v tegra_dce option" where
  "notify_peer i d = do {
     c \<leftarrow> get_ch i d;
     if \<not> sig_notify c then None else dce_ipc_mbox_notify (Some (Sig_to i)) d }"

definition dce_ipc_channel_is_ready :: "'v ivc_ops \<Rightarrow> nat \<Rightarrow> 'v tegra_dce \<Rightarrow> (bool \<times> 'v tegra_dce) option" where
  "dce_ipc_channel_is_ready ops i d = do {
     c \<leftarrow> ipc_chan i d;
     let (r, v) = ivc_notified ops (d_ivc c);
     d \<leftarrow> notify_peer i (set_ch i (c\<lparr>d_ivc := v\<rparr>) d);
     Some (\<not> isl r, d) }"

text \<open>The reset polls without sleeping.  Between two polls the next interrupt of the environment arrives;
  a signal stays pending.\<close>

fun next_irq :: "'v dce_action list \<Rightarrow> ((u32 \<times> (u32 \<times> u32) list \<times> (nat \<times> 'v) list) \<times> 'v dce_action list) option" where
  "next_irq [] = None"
| "next_irq (Dce_irq ir regs ivcs # as) = Some ((ir, regs, ivcs), as)"
| "next_irq (Signal_pending # as) = map_option (\<lambda>(x, bs). (x, Signal_pending # bs)) (next_irq as)"

definition poll_irq :: "'v ivc_ops \<Rightarrow> 'v tegra_dce \<Rightarrow> 'v tegra_dce option" where
  "poll_irq ops d =
     (case next_irq (d_env d) of
        None \<Rightarrow> Some d
      | Some ((ir, regs, ivcs), as) \<Rightarrow> dce_interrupt ops ir regs ivcs (d\<lparr>d_env := as\<rparr>))"

partial_function (option) poll_ready :: "'v ivc_ops \<Rightarrow> nat \<Rightarrow> 'v tegra_dce \<Rightarrow> 'v tegra_dce option" where
  "poll_ready ops i d = do {
     (ready, d) \<leftarrow> dce_ipc_channel_is_ready ops i d;
     if ready then Some d else do { d \<leftarrow> poll_irq ops d; poll_ready ops i d } }"

definition dce_ipc_channel_reset :: "'v ivc_ops \<Rightarrow> nat \<Rightarrow> 'v tegra_dce \<Rightarrow> 'v tegra_dce option" where
  "dce_ipc_channel_reset ops i d = do {
     c \<leftarrow> ipc_chan i d;
     d \<leftarrow> notify_peer i (set_ch i (c\<lparr>d_ivc := ivc_reset ops (d_ivc c), ch_synced := False\<rparr>) d);
     d \<leftarrow> poll_ready ops i d;
     c \<leftarrow> ipc_chan i d;
     Some (set_ch i (c\<lparr>ch_synced := True\<rparr>) d) }"

definition dce_ipc_get_channel_info :: "nat \<Rightarrow> 'v tegra_dce \<Rightarrow> (errno + u8 \<times> u32 \<times> u64 \<times> u64) option" where
  "dce_ipc_get_channel_info i d =
     (if length (ipc_ch d) \<le> i then None
      else if \<not> ipc_ch d ! i then Some (Inl ENOMEM)
      else do { c \<leftarrow> get_ch i d; Some (Inr (nframes c, frame_sz c, rx_iova c, tx_iova c)) })"

definition dce_ipc_get_ipc_type :: "nat \<Rightarrow> 'v tegra_dce \<Rightarrow> u32 option" where
  "dce_ipc_get_ipc_type i d = do { c \<leftarrow> ipc_chan i d; Some (ch_ipc_type c) }"

text \<open>The error \<open>-EINVAL\<close> is returned as a \<open>u32\<close>.\<close>

definition dce_ipc_get_cur_wait_type :: "nat \<Rightarrow> 'v tegra_dce \<Rightarrow> u32" where
  "dce_ipc_get_cur_wait_type i d =
     (if 4 \<le> i then - 22 else (case ipc_chan i d of None \<Rightarrow> - 22 | Some c \<Rightarrow> w_type c))"

section \<open>Messages\<close>

text \<open>\<open>struct dce_ipc_header\<close>: the length, little endian.\<close>

definition le32 :: "u32 \<Rightarrow> u8 list" where
  "le32 x = [ucast x, ucast (drop_bit 8 x), ucast (drop_bit 16 x), ucast (drop_bit 24 x)]"

definition of_le32 :: "u8 list \<Rightarrow> u32" where
  "of_le32 b = ucast (b ! 0) OR push_bit 8 (ucast (b ! 1)) OR push_bit 16 (ucast (b ! 2)) OR push_bit 24 (ucast (b ! 3))"

definition dce_ipc_get_next_write_buff :: "'v ivc_ops \<Rightarrow> 'v dce_ipc_channel \<Rightarrow> ret" where
  "dce_ipc_get_next_write_buff ops c =
     (case ivc_write_ready ops (d_ivc c) of
        Inl e \<Rightarrow> if ivc_iosys ops then Inl e else Inl ENOMEM
      | Inr _ \<Rightarrow> OK)"

text \<open>\<open>data\<close> is the caller's buffer, which may be null.\<close>

definition dce_ipc_write_channel ::
  "'v ivc_ops \<Rightarrow> u8 list option \<Rightarrow> nat \<Rightarrow> 'v dce_ipc_channel \<Rightarrow> (ret \<times> 'v dce_ipc_channel) option" where
  "dce_ipc_write_channel ops data sz c = do {
     let hdr = (if ch_msg_header c then le32 (of_nat sz) else []);
     body \<leftarrow> (case data of
         None \<Rightarrow> Some []
       | Some b \<Rightarrow> if length b < sz then None else Some (take sz b));
     if ivc_align ops (unat (frame_sz c)) < length (hdr @ body) then None
     else do {
       let (r, v) = ivc_write_advance ops (ivc_put ops (d_ivc c) (hdr @ body));
       Some (r, c\<lparr>d_ivc := v\<rparr>) } }"

definition dce_ipc_send_message ::
  "'v ivc_ops \<Rightarrow> nat \<Rightarrow> u8 list option \<Rightarrow> nat \<Rightarrow> 'v tegra_dce \<Rightarrow> (ret \<times> 'v tegra_dce) option" where
  "dce_ipc_send_message ops i data sz d = do {
     c \<leftarrow> ipc_chan i d;
     let r = dce_ipc_get_next_write_buff ops c;
     if isl r then Some (r, d)
     else do {
       (r, c) \<leftarrow> dce_ipc_write_channel ops data sz c;
       if isl r then Some (r, set_ch i c d)
       else do {
         d \<leftarrow> notify_peer i (set_ch i c d);
         Some (OK, d) } } }"

definition dce_ipc_get_next_read_buff :: "'v ivc_ops \<Rightarrow> 'v dce_ipc_channel \<Rightarrow> errno + u8 list" where
  "dce_ipc_get_next_read_buff ops c =
     (case ivc_read_frame ops (d_ivc c) of
        Inl e \<Rightarrow> if ivc_iosys ops then Inl e else Inl ENOMEM
      | Inr frame \<Rightarrow> Inr frame)"

text \<open>With the header, the older interface takes the size from the frame; the newer one stores the
  requested size into the frame and keeps it.\<close>

definition dce_ipc_read_channel ::
  "'v ivc_ops \<Rightarrow> u8 list \<Rightarrow> u8 list option \<Rightarrow> nat \<Rightarrow> 'v dce_ipc_channel \<Rightarrow> (ret \<times> u8 list option \<times> 'v dce_ipc_channel) option"
  where
  "dce_ipc_read_channel ops frame data sz c =
     (if ch_msg_header c \<and> length frame < 4 then None
      else do {
        let v = (if ch_msg_header c \<and> ivc_iosys ops then ivc_read_put ops (d_ivc c) (le32 (of_nat sz)) else d_ivc c);
        let sz = (if ch_msg_header c \<and> \<not> ivc_iosys ops then unat (of_le32 frame) else sz);
        let ibuff = (if ch_msg_header c then drop 4 frame else frame);
        data \<leftarrow> (case data of
            None \<Rightarrow> Some None
          | Some b \<Rightarrow>
              if length ibuff < sz \<or> length b < sz then None
              else Some (Some (take sz ibuff @ drop sz b)));
        let (r, v) = ivc_read_advance ops v;
        Some (r, data, c\<lparr>d_ivc := v\<rparr>) })"

definition dce_ipc_read_message ::
  "'v ivc_ops \<Rightarrow> nat \<Rightarrow> u8 list option \<Rightarrow> nat \<Rightarrow> 'v tegra_dce \<Rightarrow> (ret \<times> u8 list option \<times> 'v tegra_dce) option" where
  "dce_ipc_read_message ops i data sz d = do {
     c \<leftarrow> ipc_chan i d;
     (case dce_ipc_get_next_read_buff ops c of
        Inl e \<Rightarrow> Some (Inl e, data, d)
      | Inr frame \<Rightarrow> do {
          (r, data, c) \<leftarrow> dce_ipc_read_channel ops frame data sz c;
          Some (r, data, set_ch i c d) }) }"

section \<open>Synchronous exchange\<close>

definition DCE_IPC_WAIT_TYPE_RPC :: u32 where "DCE_IPC_WAIT_TYPE_RPC = 1"

definition dce_admin_ipc_wait :: "'v ivc_ops \<Rightarrow> 'v tegra_dce \<Rightarrow> (ret \<times> 'v tegra_dce) option" where
  "dce_admin_ipc_wait ops d = dce_wait_interruptible ops DCE_WAIT_ADMIN_IPC d"

definition dce_ipc_wait :: "'v ivc_ops \<Rightarrow> u32 \<Rightarrow> nat \<Rightarrow> 'v tegra_dce \<Rightarrow> (ret \<times> 'v tegra_dce) option" where
  "dce_ipc_wait ops wt i d =
     (if 4 \<le> i then Some (Inl EINVAL, d)
      else
        (case ipc_chan i d of
           None \<Rightarrow> Some (Inl EINVAL, d)
         | Some c \<Rightarrow> do {
             let d = set_ch i (c\<lparr>w_type := wt\<rparr>) d;
             (r, d) \<leftarrow> (if i = 0 then dce_admin_ipc_wait ops d else dce_client_ipc_wait ops (of_nat i) d);
             c \<leftarrow> get_ch i d;
             Some (r, set_ch i (c\<lparr>w_type := 0\<rparr>) d) }))"

text \<open>The message is the object \<open>p\<close> of the heap; \<open>None\<close> when there is none.\<close>

definition dce_ipc_send_message_sync :: "'v ivc_ops \<Rightarrow> nat \<Rightarrow> nat \<Rightarrow> 'v tegra_dce \<Rightarrow> (ret \<times> 'v tegra_dce) option" where
  "dce_ipc_send_message_sync ops i p d = do {
     m \<leftarrow> msg_heap d p;
     (r, d) \<leftarrow> dce_ipc_send_message ops i (Some (tx_data m)) (length (tx_data m)) d;
     if isl r then Some (r, d)
     else do {
       (r, d) \<leftarrow> dce_ipc_wait ops DCE_IPC_WAIT_TYPE_RPC i d;
       if isl r then Some (r, d)
       else do {
         m \<leftarrow> msg_heap d p;
         (r, data, d) \<leftarrow> dce_ipc_read_message ops i (Some (rx_data m)) (length (rx_data m)) d;
         rx \<leftarrow> data;
         Some (r, d\<lparr>msg_heap := (msg_heap d)(p \<mapsto> m\<lparr>rx_data := rx\<rparr>)\<rparr>) } } }"

section \<open>Clients on a channel\<close>

definition tegra_dce_client_ipc_send_recv ::
  "'v ivc_ops \<Rightarrow> u32 \<Rightarrow> nat option \<Rightarrow> 'v tegra_dce \<Rightarrow> (ret \<times> 'v tegra_dce) option" where
  "tegra_dce_client_ipc_send_recv ops handle msg d =
     (case msg of
        None \<Rightarrow> Some (Inl EPERM, d)
      | Some p \<Rightarrow>
          (case dce_client_ipc_lookup_handle handle of
             None \<Rightarrow> Some (Inl EPERM, d)
           | Some i \<Rightarrow>
               let cl = client_handles d ! i
               in if \<not> cl_d cl then None else dce_ipc_send_message_sync ops (unat (cl_int_type cl)) p d))"

definition dce_kzalloc :: "'v tegra_dce \<Rightarrow> bool \<times> 'v tegra_dce" where
  "dce_kzalloc d = (case kzalloc_ok d of [] \<Rightarrow> (True, d) | b # bs \<Rightarrow> (b, d\<lparr>kzalloc_ok := bs\<rparr>))"

text \<open>The callback of a client: a function of its arguments (handle, type, length, message, data) on a state
  of its own.\<close>

type_synonym 's client_callback = "nat \<Rightarrow> u32 \<Rightarrow> u32 \<Rightarrow> nat \<Rightarrow> u8 list \<Rightarrow> u64 \<Rightarrow> 's \<Rightarrow> 's"

definition DCE_CLIENT_MAX_IPC_MSG_SIZE :: nat where "DCE_CLIENT_MAX_IPC_MSG_SIZE = 4096"

partial_function (option) event_loop ::
  "'v ivc_ops \<Rightarrow> 's client_callback \<Rightarrow> dce_client \<Rightarrow> nat \<Rightarrow> u8 list option \<Rightarrow> 's \<Rightarrow> 'v tegra_dce \<Rightarrow> ('s \<times> 'v tegra_dce) option"
  where
  "event_loop ops cb cl f data s d = do {
     avail \<leftarrow> dce_ipc_is_data_available ops (unat (cl_int_type cl)) d;
     if \<not> avail then Some (s, d)
     else do {
       (r, data, d) \<leftarrow> dce_ipc_read_message ops (unat (cl_int_type cl)) data DCE_CLIENT_MAX_IPC_MSG_SIZE d;
       if isl r then Some (s, d)
       else event_loop ops cb cl f data
              (cb f (cl_handle cl) (cl_type cl) DCE_CLIENT_MAX_IPC_MSG_SIZE (the data) (cl_data cl) s) d } }"

definition dce_client_process_event_ipc ::
  "'v ivc_ops \<Rightarrow> 's client_callback \<Rightarrow> nat option \<Rightarrow> 's \<Rightarrow> 'v tegra_dce \<Rightarrow> ('s \<times> 'v tegra_dce) option" where
  "dce_client_process_event_ipc ops cb p s d =
     (case p of
        None \<Rightarrow> Some (s, d)
      | Some i \<Rightarrow>
          let cl = client_handles d ! i
          in (case cl_callback cl of
                None \<Rightarrow> Some (s, d)
              | Some f \<Rightarrow>
                  if unat (cl_type cl) \<noteq> DCE_CLIENT_IPC_TYPE_RM_EVENT then Some (s, d)
                  else
                    let (ok, d) = dce_kzalloc d
                    in if \<not> ok then Some (s, d)
                       else event_loop ops cb cl f (Some (replicate DCE_CLIENT_MAX_IPC_MSG_SIZE 0)) s d))"

definition dce_client_async_event_work ::
  "'v ivc_ops \<Rightarrow> 's client_callback \<Rightarrow> nat \<Rightarrow> 's \<Rightarrow> 'v tegra_dce \<Rightarrow> ('s \<times> 'v tegra_dce) option" where
  "dce_client_async_event_work ops cb w s d = do {
     (s, d) \<leftarrow> dce_client_process_event_ipc ops cb (d_clients d ! DCE_CLIENT_IPC_TYPE_RM_EVENT) s d;
     Some (s, d\<lparr>async_in_use := (async_in_use d)[w := False]\<rparr>) }"

end
