(* ===== verification/Dce_Events.thy ===== *)
theory Dce_Events imports Dce_Ipc begin

text \<open>
  The events that the driver itself requests, whose handlers send something and wait: a boot command
  (\<open>dce-bootstrap.c\<close>), the boot of the firmware, an admin message (\<open>dce-admin.c\<close>) and the entry into
  suspend (\<open>dce-pm.c\<close>); then the whole event table of \<open>dce-fsm.c\<close> and \<open>dce_fsm_post_event\<close>.  The
  \<open>void *data\<close> of an event is a value of \<open>fsm_params\<close>; an admin message is an object of the heap.
\<close>

datatype fsm_params = No_params | Mbox_cmd u32 nat | Admin_msg nat

section \<open>Boot status\<close>

definition DCE_EARLY_INIT_START :: u32 where "DCE_EARLY_INIT_START = DCE_BIT 31"
definition DCE_EARLY_INIT_FAILED :: u32 where "DCE_EARLY_INIT_FAILED = DCE_BIT 30"
definition DCE_EARLY_INIT_DONE :: u32 where "DCE_EARLY_INIT_DONE = DCE_BIT 29"
definition DCE_FW_EARLY_BOOT_START :: u32 where "DCE_FW_EARLY_BOOT_START = DCE_BIT 16"
definition DCE_FW_EARLY_BOOT_FAILED :: u32 where "DCE_FW_EARLY_BOOT_FAILED = DCE_BIT 15"
definition DCE_FW_EARLY_BOOT_DONE :: u32 where "DCE_FW_EARLY_BOOT_DONE = DCE_BIT 14"
definition DCE_FW_BOOTSTRAP_START :: u32 where "DCE_FW_BOOTSTRAP_START = DCE_BIT 13"
definition DCE_FW_BOOTSTRAP_FAILED :: u32 where "DCE_FW_BOOTSTRAP_FAILED = DCE_BIT 12"
definition DCE_FW_BOOTSTRAP_DONE :: u32 where "DCE_FW_BOOTSTRAP_DONE = DCE_BIT 11"
definition DCE_FW_ADMIN_SEQ_START :: u32 where "DCE_FW_ADMIN_SEQ_START = DCE_BIT 10"
definition DCE_FW_ADMIN_SEQ_FAILED :: u32 where "DCE_FW_ADMIN_SEQ_FAILED = DCE_BIT 9"
definition DCE_FW_ADMIN_SEQ_DONE :: u32 where "DCE_FW_ADMIN_SEQ_DONE = DCE_BIT 8"
definition DCE_FW_SUSPENDED :: u32 where "DCE_FW_SUSPENDED = DCE_BIT 2"
definition DCE_STATUS_FAILED :: u32 where "DCE_STATUS_FAILED = DCE_BIT 0"

definition boot_status_set :: "u32 \<Rightarrow> 'v tegra_dce \<Rightarrow> 'v tegra_dce" where
  "boot_status_set b d = d\<lparr>boot_status := boot_status d OR b\<rparr>"

definition dce_is_bootcmds_done :: "'v tegra_dce \<Rightarrow> bool" where
  "dce_is_bootcmds_done d \<longleftrightarrow> boot_status d AND DCE_FW_BOOTSTRAP_DONE \<noteq> 0"

definition dce_set_boot_complete :: "bool \<Rightarrow> 'v tegra_dce \<Rightarrow> 'v tegra_dce" where
  "dce_set_boot_complete val d =
     (let d = d\<lparr>boot_complete := val\<rparr>
      in if \<not> val then d\<lparr>boot_status := boot_status d AND NOT DCE_FW_BOOT_DONE\<rparr> else d)"

section \<open>Boot commands\<close>

definition DCE_BOOT_CMD_ERR_FLAG :: u32 where "DCE_BOOT_CMD_ERR_FLAG = DCE_BIT 23"

text \<open>The result of the wait itself is not returned.\<close>

definition dce_mailbox_wait_boot_interface :: "'v ivc_ops \<Rightarrow> 'v tegra_dce \<Rightarrow> (ret \<times> 'v tegra_dce) option" where
  "dce_mailbox_wait_boot_interface ops d = do {
     (_, d) \<leftarrow> dce_wait_interruptible ops DCE_WAIT_BOOT_CMD d;
     status \<leftarrow> dce_mailbox_get_interface_status DCE_MAILBOX_BOOT_INTERFACE d;
     if status AND DCE_BOOT_CMD_ERR_FLAG \<noteq> 0 then Some (Inl EBADE, d) else Some (OK, d) }"

text \<open>The wait functions a mailbox interface can have.\<close>

definition dce_mailbox_wait :: "'v ivc_ops \<Rightarrow> mb_wait \<Rightarrow> 'v tegra_dce \<Rightarrow> (ret \<times> 'v tegra_dce) option" where
  "dce_mailbox_wait ops f d = (case f of Wait_boot_interface \<Rightarrow> dce_mailbox_wait_boot_interface ops d)"

definition dce_handle_boot_cmd_requested_event :: "'v ivc_ops \<Rightarrow> (fsm_params, 'v) fsm_handler" where
  "dce_handle_boot_cmd_requested_event ops params d =
     (case params of
        Mbox_cmd cmd interface \<Rightarrow> dce_handle_mailbox_send_cmd_sync (dce_mailbox_wait ops) cmd interface d
      | _ \<Rightarrow> None)"

section \<open>Firmware boot\<close>

definition DCE_BOOT_SEMA :: u8 where "DCE_BOOT_SEMA = 0"
definition DCE_BOOT_COMPLETE :: u32 where "DCE_BOOT_COMPLETE = DCE_BIT 0"

definition dce_fw_boot_complete :: "'v tegra_dce \<Rightarrow> bool option" where
  "dce_fw_boot_complete d = do {
     val \<leftarrow> dce_ss_get_state DCE_BOOT_SEMA d;
     Some (val AND DCE_BOOT_COMPLETE \<noteq> 0) }"

definition dce_request_fw_boot_complete :: "'v tegra_dce \<Rightarrow> 'v tegra_dce option" where
  "dce_request_fw_boot_complete d = dce_ss_set 31 DCE_BOOT_SEMA d"

definition dce_handle_boot_complete_requested_event :: "'v ivc_ops \<Rightarrow> (fsm_params, 'v) fsm_handler" where
  "dce_handle_boot_complete_requested_event ops params d = do {
     let d = boot_status_set DCE_FW_EARLY_BOOT_START d;
     complete \<leftarrow> dce_fw_boot_complete d;
     (ret, d) \<leftarrow>
       (if complete
        then do {
          (ret, d) \<leftarrow> post_received EVENT_ID_DCE_BOOT_COMPLETE_RECEIVED d;
          Some (ret, dce_cond_wait_reset DCE_WAIT_BOOT_COMPLETE d) }
        else do {
          d \<leftarrow> dce_request_fw_boot_complete d;
          dce_wait_interruptible ops DCE_WAIT_BOOT_COMPLETE d });
     if \<not> isl ret
     then Some (ret, boot_status_set DCE_FW_EARLY_BOOT_DONE (dce_set_boot_complete True d))
     else Some (ret, boot_status_set DCE_FW_EARLY_BOOT_FAILED d) }"

section \<open>Admin messages\<close>

definition DCE_ADMIN_CMD_SIZE :: nat where "DCE_ADMIN_CMD_SIZE = 40"
definition DCE_ADMIN_RESP_SIZE :: nat where "DCE_ADMIN_RESP_SIZE = 1728"

definition dce_admin_allocate_message :: "'v tegra_dce \<Rightarrow> nat option \<times> 'v tegra_dce" where
  "dce_admin_allocate_message d =
     (let (ok, d) = dce_kzalloc d
      in if \<not> ok then (None, d)
         else
           let (ok, d) = dce_kzalloc d
           in if \<not> ok then (None, d)
              else
                let (ok, d) = dce_kzalloc d
                in if \<not> ok then (None, d)
                   else
                     let p = msg_next d
                     in (Some p, d\<lparr>msg_next := Suc p, msg_heap := (msg_heap d)
                           (p \<mapsto> \<lparr>tx_data = replicate DCE_ADMIN_CMD_SIZE 0, rx_data = replicate DCE_ADMIN_RESP_SIZE 0\<rparr>)\<rparr>))"

text \<open>\<open>None\<close>: the message is not allocated (any more).\<close>

definition dce_admin_free_message :: "nat option \<Rightarrow> 'v tegra_dce \<Rightarrow> 'v tegra_dce option" where
  "dce_admin_free_message msg d =
     (case msg of
        None \<Rightarrow> Some d
      | Some p \<Rightarrow> do { m \<leftarrow> msg_heap d p; Some (d\<lparr>msg_heap := (msg_heap d)(p := None)\<rparr>) })"

text \<open>Stores into the command, loads from the response.\<close>

definition msg_store32 :: "nat \<Rightarrow> u32 \<Rightarrow> nat \<Rightarrow> 'v tegra_dce \<Rightarrow> 'v tegra_dce option" where
  "msg_store32 off v p d = do {
     m \<leftarrow> msg_heap d p;
     if length (tx_data m) < off + 4 then None
     else Some (d\<lparr>msg_heap := (msg_heap d)
       (p \<mapsto> m\<lparr>tx_data := take off (tx_data m) @ le32 v @ drop (off + 4) (tx_data m)\<rparr>)\<rparr>) }"

definition msg_store64 :: "nat \<Rightarrow> u64 \<Rightarrow> nat \<Rightarrow> 'v tegra_dce \<Rightarrow> 'v tegra_dce option" where
  "msg_store64 off v p d = do {
     d \<leftarrow> msg_store32 off (ucast v) p d;
     msg_store32 (off + 4) (ucast (drop_bit 32 v)) p d }"

definition msg_error :: "nat \<Rightarrow> 'v tegra_dce \<Rightarrow> u32 option" where
  "msg_error p d = do {
     m \<leftarrow> msg_heap d p;
     if length (rx_data m) < 4 then None else Some (of_le32 (rx_data m)) }"

definition dce_admin_handle_ipc_requested_event :: "'v ivc_ops \<Rightarrow> (fsm_params, 'v) fsm_handler" where
  "dce_admin_handle_ipc_requested_event ops params d =
     (if \<not> dce_is_bootcmds_done d then Some (Inl EINVAL, d)
      else (case params of Admin_msg p \<Rightarrow> dce_ipc_send_message_sync ops 0 p d | _ \<Rightarrow> None))"

section \<open>Suspend\<close>

definition DCE_ADMIN_CMD_ENTER_SC7 :: u32 where "DCE_ADMIN_CMD_ENTER_SC7 = 9"

definition dce_admin_send_enter_sc7 :: "'v ivc_ops \<Rightarrow> nat option \<Rightarrow> 'v tegra_dce \<Rightarrow> (ret \<times> 'v tegra_dce) option" where
  "dce_admin_send_enter_sc7 ops msg d =
     (case msg of
        None \<Rightarrow> Some (Inl EPERM, d)
      | Some p \<Rightarrow> do {
          d \<leftarrow> msg_store32 0 DCE_ADMIN_CMD_ENTER_SC7 p d;
          m \<leftarrow> msg_heap d p;
          (ret, d) \<leftarrow> dce_ipc_send_message ops 0 (Some (tx_data m)) (length (tx_data m)) d;
          if isl ret then Some (ret, d) else dce_wait_interruptible ops DCE_WAIT_SC7_ENTER d })"

text \<open>An allocation failure leaves the return value at 0.\<close>

definition dce_pm_handle_sc7_enter_requested_event :: "'v ivc_ops \<Rightarrow> (fsm_params, 'v) fsm_handler" where
  "dce_pm_handle_sc7_enter_requested_event ops params d = do {
     let (msg, d) = dce_admin_allocate_message d;
     (ret, d) \<leftarrow>
       (if msg = None then Some (OK, d)
        else do {
          (ret, d) \<leftarrow> dce_admin_send_enter_sc7 ops msg d;
          if isl ret then Some (ret, d)
          else Some (ret, boot_status_set DCE_FW_SUSPENDED (dce_set_boot_complete False d)) });
     d \<leftarrow> dce_admin_free_message msg d;
     Some (ret, d) }"

section \<open>The event table\<close>

definition event_process_table :: "'v ivc_ops \<Rightarrow> (fsm_params, 'v) event_table" where
  "event_process_table ops =
    [(EVENT_ID_DCE_FSM_START, Some dce_handle_fsm_start_event),
     (EVENT_ID_DCE_BOOT_COMPLETE_REQUESTED, Some (dce_handle_boot_complete_requested_event ops)),
     (EVENT_ID_DCE_BOOT_COMPLETE_RECEIVED, Some dce_handle_boot_complete_received_event),
     (EVENT_ID_DCE_BOOT_CMD_MSG_REQUESTED, Some (dce_handle_boot_cmd_requested_event ops)),
     (EVENT_ID_DCE_BOOT_CMD_MSG_RECEIVED, Some dce_handle_boot_cmd_received_event),
     (EVENT_ID_DCE_ADMIN_IPC_MSG_REQUESTED, Some (dce_admin_handle_ipc_requested_event ops)),
     (EVENT_ID_DCE_ADMIN_IPC_MSG_RECEIVED, Some dce_admin_handle_ipc_received_event),
     (EVENT_ID_DCE_SC7_ENTER_REQUESTED, Some (dce_pm_handle_sc7_enter_requested_event ops)),
     (EVENT_ID_DCE_SC7_ENTERED_RECEIVED, Some dce_pm_handle_sc7_enter_received_event),
     (EVENT_ID_DCE_SC7_EXIT_RECEIVED, Some dce_pm_handle_sc7_exit_received_event),
     (EVENT_ID_DCE_LOG_REQUESTED, Some dce_handle_event_stub),
     (EVENT_ID_DCE_LOG_READY_RECEIVED, Some dce_handle_event_stub),
     (EVENT_ID_DCE_ABORT_RECEIVED, Some dce_handle_event_stub),
     (EVENT_ID_DCE_CRASH_LOG_RECEIVED, Some dce_handle_event_stub),
     (EVENT_ID_DCE_LOG_OVERFLOW_RECEIVED, Some dce_handle_event_stub),
     (EVENT_ID_DCE_FSM_STOP, Some dce_handle_event_stub)]"

definition dce_fsm_post_event :: "'v ivc_ops \<Rightarrow> dce_fsm_event \<Rightarrow> (fsm_params, 'v) fsm_handler" where
  "dce_fsm_post_event ops event params d = fsm_post_with (event_process_table ops) event params d"

definition dce_fsm_stop :: "'v ivc_ops \<Rightarrow> 'v tegra_dce \<Rightarrow> 'v tegra_dce option" where
  "dce_fsm_stop ops d = map_option snd (dce_fsm_post_event ops EVENT_ID_DCE_FSM_STOP No_params d)"

text \<open>The table restricted to the other events gives the same results, so what an interrupt posts is an
  event of the whole machine.\<close>

lemma post_event_received:
  assumes "ev \<notin> {EVENT_ID_DCE_BOOT_COMPLETE_REQUESTED, EVENT_ID_DCE_BOOT_CMD_MSG_REQUESTED,
    EVENT_ID_DCE_ADMIN_IPC_MSG_REQUESTED, EVENT_ID_DCE_SC7_ENTER_REQUESTED}"
  shows "dce_fsm_post_event ops ev params d = post_received ev d"
  using assms unfolding dce_fsm_post_event_def post_received_def fsm_post_with_def
  by (cases "dce_fsm_validate_event ev d"; cases ev; simp add: event_process_table_def received_table_def Let_def
      dce_handle_fsm_start_event_def dce_handle_event_stub_def dce_handle_boot_cmd_received_event_def
      dce_handle_boot_complete_received_event_def dce_admin_handle_ipc_received_event_def
      dce_pm_handle_sc7_enter_received_event_def dce_pm_handle_sc7_exit_received_event_def)

text \<open>The four events that wait, with their handlers.\<close>

lemma post_event_requested:
  "dce_fsm_post_event ops EVENT_ID_DCE_BOOT_CMD_MSG_REQUESTED params d =
    (case dce_fsm_validate_event EVENT_ID_DCE_BOOT_CMD_MSG_REQUESTED d of
       Inl e \<Rightarrow> Some (Inl e, d)
     | Inr _ \<Rightarrow> do {
         (ret, d') \<leftarrow> dce_handle_boot_cmd_requested_event ops params (dce_fsm_set_state EVENT_ID_DCE_BOOT_CMD_MSG_REQUESTED d);
         Some (ret, if isl ret then d'\<lparr>c_state := c_state d\<rparr> else d') })"
  "dce_fsm_post_event ops EVENT_ID_DCE_ADMIN_IPC_MSG_REQUESTED params d =
    (case dce_fsm_validate_event EVENT_ID_DCE_ADMIN_IPC_MSG_REQUESTED d of
       Inl e \<Rightarrow> Some (Inl e, d)
     | Inr _ \<Rightarrow> do {
         (ret, d') \<leftarrow> dce_admin_handle_ipc_requested_event ops params (dce_fsm_set_state EVENT_ID_DCE_ADMIN_IPC_MSG_REQUESTED d);
         Some (ret, if isl ret then d'\<lparr>c_state := c_state d\<rparr> else d') })"
  "dce_fsm_post_event ops EVENT_ID_DCE_SC7_ENTER_REQUESTED params d =
    (case dce_fsm_validate_event EVENT_ID_DCE_SC7_ENTER_REQUESTED d of
       Inl e \<Rightarrow> Some (Inl e, d)
     | Inr _ \<Rightarrow> do {
         (ret, d') \<leftarrow> dce_pm_handle_sc7_enter_requested_event ops params (dce_fsm_set_state EVENT_ID_DCE_SC7_ENTER_REQUESTED d);
         Some (ret, if isl ret then d'\<lparr>c_state := c_state d\<rparr> else d') })"
  "dce_fsm_post_event ops EVENT_ID_DCE_BOOT_COMPLETE_REQUESTED params d =
    (case dce_fsm_validate_event EVENT_ID_DCE_BOOT_COMPLETE_REQUESTED d of
       Inl e \<Rightarrow> Some (Inl e, d)
     | Inr _ \<Rightarrow> do {
         (ret, d') \<leftarrow> dce_handle_boot_complete_requested_event ops params (dce_fsm_set_state EVENT_ID_DCE_BOOT_COMPLETE_REQUESTED d);
         Some (ret, if isl ret then d'\<lparr>c_state := c_state d\<rparr> else d') })"
  unfolding dce_fsm_post_event_def fsm_post_with_def
  by (simp_all add: event_process_table_def Let_def split: sum.splits)

end
