(* ===== verification/Dce_Admin.thy ===== *)
theory Dce_Admin imports Dce_Events begin

text \<open>
  The admin interface (\<open>dce-admin.c\<close>): setup and teardown of the channels and their region, the commands
  of the admin protocol with the response's error word, and the sequence that connects the clients'
  channels at boot.
\<close>

section \<open>Channels\<close>

definition dce_admin_ivc_channel_reset :: "'v ivc_ops \<Rightarrow> 'v tegra_dce \<Rightarrow> 'v tegra_dce option" where
  "dce_admin_ivc_channel_reset ops d = dce_ipc_channel_reset ops 0 d"

definition dce_admin_channel_deinit :: "'v tegra_dce \<Rightarrow> 'v tegra_dce option" where
  "dce_admin_channel_deinit d = do {
     d \<leftarrow> dce_ipc_channel_deinit 0 d;
     d \<leftarrow> dce_ipc_channel_deinit 1 d;
     d \<leftarrow> dce_ipc_channel_deinit 2 d;
     dce_ipc_channel_deinit 3 d }"

text \<open>The loop over the channel types, stopping at the first error.\<close>

fun channel_init_loop :: "'v ivc_ops \<Rightarrow> nat list \<Rightarrow> 'v tegra_dce \<Rightarrow> (ret \<times> 'v tegra_dce) option" where
  "channel_init_loop ops [] d = Some (OK, d)"
| "channel_init_loop ops (i # is) d = do {
     (ret, d) \<leftarrow> dce_ipc_channel_init ops i d;
     if isl ret then Some (ret, d) else channel_init_loop ops is d }"

definition dce_admin_channel_init :: "'v ivc_ops \<Rightarrow> 'v tegra_dce \<Rightarrow> (ret \<times> 'v tegra_dce) option" where
  "dce_admin_channel_init ops d = do {
     (ret, d) \<leftarrow> channel_init_loop ops [0, 1, 2, 3] d;
     if isl ret then do { d \<leftarrow> dce_admin_channel_deinit d; Some (ret, d) } else Some (ret, d) }"

definition dce_admin_init :: "'v ivc_ops \<Rightarrow> u64 option \<Rightarrow> 'v tegra_dce \<Rightarrow> (ret \<times> 'v tegra_dce) option" where
  "dce_admin_init ops dma_alloc d = do {
     let (ret, d) = dce_ipc_allocate_region ops dma_alloc (boot_status_set DCE_EARLY_INIT_START d);
     if isl ret then Some (ret, boot_status_set DCE_EARLY_INIT_FAILED d)
     else do {
       (ret, d) \<leftarrow> dce_admin_channel_init ops d;
       if isl ret then Some (ret, boot_status_set DCE_EARLY_INIT_FAILED (dce_ipc_free_region d))
       else Some (OK, boot_status_set DCE_EARLY_INIT_DONE d) } }"

definition dce_admin_deinit :: "'v tegra_dce \<Rightarrow> 'v tegra_dce option" where
  "dce_admin_deinit d = do {
     d \<leftarrow> dce_admin_channel_deinit d;
     dce_mailbox_deinit_interface DCE_MAILBOX_ADMIN_INTERFACE (dce_ipc_free_region d) }"

definition dce_admin_get_ipc_channel_info :: "'v tegra_dce \<Rightarrow> (errno + u8 \<times> u32 \<times> u64 \<times> u64) option" where
  "dce_admin_get_ipc_channel_info d = dce_ipc_get_channel_info 0 d"

section \<open>Commands\<close>

definition DCE_ADMIN_CMD_VERSION :: u32 where "DCE_ADMIN_CMD_VERSION = 0"
definition DCE_ADMIN_CMD_ECHO :: u32 where "DCE_ADMIN_CMD_ECHO = 3"
definition DCE_ADMIN_CMD_IPC_CREATE :: u32 where "DCE_ADMIN_CMD_IPC_CREATE = 7"
definition DCE_ADMIN_CMD_PREPARE_SC7 :: u32 where "DCE_ADMIN_CMD_PREPARE_SC7 = 8"
definition DCE_ADMIN_CMD_EXT_TEST :: u32 where "DCE_ADMIN_CMD_EXT_TEST = 0x13"
definition DCE_ADMIN_CMD_RM_BOOTSTRAP :: u32 where "DCE_ADMIN_CMD_RM_BOOTSTRAP = 0x15"

definition dce_admin_send_msg :: "'v ivc_ops \<Rightarrow> nat \<Rightarrow> 'v tegra_dce \<Rightarrow> (ret \<times> 'v tegra_dce) option" where
  "dce_admin_send_msg ops p d = dce_fsm_post_event ops EVENT_ID_DCE_ADMIN_IPC_MSG_REQUESTED (Admin_msg p) d"

text \<open>The echo returns the firmware's error code as a positive number: \<open>Inr 0\<close> is success.\<close>

definition dce_admin_send_cmd_echo :: "'v ivc_ops \<Rightarrow> nat option \<Rightarrow> 'v tegra_dce \<Rightarrow> ((errno + u32) \<times> 'v tegra_dce) option" where
  "dce_admin_send_cmd_echo ops msg d =
     (case msg of
        None \<Rightarrow> Some (Inl EPERM, d)
      | Some p \<Rightarrow>
          if \<not> dce_is_bootstrap_done d then Some (Inl EPERM, d)
          else do {
            d \<leftarrow> msg_store32 0 DCE_ADMIN_CMD_ECHO p d;
            (ret, d) \<leftarrow> dce_admin_send_msg ops p d;
            (case ret of
               Inl e \<Rightarrow> Some (Inl e, d)
             | Inr _ \<Rightarrow> do { err \<leftarrow> msg_error p d; Some (Inr err, d) }) })"

definition dce_admin_send_cmd_ext_test :: "'v ivc_ops \<Rightarrow> nat option \<Rightarrow> 'v tegra_dce \<Rightarrow> (ret \<times> 'v tegra_dce) option" where
  "dce_admin_send_cmd_ext_test ops msg d =
     (case msg of
        None \<Rightarrow> Some (Inl EPERM, d)
      | Some p \<Rightarrow>
          if \<not> dce_is_bootstrap_done d then Some (Inl EPERM, d)
          else do {
            d \<leftarrow> msg_store32 0 DCE_ADMIN_CMD_EXT_TEST p d;
            dce_admin_send_msg ops p d })"

definition dce_admin_send_cmd_ver :: "'v ivc_ops \<Rightarrow> nat \<Rightarrow> 'v tegra_dce \<Rightarrow> (ret \<times> 'v tegra_dce) option" where
  "dce_admin_send_cmd_ver ops p d = do {
     d \<leftarrow> msg_store32 0 DCE_ADMIN_CMD_VERSION p d;
     dce_admin_send_msg ops p d }"

definition dce_admin_send_prepare_sc7 :: "'v ivc_ops \<Rightarrow> nat option \<Rightarrow> 'v tegra_dce \<Rightarrow> (ret \<times> 'v tegra_dce) option" where
  "dce_admin_send_prepare_sc7 ops msg d =
     (case msg of
        None \<Rightarrow> Some (Inl EPERM, d)
      | Some p \<Rightarrow> do {
          d \<leftarrow> msg_store32 0 DCE_ADMIN_CMD_PREPARE_SC7 p d;
          dce_admin_send_msg ops p d })"

text \<open>\<open>struct dce_admin_ipc_create_args\<close> of the command, with its alignment: the type at byte 8, the two
  addresses at 16 and 24, the frame size at 32 and the number of frames at 36.\<close>

definition store_ipc_create :: "u32 \<Rightarrow> u8 \<times> u32 \<times> u64 \<times> u64 \<Rightarrow> nat \<Rightarrow> 'v tegra_dce \<Rightarrow> 'v tegra_dce option" where
  "store_ipc_create typ q p d =
     (case q of (nfr, fsz, rx, tx) \<Rightarrow> do {
        d \<leftarrow> msg_store32 8 typ p d;
        d \<leftarrow> msg_store64 16 tx p d;
        d \<leftarrow> msg_store64 24 rx p d;
        d \<leftarrow> msg_store32 32 fsz p d;
        msg_store32 36 (ucast nfr) p d })"

text \<open>The loop over the client channels.  A channel the firmware refuses ends it with the return value of
  the exchange, which is 0.\<close>

fun setup_clients_loop :: "'v ivc_ops \<Rightarrow> nat \<Rightarrow> nat list \<Rightarrow> 'v tegra_dce \<Rightarrow> (ret \<times> 'v tegra_dce) option" where
  "setup_clients_loop ops p [] d = Some (OK, d)"
| "setup_clients_loop ops p (i # is) d = do {
     info \<leftarrow> dce_ipc_get_channel_info i d;
     (case info of
        Inl _ \<Rightarrow> setup_clients_loop ops p is d
      | Inr q \<Rightarrow> do {
          typ \<leftarrow> dce_ipc_get_ipc_type i d;
          d \<leftarrow> store_ipc_create typ q p d;
          (ret, d) \<leftarrow> dce_admin_send_msg ops p d;
          if isl ret then Some (ret, d)
          else do {
            err \<leftarrow> msg_error p d;
            if err \<noteq> 0 then Some (ret, d)
            else do {
              d \<leftarrow> dce_ipc_channel_reset ops i d;
              setup_clients_loop ops p is d } } }) }"

definition dce_admin_setup_clients_ipc :: "'v ivc_ops \<Rightarrow> nat \<Rightarrow> 'v tegra_dce \<Rightarrow> (ret \<times> 'v tegra_dce) option" where
  "dce_admin_setup_clients_ipc ops p d = do {
     d \<leftarrow> msg_store32 0 DCE_ADMIN_CMD_IPC_CREATE p d;
     setup_clients_loop ops p [1, 2, 3] d }"

definition dce_admin_send_rm_bootstrap :: "'v ivc_ops \<Rightarrow> nat \<Rightarrow> 'v tegra_dce \<Rightarrow> (ret \<times> 'v tegra_dce) option" where
  "dce_admin_send_rm_bootstrap ops p d = do {
     d \<leftarrow> msg_store32 0 DCE_ADMIN_CMD_RM_BOOTSTRAP p d;
     (ret, d) \<leftarrow> dce_admin_send_msg ops p d;
     if isl ret then Some (ret, d)
     else do {
       err \<leftarrow> msg_error p d;
       Some (if err \<noteq> 0 then Inl EINVAL else OK, d) } }"

definition dce_start_admin_seq :: "'v ivc_ops \<Rightarrow> 'v tegra_dce \<Rightarrow> (ret \<times> 'v tegra_dce) option" where
  "dce_start_admin_seq ops d =
     (let (msg, d) = dce_admin_allocate_message d
      in (case msg of
            None \<Rightarrow> Some (Inl EPERM, d)
          | Some p \<Rightarrow> do {
              (ret, d) \<leftarrow> dce_admin_send_cmd_ver ops p (boot_status_set DCE_FW_ADMIN_SEQ_START d);
              (ret, d) \<leftarrow> (if isl ret then Some (ret, d) else dce_admin_setup_clients_ipc ops p d);
              (ret, d) \<leftarrow> (if isl ret then Some (ret, d) else dce_admin_send_rm_bootstrap ops p d);
              let d = (if isl ret then d else boot_status_set DCE_FW_ADMIN_SEQ_DONE d);
              d \<leftarrow> dce_admin_free_message (Some p) d;
              Some (ret, if isl ret then boot_status_set DCE_FW_ADMIN_SEQ_FAILED d else d) }))"

end
