(* ===== verification/Dce_Boot.thy ===== *)
theory Dce_Boot imports Dce_Admin begin

text \<open>
  The boot of the firmware (\<open>dce-bootstrap.c\<close>): the boot commands with their bit fields
  (\<open>dce-boot-cmds.h\<close>), sent one by one over the boot mailbox, the bootstrap sequence, the boot flow that
  continues with the admin sequence, and the work that starts it all.
\<close>

section \<open>Fields of a boot command\<close>

definition DCE_BOOT_CMD_SET :: "u32 \<Rightarrow> u32 \<Rightarrow> u32" where "DCE_BOOT_CMD_SET x v = DCE_INSERT x 30 27 v"
definition DCE_BOOT_CMD_GET :: "u32 \<Rightarrow> u32" where "DCE_BOOT_CMD_GET x = DCE_EXTRACT x 30 27"
definition DCE_BOOT_CMD_SET_HILO :: "u32 \<Rightarrow> u32 \<Rightarrow> u32" where "DCE_BOOT_CMD_SET_HILO x v = DCE_INSERT x 25 25 v"
definition DCE_BOOT_CMD_GET_HILO :: "u32 \<Rightarrow> u32" where "DCE_BOOT_CMD_GET_HILO x = DCE_EXTRACT x 25 25"
definition DCE_BOOT_CMD_SET_RDWR :: "u32 \<Rightarrow> u32 \<Rightarrow> u32" where "DCE_BOOT_CMD_SET_RDWR x v = DCE_INSERT x 24 24 v"
definition DCE_BOOT_CMD_GET_RDWR :: "u32 \<Rightarrow> u32" where "DCE_BOOT_CMD_GET_RDWR x = DCE_EXTRACT x 24 24"
definition DCE_BOOT_CMD_PARM_SET :: "u32 \<Rightarrow> u32 \<Rightarrow> u32" where "DCE_BOOT_CMD_PARM_SET x v = DCE_INSERT x 19 0 v"
definition DCE_BOOT_CMD_PARM_GET :: "u32 \<Rightarrow> u32" where "DCE_BOOT_CMD_PARM_GET x = DCE_EXTRACT x 19 0"

definition DCE_BOOT_CMD_VERSION :: u32 where "DCE_BOOT_CMD_VERSION = 0"
definition DCE_BOOT_CMD_SET_SID :: u32 where "DCE_BOOT_CMD_SET_SID = 1"
definition DCE_BOOT_CMD_CHANNEL_INIT :: u32 where "DCE_BOOT_CMD_CHANNEL_INIT = 2"
definition DCE_BOOT_CMD_SET_ADDR :: u32 where "DCE_BOOT_CMD_SET_ADDR = 3"
definition DCE_BOOT_CMD_GET_FSIZE :: u32 where "DCE_BOOT_CMD_GET_FSIZE = 4"
definition DCE_BOOT_CMD_SET_NFRAMES :: u32 where "DCE_BOOT_CMD_SET_NFRAMES = 5"
definition DCE_BOOT_CMD_LOCK :: u32 where "DCE_BOOT_CMD_LOCK = 7"
definition DCE_BOOT_CMD_SET_AST_LENGTH :: u32 where "DCE_BOOT_CMD_SET_AST_LENGTH = 8"
definition DCE_BOOT_CMD_SET_AST_IOVA :: u32 where "DCE_BOOT_CMD_SET_AST_IOVA = 9"
definition DCE_BOOT_CMD_SET_FSIZE :: u32 where "DCE_BOOT_CMD_SET_FSIZE = 0x0A"

section \<open>The boot interface\<close>

definition dce_boot_interface_init :: "'v tegra_dce \<Rightarrow> (ret \<times> 'v tegra_dce) option" where
  "dce_boot_interface_init d =
     dce_mailbox_init_interface DCE_MAILBOX_BOOT_INTERFACE 6 7 (Some Wait_boot_interface) None (Some Boot_interface_isr) d"

definition dce_boot_interface_deinit :: "'v tegra_dce \<Rightarrow> 'v tegra_dce option" where
  "dce_boot_interface_deinit d = dce_mailbox_deinit_interface DCE_MAILBOX_BOOT_INTERFACE d"

definition dce_mailbox_send_cmd_sync :: "'v ivc_ops \<Rightarrow> u32 \<Rightarrow> nat \<Rightarrow> 'v tegra_dce \<Rightarrow> (ret \<times> 'v tegra_dce) option" where
  "dce_mailbox_send_cmd_sync ops cmd interface d =
     dce_fsm_post_event ops EVENT_ID_DCE_BOOT_CMD_MSG_REQUESTED (Mbox_cmd cmd interface) d"

section \<open>The commands\<close>

definition dce_send_version_cmd :: "'v ivc_ops \<Rightarrow> 'v tegra_dce \<Rightarrow> (ret \<times> 'v tegra_dce) option" where
  "dce_send_version_cmd ops d =
     dce_mailbox_send_cmd_sync ops (DCE_BOOT_CMD_SET 0 DCE_BOOT_CMD_VERSION) DCE_MAILBOX_BOOT_INTERFACE d"

definition dce_send_set_sid_cmd :: "'v ivc_ops \<Rightarrow> 'v tegra_dce \<Rightarrow> (ret \<times> 'v tegra_dce) option" where
  "dce_send_set_sid_cmd ops d =
     dce_mailbox_send_cmd_sync ops
       (DCE_BOOT_CMD_SET 0 DCE_BOOT_CMD_SET_SID OR DCE_BOOT_CMD_PARM_SET 0 (ucast (stream_id d)))
       DCE_MAILBOX_BOOT_INTERFACE d"

definition dce_send_channel_int_cmd :: "'v ivc_ops \<Rightarrow> 'v tegra_dce \<Rightarrow> (ret \<times> 'v tegra_dce) option" where
  "dce_send_channel_int_cmd ops d =
     dce_mailbox_send_cmd_sync ops (DCE_BOOT_CMD_SET 0 DCE_BOOT_CMD_CHANNEL_INIT) DCE_MAILBOX_BOOT_INTERFACE d"

definition dce_send_set_addr_cmd_hi :: "'v ivc_ops \<Rightarrow> u32 \<Rightarrow> u8 \<Rightarrow> 'v tegra_dce \<Rightarrow> (ret \<times> 'v tegra_dce) option" where
  "dce_send_set_addr_cmd_hi ops addr rd_wr d =
     dce_mailbox_send_cmd_sync ops
       (DCE_BOOT_CMD_SET_HILO 0 1 OR DCE_BOOT_CMD_SET_RDWR 0 (ucast rd_wr) OR
        DCE_BOOT_CMD_SET 0 DCE_BOOT_CMD_SET_ADDR OR DCE_BOOT_CMD_PARM_SET 0 addr)
       DCE_MAILBOX_BOOT_INTERFACE d"

definition dce_send_set_addr_cmd_lo :: "'v ivc_ops \<Rightarrow> u32 \<Rightarrow> u8 \<Rightarrow> 'v tegra_dce \<Rightarrow> (ret \<times> 'v tegra_dce) option" where
  "dce_send_set_addr_cmd_lo ops addr rd_wr d =
     dce_mailbox_send_cmd_sync ops
       (DCE_BOOT_CMD_SET_HILO 0 0 OR DCE_BOOT_CMD_SET_RDWR 0 (ucast rd_wr) OR
        DCE_BOOT_CMD_SET 0 DCE_BOOT_CMD_SET_ADDR OR DCE_BOOT_CMD_PARM_SET 0 addr)
       DCE_MAILBOX_BOOT_INTERFACE d"

text \<open>The address is shifted at 64 bits and then passed as a \<open>u32\<close>.\<close>

definition dce_send_set_addr_read_cmd :: "'v ivc_ops \<Rightarrow> u64 \<Rightarrow> 'v tegra_dce \<Rightarrow> (ret \<times> 'v tegra_dce) option" where
  "dce_send_set_addr_read_cmd ops rd_buff d = do {
     (ret, d) \<leftarrow> dce_send_set_addr_cmd_hi ops (ucast (drop_bit 20 rd_buff)) 0 d;
     if isl ret then Some (ret, d) else dce_send_set_addr_cmd_lo ops (ucast rd_buff) 0 d }"

definition dce_send_set_addr_write_cmd :: "'v ivc_ops \<Rightarrow> u64 \<Rightarrow> 'v tegra_dce \<Rightarrow> (ret \<times> 'v tegra_dce) option" where
  "dce_send_set_addr_write_cmd ops wr_buff d = do {
     (ret, d) \<leftarrow> dce_send_set_addr_cmd_hi ops (ucast (drop_bit 20 wr_buff)) 1 d;
     if isl ret then Some (ret, d) else dce_send_set_addr_cmd_lo ops (ucast wr_buff) 1 d }"

definition dce_send_get_fsize_cmd :: "'v ivc_ops \<Rightarrow> 'v tegra_dce \<Rightarrow> (ret \<times> 'v tegra_dce) option" where
  "dce_send_get_fsize_cmd ops d =
     dce_mailbox_send_cmd_sync ops (DCE_BOOT_CMD_SET 0 DCE_BOOT_CMD_GET_FSIZE) DCE_MAILBOX_BOOT_INTERFACE d"

definition dce_send_set_nframes_cmd :: "'v ivc_ops \<Rightarrow> u8 \<Rightarrow> 'v tegra_dce \<Rightarrow> (ret \<times> 'v tegra_dce) option" where
  "dce_send_set_nframes_cmd ops n d =
     dce_mailbox_send_cmd_sync ops
       (DCE_BOOT_CMD_SET 0 DCE_BOOT_CMD_SET_NFRAMES OR DCE_BOOT_CMD_PARM_SET 0 (ucast n)) DCE_MAILBOX_BOOT_INTERFACE d"

definition dce_send_set_fsize_cmd :: "'v ivc_ops \<Rightarrow> u32 \<Rightarrow> 'v tegra_dce \<Rightarrow> (ret \<times> 'v tegra_dce) option" where
  "dce_send_set_fsize_cmd ops fsize d =
     dce_mailbox_send_cmd_sync ops
       (DCE_BOOT_CMD_SET 0 DCE_BOOT_CMD_SET_FSIZE OR DCE_BOOT_CMD_PARM_SET 0 fsize) DCE_MAILBOX_BOOT_INTERFACE d"

definition dce_send_lock_cmd :: "'v ivc_ops \<Rightarrow> 'v tegra_dce \<Rightarrow> (ret \<times> 'v tegra_dce) option" where
  "dce_send_lock_cmd ops d =
     dce_mailbox_send_cmd_sync ops (DCE_BOOT_CMD_SET 0 DCE_BOOT_CMD_LOCK) DCE_MAILBOX_BOOT_INTERFACE d"

section \<open>The bootstrap sequence\<close>

definition dce_bootstrap_send_ast_iova_info :: "'v ivc_ops \<Rightarrow> 'v tegra_dce \<Rightarrow> (ret \<times> 'v tegra_dce) option" where
  "dce_bootstrap_send_ast_iova_info ops d =
     (case dce_ipc_get_region_iova_info d of
        Inl e \<Rightarrow> Some (Inl e, d)
      | Inr (iova, sz) \<Rightarrow> do {
          (ret, d) \<leftarrow> dce_mailbox_send_cmd_sync ops
            (DCE_BOOT_CMD_SET_HILO 0 1 OR DCE_BOOT_CMD_SET 0 DCE_BOOT_CMD_SET_AST_LENGTH OR
             DCE_BOOT_CMD_PARM_SET 0 (drop_bit 20 sz)) DCE_MAILBOX_BOOT_INTERFACE d;
          if isl ret then Some (ret, d)
          else do {
            (ret, d) \<leftarrow> dce_mailbox_send_cmd_sync ops
              (DCE_BOOT_CMD_SET_HILO 0 0 OR DCE_BOOT_CMD_SET 0 DCE_BOOT_CMD_SET_AST_LENGTH OR
               DCE_BOOT_CMD_PARM_SET 0 sz) DCE_MAILBOX_BOOT_INTERFACE d;
            if isl ret then Some (ret, d)
            else do {
              (ret, d) \<leftarrow> dce_mailbox_send_cmd_sync ops
                (DCE_BOOT_CMD_SET_HILO 0 1 OR DCE_BOOT_CMD_SET 0 DCE_BOOT_CMD_SET_AST_IOVA OR
                 DCE_BOOT_CMD_PARM_SET 0 (ucast (drop_bit 20 iova))) DCE_MAILBOX_BOOT_INTERFACE d;
              if isl ret then Some (ret, d)
              else dce_mailbox_send_cmd_sync ops
                (DCE_BOOT_CMD_SET_HILO 0 0 OR DCE_BOOT_CMD_SET 0 DCE_BOOT_CMD_SET_AST_IOVA OR
                 DCE_BOOT_CMD_PARM_SET 0 (ucast iova)) DCE_MAILBOX_BOOT_INTERFACE d } } })"

definition dce_bootstrap_send_admin_ivc_info :: "'v ivc_ops \<Rightarrow> 'v tegra_dce \<Rightarrow> (ret \<times> 'v tegra_dce) option" where
  "dce_bootstrap_send_admin_ivc_info ops d = do {
     info \<leftarrow> dce_admin_get_ipc_channel_info d;
     (case info of
        Inl e \<Rightarrow> Some (Inl e, d)
      | Inr (nfr, fsz, rx, tx) \<Rightarrow> do {
          (ret, d) \<leftarrow> dce_send_set_addr_read_cmd ops tx d;
          if isl ret then Some (ret, d)
          else do {
            (ret, d) \<leftarrow> dce_send_set_addr_write_cmd ops rx d;
            if isl ret then Some (ret, d)
            else do {
              (ret, d) \<leftarrow> dce_send_get_fsize_cmd ops d;
              if isl ret then Some (ret, d)
              else do {
                (ret, d) \<leftarrow> dce_send_set_nframes_cmd ops nfr d;
                if isl ret then Some (ret, d) else dce_send_set_fsize_cmd ops fsz d } } } }) }"

text \<open>The whole sequence, with its two exits.\<close>

definition dce_start_bootstrap_flow :: "'v ivc_ops \<Rightarrow> 'v tegra_dce \<Rightarrow> (ret \<times> 'v tegra_dce) option" where
  "dce_start_bootstrap_flow ops d = do {
     (ret, d) \<leftarrow> dce_send_version_cmd ops (boot_status_set DCE_FW_BOOTSTRAP_START d);
     (ret, d) \<leftarrow> (if isl ret then Some (ret, d) else dce_send_set_sid_cmd ops d);
     (ret, d) \<leftarrow> (if isl ret then Some (ret, d) else dce_bootstrap_send_ast_iova_info ops d);
     (ret, d) \<leftarrow> (if isl ret then Some (ret, d) else dce_bootstrap_send_admin_ivc_info ops d);
     (ret, d) \<leftarrow> (if isl ret then Some (ret, d) else dce_send_channel_int_cmd ops d);
     (ret, d) \<leftarrow> (if isl ret then Some (ret, d) else dce_send_lock_cmd ops d);
     Some (ret, boot_status_set (if isl ret then DCE_FW_BOOTSTRAP_FAILED else DCE_FW_BOOTSTRAP_DONE) d) }"

section \<open>The boot flow\<close>

definition dce_start_boot_flow :: "'v ivc_ops \<Rightarrow> 'v tegra_dce \<Rightarrow> (ret \<times> 'v tegra_dce) option" where
  "dce_start_boot_flow ops d = do {
     (ret, d) \<leftarrow> dce_start_bootstrap_flow ops d;
     (ret, d) \<leftarrow>
       (if isl ret then Some (ret, d)
        else do {
          d \<leftarrow> dce_admin_ivc_channel_reset ops d;
          (ret, d) \<leftarrow> dce_start_admin_seq ops d;
          if isl ret then Some (ret, d)
          else
            let d = boot_status_set DCE_FW_BOOT_DONE d
            in Some (ret, if boot_cond_init d then d\<lparr>boot_broadcasts := Suc (boot_broadcasts d)\<rparr> else d) });
     Some (ret, if isl ret then boot_status_set DCE_STATUS_FAILED d else d) }"

definition dce_bootstrap_work_fn :: "'v ivc_ops \<Rightarrow> 'v tegra_dce \<Rightarrow> 'v tegra_dce option" where
  "dce_bootstrap_work_fn ops d = do {
     (ret, d) \<leftarrow> dce_fsm_post_event ops EVENT_ID_DCE_FSM_START No_params d;
     if isl ret then Some d
     else do {
       (ret, d) \<leftarrow> dce_fsm_post_event ops EVENT_ID_DCE_BOOT_COMPLETE_REQUESTED No_params d;
       if isl ret then Some d else map_option snd (dce_start_boot_flow ops d) } }"

end
