(* ===== verification/Dce_Pm.thy ===== *)
theory Dce_Pm imports Dce_Boot begin

text \<open>
  Suspend and resume (\<open>dce-pm.c\<close>), the resources of waits and works (\<open>dce-worker.c\<close>), and the
  initialisation of the whole driver (\<open>dce-init-deinit.c\<close>).
\<close>

section \<open>Suspend and resume\<close>

definition dce_pm_save_state :: "'v tegra_dce \<Rightarrow> 'v tegra_dce option" where
  "dce_pm_save_state d = do { v \<leftarrow> dce_hsp_ie_read CCPLEX_HSP_IE d; Some (d\<lparr>sc7_hsp_ie := v\<rparr>) }"

definition dce_pm_restore_state :: "'v tegra_dce \<Rightarrow> 'v tegra_dce option" where
  "dce_pm_restore_state d = dce_hsp_ie_write (sc7_hsp_ie d) CCPLEX_HSP_IE d"

definition dce_resume_work_fn :: "'v ivc_ops \<Rightarrow> 'v tegra_dce \<Rightarrow> 'v tegra_dce option" where
  "dce_resume_work_fn ops d = do {
     (ret, d) \<leftarrow> dce_fsm_post_event ops EVENT_ID_DCE_BOOT_COMPLETE_REQUESTED No_params d;
     if isl ret then Some d else map_option snd (dce_start_boot_flow ops d) }"

text \<open>Every failure is returned as -1.\<close>

definition dce_pm_enter_sc7 :: "'v ivc_ops \<Rightarrow> 'v tegra_dce \<Rightarrow> (ret \<times> 'v tegra_dce) option" where
  "dce_pm_enter_sc7 ops d =
     (if \<not> dce_is_bootstrap_done d then Some (OK, d)
      else
        let (msg, d) = dce_admin_allocate_message d
        in if msg = None then Some (Inl EPERM, d)
           else do {
             d \<leftarrow> dce_pm_save_state d;
             (ret, d) \<leftarrow> dce_admin_send_prepare_sc7 ops msg d;
             (ret, d) \<leftarrow>
               (if isl ret then Some (Inl EPERM, d)
                else do {
                  (ret, d) \<leftarrow> dce_fsm_post_event ops EVENT_ID_DCE_SC7_ENTER_REQUESTED No_params d;
                  Some (if isl ret then Inl EPERM else OK, d) });
             d \<leftarrow> dce_admin_free_message msg d;
             Some (ret, d) })"

definition dce_pm_exit_sc7 :: "'v ivc_ops \<Rightarrow> 'v tegra_dce \<Rightarrow> (ret \<times> 'v tegra_dce) option" where
  "dce_pm_exit_sc7 ops d = do {
     d \<leftarrow> dce_pm_restore_state d;
     dce_fsm_post_event ops EVENT_ID_DCE_SC7_EXIT_RECEIVED No_params d }"

section \<open>Waits and works\<close>

text \<open>\<open>dce_cond_init\<close> always succeeds, and so does \<open>dce_init_work\<close>.\<close>

definition dce_work_cond_sw_resource_init :: "'v tegra_dce \<Rightarrow> ret \<times> 'v tegra_dce" where
  "dce_work_cond_sw_resource_init d =
     (OK, d\<lparr>boot_cond_init := True, cond_init := replicate DCE_MAX_WAIT True, wait_complete := replicate DCE_MAX_WAIT False\<rparr>)"

definition dce_work_cond_sw_resource_deinit :: "'v tegra_dce \<Rightarrow> 'v tegra_dce" where
  "dce_work_cond_sw_resource_deinit d =
     d\<lparr>cond_init := replicate DCE_MAX_WAIT False, wait_complete := replicate DCE_MAX_WAIT False, boot_cond_init := False\<rparr>"

section \<open>The driver\<close>

text \<open>The three initialisations after the admin interface always succeed, so the error branches behind them
  are not reached.\<close>

definition dce_driver_init :: "'v ivc_ops \<Rightarrow> u64 option \<Rightarrow> 'v tegra_dce \<Rightarrow> (ret \<times> 'v tegra_dce) option" where
  "dce_driver_init ops dma_alloc d = do {
     (ret, d) \<leftarrow> dce_boot_interface_init (dce_set_boot_complete False d);
     if isl ret then Some (ret, boot_status_set DCE_STATUS_FAILED d)
     else do {
       (ret, d) \<leftarrow> dce_admin_init ops dma_alloc d;
       if isl ret then do {
         d \<leftarrow> dce_boot_interface_deinit d;
         Some (ret, boot_status_set DCE_STATUS_FAILED d) }
       else do {
         let (ret, d) = dce_client_init d;
         let (ret, d) = dce_work_cond_sw_resource_init d;
         let (ret, d) = dce_fsm_init d;
         Some (ret, dce_fsm_start d) } } }"

definition dce_release_fw :: "'v tegra_dce \<Rightarrow> 'v tegra_dce" where
  "dce_release_fw d = (if \<not> fw_data d then d else d\<lparr>fw_data := False\<rparr>)"

text \<open>\<open>dce_client_deinit\<close> flushes and destroys the workqueue, which no later operation uses.\<close>

definition dce_driver_deinit :: "'v ivc_ops \<Rightarrow> 'v tegra_dce \<Rightarrow> 'v tegra_dce option" where
  "dce_driver_deinit ops d = do {
     d \<leftarrow> dce_fsm_stop ops d;
     d \<leftarrow> dce_admin_deinit (dce_work_cond_sw_resource_deinit (dce_fsm_deinit d));
     d \<leftarrow> dce_boot_interface_deinit d;
     Some (dce_release_fw d) }"

end
