(* ===== verification/Dce_Ipc_Facts.thy ===== *)
theory Dce_Ipc_Facts imports Dce_Ipc begin

text \<open>
  What the IVC channels do: messages and their length header, the work items that drain a channel for its
  client, and the reset that polls until the peer has answered.
\<close>

section \<open>Messages\<close>

lemma of_le32_le32 [simp]: "of_le32 (le32 x @ b) = x"
proof (rule bit_word_eqI)
  fix n assume "n < LENGTH(32)"
  then show "bit (of_le32 (le32 x @ b)) n \<longleftrightarrow> bit x n"
    unfolding of_le32_def le32_def
    by (cases "n < 8"; cases "n < 16"; cases "n < 24") (simp_all add: bit_simps, auto)
qed

lemma le32_length [simp]: "length (le32 x) = 4"
  by (simp add: le32_def)

text \<open>A list model of the kernel's queues, for the concrete instances below: the frames to read, the frames
  written, the frame being written.\<close>

type_synonym list_ivc = "u8 list list \<times> u8 list list \<times> u8 list"

definition list_ops :: "bool \<Rightarrow> list_ivc ivc_ops" where
  "list_ops io = \<lparr>ivc_iosys = io, ivc_align = (\<lambda>n. (n + 63) div 64 * 64), ivc_total_queue_size = (\<lambda>n. n + 128),
     ivc_init = (\<lambda>v rx tx n sz. (OK, v)),
     ivc_write_ready = (\<lambda>(rx, tx, p). if length tx < 4 then OK else Inl ENOSPC),
     ivc_put = (\<lambda>(rx, tx, p) b. (rx, tx, b)),
     ivc_write_advance = (\<lambda>(rx, tx, p). (OK, (rx, tx @ [p], []))),
     ivc_read_frame = (\<lambda>(rx, tx, p). case rx of [] \<Rightarrow> Inl ENOSPC | f # fs \<Rightarrow> Inr f),
     ivc_read_put = (\<lambda>(rx, tx, p) b. (case rx of [] \<Rightarrow> [] | f # fs \<Rightarrow> (b @ drop (length b) f) # fs, tx, p)),
     ivc_read_advance = (\<lambda>(rx, tx, p). (OK, (tl rx, tx, p))),
     ivc_notified = (\<lambda>v. (OK, v)), ivc_reset = (\<lambda>v. ([], [], []))\<rparr>"

lemma list_ops_simps [simp]:
  "ivc_iosys (list_ops io) = io" "ivc_align (list_ops io) n = (n + 63) div 64 * 64"
  "ivc_total_queue_size (list_ops io) n = n + 128" "ivc_init (list_ops io) v rx tx k sz = (OK, v)"
  "ivc_put (list_ops io) (r, t, p) b = (r, t, b)" "ivc_write_advance (list_ops io) (r, t, p) = (OK, (r, t @ [p], []))"
  "ivc_write_ready (list_ops io) (r, t, p) = (if length t < 4 then OK else Inl ENOSPC)"
  "ivc_read_frame (list_ops io) (r, t, p) = (case r of [] \<Rightarrow> Inl ENOSPC | f # fs \<Rightarrow> Inr f)"
  "ivc_read_advance (list_ops io) (r, t, p) = (OK, (tl r, t, p))" "ivc_notified (list_ops io) v = (OK, v)"
  "ivc_reset (list_ops io) v = ([], [], [])"
  by (simp_all add: list_ops_def)

text \<open>C29: On a channel with a message header, a message of less than \<open>2 ^ 32\<close> bytes that fits its frame is stored
  behind its length in four little-endian bytes.  Read back from that frame, when the driver is built for the
  older kernel interface and the reader's buffer is large enough, it comes out whole in front of the old contents
  of the buffer, and the size the reader asks for has no effect; on the newer interface the header is
  overwritten with that size and so many bytes of the message come out, when they are there and fit the buffer.  A
  message that does not fit is copied beyond the frame.\<close>

theorem ipc_message_roundtrip:
  assumes "ch_msg_header c" and "length p < 2 ^ 32"
  defines "frame \<equiv> le32 (of_nat (length p)) @ p"
  shows "if 4 + length p \<le> ivc_align ops (unat (frame_sz c))
    then dce_ipc_write_channel ops (Some p) (length p) c =
        (let (r, v) = ivc_write_advance ops (ivc_put ops (d_ivc c) frame) in Some (r, c\<lparr>d_ivc := v\<rparr>)) \<and>
      (ch_msg_header c' \<and> \<not> ivc_iosys ops \<and> length p \<le> length buf \<longrightarrow>
        dce_ipc_read_channel ops (frame @ junk) (Some buf) sz c' =
          (let (r, v) = ivc_read_advance ops (d_ivc c') in Some (r, Some (p @ drop (length p) buf), c'\<lparr>d_ivc := v\<rparr>))) \<and>
      (ch_msg_header c' \<and> ivc_iosys ops \<and> sz \<le> length p \<and> sz \<le> length buf \<longrightarrow>
        dce_ipc_read_channel ops (frame @ junk) (Some buf) sz c' =
          (let (r, v) = ivc_read_advance ops (ivc_read_put ops (d_ivc c') (le32 (of_nat sz)))
           in Some (r, Some (take sz p @ drop sz buf), c'\<lparr>d_ivc := v\<rparr>)))
    else dce_ipc_write_channel ops (Some p) (length p) c = None"
proof -
  have n: "unat (of_nat (length p) :: u32) = length p" using assms(2) by (simp add: unsigned_of_nat take_bit_nat_eq_self)
  show ?thesis using assms(1) n
    by (auto simp: frame_def dce_ipc_write_channel_def dce_ipc_read_channel_def Let_def)
qed

theorem ipc_message_roundtrip_witness:
  "dce_ipc_write_channel (list_ops False) (Some [7, 8, 9]) 3 (ivc_channel 0 1 5 4 4 2048 ([], [], [])) =
     Some (OK, ivc_channel 0 1 5 4 4 2048 ([], [[3, 0, 0, 0, 7, 8, 9]], [])) \<and>
   dce_ipc_read_channel (list_ops False) [3, 0, 0, 0, 7, 8, 9, 5, 5] (Some [1, 2, 3, 4]) 99
       (ivc_channel 0 1 5 4 4 2048 ([[]], [], [])) =
     Some (OK, Some [7, 8, 9, 4], ivc_channel 0 1 5 4 4 2048 ([], [], []))"
proof -
  let ?c = "ivc_channel 0 1 5 4 4 2048 ([], [], []) :: list_ivc dce_ipc_channel"
  let ?c' = "ivc_channel 0 1 5 4 4 2048 ([[]], [], []) :: list_ivc dce_ipc_channel"
  have h: "ch_msg_header ?c" "length [7, 8, 9 :: u8] < 2 ^ 32" by (simp_all add: ivc_channel_def)
  have l: "le32 (of_nat (length [7, 8, 9 :: u8])) = [3, 0, 0, 0]" by (simp add: le32_def drop_bit_eq_div)
  from ipc_message_roundtrip [OF h, of "list_ops False" ?c' "[1, 2, 3, 4]" "[5, 5]" 99, unfolded l]
  show ?thesis by (simp add: ivc_channel_def numeral_3_eq_3 del: One_nat_def)
qed

text \<open>The length in the header is the peer's word: on the older interface a header that names more
  bytes than the frame or the reader's buffer holds is copied all the same, whatever size the caller
  gave.  On the newer one the header is overwritten with the caller's size before it is read, so the
  length the peer sent plays no part.\<close>

theorem ipc_read_trusts_header:
  assumes "ch_msg_header c"
  shows "(\<not> ivc_iosys ops \<and> (length buf < unat n \<or> length body < unat n) \<longrightarrow>
      dce_ipc_read_channel ops (le32 n @ body) (Some buf) sz c = None) \<and>
    (ivc_iosys ops \<longrightarrow>
      dce_ipc_read_channel ops (le32 n @ body) (Some buf) sz c = dce_ipc_read_channel ops (le32 n' @ body) (Some buf) sz c)"
  using assms by (auto simp: dce_ipc_read_channel_def)

theorem ipc_read_trusts_header_witness:
  "dce_ipc_read_channel (list_ops False) (le32 1729 @ replicate 2044 0) (Some (replicate 1728 0)) 1728
     (ivc_channel 0 1 5 4 4 2048 ([], [], [])) = None"
proof -
  have "ch_msg_header (ivc_channel 0 1 5 4 4 2048 ([], [], []) :: list_ivc dce_ipc_channel)" by (simp add: ivc_channel_def)
  from ipc_read_trusts_header [OF this, of "list_ops False" "replicate 1728 0" 1729] show ?thesis by simp
qed

section \<open>Asynchronous events\<close>

text \<open>A kernel whose receive side is a queue of frames: the frame at the front is the one read, and
  advancing takes it off.\<close>

definition ivc_fifo :: "'v ivc_ops \<Rightarrow> ('v \<Rightarrow> u8 list list) \<Rightarrow> bool" where
  "ivc_fifo ops rx \<longleftrightarrow>
     (\<forall>v. case rx v of
        [] \<Rightarrow> isl (ivc_read_frame ops v)
      | f # fs \<Rightarrow> ivc_read_frame ops v = Inr f \<and> \<not> isl (fst (ivc_read_advance ops v)) \<and>
          rx (snd (ivc_read_advance ops v)) = fs)"

text \<open>What one event leaves in the read buffer: its bytes, in front of those of the events before.\<close>

definition event_buffer :: "u8 list \<Rightarrow> u8 list \<Rightarrow> u8 list" where
  "event_buffer buf frame = (let n = unat (of_le32 frame) in take n (drop 4 frame) @ drop n buf)"

fun event_buffers :: "u8 list \<Rightarrow> u8 list list \<Rightarrow> u8 list list" where
  "event_buffers buf [] = []"
| "event_buffers buf (f # fs) = event_buffer buf f # event_buffers (event_buffer buf f) fs"

definition event_ok :: "u8 list \<Rightarrow> bool" where
  "event_ok f \<longleftrightarrow> 4 \<le> length f \<and> unat (of_le32 f) \<le> length f - 4 \<and> unat (of_le32 f) \<le> DCE_CLIENT_MAX_IPC_MSG_SIZE"

lemma read_event:
  assumes fifo: "ivc_fifo ops rx" and io: "\<not> ivc_iosys ops" and c: "ipc_chan i d = Some c" "ch_msg_header c"
    and f: "rx (d_ivc c) = f # fs" "event_ok f" and buf: "length buf = DCE_CLIENT_MAX_IPC_MSG_SIZE"
  shows "\<exists>v. dce_ipc_read_message ops i (Some buf) sz d = Some (OK, Some (event_buffer buf f), set_ch i (c\<lparr>d_ivc := v\<rparr>) d) \<and>
    rx v = fs"
proof -
  have q: "ivc_read_frame ops (d_ivc c) = Inr f" "\<not> isl (fst (ivc_read_advance ops (d_ivc c)))"
    "rx (snd (ivc_read_advance ops (d_ivc c))) = fs"
    using spec [OF fifo [unfolded ivc_fifo_def], of "d_ivc c"] f(1) by simp_all
  obtain v where v: "ivc_read_advance ops (d_ivc c) = (OK, v)"
    using q(2) by (cases "ivc_read_advance ops (d_ivc c)"; cases "fst (ivc_read_advance ops (d_ivc c))") auto
  show ?thesis
    using q(1,3) c io f(2) buf v
    by (auto simp: dce_ipc_read_message_def dce_ipc_get_next_read_buff_def dce_ipc_read_channel_def event_ok_def
        event_buffer_def Let_def)
qed

lemma chan_set_ch: "ipc_chan i d = Some c \<Longrightarrow> ipc_chan i (set_ch i c' d) = Some c'"
  by (auto simp: ipc_chan_def set_ch_def get_ch_def split: if_split_asm)

lemma event_buffer_length:
  "event_ok f \<Longrightarrow> length buf = DCE_CLIENT_MAX_IPC_MSG_SIZE \<Longrightarrow> length (event_buffer buf f) = DCE_CLIENT_MAX_IPC_MSG_SIZE"
  by (auto simp: event_buffer_def event_ok_def Let_def)

lemma event_loop_drains:
  assumes fifo: "ivc_fifo ops rx" and io: "\<not> ivc_iosys ops"
    and "ipc_chan (unat (cl_int_type cl)) d = Some c" and "ch_msg_header c"
    and "rx (d_ivc c) = fs" and "\<And>f. f \<in> set fs \<Longrightarrow> event_ok f" and "length buf = DCE_CLIENT_MAX_IPC_MSG_SIZE"
  shows "\<exists>v. event_loop ops cb cl g (Some buf) s d =
      Some (fold (\<lambda>b. cb g (cl_handle cl) (cl_type cl) DCE_CLIENT_MAX_IPC_MSG_SIZE b (cl_data cl)) (event_buffers buf fs) s,
        set_ch (unat (cl_int_type cl)) (c\<lparr>d_ivc := v\<rparr>) d) \<and> rx v = []"
  using assms(3-)
proof (induction fs arbitrary: d c buf s)
  case Nil
  have "isl (ivc_read_frame ops (d_ivc c))"
    using spec [OF fifo [unfolded ivc_fifo_def], of "d_ivc c"] Nil(3) by simp
  then have "dce_ipc_is_data_available ops (unat (cl_int_type cl)) d = Some False"
    using Nil(1) by (simp add: dce_ipc_is_data_available_def)
  moreover have "set_ch (unat (cl_int_type cl)) (c\<lparr>d_ivc := d_ivc c\<rparr>) d = d"
    using Nil(1) by (simp add: set_ch_def ipc_chan_def get_ch_def list_update_same_conv split: if_split_asm)
  ultimately show ?case
    using Nil(3) by (subst event_loop.simps) (auto intro!: exI [of _ "d_ivc c"])
next
  case (Cons f fs)
  let ?i = "unat (cl_int_type cl)"
  from Cons.prems have ok: "event_ok f" by simp
  obtain v where v: "dce_ipc_read_message ops ?i (Some buf) DCE_CLIENT_MAX_IPC_MSG_SIZE d =
      Some (OK, Some (event_buffer buf f), set_ch ?i (c\<lparr>d_ivc := v\<rparr>) d)" "rx v = fs"
    using read_event [OF fifo io Cons.prems(1,2,3) ok Cons.prems(5)] by blast
  have "\<not> isl (ivc_read_frame ops (d_ivc c))"
    using spec [OF fifo [unfolded ivc_fifo_def], of "d_ivc c"] Cons.prems(3) by simp
  then have avail: "dce_ipc_is_data_available ops ?i d = Some True"
    using Cons.prems(1) by (simp add: dce_ipc_is_data_available_def)
  have c': "ipc_chan ?i (set_ch ?i (c\<lparr>d_ivc := v\<rparr>) d) = Some (c\<lparr>d_ivc := v\<rparr>)" by (rule chan_set_ch [OF Cons.prems(1)])
  let ?s = "cb g (cl_handle cl) (cl_type cl) DCE_CLIENT_MAX_IPC_MSG_SIZE (event_buffer buf f) (cl_data cl) s"
  have h: "ch_msg_header (c\<lparr>d_ivc := v\<rparr>)" "rx (d_ivc (c\<lparr>d_ivc := v\<rparr>)) = fs" using Cons.prems(2) v(2) by simp_all
  have oks: "event_ok f'" if "f' \<in> set fs" for f' using Cons.prems(4) that by simp
  have sub: "event_loop ops cb cl g (Some buf) s d =
      event_loop ops cb cl g (Some (event_buffer buf f)) ?s (set_ch ?i (c\<lparr>d_ivc := v\<rparr>) d)"
    by (subst event_loop.simps) (simp add: avail v(1))
  have two: "set_ch j x (set_ch j y e) = set_ch j x e" for j x y and e :: "'a tegra_dce" by (simp add: set_ch_def)
  show ?case
    unfolding sub
    using Cons.IH [OF c' h oks event_buffer_length [OF ok Cons.prems(5)], of ?s]
    by (simp add: two) 
qed

text \<open>C30: On the older kernel interface the work item of an asynchronous event ends and drains its channel,
  provided that the event client is registered with a callback, its channel is set up with a message header, every
  waiting message is well formed (its header names no more bytes than its frame and the buffer of 4096 hold) and
  the allocation of the buffer succeeds: the client's callback is called once for each waiting message, in their
  order, and the item is free again.  Each call is told the buffer's full length, 4096, and gets behind the message
  what earlier messages left there.\<close>

theorem event_work_drains:
  assumes "ivc_fifo ops rx" and "\<not> ivc_iosys ops" and "d_clients d ! 2 = Some k" and "cl = client_handles d ! k"
    and "cl_callback cl = Some g" and "unat (cl_type cl) = 2" and "kzalloc_ok d = []"
    and "ipc_chan (unat (cl_int_type cl)) d = Some c" and "ch_msg_header c"
    and "rx (d_ivc c) = fs" and "\<And>f. f \<in> set fs \<Longrightarrow> event_ok f"
  shows "\<exists>v. dce_client_async_event_work ops cb w s d =
      Some (fold (\<lambda>b. cb g (cl_handle cl) (cl_type cl) 4096 b (cl_data cl)) (event_buffers (replicate 4096 0) fs) s,
        (set_ch (unat (cl_int_type cl)) (c\<lparr>d_ivc := v\<rparr>) d)\<lparr>async_in_use := (async_in_use d)[w := False]\<rparr>) \<and> rx v = []"
proof -
  have "length (replicate 4096 (0 :: u8)) = DCE_CLIENT_MAX_IPC_MSG_SIZE" by (simp add: DCE_CLIENT_MAX_IPC_MSG_SIZE_def)
  from event_loop_drains [OF assms(1,2,8,9,10,11) this, of cb g s]
  obtain v where v: "event_loop ops cb cl g (Some (replicate 4096 0)) s d =
      Some (fold (\<lambda>b. cb g (cl_handle cl) (cl_type cl) 4096 b (cl_data cl)) (event_buffers (replicate 4096 0) fs) s,
        set_ch (unat (cl_int_type cl)) (c\<lparr>d_ivc := v\<rparr>) d)" "rx v = []"
    unfolding DCE_CLIENT_MAX_IPC_MSG_SIZE_def by blast
  have k: "dce_kzalloc d = (True, d)" using assms(7) by (simp add: dce_kzalloc_def)
  have "dce_client_process_event_ipc ops cb (Some k) s d = event_loop ops cb cl g (Some (replicate 4096 0)) s d"
    unfolding dce_client_process_event_ipc_def
    using assms(4-6) k by (simp add: DCE_CLIENT_IPC_TYPE_RM_EVENT_def DCE_CLIENT_MAX_IPC_MSG_SIZE_def)
  with v assms(3) show ?thesis
    by (intro exI [of _ v]) (simp add: dce_client_async_event_work_def DCE_CLIENT_IPC_TYPE_RM_EVENT_def set_ch_def)
qed

text \<open>A device whose event client is registered and whose event channel holds two messages.\<close>

definition event_dce :: "list_ivc tegra_dce" where
  "event_dce =
     (dce_probe ([], [], []))\<lparr>ipc_ch := replicate 4 True,
       ivc_channels := (ivc_channels0 ([], [], []))[3 := ivc_channel 3 3 2 3 4 4096 ([[2, 0, 0, 0, 65, 66], [1, 0, 0, 0, 67]], [], [])],
       d_clients := [None, None, Some 0],
       client_handles := (replicate 3 zero_client)[0 := zero_client\<lparr>cl_valid := True, cl_type := 2, cl_int_type := 3, cl_callback := Some 1\<rparr>]\<rparr>"

theorem event_work_drains_witness:
  "map_option fst (dce_client_async_event_work (list_ops False) (\<lambda>f h t n b x s. s @ [(n, take 3 b)]) 0 [] event_dce) =
   Some [(4096, [65, 66, 0]), (4096, [67, 66, 0])]"
proof -
  let ?rx = "fst :: list_ivc \<Rightarrow> u8 list list"
  let ?c = "ivc_channel 3 3 2 3 4 4096 ([[2, 0, 0, 0, 65, 66], [1, 0, 0, 0, 67]], [], []) :: list_ivc dce_ipc_channel"
  let ?cb = "\<lambda>f h t n b x s. s @ [(n, take 3 b)]"
  have fifo: "ivc_fifo (list_ops False) ?rx"
    by (auto simp: ivc_fifo_def split: list.split)
  have n: "of_le32 (2 # 0 # 0 # 0 # xs) = 2" "of_le32 (1 # 0 # 0 # 0 # xs) = 1" for xs
    by (simp_all add: of_le32_def)
  have st: "d_clients event_dce ! 2 = Some 0" "kzalloc_ok event_dce = []" "ipc_chan 3 event_dce = Some ?c"
    "ch_msg_header ?c" "?rx (d_ivc ?c) = [[2, 0, 0, 0, 65, 66], [1, 0, 0, 0, 67]]" "ivc_iosys (list_ops False) = False"
    by (simp_all add: event_dce_def dce_probe_def ipc_chan_def get_ch_def ivc_channels0_def ivc_channel_def)
  let ?cl = "client_handles event_dce ! 0"
  have cl: "cl_callback ?cl = Some 1" "unat (cl_type ?cl) = 2" "unat (cl_int_type ?cl) = 3"
    by (simp_all add: event_dce_def)
  have ok: "event_ok f" if "f \<in> set [[2, 0, 0, 0, 65, 66], [1, 0, 0, 0, 67]]" for f
    using that by (auto simp: event_ok_def n DCE_CLIENT_MAX_IPC_MSG_SIZE_def)
  have ev: "event_buffers (replicate 4096 0) [[2, 0, 0, 0, 65, 66], [1, 0, 0, 0, 67]] =
      [[65, 66] @ replicate 4094 0, [67, 66] @ replicate 4094 0]"
    by (simp add: event_buffer_def n Let_def)
  have t3: "take 3 ([a, b] @ replicate 4094 (0 :: u8)) = [a, b, 0]" for a b
    by (simp add: numeral_3_eq_3)
  from event_work_drains [OF fifo _ st(1) refl cl(1,2) st(2) _ st(4,5) ok, of ?cb 0 "[]"] st(3) cl(3)
  show ?thesis unfolding ev by (auto simp: t3)
qed

section \<open>Resetting a channel\<close>

text \<open>The peer can be signalled: the channel's doorbell is an idle mailbox, without a semaphore.\<close>

definition doorbell :: "nat \<Rightarrow> 'v tegra_dce \<Rightarrow> u32 \<Rightarrow> bool" where
  "doorbell i d r \<longleftrightarrow> hsp_ok d \<and>
     (\<exists>c m. ipc_chan i d = Some c \<and> sig_notify c \<and> \<not> sema_num (to_d c) < DCE_NUM_SEMA_REGS \<and>
        get_mb (unat (mb_type (to_d c))) d = Some m \<and> \<not> mb_locked m \<and> s_mb m < 8 \<and> r = smb_reg (s_mb m))"

lemma ipc_chan_get: "ipc_chan i d = Some c \<Longrightarrow> get_ch i d = Some c"
  by (simp add: ipc_chan_def split: if_split_asm)

lemma ipc_chan_writel [simp]: "ipc_chan i (dce_writel r v d) = ipc_chan i d"
  by (simp add: ipc_chan_def get_ch_def)

lemma full_interrupt_idle:
  assumes "hsp_ok d" and "get_mb k d = Some m" and "\<not> mb_locked m" and "s_mb m < 8"
  shows "dce_mailbox_set_full_interrupt k d = Some (dce_writel (smb_reg (s_mb m)) (DCE_BIT 31) d)"
proof -
  have l: "k < length (d_mb d)" "d_mb d ! k = m" using assms(2) by (auto simp: get_mb_def split: if_split_asm)
  have "set_mb k (m\<lparr>mb_locked := False\<rparr>) (dce_writel r v (set_mb k (m\<lparr>mb_locked := True\<rparr>) d)) = dce_writel r v d" for r v
    using l assms(3) by (simp add: set_mb_def dce_writel_def list_update_same_conv)
  then show ?thesis
    using assms l(1)
    by (simp add: dce_mailbox_set_full_interrupt_def mb_lock_def mb_unlock_def dce_mailbox_write_safe_def smb_read_ok smb_set_ok)
qed

lemma notify_doorbell:
  assumes "doorbell i d r"
  shows "notify_peer i d = Some (dce_writel r (DCE_BIT 31) d)" and "doorbell i (dce_writel r v d) r"
proof -
  from assms obtain c m where c: "hsp_ok d" "ipc_chan i d = Some c" "sig_notify c" "\<not> sema_num (to_d c) < DCE_NUM_SEMA_REGS"
    "get_mb (unat (mb_type (to_d c))) d = Some m" "\<not> mb_locked m" "s_mb m < 8" "r = smb_reg (s_mb m)"
    unfolding doorbell_def by blast
  show "notify_peer i d = Some (dce_writel r (DCE_BIT 31) d)"
    using c ipc_chan_get [OF c(2)] full_interrupt_idle [OF c(1,5-7)]
    by (simp add: notify_peer_def dce_ipc_mbox_notify_def)
  have "ipc_chan i (dce_writel r v d) = Some c" using c(2) by simp
  then show "doorbell i (dce_writel r v d) r" using c unfolding doorbell_def by (intro conjI exI [of _ c] exI [of _ m]) simp_all
qed

lemma doorbell_set_ch:
  assumes "doorbell i d r" and "ipc_chan i d = Some c" and "sig_notify c' = sig_notify c" and "to_d c' = to_d c"
  shows "doorbell i (set_ch i c' d) r"
proof -
  have "get_mb k (set_ch i c' d) = get_mb k d" "hsp_ok (set_ch i c' d) = hsp_ok d" for k
    by (simp_all add: set_ch_def get_mb_def hsp_ok_def)
  then show ?thesis using assms chan_set_ch [OF assms(2), of c'] unfolding doorbell_def by auto
qed

text \<open>The state of the queue after \<open>n\<close> polls, and whether poll number \<open>n\<close> finds the handshake complete.\<close>

definition polled :: "'v ivc_ops \<Rightarrow> 'v \<Rightarrow> nat \<Rightarrow> 'v" where
  "polled ops v n = ((\<lambda>v. snd (ivc_notified ops v)) ^^ n) v"

definition established :: "'v ivc_ops \<Rightarrow> 'v \<Rightarrow> nat \<Rightarrow> bool" where
  "established ops v n \<longleftrightarrow> \<not> isl (fst (ivc_notified ops (polled ops v n)))"

lemma polled_Suc: "polled ops v (Suc n) = polled ops (snd (ivc_notified ops v)) n"
  by (simp add: polled_def funpow_Suc_right del: funpow.simps)

lemma established_Suc: "established ops v (Suc n) = established ops (snd (ivc_notified ops v)) n"
  by (simp add: established_def polled_Suc)

lemma is_ready_eq:
  assumes "doorbell i d r" and "ipc_chan i d = Some c"
  shows "dce_ipc_channel_is_ready ops i d =
    Some (established ops (d_ivc c) 0, dce_writel r (DCE_BIT 31) (set_ch i (c\<lparr>d_ivc := polled ops (d_ivc c) 1\<rparr>) d))"
proof -
  have "doorbell i (set_ch i (c\<lparr>d_ivc := snd (ivc_notified ops (d_ivc c))\<rparr>) d) r"
    by (rule doorbell_set_ch [OF assms]) simp_all
  from notify_doorbell(1) [OF this] show ?thesis
    using assms(2) by (simp add: dce_ipc_channel_is_ready_def established_def polled_def case_prod_beta)
qed

lemma next_irq_ch [simp]: "d_env (set_ch i c d) = d_env d" "writes_to q (set_ch i c d) = writes_to q d"
  "hsp_ok (set_ch i c d) = hsp_ok d"
  by (simp_all add: set_ch_def writes_to_def hsp_ok_def)

lemma writes_writel: "hsp_ok d \<Longrightarrow> writes_to r (dce_writel r v d) = writes_to r d @ [v]"
  by (simp add: writes_to_def dce_writel_def hsp_ok_def)

lemma poll_step:
  assumes "doorbell i d r" and "ipc_chan i d = Some c" and "next_irq (d_env d) = None" and "\<not> established ops (d_ivc c) 0"
  shows "poll_ready ops i d =
    poll_ready ops i (dce_writel r (DCE_BIT 31) (set_ch i (c\<lparr>d_ivc := polled ops (d_ivc c) 1\<rparr>) d))"
  by (subst poll_ready.simps) (simp add: is_ready_eq [OF assms(1,2)] assms(3,4) poll_irq_def)

lemma poll_ready_ends:
  assumes "doorbell i d r" and "ipc_chan i d = Some c" and "next_irq (d_env d) = None"
    and "established ops (d_ivc c) n" and "\<And>m. m < n \<Longrightarrow> \<not> established ops (d_ivc c) m"
  shows "\<exists>d'. poll_ready ops i d = Some d' \<and> ipc_chan i d' = Some (c\<lparr>d_ivc := polled ops (d_ivc c) (Suc n)\<rparr>) \<and>
    writes_to r d' = writes_to r d @ replicate (Suc n) (DCE_BIT 31)"
  using assms
proof (induction n arbitrary: d c)
  let ?e = "\<lambda>d c. dce_writel r (DCE_BIT 31) (set_ch i (c\<lparr>d_ivc := polled ops (d_ivc c) 1\<rparr>) d)"
  have ch: "ipc_chan i (?e d c) = Some (c\<lparr>d_ivc := polled ops (d_ivc c) 1\<rparr>)" if "ipc_chan i d = Some c" for d c
    using chan_set_ch [OF that] by simp
  have wr: "writes_to r (?e d c) = writes_to r d @ [DCE_BIT 31]" if "doorbell i d r" for d c
    using that by (simp add: writes_writel doorbell_def)
  {
    case 0
    then show ?case using is_ready_eq [OF 0(1,2)] ch [OF 0(2)] wr [OF 0(1)]
      by (subst poll_ready.simps) simp
  next
    case (Suc n)
    have n0: "\<not> established ops (d_ivc c) 0" using Suc.prems(5) by simp
    have bell: "doorbell i (?e d c) r"
      by (rule notify_doorbell(2), rule doorbell_set_ch [OF Suc.prems(1,2)]) simp_all
    have p1: "polled ops (d_ivc c) 1 = snd (ivc_notified ops (d_ivc c))" by (simp add: polled_def)
    have e1: "established ops (polled ops (d_ivc c) 1) k = established ops (d_ivc c) (Suc k)" for k
      unfolding p1 by (rule established_Suc [symmetric])
    have p2: "polled ops (polled ops (d_ivc c) 1) (Suc n) = polled ops (d_ivc c) (Suc (Suc n))"
      by (simp only: p1 polled_Suc)
    have no: "next_irq (d_env (?e d c)) = None" using Suc.prems(3) by simp
    from Suc.IH [OF bell ch [OF Suc.prems(2)] no] Suc.prems(4,5) e1
    show ?case unfolding poll_step [OF Suc.prems(1-3) n0] using wr [OF Suc.prems(1)] p2 by auto
  }
qed

lemma poll_ready_returns:
  assumes "poll_ready ops i d = Some d'" and "doorbell i d r" and "ipc_chan i d = Some c" and "next_irq (d_env d) = None"
  shows "\<exists>n. established ops (d_ivc c) n"
proof -
  have "doorbell i d r \<longrightarrow> (\<forall>c. ipc_chan i d = Some c \<longrightarrow> next_irq (d_env d) = None \<longrightarrow> (\<exists>n. established ops (d_ivc c) n))"
  proof (rule poll_ready.raw_induct [where P = "\<lambda>ops i d d'. doorbell i d r \<longrightarrow>
      (\<forall>c. ipc_chan i d = Some c \<longrightarrow> next_irq (d_env d) = None \<longrightarrow> (\<exists>n. established ops (d_ivc c) n))", OF _ assms(1)])
    fix rec ops i d d'
    assume IH: "\<And>ops i d y. rec ops i d = Some y \<Longrightarrow> doorbell i d r \<longrightarrow>
        (\<forall>c. ipc_chan i d = Some c \<longrightarrow> next_irq (d_env d) = None \<longrightarrow> (\<exists>n. established (ops :: 'a ivc_ops) (d_ivc c) n))"
      and run: "dce_ipc_channel_is_ready ops i d \<bind> (\<lambda>(ready, d). if ready then Some d else poll_irq ops d \<bind> rec ops i) = Some d'"
    show "doorbell i d r \<longrightarrow>
      (\<forall>c. ipc_chan i d = Some c \<longrightarrow> next_irq (d_env d) = None \<longrightarrow> (\<exists>n. established ops (d_ivc c) n))"
    proof (intro impI allI)
      fix c assume bell: "doorbell i d r" and c: "ipc_chan i d = Some c" and no: "next_irq (d_env d) = None"
      let ?c = "c\<lparr>d_ivc := polled ops (d_ivc c) 1\<rparr>"
      let ?e = "dce_writel r (DCE_BIT 31) (set_ch i ?c d)"
      show "\<exists>n. established ops (d_ivc c) n"
      proof (cases "established ops (d_ivc c) 0")
        case False
        with run have "rec ops i ?e = Some d'"
          by (simp add: is_ready_eq [OF bell c] poll_irq_def no)
        moreover have "doorbell i ?e r"
          by (rule notify_doorbell(2), rule doorbell_set_ch [OF bell c]) simp_all
        moreover have "ipc_chan i ?e = Some ?c" "next_irq (d_env ?e) = None"
          using chan_set_ch [OF c, of ?c] no by simp_all
        ultimately obtain n where "established ops (polled ops (d_ivc c) 1) n" using IH by fastforce
        moreover have "polled ops (d_ivc c) 1 = snd (ivc_notified ops (d_ivc c))" by (simp add: polled_def)
        ultimately have "established ops (d_ivc c) (Suc n)" by (simp only: established_Suc)
        then show ?thesis ..
      qed blast
    qed
  qed
  with assms(2-4) show ?thesis by blast
qed

text \<open>Resetting a channel polls without end unless the peer completes the handshake: without further
  interrupts, it returns exactly when some poll finds the connection established.  It then stops at the
  first such poll, has rung the peer's doorbell once before the polls and once in each, and marks the
  channel as synchronised.\<close>

theorem ipc_reset_returns:
  assumes "doorbell i d r" and "ipc_chan i d = Some c" and "next_irq (d_env d) = None"
    and "v = ivc_reset ops (d_ivc c)"
  shows "(dce_ipc_channel_reset ops i d \<noteq> None \<longleftrightarrow> (\<exists>n. established ops v n)) \<and>
    (established ops v n \<and> (\<forall>m < n. \<not> established ops v m) \<longrightarrow>
      (\<exists>d'. dce_ipc_channel_reset ops i d = Some d' \<and>
        ipc_chan i d' = Some (c\<lparr>d_ivc := polled ops v (Suc n), ch_synced := True\<rparr>) \<and>
        writes_to r d' = writes_to r d @ replicate (n + 2) (DCE_BIT 31)))"
proof -
  let ?c = "c\<lparr>d_ivc := v, ch_synced := False\<rparr>"
  let ?e = "dce_writel r (DCE_BIT 31) (set_ch i ?c d)"
  have b0: "doorbell i (set_ch i ?c d) r" by (rule doorbell_set_ch [OF assms(1,2)]) simp_all
  note b = notify_doorbell [OF b0]
  have c1: "ipc_chan i ?e = Some ?c" using chan_set_ch [OF assms(2), of ?c] by simp
  have no: "next_irq (d_env ?e) = None" using assms(3) by simp
  have eq: "dce_ipc_channel_reset ops i d =
      do { d \<leftarrow> poll_ready ops i ?e; c \<leftarrow> ipc_chan i d; Some (set_ch i (c\<lparr>ch_synced := True\<rparr>) d) }"
    using assms(2,4) b(1) by (simp add: dce_ipc_channel_reset_def)
  have fin: "\<exists>d'. dce_ipc_channel_reset ops i d = Some d' \<and>
      ipc_chan i d' = Some (c\<lparr>d_ivc := polled ops v (Suc n), ch_synced := True\<rparr>) \<and>
      writes_to r d' = writes_to r d @ replicate (n + 2) (DCE_BIT 31)"
    if n: "established ops v n" "\<forall>m < n. \<not> established ops v m" for n
  proof -
    from poll_ready_ends [OF b(2) c1 no, of ops n] n
    obtain d1 where d1: "poll_ready ops i ?e = Some d1" "ipc_chan i d1 = Some (?c\<lparr>d_ivc := polled ops v (Suc n)\<rparr>)"
      "writes_to r d1 = writes_to r ?e @ replicate (Suc n) (DCE_BIT 31)" by auto
    have "writes_to r ?e = writes_to r d @ [DCE_BIT 31]"
      using b0 by (simp add: writes_writel doorbell_def)
    moreover have "(x :: 'a list) @ [a] @ replicate (Suc n) a = x @ replicate (n + 2) a" for x a by simp
    ultimately show ?thesis
      using d1 chan_set_ch [OF d1(2)] unfolding eq by simp
  qed
  have least: "\<exists>k. established ops v k \<and> (\<forall>m < k. \<not> established ops v m)" if "established ops v n" for n
    using that exists_least_iff [of "established ops v"] by blast
  have never: "\<exists>n. established ops v n" if "dce_ipc_channel_reset ops i d = Some d'" for d'
    using that poll_ready_returns [OF _ b(2) c1 no] unfolding eq by (auto simp: bind_eq_Some_conv)
  show ?thesis using fin least never by (metis not_None_eq)
qed

theorem ipc_reset_returns_witness:
  "\<exists>d'. dce_ipc_channel_reset
      ((list_ops False)\<lparr>ivc_notified := (\<lambda>(r, t, p). (if length t < 2 then Inl EAGAIN else OK, (r, t @ [[]], p)))\<rparr>) 3
      ((dce_probe ([], [], []))\<lparr>ipc_ch := replicate 4 True,
         ivc_channels := (ivc_channels0 ([], [], []))[3 := (ivc_channel 3 3 2 3 4 4096 ([], [], []))\<lparr>sig_notify := True\<rparr>]\<rparr>) =
      Some d' \<and> writes_to (smb_reg 0) d' = replicate 4 (DCE_BIT 31)"
proof -
  let ?ops = "(list_ops False)\<lparr>ivc_notified := (\<lambda>(r, t, p). (if length t < 2 then Inl EAGAIN else OK, (r, t @ [[]], p)))\<rparr>"
  let ?c = "(ivc_channel 3 3 2 3 4 4096 ([], [], []))\<lparr>sig_notify := True\<rparr> :: list_ivc dce_ipc_channel"
  let ?d = "(dce_probe ([], [], []))\<lparr>ipc_ch := replicate 4 True, ivc_channels := (ivc_channels0 ([], [], []))[3 := ?c]\<rparr>"
  have c: "ipc_chan 3 ?d = Some ?c" by (simp add: ipc_chan_def get_ch_def ivc_channels0_def)
  have m: "get_mb 3 ?d = Some zero_mb" by (simp add: get_mb_def dce_probe_def)
  have f: "hsp_ok ?d" "sig_notify ?c" "\<not> sema_num (to_d ?c) < DCE_NUM_SEMA_REGS" "unat (mb_type (to_d ?c)) = 3"
    "\<not> mb_locked zero_mb" "s_mb zero_mb = 0" "(0 :: u8) < 8"
    by (simp_all add: zero_mb_def hsp_ok_def dce_probe_def ivc_channel_def sig_inst_def DCE_NUM_SEMA_REGS_def)
  have bell: "doorbell 3 ?d (smb_reg 0)"
    unfolding doorbell_def by (intro conjI exI [of _ ?c] exI [of _ zero_mb]) (simp_all only: f m c simp_thms)
  have e: "established ?ops ([], [], []) 2" "\<forall>m < 2. \<not> established ?ops ([], [], []) m"
    by (simp_all add: established_def polled_def numeral_2_eq_2 less_Suc_eq)
  have r: "ivc_reset ?ops (d_ivc ?c) = ([], [], [])" by simp
  have no: "next_irq (d_env ?d) = None" "writes_to (smb_reg 0) ?d = []" by (simp_all add: dce_probe_def writes_to_def)
  from ipc_reset_returns [OF bell c no(1) r [symmetric], of 2] e no(2) show ?thesis by auto
qed

end
