(* ===== verification/Dce_Boot_Facts.thy ===== *)
theory Dce_Boot_Facts imports Dce_Boot Dce_Ipc_Facts begin

text \<open>
  The bootstrap over the boot mailbox: one command and its reply as a single step of the device, the
  sequence as a list of commands, and the fields of the commands that carry an address.
\<close>

section \<open>One command and its reply\<close>

text \<open>The device between two boot commands.\<close>

definition boot_idle :: "'v tegra_dce \<Rightarrow> bool" where
  "boot_idle d \<longleftrightarrow> boot_mb_ok d \<and> fsm_initialized d \<and> c_state d = STATE_DCE_FSM_IDLE \<and>
     dce_regs d (smb_reg 6) AND DCE_BIT 31 = 0 \<and> \<not> wait_complete d ! DCE_WAIT_BOOT_CMD"

definition boot_step :: "u32 \<Rightarrow> u32 \<Rightarrow> 'v dce_action list \<Rightarrow> 'v tegra_dce \<Rightarrow> 'v tegra_dce" where
  "boot_step cmd v rest d =
     d\<lparr>dce_regs := (dce_regs d)(smb_reg 6 := 0, smb_reg 7 := 0, 0x150304 := 0x8000),
       reg_writes := reg_writes d @ [(smb_reg 6, cmd OR DCE_BIT 31), (smb_reg 7, 0)],
       requested_ipcs := requested_ipcs d AND NOT (DCE_BIT DCE_WAIT_BOOT_CMD),
       d_mb := (d_mb d)[0 := (d_mb d ! 0)\<lparr>ack_value := v, mb_valid := True, mb_locked := False\<rparr>],
       d_env := rest\<rparr>"

definition boot_error :: "u32 \<Rightarrow> bool" where
  "boot_error v \<longleftrightarrow> v AND DCE_BOOT_CMD_ERR_FLAG \<noteq> 0"

lemma boot_idle_step: "boot_idle d \<Longrightarrow> boot_idle (boot_step cmd v rest d)"
  by (auto simp: boot_idle_def boot_step_def boot_mb_ok_def hsp_ok_def smb_reg_values nth_list_update)

lemma boot_step_simps [simp]:
  "d_env (boot_step cmd v rest d) = rest" "stream_id (boot_step cmd v rest d) = stream_id d"
  "reg_writes (boot_step cmd v rest d) = reg_writes d @ [(smb_reg 6, cmd OR DCE_BIT 31), (smb_reg 7, 0)]"
  "region_base (boot_step cmd v rest d) = region_base d" "region_iova (boot_step cmd v rest d) = region_iova d"
  "region_size (boot_step cmd v rest d) = region_size d" "ipc_ch (boot_step cmd v rest d) = ipc_ch d"
  "ivc_channels (boot_step cmd v rest d) = ivc_channels d" "boot_status (boot_step cmd v rest d) = boot_status d"
  by (simp_all add: boot_step_def)

lemma boot_command_reply:
  assumes idle: "boot_idle d" and env: "d_env d = boot_reply v # rest" and v: "DCE_IRQ_GET_STATUS_TYPE v = 1"
  shows "dce_mailbox_send_cmd_sync ops cmd DCE_MAILBOX_BOOT_INTERFACE d =
    Some (if boot_error v then Inl EBADE else OK, boot_step cmd v rest d)"
proof -
  let ?m = "d_mb d ! 0"
  let ?d1 = "dce_fsm_set_state EVENT_ID_DCE_BOOT_CMD_MSG_REQUESTED d"
  let ?d2 = "set_mb 0 (?m\<lparr>mb_valid := False, mb_locked := False\<rparr>) (dce_writel (smb_reg 6) (cmd OR DCE_BIT 31) ?d1)"
  note i = idle [unfolded boot_idle_def boot_mb_ok_def]
  have l4: "length (d_mb d) = 4" and w5: "length (wait_complete d) = 5" using i by simp_all
  have d1: "d_mb ?d1 = d_mb d" "dce_regs ?d1 = dce_regs d" "hsp_ok ?d1 = hsp_ok d" "d_env ?d1 = d_env d"
    "wait_complete ?d1 = wait_complete d" "fsm_initialized ?d1 = fsm_initialized d" "c_state ?d1 = STATE_DCE_BOOTCMD_WFI"
    by (simp_all add: dce_fsm_set_state_def hsp_ok_def)
  have g: "get_mb 0 ?d1 = Some ?m" using l4 d1 by (simp add: get_mb_def)
  have val: "dce_fsm_validate_event EVENT_ID_DCE_BOOT_CMD_MSG_REQUESTED d = OK"
    using i by (simp add: dce_fsm_validate_event_def)
  have send: "dce_handle_mailbox_send_cmd_sync wait cmd 0 ?d1 = wait Wait_boot_interface ?d2" for wait
    using send_cmd_free [of ?d1 0 ?m] g i d1 idle by (simp add: boot_idle_def)
  have ok2: "boot_mb_ok (?d2\<lparr>d_env := rest\<rparr>)" "fsm_initialized (?d2\<lparr>d_env := rest\<rparr>)"
    "c_state (?d2\<lparr>d_env := rest\<rparr>) = STATE_DCE_BOOTCMD_WFI" "d_env ?d2 = boot_reply v # rest"
    "\<not> wait_complete ?d2 ! DCE_WAIT_BOOT_CMD"
    using i d1 idle env by (auto simp: boot_mb_ok_def boot_idle_def set_mb_def dce_writel_def hsp_ok_def smb_reg_values nth_list_update)
  let ?d3 = "after_reply v (?d2\<lparr>d_env := rest\<rparr>)"
  have w3: "wait_complete ?d3 ! DCE_WAIT_BOOT_CMD" "length (wait_complete ?d3) = 5"
    using w5 d1 by (simp_all add: after_reply_def DCE_WAIT_BOOT_CMD_def)
  have ev: "wait_event ops (\<lambda>d. wait_complete d ! DCE_WAIT_BOOT_CMD) (d_env ?d2) ?d2 = Some (True, ?d3)"
    unfolding ok2(4) using ok2(5) w3(1) boot_reply_interrupt [OF ok2(1-3) v, of ops]
    by (cases rest) (simp_all add: boot_reply_def)
  have wait: "dce_wait_interruptible ops DCE_WAIT_BOOT_CMD ?d2 =
      Some (OK, ?d3\<lparr>wait_complete := (wait_complete ?d3)[DCE_WAIT_BOOT_CMD := False]\<rparr>)"
    unfolding dce_wait_interruptible_def ev using w3 by (simp add: DCE_MAX_WAIT_def DCE_WAIT_BOOT_CMD_def)
  let ?d4 = "?d3\<lparr>wait_complete := (wait_complete ?d3)[DCE_WAIT_BOOT_CMD := False]\<rparr>"
  have st: "dce_mailbox_get_interface_status DCE_MAILBOX_BOOT_INTERFACE ?d4 = Some v"
    using l4 d1 by (simp add: dce_mailbox_get_interface_status_def DCE_MAILBOX_BOOT_INTERFACE_def get_mb_def after_reply_def set_mb_def)
  have fin: "?d4\<lparr>c_state := STATE_DCE_FSM_IDLE\<rparr> = boot_step cmd v rest d" "?d4 = boot_step cmd v rest d"
  proof -
    have r: "(x OR b) AND NOT b = x AND NOT b" for x b :: u32
      by (intro bit_word_eqI) (auto simp: bit_simps)
    have w: "(wait_complete d)[Suc 0 := False] = wait_complete d"
      using idle by (metis One_nat_def DCE_WAIT_BOOT_CMD_def boot_idle_def list_update_id)
    show "?d4 = boot_step cmd v rest d"
      using i w by (simp add: boot_step_def after_reply_def set_mb_def dce_writel_def dce_fsm_set_state_def hsp_ok_def r
          DCE_WAIT_BOOT_CMD_def smb_reg_values)
    then show "?d4\<lparr>c_state := STATE_DCE_FSM_IDLE\<rparr> = boot_step cmd v rest d"
      using i by (simp add: boot_step_def)
  qed
  show ?thesis
    unfolding dce_mailbox_send_cmd_sync_def post_event_requested val
    using idle st wait fin
    by (simp add: dce_handle_boot_cmd_requested_event_def send DCE_MAILBOX_BOOT_INTERFACE_def dce_mailbox_wait_def
        dce_mailbox_wait_boot_interface_def boot_error_def boot_idle_def)
qed

section \<open>Sequences of commands\<close>

fun send_cmds :: "'v ivc_ops \<Rightarrow> u32 list \<Rightarrow> 'v tegra_dce \<Rightarrow> (ret \<times> 'v tegra_dce) option" where
  "send_cmds ops [] d = Some (OK, d)"
| "send_cmds ops (c # cs) d = do {
     (ret, d) \<leftarrow> dce_mailbox_send_cmd_sync ops c DCE_MAILBOX_BOOT_INTERFACE d;
     if isl ret then Some (ret, d) else send_cmds ops cs d }"

lemma not_isl_ret: "\<not> isl r \<Longrightarrow> r = (OK :: ret)"
  by (cases r) auto

lemma send_cmds_single: "send_cmds ops [c] d = dce_mailbox_send_cmd_sync ops c DCE_MAILBOX_BOOT_INTERFACE d"
  by (cases "dce_mailbox_send_cmd_sync ops c DCE_MAILBOX_BOOT_INTERFACE d") (auto dest: not_isl_ret)

lemma send_cmds_then:
  assumes "\<And>d'. send_cmds ops cs d = Some (OK, d') \<Longrightarrow> F d' = send_cmds ops cs' d'"
  shows "do { (ret, d) \<leftarrow> send_cmds ops cs d; if isl ret then Some (ret, d) else F d } = send_cmds ops (cs @ cs') d"
  using assms
proof (induction cs arbitrary: d)
  case Nil
  then show ?case by simp
next
  case (Cons c cs)
  show ?case
  proof (cases "dce_mailbox_send_cmd_sync ops c DCE_MAILBOX_BOOT_INTERFACE d")
    case None
    then show ?thesis by simp
  next
    case (Some p)
    obtain r d1 where p: "p = (r, d1)" by force
    show ?thesis using Cons.IH [of d1] Cons.prems Some p by (cases "isl r") simp_all
  qed
qed

lemma bind_chain:
  assumes "bind X (\<lambda>(r, d). if isl r then Some (r, d) else F d) = Y"
  shows "bind X (\<lambda>(r, d). bind (if isl r then Some (r, d) else F d) H) = bind Y H"
  using assms [symmetric] by (cases X) (simp_all split: prod.split)

text \<open>The commands of each part of the sequence.\<close>

definition addr_cmds :: "u32 \<Rightarrow> u64 \<Rightarrow> u32 list" where
  "addr_cmds rd_wr a =
     [DCE_BOOT_CMD_SET_HILO 0 hl OR DCE_BOOT_CMD_SET_RDWR 0 rd_wr OR DCE_BOOT_CMD_SET 0 DCE_BOOT_CMD_SET_ADDR OR
        DCE_BOOT_CMD_PARM_SET 0 x. (hl, x) \<leftarrow> [(1, ucast (drop_bit 20 a)), (0, ucast a)]]"

definition ast_cmds :: "u64 \<Rightarrow> u32 \<Rightarrow> u32 list" where
  "ast_cmds iova sz =
     [DCE_BOOT_CMD_SET_HILO 0 hl OR DCE_BOOT_CMD_SET 0 c OR DCE_BOOT_CMD_PARM_SET 0 x.
        (hl, c, x) \<leftarrow> [(1, DCE_BOOT_CMD_SET_AST_LENGTH, drop_bit 20 sz), (0, DCE_BOOT_CMD_SET_AST_LENGTH, sz),
          (1, DCE_BOOT_CMD_SET_AST_IOVA, ucast (drop_bit 20 iova)), (0, DCE_BOOT_CMD_SET_AST_IOVA, ucast iova)]]"

definition bootstrap_commands :: "u8 \<Rightarrow> u64 \<Rightarrow> u32 \<Rightarrow> u8 \<Rightarrow> u32 \<Rightarrow> u64 \<Rightarrow> u64 \<Rightarrow> u32 list" where
  "bootstrap_commands sid iova sz nfr fsz rx tx =
     [DCE_BOOT_CMD_SET 0 DCE_BOOT_CMD_VERSION] @
     [DCE_BOOT_CMD_SET 0 DCE_BOOT_CMD_SET_SID OR DCE_BOOT_CMD_PARM_SET 0 (ucast sid)] @
     ast_cmds iova sz @
     addr_cmds 0 tx @ addr_cmds 1 rx @ [DCE_BOOT_CMD_SET 0 DCE_BOOT_CMD_GET_FSIZE] @
     [DCE_BOOT_CMD_SET 0 DCE_BOOT_CMD_SET_NFRAMES OR DCE_BOOT_CMD_PARM_SET 0 (ucast nfr)] @
     [DCE_BOOT_CMD_SET 0 DCE_BOOT_CMD_SET_FSIZE OR DCE_BOOT_CMD_PARM_SET 0 fsz] @
     [DCE_BOOT_CMD_SET 0 DCE_BOOT_CMD_CHANNEL_INIT] @ [DCE_BOOT_CMD_SET 0 DCE_BOOT_CMD_LOCK]"

lemma bootstrap_commands_length: "length (bootstrap_commands sid iova sz nfr fsz rx tx) = 15"
  by (simp add: bootstrap_commands_def ast_cmds_def addr_cmds_def)

lemma single_cmds:
  "dce_send_version_cmd ops d = send_cmds ops [DCE_BOOT_CMD_SET 0 DCE_BOOT_CMD_VERSION] d"
  "dce_send_set_sid_cmd ops d =
     send_cmds ops [DCE_BOOT_CMD_SET 0 DCE_BOOT_CMD_SET_SID OR DCE_BOOT_CMD_PARM_SET 0 (ucast (stream_id d))] d"
  "dce_send_channel_int_cmd ops d = send_cmds ops [DCE_BOOT_CMD_SET 0 DCE_BOOT_CMD_CHANNEL_INIT] d"
  "dce_send_lock_cmd ops d = send_cmds ops [DCE_BOOT_CMD_SET 0 DCE_BOOT_CMD_LOCK] d"
  "dce_send_get_fsize_cmd ops d = send_cmds ops [DCE_BOOT_CMD_SET 0 DCE_BOOT_CMD_GET_FSIZE] d"
  "dce_send_set_nframes_cmd ops n d =
     send_cmds ops [DCE_BOOT_CMD_SET 0 DCE_BOOT_CMD_SET_NFRAMES OR DCE_BOOT_CMD_PARM_SET 0 (ucast n)] d"
  "dce_send_set_fsize_cmd ops fs d =
     send_cmds ops [DCE_BOOT_CMD_SET 0 DCE_BOOT_CMD_SET_FSIZE OR DCE_BOOT_CMD_PARM_SET 0 fs] d"
  unfolding send_cmds_single dce_send_version_cmd_def dce_send_set_sid_cmd_def dce_send_channel_int_cmd_def
    dce_send_lock_cmd_def dce_send_get_fsize_cmd_def dce_send_set_nframes_cmd_def dce_send_set_fsize_cmd_def by (rule refl)+

lemma send_cmds_last: "bind X (\<lambda>(r, d). if isl r then Some (r, d) else Some (OK, d)) = (X :: (ret \<times> 'v tegra_dce) option)"
  by (cases X) (auto dest: not_isl_ret)

lemmas unfold_cmds = send_cmds.simps send_cmds_last dce_send_set_addr_cmd_hi_def dce_send_set_addr_cmd_lo_def
  unsigned_0 unsigned_1

lemma addr_cmds_list:
  "addr_cmds rw a =
    [DCE_BOOT_CMD_SET_HILO 0 1 OR DCE_BOOT_CMD_SET_RDWR 0 rw OR DCE_BOOT_CMD_SET 0 DCE_BOOT_CMD_SET_ADDR OR
       DCE_BOOT_CMD_PARM_SET 0 (ucast (drop_bit 20 a)),
     DCE_BOOT_CMD_SET_HILO 0 0 OR DCE_BOOT_CMD_SET_RDWR 0 rw OR DCE_BOOT_CMD_SET 0 DCE_BOOT_CMD_SET_ADDR OR
       DCE_BOOT_CMD_PARM_SET 0 (ucast a)]"
  by (simp add: addr_cmds_def)

lemma set_addr_cmds:
  "dce_send_set_addr_read_cmd ops a d = send_cmds ops (addr_cmds 0 a) d"
  "dce_send_set_addr_write_cmd ops a d = send_cmds ops (addr_cmds 1 a) d"
  unfolding addr_cmds_list dce_send_set_addr_read_cmd_def dce_send_set_addr_write_cmd_def unfold_cmds by (rule refl)+

lemma ast_cmds_list:
  "ast_cmds iova sz =
    [DCE_BOOT_CMD_SET_HILO 0 1 OR DCE_BOOT_CMD_SET 0 DCE_BOOT_CMD_SET_AST_LENGTH OR DCE_BOOT_CMD_PARM_SET 0 (drop_bit 20 sz),
     DCE_BOOT_CMD_SET_HILO 0 0 OR DCE_BOOT_CMD_SET 0 DCE_BOOT_CMD_SET_AST_LENGTH OR DCE_BOOT_CMD_PARM_SET 0 sz,
     DCE_BOOT_CMD_SET_HILO 0 1 OR DCE_BOOT_CMD_SET 0 DCE_BOOT_CMD_SET_AST_IOVA OR
       DCE_BOOT_CMD_PARM_SET 0 (ucast (drop_bit 20 iova)),
     DCE_BOOT_CMD_SET_HILO 0 0 OR DCE_BOOT_CMD_SET 0 DCE_BOOT_CMD_SET_AST_IOVA OR DCE_BOOT_CMD_PARM_SET 0 (ucast iova)]"
  by (simp add: ast_cmds_def)

lemma ast_iova_cmds:
  assumes "region_base d"
  shows "dce_bootstrap_send_ast_iova_info ops d = send_cmds ops (ast_cmds (region_iova d) (ucast (region_size d))) d"
proof -
  have "dce_ipc_get_region_iova_info d = Inr (region_iova d, ucast (region_size d))"
    using assms by (simp add: dce_ipc_get_region_iova_info_def)
  then show ?thesis unfolding dce_bootstrap_send_ast_iova_info_def ast_cmds_list unfold_cmds by simp
qed

lemma admin_ivc_cmds:
  assumes "dce_ipc_get_channel_info 0 d = Some (Inr (nfr, fsz, rx, tx))"
  shows "dce_bootstrap_send_admin_ivc_info ops d =
    send_cmds ops (addr_cmds 0 tx @ addr_cmds 1 rx @ [DCE_BOOT_CMD_SET 0 DCE_BOOT_CMD_GET_FSIZE] @
      [DCE_BOOT_CMD_SET 0 DCE_BOOT_CMD_SET_NFRAMES OR DCE_BOOT_CMD_PARM_SET 0 (ucast nfr)] @
      [DCE_BOOT_CMD_SET 0 DCE_BOOT_CMD_SET_FSIZE OR DCE_BOOT_CMD_PARM_SET 0 fsz]) d"
proof -
  have st: "do { (ret, d) \<leftarrow> send_cmds ops cs d; if isl ret then Some (ret, d) else send_cmds ops cs' d } =
      send_cmds ops (cs @ cs') d" for cs cs' d
    by (rule send_cmds_then) (rule refl)
  show ?thesis
    unfolding dce_bootstrap_send_admin_ivc_info_def dce_admin_get_ipc_channel_info_def assms set_addr_cmds single_cmds
    by (simp only: bind.bind_lunit sum.case prod.case st)
qed

text \<open>The replies, taken one after the other up to the first error.\<close>

fun boot_steps :: "u32 list \<Rightarrow> u32 list \<Rightarrow> 'v dce_action list \<Rightarrow> 'v tegra_dce \<Rightarrow> ret \<times> 'v tegra_dce" where
  "boot_steps (c # cs) (v # vs) rest d =
     (let d = boot_step c v (map boot_reply vs @ rest) d
      in if boot_error v then (Inl EBADE, d) else boot_steps cs vs rest d)"
| "boot_steps cs vs rest d = (OK, d)"

lemma send_cmds_replies:
  assumes "boot_idle d" and "d_env d = map boot_reply vs @ rest" and "\<And>v. v \<in> set vs \<Longrightarrow> DCE_IRQ_GET_STATUS_TYPE v = 1"
    and "length cs \<le> length vs"
  shows "send_cmds ops cs d = Some (boot_steps cs vs rest d)"
  using assms
proof (induction cs vs rest d rule: boot_steps.induct)
  case (1 c cs v vs rest d)
  have one: "dce_mailbox_send_cmd_sync ops c DCE_MAILBOX_BOOT_INTERFACE d =
      Some (if boot_error v then Inl EBADE else OK, boot_step c v (map boot_reply vs @ rest) d)"
    using 1(2,3,4) by (intro boot_command_reply) auto
  show ?case
    using 1(1) [OF refl _ boot_idle_step [OF 1(2)]] 1(4,5) one by (auto simp: Let_def)
qed auto

lemma boot_steps_effect:
  assumes "boot_idle d" and "length cs = length vs" and "boot_steps cs vs rest d = (r, d')" and "d_env d = map boot_reply vs @ rest"
  shows "boot_idle d' \<and> r = (if \<exists>v \<in> set vs. boot_error v then Inl EBADE else OK) \<and>
    writes_to (smb_reg 6) d' = writes_to (smb_reg 6) d @
      map (\<lambda>c. c OR DCE_BIT 31) (take (Suc (length (takeWhile (\<lambda>v. \<not> boot_error v) vs))) cs) \<and>
    d_env d' = drop (Suc (length (takeWhile (\<lambda>v. \<not> boot_error v) vs))) (map boot_reply vs) @ rest \<and>
    stream_id d' = stream_id d \<and> region_base d' = region_base d \<and> region_iova d' = region_iova d \<and>
    region_size d' = region_size d \<and> ipc_ch d' = ipc_ch d \<and> ivc_channels d' = ivc_channels d \<and>
    boot_status d' = boot_status d"
  using assms
proof (induction cs vs rest d rule: boot_steps.induct)
  case (1 c cs v vs rest d)
  show ?case
    using 1(1) [OF refl _ boot_idle_step [OF 1(2)]] 1(3,4) boot_idle_step [OF 1(2)]
    by (auto simp: Let_def writes_to_def smb_reg_values split: if_split_asm)
qed auto

lemma boot_steps_single:
  assumes "boot_idle d" and "d_env d = map boot_reply vs @ rest" and "\<And>v. v \<in> set vs \<Longrightarrow> DCE_IRQ_GET_STATUS_TYPE v = 1"
    and "length cs \<le> length vs" and "send_cmds ops cs d = Some (OK, d')"
  shows "stream_id d' = stream_id d \<and> region_base d' = region_base d \<and> region_iova d' = region_iova d \<and>
    region_size d' = region_size d \<and> ipc_ch d' = ipc_ch d \<and> ivc_channels d' = ivc_channels d"
proof -
  have e: "boot_steps cs (take (length cs) vs) (map boot_reply (drop (length cs) vs) @ rest) d = (OK, d')"
    using send_cmds_replies [of d "take (length cs) vs" "map boot_reply (drop (length cs) vs) @ rest" cs ops] assms
    by (simp add: map_append [symmetric] del: map_append) (metis append_take_drop_id in_set_takeD map_append)
  have env: "d_env d = map boot_reply (take (length cs) vs) @ map boot_reply (drop (length cs) vs) @ rest"
    by (simp add: assms(2) flip: map_append append_assoc)
  from boot_steps_effect [OF assms(1) _ e env] assms(4) show ?thesis by simp
qed

lemma channel_info_cong:
  "ipc_ch d' = ipc_ch d \<Longrightarrow> ivc_channels d' = ivc_channels d \<Longrightarrow>
    dce_ipc_get_channel_info i d' = dce_ipc_get_channel_info i d"
  by (simp add: dce_ipc_get_channel_info_def get_ch_def)

lemma boot_status_set_simps [simp]:
  "boot_idle (boot_status_set b d) = boot_idle d" "writes_to q (boot_status_set b d) = writes_to q d"
  "boot_status (boot_status_set b d) = boot_status d OR b" "d_env (boot_status_set b d) = d_env d"
  "stream_id (boot_status_set b d) = stream_id d" "region_base (boot_status_set b d) = region_base d"
  "region_iova (boot_status_set b d) = region_iova d" "region_size (boot_status_set b d) = region_size d"
  "ipc_ch (boot_status_set b d) = ipc_ch d" "ivc_channels (boot_status_set b d) = ivc_channels d"
  "c_state (boot_status_set b d) = c_state d" "msg_heap (boot_status_set b d) = msg_heap d"
  by (simp_all add: boot_status_set_def boot_idle_def boot_mb_ok_def hsp_ok_def writes_to_def)

text \<open>The whole flow is the list of commands, between the two boot status bits.\<close>

lemma bootstrap_flow_cmds:
  assumes "boot_idle d" and "region_base d" and "dce_ipc_get_channel_info 0 d = Some (Inr (nfr, fsz, rx, tx))"
    and "d_env d = map boot_reply vs @ rest" and "\<And>v. v \<in> set vs \<Longrightarrow> DCE_IRQ_GET_STATUS_TYPE v = 1" and "length vs = 15"
  shows "dce_start_bootstrap_flow ops d = do {
    (ret, d) \<leftarrow> send_cmds ops (bootstrap_commands (stream_id d) (region_iova d) (ucast (region_size d)) nfr fsz rx tx)
      (boot_status_set DCE_FW_BOOTSTRAP_START d);
    Some (ret, boot_status_set (if isl ret then DCE_FW_BOOTSTRAP_FAILED else DCE_FW_BOOTSTRAP_DONE) d) }"
proof -
  let ?d = "boot_status_set DCE_FW_BOOTSTRAP_START d"
  have i: "boot_idle ?d" "d_env ?d = map boot_reply vs @ rest" using assms(1,4) by simp_all
  have same: "stream_id d' = stream_id d \<and> region_base d' \<and> region_iova d' = region_iova d \<and>
      region_size d' = region_size d \<and> dce_ipc_get_channel_info 0 d' = Some (Inr (nfr, fsz, rx, tx))"
    if "send_cmds ops cs ?d = Some (OK, d')" "length cs \<le> 15" for cs d'
    using boot_steps_single [OF i assms(5) _ that(1)] that(2) assms(2,3,6) channel_info_cong [of d' d 0]
    by simp
  let ?ver = "[DCE_BOOT_CMD_SET 0 DCE_BOOT_CMD_VERSION]"
  let ?sid = "[DCE_BOOT_CMD_SET 0 DCE_BOOT_CMD_SET_SID OR DCE_BOOT_CMD_PARM_SET 0 (ucast (stream_id d))]"
  let ?ast = "ast_cmds (region_iova d) (ucast (region_size d))"
  let ?ivc = "addr_cmds 0 tx @ addr_cmds 1 rx @ [DCE_BOOT_CMD_SET 0 DCE_BOOT_CMD_GET_FSIZE] @
      [DCE_BOOT_CMD_SET 0 DCE_BOOT_CMD_SET_NFRAMES OR DCE_BOOT_CMD_PARM_SET 0 (ucast nfr)] @
      [DCE_BOOT_CMD_SET 0 DCE_BOOT_CMD_SET_FSIZE OR DCE_BOOT_CMD_PARM_SET 0 fsz]"
  have len: "length ?ver = 1" "length ?sid = 1" "length ?ast = 4" "length ?ivc = 7"
    by (simp_all add: ast_cmds_def addr_cmds_def)
  have s1: "do { (ret, d) \<leftarrow> send_cmds ops ?ver ?d; if isl ret then Some (ret, d) else dce_send_set_sid_cmd ops d } =
      send_cmds ops (?ver @ ?sid) ?d"
    using same len by (intro send_cmds_then) (simp add: single_cmds del: send_cmds.simps)
  have s2: "do { (ret, d) \<leftarrow> send_cmds ops (?ver @ ?sid) ?d;
        if isl ret then Some (ret, d) else dce_bootstrap_send_ast_iova_info ops d } = send_cmds ops ((?ver @ ?sid) @ ?ast) ?d"
    using same len by (intro send_cmds_then) (simp add: ast_iova_cmds del: send_cmds.simps)
  have s3: "do { (ret, d) \<leftarrow> send_cmds ops ((?ver @ ?sid) @ ?ast) ?d;
        if isl ret then Some (ret, d) else dce_bootstrap_send_admin_ivc_info ops d } =
      send_cmds ops (((?ver @ ?sid) @ ?ast) @ ?ivc) ?d"
    using same len by (intro send_cmds_then) (simp add: admin_ivc_cmds del: send_cmds.simps)
  have s4: "do { (ret, d) \<leftarrow> send_cmds ops cs ?d; if isl ret then Some (ret, d) else dce_send_channel_int_cmd ops d } =
      send_cmds ops (cs @ [DCE_BOOT_CMD_SET 0 DCE_BOOT_CMD_CHANNEL_INIT]) ?d" for cs
    by (intro send_cmds_then) (rule single_cmds(3))
  have s5: "do { (ret, d) \<leftarrow> send_cmds ops cs ?d; if isl ret then Some (ret, d) else dce_send_lock_cmd ops d } =
      send_cmds ops (cs @ [DCE_BOOT_CMD_SET 0 DCE_BOOT_CMD_LOCK]) ?d" for cs
    by (intro send_cmds_then) (rule single_cmds(4))
  show ?thesis
    unfolding dce_start_bootstrap_flow_def single_cmds(1) bind_chain [OF s1] bind_chain [OF s2] bind_chain [OF s3]
      bind_chain [OF s4] bind_chain [OF s5]
    by (simp only: bootstrap_commands_def append_assoc)
qed

text \<open>C31: on an idle device whose firmware answers every command, the bootstrap sends its fifteen commands in
  order, each once and each with its go bit, and stops at the first answer that carries the error flag:
  it returns EBADE after such an answer and 0 otherwise, sets the matching boot status bits and leaves
  the boot interface idle.\<close>

theorem bootstrap_sequence:
  assumes "boot_idle d" and "region_base d" and "dce_ipc_get_channel_info 0 d = Some (Inr (nfr, fsz, rx, tx))"
    and "d_env d = map boot_reply vs @ rest" and "\<And>v. v \<in> set vs \<Longrightarrow> DCE_IRQ_GET_STATUS_TYPE v = 1" and "length vs = 15"
  shows "\<exists>r d'. dce_start_bootstrap_flow ops d = Some (r, d') \<and>
    r = (if \<exists>v \<in> set vs. boot_error v then Inl EBADE else OK) \<and>
    writes_to (smb_reg 6) d' = writes_to (smb_reg 6) d @ map (\<lambda>c. c OR DCE_BIT 31)
      (take (Suc (length (takeWhile (\<lambda>v. \<not> boot_error v) vs)))
         (bootstrap_commands (stream_id d) (region_iova d) (ucast (region_size d)) nfr fsz rx tx)) \<and>
    boot_status d' = boot_status d OR DCE_FW_BOOTSTRAP_START OR
      (if isl r then DCE_FW_BOOTSTRAP_FAILED else DCE_FW_BOOTSTRAP_DONE) \<and> boot_idle d'"
proof -
  let ?cs = "bootstrap_commands (stream_id d) (region_iova d) (ucast (region_size d)) nfr fsz rx tx"
  let ?d = "boot_status_set DCE_FW_BOOTSTRAP_START d"
  have i: "boot_idle ?d" "d_env ?d = map boot_reply vs @ rest" using assms(1,4) by simp_all
  obtain r d1 where st: "boot_steps ?cs vs rest ?d = (r, d1)" by force
  have run: "send_cmds ops ?cs ?d = Some (r, d1)"
    using send_cmds_replies [OF i assms(5)] st assms(6) by (simp add: bootstrap_commands_length)
  note eff = boot_steps_effect [OF i(1) _ st i(2)]
  define b where "b = (if isl r then DCE_FW_BOOTSTRAP_FAILED else DCE_FW_BOOTSTRAP_DONE)"
  have "dce_start_bootstrap_flow ops d = Some (r, boot_status_set b d1)"
    using bootstrap_flow_cmds [OF assms] run by (simp add: b_def)
  then show ?thesis
    using eff assms(6) b_def
    by (intro exI [of _ r] exI [of _ "boot_status_set b d1"]) (simp add: bootstrap_commands_length or.assoc)
qed

lemma fields:
  "DCE_EXTRACT (DCE_INSERT 0 25 25 h OR DCE_INSERT 0 24 24 w OR DCE_INSERT 0 30 27 c OR DCE_INSERT 0 19 0 x) 30 27 = c AND mask 4"
  "DCE_EXTRACT (DCE_INSERT 0 25 25 h OR DCE_INSERT 0 24 24 w OR DCE_INSERT 0 30 27 c OR DCE_INSERT 0 19 0 x) 25 25 = h AND mask 1"
  "DCE_EXTRACT (DCE_INSERT 0 25 25 h OR DCE_INSERT 0 24 24 w OR DCE_INSERT 0 30 27 c OR DCE_INSERT 0 19 0 x) 24 24 = w AND mask 1"
  "DCE_EXTRACT (DCE_INSERT 0 25 25 h OR DCE_INSERT 0 24 24 w OR DCE_INSERT 0 30 27 c OR DCE_INSERT 0 19 0 x) 19 0 = x AND mask 20"
  by (simp_all add: extract_or extract_insert extract_insert_disjoint numeral_eq_Suc del: mask_Suc_0)

lemma addr_halves:
  fixes a :: u64
  shows "push_bit 20 (ucast ((ucast (drop_bit 20 a) :: u32) AND mask 20)) OR ucast ((ucast a :: u32) AND mask 20) = a AND mask 40"
  by (intro bit_word_eqI) (auto simp: bit_simps)

lemma addr_cmds_decode:
  assumes "rw AND mask 1 = rw"
  shows "map DCE_BOOT_CMD_GET (addr_cmds rw a) = [DCE_BOOT_CMD_SET_ADDR, DCE_BOOT_CMD_SET_ADDR] \<and>
    map DCE_BOOT_CMD_GET_RDWR (addr_cmds rw a) = [rw, rw] \<and> map DCE_BOOT_CMD_GET_HILO (addr_cmds rw a) = [1, 0] \<and>
    push_bit 20 (ucast (DCE_BOOT_CMD_PARM_GET (addr_cmds rw a ! 0))) OR ucast (DCE_BOOT_CMD_PARM_GET (addr_cmds rw a ! 1)) =
      a AND mask 40"
proof -
  have m: "DCE_BOOT_CMD_SET_ADDR AND mask 4 = DCE_BOOT_CMD_SET_ADDR" "(1 :: u32) AND mask 1 = 1" "(0 :: u32) AND mask 1 = 0"
    by (simp_all add: DCE_BOOT_CMD_SET_ADDR_def mask_eq_exp_minus_1)
  show ?thesis
    unfolding addr_cmds_list DCE_BOOT_CMD_GET_def DCE_BOOT_CMD_GET_RDWR_def DCE_BOOT_CMD_GET_HILO_def
      DCE_BOOT_CMD_PARM_GET_def DCE_BOOT_CMD_SET_HILO_def DCE_BOOT_CMD_SET_RDWR_def DCE_BOOT_CMD_SET_def
      DCE_BOOT_CMD_PARM_SET_def list.map nth_Cons_0 nth_Cons_Suc One_nat_def [symmetric] fields m assms
    by (simp only: nth_Cons_0 nth_Cons_Suc One_nat_def fields addr_halves simp_thms)
qed

text \<open>The firmware can put an address back together from the two commands that carry it, up to 40 bits:
  both are address commands for the right direction, the first marked as the high half; the bits of the
  address from 40 on are lost.\<close>

theorem boot_address_roundtrip:
  "\<exists>rhi rlo whi wlo.
     dce_send_set_addr_read_cmd ops a d = send_cmds ops [rhi, rlo] d \<and>
     dce_send_set_addr_write_cmd ops a d = send_cmds ops [whi, wlo] d \<and>
     map DCE_BOOT_CMD_GET [rhi, rlo, whi, wlo] = replicate 4 DCE_BOOT_CMD_SET_ADDR \<and>
     map DCE_BOOT_CMD_GET_RDWR [rhi, rlo, whi, wlo] = [0, 0, 1, 1] \<and>
     map DCE_BOOT_CMD_GET_HILO [rhi, rlo, whi, wlo] = [1, 0, 1, 0] \<and>
     push_bit 20 (ucast (DCE_BOOT_CMD_PARM_GET rhi)) OR ucast (DCE_BOOT_CMD_PARM_GET rlo) = a AND mask 40 \<and>
     push_bit 20 (ucast (DCE_BOOT_CMD_PARM_GET whi)) OR ucast (DCE_BOOT_CMD_PARM_GET wlo) = a AND mask 40"
proof -
  obtain rhi rlo whi wlo where c: "addr_cmds 0 a = [rhi, rlo]" "addr_cmds 1 a = [whi, wlo]"
    using addr_cmds_list by blast
  have m: "(0 :: u32) AND mask 1 = 0" "(1 :: u32) AND mask 1 = 1" by (simp_all add: mask_eq_exp_minus_1)
  note dec = addr_cmds_decode [OF m(1), of a, unfolded c] addr_cmds_decode [OF m(2), of a, unfolded c]
  show ?thesis
    using dec set_addr_cmds [of ops a d, unfolded c]
    by (intro exI [of _ rhi] exI [of _ rlo] exI [of _ whi] exI [of _ wlo])
      (simp add: numeral_eq_Suc del: send_cmds.simps)
qed

text \<open>A device set up for the bootstrap, and a firmware that answers.\<close>

definition boot_dce :: "u32 list \<Rightarrow> list_ivc tegra_dce" where
  "boot_dce vs =
     (dce_probe ([], [], []))\<lparr>dce_regs := (\<lambda>r. if r = 0x150104 then 0x8000 else 0), fsm_initialized := True,
       d_mb := (replicate 4 zero_mb)[0 := zero_mb\<lparr>s_mb := 6, r_mb := 7, mb_notifyf := Some Boot_interface_isr,
         mb_waitf := Some Wait_boot_interface\<rparr>],
       ipc_ch := replicate 4 True, region_base := True, region_iova := 0x12340000, region_size := 0x20000,
       d_env := map boot_reply vs\<rparr>"

lemma boot_dce_idle: "boot_idle (boot_dce vs)"
proof -
  have "bit (0x8000 :: u32) 15" by simp
  then show ?thesis
    by (simp add: boot_idle_def boot_mb_ok_def boot_dce_def dce_probe_def hsp_ok_def zero_mb_def nth_list_update
        smb_reg_values DCE_WAIT_BOOT_CMD_def DCE_MAX_WAIT_def)
qed

theorem bootstrap_sequence_witness:
  "\<exists>d'. dce_start_bootstrap_flow (list_ops False) (boot_dce (0x08000000 # 0x08800001 # replicate 13 0x08000000)) =
      Some (Inl EBADE, d') \<and>
    writes_to (smb_reg 6) d' = [0x80000000, 0x88000008] \<and>
    boot_status d' = DCE_FW_BOOTSTRAP_START OR DCE_FW_BOOTSTRAP_FAILED"
proof -
  let ?vs = "0x08000000 # 0x08800001 # replicate 13 (0x08000000 :: u32)"
  let ?d = "boot_dce ?vs"
  have i: "region_base ?d" "dce_ipc_get_channel_info 0 ?d = Some (Inr (4, 2048, 0, 0))" "d_env ?d = map boot_reply ?vs @ []"
    "length ?vs = 15"
    by (simp_all add: boot_dce_def dce_ipc_get_channel_info_def get_ch_def dce_probe_def ivc_channels0_def ivc_channel_def)
  have t: "DCE_IRQ_GET_STATUS_TYPE v = 1" if "v \<in> set ?vs" for v
    using that by (auto simp: DCE_IRQ_GET_STATUS_TYPE_def DCE_EXTRACT_def DCE_MASK_def DCE_BIT_def)
  have e: "boot_error 0x08800001" "\<not> boot_error 0x08000000"
    by (simp_all add: boot_error_def DCE_BOOT_CMD_ERR_FLAG_def DCE_BIT_def)
  have ws: "writes_to (smb_reg 6) ?d = []" "boot_status ?d = 0" "stream_id ?d = 8"
    by (simp_all add: writes_to_def boot_dce_def dce_probe_def)
  have c: "map (\<lambda>c. c OR DCE_BIT 31) (take (Suc (Suc 0)) (bootstrap_commands 8 ia sz n f rx tx)) = [0x80000000, 0x88000008]"
    for ia sz n f rx tx
    by (simp add: bootstrap_commands_def DCE_BOOT_CMD_SET_def DCE_BOOT_CMD_PARM_SET_def DCE_INSERT_def
        DCE_MASK_def DCE_BIT_def DCE_BOOT_CMD_VERSION_def DCE_BOOT_CMD_SET_SID_def)
  have w: "length (takeWhile (\<lambda>v. \<not> boot_error v) ?vs) = Suc 0" "\<exists>v \<in> set ?vs. boot_error v" using e by simp_all
  from bootstrap_sequence [OF boot_dce_idle i(1,2,3) t i(4), of "list_ops False"] show ?thesis
    unfolding w(1) ws c using w(2) by auto
qed

end
