(* ===== verification/Host1x_Syncpt.thy ===== *)
theory Host1x_Syncpt imports Prelude begin

text \<open>
  The syncpoints of host1x (\<open>drivers/gpu/host1x/syncpt.c\<close>, \<open>syncpt.h\<close> and \<open>hw/syncpt_hw.c\<close>): 32-bit
  counters in hardware, each with a shadow of its value (\<open>min_val\<close>), the value up to which increments
  have been promised (\<open>max_val\<close>) and a reference count.  A syncpoint is its index in
  \<open>host->syncpt\<close>, a wait base its index in \<open>host->bases\<close>, a pool its index in \<open>host->pools\<close>, a fence the
  number of its allocation.  The build-time constant \<open>HOST1X_HW\<close> is the field \<open>h_hw\<close>.
\<close>

section \<open>State\<close>

record host1x_syncpt =
  sp_ref :: nat
  sp_min :: u32
  sp_max :: u32
  sp_base_val :: u32
  sp_name :: "string option"
  sp_client_managed :: bool
  sp_base :: "nat option"
  sp_pool :: "nat option"
  sp_fences :: "nat list"
  sp_locked :: bool

record host1x_syncpt_pool =
  pool_name :: string
  pool_base :: nat
  pool_end :: nat

text \<open>A fence with the state of its \<open>dma_fence\<close> base (references, signalled, error), of its delayed work
  (queued or not) and of its list node (initialised or still zero).\<close>

record host1x_syncpt_fence =
  f_sp :: nat
  f_threshold :: u32
  f_timeout :: bool
  f_signaling :: bool
  f_refs :: nat
  f_signaled :: bool
  f_error :: "errno option"
  f_queued :: bool
  f_node :: bool

text \<open>The registers, by the names of the register macros.\<close>

datatype sync_reg =
    SYNCPT nat
  | SYNCPT_BASE nat
  | SYNCPT_CPU_INCR nat
  | SYNCPT_INT_THRESH nat
  | SYNCPT_THRESH_INT_ENABLE_CPU0 nat
  | SYNCPT_THRESH_INT_DISABLE nat
  | SYNCPT_THRESH_CPU0_INT_STATUS nat
  | SYNCPT_INTR_DEST nat
  | SYNCPT_CH_APP nat
  | HV_SYNCPT_PROT_EN
  | IP_BUSY_TIMEOUT
  | CTXSW_TIMEOUT_CFG
  | USEC_CLK
  | SYNC_CMDPROC_STOP
  | SYNC_CH_TEARDOWN
  | HV_CH_KERNEL_FILTER_GBUFFER nat
  | COMMON_MLOCK u32

record host1x =
  h_hw :: nat
  h_nb_pts :: nat
  h_nb_bases :: nat
  h_reserve_vblank :: bool
  h_hv_regs :: bool
  h_common_regs :: bool
  h_wide_gather :: bool
  h_syncpt_base :: nat
  h_syncpt_end :: nat
  h_pools :: "host1x_syncpt_pool list"
  h_syncpt :: "host1x_syncpt list"
  h_bases :: "bool list"
  h_fences :: "host1x_syncpt_fence list"
  h_regs :: "sync_reg \<Rightarrow> u32"
  h_log :: "(sync_reg \<times> u32) list"

text \<open>
  Register access.  A write is logged and kept, except that a write to \<open>SYNCPT_CPU_INCR\<close> makes the
  hardware increment the syncpoints whose bits are set.  Everything else the hardware does to the
  registers is a step of the environment, \<open>hw_value\<close>.
\<close>

definition host1x_sync_readl :: "sync_reg \<Rightarrow> host1x \<Rightarrow> u32" where
  "host1x_sync_readl r h = h_regs h r"

definition hw_response :: "u32 \<Rightarrow> sync_reg \<Rightarrow> (sync_reg \<Rightarrow> u32) \<Rightarrow> sync_reg \<Rightarrow> u32" where
  "hw_response v r regs =
     (case r of
        SYNCPT_CPU_INCR k \<Rightarrow>
          (\<lambda>r'. case r' of
             SYNCPT j \<Rightarrow> if j div 32 = k \<and> bit v (j mod 32) then regs r' + 1 else regs r'
           | _ \<Rightarrow> regs r')
      | _ \<Rightarrow> regs(r := v))"

definition host1x_sync_writel :: "u32 \<Rightarrow> sync_reg \<Rightarrow> host1x \<Rightarrow> host1x" where
  "host1x_sync_writel v r h = h\<lparr>h_regs := hw_response v r (h_regs h), h_log := h_log h @ [(r, v)]\<rparr>"

definition hw_value :: "nat \<Rightarrow> u32 \<Rightarrow> host1x \<Rightarrow> host1x" where
  "hw_value i v h = h\<lparr>h_regs := (h_regs h)(SYNCPT i := v)\<rparr>"

definition sp_get :: "nat \<Rightarrow> host1x \<Rightarrow> host1x_syncpt" where
  "sp_get i h = h_syncpt h ! i"

definition sp_put :: "nat \<Rightarrow> host1x_syncpt \<Rightarrow> host1x \<Rightarrow> host1x" where
  "sp_put i sp h = h\<lparr>h_syncpt := (h_syncpt h)[i := sp]\<rparr>"

section \<open>Initialisation\<close>

text \<open>The memory that \<open>devm_kcalloc\<close> returns.\<close>

definition zero_syncpt :: host1x_syncpt where
  "zero_syncpt = \<lparr>sp_ref = 0, sp_min = 0, sp_max = 0, sp_base_val = 0, sp_name = None, sp_client_managed = False,
     sp_base = None, sp_pool = None, sp_fences = [], sp_locked = False\<rparr>"

fun assign_pools :: "nat \<Rightarrow> host1x_syncpt_pool list \<Rightarrow> host1x_syncpt list \<Rightarrow> host1x_syncpt list option" where
  "assign_pools i [] sps = Some sps"
| "assign_pools i (p # ps) sps =
     (if pool_base p < pool_end p \<and> length sps < pool_end p then None
      else assign_pools (Suc i) ps
        (map (\<lambda>(j, sp). if pool_base p \<le> j \<and> j < pool_end p then sp\<lparr>sp_pool := Some i\<rparr> else sp)
          (zip [0..<length sps] sps)))"

text \<open>
  \<open>kc_pts\<close>, \<open>kc_bases\<close>: the two allocations succeed; \<open>dup\<close>: the result of \<open>kstrdup\<close>.  \<open>None\<close>: an access
  behind the array of syncpoints.
\<close>

definition host1x_syncpt_init :: "bool \<Rightarrow> bool \<Rightarrow> string option \<Rightarrow> host1x \<Rightarrow> ((errno + unit) \<times> host1x) option" where
  "host1x_syncpt_init kc_pts kc_bases dup h =
     (if \<not> kc_pts \<or> \<not> kc_bases then Some (Inl ENOMEM, h)
      else
        let sps = replicate (h_nb_pts h) (zero_syncpt\<lparr>sp_client_managed := True\<rparr>)
        in case assign_pools 0 (h_pools h) sps of
             None \<Rightarrow> None
           | Some sps \<Rightarrow>
               if h_syncpt_base h = 0 \<and> sps = [] \<or> h_reserve_vblank h \<and> length sps \<le> 27 then None
               else
                 let sps = (if h_syncpt_base h = 0 then sps[0 := (sps ! 0)\<lparr>sp_ref := 1, sp_name := dup\<rparr>] else sps);
                     sps = (if h_reserve_vblank h
                            then sps[26 := (sps ! 26)\<lparr>sp_ref := 1\<rparr>, 27 := (sps ! 27)\<lparr>sp_ref := 1\<rparr>] else sps)
                 in Some (Inr (), h\<lparr>h_syncpt := sps, h_bases := replicate (h_nb_bases h) False\<rparr>))"

section \<open>Values\<close>

definition host1x_syncpt_read_max :: "nat \<Rightarrow> host1x \<Rightarrow> u32" where
  "host1x_syncpt_read_max i h = sp_max (sp_get i h)"

definition host1x_syncpt_read_min :: "nat \<Rightarrow> host1x \<Rightarrow> u32" where
  "host1x_syncpt_read_min i h = sp_min (sp_get i h)"

definition host1x_syncpt_idle :: "nat \<Rightarrow> host1x \<Rightarrow> bool" where
  "host1x_syncpt_idle i h \<longleftrightarrow> sp_min (sp_get i h) = sp_max (sp_get i h)"

definition host1x_syncpt_check_max :: "nat \<Rightarrow> u32 \<Rightarrow> host1x \<Rightarrow> bool" where
  "host1x_syncpt_check_max i real h \<longleftrightarrow>
     (if sp_client_managed (sp_get i h) then True else 0 \<le>s host1x_syncpt_read_max i h - real)"

definition host1x_syncpt_is_expired :: "nat \<Rightarrow> u32 \<Rightarrow> host1x \<Rightarrow> bool" where
  "host1x_syncpt_is_expired i thresh h \<longleftrightarrow> (sp_min (sp_get i h) - thresh) AND 0x80000000 = 0"

definition host1x_syncpt_incr_max :: "nat \<Rightarrow> u32 \<Rightarrow> host1x \<Rightarrow> u32 \<times> host1x" where
  "host1x_syncpt_incr_max i incrs h =
     (let sp = sp_get i h; m = sp_max sp + incrs in (m, sp_put i (sp\<lparr>sp_max := m\<rparr>) h))"

text \<open>\<open>syncpt_load\<close>; nothing else writes the shadow between the read and the exchange, so its loop runs
  once.  An increment beyond \<open>max_val\<close> is only printed.\<close>

definition host1x_syncpt_load :: "nat \<Rightarrow> host1x \<Rightarrow> u32 \<times> host1x" where
  "host1x_syncpt_load i h =
     (let live = host1x_sync_readl (SYNCPT i) h in (live, sp_put i ((sp_get i h)\<lparr>sp_min := live\<rparr>) h))"

definition host1x_syncpt_read :: "nat \<Rightarrow> host1x \<Rightarrow> u32 \<times> host1x" where
  "host1x_syncpt_read i h = host1x_syncpt_load i h"

definition host1x_syncpt_incr :: "nat \<Rightarrow> host1x \<Rightarrow> (errno + unit) \<times> host1x" where
  "host1x_syncpt_incr i h =
     (if \<not> sp_client_managed (sp_get i h) \<and> host1x_syncpt_idle i h then (Inl EINVAL, h)
      else (Inr (), host1x_sync_writel (push_bit (i mod 32) 1) (SYNCPT_CPU_INCR (i div 32)) h))"

definition host1x_syncpt_set_locked :: "nat \<Rightarrow> host1x \<Rightarrow> host1x" where
  "host1x_syncpt_set_locked i h = sp_put i ((sp_get i h)\<lparr>sp_locked := True\<rparr>) h"

section \<open>Saving and restoring\<close>

definition syncpt_assign_to_channel :: "nat \<Rightarrow> nat option \<Rightarrow> host1x \<Rightarrow> host1x" where
  "syncpt_assign_to_channel i ch h =
     (if h_hw h < 6 then h
      else host1x_sync_writel (push_bit 8 ((case ch of Some c \<Rightarrow> of_nat c | None \<Rightarrow> 0xff) AND 0x3f)) (SYNCPT_CH_APP i) h)"

definition syncpt_restore :: "nat \<Rightarrow> host1x \<Rightarrow> host1x" where
  "syncpt_restore i h = host1x_sync_writel (host1x_syncpt_read_min i h) (SYNCPT i) h"

definition syncpt_restore_wait_base :: "nat \<Rightarrow> host1x \<Rightarrow> host1x" where
  "syncpt_restore_wait_base i h =
     (if h_hw h < 7 then host1x_sync_writel (sp_base_val (sp_get i h)) (SYNCPT_BASE i) h else h)"

definition syncpt_read_wait_base :: "nat \<Rightarrow> host1x \<Rightarrow> host1x" where
  "syncpt_read_wait_base i h =
     (if h_hw h < 7 then sp_put i ((sp_get i h)\<lparr>sp_base_val := host1x_sync_readl (SYNCPT_BASE i) h\<rparr>) h else h)"

definition host1x_syncpt_load_wait_base :: "nat \<Rightarrow> host1x \<Rightarrow> u32 \<times> host1x" where
  "host1x_syncpt_load_wait_base i h = (let h = syncpt_read_wait_base i h in (sp_base_val (sp_get i h), h))"

definition syncpt_enable_protection :: "host1x \<Rightarrow> host1x" where
  "syncpt_enable_protection h = (if 6 \<le> h_hw h \<and> h_hv_regs h then host1x_sync_writel 2 HV_SYNCPT_PROT_EN h else h)"

definition host1x_syncpt_restore :: "host1x \<Rightarrow> host1x" where
  "host1x_syncpt_restore h =
     (let h = fold (\<lambda>i h. syncpt_restore i (syncpt_assign_to_channel i None h)) [h_syncpt_base h..<h_syncpt_end h] h;
          h = fold syncpt_restore_wait_base [0..<h_nb_bases h] h
      in syncpt_enable_protection h)"

definition host1x_syncpt_save :: "host1x \<Rightarrow> host1x" where
  "host1x_syncpt_save h =
     (let h = fold (\<lambda>i h. if sp_client_managed (sp_get i h) then snd (host1x_syncpt_load i h) else h) [0..<h_nb_pts h] h
      in fold syncpt_read_wait_base [0..<h_nb_bases h] h)"

section \<open>Allocation and references\<close>

definition HOST1X_SYNCPT_CLIENT_MANAGED :: u32 where "HOST1X_SYNCPT_CLIENT_MANAGED = 1"
definition HOST1X_SYNCPT_HAS_BASE :: u32 where "HOST1X_SYNCPT_HAS_BASE = 2"
definition HOST1X_SYNCPT_GPU :: u32 where "HOST1X_SYNCPT_GPU = 4"

definition host1x_syncpt_base_request :: "host1x \<Rightarrow> nat option \<times> host1x" where
  "host1x_syncpt_base_request h =
     (case List.find (\<lambda>i. \<not> h_bases h ! i) [0..<h_nb_bases h] of
        None \<Rightarrow> (None, h)
      | Some i \<Rightarrow> (Some i, h\<lparr>h_bases := (h_bases h)[i := True]\<rparr>))"

definition host1x_syncpt_base_free :: "nat option \<Rightarrow> host1x \<Rightarrow> host1x" where
  "host1x_syncpt_base_free b h =
     (case b of None \<Rightarrow> h | Some i \<Rightarrow> h\<lparr>h_bases := (h_bases h)[i := False]\<rparr>)"

definition gpu_pool :: "host1x \<Rightarrow> nat option" where
  "gpu_pool h = List.find (\<lambda>i. pool_name (h_pools h ! i) = ''gpu'') [0..<length (h_pools h)]"

definition free_syncpt :: "nat option \<Rightarrow> host1x \<Rightarrow> nat option" where
  "free_syncpt pool h =
     List.find (\<lambda>i. sp_pool (sp_get i h) = pool \<and> sp_ref (sp_get i h) = 0) [h_syncpt_base h..<h_syncpt_end h]"

text \<open>\<open>full_name\<close> is the result of \<open>kasprintf\<close> for the given index and name.\<close>

definition host1x_syncpt_alloc ::
  "(nat \<Rightarrow> string \<Rightarrow> string option) \<Rightarrow> u32 \<Rightarrow> string option \<Rightarrow> host1x \<Rightarrow> nat option \<times> host1x" where
  "host1x_syncpt_alloc kasprintf flags name h =
     (case name of
        None \<Rightarrow> (None, h)
      | Some nm \<Rightarrow>
          let pool = (if flags AND HOST1X_SYNCPT_GPU \<noteq> 0 then gpu_pool h else None)
          in case free_syncpt pool h of
               None \<Rightarrow> (None, h)
             | Some i \<Rightarrow>
                 let (ok, h) =
                   (if flags AND HOST1X_SYNCPT_HAS_BASE \<noteq> 0
                    then let (b, h) = host1x_syncpt_base_request h
                         in (b \<noteq> None, sp_put i ((sp_get i h)\<lparr>sp_base := b\<rparr>) h)
                    else (True, h))
                 in if \<not> ok then (None, h)
                    else case kasprintf i nm of
                      None \<Rightarrow>
                        (None, let h = host1x_syncpt_base_free (sp_base (sp_get i h)) h
                               in sp_put i ((sp_get i h)\<lparr>sp_base := None\<rparr>) h)
                    | Some full \<Rightarrow>
                        (Some i, sp_put i ((sp_get i h)\<lparr>sp_name := Some full,
                           sp_client_managed := (flags AND HOST1X_SYNCPT_CLIENT_MANAGED \<noteq> 0), sp_ref := 1\<rparr>) h))"

definition host1x_syncpt_request ::
  "(nat \<Rightarrow> string \<Rightarrow> string option) \<Rightarrow> string option \<Rightarrow> u32 \<Rightarrow> host1x \<Rightarrow> nat option \<times> host1x" where
  "host1x_syncpt_request kasprintf dev_name flags h = host1x_syncpt_alloc kasprintf flags dev_name h"

definition syncpt_release :: "nat \<Rightarrow> host1x \<Rightarrow> host1x" where
  "syncpt_release i h =
     (let (v, h) = host1x_syncpt_read i h;
          h = sp_put i ((sp_get i h)\<lparr>sp_max := v, sp_locked := False\<rparr>) h;
          h = host1x_syncpt_base_free (sp_base (sp_get i h)) h
      in sp_put i ((sp_get i h)\<lparr>sp_base := None, sp_name := None, sp_client_managed := False\<rparr>) h)"

text \<open>\<open>kref_put\<close> takes the last reference first and calls the release function after that; \<open>None\<close> when
  there is no reference to drop.\<close>

definition syncpt_put_ref :: "nat \<Rightarrow> host1x \<Rightarrow> (bool \<times> host1x) option" where
  "syncpt_put_ref i h =
     (let sp = sp_get i h
      in if sp_ref sp = 0 then None
         else Some (sp_ref sp = 1, sp_put i (sp\<lparr>sp_ref := sp_ref sp - 1\<rparr>) h))"

definition host1x_syncpt_put :: "nat option \<Rightarrow> host1x \<Rightarrow> host1x option" where
  "host1x_syncpt_put p h =
     (case p of
        None \<Rightarrow> Some h
      | Some i \<Rightarrow> (case syncpt_put_ref i h of
          None \<Rightarrow> None
        | Some (gone, h) \<Rightarrow> Some (if gone then syncpt_release i h else h)))"

definition host1x_syncpt_get :: "nat \<Rightarrow> host1x \<Rightarrow> host1x" where
  "host1x_syncpt_get i h = sp_put i ((sp_get i h)\<lparr>sp_ref := sp_ref (sp_get i h) + 1\<rparr>) h"

definition host1x_syncpt_get_by_id :: "nat \<Rightarrow> host1x \<Rightarrow> nat option \<times> host1x" where
  "host1x_syncpt_get_by_id i h =
     (if h_nb_pts h \<le> i then (None, h)
      else if sp_ref (sp_get i h) = 0 then (None, h)
      else (Some i, host1x_syncpt_get i h))"

definition host1x_syncpt_get_by_id_noref :: "nat \<Rightarrow> host1x \<Rightarrow> nat option" where
  "host1x_syncpt_get_by_id_noref i h = (if h_nb_pts h \<le> i then None else Some i)"

text \<open>The names are freed; nothing uses them after that.\<close>

definition host1x_syncpt_deinit :: "host1x \<Rightarrow> host1x" where
  "host1x_syncpt_deinit h =
     h\<lparr>h_syncpt := map (\<lambda>i. if i < h_nb_pts h then (sp_get i h)\<lparr>sp_name := None\<rparr> else sp_get i h) [0..<length (h_syncpt h)]\<rparr>"

definition host1x_syncpt_release_vblank_reservation :: "nat \<Rightarrow> host1x \<Rightarrow> host1x option" where
  "host1x_syncpt_release_vblank_reservation i h =
     (if \<not> h_reserve_vblank h then Some h
      else if length (h_syncpt h) \<le> i then None
      else map_option snd (syncpt_put_ref i h))"

section \<open>Comparing counters that wrap around\<close>

text \<open>A counter value and a threshold are 32-bit words that count modulo \<open>2 ^ 32\<close>.  The lemmas relate the
  comparisons of the code to the unbounded counts \<open>c\<close> and \<open>t\<close> behind the words.\<close>

lemma top_bit_clear: "x AND 0x80000000 = 0 \<longleftrightarrow> unat x < 2 ^ 31" for x :: u32
proof -
  have "(2::u32) ^ 31 = 0x80000000" by simp
  then have "x AND 0x80000000 = 0 \<longleftrightarrow> \<not> bit x 31"
    using and_exp_eq_0_iff_not_bit [of x 31] by (simp only:)
  also have "\<dots> \<longleftrightarrow> unat x < 2 ^ 31"
  proof -
    have "bit x 31 \<longleftrightarrow> bit (unat x) 31" by (simp only: bit_unsigned_iff) auto
    also have "\<dots> \<longleftrightarrow> odd (unat x div 2 ^ 31)" by (rule bit_iff_odd)
    finally have 1: "bit x 31 \<longleftrightarrow> odd (unat x div 2 ^ 31)" .
    have "unat x div 2 ^ 31 < 2"
      using unat_lt2p_32 [of x] by (simp add: div_less_iff_less_mult)
    then have "unat x div 2 ^ 31 = 0 \<or> unat x div 2 ^ 31 = 1" by linarith
    then have "odd (unat x div 2 ^ 31) \<longleftrightarrow> unat x div 2 ^ 31 \<noteq> 0" by auto
    also have "\<dots> \<longleftrightarrow> \<not> unat x < 2 ^ 31" by (simp only: div_eq_0_iff) simp
    finally show ?thesis using 1 by blast
  qed
  finally show ?thesis .
qed

lemma signed_bit: "sint x < 0 \<longleftrightarrow> bit x 31" for x :: u32
proof -
  have e: "LENGTH(32) - Suc 0 = 31" by simp
  show ?thesis using bit_last_iff [of x] unfolding e by (rule sym)
qed
lemma signed_ge_0: "0 \<le>s x \<longleftrightarrow> unat x < 2 ^ 31" for x :: u32
proof -
  have "0 \<le>s x \<longleftrightarrow> \<not> sint x < 0" by (simp only: word_sle_eq sint_0 not_less)
  also have "\<dots> \<longleftrightarrow> \<not> bit x 31" by (simp only: signed_bit)
  also have "\<dots> \<longleftrightarrow> x AND 0x80000000 = 0"
  proof -
    have "(2::u32) ^ 31 = 0x80000000" by simp
    then show ?thesis using and_exp_eq_0_iff_not_bit [of x 31] by (simp only:)
  qed
  finally show ?thesis using top_bit_clear by blast
qed

text \<open>The difference of two counters less than half the range apart.\<close>

lemma counter_diff:
  assumes "c < t + 2 ^ 31" and "t \<le> c + 2 ^ 31"
  shows "unat (of_nat c - of_nat t :: u32) < 2 ^ 31 \<longleftrightarrow> t \<le> c"
proof -
  have small: "unat (of_nat (m - n) :: u32) = m - n" if "m - n \<le> 2 ^ 31" for m n
    unfolding unat_of_nat using that by simp
  have diff: "of_nat m - of_nat n = (of_nat (m - n) :: u32)" if "n \<le> m" for m n
    using that by simp
  show ?thesis
  proof (cases "t \<le> c")
    case True
    have "unat (of_nat c - of_nat t :: u32) = c - t"
      unfolding diff [OF True] using assms by (intro small) simp
    then have "unat (of_nat c - of_nat t :: u32) < 2 ^ 31" using True assms(1) by linarith
    then show ?thesis using True by blast
  next
    case False
    then have "unat (of_nat t - of_nat c :: u32) = t - c"
      unfolding diff [OF less_imp_le [OF False [unfolded not_le]]] using assms by (intro small) simp
    moreover have "of_nat c - of_nat t = 0 - (of_nat t - of_nat c :: u32)" by simp
    ultimately have "unat (of_nat c - of_nat t :: u32) = 2 ^ 32 - (t - c)"
      using False by (simp only: unat_sub_if_size) (simp add: word_size)
    then have "\<not> unat (of_nat c - of_nat t :: u32) < 2 ^ 31" using assms(2) by simp
    then show ?thesis using False by blast
  qed
qed

text \<open>The comparisons that occur in the code.\<close>

lemma expired_iff:
  assumes "sp_min (sp_get i h) = of_nat c" and "c < t + 2 ^ 31" and "t \<le> c + 2 ^ 31"
  shows "host1x_syncpt_is_expired i (of_nat t) h \<longleftrightarrow> t \<le> c"
  unfolding host1x_syncpt_is_expired_def assms(1) top_bit_clear by (rule counter_diff [OF assms(2,3)])

section \<open>Access to the table\<close>

lemma sp_get_put [simp]: "i < length (h_syncpt h) \<Longrightarrow> sp_get i (sp_put i sp h) = sp"
  by (simp add: sp_get_def sp_put_def)

lemma sp_get_put_other [simp]: "j \<noteq> i \<Longrightarrow> sp_get j (sp_put i sp h) = sp_get j h"
  by (simp add: sp_get_def sp_put_def)

lemma sp_put_put [simp]: "sp_put i sp' (sp_put i sp h) = sp_put i sp' h"
  by (simp add: sp_put_def)

lemma sp_put_get [simp]: "sp_put i (sp_get i h) h = h"
  by (simp add: sp_get_def sp_put_def)

lemma sp_put_fields [simp]:
  "h_hw (sp_put i sp h) = h_hw h" "h_nb_pts (sp_put i sp h) = h_nb_pts h" "h_nb_bases (sp_put i sp h) = h_nb_bases h"
  "h_syncpt_base (sp_put i sp h) = h_syncpt_base h" "h_syncpt_end (sp_put i sp h) = h_syncpt_end h"
  "h_pools (sp_put i sp h) = h_pools h" "h_bases (sp_put i sp h) = h_bases h" "h_regs (sp_put i sp h) = h_regs h"
  "h_log (sp_put i sp h) = h_log h" "length (h_syncpt (sp_put i sp h)) = length (h_syncpt h)"
  by (simp_all add: sp_put_def)

lemma bases_update [simp]:
  "sp_get i (h\<lparr>h_bases := b\<rparr>) = sp_get i h"
  "sp_put i sp (h\<lparr>h_bases := b\<rparr>) = (sp_put i sp h)\<lparr>h_bases := b\<rparr>"
  by (simp_all add: sp_get_def sp_put_def)

lemma writel_get [simp]: "sp_get i (host1x_sync_writel v r h) = sp_get i h"
  by (simp add: sp_get_def host1x_sync_writel_def)

section \<open>Allocation is exclusive\<close>

text \<open>The configuration fits the table, a free syncpoint has neither name nor wait base, and a wait base is
  marked as requested exactly when it belongs to one of the syncpoints in use.\<close>

definition bases_ok :: "nat \<Rightarrow> bool list \<Rightarrow> (nat \<Rightarrow> nat option) \<Rightarrow> bool" where
  "bases_ok n bs owner \<longleftrightarrow>
     (\<forall>b < length bs. bs ! b \<longleftrightarrow> (\<exists>i < n. owner i = Some b)) \<and>
     (\<forall>i < n. \<forall>b. owner i = Some b \<longrightarrow> b < length bs \<and> (\<forall>j < n. owner j = Some b \<longrightarrow> j = i))"

definition syncpts_ok :: "host1x \<Rightarrow> bool" where
  "syncpts_ok h \<longleftrightarrow>
     length (h_syncpt h) = h_nb_pts h \<and> h_syncpt_end h \<le> h_nb_pts h \<and> length (h_bases h) = h_nb_bases h \<and>
     (\<forall>i < h_nb_pts h. sp_ref (sp_get i h) = 0 \<longrightarrow> sp_base (sp_get i h) = None \<and> sp_name (sp_get i h) = None) \<and>
     bases_ok (h_nb_pts h) (h_bases h) (\<lambda>i. sp_base (sp_get i h))"

lemma bases_okI:
  assumes "\<And>b. b < length bs \<Longrightarrow> bs ! b \<longleftrightarrow> (\<exists>i < n. owner i = Some b)"
    and "\<And>i b. i < n \<Longrightarrow> owner i = Some b \<Longrightarrow> b < length bs \<and> (\<forall>j < n. owner j = Some b \<longrightarrow> j = i)"
  shows "bases_ok n bs owner"
  unfolding bases_ok_def using assms by blast

lemma bases_ok_take:
  assumes ok: "bases_ok n bs owner" and k: "k < length bs" "\<not> bs ! k" and i: "i < n" "owner i = None"
  shows "bases_ok n (bs[k := True]) (owner(i := Some k))"
proof -
  have unused: "owner j \<noteq> Some k" if "j < n" for j using ok k that by (auto simp: bases_ok_def)
  have 1: "bs[k := True] ! b \<longleftrightarrow> (\<exists>j < n. (owner(i := Some k)) j = Some b)" if "b < length bs" for b
  proof (cases "b = k")
    case True
    then show ?thesis using k(1) i(1) by auto
  next
    case False
    then have "(owner(i := Some k)) j = Some b \<longleftrightarrow> owner j = Some b" for j using i(2) by auto
    then show ?thesis using False ok that by (simp add: bases_ok_def)
  qed
  have 2: "b < length bs \<and> (\<forall>j' < n. (owner(i := Some k)) j' = Some b \<longrightarrow> j' = j)"
    if "j < n" "(owner(i := Some k)) j = Some b" for j b
  proof (cases "j = i")
    case True
    then show ?thesis using that k(1) unused by auto
  next
    case False
    then have o: "owner j = Some b" using that by simp
    then have "b < length bs" "\<And>j'. j' < n \<Longrightarrow> owner j' = Some b \<Longrightarrow> j' = j"
      using ok that(1) unfolding bases_ok_def by blast+
    moreover have "b \<noteq> k" using unused [OF that(1)] o by auto
    ultimately show ?thesis by (auto split: if_splits)
  qed
  show ?thesis by (rule bases_okI, unfold length_list_update, erule 1, erule (1) 2)
qed

lemma bases_ok_drop:
  assumes ok: "bases_ok n bs owner" and i: "i < n"
  shows "bases_ok n (case owner i of None \<Rightarrow> bs | Some k \<Rightarrow> bs[k := False]) (owner(i := None))"
proof (cases "owner i")
  case None
  then have "owner(i := None) = owner" by auto
  then show ?thesis using ok None by simp
next
  case (Some k)
  then have k: "k < length bs" and only: "\<And>j. j < n \<Longrightarrow> owner j = Some k \<Longrightarrow> j = i"
    using ok i unfolding bases_ok_def by blast+
  have 1: "bs[k := False] ! b \<longleftrightarrow> (\<exists>j < n. (owner(i := None)) j = Some b)" if "b < length bs" for b
  proof (cases "b = k")
    case True
    then show ?thesis using k only by auto
  next
    case False
    have "(owner(i := None)) j = Some b \<longleftrightarrow> owner j = Some b" for j using False Some by auto
    then show ?thesis using False ok that by (simp add: bases_ok_def)
  qed
  have 2: "b < length bs \<and> (\<forall>j' < n. (owner(i := None)) j' = Some b \<longrightarrow> j' = j)"
    if "j < n" "(owner(i := None)) j = Some b" for j b
  proof -
    have "owner j = Some b" using that(2) by (simp split: if_splits)
    then have "b < length bs" "\<And>j'. j' < n \<Longrightarrow> owner j' = Some b \<Longrightarrow> j' = j"
      using ok that(1) unfolding bases_ok_def by blast+
    then show ?thesis by simp
  qed
  have "bases_ok n (bs[k := False]) (owner(i := None))"
    by (rule bases_okI, unfold length_list_update, erule 1, erule (1) 2)
  then show ?thesis using Some by simp
qed

lemma find_upt_Some:
  assumes "List.find P [a..<b] = Some i"
  shows "a \<le> i" "i < b" "P i" "\<And>j. a \<le> j \<Longrightarrow> j < i \<Longrightarrow> \<not> P j"
proof -
  from assms obtain k where k: "k < length [a..<b]" "P ([a..<b] ! k)" "i = [a..<b] ! k" "\<forall>j < k. \<not> P ([a..<b] ! j)"
    unfolding find_Some_iff by blast
  then have i: "i = a + k" "a + k < b" by auto
  show "a \<le> i" "i < b" "P i" using i k by auto
  fix j assume "a \<le> j" "j < i"
  then have "j - a < k" using i by simp
  with k(4) have "\<not> P ([a..<b] ! (j - a))" by blast
  then show "\<not> P j" using \<open>a \<le> j\<close> \<open>j < i\<close> i by simp
qed

lemma find_upt_None: "List.find P [a..<b] = None \<longleftrightarrow> (\<forall>i. a \<le> i \<and> i < b \<longrightarrow> \<not> P i)"
  by (auto simp: find_None_iff)

lemma base_request:
  assumes "host1x_syncpt_base_request h = (r, h')"
  shows "case r of
      None \<Rightarrow> h' = h \<and> (\<forall>b < h_nb_bases h. h_bases h ! b)
    | Some b \<Rightarrow> b < h_nb_bases h \<and> \<not> h_bases h ! b \<and> h' = h\<lparr>h_bases := (h_bases h)[b := True]\<rparr>"
proof (cases "List.find (\<lambda>i. \<not> h_bases h ! i) [0..<h_nb_bases h]")
  case None
  with assms show ?thesis by (auto simp: host1x_syncpt_base_request_def find_upt_None)
next
  case (Some b)
  then have "r = Some b" "h' = h\<lparr>h_bases := (h_bases h)[b := True]\<rparr>"
    using assms by (simp_all add: host1x_syncpt_base_request_def)
  with find_upt_Some [OF Some] show ?thesis by simp
qed

definition wanted_pool :: "u32 \<Rightarrow> host1x \<Rightarrow> nat option" where
  "wanted_pool flags h = (if flags AND HOST1X_SYNCPT_GPU \<noteq> 0 then gpu_pool h else None)"

definition allocatable :: "u32 \<Rightarrow> host1x \<Rightarrow> nat \<Rightarrow> bool" where
  "allocatable flags h i \<longleftrightarrow>
     h_syncpt_base h \<le> i \<and> i < h_syncpt_end h \<and> sp_pool (sp_get i h) = wanted_pool flags h \<and> sp_ref (sp_get i h) = 0"

lemma free_syncpt_Some:
  assumes "free_syncpt (wanted_pool flags h) h = Some i"
  shows "allocatable flags h i" "\<And>j. allocatable flags h j \<Longrightarrow> i \<le> j"
proof -
  note f = find_upt_Some [OF assms [unfolded free_syncpt_def]]
  show "allocatable flags h i" using f by (simp add: allocatable_def)
  fix j assume "allocatable flags h j"
  then show "i \<le> j" using f(4) [of j] by (force simp: allocatable_def)
qed

lemma free_syncpt_None: "free_syncpt (wanted_pool flags h) h = None \<longleftrightarrow> (\<forall>i. \<not> allocatable flags h i)"
  by (auto simp: free_syncpt_def find_upt_None allocatable_def)

text \<open>The state after an allocation: the syncpoint is referenced once, named, has a wait base when one was
  asked for, and its counters are those it had.\<close>

definition allocated :: "u32 \<Rightarrow> nat \<Rightarrow> string \<Rightarrow> nat option \<Rightarrow> host1x \<Rightarrow> host1x" where
  "allocated flags i full b h =
     sp_put i ((sp_get i h)\<lparr>sp_base := b, sp_name := Some full,
       sp_client_managed := (flags AND HOST1X_SYNCPT_CLIENT_MANAGED \<noteq> 0), sp_ref := 1\<rparr>)
       (case b of None \<Rightarrow> h | Some b \<Rightarrow> h\<lparr>h_bases := (h_bases h)[b := True]\<rparr>)"

lemma alloc_cases:
  assumes ok: "syncpts_ok h"
  shows "case host1x_syncpt_alloc kasprintf flags name h of
      (None, h') \<Rightarrow> h' = h \<and>
        (name = None \<or> (\<forall>i. \<not> allocatable flags h i) \<or>
         flags AND HOST1X_SYNCPT_HAS_BASE \<noteq> 0 \<and> (\<forall>b < h_nb_bases h. h_bases h ! b) \<or>
         (\<exists>i n. name = Some n \<and> kasprintf i n = None))
    | (Some i, h') \<Rightarrow> allocatable flags h i \<and> (\<forall>j. allocatable flags h j \<longrightarrow> i \<le> j) \<and>
        (\<exists>n full b. name = Some n \<and> kasprintf i n = Some full \<and> h' = allocated flags i full b h \<and>
           (case b of None \<Rightarrow> flags AND HOST1X_SYNCPT_HAS_BASE = 0
            | Some b \<Rightarrow> flags AND HOST1X_SYNCPT_HAS_BASE \<noteq> 0 \<and> b < h_nb_bases h \<and> \<not> h_bases h ! b))"
proof (cases name)
  case None
  then show ?thesis by (simp add: host1x_syncpt_alloc_def)
next
  case (Some n)
  note nm = this
  show ?thesis
  proof (cases "free_syncpt (wanted_pool flags h) h")
    case None
    then show ?thesis using nm free_syncpt_None [THEN iffD1, OF None]
      by (simp add: host1x_syncpt_alloc_def wanted_pool_def [symmetric])
  next
    case (Some i)
    note i = free_syncpt_Some [OF this]
    have lt: "i < length (h_syncpt h)" and noname: "sp_base (sp_get i h) = None"
      using i(1) ok unfolding allocatable_def syncpts_ok_def by auto
    then have keep: "(sp_get i h)\<lparr>sp_base := None\<rparr> = sp_get i h" by simp
    have none: "\<exists>b. P b" if "P None" for P :: "nat option \<Rightarrow> bool" using that by blast
    show ?thesis
    proof (cases "flags AND HOST1X_SYNCPT_HAS_BASE = 0")
      case True
      then show ?thesis using nm Some i lt noname
        by (cases "kasprintf i n")
          (auto simp: host1x_syncpt_alloc_def wanted_pool_def [symmetric] host1x_syncpt_base_free_def allocated_def keep
            intro!: none)
    next
      case False
      obtain r h1 where r: "host1x_syncpt_base_request h = (r, h1)" by fastforce
      show ?thesis
      proof (cases r)
        case None
        then show ?thesis using base_request [OF r] r nm Some i False keep
          by (auto simp: host1x_syncpt_alloc_def wanted_pool_def [symmetric])
      next
        case (Some b)
        then have b: "b < h_nb_bases h" "\<not> h_bases h ! b" "h1 = h\<lparr>h_bases := (h_bases h)[b := True]\<rparr>"
          using base_request [OF r] by auto
        then have undo: "(h_bases h)[b := False] = h_bases h" by (metis (full_types) list_update_id)
        show ?thesis using b r nm \<open>free_syncpt _ h = Some i\<close> i False keep lt Some undo
          by (cases "kasprintf i n")
            (auto simp: host1x_syncpt_alloc_def wanted_pool_def [symmetric] host1x_syncpt_base_free_def allocated_def
              intro!: exI [of _ "Some b"])
      qed
    qed
  qed
qed

section \<open>The table stays consistent\<close>

lemma get_put_if: "i < length (h_syncpt h) \<Longrightarrow> sp_get j (sp_put i sp h) = (if j = i then sp else sp_get j h)"
  by simp

text \<open>A change of counters keeps it.\<close>

lemma syncpts_ok_counters:
  assumes ok: "syncpts_ok h" and i: "i < h_nb_pts h"
    and "sp_base sp = sp_base (sp_get i h)" and "sp_name sp = sp_name (sp_get i h)"
    and "sp_ref sp = 0 \<longrightarrow> sp_ref (sp_get i h) = 0"
  shows "syncpts_ok (sp_put i sp h)"
proof -
  have len: "i < length (h_syncpt h)" using ok i by (simp add: syncpts_ok_def)
  note g = get_put_if [OF len]
  have same: "(\<lambda>j. sp_base (sp_get j (sp_put i sp h))) = (\<lambda>j. sp_base (sp_get j h))"
    using assms(3) by (auto simp: g)
  have "sp_base (sp_get j (sp_put i sp h)) = None \<and> sp_name (sp_get j (sp_put i sp h)) = None"
    if "j < h_nb_pts h" "sp_ref (sp_get j (sp_put i sp h)) = 0" for j
    using ok i assms(3-5) that by (cases "j = i") (auto simp: g syncpts_ok_def)
  then show ?thesis using ok by (simp add: syncpts_ok_def same)
qed

lemma syncpts_ok_allocated:
  assumes ok: "syncpts_ok h" and i: "i < h_nb_pts h" "sp_ref (sp_get i h) = 0"
    and b: "case b of None \<Rightarrow> True | Some b \<Rightarrow> b < h_nb_bases h \<and> \<not> h_bases h ! b"
  shows "syncpts_ok (allocated flags i full b h)"
proof -
  let ?h = "allocated flags i full b h"
  let ?sp = "(sp_get i h)\<lparr>sp_base := b, sp_name := Some full,
       sp_client_managed := (flags AND HOST1X_SYNCPT_CLIENT_MANAGED \<noteq> 0), sp_ref := 1\<rparr>"
  have len: "length (h_syncpt h) = h_nb_pts h" "length (h_bases h) = h_nb_bases h" "sp_base (sp_get i h) = None"
      "bases_ok (h_nb_pts h) (h_bases h) (\<lambda>i. sp_base (sp_get i h))"
    using ok i by (auto simp: syncpts_ok_def)
  have g: "sp_get j ?h = (if j = i then ?sp else sp_get j h)" for j
    using len i(1) by (cases b) (simp_all add: allocated_def sp_get_def sp_put_def)
  have f: "h_nb_pts ?h = h_nb_pts h" "h_nb_bases ?h = h_nb_bases h" "h_syncpt_end ?h = h_syncpt_end h"
      "length (h_syncpt ?h) = h_nb_pts h" "length (h_bases ?h) = h_nb_bases h"
    using len by (cases b; simp add: allocated_def)+
  have owner: "(\<lambda>j. sp_base (sp_get j ?h)) = (\<lambda>j. sp_base (sp_get j h))(i := b)" by (auto simp: g)
  have "bases_ok (h_nb_pts h) (h_bases ?h) ((\<lambda>j. sp_base (sp_get j h))(i := b))"
  proof (cases b)
    case None
    then have "(\<lambda>j. sp_base (sp_get j h))(i := b) = (\<lambda>j. sp_base (sp_get j h))" "h_bases ?h = h_bases h"
      using len(3) by (auto simp: allocated_def)
    then show ?thesis using len(4) by simp
  next
    case (Some k)
    then have "h_bases ?h = (h_bases h)[k := True]" by (simp add: allocated_def)
    then show ?thesis using bases_ok_take [OF len(4), of k i] b Some i len by simp
  qed
  moreover have "sp_base (sp_get j ?h) = None \<and> sp_name (sp_get j ?h) = None"
    if "j < h_nb_pts h" "sp_ref (sp_get j ?h) = 0" for j
    using ok that by (cases "j = i") (auto simp: g syncpts_ok_def)
  ultimately show ?thesis using ok by (simp add: syncpts_ok_def f owner)
qed

text \<open>The release of a syncpoint, as the state it leaves.\<close>

lemma load_eq: "host1x_syncpt_load i h = (h_regs h (SYNCPT i), sp_put i ((sp_get i h)\<lparr>sp_min := h_regs h (SYNCPT i)\<rparr>) h)"
  by (simp add: host1x_syncpt_load_def host1x_sync_readl_def Let_def)

definition released :: "nat \<Rightarrow> host1x \<Rightarrow> host1x" where
  "released i h =
     sp_put i ((sp_get i h)\<lparr>sp_min := h_regs h (SYNCPT i), sp_max := h_regs h (SYNCPT i), sp_locked := False,
         sp_base := None, sp_name := None, sp_client_managed := False\<rparr>)
       (host1x_syncpt_base_free (sp_base (sp_get i h)) h)"

lemma release_eq: "i < length (h_syncpt h) \<Longrightarrow> syncpt_release i h = released i h"
  by (cases "sp_base (sp_get i h)")
    (simp_all add: syncpt_release_def host1x_syncpt_read_def load_eq released_def host1x_syncpt_base_free_def Let_def)

lemma syncpts_ok_released:
  assumes ok: "syncpts_ok h" and i: "i < h_nb_pts h"
  shows "syncpts_ok (released i h)"
proof -
  let ?h = "released i h"
  have len: "length (h_syncpt h) = h_nb_pts h" "length (h_bases h) = h_nb_bases h"
      "bases_ok (h_nb_pts h) (h_bases h) (\<lambda>i. sp_base (sp_get i h))"
    using ok by (auto simp: syncpts_ok_def)
  have g: "sp_get j ?h = (if j = i then (sp_get i h)\<lparr>sp_min := h_regs h (SYNCPT i), sp_max := h_regs h (SYNCPT i),
      sp_locked := False, sp_base := None, sp_name := None, sp_client_managed := False\<rparr> else sp_get j h)" for j
    using len i(1) by (cases "sp_base (sp_get i h)")
      (simp_all add: released_def host1x_syncpt_base_free_def sp_get_def sp_put_def)
  have f: "h_nb_pts ?h = h_nb_pts h" "h_nb_bases ?h = h_nb_bases h" "h_syncpt_end ?h = h_syncpt_end h"
      "length (h_syncpt ?h) = h_nb_pts h" "length (h_bases ?h) = h_nb_bases h"
      "h_bases ?h = (case sp_base (sp_get i h) of None \<Rightarrow> h_bases h | Some k \<Rightarrow> (h_bases h)[k := False])"
    using len by (cases "sp_base (sp_get i h)"; simp add: released_def host1x_syncpt_base_free_def)+
  have owner: "(\<lambda>j. sp_base (sp_get j ?h)) = (\<lambda>j. sp_base (sp_get j h))(i := None)" by (auto simp: g)
  have "sp_base (sp_get j ?h) = None \<and> sp_name (sp_get j ?h) = None"
    if "j < h_nb_pts h" "sp_ref (sp_get j ?h) = 0" for j
    using ok that by (cases "j = i") (auto simp: g syncpts_ok_def)
  moreover note bases_ok_drop [OF len(3) i(1), folded f(6)]
  ultimately show ?thesis using ok by (simp add: syncpts_ok_def f(1-5) owner)
qed

section \<open>Calls of the clients\<close>

datatype syncpt_call =
    Alloc u32 "string option"
  | Get_by_id nat
  | Put nat
  | Incr_max nat u32
  | Load nat
  | Hw_value nat u32

text \<open>A call and the syncpoint it hands out.\<close>

fun exec_call :: "(nat \<Rightarrow> string \<Rightarrow> string option) \<Rightarrow> syncpt_call \<Rightarrow> host1x \<Rightarrow> (nat option \<times> host1x) option" where
  "exec_call k (Alloc flags name) h = Some (host1x_syncpt_alloc k flags name h)"
| "exec_call k (Get_by_id i) h = Some (host1x_syncpt_get_by_id i h)"
| "exec_call k (Put i) h = map_option (Pair None) (host1x_syncpt_put (Some i) h)"
| "exec_call k (Incr_max i n) h = Some (None, snd (host1x_syncpt_incr_max i n h))"
| "exec_call k (Load i) h = Some (None, snd (host1x_syncpt_load i h))"
| "exec_call k (Hw_value i v) h = Some (None, hw_value i v h)"

text \<open>The references the clients hold; they only give back what they hold, and only use counters of the
  table.\<close>

fun permitted :: "(nat \<Rightarrow> nat) \<Rightarrow> syncpt_call \<Rightarrow> host1x \<Rightarrow> bool" where
  "permitted held (Put i) h \<longleftrightarrow> i < h_nb_pts h \<and> 0 < held i"
| "permitted held (Incr_max i n) h \<longleftrightarrow> i < h_nb_pts h"
| "permitted held (Load i) h \<longleftrightarrow> i < h_nb_pts h"
| "permitted held c h \<longleftrightarrow> True"

fun now_held :: "syncpt_call \<Rightarrow> nat option \<Rightarrow> (nat \<Rightarrow> nat) \<Rightarrow> nat \<Rightarrow> nat" where
  "now_held (Put i) r held = held(i := held i - 1)"
| "now_held c (Some i) held = held(i := held i + 1)"
| "now_held c None held = held"

fun syncpt_calls ::
  "(nat \<Rightarrow> string \<Rightarrow> string option) \<Rightarrow> syncpt_call list \<Rightarrow> (nat \<Rightarrow> nat) \<Rightarrow> host1x \<Rightarrow> ((nat \<Rightarrow> nat) \<times> host1x) option" where
  "syncpt_calls k [] held h = Some (held, h)"
| "syncpt_calls k (c # cs) held h =
     (if \<not> permitted held c h then syncpt_calls k cs held h
      else case exec_call k c h of
        None \<Rightarrow> None
      | Some (r, h) \<Rightarrow> syncpt_calls k cs (now_held c r held) h)"

definition refs_held :: "(nat \<Rightarrow> nat) \<Rightarrow> host1x \<Rightarrow> bool" where
  "refs_held held h \<longleftrightarrow> syncpts_ok h \<and> (\<forall>i < h_nb_pts h. sp_ref (sp_get i h) = held i)"

lemma ok_length: "syncpts_ok h \<Longrightarrow> length (h_syncpt h) = h_nb_pts h"
  by (simp add: syncpts_ok_def)

lemma allocated_refs:
  assumes "i < length (h_syncpt h)"
  shows "sp_ref (sp_get j (allocated flags i full b h)) = (if j = i then 1 else sp_ref (sp_get j h))"
    and "h_nb_pts (allocated flags i full b h) = h_nb_pts h"
  using assms by (cases b; simp add: allocated_def)+

lemma released_refs:
  assumes "i < length (h_syncpt h)"
  shows "sp_ref (sp_get j (released i h)) = sp_ref (sp_get j h)" and "h_nb_pts (released i h) = h_nb_pts h"
  using assms by (cases "sp_base (sp_get i h)"; cases "j = i"; simp add: released_def host1x_syncpt_base_free_def)+

lemma put_eq:
  assumes "i < length (h_syncpt h)" and "0 < sp_ref (sp_get i h)"
  shows "host1x_syncpt_put (Some i) h =
    Some (if sp_ref (sp_get i h) = 1
          then (let h' = released i h in sp_put i ((sp_get i h')\<lparr>sp_ref := 0\<rparr>) h')
          else sp_put i ((sp_get i h)\<lparr>sp_ref := sp_ref (sp_get i h) - 1\<rparr>) h)"
proof (cases "sp_ref (sp_get i h) = 1")
  case True
  have swap: "sp\<lparr>sp_ref := 0, sp_min := v, sp_max := v, sp_locked := False, sp_base := None, sp_name := None,
        sp_client_managed := False\<rparr> =
      sp\<lparr>sp_min := v, sp_max := v, sp_locked := False, sp_base := None, sp_name := None, sp_client_managed := False,
        sp_ref := 0\<rparr>" for sp :: host1x_syncpt and v
    by simp
  show ?thesis using assms(1) True
    by (cases "sp_base (sp_get i h)")
      (simp_all add: swap host1x_syncpt_put_def syncpt_put_ref_def release_eq released_def host1x_syncpt_base_free_def)
next
  case False
  then show ?thesis using assms by (simp add: host1x_syncpt_put_def syncpt_put_ref_def Let_def)
qed

lemma released_entry:
  assumes "i < length (h_syncpt h)"
  shows "sp_base (sp_get i (released i h)) = None" and "sp_name (sp_get i (released i h)) = None"
    and "length (h_syncpt (released i h)) = length (h_syncpt h)"
  using assms by (cases "sp_base (sp_get i h)"; simp add: released_def host1x_syncpt_base_free_def)+

lemma put_keeps:
  assumes r: "refs_held held h" and i: "i < h_nb_pts h" "0 < held i"
  obtains h' where "host1x_syncpt_put (Some i) h = Some h'" and "refs_held (held(i := held i - 1)) h'"
    and "h_nb_pts h' = h_nb_pts h"
proof -
  from r have ok: "syncpts_ok h" and held: "\<And>j. j < h_nb_pts h \<Longrightarrow> sp_ref (sp_get j h) = held j"
    by (auto simp: refs_held_def)
  have len: "i < length (h_syncpt h)" using ok_length [OF ok] i by simp
  note eq = put_eq [OF len, unfolded held [OF i(1)], OF i(2)]
  show ?thesis
  proof (cases "held i = 1")
    case True
    let ?r = "released i h"
    let ?h = "sp_put i ((sp_get i ?r)\<lparr>sp_ref := 0\<rparr>) ?r"
    note re = released_entry [OF len] released_refs [OF len]
    have lr: "i < length (h_syncpt ?r)" using re(3) len by simp
    have "length (h_syncpt ?h) = length (h_syncpt ?r)" by simp
    have same: "(\<lambda>j. sp_base (sp_get j ?h)) = (\<lambda>j. sp_base (sp_get j ?r))"
      using lr by (auto simp: get_put_if)
    have rok: "syncpts_ok ?r" by (rule syncpts_ok_released [OF ok i(1)])
    have "sp_base (sp_get j ?h) = None \<and> sp_name (sp_get j ?h) = None"
      if "j < h_nb_pts ?r" "sp_ref (sp_get j ?h) = 0" for j
      using rok that re(1,2) lr by (cases "j = i") (auto simp: syncpts_ok_def)
    then have "syncpts_ok ?h"
      using rok by (simp add: syncpts_ok_def same)
    then have "refs_held (held(i := held i - 1)) ?h"
      using True re(4,5) held by (simp add: refs_held_def get_put_if [OF lr])
    then show ?thesis using that [of ?h] eq True re(5) by (simp add: Let_def)
  next
    case False
    let ?h = "sp_put i ((sp_get i h)\<lparr>sp_ref := held i - 1\<rparr>) h"
    have "syncpts_ok ?h" using syncpts_ok_counters [OF ok i(1), of "(sp_get i h)\<lparr>sp_ref := held i - 1\<rparr>"] False i
      by simp
    then have "refs_held (held(i := held i - 1)) ?h"
      using held by (simp add: refs_held_def get_put_if [OF len])
    then show ?thesis using that [of ?h] eq False by simp
  qed
qed

lemma call_keeps:
  assumes r: "refs_held held h" and p: "permitted held c h"
  obtains r h' where "exec_call k c h = Some (r, h')" and "refs_held (now_held c r held) h'"
proof -
  from r have ok: "syncpts_ok h" and held: "\<And>j. j < h_nb_pts h \<Longrightarrow> sp_ref (sp_get j h) = held j"
    by (auto simp: refs_held_def)
  have counters: "refs_held held (sp_put i sp h)"
    if "i < h_nb_pts h" "sp_base sp = sp_base (sp_get i h)" "sp_name sp = sp_name (sp_get i h)" "sp_ref sp = sp_ref (sp_get i h)"
    for i sp
    using syncpts_ok_counters [OF ok that(1-3)] that held ok_length [OF ok]
    by (simp add: refs_held_def get_put_if)
  show ?thesis
  proof (cases c)
    case (Alloc flags name)
    obtain res h1 where a: "host1x_syncpt_alloc k flags name h = (res, h1)" by fastforce
    show ?thesis
    proof (cases res)
      case None
      then show ?thesis using that [of None h1] alloc_cases [OF ok, where kasprintf = k and flags = flags and name = name] a Alloc r by simp
    next
      case (Some i)
      then obtain full b where al: "allocatable flags h i" "h1 = allocated flags i full b h"
          "case b of None \<Rightarrow> True | Some b \<Rightarrow> b < h_nb_bases h \<and> \<not> h_bases h ! b"
        using alloc_cases [OF ok, where kasprintf = k and flags = flags and name = name] a by (fastforce split: option.splits)
      then have i: "i < h_nb_pts h" "sp_ref (sp_get i h) = 0" "i < length (h_syncpt h)"
        using ok by (auto simp: allocatable_def syncpts_ok_def)
      have "refs_held (held(i := held i + 1)) h1"
        using syncpts_ok_allocated [OF ok i(1,2) al(3)] held i allocated_refs [OF i(3)]
        by (simp add: al(2) refs_held_def)
      then show ?thesis using that [of "Some i" h1] a Alloc Some by simp
    qed
  next
    case (Get_by_id i)
    show ?thesis
    proof (cases "h_nb_pts h \<le> i \<or> sp_ref (sp_get i h) = 0")
      case True
      then show ?thesis using that [of None h] Get_by_id r by (auto simp: host1x_syncpt_get_by_id_def)
    next
      case False
      let ?h = "sp_put i ((sp_get i h)\<lparr>sp_ref := Suc (sp_ref (sp_get i h))\<rparr>) h"
      have "refs_held (held(i := held i + 1)) ?h"
        using syncpts_ok_counters [OF ok, of i "(sp_get i h)\<lparr>sp_ref := Suc (sp_ref (sp_get i h))\<rparr>"] False held ok_length [OF ok]
        by (simp add: refs_held_def get_put_if)
      then show ?thesis using that [of "Some i" ?h] Get_by_id False
        by (simp add: host1x_syncpt_get_by_id_def host1x_syncpt_get_def)
    qed
  next
    case (Put i)
    then have i: "i < h_nb_pts h" "0 < held i" using p by auto
    obtain h' where "host1x_syncpt_put (Some i) h = Some h'" "refs_held (held(i := held i - 1)) h'"
      using put_keeps [OF r i] by blast
    then show ?thesis using that [of None h'] Put by simp
  next
    case (Incr_max i n)
    then show ?thesis using that [of None] counters [of i] p
      by (simp add: host1x_syncpt_incr_max_def Let_def)
  next
    case (Load i)
    then show ?thesis using that [of None] counters [of i] p by (simp add: load_eq)
  next
    case (Hw_value i v)
    have "refs_held held (hw_value i v h)"
      using r by (simp add: refs_held_def syncpts_ok_def hw_value_def sp_get_def)
    then show ?thesis using that [of None] Hw_value by simp
  qed
qed

lemma calls_keep:
  "refs_held held h \<Longrightarrow> \<exists>held' h'. syncpt_calls k cs held h = Some (held', h') \<and> refs_held held' h'"
proof (induction cs arbitrary: held h)
  case (Cons c cs)
  show ?case
  proof (cases "permitted held c h")
    case True
    then obtain r h' where "exec_call k c h = Some (r, h')" "refs_held (now_held c r held) h'"
      by (rule call_keeps [OF Cons.prems])
    then show ?thesis using Cons.IH [of "now_held c r held" h'] True by simp
  next
    case False
    then show ?thesis using Cons by simp
  qed
qed simp

text \<open>A table of four syncpoints, the last two for this system, with two wait bases.\<close>

definition host_ex :: host1x where
  "host_ex = \<lparr>h_hw = 6, h_nb_pts = 4, h_nb_bases = 2, h_reserve_vblank = False, h_hv_regs = True,
     h_common_regs = False, h_wide_gather = True, h_syncpt_base = 2,
     h_syncpt_end = 4, h_pools = [], h_syncpt = replicate 4 (zero_syncpt\<lparr>sp_client_managed := True\<rparr>),
     h_bases = [False, False], h_fences = [], h_regs = (\<lambda>r. 0), h_log = []\<rparr>"

lemma init_host_ex: "host1x_syncpt_init True True None (host_ex\<lparr>h_syncpt := [], h_bases := []\<rparr>) = Some (Inr (), host_ex)"
  by (simp add: host1x_syncpt_init_def host_ex_def Let_def numeral_eq_Suc)

lemma host_ex_refs: "refs_held (\<lambda>i. 0) host_ex"
proof -
  have g: "sp_get i host_ex = zero_syncpt\<lparr>sp_client_managed := True\<rparr>" if "i < 4" for i
    unfolding sp_get_def host_ex_def using that by simp
  have b: "h_bases host_ex ! b \<longleftrightarrow> False" if "b < 2" for b
    using that by (auto simp: host_ex_def less_Suc_eq numeral_2_eq_2)
  have z: "sp_ref (zero_syncpt\<lparr>sp_client_managed := True\<rparr>) = 0" "sp_base (zero_syncpt\<lparr>sp_client_managed := True\<rparr>) = None"
      "sp_name (zero_syncpt\<lparr>sp_client_managed := True\<rparr>) = None"
    by (simp_all add: zero_syncpt_def)
  have f: "h_nb_pts host_ex = 4" "h_nb_bases host_ex = 2" "h_syncpt_end host_ex = 4" "length (h_syncpt host_ex) = 4"
      "length (h_bases host_ex) = 2"
    by (simp_all add: host_ex_def)
  show ?thesis by (simp add: refs_held_def syncpts_ok_def bases_ok_def f g b z)
qed

text \<open>An allocated syncpoint is one nobody holds: the first in the range of this system and in the wanted
  pool without references, with one reference, its own name and, on demand, a wait base nobody has; its
  counters and all other syncpoints are as before.  When the allocation fails nothing has changed.\<close>

theorem syncpt_alloc_unused:
  assumes "refs_held held h"
  shows "case host1x_syncpt_alloc kasprintf flags name h of
      (Some i, h') \<Rightarrow> held i = 0 \<and> allocatable flags h i \<and> (\<forall>j. allocatable flags h j \<longrightarrow> i \<le> j) \<and>
        (\<exists>full b. h' = allocated flags i full b h \<and> name \<noteq> None \<and> kasprintf i (the name) = Some full \<and>
           (flags AND HOST1X_SYNCPT_HAS_BASE \<noteq> 0 \<longleftrightarrow> b \<noteq> None) \<and> (\<forall>k. b = Some k \<longrightarrow> k < h_nb_bases h \<and> \<not> h_bases h ! k))
    | (None, h') \<Rightarrow> h' = h"
proof -
  from assms have ok: "syncpts_ok h" and held: "\<And>j. j < h_nb_pts h \<Longrightarrow> sp_ref (sp_get j h) = held j"
    by (auto simp: refs_held_def)
  obtain r h' where a: "host1x_syncpt_alloc kasprintf flags name h = (r, h')" by fastforce
  note c = alloc_cases [OF ok, where kasprintf = kasprintf and flags = flags and name = name, unfolded a]
  show ?thesis
  proof (cases r)
    case None
    then show ?thesis using c a by simp
  next
    case (Some i)
    with c have i: "allocatable flags h i" by simp
    then have "held i = 0" using held [of i] ok by (auto simp: allocatable_def syncpts_ok_def)
    then show ?thesis using c a Some by (fastforce split: option.splits)
  qed
qed

theorem syncpt_alloc_unused_witness:
  "fst (host1x_syncpt_alloc (\<lambda>i n. Some n) 2 (Some ''vic'') host_ex) = Some 2 \<and>
   (case host1x_syncpt_alloc (\<lambda>i n. Some n) 2 (Some ''vic'') host_ex of (r, h') \<Rightarrow>
      \<exists>full b. h' = allocated 2 2 full b host_ex \<and> b \<noteq> None)"
proof -
  have r: "fst (host1x_syncpt_alloc (\<lambda>i n. Some n) 2 (Some ''vic'') host_ex) = Some 2" by code_simp
  then obtain h' where a: "host1x_syncpt_alloc (\<lambda>i n. Some n) 2 (Some ''vic'') host_ex = (Some 2, h')"
    by (cases "host1x_syncpt_alloc (\<lambda>i n. Some n) 2 (Some ''vic'') host_ex") auto
  have f: "(2 :: u32) AND HOST1X_SYNCPT_HAS_BASE \<noteq> 0" by (simp add: HOST1X_SYNCPT_HAS_BASE_def)
  show ?thesis
    using syncpt_alloc_unused [OF host_ex_refs, where kasprintf = "\<lambda>i n. Some n" and flags = 2 and name = "Some ''vic''"]
      a f r by (auto split: option.splits)
qed

text \<open>C39: over any sequence of allocations, lookups, returned references, counter updates and hardware changes,
  the reference counts are the references the clients hold, no count falls below zero, and every wait base
  in use belongs to exactly one syncpoint in use.\<close>

theorem syncpt_references_balanced:
  assumes "refs_held held h"
  shows "\<exists>held' h'. syncpt_calls k cs held h = Some (held', h') \<and> refs_held held' h'"
  using assms by (rule calls_keep)

theorem syncpt_references_balanced_witness:
  "\<exists>held' h'. syncpt_calls (\<lambda>i n. Some n) [Alloc 2 (Some ''vic''), Get_by_id 2, Hw_value 2 7, Put 2, Put 2, Put 2, Alloc 0 None]
     (\<lambda>i. 0) host_ex = Some (held', h') \<and> refs_held held' h'"
  by (rule syncpt_references_balanced [OF host_ex_refs])

text \<open>Dropping the last reference is not atomic: the count is zero before the release function runs.  A
  client that allocates the syncpoint in between keeps its reference, but the release then takes away
  its name, its wait base and its mark as client managed, and returns the wait base for others to use.\<close>

theorem syncpt_put_race:
  assumes "i < length (h_syncpt h)" and "syncpt_put_ref i h = Some (True, h1)"
    and "host1x_syncpt_alloc kasprintf flags name h1 = (Some i, h2)" and "h' = syncpt_release i h2"
  shows "sp_ref (sp_get i h') = 1 \<and> sp_name (sp_get i h2) \<noteq> None \<and> sp_name (sp_get i h') = None \<and>
    sp_base (sp_get i h') = None \<and> \<not> sp_client_managed (sp_get i h') \<and>
    (\<forall>b. sp_base (sp_get i h2) = Some b \<and> b < length (h_bases h2) \<longrightarrow> \<not> h_bases h' ! b)"
proof -
  have len: "i < length (h_syncpt h1)" using assms(1,2) by (auto simp: syncpt_put_ref_def Let_def split: if_splits)
  have 2: "sp_ref (sp_get i h2) = 1 \<and> sp_name (sp_get i h2) \<noteq> None \<and> length (h_syncpt h2) = length (h_syncpt h1)"
    using assms(3) len
    by (auto simp: host1x_syncpt_alloc_def host1x_syncpt_base_request_def Let_def split: option.splits if_splits prod.splits)
  then have "i < length (h_syncpt h2)" using len by simp
  note r = release_eq [OF this] released_entry [OF this] released_refs(1) [OF this, of i]
  have "\<not> sp_client_managed (sp_get i (released i h2))"
    using \<open>i < length (h_syncpt h2)\<close> by (cases "sp_base (sp_get i h2)") (simp_all add: released_def host1x_syncpt_base_free_def)
  moreover have "\<not> h_bases (released i h2) ! b" if "sp_base (sp_get i h2) = Some b" "b < length (h_bases h2)" for b
    using that by (simp add: released_def host1x_syncpt_base_free_def)
  ultimately show ?thesis using assms(4) r 2 by simp
qed

theorem syncpt_put_race_witness:
  "\<exists>h h1 h2. host1x_syncpt_alloc (\<lambda>i n. Some n) 0 (Some ''nvdec'') host_ex = (Some 2, h) \<and>
     syncpt_put_ref 2 h = Some (True, h1) \<and> host1x_syncpt_alloc (\<lambda>i n. Some n) 3 (Some ''vic'') h1 = (Some 2, h2) \<and>
     sp_ref (sp_get 2 (syncpt_release 2 h2)) = 1 \<and> sp_name (sp_get 2 (syncpt_release 2 h2)) = None"
proof -
  define h where "h = snd (host1x_syncpt_alloc (\<lambda>i n. Some n) 0 (Some ''nvdec'') host_ex)"
  define h1 where "h1 = snd (the (syncpt_put_ref 2 h))"
  define h2 where "h2 = snd (host1x_syncpt_alloc (\<lambda>i n. Some n) 3 (Some ''vic'') h1)"
  have a: "host1x_syncpt_alloc (\<lambda>i n. Some n) 0 (Some ''nvdec'') host_ex = (Some 2, h)"
    unfolding h_def by (rule prod_eqI) (code_simp, simp)
  have len: "2 < length (h_syncpt h)" unfolding h_def by code_simp
  have p: "syncpt_put_ref 2 h = Some (True, h1)"
  proof -
    have "map_option fst (syncpt_put_ref 2 h) = Some True" unfolding h_def by code_simp
    then show ?thesis unfolding h1_def by (cases "syncpt_put_ref 2 h") auto
  qed
  have b: "host1x_syncpt_alloc (\<lambda>i n. Some n) 3 (Some ''vic'') h1 = (Some 2, h2)"
    unfolding h2_def h1_def h_def by (rule prod_eqI) (code_simp, simp)
  show ?thesis using syncpt_put_race [OF len p b refl] a p b by blast
qed

end
