(* ===== verification/Host1x_Fence.thy ===== *)
theory Host1x_Fence imports Host1x_Syncpt "HOL-Library.Monad_Syntax" begin

text \<open>
  Fences on syncpoints and the threshold interrupt (\<open>drivers/gpu/host1x/fence.c\<close>, \<open>intr.c\<close>,
  \<open>hw/intr_hw.c\<close> and \<open>host1x_syncpt_wait_ts\<close> of \<open>syncpt.c\<close>).  A fence waits for a syncpoint to reach a
  threshold; each syncpoint keeps a list of its fences in the order of their thresholds, and the
  hardware raises an interrupt at the first of them.  The \<open>dma_fence\<close> operations are those the kernel
  documents: a fence is signalled at most once and freed with its last reference.
\<close>

section \<open>One fence\<close>

definition fence_get :: "host1x_syncpt_fence \<Rightarrow> host1x_syncpt_fence" where
  "fence_get f = f\<lparr>f_refs := f_refs f + 1\<rparr>"

text \<open>\<open>None\<close>: the fence is already freed.\<close>

definition fence_put :: "host1x_syncpt_fence \<Rightarrow> host1x_syncpt_fence option" where
  "fence_put f = (if f_refs f = 0 then None else Some (f\<lparr>f_refs := f_refs f - 1\<rparr>))"

definition host1x_fence_create :: "nat \<Rightarrow> u32 \<Rightarrow> bool \<Rightarrow> bool \<Rightarrow> host1x \<Rightarrow> (errno + nat) \<times> host1x" where
  "host1x_fence_create sp threshold timeout kz h =
     (if \<not> kz then (Inl ENOMEM, h)
      else (Inr (length (h_fences h)),
        h\<lparr>h_fences := h_fences h @ [\<lparr>f_sp = sp, f_threshold = threshold, f_timeout = timeout, f_signaling = False,
          f_refs = 1, f_signaled = False, f_error = None, f_queued = False, f_node = False\<rparr>]\<rparr>))"

definition host1x_fence_extract :: "nat \<Rightarrow> host1x \<Rightarrow> nat \<times> u32" where
  "host1x_fence_extract n h = (f_sp (h_fences h ! n), f_threshold (h_fences h ! n))"

definition host1x_syncpt_fence_signaled :: "nat \<Rightarrow> host1x \<Rightarrow> bool" where
  "host1x_syncpt_fence_signaled n h \<longleftrightarrow>
     host1x_syncpt_is_expired (f_sp (h_fences h ! n)) (f_threshold (h_fences h ! n)) h \<or> f_error (h_fences h ! n) \<noteq> None"

text \<open>The interrupt path, once the fence is off its list.\<close>

definition host1x_fence_signal :: "host1x_syncpt_fence \<Rightarrow> host1x_syncpt_fence option" where
  "host1x_fence_signal f =
     (if f_signaling f then fence_put f
      else do {
        let f = f\<lparr>f_signaling := True\<rparr>;
        f \<leftarrow> (if f_timeout f \<and> f_queued f then fence_put (f\<lparr>f_queued := False\<rparr>) else Some f);
        fence_put (f\<lparr>f_signaled := True\<rparr>) })"

text \<open>The timeout path; \<open>removed\<close> is the result of \<open>host1x_intr_remove_fence\<close>.\<close>

definition fence_timeout :: "bool \<Rightarrow> host1x_syncpt_fence \<Rightarrow> host1x_syncpt_fence option" where
  "fence_timeout removed f =
     (if f_signaling f then (if f_timeout f then fence_put f else Some f)
      else do {
        let f = f\<lparr>f_signaling := True\<rparr>;
        f \<leftarrow> (if removed then fence_put f else Some f);
        let f = f\<lparr>f_error := Some ETIMEDOUT, f_signaled := True\<rparr>;
        if f_timeout f then fence_put f else Some f })"

section \<open>The list of fences and the interrupt\<close>

definition fence_at :: "nat \<Rightarrow> host1x \<Rightarrow> host1x_syncpt_fence" where
  "fence_at n h = h_fences h ! n"

definition set_fence :: "nat \<Rightarrow> host1x_syncpt_fence \<Rightarrow> host1x \<Rightarrow> host1x" where
  "set_fence n f h = h\<lparr>h_fences := (h_fences h)[n := f]\<rparr>"

definition fence_list :: "nat \<Rightarrow> host1x \<Rightarrow> nat list" where
  "fence_list i h = sp_fences (sp_get i h)"

definition set_fence_list :: "nat \<Rightarrow> nat list \<Rightarrow> host1x \<Rightarrow> host1x" where
  "set_fence_list i ns h = sp_put i ((sp_get i h)\<lparr>sp_fences := ns\<rparr>) h"

text \<open>The walk from the back of the list to the first fence \<open>before\<close> the new one.\<close>

fun add_before :: "(nat \<Rightarrow> bool) \<Rightarrow> nat \<Rightarrow> nat list \<Rightarrow> nat list" where
  "add_before before n [] = [n]"
| "add_before before n (m # ms) = (if before m then n # m # ms else m # add_before before n ms)"

definition host1x_intr_add_fence_to_list :: "nat \<Rightarrow> nat \<Rightarrow> host1x \<Rightarrow> host1x" where
  "host1x_intr_add_fence_to_list i n h =
     set_fence_list i
       (rev (add_before (\<lambda>m. f_threshold (fence_at m h) - f_threshold (fence_at n h) \<le>s 0) n (rev (fence_list i h)))) h"

definition host1x_intr_set_syncpt_threshold :: "nat \<Rightarrow> u32 \<Rightarrow> host1x \<Rightarrow> host1x" where
  "host1x_intr_set_syncpt_threshold i thresh h = host1x_sync_writel thresh (SYNCPT_INT_THRESH i) h"

definition host1x_intr_enable_syncpt_intr :: "nat \<Rightarrow> host1x \<Rightarrow> host1x" where
  "host1x_intr_enable_syncpt_intr i h =
     host1x_sync_writel (push_bit (i mod 32) 1) (SYNCPT_THRESH_INT_ENABLE_CPU0 (i div 32)) h"

definition host1x_intr_disable_syncpt_intr :: "nat \<Rightarrow> host1x \<Rightarrow> host1x" where
  "host1x_intr_disable_syncpt_intr i h =
     host1x_sync_writel (push_bit (i mod 32) 1) (SYNCPT_THRESH_CPU0_INT_STATUS (i div 32))
       (host1x_sync_writel (push_bit (i mod 32) 1) (SYNCPT_THRESH_INT_DISABLE (i div 32)) h)"

definition host1x_intr_update_hw_state :: "nat \<Rightarrow> host1x \<Rightarrow> host1x" where
  "host1x_intr_update_hw_state i h =
     (case fence_list i h of
        n # _ \<Rightarrow> host1x_intr_enable_syncpt_intr i (host1x_intr_set_syncpt_threshold i (f_threshold (fence_at n h)) h)
      | [] \<Rightarrow> host1x_intr_disable_syncpt_intr i h)"

definition host1x_intr_add_fence_locked :: "nat \<Rightarrow> host1x \<Rightarrow> host1x" where
  "host1x_intr_add_fence_locked n h =
     (let i = f_sp (fence_at n h);
          h = set_fence n ((fence_at n h)\<lparr>f_node := True\<rparr>) h
      in host1x_intr_update_hw_state i (host1x_intr_add_fence_to_list i n h))"

text \<open>\<open>list_empty\<close> of the node: false for a node that was never initialised, and then \<open>list_del_init\<close>
  follows a null pointer.\<close>

definition host1x_intr_remove_fence :: "nat \<Rightarrow> host1x \<Rightarrow> (bool \<times> host1x) option" where
  "host1x_intr_remove_fence n h =
     (let i = f_sp (fence_at n h)
      in if \<not> f_node (fence_at n h) then None
         else if n \<notin> set (fence_list i h) then Some (False, h)
         else Some (True, host1x_intr_update_hw_state i (set_fence_list i (remove1 n (fence_list i h)) h)))"

fun signal_expired :: "nat \<Rightarrow> u32 \<Rightarrow> nat list \<Rightarrow> host1x \<Rightarrow> host1x option" where
  "signal_expired i v [] h = Some h"
| "signal_expired i v (n # ns) h =
     (if (v - f_threshold (fence_at n h)) AND 0x80000000 \<noteq> 0 then Some h
      else do {
        f \<leftarrow> host1x_fence_signal (fence_at n h);
        signal_expired i v ns (set_fence n f (set_fence_list i ns h)) })"

definition host1x_intr_handle_interrupt :: "nat \<Rightarrow> host1x \<Rightarrow> host1x option" where
  "host1x_intr_handle_interrupt i h =
     (if length (h_syncpt h) \<le> i then None
      else do {
        let (v, h) = host1x_syncpt_load i h;
        h \<leftarrow> signal_expired i v (fence_list i h) h;
        Some (host1x_intr_update_hw_state i h) })"

definition host1x_syncpt_fence_enable_signaling :: "nat \<Rightarrow> host1x \<Rightarrow> bool \<times> host1x" where
  "host1x_syncpt_fence_enable_signaling n h =
     (let f = fence_at n h
      in if host1x_syncpt_is_expired (f_sp f) (f_threshold f) h then (False, h)
         else
           let f = fence_get f;
               f = (if f_timeout f then (fence_get f)\<lparr>f_queued := True\<rparr> else f)
           in (True, host1x_intr_add_fence_locked n (set_fence n f h)))"

text \<open>The delayed work runs: it is no longer queued.\<close>

definition do_fence_timeout :: "nat \<Rightarrow> host1x \<Rightarrow> host1x option" where
  "do_fence_timeout n h =
     (let h = set_fence n ((fence_at n h)\<lparr>f_queued := False\<rparr>) h
      in if f_signaling (fence_at n h)
         then do { f \<leftarrow> fence_timeout False (fence_at n h); Some (set_fence n f h) }
         else do {
           (removed, h) \<leftarrow> host1x_intr_remove_fence n h;
           f \<leftarrow> fence_timeout removed (fence_at n h);
           Some (set_fence n f h) })"

definition host1x_fence_cancel :: "nat \<Rightarrow> host1x \<Rightarrow> host1x option" where
  "host1x_fence_cancel n h = do_fence_timeout n (set_fence n ((fence_at n h)\<lparr>f_queued := True\<rparr>) h)"

section \<open>Interrupt service routine and set-up\<close>

fun isr_bits :: "nat \<Rightarrow> u32 \<Rightarrow> nat list \<Rightarrow> host1x \<Rightarrow> host1x option" where
  "isr_bits i reg [] h = Some h"
| "isr_bits i reg (b # bs) h =
     (if bit reg b then do { h \<leftarrow> host1x_intr_handle_interrupt (i * 32 + b) h; isr_bits i reg bs h }
      else isr_bits i reg bs h)"

fun isr_regs :: "nat list \<Rightarrow> host1x \<Rightarrow> host1x option" where
  "isr_regs [] h = Some h"
| "isr_regs (i # is) h = do {
     let reg = host1x_sync_readl (SYNCPT_THRESH_CPU0_INT_STATUS i) h;
     let h = host1x_sync_writel reg (SYNCPT_THRESH_INT_DISABLE i) h;
     let h = host1x_sync_writel reg (SYNCPT_THRESH_CPU0_INT_STATUS i) h;
     h \<leftarrow> isr_bits i reg [0..<32] h;
     isr_regs is h }"

text \<open>The registers of one interrupt line: from \<open>offset\<close> in steps of the number of lines.\<close>

definition syncpt_thresh_isr :: "nat \<Rightarrow> nat \<Rightarrow> host1x \<Rightarrow> host1x option" where
  "syncpt_thresh_isr num_irqs offset h =
     isr_regs (filter (\<lambda>i. offset \<le> i \<and> (i - offset) mod num_irqs = 0) [0..<(h_nb_pts h + 31) div 32]) h"

definition host1x_intr_disable_all_syncpt_intrs :: "host1x \<Rightarrow> host1x" where
  "host1x_intr_disable_all_syncpt_intrs h =
     fold (\<lambda>i h. host1x_sync_writel 0xffffffff (SYNCPT_THRESH_CPU0_INT_STATUS i)
         (host1x_sync_writel 0xffffffff (SYNCPT_THRESH_INT_DISABLE i) h)) [0..<(h_nb_pts h + 31) div 32] h"

definition intr_hw_init :: "nat \<Rightarrow> u32 \<Rightarrow> host1x \<Rightarrow> host1x" where
  "intr_hw_init num_irqs cpm h =
     (let h = (if h_hw h < 6
               then host1x_sync_writel cpm USEC_CLK (host1x_sync_writel 0xff CTXSW_TIMEOUT_CFG
                      (host1x_sync_writel 0 IP_BUSY_TIMEOUT h))
               else h)
      in if 8 \<le> h_hw h
         then fold (\<lambda>i h. host1x_sync_writel (of_nat (i div 32 mod num_irqs)) (SYNCPT_INTR_DEST i) h) [0..<h_nb_pts h] h
         else h)"

text \<open>\<open>request\<close>: the results of \<open>devm_request_irq\<close>, one per line.\<close>

definition host1x_intr_init_host_sync ::
  "bool \<Rightarrow> (errno + unit) list \<Rightarrow> u32 \<Rightarrow> host1x \<Rightarrow> (errno + unit) \<times> host1x" where
  "host1x_intr_init_host_sync kc request cpm h =
     (if \<not> kc then (Inl ENOMEM, h)
      else let h = host1x_intr_disable_all_syncpt_intrs h
           in case List.find isl request of
                Some r \<Rightarrow> (r, h)
              | None \<Rightarrow> (Inr (), intr_hw_init (length request) cpm h))"

text \<open>\<open>hz\<close>: the rate of the clock.\<close>

definition host1x_intr_start :: "bool \<Rightarrow> (errno + unit) list \<Rightarrow> u32 \<Rightarrow> host1x \<Rightarrow> host1x" where
  "host1x_intr_start kc request hz h = snd (host1x_intr_init_host_sync kc request ((hz + 999999) div 1000000) h)"

definition host1x_intr_stop :: "host1x \<Rightarrow> host1x" where
  "host1x_intr_stop h = host1x_intr_disable_all_syncpt_intrs h"

definition host1x_intr_init :: "host1x \<Rightarrow> host1x" where
  "host1x_intr_init h = fold (\<lambda>i h. set_fence_list i [] h) [0..<h_nb_pts h] h"

section \<open>Waiting for a syncpoint\<close>

text \<open>
  \<open>host1x_syncpt_wait_ts\<close>.  \<open>polls\<close> are the values the register has in the turns of the busy loop, one
  for each turn the time allows (at least one); \<open>wait\<close> is \<open>dma_fence_wait_timeout\<close>: the state and the
  result (positive, zero, or an error) after the wait on the fence.
\<close>

fun spin :: "nat \<Rightarrow> u32 \<Rightarrow> u32 list \<Rightarrow> host1x \<Rightarrow> bool \<times> host1x" where
  "spin i thresh [] h = (False, h)"
| "spin i thresh (v # vs) h =
     (let h = snd (host1x_syncpt_load i (hw_value i v h))
      in if host1x_syncpt_is_expired i thresh h then (True, h) else spin i thresh vs h)"

definition host1x_syncpt_wait_ts ::
  "(nat \<Rightarrow> host1x \<Rightarrow> (errno + nat) \<times> host1x) \<Rightarrow> nat \<Rightarrow> u32 \<Rightarrow> int \<Rightarrow> u32 list \<Rightarrow> bool \<Rightarrow> host1x \<Rightarrow>
    ((errno + unit) \<times> host1x) option" where
  "host1x_syncpt_wait_ts wait i thresh timeout polls kz h =
     (let (reached, h) = spin i thresh polls h
      in if reached then Some (Inr (), h)
         else if timeout = 0 then Some (Inl EAGAIN, h)
         else case host1x_fence_create i thresh False kz h of
           (Inl e, h) \<Rightarrow> Some (Inl e, h)
         | (Inr n, h) \<Rightarrow> do {
             let (r, h) = wait n h;
             h \<leftarrow> (if r = Inr 0 then host1x_fence_cancel n h else Some h);
             f \<leftarrow> fence_put (fence_at n h);
             let h = snd (host1x_syncpt_load i (set_fence n f h));
             Some (case r of
                 Inr k \<Rightarrow> if k = 0 \<and> \<not> host1x_syncpt_is_expired i thresh h then Inl EAGAIN else Inr ()
               | Inl e \<Rightarrow> Inl e, h) })"

definition host1x_syncpt_wait ::
  "(nat \<Rightarrow> host1x \<Rightarrow> (errno + nat) \<times> host1x) \<Rightarrow> nat \<Rightarrow> u32 \<Rightarrow> int \<Rightarrow> u32 list \<Rightarrow> bool \<Rightarrow> host1x \<Rightarrow>
    ((errno + unit) \<times> host1x) option" where
  "host1x_syncpt_wait wait i thresh timeout polls kz h = host1x_syncpt_wait_ts wait i thresh timeout polls kz h"

end
