(* ===== verification/Host1x_Fence_Race.thy ===== *)
theory Host1x_Fence_Race imports Host1x_Fence begin

text \<open>
  The two paths that can end a fence, \<open>host1x_fence_signal\<close> from the interrupt and \<open>do_fence_timeout\<close> from
  the delayed work (\<open>drivers/gpu/host1x/fence.c\<close>), run on different processors.  Here they are cut into
  their atomic steps: the exchange of the flag, the removal from the list under the list lock, the
  cancellation of the work, the signal and the return of a reference.  The interrupt path holds the
  list lock from the removal to its end.
\<close>

section \<open>Steps\<close>

datatype irq_pc = Irq_idle | Irq_removed | Irq_won | Irq_cancelled | Irq_signaled
datatype tmo_pc = Tmo_idle | Tmo_running | Tmo_won | Tmo_removed | Tmo_signaled

record fence_race =
  fr :: host1x_syncpt_fence
  on_list :: bool
  irq :: irq_pc
  tmo :: tmo_pc
  fault :: bool

text \<open>A reference is returned; \<open>fault\<close> when there was none.\<close>

definition drop_ref :: "fence_race \<Rightarrow> fence_race" where
  "drop_ref s = (case fence_put (fr s) of None \<Rightarrow> s\<lparr>fault := True\<rparr> | Some f \<Rightarrow> s\<lparr>fr := f\<rparr>)"

text \<open>\<open>canceller\<close>: somebody may call \<open>host1x_fence_cancel\<close>.\<close>

inductive race_step :: "bool \<Rightarrow> fence_race \<Rightarrow> fence_race \<Rightarrow> bool" for canceller where
  irq_remove: "irq s = Irq_idle \<Longrightarrow> on_list s \<Longrightarrow> race_step canceller s (s\<lparr>on_list := False, irq := Irq_removed\<rparr>)"
| irq_lost: "irq s = Irq_removed \<Longrightarrow> f_signaling (fr s) \<Longrightarrow> race_step canceller s (drop_ref (s\<lparr>irq := Irq_idle\<rparr>))"
| irq_won: "irq s = Irq_removed \<Longrightarrow> \<not> f_signaling (fr s) \<Longrightarrow>
    race_step canceller s (s\<lparr>fr := (fr s)\<lparr>f_signaling := True\<rparr>, irq := Irq_won\<rparr>)"
| irq_cancel: "irq s = Irq_won \<Longrightarrow> f_timeout (fr s) \<Longrightarrow> f_queued (fr s) \<Longrightarrow>
    race_step canceller s (drop_ref (s\<lparr>fr := (fr s)\<lparr>f_queued := False\<rparr>, irq := Irq_cancelled\<rparr>))"
| irq_no_cancel: "irq s = Irq_won \<Longrightarrow> \<not> (f_timeout (fr s) \<and> f_queued (fr s)) \<Longrightarrow>
    race_step canceller s (s\<lparr>irq := Irq_cancelled\<rparr>)"
| irq_signal: "irq s = Irq_cancelled \<Longrightarrow>
    race_step canceller s (s\<lparr>fr := (fr s)\<lparr>f_signaled := True\<rparr>, irq := Irq_signaled\<rparr>)"
| irq_put: "irq s = Irq_signaled \<Longrightarrow> race_step canceller s (drop_ref (s\<lparr>irq := Irq_idle\<rparr>))"
| tmo_start: "tmo s = Tmo_idle \<Longrightarrow> f_queued (fr s) \<Longrightarrow>
    race_step canceller s (s\<lparr>fr := (fr s)\<lparr>f_queued := False\<rparr>, tmo := Tmo_running\<rparr>)"
| tmo_lost: "tmo s = Tmo_running \<Longrightarrow> f_signaling (fr s) \<Longrightarrow>
    race_step canceller s (let s = s\<lparr>tmo := Tmo_idle\<rparr> in if f_timeout (fr s) then drop_ref s else s)"
| tmo_won: "tmo s = Tmo_running \<Longrightarrow> \<not> f_signaling (fr s) \<Longrightarrow>
    race_step canceller s (s\<lparr>fr := (fr s)\<lparr>f_signaling := True\<rparr>, tmo := Tmo_won\<rparr>)"
| tmo_remove: "tmo s = Tmo_won \<Longrightarrow> irq s = Irq_idle \<Longrightarrow>
    race_step canceller s
      (let s = s\<lparr>tmo := Tmo_removed\<rparr> in if on_list s then drop_ref (s\<lparr>on_list := False\<rparr>) else s)"
| tmo_signal: "tmo s = Tmo_removed \<Longrightarrow>
    race_step canceller s (s\<lparr>fr := (fr s)\<lparr>f_error := Some ETIMEDOUT, f_signaled := True\<rparr>, tmo := Tmo_signaled\<rparr>)"
| tmo_put: "tmo s = Tmo_signaled \<Longrightarrow>
    race_step canceller s (let s = s\<lparr>tmo := Tmo_idle\<rparr> in if f_timeout (fr s) then drop_ref s else s)"
| cancel: "canceller \<Longrightarrow> race_step canceller s (s\<lparr>fr := (fr s)\<lparr>f_queued := True\<rparr>\<rparr>)"

inductive race_reach :: "bool \<Rightarrow> fence_race \<Rightarrow> fence_race \<Rightarrow> bool" for canceller where
  start: "race_reach canceller s s"
| step: "race_reach canceller s t \<Longrightarrow> race_step canceller t u \<Longrightarrow> race_reach canceller s u"

text \<open>A fence whose signalling has just been enabled: the references of its owner, of the interrupt path and,
  with a timeout, of the timeout path.\<close>

definition fence_enabled :: "fence_race \<Rightarrow> bool" where
  "fence_enabled s \<longleftrightarrow> irq s = Irq_idle \<and> tmo s = Tmo_idle \<and> on_list s \<and> \<not> fault s \<and>
     \<not> f_signaling (fr s) \<and> \<not> f_signaled (fr s) \<and> f_queued (fr s) = f_timeout (fr s) \<and>
     f_refs (fr s) = (if f_timeout (fr s) then 3 else 2)"

section \<open>The sequential paths are runs of these steps\<close>

lemma fence_put_pos: "0 < f_refs f \<Longrightarrow> fence_put f = Some (f\<lparr>f_refs := f_refs f - 1\<rparr>)"
  by (simp add: fence_put_def)

lemma drop_put: "fence_put (fr s) = Some f \<Longrightarrow> drop_ref s = s\<lparr>fr := f\<rparr>"
  by (simp add: drop_ref_def)

lemma same_fields:
  "irq s = Irq_idle \<Longrightarrow> s\<lparr>on_list := b, irq := Irq_idle, fr := f\<rparr> = s\<lparr>fr := f, on_list := b\<rparr>"
  "tmo s = Tmo_idle \<Longrightarrow> s\<lparr>tmo := Tmo_idle, fr := f\<rparr> = s\<lparr>fr := f\<rparr>"
  "tmo s = Tmo_idle \<Longrightarrow> s\<lparr>fr := f, tmo := Tmo_idle\<rparr> = s\<lparr>fr := f\<rparr>"
  "s\<lparr>fr := f, on_list := on_list s\<rparr> = s\<lparr>fr := f\<rparr>"
  "s\<lparr>tmo := t, on_list := b, fr := f\<rparr> = s\<lparr>fr := f, on_list := b, tmo := t\<rparr>"
  "\<not> on_list s \<Longrightarrow> s\<lparr>tmo := t, fr := f\<rparr> = s\<lparr>fr := f, on_list := False, tmo := t\<rparr>"
  by (cases s; simp)+

lemma reach_eq: "race_reach c s t \<Longrightarrow> t = u \<Longrightarrow> race_reach c s u"
  by simp

lemma reach_trans: "race_reach c t u \<Longrightarrow> race_reach c s t \<Longrightarrow> race_reach c s u"
  by (induction rule: race_reach.induct) (auto intro: step)

lemma irq_path_steps:
  assumes "host1x_fence_signal (fr s) = Some f" and "irq s = Irq_idle" and "on_list s"
  shows "race_reach c s (s\<lparr>fr := f, on_list := False\<rparr>)"
proof -
  let ?s1 = "s\<lparr>on_list := False, irq := Irq_removed\<rparr>"
  have r1: "race_reach c s ?s1" using irq_remove [OF assms(2,3)] start step by blast
  show ?thesis
  proof (cases "f_signaling (fr s)")
    case True
    then have p: "fence_put (fr s) = Some f" using assms(1) by (simp add: host1x_fence_signal_def)
    have "race_reach c s (drop_ref (?s1\<lparr>irq := Irq_idle\<rparr>))"
      using step [OF r1 irq_lost [of ?s1]] True by simp
    then show ?thesis using p assms(2) by (simp add: drop_put same_fields)
  next
    case False
    let ?s2 = "?s1\<lparr>fr := (fr s)\<lparr>f_signaling := True\<rparr>, irq := Irq_won\<rparr>"
    have r2: "race_reach c s ?s2" using step [OF r1 irq_won [of ?s1]] False by simp
    obtain g where g: "(if f_timeout (fr s) \<and> f_queued (fr s)
          then fence_put ((fr s)\<lparr>f_signaling := True, f_queued := False\<rparr>) else Some ((fr s)\<lparr>f_signaling := True\<rparr>)) = Some g"
        "fence_put (g\<lparr>f_signaled := True\<rparr>) = Some f"
      using assms(1) False by (auto simp: host1x_fence_signal_def Let_def bind_eq_Some_conv split: if_splits)
    have r3: "race_reach c s (?s2\<lparr>fr := g, irq := Irq_cancelled\<rparr>)"
    proof (cases "f_timeout (fr s) \<and> f_queued (fr s)")
      case True
      then have "race_reach c s (drop_ref (?s2\<lparr>fr := (fr s)\<lparr>f_signaling := True, f_queued := False\<rparr>, irq := Irq_cancelled\<rparr>))"
        using step [OF r2 irq_cancel [of ?s2]] by simp
      then show ?thesis
        by (rule reach_eq) (use True g(1) in \<open>simp add: drop_ref_def\<close>)
    next
      case False
      then show ?thesis using step [OF r2 irq_no_cancel [of ?s2]] g(1) by (auto split: if_splits)
    qed
    let ?s4 = "?s2\<lparr>fr := g\<lparr>f_signaled := True\<rparr>, irq := Irq_signaled\<rparr>"
    have r4: "race_reach c s ?s4" using step [OF r3 irq_signal] by simp
    have "race_reach c s (drop_ref (?s4\<lparr>irq := Irq_idle\<rparr>))" using step [OF r4 irq_put] by simp
    then show ?thesis using g(2) assms(2) by (simp add: drop_ref_def same_fields)
  qed
qed

lemma tmo_path_steps:
  assumes "fence_timeout (on_list s) ((fr s)\<lparr>f_queued := False\<rparr>) = Some f" and "f_queued (fr s)"
    and "irq s = Irq_idle" "tmo s = Tmo_idle"
  shows "race_reach c s (s\<lparr>fr := f, on_list := on_list s \<and> f_signaling (fr s)\<rparr>)"
proof -
  let ?f = "(fr s)\<lparr>f_queued := False\<rparr>"
  let ?s1 = "s\<lparr>fr := ?f, tmo := Tmo_running\<rparr>"
  have r1: "race_reach c s ?s1" using tmo_start [OF assms(4,2)] start step by blast
  show ?thesis
  proof (cases "f_signaling (fr s)")
    case True
    then have "race_reach c s (let s = ?s1\<lparr>tmo := Tmo_idle\<rparr> in if f_timeout (fr s) then drop_ref s else s)"
      using step [OF r1 tmo_lost [of ?s1]] by simp
    moreover have "(if f_timeout (fr s) then fence_put ?f else Some ?f) = Some f"
      using assms(1) True by (simp add: fence_timeout_def)
    ultimately show ?thesis using True assms(4) by (auto simp: Let_def drop_ref_def same_fields split: if_splits)
  next
    case False
    let ?s2 = "?s1\<lparr>fr := ?f\<lparr>f_signaling := True\<rparr>, tmo := Tmo_won\<rparr>"
    have r2: "race_reach c s ?s2" using step [OF r1 tmo_won [of ?s1]] False by simp
    obtain g where g: "(if on_list s then fence_put (?f\<lparr>f_signaling := True\<rparr>) else Some (?f\<lparr>f_signaling := True\<rparr>)) = Some g"
        "(if f_timeout g then fence_put (g\<lparr>f_error := Some ETIMEDOUT, f_signaled := True\<rparr>)
          else Some (g\<lparr>f_error := Some ETIMEDOUT, f_signaled := True\<rparr>)) = Some f"
      using assms(1) False by (auto simp: fence_timeout_def bind_eq_Some_conv Let_def split: if_splits)
    let ?s3 = "?s2\<lparr>fr := g, on_list := False, tmo := Tmo_removed\<rparr>"
    have "race_reach c s (let s = ?s2\<lparr>tmo := Tmo_removed\<rparr> in if on_list s then drop_ref (s\<lparr>on_list := False\<rparr>) else s)"
      using step [OF r2 tmo_remove [of ?s2]] assms(3) by simp
    then have r3: "race_reach c s ?s3"
      using g(1) by (cases "on_list s") (simp_all add: Let_def drop_ref_def same_fields)
    let ?s4 = "?s3\<lparr>fr := g\<lparr>f_error := Some ETIMEDOUT, f_signaled := True\<rparr>, tmo := Tmo_signaled\<rparr>"
    have r4: "race_reach c s ?s4" using step [OF r3 tmo_signal [of ?s3]] by simp
    have "race_reach c s (let s = ?s4\<lparr>tmo := Tmo_idle\<rparr> in if f_timeout (fr s) then drop_ref s else s)"
      using step [OF r4 tmo_put [of ?s4]] by simp
    then show ?thesis
      by (rule reach_eq, intro fence_race.equality)
        (use g(2) assms(4) False in \<open>simp_all add: Let_def drop_ref_def split: if_splits\<close>)
  qed
qed

section \<open>Invariant\<close>

definition race_inv :: "bool \<Rightarrow> fence_race \<Rightarrow> bool" where
  "race_inv timeout s \<longleftrightarrow>
     f_timeout (fr s) = timeout \<and> \<not> fault s \<and>
     f_refs (fr s) = 1 + (if on_list s \<or> irq s \<noteq> Irq_idle then 1 else 0) +
       (if timeout \<and> (f_queued (fr s) \<or> tmo s \<noteq> Tmo_idle) then 1 else 0) \<and>
     (timeout \<and> tmo s \<noteq> Tmo_idle \<longrightarrow> \<not> f_queued (fr s)) \<and>
     (on_list s \<longrightarrow> irq s = Irq_idle \<and> (f_signaling (fr s) \<longrightarrow> tmo s = Tmo_won)) \<and>
     (\<not> f_signaling (fr s) \<longrightarrow> (on_list s \<or> irq s = Irq_removed) \<and> irq s \<in> {Irq_idle, Irq_removed} \<and>
        tmo s \<in> {Tmo_idle, Tmo_running} \<and> \<not> f_signaled (fr s)) \<and>
     (irq s \<in> {Irq_won, Irq_cancelled, Irq_signaled} \<longrightarrow> tmo s \<in> {Tmo_idle, Tmo_running}) \<and>
     (f_signaling (fr s) \<longrightarrow>
        (f_signaled (fr s) \<longleftrightarrow> irq s \<notin> {Irq_won, Irq_cancelled} \<and> tmo s \<notin> {Tmo_won, Tmo_removed}))"

lemma enabled_inv: "fence_enabled s \<Longrightarrow> race_inv (f_timeout (fr s)) s"
  by (simp add: fence_enabled_def race_inv_def)

lemma inv_put: "race_inv timeout s \<Longrightarrow> fence_put (fr s) = Some ((fr s)\<lparr>f_refs := f_refs (fr s) - 1\<rparr>)"
  by (simp add: race_inv_def fence_put_def)

lemma drop_pos: "0 < f_refs (fr s) \<Longrightarrow> drop_ref s = s\<lparr>fr := (fr s)\<lparr>f_refs := f_refs (fr s) - 1\<rparr>\<rparr>"
  by (simp add: drop_ref_def fence_put_def)

lemma step_inv:
  assumes "race_step canceller s t" and "race_inv timeout s" and "\<not> (canceller \<and> timeout)"
  shows "race_inv timeout t"
  using assms(1)
proof cases
  case irq_remove
  then show ?thesis using assms(2) unfolding race_inv_def by simp
next
  case irq_lost
  then show ?thesis using assms(2) unfolding race_inv_def by (simp add: drop_pos split: if_splits)
next
  case irq_won
  then show ?thesis using assms(2) unfolding race_inv_def by auto
next
  case irq_cancel
  then show ?thesis using assms(2) unfolding race_inv_def by (auto simp: drop_pos split: if_splits)
next
  case irq_no_cancel
  then show ?thesis using assms(2) unfolding race_inv_def by auto
next
  case irq_signal
  then show ?thesis using assms(2) unfolding race_inv_def by auto
next
  case irq_put
  then show ?thesis using assms(2) unfolding race_inv_def by (auto simp: drop_pos split: if_splits)
next
  case tmo_start
  then show ?thesis using assms(2) unfolding race_inv_def by auto
next
  case tmo_lost
  then show ?thesis using assms(2) unfolding race_inv_def by (auto simp: drop_pos Let_def split: if_splits)
next
  case tmo_won
  then show ?thesis using assms(2) unfolding race_inv_def by auto
next
  case tmo_remove
  then show ?thesis using assms(2) unfolding race_inv_def by (auto simp: drop_pos Let_def split: if_splits)
next
  case tmo_signal
  then show ?thesis using assms(2) unfolding race_inv_def by auto
next
  case tmo_put
  then show ?thesis using assms(2) unfolding race_inv_def by (auto simp: drop_pos Let_def split: if_splits)
next
  case cancel
  then show ?thesis using assms(2,3) unfolding race_inv_def by auto
qed

lemma reach_inv:
  "race_reach canceller s t \<Longrightarrow> race_inv timeout s \<Longrightarrow> \<not> (canceller \<and> timeout) \<Longrightarrow> race_inv timeout t"
  by (induction rule: race_reach.induct) (auto intro: step_inv)

text \<open>C37: whatever the order of the interrupt path, the timeout path and a caller of \<open>host1x_fence_cancel\<close>, as
  long as only fences without a timeout are cancelled: no path touches a freed fence, the owner's
  reference is never taken, the fence is signalled at most once, and when both paths have ended the
  owner holds the last reference to a fence that has been signalled or is still on its list.\<close>

theorem fence_race_safe:
  assumes "fence_enabled s" and "race_reach canceller s t" and "\<not> (canceller \<and> f_timeout (fr s))"
  shows "\<not> fault t \<and> 0 < f_refs (fr t) \<and>
    (irq t = Irq_cancelled \<or> tmo t = Tmo_removed \<longrightarrow> \<not> f_signaled (fr t)) \<and>
    (irq t = Irq_idle \<and> tmo t = Tmo_idle \<and> \<not> f_queued (fr t) \<longrightarrow>
       (if on_list t then f_refs (fr t) = 2 \<and> \<not> f_signaled (fr t) else f_refs (fr t) = 1 \<and> f_signaled (fr t)))"
proof -
  have i: "race_inv (f_timeout (fr s)) t"
    using reach_inv [OF assms(2) enabled_inv [OF assms(1)] assms(3)] .
  have 1: "\<not> fault t \<and> 0 < f_refs (fr t)" using i by (simp add: race_inv_def)
  have 2: "irq t = Irq_cancelled \<or> tmo t = Tmo_removed \<longrightarrow> \<not> f_signaled (fr t)"
    using i unfolding race_inv_def by (cases "f_signaling (fr t)") auto
  have 3: "if on_list t then f_refs (fr t) = 2 \<and> \<not> f_signaled (fr t) else f_refs (fr t) = 1 \<and> f_signaled (fr t)"
    if q: "irq t = Irq_idle" "tmo t = Tmo_idle" "\<not> f_queued (fr t)"
  proof (cases "f_signaling (fr t)")
    case True
    then have "\<not> on_list t" "f_signaled (fr t)" using i q unfolding race_inv_def by auto
    moreover have "f_refs (fr t) = 1" using i q \<open>\<not> on_list t\<close> unfolding race_inv_def by simp
    ultimately show ?thesis by simp
  next
    case False
    then have "on_list t" "\<not> f_signaled (fr t)" using i q unfolding race_inv_def by auto
    moreover have "f_refs (fr t) = 2" using i q \<open>on_list t\<close> unfolding race_inv_def by simp
    ultimately show ?thesis by simp
  qed
  show ?thesis using 1 2 3 by blast
qed

definition fence_ex :: "bool \<Rightarrow> fence_race" where
  "fence_ex timeout =
     \<lparr>fr = \<lparr>f_sp = 2, f_threshold = 5, f_timeout = timeout, f_signaling = False, f_refs = (if timeout then 3 else 2),
        f_signaled = False, f_error = None, f_queued = timeout, f_node = True\<rparr>,
      on_list = True, irq = Irq_idle, tmo = Tmo_idle, fault = False\<rparr>"

lemma fence_ex_enabled: "fence_enabled (fence_ex timeout)"
  by (simp add: fence_enabled_def fence_ex_def)

text \<open>The timeout fires while the interrupt path has the fence in its hands.\<close>

theorem fence_race_safe_witness:
  "\<exists>t. race_reach False (fence_ex True) t \<and> irq t = Irq_idle \<and> tmo t = Tmo_idle \<and> f_refs (fr t) = 1 \<and> f_signaled (fr t)"
proof -
  let ?s = "fence_ex True"
  let ?s1 = "?s\<lparr>fr := (fr ?s)\<lparr>f_queued := False\<rparr>, tmo := Tmo_running\<rparr>"
  have 1: "race_reach False ?s ?s1" by (rule step [OF start tmo_start]) (simp_all add: fence_ex_def)
  obtain f where f: "host1x_fence_signal (fr ?s1) = Some f" "f_signaling f" "f_timeout f" "\<not> f_queued f"
    by (simp add: fence_ex_def host1x_fence_signal_def fence_put_def)
  let ?s2 = "?s1\<lparr>fr := f, on_list := False\<rparr>"
  have "race_reach False ?s1 ?s2"
    using irq_path_steps [OF f(1)] by (simp add: fence_ex_def)
  then have 2: "race_reach False ?s ?s2" by (rule reach_trans [OF _ 1])
  let ?t = "drop_ref (?s2\<lparr>tmo := Tmo_idle\<rparr>)"
  have 3: "race_reach False ?s ?t"
    using step [OF 2 tmo_lost [of ?s2]] f by (simp add: fence_ex_def Let_def)
  have t: "irq ?t = Irq_idle" "tmo ?t = Tmo_idle" "\<not> f_queued (fr ?t)" "\<not> on_list ?t"
    using f by (auto simp: drop_ref_def fence_put_def fence_ex_def)
  then show ?thesis using fence_race_safe [OF fence_ex_enabled 3] 3 by auto
qed

text \<open>Cancelling a fence that has a timeout takes a reference twice: after the interrupt path has ended
  the fence and cancelled its work, the cancellation queues the work again, and its run returns the
  reference of the timeout path a second time, which is that of the owner.\<close>

theorem fence_cancel_with_timeout:
  assumes "fence_enabled s" and "f_timeout (fr s)"
  shows "\<exists>t. race_reach True s t \<and> irq t = Irq_idle \<and> tmo t = Tmo_idle \<and> \<not> f_queued (fr t) \<and> f_refs (fr t) = 0"
proof -
  obtain f where f: "host1x_fence_signal (fr s) = Some f" "f_refs f = 1" "f_signaling f" "f_timeout f" "\<not> f_queued f"
    using assms by (simp add: fence_enabled_def host1x_fence_signal_def fence_put_def)
  have idle: "irq s = Irq_idle" "tmo s = Tmo_idle" "on_list s" using assms(1) by (simp_all add: fence_enabled_def)
  let ?s1 = "s\<lparr>fr := f, on_list := False\<rparr>"
  have 1: "race_reach True s ?s1" using irq_path_steps [OF f(1) idle(1,3)] .
  let ?s2 = "?s1\<lparr>fr := f\<lparr>f_queued := True\<rparr>\<rparr>"
  have 2: "race_reach True s ?s2" using step [OF 1 cancel [of True ?s1]] by simp
  let ?s3 = "?s2\<lparr>fr := f, tmo := Tmo_running\<rparr>"
  have same: "f\<lparr>f_queued := False\<rparr> = f" using f(5) by (cases f) simp
  have 3: "race_reach True s ?s3" using step [OF 2 tmo_start [of ?s2]] idle(2) same by simp
  let ?t = "drop_ref (?s3\<lparr>tmo := Tmo_idle\<rparr>)"
  have "race_reach True s ?t" using step [OF 3 tmo_lost [of ?s3]] f by (simp add: Let_def)
  moreover have "irq ?t = Irq_idle" "tmo ?t = Tmo_idle" "\<not> f_queued (fr ?t)" "f_refs (fr ?t) = 0"
    using f idle by (auto simp: drop_ref_def fence_put_def)
  ultimately show ?thesis by blast
qed

theorem fence_cancel_with_timeout_witness:
  "\<exists>t. race_reach True (fence_ex True) t \<and> irq t = Irq_idle \<and> tmo t = Tmo_idle \<and> \<not> f_queued (fr t) \<and> f_refs (fr t) = 0"
  by (rule fence_cancel_with_timeout [OF fence_ex_enabled]) (simp add: fence_ex_def)

end
