(* ===== verification/Host1x_Intr_Facts.thy ===== *)
theory Host1x_Intr_Facts imports Host1x_Fence begin

text \<open>
  The threshold interrupt: the list of a syncpoint's fences stays in the order of their thresholds although
  counters wrap around, and an interrupt signals exactly the fences whose threshold has been reached.
  \<open>thr\<close> gives the unbounded count behind the 32-bit threshold of a fence.
\<close>

section \<open>Order of thresholds\<close>

lemma signed_le_0: "x \<le>s 0 \<longleftrightarrow> x = 0 \<or> \<not> unat x < 2 ^ 31" for x :: u32
proof -
  have "x \<le>s 0 \<longleftrightarrow> sint x < 0 \<or> sint x = 0" by (auto simp: word_sle_eq)
  also have "sint x = 0 \<longleftrightarrow> x = 0" by (simp add: signed_eq_0_iff)
  also have "sint x < 0 \<longleftrightarrow> \<not> 0 \<le>s x" by (auto simp: word_sle_eq)
  finally show ?thesis unfolding signed_ge_0 by blast
qed

lemma counter_before:
  assumes "a < b + 2 ^ 31" and "b < a + 2 ^ 31"
  shows "(of_nat a - of_nat b :: u32) \<le>s 0 \<longleftrightarrow> a \<le> b"
proof (cases "a = b")
  case True
  then show ?thesis by (simp add: signed_le_0)
next
  case False
  have iff: "unat (of_nat a - of_nat b :: u32) < 2 ^ 31 \<longleftrightarrow> b \<le> a"
    using counter_diff [of a b] assms by simp
  have "(of_nat a - of_nat b :: u32) \<noteq> 0"
  proof
    assume "(of_nat a - of_nat b :: u32) = 0"
    then have e: "of_nat a = (of_nat b :: u32)" by (simp only: right_minus_eq)
    have "unat (of_nat a - of_nat b :: u32) < 2 ^ 31" "unat (of_nat b - of_nat a :: u32) < 2 ^ 31"
      unfolding e diff_self unat_0 by (rule zero_less_power, simp)+
    then show False using counter_diff [of a b] counter_diff [of b a] assms False by simp
  qed
  then show ?thesis using iff False by (auto simp: signed_le_0)
qed

lemma counter_expired:
  assumes "c < t + 2 ^ 31" and "t \<le> c + 2 ^ 31"
  shows "(of_nat c - of_nat t :: u32) AND 0x80000000 = 0 \<longleftrightarrow> t \<le> c"
  unfolding top_bit_clear by (rule counter_diff [OF assms])

section \<open>Insertion\<close>

lemma add_before_set [simp]: "set (add_before P n ms) = insert n (set ms)"
  by (induction ms) auto

lemma add_before_distinct: "distinct ms \<Longrightarrow> n \<notin> set ms \<Longrightarrow> distinct (add_before P n ms)"
  by (induction ms) auto

lemma add_before_cong: "(\<And>m. m \<in> set ms \<Longrightarrow> P m \<longleftrightarrow> Q m) \<Longrightarrow> add_before P n ms = add_before Q n ms"
  by (induction ms) auto

lemma add_before_sorted:
  "sorted_wrt (\<lambda>x y. t y \<le> (t x :: nat)) ms \<Longrightarrow> sorted_wrt (\<lambda>x y. t y \<le> t x) (add_before (\<lambda>m. t m \<le> t n) n ms)"
  by (induction ms) (auto intro: order_trans)

text \<open>The pending fences of a syncpoint.\<close>

definition pending_ok :: "(nat \<Rightarrow> nat) \<Rightarrow> nat \<Rightarrow> host1x \<Rightarrow> bool" where
  "pending_ok thr i h \<longleftrightarrow>
     i < length (h_syncpt h) \<and> distinct (fence_list i h) \<and> sorted_wrt (\<lambda>m n. thr m \<le> thr n) (fence_list i h) \<and>
     (\<forall>n \<in> set (fence_list i h). n < length (h_fences h) \<and> f_threshold (fence_at n h) = of_nat (thr n)) \<and>
     (\<forall>m \<in> set (fence_list i h). \<forall>n \<in> set (fence_list i h). thr m < thr n + 2 ^ 31)"

lemma fence_list_set [simp]: "i < length (h_syncpt h) \<Longrightarrow> fence_list i (set_fence_list i ns h) = ns"
  by (simp add: fence_list_def set_fence_list_def)

lemma set_fence_list_fields [simp]:
  "h_fences (set_fence_list i ns h) = h_fences h" "length (h_syncpt (set_fence_list i ns h)) = length (h_syncpt h)"
  "h_log (set_fence_list i ns h) = h_log h" "fence_at n (set_fence_list i ns h) = fence_at n h"
  by (simp_all add: set_fence_list_def fence_at_def sp_put_def)

lemma set_fence_fields [simp]:
  "fence_list i (set_fence n f h) = fence_list i h" "h_syncpt (set_fence n f h) = h_syncpt h"
  "length (h_fences (set_fence n f h)) = length (h_fences h)" "sp_get i (set_fence n f h) = sp_get i h"
  "h_log (set_fence n f h) = h_log h"
  by (simp_all add: set_fence_def fence_list_def sp_get_def)

lemma fence_at_set [simp]:
  "n < length (h_fences h) \<Longrightarrow> fence_at n (set_fence n f h) = f"
  "m \<noteq> n \<Longrightarrow> fence_at m (set_fence n f h) = fence_at m h"
  by (simp_all add: fence_at_def set_fence_def)

lemma writel_fields [simp]:
  "h_fences (host1x_sync_writel v r h) = h_fences h" "h_syncpt (host1x_sync_writel v r h) = h_syncpt h"
  "fence_list i (host1x_sync_writel v r h) = fence_list i h" "fence_at n (host1x_sync_writel v r h) = fence_at n h"
  "h_log (host1x_sync_writel v r h) = h_log h @ [(r, v)]"
  by (simp_all add: host1x_sync_writel_def fence_list_def fence_at_def sp_get_def)

text \<open>The registers written for a list of pending fences.\<close>

definition programmed :: "nat \<Rightarrow> (nat \<Rightarrow> u32) \<Rightarrow> nat list \<Rightarrow> (sync_reg \<times> u32) list" where
  "programmed i t ns =
     (case ns of
        n # _ \<Rightarrow> [(SYNCPT_INT_THRESH i, t n), (SYNCPT_THRESH_INT_ENABLE_CPU0 (i div 32), push_bit (i mod 32) 1)]
      | [] \<Rightarrow> [(SYNCPT_THRESH_INT_DISABLE (i div 32), push_bit (i mod 32) 1),
               (SYNCPT_THRESH_CPU0_INT_STATUS (i div 32), push_bit (i mod 32) 1)])"

lemma update_hw_state:
  "h_log (host1x_intr_update_hw_state i h) =
     h_log h @ programmed i (\<lambda>n. f_threshold (fence_at n h)) (fence_list i h)"
  "fence_list j (host1x_intr_update_hw_state i h) = fence_list j h"
  "h_fences (host1x_intr_update_hw_state i h) = h_fences h"
  "h_syncpt (host1x_intr_update_hw_state i h) = h_syncpt h"
  by (cases "fence_list i h"; simp add: host1x_intr_update_hw_state_def host1x_intr_enable_syncpt_intr_def
      host1x_intr_set_syncpt_threshold_def host1x_intr_disable_syncpt_intr_def programmed_def)+

lemma fence_at_update [simp]: "fence_at n (host1x_intr_update_hw_state i h) = fence_at n h"
  by (simp add: fence_at_def update_hw_state)

lemma add_to_list:
  assumes p: "pending_ok thr i h" and n: "n \<notin> set (fence_list i h)" "n < length (h_fences h)"
      "f_threshold (fence_at n h) = of_nat (thr n)"
    and near: "\<And>m. m \<in> set (fence_list i h) \<Longrightarrow> thr m < thr n + 2 ^ 31 \<and> thr n < thr m + 2 ^ 31"
  shows "pending_ok thr i (host1x_intr_add_fence_to_list i n h)"
    and "set (fence_list i (host1x_intr_add_fence_to_list i n h)) = insert n (set (fence_list i h))"
proof -
  let ?ns = "fence_list i h"
  have i: "i < length (h_syncpt h)" using p by (simp add: pending_ok_def)
  have le: "f_threshold (fence_at m h) - f_threshold (fence_at n h) \<le>s 0 \<longleftrightarrow> thr m \<le> thr n" if "m \<in> set ?ns" for m
    using counter_before near [OF that] that p n(3) by (auto simp: pending_ok_def)
  have eq: "fence_list i (host1x_intr_add_fence_to_list i n h) = rev (add_before (\<lambda>m. thr m \<le> thr n) n (rev ?ns))"
    unfolding host1x_intr_add_fence_to_list_def fence_list_set [OF i]
    by (rule arg_cong [where f = rev], rule add_before_cong) (simp add: le)
  have s: "sorted_wrt (\<lambda>x y. thr y \<le> thr x) (rev ?ns)"
    using p by (simp add: pending_ok_def sorted_wrt_rev)
  show set: "set (fence_list i (host1x_intr_add_fence_to_list i n h)) = insert n (set ?ns)" by (simp add: eq)
  have "sorted_wrt (\<lambda>m n. thr m \<le> thr n) (fence_list i (host1x_intr_add_fence_to_list i n h))"
    unfolding eq sorted_wrt_rev by (rule add_before_sorted [OF s])
  moreover have "distinct (fence_list i (host1x_intr_add_fence_to_list i n h))"
    unfolding eq distinct_rev using p n(1) by (intro add_before_distinct) (simp_all add: pending_ok_def)
  moreover have "h_fences (host1x_intr_add_fence_to_list i n h) = h_fences h"
      "length (h_syncpt (host1x_intr_add_fence_to_list i n h)) = length (h_syncpt h)"
      "\<And>m. fence_at m (host1x_intr_add_fence_to_list i n h) = fence_at m h"
    by (simp_all add: host1x_intr_add_fence_to_list_def)
  ultimately show "pending_ok thr i (host1x_intr_add_fence_to_list i n h)"
    using p n near i unfolding pending_ok_def set by auto
qed

section \<open>Signalling\<close>

lemma fence_list_other [simp]: "j \<noteq> i \<Longrightarrow> fence_list j (set_fence_list i ns h) = fence_list j h"
  by (simp add: fence_list_def set_fence_list_def)

lemma signal_expired_eq:
  assumes "distinct ns" and "sorted_wrt (\<lambda>m n. thr m \<le> thr n) ns"
    and "\<forall>n \<in> set ns. n < length (h_fences h) \<and> f_threshold (fence_at n h) = of_nat (thr n) \<and>
      c < thr n + 2 ^ 31 \<and> thr n \<le> c + 2 ^ 31 \<and> host1x_fence_signal (fence_at n h) \<noteq> None"
    and "fence_list i h = ns" and "i < length (h_syncpt h)"
  shows "\<exists>h'. signal_expired i (of_nat c) ns h = Some h' \<and> fence_list i h' = filter (\<lambda>n. c < thr n) ns \<and>
    (\<forall>n. fence_at n h' = (if n \<in> set ns \<and> thr n \<le> c then the (host1x_fence_signal (fence_at n h)) else fence_at n h)) \<and>
    h_log h' = h_log h \<and> (\<forall>j. j \<noteq> i \<longrightarrow> fence_list j h' = fence_list j h)"
  using assms
proof (induction ns arbitrary: h)
  case Nil
  then show ?case by simp
next
  case (Cons n ns)
  note n = Cons.prems(3) [rule_format, of n, OF list.set_intros(1)]
  have exp: "(of_nat c - f_threshold (fence_at n h)) AND 0x80000000 = 0 \<longleftrightarrow> thr n \<le> c"
    using n counter_expired [of c "thr n"] by simp
  show ?case
  proof (cases "thr n \<le> c")
    case False
    then have "filter (\<lambda>n. c < thr n) (n # ns) = n # ns" "\<forall>m \<in> set (n # ns). \<not> thr m \<le> c"
      using Cons.prems(2) by (auto simp: filter_id_conv)
    then show ?thesis using False exp Cons.prems(4) by auto
  next
    case True
    obtain f where f: "host1x_fence_signal (fence_at n h) = Some f" using n by auto
    let ?h = "set_fence n f (set_fence_list i ns h)"
    have at: "fence_at m ?h = (if m = n then f else fence_at m h)" for m
      using n by simp
    have "\<exists>h'. signal_expired i (of_nat c) ns ?h = Some h' \<and> fence_list i h' = filter (\<lambda>n. c < thr n) ns \<and>
        (\<forall>m. fence_at m h' = (if m \<in> set ns \<and> thr m \<le> c then the (host1x_fence_signal (fence_at m ?h)) else fence_at m ?h)) \<and>
        h_log h' = h_log ?h \<and> (\<forall>j. j \<noteq> i \<longrightarrow> fence_list j h' = fence_list j ?h)"
    proof (rule Cons.IH)
      show "\<forall>m \<in> set ns. m < length (h_fences ?h) \<and> f_threshold (fence_at m ?h) = of_nat (thr m) \<and>
          c < thr m + 2 ^ 31 \<and> thr m \<le> c + 2 ^ 31 \<and> host1x_fence_signal (fence_at m ?h) \<noteq> None"
        using Cons.prems(1,3) by (auto simp: at)
    qed (use Cons.prems in simp_all)
    then obtain h' where h': "signal_expired i (of_nat c) ns ?h = Some h'" "fence_list i h' = filter (\<lambda>n. c < thr n) ns"
        "\<And>m. fence_at m h' = (if m \<in> set ns \<and> thr m \<le> c then the (host1x_fence_signal (fence_at m ?h)) else fence_at m ?h)"
        "h_log h' = h_log ?h" "\<And>j. j \<noteq> i \<Longrightarrow> fence_list j h' = fence_list j ?h" by blast
    have "fence_at m h' = (if m \<in> set (n # ns) \<and> thr m \<le> c then the (host1x_fence_signal (fence_at m h)) else fence_at m h)" for m
      using Cons.prems(1) True f by (auto simp: h'(3) at)
    then show ?thesis using True exp f h' by simp
  qed
qed

lemma load_fences [simp]:
  assumes "i < length (h_syncpt h)"
  shows "fence_list j (snd (host1x_syncpt_load i h)) = fence_list j h" "fence_at n (snd (host1x_syncpt_load i h)) = fence_at n h"
    "h_fences (snd (host1x_syncpt_load i h)) = h_fences h" "h_log (snd (host1x_syncpt_load i h)) = h_log h"
    "length (h_syncpt (snd (host1x_syncpt_load i h))) = length (h_syncpt h)"
  using assms by (cases "j = i"; simp add: load_eq fence_list_def fence_at_def sp_put_def sp_get_def)+

text \<open>C38: an interrupt for a syncpoint signals exactly the fences whose threshold the counter has reached, takes
  them off the list and leaves every other fence alone; then the interrupt is enabled at the smallest
  threshold that is left, or disabled when no fence is left.  All thresholds may lie up to half the
  counter's range away from its value, on either side of a wrap-around.\<close>

theorem interrupt_signals_expired:
  assumes "pending_ok thr i h" and "h_regs h (SYNCPT i) = of_nat c"
    and "\<And>n. n \<in> set (fence_list i h) \<Longrightarrow> c < thr n + 2 ^ 31 \<and> thr n \<le> c + 2 ^ 31 \<and> host1x_fence_signal (fence_at n h) \<noteq> None"
  shows "\<exists>h'. host1x_intr_handle_interrupt i h = Some h' \<and>
    fence_list i h' = filter (\<lambda>n. c < thr n) (fence_list i h) \<and> sorted_wrt (\<lambda>m n. thr m \<le> thr n) (fence_list i h') \<and>
    (\<forall>n. fence_at n h' =
       (if n \<in> set (fence_list i h) \<and> thr n \<le> c then the (host1x_fence_signal (fence_at n h)) else fence_at n h)) \<and>
    h_log h' = h_log h @ programmed i (\<lambda>n. of_nat (thr n)) (fence_list i h')"
proof -
  have i: "i < length (h_syncpt h)" using assms(1) by (simp add: pending_ok_def)
  let ?h = "snd (host1x_syncpt_load i h)"
  have v: "fst (host1x_syncpt_load i h) = of_nat c" by (simp add: load_eq assms(2))
  have "\<exists>h'. signal_expired i (of_nat c) (fence_list i h) ?h = Some h' \<and>
      fence_list i h' = filter (\<lambda>n. c < thr n) (fence_list i h) \<and>
      (\<forall>n. fence_at n h' = (if n \<in> set (fence_list i h) \<and> thr n \<le> c then the (host1x_fence_signal (fence_at n ?h)) else fence_at n ?h)) \<and>
      h_log h' = h_log ?h \<and> (\<forall>j. j \<noteq> i \<longrightarrow> fence_list j h' = fence_list j ?h)"
    by (rule signal_expired_eq [where thr = thr]) (use assms i in \<open>auto simp: pending_ok_def\<close>)
  then obtain h1 where h1: "signal_expired i (of_nat c) (fence_list i h) ?h = Some h1"
      "fence_list i h1 = filter (\<lambda>n. c < thr n) (fence_list i h)"
      "\<And>n. fence_at n h1 = (if n \<in> set (fence_list i h) \<and> thr n \<le> c then the (host1x_fence_signal (fence_at n h)) else fence_at n h)"
      "h_log h1 = h_log h"
    using i by auto
  have "host1x_intr_handle_interrupt i h = Some (host1x_intr_update_hw_state i h1)"
    using i v h1(1) by (simp add: host1x_intr_handle_interrupt_def split_beta)
  moreover have "sorted_wrt (\<lambda>m n. thr m \<le> thr n) (fence_list i h1)"
    unfolding h1(2) using assms(1) by (intro sorted_wrt_filter) (simp add: pending_ok_def)
  moreover have "programmed i (\<lambda>n. f_threshold (fence_at n h1)) (fence_list i h1) = programmed i (\<lambda>n. of_nat (thr n)) (fence_list i h1)"
  proof (cases "fence_list i h1")
    case Nil
    then show ?thesis by (simp add: programmed_def)
  next
    case (Cons n ns)
    then have "n \<in> set (filter (\<lambda>n. c < thr n) (fence_list i h))" using h1(2) by (metis list.set_intros(1))
    then have "f_threshold (fence_at n h1) = of_nat (thr n)"
      using assms(1) h1(3) by (auto simp: pending_ok_def)
    then show ?thesis using Cons by (simp add: programmed_def)
  qed
  ultimately show ?thesis using h1 by (simp add: update_hw_state)
qed

definition pending_ex :: host1x where
  "pending_ex = (let f = \<lambda>t. \<lparr>f_sp = 2, f_threshold = t, f_timeout = False, f_signaling = False, f_refs = 2,
       f_signaled = False, f_error = None, f_queued = False, f_node = True\<rparr>
     in set_fence_list 2 [0, 1, 2] (host_ex\<lparr>h_fences := map f [0xFFFFFFFF, 3, 10], h_regs := (\<lambda>r. 3)\<rparr>))"

definition thr_ex :: "nat \<Rightarrow> nat" where
  "thr_ex n = [4294967295, 4294967299, 4294967306] ! n"

lemma pending_ex_fields:
  "length (h_syncpt pending_ex) = 4" "fence_list 2 pending_ex = [0, 1, 2]" "length (h_fences pending_ex) = 3"
  "h_regs pending_ex r = 3" "sp_min (sp_get 2 pending_ex) = 0"
  by (simp_all add: pending_ex_def host_ex_def set_fence_list_def fence_list_def sp_get_def sp_put_def zero_syncpt_def
      numeral_eq_Suc)

lemma pending_ex_ok: "pending_ok thr_ex 2 pending_ex"
proof -
  have "f_threshold (fence_at 0 pending_ex) = of_nat (thr_ex 0)" "f_threshold (fence_at 1 pending_ex) = of_nat (thr_ex 1)"
      "f_threshold (fence_at 2 pending_ex) = of_nat (thr_ex 2)"
    by (simp_all add: pending_ex_def fence_at_def thr_ex_def)
  then show ?thesis by (simp add: pending_ok_def pending_ex_fields thr_ex_def)
qed

theorem interrupt_signals_expired_witness:
  "\<exists>h'. host1x_intr_handle_interrupt 2 pending_ex = Some h' \<and> fence_list 2 h' = [2] \<and>
     f_signaled (fence_at 0 h') \<and> \<not> f_signaled (fence_at 2 h') \<and>
     h_log h' = [(SYNCPT_INT_THRESH 2, 10), (SYNCPT_THRESH_INT_ENABLE_CPU0 0, 4)]"
proof -
  have v: "h_regs pending_ex (SYNCPT 2) = of_nat 4294967299" by (simp add: pending_ex_fields)
  have s: "\<exists>f. host1x_fence_signal (fence_at n pending_ex) = Some f \<and> f_signaled f" if "n < 3" for n
    using that by (auto simp: pending_ex_def fence_at_def host1x_fence_signal_def fence_put_def less_Suc_eq numeral_3_eq_3 Let_def)
  have "\<not> f_signaled (fence_at 2 pending_ex)" by (simp add: pending_ex_def fence_at_def)
  moreover have "h_log pending_ex = []" by (simp add: pending_ex_def host_ex_def)
  moreover have "4294967299 < thr_ex n + 2 ^ 31 \<and> thr_ex n \<le> 4294967299 + 2 ^ 31 \<and> host1x_fence_signal (fence_at n pending_ex) \<noteq> None"
    if "n \<in> set (fence_list 2 pending_ex)" for n
    using that s [of n] by (auto simp: pending_ex_fields thr_ex_def)
  note interrupt_signals_expired [OF pending_ex_ok v this]
  ultimately show ?thesis using s [of 0]
    by (auto simp: pending_ex_fields thr_ex_def programmed_def)
qed

text \<open>A fence that asks to be signalled is refused when its threshold is reached already; otherwise it gets
  a reference for the interrupt and, with a timeout, one for the timeout, takes its place in the list
  in the order of the thresholds, and the interrupt is enabled at the smallest threshold of the list.\<close>

theorem enable_signaling_orders:
  assumes p: "pending_ok thr i h" and n: "n \<notin> set (fence_list i h)" "n < length (h_fences h)" "f_sp (fence_at n h) = i"
      "f_threshold (fence_at n h) = of_nat (thr n)"
    and c: "sp_min (sp_get i h) = of_nat c" "c < thr n + 2 ^ 31" "thr n \<le> c + 2 ^ 31"
    and near: "\<And>m. m \<in> set (fence_list i h) \<Longrightarrow> thr m < thr n + 2 ^ 31 \<and> thr n < thr m + 2 ^ 31"
  shows "case host1x_syncpt_fence_enable_signaling n h of (ok, h') \<Rightarrow>
    (ok \<longleftrightarrow> c < thr n) \<and>
    (if ok then pending_ok thr i h' \<and> set (fence_list i h') = insert n (set (fence_list i h)) \<and>
       f_refs (fence_at n h') = f_refs (fence_at n h) + (if f_timeout (fence_at n h) then 2 else 1) \<and>
       (f_timeout (fence_at n h) \<longrightarrow> f_queued (fence_at n h')) \<and>
       h_log h' = h_log h @ programmed i (\<lambda>m. of_nat (thr m)) (fence_list i h')
     else h' = h)"
proof -
  have exp: "host1x_syncpt_is_expired i (of_nat (thr n)) h \<longleftrightarrow> thr n \<le> c" using expired_iff [OF c] .
  show ?thesis
  proof (cases "thr n \<le> c")
    case True
    then show ?thesis using exp n(3,4) by (simp add: host1x_syncpt_fence_enable_signaling_def)
  next
    case False
    define f where "f = (let f = fence_get (fence_at n h) in
        if f_timeout (fence_at n h) then (fence_get f)\<lparr>f_queued := True\<rparr> else f)"
    let ?h = "set_fence n (f\<lparr>f_node := True\<rparr>) (set_fence n f h)"
    have ff: "f_sp f = i" "f_threshold f = of_nat (thr n)" "f_timeout f = f_timeout (fence_at n h)"
        "f_refs f = f_refs (fence_at n h) + (if f_timeout (fence_at n h) then 2 else 1)"
        "f_timeout (fence_at n h) \<longrightarrow> f_queued f"
      using n(3,4) by (simp_all add: f_def fence_get_def Let_def)
    have at: "fence_at m ?h = (if m = n then f\<lparr>f_node := True\<rparr> else fence_at m h)" for m using n(2) by simp
    have ph: "pending_ok thr i ?h" using p n(1) by (auto simp: pending_ok_def at)
    note add = add_to_list [OF ph, of n]
    let ?g = "host1x_intr_add_fence_to_list i n ?h"
    have g: "pending_ok thr i ?g" "set (fence_list i ?g) = insert n (set (fence_list i h))"
      using add n near by (simp_all add: ff at)
    have e: "host1x_syncpt_fence_enable_signaling n h = (True, host1x_intr_update_hw_state i ?g)"
      using exp False n(2-4) ff
      by (simp add: host1x_syncpt_fence_enable_signaling_def host1x_intr_add_fence_locked_def f_def Let_def fence_get_def)
    have fg: "fence_at m ?g = fence_at m ?h" "h_log ?g = h_log h" "length (h_syncpt ?g) = length (h_syncpt h)"
        "h_fences ?g = h_fences ?h" for m
      by (simp_all add: host1x_intr_add_fence_to_list_def)
    have "programmed i (\<lambda>m. f_threshold (fence_at m ?g)) (fence_list i ?g) = programmed i (\<lambda>m. of_nat (thr m)) (fence_list i ?g)"
      using g(1) by (cases "fence_list i ?g") (auto simp: programmed_def pending_ok_def)
    moreover have "pending_ok thr i (host1x_intr_update_hw_state i ?g)"
      using g(1) by (simp add: pending_ok_def update_hw_state)
    ultimately show ?thesis using g e ff fg(1) [of n] False at [of n]
      by (simp add: update_hw_state fg(2))
  qed
qed

definition waiting_ex :: host1x where
  "waiting_ex = sp_put 2 ((sp_get 2 pending_ex)\<lparr>sp_fences := [0, 2], sp_min := 0xFFFFFFFA\<rparr>) pending_ex"

lemma waiting_ex_fields:
  "fence_list 2 waiting_ex = [0, 2]" "length (h_fences waiting_ex) = 3" "fence_at n waiting_ex = fence_at n pending_ex"
  "sp_min (sp_get 2 waiting_ex) = of_nat 4294967290" "length (h_syncpt waiting_ex) = 4"
  by (simp_all add: waiting_ex_def fence_list_def fence_at_def pending_ex_fields sp_put_def sp_get_def)

theorem enable_signaling_orders_witness:
  "case host1x_syncpt_fence_enable_signaling 1 waiting_ex of (ok, h') \<Rightarrow>
     ok \<and> pending_ok thr_ex 2 h' \<and> set (fence_list 2 h') = {0, 1, 2} \<and> f_refs (fence_at 1 h') = 3"
proof -
  have p: "pending_ok thr_ex 2 waiting_ex"
    using pending_ex_ok by (auto simp: pending_ok_def waiting_ex_fields pending_ex_fields)
  have n: "1 \<notin> set (fence_list 2 waiting_ex)" "1 < length (h_fences waiting_ex)" "f_sp (fence_at 1 waiting_ex) = 2"
      "f_threshold (fence_at 1 waiting_ex) = of_nat (thr_ex 1)" "f_refs (fence_at 1 waiting_ex) = 2"
      "\<not> f_timeout (fence_at 1 waiting_ex)"
    by (simp_all add: waiting_ex_fields) (simp_all add: pending_ex_def fence_at_def thr_ex_def)
  have near: "thr_ex m < thr_ex 1 + 2 ^ 31 \<and> thr_ex 1 < thr_ex m + 2 ^ 31" if "m \<in> set (fence_list 2 waiting_ex)" for m
    using that by (auto simp: waiting_ex_fields thr_ex_def)
  have "4294967290 < thr_ex 1" by (simp add: thr_ex_def)
  then show ?thesis
    using enable_signaling_orders [OF p n(1-4) waiting_ex_fields(4) _ _ near] n(5,6)
    by (cases "host1x_syncpt_fence_enable_signaling 1 waiting_ex") (auto simp: thr_ex_def waiting_ex_fields)
qed

end
