(* ===== verification/Host1x_Cdma.thy ===== *)
theory Host1x_Cdma imports Host1x_Fence begin

text \<open>
  Command DMA (\<open>drivers/gpu/host1x/cdma.c\<close>, \<open>cdma.h\<close> and \<open>hw/cdma_hw.c\<close>): each channel has a push buffer, a
  ring of two-word slots that the hardware fetches, and a queue of the jobs whose commands are in the
  ring.  A job ends when its syncpoint reaches the value the job was given; it then leaves the queue
  and its slots are free again.  A job that takes too long is ended by the timeout handler.

  The ring is a list of words; \<open>pos\<close> and \<open>fence\<close> are byte offsets into it as in the code.  \<open>cd_done\<close> are the
  jobs that have been unpinned and put, in this order.
\<close>

section \<open>State\<close>

record push_buffer =
  pb_mapped :: "u32 list"
  pb_dma :: u64
  pb_fence :: u32
  pb_pos :: u32
  pb_size :: u32

record host1x_job =
  j_syncpt :: nat
  j_syncpt_end :: u32
  j_syncpt_incrs :: u32
  j_timeout :: u32
  j_cancelled :: bool
  j_first_get :: u32
  j_num_slots :: u32
  j_syncpt_recovery :: bool
  j_client :: nat

datatype cdma_event = CDMA_EVENT_NONE | CDMA_EVENT_SYNC_QUEUE_EMPTY | CDMA_EVENT_PUSH_BUFFER_SPACE

datatype ch_reg =
    CHANNEL_DMACTRL | CHANNEL_DMASTART | CHANNEL_DMASTART_HI | CHANNEL_DMAPUT | CHANNEL_DMAPUT_HI
  | CHANNEL_DMAEND | CHANNEL_DMAEND_HI | CHANNEL_CMDPROC_STOP | CHANNEL_TEARDOWN | CHANNEL_SMMU_STREAMID
  | CHANNEL_CHANNELCTRL

record host1x_cdma =
  cd_host :: host1x
  cd_ch :: nat
  cd_class :: u32
  cd_log :: "(ch_reg \<times> u32) list"
  cd_event :: cdma_event
  cd_slots_used :: u32
  cd_slots_free :: u32
  cd_first_get :: u32
  cd_last_pos :: u32
  cd_pb :: push_buffer
  cd_queue :: "host1x_job list"
  cd_done :: "host1x_job list"
  cd_timeout_initialized :: bool
  cd_timeout_client :: "nat option"
  cd_timeout_syncpt :: nat
  cd_timeout_val :: u32
  cd_running :: bool
  cd_torndown :: bool

definition host1x_ch_writel :: "u32 \<Rightarrow> ch_reg \<Rightarrow> host1x_cdma \<Rightarrow> host1x_cdma" where
  "host1x_ch_writel v r c = c\<lparr>cd_log := cd_log c @ [(r, v)]\<rparr>"

definition on_host :: "(host1x \<Rightarrow> host1x) \<Rightarrow> host1x_cdma \<Rightarrow> host1x_cdma" where
  "on_host f c = c\<lparr>cd_host := f (cd_host c)\<rparr>"

section \<open>Push buffer\<close>

definition HOST1X_PUSHBUFFER_SLOTS :: nat where "HOST1X_PUSHBUFFER_SLOTS = 1023"

definition host1x_opcode_restart :: "u32 \<Rightarrow> u32" where
  "host1x_opcode_restart addr = push_bit 28 5 OR drop_bit 4 addr"

text \<open>\<open>mem\<close>: the words and the physical address \<open>dma_alloc_wc\<close> returns; \<open>iova\<close>: with an IOMMU domain, the
  result of mapping the buffer at an address of its own.\<close>

definition host1x_pushbuffer_init ::
  "(u32 list \<times> u64) option \<Rightarrow> (errno + u64) option \<Rightarrow> host1x_cdma \<Rightarrow> (errno + unit) \<times> host1x_cdma" where
  "host1x_pushbuffer_init mem iova c =
     (let size = of_nat HOST1X_PUSHBUFFER_SLOTS * 8;
          pb = \<lparr>pb_mapped = [], pb_dma = 0, pb_fence = size - 8, pb_pos = 0, pb_size = size\<rparr>
      in case mem of
           None \<Rightarrow> (Inl ENOMEM, c\<lparr>cd_pb := pb\<rparr>)
         | Some (words, phys) \<Rightarrow>
             let pb = pb\<lparr>pb_mapped := words\<rparr>
             in case (case iova of None \<Rightarrow> Inr phys | Some r \<Rightarrow> r) of
                  Inl e \<Rightarrow> (Inl e, c\<lparr>cd_pb := pb\<rparr>)
                | Inr dma \<Rightarrow>
                    (Inr (), c\<lparr>cd_pb := pb\<lparr>pb_dma := dma,
                       pb_mapped := words[unat size div 4 := host1x_opcode_restart 0]\<rparr>\<rparr>))"

definition host1x_pushbuffer_push :: "u32 \<Rightarrow> u32 \<Rightarrow> push_buffer \<Rightarrow> push_buffer" where
  "host1x_pushbuffer_push op1 op2 pb =
     (let p = unat (pb_pos pb) div 4;
          pos = pb_pos pb + 8
      in pb\<lparr>pb_mapped := (pb_mapped pb)[p := op1, p + 1 := op2],
            pb_pos := (if pb_size pb \<le> pos then pos - pb_size pb else pos)\<rparr>)"

definition host1x_pushbuffer_pop :: "u32 \<Rightarrow> push_buffer \<Rightarrow> push_buffer" where
  "host1x_pushbuffer_pop slots pb =
     (let fence = pb_fence pb + slots * 8
      in pb\<lparr>pb_fence := (if pb_size pb \<le> fence then fence - pb_size pb else fence)\<rparr>)"

definition host1x_pushbuffer_space :: "push_buffer \<Rightarrow> u32" where
  "host1x_pushbuffer_space pb =
     (let fence = (if pb_fence pb < pb_pos pb then pb_fence pb + pb_size pb else pb_fence pb)
      in (fence - pb_pos pb) div 8)"

section \<open>The queue of jobs\<close>

definition cdma_start_timer_locked :: "host1x_job \<Rightarrow> host1x_cdma \<Rightarrow> host1x_cdma" where
  "cdma_start_timer_locked job c =
     (if cd_timeout_client c \<noteq> None then c
      else c\<lparr>cd_timeout_client := Some (j_client job), cd_timeout_syncpt := j_syncpt job,
             cd_timeout_val := j_syncpt_end job\<rparr>)"

definition stop_cdma_timer_locked :: "host1x_cdma \<Rightarrow> host1x_cdma" where
  "stop_cdma_timer_locked c = c\<lparr>cd_timeout_client := None\<rparr>"

definition job_finished :: "host1x_job \<Rightarrow> host1x_cdma \<Rightarrow> bool" where
  "job_finished job c \<longleftrightarrow>
     host1x_syncpt_is_expired (j_syncpt job) (j_syncpt_end job) (cd_host c) \<or> j_cancelled job"

fun update_queue :: "host1x_job list \<Rightarrow> bool \<Rightarrow> host1x_cdma \<Rightarrow> bool \<times> host1x_cdma" where
  "update_queue [] signal c = (signal, c\<lparr>cd_queue := []\<rparr>)"
| "update_queue (job # jobs) signal c =
     (if \<not> job_finished job c
      then (signal, (if j_timeout job \<noteq> 0 then cdma_start_timer_locked job c else c)\<lparr>cd_queue := job # jobs\<rparr>)
      else
        let c = (if cd_timeout_client c \<noteq> None then stop_cdma_timer_locked c else c);
            (signal, c) =
              (if j_num_slots job \<noteq> 0
               then (signal \<or> cd_event c = CDMA_EVENT_PUSH_BUFFER_SPACE,
                     c\<lparr>cd_pb := host1x_pushbuffer_pop (j_num_slots job) (cd_pb c)\<rparr>)
               else (signal, c))
        in update_queue jobs signal (c\<lparr>cd_done := cd_done c @ [job]\<rparr>))"

text \<open>\<open>complete\<close> is called exactly when \<open>event\<close> goes back to \<open>CDMA_EVENT_NONE\<close>.\<close>

definition update_cdma_locked :: "host1x_cdma \<Rightarrow> host1x_cdma" where
  "update_cdma_locked c =
     (let (signal, c) = update_queue (cd_queue c) False c;
          signal = (signal \<or> cd_event c = CDMA_EVENT_SYNC_QUEUE_EMPTY \<and> cd_queue c = [])
      in if signal then c\<lparr>cd_event := CDMA_EVENT_NONE\<rparr> else c)"

section \<open>Waiting\<close>

text \<open>
  What happens while the lock is released: the hardware changes the value of a syncpoint, its interrupt
  refreshes the shadow, and the update work of the channel runs.  Waits consume a list of such
  changes; a wait that outlives the list never returns (\<open>None\<close>).
\<close>

type_synonym env = "(nat \<times> u32) list"

definition cdma_update_work :: "host1x_cdma \<Rightarrow> host1x_cdma" where
  "cdma_update_work c = update_cdma_locked c"

definition env_step :: "nat \<times> u32 \<Rightarrow> host1x_cdma \<Rightarrow> host1x_cdma" where
  "env_step e c =
     (case e of (i, v) \<Rightarrow> cdma_update_work (on_host (\<lambda>h. snd (host1x_syncpt_load i (hw_value i v h))) c))"

fun wait_for_complete :: "env \<Rightarrow> host1x_cdma \<Rightarrow> (host1x_cdma \<times> env) option" where
  "wait_for_complete [] c = None"
| "wait_for_complete (e # es) c =
     (let c = env_step e c in if cd_event c = CDMA_EVENT_NONE then Some (c, es) else wait_for_complete es c)"

lemma wait_for_complete_shorter: "wait_for_complete es c = Some (c', es') \<Longrightarrow> length es' < length es"
proof (induction es arbitrary: c)
  case (Cons e es)
  then show ?case by (auto simp: Let_def less_Suc_eq split: if_splits)
qed simp

definition event_space :: "cdma_event \<Rightarrow> host1x_cdma \<Rightarrow> u32" where
  "event_space event c =
     (case event of
        CDMA_EVENT_SYNC_QUEUE_EMPTY \<Rightarrow> if cd_queue c = [] then 1 else 0
      | CDMA_EVENT_PUSH_BUFFER_SPACE \<Rightarrow> host1x_pushbuffer_space (cd_pb c)
      | CDMA_EVENT_NONE \<Rightarrow> - 22)"

function host1x_cdma_wait_locked :: "cdma_event \<Rightarrow> env \<Rightarrow> host1x_cdma \<Rightarrow> (u32 \<times> host1x_cdma \<times> env) option" where
  "host1x_cdma_wait_locked event es c =
     (let space = event_space event c
      in if space \<noteq> 0 then Some (space, c, es)
         else if cd_event c \<noteq> CDMA_EVENT_NONE
         then (case es of [] \<Rightarrow> None | e # es \<Rightarrow> host1x_cdma_wait_locked event es (env_step e c))
         else (case wait_for_complete es (c\<lparr>cd_event := event\<rparr>) of
                 None \<Rightarrow> None
               | Some (c, es) \<Rightarrow> host1x_cdma_wait_locked event es c))"
  by pat_completeness auto
termination
  by (relation "measure (\<lambda>(event, es, c). length es)") (auto dest: wait_for_complete_shorter)

declare host1x_cdma_wait_locked.simps [simp del]

section \<open>Channel hardware\<close>

definition DMACTRL_DMASTOP :: u32 where "DMACTRL_DMASTOP = 1"
definition DMACTRL_DMAGETRST :: u32 where "DMACTRL_DMAGETRST = 2"
definition DMACTRL_DMAINITGET :: u32 where "DMACTRL_DMAINITGET = 4"

definition write_window :: "host1x_cdma \<Rightarrow> host1x_cdma" where
  "write_window c =
     (let start = pb_dma (cd_pb c);
          c = host1x_ch_writel (ucast start) CHANNEL_DMASTART c
      in if 6 \<le> h_hw (cd_host c) then host1x_ch_writel (ucast (drop_bit 32 start)) CHANNEL_DMASTART_HI c else c)"

definition write_end :: "host1x_cdma \<Rightarrow> host1x_cdma" where
  "write_end c =
     (let dma_end = (ucast (pb_size (cd_pb c) + 4) :: u64);
          c = host1x_ch_writel (ucast dma_end) CHANNEL_DMAEND c
      in if 6 \<le> h_hw (cd_host c) then host1x_ch_writel (ucast (drop_bit 32 dma_end)) CHANNEL_DMAEND_HI c else c)"

definition cdma_start :: "host1x_cdma \<Rightarrow> host1x_cdma" where
  "cdma_start c =
     (if cd_running c then c
      else
        let c = c\<lparr>cd_last_pos := pb_pos (cd_pb c)\<rparr>;
            c = write_window (host1x_ch_writel DMACTRL_DMASTOP CHANNEL_DMACTRL c);
            c = host1x_ch_writel (pb_pos (cd_pb c)) CHANNEL_DMAPUT c;
            c = (if 6 \<le> h_hw (cd_host c) then host1x_ch_writel 0 CHANNEL_DMAPUT_HI c else c);
            c = write_end c;
            c = host1x_ch_writel (DMACTRL_DMASTOP OR DMACTRL_DMAGETRST OR DMACTRL_DMAINITGET) CHANNEL_DMACTRL c
        in (host1x_ch_writel 0 CHANNEL_DMACTRL c)\<lparr>cd_running := True\<rparr>)"

definition cdma_timeout_restart :: "u32 \<Rightarrow> host1x_cdma \<Rightarrow> host1x_cdma" where
  "cdma_timeout_restart getptr c =
     (if cd_running c then c
      else
        let c = c\<lparr>cd_last_pos := pb_pos (cd_pb c)\<rparr>;
            c = write_end (write_window (host1x_ch_writel DMACTRL_DMASTOP CHANNEL_DMACTRL c));
            c = host1x_ch_writel getptr CHANNEL_DMAPUT c;
            c = host1x_ch_writel (DMACTRL_DMASTOP OR DMACTRL_DMAGETRST OR DMACTRL_DMAINITGET) CHANNEL_DMACTRL c;
            c = host1x_ch_writel DMACTRL_DMASTOP CHANNEL_DMACTRL c;
            c = host1x_ch_writel (pb_pos (cd_pb c)) CHANNEL_DMAPUT c
        in (host1x_ch_writel 0 CHANNEL_DMACTRL c)\<lparr>cd_running := True\<rparr>)"

definition cdma_flush :: "host1x_cdma \<Rightarrow> host1x_cdma" where
  "cdma_flush c =
     (if pb_pos (cd_pb c) \<noteq> cd_last_pos c
      then (host1x_ch_writel (pb_pos (cd_pb c)) CHANNEL_DMAPUT c)\<lparr>cd_last_pos := pb_pos (cd_pb c)\<rparr>
      else c)"

definition cdma_stop :: "env \<Rightarrow> host1x_cdma \<Rightarrow> (host1x_cdma \<times> env) option" where
  "cdma_stop es c =
     (if \<not> cd_running c then Some (c, es)
      else do {
        (_, c, es) \<leftarrow> host1x_cdma_wait_locked CDMA_EVENT_SYNC_QUEUE_EMPTY es c;
        Some ((host1x_ch_writel DMACTRL_DMASTOP CHANNEL_DMACTRL c)\<lparr>cd_running := False\<rparr>, es) })"

definition cdma_hw_cmdproc_stop :: "bool \<Rightarrow> host1x_cdma \<Rightarrow> host1x_cdma" where
  "cdma_hw_cmdproc_stop stop c =
     (if 6 \<le> h_hw (cd_host c) then host1x_ch_writel (if stop then 1 else 0) CHANNEL_CMDPROC_STOP c
      else on_host (\<lambda>h.
        let v = host1x_sync_readl SYNC_CMDPROC_STOP h
        in host1x_sync_writel (if stop then v OR push_bit (cd_ch c) 1 else v AND NOT (push_bit (cd_ch c) 1))
             SYNC_CMDPROC_STOP h) c)"

definition cdma_hw_teardown :: "host1x_cdma \<Rightarrow> host1x_cdma" where
  "cdma_hw_teardown c =
     (if 6 \<le> h_hw (cd_host c) then host1x_ch_writel 1 CHANNEL_TEARDOWN c
      else on_host (host1x_sync_writel (push_bit (cd_ch c) 1) SYNC_CH_TEARDOWN) c)"

definition cdma_freeze :: "host1x_cdma \<Rightarrow> host1x_cdma" where
  "cdma_freeze c =
     (if cd_torndown c \<and> \<not> cd_running c then c
      else
        let c = host1x_ch_writel DMACTRL_DMASTOP CHANNEL_DMACTRL (cdma_hw_cmdproc_stop True c)
        in (cdma_hw_teardown c)\<lparr>cd_running := False, cd_torndown := True\<rparr>)"

definition cdma_resume :: "u32 \<Rightarrow> host1x_cdma \<Rightarrow> host1x_cdma" where
  "cdma_resume getptr c = cdma_timeout_restart getptr ((cdma_hw_cmdproc_stop False c)\<lparr>cd_torndown := False\<rparr>)"

text \<open>The lock registers of \<open>hw_host1x08_common.h\<close> by the class of the engine; none for other classes.\<close>

definition mlock_offset :: "u32 \<Rightarrow> u32 option" where
  "mlock_offset cls =
     (if cls = 0x5D then Some 0x4078 else if cls = 0xF0 then Some 0x4080 else if cls = 0x21 then Some 0x407c
      else if cls = 0xC0 then Some 0x4084 else if cls = 0x7 then Some 0x4070 else None)"

definition timeout_release_mlock :: "host1x_cdma \<Rightarrow> host1x_cdma" where
  "timeout_release_mlock c =
     (if h_hw (cd_host c) < 8 \<or> \<not> h_common_regs (cd_host c) then c
      else case mlock_offset (cd_class c) of
             None \<Rightarrow> c
           | Some r \<Rightarrow> on_host (host1x_sync_writel 0 (COMMON_MLOCK r)) c)"

section \<open>Timeouts\<close>

primrec cpu_incr :: "nat \<Rightarrow> nat \<Rightarrow> host1x \<Rightarrow> host1x" where
  "cpu_incr i 0 h = h"
| "cpu_incr i (Suc n) h = cpu_incr i n (snd (host1x_syncpt_incr i h))"

definition cdma_timeout_cpu_incr :: "u32 \<Rightarrow> host1x_cdma \<Rightarrow> host1x_cdma" where
  "cdma_timeout_cpu_incr syncpt_incrs c =
     on_host (\<lambda>h. snd (host1x_syncpt_load (cd_timeout_syncpt c) (cpu_incr (cd_timeout_syncpt c) (unat syncpt_incrs) h))) c"

text \<open>The first job that the value read from the hardware has not reached, with the jobs around it.\<close>

fun first_pending :: "u32 \<Rightarrow> host1x_job list \<Rightarrow> (host1x_job list \<times> host1x_job \<times> host1x_job list) option" where
  "first_pending v [] = None"
| "first_pending v (job # jobs) =
     (if v < j_syncpt_end job then Some ([], job, jobs)
      else map_option (\<lambda>(pre, rest). (job # pre, rest)) (first_pending v jobs))"

definition slot_of :: "u32 \<Rightarrow> nat \<Rightarrow> nat" where
  "slot_of first_get i = (unat first_get div 8 + i) mod HOST1X_PUSHBUFFER_SLOTS"

definition nop_slots :: "bool \<Rightarrow> host1x_job \<Rightarrow> u32 list \<Rightarrow> u32 list" where
  "nop_slots wide job mapped =
     fold (\<lambda>i m.
       let slot = slot_of (j_first_get job) i
       in if i = 0 \<and> wide
          then m[2 * slot := push_bit 28 0xd OR of_nat (slot_of (j_first_get job) (unat (j_num_slots job)) * 2),
                 2 * slot + 1 := 0]
          else m[2 * slot := 0x1bad0000, 2 * slot + 1 := 0x1bad0000])
       [0..<unat (j_num_slots job)] mapped"

fun cancel_later :: "bool \<Rightarrow> nat \<Rightarrow> host1x_job list \<Rightarrow> u32 list \<Rightarrow> host1x_job list \<times> u32 list" where
  "cancel_later wide sp [] m = ([], m)"
| "cancel_later wide sp (job # jobs) m =
     (if j_syncpt job \<noteq> sp
      then (case cancel_later wide sp jobs m of (jobs, m) \<Rightarrow> (job # jobs, m))
      else (case cancel_later wide sp jobs (nop_slots wide job m) of
              (jobs, m) \<Rightarrow> (job\<lparr>j_cancelled := True\<rparr> # jobs, m)))"

definition host1x_cdma_update_sync_queue :: "host1x_cdma \<Rightarrow> host1x_cdma" where
  "host1x_cdma_update_sync_queue c =
     (let (v, h) = host1x_syncpt_load (cd_timeout_syncpt c) (cd_host c);
          c = c\<lparr>cd_host := h\<rparr>
      in case first_pending v (cd_queue c) of
           None \<Rightarrow> cdma_resume (cd_last_pos c) c
         | Some (pre, job, rest) \<Rightarrow>
             let restart_addr = (case rest of next # _ \<Rightarrow> j_first_get next | [] \<Rightarrow> cd_last_pos c)
             in if j_syncpt_recovery job then
                  let c = c\<lparr>cd_queue := pre @ job\<lparr>j_timeout := 0\<rparr> # rest\<rparr>
                  in cdma_resume restart_addr (cdma_timeout_cpu_incr (j_syncpt_end job - v) c)
                else
                  let c = on_host (host1x_syncpt_set_locked (j_syncpt job)) c;
                      (rest, m) = cancel_later (h_wide_gather (cd_host c)) (j_syncpt job) rest (pb_mapped (cd_pb c));
                      c = c\<lparr>cd_queue := pre @ job\<lparr>j_cancelled := True\<rparr> # rest,
                            cd_pb := (cd_pb c)\<lparr>pb_mapped := m\<rparr>\<rparr>
                  in cdma_resume restart_addr (update_cdma_locked c))"

definition cdma_timeout_handler :: "host1x_cdma \<Rightarrow> host1x_cdma" where
  "cdma_timeout_handler c =
     (if cd_timeout_client c = None then c
      else
        let c = cdma_hw_cmdproc_stop True c;
            (v, h) = host1x_syncpt_load (cd_timeout_syncpt c) (cd_host c);
            c = c\<lparr>cd_host := h\<rparr>
        in if 0 \<le>s v - cd_timeout_val c then cdma_hw_cmdproc_stop False c
           else host1x_cdma_update_sync_queue (timeout_release_mlock (cdma_freeze c)))"

section \<open>Set-up and tear-down\<close>

definition host1x_cdma_init ::
  "(u32 list \<times> u64) option \<Rightarrow> (errno + u64) option \<Rightarrow> host1x_cdma \<Rightarrow> (errno + unit) \<times> host1x_cdma" where
  "host1x_cdma_init mem iova c =
     host1x_pushbuffer_init mem iova
       (c\<lparr>cd_queue := [], cd_event := CDMA_EVENT_NONE, cd_running := False, cd_torndown := False\<rparr>)"

definition host1x_cdma_deinit :: "host1x_cdma \<Rightarrow> (errno + unit) \<times> host1x_cdma" where
  "host1x_cdma_deinit c =
     (if cd_running c then (Inl EBUSY, c)
      else (Inr (), c\<lparr>cd_pb := (cd_pb c)\<lparr>pb_mapped := []\<rparr>, cd_timeout_initialized := False\<rparr>))"

section \<open>Submitting a job\<close>

definition host1x_cdma_begin :: "host1x_job \<Rightarrow> host1x_cdma \<Rightarrow> (errno + unit) \<times> host1x_cdma" where
  "host1x_cdma_begin job c =
     (if sp_locked (sp_get (j_syncpt job) (cd_host c)) then (Inl EPERM, c)
      else
        let c = (if j_timeout job \<noteq> 0 \<and> \<not> cd_timeout_initialized c then c\<lparr>cd_timeout_initialized := True\<rparr> else c);
            c = (if \<not> cd_running c then cdma_start c else c)
        in (Inr (), c\<lparr>cd_slots_free := 0, cd_slots_used := 0, cd_first_get := pb_pos (cd_pb c)\<rparr>))"

definition host1x_cdma_push :: "u32 \<Rightarrow> u32 \<Rightarrow> env \<Rightarrow> host1x_cdma \<Rightarrow> (host1x_cdma \<times> env) option" where
  "host1x_cdma_push op1 op2 es c = do {
     (free, c, es) \<leftarrow>
       (if cd_slots_free c = 0 then host1x_cdma_wait_locked CDMA_EVENT_PUSH_BUFFER_SPACE es (cdma_flush c)
        else Some (cd_slots_free c, c, es));
     Some (c\<lparr>cd_slots_free := free - 1, cd_slots_used := cd_slots_used c + 1,
             cd_pb := host1x_pushbuffer_push op1 op2 (cd_pb c)\<rparr>, es) }"

function host1x_cdma_wait_pushbuffer_space :: "u32 \<Rightarrow> env \<Rightarrow> host1x_cdma \<Rightarrow> (host1x_cdma \<times> env) option" where
  "host1x_cdma_wait_pushbuffer_space needed es c =
     (if needed \<le> host1x_pushbuffer_space (cd_pb c) then Some (c, es)
      else
        let c = cdma_flush c
        in if cd_event c \<noteq> CDMA_EVENT_NONE
           then (case es of [] \<Rightarrow> None | e # es \<Rightarrow> host1x_cdma_wait_pushbuffer_space needed es (env_step e c))
           else (case wait_for_complete es (c\<lparr>cd_event := CDMA_EVENT_PUSH_BUFFER_SPACE\<rparr>) of
                   None \<Rightarrow> None
                 | Some (c, es) \<Rightarrow> host1x_cdma_wait_pushbuffer_space needed es c))"
  by pat_completeness auto
termination
  by (relation "measure (\<lambda>(needed, es, c). length es)") (auto dest: wait_for_complete_shorter)

declare host1x_cdma_wait_pushbuffer_space.simps [simp del]

definition host1x_cdma_push_wide ::
  "u32 \<Rightarrow> u32 \<Rightarrow> u32 \<Rightarrow> u32 \<Rightarrow> env \<Rightarrow> host1x_cdma \<Rightarrow> (host1x_cdma \<times> env) option" where
  "host1x_cdma_push_wide op1 op2 op3 op4 es c =
     (let pb = cd_pb c;
          extra = (if pb_size pb < pb_pos pb + 16 then (pb_size pb - pb_pos pb) div 8 else 0);
          needed = 2 + extra
      in do {
        (c, es) \<leftarrow> host1x_cdma_wait_pushbuffer_space needed es c;
        let space = host1x_pushbuffer_space (cd_pb c);
        let c = c\<lparr>cd_slots_free := space - needed, cd_slots_used := cd_slots_used c + needed\<rparr>;
        let pb = (if 0 < extra then host1x_pushbuffer_push (push_bit 28 5) 0xdead0000 (cd_pb c) else cd_pb c);
        Some (c\<lparr>cd_pb := host1x_pushbuffer_push op3 op4 (host1x_pushbuffer_push op1 op2 pb)\<rparr>, es) })"

definition host1x_cdma_end :: "host1x_job \<Rightarrow> host1x_cdma \<Rightarrow> host1x_cdma" where
  "host1x_cdma_end job c =
     (let idle = (cd_queue c = []);
          c = cdma_flush c;
          job = job\<lparr>j_first_get := cd_first_get c, j_num_slots := cd_slots_used c\<rparr>;
          c = c\<lparr>cd_queue := cd_queue c @ [job]\<rparr>
      in if j_timeout job \<noteq> 0 \<and> idle then cdma_start_timer_locked job c else c)"

end
