(* ===== verification/Host1x_Channel.thy ===== *)
theory Host1x_Channel imports Host1x_Cdma begin

text \<open>
  The submission of a job to a channel (\<open>drivers/gpu/host1x/hw/channel_hw.c\<close> with \<open>hw/opcodes.h\<close> and the
  channel table of \<open>channel.c\<close>): the commands of a job become two-word slots of the push buffer.
  \<open>HOST1X_HW\<close> is the field \<open>h_hw\<close>; what the wait for space consumes is the list of changes of
  \<open>Host1x_Cdma\<close>.
\<close>

section \<open>Opcodes\<close>

definition host1x_opcode_setclass :: "u32 \<Rightarrow> u32 \<Rightarrow> u32 \<Rightarrow> u32" where
  "host1x_opcode_setclass class_id offset msk = push_bit 16 offset OR push_bit 6 class_id OR msk"

definition host1x_opcode_incr :: "u32 \<Rightarrow> u32 \<Rightarrow> u32" where
  "host1x_opcode_incr offset count = push_bit 28 1 OR push_bit 16 offset OR count"

definition host1x_opcode_nonincr :: "u32 \<Rightarrow> u32 \<Rightarrow> u32" where
  "host1x_opcode_nonincr offset count = push_bit 28 2 OR push_bit 16 offset OR count"

definition host1x_opcode_gather :: "u32 \<Rightarrow> u32" where
  "host1x_opcode_gather count = push_bit 28 6 OR count"

definition host1x_opcode_setstreamid :: "u32 \<Rightarrow> u32" where
  "host1x_opcode_setstreamid streamid = push_bit 28 7 OR streamid"

definition host1x_opcode_setpayload :: "u32 \<Rightarrow> u32" where
  "host1x_opcode_setpayload payload = push_bit 28 9 OR payload"

definition host1x_opcode_gather_wide :: "u32 \<Rightarrow> u32" where
  "host1x_opcode_gather_wide count = push_bit 28 12 OR count"

definition host1x_opcode_acquire_mlock :: "u32 \<Rightarrow> u32" where
  "host1x_opcode_acquire_mlock mlock = push_bit 28 14 OR mlock"

definition host1x_opcode_release_mlock :: "u32 \<Rightarrow> u32" where
  "host1x_opcode_release_mlock mlock = push_bit 28 14 OR push_bit 24 1 OR mlock"

definition HOST1X_OPCODE_NOP :: u32 where "HOST1X_OPCODE_NOP = host1x_opcode_nonincr 0 0"

definition HOST1X_CLASS_HOST1X :: u32 where "HOST1X_CLASS_HOST1X = 1"
definition host1x_uclass_wait_syncpt_r :: u32 where "host1x_uclass_wait_syncpt_r = 8"
definition HOST1X_UCLASS_LOAD_SYNCPT_BASE :: u32 where "HOST1X_UCLASS_LOAD_SYNCPT_BASE = 0xb"
definition HOST1X_UCLASS_LOAD_SYNCPT_PAYLOAD_32 :: u32 where "HOST1X_UCLASS_LOAD_SYNCPT_PAYLOAD_32 = 0x4e"

definition host1x_class_host_wait_syncpt :: "u32 \<Rightarrow> u32 \<Rightarrow> u32" where
  "host1x_class_host_wait_syncpt indx threshold = push_bit 24 (indx AND 0xff) OR (threshold AND 0xffffff)"

definition load_syncpt_base :: "u32 \<Rightarrow> u32 \<Rightarrow> u32" where
  "load_syncpt_base indx v = push_bit 24 (indx AND 0xff) OR (v AND 0xffffff)"

text \<open>The form of host1x06 and later, the only ones that push it.\<close>

definition incr_syncpt_word :: "u32 \<Rightarrow> u32 \<Rightarrow> u32" where
  "incr_syncpt_word indx cond = (indx AND 0x3ff) OR push_bit 10 (cond AND 0xff)"

section \<open>Commands of a job\<close>

record host1x_job_gather =
  g_words :: u32
  g_base :: u64
  g_bo :: nat
  g_offset :: u32
  g_handled :: bool

record host1x_job_wait =
  w_id :: u32
  w_threshold :: u32
  w_next_class :: u32
  w_relative :: bool

record host1x_job_reg_write =
  rw_reg :: u32
  rw_value :: u32

datatype host1x_job_cmd =
    HOST1X_JOB_CMD_GATHER host1x_job_gather
  | HOST1X_JOB_CMD_WAIT host1x_job_wait
  | HOST1X_JOB_CMD_REG_WRITE host1x_job_reg_write

text \<open>The part of a job that \<open>channel_submit\<close> reads beside what the queue keeps.\<close>

record host1x_submit =
  s_cmds :: "host1x_job_cmd list"
  s_class :: u32
  s_serialize :: bool
  s_secondary :: "nat option"
  s_context_streamid :: "u32 option"
  s_fallback_streamid :: u32
  s_streamid_offset :: u32

section \<open>Pushing the commands\<close>

text \<open>A push that may wait: it uses up changes of the environment and may never return.\<close>

type_synonym 'a waiting = "env \<Rightarrow> host1x_cdma \<Rightarrow> ('a \<times> host1x_cdma \<times> env) option"
type_synonym pushing = "env \<Rightarrow> host1x_cdma \<Rightarrow> (host1x_cdma \<times> env) option"

definition submit_wait :: "u32 \<Rightarrow> u32 \<Rightarrow> pushing" where
  "submit_wait i threshold es c =
     (if 2 \<le> h_hw (cd_host c)
      then host1x_cdma_push_wide
             (host1x_opcode_setclass HOST1X_CLASS_HOST1X HOST1X_UCLASS_LOAD_SYNCPT_PAYLOAD_32 5)
             threshold i HOST1X_OPCODE_NOP es c
      else host1x_cdma_push
             (host1x_opcode_setclass HOST1X_CLASS_HOST1X host1x_uclass_wait_syncpt_r 1)
             (host1x_class_host_wait_syncpt i threshold) es c)"

definition stream_id :: "host1x_submit \<Rightarrow> u32" where
  "stream_id s = (case s_context_streamid s of Some i \<Rightarrow> i | None \<Rightarrow> s_fallback_streamid s)"

definition submit_setclass :: "host1x_submit \<Rightarrow> u32 \<Rightarrow> pushing" where
  "submit_setclass s next_class es c =
     (if 6 \<le> h_hw (cd_host c)
      then host1x_cdma_push_wide (host1x_opcode_setclass next_class 0 0) (host1x_opcode_setpayload (stream_id s))
             (host1x_opcode_setstreamid (s_streamid_offset s div 4)) HOST1X_OPCODE_NOP es c
      else host1x_cdma_push (host1x_opcode_setclass next_class 0 0) HOST1X_OPCODE_NOP es c)"

definition submit_gather :: "host1x_job_gather \<Rightarrow> pushing" where
  "submit_gather g es c =
     (let addr = g_base g + ucast (g_offset g);
          op2 = (ucast addr :: u32);
          op3 = (ucast (drop_bit 32 addr) :: u32)
      in if op3 \<noteq> 0
         then (if 6 \<le> h_hw (cd_host c)
               then host1x_cdma_push_wide (host1x_opcode_gather_wide (g_words g)) op2 op3 HOST1X_OPCODE_NOP es c
               else Some (c, es))
         else host1x_cdma_push (host1x_opcode_gather (g_words g)) op2 es c)"

fun submit_gathers :: "host1x_submit \<Rightarrow> u32 \<Rightarrow> host1x_job_cmd list \<Rightarrow> pushing" where
  "submit_gathers s base [] es c = Some (c, es)"
| "submit_gathers s base (HOST1X_JOB_CMD_WAIT w # cmds) es c = do {
     let threshold = (if w_relative w then base + w_threshold w else w_threshold w);
     (c, es) \<leftarrow> submit_wait (w_id w) threshold es c;
     (c, es) \<leftarrow> submit_setclass s (w_next_class w) es c;
     submit_gathers s base cmds es c }"
| "submit_gathers s base (HOST1X_JOB_CMD_GATHER g # cmds) es c = do {
     (c, es) \<leftarrow> submit_gather g es c;
     submit_gathers s base cmds es c }"
| "submit_gathers s base (HOST1X_JOB_CMD_REG_WRITE d # cmds) es c = do {
     (c, es) \<leftarrow> host1x_cdma_push (host1x_opcode_incr (drop_bit 2 (rw_reg d)) 1) (rw_value d) es c;
     submit_gathers s base cmds es c }"

text \<open>The batches \<open>trace_write_gather\<close> reports when tracing is on and the buffer can be mapped: words and offset.\<close>

function trace_batches :: "u32 \<Rightarrow> u32 \<Rightarrow> u32 \<Rightarrow> (u32 \<times> u32) list" where
  "trace_batches i offset words =
     (if i < words \<and> unat words \<le> 2 ^ 30
      then (let num_words = min (words - i) 128; offset = offset + i * 4
            in (num_words, offset) # trace_batches (i + 128) offset words)
      else [])"
  by pat_completeness auto
termination
proof (relation "measure (\<lambda>(i, offset, words). unat words - unat i)", goal_cases)
  case (2 i offset words num_words offset')
  then have "unat i < unat words" "unat words \<le> 2 ^ 30" by (simp_all add: word_less_nat_alt)
  then have "unat (i + 128) = unat i + 128" by (subst unat_add_no_wrap) simp_all
  then show ?case using \<open>unat i < unat words\<close> by simp
qed simp

section \<open>Programs of the two generations\<close>

definition synchronize_syncpt_base :: "nat \<Rightarrow> nat \<Rightarrow> pushing" where
  "synchronize_syncpt_base i base es c =
     host1x_cdma_push (host1x_opcode_setclass HOST1X_CLASS_HOST1X HOST1X_UCLASS_LOAD_SYNCPT_BASE 1)
       (load_syncpt_base (of_nat base) (host1x_syncpt_read_max i (cd_host c))) es c"

definition cdma_incr_max :: "nat \<Rightarrow> u32 \<Rightarrow> host1x_cdma \<Rightarrow> u32 \<times> host1x_cdma" where
  "cdma_incr_max i n c = (let (v, h) = host1x_syncpt_incr_max i n (cd_host c) in (v, c\<lparr>cd_host := h\<rparr>))"

text \<open>The absolute waits at the front of the commands are made before the engine is taken.\<close>

fun prefences :: "host1x_job_cmd list \<Rightarrow> host1x_job_wait list \<times> host1x_job_cmd list" where
  "prefences (HOST1X_JOB_CMD_WAIT w # cmds) =
     (if w_relative w then ([], HOST1X_JOB_CMD_WAIT w # cmds)
      else case prefences cmds of (ws, rest) \<Rightarrow> (w # ws, rest))"
| "prefences cmds = ([], cmds)"

fun submit_waits :: "host1x_job_wait list \<Rightarrow> pushing" where
  "submit_waits [] es c = Some (c, es)"
| "submit_waits (w # ws) es c = do {
     (c, es) \<leftarrow> submit_wait (w_id w) (w_threshold w) es c;
     submit_waits ws es c }"

definition submit_prefences :: "host1x_job_wait list \<Rightarrow> pushing" where
  "submit_prefences ws es c =
     (if ws = [] then Some (c, es)
      else do {
        (c, es) \<leftarrow> host1x_cdma_push_wide (host1x_opcode_acquire_mlock 1) (host1x_opcode_setclass 1 0 0)
                    (host1x_opcode_setpayload 0) (host1x_opcode_setstreamid 0x1fffff) es c;
        (c, es) \<leftarrow> submit_waits ws es c;
        host1x_cdma_push HOST1X_OPCODE_NOP (host1x_opcode_release_mlock 1) es c })"

text \<open>Wait for the engine to be idle: it increments the job's syncpoint when it is, and the channel waits for that.\<close>

definition submit_idle :: "nat \<Rightarrow> pushing" where
  "submit_idle i es c = do {
     let (fence, c) = cdma_incr_max i 1 c;
     (c, es) \<leftarrow> host1x_cdma_push (host1x_opcode_nonincr 0 1) (incr_syncpt_word (of_nat i) 4) es c;
     submit_wait (of_nat i) fence es c }"

definition program_wide :: "host1x_job \<Rightarrow> host1x_submit \<Rightarrow> u32 waiting" where
  "program_wide job s es c = do {
     let i = j_syncpt job;
     let (ws, cmds) = prefences (s_cmds s);
     (c, es) \<leftarrow> submit_prefences ws es c;
     (c, es) \<leftarrow> host1x_cdma_push_wide (host1x_opcode_acquire_mlock (s_class s)) (host1x_opcode_setclass (s_class s) 0 0)
                 (host1x_opcode_setpayload 0) (host1x_opcode_setstreamid (s_streamid_offset s div 4)) es c;
     (c, es) \<leftarrow> submit_idle i es c;
     (c, es) \<leftarrow> submit_setclass s (s_class s) es c;
     let (syncpt_end, c) = cdma_incr_max i (j_syncpt_incrs job) c;
     (c, es) \<leftarrow> submit_gathers s (syncpt_end - j_syncpt_incrs job) cmds es c;
     (c, es) \<leftarrow> submit_idle i es c;
     (c, es) \<leftarrow> host1x_cdma_push HOST1X_OPCODE_NOP (host1x_opcode_release_mlock (s_class s)) es c;
     Some (syncpt_end, c, es) }"

definition program_narrow :: "host1x_job \<Rightarrow> host1x_submit \<Rightarrow> u32 waiting" where
  "program_narrow job s es c = do {
     let i = j_syncpt job;
     (c, es) \<leftarrow>
       (if s_serialize s
        then host1x_cdma_push (host1x_opcode_setclass HOST1X_CLASS_HOST1X host1x_uclass_wait_syncpt_r 1)
               (host1x_class_host_wait_syncpt (of_nat i) (host1x_syncpt_read_max i (cd_host c))) es c
        else Some (c, es));
     (c, es) \<leftarrow>
       (case sp_base (sp_get i (cd_host c)) of
          Some base \<Rightarrow> synchronize_syncpt_base i base es c
        | None \<Rightarrow> Some (c, es));
     (c, es) \<leftarrow>
       (if s_class s \<noteq> 0 then host1x_cdma_push (host1x_opcode_setclass (s_class s) 0 0) HOST1X_OPCODE_NOP es c
        else Some (c, es));
     let (syncpt_end, c) = cdma_incr_max i (j_syncpt_incrs job) c;
     (c, es) \<leftarrow> submit_gathers s (syncpt_end - j_syncpt_incrs job) (s_cmds s) es c;
     Some (syncpt_end, c, es) }"

definition channel_program_cdma :: "host1x_job \<Rightarrow> host1x_submit \<Rightarrow> u32 waiting" where
  "channel_program_cdma job s es c =
     (if 6 \<le> h_hw (cd_host c) then program_wide job s es c else program_narrow job s es c)"

section \<open>Submission\<close>

text \<open>\<open>spec\<close>: the stream id of the IOMMU specification of the parent device.\<close>

definition host1x_channel_set_streamid :: "u32 option \<Rightarrow> host1x_cdma \<Rightarrow> host1x_cdma" where
  "host1x_channel_set_streamid spec c =
     (if 6 \<le> h_hw (cd_host c)
      then host1x_ch_writel (case spec of Some i \<Rightarrow> i AND 0xffff | None \<Rightarrow> 0x7f) CHANNEL_SMMU_STREAMID c
      else c)"

definition host1x_enable_gather_filter :: "host1x_cdma \<Rightarrow> host1x_cdma" where
  "host1x_enable_gather_filter c =
     (if 6 \<le> h_hw (cd_host c)
      then (if \<not> h_hv_regs (cd_host c) then c
            else on_host (\<lambda>h.
              let r = HV_CH_KERNEL_FILTER_GBUFFER (cd_ch c div 32)
              in host1x_sync_writel (host1x_sync_readl r h OR push_bit (cd_ch c mod 32) 1) r h) c)
      else if 4 \<le> h_hw (cd_host c) then host1x_ch_writel 4 CHANNEL_CHANNELCTRL c
      else c)"

definition channel_prepare :: "u32 option \<Rightarrow> nat \<Rightarrow> nat option \<Rightarrow> host1x_cdma \<Rightarrow> host1x_cdma" where
  "channel_prepare spec i secondary c =
     (let ch = Some (cd_ch c);
          c = host1x_enable_gather_filter (host1x_channel_set_streamid spec c);
          c = on_host (syncpt_assign_to_channel i ch) c
      in case secondary of None \<Rightarrow> c | Some k \<Rightarrow> on_host (syncpt_assign_to_channel k ch) c)"

text \<open>
  The end of a submission.  \<open>kz\<close>: the fence can be allocated.  \<open>dma_fence_add_callback\<close> enables signalling
  and refuses (\<open>-ENOENT\<close>) when the fence has been signalled already, in which case the update work runs
  at once.
\<close>

definition channel_finish :: "bool \<Rightarrow> host1x_job \<Rightarrow> host1x_cdma \<Rightarrow> nat option \<times> host1x_cdma" where
  "channel_finish kz job c =
     (let (fence, h) = host1x_fence_create (j_syncpt job) (host1x_syncpt_read_max (j_syncpt job) (cd_host c)) True kz (cd_host c)
      in case fence of
           Inl _ \<Rightarrow> (None, host1x_cdma_end job (c\<lparr>cd_host := h\<rparr>))
         | Inr n \<Rightarrow>
             let (enabled, h) = host1x_syncpt_fence_enable_signaling n h;
                 h = (if enabled then h else set_fence n ((fence_at n h)\<lparr>f_signaled := True\<rparr>) h);
                 c = host1x_cdma_end job (c\<lparr>cd_host := h\<rparr>)
             in (Some n, if enabled then c else cdma_update_work c))"

text \<open>\<open>locked\<close>: the result of taking the submit lock.  The result has the error or the fence, the value left
  in \<open>syncpt_end\<close> of the job, and the state; the job itself is in the queue.\<close>

definition channel_submit ::
  "(errno + unit) \<Rightarrow> u32 option \<Rightarrow> bool \<Rightarrow> host1x_job \<Rightarrow> host1x_submit \<Rightarrow> env \<Rightarrow> host1x_cdma \<Rightarrow>
    ((errno + nat option) \<times> u32 \<times> host1x_cdma \<times> env) option" where
  "channel_submit locked spec kz job s es c =
     (let prev_max = host1x_syncpt_read_max (j_syncpt job) (cd_host c)
      in case locked of
        Inl e \<Rightarrow> Some (Inl e, prev_max, c, es)
      | Inr _ \<Rightarrow>
          (case host1x_cdma_begin job (channel_prepare spec (j_syncpt job) (s_secondary s) c) of
             (Inl e, c) \<Rightarrow> Some (Inl e, prev_max, c, es)
           | (Inr _, c) \<Rightarrow> do {
               (syncpt_end, c, es) \<leftarrow> channel_program_cdma job s es c;
               let (fence, c) = channel_finish kz (job\<lparr>j_syncpt_end := syncpt_end\<rparr>) c;
               Some (Inr fence, syncpt_end, c, es) }))"

end
