(* ===== verification/Host1x_Ring.thy ===== *)
theory Host1x_Ring imports Host1x_Cdma Fifo begin

text \<open>
  The push buffer as a ring of slots: the contract of such a ring, what a submitter of batches gets from
  it, and the push buffer of \<open>drivers/gpu/host1x/cdma.c\<close> as an instance.
\<close>

section \<open>The contract\<close>

locale slot_ring =
  fixes inv :: "'r \<Rightarrow> bool"
    and contents :: "'r \<Rightarrow> 'a list"
    and cap :: nat
    and push :: "'a \<Rightarrow> 'r \<Rightarrow> 'r"
    and pop :: "nat \<Rightarrow> 'r \<Rightarrow> 'r"
    and space :: "'r \<Rightarrow> nat"
  assumes push_law: "inv r \<Longrightarrow> length (contents r) < cap \<Longrightarrow> inv (push x r) \<and> contents (push x r) = contents r @ [x]"
    and pop_law: "inv r \<Longrightarrow> n \<le> length (contents r) \<Longrightarrow> inv (pop n r) \<and> contents (pop n r) = drop n (contents r)"
    and space_law: "inv r \<Longrightarrow> space r + length (contents r) = cap"
begin

text \<open>The ring holds the batches \<open>bs\<close>, oldest first, and the beginning \<open>cur\<close> of the next one.\<close>

definition holds :: "'r \<Rightarrow> 'a list list \<Rightarrow> 'a list \<Rightarrow> bool" where
  "holds r bs cur \<longleftrightarrow> inv r \<and> contents r = concat bs @ cur"

lemma holds_push: "holds r bs cur \<Longrightarrow> space r \<noteq> 0 \<Longrightarrow> holds (push x r) bs (cur @ [x])"
  using push_law [of r x] space_law [of r] by (simp add: holds_def)

lemma holds_retire: "holds r (b # bs) cur \<Longrightarrow> holds (pop (length b) r) bs cur"
  using pop_law [of r "length b"] by (simp add: holds_def)

lemma holds_close: "holds r bs cur \<Longrightarrow> holds r (bs @ [cur]) []"
  by (simp add: holds_def)

lemma holds_space: "holds r bs cur \<Longrightarrow> space r + length (concat bs) + length cur = cap"
  using space_law [of r] by (simp add: holds_def)

end

section \<open>The push buffer\<close>

definition pb_slots :: "push_buffer \<Rightarrow> (u32 \<times> u32) list" where
  "pb_slots pb = map (\<lambda>k. (pb_mapped pb ! (2 * k), pb_mapped pb ! (2 * k + 1))) [0..<1023]"

definition pb_put :: "push_buffer \<Rightarrow> nat" where "pb_put pb = unat (pb_pos pb) div 8"
definition pb_get :: "push_buffer \<Rightarrow> nat" where "pb_get pb = Suc (unat (pb_fence pb) div 8) mod 1023"

definition pb_used :: "push_buffer \<Rightarrow> nat" where
  "pb_used pb = (pb_put pb + 1023 - pb_get pb) mod 1023"

definition pb_contents :: "push_buffer \<Rightarrow> (u32 \<times> u32) list" where
  "pb_contents pb = ring_contents (pb_slots pb) (pb_get pb) (pb_used pb)"

definition pb_ok :: "push_buffer \<Rightarrow> bool" where
  "pb_ok pb \<longleftrightarrow> pb_size pb = 8184 \<and> 2047 \<le> length (pb_mapped pb) \<and>
     (\<exists>p < 1023. unat (pb_pos pb) = 8 * p) \<and> (\<exists>f < 1023. unat (pb_fence pb) = 8 * f)"

lemma length_pb_slots [simp]: "length (pb_slots pb) = 1023" by (simp add: pb_slots_def)

lemma pb_okE:
  assumes "pb_ok pb"
  obtains p f where "p < 1023" "f < 1023" "pb_size pb = 8184" "2047 \<le> length (pb_mapped pb)"
    "unat (pb_pos pb) = 8 * p" "unat (pb_fence pb) = 8 * f" "pb_put pb = p" "pb_get pb = Suc f mod 1023"
  using assms by (auto simp: pb_ok_def pb_put_def pb_get_def)

lemma used_space:
  assumes "p < 1023" "f < (1023 :: nat)"
  shows "(p + 1023 - Suc f mod 1023) mod 1023 = (if f < p then p - Suc f else p + 1022 - f)"
proof (cases "f = 1022")
  case True
  then show ?thesis using assms by simp
next
  case False
  then have s: "Suc f mod 1023 = Suc f" using assms by simp
  show ?thesis
  proof (cases "f < p")
    case True
    then have "p + 1023 - Suc f = (p - Suc f) + 1023" by simp
    then have "(p + 1023 - Suc f) mod 1023 = (p - Suc f) mod 1023" by (simp only: mod_add_self2)
    then show ?thesis using True assms s by simp
  next
    case False
    then show ?thesis using assms s by simp
  qed
qed

lemma space_eq:
  assumes "pb_ok pb"
  shows "unat (host1x_pushbuffer_space pb) + pb_used pb = 1022"
proof -
  obtain p f where pf: "p < 1023" "f < 1023" "pb_size pb = 8184" "pb_put pb = p" "pb_get pb = Suc f mod 1023"
      "unat (pb_pos pb) = 8 * p" "unat (pb_fence pb) = 8 * f" using pb_okE [OF assms] by blast
  have "unat (host1x_pushbuffer_space pb) = (if f < p then f + 1023 - p else f - p)"
  proof (cases "f < p")
    case True
    then have lt: "pb_fence pb < pb_pos pb" using pf by (simp add: word_less_nat_alt)
    have a: "unat (pb_fence pb + 8184) = 8 * f + 8184"
      using pf(2,7) by (subst unat_add_no_wrap) simp_all
    have "unat (pb_fence pb + 8184 - pb_pos pb) = 8 * f + 8184 - 8 * p"
      using pf(1,6) a by (subst unat_sub_le) simp_all
    then show ?thesis using lt True pf by (simp add: host1x_pushbuffer_space_def unat_div)
  next
    case False
    then have le: "\<not> pb_fence pb < pb_pos pb" using pf by (simp add: word_less_nat_alt)
    have "unat (pb_fence pb - pb_pos pb) = 8 * f - 8 * p"
      using False pf(6,7) by (subst unat_sub_le) simp_all
    then show ?thesis using le False by (simp add: host1x_pushbuffer_space_def unat_div)
  qed
  then show ?thesis using pf(1,2) by (auto simp: pb_used_def pf(4,5) used_space)
qed

lemma pb_used_le: "pb_ok pb \<Longrightarrow> pb_used pb \<le> 1022"
  using space_eq [of pb] by linarith

lemma ring_drop:
  assumes "n \<le> c"
  shows "ring_contents arr ((h + n) mod length arr) (c - n) = drop n (ring_contents arr h c)"
proof (rule nth_equalityI)
  fix i assume "i < length (ring_contents arr ((h + n) mod length arr) (c - n))"
  then have "i < c - n" "n + i < c" by simp_all
  then show "ring_contents arr ((h + n) mod length arr) (c - n) ! i = drop n (ring_contents arr h c) ! i"
    by (simp add: ring_contents_def mod_simps add.assoc)
qed (simp add: ring_contents_def)

lemma used_iff:
  assumes "u < 1023" "g < 1023" "p < (1023 :: nat)"
  shows "(p + 1023 - g) mod 1023 = u \<longleftrightarrow> (g + u) mod 1023 = p"
proof -
  have red: "m mod 1023 = (if m < 1023 then m else m - 1023)" if "m < 2046" for m :: nat
    using that by (simp add: mod_if)
  have 1: "(p + 1023 - g) mod 1023 = (if p + 1023 - g < 1023 then p + 1023 - g else p + 1023 - g - 1023)"
    using assms by (intro red) simp
  have 2: "(g + u) mod 1023 = (if g + u < 1023 then g + u else g + u - 1023)"
    using assms by (intro red) simp
  show ?thesis unfolding 1 2 using assms by auto
qed

lemma put_index:
  assumes "pb_ok pb"
  shows "(pb_get pb + pb_used pb) mod 1023 = pb_put pb"
proof -
  have "pb_put pb < 1023" "pb_get pb < 1023" using pb_okE [OF assms] by (metis, metis mod_less_divisor zero_less_numeral)
  then show ?thesis using used_iff [of "pb_used pb" "pb_get pb" "pb_put pb"] by (simp add: pb_used_def)
qed

lemma push_ok:
  assumes ok: "pb_ok pb" and space: "pb_used pb < 1022"
  shows "pb_ok (host1x_pushbuffer_push a b pb)"
    and "pb_contents (host1x_pushbuffer_push a b pb) = pb_contents pb @ [(a, b)]"
    and "pb_get (host1x_pushbuffer_push a b pb) = pb_get pb"
    and push_put: "pb_put (host1x_pushbuffer_push a b pb) = Suc (pb_put pb) mod 1023"
proof -
  let ?pb = "host1x_pushbuffer_push a b pb"
  obtain p f where pf: "p < 1023" "f < 1023" "pb_size pb = 8184" "2047 \<le> length (pb_mapped pb)"
      "unat (pb_pos pb) = 8 * p" "unat (pb_fence pb) = 8 * f" "pb_put pb = p" "pb_get pb = Suc f mod 1023"
    using pb_okE [OF ok] by blast
  have idx: "unat (pb_pos pb) div 4 = 2 * p" using pf(5) by simp
  have next_pos: "unat (pb_pos pb + 8) = 8 * Suc p" using pf(1,5) by (subst unat_add_no_wrap) simp_all
  have pos': "unat (pb_pos ?pb) = 8 * (Suc p mod 1023)"
  proof (cases "Suc p < 1023")
    case True
    then have "\<not> pb_size pb \<le> pb_pos pb + 8" using next_pos pf(3) by (simp add: word_le_nat_alt)
    then show ?thesis using next_pos True by (simp add: host1x_pushbuffer_push_def Let_def)
  next
    case False
    then have e: "Suc p = 1023" using pf(1) by simp
    then have "pb_size pb \<le> pb_pos pb + 8" using next_pos pf(3) by (simp add: word_le_nat_alt)
    moreover have "unat (pb_pos pb + 8 - pb_size pb) = 0"
      using next_pos pf(3) e by (subst unat_sub_le) simp_all
    ultimately show ?thesis using e by (simp add: host1x_pushbuffer_push_def Let_def)
  qed
  have len: "length (pb_mapped ?pb) = length (pb_mapped pb)" and fence': "pb_fence ?pb = pb_fence pb"
      and size': "pb_size ?pb = pb_size pb"
    by (simp_all add: host1x_pushbuffer_push_def Let_def)
  have "Suc p mod 1023 < 1023" by simp
  then show ok': "pb_ok ?pb" using pf pos' unfolding pb_ok_def len fence' size' by blast
  have slots: "pb_slots ?pb = (pb_slots pb)[p := (a, b)]"
  proof (rule nth_equalityI)
    fix k assume "k < length (pb_slots ?pb)"
    then have k: "k < 1023" by simp
    have m: "pb_mapped ?pb = (pb_mapped pb)[2 * p := a, 2 * p + 1 := b]"
      by (simp add: host1x_pushbuffer_push_def idx Let_def)
    show "pb_slots ?pb ! k = (pb_slots pb)[p := (a, b)] ! k"
      using k pf(1,4) by (cases "k = p") (simp_all add: pb_slots_def m nth_list_update)
  qed simp
  have put': "pb_put ?pb = Suc p mod 1023" using pos' by (simp add: pb_put_def)
  then show "pb_put ?pb = Suc (pb_put pb) mod 1023" using pf(7) by simp
  show get': "pb_get ?pb = pb_get pb" using fence' by (simp add: pb_get_def)
  have "(pb_get pb + Suc (pb_used pb)) mod 1023 = Suc p mod 1023"
    using put_index [OF ok] pf(7) by (metis add_Suc_right mod_Suc_eq)
  then have used': "pb_used ?pb = Suc (pb_used pb)"
    using used_iff [of "Suc (pb_used pb)" "pb_get pb" "Suc p mod 1023"] space pf(8)
    by (simp add: pb_used_def put' get')
  show "pb_contents ?pb = pb_contents pb @ [(a, b)]"
    using ring_put [of "pb_used pb" "pb_slots pb" "pb_get pb" "(a, b)"] put_index [OF ok] pf(7) space
    by (simp add: pb_contents_def get' used' slots)
qed

lemma pop_ok:
  assumes ok: "pb_ok pb" and n: "unat n \<le> pb_used pb"
  shows "pb_ok (host1x_pushbuffer_pop n pb)"
    and "pb_contents (host1x_pushbuffer_pop n pb) = drop (unat n) (pb_contents pb)"
    and "pb_get (host1x_pushbuffer_pop n pb) = (pb_get pb + unat n) mod 1023"
proof -
  let ?pb = "host1x_pushbuffer_pop n pb"
  obtain p f where pf: "p < 1023" "f < 1023" "pb_size pb = 8184" "2047 \<le> length (pb_mapped pb)"
      "unat (pb_pos pb) = 8 * p" "unat (pb_fence pb) = 8 * f" "pb_put pb = p" "pb_get pb = Suc f mod 1023"
    using pb_okE [OF ok] by blast
  have small: "unat n \<le> 1022" using n pb_used_le [OF ok] by simp
  have "unat n * unat (8 :: u32) < 2 ^ LENGTH(32)" using small by simp
  then have n8: "unat (n * 8) = unat n * 8" by (simp only: unat_mult_lem) simp
  have f8: "unat (pb_fence pb + n * 8) = 8 * (f + unat n)"
    using pf(2,6) n8 small by (subst unat_add_no_wrap) simp_all
  have fence': "unat (pb_fence ?pb) = 8 * ((f + unat n) mod 1023)"
  proof (cases "f + unat n < 1023")
    case True
    then have "\<not> pb_size pb \<le> pb_fence pb + n * 8" using f8 pf(3) by (simp add: word_le_nat_alt)
    then show ?thesis using f8 True by (simp add: host1x_pushbuffer_pop_def Let_def)
  next
    case False
    then have le: "pb_size pb \<le> pb_fence pb + n * 8" using f8 pf(3) by (simp add: word_le_nat_alt)
    have "unat (pb_fence pb + n * 8 - pb_size pb) = 8 * (f + unat n - 1023)"
      using f8 pf(3) False by (subst unat_sub_le) simp_all
    moreover have "(f + unat n) mod 1023 = f + unat n - 1023"
      using False pf(2) small by (simp add: mod_if)
    ultimately show ?thesis using le by (simp add: host1x_pushbuffer_pop_def Let_def)
  qed
  have same: "pb_mapped ?pb = pb_mapped pb" "pb_pos ?pb = pb_pos pb" "pb_size ?pb = pb_size pb"
    by (simp_all add: host1x_pushbuffer_pop_def Let_def)
  have "(f + unat n) mod 1023 < 1023" by simp
  then show "pb_ok ?pb" using pf fence' unfolding pb_ok_def same by blast
  show get': "pb_get ?pb = (pb_get pb + unat n) mod 1023"
    using fence' pf(8) by (simp add: pb_get_def mod_simps)
  have put': "pb_put ?pb = pb_put pb" by (simp add: pb_put_def same)
  have "((pb_get pb + unat n) mod 1023 + (pb_used pb - unat n)) mod 1023 =
      (pb_get pb + unat n + (pb_used pb - unat n)) mod 1023"
    by (rule mod_add_left_eq)
  also have "pb_get pb + unat n + (pb_used pb - unat n) = pb_get pb + pb_used pb" using n by simp
  finally have "((pb_get pb + unat n) mod 1023 + (pb_used pb - unat n)) mod 1023 = pb_put pb"
    using put_index [OF ok] by simp
  moreover have "pb_used pb - unat n < 1023" "pb_put pb < 1023" using pb_used_le [OF ok] pf(1,7) by simp_all
  ultimately have "(pb_put pb + 1023 - (pb_get pb + unat n) mod 1023) mod 1023 = pb_used pb - unat n"
    using used_iff [of "pb_used pb - unat n" "(pb_get pb + unat n) mod 1023" "pb_put pb"] by simp
  then have used': "pb_used ?pb = pb_used pb - unat n"
    unfolding pb_used_def [of ?pb] put' get' .
  have "pb_slots ?pb = pb_slots pb" by (simp add: pb_slots_def same)
  then show "pb_contents ?pb = drop (unat n) (pb_contents pb)"
    using ring_drop [OF n, of "pb_slots pb" "pb_get pb"] by (simp add: pb_contents_def get' used')
qed

lemma length_pb_contents [simp]: "length (pb_contents pb) = pb_used pb"
  by (simp add: pb_contents_def)

interpretation pb: slot_ring pb_ok pb_contents 1022 "\<lambda>(a, b). host1x_pushbuffer_push a b"
  "\<lambda>n. host1x_pushbuffer_pop (of_nat n)" "\<lambda>pb. unat (host1x_pushbuffer_space pb)"
proof unfold_locales
  fix r :: push_buffer and x :: "u32 \<times> u32" and n :: nat
  assume ok: "pb_ok r"
  show "unat (host1x_pushbuffer_space r) + length (pb_contents r) = 1022"
    using space_eq [OF ok] by simp
  show "pb_ok ((case x of (a, b) \<Rightarrow> host1x_pushbuffer_push a b) r) \<and>
      pb_contents ((case x of (a, b) \<Rightarrow> host1x_pushbuffer_push a b) r) = pb_contents r @ [x]"
    if "length (pb_contents r) < 1022"
    using push_ok [OF ok] that by (cases x) simp
  show "pb_ok (host1x_pushbuffer_pop (of_nat n) r) \<and> pb_contents (host1x_pushbuffer_pop (of_nat n) r) = drop n (pb_contents r)"
    if n: "n \<le> length (pb_contents r)"
  proof -
    have "n \<le> 1022" using n pb_used_le [OF ok] by simp
    then have "unat (of_nat n :: u32) = n" by (simp add: unat_of_nat)
    then show ?thesis using pop_ok [OF ok, of "of_nat n"] n by simp
  qed
qed

end
