(* ===== verification/Host1x_Cdma_Facts.thy ===== *)
theory Host1x_Cdma_Facts imports Host1x_Ring begin

text \<open>
  Command DMA as its users see it: the ring holds, in order, the commands of the pending jobs and of the
  job being submitted; finished jobs leave at the front; the timeout handler ends the job that is stuck.
\<close>

section \<open>What register accesses leave alone\<close>

lemma ch_writel_fields [simp]:
  "cd_pb (host1x_ch_writel v r c) = cd_pb c" "cd_queue (host1x_ch_writel v r c) = cd_queue c"
  "cd_done (host1x_ch_writel v r c) = cd_done c" "cd_host (host1x_ch_writel v r c) = cd_host c"
  "cd_slots_used (host1x_ch_writel v r c) = cd_slots_used c" "cd_slots_free (host1x_ch_writel v r c) = cd_slots_free c"
  "cd_first_get (host1x_ch_writel v r c) = cd_first_get c" "cd_event (host1x_ch_writel v r c) = cd_event c"
  "cd_running (host1x_ch_writel v r c) = cd_running c" "cd_last_pos (host1x_ch_writel v r c) = cd_last_pos c"
  "cd_timeout_client (host1x_ch_writel v r c) = cd_timeout_client c" "cd_torndown (host1x_ch_writel v r c) = cd_torndown c"
  "cd_timeout_syncpt (host1x_ch_writel v r c) = cd_timeout_syncpt c" "cd_timeout_val (host1x_ch_writel v r c) = cd_timeout_val c"
  by (simp_all add: host1x_ch_writel_def)

lemma on_host_fields [simp]:
  "cd_pb (on_host f c) = cd_pb c" "cd_queue (on_host f c) = cd_queue c" "cd_done (on_host f c) = cd_done c"
  "cd_host (on_host f c) = f (cd_host c)" "cd_slots_used (on_host f c) = cd_slots_used c"
  "cd_slots_free (on_host f c) = cd_slots_free c" "cd_first_get (on_host f c) = cd_first_get c"
  "cd_event (on_host f c) = cd_event c" "cd_running (on_host f c) = cd_running c" "cd_last_pos (on_host f c) = cd_last_pos c"
  "cd_timeout_client (on_host f c) = cd_timeout_client c" "cd_torndown (on_host f c) = cd_torndown c"
  "cd_timeout_syncpt (on_host f c) = cd_timeout_syncpt c" "cd_timeout_val (on_host f c) = cd_timeout_val c"
  by (simp_all add: on_host_def)

text \<open>The part of the state that concerns jobs and the submission that is under way.\<close>

definition same_jobs :: "host1x_cdma \<Rightarrow> host1x_cdma \<Rightarrow> bool" where
  "same_jobs c c' \<longleftrightarrow> cd_pb c' = cd_pb c \<and> cd_queue c' = cd_queue c \<and> cd_done c' = cd_done c \<and>
     cd_slots_used c' = cd_slots_used c \<and> cd_slots_free c' = cd_slots_free c \<and> cd_first_get c' = cd_first_get c"

lemma same_jobs_flush: "same_jobs c (cdma_flush c)"
  by (simp add: same_jobs_def cdma_flush_def)

lemma same_jobs_start: "same_jobs c (cdma_start c)"
  by (simp add: same_jobs_def cdma_start_def write_window_def write_end_def Let_def)

section \<open>Jobs and their slots\<close>

text \<open>The jobs of a queue lie one behind the other from slot \<open>g\<close> on.\<close>

fun placed :: "nat \<Rightarrow> (u32 \<times> u32) list list \<Rightarrow> host1x_job list \<Rightarrow> bool" where
  "placed g [] [] \<longleftrightarrow> True"
| "placed g (b # bs) (j # js) \<longleftrightarrow>
     unat (j_first_get j) = 8 * g \<and> unat (j_num_slots j) = length b \<and> placed ((g + length b) mod 1023) bs js"
| "placed g _ _ \<longleftrightarrow> False"

lemma placed_length: "placed g bs js \<Longrightarrow> length js = length bs"
  by (induction g bs js rule: placed.induct) auto

lemma placed_snoc:
  "placed g bs js \<Longrightarrow> g < 1023 \<Longrightarrow> unat (j_first_get j) = 8 * ((g + length (concat bs)) mod 1023) \<Longrightarrow>
    unat (j_num_slots j) = length b \<Longrightarrow> placed g (bs @ [b]) (js @ [j])"
  by (induction g bs js rule: placed.induct) (simp_all add: mod_simps add.assoc)

text \<open>\<open>bs\<close>: the commands of the pending jobs; \<open>cur\<close>: those pushed so far for the next one.\<close>

definition cdma_holds :: "host1x_cdma \<Rightarrow> (u32 \<times> u32) list list \<Rightarrow> (u32 \<times> u32) list \<Rightarrow> bool" where
  "cdma_holds c bs cur \<longleftrightarrow> pb.holds (cd_pb c) bs cur \<and> placed (pb_get (cd_pb c)) bs (cd_queue c)"

lemma holds_same: "same_jobs c c' \<Longrightarrow> cdma_holds c' bs cur \<longleftrightarrow> cdma_holds c bs cur"
  by (simp add: same_jobs_def cdma_holds_def)

text \<open>\<open>k\<close> jobs at the front have ended.\<close>

definition retired :: "nat \<Rightarrow> host1x_cdma \<Rightarrow> host1x_cdma \<Rightarrow> bool" where
  "retired k c c' \<longleftrightarrow> k \<le> length (cd_queue c) \<and> cd_queue c' = drop k (cd_queue c) \<and>
     cd_done c' = cd_done c @ take k (cd_queue c) \<and> cd_slots_used c' = cd_slots_used c \<and>
     cd_slots_free c' = cd_slots_free c \<and> cd_first_get c' = cd_first_get c \<and> pb_pos (cd_pb c') = pb_pos (cd_pb c)"

lemma retired_same: "same_jobs c c' \<Longrightarrow> retired 0 c c'"
  by (simp add: same_jobs_def retired_def)

lemma retired_trans: "retired k c c' \<Longrightarrow> retired l c' c'' \<Longrightarrow> retired (k + l) c c''"
  by (auto simp: retired_def take_add add.commute)


section \<open>Finished jobs leave\<close>

definition finished :: "host1x_job list \<Rightarrow> host1x_cdma \<Rightarrow> nat" where
  "finished jobs c = length (takeWhile (\<lambda>j. job_finished j c) jobs)"

lemma finished_simps [simp]:
  "finished [] c = 0"
  "finished (j # js) c = (if job_finished j c then Suc (finished js c) else 0)"
  by (simp_all add: finished_def)

lemma finished_cong: "cd_host c' = cd_host c \<Longrightarrow> finished js c' = finished js c"
  unfolding finished_def job_finished_def by simp

lemma timer_fields [simp]:
  "cd_pb (cdma_start_timer_locked j c) = cd_pb c" "cd_done (cdma_start_timer_locked j c) = cd_done c"
  "cd_host (cdma_start_timer_locked j c) = cd_host c" "cd_slots_used (cdma_start_timer_locked j c) = cd_slots_used c"
  "cd_slots_free (cdma_start_timer_locked j c) = cd_slots_free c" "cd_first_get (cdma_start_timer_locked j c) = cd_first_get c"
  "cd_event (cdma_start_timer_locked j c) = cd_event c" "cd_queue (cdma_start_timer_locked j c) = cd_queue c"
  by (simp_all add: cdma_start_timer_locked_def)

lemma update_queue_retires:
  assumes "pb.holds (cd_pb c) bs cur" and "placed (pb_get (cd_pb c)) bs jobs" and "update_queue jobs s c = (s', c')"
  shows "cd_queue c' = drop (finished jobs c) jobs \<and> cd_done c' = cd_done c @ take (finished jobs c) jobs \<and>
    cd_slots_used c' = cd_slots_used c \<and> cd_slots_free c' = cd_slots_free c \<and> cd_first_get c' = cd_first_get c \<and>
    cd_host c' = cd_host c \<and> cd_event c' = cd_event c \<and> pb_pos (cd_pb c') = pb_pos (cd_pb c) \<and>
    pb.holds (cd_pb c') (drop (finished jobs c) bs) cur \<and>
    placed (pb_get (cd_pb c')) (drop (finished jobs c) bs) (drop (finished jobs c) jobs) \<and>
    (s' \<longleftrightarrow> s \<or> cd_event c = CDMA_EVENT_PUSH_BUFFER_SPACE \<and> (\<exists>j \<in> set (take (finished jobs c) jobs). j_num_slots j \<noteq> 0))"
  using assms
proof (induction jobs arbitrary: s c bs)
  case Nil
  then show ?case by (cases bs) auto
next
  case (Cons job jobs)
  obtain b bs' where bs: "bs = b # bs'" "unat (j_num_slots job) = length b"
      "placed ((pb_get (cd_pb c) + length b) mod 1023) bs' jobs"
    using Cons.prems(2) by (cases bs) auto
  show ?case
  proof (cases "job_finished job c")
    case False
    then show ?thesis using Cons.prems by auto
  next
    case True
    let ?c1 = "if cd_timeout_client c \<noteq> None then stop_cdma_timer_locked c else c"
    let ?pop = "host1x_pushbuffer_pop (j_num_slots job) (cd_pb c)"
    define s2 where "s2 = (s \<or> j_num_slots job \<noteq> 0 \<and> cd_event c = CDMA_EVENT_PUSH_BUFFER_SPACE)"
    define c2 where "c2 = (if j_num_slots job \<noteq> 0 then ?c1\<lparr>cd_pb := ?pop\<rparr> else ?c1)\<lparr>cd_done := cd_done c @ [job]\<rparr>"
    have n: "j_num_slots job = of_nat (length b)" using bs(2) by (metis of_nat_unat ucast_id unsigned_def)
    have b0: "b = []" if "j_num_slots job = 0" using that bs(2) by simp
    have h: "pb.holds ?pop bs' cur" using pb.holds_retire [of "cd_pb c" b bs' cur] Cons.prems(1) bs(1) n by simp
    have used: "unat (j_num_slots job) \<le> pb_used (cd_pb c)"
      using Cons.prems(1) bs by (simp add: pb.holds_def flip: length_pb_contents)
    have "pb_get ?pop = (pb_get (cd_pb c) + length b) mod 1023"
      using pop_ok(3) [OF _ used] Cons.prems(1) bs(2) by (simp add: pb.holds_def)
    then have pl: "placed (pb_get (cd_pb c2)) bs' jobs"
      using bs(3) b0 by (cases "j_num_slots job = 0") (auto simp: c2_def stop_cdma_timer_locked_def pb_get_def)
    have hold: "pb.holds (cd_pb c2) bs' cur"
      using h b0 Cons.prems(1) bs(1) by (cases "j_num_slots job = 0") (auto simp: c2_def stop_cdma_timer_locked_def pb.holds_def)
    have f: "cd_host c2 = cd_host c" "cd_event c2 = cd_event c" "cd_done c2 = cd_done c @ [job]"
        "cd_slots_used c2 = cd_slots_used c" "cd_slots_free c2 = cd_slots_free c" "cd_first_get c2 = cd_first_get c"
        "pb_pos (cd_pb c2) = pb_pos (cd_pb c)"
      by (auto simp: c2_def stop_cdma_timer_locked_def host1x_pushbuffer_pop_def Let_def)
    have "update_queue (job # jobs) s c = update_queue jobs s2 c2"
      using True by (auto simp: c2_def s2_def stop_cdma_timer_locked_def Let_def)
    then have up: "update_queue jobs s2 c2 = (s', c')" using Cons.prems(3) by simp
    note IH = Cons.IH [OF hold pl up, unfolded finished_cong [OF f(1)] f]
    show ?thesis using IH True by (auto simp: bs(1) s2_def)
  qed
qed

text \<open>One run of the update.\<close>

lemma update_retires:
  assumes "cdma_holds c bs cur"
  shows "retired (finished (cd_queue c) c) c (update_cdma_locked c) \<and>
    cdma_holds (update_cdma_locked c) (drop (finished (cd_queue c) c) bs) cur \<and>
    cd_host (update_cdma_locked c) = cd_host c \<and>
    (cd_event (update_cdma_locked c) = CDMA_EVENT_NONE \<longleftrightarrow>
       cd_event c = CDMA_EVENT_NONE \<or>
       cd_event c = CDMA_EVENT_PUSH_BUFFER_SPACE \<and> (\<exists>j \<in> set (take (finished (cd_queue c) c) (cd_queue c)). j_num_slots j \<noteq> 0) \<or>
       cd_event c = CDMA_EVENT_SYNC_QUEUE_EMPTY \<and> finished (cd_queue c) c = length (cd_queue c))"
proof -
  obtain s c1 where u: "update_queue (cd_queue c) False c = (s, c1)" by fastforce
  have k: "finished (cd_queue c) c \<le> length (cd_queue c)" by (simp add: finished_def length_takeWhile_le)
  have p: "pb.holds (cd_pb c) bs cur" "placed (pb_get (cd_pb c)) bs (cd_queue c)" using assms by (simp_all add: cdma_holds_def)
  note r = update_queue_retires [OF p u]
  let ?sig = "s \<or> cd_event c1 = CDMA_EVENT_SYNC_QUEUE_EMPTY \<and> cd_queue c1 = []"
  have e: "update_cdma_locked c = (if ?sig then c1\<lparr>cd_event := CDMA_EVENT_NONE\<rparr> else c1)"
    by (simp add: update_cdma_locked_def u)
  have "retired (finished (cd_queue c) c) c (update_cdma_locked c)" using r k by (simp add: retired_def e)
  moreover have "cdma_holds (update_cdma_locked c) (drop (finished (cd_queue c) c) bs) cur"
    using r by (simp add: cdma_holds_def e)
  moreover have "cd_event (update_cdma_locked c) = CDMA_EVENT_NONE \<longleftrightarrow> ?sig \<or> cd_event c = CDMA_EVENT_NONE"
  proof -
    have "cd_event c1 = cd_event c" using r by blast
    then show ?thesis by (auto simp: e)
  qed
  moreover have "cd_queue c1 = [] \<longleftrightarrow> finished (cd_queue c) c = length (cd_queue c)" using r k by auto
  ultimately show ?thesis using r by (auto simp: e)
qed

lemma env_retires:
  assumes "cdma_holds c bs cur"
  shows "\<exists>k. retired k c (env_step e c) \<and> cdma_holds (env_step e c) (drop k bs) cur"
proof -
  let ?d = "on_host (\<lambda>h. snd (host1x_syncpt_load (fst e) (hw_value (fst e) (snd e) h))) c"
  have s: "same_jobs c ?d" by (simp add: same_jobs_def)
  have h: "cdma_holds ?d bs cur" using assms holds_same [OF s] by simp
  have "env_step e c = update_cdma_locked ?d" by (simp add: env_step_def cdma_update_work_def split_beta)
  moreover have "retired (0 + finished (cd_queue ?d) ?d) c (update_cdma_locked ?d)"
    using retired_trans [OF retired_same [OF s]] update_retires [OF h] by blast
  ultimately show ?thesis using update_retires [OF h] by auto
qed

section \<open>Waiting and pushing\<close>

lemma retired_bound: "retired k c c' \<Longrightarrow> cdma_holds c bs cur \<Longrightarrow> k \<le> length bs"
  by (auto simp: retired_def cdma_holds_def dest: placed_length)

text \<open>While the lock is open only finished jobs leave.\<close>

definition retires :: "host1x_cdma \<Rightarrow> (u32 \<times> u32) list list \<Rightarrow> (u32 \<times> u32) list \<Rightarrow> host1x_cdma \<Rightarrow> bool" where
  "retires c bs cur c' \<longleftrightarrow> (\<exists>k. retired k c c' \<and> cdma_holds c' (drop k bs) cur)"

lemma retiresE:
  assumes "retires c bs cur c'"
  obtains k where "retired k c c'" "cdma_holds c' (drop k bs) cur"
  using assms by (auto simp: retires_def)

lemma retires_then:
  assumes "retires c bs cur c1" and "\<And>bs. cdma_holds c1 bs cur \<Longrightarrow> retires c1 bs cur c2"
  shows "retires c bs cur c2"
proof -
  obtain k where k: "retired k c c1" "cdma_holds c1 (drop k bs) cur" using assms(1) by (rule retiresE)
  obtain l where l: "retired l c1 c2" "cdma_holds c2 (drop l (drop k bs)) cur"
    using assms(2) [OF k(2)] by (rule retiresE)
  have "drop l (drop k bs) = drop (k + l) bs" by (simp add: add.commute)
  then show ?thesis using retired_trans [OF k(1) l(1)] l(2) unfolding retires_def by metis
qed

lemma retires_same: "same_jobs c c' \<Longrightarrow> cdma_holds c bs cur \<Longrightarrow> retires c bs cur c'"
  using retired_same holds_same unfolding retires_def by (metis drop0)

lemma retires_env: "cdma_holds c bs cur \<Longrightarrow> retires c bs cur (env_step e c)"
  using env_retires unfolding retires_def by blast

lemma retires_complete: "wait_for_complete es c = Some (c', es') \<Longrightarrow> cdma_holds c bs cur \<Longrightarrow> retires c bs cur c'"
proof (induction es arbitrary: c bs)
  case (Cons e es)
  show ?case
  proof (cases "cd_event (env_step e c) = CDMA_EVENT_NONE")
    case True
    then have "env_step e c = c'" using Cons.prems(1) by simp
    then show ?thesis using retires_env [OF Cons.prems(2), of e] by simp
  next
    case False
    then have "wait_for_complete es (env_step e c) = Some (c', es')" using Cons.prems(1) by simp
    then show ?thesis using retires_then [OF retires_env [OF Cons.prems(2)] Cons.IH] by blast
  qed
qed simp

lemma same_event: "same_jobs c (c\<lparr>cd_event := ev\<rparr>)"
  by (simp add: same_jobs_def)

lemma wait_locked_retires:
  "host1x_cdma_wait_locked ev es c = Some (sp, c', es') \<Longrightarrow> cdma_holds c bs cur \<Longrightarrow>
    retires c bs cur c' \<and> sp = event_space ev c' \<and> sp \<noteq> 0"
proof (induction ev es c arbitrary: bs rule: host1x_cdma_wait_locked.induct)
  case (1 ev es c)
  note run = "1.prems"(1) [unfolded host1x_cdma_wait_locked.simps [of ev es c]]
  show ?case
  proof (cases "event_space ev c \<noteq> 0")
    case True
    then show ?thesis using run retires_same [of c c] "1.prems"(2) by (auto simp: same_jobs_def Let_def)
  next
    case False
    show ?thesis
    proof (cases "cd_event c = CDMA_EVENT_NONE")
      case True
      obtain c1 es1 where w: "wait_for_complete es (c\<lparr>cd_event := ev\<rparr>) = Some (c1, es1)"
          "host1x_cdma_wait_locked ev es1 c1 = Some (sp, c', es')"
        using run False True by (auto simp: Let_def split: option.splits prod.splits)
      have r1: "retires c bs cur c1"
        by (rule retires_then [OF retires_same [OF same_event "1.prems"(2)] retires_complete [OF w(1)]])
      have IH: "retires c1 bs cur c' \<and> sp = event_space ev c' \<and> sp \<noteq> 0" if "cdma_holds c1 bs cur" for bs
        using "1.IH"(2) [OF refl] False True w that by auto
      obtain k where "cdma_holds c1 (drop k bs) cur" using r1 by (rule retiresE)
      then show ?thesis using retires_then [OF r1] IH by blast
    next
      case ev: False
      obtain e es1 where w: "es = e # es1" "host1x_cdma_wait_locked ev es1 (env_step e c) = Some (sp, c', es')"
        using run False ev by (auto simp: Let_def split: list.splits)
      have r1: "retires c bs cur (env_step e c)" by (rule retires_env [OF "1.prems"(2)])
      have IH: "retires (env_step e c) bs cur c' \<and> sp = event_space ev c' \<and> sp \<noteq> 0" if "cdma_holds (env_step e c) bs cur" for bs
        using "1.IH"(1) [OF refl] False ev w that by auto
      obtain k where "cdma_holds (env_step e c) (drop k bs) cur" using r1 by (rule retiresE)
      then show ?thesis using retires_then [OF r1] IH by blast
    qed
  qed
qed

text \<open>A submission that has pushed \<open>cur\<close> so far, and knows of some of the free slots.\<close>

definition submitting :: "host1x_cdma \<Rightarrow> (u32 \<times> u32) list list \<Rightarrow> (u32 \<times> u32) list \<Rightarrow> bool" where
  "submitting c bs cur \<longleftrightarrow> cdma_holds c bs cur \<and> unat (cd_slots_used c) = length cur \<and>
     unat (cd_slots_free c) \<le> unat (host1x_pushbuffer_space (cd_pb c)) \<and>
     (\<exists>g < 1023. unat (cd_first_get c) = 8 * g \<and> (g + length cur) mod 1023 = pb_put (cd_pb c))"

lemma space_u32: "cdma_holds c bs cur \<Longrightarrow> unat (host1x_pushbuffer_space (cd_pb c)) + length (concat bs) + length cur = 1022"
  using pb.holds_space [of "cd_pb c" bs cur] by (simp add: cdma_holds_def)

lemma retires_submitting:
  assumes "submitting c bs cur" and "retires c bs cur c'"
  obtains k where "retired k c c'" "cdma_holds c' (drop k bs) cur" "submitting c' (drop k bs) cur"
proof -
  obtain k where k: "retired k c c'" "cdma_holds c' (drop k bs) cur" using assms(2) by (rule retiresE)
  have "length (concat (drop k bs)) \<le> length (concat bs)"
    by (metis append_take_drop_id concat_append le_add2 length_append)
  then have "unat (host1x_pushbuffer_space (cd_pb c)) \<le> unat (host1x_pushbuffer_space (cd_pb c'))"
    using space_u32 [OF k(2)] space_u32 [of c bs cur] assms(1) by (simp add: submitting_def)
  then have "submitting c' (drop k bs) cur"
    using assms(1) k by (auto simp: submitting_def retired_def pb_put_def)
  then show ?thesis using that k by blast
qed

text \<open>\<open>k\<close> jobs have left the queue, seen from outside of the ring.\<close>

definition jobs_ended :: "nat \<Rightarrow> host1x_cdma \<Rightarrow> host1x_cdma \<Rightarrow> bool" where
  "jobs_ended k c c' \<longleftrightarrow> k \<le> length (cd_queue c) \<and> cd_queue c' = drop k (cd_queue c) \<and>
     cd_done c' = cd_done c @ take k (cd_queue c) \<and> cd_first_get c' = cd_first_get c"

lemma jobs_ended_trans: "jobs_ended k c c' \<Longrightarrow> jobs_ended l c' c'' \<Longrightarrow> jobs_ended (k + l) c c''"
  by (auto simp: jobs_ended_def take_add add.commute)

text \<open>A push appends to the commands of the submission; jobs may have ended meanwhile.\<close>

lemma push_submitting:
  assumes sub: "submitting c bs cur" and run: "host1x_cdma_push a b es c = Some (c', es')"
  shows "\<exists>k. jobs_ended k c c' \<and> submitting c' (drop k bs) (cur @ [(a, b)]) \<and> pb_put (cd_pb c') = Suc (pb_put (cd_pb c)) mod 1023"
proof -
  obtain free c1 where c1: "(if cd_slots_free c = 0 then host1x_cdma_wait_locked CDMA_EVENT_PUSH_BUFFER_SPACE es (cdma_flush c)
        else Some (cd_slots_free c, c, es)) = Some (free, c1, es')"
      "c' = c1\<lparr>cd_slots_free := free - 1, cd_slots_used := cd_slots_used c1 + 1,
             cd_pb := host1x_pushbuffer_push a b (cd_pb c1)\<rparr>"
    using run by (auto simp: host1x_cdma_push_def bind_eq_Some_conv)
  have hold: "cdma_holds c bs cur" using sub by (simp add: submitting_def)
  have flush: "retires c bs cur (cdma_flush c)" by (rule retires_same [OF same_jobs_flush hold])
  have "retires c bs cur c1 \<and> free \<noteq> 0 \<and> unat free \<le> unat (host1x_pushbuffer_space (cd_pb c1))"
  proof (cases "cd_slots_free c = 0")
    case True
    then have w: "host1x_cdma_wait_locked CDMA_EVENT_PUSH_BUFFER_SPACE es (cdma_flush c) = Some (free, c1, es')" using c1(1) by simp
    have hf: "cdma_holds (cdma_flush c) bs cur" using hold holds_same [OF same_jobs_flush] by simp
    show ?thesis using wait_locked_retires [OF w hf] retires_then [OF flush] wait_locked_retires [OF w]
      by (auto simp: event_space_def)
  next
    case False
    then show ?thesis using c1(1) sub retires_same [of c c] hold by (auto simp: submitting_def same_jobs_def)
  qed
  then have r: "retires c bs cur c1" and free: "free \<noteq> 0" "unat free \<le> unat (host1x_pushbuffer_space (cd_pb c1))" by auto
  obtain k where k: "retired k c c1" "cdma_holds c1 (drop k bs) cur" "submitting c1 (drop k bs) cur"
    using retires_submitting [OF sub r] by blast
  have space: "unat (host1x_pushbuffer_space (cd_pb c1)) \<noteq> 0" using free by (metis le_zero_eq unat_eq_0)
  have ok: "pb_ok (cd_pb c1)" using k(2) by (simp add: cdma_holds_def pb.holds_def)
  have used: "pb_used (cd_pb c1) < 1022" using space_eq [OF ok] space by linarith
  have h': "pb.holds (cd_pb c') (drop k bs) (cur @ [(a, b)])"
    using pb.holds_push [of "cd_pb c1" "drop k bs" cur "(a, b)"] k(2) space c1(2) by (simp add: cdma_holds_def)
  have hold': "cdma_holds c' (drop k bs) (cur @ [(a, b)])"
    using h' k(2) push_ok(3) [OF ok used] c1(2) by (simp add: cdma_holds_def)
  have "length cur + 1 < 2 ^ 32" using space_u32 [OF k(2)] by simp
  then have used': "unat (cd_slots_used c') = length cur + 1"
    using k(3) c1(2) by (simp add: submitting_def unat_add_no_wrap)
  have "unat (free - 1) = unat free - 1"
    using free(1) by (metis One_nat_def Suc_leI neq0_conv unat_1 unat_gt_0 unat_sub_le)
  moreover have "unat (host1x_pushbuffer_space (cd_pb c')) = unat (host1x_pushbuffer_space (cd_pb c1)) - 1"
    using space_u32 [OF hold'] space_u32 [OF k(2)] by simp
  ultimately have free': "unat (cd_slots_free c') \<le> unat (host1x_pushbuffer_space (cd_pb c'))"
    using free(2) c1(2) by simp
  have put': "pb_put (cd_pb c') = Suc (pb_put (cd_pb c1)) mod 1023"
    using push_put [OF ok used] c1(2) by simp
  obtain g where g: "g < 1023" "unat (cd_first_get c1) = 8 * g" "(g + length cur) mod 1023 = pb_put (cd_pb c1)"
    using k(3) by (auto simp: submitting_def)
  have "(g + length (cur @ [(a, b)])) mod 1023 = pb_put (cd_pb c')"
    unfolding put' g(3) [symmetric] by (simp add: mod_simps)
  then have "submitting c' (drop k bs) (cur @ [(a, b)])"
    using hold' used' free' g c1(2) by (auto simp: submitting_def)
  moreover have "jobs_ended k c c'" using k(1) c1(2) by (simp add: retired_def jobs_ended_def)
  moreover have "pb_put (cd_pb c1) = pb_put (cd_pb c)" using k(1) by (simp add: retired_def pb_put_def)
  ultimately show ?thesis using put' by metis
qed

text \<open>The wide push waits for its whole space, so its slots are pushed at once.\<close>

lemma append_slot:
  assumes sub: "submitting c bs cur" and space: "host1x_pushbuffer_space (cd_pb c) \<noteq> 0"
    and c': "cd_pb c' = host1x_pushbuffer_push a b (cd_pb c)" "cd_queue c' = cd_queue c" "cd_first_get c' = cd_first_get c"
      "unat (cd_slots_used c') = Suc (length cur)" "unat (cd_slots_free c') < unat (host1x_pushbuffer_space (cd_pb c))"
  shows "submitting c' bs (cur @ [(a, b)])" and "pb_put (cd_pb c') = Suc (pb_put (cd_pb c)) mod 1023"
proof -
  have hold: "cdma_holds c bs cur" using sub by (simp add: submitting_def)
  have ok: "pb_ok (cd_pb c)" using hold by (simp add: cdma_holds_def pb.holds_def)
  have sp: "unat (host1x_pushbuffer_space (cd_pb c)) \<noteq> 0" using space by (metis unat_eq_zero)
  have used: "pb_used (cd_pb c) < 1022" using space_eq [OF ok] sp by linarith
  have hold': "cdma_holds c' bs (cur @ [(a, b)])"
    using pb.holds_push [of "cd_pb c" bs cur "(a, b)"] hold sp push_ok(3) [OF ok used] c' by (simp add: cdma_holds_def)
  show put': "pb_put (cd_pb c') = Suc (pb_put (cd_pb c)) mod 1023" using push_put [OF ok used] c'(1) by simp
  obtain g where g: "g < 1023" "unat (cd_first_get c) = 8 * g" "(g + length cur) mod 1023 = pb_put (cd_pb c)"
    using sub by (auto simp: submitting_def)
  have "(g + length (cur @ [(a, b)])) mod 1023 = pb_put (cd_pb c')"
    unfolding put' g(3) [symmetric] by (simp add: mod_simps)
  then show "submitting c' bs (cur @ [(a, b)])"
    using hold' c' g space_u32 [OF hold'] space_u32 [OF hold] by (auto simp: submitting_def)
qed

lemma append_slots:
  assumes "submitting c bs cur" "length ws \<le> unat (host1x_pushbuffer_space (cd_pb c))"
    and "cd_pb c' = fold (\<lambda>(a, b). host1x_pushbuffer_push a b) ws (cd_pb c)"
    and "cd_queue c' = cd_queue c" "cd_first_get c' = cd_first_get c"
    and "unat (cd_slots_used c') = length cur + length ws"
    and "unat (cd_slots_free c') + length ws \<le> unat (host1x_pushbuffer_space (cd_pb c))"
  shows "submitting c' bs (cur @ ws) \<and> pb_put (cd_pb c') = (pb_put (cd_pb c) + length ws) mod 1023"
  using assms
proof (induction ws arbitrary: c cur)
  case Nil
  have "pb_put (cd_pb c) < 1023" using Nil(1) by (auto simp: submitting_def)
  then show ?case using Nil by (auto simp: submitting_def cdma_holds_def pb.holds_def)
next
  case (Cons w ws)
  obtain a b where w: "w = (a, b)" by fastforce
  define s where "s = c\<lparr>cd_pb := host1x_pushbuffer_push a b (cd_pb c), cd_slots_used := of_nat (Suc (length cur)),
    cd_slots_free := cd_slots_free c'\<rparr>"
  have hold: "cdma_holds c bs cur" using Cons.prems(1) by (simp add: submitting_def)
  have small: "Suc (length cur) < 2 ^ 32" using space_u32 [OF hold] Cons.prems(2) by simp
  have u: "unat (cd_slots_used s) = Suc (length cur)"
    unfolding s_def using small by (simp add: unat_of_nat del: of_nat_Suc)
  have ne: "host1x_pushbuffer_space (cd_pb c) \<noteq> 0" using Cons.prems(2) by auto
  have s: "cd_pb s = host1x_pushbuffer_push a b (cd_pb c)" "cd_queue s = cd_queue c" "cd_first_get s = cd_first_get c"
      "unat (cd_slots_free s) < unat (host1x_pushbuffer_space (cd_pb c))"
    using Cons.prems(7) by (simp_all add: s_def)
  have sub: "submitting s bs (cur @ [(a, b)])" and put: "pb_put (cd_pb s) = Suc (pb_put (cd_pb c)) mod 1023"
    using append_slot [OF Cons.prems(1) ne s(1-3) u s(4)] by auto
  have hold': "cdma_holds s bs (cur @ [(a, b)])" using sub by (simp add: submitting_def)
  have sp: "unat (host1x_pushbuffer_space (cd_pb s)) = unat (host1x_pushbuffer_space (cd_pb c)) - 1"
    using space_u32 [OF hold] space_u32 [OF hold'] by simp
  have "submitting c' bs ((cur @ [(a, b)]) @ ws) \<and> pb_put (cd_pb c') = (pb_put (cd_pb s) + length ws) mod 1023"
    using Cons.prems sp [unfolded s(1)] by (intro Cons.IH [OF sub]) (simp_all add: s(1-3) w)
  then show ?case using put by (simp add: w mod_simps)
qed

lemma wait_space_retires:
  "host1x_cdma_wait_pushbuffer_space n es c = Some (c', es') \<Longrightarrow> cdma_holds c bs cur \<Longrightarrow>
    retires c bs cur c' \<and> n \<le> host1x_pushbuffer_space (cd_pb c')"
proof (induction n es c arbitrary: bs rule: host1x_cdma_wait_pushbuffer_space.induct)
  case (1 n es c)
  note run = "1.prems"(1) [unfolded host1x_cdma_wait_pushbuffer_space.simps [of n es c]]
  show ?case
  proof (cases "n \<le> host1x_pushbuffer_space (cd_pb c)")
    case True
    then show ?thesis using run retires_same [of c c] "1.prems"(2) by (auto simp: same_jobs_def)
  next
    case False
    have fl: "retires c bs cur (cdma_flush c)" by (rule retires_same [OF same_jobs_flush "1.prems"(2)])
    show ?thesis
    proof (cases "cd_event (cdma_flush c) = CDMA_EVENT_NONE")
      case True
      obtain c1 es1 where w: "wait_for_complete es ((cdma_flush c)\<lparr>cd_event := CDMA_EVENT_PUSH_BUFFER_SPACE\<rparr>) = Some (c1, es1)"
          "host1x_cdma_wait_pushbuffer_space n es1 c1 = Some (c', es')"
        using run False True by (auto simp: Let_def split: option.splits prod.splits)
      have r1: "retires c bs cur c1"
      proof (rule retires_then [OF fl])
        fix bs assume "cdma_holds (cdma_flush c) bs cur"
        then show "retires (cdma_flush c) bs cur c1"
          using retires_then [OF retires_same [OF same_event] retires_complete [OF w(1)]] by blast
      qed
      have IH: "retires c1 bs cur c' \<and> n \<le> host1x_pushbuffer_space (cd_pb c')" if "cdma_holds c1 bs cur" for bs
        using "1.IH"(2) [OF False refl] True w that by auto
      obtain k where "cdma_holds c1 (drop k bs) cur" using r1 by (rule retiresE)
      then show ?thesis using retires_then [OF r1] IH by blast
    next
      case ev: False
      obtain e es1 where w: "es = e # es1" "host1x_cdma_wait_pushbuffer_space n es1 (env_step e (cdma_flush c)) = Some (c', es')"
        using run False ev by (auto simp: Let_def split: list.splits)
      have r1: "retires c bs cur (env_step e (cdma_flush c))"
        using retires_then [OF fl] retires_env by blast
      have IH: "retires (env_step e (cdma_flush c)) bs cur c' \<and> n \<le> host1x_pushbuffer_space (cd_pb c')"
        if "cdma_holds (env_step e (cdma_flush c)) bs cur" for bs
        using "1.IH"(1) [OF False refl] ev w that by auto
      obtain k where "cdma_holds (env_step e (cdma_flush c)) (drop k bs) cur" using r1 by (rule retiresE)
      then show ?thesis using retires_then [OF r1] IH by blast
    qed
  qed
qed

definition wide_slots :: "nat \<Rightarrow> u32 \<Rightarrow> u32 \<Rightarrow> u32 \<Rightarrow> u32 \<Rightarrow> (u32 \<times> u32) list" where
  "wide_slots p op1 op2 op3 op4 =
     (if p = 1022 then [(push_bit 28 5, 0xdead0000)] else []) @ [(op1, op2), (op3, op4)]"

definition wide_extra :: "push_buffer \<Rightarrow> u32" where
  "wide_extra pb = (if pb_size pb < pb_pos pb + 16 then (pb_size pb - pb_pos pb) div 8 else 0)"

lemma wide_extra:
  assumes "pb_ok pb"
  shows "wide_extra pb = (if pb_put pb = 1022 then 1 else 0)"
proof -
  obtain p where p: "p < 1023" "unat (pb_pos pb) = 8 * p" "pb_put pb = p" "pb_size pb = 8184"
    using pb_okE [OF assms] by metis
  have "unat (pb_pos pb + 16) = 8 * p + 16" using p(1,2) by (subst unat_add_no_wrap) simp_all
  then have lt: "pb_size pb < pb_pos pb + 16 \<longleftrightarrow> p = 1022"
    using p(1,4) by (simp add: word_less_nat_alt) linarith
  have "(pb_size pb - pb_pos pb) div 8 = 1" if "p = 1022"
  proof -
    have "unat (pb_size pb - pb_pos pb) = 8" using p that by (subst unat_sub_le) simp_all
    then have "pb_size pb - pb_pos pb = 8" by (metis of_nat_numeral of_nat_unat ucast_id unsigned_def)
    then show ?thesis by simp
  qed
  then show ?thesis using lt p(3) by (simp add: wide_extra_def)
qed

lemma push_wide_submitting:
  assumes sub: "submitting c bs cur" and run: "host1x_cdma_push_wide op1 op2 op3 op4 es c = Some (c', es')"
  shows "\<exists>k. jobs_ended k c c' \<and> submitting c' (drop k bs) (cur @ wide_slots (pb_put (cd_pb c)) op1 op2 op3 op4) \<and>
    pb_put (cd_pb c') = (pb_put (cd_pb c) + length (wide_slots (pb_put (cd_pb c)) op1 op2 op3 op4)) mod 1023"
proof -
  have hold: "cdma_holds c bs cur" using sub by (simp add: submitting_def)
  then have ok: "pb_ok (cd_pb c)" by (simp add: cdma_holds_def pb.holds_def)
  then obtain p where p: "p < 1023" "unat (pb_pos (cd_pb c)) = 8 * p" "pb_put (cd_pb c) = p" "pb_size (cd_pb c) = 8184"
    using pb_okE by metis
  define extra :: u32 where "extra = (if p = 1022 then 1 else 0)"
  have e: "(if pb_size (cd_pb c) < pb_pos (cd_pb c) + 16 then (pb_size (cd_pb c) - pb_pos (cd_pb c)) div 8 else 0) = extra"
    using wide_extra [OF ok] by (simp add: wide_extra_def extra_def p(3))
  obtain c1 where w: "host1x_cdma_wait_pushbuffer_space (2 + extra) es c = Some (c1, es')"
    and c': "c' = (let space = host1x_pushbuffer_space (cd_pb c1);
        c = c1\<lparr>cd_slots_free := space - (2 + extra), cd_slots_used := cd_slots_used c1 + (2 + extra)\<rparr>;
        pb = (if 0 < extra then host1x_pushbuffer_push (push_bit 28 5) 0xdead0000 (cd_pb c) else cd_pb c)
      in c\<lparr>cd_pb := host1x_pushbuffer_push op3 op4 (host1x_pushbuffer_push op1 op2 pb)\<rparr>)"
    using run unfolding host1x_cdma_push_wide_def Let_def e by (auto simp: bind_eq_Some_conv)
  have r: "retires c bs cur c1" and sp: "2 + extra \<le> host1x_pushbuffer_space (cd_pb c1)"
    using wait_space_retires [OF w hold] by auto
  obtain k where k: "retired k c c1" "cdma_holds c1 (drop k bs) cur" "submitting c1 (drop k bs) cur"
    using retires_submitting [OF sub r] by blast
  let ?ws = "wide_slots p op1 op2 op3 op4"
  have len: "unat (2 + extra) = length ?ws" by (simp add: extra_def wide_slots_def)
  have spn: "length ?ws \<le> unat (host1x_pushbuffer_space (cd_pb c1))"
    using sp len by (simp add: word_le_nat_alt)
  have f: "cd_pb c' = fold (\<lambda>(a, b). host1x_pushbuffer_push a b) ?ws (cd_pb c1)"
      "cd_queue c' = cd_queue c1" "cd_first_get c' = cd_first_get c1" "cd_done c' = cd_done c1"
      "cd_slots_used c' = cd_slots_used c1 + (2 + extra)"
      "cd_slots_free c' = host1x_pushbuffer_space (cd_pb c1) - (2 + extra)"
    by (simp_all add: c' extra_def wide_slots_def Let_def)
  have "unat (cd_slots_used c') = length cur + length ?ws"
    using k(3) space_u32 [OF k(2)] spn len by (subst f(5), subst unat_add_no_wrap) (simp_all add: submitting_def)
  moreover have "unat (cd_slots_free c') + length ?ws \<le> unat (host1x_pushbuffer_space (cd_pb c1))"
    using unat_sub_le [of "2 + extra" "host1x_pushbuffer_space (cd_pb c1)"] sp len spn
    by (simp add: f(6) word_le_nat_alt)
  ultimately have "submitting c' (drop k bs) (cur @ ?ws) \<and> pb_put (cd_pb c') = (pb_put (cd_pb c1) + length ?ws) mod 1023"
    using append_slots [OF k(3) spn f(1-3)] by blast
  moreover have "pb_put (cd_pb c1) = pb_put (cd_pb c)" using k(1) by (simp add: retired_def pb_put_def)
  moreover have "jobs_ended k c c'" using k(1) f by (simp add: retired_def jobs_ended_def)
  ultimately show ?thesis using p(3) by (metis (no_types, lifting))
qed

end
