(* ===== verification/Host1x_Submit.thy ===== *)
theory Host1x_Submit imports Host1x_Channel Host1x_Cdma_Facts begin

text \<open>
  Submissions from begin to end: the program a job is meant to become, as a list of pushes, and that
  \<open>channel_submit\<close> puts exactly this program behind the commands of the pending jobs.
\<close>

section \<open>Taking runs apart\<close>

lemma bind_pairE:
  assumes "m \<bind> (\<lambda>(a, b). k a b) = Some r"
  obtains a b where "m = Some (a, b)" "k a b = Some r"
  using assms by (auto simp: bind_eq_Some_conv)

lemma case_pairE:
  assumes "(case p of (a, b) \<Rightarrow> k a b) = r"
  obtains a b where "p = (a, b)" "k a b = r"
  using assms by (cases p) auto

section \<open>Lists of pushes\<close>

datatype slot_op = Narrow u32 u32 | Wide u32 u32 u32 u32

text \<open>The slots that pushes fill from slot \<open>p\<close> on.\<close>

fun slots_at :: "nat \<Rightarrow> slot_op list \<Rightarrow> (u32 \<times> u32) list" where
  "slots_at p [] = []"
| "slots_at p (Narrow a b # ops) = (a, b) # slots_at (Suc p mod 1023) ops"
| "slots_at p (Wide a b c d # ops) =
     wide_slots p a b c d @ slots_at ((p + length (wide_slots p a b c d)) mod 1023) ops"

lemma slots_at_append:
  "slots_at p (xs @ ys) = slots_at p xs @ slots_at (if xs = [] then p else (p + length (slots_at p xs)) mod 1023) ys"
  by (induction p xs rule: slots_at.induct) (auto simp: mod_simps add.assoc)

text \<open>What the host knows of the syncpoints apart from their values.\<close>

definition plan :: "host1x_cdma \<Rightarrow> nat \<times> (u32 \<times> nat option) list" where
  "plan c = (h_hw (cd_host c), map (\<lambda>sp. (sp_max sp, sp_base sp)) (h_syncpt (cd_host c)))"

lemma plan_hw: "plan c' = plan c \<Longrightarrow> h_hw (cd_host c') = h_hw (cd_host c)"
  by (simp add: plan_def)

lemma plan_length: "plan c' = plan c \<Longrightarrow> length (h_syncpt (cd_host c')) = length (h_syncpt (cd_host c))"
  by (auto simp: plan_def dest: map_eq_imp_length_eq)

lemma plan_sp:
  assumes "plan c' = plan c" and "i < length (h_syncpt (cd_host c))"
  shows "sp_max (sp_get i (cd_host c')) = sp_max (sp_get i (cd_host c)) \<and>
    sp_base (sp_get i (cd_host c')) = sp_base (sp_get i (cd_host c))"
proof -
  let ?f = "\<lambda>sp. (sp_max sp, sp_base sp)"
  have m: "map ?f (h_syncpt (cd_host c')) = map ?f (h_syncpt (cd_host c))" using assms(1) by (simp add: plan_def)
  have "map ?f (h_syncpt (cd_host c')) ! i = map ?f (h_syncpt (cd_host c)) ! i" by (simp only: m)
  then show ?thesis using assms plan_length [OF assms(1)] by (simp add: sp_get_def)
qed

lemma update_queue_rest:
  "update_queue jobs s c = (s', c') \<Longrightarrow> cd_host c' = cd_host c \<and> cd_last_pos c' = cd_last_pos c"
proof (induction jobs arbitrary: s c)
  case (Cons job jobs)
  then show ?case
    by (auto simp: Let_def stop_cdma_timer_locked_def cdma_start_timer_locked_def split: if_splits prod.splits dest!: Cons.IH)
qed auto

lemma update_rest [simp]:
  "cd_host (update_cdma_locked c) = cd_host c" "cd_last_pos (update_cdma_locked c) = cd_last_pos c"
proof -
  obtain s c1 where u: "update_queue (cd_queue c) False c = (s, c1)" by fastforce
  show "cd_host (update_cdma_locked c) = cd_host c" "cd_last_pos (update_cdma_locked c) = cd_last_pos c"
    using update_queue_rest [OF u] by (simp_all add: update_cdma_locked_def u)
qed

lemma map_update_same: "f x = f (xs ! i) \<Longrightarrow> map f (xs[i := x]) = map f xs"
  by (cases "i < length xs") (auto intro!: nth_equalityI simp: nth_list_update)

lemma plan_env [simp]: "plan (env_step e c) = plan c"
  by (cases e) (simp add: plan_def env_step_def cdma_update_work_def on_host_def host1x_syncpt_load_def Let_def
      sp_put_def sp_get_def hw_value_def map_update_same)

lemma plan_fields [simp]:
  "plan (c\<lparr>cd_event := ev\<rparr>) = plan c" "plan (c\<lparr>cd_slots_free := n\<rparr>) = plan c" "plan (c\<lparr>cd_slots_used := n\<rparr>) = plan c"
  "plan (c\<lparr>cd_pb := pb\<rparr>) = plan c" "plan (cdma_flush c) = plan c"
  by (simp_all add: plan_def cdma_flush_def)

lemma plan_complete: "wait_for_complete es c = Some (c', es') \<Longrightarrow> plan c' = plan c"
proof (induction es arbitrary: c)
  case (Cons e es)
  then show ?case by (auto simp: Let_def split: if_splits)
qed simp

lemma plan_wait_locked: "host1x_cdma_wait_locked ev es c = Some (sp, c', es') \<Longrightarrow> plan c' = plan c"
proof (induction ev es c rule: host1x_cdma_wait_locked.induct)
  case (1 ev es c)
  note run = "1.prems" [unfolded host1x_cdma_wait_locked.simps [of ev es c]]
  show ?case
  proof (cases "event_space ev c \<noteq> 0 \<or> cd_event c \<noteq> CDMA_EVENT_NONE")
    case True
    then show ?thesis using run "1.IH"(1) [OF refl] by (auto simp: Let_def split: if_splits list.splits)
  next
    case False
    then obtain c1 es1 where w: "wait_for_complete es (c\<lparr>cd_event := ev\<rparr>) = Some (c1, es1)"
        "host1x_cdma_wait_locked ev es1 c1 = Some (sp, c', es')"
      using run by (auto simp: Let_def split: option.splits)
    then show ?thesis using "1.IH"(2) [OF refl] plan_complete [OF w(1)] False by auto
  qed
qed

lemma plan_wait_space: "host1x_cdma_wait_pushbuffer_space n es c = Some (c', es') \<Longrightarrow> plan c' = plan c"
proof (induction n es c rule: host1x_cdma_wait_pushbuffer_space.induct)
  case (1 n es c)
  note run = "1.prems" [unfolded host1x_cdma_wait_pushbuffer_space.simps [of n es c]]
  show ?case
  proof (cases "n \<le> host1x_pushbuffer_space (cd_pb c) \<or> cd_event (cdma_flush c) \<noteq> CDMA_EVENT_NONE")
    case True
    then show ?thesis using run "1.IH"(1) [OF _ refl] by (auto simp: Let_def split: if_splits list.splits)
  next
    case False
    then obtain c1 es1 where w: "wait_for_complete es ((cdma_flush c)\<lparr>cd_event := CDMA_EVENT_PUSH_BUFFER_SPACE\<rparr>) = Some (c1, es1)"
        "host1x_cdma_wait_pushbuffer_space n es1 c1 = Some (c', es')"
      using run by (auto simp: Let_def split: option.splits)
    then show ?thesis using "1.IH"(2) [OF _ refl] plan_complete [OF w(1)] False by auto
  qed
qed

lemma plan_push: "host1x_cdma_push a b es c = Some (c', es') \<Longrightarrow> plan c' = plan c"
  by (auto simp: host1x_cdma_push_def bind_eq_Some_conv split: if_splits dest!: plan_wait_locked)

lemma plan_push_wide: "host1x_cdma_push_wide op1 op2 op3 op4 es c = Some (c', es') \<Longrightarrow> plan c' = plan c"
  by (auto simp: host1x_cdma_push_wide_def bind_eq_Some_conv Let_def dest!: plan_wait_space)

section \<open>From the state before to the state after\<close>

text \<open>From \<open>c\<close> to \<open>c'\<close> the pushes \<open>ops\<close> were made and the maximum of syncpoint \<open>i\<close> grew by \<open>n\<close>; finished jobs left.\<close>

definition pushed :: "nat \<Rightarrow> u32 \<Rightarrow> slot_op list \<Rightarrow> host1x_cdma \<Rightarrow> host1x_cdma \<Rightarrow> bool" where
  "pushed i n ops c c' \<longleftrightarrow>
     i < length (h_syncpt (cd_host c)) \<and> length (h_syncpt (cd_host c')) = length (h_syncpt (cd_host c)) \<and>
     h_hw (cd_host c') = h_hw (cd_host c) \<and>
     sp_max (sp_get i (cd_host c')) = sp_max (sp_get i (cd_host c)) + n \<and>
     sp_base (sp_get i (cd_host c')) = sp_base (sp_get i (cd_host c)) \<and>
     (\<forall>bs cur. submitting c bs cur \<longrightarrow>
        (\<exists>k. jobs_ended k c c' \<and> submitting c' (drop k bs) (cur @ slots_at (pb_put (cd_pb c)) ops) \<and>
           pb_put (cd_pb c') = (pb_put (cd_pb c) + length (slots_at (pb_put (cd_pb c)) ops)) mod 1023))"

lemma pushedI:
  assumes "i < length (h_syncpt (cd_host c))" and "plan c' = plan c"
    and "\<And>bs cur. submitting c bs cur \<Longrightarrow>
        \<exists>k. jobs_ended k c c' \<and> submitting c' (drop k bs) (cur @ slots_at (pb_put (cd_pb c)) ops) \<and>
           pb_put (cd_pb c') = (pb_put (cd_pb c) + length (slots_at (pb_put (cd_pb c)) ops)) mod 1023"
  shows "pushed i 0 ops c c'"
  using assms plan_hw [OF assms(2)] plan_length [OF assms(2)] plan_sp [OF assms(2,1)] by (simp add: pushed_def)

lemma pushed_facts:
  assumes "pushed i n ops c c'"
  shows "i < length (h_syncpt (cd_host c))" "i < length (h_syncpt (cd_host c'))" "h_hw (cd_host c') = h_hw (cd_host c)"
    "sp_max (sp_get i (cd_host c')) = sp_max (sp_get i (cd_host c)) + n"
    "sp_base (sp_get i (cd_host c')) = sp_base (sp_get i (cd_host c))"
  using assms by (simp_all add: pushed_def)

lemma submitting_put: "submitting c bs cur \<Longrightarrow> pb_put (cd_pb c) < 1023"
  by (auto simp: submitting_def)

lemma jobs_ended_0: "cd_queue c' = cd_queue c \<Longrightarrow> cd_done c' = cd_done c \<Longrightarrow> cd_first_get c' = cd_first_get c \<Longrightarrow> jobs_ended 0 c c'"
  by (simp add: jobs_ended_def)

lemma pushed_refl: "i < length (h_syncpt (cd_host c)) \<Longrightarrow> pushed i 0 [] c c"
proof (rule pushedI)
  fix bs cur assume s: "submitting c bs cur"
  show "\<exists>k. jobs_ended k c c \<and> submitting c (drop k bs) (cur @ slots_at (pb_put (cd_pb c)) []) \<and>
      pb_put (cd_pb c) = (pb_put (cd_pb c) + length (slots_at (pb_put (cd_pb c)) [])) mod 1023"
    using s submitting_put [OF s] by (intro exI [of _ 0]) (simp add: jobs_ended_0)
qed simp_all

lemma pushed_trans:
  assumes "pushed i n xs c c1" and "pushed i m ys c1 c2"
  shows "pushed i (n + m) (xs @ ys) c c2"
proof -
  have "\<exists>k. jobs_ended k c c2 \<and> submitting c2 (drop k bs) (cur @ slots_at (pb_put (cd_pb c)) (xs @ ys)) \<and>
      pb_put (cd_pb c2) = (pb_put (cd_pb c) + length (slots_at (pb_put (cd_pb c)) (xs @ ys))) mod 1023"
    if sub: "submitting c bs cur" for bs cur
  proof -
    let ?p = "pb_put (cd_pb c)"
    let ?q = "(?p + length (slots_at ?p xs)) mod 1023"
    obtain k where k: "jobs_ended k c c1" "submitting c1 (drop k bs) (cur @ slots_at ?p xs)" "pb_put (cd_pb c1) = ?q"
      using assms(1) sub by (auto simp: pushed_def)
    obtain l where l: "jobs_ended l c1 c2" "submitting c2 (drop l (drop k bs)) ((cur @ slots_at ?p xs) @ slots_at ?q ys)"
        "pb_put (cd_pb c2) = (?q + length (slots_at ?q ys)) mod 1023"
      using assms(2) k(2) unfolding pushed_def k(3) by metis
    have "slots_at ?p (xs @ ys) = slots_at ?p xs @ slots_at ?q ys"
      using submitting_put [OF sub] by (simp add: slots_at_append)
    then show ?thesis using jobs_ended_trans [OF k(1) l(1)] l(2,3)
      by (intro exI [of _ "k + l"]) (simp add: mod_simps add.assoc add.commute [of l k])
  qed
  then show ?thesis using assms by (simp add: pushed_def add.assoc)
qed

lemma pushed_push:
  assumes "host1x_cdma_push a b es c = Some (c', es')" and "i < length (h_syncpt (cd_host c))"
  shows "pushed i 0 [Narrow a b] c c'"
  using push_submitting [OF _ assms(1)] by (intro pushedI assms(2) plan_push [OF assms(1)]) auto

lemma pushed_push_wide:
  assumes "host1x_cdma_push_wide op1 op2 op3 op4 es c = Some (c', es')" and "i < length (h_syncpt (cd_host c))"
  shows "pushed i 0 [Wide op1 op2 op3 op4] c c'"
  using push_wide_submitting [OF _ assms(1)] by (intro pushedI assms(2) plan_push_wide [OF assms(1)]) auto

lemma pushed_incr:
  assumes "cdma_incr_max i n c = (v, c')" and "i < length (h_syncpt (cd_host c))"
  shows "pushed i n [] c c' \<and> v = sp_max (sp_get i (cd_host c)) + n"
proof -
  have c': "c' = c\<lparr>cd_host := sp_put i ((sp_get i (cd_host c))\<lparr>sp_max := sp_max (sp_get i (cd_host c)) + n\<rparr>) (cd_host c)\<rparr>"
      "v = sp_max (sp_get i (cd_host c)) + n"
    using assms(1) by (auto simp: cdma_incr_max_def host1x_syncpt_incr_max_def Let_def)
  have sub: "submitting c' bs cur" if "submitting c bs cur" for bs cur
    using that by (simp add: submitting_def cdma_holds_def c')
  have "jobs_ended 0 c c'" by (rule jobs_ended_0) (simp_all add: c')
  then have "pushed i n [] c c'" using assms(2) sub submitting_put
    by (auto simp: pushed_def c' intro!: exI [of _ 0])
  then show ?thesis using c' by simp
qed

section \<open>The program of a job\<close>

definition wait_ops :: "nat \<Rightarrow> u32 \<Rightarrow> u32 \<Rightarrow> slot_op list" where
  "wait_ops hw i threshold =
     (if 2 \<le> hw
      then [Wide (host1x_opcode_setclass HOST1X_CLASS_HOST1X HOST1X_UCLASS_LOAD_SYNCPT_PAYLOAD_32 5) threshold i HOST1X_OPCODE_NOP]
      else [Narrow (host1x_opcode_setclass HOST1X_CLASS_HOST1X host1x_uclass_wait_syncpt_r 1)
              (host1x_class_host_wait_syncpt i threshold)])"

definition setclass_ops :: "nat \<Rightarrow> host1x_submit \<Rightarrow> u32 \<Rightarrow> slot_op list" where
  "setclass_ops hw s cls =
     (if 6 \<le> hw
      then [Wide (host1x_opcode_setclass cls 0 0) (host1x_opcode_setpayload (stream_id s))
              (host1x_opcode_setstreamid (s_streamid_offset s div 4)) HOST1X_OPCODE_NOP]
      else [Narrow (host1x_opcode_setclass cls 0 0) HOST1X_OPCODE_NOP])"

definition gather_address :: "host1x_job_gather \<Rightarrow> u64" where
  "gather_address g = g_base g + ucast (g_offset g)"

fun cmd_ops :: "nat \<Rightarrow> host1x_submit \<Rightarrow> u32 \<Rightarrow> host1x_job_cmd \<Rightarrow> slot_op list" where
  "cmd_ops hw s base (HOST1X_JOB_CMD_WAIT w) =
     wait_ops hw (w_id w) (if w_relative w then base + w_threshold w else w_threshold w) @ setclass_ops hw s (w_next_class w)"
| "cmd_ops hw s base (HOST1X_JOB_CMD_GATHER g) =
     (let lo = ucast (gather_address g); hi = ucast (drop_bit 32 (gather_address g))
      in if hi = 0 then [Narrow (host1x_opcode_gather (g_words g)) lo]
         else if 6 \<le> hw then [Wide (host1x_opcode_gather_wide (g_words g)) lo hi HOST1X_OPCODE_NOP] else [])"
| "cmd_ops hw s base (HOST1X_JOB_CMD_REG_WRITE d) =
     [Narrow (host1x_opcode_incr (drop_bit 2 (rw_reg d)) 1) (rw_value d)]"

definition idle_ops :: "nat \<Rightarrow> nat \<Rightarrow> u32 \<Rightarrow> slot_op list" where
  "idle_ops hw i v = Narrow (host1x_opcode_nonincr 0 1) (incr_syncpt_word (of_nat i) 4) # wait_ops hw (of_nat i) v"

definition prefence_ops :: "nat \<Rightarrow> host1x_job_wait list \<Rightarrow> slot_op list" where
  "prefence_ops hw ws =
     (if ws = [] then []
      else Wide (host1x_opcode_acquire_mlock 1) (host1x_opcode_setclass 1 0 0) (host1x_opcode_setpayload 0)
             (host1x_opcode_setstreamid 0x1fffff)
        # concat (map (\<lambda>w. wait_ops hw (w_id w) (w_threshold w)) ws) @ [Narrow HOST1X_OPCODE_NOP (host1x_opcode_release_mlock 1)])"

text \<open>\<open>m\<close>: the maximum of the job's syncpoint before the submission; \<open>base\<close>: the wait base it has.\<close>

definition program_ops :: "nat \<Rightarrow> host1x_job \<Rightarrow> host1x_submit \<Rightarrow> u32 \<Rightarrow> nat option \<Rightarrow> slot_op list" where
  "program_ops hw job s m base =
     (let i = j_syncpt job; n = j_syncpt_incrs job; cls = s_class s
      in if 6 \<le> hw then
           let (ws, cmds) = prefences (s_cmds s)
           in prefence_ops hw ws
              @ [Wide (host1x_opcode_acquire_mlock cls) (host1x_opcode_setclass cls 0 0) (host1x_opcode_setpayload 0)
                   (host1x_opcode_setstreamid (s_streamid_offset s div 4))]
              @ idle_ops hw i (m + 1) @ setclass_ops hw s cls
              @ concat (map (cmd_ops hw s (m + 1)) cmds)
              @ idle_ops hw i (m + 1 + n + 1) @ [Narrow HOST1X_OPCODE_NOP (host1x_opcode_release_mlock cls)]
         else
           (if s_serialize s
            then [Narrow (host1x_opcode_setclass HOST1X_CLASS_HOST1X host1x_uclass_wait_syncpt_r 1)
                    (host1x_class_host_wait_syncpt (of_nat i) m)] else [])
           @ (case base of None \<Rightarrow> [] | Some b \<Rightarrow>
                [Narrow (host1x_opcode_setclass HOST1X_CLASS_HOST1X HOST1X_UCLASS_LOAD_SYNCPT_BASE 1) (load_syncpt_base (of_nat b) m)])
           @ (if cls \<noteq> 0 then [Narrow (host1x_opcode_setclass cls 0 0) HOST1X_OPCODE_NOP] else [])
           @ concat (map (cmd_ops hw s m) (s_cmds s)))"

text \<open>The increments that a submission adds, and where they end for the job.\<close>

definition program_incrs :: "nat \<Rightarrow> u32 \<Rightarrow> u32" where
  "program_incrs hw n = (if 6 \<le> hw then n + 2 else n)"

definition program_end :: "nat \<Rightarrow> u32 \<Rightarrow> u32 \<Rightarrow> u32" where
  "program_end hw m n = (if 6 \<le> hw then m + 1 + n else m + n)"

lemma pushed_wait:
  "submit_wait k v es c = Some (c', es') \<Longrightarrow> i < length (h_syncpt (cd_host c)) \<Longrightarrow> pushed i 0 (wait_ops (h_hw (cd_host c)) k v) c c'"
  by (auto simp: submit_wait_def wait_ops_def pushed_push pushed_push_wide split: if_splits)

lemma pushed_setclass:
  "submit_setclass s cls es c = Some (c', es') \<Longrightarrow> i < length (h_syncpt (cd_host c)) \<Longrightarrow>
    pushed i 0 (setclass_ops (h_hw (cd_host c)) s cls) c c'"
  by (auto simp: submit_setclass_def setclass_ops_def pushed_push pushed_push_wide split: if_splits)

lemma pushed_gather:
  "submit_gather g es c = Some (c', es') \<Longrightarrow> i < length (h_syncpt (cd_host c)) \<Longrightarrow>
    pushed i 0 (cmd_ops (h_hw (cd_host c)) s base (HOST1X_JOB_CMD_GATHER g)) c c'"
  by (auto simp: submit_gather_def gather_address_def pushed_push pushed_push_wide pushed_refl Let_def split: if_splits)

lemma pushed_gathers:
  "submit_gathers s base cmds es c = Some (c', es') \<Longrightarrow> i < length (h_syncpt (cd_host c)) \<Longrightarrow>
    pushed i 0 (concat (map (cmd_ops (h_hw (cd_host c)) s base) cmds)) c c'"
proof (induction s base cmds es c rule: submit_gathers.induct)
  case (1 s base es c)
  then show ?case by (simp add: pushed_refl)
next
  case (2 s base w cmds es c)
  let ?t = "if w_relative w then base + w_threshold w else w_threshold w"
  obtain c1 es1 c2 es2 where r: "submit_wait (w_id w) ?t es c = Some (c1, es1)"
      "submit_setclass s (w_next_class w) es1 c1 = Some (c2, es2)" "submit_gathers s base cmds es2 c2 = Some (c', es')"
    using "2.prems"(1) by (auto simp: bind_eq_Some_conv Let_def)
  note p1 = pushed_wait [OF r(1) "2.prems"(2)]
  note p2 = pushed_setclass [OF r(2) pushed_facts(2) [OF p1]]
  have p3: "pushed i 0 (concat (map (cmd_ops (h_hw (cd_host c2)) s base) cmds)) c2 c'"
    using "2.IH" r pushed_facts(2) [OF p2] by auto
  show ?case using pushed_trans [OF pushed_trans [OF p1 p2] p3] pushed_facts(3) [OF p1] pushed_facts(3) [OF p2] by simp
next
  case (3 s base g cmds es c)
  obtain c1 es1 where r: "submit_gather g es c = Some (c1, es1)" "submit_gathers s base cmds es1 c1 = Some (c', es')"
    using "3.prems"(1) by (auto simp: bind_eq_Some_conv)
  note p1 = pushed_gather [OF r(1) "3.prems"(2), of s base]
  have p2: "pushed i 0 (concat (map (cmd_ops (h_hw (cd_host c1)) s base) cmds)) c1 c'"
    using "3.IH" r pushed_facts(2) [OF p1] by auto
  show ?case using pushed_trans [OF p1 p2] pushed_facts(3) [OF p1] by simp
next
  case (4 s base d cmds es c)
  obtain c1 es1 where r: "host1x_cdma_push (host1x_opcode_incr (drop_bit 2 (rw_reg d)) 1) (rw_value d) es c = Some (c1, es1)"
      "submit_gathers s base cmds es1 c1 = Some (c', es')"
    using "4.prems"(1) by (auto simp: bind_eq_Some_conv)
  note p1 = pushed_push [OF r(1) "4.prems"(2)]
  have p2: "pushed i 0 (concat (map (cmd_ops (h_hw (cd_host c1)) s base) cmds)) c1 c'"
    using "4.IH" r pushed_facts(2) [OF p1] by auto
  show ?case using pushed_trans [OF p1 p2] pushed_facts(3) [OF p1] by simp
qed

lemma pushed_waits:
  "submit_waits ws es c = Some (c', es') \<Longrightarrow> i < length (h_syncpt (cd_host c)) \<Longrightarrow>
    pushed i 0 (concat (map (\<lambda>w. wait_ops (h_hw (cd_host c)) (w_id w) (w_threshold w)) ws)) c c'"
proof (induction ws es c rule: submit_waits.induct)
  case (1 es c)
  then show ?case by (simp add: pushed_refl)
next
  case (2 w ws es c)
  obtain c1 es1 where r: "submit_wait (w_id w) (w_threshold w) es c = Some (c1, es1)" "submit_waits ws es1 c1 = Some (c', es')"
    using "2.prems"(1) by (auto simp: bind_eq_Some_conv)
  note p1 = pushed_wait [OF r(1) "2.prems"(2)]
  have "pushed i 0 (concat (map (\<lambda>w. wait_ops (h_hw (cd_host c1)) (w_id w) (w_threshold w)) ws)) c1 c'"
    using "2.IH" r pushed_facts(2) [OF p1] by auto
  then show ?case using pushed_trans [OF p1] pushed_facts(3) [OF p1] by simp
qed

lemma pushed_prefences:
  assumes "submit_prefences ws es c = Some (c', es')" and i: "i < length (h_syncpt (cd_host c))"
  shows "pushed i 0 (prefence_ops (h_hw (cd_host c)) ws) c c'"
proof (cases "ws = []")
  case True
  then show ?thesis using assms pushed_refl by (simp add: submit_prefences_def prefence_ops_def)
next
  case False
  obtain c1 es1 c2 es2 where r:
      "host1x_cdma_push_wide (host1x_opcode_acquire_mlock 1) (host1x_opcode_setclass 1 0 0)
         (host1x_opcode_setpayload 0) (host1x_opcode_setstreamid 0x1fffff) es c = Some (c1, es1)"
      "submit_waits ws es1 c1 = Some (c2, es2)"
      "host1x_cdma_push HOST1X_OPCODE_NOP (host1x_opcode_release_mlock 1) es2 c2 = Some (c', es')"
    using assms(1) False by (auto simp: submit_prefences_def bind_eq_Some_conv)
  note p1 = pushed_push_wide [OF r(1) i]
  note p2 = pushed_waits [OF r(2) pushed_facts(2) [OF p1]]
  note p3 = pushed_push [OF r(3) pushed_facts(2) [OF p2]]
  show ?thesis using pushed_trans [OF pushed_trans [OF p1 p2] p3] False pushed_facts(3) [OF p1] by (simp add: prefence_ops_def)
qed

lemma pushed_idle:
  assumes "submit_idle i es c = Some (c', es')" and i: "i < length (h_syncpt (cd_host c))"
  shows "pushed i 1 (idle_ops (h_hw (cd_host c)) i (sp_max (sp_get i (cd_host c)) + 1)) c c'"
proof -
  obtain v c1 c2 es2 where r: "cdma_incr_max i 1 c = (v, c1)"
      "host1x_cdma_push (host1x_opcode_nonincr 0 1) (incr_syncpt_word (of_nat i) 4) es c1 = Some (c2, es2)"
      "submit_wait (of_nat i) v es2 c2 = Some (c', es')"
    using assms(1) by (auto simp: submit_idle_def bind_eq_Some_conv split: prod.splits)
  have p1: "pushed i 1 [] c c1" and v: "v = sp_max (sp_get i (cd_host c)) + 1" using pushed_incr [OF r(1) i] by auto
  note p2 = pushed_push [OF r(2) pushed_facts(2) [OF p1]]
  note p3 = pushed_wait [OF r(3) pushed_facts(2) [OF p2]]
  show ?thesis using pushed_trans [OF pushed_trans [OF p1 p2] p3] pushed_facts(3) [OF p1] pushed_facts(3) [OF p2] v
    by (simp add: idle_ops_def)
qed

lemma pushed_program_wide:
  assumes run: "program_wide job s es c = Some (e, c', es')" and hw: "6 \<le> h_hw (cd_host c)"
    and i: "j_syncpt job < length (h_syncpt (cd_host c))"
  defines "m \<equiv> sp_max (sp_get (j_syncpt job) (cd_host c))" and "n \<equiv> j_syncpt_incrs job" and "hv \<equiv> h_hw (cd_host c)"
  shows "pushed (j_syncpt job) (program_incrs hv n) (program_ops hv job s m base) c c' \<and> e = program_end hv m n"
proof -
  let ?i = "j_syncpt job"
  obtain ws cmds where pf: "prefences (s_cmds s) = (ws, cmds)" by fastforce
  let ?acq = "Wide (host1x_opcode_acquire_mlock (s_class s)) (host1x_opcode_setclass (s_class s) 0 0)
    (host1x_opcode_setpayload 0) (host1x_opcode_setstreamid (s_streamid_offset s div 4))"
  obtain c1 es1 c2 es2 c3 es3 c4 es4 c5 c6 es6 c7 es7 c8 es8 v where r0:
      "submit_prefences ws es c = Some (c1, es1)"
      "host1x_cdma_push_wide (host1x_opcode_acquire_mlock (s_class s)) (host1x_opcode_setclass (s_class s) 0 0)
         (host1x_opcode_setpayload 0) (host1x_opcode_setstreamid (s_streamid_offset s div 4)) es1 c1 = Some (c2, es2)"
      "submit_idle ?i es2 c2 = Some (c3, es3)" "submit_setclass s (s_class s) es3 c3 = Some (c4, es4)"
      "cdma_incr_max ?i n c4 = (v, c5)" "submit_gathers s (v - n) cmds es4 c5 = Some (c6, es6)"
      "submit_idle ?i es6 c6 = Some (c7, es7)"
      "host1x_cdma_push HOST1X_OPCODE_NOP (host1x_opcode_release_mlock (s_class s)) es7 c7 = Some (c8, es8)"
      "Some (v, c8, es8) = Some (e, c', es')"
    using run unfolding program_wide_def pf Let_def prod.case n_def
    by (elim bind_pairE case_pairE) (rule that [unfolded n_def])
  have eq: "v = e" "c8 = c'" "es8 = es'" using r0(9) by simp_all
  note r = r0 [unfolded eq]
  note p1 = pushed_prefences [OF r(1) i]
  note p2 = pushed_push_wide [OF r(2) pushed_facts(2) [OF p1]]
  note p12 = pushed_trans [OF p1 p2]
  note p3 = pushed_idle [OF r(3) pushed_facts(2) [OF p2]]
  note p123 = pushed_trans [OF p12 p3]
  note p4 = pushed_setclass [OF r(4) pushed_facts(2) [OF p3]]
  note p1234 = pushed_trans [OF p123 p4]
  have p5: "pushed ?i n [] c4 c5" and e: "e = sp_max (sp_get ?i (cd_host c4)) + n"
    using pushed_incr [OF r(5) pushed_facts(2) [OF p4]] by auto
  note p12345 = pushed_trans [OF p1234 p5]
  note p6 = pushed_gathers [OF r(6) pushed_facts(2) [OF p5]]
  note p123456 = pushed_trans [OF p12345 p6]
  note p7 = pushed_idle [OF r(7) pushed_facts(2) [OF p6]]
  note p8 = pushed_push [OF r(8) pushed_facts(2) [OF p7]]
  note all = pushed_trans [OF pushed_trans [OF p123456 p7] p8]
  have hws: "h_hw (cd_host c1) = hv" "h_hw (cd_host c2) = hv" "h_hw (cd_host c3) = hv" "h_hw (cd_host c5) = hv" "h_hw (cd_host c6) = hv"
    using pushed_facts(3) [OF p1] pushed_facts(3) [OF p12] pushed_facts(3) [OF p123] pushed_facts(3) [OF p12345]
      pushed_facts(3) [OF p123456] by (simp_all add: hv_def)
  have m2: "sp_max (sp_get ?i (cd_host c2)) = m" using pushed_facts(4) [OF p12] by (simp add: m_def)
  have m4: "sp_max (sp_get ?i (cd_host c4)) = m + 1" using pushed_facts(4) [OF p1234] by (simp add: m_def)
  have m6: "sp_max (sp_get ?i (cd_host c6)) = m + 1 + n" using pushed_facts(4) [OF p123456] by (simp add: m_def)
  have "pushed ?i (program_incrs hv n) (program_ops hv job s m base) c c'"
    using all hw unfolding e m2 m4 m6 hws
    by (simp add: program_ops_def program_incrs_def pf Let_def hv_def [symmetric] n_def [symmetric] add_ac)
  then show ?thesis using e hw unfolding m4 by (simp add: program_end_def hv_def)
qed

lemma pushed_if:
  assumes "(if b then host1x_cdma_push x y es c else Some (c, es)) = Some (c', es')" and "i < length (h_syncpt (cd_host c))"
  shows "pushed i 0 (if b then [Narrow x y] else []) c c'"
  using assms pushed_push pushed_refl by (auto split: if_splits)

lemma pushed_program_narrow:
  assumes run: "program_narrow job s es c = Some (e, c', es')" and hw: "\<not> 6 \<le> h_hw (cd_host c)"
    and i: "j_syncpt job < length (h_syncpt (cd_host c))"
  defines "m \<equiv> sp_max (sp_get (j_syncpt job) (cd_host c))" and "n \<equiv> j_syncpt_incrs job" and "hv \<equiv> h_hw (cd_host c)"
  shows "pushed (j_syncpt job) (program_incrs hv n) (program_ops hv job s m (sp_base (sp_get (j_syncpt job) (cd_host c)))) c c'
    \<and> e = program_end hv m n"
proof -
  let ?i = "j_syncpt job" and ?b = "sp_base (sp_get (j_syncpt job) (cd_host c))"
  obtain c1 es1 c2 es2 c3 es3 c4 c5 es5 v where r0:
      "(if s_serialize s then host1x_cdma_push (host1x_opcode_setclass HOST1X_CLASS_HOST1X host1x_uclass_wait_syncpt_r 1)
          (host1x_class_host_wait_syncpt (of_nat ?i) m) es c else Some (c, es)) = Some (c1, es1)"
      "(case sp_base (sp_get ?i (cd_host c1)) of Some base \<Rightarrow> synchronize_syncpt_base ?i base es1 c1 | None \<Rightarrow> Some (c1, es1)) = Some (c2, es2)"
      "(if s_class s \<noteq> 0 then host1x_cdma_push (host1x_opcode_setclass (s_class s) 0 0) HOST1X_OPCODE_NOP es2 c2
        else Some (c2, es2)) = Some (c3, es3)"
      "cdma_incr_max ?i n c3 = (v, c4)" "submit_gathers s (v - n) (s_cmds s) es3 c4 = Some (c5, es5)"
      "Some (v, c5, es5) = Some (e, c', es')"
    using run unfolding program_narrow_def host1x_syncpt_read_max_def Let_def prod.case n_def m_def
    by (elim bind_pairE case_pairE) (rule that [unfolded n_def m_def])
  have eq: "v = e" "c5 = c'" "es5 = es'" using r0(6) by simp_all
  note r = r0 [unfolded eq]
  note p1 = pushed_if [OF r(1) i]
  have m1: "host1x_syncpt_read_max ?i (cd_host c1) = m" and b1: "sp_base (sp_get ?i (cd_host c1)) = ?b"
    using pushed_facts(4,5) [OF p1] by (simp_all add: m_def host1x_syncpt_read_max_def)
  have p2: "pushed ?i 0 (case ?b of None \<Rightarrow> [] | Some b \<Rightarrow>
      [Narrow (host1x_opcode_setclass HOST1X_CLASS_HOST1X HOST1X_UCLASS_LOAD_SYNCPT_BASE 1) (load_syncpt_base (of_nat b) m)]) c1 c2"
    using r(2) pushed_refl pushed_push pushed_facts(2) [OF p1]
    by (auto simp: b1 synchronize_syncpt_base_def m1 split: option.splits)
  note p12 = pushed_trans [OF p1 p2]
  note p3 = pushed_if [OF r(3) pushed_facts(2) [OF p2]]
  note p123 = pushed_trans [OF p12 p3]
  have p4: "pushed ?i n [] c3 c4" and e: "e = sp_max (sp_get ?i (cd_host c3)) + n"
    using pushed_incr [OF r(4) pushed_facts(2) [OF p3]] by auto
  note p1234 = pushed_trans [OF p123 p4]
  note p5 = pushed_gathers [OF r(5) pushed_facts(2) [OF p4]]
  note all = pushed_trans [OF p1234 p5]
  have m3: "sp_max (sp_get ?i (cd_host c3)) = m" using pushed_facts(4) [OF p123] by (simp add: m_def)
  have h4: "h_hw (cd_host c4) = hv" using pushed_facts(3) [OF p1234] by (simp add: hv_def)
  have "pushed ?i (program_incrs hv n) (program_ops hv job s m ?b) c c'"
    using all hw unfolding e m3 h4 by (simp add: program_ops_def program_incrs_def hv_def [symmetric] n_def [symmetric] Let_def split del: if_split)
  then show ?thesis using e hw unfolding m3 by (simp add: program_end_def hv_def)
qed

lemma pushed_program:
  assumes "channel_program_cdma job s es c = Some (e, c', es')" and "j_syncpt job < length (h_syncpt (cd_host c))"
  shows "pushed (j_syncpt job) (program_incrs (h_hw (cd_host c)) (j_syncpt_incrs job))
      (program_ops (h_hw (cd_host c)) job s (sp_max (sp_get (j_syncpt job) (cd_host c))) (sp_base (sp_get (j_syncpt job) (cd_host c)))) c c'
    \<and> e = program_end (h_hw (cd_host c)) (sp_max (sp_get (j_syncpt job) (cd_host c))) (j_syncpt_incrs job)"
proof (cases "6 \<le> h_hw (cd_host c)")
  case True
  then show ?thesis using pushed_program_wide [OF _ True assms(2)] assms(1) by (simp add: channel_program_cdma_def)
next
  case False
  then show ?thesis using pushed_program_narrow [OF _ False assms(2)] assms(1) by (simp add: channel_program_cdma_def)
qed

section \<open>A whole submission\<close>

lemma plan_on_host:
  "h_hw (f (cd_host c)) = h_hw (cd_host c) \<Longrightarrow> h_syncpt (f (cd_host c)) = h_syncpt (cd_host c) \<Longrightarrow> plan (on_host f c) = plan c"
  by (simp add: plan_def)

lemma plan_ch_writel [simp]: "plan (host1x_ch_writel v r c) = plan c"
  by (simp add: plan_def)

lemma plan_sync_writel [simp]: "plan (on_host (host1x_sync_writel v r) c) = plan c"
  by (simp add: plan_def host1x_sync_writel_def)

lemma same_jobs_trans: "same_jobs c c1 \<Longrightarrow> same_jobs c1 c2 \<Longrightarrow> same_jobs c c2"
  by (simp add: same_jobs_def)

text \<open>What \<open>channel_submit\<close> does before it begins to push.\<close>

lemma same_on_host: "same_jobs c (on_host f c)"
  by (simp add: same_jobs_def)

lemma assign_static [simp]:
  "h_syncpt (syncpt_assign_to_channel i ch h) = h_syncpt h" "h_hw (syncpt_assign_to_channel i ch h) = h_hw h"
  by (simp_all add: syncpt_assign_to_channel_def host1x_sync_writel_def)

lemma same_streamid: "same_jobs c (host1x_channel_set_streamid spec c) \<and> plan (host1x_channel_set_streamid spec c) = plan c"
  by (simp add: same_jobs_def host1x_channel_set_streamid_def)

lemma same_filter: "same_jobs c (host1x_enable_gather_filter c) \<and> plan (host1x_enable_gather_filter c) = plan c"
proof -
  have "plan (on_host (\<lambda>h. host1x_sync_writel (v h) r h) c) = plan c" for v r by (simp add: plan_def host1x_sync_writel_def)
  moreover have "same_jobs c c" "same_jobs c (host1x_ch_writel v r c)" for v r by (simp_all add: same_jobs_def)
  ultimately show ?thesis by (simp add: host1x_enable_gather_filter_def Let_def same_on_host)
qed

lemma prepare:
  "same_jobs c (channel_prepare spec i secondary c) \<and> plan (channel_prepare spec i secondary c) = plan c"
proof -
  have p: "plan (on_host (syncpt_assign_to_channel k ch) x) = plan x" for k ch x by (simp add: plan_def)
  let ?d = "host1x_enable_gather_filter (host1x_channel_set_streamid spec c)"
  have d: "same_jobs c (on_host f ?d)" "plan ?d = plan c" for f
    using same_streamid same_filter same_on_host same_jobs_trans by metis+
  have "same_jobs c (on_host g (on_host f ?d))" for f g using same_jobs_trans [OF d(1) same_on_host] .
  then show ?thesis using d by (cases secondary) (simp_all add: channel_prepare_def Let_def p)
qed

lemma flush_fields [simp]:
  "cd_pb (cdma_flush c) = cd_pb c" "cd_queue (cdma_flush c) = cd_queue c" "cd_done (cdma_flush c) = cd_done c"
  "cd_host (cdma_flush c) = cd_host c" "cd_first_get (cdma_flush c) = cd_first_get c" "cd_slots_used (cdma_flush c) = cd_slots_used c"
  "cd_last_pos (cdma_flush c) = pb_pos (cd_pb c)"
  by (simp_all add: cdma_flush_def)

lemma timer_last_pos [simp]: "cd_last_pos (cdma_start_timer_locked j c) = cd_last_pos c"
  by (simp add: cdma_start_timer_locked_def)

lemma start_host [simp]: "cd_host (cdma_start c) = cd_host c"
  by (simp add: cdma_start_def write_window_def write_end_def Let_def)

lemma begin_submitting:
  assumes "host1x_cdma_begin job c = (Inr u, c1)" and "cdma_holds c bs []"
  shows "submitting c1 bs [] \<and> plan c1 = plan c \<and> cd_queue c1 = cd_queue c \<and> cd_done c1 = cd_done c \<and>
    cd_first_get c1 = pb_pos (cd_pb c) \<and> cd_pb c1 = cd_pb c"
proof -
  have f: "cd_pb c1 = cd_pb c" "cd_queue c1 = cd_queue c" "cd_done c1 = cd_done c" "cd_host c1 = cd_host c"
      "cd_slots_free c1 = 0" "cd_slots_used c1 = 0" "cd_first_get c1 = pb_pos (cd_pb c)"
    using assms(1) same_jobs_start [unfolded same_jobs_def]
    by (simp_all add: host1x_cdma_begin_def Let_def split: if_splits) auto
  have hold: "cdma_holds c1 bs []" using assms(2) by (simp add: cdma_holds_def f)
  obtain p where p: "p < 1023" "unat (pb_pos (cd_pb c)) = 8 * p" "pb_put (cd_pb c) = p"
    using pb_okE [of "cd_pb c"] assms(2) by (metis cdma_holds_def pb.holds_def)
  then have "submitting c1 bs []" using hold f by (auto simp: submitting_def)
  then show ?thesis using f by (simp add: plan_def)
qed

lemma end_holds:
  fixes job :: host1x_job
  assumes sub: "submitting c bs cur"
  defines "job' \<equiv> job\<lparr>j_first_get := cd_first_get c, j_num_slots := cd_slots_used c\<rparr>"
  shows "cdma_holds (host1x_cdma_end job c) (bs @ [cur]) [] \<and> cd_queue (host1x_cdma_end job c) = cd_queue c @ [job'] \<and>
    cd_done (host1x_cdma_end job c) = cd_done c \<and> cd_last_pos (host1x_cdma_end job c) = pb_pos (cd_pb (host1x_cdma_end job c)) \<and>
    cd_host (host1x_cdma_end job c) = cd_host c"
proof -
  let ?e = "host1x_cdma_end job c"
  have f: "cd_queue ?e = cd_queue c @ [job']" "cd_done ?e = cd_done c" "cd_last_pos ?e = pb_pos (cd_pb ?e)" "cd_pb ?e = cd_pb c"
      "cd_host ?e = cd_host c"
    by (simp_all add: host1x_cdma_end_def job'_def Let_def)
  have hold: "cdma_holds c bs cur" using sub by (simp add: submitting_def)
  have ok: "pb_ok (cd_pb c)" using hold by (simp add: cdma_holds_def pb.holds_def)
  let ?g = "pb_get (cd_pb c)"
  obtain g where g: "g < 1023" "unat (cd_first_get c) = 8 * g" "(g + length cur) mod 1023 = pb_put (cd_pb c)"
    using sub by (auto simp: submitting_def)
  have "pb_used (cd_pb c) = length (concat bs) + length cur"
    using hold by (simp add: cdma_holds_def pb.holds_def flip: length_pb_contents)
  then have "(?g + length (concat bs) + length cur) mod 1023 = (g + length cur) mod 1023"
    using put_index [OF ok] g(3) by (simp add: add.assoc)
  then have "(length cur + (?g + length (concat bs)) mod 1023) mod 1023 = (length cur + g) mod 1023"
    by (simp add: mod_simps add_ac)
  then have at: "(?g + length (concat bs)) mod 1023 = g" by (rule mod_add_inj) (simp_all add: g(1))
  have get: "?g < 1023" using pb_okE [OF ok] by (metis mod_less_divisor zero_less_numeral)
  have "placed ?g (bs @ [cur]) (cd_queue c @ [job'])"
    using placed_snoc [of ?g bs "cd_queue c" job' cur] hold get g(2) sub at
    by (simp add: cdma_holds_def submitting_def job'_def)
  then have "cdma_holds ?e (bs @ [cur]) []"
    using hold pb.holds_close by (simp add: cdma_holds_def f)
  then show ?thesis using f by simp
qed

lemma host_update_submitting:
  "submitting (c\<lparr>cd_host := h\<rparr>) bs cur \<longleftrightarrow> submitting c bs cur"
  by (simp add: submitting_def cdma_holds_def)

definition host_plan :: "host1x \<Rightarrow> (u32 \<times> nat option) list" where
  "host_plan h = map (\<lambda>sp. (sp_max sp, sp_base sp)) (h_syncpt h)"

lemma host_plan_steps [simp]:
  "host_plan (host1x_sync_writel v r h) = host_plan h" "host_plan (set_fence n f h) = host_plan h"
  "host_plan (set_fence_list i ns h) = host_plan h"
  by (simp_all add: host_plan_def host1x_sync_writel_def set_fence_def set_fence_list_def sp_put_def sp_get_def map_update_same)

lemma host_plan_update [simp]: "host_plan (host1x_intr_update_hw_state i h) = host_plan h"
  by (simp add: host1x_intr_update_hw_state_def host1x_intr_enable_syncpt_intr_def host1x_intr_disable_syncpt_intr_def
      host1x_intr_set_syncpt_threshold_def split: list.split)

lemma host_plan_signal: "host_plan (snd (host1x_syncpt_fence_enable_signaling n h)) = host_plan h"
  by (simp add: host1x_syncpt_fence_enable_signaling_def Let_def host1x_intr_add_fence_locked_def host1x_intr_add_fence_to_list_def)

lemma host_plan_max:
  assumes "host_plan h' = host_plan h" and "i < length (h_syncpt h)"
  shows "sp_max (sp_get i h') = sp_max (sp_get i h)"
proof -
  have "length (h_syncpt h') = length (h_syncpt h)" using assms(1) by (auto simp: host_plan_def dest: map_eq_imp_length_eq)
  moreover have "host_plan h' ! i = host_plan h ! i" by (simp only: assms(1))
  ultimately show ?thesis using assms(2) by (simp add: host_plan_def sp_get_def)
qed

lemma finish_holds:
  fixes job :: host1x_job
  assumes sub: "submitting c bs cur" and fin: "channel_finish kz job c = (f, c')" and i: "i < length (h_syncpt (cd_host c))"
  defines "job' \<equiv> job\<lparr>j_first_get := cd_first_get c, j_num_slots := cd_slots_used c\<rparr>"
  shows "sp_max (sp_get i (cd_host c')) = sp_max (sp_get i (cd_host c)) \<and> cd_last_pos c' = pb_pos (cd_pb c') \<and>
    (\<exists>k. cd_queue c' = drop k (cd_queue c @ [job']) \<and> cd_done c' = cd_done c @ take k (cd_queue c @ [job']) \<and>
       cdma_holds c' (drop k (bs @ [cur])) [])"
proof -
  obtain h where h: "host_plan h = host_plan (cd_host c)"
      "c' = host1x_cdma_end job (c\<lparr>cd_host := h\<rparr>) \<or> c' = update_cdma_locked (host1x_cdma_end job (c\<lparr>cd_host := h\<rparr>))"
  proof (cases kz)
    case False
    then show ?thesis using fin that by (auto simp: channel_finish_def host1x_fence_create_def)
  next
    case True
    let ?h = "(cd_host c)\<lparr>h_fences := h_fences (cd_host c) @ [\<lparr>f_sp = j_syncpt job,
      f_threshold = host1x_syncpt_read_max (j_syncpt job) (cd_host c), f_timeout = True, f_signaling = False,
      f_refs = Suc 0, f_signaled = False, f_error = None, f_queued = False, f_node = False\<rparr>]\<rparr>"
    obtain en h1 where en: "host1x_syncpt_fence_enable_signaling (length (h_fences (cd_host c))) ?h = (en, h1)" by fastforce
    have "host_plan h1 = host_plan ?h" using host_plan_signal [of _ ?h] en by (metis snd_conv)
    then have "host_plan h1 = host_plan (cd_host c)" by (simp add: host_plan_def)
    moreover define h2 where "h2 = (if en then h1 else set_fence (length (h_fences (cd_host c)))
      ((fence_at (length (h_fences (cd_host c))) h1)\<lparr>f_signaled := True\<rparr>) h1)"
    moreover have "c' = host1x_cdma_end job (c\<lparr>cd_host := h2\<rparr>) \<or> c' = update_cdma_locked (host1x_cdma_end job (c\<lparr>cd_host := h2\<rparr>))"
      using fin True by (auto simp: channel_finish_def host1x_fence_create_def en h2_def cdma_update_work_def)
    ultimately show ?thesis using that [of h2] by (auto split: if_splits)
  qed
  let ?e = "host1x_cdma_end job (c\<lparr>cd_host := h\<rparr>)"
  have sub': "submitting (c\<lparr>cd_host := h\<rparr>) bs cur" using sub by (simp add: host_update_submitting)
  have e: "cdma_holds ?e (bs @ [cur]) []" "cd_queue ?e = cd_queue c @ [job']" "cd_done ?e = cd_done c"
      "cd_last_pos ?e = pb_pos (cd_pb ?e)" "cd_host ?e = h"
    using end_holds [OF sub', of job] by (simp_all add: job'_def)
  have m: "sp_max (sp_get i (cd_host c')) = sp_max (sp_get i (cd_host c))" using h host_plan_max [OF h(1) i] e(5) by auto
  show ?thesis
  proof (cases "c' = ?e")
    case True
    then show ?thesis using e m by (intro conjI exI [of _ 0]) simp_all
  next
    case False
    then have c': "c' = update_cdma_locked ?e" using h(2) by blast
    have "cd_last_pos c' = pb_pos (cd_pb c')" using update_retires [OF e(1)] e(4) unfolding c' by (simp add: retired_def)
    then show ?thesis using update_retires [OF e(1)] e(2,3) m unfolding c' retired_def by metis
  qed
qed

lemma channel_submit_runs:
  fixes job :: host1x_job
  assumes hold: "cdma_holds c bs []" and i: "j_syncpt job < length (h_syncpt (cd_host c))"
    and run: "channel_submit (Inr u) spec kz job s es c = Some (Inr f, e, c', es')"
  defines "m \<equiv> host1x_syncpt_read_max (j_syncpt job) (cd_host c)" and "hw \<equiv> h_hw (cd_host c)"
  defines "ops \<equiv> program_ops hw job s m (sp_base (sp_get (j_syncpt job) (cd_host c)))"
  defines "ws \<equiv> slots_at (pb_put (cd_pb c)) ops"
  obtains k c1 c2 where "cd_queue c1 = cd_queue c" "cd_done c1 = cd_done c" "cd_first_get c1 = pb_pos (cd_pb c)" "plan c1 = plan c"
    "pushed (j_syncpt job) (program_incrs hw (j_syncpt_incrs job)) ops c1 c2" "e = program_end hw m (j_syncpt_incrs job)"
    "jobs_ended k c1 c2" "submitting c2 (drop k bs) ws" "channel_finish kz (job\<lparr>j_syncpt_end := e\<rparr>) c2 = (f, c')"
proof -
  let ?i = "j_syncpt job" and ?c0 = "channel_prepare spec (j_syncpt job) (s_secondary s) c"
  have prep: "same_jobs c ?c0" "plan ?c0 = plan c" using prepare by auto
  obtain u1 c1 where bg: "host1x_cdma_begin job ?c0 = (Inr u1, c1)"
    using run by (auto simp: channel_submit_def split: sum.splits prod.splits)
  obtain c2 es2 where pr: "channel_program_cdma job s es c1 = Some (e, c2, es2)"
      "channel_finish kz (job\<lparr>j_syncpt_end := e\<rparr>) c2 = (f, c')"
    using run unfolding channel_submit_def by (simp add: bg) (elim bind_pairE case_pairE, auto)
  have hold0: "cdma_holds ?c0 bs []" using hold holds_same [OF prep(1)] by simp
  note b = begin_submitting [OF bg hold0]
  have pl: "plan c1 = plan c" using b prep(2) by simp
  note at = plan_sp [OF pl i] plan_hw [OF pl]
  have i1: "?i < length (h_syncpt (cd_host c1))" using i plan_length [OF pl] by simp
  have c1: "cd_pb c1 = cd_pb c" "cd_queue c1 = cd_queue c" "cd_done c1 = cd_done c" "cd_first_get c1 = pb_pos (cd_pb c)"
    using b prep(1) by (simp_all add: same_jobs_def)
  have p: "pushed ?i (program_incrs hw (j_syncpt_incrs job)) ops c1 c2"
    and e: "e = program_end hw m (j_syncpt_incrs job)"
    using pushed_program [OF pr(1) i1] at by (simp_all add: hw_def m_def ops_def host1x_syncpt_read_max_def)
  obtain k where k: "jobs_ended k c1 c2" "submitting c2 (drop k bs) ws"
  proof -
    have "submitting c1 bs []" using b by blast
    then obtain k where "jobs_ended k c1 c2" "submitting c2 (drop k bs) ([] @ ws)"
      using p unfolding pushed_def ws_def c1(1) by blast
    then show ?thesis using that by simp
  qed
  show ?thesis using that [OF c1(2-4) pl p e k pr(2)] .
qed

lemma channel_submit_fits:
  fixes job :: host1x_job
  assumes "cdma_holds c bs []" and "j_syncpt job < length (h_syncpt (cd_host c))"
    and "channel_submit (Inr u) spec kz job s es c = Some (Inr f, e, c', es')"
  shows "length (slots_at (pb_put (cd_pb c)) (program_ops (h_hw (cd_host c)) job s (host1x_syncpt_read_max (j_syncpt job) (cd_host c))
      (sp_base (sp_get (j_syncpt job) (cd_host c))))) \<le> 1022"
proof -
  obtain k c2 where "submitting c2 (drop k bs) (slots_at (pb_put (cd_pb c)) (program_ops (h_hw (cd_host c)) job s
      (host1x_syncpt_read_max (j_syncpt job) (cd_host c)) (sp_base (sp_get (j_syncpt job) (cd_host c)))))"
    by (rule channel_submit_runs [OF assms])
  then show ?thesis using space_u32 by (fastforce simp: submitting_def)
qed

text \<open>C32: A submission that returns has put exactly the program of the job behind the commands of the
  pending jobs: finished jobs may have left at the front, the job is the last of the queue with the
  place and length of its program, the hardware has been told the new end of the commands, and the
  maximum of the syncpoint has grown by the increments of the program.  The job's own end is the value
  before the last of them when the channel waits for the engine to be idle at the end.\<close>

theorem channel_submit_appends:
  fixes job :: host1x_job
  assumes hold: "cdma_holds c bs []" and i: "j_syncpt job < length (h_syncpt (cd_host c))"
    and run: "channel_submit (Inr u) spec kz job s es c = Some (Inr f, e, c', es')"
  defines "m \<equiv> host1x_syncpt_read_max (j_syncpt job) (cd_host c)" and "hw \<equiv> h_hw (cd_host c)"
  defines "ws \<equiv> slots_at (pb_put (cd_pb c)) (program_ops hw job s m (sp_base (sp_get (j_syncpt job) (cd_host c))))"
  shows "e = program_end hw m (j_syncpt_incrs job) \<and>
    host1x_syncpt_read_max (j_syncpt job) (cd_host c') = m + program_incrs hw (j_syncpt_incrs job) \<and>
    cd_last_pos c' = pb_pos (cd_pb c') \<and>
    (\<exists>k job'. cd_queue c' = drop k (cd_queue c @ [job']) \<and> cd_done c' = cd_done c @ take k (cd_queue c @ [job']) \<and>
       cdma_holds c' (drop k (bs @ [ws])) [] \<and>
       job' = job\<lparr>j_syncpt_end := e, j_first_get := pb_pos (cd_pb c), j_num_slots := of_nat (length ws)\<rparr>)"
proof -
  let ?i = "j_syncpt job"
  obtain k c1 c2 where c1: "cd_queue c1 = cd_queue c" "cd_done c1 = cd_done c" "cd_first_get c1 = pb_pos (cd_pb c)" "plan c1 = plan c"
    and p: "pushed ?i (program_incrs hw (j_syncpt_incrs job)) (program_ops hw job s m (sp_base (sp_get ?i (cd_host c)))) c1 c2"
    and e: "e = program_end hw m (j_syncpt_incrs job)"
    and k: "jobs_ended k c1 c2" "submitting c2 (drop k bs) ws" and fin: "channel_finish kz (job\<lparr>j_syncpt_end := e\<rparr>) c2 = (f, c')"
    unfolding ws_def m_def hw_def by (rule channel_submit_runs [OF hold i run])
  have i2: "?i < length (h_syncpt (cd_host c2))" by (rule pushed_facts(2) [OF p])
  note at = plan_sp [OF c1(4) i]
  define job' where "job' = job\<lparr>j_syncpt_end := e, j_first_get := pb_pos (cd_pb c), j_num_slots := of_nat (length ws)\<rparr>"
  have "cd_slots_used c2 = of_nat (length ws)" using k(2) by (metis submitting_def of_nat_unat ucast_id unsigned_def)
  then have job': "job\<lparr>j_syncpt_end := e, j_first_get := cd_first_get c2, j_num_slots := cd_slots_used c2\<rparr> = job'"
    using k(1) c1(3) by (simp add: job'_def jobs_ended_def)
  obtain l where l: "cd_queue c' = drop l (cd_queue c2 @ [job'])" "cd_done c' = cd_done c2 @ take l (cd_queue c2 @ [job'])"
      "cdma_holds c' (drop l (drop k bs @ [ws])) []"
    using finish_holds [OF k(2) fin i2] unfolding job' by auto
  have fin2: "sp_max (sp_get ?i (cd_host c')) = sp_max (sp_get ?i (cd_host c2))" "cd_last_pos c' = pb_pos (cd_pb c')"
    using finish_holds [OF k(2) fin i2] by auto
  have kq: "k \<le> length (cd_queue c)" "cd_queue c2 = drop k (cd_queue c)" "cd_done c2 = cd_done c @ take k (cd_queue c)"
    using k(1) c1 by (simp_all add: jobs_ended_def)
  have kb: "k \<le> length bs" using kq(1) hold placed_length by (auto simp: cdma_holds_def)
  have "cd_queue c' = drop (k + l) (cd_queue c @ [job'])" "cd_done c' = cd_done c @ take (k + l) (cd_queue c @ [job'])"
      "cdma_holds c' (drop (k + l) (bs @ [ws])) []"
    using l kq kb by (simp_all add: take_add add.commute)
  moreover have "sp_max (sp_get ?i (cd_host c')) = m + program_incrs hw (j_syncpt_incrs job)"
    using fin2(1) pushed_facts(4) [OF p] at by (simp add: m_def host1x_syncpt_read_max_def)
  ultimately show ?thesis using e fin2(2) unfolding job'_def host1x_syncpt_read_max_def by blast
qed

end
