(* ===== verification/Host1x_Submit_Facts.thy ===== *)
theory Host1x_Submit_Facts imports Host1x_Submit begin

text \<open>
  When a submission returns: at once when its program fits in the free slots, and never when it does
  not fit in an empty ring.
\<close>

section \<open>Programs that fit\<close>

definition affords :: "nat \<Rightarrow> slot_op list \<Rightarrow> host1x_cdma \<Rightarrow> bool" where
  "affords i ops c \<longleftrightarrow> i < length (h_syncpt (cd_host c)) \<and>
     (\<exists>bs cur. submitting c bs cur \<and> length (concat bs) + length cur + length (slots_at (pb_put (cd_pb c)) ops) \<le> 1022)"

lemma affords_length: "affords i ops c \<Longrightarrow> i < length (h_syncpt (cd_host c))"
  by (simp add: affords_def)

lemma concat_drop: "length (concat (drop k bs)) \<le> length (concat bs)"
  by (metis append_take_drop_id concat_append le_add2 length_append)

lemma affords_pushed:
  assumes "affords i (xs @ rest) c" and "pushed i n xs c c'"
  shows "affords i rest c'"
proof -
  let ?p = "pb_put (cd_pb c)"
  obtain bs cur where sub: "submitting c bs cur" "length (concat bs) + length cur + length (slots_at ?p (xs @ rest)) \<le> 1022"
    using assms(1) by (auto simp: affords_def)
  obtain k where k: "submitting c' (drop k bs) (cur @ slots_at ?p xs)" "pb_put (cd_pb c') = (?p + length (slots_at ?p xs)) mod 1023"
    using assms(2) sub(1) by (auto simp: pushed_def)
  have "slots_at ?p (xs @ rest) = slots_at ?p xs @ slots_at (pb_put (cd_pb c')) rest"
    unfolding k(2) using submitting_put [OF sub(1)] by (simp add: slots_at_append)
  then have "length (concat (drop k bs)) + length (cur @ slots_at ?p xs) + length (slots_at (pb_put (cd_pb c')) rest) \<le> 1022"
    using sub(2) concat_drop [of k bs] by simp
  then show ?thesis using k(1) pushed_facts(2) [OF assms(2)] unfolding affords_def by blast
qed

lemma push_returns:
  assumes "affords i (Narrow a b # rest) c"
  shows "\<exists>c'. host1x_cdma_push a b es c = Some (c', es) \<and> pushed i 0 [Narrow a b] c c'"
proof -
  have i: "i < length (h_syncpt (cd_host c))" using assms by (simp add: affords_def)
  obtain bs cur where sub: "submitting c bs cur" "length (concat bs) + length cur < 1022"
    using assms by (auto simp: affords_def)
  then have sp: "host1x_pushbuffer_space (cd_pb c) \<noteq> 0" using space_u32 [of c bs cur] by (auto simp: submitting_def)
  have "\<exists>c'. host1x_cdma_push a b es c = Some (c', es)"
    using sp by (simp add: host1x_cdma_push_def host1x_cdma_wait_locked.simps [of _ _ "cdma_flush c"] event_space_def)
  then show ?thesis using pushed_push [OF _ i] by blast
qed

lemma push_wide_returns:
  assumes "affords i (Wide op1 op2 op3 op4 # rest) c"
  shows "\<exists>c'. host1x_cdma_push_wide op1 op2 op3 op4 es c = Some (c', es) \<and> pushed i 0 [Wide op1 op2 op3 op4] c c'"
proof -
  have i: "i < length (h_syncpt (cd_host c))" using assms by (simp add: affords_def)
  let ?ws = "wide_slots (pb_put (cd_pb c)) op1 op2 op3 op4"
  obtain bs cur where sub: "submitting c bs cur" "length (concat bs) + length cur + length ?ws \<le> 1022"
    using assms by (auto simp: affords_def)
  then have sp: "length ?ws \<le> unat (host1x_pushbuffer_space (cd_pb c))" using space_u32 [of c bs cur] by (auto simp: submitting_def)
  have "pb_ok (cd_pb c)" using sub(1) by (simp add: submitting_def cdma_holds_def pb.holds_def)
  then have "unat (2 + wide_extra (cd_pb c)) = length ?ws" by (simp add: wide_extra wide_slots_def)
  then have "2 + wide_extra (cd_pb c) \<le> host1x_pushbuffer_space (cd_pb c)" using sp by (simp add: word_le_nat_alt)
  then have "\<exists>c'. host1x_cdma_push_wide op1 op2 op3 op4 es c = Some (c', es)"
    by (simp add: host1x_cdma_push_wide_def host1x_cdma_wait_pushbuffer_space.simps [of _ _ c] Let_def wide_extra_def)
  then show ?thesis using pushed_push_wide [OF _ i] by blast
qed

text \<open>The same for the steps a program is made of.\<close>

definition returns :: "nat \<Rightarrow> u32 \<Rightarrow> slot_op list \<Rightarrow> pushing \<Rightarrow> env \<Rightarrow> host1x_cdma \<Rightarrow> bool" where
  "returns i n ops f es c \<longleftrightarrow> (\<exists>c'. f es c = Some (c', es) \<and> pushed i n ops c c')"

lemma returnsE:
  assumes "returns i n ops f es c" and "affords i (ops @ rest) c"
  obtains c' where "f es c = Some (c', es)" "pushed i n ops c c'" "affords i rest c'"
  using assms affords_pushed unfolding returns_def by blast

lemma wait_returns:
  "affords i (wait_ops (h_hw (cd_host c)) k v @ rest) c \<Longrightarrow> returns i 0 (wait_ops (h_hw (cd_host c)) k v) (submit_wait k v) es c"
  using push_returns push_wide_returns by (auto simp: returns_def submit_wait_def wait_ops_def split: if_splits)

lemma setclass_returns:
  "affords i (setclass_ops (h_hw (cd_host c)) s cls @ rest) c \<Longrightarrow>
    returns i 0 (setclass_ops (h_hw (cd_host c)) s cls) (submit_setclass s cls) es c"
  using push_returns push_wide_returns by (auto simp: returns_def submit_setclass_def setclass_ops_def split: if_splits)

lemma gather_returns:
  "affords i (cmd_ops (h_hw (cd_host c)) s base (HOST1X_JOB_CMD_GATHER g) @ rest) c \<Longrightarrow>
    returns i 0 (cmd_ops (h_hw (cd_host c)) s base (HOST1X_JOB_CMD_GATHER g)) (submit_gather g) es c"
  using push_returns push_wide_returns pushed_refl [OF affords_length]
  by (auto simp: returns_def submit_gather_def gather_address_def Let_def split: if_splits)

lemma gathers_returns:
  "affords i (concat (map (cmd_ops (h_hw (cd_host c)) s base) cmds) @ rest) c \<Longrightarrow>
    returns i 0 (concat (map (cmd_ops (h_hw (cd_host c)) s base) cmds)) (submit_gathers s base cmds) es c"
proof (induction cmds arbitrary: c)
  case Nil
  then show ?case by (auto simp: returns_def affords_def intro: pushed_refl)
next
  case (Cons cmd cmds)
  let ?ops = "\<lambda>cmd. cmd_ops (h_hw (cd_host c)) s base cmd"
  obtain f where f: "submit_gathers s base (cmd # cmds) es c = f es c \<bind> (\<lambda>(c, es). submit_gathers s base cmds es c)"
      "returns i 0 (?ops cmd) f es c"
  proof (cases cmd)
    case (HOST1X_JOB_CMD_GATHER g)
    have "returns i 0 (?ops cmd) (submit_gather g) es c"
      using gather_returns [of i c s base g "concat (map ?ops cmds) @ rest"] Cons.prems HOST1X_JOB_CMD_GATHER by simp
    then show ?thesis using that [of "submit_gather g"] HOST1X_JOB_CMD_GATHER by simp
  next
    case (HOST1X_JOB_CMD_WAIT w)
    let ?t = "if w_relative w then base + w_threshold w else w_threshold w"
    have a: "affords i (wait_ops (h_hw (cd_host c)) (w_id w) ?t @ setclass_ops (h_hw (cd_host c)) s (w_next_class w) @ concat (map ?ops cmds) @ rest) c"
      using Cons.prems HOST1X_JOB_CMD_WAIT by simp
    obtain c1 where c1: "submit_wait (w_id w) ?t es c = Some (c1, es)"
        "pushed i 0 (wait_ops (h_hw (cd_host c)) (w_id w) ?t) c c1"
        "affords i (setclass_ops (h_hw (cd_host c)) s (w_next_class w) @ concat (map ?ops cmds) @ rest) c1"
      by (rule returnsE [OF wait_returns [OF a] a])
    obtain c2 where c2: "submit_setclass s (w_next_class w) es c1 = Some (c2, es)"
        "pushed i 0 (setclass_ops (h_hw (cd_host c)) s (w_next_class w)) c1 c2"
      using setclass_returns [of i c1 s "w_next_class w"] c1(3) pushed_facts(3) [OF c1(2)] by (auto simp: returns_def)
    let ?f = "\<lambda>es c. submit_wait (w_id w) ?t es c \<bind> (\<lambda>(c, es). submit_setclass s (w_next_class w) es c)"
    have "returns i 0 (?ops cmd) ?f es c"
      using pushed_trans [OF c1(2) c2(2)] c1(1) c2(1) HOST1X_JOB_CMD_WAIT by (simp add: returns_def)
    moreover have "submit_gathers s base (cmd # cmds) es c = ?f es c \<bind> (\<lambda>(c, es). submit_gathers s base cmds es c)"
      using c1(1) c2(1) HOST1X_JOB_CMD_WAIT by simp
    ultimately show ?thesis using that [of ?f] by blast
  next
    case (HOST1X_JOB_CMD_REG_WRITE d)
    let ?f = "host1x_cdma_push (host1x_opcode_incr (drop_bit 2 (rw_reg d)) 1) (rw_value d)"
    have "returns i 0 (?ops cmd) ?f es c"
      using push_returns [of i _ _ "concat (map ?ops cmds) @ rest" c] Cons.prems HOST1X_JOB_CMD_REG_WRITE by (simp add: returns_def)
    then show ?thesis using that [of ?f] HOST1X_JOB_CMD_REG_WRITE by simp
  qed
  have "affords i (?ops cmd @ concat (map ?ops cmds) @ rest) c" using Cons.prems by simp
  then obtain c1 where c1: "f es c = Some (c1, es)" "pushed i 0 (?ops cmd) c c1" "affords i (concat (map ?ops cmds) @ rest) c1"
    using returnsE [OF f(2)] by metis
  obtain c2 where c2: "submit_gathers s base cmds es c1 = Some (c2, es)" "pushed i 0 (concat (map ?ops cmds)) c1 c2"
    using Cons.IH [of c1] c1(3) pushed_facts(3) [OF c1(2)] by (auto simp: returns_def)
  show ?case using pushed_trans [OF c1(2) c2(2)] f(1) c1(1) c2(1) by (simp add: returns_def)
qed

lemma waits_returns:
  "affords i (concat (map (\<lambda>w. wait_ops (h_hw (cd_host c)) (w_id w) (w_threshold w)) ws) @ rest) c \<Longrightarrow>
    returns i 0 (concat (map (\<lambda>w. wait_ops (h_hw (cd_host c)) (w_id w) (w_threshold w)) ws)) (submit_waits ws) es c"
proof (induction ws arbitrary: c)
  case Nil
  then show ?case by (auto simp: returns_def affords_def intro: pushed_refl)
next
  case (Cons w ws)
  let ?ops = "\<lambda>w. wait_ops (h_hw (cd_host c)) (w_id w) (w_threshold w)"
  have a: "affords i (?ops w @ concat (map ?ops ws) @ rest) c" using Cons.prems by simp
  obtain c1 where c1: "submit_wait (w_id w) (w_threshold w) es c = Some (c1, es)" "pushed i 0 (?ops w) c c1"
      "affords i (concat (map ?ops ws) @ rest) c1"
    by (rule returnsE [OF wait_returns [OF a] a])
  obtain c2 where c2: "submit_waits ws es c1 = Some (c2, es)" "pushed i 0 (concat (map ?ops ws)) c1 c2"
    using Cons.IH [of c1] c1(3) pushed_facts(3) [OF c1(2)] by (auto simp: returns_def)
  show ?case using pushed_trans [OF c1(2) c2(2)] c1(1) c2(1) by (simp add: returns_def)
qed

lemma prefences_returns:
  assumes "affords i (prefence_ops (h_hw (cd_host c)) ws @ rest) c"
  shows "returns i 0 (prefence_ops (h_hw (cd_host c)) ws) (submit_prefences ws) es c"
proof (cases "ws = []")
  case True
  then show ?thesis using pushed_refl [OF affords_length [OF assms]] by (simp add: returns_def submit_prefences_def prefence_ops_def)
next
  case False
  let ?acq = "Wide (host1x_opcode_acquire_mlock 1) (host1x_opcode_setclass 1 0 0) (host1x_opcode_setpayload 0) (host1x_opcode_setstreamid 0x1fffff)"
  let ?ops = "concat (map (\<lambda>w. wait_ops (h_hw (cd_host c)) (w_id w) (w_threshold w)) ws)"
  let ?rel = "Narrow HOST1X_OPCODE_NOP (host1x_opcode_release_mlock 1)"
  have a: "affords i ([?acq] @ ?ops @ [?rel] @ rest) c" using assms False by (simp add: prefence_ops_def)
  obtain c1 where c1: "host1x_cdma_push_wide (host1x_opcode_acquire_mlock 1) (host1x_opcode_setclass 1 0 0)
      (host1x_opcode_setpayload 0) (host1x_opcode_setstreamid 0x1fffff) es c = Some (c1, es)" "pushed i 0 [?acq] c c1"
    using push_wide_returns a by fastforce
  note a1 = affords_pushed [OF a c1(2)]
  have hw: "h_hw (cd_host c1) = h_hw (cd_host c)" by (rule pushed_facts(3) [OF c1(2)])
  obtain c2 where c2: "submit_waits ws es c1 = Some (c2, es)" "pushed i 0 ?ops c1 c2" "affords i ([?rel] @ rest) c2"
    by (rule returnsE [OF waits_returns [of i c1 ws "[?rel] @ rest" es, unfolded hw, OF a1] a1])
  obtain c3 where c3: "host1x_cdma_push HOST1X_OPCODE_NOP (host1x_opcode_release_mlock 1) es c2 = Some (c3, es)" "pushed i 0 [?rel] c2 c3"
    using push_returns c2(3) by fastforce
  show ?thesis using pushed_trans [OF pushed_trans [OF c1(2) c2(2)] c3(2)] c1(1) c2(1) c3(1) False
    by (simp add: returns_def submit_prefences_def prefence_ops_def)
qed

lemma affords_incr:
  assumes "affords i ops c" and "cdma_incr_max i n c = (v, c')"
  shows "affords i ops c'" "pushed i n [] c c'" "v = sp_max (sp_get i (cd_host c)) + n"
  using pushed_incr [OF assms(2) affords_length [OF assms(1)]] affords_pushed [of i "[]"] assms(1) by auto

lemma idle_returns:
  assumes "affords i (idle_ops (h_hw (cd_host c)) i (sp_max (sp_get i (cd_host c)) + 1) @ rest) c"
  shows "returns i 1 (idle_ops (h_hw (cd_host c)) i (sp_max (sp_get i (cd_host c)) + 1)) (submit_idle i) es c"
proof -
  let ?v = "sp_max (sp_get i (cd_host c)) + 1" and ?n = "Narrow (host1x_opcode_nonincr 0 1) (incr_syncpt_word (of_nat i) 4)"
  obtain v c1 where v: "cdma_incr_max i 1 c = (v, c1)" by fastforce
  note a1 = affords_incr [OF assms v]
  have a: "affords i ([?n] @ wait_ops (h_hw (cd_host c)) (of_nat i) ?v @ rest) c1" using a1(1) by (simp add: idle_ops_def)
  obtain c2 where c2: "host1x_cdma_push (host1x_opcode_nonincr 0 1) (incr_syncpt_word (of_nat i) 4) es c1 = Some (c2, es)"
      "pushed i 0 [?n] c1 c2" using push_returns a by fastforce
  note a2 = affords_pushed [OF a c2(2)]
  have hw: "h_hw (cd_host c2) = h_hw (cd_host c)" using pushed_facts(3) [OF c2(2)] pushed_facts(3) [OF a1(2)] by simp
  obtain c3 where c3: "submit_wait (of_nat i) ?v es c2 = Some (c3, es)" "pushed i 0 (wait_ops (h_hw (cd_host c)) (of_nat i) ?v) c2 c3"
    using wait_returns [of i c2 "of_nat i" ?v rest es] a2 unfolding hw returns_def by blast
  show ?thesis using pushed_trans [OF pushed_trans [OF a1(2) c2(2)] c3(2)] c2(1) c3(1) v a1(3)
    by (simp add: returns_def submit_idle_def idle_ops_def)
qed

lemma program_wide_returns:
  assumes hw: "6 \<le> h_hw (cd_host c)"
    and a: "affords (j_syncpt job) (program_ops (h_hw (cd_host c)) job s (sp_max (sp_get (j_syncpt job) (cd_host c))) base) c"
  shows "\<exists>e c'. program_wide job s es c = Some (e, c', es)"
proof -
  let ?i = "j_syncpt job" and ?hv = "h_hw (cd_host c)" and ?m = "sp_max (sp_get (j_syncpt job) (cd_host c))"
  let ?n = "j_syncpt_incrs job" and ?cls = "s_class s"
  obtain ws cmds where pf: "prefences (s_cmds s) = (ws, cmds)" by fastforce
  let ?acq = "Wide (host1x_opcode_acquire_mlock ?cls) (host1x_opcode_setclass ?cls 0 0) (host1x_opcode_setpayload 0)
    (host1x_opcode_setstreamid (s_streamid_offset s div 4))"
  let ?rel = "Narrow HOST1X_OPCODE_NOP (host1x_opcode_release_mlock ?cls)"
  let ?gs = "concat (map (cmd_ops ?hv s (?m + 1)) cmds)"
  have a0: "affords ?i (prefence_ops ?hv ws @ [?acq] @ idle_ops ?hv ?i (?m + 1) @ setclass_ops ?hv s ?cls @ ?gs @
      idle_ops ?hv ?i (?m + 1 + ?n + 1) @ [?rel]) c"
    using a hw by (simp add: program_ops_def pf Let_def)
  obtain c1 where c1: "submit_prefences ws es c = Some (c1, es)" "pushed ?i 0 (prefence_ops ?hv ws) c c1"
    and a1: "affords ?i ([?acq] @ idle_ops ?hv ?i (?m + 1) @ setclass_ops ?hv s ?cls @ ?gs @ idle_ops ?hv ?i (?m + 1 + ?n + 1) @ [?rel]) c1"
    by (rule returnsE [OF prefences_returns [OF a0] a0])
  obtain c2 where c2: "host1x_cdma_push_wide (host1x_opcode_acquire_mlock ?cls) (host1x_opcode_setclass ?cls 0 0)
      (host1x_opcode_setpayload 0) (host1x_opcode_setstreamid (s_streamid_offset s div 4)) es c1 = Some (c2, es)" "pushed ?i 0 [?acq] c1 c2"
    using push_wide_returns a1 by fastforce
  note a2 = affords_pushed [OF a1 c2(2)]
  note p2 = pushed_trans [OF c1(2) c2(2)]
  have m2: "sp_max (sp_get ?i (cd_host c2)) = ?m" "h_hw (cd_host c2) = ?hv" using pushed_facts [OF p2] by simp_all
  obtain c3 where c3: "submit_idle ?i es c2 = Some (c3, es)" "pushed ?i 1 (idle_ops ?hv ?i (?m + 1)) c2 c3"
    using idle_returns [of ?i c2 _ es] a2 unfolding m2 returns_def by blast
  note a3 = affords_pushed [OF a2 c3(2)]
  note p3 = pushed_trans [OF p2 c3(2)]
  have h3: "h_hw (cd_host c3) = ?hv" using pushed_facts [OF p3] by simp
  obtain c4 where c4: "submit_setclass s ?cls es c3 = Some (c4, es)" "pushed ?i 0 (setclass_ops ?hv s ?cls) c3 c4"
    using setclass_returns [of ?i c3 s ?cls _ es] a3 unfolding h3 returns_def by blast
  note a4 = affords_pushed [OF a3 c4(2)]
  note p4 = pushed_trans [OF p3 c4(2)]
  have m4: "sp_max (sp_get ?i (cd_host c4)) = ?m + 1" using pushed_facts [OF p4] by simp
  obtain e c5 where e: "cdma_incr_max ?i ?n c4 = (e, c5)" by fastforce
  note a5 = affords_incr [OF a4 e]
  note p5 = pushed_trans [OF p4 a5(2)]
  have h5: "h_hw (cd_host c5) = ?hv" using pushed_facts [OF p5] by simp
  have base: "e - ?n = ?m + 1" using a5(3) m4 by simp
  obtain c6 where c6: "submit_gathers s (?m + 1) cmds es c5 = Some (c6, es)" "pushed ?i 0 ?gs c5 c6"
    using gathers_returns [of ?i c5 s "?m + 1" cmds _ es] a5(1) unfolding h5 returns_def by blast
  note a6 = affords_pushed [OF a5(1) c6(2)]
  note p6 = pushed_trans [OF p5 c6(2)]
  have m6: "sp_max (sp_get ?i (cd_host c6)) + 1 = ?m + 1 + ?n + 1" "h_hw (cd_host c6) = ?hv" using pushed_facts [OF p6] by simp_all
  obtain c7 where c7: "submit_idle ?i es c6 = Some (c7, es)" "pushed ?i 1 (idle_ops ?hv ?i (?m + 1 + ?n + 1)) c6 c7"
    using idle_returns [of ?i c6 _ es] a6 unfolding m6 returns_def by blast
  note a7 = affords_pushed [OF a6 c7(2)]
  obtain c8 where c8: "host1x_cdma_push HOST1X_OPCODE_NOP (host1x_opcode_release_mlock ?cls) es c7 = Some (c8, es)"
    using push_returns a7 by fastforce
  show ?thesis using c1(1) c2(1) c3(1) c4(1) c6(1) c7(1) c8 e base by (simp add: program_wide_def pf Let_def)
qed

lemma if_push_returns:
  assumes "affords i ((if b then [Narrow x y] else []) @ rest) c"
  shows "returns i 0 (if b then [Narrow x y] else []) (\<lambda>es c. if b then host1x_cdma_push x y es c else Some (c, es)) es c"
  using assms push_returns pushed_refl [OF affords_length [OF assms]] by (auto simp: returns_def)

lemma program_narrow_returns:
  assumes hw: "\<not> 6 \<le> h_hw (cd_host c)"
    and a: "affords (j_syncpt job) (program_ops (h_hw (cd_host c)) job s (sp_max (sp_get (j_syncpt job) (cd_host c)))
       (sp_base (sp_get (j_syncpt job) (cd_host c)))) c"
  shows "\<exists>e c'. program_narrow job s es c = Some (e, c', es)"
proof -
  let ?i = "j_syncpt job" and ?hv = "h_hw (cd_host c)" and ?m = "sp_max (sp_get (j_syncpt job) (cd_host c))"
  let ?n = "j_syncpt_incrs job" and ?cls = "s_class s" and ?b = "sp_base (sp_get (j_syncpt job) (cd_host c))"
  let ?ser = "if s_serialize s then [Narrow (host1x_opcode_setclass HOST1X_CLASS_HOST1X host1x_uclass_wait_syncpt_r 1)
     (host1x_class_host_wait_syncpt (of_nat ?i) ?m)] else []"
  let ?base = "case ?b of None \<Rightarrow> [] | Some b \<Rightarrow>
     [Narrow (host1x_opcode_setclass HOST1X_CLASS_HOST1X HOST1X_UCLASS_LOAD_SYNCPT_BASE 1) (load_syncpt_base (of_nat b) ?m)]"
  let ?set = "if ?cls \<noteq> 0 then [Narrow (host1x_opcode_setclass ?cls 0 0) HOST1X_OPCODE_NOP] else []"
  let ?gs = "concat (map (cmd_ops ?hv s ?m) (s_cmds s))"
  have a0: "affords ?i (?ser @ ?base @ ?set @ ?gs @ []) c"
    using a hw by (simp add: program_ops_def Let_def split del: if_split)
  obtain c1 where c1: "(if s_serialize s then host1x_cdma_push (host1x_opcode_setclass HOST1X_CLASS_HOST1X host1x_uclass_wait_syncpt_r 1)
     (host1x_class_host_wait_syncpt (of_nat ?i) ?m) es c else Some (c, es)) = Some (c1, es)" "pushed ?i 0 ?ser c c1"
    and a1: "affords ?i (?base @ ?set @ ?gs @ []) c1"
    by (rule returnsE [OF if_push_returns [OF a0] a0])
  have m1: "sp_max (sp_get ?i (cd_host c1)) = ?m" "sp_base (sp_get ?i (cd_host c1)) = ?b" using pushed_facts [OF c1(2)] by simp_all
  obtain c2 where c2: "(case ?b of Some base \<Rightarrow> synchronize_syncpt_base ?i base es c1 | None \<Rightarrow> Some (c1, es)) = Some (c2, es)"
      "pushed ?i 0 ?base c1 c2"
  proof (cases ?b)
    case None
    then show ?thesis using that [of c1] pushed_refl [OF affords_length [OF a1]] by simp
  next
    case (Some b)
    then have "affords ?i (Narrow (host1x_opcode_setclass HOST1X_CLASS_HOST1X HOST1X_UCLASS_LOAD_SYNCPT_BASE 1)
        (load_syncpt_base (of_nat b) ?m) # ?set @ ?gs @ []) c1" using a1 by simp
    from push_returns [OF this] show ?thesis
      using that Some m1(1) by (auto simp: synchronize_syncpt_base_def host1x_syncpt_read_max_def)
  qed
  note a2 = affords_pushed [OF a1 c2(2)]
  obtain c3 where c3: "(if ?cls \<noteq> 0 then host1x_cdma_push (host1x_opcode_setclass ?cls 0 0) HOST1X_OPCODE_NOP es c2
      else Some (c2, es)) = Some (c3, es)" "pushed ?i 0 ?set c2 c3"
    and a3: "affords ?i (?gs @ []) c3"
    by (rule returnsE [OF if_push_returns [OF a2] a2])
  note p3 = pushed_trans [OF pushed_trans [OF c1(2) c2(2)] c3(2)]
  have m3: "sp_max (sp_get ?i (cd_host c3)) = ?m" using pushed_facts [OF p3] by simp
  obtain e c4 where e: "cdma_incr_max ?i ?n c3 = (e, c4)" by fastforce
  note a4 = affords_incr [OF a3 e]
  have h4: "h_hw (cd_host c4) = ?hv" using pushed_facts [OF pushed_trans [OF p3 a4(2)]] by simp
  have base: "e - ?n = ?m" using a4(3) m3 by simp
  obtain c5 where c5: "submit_gathers s ?m (s_cmds s) es c4 = Some (c5, es)"
    using gathers_returns [of ?i c4 s ?m "s_cmds s" "[]" es] a4(1) unfolding h4 returns_def by blast
  show ?thesis using c1(1) c2(1) c3(1) c5 e base m1(2)
    unfolding program_narrow_def Let_def host1x_syncpt_read_max_def by (simp split del: if_split)
qed

lemma prepare_syncpts: "h_syncpt (cd_host (channel_prepare spec i secondary c)) = h_syncpt (cd_host c)"
proof -
  have f: "h_syncpt (cd_host (host1x_enable_gather_filter x)) = h_syncpt (cd_host x)" for x
    by (simp add: host1x_enable_gather_filter_def Let_def host1x_sync_writel_def)
  have g: "cd_host (host1x_channel_set_streamid spec x) = cd_host x" for x
    by (simp add: host1x_channel_set_streamid_def)
  show ?thesis by (simp add: channel_prepare_def Let_def f g split: option.split)
qed

lemma begin_ok:
  assumes "\<not> sp_locked (sp_get (j_syncpt job) (cd_host c))"
  obtains c1 where "host1x_cdma_begin job (channel_prepare spec (j_syncpt job) (s_secondary s) c) = (Inr (), c1)"
proof -
  have "\<not> sp_locked (sp_get (j_syncpt job) (cd_host (channel_prepare spec (j_syncpt job) (s_secondary s) c)))"
    using assms by (simp add: sp_get_def prepare_syncpts)
  then show ?thesis using that by (simp add: host1x_cdma_begin_def Let_def)
qed

lemma channel_submit_returns:
  fixes job :: host1x_job
  assumes hold: "cdma_holds c bs []" and i: "j_syncpt job < length (h_syncpt (cd_host c))"
    and unlocked: "\<not> sp_locked (sp_get (j_syncpt job) (cd_host c))"
    and fits: "length (concat bs) + length (slots_at (pb_put (cd_pb c)) (program_ops (h_hw (cd_host c)) job s
       (host1x_syncpt_read_max (j_syncpt job) (cd_host c)) (sp_base (sp_get (j_syncpt job) (cd_host c))))) \<le> 1022"
  shows "\<exists>f e c'. channel_submit (Inr u) spec kz job s es c = Some (Inr f, e, c', es)"
proof -
  let ?i = "j_syncpt job" and ?c0 = "channel_prepare spec (j_syncpt job) (s_secondary s) c"
  have prep: "same_jobs c ?c0" "plan ?c0 = plan c" using prepare by auto
  obtain c1 where bg: "host1x_cdma_begin job ?c0 = (Inr (), c1)" using begin_ok [OF unlocked] by blast
  have hold0: "cdma_holds ?c0 bs []" using hold holds_same [OF prep(1)] by simp
  note b = begin_submitting [OF bg hold0]
  have pl: "plan c1 = plan c" using b prep(2) by simp
  have at: "sp_max (sp_get ?i (cd_host c1)) = host1x_syncpt_read_max ?i (cd_host c)"
      "sp_base (sp_get ?i (cd_host c1)) = sp_base (sp_get ?i (cd_host c))" "h_hw (cd_host c1) = h_hw (cd_host c)"
    using plan_sp [OF pl i] plan_hw [OF pl] by (simp_all add: host1x_syncpt_read_max_def)
  have "cd_pb c1 = cd_pb c" using b prep(1) by (simp add: same_jobs_def)
  then have a: "affords ?i (program_ops (h_hw (cd_host c1)) job s (sp_max (sp_get ?i (cd_host c1))) (sp_base (sp_get ?i (cd_host c1)))) c1"
    using b fits i plan_length [OF pl] unfolding affords_def at by (intro conjI exI [of _ bs] exI [of _ "[]"]) simp_all
  have "\<exists>e c2. channel_program_cdma job s es c1 = Some (e, c2, es)"
  proof (cases "6 \<le> h_hw (cd_host c1)")
    case True
    then show ?thesis using program_wide_returns [OF True a] by (simp add: channel_program_cdma_def)
  next
    case False
    then show ?thesis using program_narrow_returns [OF False a] by (simp add: channel_program_cdma_def)
  qed
  then show ?thesis by (auto simp: channel_submit_def bg split: prod.split)
qed

lemma channel_submit_too_long:
  fixes job :: host1x_job
  assumes hold: "cdma_holds c bs []" and i: "j_syncpt job < length (h_syncpt (cd_host c))"
    and unlocked: "\<not> sp_locked (sp_get (j_syncpt job) (cd_host c))"
    and long: "1022 < length (slots_at (pb_put (cd_pb c)) (program_ops (h_hw (cd_host c)) job s
       (host1x_syncpt_read_max (j_syncpt job) (cd_host c)) (sp_base (sp_get (j_syncpt job) (cd_host c)))))"
  shows "channel_submit (Inr u) spec kz job s es c = None"
proof (cases "channel_submit (Inr u) spec kz job s es c")
  case (Some r)
  obtain x e c' es' where r: "r = (x, e, c', es')" by (cases r) auto
  obtain c1 where bg: "host1x_cdma_begin job (channel_prepare spec (j_syncpt job) (s_secondary s) c) = (Inr (), c1)"
    using begin_ok [OF unlocked] by blast
  obtain f where "x = Inr f"
    using Some r by (auto simp: channel_submit_def bg bind_eq_Some_conv split_beta)
  then have "channel_submit (Inr u) spec kz job s es c = Some (Inr f, e, c', es')" using Some r by simp
  then show ?thesis using channel_submit_fits [OF hold i] long by fastforce
qed simp

text \<open>C33: A submission to a syncpoint that is not locked returns at once, without any change by the hardware,
  when its program fits in the slots that the pending jobs leave free.  A job whose program has more
  slots than the ring can hold never gets submitted: whatever the hardware does meanwhile, the call
  waits for space that no job will free.\<close>

theorem channel_submit_termination:
  fixes job :: host1x_job and s :: host1x_submit
  assumes "cdma_holds c bs []" and "j_syncpt job < length (h_syncpt (cd_host c))"
    and "\<not> sp_locked (sp_get (j_syncpt job) (cd_host c))"
  defines "n \<equiv> length (slots_at (pb_put (cd_pb c)) (program_ops (h_hw (cd_host c)) job s
     (host1x_syncpt_read_max (j_syncpt job) (cd_host c)) (sp_base (sp_get (j_syncpt job) (cd_host c)))))"
  shows "(length (concat bs) + n \<le> 1022 \<longrightarrow> (\<exists>f e c'. channel_submit (Inr u) spec kz job s es c = Some (Inr f, e, c', es))) \<and>
    (1022 < n \<longrightarrow> channel_submit (Inr u) spec kz job s es c = None)"
  unfolding n_def using channel_submit_returns [OF assms(1-3)] channel_submit_too_long [OF assms(1-3)] by blast

section \<open>An example\<close>

definition submit_host_ex :: host1x where
  "submit_host_ex = \<lparr>h_hw = 8, h_nb_pts = 4, h_nb_bases = 0, h_reserve_vblank = False, h_hv_regs = True, h_common_regs = False,
     h_wide_gather = True, h_syncpt_base = 0, h_syncpt_end = 4, h_pools = [],
     h_syncpt = replicate 4 (zero_syncpt\<lparr>sp_ref := 1, sp_max := 0xffffffff, sp_min := 0xfffffff0\<rparr>),
     h_bases = [], h_fences = [], h_regs = (\<lambda>_. 0), h_log = []\<rparr>"

text \<open>Two slots of a pending job just before the end of the ring.\<close>

definition job_ex :: "nat \<Rightarrow> u32 \<Rightarrow> host1x_job" where
  "job_ex i n = \<lparr>j_syncpt = i, j_syncpt_end = 0xffffffff, j_syncpt_incrs = n, j_timeout = 0, j_cancelled = False,
     j_first_get = 8160, j_num_slots = 2, j_syncpt_recovery = False, j_client = 0\<rparr>"

definition submit_ex :: host1x_cdma where
  "submit_ex = \<lparr>cd_host = submit_host_ex, cd_ch = 1, cd_class = 0x5D, cd_log = [], cd_event = CDMA_EVENT_NONE,
     cd_slots_used = 0, cd_slots_free = 0, cd_first_get = 0, cd_last_pos = 8176,
     cd_pb = \<lparr>pb_mapped = replicate 2047 0, pb_dma = 0, pb_fence = 8152, pb_pos = 8176, pb_size = 8184\<rparr>,
     cd_queue = [job_ex 1 1], cd_done = [], cd_timeout_initialized = False, cd_timeout_client = None,
     cd_timeout_syncpt = 0, cd_timeout_val = 0, cd_running = True, cd_torndown = False\<rparr>"

definition work_ex :: "host1x_job_cmd list \<Rightarrow> host1x_submit" where
  "work_ex cmds = \<lparr>s_cmds = cmds, s_class = 0x5D, s_serialize = True, s_secondary = None, s_context_streamid = None,
     s_fallback_streamid = 3, s_streamid_offset = 0x30\<rparr>"

definition gather_ex :: host1x_job_cmd where
  "gather_ex = HOST1X_JOB_CMD_GATHER \<lparr>g_words = 16, g_base = 0x100000000, g_bo = 5, g_offset = 64, g_handled = False\<rparr>"

definition wait_ex :: "bool \<Rightarrow> host1x_job_cmd" where
  "wait_ex relative = HOST1X_JOB_CMD_WAIT \<lparr>w_id = 2, w_threshold = 7, w_next_class = 0x5D, w_relative = relative\<rparr>"

lemma submit_ex_slots: "pb_slots (cd_pb submit_ex) = replicate 1023 (0, 0)"
  by (intro nth_equalityI) (simp_all add: pb_slots_def submit_ex_def)

lemma submit_ex_fields:
  "pb_put (cd_pb submit_ex) = 1022" "pb_get (cd_pb submit_ex) = 1020" "h_hw (cd_host submit_ex) = 8"
  "length (h_syncpt (cd_host submit_ex)) = 4" "pb_ok (cd_pb submit_ex)" "cd_queue submit_ex = [job_ex 1 1]"
  "pb_size (cd_pb submit_ex) = 8184"
  by (simp_all add: submit_ex_def submit_host_ex_def pb_put_def pb_get_def pb_ok_def)

lemma submit_ex_sp: "i < 4 \<Longrightarrow> sp_get i (cd_host submit_ex) = zero_syncpt\<lparr>sp_ref := 1, sp_max := 0xffffffff, sp_min := 0xfffffff0\<rparr>"
  by (simp add: submit_ex_def submit_host_ex_def sp_get_def)

lemma submit_ex_holds: "cdma_holds submit_ex [[(0, 0), (0, 0)]] []"
proof -
  have "pb_contents (cd_pb submit_ex) = [(0, 0), (0, 0)]"
    by (simp add: pb_contents_def pb_used_def submit_ex_fields submit_ex_slots ring_contents_def upt_rec)
  then show ?thesis by (simp add: cdma_holds_def pb.holds_def submit_ex_fields job_ex_def)
qed

lemma program_ex:
  "slots_at 1022 (program_ops 8 (job_ex 2 1) (work_ex [wait_ex False, gather_ex, wait_ex True]) 0xffffffff None) =
     [(0x50000000, 0xdead0000), (0xe0000001, 0x40), (0x90000000, 0x701fffff),
      (0x004e0045, 7), (2, 0x20000000), (0x20000000, 0xe1000001),
      (0xe000005d, 0x1740), (0x90000000, 0x7000000c), (0x20000001, 0x1002), (0x004e0045, 0), (2, 0x20000000),
      (0x1740, 0x90000003), (0x7000000c, 0x20000000),
      (0xc0000010, 64), (1, 0x20000000),
      (0x004e0045, 7), (2, 0x20000000), (0x1740, 0x90000003), (0x7000000c, 0x20000000),
      (0x20000001, 0x1002), (0x004e0045, 2), (2, 0x20000000), (0x20000000, 0xe100005d)]"
  by (simp add: program_ops_def work_ex_def wait_ex_def gather_ex_def job_ex_def prefence_ops_def idle_ops_def setclass_ops_def
      wait_ops_def wide_slots_def gather_address_def Let_def stream_id_def
      host1x_opcode_acquire_mlock_def host1x_opcode_release_mlock_def host1x_opcode_setclass_def host1x_opcode_setpayload_def
      host1x_opcode_setstreamid_def host1x_opcode_gather_def host1x_opcode_gather_wide_def host1x_opcode_nonincr_def HOST1X_OPCODE_NOP_def
      HOST1X_CLASS_HOST1X_def HOST1X_UCLASS_LOAD_SYNCPT_PAYLOAD_32_def incr_syncpt_word_def)

lemma length_slots_at: "length ops \<le> length (slots_at p ops)"
  by (induction p ops rule: slots_at.induct) (auto simp: wide_slots_def intro: le_SucI)

lemma program_long:
  "1022 < length (slots_at 1022 (program_ops 8 (job_ex 2 1) (work_ex (replicate 600 (wait_ex True))) 0xffffffff None))"
proof -
  have pre: "prefences (replicate n (wait_ex True)) = ([], replicate n (wait_ex True))" for n
    by (cases n) (simp_all add: wait_ex_def)
  have two: "length (cmd_ops 8 s b (wait_ex True)) = 2" for s b
    by (simp add: wait_ex_def wait_ops_def setclass_ops_def)
  have "2 * n \<le> length (program_ops 8 (job_ex 2 1) (work_ex (replicate n (wait_ex True))) 0xffffffff None)" for n
    by (simp add: program_ops_def work_ex_def pre two length_concat Let_def sum_list_replicate)
  from this [of 600] have "1200 \<le> length (program_ops 8 (job_ex 2 1) (work_ex (replicate 600 (wait_ex True))) 0xffffffff None)" by linarith
  then have "1200 \<le> length (slots_at 1022 (program_ops 8 (job_ex 2 1) (work_ex (replicate 600 (wait_ex True))) 0xffffffff None))"
    using length_slots_at order_trans by blast
  then show ?thesis by linarith
qed

theorem channel_submit_termination_witness:
  "(\<exists>f e c'. channel_submit (Inr ()) None True (job_ex 2 1) (work_ex [wait_ex False, gather_ex, wait_ex True]) [] submit_ex
      = Some (Inr f, e, c', [])) \<and>
   channel_submit (Inr ()) None True (job_ex 2 1) (work_ex (replicate 600 (wait_ex True))) [(1, 0xffffffff)] submit_ex = None"
proof -
  note ex = submit_ex_fields submit_ex_sp host1x_syncpt_read_max_def zero_syncpt_def
  have j: "j_syncpt (job_ex 2 1) = 2" by (simp add: job_ex_def)
  let ?prog = "\<lambda>w. slots_at (pb_put (cd_pb submit_ex)) (program_ops (h_hw (cd_host submit_ex)) (job_ex 2 1) w
     (host1x_syncpt_read_max (j_syncpt (job_ex 2 1)) (cd_host submit_ex)) (sp_base (sp_get (j_syncpt (job_ex 2 1)) (cd_host submit_ex))))"
  have i: "j_syncpt (job_ex 2 1) < length (h_syncpt (cd_host submit_ex))"
    and u: "\<not> sp_locked (sp_get (j_syncpt (job_ex 2 1)) (cd_host submit_ex))" by (simp_all add: ex j)
  have at: "?prog w = slots_at 1022 (program_ops 8 (job_ex 2 1) w 0xffffffff None)" for w by (simp add: ex j)
  have "length (concat [[(0, 0), (0, 0)] :: (u32 \<times> u32) list]) + length (?prog (work_ex [wait_ex False, gather_ex, wait_ex True])) \<le> 1022"
    unfolding at program_ex by simp
  moreover have "1022 < length (?prog (work_ex (replicate 600 (wait_ex True))))" unfolding at by (rule program_long)
  ultimately show ?thesis
    using channel_submit_termination [OF submit_ex_holds i u] by blast
qed

theorem channel_submit_appends_witness:
  "\<exists>f e c' k. channel_submit (Inr ()) None True (job_ex 2 1) (work_ex [wait_ex False, gather_ex, wait_ex True]) [] submit_ex
      = Some (Inr f, e, c', []) \<and> e = 1 \<and> host1x_syncpt_read_max 2 (cd_host c') = 2 \<and> cd_last_pos c' = pb_pos (cd_pb c') \<and>
    map j_num_slots (cd_done c' @ cd_queue c') = [2, 23] \<and>
    pb_contents (cd_pb c') = concat (drop k [[(0, 0), (0, 0)], slots_at 1022 (program_ops 8 (job_ex 2 1)
      (work_ex [wait_ex False, gather_ex, wait_ex True]) 0xffffffff None)])"
proof -
  note ex = submit_ex_fields submit_ex_sp host1x_syncpt_read_max_def zero_syncpt_def
  have j: "j_syncpt (job_ex 2 1) = 2" "j_syncpt_incrs (job_ex 2 1) = 1" "j_num_slots (job_ex i n) = 2" for i n by (simp_all add: job_ex_def)
  let ?w = "work_ex [wait_ex False, gather_ex, wait_ex True]"
  obtain f e c' where run: "channel_submit (Inr ()) None True (job_ex 2 1) ?w [] submit_ex = Some (Inr f, e, c', [])"
    using channel_submit_returns [of submit_ex "[[(0, 0), (0, 0)]]" "job_ex 2 1" ?w "()" None True "[]"]
      program_ex submit_ex_holds by (auto simp: ex j)
  have i: "j_syncpt (job_ex 2 1) < length (h_syncpt (cd_host submit_ex))" by (simp add: ex j)
  let ?ws = "slots_at 1022 (program_ops 8 (job_ex 2 1) ?w 0xffffffff None)"
  have len: "length ?ws = 23" by (simp add: program_ex)
  note app = channel_submit_appends [OF submit_ex_holds i run]
  have e: "e = 1" "host1x_syncpt_read_max 2 (cd_host c') = 2" "cd_last_pos c' = pb_pos (cd_pb c')"
    using app by (simp_all add: ex j program_end_def program_incrs_def)
  obtain k job' where k: "cd_queue c' = drop k [job_ex 1 1, job']" "cd_done c' = cd_done submit_ex @ take k [job_ex 1 1, job']"
      "cdma_holds c' (drop k [[(0, 0), (0, 0)], ?ws]) []" "j_num_slots job' = of_nat (length ?ws)"
    using app by (auto simp: ex j)
  have "map j_num_slots (cd_done c' @ cd_queue c') = [2, 23]"
    using k by (simp add: submit_ex_def j len flip: map_append)
  then show ?thesis using run e k(3) by (auto simp: cdma_holds_def pb.holds_def)
qed

end
