(* ===== verification/Host1x_Timeout.thy ===== *)
theory Host1x_Timeout imports Host1x_Submit_Facts begin

text \<open>
  What a job timeout does: comparisons of counters that wrap around, the jobs that are cancelled and the
  slots that are overwritten.
\<close>

section \<open>Overwriting slots of the ring\<close>

lemma mapped_fields [simp]:
  "pb_get (pb\<lparr>pb_mapped := m\<rparr>) = pb_get pb" "pb_used (pb\<lparr>pb_mapped := m\<rparr>) = pb_used pb"
  by (simp_all add: pb_get_def pb_used_def pb_put_def)





lemma map_write: "m[2 * s := fst w, 2 * s + 1 := snd w] = m[2 * s := a, 2 * s + 1 := b]" if "w = (a, b)"
  using that by simp





section \<open>What the handler does around this\<close>

text \<open>Steps that leave alone the jobs, the values in the registers, the locks of the syncpoints and the timer.\<close>

definition locks :: "host1x_cdma \<Rightarrow> bool list" where
  "locks c = map sp_locked (h_syncpt (cd_host c))"

definition calm :: "host1x_cdma \<Rightarrow> host1x_cdma \<Rightarrow> bool" where
  "calm c c' \<longleftrightarrow> same_jobs c c' \<and> locks c' = locks c \<and> h_wide_gather (cd_host c') = h_wide_gather (cd_host c) \<and>
     (\<forall>i. h_regs (cd_host c') (SYNCPT i) = h_regs (cd_host c) (SYNCPT i)) \<and>
     cd_timeout_client c' = cd_timeout_client c \<and> cd_timeout_syncpt c' = cd_timeout_syncpt c \<and>
     cd_timeout_val c' = cd_timeout_val c"

lemma calm_refl: "calm c c"
  by (simp add: calm_def same_jobs_def)

lemma calm_trans: "calm c c1 \<Longrightarrow> calm c1 c2 \<Longrightarrow> calm c c2"
  by (simp add: calm_def same_jobs_def)

lemma calm_ch_writel: "calm c (host1x_ch_writel v r c)"
  by (simp add: calm_def same_jobs_def locks_def)

lemma calm_fields: "calm c (c\<lparr>cd_running := b\<rparr>)" "calm c (c\<lparr>cd_torndown := b\<rparr>)" "calm c (c\<lparr>cd_last_pos := x\<rparr>)"
  by (simp_all add: calm_def same_jobs_def locks_def)

lemma calm_sync_writel:
  assumes "\<forall>k. r \<noteq> SYNCPT k \<and> r \<noteq> SYNCPT_CPU_INCR k"
  shows "calm c (on_host (\<lambda>h. host1x_sync_writel (v h) r h) c)"
  using assms by (cases r) (simp_all add: calm_def same_jobs_def locks_def host1x_sync_writel_def hw_response_def)

lemma calm_load: "calm c (c\<lparr>cd_host := snd (host1x_syncpt_load i (cd_host c))\<rparr>)"
  by (simp add: calm_def same_jobs_def locks_def host1x_syncpt_load_def Let_def sp_put_def sp_get_def map_update_same)

lemma calm_cmdproc_stop: "calm c (cdma_hw_cmdproc_stop stop c)"
  unfolding cdma_hw_cmdproc_stop_def Let_def using calm_ch_writel calm_sync_writel by (auto split: if_split)

lemma calm_teardown: "calm c (cdma_hw_teardown c)"
  unfolding cdma_hw_teardown_def using calm_ch_writel calm_sync_writel [where v = "\<lambda>_. push_bit (cd_ch c) 1"]
  by (auto split: if_split)

text \<open>The same as rules for a sequence of steps, last step first.\<close>

lemma calm_then:
  "calm c c1 \<Longrightarrow> calm c (host1x_ch_writel v r c1)"
  "calm c c1 \<Longrightarrow> calm c (c1\<lparr>cd_running := b\<rparr>)"
  "calm c c1 \<Longrightarrow> calm c (c1\<lparr>cd_torndown := b\<rparr>)"
  "calm c c1 \<Longrightarrow> calm c (c1\<lparr>cd_last_pos := x\<rparr>)"
  "calm c c1 \<Longrightarrow> calm c (cdma_hw_cmdproc_stop stop c1)"
  "calm c c1 \<Longrightarrow> calm c (cdma_hw_teardown c1)"
  using calm_trans calm_ch_writel calm_fields calm_cmdproc_stop calm_teardown by blast+

lemma calm_window_then: "calm c c1 \<Longrightarrow> calm c (write_window c1)" "calm c c1 \<Longrightarrow> calm c (write_end c1)"
  by (auto simp: write_window_def write_end_def Let_def intro: calm_then)

lemma calm_freeze: "calm c (cdma_freeze c)"
  unfolding cdma_freeze_def Let_def by (auto intro!: calm_then calm_refl)

lemma calm_release_mlock: "calm c (timeout_release_mlock c)"
  unfolding timeout_release_mlock_def using calm_refl calm_sync_writel [where v = "\<lambda>_. 0"] by (auto split: option.split)

lemma calm_resume: "calm c (cdma_resume getptr c)"
  unfolding cdma_resume_def cdma_timeout_restart_def Let_def by (auto intro!: calm_then calm_window_then calm_refl)

section \<open>Places of jobs\<close>





lemma first_pending_None: "first_pending v js = None \<longleftrightarrow> (\<forall>j \<in> set js. j_syncpt_end j \<le> v)"
  by (induction js) (auto simp: not_less)

section \<open>The handler\<close>

lemma handler_steps:
  assumes "cd_timeout_client c \<noteq> None"
  defines "v \<equiv> h_regs (cd_host c) (SYNCPT (cd_timeout_syncpt c))"
  obtains d where "calm c d" and "cdma_timeout_handler c = (if 0 \<le>s v - cd_timeout_val c then cdma_hw_cmdproc_stop False d
      else host1x_cdma_update_sync_queue (timeout_release_mlock (cdma_freeze d)))"
proof -
  let ?s = "cdma_hw_cmdproc_stop True c"
  let ?d = "?s\<lparr>cd_host := snd (host1x_syncpt_load (cd_timeout_syncpt ?s) (cd_host ?s))\<rparr>"
  have s: "calm c ?s" by (rule calm_cmdproc_stop)
  then have d: "calm c ?d" using calm_load calm_trans by blast
  have "fst (host1x_syncpt_load (cd_timeout_syncpt ?s) (cd_host ?s)) = v" "cd_timeout_val ?d = cd_timeout_val c"
    using s d by (simp_all add: host1x_syncpt_load_def host1x_sync_readl_def Let_def v_def calm_def)
  then have "cdma_timeout_handler c = (if 0 \<le>s v - cd_timeout_val c then cdma_hw_cmdproc_stop False ?d
      else host1x_cdma_update_sync_queue (timeout_release_mlock (cdma_freeze ?d)))"
    unfolding cdma_timeout_handler_def if_not_P [OF assms(1)] Let_def split_beta by (simp only:)
  with d show ?thesis by (rule that)
qed

lemma update_sync_queue_steps:
  fixes c :: host1x_cdma
  defines "v \<equiv> h_regs (cd_host c) (SYNCPT (cd_timeout_syncpt c))"
  obtains d where "calm c d" and "host1x_cdma_update_sync_queue c = (case first_pending v (cd_queue d) of
           None \<Rightarrow> cdma_resume (cd_last_pos d) d
         | Some (pre, job, rest) \<Rightarrow>
             let restart_addr = (case rest of next # _ \<Rightarrow> j_first_get next | [] \<Rightarrow> cd_last_pos d)
             in if j_syncpt_recovery job then
                  let c = d\<lparr>cd_queue := pre @ job\<lparr>j_timeout := 0\<rparr> # rest\<rparr>
                  in cdma_resume restart_addr (cdma_timeout_cpu_incr (j_syncpt_end job - v) c)
                else
                  let c = on_host (host1x_syncpt_set_locked (j_syncpt job)) d;
                      (rest, m) = cancel_later (h_wide_gather (cd_host c)) (j_syncpt job) rest (pb_mapped (cd_pb c));
                      c = c\<lparr>cd_queue := pre @ job\<lparr>j_cancelled := True\<rparr> # rest,
                            cd_pb := (cd_pb c)\<lparr>pb_mapped := m\<rparr>\<rparr>
                  in cdma_resume restart_addr (update_cdma_locked c))"
proof -
  let ?d = "c\<lparr>cd_host := snd (host1x_syncpt_load (cd_timeout_syncpt c) (cd_host c))\<rparr>"
  have "fst (host1x_syncpt_load (cd_timeout_syncpt c) (cd_host c)) = v"
    by (simp add: host1x_syncpt_load_def host1x_sync_readl_def Let_def v_def)
  then have e: "host1x_syncpt_load (cd_timeout_syncpt c) (cd_host c) = (v, snd (host1x_syncpt_load (cd_timeout_syncpt c) (cd_host c)))"
    by (metis prod.collapse)
  show ?thesis
    by (rule that [OF calm_load [of c "cd_timeout_syncpt c"]]) (subst host1x_cdma_update_sync_queue_def, subst e, simp only: Let_def prod.case)
qed

text \<open>C36: A timed-out job is missed when its end value lies behind the wrap of the counter: the search
  compares the values as plain numbers and, when no job of the queue ends above the value read, finds none that
  is not done, cancels nothing, locks nothing and leaves the timer marked as running, so that it is never
  started again for this queue.\<close>

theorem timeout_missed_after_wrap:
  fixes c :: host1x_cdma
  defines "v \<equiv> h_regs (cd_host c) (SYNCPT (cd_timeout_syncpt c))" and "c' \<equiv> cdma_timeout_handler c"
  assumes client: "cd_timeout_client c = Some cl" and late: "\<not> 0 \<le>s v - cd_timeout_val c"
    and wrapped: "\<forall>j \<in> set (cd_queue c). j_syncpt_end j \<le> v"
  shows "cd_queue c' = cd_queue c \<and> cd_done c' = cd_done c \<and> locks c' = locks c \<and> cd_timeout_client c' = Some cl \<and>
    (\<forall>job. cdma_start_timer_locked job c' = c')"
proof -
  have "cd_timeout_client c \<noteq> None" using client by simp
  then obtain d where d0: "calm c d" "c' = (if 0 \<le>s v - cd_timeout_val c then cdma_hw_cmdproc_stop False d
      else host1x_cdma_update_sync_queue (timeout_release_mlock (cdma_freeze d)))"
    unfolding v_def c'_def by (rule handler_steps)
  then have d: "calm c d" "c' = host1x_cdma_update_sync_queue (timeout_release_mlock (cdma_freeze d))" using late by simp_all
  let ?f = "timeout_release_mlock (cdma_freeze d)"
  have f: "calm c ?f" using calm_trans [OF d(1) calm_trans [OF calm_freeze calm_release_mlock]] .
  have v: "h_regs (cd_host ?f) (SYNCPT (cd_timeout_syncpt ?f)) = v" using f by (simp add: calm_def v_def)
  obtain e where e: "calm ?f e" and u: "first_pending v (cd_queue e) = None \<Longrightarrow> c' = cdma_resume (cd_last_pos e) e"
    by (rule update_sync_queue_steps [of ?f, unfolded v, folded d(2)]) (rule that, assumption, simp)
  have ce: "calm c e" by (rule calm_trans [OF f e])
  have "first_pending v (cd_queue e) = None" using ce wrapped by (simp add: first_pending_None calm_def same_jobs_def)
  then have "calm c c'" using u calm_trans [OF ce calm_resume] by simp
  then show ?thesis using client by (simp add: calm_def same_jobs_def cdma_start_timer_locked_def)
qed



lemma wide_set_locked [simp]: "h_wide_gather (host1x_syncpt_set_locked i h) = h_wide_gather h"
  by (simp add: host1x_syncpt_set_locked_def sp_put_def)





text \<open>The order of two numbers close to each other, by their remainders.\<close>

lemma wrapped_order:
  fixes r s a b :: nat
  assumes "r < 2 ^ 32" and "s < 2 ^ 32" and "2 ^ 32 * a + r < 2 ^ 32 * b + s + 2 ^ 31" and "2 ^ 32 * b + s \<le> 2 ^ 32 * a + r + 2 ^ 31"
  shows "s \<le> r \<longleftrightarrow> (if a = b then 2 ^ 32 * b + s \<le> 2 ^ 32 * a + r else 2 ^ 32 * a + r < 2 ^ 32 * b + s)"
  using assms by (cases a b rule: linorder_cases) auto

text \<open>C35: While a counter and a threshold are less than half the range of the counter apart, the test that
  ends a job of the queue is the comparison of the numbers of increments they stand for, whatever wraps
  around in between; the search that looks for the job that timed out compares the 32-bit values and agrees
  with it exactly when both numbers lie between the same two wraps of the counter.\<close>

theorem completion_tests_agree:
  assumes "sp_min (sp_get (j_syncpt job) (cd_host c)) = of_nat n" and "j_syncpt_end job = of_nat t"
    and "n < t + 2 ^ 31" and "t \<le> n + 2 ^ 31" and "\<not> j_cancelled job"
  shows "(job_finished job c \<longleftrightarrow> t \<le> n) \<and>
    (first_pending (of_nat n) [job] = None \<longleftrightarrow>
      (if n div 2 ^ 32 = t div 2 ^ 32 then t \<le> n else n < t))"
proof
  show "job_finished job c \<longleftrightarrow> t \<le> n"
    using expired_iff [OF assms(1,3,4)] assms(2,5) by (simp add: job_finished_def)
  have "first_pending (of_nat n) [job] = None \<longleftrightarrow> t mod 2 ^ 32 \<le> n mod 2 ^ 32"
    unfolding first_pending_None by (simp add: assms(2) word_le_nat_alt unat_of_nat)
  moreover have "t mod 2 ^ 32 \<le> n mod 2 ^ 32 \<longleftrightarrow> (if n div 2 ^ 32 = t div 2 ^ 32 then t \<le> n else n < t)"
    using wrapped_order [of "n mod 2 ^ 32" "t mod 2 ^ 32" "n div 2 ^ 32" "t div 2 ^ 32", unfolded mult_div_mod_eq] assms(3,4)
    by simp
  ultimately show "first_pending (of_nat n) [job] = None \<longleftrightarrow>
      (if n div 2 ^ 32 = t div 2 ^ 32 then t \<le> n else n < t)" by simp
qed

section \<open>Examples\<close>

text \<open>A job that ends at 0xfffffff8, a job of another syncpoint and a job of the first that ends after the
  wrap; the register of the first reads 0xfffffff0 or, for the missed job, 0xfffffffa.\<close>

definition late_job :: "nat \<Rightarrow> u32 \<Rightarrow> u32 \<Rightarrow> host1x_job" where
  "late_job i v first = (job_ex i 1)\<lparr>j_syncpt_end := v, j_first_get := first, j_num_slots := 1, j_timeout := 1000\<rparr>"

definition late_ex :: "u32 \<Rightarrow> host1x_job list \<Rightarrow> host1x_cdma" where
  "late_ex v jobs = submit_ex\<lparr>cd_host := (cd_host submit_ex)\<lparr>h_regs := (\<lambda>_. 0)(SYNCPT 1 := v)\<rparr>, cd_queue := jobs,
     cd_timeout_client := Some 0, cd_timeout_syncpt := 1, cd_timeout_val := (case jobs of [] \<Rightarrow> 5 | job # _ \<Rightarrow> j_syncpt_end job)\<rparr>"

theorem timeout_missed_after_wrap_witness:
  "let c = late_ex 0xfffffffa [late_job 1 5 8160]; c' = cdma_timeout_handler c
   in cd_queue c' = [late_job 1 5 8160] \<and> cd_timeout_client c' = Some 0 \<and>
     cdma_start_timer_locked (late_job 1 5 8160) c' = c'"
  using timeout_missed_after_wrap [of "late_ex 0xfffffffa [late_job 1 5 8160]" 0]
  by (simp add: Let_def late_ex_def late_job_def word_sle_eq)



theorem completion_tests_agree_witness:
  "\<not> job_finished (late_job 1 5 8160) (late_ex 0xfffffffa []) \<and> first_pending 0xfffffff0 [late_job 1 5 8160] = None"
proof -
  have "sp_min (sp_get (j_syncpt (late_job 1 5 8160)) (cd_host (late_ex 0xfffffffa []))) = of_nat 0xfffffff0" (is "sp_min ?s = _")
    by (simp add: late_job_def late_ex_def job_ex_def submit_ex_def submit_host_ex_def sp_get_def)
  moreover have "j_syncpt_end (late_job 1 5 8160) = of_nat 0x100000005" "\<not> j_cancelled (late_job 1 5 8160)"
    by (simp_all add: late_job_def job_ex_def)
  ultimately show ?thesis
    using completion_tests_agree [of "late_job 1 5 8160" "late_ex 0xfffffffa []" "0xfffffff0" "0x100000005"] by simp
qed

end
