(* ===== verification/Host1x_Job.thy ===== *)
theory Host1x_Job imports Host1x_Channel begin

text \<open>
  Jobs of host1x (\<open>drivers/gpu/host1x/job.c\<close>): allocation, commands, pinning of the buffers they use, the
  copy of the gathers with the firewall of the kernel side, relocations and unpinning.  A buffer object
  is a number; what the jobs change of it (references, mappings, words) is the record \<open>job_memory\<close>.
  The value \<open>None\<close> is an access outside of an array or of a buffer, a call through a null pointer or a
  reference dropped that is not held.
\<close>

section \<open>Data\<close>

record host1x_reloc =
  rl_cmdbuf_bo :: nat
  rl_cmdbuf_offset :: u64
  rl_target_bo :: "nat option"
  rl_target_offset :: u64
  rl_shift :: u64
  rl_flags :: u64

datatype dma_data_direction = DMA_BIDIRECTIONAL | DMA_TO_DEVICE | DMA_FROM_DEVICE

record host1x_bo_mapping =
  map_bo :: nat
  map_phys :: u64
  map_size :: u64
  map_chunks :: nat

text \<open>
  \<open>jo_cmds\<close>, \<open>jo_relocs\<close> and \<open>jo_unpins\<close> hold the entries in use; \<open>jo_max_cmds\<close> is the length of the array
  of commands.  \<open>addr_phys\<close> and \<open>gather_addr_phys\<close> are one array: the second begins at \<open>jo_gather_phys\<close>.
\<close>

record job_object =
  jo_ref :: nat
  jo_cmds :: "host1x_job_cmd list"
  jo_max_cmds :: nat
  jo_relocs :: "host1x_reloc list"
  jo_unpins :: "host1x_bo_mapping list"
  jo_addr_phys :: "u64 list"
  jo_gather_phys :: nat
  jo_syncpt :: "nat option"
  jo_syncpt_incrs :: u32
  jo_secondary :: "nat option"
  jo_fence :: "nat option"
  jo_timeout :: u32
  jo_gather_copy_size :: u64
  jo_gather_copy :: u64
  jo_gather_copy_mapped :: "u32 list"
  jo_is_addr_reg :: "(u32 \<Rightarrow> u32 \<Rightarrow> bool) option"
  jo_is_valid_class :: "(u32 \<Rightarrow> bool) option"
  jo_class :: u32
  jo_serialize :: bool
  jo_enable_firewall :: bool

text \<open>\<open>jm_iovas\<close>: ranges in use of the address space of host1x; \<open>jm_copies\<close>: gather copies not yet freed.\<close>

record job_memory =
  jm_bo_ref :: "nat \<Rightarrow> nat"
  jm_bo_pins :: "nat \<Rightarrow> nat"
  jm_bo_words :: "nat \<Rightarrow> u32 list"
  jm_iovas :: "u64 list"
  jm_copies :: "u64 list"

text \<open>
  What the code asks of the kernel and of the provider of the buffers: whether host1x has an address space of its
  own, pinning, allocation of a range in that address space beside those in use, mapping and its size, the kernel
  mapping of a buffer, and DMA memory for a copy of a given size.
\<close>

record job_env =
  je_domain :: bool
  je_pin :: "nat \<Rightarrow> dma_data_direction \<Rightarrow> errno + host1x_bo_mapping"
  je_alloc_iova :: "u64 list \<Rightarrow> u64 option"
  je_map_sgtable :: "nat \<Rightarrow> bool"
  je_gather_size :: "nat \<Rightarrow> u64"
  je_mmap :: "nat \<Rightarrow> bool"
  je_dma_alloc :: "u64 \<Rightarrow> u64 option"

section \<open>Buffer objects\<close>

definition host1x_bo_get :: "nat \<Rightarrow> job_memory \<Rightarrow> job_memory" where
  "host1x_bo_get b m = m\<lparr>jm_bo_ref := (jm_bo_ref m)(b := jm_bo_ref m b + 1)\<rparr>"

definition host1x_bo_put :: "nat \<Rightarrow> job_memory \<Rightarrow> job_memory option" where
  "host1x_bo_put b m =
     (if jm_bo_ref m b = 0 then None else Some (m\<lparr>jm_bo_ref := (jm_bo_ref m)(b := jm_bo_ref m b - 1)\<rparr>))"

text \<open>Without a cache, as this file calls them.\<close>

definition host1x_bo_pin ::
  "job_env \<Rightarrow> nat \<Rightarrow> dma_data_direction \<Rightarrow> job_memory \<Rightarrow> (errno + host1x_bo_mapping) \<times> job_memory" where
  "host1x_bo_pin env b dir m =
     (case je_pin env b dir of
        Inl e \<Rightarrow> (Inl e, m)
      | Inr mp \<Rightarrow> (Inr mp, m\<lparr>jm_bo_pins := (jm_bo_pins m)(b := jm_bo_pins m b + 1)\<rparr>))"

definition host1x_bo_unpin :: "host1x_bo_mapping \<Rightarrow> job_memory \<Rightarrow> job_memory option" where
  "host1x_bo_unpin mp m =
     (let b = map_bo mp
      in if jm_bo_pins m b = 0 then None else Some (m\<lparr>jm_bo_pins := (jm_bo_pins m)(b := jm_bo_pins m b - 1)\<rparr>))"

section \<open>Allocation and commands\<close>

text \<open>
  The arrays of a job; \<open>num_unpins\<close> is a 32-bit sum.  The total size is a sum of products of 32-bit
  numbers in 64 bits, so the test against \<open>ULONG_MAX\<close> never holds; \<open>kzalloc\<close> tells whether there is memory.
\<close>

definition host1x_job_alloc :: "bool \<Rightarrow> bool \<Rightarrow> u32 \<Rightarrow> u32 \<Rightarrow> bool \<Rightarrow> job_object option" where
  "host1x_job_alloc kzalloc config_firewall num_cmdbufs num_relocs skip_firewall =
     (let enable_firewall = (config_firewall \<and> \<not> skip_firewall);
          num_unpins = (if \<not> enable_firewall then num_relocs + num_cmdbufs else num_relocs)
      in if \<not> kzalloc then None
         else Some \<lparr>jo_ref = 1, jo_cmds = [], jo_max_cmds = unat num_cmdbufs, jo_relocs = [], jo_unpins = [],
           jo_addr_phys = replicate (unat num_unpins) 0, jo_gather_phys = unat num_relocs, jo_syncpt = None,
           jo_syncpt_incrs = 0, jo_secondary = None, jo_fence = None, jo_timeout = 0, jo_gather_copy_size = 0,
           jo_gather_copy = 0, jo_gather_copy_mapped = [], jo_is_addr_reg = None, jo_is_valid_class = None,
           jo_class = 0, jo_serialize = False, jo_enable_firewall = enable_firewall\<rparr>)"

definition host1x_job_get :: "job_object \<Rightarrow> job_object" where
  "host1x_job_get job = job\<lparr>jo_ref := jo_ref job + 1\<rparr>"

text \<open>
  The release callback of the client is not part of this; \<open>removed\<close>: the callback of the fence had not
  run, \<open>cb_done\<close>: it has completed (the code waits for that).
\<close>

definition job_free :: "bool \<Rightarrow> bool \<Rightarrow> job_object \<Rightarrow> host1x \<Rightarrow> host1x option" where
  "job_free removed cb_done job h = do {
     h \<leftarrow> (case jo_fence job of
             None \<Rightarrow> Some h
           | Some f \<Rightarrow>
               if \<not> removed \<and> \<not> cb_done then None
               else (case fence_put (fence_at f h) of None \<Rightarrow> None | Some fence \<Rightarrow> Some (set_fence f fence h)));
     h \<leftarrow> host1x_syncpt_put (jo_syncpt job) h;
     host1x_syncpt_put (jo_secondary job) h }"

definition host1x_job_put :: "bool \<Rightarrow> bool \<Rightarrow> job_object \<Rightarrow> host1x \<Rightarrow> (job_object option \<times> host1x) option" where
  "host1x_job_put removed cb_done job h =
     (if jo_ref job = 0 then None
      else if jo_ref job = 1 then map_option (\<lambda>h. (None, h)) (job_free removed cb_done job h)
      else Some (Some (job\<lparr>jo_ref := jo_ref job - 1\<rparr>), h))"

definition add_cmd :: "host1x_job_cmd \<Rightarrow> job_object \<Rightarrow> job_object option" where
  "add_cmd cmd job = (if length (jo_cmds job) < jo_max_cmds job then Some (job\<lparr>jo_cmds := jo_cmds job @ [cmd]\<rparr>) else None)"

definition host1x_job_add_gather :: "nat \<Rightarrow> u32 \<Rightarrow> u32 \<Rightarrow> job_object \<Rightarrow> job_object option" where
  "host1x_job_add_gather bo words offset =
     add_cmd (HOST1X_JOB_CMD_GATHER \<lparr>g_words = words, g_base = 0, g_bo = bo, g_offset = offset, g_handled = False\<rparr>)"

definition host1x_job_add_wait :: "u32 \<Rightarrow> u32 \<Rightarrow> bool \<Rightarrow> u32 \<Rightarrow> job_object \<Rightarrow> job_object option" where
  "host1x_job_add_wait i thresh relative next_class =
     add_cmd (HOST1X_JOB_CMD_WAIT \<lparr>w_id = i, w_threshold = thresh, w_next_class = next_class, w_relative = relative\<rparr>)"

definition host1x_job_add_reg_write :: "u32 \<Rightarrow> u32 \<Rightarrow> job_object \<Rightarrow> job_object option" where
  "host1x_job_add_reg_write reg v = add_cmd (HOST1X_JOB_CMD_REG_WRITE \<lparr>rw_reg = reg, rw_value = v\<rparr>)"

section \<open>Unpinning\<close>

fun unpin_maps :: "job_env \<Rightarrow> bool \<Rightarrow> (host1x_bo_mapping \<times> u64) list \<Rightarrow> job_memory \<Rightarrow> job_memory option" where
  "unpin_maps env fw [] m = Some m"
| "unpin_maps env fw ((mp, phys) # rest) m =
     (let m = (if \<not> fw \<and> map_size mp \<noteq> 0 \<and> je_domain env then m\<lparr>jm_iovas := remove1 phys (jm_iovas m)\<rparr> else m)
      in do { m \<leftarrow> host1x_bo_unpin mp m; m \<leftarrow> host1x_bo_put (map_bo mp) m; unpin_maps env fw rest m })"

definition host1x_job_unpin :: "job_env \<Rightarrow> job_object \<Rightarrow> job_memory \<Rightarrow> (job_object \<times> job_memory) option" where
  "host1x_job_unpin env job m = do {
     m \<leftarrow> unpin_maps env (jo_enable_firewall job) (zip (jo_unpins job) (jo_addr_phys job)) m;
     let job = job\<lparr>jo_unpins := []\<rparr>;
     if jo_gather_copy_size job = 0 then Some (job, m)
     else if jo_gather_copy job \<in> set (jm_copies m)
     then Some (job, m\<lparr>jm_copies := remove1 (jo_gather_copy job) (jm_copies m)\<rparr>)
     else None }"

section \<open>Pinning\<close>

definition add_unpin :: "host1x_bo_mapping \<Rightarrow> job_object \<Rightarrow> job_object option" where
  "add_unpin mp job =
     (let n = length (jo_unpins job)
      in if n < length (jo_addr_phys job)
         then Some (job\<lparr>jo_addr_phys := (jo_addr_phys job)[n := map_phys mp], jo_unpins := jo_unpins job @ [mp]\<rparr>)
         else None)"

definition reloc_direction :: "u64 \<Rightarrow> dma_data_direction option" where
  "reloc_direction flags =
     (if flags AND 3 = 1 then Some DMA_TO_DEVICE
      else if flags AND 3 = 2 then Some DMA_FROM_DEVICE
      else if flags AND 3 = 3 then Some DMA_BIDIRECTIONAL
      else None)"

fun pin_relocs ::
  "job_env \<Rightarrow> host1x_reloc list \<Rightarrow> job_object \<Rightarrow> job_memory \<Rightarrow> ((errno + unit) \<times> job_object \<times> job_memory) option" where
  "pin_relocs env [] job m = Some (Inr (), job, m)"
| "pin_relocs env (r # rs) job m =
     (case rl_target_bo r of
        None \<Rightarrow> None
      | Some b \<Rightarrow>
          let m = host1x_bo_get b m
          in (case reloc_direction (rl_flags r) of
                None \<Rightarrow> Some (Inl EINVAL, job, m)
              | Some dir \<Rightarrow>
                  (case host1x_bo_pin env b dir m of
                     (Inl e, m) \<Rightarrow> Some (Inl e, job, m)
                   | (Inr mp, m) \<Rightarrow>
                       if 1 < map_chunks mp then Some (Inl EINVAL, job, m)
                       else do { job \<leftarrow> add_unpin mp job; pin_relocs env rs job m })))"

fun pin_gathers ::
  "job_env \<Rightarrow> nat \<Rightarrow> host1x_job_cmd list \<Rightarrow> job_object \<Rightarrow> job_memory \<Rightarrow> ((errno + unit) \<times> job_object \<times> job_memory) option" where
  "pin_gathers env i [] job m = Some (Inr (), job, m)"
| "pin_gathers env i (HOST1X_JOB_CMD_GATHER g # cs) job m =
     (let m = host1x_bo_get (g_bo g) m
      in case host1x_bo_pin env (g_bo g) DMA_TO_DEVICE m of
           (Inl e, m) \<Rightarrow> Some (Inl e, job, m)
         | (Inr mp, m) \<Rightarrow>
             let mapped =
               (if \<not> je_domain env then Inr (mp, m)
                else case je_alloc_iova env (jm_iovas m) of
                       None \<Rightarrow> Inl ENOMEM
                     | Some iova \<Rightarrow>
                         if \<not> je_map_sgtable env (g_bo g) then Inl EINVAL
                         else Inr (mp\<lparr>map_phys := iova, map_size := je_gather_size env (g_bo g)\<rparr>,
                                   m\<lparr>jm_iovas := jm_iovas m @ [iova]\<rparr>))
             in (case mapped of
                   Inl e \<Rightarrow> do { m \<leftarrow> host1x_bo_put (g_bo g) m; Some (Inl e, job, m) }
                 | Inr (mp, m) \<Rightarrow> do {
                     job \<leftarrow> add_unpin mp job;
                     if jo_gather_phys job + i < length (jo_addr_phys job)
                     then pin_gathers env (Suc i) cs
                       (job\<lparr>jo_addr_phys := (jo_addr_phys job)[jo_gather_phys job + i := map_phys mp]\<rparr>) m
                     else None }))"
| "pin_gathers env i (_ # cs) job m = pin_gathers env (Suc i) cs job m"

definition pin_job :: "job_env \<Rightarrow> job_object \<Rightarrow> job_memory \<Rightarrow> ((errno + unit) \<times> job_object \<times> job_memory) option" where
  "pin_job env job m = do {
     (r, job, m) \<leftarrow> pin_relocs env (jo_relocs job) (job\<lparr>jo_unpins := []\<rparr>) m;
     (r, job, m) \<leftarrow> (if isl r \<or> jo_enable_firewall job then Some (r, job, m)
                   else pin_gathers env 0 (jo_cmds job) job m);
     case r of
       Inl e \<Rightarrow> do { (job, m) \<leftarrow> host1x_job_unpin env job m; Some (Inl e, job, m) }
     | Inr _ \<Rightarrow> Some (Inr (), job, m) }"

section \<open>Relocations\<close>

text \<open>A relocation of \<open>g\<close>: the address goes into the copy of the gathers or into the buffer itself.\<close>

definition patch_word :: "nat \<Rightarrow> u32 \<Rightarrow> u32 list \<Rightarrow> u32 list option" where
  "patch_word i v ws = (if i < length ws then Some (ws[i := v]) else None)"

fun do_reloc_list ::
  "job_env \<Rightarrow> host1x_job_gather \<Rightarrow> nat \<Rightarrow> host1x_reloc list \<Rightarrow> bool \<Rightarrow> job_object \<Rightarrow> job_memory \<Rightarrow>
    ((errno + unit) \<times> job_object \<times> job_memory) option" where
  "do_reloc_list env g i [] cmdbuf_addr job m = Some (Inr (), job, m)"
| "do_reloc_list env g i (r # rs) cmdbuf_addr job m =
     (if length (jo_addr_phys job) \<le> i \<or> 64 \<le> unat (rl_shift r) then None
      else
        let reloc_addr = (ucast (drop_bit (unat (rl_shift r)) (jo_addr_phys job ! i + rl_target_offset r)) :: u32)
        in if g_bo g \<noteq> rl_cmdbuf_bo r then do_reloc_list env g (Suc i) rs cmdbuf_addr job m
           else if jo_enable_firewall job then do {
             ws \<leftarrow> patch_word (unat (rl_cmdbuf_offset r) div 4 + unat (g_offset g) div 4) reloc_addr (jo_gather_copy_mapped job);
             do_reloc_list env g (Suc i) rs cmdbuf_addr (job\<lparr>jo_gather_copy_mapped := ws\<rparr>) m }
           else if \<not> cmdbuf_addr \<and> \<not> je_mmap env (g_bo g) then Some (Inl ENOMEM, job, m)
           else if unat (rl_cmdbuf_offset r) mod 4 \<noteq> 0 then None
           else do {
             ws \<leftarrow> patch_word (unat (rl_cmdbuf_offset r) div 4) reloc_addr (jm_bo_words m (g_bo g));
             do_reloc_list env g (Suc i) rs True job (m\<lparr>jm_bo_words := (jm_bo_words m)(g_bo g := ws)\<rparr>) })"

definition do_relocs ::
  "job_env \<Rightarrow> host1x_job_gather \<Rightarrow> job_object \<Rightarrow> job_memory \<Rightarrow> ((errno + unit) \<times> job_object \<times> job_memory) option" where
  "do_relocs env g job m = do_reloc_list env g 0 (jo_relocs job) False job m"

definition check_reloc :: "host1x_reloc \<Rightarrow> nat \<Rightarrow> u32 \<Rightarrow> bool" where
  "check_reloc reloc cmdbuf offset \<longleftrightarrow>
     rl_cmdbuf_bo reloc = cmdbuf \<and> rl_cmdbuf_offset reloc = ucast (offset * 4) \<and> rl_shift reloc = 0"

section \<open>The firewall\<close>

text \<open>\<open>hf_relocs\<close> are the relocations from \<open>fw->reloc\<close> on, \<open>num_relocs\<close> of them.\<close>

record host1x_firewall =
  hf_relocs :: "host1x_reloc list"
  hf_cmdbuf :: nat
  hf_offset :: u32
  hf_words :: u32
  hf_class :: u32

type_synonym fw_check = "host1x_firewall \<Rightarrow> (errno + unit) \<times> host1x_firewall"

definition check_register :: "job_object \<Rightarrow> u32 \<Rightarrow> fw_check" where
  "check_register job offset fw =
     (case jo_is_addr_reg job of
        None \<Rightarrow> (Inr (), fw)
      | Some is_addr_reg \<Rightarrow>
          if \<not> is_addr_reg (hf_class fw) offset then (Inr (), fw)
          else (case hf_relocs fw of
                  [] \<Rightarrow> (Inl EINVAL, fw)
                | r # rs \<Rightarrow>
                    if \<not> check_reloc r (hf_cmdbuf fw) (hf_offset fw) then (Inl EINVAL, fw)
                    else (Inr (), fw\<lparr>hf_relocs := rs\<rparr>)))"

definition check_class :: "job_object \<Rightarrow> u32 \<Rightarrow> host1x_firewall \<Rightarrow> errno + unit" where
  "check_class job cls fw =
     (case jo_is_valid_class job of
        None \<Rightarrow> if hf_class fw \<noteq> cls then Inl EINVAL else Inr ()
      | Some is_valid_class \<Rightarrow> if \<not> is_valid_class (hf_class fw) then Inl EINVAL else Inr ())"

definition next_word :: "host1x_firewall \<Rightarrow> host1x_firewall" where
  "next_word fw = fw\<lparr>hf_words := hf_words fw - 1, hf_offset := hf_offset fw + 1\<rparr>"

function check_mask :: "job_object \<Rightarrow> u32 \<Rightarrow> u32 \<Rightarrow> fw_check" where
  "check_mask job msk reg fw =
     (if msk = 0 then (Inr (), fw)
      else if hf_words fw = 0 then (Inl EINVAL, fw)
      else if msk AND 1 \<noteq> 0 then
        (case check_register job reg fw of
           (Inl e, fw) \<Rightarrow> (Inl e, fw)
         | (Inr _, fw) \<Rightarrow> check_mask job (drop_bit 1 msk) (reg + 1) (next_word fw))
      else check_mask job (drop_bit 1 msk) (reg + 1) fw)"
  by pat_completeness auto
termination
proof (relation "measure (\<lambda>(job, msk, reg, fw). unat msk)")
  have smaller: "unat (drop_bit 1 msk) < unat msk" if "msk \<noteq> 0" for msk :: u32
  proof -
    have "0 < unat msk" using that by (simp add: unat_gt_0)
    then show ?thesis unfolding unat_drop_bit_eq drop_bit_nat_def by simp
  qed
  show "((job, drop_bit 1 msk, reg + 1, next_word fw'), job, msk, reg, fw) \<in> measure (\<lambda>(job, msk, reg, fw). unat msk)"
    if "msk \<noteq> 0" for job :: job_object and msk reg :: u32 and fw fw' :: host1x_firewall
    using smaller [OF that] by simp
  show "((job, drop_bit 1 msk, reg + 1, fw), job, msk, reg, fw) \<in> measure (\<lambda>(job, msk, reg, fw). unat msk)"
    if "msk \<noteq> 0" for job :: job_object and msk reg :: u32 and fw :: host1x_firewall
    using smaller [OF that] by simp
qed simp

declare check_mask.simps [simp del]

fun check_incr :: "job_object \<Rightarrow> nat \<Rightarrow> u32 \<Rightarrow> fw_check" where
  "check_incr job 0 reg fw = (Inr (), fw)"
| "check_incr job (Suc count) reg fw =
     (if hf_words fw = 0 then (Inl EINVAL, fw)
      else case check_register job reg fw of
             (Inl e, fw) \<Rightarrow> (Inl e, fw)
           | (Inr _, fw) \<Rightarrow> check_incr job count (reg + 1) (next_word fw))"

fun check_nonincr :: "job_object \<Rightarrow> nat \<Rightarrow> u32 \<Rightarrow> fw_check" where
  "check_nonincr job 0 reg fw = (Inr (), fw)"
| "check_nonincr job (Suc count) reg fw =
     (if hf_words fw = 0 then (Inl EINVAL, fw)
      else case check_register job reg fw of
             (Inl e, fw) \<Rightarrow> (Inl e, fw)
           | (Inr _, fw) \<Rightarrow> check_nonincr job count reg (next_word fw))"

text \<open>The instruction \<open>word\<close>; \<open>job_class\<close> is the class in force where the gather began.\<close>

definition validate_word :: "job_object \<Rightarrow> u32 \<Rightarrow> u32 \<Rightarrow> fw_check" where
  "validate_word job job_class word fw =
     (let opcode = drop_bit 28 (word AND 0xf0000000);
          reg = drop_bit 16 word AND 0xfff; count = unat (word AND 0xffff)
      in if opcode = 0 then
           let fw = fw\<lparr>hf_class := drop_bit 6 word AND 0x3ff\<rparr>
           in (case check_class job job_class fw of
                 Inl e \<Rightarrow> (Inl e, fw)
               | Inr _ \<Rightarrow> check_mask job (word AND 0x3f) reg fw)
         else if opcode = 1 then check_incr job count reg fw
         else if opcode = 2 then check_nonincr job count reg fw
         else if opcode = 3 then check_mask job (word AND 0xffff) reg fw
         else if opcode = 4 \<or> opcode = 14 then (Inr (), fw)
         else (Inl EINVAL, fw))"

text \<open>Words are only taken off.\<close>

lemma check_register_words: "hf_words (snd (check_register job reg fw)) = hf_words fw"
  by (simp add: check_register_def split: option.split list.split)

lemma next_word_less: "hf_words fw \<noteq> 0 \<Longrightarrow> unat (hf_words (next_word fw)) < unat (hf_words fw)"
  by (simp add: next_word_def measure_unat)

lemma check_mask_words: "unat (hf_words (snd (check_mask job msk reg fw))) \<le> unat (hf_words fw)"
proof (induction job msk reg fw rule: check_mask.induct)
  case (1 job msk reg fw)
  obtain r fw' where c: "check_register job reg fw = (r, fw')" by fastforce
  then have w: "hf_words fw' = hf_words fw" using check_register_words [of job reg fw] by simp
  have n: "unat (hf_words (next_word fw')) \<le> unat (hf_words fw)" if "hf_words fw \<noteq> 0" using next_word_less [of fw'] w that by simp
  show ?case using 1 n by (subst check_mask.simps) (auto simp: c w split: sum.splits intro: le_trans)
qed

lemma check_incr_words: "unat (hf_words (snd (check_incr job count reg fw))) \<le> unat (hf_words fw)"
proof (induction count arbitrary: reg fw)
  case (Suc count)
  obtain r fw' where c: "check_register job reg fw = (r, fw')" by fastforce
  then have w: "hf_words fw' = hf_words fw" using check_register_words [of job reg fw] by simp
  show ?case using Suc [of "reg + 1" "next_word fw'"] next_word_less [of fw'] by (auto simp: c w split: sum.splits)
qed simp

lemma check_nonincr_words: "unat (hf_words (snd (check_nonincr job count reg fw))) \<le> unat (hf_words fw)"
proof (induction count arbitrary: fw)
  case (Suc count)
  obtain r fw' where c: "check_register job reg fw = (r, fw')" by fastforce
  then have w: "hf_words fw' = hf_words fw" using check_register_words [of job reg fw] by simp
  show ?case using Suc [of "next_word fw'"] next_word_less [of fw'] by (auto simp: c w split: sum.splits)
qed simp

lemma validate_word_words: "unat (hf_words (snd (validate_word job cls word fw))) \<le> unat (hf_words fw)"
  using check_mask_words [of job "word AND 0x3f" "drop_bit 16 word AND 0xfff" "fw\<lparr>hf_class := drop_bit 6 word AND 0x3ff\<rparr>"]
    check_mask_words [of job "word AND 0xffff" "drop_bit 16 word AND 0xfff" fw]
    check_incr_words [of job "unat (word AND 0xffff)" "drop_bit 16 word AND 0xfff" fw]
    check_nonincr_words [of job "unat (word AND 0xffff)" "drop_bit 16 word AND 0xfff" fw]
  by (simp add: validate_word_def Let_def split: sum.split)

lemma validate_word_less:
  "p = validate_word job cls w (next_word fw) \<Longrightarrow> (r, fw') = p \<Longrightarrow> hf_words fw \<noteq> 0 \<Longrightarrow> unat (hf_words fw') < unat (hf_words fw)"
  using validate_word_words [of job cls w "next_word fw"] next_word_less [of fw] by (auto dest: sym)

text \<open>The words from the start of the gather on; the loop leaves at the first error.\<close>

function validate_loop :: "job_object \<Rightarrow> u32 list \<Rightarrow> u32 \<Rightarrow> host1x_firewall \<Rightarrow> ((errno + unit) \<times> host1x_firewall) option" where
  "validate_loop job cmdbuf_base job_class fw =
     (if hf_words fw = 0 then Some (Inr (), fw)
      else if length cmdbuf_base \<le> unat (hf_offset fw) then None
      else case validate_word job job_class (cmdbuf_base ! unat (hf_offset fw)) (next_word fw) of
             (Inl e, fw) \<Rightarrow> Some (Inl e, fw)
           | (Inr _, fw) \<Rightarrow> validate_loop job cmdbuf_base job_class fw)"
  by pat_completeness auto
termination
proof (relation "measure (\<lambda>(job, base, cls, fw). unat (hf_words fw))", goal_cases)
  case (2 job base cls fw p r fw')
  then show ?case by (simp add: validate_word_less)
qed simp

declare validate_loop.simps [simp del]

definition validate :: "job_object \<Rightarrow> host1x_job_gather \<Rightarrow> host1x_firewall \<Rightarrow> ((errno + unit) \<times> host1x_firewall) option" where
  "validate job g fw =
     validate_loop job (drop (unat (g_offset g) div 4) (jo_gather_copy_mapped job)) (hf_class fw)
       (fw\<lparr>hf_words := g_words g, hf_cmdbuf := g_bo g, hf_offset := 0\<rparr>)"

section \<open>The copy of the gathers\<close>

fun gathers_size :: "host1x_job_cmd list \<Rightarrow> u64" where
  "gathers_size [] = 0"
| "gathers_size (HOST1X_JOB_CMD_GATHER g # cs) = ucast (g_words g) * 4 + gathers_size cs"
| "gathers_size (_ # cs) = gathers_size cs"

text \<open>\<open>memcpy\<close> of the words of \<open>g\<close> to the word \<open>to\<close> of the copy.\<close>

definition copy_gather :: "job_env \<Rightarrow> job_memory \<Rightarrow> host1x_job_gather \<Rightarrow> nat \<Rightarrow> u32 list \<Rightarrow> u32 list option" where
  "copy_gather env m g to ws =
     (let n = unat (g_words g); from = unat (g_offset g) div 4
      in if \<not> je_mmap env (g_bo g) \<or> unat (g_offset g) mod 4 \<noteq> 0 \<or> length (jm_bo_words m (g_bo g)) < from + n \<or>
            length ws < to + n then None
         else Some (take to ws @ take n (drop from (jm_bo_words m (g_bo g))) @ drop (to + n) ws))"

fun copy_gather_list ::
  "job_env \<Rightarrow> nat \<Rightarrow> nat list \<Rightarrow> job_object \<Rightarrow> host1x_firewall \<Rightarrow> job_memory \<Rightarrow>
    ((errno + unit) \<times> job_object \<times> host1x_firewall) option" where
  "copy_gather_list env to [] job fw m = Some (Inr (), job, fw)"
| "copy_gather_list env to (i # is) job fw m =
     (case jo_cmds job ! i of
        HOST1X_JOB_CMD_GATHER g \<Rightarrow> do {
          ws \<leftarrow> copy_gather env m g to (jo_gather_copy_mapped job);
          let g = g\<lparr>g_base := jo_gather_copy job, g_offset := of_nat (4 * to)\<rparr>;
          let job = job\<lparr>jo_gather_copy_mapped := ws, jo_cmds := (jo_cmds job)[i := HOST1X_JOB_CMD_GATHER g]\<rparr>;
          (r, fw) \<leftarrow> validate job g fw;
          if isl r then Some (Inl EINVAL, job, fw) else copy_gather_list env (to + unat (g_words g)) is job fw m }
      | _ \<Rightarrow> copy_gather_list env to is job fw m)"

definition copy_gathers :: "job_env \<Rightarrow> job_object \<Rightarrow> job_memory \<Rightarrow> ((errno + unit) \<times> job_object \<times> job_memory) option" where
  "copy_gathers env job m =
     (let fw = \<lparr>hf_relocs = jo_relocs job, hf_cmdbuf = 0, hf_offset = 0, hf_words = 0, hf_class = jo_class job\<rparr>;
          sz = gathers_size (jo_cmds job)
      in case je_dma_alloc env sz of
           None \<Rightarrow> Some (Inl ENOMEM, job, m)
         | Some addr \<Rightarrow>
             let m = m\<lparr>jm_copies := jm_copies m @ [addr]\<rparr>;
                 job = job\<lparr>jo_gather_copy := addr, jo_gather_copy_mapped := replicate (unat sz div 4) 0, jo_gather_copy_size := sz\<rparr>
             in do {
               (r, job, fw) \<leftarrow> copy_gather_list env 0 [0..<length (jo_cmds job)] job fw m;
               Some (if isl r then r else if hf_relocs fw \<noteq> [] then Inl EINVAL else Inr (), job, m) })"

section \<open>Pinning of a job\<close>

text \<open>
  Later gathers of the same buffer.  A wait or a register write behind position \<open>i\<close> is read as a gather
  too, but its bytes where a gather has its buffer are zero.
\<close>

definition mark_handled :: "nat \<Rightarrow> nat \<Rightarrow> u64 \<Rightarrow> host1x_job_cmd list \<Rightarrow> host1x_job_cmd list" where
  "mark_handled i bo base cmds =
     map (\<lambda>(j, cmd). case cmd of
            HOST1X_JOB_CMD_GATHER h \<Rightarrow>
              if i < j \<and> g_bo h = bo then HOST1X_JOB_CMD_GATHER (h\<lparr>g_handled := True, g_base := base\<rparr>) else cmd
          | _ \<Rightarrow> cmd) (enumerate 0 cmds)"

fun patch_gathers ::
  "job_env \<Rightarrow> nat list \<Rightarrow> job_object \<Rightarrow> job_memory \<Rightarrow> ((errno + unit) \<times> job_object \<times> job_memory) option" where
  "patch_gathers env [] job m = Some (Inr (), job, m)"
| "patch_gathers env (i # is) job m =
     (case jo_cmds job ! i of
        HOST1X_JOB_CMD_GATHER g \<Rightarrow>
          if g_handled g then patch_gathers env is job m
          else if \<not> jo_enable_firewall job \<and> length (jo_addr_phys job) \<le> jo_gather_phys job + i then None
          else
            let g = (if \<not> jo_enable_firewall job then g\<lparr>g_base := jo_addr_phys job ! (jo_gather_phys job + i)\<rparr> else g);
                job = job\<lparr>jo_cmds := mark_handled i (g_bo g) (g_base g) ((jo_cmds job)[i := HOST1X_JOB_CMD_GATHER g])\<rparr>
            in do {
              (r, job, m) \<leftarrow> do_relocs env g job m;
              if isl r then Some (r, job, m) else patch_gathers env is job m }
      | _ \<Rightarrow> patch_gathers env is job m)"

definition host1x_job_pin :: "job_env \<Rightarrow> job_object \<Rightarrow> job_memory \<Rightarrow> ((errno + unit) \<times> job_object \<times> job_memory) option" where
  "host1x_job_pin env job m = do {
     (r, job, m) \<leftarrow> pin_job env job m;
     (r, job, m) \<leftarrow> (if isl r \<or> \<not> jo_enable_firewall job then Some (r, job, m) else copy_gathers env job m);
     (r, job, m) \<leftarrow> (if isl r then Some (r, job, m) else patch_gathers env [0..<length (jo_cmds job)] job m);
     if isl r then do { (job, m) \<leftarrow> host1x_job_unpin env job m; Some (r, job, m) } else Some (Inr (), job, m) }"

end
