(* ===== verification/Host1x_Job_Facts.thy ===== *)
theory Host1x_Job_Facts imports Host1x_Job begin

text \<open>
  Pinning and unpinning of jobs: what a job takes it gives back, and what the error paths keep.
\<close>

section \<open>Buffers pinned by a job\<close>

text \<open>What the provider of buffers and the address space of host1x promise.\<close>

definition provider :: "job_env \<Rightarrow> bool" where
  "provider env \<longleftrightarrow> (\<forall>b dir mp. je_pin env b dir = Inr mp \<longrightarrow> map_bo mp = b) \<and>
     (\<forall>used a. je_alloc_iova env used = Some a \<longrightarrow> a \<notin> set used) \<and> (\<forall>b. je_gather_size env b \<noteq> 0)"

definition add_pins :: "job_env \<Rightarrow> host1x_bo_mapping list \<Rightarrow> job_memory \<Rightarrow> job_memory" where
  "add_pins env ms m = m\<lparr>
     jm_bo_ref := (\<lambda>b. jm_bo_ref m b + count_list (map map_bo ms) b),
     jm_bo_pins := (\<lambda>b. jm_bo_pins m b + count_list (map map_bo ms) b),
     jm_iovas := jm_iovas m @ (if je_domain env then map map_phys ms else [])\<rparr>"

definition pins_ok :: "job_env \<Rightarrow> host1x_bo_mapping list \<Rightarrow> job_memory \<Rightarrow> bool" where
  "pins_ok env ms m \<longleftrightarrow> (je_domain env \<longrightarrow> distinct (map map_phys ms) \<and> set (map map_phys ms) \<inter> set (jm_iovas m) = {} \<and>
     (\<forall>mp \<in> set ms. map_size mp \<noteq> 0))"

lemma add_pins_Nil [simp]: "add_pins env [] m = m"
  by (simp add: add_pins_def)

lemma unpin_one:
  assumes "pins_ok env (mp # ms) m"
  shows "host1x_bo_unpin mp (if map_size mp \<noteq> 0 \<and> je_domain env
      then (add_pins env (mp # ms) m)\<lparr>jm_iovas := remove1 (map_phys mp) (jm_iovas (add_pins env (mp # ms) m))\<rparr>
      else add_pins env (mp # ms) m) \<bind> host1x_bo_put (map_bo mp) = Some (add_pins env ms m)"
  using assms
  by (cases "je_domain env")
    (simp_all add: pins_ok_def host1x_bo_unpin_def host1x_bo_put_def add_pins_def Let_def fun_eq_iff remove1_append)

lemma unpin_added:
  assumes "pins_ok env ms m"
  shows "unpin_maps env False (zip ms (map map_phys ms)) (add_pins env ms m) = Some m"
  using assms
proof (induction ms)
  case (Cons mp ms)
  have "pins_ok env ms m" using Cons.prems by (auto simp: pins_ok_def)
  then show ?case using Cons.IH unpin_one [OF Cons.prems] by (auto simp: Let_def bind_eq_Some_conv split: if_splits)
qed simp

text \<open>What the pinning of the gathers has done: the buffers in the list, or one of two things too many.\<close>

datatype pin_leak = Leaked_reference nat | Leaked_pin nat

primrec leak :: "pin_leak \<Rightarrow> job_memory \<Rightarrow> job_memory" where
  "leak (Leaked_reference b) m = m\<lparr>jm_bo_ref := (jm_bo_ref m)(b := jm_bo_ref m b + 1)\<rparr>"
| "leak (Leaked_pin b) m = m\<lparr>jm_bo_pins := (jm_bo_pins m)(b := jm_bo_pins m b + 1)\<rparr>"

definition holds_pins :: "job_env \<Rightarrow> job_object \<Rightarrow> job_memory \<Rightarrow> job_memory \<Rightarrow> bool" where
  "holds_pins env job m0 m \<longleftrightarrow>
     take (length (jo_unpins job)) (jo_addr_phys job) = map map_phys (jo_unpins job) \<and>
     pins_ok env (jo_unpins job) m0 \<and> m = add_pins env (jo_unpins job) m0"

lemma holds_pinsD: "holds_pins env job m0 m \<Longrightarrow> zip (jo_unpins job) (jo_addr_phys job) = zip (jo_unpins job) (map map_phys (jo_unpins job))"
  using take_zip [of "length (jo_unpins job)" "jo_unpins job" "jo_addr_phys job"] by (simp add: holds_pins_def)

lemma add_pins_snoc:
  "add_pins env (ms @ [mp]) m = (host1x_bo_get (map_bo mp) (add_pins env ms m))
     \<lparr>jm_bo_pins := (jm_bo_pins (add_pins env ms m))(map_bo mp := jm_bo_pins (add_pins env ms m) (map_bo mp) + 1),
       jm_iovas := jm_iovas (add_pins env ms m) @ (if je_domain env then [map_phys mp] else [])\<rparr>"
  by (auto simp: add_pins_def host1x_bo_get_def fun_eq_iff)

lemma holds_pins_more:
  assumes "holds_pins env job m0 m" and "pins_ok env (jo_unpins job @ [mp]) m0" and "add_unpin mp job = Some job1"
    and "length (jo_unpins job) \<le> jo_gather_phys job + i"
  shows "holds_pins env (job1\<lparr>jo_addr_phys := (jo_addr_phys job1)[jo_gather_phys job1 + i := map_phys mp]\<rparr>) m0
    (add_pins env (jo_unpins job @ [mp]) m0)"
proof -
  let ?n = "length (jo_unpins job)"
  have n: "?n < length (jo_addr_phys job)" and job1: "job1 = job\<lparr>jo_addr_phys := (jo_addr_phys job)[?n := map_phys mp],
      jo_unpins := jo_unpins job @ [mp]\<rparr>"
    using assms(3) by (auto simp: add_unpin_def Let_def split: if_splits)
  have t: "take ?n (jo_addr_phys job) = map map_phys (jo_unpins job)" using assms(1) by (simp add: holds_pins_def)
  have "take (Suc ?n) ((jo_addr_phys job)[?n := map_phys mp, jo_gather_phys job + i := map_phys mp]) = map map_phys (jo_unpins job) @ [map_phys mp]"
  proof (cases "jo_gather_phys job + i = ?n")
    case True
    then show ?thesis using n t by (simp add: take_Suc_conv_app_nth take_update_cancel)
  next
    case False
    then have "Suc ?n \<le> jo_gather_phys job + i" using assms(4) by simp
    then show ?thesis using n t by (simp add: take_Suc_conv_app_nth take_update_cancel)
  qed
  then show ?thesis using assms(2) by (simp add: holds_pins_def job1)
qed

text \<open>Nothing but the array of addresses and the list of mappings has changed.\<close>

definition same_job :: "job_object \<Rightarrow> job_object \<Rightarrow> bool" where
  "same_job job job' \<longleftrightarrow> job'\<lparr>jo_addr_phys := [], jo_unpins := []\<rparr> = job\<lparr>jo_addr_phys := [], jo_unpins := []\<rparr> \<and>
     length (jo_addr_phys job') = length (jo_addr_phys job)"

lemma same_job_refl: "same_job job job"
  by (simp add: same_job_def)

lemma same_job_trans: "same_job job job1 \<Longrightarrow> same_job job1 job2 \<Longrightarrow> same_job job job2"
  by (simp add: same_job_def)

lemma same_jobD:
  assumes "same_job job job'"
  shows "jo_enable_firewall job' = jo_enable_firewall job" and "jo_relocs job' = jo_relocs job"
    and "jo_gather_copy_size job' = jo_gather_copy_size job" and "jo_gather_phys job' = jo_gather_phys job"
    and "jo_cmds job' = jo_cmds job" and "length (jo_addr_phys job') = length (jo_addr_phys job)"
  using assms unfolding same_job_def by (cases job; cases job'; simp)+

lemma pin_gathers_holds:
  assumes prov: "provider env"
  shows "holds_pins env job m0 m \<Longrightarrow> length (jo_unpins job) \<le> jo_gather_phys job + i \<Longrightarrow>
    pin_gathers env i cmds job m = Some (r, job', m') \<Longrightarrow>
    \<exists>m1. holds_pins env job' m0 m1 \<and> same_job job job' \<and> (case r of Inr _ \<Rightarrow> m' = m1 | Inl e \<Rightarrow> \<exists>l. m' = leak l m1)"
proof (induction cmds arbitrary: i job m)
  case Nil
  then show ?case by (auto simp: same_job_refl)
next
  case (Cons cmd cmds)
  show ?case
  proof (cases cmd)
    case (HOST1X_JOB_CMD_GATHER g)
    let ?b = "g_bo g"
    let ?m1 = "host1x_bo_get ?b m"
    show ?thesis
    proof (cases "je_pin env ?b DMA_TO_DEVICE")
      case (Inl e)
      then have "r = Inl e" "job' = job" "m' = leak (Leaked_reference ?b) m"
        using Cons.prems(3) by (simp_all add: HOST1X_JOB_CMD_GATHER host1x_bo_pin_def host1x_bo_get_def)
      then show ?thesis using Cons.prems(1) same_job_refl by (auto simp del: leak.simps)
    next
      case (Inr mp)
      then have b: "map_bo mp = ?b" using prov by (auto simp: provider_def)
      let ?m2 = "?m1\<lparr>jm_bo_pins := (jm_bo_pins ?m1)(?b := jm_bo_pins ?m1 ?b + 1)\<rparr>"
      have put: "host1x_bo_put ?b ?m2 = Some (leak (Leaked_pin ?b) m)"
        by (simp add: host1x_bo_put_def host1x_bo_get_def fun_upd_idem)
      have more: "\<exists>m1. holds_pins env job' m0 m1 \<and> same_job job job' \<and> (case r of Inr _ \<Rightarrow> m' = m1 | Inl e \<Rightarrow> \<exists>l. m' = leak l m1)"
        if ok: "pins_ok env (jo_unpins job @ [mp']) m0" and add: "add_unpin mp' job = Some job1"
          and rest: "pin_gathers env (Suc i) cmds (job1\<lparr>jo_addr_phys := (jo_addr_phys job1)[jo_gather_phys job1 + i := map_phys mp']\<rparr>)
            (add_pins env (jo_unpins job @ [mp']) m0) = Some (r, job', m')" for mp' job1
      proof -
        let ?job2 = "job1\<lparr>jo_addr_phys := (jo_addr_phys job1)[jo_gather_phys job1 + i := map_phys mp']\<rparr>"
        have h: "holds_pins env ?job2 m0 (add_pins env (jo_unpins job @ [mp']) m0)"
          using holds_pins_more [OF Cons.prems(1) ok add Cons.prems(2)] .
        have s: "same_job job ?job2" "length (jo_unpins ?job2) \<le> jo_gather_phys ?job2 + Suc i"
          using add Cons.prems(2) by (auto simp: add_unpin_def Let_def same_job_def split: if_splits)
        from Cons.IH [OF h s(2) rest] show ?thesis using same_job_trans [OF s(1)] by blast
      qed
      have m: "m = add_pins env (jo_unpins job) m0" and ok: "pins_ok env (jo_unpins job) m0"
        using Cons.prems(1) by (simp_all add: holds_pins_def)
      show ?thesis
      proof (cases "je_domain env")
        case False
        have "?m2 = add_pins env (jo_unpins job @ [mp]) m0" using False b by (simp add: m add_pins_snoc host1x_bo_get_def)
        moreover have "pins_ok env (jo_unpins job @ [mp]) m0" using False by (simp add: pins_ok_def)
        ultimately show ?thesis
          using Cons.prems(3) Inr False more [of mp]
          by (auto simp: HOST1X_JOB_CMD_GATHER host1x_bo_pin_def Let_def bind_eq_Some_conv split: if_splits)
      next
        case dom: True
        show ?thesis
        proof (cases "je_alloc_iova env (jm_iovas ?m2) \<noteq> None \<and> je_map_sgtable env ?b")
          case False
          then obtain e where "r = Inl e" "job' = job" "m' = leak (Leaked_pin ?b) m"
            using Cons.prems(3) Inr dom put
            by (auto simp: HOST1X_JOB_CMD_GATHER host1x_bo_pin_def Let_def split: option.splits if_splits)
          then show ?thesis using Cons.prems(1) same_job_refl by (auto simp del: leak.simps)
        next
          case True
          then obtain iova where iova: "je_alloc_iova env (jm_iovas ?m2) = Some iova" by auto
          let ?mp = "mp\<lparr>map_phys := iova, map_size := je_gather_size env ?b\<rparr>"
          have "jm_iovas ?m2 = jm_iovas m0 @ map map_phys (jo_unpins job)" using dom by (simp add: m add_pins_def host1x_bo_get_def)
          then have "pins_ok env (jo_unpins job @ [?mp]) m0"
            using ok iova prov unfolding pins_ok_def provider_def by fastforce
          moreover have "?m2\<lparr>jm_iovas := jm_iovas ?m2 @ [iova]\<rparr> = add_pins env (jo_unpins job @ [?mp]) m0"
            using dom b by (simp add: m add_pins_snoc host1x_bo_get_def)
          ultimately show ?thesis
            using Cons.prems(3) Inr dom True iova more [of ?mp]
            by (auto simp: HOST1X_JOB_CMD_GATHER host1x_bo_pin_def Let_def bind_eq_Some_conv split: if_splits)
        qed
      qed
    qed
  next
    case (HOST1X_JOB_CMD_WAIT w)
    then show ?thesis using Cons.IH [OF Cons.prems(1), of "Suc i"] Cons.prems(2,3) by simp
  next
    case (HOST1X_JOB_CMD_REG_WRITE rw)
    then show ?thesis using Cons.IH [OF Cons.prems(1), of "Suc i"] Cons.prems(2,3) by simp
  qed
qed

lemma pin_gathers_total:
  assumes "length (jo_unpins job) \<le> i" and "i + length cmds \<le> length (jo_addr_phys job)" and "jo_gather_phys job = 0"
  shows "pin_gathers env i cmds job m \<noteq> None"
  using assms
proof (induction cmds arbitrary: i job m)
  case (Cons cmd cmds)
  show ?case
  proof (cases cmd)
    case (HOST1X_JOB_CMD_GATHER g)
    have *: "pin_gathers env (Suc i) cmds (job1\<lparr>jo_addr_phys := (jo_addr_phys job1)[jo_gather_phys job1 + i := p]\<rparr>) m' \<noteq> None"
      if "add_unpin mp job = Some job1" for mp job1 p m'
      by (rule Cons.IH) (use Cons.prems that in \<open>auto simp: add_unpin_def Let_def\<close>)
    have next_ok: "add_unpin mp job \<bind> (\<lambda>job. if jo_gather_phys job + i < length (jo_addr_phys job)
        then pin_gathers env (Suc i) cmds (job\<lparr>jo_addr_phys := (jo_addr_phys job)[jo_gather_phys job + i := p]\<rparr>) m' else None) \<noteq> None"
      for mp p m'
    proof -
      obtain job1 where "add_unpin mp job = Some job1" using Cons.prems by (simp add: add_unpin_def Let_def)
      moreover from this have "jo_gather_phys job1 + i < length (jo_addr_phys job1)"
        using Cons.prems by (auto simp: add_unpin_def Let_def)
      ultimately show ?thesis using *[of mp job1 p m'] by simp
    qed
    obtain r m2 where p: "host1x_bo_pin env (g_bo g) DMA_TO_DEVICE (host1x_bo_get (g_bo g) m) = (r, m2)" by fastforce
    then have "jm_bo_ref m2 (g_bo g) \<noteq> 0"
      by (auto simp: host1x_bo_pin_def host1x_bo_get_def split: sum.splits)
    then obtain m3 where put: "host1x_bo_put (g_bo g) m2 = Some m3" by (simp add: host1x_bo_put_def)
    show ?thesis
      using put next_ok by (simp add: HOST1X_JOB_CMD_GATHER p Let_def del: not_None_eq split: sum.split option.split)
  qed (use Cons in simp_all)
qed simp

section \<open>Jobs without relocations\<close>

text \<open>A job as \<open>host1x_job_alloc\<close> and the commands leave it, for a buffer sharing that needs no relocations.\<close>

definition gathers_only :: "job_object \<Rightarrow> bool" where
  "gathers_only job \<longleftrightarrow> \<not> jo_enable_firewall job \<and> jo_relocs job = [] \<and> jo_unpins job = [] \<and> jo_gather_phys job = 0 \<and>
     jo_gather_copy_size job = 0 \<and> length (jo_cmds job) \<le> length (jo_addr_phys job)"

lemma patch_gathers_plain:
  assumes "\<not> jo_enable_firewall job" and "jo_relocs job = []" and "\<forall>i \<in> set is. jo_gather_phys job + i < length (jo_addr_phys job)"
  shows "\<exists>cmds. patch_gathers env is job m = Some (Inr (), job\<lparr>jo_cmds := cmds\<rparr>, m)"
  using assms
proof (induction "is" arbitrary: job)
  case Nil
  then show ?case by (auto intro: exI [of _ "jo_cmds job"])
next
  case (Cons i "is")
  have "\<exists>cmds. patch_gathers env is (job\<lparr>jo_cmds := cs\<rparr>) m = Some (Inr (), job\<lparr>jo_cmds := cmds\<rparr>, m)" for cs
    using Cons.IH [of "job\<lparr>jo_cmds := cs\<rparr>"] Cons.prems by auto
  moreover have "\<exists>cmds. patch_gathers env is job m = Some (Inr (), job\<lparr>jo_cmds := cmds\<rparr>, m)"
    using Cons.IH [of job] Cons.prems by auto
  ultimately show ?case
    using Cons.prems by (cases "jo_cmds job ! i") (auto simp: do_relocs_def Let_def)
qed

lemma unpin_leaked:
  assumes "unpin_maps env False ms m = Some m'"
  shows "unpin_maps env False ms (leak l m) = Some (leak l m')"
  using assms
proof (induction ms arbitrary: m)
  case (Cons p ms)
  obtain mp phys where p: "p = (mp, phys)" by fastforce
  define m1 where "m1 = (if map_size mp \<noteq> 0 \<and> je_domain env then m\<lparr>jm_iovas := remove1 phys (jm_iovas m)\<rparr> else m)"
  have l: "(if map_size mp \<noteq> 0 \<and> je_domain env then (leak l m)\<lparr>jm_iovas := remove1 phys (jm_iovas (leak l m))\<rparr> else leak l m) = leak l m1"
    by (cases l) (simp_all add: m1_def)
  obtain m2 where m2: "host1x_bo_unpin mp m1 \<bind> host1x_bo_put (map_bo mp) = Some m2" "unpin_maps env False ms m2 = Some m'"
    using Cons.prems by (auto simp: p m1_def Let_def bind_eq_Some_conv)
  have "host1x_bo_unpin mp (leak l m1) \<bind> host1x_bo_put (map_bo mp) = Some (leak l m2)"
    using m2(1) by (cases l) (auto simp: host1x_bo_unpin_def host1x_bo_put_def Let_def fun_eq_iff split: if_splits)
  then show ?case using Cons.IH [OF m2(2)] l by (auto simp: p Let_def bind_eq_Some_conv)
qed simp

text \<open>What was pinned is given back, whatever else has been taken.\<close>

lemma holds_unpin:
  assumes "holds_pins env job m0 m1"
  shows "unpin_maps env False (zip (jo_unpins job) (jo_addr_phys job)) m1 = Some m0"
  using assms unpin_added [of env "jo_unpins job" m0] holds_pinsD [OF assms] by (simp add: holds_pins_def)

text \<open>An example: two buffers, mapped at the addresses 4096 and 8192.\<close>

definition job_env_ex :: "bool \<Rightarrow> (nat \<Rightarrow> bool) \<Rightarrow> job_env" where
  "job_env_ex domain maps = \<lparr>je_domain = domain,
     je_pin = (\<lambda>b dir. Inr \<lparr>map_bo = b, map_phys = (if b = 0 then 4096 else 8192), map_size = 4096, map_chunks = 1\<rparr>),
     je_alloc_iova = (\<lambda>used. if 65536 \<in> set used then None else Some 65536), je_map_sgtable = maps, je_gather_size = (\<lambda>_. 4096),
     je_mmap = (\<lambda>_. True), je_dma_alloc = (\<lambda>_. Some 1048576)\<rparr>"

definition job_ex :: "host1x_job_cmd list \<Rightarrow> job_object" where
  "job_ex cmds = (the (host1x_job_alloc True False 3 0 True))\<lparr>jo_cmds := cmds\<rparr>"

definition gather_ex :: "nat \<Rightarrow> host1x_job_gather" where
  "gather_ex b = \<lparr>g_words = 2, g_base = 0, g_bo = b, g_offset = 0, g_handled = False\<rparr>"

definition memory_ex :: job_memory where
  "memory_ex = \<lparr>jm_bo_ref = (\<lambda>_. 1), jm_bo_pins = (\<lambda>_. 0), jm_bo_words = (\<lambda>_. []), jm_iovas = [], jm_copies = []\<rparr>"

lemma provider_ex: "provider (job_env_ex domain maps)"
  by (simp add: provider_def job_env_ex_def)

lemma gathers_only_ex: "length cmds \<le> 3 \<Longrightarrow> gathers_only (job_ex cmds)"
  by (simp add: gathers_only_def job_ex_def host1x_job_alloc_def Let_def)

text \<open>C12:
  Without the firewall, pinning a job whose commands need no relocation and fit its arrays always
  returns, for a kernel that maps the buffer it is asked to pin, allocates address ranges that are not in use and
  whose gathers are not empty.  When it succeeds, \<open>host1x_job_unpin\<close> gives back every reference, mapping and
  address range.  When it fails, the memory is not as before: the reference of one buffer is kept when its
  pinning failed, the pin of one buffer when no address range could be allocated or mapped for it, and nothing
  in the job remembers it.
\<close>

theorem job_pin_gives_back:
  assumes prov: "provider env" and job: "gathers_only job"
  shows "case host1x_job_pin env job m of
      None \<Rightarrow> False
    | Some (Inr _, job', m') \<Rightarrow> map_option snd (host1x_job_unpin env job' m') = Some m
    | Some (Inl e, job', m') \<Rightarrow> (\<exists>l. m' = leak l m) \<and> jo_unpins job' = []"
proof -
  have plain: "job\<lparr>jo_unpins := []\<rparr> = job" using job by (simp add: gathers_only_def)
  have h0: "holds_pins env job m m" using job by (simp add: gathers_only_def holds_pins_def pins_ok_def)
  have "pin_gathers env 0 (jo_cmds job) job m \<noteq> None"
    using job by (intro pin_gathers_total) (simp_all add: gathers_only_def)
  then obtain r job1 m2 where p: "pin_gathers env 0 (jo_cmds job) job m = Some (r, job1, m2)" by fastforce
  then have p': "pin_gathers env 0 (jo_cmds job) (job\<lparr>jo_unpins := []\<rparr>) m = Some (r, job1, m2)" by (simp add: plain)
  from pin_gathers_holds [OF prov h0 _ p] job obtain m1 where m1: "holds_pins env job1 m m1" "same_job job job1"
      "case r of Inr _ \<Rightarrow> m2 = m1 | Inl e \<Rightarrow> \<exists>l. m2 = leak l m1"
    by (auto simp: gathers_only_def)
  note job1 = same_jobD [OF m1(2)]
  have unpin: "host1x_job_unpin env (job1\<lparr>jo_cmds := cs\<rparr>) m' = Some (job1\<lparr>jo_cmds := cs, jo_unpins := []\<rparr>, m'')"
    if "unpin_maps env False (zip (jo_unpins job1) (jo_addr_phys job1)) m' = Some m''" for cs m' m''
    using that job job1 by (simp add: host1x_job_unpin_def gathers_only_def)
  show ?thesis
  proof (cases r)
    case (Inl e)
    then obtain l where l: "m2 = leak l m1" using m1(3) by auto
    have "host1x_job_unpin env job1 m2 = Some (job1\<lparr>jo_unpins := []\<rparr>, leak l m)"
      using unpin [of m2 "leak l m" "jo_cmds job1"] unpin_leaked [OF holds_unpin [OF m1(1)]] l by simp
    moreover have "host1x_job_unpin env (job1\<lparr>jo_unpins := []\<rparr>) (leak l m) = Some (job1\<lparr>jo_unpins := []\<rparr>, leak l m)"
      using job job1 by (simp add: host1x_job_unpin_def gathers_only_def)
    ultimately show ?thesis
      using job p' Inl by (auto simp: host1x_job_pin_def pin_job_def gathers_only_def simp del: leak.simps)
  next
    case (Inr u)
    obtain cs where "patch_gathers env [0..<length (jo_cmds job1)] job1 m1 = Some (Inr (), job1\<lparr>jo_cmds := cs\<rparr>, m1)"
      using patch_gathers_plain [of job1 "[0..<length (jo_cmds job1)]" env m1] job job1 by (auto simp: gathers_only_def)
    then show ?thesis
      using job p' Inr m1(3) job1 unpin [OF holds_unpin [OF m1(1)], of cs]
      by (simp add: host1x_job_pin_def pin_job_def gathers_only_def)
  qed
qed

lemma job_pin_gives_back_witness:
  "\<exists>l e job' m'. host1x_job_pin (job_env_ex True (\<lambda>_. True)) (job_ex (map (HOST1X_JOB_CMD_GATHER \<circ> gather_ex) [0, 1])) memory_ex =
      Some (Inl e, job', m') \<and> m' = leak l memory_ex"
proof -
  have "fst (the (host1x_job_pin (job_env_ex True (\<lambda>_. True)) (job_ex (map (HOST1X_JOB_CMD_GATHER \<circ> gather_ex) [0, 1])) memory_ex)) = Inl ENOMEM"
    by code_simp
  with job_pin_gives_back [OF provider_ex gathers_only_ex, of "map (HOST1X_JOB_CMD_GATHER \<circ> gather_ex) [0, 1]" memory_ex True "\<lambda>_. True"]
  show ?thesis by (auto split: option.splits sum.splits)
qed

section \<open>The addresses of the gathers\<close>

text \<open>Where every command is a gather and host1x has no address space of its own, each gets the address of its buffer.\<close>

definition bo_address :: "job_env \<Rightarrow> nat \<Rightarrow> u64" where
  "bo_address env b = (case je_pin env b DMA_TO_DEVICE of Inr mp \<Rightarrow> map_phys mp | Inl _ \<Rightarrow> 0)"

lemma pin_gathers_addresses:
  assumes "\<not> je_domain env"
  shows "pin_gathers env i (map HOST1X_JOB_CMD_GATHER gs) job m = Some (Inr (), job', m') \<Longrightarrow> length (jo_unpins job) = i \<Longrightarrow>
    jo_gather_phys job = 0 \<Longrightarrow> i + length gs \<le> length (jo_addr_phys job) \<Longrightarrow>
    take (i + length gs) (jo_addr_phys job') = take i (jo_addr_phys job) @ map (bo_address env \<circ> g_bo) gs"
proof (induction gs arbitrary: i job m)
  case (Cons g gs)
  obtain mp where mp: "je_pin env (g_bo g) DMA_TO_DEVICE = Inr mp"
    using Cons.prems(1) by (cases "je_pin env (g_bo g) DMA_TO_DEVICE") (auto simp: host1x_bo_pin_def)
  let ?job = "job\<lparr>jo_unpins := jo_unpins job @ [mp], jo_addr_phys := (jo_addr_phys job)[i := map_phys mp]\<rparr>"
  obtain m1 where "pin_gathers env (Suc i) (map HOST1X_JOB_CMD_GATHER gs) ?job m1 = Some (Inr (), job', m')"
    using Cons.prems assms mp by (auto simp: host1x_bo_pin_def add_unpin_def Let_def split: if_splits)
  from Cons.IH [OF this] Cons.prems(2-)
  have "take (Suc i + length gs) (jo_addr_phys job') = take (Suc i) (jo_addr_phys ?job) @ map (bo_address env \<circ> g_bo) gs" by simp
  moreover have "take (Suc i) (jo_addr_phys ?job) = take i (jo_addr_phys job) @ [bo_address env (g_bo g)]"
    using Cons.prems(4) mp by (simp add: take_Suc_conv_app_nth bo_address_def)
  ultimately show ?case by simp
qed simp

lemma pin_gathers_same: "pin_gathers env i cmds job m = Some (r, job', m') \<Longrightarrow> same_job job job'"
proof (induction env i cmds job m rule: pin_gathers.induct)
  case (2 env i g cs job m)
  have step: "same_job job (job1\<lparr>jo_addr_phys := (jo_addr_phys job1)[k := p]\<rparr>)" if "add_unpin mp job = Some job1" for mp job1 k p
    using that by (auto simp: add_unpin_def Let_def same_job_def split: if_splits)
  show ?case
    using "2.prems"
    by (auto simp: Let_def bind_eq_Some_conv same_job_refl split: sum.splits if_splits option.splits prod.splits
      dest!: "2.IH" [rotated -1] intro: same_job_trans [OF step])
qed (simp_all add: same_job_refl)

text \<open>Commands that are gathers of the buffers \<open>bos\<close>, the first \<open>n\<close> of them and those handled with their address.\<close>

definition gathers_at :: "job_env \<Rightarrow> nat \<Rightarrow> nat list \<Rightarrow> host1x_job_cmd list \<Rightarrow> bool" where
  "gathers_at env n bos cmds \<longleftrightarrow> length cmds = length bos \<and>
     (\<forall>i < length bos. \<exists>g. cmds ! i = HOST1X_JOB_CMD_GATHER g \<and> g_bo g = bos ! i \<and>
        (i < n \<or> g_handled g \<longrightarrow> g_base g = bo_address env (bos ! i)))"

lemma gathers_at_mark:
  assumes "gathers_at env n bos cmds" and "n < length bos" and "cmds ! n = HOST1X_JOB_CMD_GATHER g"
    and "base = bo_address env (bos ! n)"
  shows "gathers_at env (Suc n) bos (mark_handled n (g_bo g) base (cmds[n := HOST1X_JOB_CMD_GATHER (g\<lparr>g_base := base\<rparr>)]))"
proof -
  have bo: "g_bo g = bos ! n" using assms(1-3) by (auto simp: gathers_at_def)
  have "\<exists>g'. mark_handled n (g_bo g) base (cmds[n := HOST1X_JOB_CMD_GATHER (g\<lparr>g_base := base\<rparr>)]) ! i = HOST1X_JOB_CMD_GATHER g' \<and>
      g_bo g' = bos ! i \<and> (i < Suc n \<or> g_handled g' \<longrightarrow> g_base g' = bo_address env (bos ! i))" if i: "i < length bos" for i
  proof -
    obtain h where h: "cmds ! i = HOST1X_JOB_CMD_GATHER h" "g_bo h = bos ! i"
        "i < n \<or> g_handled h \<longrightarrow> g_base h = bo_address env (bos ! i)"
      using assms(1) i by (auto simp: gathers_at_def)
    then show ?thesis
      using assms bo i by (cases "i = n") (auto simp: mark_handled_def gathers_at_def nth_enumerate_eq less_Suc_eq)
  qed
  then show ?thesis using assms(1) by (simp add: gathers_at_def mark_handled_def)
qed

lemma patch_gathers_at:
  assumes "n \<le> length bos"
  shows "gathers_at env n bos (jo_cmds job) \<Longrightarrow> \<not> jo_enable_firewall job \<Longrightarrow> jo_relocs job = [] \<Longrightarrow> jo_gather_phys job = 0 \<Longrightarrow>
    take (length bos) (jo_addr_phys job) = map (bo_address env) bos \<Longrightarrow>
    \<exists>cmds. patch_gathers env [n..<length bos] job m = Some (Inr (), job\<lparr>jo_cmds := cmds\<rparr>, m) \<and> gathers_at env (length bos) bos cmds"
  using assms
proof (induction arbitrary: job rule: inc_induct)
  case base
  then show ?case by (auto intro: exI [of _ "jo_cmds job"])
next
  case (step n)
  obtain g where g: "jo_cmds job ! n = HOST1X_JOB_CMD_GATHER g" "g_bo g = bos ! n"
      "g_handled g \<longrightarrow> g_base g = bo_address env (bos ! n)"
    using step.prems(1) step.hyps by (auto simp: gathers_at_def)
  have addr: "n < length (jo_addr_phys job)" "jo_addr_phys job ! n = bo_address env (bos ! n)"
  proof -
    have "length (take (length bos) (jo_addr_phys job)) = length bos" using step.prems(5) by simp
    then show "n < length (jo_addr_phys job)" using step.hyps by simp
    show "jo_addr_phys job ! n = bo_address env (bos ! n)"
      using arg_cong [OF step.prems(5), of "\<lambda>xs. xs ! n"] step.hyps by simp
  qed
  have up: "[n..<length bos] = n # [Suc n..<length bos]" using step.hyps by (simp add: upt_conv_Cons)
  show ?case
  proof (cases "g_handled g")
    case True
    have "gathers_at env (Suc n) bos (jo_cmds job)"
      using step.prems(1) g True unfolding gathers_at_def by (auto simp: less_Suc_eq)
    then show ?thesis using step.IH [of job] step.prems g True up by simp
  next
    case False
    let ?cs = "mark_handled n (g_bo g) (bo_address env (bos ! n))
      ((jo_cmds job)[n := HOST1X_JOB_CMD_GATHER (g\<lparr>g_base := bo_address env (bos ! n)\<rparr>)])"
    have "gathers_at env (Suc n) bos ?cs"
      using gathers_at_mark [OF step.prems(1) _ g(1) refl] step.hyps by simp
    then show ?thesis
      using step.IH [of "job\<lparr>jo_cmds := ?cs\<rparr>"] step.prems g False up addr by (simp add: do_relocs_def Let_def)
  qed
qed

text \<open>C13:
  In a job of gathers only, after a successful pinning every gather has the address at which its own
  buffer was pinned, also those that share a buffer with an earlier one.
\<close>

theorem job_pin_addresses:
  assumes "\<not> je_domain env" and job: "gathers_only job" and cmds: "jo_cmds job = map HOST1X_JOB_CMD_GATHER gs"
    and new: "\<forall>g \<in> set gs. \<not> g_handled g" and pin: "host1x_job_pin env job m = Some (Inr (), job', m')" and i: "i < length gs"
  shows "\<exists>g. jo_cmds job' ! i = HOST1X_JOB_CMD_GATHER g \<and> g_bo g = g_bo (gs ! i) \<and> g_base g = bo_address env (g_bo (gs ! i))"
proof -
  let ?bos = "map g_bo gs"
  have plain: "job\<lparr>jo_unpins := []\<rparr> = job" using job by (simp add: gathers_only_def)
  obtain r job1 m1 where p: "pin_gathers env 0 (jo_cmds job) job m = Some (r, job1, m1)"
    using pin pin_gathers_total [of job 0 "jo_cmds job" env m] job by (auto simp: gathers_only_def)
  have same: "same_job job job1" using pin_gathers_same [OF p] .
  then have fw: "\<not> jo_enable_firewall job1" using job by (simp add: gathers_only_def same_jobD [OF same])
  have r: "r = Inr ()"
  proof (cases r)
    case (Inl e)
    then show ?thesis using pin job p by (auto simp: host1x_job_pin_def pin_job_def gathers_only_def plain bind_eq_Some_conv)
  qed simp
  have "take (length gs) (jo_addr_phys job1) = map (bo_address env \<circ> g_bo) gs"
    using pin_gathers_addresses [of env 0 gs job m job1 m1] assms(1) p r job cmds by (simp add: gathers_only_def)
  moreover have "gathers_at env 0 ?bos (jo_cmds job1)"
    using new by (auto simp: same_jobD [OF same] cmds gathers_at_def)
  ultimately obtain cs where "patch_gathers env [0..<length gs] job1 m1 = Some (Inr (), job1\<lparr>jo_cmds := cs\<rparr>, m1)"
      and cs: "gathers_at env (length gs) ?bos cs"
    using patch_gathers_at [of 0 ?bos env job1 m1] fw job by (auto simp: gathers_only_def same_jobD [OF same])
  then have "job' = job1\<lparr>jo_cmds := cs\<rparr>"
    using pin job p r fw cmds by (auto simp: host1x_job_pin_def pin_job_def gathers_only_def plain same_jobD [OF same])
  then show ?thesis using cs i by (auto simp: gathers_at_def)
qed

lemma job_pin_addresses_witness:
  "\<exists>job' m' g. host1x_job_pin (job_env_ex False (\<lambda>_. True)) (job_ex (map HOST1X_JOB_CMD_GATHER [gather_ex 0, gather_ex 1])) memory_ex =
      Some (Inr (), job', m') \<and> jo_cmds job' ! 1 = HOST1X_JOB_CMD_GATHER g \<and> g_base g = 8192"
proof -
  have "map_option fst (host1x_job_pin (job_env_ex False (\<lambda>_. True)) (job_ex (map HOST1X_JOB_CMD_GATHER [gather_ex 0, gather_ex 1])) memory_ex)
      = Some (Inr ())"
    by (simp add: host1x_job_pin_def pin_job_def job_ex_def host1x_job_alloc_def Let_def job_env_ex_def host1x_bo_pin_def add_unpin_def
      gather_ex_def do_relocs_def mark_handled_def upt_rec enumerate_eq_zip)
  then obtain job' m' where p: "host1x_job_pin (job_env_ex False (\<lambda>_. True)) (job_ex (map HOST1X_JOB_CMD_GATHER [gather_ex 0, gather_ex 1]))
      memory_ex = Some (Inr (), job', m')"
    by (auto simp del: list.map)
  have "\<exists>g. jo_cmds job' ! 1 = HOST1X_JOB_CMD_GATHER g \<and> g_bo g = g_bo ([gather_ex 0, gather_ex 1] ! 1) \<and>
      g_base g = bo_address (job_env_ex False (\<lambda>_. True)) (g_bo ([gather_ex 0, gather_ex 1] ! 1))"
    by (rule job_pin_addresses [OF _ gathers_only_ex _ _ p]) (simp_all add: job_env_ex_def job_ex_def gather_ex_def)
  then show ?thesis using p by (auto simp: bo_address_def job_env_ex_def gather_ex_def simp del: list.map)
qed

text \<open>
  Behind a command that is no gather this is not so: the addresses of the gathers and the list of pinned addresses are
  one array, the first indexed by commands and the second by pins.
\<close>

lemma gather_behind_wait:
  "map_option (jo_cmds \<circ> fst \<circ> snd) (host1x_job_pin (job_env_ex False (\<lambda>_. True)) (job_ex [HOST1X_JOB_CMD_WAIT w,
       HOST1X_JOB_CMD_GATHER (gather_ex 0), HOST1X_JOB_CMD_GATHER (gather_ex 1)]) memory_ex) =
     Some [HOST1X_JOB_CMD_WAIT w, HOST1X_JOB_CMD_GATHER (gather_ex 0\<lparr>g_base := 8192\<rparr>), HOST1X_JOB_CMD_GATHER (gather_ex 1\<lparr>g_base := 8192\<rparr>)]"
  by (simp add: host1x_job_pin_def pin_job_def job_ex_def host1x_job_alloc_def Let_def job_env_ex_def host1x_bo_pin_def add_unpin_def
    gather_ex_def do_relocs_def mark_handled_def upt_rec enumerate_eq_zip)

end
