(* ===== verification/Host1x_Context.thy ===== *)
theory Host1x_Context imports Host1x_Job begin

text \<open>
  Memory contexts of host1x (\<open>drivers/gpu/host1x/context.c\<close>): the hardware contexts and their users, the buffers
  mapped in them, the stealing of a context that is not active and the waiting for one.  A device is
  known by its IOMMU, a process, a context, a mapping and a pinned buffer by a number.  The result
  \<open>None\<close> is an access through a null pointer or to freed memory, or a reference dropped that is not held.
\<close>

section \<open>Data\<close>

text \<open>\<open>hc_owners\<close> and \<open>mc_mappings\<close> are the list entries in order; \<open>hc_iommu\<close> is the IOMMU of the context device.\<close>

record host1x_hw_memory_context =
  hc_ref :: nat
  hc_owner :: "nat option"
  hc_active :: nat
  hc_owners :: "nat list"
  hc_iommu :: nat

record host1x_memory_context =
  mc_ref :: nat
  mc_pid :: nat
  mc_dev :: nat
  mc_hw :: "nat option"
  mc_context_dev :: "nat option"
  mc_mappings :: "nat list"

text \<open>\<open>cm_ctx\<close>: the context in whose list the mapping is.\<close>

record host1x_context_mapping =
  cm_ctx :: nat
  cm_bo :: nat
  cm_direction :: dma_data_direction
  cm_mapping :: "nat option"

record hw_alloc_waiter =
  wt_ctx :: nat
  wt_dev :: nat
  wt_done :: bool

text \<open>
  The state behind the lock: besides the list itself the contexts and mappings that exist, the buffers that
  are pinned (by the number of the attempt, with the hardware context and the buffer), the number
  of attempts and the references of the process identifiers.
\<close>

record context_list =
  xl_devs :: "host1x_hw_memory_context list"
  xl_waiters :: "hw_alloc_waiter list"
  xl_ctxs :: "nat \<rightharpoonup> host1x_memory_context"
  xl_maps :: "nat \<rightharpoonup> host1x_context_mapping"
  xl_pins :: "nat \<rightharpoonup> nat \<times> nat"
  xl_next :: nat
  xl_pid_ref :: "nat \<Rightarrow> nat"

text \<open>The error of each attempt to pin a buffer, if it fails.\<close>

type_synonym pin_env = "nat \<Rightarrow> errno option"

abbreviation upd_hw :: "nat \<Rightarrow> (host1x_hw_memory_context \<Rightarrow> host1x_hw_memory_context) \<Rightarrow> context_list \<Rightarrow> context_list" where
  "upd_hw h f s \<equiv> s\<lparr>xl_devs := (xl_devs s)[h := f (xl_devs s ! h)]\<rparr>"

abbreviation set_ctx :: "nat \<Rightarrow> host1x_memory_context \<Rightarrow> context_list \<Rightarrow> context_list" where
  "set_ctx c ctx s \<equiv> s\<lparr>xl_ctxs := (xl_ctxs s)(c \<mapsto> ctx)\<rparr>"

abbreviation set_map :: "nat \<Rightarrow> host1x_context_mapping \<Rightarrow> context_list \<Rightarrow> context_list" where
  "set_map m cm s \<equiv> s\<lparr>xl_maps := (xl_maps s)(m \<mapsto> cm)\<rparr>"

section \<open>Context devices\<close>

datatype ctx_device = Ctx_device nat | Ctx_add_failed errno | Ctx_configure_failed errno | Ctx_no_iommu

fun list_init_devs :: "(nat \<Rightarrow> ctx_device) \<Rightarrow> nat list \<Rightarrow> host1x_hw_memory_context list \<Rightarrow> (errno + unit) \<times> host1x_hw_memory_context list" where
  "list_init_devs dev [] devs = (Inr (), devs)"
| "list_init_devs dev (i # is) devs =
     (case dev i of
        Ctx_add_failed e \<Rightarrow> (Inl e, [])
      | Ctx_configure_failed e \<Rightarrow> (Inl e, [])
      | Ctx_no_iommu \<Rightarrow> (Inr (), [])
      | Ctx_device iommu \<Rightarrow>
          list_init_devs dev is (devs @ [\<lparr>hc_ref = 0, hc_owner = None, hc_active = 0, hc_owners = [], hc_iommu = iommu\<rparr>]))"

text \<open>\<open>cells\<close>: the number of cells of \<open>iommu-map\<close>, if the device tree has one.\<close>

definition host1x_memory_context_list_init ::
  "nat option \<Rightarrow> bool \<Rightarrow> (nat \<Rightarrow> ctx_device) \<Rightarrow> (errno + unit) \<times> host1x_hw_memory_context list" where
  "host1x_memory_context_list_init cells kcalloc dev =
     (case cells of
        None \<Rightarrow> (Inr (), [])
      | Some n \<Rightarrow> if \<not> kcalloc then (Inl ENOMEM, []) else list_init_devs dev [0..<n div 4] [])"

section \<open>Process identifiers and pinned buffers\<close>

definition get_pid :: "nat \<Rightarrow> context_list \<Rightarrow> context_list" where
  "get_pid p s = s\<lparr>xl_pid_ref := (xl_pid_ref s)(p := xl_pid_ref s p + 1)\<rparr>"

fun put_pid :: "nat option \<Rightarrow> context_list \<Rightarrow> context_list option" where
  "put_pid None s = Some s"
| "put_pid (Some p) s =
     (if xl_pid_ref s p = 0 then None else Some (s\<lparr>xl_pid_ref := (xl_pid_ref s)(p := xl_pid_ref s p - 1)\<rparr>))"

definition context_pin :: "pin_env \<Rightarrow> nat \<Rightarrow> nat \<Rightarrow> context_list \<Rightarrow> (errno + nat) \<times> context_list" where
  "context_pin env h bo s =
     (let n = xl_next s; s = s\<lparr>xl_next := n + 1\<rparr>
      in case env n of Some e \<Rightarrow> (Inl e, s) | None \<Rightarrow> (Inr n, s\<lparr>xl_pins := (xl_pins s)(n \<mapsto> (h, bo))\<rparr>))"

fun context_unpin :: "nat option \<Rightarrow> context_list \<Rightarrow> context_list option" where
  "context_unpin None s = None"
| "context_unpin (Some p) s = (if xl_pins s p = None then None else Some (s\<lparr>xl_pins := (xl_pins s)(p := None)\<rparr>))"

section \<open>Hardware contexts\<close>

definition hw_usable_for_dev :: "host1x_hw_memory_context \<Rightarrow> nat \<Rightarrow> bool" where
  "hw_usable_for_dev hw dev \<longleftrightarrow> hc_iommu hw = dev"

text \<open>The loop over the hardware contexts from index \<open>i\<close> on: one of the process, one without owner, one to steal.\<close>

fun hw_search ::
  "nat \<Rightarrow> nat \<Rightarrow> host1x_hw_memory_context list \<Rightarrow> nat \<Rightarrow> nat option \<Rightarrow> nat option \<Rightarrow> nat option \<times> nat option \<times> nat option" where
  "hw_search dev pid [] i free can_steal = (None, free, can_steal)"
| "hw_search dev pid (cd # cds) i free can_steal =
     (if \<not> hw_usable_for_dev cd dev then hw_search dev pid cds (i + 1) free can_steal
      else if hc_owner cd = Some pid then (Some i, free, can_steal)
      else if hc_owner cd = None \<and> free = None then hw_search dev pid cds (i + 1) (Some i) can_steal
      else if hc_active cd = 0 then hw_search dev pid cds (i + 1) free (Some i)
      else hw_search dev pid cds (i + 1) free can_steal)"

fun unpin_mappings :: "nat list \<Rightarrow> context_list \<Rightarrow> context_list option" where
  "unpin_mappings [] s = Some s"
| "unpin_mappings (m # ms) s = do {
     cm \<leftarrow> xl_maps s m;
     s \<leftarrow> context_unpin (cm_mapping cm) s;
     unpin_mappings ms (set_map m (cm\<lparr>cm_mapping := None\<rparr>) s) }"

fun steal_owners :: "nat list \<Rightarrow> context_list \<Rightarrow> context_list option" where
  "steal_owners [] s = Some s"
| "steal_owners (c # cs) s = do {
     ctx \<leftarrow> xl_ctxs s c;
     s \<leftarrow> unpin_mappings (mc_mappings ctx) (set_ctx c (ctx\<lparr>mc_hw := None, mc_context_dev := None\<rparr>) s);
     steal_owners cs s }"

definition hw_found :: "nat \<Rightarrow> nat \<Rightarrow> context_list \<Rightarrow> context_list" where
  "hw_found h pid s = upd_hw h (\<lambda>w. w\<lparr>hc_ref := 1, hc_owner := Some pid, hc_owners := []\<rparr>) (get_pid pid s)"

definition host1x_memory_context_alloc_hw_locked :: "nat \<Rightarrow> nat \<Rightarrow> context_list \<Rightarrow> ((errno + nat) \<times> context_list) option" where
  "host1x_memory_context_alloc_hw_locked dev pid s =
     (if xl_devs s = [] then Some (Inl EOPNOTSUPP, s)
      else case hw_search dev pid (xl_devs s) 0 None None of
             (Some h, _, _) \<Rightarrow> Some (Inr h, upd_hw h (\<lambda>w. w\<lparr>hc_ref := hc_ref w + 1\<rparr>) s)
           | (None, Some h, _) \<Rightarrow> Some (Inr h, hw_found h pid s)
           | (None, None, None) \<Rightarrow> Some (Inl EBUSY, s)
           | (None, None, Some h) \<Rightarrow> do {
               s \<leftarrow> steal_owners (hc_owners (xl_devs s ! h)) s;
               s \<leftarrow> put_pid (hc_owner (xl_devs s ! h)) s;
               Some (Inr h, hw_found h pid s) })"

definition host1x_memory_context_hw_put :: "nat \<Rightarrow> context_list \<Rightarrow> context_list option" where
  "host1x_memory_context_hw_put h s =
     (let w = xl_devs s ! h
      in if hc_ref w = 0 then None
         else if hc_ref w = 1
         then map_option (upd_hw h (\<lambda>w. w\<lparr>hc_ref := 0, hc_owner := None\<rparr>)) (put_pid (hc_owner w) s)
         else Some (upd_hw h (\<lambda>w. w\<lparr>hc_ref := hc_ref w - 1\<rparr>) s))"

section \<open>Contexts\<close>

text \<open>\<open>kzalloc\<close>: the address of the new object, if there is memory.\<close>

definition host1x_memory_context_alloc :: "nat option \<Rightarrow> nat \<Rightarrow> nat \<Rightarrow> context_list \<Rightarrow> (errno + nat) \<times> context_list" where
  "host1x_memory_context_alloc kzalloc dev pid s =
     (if xl_devs s = [] then (Inl EOPNOTSUPP, s)
      else case kzalloc of
             None \<Rightarrow> (Inl ENOMEM, s)
           | Some c \<Rightarrow>
               (Inr c, set_ctx c \<lparr>mc_ref = 1, mc_pid = pid, mc_dev = dev, mc_hw = None, mc_context_dev = None, mc_mappings = []\<rparr>
                 (get_pid pid s)))"

fun pin_mappings :: "pin_env \<Rightarrow> nat \<Rightarrow> nat list \<Rightarrow> context_list \<Rightarrow> ((errno + unit) \<times> context_list) option" where
  "pin_mappings env h [] s = Some (Inr (), s)"
| "pin_mappings env h (m # ms) s = do {
     cm \<leftarrow> xl_maps s m;
     case context_pin env h (cm_bo cm) s of
       (Inl e, s) \<Rightarrow> Some (Inl e, set_map m (cm\<lparr>cm_mapping := None\<rparr>) s)
     | (Inr p, s) \<Rightarrow> pin_mappings env h ms (set_map m (cm\<lparr>cm_mapping := Some p\<rparr>) s) }"

text \<open>The error path: the mappings keep the pointers to what is unpinned.\<close>

fun unpin_pinned :: "nat list \<Rightarrow> context_list \<Rightarrow> context_list option" where
  "unpin_pinned [] s = Some s"
| "unpin_pinned (m # ms) s = do {
     cm \<leftarrow> xl_maps s m;
     s \<leftarrow> (if cm_mapping cm \<noteq> None then context_unpin (cm_mapping cm) s else Some s);
     unpin_pinned ms s }"

text \<open>
  One turn of \<open>host1x_memory_context_active\<close> with the lock held, from the label \<open>retry\<close> on: the call returns, or
  it gives up the lock and waits.
\<close>

datatype active_turn = Active_returns "errno + unit" | Active_waits

definition add_active :: "nat \<Rightarrow> context_list \<Rightarrow> context_list" where
  "add_active h s = upd_hw h (\<lambda>w. w\<lparr>hc_active := hc_active w + 1\<rparr>) s"

definition host1x_memory_context_active :: "pin_env \<Rightarrow> nat \<Rightarrow> context_list \<Rightarrow> (active_turn \<times> context_list) option" where
  "host1x_memory_context_active env c s = do {
     ctx \<leftarrow> xl_ctxs s c;
     case mc_hw ctx of
       Some h \<Rightarrow> Some (Active_returns (Inr ()), add_active h s)
     | None \<Rightarrow> do {
         (r, s) \<leftarrow> host1x_memory_context_alloc_hw_locked (mc_dev ctx) (mc_pid ctx) s;
         case r of
           Inl e \<Rightarrow>
             if e = EBUSY
             then Some (Active_waits, s\<lparr>xl_waiters := \<lparr>wt_ctx = c, wt_dev = mc_dev ctx, wt_done = False\<rparr> # xl_waiters s\<rparr>)
             else Some (Active_returns (Inl e), s)
         | Inr h \<Rightarrow> do {
             let s = set_ctx c (ctx\<lparr>mc_hw := Some h, mc_context_dev := Some h\<rparr>) s;
             let s = upd_hw h (\<lambda>w. w\<lparr>hc_owners := c # hc_owners w\<rparr>) s;
             (r, s) \<leftarrow> pin_mappings env h (mc_mappings ctx) s;
             case r of
               Inr _ \<Rightarrow> Some (Active_returns (Inr ()), add_active h s)
             | Inl e \<Rightarrow> do {
                 s \<leftarrow> unpin_pinned (mc_mappings ctx) s;
                 s \<leftarrow> host1x_memory_context_hw_put h s;
                 let s = upd_hw h (\<lambda>w. w\<lparr>hc_owners := remove1 c (hc_owners w)\<rparr>) s;
                 Some (Active_returns (Inl e), set_ctx c (ctx\<lparr>mc_hw := None, mc_context_dev := Some h\<rparr>) s) } } } }"

text \<open>The waiting call \<open>i\<close> goes on: it was woken, or a signal interrupts it.\<close>

definition host1x_memory_context_active_woken ::
  "pin_env \<Rightarrow> nat \<Rightarrow> context_list \<Rightarrow> (active_turn \<times> context_list) option" where
  "host1x_memory_context_active_woken env i s =
     (let w = xl_waiters s ! i; s = s\<lparr>xl_waiters := take i (xl_waiters s) @ drop (i + 1) (xl_waiters s)\<rparr>
      in if wt_done w then host1x_memory_context_active env (wt_ctx w) s
         else Some (Active_returns (Inl ERESTARTSYS), s))"

definition host1x_memory_context_map ::
  "pin_env \<Rightarrow> nat option \<Rightarrow> nat \<Rightarrow> nat \<Rightarrow> dma_data_direction \<Rightarrow> context_list \<Rightarrow> ((errno + nat) \<times> context_list) option" where
  "host1x_memory_context_map env kzalloc c bo dir s =
     (case kzalloc of
        None \<Rightarrow> Some (Inl ENOMEM, s)
      | Some m \<Rightarrow> do {
          ctx \<leftarrow> xl_ctxs s c;
          let (r, s) = (case mc_hw ctx of
                          None \<Rightarrow> (Inr None, s)
                        | Some h \<Rightarrow> (case context_pin env h bo s of (Inl e, s) \<Rightarrow> (Inl e, s) | (Inr p, s) \<Rightarrow> (Inr (Some p), s)));
          case r of
            Inl e \<Rightarrow> Some (Inl e, s)
          | Inr p \<Rightarrow>
              Some (Inr m, set_ctx c (ctx\<lparr>mc_mappings := m # mc_mappings ctx\<rparr>)
                (set_map m \<lparr>cm_ctx = c, cm_bo = bo, cm_direction = dir, cm_mapping = p\<rparr> s)) })"

definition host1x_memory_context_unmap :: "nat \<Rightarrow> context_list \<Rightarrow> context_list option" where
  "host1x_memory_context_unmap m s = do {
     cm \<leftarrow> xl_maps s m;
     ctx \<leftarrow> xl_ctxs s (cm_ctx cm);
     let s = set_ctx (cm_ctx cm) (ctx\<lparr>mc_mappings := remove1 m (mc_mappings ctx)\<rparr>) s;
     s \<leftarrow> (if cm_mapping cm \<noteq> None then context_unpin (cm_mapping cm) s else Some s);
     Some (s\<lparr>xl_maps := (xl_maps s)(m := None)\<rparr>) }"

definition host1x_memory_context_inactive :: "nat \<Rightarrow> context_list \<Rightarrow> context_list option" where
  "host1x_memory_context_inactive c s = do {
     ctx \<leftarrow> xl_ctxs s c;
     h \<leftarrow> mc_hw ctx;
     if hc_active (xl_devs s ! h) = 0 then None
     else do {
       let s = upd_hw h (\<lambda>w. w\<lparr>hc_active := hc_active w - 1\<rparr>) s;
       if hc_active (xl_devs s ! h) = 0
       then Some (s\<lparr>xl_waiters := map (\<lambda>w. if hw_usable_for_dev (xl_devs s ! h) (wt_dev w) then w\<lparr>wt_done := True\<rparr> else w) (xl_waiters s)\<rparr>)
       else Some s } }"

definition host1x_memory_context_get :: "nat \<Rightarrow> context_list \<Rightarrow> context_list option" where
  "host1x_memory_context_get c s = map_option (\<lambda>ctx. set_ctx c (ctx\<lparr>mc_ref := mc_ref ctx + 1\<rparr>) s) (xl_ctxs s c)"

definition host1x_memory_context_put :: "nat \<Rightarrow> context_list \<Rightarrow> context_list option" where
  "host1x_memory_context_put c s = do {
     ctx \<leftarrow> xl_ctxs s c;
     if mc_ref ctx = 0 then None
     else if 1 < mc_ref ctx then Some (set_ctx c (ctx\<lparr>mc_ref := mc_ref ctx - 1\<rparr>) s)
     else do {
       s \<leftarrow> (case mc_hw ctx of
               None \<Rightarrow> Some s
             | Some h \<Rightarrow> host1x_memory_context_hw_put h (upd_hw h (\<lambda>w. w\<lparr>hc_owners := remove1 c (hc_owners w)\<rparr>) s));
       s \<leftarrow> put_pid (Some (mc_pid ctx)) s;
       Some (s\<lparr>xl_ctxs := (xl_ctxs s)(c := None)\<rparr>) } }"

end
