(* ===== verification/Host1x_Context_Facts.thy ===== *)
theory Host1x_Context_Facts imports Host1x_Context begin

text \<open>
  Memory contexts: the use of hardware contexts by processes, the waiting for them and the buffers pinned
  in them, over every sequence of operations that the clients of host1x may make.
\<close>

section \<open>The search\<close>

definition usable :: "host1x_hw_memory_context list \<Rightarrow> nat \<Rightarrow> nat \<Rightarrow> bool" where
  "usable devs dev h \<longleftrightarrow> h < length devs \<and> hc_iommu (devs ! h) = dev"

lemma hw_search_from:
  assumes "cds = drop i devs"
    and "\<forall>h. usable devs dev h \<and> h < i \<longrightarrow> hc_owner (devs ! h) \<noteq> Some pid"
    and "case free of Some h \<Rightarrow> usable devs dev h \<and> hc_owner (devs ! h) = None
       | None \<Rightarrow> \<forall>h. usable devs dev h \<and> h < i \<longrightarrow> hc_owner (devs ! h) \<noteq> None"
    and "case can_steal of Some h \<Rightarrow> usable devs dev h \<and> hc_active (devs ! h) = 0
       | None \<Rightarrow> free = None \<longrightarrow> (\<forall>h. usable devs dev h \<and> h < i \<longrightarrow> hc_active (devs ! h) \<noteq> 0)"
  shows "case hw_search dev pid cds i free can_steal of
      (Some h, _, _) \<Rightarrow> usable devs dev h \<and> hc_owner (devs ! h) = Some pid
    | (None, f, st) \<Rightarrow> (\<forall>h. usable devs dev h \<longrightarrow> hc_owner (devs ! h) \<noteq> Some pid) \<and>
        (case f of Some h \<Rightarrow> usable devs dev h \<and> hc_owner (devs ! h) = None
         | None \<Rightarrow> \<forall>h. usable devs dev h \<longrightarrow> hc_owner (devs ! h) \<noteq> None) \<and>
        (case st of Some h \<Rightarrow> usable devs dev h \<and> hc_active (devs ! h) = 0
         | None \<Rightarrow> f = None \<longrightarrow> (\<forall>h. usable devs dev h \<longrightarrow> hc_active (devs ! h) \<noteq> 0))"
  using assms
proof (induction dev pid cds i free can_steal rule: hw_search.induct)
  case (1 dev pid i free can_steal)
  then have "length devs \<le> i" by simp
  then show ?case using "1.prems" by (auto simp: usable_def split: option.splits)
next
  case (2 dev pid cd cds i free can_steal)
  have cd: "i < length devs" "devs ! i = cd" "cds = drop (i + 1) devs"
    using "2.prems"(1) by (auto simp: drop_Suc nth_via_drop [of i devs cd cds] dest: sym) (metis drop_eq_Nil2 leI list.distinct(1), metis drop_Suc list.sel(3) tl_drop)
  have u: "usable devs dev i \<longleftrightarrow> hw_usable_for_dev cd dev" using cd by (simp add: usable_def hw_usable_for_dev_def)
  have less: "(\<forall>h. usable devs dev h \<and> h < Suc i \<longrightarrow> P h) \<longleftrightarrow>
      (\<forall>h. usable devs dev h \<and> h < i \<longrightarrow> P h) \<and> (hw_usable_for_dev cd dev \<longrightarrow> P i)" for P
    using u by (auto simp: less_Suc_eq)
  show ?case
  proof (cases "hw_usable_for_dev cd dev")
    case False
    show ?thesis
      unfolding hw_search.simps if_P [OF False]
      by (rule "2.IH"(1) [OF False cd(3)]) (use "2.prems" False in \<open>auto simp: less split: option.splits\<close>)
  next
    case True
    note use = True
    show ?thesis
    proof (cases "hc_owner cd = Some pid")
      case True
      then show ?thesis using use u cd by simp
    next
      case notmine: False
      consider (free) "hc_owner cd = None" "free = None" | (idle) "\<not> (hc_owner cd = None \<and> free = None)" "hc_active cd = 0"
        | (busy) "\<not> (hc_owner cd = None \<and> free = None)" "hc_active cd \<noteq> 0" by auto
      then show ?thesis
      proof cases
        case free
        then have "hw_search dev pid (cd # cds) i free can_steal = hw_search dev pid cds (i + 1) (Some i) can_steal" using use notmine by simp
        moreover show ?thesis unfolding calculation
          by (rule "2.IH"(2)) (use "2.prems" free use notmine cd u in \<open>auto simp: less split: option.splits\<close>)
      next
        case idle
        then have "hw_search dev pid (cd # cds) i free can_steal = hw_search dev pid cds (i + 1) free (Some i)" using use notmine by auto
        moreover show ?thesis unfolding calculation
          by (rule "2.IH"(3)) (use "2.prems" idle use notmine cd u in \<open>auto simp: less split: option.splits\<close>)
      next
        case busy
        then have "hw_search dev pid (cd # cds) i free can_steal = hw_search dev pid cds (i + 1) free can_steal" using use notmine by auto
        moreover show ?thesis unfolding calculation
          by (rule "2.IH"(4)) (use "2.prems" busy use notmine cd u in \<open>auto simp: less split: option.splits\<close>)
      qed
    qed
  qed
qed

text \<open>The result of the search as the code uses it.\<close>

lemmas hw_search_spec = hw_search_from [of devs 0 devs dev pid None None for devs dev pid, simplified]

section \<open>Frames\<close>

text \<open>Pinning and unpinning change neither the hardware contexts nor the contexts.\<close>

definition same_hw :: "context_list \<Rightarrow> context_list \<Rightarrow> bool" where
  "same_hw s s' \<longleftrightarrow> xl_devs s' = xl_devs s \<and> xl_waiters s' = xl_waiters s \<and> xl_ctxs s' = xl_ctxs s \<and> xl_pid_ref s' = xl_pid_ref s"

lemma same_hw_trans: "same_hw s s1 \<Longrightarrow> same_hw s1 s2 \<Longrightarrow> same_hw s s2"
  by (simp add: same_hw_def)

lemma context_unpin_frame: "context_unpin p s = Some s' \<Longrightarrow> same_hw s s'"
  by (cases p) (auto simp: same_hw_def split: if_splits)

lemma context_pin_frame: "context_pin env h bo s = (r, s') \<Longrightarrow> same_hw s s'"
  by (auto simp: context_pin_def Let_def same_hw_def split: option.splits)

lemma unpin_mappings_frame: "unpin_mappings ms s = Some s' \<Longrightarrow> same_hw s s'"
proof (induction ms s rule: unpin_mappings.induct)
  case (2 m ms s)
  then obtain cm s1 where s1: "context_unpin (cm_mapping cm) s = Some s1" "xl_maps s m = Some cm"
      "unpin_mappings ms (set_map m (cm\<lparr>cm_mapping := None\<rparr>) s1) = Some s'"
    by (auto simp: bind_eq_Some_conv)
  have "same_hw s (set_map m (cm\<lparr>cm_mapping := None\<rparr>) s1)" using context_unpin_frame [OF s1(1)] by (simp add: same_hw_def)
  then show ?case using "2.IH" [OF s1(2,1,3)] same_hw_trans by blast
qed (simp add: same_hw_def)

lemma unpin_pinned_frame: "unpin_pinned ms s = Some s' \<Longrightarrow> same_hw s s'"
proof (induction ms s rule: unpin_pinned.induct)
  case (2 m ms s)
  then obtain cm s1 where cm: "xl_maps s m = Some cm" and s1: "(if cm_mapping cm \<noteq> None then context_unpin (cm_mapping cm) s else Some s) = Some s1"
      and rest: "unpin_pinned ms s1 = Some s'"
    by (auto simp: bind_eq_Some_conv)
  have "same_hw s s1" using s1 context_unpin_frame by (auto simp: same_hw_def split: if_splits)
  then show ?case using "2.IH" [OF cm s1 rest] same_hw_trans by blast
qed (simp add: same_hw_def)

lemma pin_mappings_frame: "pin_mappings env h ms s = Some (r, s') \<Longrightarrow> same_hw s s'"
proof (induction env h ms s rule: pin_mappings.induct)
  case (2 env h m ms s)
  then obtain cm where cm: "xl_maps s m = Some cm" by (auto simp: bind_eq_Some_conv)
  obtain q s1 where q: "context_pin env h (cm_bo cm) s = (q, s1)" by fastforce
  have f: "same_hw s (set_map m cm' s1)" for cm' using context_pin_frame [OF q] by (simp add: same_hw_def)
  show ?case
  proof (cases q)
    case (Inl e)
    then show ?thesis using "2.prems" cm q f by auto
  next
    case (Inr p)
    then show ?thesis using "2.IH" [OF cm q [symmetric, unfolded Inr] refl] "2.prems" cm q f same_hw_trans by auto
  qed
qed (simp add: same_hw_def)

lemma steal_owners_frame:
  assumes "steal_owners cs s = Some s'"
  shows "xl_devs s' = xl_devs s \<and> xl_waiters s' = xl_waiters s \<and> xl_pid_ref s' = xl_pid_ref s \<and>
    xl_ctxs s' = (\<lambda>c. if c \<in> set cs then map_option (\<lambda>x. x\<lparr>mc_hw := None, mc_context_dev := None\<rparr>) (xl_ctxs s c) else xl_ctxs s c)"
  using assms
proof (induction cs s rule: steal_owners.induct)
  case (2 c cs s)
  then obtain ctx s1 where ctx: "xl_ctxs s c = Some ctx"
      and s1: "unpin_mappings (mc_mappings ctx) (set_ctx c (ctx\<lparr>mc_hw := None, mc_context_dev := None\<rparr>) s) = Some s1"
      and rest: "steal_owners cs s1 = Some s'"
    by (auto simp: bind_eq_Some_conv)
  show ?case
    using "2.IH" [OF ctx s1 rest] unpin_mappings_frame [OF s1] ctx by (auto simp: same_hw_def fun_eq_iff)
qed simp

section \<open>Owners of hardware contexts\<close>

definition on_hw :: "(nat \<rightharpoonup> host1x_memory_context) \<Rightarrow> nat \<Rightarrow> nat \<Rightarrow> bool" where
  "on_hw ctxs h c \<longleftrightarrow> (\<exists>ctx. ctxs c = Some ctx \<and> mc_hw ctx = Some h)"

definition hw_ok :: "(nat \<Rightarrow> nat) \<Rightarrow> (nat \<rightharpoonup> host1x_memory_context) \<Rightarrow> nat \<Rightarrow> host1x_hw_memory_context \<Rightarrow> bool" where
  "hw_ok holds ctxs h w \<longleftrightarrow> distinct (hc_owners w) \<and> hc_ref w = length (hc_owners w) \<and> set (hc_owners w) = {c. on_hw ctxs h c} \<and>
     (\<forall>c ctx. ctxs c = Some ctx \<and> mc_hw ctx = Some h \<longrightarrow> hc_owner w = Some (mc_pid ctx) \<and> mc_dev ctx = hc_iommu w) \<and>
     (hc_owners w = [] \<longrightarrow> hc_owner w = None) \<and> hc_active w = sum_list (map holds (hc_owners w))"

text \<open>\<open>holds c\<close>: the activations of \<open>c\<close> that the clients have and must give back.\<close>

definition owners_inv :: "(nat \<Rightarrow> nat) \<Rightarrow> context_list \<Rightarrow> bool" where
  "owners_inv holds s \<longleftrightarrow> (\<forall>h < length (xl_devs s). hw_ok holds (xl_ctxs s) h (xl_devs s ! h)) \<and>
     (\<forall>c ctx h. xl_ctxs s c = Some ctx \<and> mc_hw ctx = Some h \<longrightarrow> h < length (xl_devs s)) \<and>
     (\<forall>c. 0 < holds c \<longrightarrow> (\<exists>h. on_hw (xl_ctxs s) h c))"

lemma owners_inv_same: "same_hw s s' \<Longrightarrow> owners_inv holds s \<Longrightarrow> owners_inv holds s'"
  by (simp add: owners_inv_def same_hw_def)

text \<open>A change of the contexts in \<open>C\<close> and the hardware context \<open>h\<close> alone.\<close>

lemma owners_inv_upd:
  assumes inv: "owners_inv holds s" and h: "h < length (xl_devs s)" and ok: "hw_ok holds' (xl_ctxs s') h w"
    and rest: "\<And>d. d \<notin> C \<Longrightarrow> xl_ctxs s' d = xl_ctxs s d \<and> holds' d = holds d"
    and off: "\<And>k c. c \<in> C \<Longrightarrow> k \<noteq> h \<Longrightarrow> \<not> on_hw (xl_ctxs s) k c" and off': "\<And>k c. c \<in> C \<Longrightarrow> k \<noteq> h \<Longrightarrow> \<not> on_hw (xl_ctxs s') k c"
    and held: "\<And>c. c \<in> C \<Longrightarrow> 0 < holds' c \<Longrightarrow> on_hw (xl_ctxs s') h c" and devs: "xl_devs s' = (xl_devs s)[h := w]"
  shows "owners_inv holds' s'"
proof -
  have on: "on_hw (xl_ctxs s') k d \<longleftrightarrow> on_hw (xl_ctxs s) k d" if "k \<noteq> h" for k d
  proof (cases "d \<in> C")
    case True
    then show ?thesis using off off' that by blast
  next
    case False
    then show ?thesis using rest by (simp add: on_hw_def)
  qed
  have "hw_ok holds' (xl_ctxs s') k (xl_devs s ! k)" if k: "k < length (xl_devs s)" "k \<noteq> h" for k
  proof -
    have ok: "hw_ok holds (xl_ctxs s) k (xl_devs s ! k)" using inv k by (simp add: owners_inv_def)
    then have "c \<notin> C" if "c \<in> set (hc_owners (xl_devs s ! k))" for c using off k(2) that unfolding hw_ok_def by blast
    then have "sum_list (map holds' (hc_owners (xl_devs s ! k))) = sum_list (map holds (hc_owners (xl_devs s ! k)))"
      by (intro arg_cong [of _ _ sum_list] map_cong refl) (metis rest)
    moreover have "hc_owner (xl_devs s ! k) = Some (mc_pid ctx) \<and> mc_dev ctx = hc_iommu (xl_devs s ! k)"
      if "xl_ctxs s' d = Some ctx" "mc_hw ctx = Some k" for d ctx
    proof -
      have "d \<notin> C" using that off' k by (auto simp: on_hw_def)
      then show ?thesis using ok that rest by (auto simp: hw_ok_def)
    qed
    moreover have "{c. on_hw (xl_ctxs s') k c} = {c. on_hw (xl_ctxs s) k c}" using on k by simp
    ultimately show ?thesis using ok unfolding hw_ok_def by auto
  qed
  then have 1: "\<forall>k < length (xl_devs s'). hw_ok holds' (xl_ctxs s') k (xl_devs s' ! k)"
    using h ok devs by (simp add: nth_list_update)
  have 2: "k < length (xl_devs s')" if "xl_ctxs s' d = Some ctx" "mc_hw ctx = Some k" for d ctx k
  proof (cases "d \<in> C")
    case True
    then have "k = h" using off' that by (auto simp: on_hw_def)
    then show ?thesis using h devs by simp
  next
    case False
    then show ?thesis using inv rest devs that by (auto simp: owners_inv_def)
  qed
  have 3: "\<exists>k. on_hw (xl_ctxs s') k d" if "0 < holds' d" for d
  proof (cases "d \<in> C")
    case False
    then have "0 < holds d" "xl_ctxs s' d = xl_ctxs s d" using that rest by auto
    then show ?thesis using inv by (auto simp: owners_inv_def on_hw_def)
  qed (use held that in blast)
  show ?thesis using 1 2 3 unfolding owners_inv_def by blast
qed

lemma owners_invD:
  assumes "owners_inv holds s" and "h < length (xl_devs s)"
  shows "hw_ok holds (xl_ctxs s) h (xl_devs s ! h)"
  using assms by (simp add: owners_inv_def)

lemma on_hw_unique: "on_hw ctxs h c \<Longrightarrow> on_hw ctxs k c \<Longrightarrow> k = h"
  by (auto simp: on_hw_def)

lemma not_held: "owners_inv holds s \<Longrightarrow> xl_ctxs s c = Some ctx \<Longrightarrow> mc_hw ctx = None \<Longrightarrow> holds c = 0"
  by (fastforce simp: owners_inv_def on_hw_def)

section \<open>Taking a hardware context\<close>

definition all_busy :: "context_list \<Rightarrow> nat \<Rightarrow> nat \<Rightarrow> bool" where
  "all_busy s dev pid \<longleftrightarrow>
     (\<forall>h. usable (xl_devs s) dev h \<longrightarrow> hc_owner (xl_devs s ! h) \<noteq> None \<and> hc_owner (xl_devs s ! h) \<noteq> Some pid \<and> hc_active (xl_devs s ! h) \<noteq> 0)"

definition take_hw :: "nat \<Rightarrow> host1x_memory_context \<Rightarrow> nat \<Rightarrow> context_list \<Rightarrow> context_list" where
  "take_hw c ctx h s = upd_hw h (\<lambda>w. w\<lparr>hc_owners := c # hc_owners w\<rparr>) (set_ctx c (ctx\<lparr>mc_hw := Some h, mc_context_dev := Some h\<rparr>) s)"

text \<open>What no operation changes of a context that stays.\<close>

definition identity :: "host1x_memory_context \<Rightarrow> nat \<times> nat \<times> nat \<times> nat list" where
  "identity ctx = (mc_pid ctx, mc_dev ctx, mc_ref ctx, mc_mappings ctx)"

lemma alloc_hw_owners:
  assumes inv: "owners_inv holds s" and c: "xl_ctxs s c = Some ctx" "mc_hw ctx = None"
    and alloc: "host1x_memory_context_alloc_hw_locked (mc_dev ctx) (mc_pid ctx) s = Some (Inr h, s1)"
  shows "owners_inv holds (take_hw c ctx h s1) \<and> usable (xl_devs s) (mc_dev ctx) h \<and> length (xl_devs s1) = length (xl_devs s) \<and>
    \<not> all_busy s (mc_dev ctx) (mc_pid ctx) \<and> xl_waiters s1 = xl_waiters s \<and> xl_ctxs s1 c = Some ctx \<and>
    (\<exists>w. xl_devs s1 = (xl_devs s)[h := w] \<and> hc_iommu w = hc_iommu (xl_devs s ! h) \<and> hc_active w = hc_active (xl_devs s ! h) \<and>
       hc_owner w = Some (mc_pid ctx)) \<and>
    (hc_owner (xl_devs s ! h) = Some (mc_pid ctx) \<or> hc_owner (xl_devs s ! h) = None \<or> hc_active (xl_devs s ! h) = 0) \<and>
    (\<forall>d. map_option identity (xl_ctxs s1 d) = map_option identity (xl_ctxs s d))"
proof -
  obtain own free st where search: "hw_search (mc_dev ctx) (mc_pid ctx) (xl_devs s) 0 None None = (own, free, st)"
    by (cases "hw_search (mc_dev ctx) (mc_pid ctx) (xl_devs s) 0 None None") auto
  note spec = hw_search_spec [where devs = "xl_devs s" and dev = "mc_dev ctx" and pid = "mc_pid ctx", unfolded search]
  have ne: "xl_devs s \<noteq> []" using alloc by (auto simp: host1x_memory_context_alloc_hw_locked_def)
  note c_off = not_held [OF inv c]
  consider (own) "own = Some h" | (free) "own = None" "free = Some h" | (steal) "own = None" "free = None" "st = Some h"
    using alloc search ne by (auto simp: host1x_memory_context_alloc_hw_locked_def bind_eq_Some_conv split: option.splits)
  then show ?thesis
  proof cases
    case own
    then have h: "usable (xl_devs s) (mc_dev ctx) h" "hc_owner (xl_devs s ! h) = Some (mc_pid ctx)" using spec by auto
    have s1: "s1 = upd_hw h (\<lambda>w. w\<lparr>hc_ref := hc_ref w + 1\<rparr>) s"
      using alloc search ne own by (auto simp: host1x_memory_context_alloc_hw_locked_def)
    have lt: "h < length (xl_devs s)" and dev: "hc_iommu (xl_devs s ! h) = mc_dev ctx" using h by (auto simp: usable_def)
    note ok = owners_invD [OF inv lt]
    have "owners_inv holds (take_hw c ctx h s1)"
    proof (rule owners_inv_upd [OF inv lt, where C = "{c}"])
      show "xl_devs (take_hw c ctx h s1) = (xl_devs s)[h := (xl_devs s ! h)\<lparr>hc_ref := hc_ref (xl_devs s ! h) + 1, hc_owners := c # hc_owners (xl_devs s ! h)\<rparr>]"
        using lt by (simp add: take_hw_def s1)
      show "hw_ok holds (xl_ctxs (take_hw c ctx h s1)) h ((xl_devs s ! h)\<lparr>hc_ref := hc_ref (xl_devs s ! h) + 1, hc_owners := c # hc_owners (xl_devs s ! h)\<rparr>)"
        using ok c h dev c_off by (auto simp: hw_ok_def on_hw_def take_hw_def s1)
    qed (use c c_off in \<open>auto simp: on_hw_def take_hw_def s1\<close>)
    moreover have "\<not> all_busy s (mc_dev ctx) (mc_pid ctx)" using h by (auto simp: all_busy_def)
    ultimately show ?thesis using h c s1 by auto
  next
    case free
    then have h: "usable (xl_devs s) (mc_dev ctx) h" "hc_owner (xl_devs s ! h) = None" using spec by auto
    have s1: "s1 = hw_found h (mc_pid ctx) s"
      using alloc search ne free by (auto simp: host1x_memory_context_alloc_hw_locked_def)
    have lt: "h < length (xl_devs s)" and dev: "hc_iommu (xl_devs s ! h) = mc_dev ctx" using h by (auto simp: usable_def)
    note ok = owners_invD [OF inv lt]
    have none: "\<not> on_hw (xl_ctxs s) h d" for d using ok h(2) by (auto simp: hw_ok_def on_hw_def)
    then have "hc_owners (xl_devs s ! h) = []" using ok by (auto simp: hw_ok_def)
    then have idle: "hc_active (xl_devs s ! h) = 0" using ok by (simp add: hw_ok_def)
    let ?w = "(xl_devs s ! h)\<lparr>hc_ref := 1, hc_owner := Some (mc_pid ctx), hc_owners := [c]\<rparr>"
    have "owners_inv holds (take_hw c ctx h s1)"
    proof (rule owners_inv_upd [OF inv lt, where C = "{c}"])
      show "xl_devs (take_hw c ctx h s1) = (xl_devs s)[h := ?w]"
        using lt by (simp add: take_hw_def s1 hw_found_def get_pid_def)
      show "hw_ok holds (xl_ctxs (take_hw c ctx h s1)) h ?w"
        using none c c_off dev idle by (auto simp: hw_ok_def on_hw_def take_hw_def s1 hw_found_def get_pid_def)
    qed (use c c_off in \<open>auto simp: on_hw_def take_hw_def s1 hw_found_def get_pid_def\<close>)
    moreover have "\<not> all_busy s (mc_dev ctx) (mc_pid ctx)" using h by (auto simp: all_busy_def)
    ultimately show ?thesis using h c s1 by (auto simp: hw_found_def get_pid_def)
  next
    case steal
    then have h: "usable (xl_devs s) (mc_dev ctx) h" "hc_active (xl_devs s ! h) = 0" using spec by auto
    have lt: "h < length (xl_devs s)" and dev: "hc_iommu (xl_devs s ! h) = mc_dev ctx" using h by (auto simp: usable_def)
    let ?os = "hc_owners (xl_devs s ! h)"
    obtain s2 s3 where s2: "steal_owners ?os s = Some s2" and s3: "put_pid (hc_owner (xl_devs s2 ! h)) s2 = Some s3"
        and s1: "s1 = hw_found h (mc_pid ctx) s3"
      using alloc search ne steal by (auto simp: host1x_memory_context_alloc_hw_locked_def bind_eq_Some_conv)
    have f3: "xl_devs s3 = xl_devs s2 \<and> xl_waiters s3 = xl_waiters s2 \<and> xl_ctxs s3 = xl_ctxs s2"
      using s3 by (cases "hc_owner (xl_devs s2 ! h)") (auto split: if_splits)
    note f2 = steal_owners_frame [OF s2]
    note ok = owners_invD [OF inv lt]
    have os: "set ?os = {d. on_hw (xl_ctxs s) h d}" using ok by (simp add: hw_ok_def)
    have idle: "\<forall>d \<in> set ?os. holds d = 0" using ok h(2) by (simp add: hw_ok_def)
    have c_notin: "c \<notin> set ?os" using c by (auto simp: os on_hw_def)
    let ?w = "(xl_devs s ! h)\<lparr>hc_ref := 1, hc_owner := Some (mc_pid ctx), hc_owners := [c]\<rparr>"
    have ctxs: "xl_ctxs (take_hw c ctx h s1) = (\<lambda>d. if d = c then Some (ctx\<lparr>mc_hw := Some h, mc_context_dev := Some h\<rparr>)
        else if d \<in> set ?os then map_option (\<lambda>x. x\<lparr>mc_hw := None, mc_context_dev := None\<rparr>) (xl_ctxs s d) else xl_ctxs s d)"
      using f2 f3 by (simp add: take_hw_def s1 hw_found_def get_pid_def fun_eq_iff)
    have gone: "\<not> on_hw (xl_ctxs (take_hw c ctx h s1)) k d" if "d \<noteq> c" "d \<in> set ?os" for k d
      using that by (auto simp: on_hw_def ctxs)
    have only: "on_hw (xl_ctxs (take_hw c ctx h s1)) h d \<longleftrightarrow> d = c" for d
      using gone [of d h] os by (auto simp: on_hw_def ctxs)
    have "owners_inv holds (take_hw c ctx h s1)"
    proof (rule owners_inv_upd [OF inv lt, where C = "insert c (set ?os)"])
      show "xl_devs (take_hw c ctx h s1) = (xl_devs s)[h := ?w]"
        using lt f2 f3 by (simp add: take_hw_def s1 hw_found_def get_pid_def)
      show "hw_ok holds (xl_ctxs (take_hw c ctx h s1)) h ?w"
      proof -
        have "hc_owner ?w = Some (mc_pid x) \<and> mc_dev x = hc_iommu ?w"
          if "xl_ctxs (take_hw c ctx h s1) d = Some x" "mc_hw x = Some h" for d x
        proof -
          have "d = c" using only that by (auto simp: on_hw_def)
          then show ?thesis using that dev by (auto simp: ctxs)
        qed
        then show ?thesis using only h(2) c_off by (auto simp: hw_ok_def)
      qed
      show "xl_ctxs (take_hw c ctx h s1) d = xl_ctxs s d \<and> holds d = holds d" if "d \<notin> insert c (set ?os)" for d
        using that by (simp add: ctxs)
      show "\<not> on_hw (xl_ctxs s) k d" if "d \<in> insert c (set ?os)" "k \<noteq> h" for k d
        using that c os on_hw_unique by (auto simp: on_hw_def)
      show "\<not> on_hw (xl_ctxs (take_hw c ctx h s1)) k d" if "d \<in> insert c (set ?os)" "k \<noteq> h" for k d
        using that gone [of d k] by (cases "d = c") (auto simp: on_hw_def ctxs)
      show "on_hw (xl_ctxs (take_hw c ctx h s1)) h d" if "d \<in> insert c (set ?os)" "0 < holds d" for d
        using that idle c_off by auto
    qed
    moreover have "\<not> all_busy s (mc_dev ctx) (mc_pid ctx)" using h by (auto simp: all_busy_def)
    moreover have "xl_ctxs s1 c = Some ctx" using c f2 f3 c_notin by (simp add: s1 hw_found_def get_pid_def)
    ultimately show ?thesis using h f2 f3 by (auto simp: s1 hw_found_def get_pid_def identity_def [abs_def] option.map_comp comp_def)
  qed
qed

lemma alloc_hw_taken:
  assumes "owners_inv holds s" and "xl_ctxs s c = Some ctx" and "mc_hw ctx = None"
    and "host1x_memory_context_alloc_hw_locked (mc_dev ctx) (mc_pid ctx) s = Some (Inr h, s1)"
  obtains w where "h < length (xl_devs s)" and "xl_devs s1 = (xl_devs s)[h := w]" and "hc_iommu w = hc_iommu (xl_devs s ! h)"
    and "hc_active w = hc_active (xl_devs s ! h)" and "hc_owner w = Some (mc_pid ctx)" and "xl_waiters s1 = xl_waiters s"
    and "xl_ctxs s1 c = Some ctx" and "\<forall>d. map_option identity (xl_ctxs s1 d) = map_option identity (xl_ctxs s d)"
    and "hc_owner (xl_devs s ! h) = Some (mc_pid ctx) \<or> hc_owner (xl_devs s ! h) = None \<or> hc_active (xl_devs s ! h) = 0"
  using alloc_hw_owners [OF assms] unfolding usable_def by (elim conjE exE) (rule that)

section \<open>Giving a hardware context back\<close>

lemma put_pid_frame:
  "put_pid p s = Some s' \<Longrightarrow> xl_devs s' = xl_devs s \<and> xl_waiters s' = xl_waiters s \<and> xl_ctxs s' = xl_ctxs s \<and> xl_maps s' = xl_maps s \<and>
     xl_pins s' = xl_pins s \<and> xl_next s' = xl_next s"
  by (cases p) (auto split: if_splits)

lemma hw_put_frame:
  assumes "host1x_memory_context_hw_put h s = Some s'"
  shows "hc_ref (xl_devs s ! h) \<noteq> 0 \<and> xl_devs s' = (xl_devs s)[h := (xl_devs s ! h)\<lparr>hc_ref := hc_ref (xl_devs s ! h) - 1,
      hc_owner := if hc_ref (xl_devs s ! h) = 1 then None else hc_owner (xl_devs s ! h)\<rparr>] \<and>
    xl_waiters s' = xl_waiters s \<and> xl_ctxs s' = xl_ctxs s \<and> xl_maps s' = xl_maps s \<and> xl_pins s' = xl_pins s \<and> xl_next s' = xl_next s"
proof (cases "hc_ref (xl_devs s ! h) = 1")
  case True
  then obtain s1 where "put_pid (hc_owner (xl_devs s ! h)) s = Some s1" "s' = upd_hw h (\<lambda>w. w\<lparr>hc_ref := 0, hc_owner := None\<rparr>) s1"
    using assms by (auto simp: host1x_memory_context_hw_put_def)
  then show ?thesis using put_pid_frame True by fastforce
next
  case False
  then show ?thesis using assms by (auto simp: host1x_memory_context_hw_put_def Let_def split: if_splits)
qed

lemma owners_inv_release:
  assumes inv: "owners_inv holds s" and c: "xl_ctxs s c = Some ctx" "mc_hw ctx = Some h" "holds c = 0"
    and devs: "xl_devs s' = (xl_devs s)[h := (xl_devs s ! h)\<lparr>hc_ref := hc_ref (xl_devs s ! h) - 1,
      hc_owner := if hc_ref (xl_devs s ! h) = 1 then None else hc_owner (xl_devs s ! h), hc_owners := remove1 c (hc_owners (xl_devs s ! h))\<rparr>]"
    and rest: "\<And>d. d \<noteq> c \<Longrightarrow> xl_ctxs s' d = xl_ctxs s d" and gone: "\<And>k. \<not> on_hw (xl_ctxs s') k c"
  shows "owners_inv holds s'"
proof -
  have lt: "h < length (xl_devs s)" using inv c by (auto simp: owners_inv_def)
  let ?w = "xl_devs s ! h"
  note ok = owners_invD [OF inv lt]
  have mem: "c \<in> set (hc_owners ?w)" using ok c by (auto simp: hw_ok_def on_hw_def)
  have on: "on_hw (xl_ctxs s') h d \<longleftrightarrow> on_hw (xl_ctxs s) h d \<and> d \<noteq> c" for d
    using rest gone by (cases "d = c") (auto simp: on_hw_def)
  have d: "distinct (hc_owners ?w)" and os: "set (hc_owners ?w) = {d. on_hw (xl_ctxs s) h d}" and ref: "hc_ref ?w = length (hc_owners ?w)"
      and act: "hc_active ?w = sum_list (map holds (hc_owners ?w))"
    using ok by (auto simp: hw_ok_def)
  have set: "set (remove1 c (hc_owners ?w)) = {d. on_hw (xl_ctxs s') h d}" using d os on by auto
  have len: "length (remove1 c (hc_owners ?w)) = length (hc_owners ?w) - 1" using mem by (simp add: length_remove1)
  have sum: "sum_list (map holds (remove1 c (hc_owners ?w))) = sum_list (map holds (hc_owners ?w))"
    using sum_list_map_remove1 [OF mem, of holds] c(3) by simp
  have "hc_owner ?w = Some (mc_pid x) \<and> mc_dev x = hc_iommu ?w \<and> hc_ref ?w \<noteq> 1" if x: "xl_ctxs s' e = Some x" "mc_hw x = Some h" for e x
  proof -
    have e: "e \<noteq> c" "on_hw (xl_ctxs s) h e" using on [of e] x by (auto simp: on_hw_def)
    then have "xl_ctxs s e = Some x" using rest x by simp
    moreover have "e \<in> set (remove1 c (hc_owners ?w))" using e os d by simp
    then have "length (remove1 c (hc_owners ?w)) \<noteq> 0" by (auto simp: length_pos_if_in_set)
    ultimately show ?thesis using ok x ref len by (auto simp: hw_ok_def)
  qed
  moreover have "hc_ref ?w = 1" if "remove1 c (hc_owners ?w) = []"
    using that len mem ref by (cases "hc_owners ?w") (auto split: if_splits)
  ultimately show ?thesis
    by (intro owners_inv_upd [OF inv lt, where C = "{c}", OF _ _ _ _ _ devs])
      (use c gone rest d set sum len ref act on_hw_unique in \<open>auto simp: hw_ok_def on_hw_def\<close>)
qed

section \<open>Activation\<close>

lemma alloc_hw_fails:
  assumes "host1x_memory_context_alloc_hw_locked dev pid s = Some (Inl e, s')"
  shows "s' = s \<and> (e = EOPNOTSUPP \<or> e = EBUSY \<and> all_busy s dev pid)"
  using assms hw_search_spec [where devs = "xl_devs s" and dev = dev and pid = pid]
  by (auto simp: host1x_memory_context_alloc_hw_locked_def all_busy_def bind_eq_Some_conv split: if_splits prod.splits option.splits)

text \<open>The ways in which a turn ends.\<close>

lemma active_cases:
  assumes "host1x_memory_context_active env c s = Some (t, s')"
  obtains (has) ctx h where "xl_ctxs s c = Some ctx" "mc_hw ctx = Some h" "t = Active_returns (Inr ())" "s' = add_active h s"
  | (none) ctx where "xl_ctxs s c = Some ctx" "mc_hw ctx = None" "t = Active_returns (Inl EOPNOTSUPP)" "s' = s"
  | (busy) ctx where "xl_ctxs s c = Some ctx" "mc_hw ctx = None" "t = Active_waits" "all_busy s (mc_dev ctx) (mc_pid ctx)"
      "s' = s\<lparr>xl_waiters := \<lparr>wt_ctx = c, wt_dev = mc_dev ctx, wt_done = False\<rparr> # xl_waiters s\<rparr>"
  | (taken) ctx h s1 s2 where "xl_ctxs s c = Some ctx" "mc_hw ctx = None"
      "host1x_memory_context_alloc_hw_locked (mc_dev ctx) (mc_pid ctx) s = Some (Inr h, s1)"
      "pin_mappings env h (mc_mappings ctx) (take_hw c ctx h s1) = Some (Inr (), s2)" "t = Active_returns (Inr ())" "s' = add_active h s2"
  | (failed) ctx h s1 e s2 s3 s4 where "xl_ctxs s c = Some ctx" "mc_hw ctx = None"
      "host1x_memory_context_alloc_hw_locked (mc_dev ctx) (mc_pid ctx) s = Some (Inr h, s1)"
      "pin_mappings env h (mc_mappings ctx) (take_hw c ctx h s1) = Some (Inl e, s2)" "unpin_pinned (mc_mappings ctx) s2 = Some s3"
      "host1x_memory_context_hw_put h s3 = Some s4" "t = Active_returns (Inl e)"
      "s' = set_ctx c (ctx\<lparr>mc_hw := None, mc_context_dev := Some h\<rparr>) (upd_hw h (\<lambda>w. w\<lparr>hc_owners := remove1 c (hc_owners w)\<rparr>) s4)"
proof -
  obtain ctx where ctx: "xl_ctxs s c = Some ctx" using assms by (auto simp: host1x_memory_context_active_def bind_eq_Some_conv)
  show thesis
  proof (cases "mc_hw ctx")
    case (Some h)
    then show ?thesis using assms ctx has by (auto simp: host1x_memory_context_active_def)
  next
    case None
    then obtain r s1 where alloc: "host1x_memory_context_alloc_hw_locked (mc_dev ctx) (mc_pid ctx) s = Some (r, s1)"
      using assms ctx by (auto simp: host1x_memory_context_active_def bind_eq_Some_conv)
    show ?thesis
    proof (cases r)
      case (Inl e)
      then consider "e = EOPNOTSUPP" "s1 = s" | "e = EBUSY" "s1 = s" "all_busy s (mc_dev ctx) (mc_pid ctx)"
        using alloc alloc_hw_fails [of "mc_dev ctx" "mc_pid ctx" s e s1] by blast
      then show ?thesis
      proof cases
        case 1
        then have "t = Active_returns (Inl EOPNOTSUPP)" "s' = s"
          using assms ctx None alloc Inl by (simp_all add: host1x_memory_context_active_def)
        then show ?thesis using none [OF ctx None] by simp
      next
        case 2
        then have "t = Active_waits" "s' = s\<lparr>xl_waiters := \<lparr>wt_ctx = c, wt_dev = mc_dev ctx, wt_done = False\<rparr> # xl_waiters s\<rparr>"
          using assms ctx None alloc Inl by (simp_all add: host1x_memory_context_active_def)
        then show ?thesis using busy [OF ctx None] 2(3) by simp
      qed
    next
      case (Inr h)
      let ?s2 = "take_hw c ctx h s1"
      have eq: "(set_ctx c (ctx\<lparr>mc_hw := Some h, mc_context_dev := Some h\<rparr>) s1)\<lparr>xl_devs := (xl_devs s1)[h := (xl_devs s1 ! h)\<lparr>hc_owners := c # hc_owners (xl_devs s1 ! h)\<rparr>]\<rparr> = ?s2"
        by (simp add: take_hw_def)
      obtain q s2 where q: "pin_mappings env h (mc_mappings ctx) ?s2 = Some (q, s2)"
        using assms ctx None alloc Inr eq by (auto simp: host1x_memory_context_active_def Let_def bind_eq_Some_conv)
      show ?thesis
      proof (cases q)
        case (Inr u)
        then have "t = Active_returns (Inr ())" "s' = add_active h s2"
          using assms ctx None alloc \<open>r = Inr h\<close> q eq by (simp_all add: host1x_memory_context_active_def Let_def)
        then show ?thesis using taken [OF ctx None] alloc \<open>r = Inr h\<close> q Inr by simp
      next
        case (Inl e)
        then obtain s3 s4 where s4: "unpin_pinned (mc_mappings ctx) s2 = Some s3" "host1x_memory_context_hw_put h s3 = Some s4"
            "t = Active_returns (Inl e)"
            "s' = set_ctx c (ctx\<lparr>mc_hw := None, mc_context_dev := Some h\<rparr>) (upd_hw h (\<lambda>w. w\<lparr>hc_owners := remove1 c (hc_owners w)\<rparr>) s4)"
          using assms ctx None alloc \<open>r = Inr h\<close> q eq by (auto simp: host1x_memory_context_active_def Let_def bind_eq_Some_conv)
        then show ?thesis using failed [OF ctx None _ _ s4] alloc \<open>r = Inr h\<close> q Inl by simp
      qed
    qed
  qed
qed

lemma sum_list_upd:
  fixes f :: "'a \<Rightarrow> nat"
  assumes "c \<in> set xs" and "distinct xs"
  shows "sum_list (map (f(c := k)) xs) = sum_list (map f xs) - f c + k"
  using assms
proof (induction xs)
  case (Cons x xs)
  have "sum_list (map (\<lambda>a. if a = c then k else f a) xs) = sum_list (map f xs)" if "c \<notin> set xs"
    by (intro arg_cong [of _ _ sum_list] map_cong) (use that in auto)
  then show ?case using Cons member_le_sum_list [of "f c" "map f xs"] by (cases "x = c") auto
qed simp

lemma add_active_owners:
  assumes inv: "owners_inv holds s" and on: "on_hw (xl_ctxs s) h c"
  shows "owners_inv (holds(c := holds c + 1)) (add_active h s)"
proof -
  have lt: "h < length (xl_devs s)" using inv on by (auto simp: owners_inv_def on_hw_def)
  let ?w = "xl_devs s ! h"
  note ok = owners_invD [OF inv lt]
  have "c \<in> set (hc_owners ?w)" "distinct (hc_owners ?w)" using ok on by (auto simp: hw_ok_def)
  then have "sum_list (map (holds(c := holds c + 1)) (hc_owners ?w)) = sum_list (map holds (hc_owners ?w)) + 1"
    using member_le_sum_list [of "holds c" "map holds (hc_owners ?w)"] by (simp add: sum_list_upd)
  then have "hw_ok (holds(c := holds c + 1)) (xl_ctxs s) h (?w\<lparr>hc_active := hc_active ?w + 1\<rparr>)"
    using ok by (auto simp: hw_ok_def)
  then show ?thesis
    by (intro owners_inv_upd [OF inv lt, where C = "{c}"]) (use on on_hw_unique in \<open>auto simp: add_active_def\<close>)
qed

lemma active_owners:
  assumes inv: "owners_inv holds s" and act: "host1x_memory_context_active env c s = Some (t, s')"
  shows "case t of
      Active_returns (Inr _) \<Rightarrow> owners_inv (holds(c := holds c + 1)) s'
    | Active_returns (Inl _) \<Rightarrow> owners_inv holds s'
    | Active_waits \<Rightarrow> owners_inv holds s'"
  using act
proof (cases rule: active_cases)
  case (has ctx h)
  then show ?thesis using add_active_owners [OF inv, of h c] by (auto simp: on_hw_def)
next
  case (none ctx)
  then show ?thesis using inv by simp
next
  case (busy ctx)
  then show ?thesis using inv by (simp add: owners_inv_def)
next
  case (taken ctx h s1 s2)
  note f = pin_mappings_frame [OF taken(4)]
  have "owners_inv holds s2" using owners_inv_same [OF f] alloc_hw_owners [OF inv taken(1-3)] by blast
  moreover have "on_hw (xl_ctxs s2) h c" using f by (simp add: same_hw_def on_hw_def take_hw_def)
  ultimately show ?thesis using add_active_owners taken(5,6) by simp
next
  case (failed ctx h s1 e s2 s3 s4)
  note f = same_hw_trans [OF pin_mappings_frame [OF failed(4)] unpin_pinned_frame [OF failed(5)]]
  have inv3: "owners_inv holds s3" using owners_inv_same [OF f] alloc_hw_owners [OF inv failed(1-3)] by blast
  have c3: "xl_ctxs s3 c = Some (ctx\<lparr>mc_hw := Some h, mc_context_dev := Some h\<rparr>)" using f by (simp add: same_hw_def take_hw_def)
  have hw: "mc_hw (ctx\<lparr>mc_hw := Some h, mc_context_dev := Some h\<rparr>) = Some h" by simp
  have lt: "h < length (xl_devs s3)" using inv3 c3 hw unfolding owners_inv_def by blast
  have "owners_inv holds s'"
    by (rule owners_inv_release [OF inv3 c3 hw])
      (use hw_put_frame [OF failed(6)] not_held [OF inv failed(1,2)] lt failed(8) in \<open>auto simp: on_hw_def\<close>)
  then show ?thesis using failed(7) by simp
qed

section \<open>The other operations\<close>

lemma inactive_owners:
  assumes inv: "owners_inv holds s" and held: "0 < holds c"
  obtains h s' where "on_hw (xl_ctxs s) h c" and "h < length (xl_devs s)" and "host1x_memory_context_inactive c s = Some s'"
    and "owners_inv (holds(c := holds c - 1)) s'"
    and "s' = (upd_hw h (\<lambda>w. w\<lparr>hc_active := hc_active w - 1\<rparr>) s)\<lparr>xl_waiters := if hc_active (xl_devs s ! h) = 1
      then map (\<lambda>w. if hc_iommu (xl_devs s ! h) = wt_dev w then w\<lparr>wt_done := True\<rparr> else w) (xl_waiters s) else xl_waiters s\<rparr>"
proof -
  obtain h where on: "on_hw (xl_ctxs s) h c" using assms unfolding owners_inv_def by blast
  then obtain ctx where ctx: "xl_ctxs s c = Some ctx" "mc_hw ctx = Some h" by (auto simp: on_hw_def)
  have lt: "h < length (xl_devs s)" using inv ctx by (auto simp: owners_inv_def)
  let ?w = "xl_devs s ! h"
  note ok = owners_invD [OF inv lt]
  have mem: "c \<in> set (hc_owners ?w)" "distinct (hc_owners ?w)" using ok on by (auto simp: hw_ok_def)
  have le: "holds c \<le> hc_active ?w" using ok mem member_le_sum_list [of "holds c" "map holds (hc_owners ?w)"] by (auto simp: hw_ok_def)
  let ?s' = "(upd_hw h (\<lambda>w. w\<lparr>hc_active := hc_active w - 1\<rparr>) s)\<lparr>xl_waiters := if hc_active (xl_devs s ! h) = 1
      then map (\<lambda>w. if hc_iommu (xl_devs s ! h) = wt_dev w then w\<lparr>wt_done := True\<rparr> else w) (xl_waiters s) else xl_waiters s\<rparr>"
  have "host1x_memory_context_inactive c s = Some ?s'"
    using ctx lt le held by (auto simp: host1x_memory_context_inactive_def Let_def hw_usable_for_dev_def fun_eq_iff)
  moreover have "sum_list (map (holds(c := holds c - 1)) (hc_owners ?w)) = sum_list (map holds (hc_owners ?w)) - 1"
    using sum_list_upd [OF mem, of holds "holds c - 1"] member_le_sum_list [of "holds c" "map holds (hc_owners ?w)"] mem held by simp
  then have "hw_ok (holds(c := holds c - 1)) (xl_ctxs s) h (?w\<lparr>hc_active := hc_active ?w - 1\<rparr>)"
    using ok by (auto simp: hw_ok_def)
  then have "owners_inv (holds(c := holds c - 1)) ?s'"
    by (intro owners_inv_upd [OF inv lt, where C = "{c}"]) (use on on_hw_unique in auto)
  ultimately show thesis using that on lt by blast
qed

lemma owners_inv_ctxs:
  assumes inv: "owners_inv holds s" and ctx: "xl_ctxs s c = Some ctx" and same: "mc_hw ctx' = mc_hw ctx" "mc_pid ctx' = mc_pid ctx" "mc_dev ctx' = mc_dev ctx"
    and ctxs: "xl_ctxs s' = (xl_ctxs s)(c \<mapsto> ctx')" and devs: "xl_devs s' = xl_devs s"
  shows "owners_inv holds s'"
proof -
  have on: "on_hw (xl_ctxs s') k d \<longleftrightarrow> on_hw (xl_ctxs s) k d" for k d
    using ctx same ctxs by (auto simp: on_hw_def)
  have "hw_ok holds (xl_ctxs s') h w" if "hw_ok holds (xl_ctxs s) h w" for h w
    using that on ctx same ctxs by (auto simp: hw_ok_def)
  moreover have "\<exists>y. xl_ctxs s d = Some y \<and> mc_hw y = mc_hw x" if "xl_ctxs s' d = Some x" for d x
    using that ctx same ctxs by (auto split: if_splits)
  ultimately show ?thesis using inv on devs unfolding owners_inv_def by fastforce
qed

lemma put_owners:
  assumes inv: "owners_inv holds s" and put: "host1x_memory_context_put c s = Some s'" and ctx: "xl_ctxs s c = Some ctx"
    and last_ref: "mc_ref ctx = 1 \<Longrightarrow> holds c = 0"
  shows "owners_inv holds s'"
proof (cases "mc_ref ctx = 1")
  case False
  then have "s' = set_ctx c (ctx\<lparr>mc_ref := mc_ref ctx - 1\<rparr>) s"
    using put ctx by (auto simp: host1x_memory_context_put_def split: if_splits)
  then show ?thesis by (intro owners_inv_ctxs [OF inv ctx]) simp_all
next
  case last: True
  show ?thesis
  proof (cases "mc_hw ctx")
    case None
    then obtain s1 where s1: "put_pid (Some (mc_pid ctx)) s = Some s1" "s' = s1\<lparr>xl_ctxs := (xl_ctxs s1)(c := None)\<rparr>"
      using put ctx last by (auto simp: host1x_memory_context_put_def bind_eq_Some_conv)
    note f = put_pid_frame [OF s1(1)]
    have on: "on_hw (xl_ctxs s') k d \<longleftrightarrow> on_hw (xl_ctxs s) k d" for k d
      using f s1(2) ctx None by (auto simp: on_hw_def)
    have "hw_ok holds (xl_ctxs s') h w" if "hw_ok holds (xl_ctxs s) h w" for h w
      using that on f s1(2) by (auto simp: hw_ok_def)
    then show ?thesis using inv on f s1(2) unfolding owners_inv_def by (auto split: if_splits)
  next
    case (Some h)
    have lt: "h < length (xl_devs s)" using inv ctx Some by (auto simp: owners_inv_def)
    obtain s1 s2 where s1: "host1x_memory_context_hw_put h (upd_hw h (\<lambda>w. w\<lparr>hc_owners := remove1 c (hc_owners w)\<rparr>) s) = Some s1"
        and s2: "put_pid (Some (mc_pid ctx)) s1 = Some s2" "s' = s2\<lparr>xl_ctxs := (xl_ctxs s2)(c := None)\<rparr>"
      using put ctx last Some by (auto simp: host1x_memory_context_put_def bind_eq_Some_conv simp del: put_pid.simps)
    show ?thesis
      by (rule owners_inv_release [OF inv ctx Some last_ref [OF last]])
        (use hw_put_frame [OF s1] put_pid_frame [OF s2(1)] lt s2(2) in
          \<open>auto simp: on_hw_def intro!: arg_cong [of _ _ "list_update (xl_devs s) h"]\<close>)
  qed
qed

section \<open>Waiting calls\<close>

definition waiters_inv :: "context_list \<Rightarrow> bool" where
  "waiters_inv s \<longleftrightarrow> (\<forall>w \<in> set (xl_waiters s). \<exists>ctx. xl_ctxs s (wt_ctx w) = Some ctx \<and> mc_dev ctx = wt_dev w \<and>
     (\<not> wt_done w \<longrightarrow> all_busy s (wt_dev w) (mc_pid ctx)))"

lemma all_busy_keep:
  assumes inv: "owners_inv holds s'" and devs: "xl_devs s' = (xl_devs s)[h := w]"
    and iommu: "hc_iommu w = hc_iommu (xl_devs s ! h)" and active: "hc_active (xl_devs s ! h) \<le> hc_active w"
    and owner: "hc_owner (xl_devs s ! h) \<noteq> None \<Longrightarrow> hc_active (xl_devs s ! h) \<noteq> 0 \<Longrightarrow> hc_owner w = None \<or> hc_owner w = hc_owner (xl_devs s ! h)"
    and busy: "all_busy s dev pid"
  shows "all_busy s' dev pid"
  unfolding all_busy_def
proof (intro allI impI)
  fix k
  assume k: "usable (xl_devs s') dev k"
  show "hc_owner (xl_devs s' ! k) \<noteq> None \<and> hc_owner (xl_devs s' ! k) \<noteq> Some pid \<and> hc_active (xl_devs s' ! k) \<noteq> 0"
  proof (cases "k = h")
    case False
    then show ?thesis using k devs busy by (simp add: all_busy_def usable_def)
  next
    case True
    then have old: "hc_owner (xl_devs s ! h) \<noteq> None" "hc_owner (xl_devs s ! h) \<noteq> Some pid" "hc_active (xl_devs s ! h) \<noteq> 0"
      using k devs busy iommu by (auto simp: all_busy_def usable_def)
    have w: "xl_devs s' ! k = w" using True k devs by (simp add: usable_def)
    have "hw_ok holds (xl_ctxs s') k w" using owners_invD [OF inv, of k] k w by (simp add: usable_def)
    moreover have act: "hc_active w \<noteq> 0" using active old by simp
    ultimately have "hc_owners w \<noteq> []" by (auto simp: hw_ok_def)
    then obtain d where "d \<in> set (hc_owners w)" by (cases "hc_owners w") auto
    then have "hc_owner w \<noteq> None" using \<open>hw_ok holds (xl_ctxs s') k w\<close> by (auto simp: hw_ok_def on_hw_def)
    then show ?thesis using owner old w act by auto
  qed
qed

lemma waiters_inv_keep:
  assumes inv: "waiters_inv s" and ws: "xl_waiters s' = xl_waiters s"
    and ctxs: "\<And>w ctx. w \<in> set (xl_waiters s) \<Longrightarrow> xl_ctxs s (wt_ctx w) = Some ctx \<Longrightarrow>
      \<exists>ctx'. xl_ctxs s' (wt_ctx w) = Some ctx' \<and> mc_dev ctx' = mc_dev ctx \<and> mc_pid ctx' = mc_pid ctx"
    and busy: "\<And>dev pid. all_busy s dev pid \<Longrightarrow> all_busy s' dev pid"
  shows "waiters_inv s'"
  using assms unfolding waiters_inv_def by metis

lemma identity_ctx:
  assumes "\<forall>d. map_option identity (ctxs' d) = map_option identity (ctxs d)" and "ctxs d = Some ctx"
  obtains ctx' where "ctxs' d = Some ctx'" and "identity ctx' = identity ctx"
  using assms by (metis map_option_eq_Some)

lemma active_waiters:
  assumes inv: "owners_inv holds s" and wt: "waiters_inv s" and act: "host1x_memory_context_active env c s = Some (t, s')"
  shows "waiters_inv s'"
  using act
proof (cases rule: active_cases)
  case (has ctx h)
  have lt: "h < length (xl_devs s)" using inv has by (auto simp: owners_inv_def)
  have "owners_inv (holds(c := holds c + 1)) s'" using active_owners [OF inv act] has by simp
  then have "all_busy s' dev pid" if "all_busy s dev pid" for dev pid
    by (rule all_busy_keep [OF _ _ _ _ _ that, where h = h and w = "xl_devs s' ! h"]) (use has lt in \<open>simp_all add: add_active_def\<close>)
  then show ?thesis by (intro waiters_inv_keep [OF wt]) (use has in \<open>auto simp: add_active_def\<close>)
next
  case (none ctx)
  then show ?thesis using wt by simp
next
  case (busy ctx)
  then show ?thesis using wt by (auto simp: waiters_inv_def all_busy_def)
next
  case (taken ctx h s1 s2)
  have inv': "owners_inv (holds(c := holds c + 1)) s'" using active_owners [OF inv act] taken by simp
  note f = pin_mappings_frame [OF taken(4)]
  obtain w where lt: "h < length (xl_devs s)" and w: "xl_devs s1 = (xl_devs s)[h := w]" "hc_iommu w = hc_iommu (xl_devs s ! h)"
      "hc_active w = hc_active (xl_devs s ! h)" "hc_owner w = Some (mc_pid ctx)" and a_wt: "xl_waiters s1 = xl_waiters s"
      and a_c: "xl_ctxs s1 c = Some ctx" and a_id: "\<forall>d. map_option identity (xl_ctxs s1 d) = map_option identity (xl_ctxs s d)"
      and a_owner: "hc_owner (xl_devs s ! h) = Some (mc_pid ctx) \<or> hc_owner (xl_devs s ! h) = None \<or> hc_active (xl_devs s ! h) = 0"
    by (rule alloc_hw_taken [OF inv taken(1-3)])
  have devs: "xl_devs s' = (xl_devs s)[h := w\<lparr>hc_owners := c # hc_owners w, hc_active := hc_active w + 1\<rparr>]"
    using f w(1) lt taken(6) by (simp add: same_hw_def take_hw_def add_active_def)
  have "all_busy s' dev pid" if "all_busy s dev pid" for dev pid
    by (rule all_busy_keep [OF inv' devs _ _ _ that]) (use w a_owner in auto)
  moreover have "\<exists>x'. xl_ctxs s' d = Some x' \<and> mc_dev x' = mc_dev x \<and> mc_pid x' = mc_pid x" if x: "xl_ctxs s d = Some x" for d x
  proof -
    obtain x' where "xl_ctxs s1 d = Some x'" "identity x' = identity x" by (rule identity_ctx [OF a_id x])
    then show ?thesis using f a_c taken(6) by (auto simp: same_hw_def take_hw_def add_active_def identity_def)
  qed
  moreover have "xl_waiters s' = xl_waiters s" using f a_wt taken(6) by (simp add: same_hw_def take_hw_def add_active_def)
  ultimately show ?thesis using waiters_inv_keep [OF wt] by blast
next
  case (failed ctx h s1 e s2 s3 s4)
  have inv': "owners_inv holds s'" using active_owners [OF inv act] failed by simp
  note f = same_hw_trans [OF pin_mappings_frame [OF failed(4)] unpin_pinned_frame [OF failed(5)]]
  note p = hw_put_frame [OF failed(6)]
  obtain w where lt: "h < length (xl_devs s)" and w: "xl_devs s1 = (xl_devs s)[h := w]" "hc_iommu w = hc_iommu (xl_devs s ! h)"
      "hc_active w = hc_active (xl_devs s ! h)" "hc_owner w = Some (mc_pid ctx)" and a_wt: "xl_waiters s1 = xl_waiters s"
      and a_c: "xl_ctxs s1 c = Some ctx" and a_id: "\<forall>d. map_option identity (xl_ctxs s1 d) = map_option identity (xl_ctxs s d)"
      and a_owner: "hc_owner (xl_devs s ! h) = Some (mc_pid ctx) \<or> hc_owner (xl_devs s ! h) = None \<or> hc_active (xl_devs s ! h) = 0"
    by (rule alloc_hw_taken [OF inv failed(1-3)])
  let ?w = "w\<lparr>hc_owners := c # hc_owners w\<rparr>"
  have devs3: "xl_devs s3 = (xl_devs s)[h := ?w]"
    using f w(1) lt by (simp add: same_hw_def take_hw_def)
  have devs: "xl_devs s' = (xl_devs s)[h := ?w\<lparr>hc_ref := hc_ref w - 1, hc_owner := if hc_ref w = 1 then None else hc_owner w,
      hc_owners := remove1 c (hc_owners ?w)\<rparr>]"
    using p devs3 lt failed(8) by simp
  have "all_busy s' dev pid" if "all_busy s dev pid" for dev pid
    by (rule all_busy_keep [OF inv' devs _ _ _ that]) (use w a_owner in auto)
  moreover have "\<exists>x'. xl_ctxs s' d = Some x' \<and> mc_dev x' = mc_dev x \<and> mc_pid x' = mc_pid x" if x: "xl_ctxs s d = Some x" for d x
  proof -
    obtain x' where "xl_ctxs s1 d = Some x'" "identity x' = identity x" by (rule identity_ctx [OF a_id x])
    then show ?thesis using f a_c p failed(8) by (auto simp: same_hw_def take_hw_def identity_def)
  qed
  moreover have "xl_waiters s' = xl_waiters s" using f a_wt p failed(8) by (simp add: same_hw_def take_hw_def)
  ultimately show ?thesis using waiters_inv_keep [OF wt] by blast
qed

section \<open>Clients\<close>

text \<open>
  What the clients do: allocate, take and return references, map and unmap buffers, activate, go on after
  waiting and give an activation back.  \<open>cg_holds\<close> counts the activations they have.
\<close>

datatype context_op =
    Ctx_alloc "nat option" nat nat | Ctx_get nat | Ctx_put nat
  | Ctx_map "nat option" nat nat dma_data_direction | Ctx_unmap nat
  | Ctx_active nat | Ctx_woken nat | Ctx_inactive nat

record context_config =
  cg_list :: context_list
  cg_holds :: "nat \<Rightarrow> nat"

text \<open>
  New objects have addresses that are not in use; what is used exists; the last reference is returned when the
  context is not active, has no mappings and no call waits with it.
\<close>

fun permitted :: "context_op \<Rightarrow> context_config \<Rightarrow> bool" where
  "permitted (Ctx_alloc k dev pid) g \<longleftrightarrow> (case k of Some c \<Rightarrow> xl_ctxs (cg_list g) c = None | None \<Rightarrow> True)"
| "permitted (Ctx_get c) g \<longleftrightarrow> xl_ctxs (cg_list g) c \<noteq> None"
| "permitted (Ctx_put c) g \<longleftrightarrow>
     (case xl_ctxs (cg_list g) c of
        None \<Rightarrow> False
      | Some ctx \<Rightarrow> 0 < mc_ref ctx \<and> (mc_ref ctx = 1 \<longrightarrow>
          cg_holds g c = 0 \<and> mc_mappings ctx = [] \<and> (\<forall>w \<in> set (xl_waiters (cg_list g)). wt_ctx w \<noteq> c)))"
| "permitted (Ctx_map k c bo dir) g \<longleftrightarrow>
     xl_ctxs (cg_list g) c \<noteq> None \<and> (case k of Some m \<Rightarrow> xl_maps (cg_list g) m = None | None \<Rightarrow> True)"
| "permitted (Ctx_unmap m) g \<longleftrightarrow> xl_maps (cg_list g) m \<noteq> None"
| "permitted (Ctx_active c) g \<longleftrightarrow> xl_ctxs (cg_list g) c \<noteq> None"
| "permitted (Ctx_woken i) g \<longleftrightarrow> i < length (xl_waiters (cg_list g))"
| "permitted (Ctx_inactive c) g \<longleftrightarrow> 0 < cg_holds g c"

definition active_result :: "nat \<Rightarrow> context_config \<Rightarrow> active_turn \<times> context_list \<Rightarrow> context_config" where
  "active_result c g r = \<lparr>cg_list = snd r,
     cg_holds = (if fst r = Active_returns (Inr ()) then (cg_holds g)(c := cg_holds g c + 1) else cg_holds g)\<rparr>"

fun exec :: "pin_env \<Rightarrow> context_op \<Rightarrow> context_config \<Rightarrow> context_config option" where
  "exec env (Ctx_alloc k dev pid) g = Some (g\<lparr>cg_list := snd (host1x_memory_context_alloc k dev pid (cg_list g))\<rparr>)"
| "exec env (Ctx_get c) g = map_option (\<lambda>s. g\<lparr>cg_list := s\<rparr>) (host1x_memory_context_get c (cg_list g))"
| "exec env (Ctx_put c) g = map_option (\<lambda>s. g\<lparr>cg_list := s\<rparr>) (host1x_memory_context_put c (cg_list g))"
| "exec env (Ctx_map k c bo dir) g = map_option (\<lambda>r. g\<lparr>cg_list := snd r\<rparr>) (host1x_memory_context_map env k c bo dir (cg_list g))"
| "exec env (Ctx_unmap m) g = map_option (\<lambda>s. g\<lparr>cg_list := s\<rparr>) (host1x_memory_context_unmap m (cg_list g))"
| "exec env (Ctx_active c) g = map_option (active_result c g) (host1x_memory_context_active env c (cg_list g))"
| "exec env (Ctx_woken i) g =
     map_option (active_result (wt_ctx (xl_waiters (cg_list g) ! i)) g) (host1x_memory_context_active_woken env i (cg_list g))"
| "exec env (Ctx_inactive c) g =
     map_option (\<lambda>s. \<lparr>cg_list = s, cg_holds = (cg_holds g)(c := cg_holds g c - 1)\<rparr>) (host1x_memory_context_inactive c (cg_list g))"

definition context_start :: "host1x_hw_memory_context list \<Rightarrow> (nat \<Rightarrow> nat) \<Rightarrow> context_config" where
  "context_start devs pids = \<lparr>cg_list = \<lparr>xl_devs = devs, xl_waiters = [], xl_ctxs = Map.empty, xl_maps = Map.empty, xl_pins = Map.empty,
     xl_next = 0, xl_pid_ref = pids\<rparr>, cg_holds = (\<lambda>_. 0)\<rparr>"

text \<open>After the initialisation of the list, every sequence of permitted operations.\<close>

inductive context_reachable :: "pin_env \<Rightarrow> (nat \<Rightarrow> nat) \<Rightarrow> context_config \<Rightarrow> bool" for env pids where
  start: "host1x_memory_context_list_init cells kcalloc dev = (r, devs) \<Longrightarrow> context_reachable env pids (context_start devs pids)"
| step: "context_reachable env pids g \<Longrightarrow> permitted op g \<Longrightarrow> exec env op g = Some g' \<Longrightarrow> context_reachable env pids g'"

lemma list_init_devs_fresh:
  "list_init_devs dev is devs = (r, devs') \<Longrightarrow> \<forall>w \<in> set devs. hc_ref w = 0 \<and> hc_owner w = None \<and> hc_active w = 0 \<and> hc_owners w = [] \<Longrightarrow>
   \<forall>w \<in> set devs'. hc_ref w = 0 \<and> hc_owner w = None \<and> hc_active w = 0 \<and> hc_owners w = []"
  by (induction dev "is" devs rule: list_init_devs.induct) (auto split: ctx_device.splits)

lemma list_init_fresh:
  "host1x_memory_context_list_init cells kcalloc dev = (r, devs) \<Longrightarrow>
   \<forall>w \<in> set devs. hc_ref w = 0 \<and> hc_owner w = None \<and> hc_active w = 0 \<and> hc_owners w = []"
  by (auto simp: host1x_memory_context_list_init_def split: option.splits if_splits dest: list_init_devs_fresh)

definition context_inv :: "context_config \<Rightarrow> bool" where
  "context_inv g \<longleftrightarrow> owners_inv (cg_holds g) (cg_list g) \<and> waiters_inv (cg_list g)"

lemma context_start_inv:
  assumes "host1x_memory_context_list_init cells kcalloc dev = (r, devs)"
  shows "context_inv (context_start devs pids)"
  using list_init_fresh [OF assms]
  by (auto simp: context_inv_def context_start_def owners_inv_def waiters_inv_def hw_ok_def on_hw_def)

lemma active_inv:
  assumes "owners_inv holds s" and "waiters_inv s" and "host1x_memory_context_active env c s = Some r"
  shows "context_inv (active_result c \<lparr>cg_list = s', cg_holds = holds\<rparr> r)"
  using active_owners [of holds s env c "fst r" "snd r"] active_waiters [of holds s env c "fst r" "snd r"] assms
  by (auto simp: context_inv_def active_result_def split: active_turn.splits sum.splits)

lemma waiters_inv_ctxs:
  assumes inv: "waiters_inv s" and ctx: "xl_ctxs s c = Some ctx" and same: "mc_pid ctx' = mc_pid ctx" "mc_dev ctx' = mc_dev ctx"
    and ctxs: "xl_ctxs s' = (xl_ctxs s)(c \<mapsto> ctx')" and devs: "xl_devs s' = xl_devs s" and ws: "xl_waiters s' = xl_waiters s"
  shows "waiters_inv s'"
  by (rule waiters_inv_keep [OF inv ws]) (use ctx same ctxs devs in \<open>auto simp: all_busy_def\<close>)

lemma put_waiters:
  assumes inv: "owners_inv holds s" and wt: "waiters_inv s" and put: "host1x_memory_context_put c s = Some s'" and ctx: "xl_ctxs s c = Some ctx"
    and last_ref: "mc_ref ctx = 1 \<Longrightarrow> holds c = 0 \<and> (\<forall>w \<in> set (xl_waiters s). wt_ctx w \<noteq> c)"
  shows "waiters_inv s'"
proof (cases "mc_ref ctx = 1")
  case False
  then have "s' = set_ctx c (ctx\<lparr>mc_ref := mc_ref ctx - 1\<rparr>) s"
    using put ctx by (auto simp: host1x_memory_context_put_def split: if_splits)
  then show ?thesis by (intro waiters_inv_ctxs [OF wt ctx]) simp_all
next
  case last: True
  have inv': "owners_inv holds s'" using put_owners [OF inv put ctx] last_ref by blast
  have keep: "xl_waiters s' = xl_waiters s \<and> xl_ctxs s' = (xl_ctxs s)(c := None) \<and> (\<forall>dev pid. all_busy s dev pid \<longrightarrow> all_busy s' dev pid)"
  proof (cases "mc_hw ctx")
    case None
    then obtain s1 where "put_pid (Some (mc_pid ctx)) s = Some s1" "s' = s1\<lparr>xl_ctxs := (xl_ctxs s1)(c := None)\<rparr>"
      using put ctx last by (auto simp: host1x_memory_context_put_def bind_eq_Some_conv)
    then show ?thesis using put_pid_frame [of "Some (mc_pid ctx)" s s1] by (simp add: all_busy_def)
  next
    case (Some h)
    have lt: "h < length (xl_devs s)" using inv ctx Some by (auto simp: owners_inv_def)
    obtain s1 s2 where s1: "host1x_memory_context_hw_put h (upd_hw h (\<lambda>w. w\<lparr>hc_owners := remove1 c (hc_owners w)\<rparr>) s) = Some s1"
        and s2: "put_pid (Some (mc_pid ctx)) s1 = Some s2" "s' = s2\<lparr>xl_ctxs := (xl_ctxs s2)(c := None)\<rparr>"
      using put ctx last Some by (auto simp: host1x_memory_context_put_def bind_eq_Some_conv simp del: put_pid.simps)
    note p = hw_put_frame [OF s1] put_pid_frame [OF s2(1)]
    have "xl_devs s' = (xl_devs s)[h := (xl_devs s ! h)\<lparr>hc_owners := remove1 c (hc_owners (xl_devs s ! h)), hc_ref := hc_ref (xl_devs s ! h) - 1,
        hc_owner := if hc_ref (xl_devs s ! h) = 1 then None else hc_owner (xl_devs s ! h)\<rparr>]"
      using p lt s2(2) by simp
    then have "all_busy s' dev pid" if "all_busy s dev pid" for dev pid
      by (rule all_busy_keep [OF inv' _ _ _ _ that]) auto
    then show ?thesis using p s2(2) by simp
  qed
  show ?thesis
    by (rule waiters_inv_keep [OF wt]) (use keep last_ref [OF last] in auto)
qed

lemma inactive_waiters:
  assumes inv: "owners_inv holds s" and wt: "waiters_inv s" and h: "h < length (xl_devs s)"
    and inv': "owners_inv holds' s'"
    and s': "s' = (upd_hw h (\<lambda>w. w\<lparr>hc_active := hc_active w - 1\<rparr>) s)\<lparr>xl_waiters := if hc_active (xl_devs s ! h) = 1
      then map (\<lambda>w. if hc_iommu (xl_devs s ! h) = wt_dev w then w\<lparr>wt_done := True\<rparr> else w) (xl_waiters s) else xl_waiters s\<rparr>"
  shows "waiters_inv s'"
  unfolding waiters_inv_def
proof
  fix w'
  assume w': "w' \<in> set (xl_waiters s')"
  then obtain w where w: "w \<in> set (xl_waiters s)"
      "w' = (if hc_active (xl_devs s ! h) = 1 \<and> hc_iommu (xl_devs s ! h) = wt_dev w then w\<lparr>wt_done := True\<rparr> else w)"
    using s' by (auto split: if_splits)
  obtain ctx where ctx: "xl_ctxs s (wt_ctx w) = Some ctx" "mc_dev ctx = wt_dev w" "\<not> wt_done w \<longrightarrow> all_busy s (wt_dev w) (mc_pid ctx)"
    using wt w(1) by (auto simp: waiters_inv_def)
  have "all_busy s' (wt_dev w) (mc_pid ctx)" if "\<not> wt_done w'"
  proof -
    have busy: "all_busy s (wt_dev w) (mc_pid ctx)" and other: "\<not> (hc_active (xl_devs s ! h) = 1 \<and> hc_iommu (xl_devs s ! h) = wt_dev w)"
      using that w(2) ctx(3) by (auto split: if_splits)
    show ?thesis
      unfolding all_busy_def
    proof (intro allI impI)
      fix k
      assume k: "usable (xl_devs s') (wt_dev w) k"
      then have "usable (xl_devs s) (wt_dev w) k" using s' h by (auto simp: usable_def nth_list_update split: if_splits)
      then show "hc_owner (xl_devs s' ! k) \<noteq> None \<and> hc_owner (xl_devs s' ! k) \<noteq> Some (mc_pid ctx) \<and> hc_active (xl_devs s' ! k) \<noteq> 0"
        using busy other s' h by (cases "k = h") (auto simp: all_busy_def usable_def)
    qed
  qed
  then show "\<exists>ctx. xl_ctxs s' (wt_ctx w') = Some ctx \<and> mc_dev ctx = wt_dev w' \<and> (\<not> wt_done w' \<longrightarrow> all_busy s' (wt_dev w') (mc_pid ctx))"
    using ctx w(2) s' by (auto split: if_splits)
qed

lemma both_inv_ctxs:
  assumes "owners_inv holds s" and "waiters_inv s" and "xl_ctxs s c = Some ctx" and "mc_hw ctx' = mc_hw ctx" and "mc_pid ctx' = mc_pid ctx"
    and "mc_dev ctx' = mc_dev ctx" and "xl_ctxs s' = (xl_ctxs s)(c \<mapsto> ctx')" and "xl_devs s' = xl_devs s" and "xl_waiters s' = xl_waiters s"
  shows "context_inv \<lparr>cg_list = s', cg_holds = holds\<rparr>"
  using owners_inv_ctxs [OF assms(1,3-8)] waiters_inv_ctxs [OF assms(2,3,5-9)] by (simp add: context_inv_def)

lemma both_inv_same: "owners_inv holds s \<Longrightarrow> waiters_inv s \<Longrightarrow> same_hw s s' \<Longrightarrow> context_inv \<lparr>cg_list = s', cg_holds = holds\<rparr>"
  by (auto simp: context_inv_def owners_inv_def waiters_inv_def same_hw_def all_busy_def)

lemma map_inv:
  assumes o: "owners_inv holds s" and w: "waiters_inv s" and map: "host1x_memory_context_map env k c bo dir s = Some (r, s')"
  shows "context_inv \<lparr>cg_list = s', cg_holds = holds\<rparr>"
proof (cases k)
  case None
  then show ?thesis using map o w by (simp add: host1x_memory_context_map_def context_inv_def)
next
  case (Some m)
  then obtain ctx where ctx: "xl_ctxs s c = Some ctx" using map by (auto simp: host1x_memory_context_map_def bind_eq_Some_conv)
  show ?thesis
  proof (cases "mc_hw ctx")
    case None
    then show ?thesis using map Some ctx by (intro both_inv_ctxs [OF o w ctx, where ctx' = "ctx\<lparr>mc_mappings := m # mc_mappings ctx\<rparr>"]) (auto simp: host1x_memory_context_map_def)
  next
    case (Some h)
    obtain q s1 where q: "context_pin env h bo s = (q, s1)" by fastforce
    note f = context_pin_frame [OF q]
    show ?thesis
    proof (cases q)
      case (Inl e)
      then show ?thesis using map \<open>k = Some m\<close> ctx Some q both_inv_same [OF o w f] by (simp add: host1x_memory_context_map_def)
    next
      case (Inr p)
      then show ?thesis using map \<open>k = Some m\<close> ctx Some q f
        by (intro both_inv_ctxs [OF o w ctx, where ctx' = "ctx\<lparr>mc_mappings := m # mc_mappings ctx\<rparr>"]) (auto simp: host1x_memory_context_map_def same_hw_def)
    qed
  qed
qed

lemma unmap_inv:
  assumes o: "owners_inv holds s" and w: "waiters_inv s" and unmap: "host1x_memory_context_unmap m s = Some s'"
  shows "context_inv \<lparr>cg_list = s', cg_holds = holds\<rparr>"
proof -
  obtain cm ctx where cm: "xl_maps s m = Some cm" and ctx: "xl_ctxs s (cm_ctx cm) = Some ctx"
    using unmap by (auto simp: host1x_memory_context_unmap_def bind_eq_Some_conv)
  let ?ctx = "ctx\<lparr>mc_mappings := remove1 m (mc_mappings ctx)\<rparr>"
  let ?s = "set_ctx (cm_ctx cm) ?ctx s"
  obtain s1 where s1: "(if cm_mapping cm \<noteq> None then context_unpin (cm_mapping cm) ?s else Some ?s) = Some s1"
      and s': "s' = s1\<lparr>xl_maps := (xl_maps s1)(m := None)\<rparr>"
    using unmap cm ctx by (auto simp: host1x_memory_context_unmap_def Let_def bind_eq_Some_conv)
  have "same_hw ?s s1"
    using s1 context_unpin_frame by (auto simp: same_hw_def split: if_splits)
  then show ?thesis by (intro both_inv_ctxs [OF o w ctx, where ctx' = ?ctx]) (auto simp: same_hw_def s')
qed

lemma woken_inv:
  assumes o: "owners_inv holds s" and w: "waiters_inv s" and "host1x_memory_context_active_woken env i s = Some r"
  shows "context_inv (active_result (wt_ctx (xl_waiters s ! i)) \<lparr>cg_list = s, cg_holds = holds\<rparr> r)"
proof -
  let ?s = "s\<lparr>xl_waiters := take i (xl_waiters s) @ drop (i + 1) (xl_waiters s)\<rparr>"
  have o': "owners_inv holds ?s" using o by (simp add: owners_inv_def)
  have w': "waiters_inv ?s" using w by (auto simp: waiters_inv_def all_busy_def dest: in_set_takeD in_set_dropD)
  show ?thesis
  proof (cases "wt_done (xl_waiters s ! i)")
    case True
    then show ?thesis using assms(3) active_inv [OF o' w'] by (simp add: host1x_memory_context_active_woken_def Let_def)
  next
    case False
    then show ?thesis using assms(3) o' w'
      by (auto simp: host1x_memory_context_active_woken_def Let_def active_result_def context_inv_def)
  qed
qed

lemma context_step_inv:
  assumes inv: "context_inv g" and perm: "permitted op g" and exec: "exec env op g = Some g'"
  shows "context_inv g'"
proof -
  obtain s holds where g: "g = \<lparr>cg_list = s, cg_holds = holds\<rparr>" by (cases g)
  have o: "owners_inv holds s" and w: "waiters_inv s" using inv by (simp_all add: g context_inv_def)
  show ?thesis
  proof (cases op)
    case (Ctx_alloc k dev pid)
    show ?thesis
    proof (cases "xl_devs s = [] \<or> k = None")
      case True
      then show ?thesis using inv exec by (auto simp: Ctx_alloc g host1x_memory_context_alloc_def)
    next
      case False
      then obtain c where k: "k = Some c" and new: "xl_ctxs s c = None" using perm by (auto simp: Ctx_alloc g)
      let ?s = "set_ctx c \<lparr>mc_ref = 1, mc_pid = pid, mc_dev = dev, mc_hw = None, mc_context_dev = None, mc_mappings = []\<rparr> (get_pid pid s)"
      have on: "on_hw (xl_ctxs ?s) h d \<longleftrightarrow> on_hw (xl_ctxs s) h d" for h d using new by (auto simp: on_hw_def get_pid_def)
      have "hw_ok holds (xl_ctxs ?s) h x" if "hw_ok holds (xl_ctxs s) h x" for h x
        using that on by (auto simp: hw_ok_def get_pid_def)
      then have "owners_inv holds ?s" using o on unfolding owners_inv_def by (auto simp: get_pid_def)
      moreover have "waiters_inv ?s"
        by (rule waiters_inv_keep [OF w]) (use new in \<open>auto simp: get_pid_def all_busy_def\<close>)
      ultimately show ?thesis using exec False k by (auto simp: Ctx_alloc g host1x_memory_context_alloc_def context_inv_def)
    qed
  next
    case (Ctx_get c)
    then obtain ctx where "xl_ctxs s c = Some ctx" "g' = \<lparr>cg_list = set_ctx c (ctx\<lparr>mc_ref := mc_ref ctx + 1\<rparr>) s, cg_holds = holds\<rparr>"
      using exec by (auto simp: g host1x_memory_context_get_def)
    then show ?thesis using both_inv_ctxs [OF o w, of c ctx "ctx\<lparr>mc_ref := mc_ref ctx + 1\<rparr>"] by simp
  next
    case (Ctx_put c)
    then obtain ctx s' where p: "xl_ctxs s c = Some ctx" "host1x_memory_context_put c s = Some s'" "g' = \<lparr>cg_list = s', cg_holds = holds\<rparr>"
        "mc_ref ctx = 1 \<Longrightarrow> holds c = 0 \<and> (\<forall>w \<in> set (xl_waiters s). wt_ctx w \<noteq> c)"
      using exec perm by (auto simp: g split: option.splits)
    then show ?thesis using put_owners [OF o p(2,1)] put_waiters [OF o w p(2,1)] by (simp add: context_inv_def)
  next
    case (Ctx_map k c bo dir)
    then show ?thesis using exec map_inv [OF o w] by (auto simp: g)
  next
    case (Ctx_unmap m)
    then show ?thesis using exec unmap_inv [OF o w] by (auto simp: g)
  next
    case (Ctx_active c)
    then show ?thesis using exec active_inv [OF o w] by (auto simp: g)
  next
    case (Ctx_woken i)
    then show ?thesis using exec woken_inv [OF o w] by (auto simp: g)
  next
    case (Ctx_inactive c)
    then have "0 < holds c" using perm by (simp add: g)
    then obtain h s' where i1: "h < length (xl_devs s)" and i2: "host1x_memory_context_inactive c s = Some s'"
        and i3: "owners_inv (holds(c := holds c - 1)) s'"
        and s': "s' = (upd_hw h (\<lambda>w. w\<lparr>hc_active := hc_active w - 1\<rparr>) s)\<lparr>xl_waiters := if hc_active (xl_devs s ! h) = 1
          then map (\<lambda>w. if hc_iommu (xl_devs s ! h) = wt_dev w then w\<lparr>wt_done := True\<rparr> else w) (xl_waiters s) else xl_waiters s\<rparr>"
      by (rule inactive_owners [OF o]) blast
    have "g' = \<lparr>cg_list = s', cg_holds = holds(c := holds c - 1)\<rparr>" using exec i2 by (simp add: g Ctx_inactive)
    then show ?thesis using i3 inactive_waiters [OF o w i1 i3 s'] by (simp add: context_inv_def)
  qed
qed

lemma context_reachable_inv: "context_reachable env pids g \<Longrightarrow> context_inv g"
  by (induction rule: context_reachable.induct) (blast intro: context_start_inv context_step_inv)+

fun run_ops :: "pin_env \<Rightarrow> context_op list \<Rightarrow> context_config \<Rightarrow> context_config option" where
  "run_ops env [] g = Some g"
| "run_ops env (op # ops) g = (if permitted op g then exec env op g \<bind> run_ops env ops else None)"

lemma context_run_reachable: "run_ops env ops g = Some g' \<Longrightarrow> context_reachable env pids g \<Longrightarrow> context_reachable env pids g'"
  by (induction env ops g rule: run_ops.induct) (auto simp: bind_eq_Some_conv split: if_splits intro: context_reachable.step)

text \<open>C13:
  Whatever the clients do, and whichever attempts to pin a buffer fail, a hardware context is used by the
  contexts of one process at a time, its owner, through the IOMMU of their device; its reference count is the number of
  these contexts, its activations are theirs, and a context that is active keeps its hardware context.
\<close>

theorem context_isolation:
  assumes "context_reachable env pids g"
  shows "(\<forall>c ctx h. xl_ctxs (cg_list g) c = Some ctx \<and> mc_hw ctx = Some h \<longrightarrow>
      (let w = xl_devs (cg_list g) ! h
       in h < length (xl_devs (cg_list g)) \<and> hc_owner w = Some (mc_pid ctx) \<and> hc_iommu w = mc_dev ctx \<and>
         hc_ref w = card {d. on_hw (xl_ctxs (cg_list g)) h d} \<and>
         hc_active w = (\<Sum>d | on_hw (xl_ctxs (cg_list g)) h d. cg_holds g d))) \<and>
    (\<forall>c. 0 < cg_holds g c \<longrightarrow> (\<exists>h. on_hw (xl_ctxs (cg_list g)) h c))"
proof (intro conjI allI impI)
  have inv: "owners_inv (cg_holds g) (cg_list g)" using context_reachable_inv [OF assms] by (simp add: context_inv_def)
  show "let w = xl_devs (cg_list g) ! h
       in h < length (xl_devs (cg_list g)) \<and> hc_owner w = Some (mc_pid ctx) \<and> hc_iommu w = mc_dev ctx \<and>
         hc_ref w = card {d. on_hw (xl_ctxs (cg_list g)) h d} \<and>
         hc_active w = (\<Sum>d | on_hw (xl_ctxs (cg_list g)) h d. cg_holds g d)"
    if "xl_ctxs (cg_list g) c = Some ctx \<and> mc_hw ctx = Some h" for c ctx h
  proof -
    have lt: "h < length (xl_devs (cg_list g))" using inv that by (auto simp: owners_inv_def)
    have ok: "hw_ok (cg_holds g) (xl_ctxs (cg_list g)) h (xl_devs (cg_list g) ! h)" using owners_invD [OF inv lt] .
    then have "hc_ref (xl_devs (cg_list g) ! h) = card {d. on_hw (xl_ctxs (cg_list g)) h d}"
      by (metis hw_ok_def distinct_card)
    moreover have "hc_active (xl_devs (cg_list g) ! h) = (\<Sum>d | on_hw (xl_ctxs (cg_list g)) h d. cg_holds g d)"
      using ok by (metis hw_ok_def sum_list_distinct_conv_sum_set)
    ultimately show ?thesis using ok lt that by (auto simp: hw_ok_def Let_def)
  qed
  show "\<exists>h. on_hw (xl_ctxs (cg_list g)) h c" if "0 < cg_holds g c" for c
    using inv that by (auto simp: owners_inv_def)
qed

text \<open>C14:
  No wakeup is lost: as soon as some hardware context of its device is without owner, not active, or owned by the process of
  a call that waits in \<open>host1x_memory_context_active\<close>, that call has been woken.
\<close>

theorem context_wakeup:
  assumes "context_reachable env pids g" and "w \<in> set (xl_waiters (cg_list g))" and "xl_ctxs (cg_list g) (wt_ctx w) = Some ctx"
    and "h < length (xl_devs (cg_list g))" and "hc_iommu (xl_devs (cg_list g) ! h) = mc_dev ctx"
    and "hc_owner (xl_devs (cg_list g) ! h) = None \<or> hc_owner (xl_devs (cg_list g) ! h) = Some (mc_pid ctx) \<or>
      hc_active (xl_devs (cg_list g) ! h) = 0"
  shows "wt_done w"
proof -
  have "waiters_inv (cg_list g)" using context_reachable_inv [OF assms(1)] by (simp add: context_inv_def)
  then have "mc_dev ctx = wt_dev w \<and> (\<not> wt_done w \<longrightarrow> all_busy (cg_list g) (wt_dev w) (mc_pid ctx))"
    using bspec [OF _ assms(2)] assms(3) by (fastforce simp: waiters_inv_def)
  then show ?thesis using assms(4-6) by (auto simp: all_busy_def usable_def)
qed

text \<open>An example: one hardware context and two processes, 7 and 8.\<close>

definition one_hw :: "host1x_hw_memory_context list" where
  "one_hw = [\<lparr>hc_ref = 0, hc_owner = None, hc_active = 0, hc_owners = [], hc_iommu = 3\<rparr>]"

definition two_processes :: "context_op list" where
  "two_processes = [Ctx_alloc (Some 1) 3 7, Ctx_alloc (Some 2) 3 8, Ctx_map (Some 1) 1 5 DMA_TO_DEVICE, Ctx_active 1, Ctx_active 2]"

lemma one_hw_reachable: "context_reachable env (\<lambda>_. 1) (context_start one_hw (\<lambda>_. 1))"
proof -
  have "host1x_memory_context_list_init (Some 4) True (\<lambda>_. Ctx_device 3) = (Inr (), one_hw)"
    by (simp add: host1x_memory_context_list_init_def one_hw_def)
  then show ?thesis by (rule context_reachable.start)
qed

lemmas run_simps = permitted.simps exec.simps context_start_def one_hw_def two_processes_def host1x_memory_context_alloc_def
  host1x_memory_context_map_def host1x_memory_context_active_def host1x_memory_context_alloc_hw_locked_def hw_usable_for_dev_def
  hw_found_def get_pid_def context_pin_def add_active_def active_result_def host1x_memory_context_inactive_def Let_def

lemma context_isolation_witness:
  "\<exists>g ctx. run_ops (\<lambda>_. None) two_processes (context_start one_hw (\<lambda>_. 1)) = Some g \<and> xl_ctxs (cg_list g) 1 = Some ctx \<and> mc_hw ctx = Some 0 \<and>
     hc_owner (xl_devs (cg_list g) ! 0) = Some (mc_pid ctx) \<and> hc_active (xl_devs (cg_list g) ! 0) = 1"
proof -
  obtain g ctx where g: "run_ops (\<lambda>_. None) two_processes (context_start one_hw (\<lambda>_. 1)) = Some g"
      "xl_ctxs (cg_list g) 1 = Some ctx" "mc_hw ctx = Some 0" "hc_active (xl_devs (cg_list g) ! 0) = 1"
    by (simp add: run_simps)
  then show ?thesis using context_isolation [OF context_run_reachable [OF g(1) one_hw_reachable]] by (auto simp: Let_def)
qed

lemma context_wakeup_witness:
  "\<exists>g w. run_ops (\<lambda>_. None) (two_processes @ [Ctx_inactive 1]) (context_start one_hw (\<lambda>_. 1)) = Some g \<and> xl_waiters (cg_list g) = [w] \<and> wt_done w"
proof -
  obtain g w ctx where g: "run_ops (\<lambda>_. None) (two_processes @ [Ctx_inactive 1]) (context_start one_hw (\<lambda>_. 1)) = Some g"
      "xl_waiters (cg_list g) = [w]" "xl_ctxs (cg_list g) (wt_ctx w) = Some ctx" "hc_active (xl_devs (cg_list g) ! 0) = 0"
      "mc_dev ctx = 3" "length (xl_devs (cg_list g)) = 1" "hc_iommu (xl_devs (cg_list g) ! 0) = 3"
    by (simp add: run_simps)
  then show ?thesis using context_wakeup [OF context_run_reachable [OF g(1) one_hw_reachable], of w ctx 0] by simp
qed

end
