(* ===== verification/Host1x_Context_Pins.thy ===== *)
theory Host1x_Context_Pins imports Host1x_Context_Facts begin

text \<open>
  The buffers pinned in hardware contexts, and the references of process identifiers: as long as no
  attempt to pin fails, every permitted operation goes through and the pinned buffers are those of the
  mappings of contexts that have a hardware context.  After a failed activation a buffer is unpinned twice.
\<close>

section \<open>Pinned buffers\<close>

text \<open>The pin of the mapping \<open>m\<close> is as its context wants it.\<close>

definition map_ok :: "context_list \<Rightarrow> nat \<Rightarrow> host1x_context_mapping \<Rightarrow> bool" where
  "map_ok s m cm \<longleftrightarrow> (\<exists>ctx. xl_ctxs s (cm_ctx cm) = Some ctx \<and> m \<in> set (mc_mappings ctx) \<and>
     (mc_hw ctx = None \<longrightarrow> cm_mapping cm = None) \<and>
     (\<forall>h. mc_hw ctx = Some h \<longrightarrow> (\<exists>p. cm_mapping cm = Some p \<and> xl_pins s p = Some (h, cm_bo cm))))"

definition pins_inv :: "context_list \<Rightarrow> bool" where
  "pins_inv s \<longleftrightarrow>
     (\<forall>c ctx. xl_ctxs s c = Some ctx \<longrightarrow> distinct (mc_mappings ctx) \<and>
        (\<forall>m \<in> set (mc_mappings ctx). \<exists>cm. xl_maps s m = Some cm \<and> cm_ctx cm = c)) \<and>
     (\<forall>m cm. xl_maps s m = Some cm \<longrightarrow> map_ok s m cm) \<and>
     (\<forall>p hb. xl_pins s p = Some hb \<longrightarrow> p < xl_next s \<and> (\<exists>m cm. xl_maps s m = Some cm \<and> cm_mapping cm = Some p)) \<and>
     (\<forall>m n cm cn. xl_maps s m = Some cm \<and> xl_maps s n = Some cn \<and> cm_mapping cm \<noteq> None \<and> cm_mapping cm = cm_mapping cn \<longrightarrow> m = n)"

text \<open>Only the hardware contexts, waiters and process identifiers have changed.\<close>

definition same_maps :: "context_list \<Rightarrow> context_list \<Rightarrow> bool" where
  "same_maps s s' \<longleftrightarrow> xl_ctxs s' = xl_ctxs s \<and> xl_maps s' = xl_maps s \<and> xl_pins s' = xl_pins s \<and> xl_next s' = xl_next s"

lemma pins_inv_same: "pins_inv s \<Longrightarrow> same_maps s s' \<Longrightarrow> pins_inv s'"
  unfolding pins_inv_def map_ok_def same_maps_def by (elim conjE) simp

definition maps_off :: "nat list \<Rightarrow> context_list \<Rightarrow> nat \<rightharpoonup> host1x_context_mapping" where
  "maps_off ms s m = (if m \<in> set ms then map_option (\<lambda>cm. cm\<lparr>cm_mapping := None\<rparr>) (xl_maps s m) else xl_maps s m)"

definition pins_off :: "nat list \<Rightarrow> context_list \<Rightarrow> nat \<rightharpoonup> nat \<times> nat" where
  "pins_off ms s p = (if \<exists>m \<in> set ms. \<exists>cm. xl_maps s m = Some cm \<and> cm_mapping cm = Some p then None else xl_pins s p)"

lemma unpin_mappings_effect:
  assumes "distinct ms" and "\<And>m. m \<in> set ms \<Longrightarrow> \<exists>cm p. xl_maps s m = Some cm \<and> cm_mapping cm = Some p \<and> xl_pins s p \<noteq> None"
    and "\<And>m n cm cn. xl_maps s m = Some cm \<Longrightarrow> xl_maps s n = Some cn \<Longrightarrow> cm_mapping cm \<noteq> None \<Longrightarrow> cm_mapping cm = cm_mapping cn \<Longrightarrow> m = n"
  shows "unpin_mappings ms s = Some (s\<lparr>xl_maps := maps_off ms s, xl_pins := pins_off ms s\<rparr>)"
  using assms
proof (induction ms arbitrary: s)
  case Nil
  then show ?case by (simp add: maps_off_def [abs_def] pins_off_def [abs_def])
next
  case (Cons m ms)
  obtain cm p where cm: "xl_maps s m = Some cm" "cm_mapping cm = Some p" "xl_pins s p \<noteq> None" using Cons.prems(2) [of m] by auto
  let ?s = "set_map m (cm\<lparr>cm_mapping := None\<rparr>) (s\<lparr>xl_pins := (xl_pins s)(p := None)\<rparr>)"
  have "unpin_mappings ms ?s = Some (?s\<lparr>xl_maps := maps_off ms ?s, xl_pins := pins_off ms ?s\<rparr>)"
  proof (rule Cons.IH)
    show "distinct ms" using Cons.prems(1) by simp
    show "\<exists>cn q. xl_maps ?s n = Some cn \<and> cm_mapping cn = Some q \<and> xl_pins ?s q \<noteq> None" if n: "n \<in> set ms" for n
    proof -
      obtain cn q where cn: "xl_maps s n = Some cn" "cm_mapping cn = Some q" "xl_pins s q \<noteq> None" using Cons.prems(2) [of n] n by auto
      have "n \<noteq> m" using Cons.prems(1) n by auto
      then have "q \<noteq> p" using Cons.prems(3) [OF cm(1) cn(1)] cm(2) cn(2) by auto
      then show ?thesis using cn \<open>n \<noteq> m\<close> by simp
    qed
    show "n = k" if "xl_maps ?s n = Some cn" "xl_maps ?s k = Some ck" "cm_mapping cn \<noteq> None" "cm_mapping cn = cm_mapping ck" for n k cn ck
      using that Cons.prems(3) [of n cn k ck] by (auto split: if_splits)
  qed
  moreover have "maps_off ms ?s = maps_off (m # ms) s" using cm(1) by (auto simp: maps_off_def fun_eq_iff)
  moreover have "pins_off ms ?s = pins_off (m # ms) s"
  proof
    fix q
    have "\<not> (\<exists>n \<in> set ms. \<exists>cn. xl_maps s n = Some cn \<and> cm_mapping cn = Some p)"
      using Cons.prems(1,3) cm by fastforce
    then show "pins_off ms ?s q = pins_off (m # ms) s q"
      using Cons.prems(1) cm by (auto simp: pins_off_def split: if_splits)
  qed
  ultimately show ?case using cm by auto
qed

text \<open>A context loses its hardware context, as when it is stolen.\<close>

lemma pins_inv_inj:
  "pins_inv s \<Longrightarrow> xl_maps s m = Some cm \<Longrightarrow> xl_maps s n = Some cn \<Longrightarrow> cm_mapping cm \<noteq> None \<Longrightarrow> cm_mapping cm = cm_mapping cn \<Longrightarrow> m = n"
  unfolding pins_inv_def by blast

lemma pins_inv_mapped:
  assumes "pins_inv s" and "xl_ctxs s c = Some ctx" and "m \<in> set (mc_mappings ctx)"
  obtains cm where "xl_maps s m = Some cm" and "cm_ctx cm = c" and "mc_hw ctx = None \<longrightarrow> cm_mapping cm = None"
    and "\<forall>h. mc_hw ctx = Some h \<longrightarrow> (\<exists>p. cm_mapping cm = Some p \<and> xl_pins s p = Some (h, cm_bo cm))"
proof -
  obtain cm where cm: "xl_maps s m = Some cm" "cm_ctx cm = c" using assms unfolding pins_inv_def by blast
  then have "map_ok s m cm" using assms(1) unfolding pins_inv_def by blast
  then show thesis using that [OF cm] cm(2) assms(2) by (auto simp: map_ok_def)
qed

lemma pins_inv_map:
  assumes "pins_inv s" and "xl_maps s m = Some cm"
  obtains ctx where "xl_ctxs s (cm_ctx cm) = Some ctx" and "m \<in> set (mc_mappings ctx)" and "mc_hw ctx = None \<longrightarrow> cm_mapping cm = None"
    and "\<forall>h. mc_hw ctx = Some h \<longrightarrow> (\<exists>p. cm_mapping cm = Some p \<and> xl_pins s p = Some (h, cm_bo cm))"
proof -
  have "map_ok s m cm" using assms unfolding pins_inv_def by blast
  then show thesis unfolding map_ok_def by (elim exE conjE) (rule that)
qed

lemma pins_inv_distinct: "pins_inv s \<Longrightarrow> xl_ctxs s c = Some ctx \<Longrightarrow> distinct (mc_mappings ctx)"
  unfolding pins_inv_def by blast

lemma pins_inv_pin:
  assumes "pins_inv s" and "xl_pins s p = Some hb"
  obtains m cm where "p < xl_next s" and "xl_maps s m = Some cm" and "cm_mapping cm = Some p"
  using assms unfolding pins_inv_def by blast

lemma pins_inv_lt: "pins_inv s \<Longrightarrow> xl_pins s p = Some hb \<Longrightarrow> p < xl_next s"
  unfolding pins_inv_def by blast

lemma pins_inv_less:
  assumes inv: "pins_inv s" and l: "xl_maps s m = Some cm" "cm_mapping cm = Some p"
  shows "p < xl_next s"
proof -
  obtain x where "xl_ctxs s (cm_ctx cm) = Some x" "m \<in> set (mc_mappings x)" "mc_hw x = None \<longrightarrow> cm_mapping cm = None"
      "\<forall>h. mc_hw x = Some h \<longrightarrow> (\<exists>p. cm_mapping cm = Some p \<and> xl_pins s p = Some (h, cm_bo cm))"
    by (rule pins_inv_map [OF inv l(1)])
  then obtain hb where "xl_pins s p = Some hb" using l(2) by (cases "mc_hw x") auto
  then show ?thesis using pins_inv_pin [OF inv] by blast
qed

lemma pins_invI:
  assumes "\<And>c ctx. xl_ctxs s c = Some ctx \<Longrightarrow> distinct (mc_mappings ctx)"
    and "\<And>c ctx m. xl_ctxs s c = Some ctx \<Longrightarrow> m \<in> set (mc_mappings ctx) \<Longrightarrow> \<exists>cm. xl_maps s m = Some cm \<and> cm_ctx cm = c"
    and "\<And>m cm. xl_maps s m = Some cm \<Longrightarrow> map_ok s m cm"
    and "\<And>p hb. xl_pins s p = Some hb \<Longrightarrow> p < xl_next s"
    and "\<And>p hb. xl_pins s p = Some hb \<Longrightarrow> \<exists>m cm. xl_maps s m = Some cm \<and> cm_mapping cm = Some p"
    and "\<And>m n cm cn. xl_maps s m = Some cm \<Longrightarrow> xl_maps s n = Some cn \<Longrightarrow> cm_mapping cm \<noteq> None \<Longrightarrow> cm_mapping cm = cm_mapping cn \<Longrightarrow> m = n"
  shows "pins_inv s"
  using assms unfolding pins_inv_def by blast

lemma steal_one:
  assumes inv: "pins_inv s" and c: "xl_ctxs s c = Some ctx" "mc_hw ctx = Some h"
  obtains s' where "unpin_mappings (mc_mappings ctx) (set_ctx c (ctx\<lparr>mc_hw := None, mc_context_dev := None\<rparr>) s) = Some s'" and "pins_inv s'"
proof -
  let ?ms = "mc_mappings ctx"
  let ?s = "set_ctx c (ctx\<lparr>mc_hw := None, mc_context_dev := None\<rparr>) s"
  let ?s' = "?s\<lparr>xl_maps := maps_off ?ms ?s, xl_pins := pins_off ?ms ?s\<rparr>"
  have "unpin_mappings ?ms ?s = Some ?s'"
  proof (rule unpin_mappings_effect)
    show "distinct ?ms" using pins_inv_distinct [OF inv c(1)] .
    show "\<exists>cm p. xl_maps ?s m = Some cm \<and> cm_mapping cm = Some p \<and> xl_pins ?s p \<noteq> None" if "m \<in> set ?ms" for m
      by (rule pins_inv_mapped [OF inv c(1) that]) (use c(2) in auto)
    show "m = n" if "xl_maps ?s m = Some cm" "xl_maps ?s n = Some cn" "cm_mapping cm \<noteq> None" "cm_mapping cm = cm_mapping cn" for m n cm cn
      using that pins_inv_inj [OF inv] by simp
  qed
  moreover have "pins_inv ?s'"
  proof (rule pins_invI)
    show "distinct (mc_mappings x)" if "xl_ctxs ?s' d = Some x" for d x
      using that pins_inv_distinct [OF inv] c by (auto split: if_splits)
    show "\<exists>cm. xl_maps ?s' m = Some cm \<and> cm_ctx cm = d" if x: "xl_ctxs ?s' d = Some x" "m \<in> set (mc_mappings x)" for d x m
    proof -
      obtain y where y: "xl_ctxs s d = Some y" "m \<in> set (mc_mappings y)" using x c by (auto split: if_splits)
      obtain cm where "xl_maps s m = Some cm" "cm_ctx cm = d" by (rule pins_inv_mapped [OF inv y])
      then show ?thesis by (auto simp: maps_off_def)
    qed
    show "map_ok ?s' m cm" if m: "xl_maps ?s' m = Some cm" for m cm
    proof -
      obtain cm0 where cm0: "xl_maps s m = Some cm0" "cm = (if m \<in> set ?ms then cm0\<lparr>cm_mapping := None\<rparr> else cm0)"
        using m by (auto simp: maps_off_def split: if_splits)
      show ?thesis
      proof (cases "m \<in> set ?ms")
        case True
        obtain cm1 where "xl_maps s m = Some cm1" "cm_ctx cm1 = c" by (rule pins_inv_mapped [OF inv c(1) True])
        then have "cm_ctx cm0 = c" using cm0 by simp
        then show ?thesis using True cm0 by (simp add: map_ok_def)
      next
        case False
        obtain x where x: "xl_ctxs s (cm_ctx cm0) = Some x" "m \<in> set (mc_mappings x)" "mc_hw x = None \<longrightarrow> cm_mapping cm0 = None"
            "\<forall>h. mc_hw x = Some h \<longrightarrow> (\<exists>p. cm_mapping cm0 = Some p \<and> xl_pins s p = Some (h, cm_bo cm0))"
          by (rule pins_inv_map [OF inv cm0(1)])
        then have "cm_ctx cm0 \<noteq> c" using c False by auto
        moreover have "\<exists>p. cm_mapping cm0 = Some p \<and> pins_off ?ms ?s p = Some (k, cm_bo cm0)" if k: "mc_hw x = Some k" for k
        proof -
          obtain p where p: "cm_mapping cm0 = Some p" "xl_pins s p = Some (k, cm_bo cm0)" using x(4) k by blast
          have "cm_mapping cn \<noteq> Some p" if "n \<in> set ?ms" "xl_maps s n = Some cn" for n cn
            using pins_inv_inj [OF inv cm0(1) that(2)] p(1) False that(1) by auto
          then show ?thesis using p by (auto simp: pins_off_def)
        qed
        ultimately show ?thesis using x cm0 False by (simp add: map_ok_def)
      qed
    qed
    show "p < xl_next ?s'" if "xl_pins ?s' p = Some hb" for p hb
      using that pins_inv_pin [OF inv, of p hb] by (auto simp: pins_off_def split: if_splits)
    show "\<exists>m cm. xl_maps ?s' m = Some cm \<and> cm_mapping cm = Some p" if p: "xl_pins ?s' p = Some hb" for p hb
    proof -
      have "xl_pins s p = Some hb" and off: "\<not> (\<exists>m \<in> set ?ms. \<exists>cm. xl_maps s m = Some cm \<and> cm_mapping cm = Some p)"
        using p by (auto simp: pins_off_def split: if_splits)
      then obtain m cm where "xl_maps s m = Some cm" "cm_mapping cm = Some p" using pins_inv_pin [OF inv] by blast
      then show ?thesis using off by (auto simp: maps_off_def)
    qed
    show "m = n" if "xl_maps ?s' m = Some cm" "xl_maps ?s' n = Some cn" "cm_mapping cm \<noteq> None" "cm_mapping cm = cm_mapping cn" for m n cm cn
      using that pins_inv_inj [OF inv] by (auto simp: maps_off_def split: if_splits)
  qed
  ultimately show thesis by (rule that)
qed

lemma steal_owners_pins:
  "pins_inv s \<Longrightarrow> distinct cs \<Longrightarrow> (\<And>c. c \<in> set cs \<Longrightarrow> on_hw (xl_ctxs s) h c) \<Longrightarrow> \<exists>s'. steal_owners cs s = Some s' \<and> pins_inv s'"
proof (induction cs arbitrary: s)
  case (Cons c cs)
  obtain ctx where ctx: "xl_ctxs s c = Some ctx" "mc_hw ctx = Some h" using Cons.prems(3) [of c] by (auto simp: on_hw_def)
  obtain s1 where s1: "unpin_mappings (mc_mappings ctx) (set_ctx c (ctx\<lparr>mc_hw := None, mc_context_dev := None\<rparr>) s) = Some s1" "pins_inv s1"
    by (rule steal_one [OF Cons.prems(1) ctx])
  have "on_hw (xl_ctxs s1) h d" if "d \<in> set cs" for d
    using that Cons.prems(2) Cons.prems(3) [of d] unpin_mappings_frame [OF s1(1)] by (auto simp: on_hw_def same_hw_def)
  then obtain s2 where "steal_owners cs s1 = Some s2" "pins_inv s2" using Cons.IH [OF s1(2)] Cons.prems(2) by auto
  then show ?case using ctx s1 by simp
qed simp

section \<open>Pinning\<close>

abbreviation pins_succeed :: "pin_env \<Rightarrow> bool" where
  "pins_succeed env \<equiv> \<forall>n. env n = None"

lemma pin_mappings_effect:
  assumes env: "pins_succeed env"
  shows "distinct ms \<Longrightarrow> (\<forall>m \<in> set ms. xl_maps s m \<noteq> None) \<Longrightarrow> \<exists>s'. pin_mappings env h ms s = Some (Inr (), s') \<and>
    xl_next s' = xl_next s + length ms \<and> (\<forall>m. m \<notin> set ms \<longrightarrow> xl_maps s' m = xl_maps s m) \<and>
    (\<forall>p. p < xl_next s \<or> xl_next s' \<le> p \<longrightarrow> xl_pins s' p = xl_pins s p) \<and>
    (\<forall>i < length ms. \<exists>cm. xl_maps s (ms ! i) = Some cm \<and> xl_maps s' (ms ! i) = Some (cm\<lparr>cm_mapping := Some (xl_next s + i)\<rparr>) \<and>
       xl_pins s' (xl_next s + i) = Some (h, cm_bo cm))"
proof (induction ms arbitrary: s)
  case (Cons m ms)
  obtain cm where cm: "xl_maps s m = Some cm" using Cons.prems(2) by auto
  let ?s = "set_map m (cm\<lparr>cm_mapping := Some (xl_next s)\<rparr>) (s\<lparr>xl_next := xl_next s + 1, xl_pins := (xl_pins s)(xl_next s \<mapsto> (h, cm_bo cm))\<rparr>)"
  have "distinct ms" "\<forall>m \<in> set ms. xl_maps ?s m \<noteq> None" using Cons.prems by auto
  from Cons.IH [OF this] obtain s' where s': "pin_mappings env h ms ?s = Some (Inr (), s')" "xl_next s' = xl_next ?s + length ms"
      "\<forall>n. n \<notin> set ms \<longrightarrow> xl_maps s' n = xl_maps ?s n" "\<forall>p. p < xl_next ?s \<or> xl_next s' \<le> p \<longrightarrow> xl_pins s' p = xl_pins ?s p"
      "\<forall>i < length ms. \<exists>cm. xl_maps ?s (ms ! i) = Some cm \<and> xl_maps s' (ms ! i) = Some (cm\<lparr>cm_mapping := Some (xl_next ?s + i)\<rparr>) \<and>
         xl_pins s' (xl_next ?s + i) = Some (h, cm_bo cm)"
    by blast
  have "pin_mappings env h (m # ms) s = Some (Inr (), s')"
    using cm s'(1) env by (simp add: context_pin_def Let_def)
  moreover have "\<exists>cm. xl_maps s ((m # ms) ! i) = Some cm \<and> xl_maps s' ((m # ms) ! i) = Some (cm\<lparr>cm_mapping := Some (xl_next s + i)\<rparr>) \<and>
      xl_pins s' (xl_next s + i) = Some (h, cm_bo cm)" if "i < length (m # ms)" for i
  proof (cases i)
    case 0
    then show ?thesis using cm s'(3,4) Cons.prems(1) by simp
  next
    case (Suc j)
    then have "ms ! j \<noteq> m" using Cons.prems(1) that by (auto simp: in_set_conv_nth)
    then show ?thesis using s'(5) Suc that by auto
  qed
  ultimately show ?case using s'(2-4) by (intro exI [of _ s']) auto
qed simp

lemma take_pins:
  assumes env: "pins_succeed env" and inv: "pins_inv s" and c: "xl_ctxs s c = Some ctx" "mc_hw ctx = None"
  obtains s' where "pin_mappings env h (mc_mappings ctx) (take_hw c ctx h s) = Some (Inr (), s')" and "pins_inv s'"
proof -
  let ?ms = "mc_mappings ctx"
  let ?s = "take_hw c ctx h s"
  have same: "xl_maps ?s = xl_maps s" "xl_pins ?s = xl_pins s" "xl_next ?s = xl_next s"
      "xl_ctxs ?s = (xl_ctxs s)(c \<mapsto> ctx\<lparr>mc_hw := Some h, mc_context_dev := Some h\<rparr>)"
    by (simp_all add: take_hw_def)
  have "\<exists>cm. xl_maps s m = Some cm" if "m \<in> set ?ms" for m by (rule pins_inv_mapped [OF inv c(1) that]) blast
  then have "\<forall>m \<in> set ?ms. xl_maps ?s m \<noteq> None" using same by auto
  from pin_mappings_effect [OF env pins_inv_distinct [OF inv c(1)] this] obtain s' where s': "pin_mappings env h ?ms ?s = Some (Inr (), s')"
      "xl_next s' = xl_next s + length ?ms" "\<forall>n. n \<notin> set ?ms \<longrightarrow> xl_maps s' n = xl_maps s n"
      "\<forall>p. p < xl_next s \<or> xl_next s' \<le> p \<longrightarrow> xl_pins s' p = xl_pins s p"
      "\<forall>i < length ?ms. \<exists>cm. xl_maps s (?ms ! i) = Some cm \<and> xl_maps s' (?ms ! i) = Some (cm\<lparr>cm_mapping := Some (xl_next s + i)\<rparr>) \<and>
         xl_pins s' (xl_next s + i) = Some (h, cm_bo cm)"
    unfolding same by blast
  have ctxs: "xl_ctxs s' = (xl_ctxs s)(c \<mapsto> ctx\<lparr>mc_hw := Some h, mc_context_dev := Some h\<rparr>)"
    using pin_mappings_frame [OF s'(1)] same by (simp add: same_hw_def)
  have old: "\<exists>cm i. xl_maps s m = Some cm \<and> cm_ctx cm = c \<and> i < length ?ms \<and> m = ?ms ! i \<and>
      xl_maps s' m = Some (cm\<lparr>cm_mapping := Some (xl_next s + i)\<rparr>) \<and> xl_pins s' (xl_next s + i) = Some (h, cm_bo cm)" if m: "m \<in> set ?ms" for m
  proof -
    obtain i where i: "i < length ?ms" "m = ?ms ! i" using m by (auto simp: in_set_conv_nth)
    obtain cm where cm: "xl_maps s m = Some cm" "cm_ctx cm = c" by (rule pins_inv_mapped [OF inv c(1) m])
    have "\<exists>cm. xl_maps s m = Some cm \<and> xl_maps s' m = Some (cm\<lparr>cm_mapping := Some (xl_next s + i)\<rparr>) \<and>
        xl_pins s' (xl_next s + i) = Some (h, cm_bo cm)"
      using s'(5) i by blast
    then show ?thesis using i cm by (intro exI [of _ cm] exI [of _ i]) simp
  qed
  note less = pins_inv_less [OF inv]
  have "pins_inv s'"
  proof (rule pins_invI)
    show "distinct (mc_mappings x)" if "xl_ctxs s' d = Some x" for d x
      using that pins_inv_distinct [OF inv] c ctxs by (auto split: if_splits)
    show "\<exists>cm. xl_maps s' m = Some cm \<and> cm_ctx cm = d" if x: "xl_ctxs s' d = Some x" "m \<in> set (mc_mappings x)" for d x m
    proof -
      obtain y where y: "xl_ctxs s d = Some y" "m \<in> set (mc_mappings y)" using x c ctxs by (auto split: if_splits)
      obtain cm where cm: "xl_maps s m = Some cm" "cm_ctx cm = d" by (rule pins_inv_mapped [OF inv y])
      show ?thesis using old [of m] s'(3) cm by (cases "m \<in> set ?ms") auto
    qed
    show "map_ok s' m cm" if m: "xl_maps s' m = Some cm" for m cm
    proof (cases "m \<in> set ?ms")
      case True
      then show ?thesis using old [OF True] m ctxs by (auto simp: map_ok_def)
    next
      case False
      then have m0: "xl_maps s m = Some cm" using s'(3) m by simp
      obtain x where x: "xl_ctxs s (cm_ctx cm) = Some x" "m \<in> set (mc_mappings x)" "mc_hw x = None \<longrightarrow> cm_mapping cm = None"
          "\<forall>h. mc_hw x = Some h \<longrightarrow> (\<exists>p. cm_mapping cm = Some p \<and> xl_pins s p = Some (h, cm_bo cm))"
        by (rule pins_inv_map [OF inv m0])
      have "cm_ctx cm \<noteq> c" using x c False by auto
      moreover have "\<exists>p. cm_mapping cm = Some p \<and> xl_pins s' p = Some (k, cm_bo cm)" if "mc_hw x = Some k" for k
        using x(4) that s'(4) less [OF m0] by auto
      ultimately show ?thesis using x(1-3) ctxs by (auto simp: map_ok_def)
    qed
    show "p < xl_next s'" if "xl_pins s' p = Some hb" for p hb
      using that pins_inv_pin [OF inv, of p hb] s'(2,4) by (metis le_trans linorder_not_less nat_le_iff_add)
    show "\<exists>m cm. xl_maps s' m = Some cm \<and> cm_mapping cm = Some p" if p: "xl_pins s' p = Some hb" for p hb
    proof (cases "p < xl_next s")
      case True
      then have "xl_pins s p = Some hb" using p s'(4) by simp
      then obtain m cm where m: "xl_maps s m = Some cm" "cm_mapping cm = Some p" using pins_inv_pin [OF inv] by blast
      have "m \<notin> set ?ms"
      proof
        assume "m \<in> set ?ms"
        then obtain cm1 where "xl_maps s m = Some cm1" "mc_hw ctx = None \<longrightarrow> cm_mapping cm1 = None" by (rule pins_inv_mapped [OF inv c(1)])
        then show False using m c(2) by simp
      qed
      then have "xl_maps s' m = Some cm" using m(1) s'(3) by simp
      then show ?thesis using m(2) by blast
    next
      case False
      have "p < xl_next s'"
      proof (rule ccontr)
        assume "\<not> p < xl_next s'"
        then have "xl_pins s p = Some hb" using p s'(4) by simp
        then show False using False pins_inv_pin [OF inv] by blast
      qed
      then obtain i where "p = xl_next s + i" "i < length ?ms" using False s'(2) by (metis add_less_cancel_left le_Suc_ex linorder_not_less)
      then show ?thesis using s'(5) by fastforce
    qed
    show "m = n" if m: "xl_maps s' m = Some cm" "xl_maps s' n = Some cn" "cm_mapping cm \<noteq> None" "cm_mapping cm = cm_mapping cn" for m n cm cn
    proof -
      have new: "\<exists>i. k = ?ms ! i \<and> cm_mapping ck = Some (xl_next s + i)" if "k \<in> set ?ms" "xl_maps s' k = Some ck" for k ck
        using old [OF that(1)] that(2) by auto
      have keep: "xl_maps s k = Some ck" if "k \<notin> set ?ms" "xl_maps s' k = Some ck" for k ck
        using that s'(3) by simp
      show ?thesis
      proof (cases "m \<in> set ?ms"; cases "n \<in> set ?ms")
        assume "m \<in> set ?ms" "n \<in> set ?ms"
        then show ?thesis using new [of m cm] new [of n cn] m by auto
      next
        assume "m \<in> set ?ms" "n \<notin> set ?ms"
        then show ?thesis using new [of m cm] keep [of n cn] m less [of n cn] by auto
      next
        assume "m \<notin> set ?ms" "n \<in> set ?ms"
        then show ?thesis using new [of n cn] keep [of m cm] m less [of m cm] by auto
      next
        assume "m \<notin> set ?ms" "n \<notin> set ?ms"
        then show ?thesis using keep m pins_inv_inj [OF inv] by blast
      qed
    qed
  qed
  then show thesis using that [OF s'(1)] by blast
qed

section \<open>Process identifiers\<close>

text \<open>\<open>ext\<close>: the references that others have.\<close>

definition pid_users :: "context_list \<Rightarrow> nat \<Rightarrow> nat" where
  "pid_users s p = card {c. map_option mc_pid (xl_ctxs s c) = Some p} + count_list (map hc_owner (xl_devs s)) (Some p)"

definition pid_inv :: "(nat \<Rightarrow> nat) \<Rightarrow> context_list \<Rightarrow> bool" where
  "pid_inv ext s \<longleftrightarrow> finite (dom (xl_ctxs s)) \<and> (\<forall>p. xl_pid_ref s p = ext p + pid_users s p)"

text \<open>The process of each context stays: contexts come and go, or change otherwise.\<close>

definition same_pids :: "context_list \<Rightarrow> context_list \<Rightarrow> bool" where
  "same_pids s s' \<longleftrightarrow> (\<forall>d. map_option mc_pid (xl_ctxs s' d) = map_option mc_pid (xl_ctxs s d))"

lemma same_pids_dom:
  assumes "same_pids s s'"
  shows "dom (xl_ctxs s') = dom (xl_ctxs s)"
proof -
  have "xl_ctxs s' c = None \<longleftrightarrow> xl_ctxs s c = None" for c using assms unfolding same_pids_def by (metis map_option_is_None)
  then show ?thesis by (auto simp: dom_def)
qed

lemma count_list_upd:
  assumes "h < length xs"
  shows "count_list (xs[h := a]) x + (if xs ! h = x then 1 else 0) = count_list xs x + (if a = x then 1 else 0)"
proof -
  have "count_list xs x = count_list (take h xs @ xs ! h # drop (Suc h) xs) x" using assms by (simp add: id_take_nth_drop [symmetric])
  then show ?thesis using assms by (simp add: upd_conv_take_nth_drop)
qed

lemma pid_inv_same:
  "pid_inv ext s \<Longrightarrow> same_pids s s' \<Longrightarrow> map hc_owner (xl_devs s') = map hc_owner (xl_devs s) \<Longrightarrow> xl_pid_ref s' = xl_pid_ref s \<Longrightarrow> pid_inv ext s'"
  using same_pids_dom [of s s'] by (simp add: pid_inv_def pid_users_def same_pids_def)

lemma upd_owner:
  assumes "h < length (xl_devs s)" and "same_pids s s'" and "xl_devs s' = (xl_devs s)[h := w]"
  shows "pid_users s' p + (if hc_owner (xl_devs s ! h) = Some p then 1 else 0) = pid_users s p + (if hc_owner w = Some p then 1 else 0)"
  using count_list_upd [of h "map hc_owner (xl_devs s)" "hc_owner w" "Some p"] assms by (simp add: pid_users_def map_update same_pids_def)

lemma owner_counts: "h < length (xl_devs s) \<Longrightarrow> hc_owner (xl_devs s ! h) = Some p \<Longrightarrow> 0 < pid_users s p"
  by (metis (no_types, lifting) add_is_0 bot_nat_0.not_eq_extremum count_list_0_iff length_map nth_map nth_mem pid_users_def)

lemma hw_put_pid:
  assumes inv: "pid_inv ext s" and lt: "h < length (xl_devs s)" and ref: "hc_ref (xl_devs s ! h) \<noteq> 0"
  shows "\<exists>s'. host1x_memory_context_hw_put h s = Some s' \<and> pid_inv ext s'"
proof (cases "hc_ref (xl_devs s ! h) = 1")
  case False
  then show ?thesis using ref lt inv
    by (auto simp: host1x_memory_context_hw_put_def Let_def map_update list_update_same_conv intro!: pid_inv_same [OF inv] simp: same_pids_def)
next
  case one: True
  show ?thesis
  proof (cases "hc_owner (xl_devs s ! h)")
    case None
    then show ?thesis using one lt
      by (auto simp: host1x_memory_context_hw_put_def Let_def map_update list_update_same_conv intro!: pid_inv_same [OF inv] simp: same_pids_def)
  next
    case (Some p)
    have "0 < pid_users s p" using owner_counts [OF lt Some] .
    then have pos: "xl_pid_ref s p \<noteq> 0" using inv by (simp add: pid_inv_def)
    let ?w = "(xl_devs s ! h)\<lparr>hc_ref := 0, hc_owner := None\<rparr>"
    let ?s = "s\<lparr>xl_pid_ref := (xl_pid_ref s)(p := xl_pid_ref s p - 1), xl_devs := (xl_devs s)[h := ?w]\<rparr>"
    have "pid_users ?s q + (if Some p = Some q then 1 else 0) = pid_users s q" for q
      using upd_owner [OF lt, of ?s ?w q] Some by (simp add: same_pids_def)
    note users = this
    have "pid_users ?s q = (if q = p then pid_users s q - 1 else pid_users s q)" for q
      using users [of q] by (cases "q = p") simp_all
    then have "pid_inv ext ?s" using inv \<open>0 < pid_users s p\<close> by (simp add: pid_inv_def)
    then show ?thesis using one Some pos by (simp add: host1x_memory_context_hw_put_def Let_def)
  qed
qed

lemma hw_found_pid:
  assumes inv: "pid_inv ext s" and lt: "h < length (xl_devs s)" and owner: "hc_owner (xl_devs s ! h) = None"
  shows "pid_inv ext (hw_found h p s)"
proof -
  let ?w = "(xl_devs s ! h)\<lparr>hc_ref := 1, hc_owner := Some p, hc_owners := []\<rparr>"
  have "pid_users (hw_found h p s) q = pid_users s q + (if p = q then 1 else 0)" for q
    using upd_owner [OF lt, of "hw_found h p s" ?w q] owner by (simp add: hw_found_def get_pid_def same_pids_def)
  then show ?thesis using inv by (simp add: pid_inv_def hw_found_def get_pid_def)
qed

lemma alloc_hw_total:
  assumes o: "owners_inv holds s" and inv: "pins_inv s" and pid: "pid_inv ext s"
  obtains r s1 where "host1x_memory_context_alloc_hw_locked dev p s = Some (r, s1)" and "pins_inv s1" and "pid_inv ext s1"
proof (cases "xl_devs s = []")
  case True
  then show thesis using that inv pid by (simp add: host1x_memory_context_alloc_hw_locked_def)
next
  case ne: False
  obtain own free st where search: "hw_search dev p (xl_devs s) 0 None None = (own, free, st)"
    by (cases "hw_search dev p (xl_devs s) 0 None None") auto
  note spec = hw_search_spec [where devs = "xl_devs s" and dev = dev and pid = p, unfolded search]
  consider (own) h where "own = Some h" | (free) h where "own = None" "free = Some h" | (steal) h where "own = None" "free = None" "st = Some h"
    | (none) "own = None" "free = None" "st = None"
    by (cases own; cases free; cases st) auto
  then show thesis
  proof cases
    case own
    let ?s = "upd_hw h (\<lambda>w. w\<lparr>hc_ref := hc_ref w + 1\<rparr>) s"
    have "h < length (xl_devs s)" using spec own by (simp add: usable_def)
    then have "pid_inv ext ?s" by (intro pid_inv_same [OF pid]) (simp_all add: same_pids_def map_update list_update_same_conv)
    moreover have "pins_inv ?s" by (rule pins_inv_same [OF inv]) (simp add: same_maps_def)
    ultimately show thesis using that search ne own by (simp add: host1x_memory_context_alloc_hw_locked_def)
  next
    case free
    then have "h < length (xl_devs s)" "hc_owner (xl_devs s ! h) = None" using spec by (simp_all add: usable_def)
    then have "pid_inv ext (hw_found h p s)" by (rule hw_found_pid [OF pid])
    moreover have "pins_inv (hw_found h p s)" by (rule pins_inv_same [OF inv]) (simp add: same_maps_def hw_found_def get_pid_def)
    ultimately show thesis using that search ne free by (simp add: host1x_memory_context_alloc_hw_locked_def)
  next
    case steal
    have lt: "h < length (xl_devs s)" using spec steal by (simp add: usable_def)
    obtain q where q: "hc_owner (xl_devs s ! h) = Some q" using spec steal by (auto simp: usable_def)
    note ok = owners_invD [OF o lt]
    have "distinct (hc_owners (xl_devs s ! h))" "\<And>c. c \<in> set (hc_owners (xl_devs s ! h)) \<Longrightarrow> on_hw (xl_ctxs s) h c"
      using ok by (auto simp: hw_ok_def)
    from steal_owners_pins [OF inv this] obtain s2 where s2: "steal_owners (hc_owners (xl_devs s ! h)) s = Some s2" "pins_inv s2" by blast
    note f = steal_owners_frame [OF s2(1)]
    have pid2: "pid_inv ext s2"
      by (rule pid_inv_same [OF pid]) (use f in \<open>auto simp: same_pids_def option.map_comp comp_def\<close>)
    have pos: "0 < pid_users s2 q" using owner_counts [of h s2 q] lt q f by simp
    let ?s3 = "s2\<lparr>xl_pid_ref := (xl_pid_ref s2)(q := xl_pid_ref s2 q - 1)\<rparr>"
    have put: "put_pid (hc_owner (xl_devs s2 ! h)) s2 = Some ?s3"
      using pos pid2 f q by (simp add: pid_inv_def)
    let ?w = "(xl_devs s2 ! h)\<lparr>hc_ref := 1, hc_owner := Some p, hc_owners := []\<rparr>"
    have "pid_users (hw_found h p ?s3) r + (if q = r then 1 else 0) = pid_users s2 r + (if p = r then 1 else 0)" for r
      using upd_owner [of h s2 "hw_found h p ?s3" ?w r] lt f q by (simp add: hw_found_def get_pid_def same_pids_def)
    note users = this
    have "pid_inv ext (hw_found h p ?s3)"
      unfolding pid_inv_def
    proof (intro conjI allI)
      show "finite (dom (xl_ctxs (hw_found h p ?s3)))" using pid2 by (simp add: pid_inv_def hw_found_def get_pid_def)
      show "xl_pid_ref (hw_found h p ?s3) r = ext r + pid_users (hw_found h p ?s3) r" for r
        using users [of r] pid2 pos by (cases "q = r"; cases "p = r") (auto simp: pid_inv_def hw_found_def get_pid_def)
    qed
    moreover have "pins_inv (hw_found h p ?s3)" by (rule pins_inv_same [OF s2(2)]) (simp add: same_maps_def hw_found_def get_pid_def)
    moreover have "host1x_memory_context_alloc_hw_locked dev p s = Some (Inr h, hw_found h p ?s3)"
      using search ne steal s2(1) put by (simp add: host1x_memory_context_alloc_hw_locked_def del: put_pid.simps)
    ultimately show thesis using that by blast
  next
    case none
    then show thesis using that search ne inv pid by (simp add: host1x_memory_context_alloc_hw_locked_def)
  qed
qed

section \<open>Operations that go through\<close>

lemma add_active_keeps:
  assumes "h < length (xl_devs s)"
  shows "pins_inv s \<Longrightarrow> pins_inv (add_active h s)" and "pid_inv ext s \<Longrightarrow> pid_inv ext (add_active h s)"
  using assms by (auto intro: pins_inv_same pid_inv_same simp: same_maps_def same_pids_def add_active_def map_update list_update_same_conv)

lemma active_total:
  assumes env: "pins_succeed env" and o: "owners_inv holds s" and inv: "pins_inv s" and pid: "pid_inv ext s" and c: "xl_ctxs s c \<noteq> None"
  obtains t s' where "host1x_memory_context_active env c s = Some (t, s')" and "pins_inv s'" and "pid_inv ext s'"
proof -
  obtain ctx where ctx: "xl_ctxs s c = Some ctx" using c by blast
  show thesis
  proof (cases "mc_hw ctx")
    case (Some h)
    then have "h < length (xl_devs s)" using o ctx unfolding owners_inv_def by blast
    then show thesis using that add_active_keeps inv pid ctx Some by (simp add: host1x_memory_context_active_def)
  next
    case None
    obtain r s1 where alloc: "host1x_memory_context_alloc_hw_locked (mc_dev ctx) (mc_pid ctx) s = Some (r, s1)"
        and s1: "pins_inv s1" "pid_inv ext s1"
      by (rule alloc_hw_total [OF o inv pid])
    show thesis
    proof (cases r)
      case (Inl e)
      have "pins_inv (s1\<lparr>xl_waiters := ws\<rparr>)" "pid_inv ext (s1\<lparr>xl_waiters := ws\<rparr>)" for ws
        using s1 by (auto intro: pins_inv_same pid_inv_same simp: same_maps_def same_pids_def)
      then show thesis using that s1 ctx None alloc Inl by (cases "e = EBUSY") (simp_all add: host1x_memory_context_active_def)
    next
      case (Inr h)
      obtain w where lt: "h < length (xl_devs s)" and w: "xl_devs s1 = (xl_devs s)[h := w]" and c1: "xl_ctxs s1 c = Some ctx"
        by (rule alloc_hw_taken [OF o ctx None alloc [unfolded Inr]])
      obtain s2 where s2: "pin_mappings env h (mc_mappings ctx) (take_hw c ctx h s1) = Some (Inr (), s2)" "pins_inv s2"
        by (rule take_pins [OF env s1(1) c1 None])
      note f = pin_mappings_frame [OF s2(1)]
      have "pid_inv ext s2"
        by (rule pid_inv_same [OF s1(2)])
          (use f c1 w lt in \<open>auto simp: same_hw_def take_hw_def same_pids_def map_update list_update_same_conv\<close>)
      moreover have "h < length (xl_devs s2)" using f w lt by (simp add: same_hw_def take_hw_def)
      moreover have "host1x_memory_context_active env c s = Some (Active_returns (Inr ()), add_active h s2)"
        using ctx None alloc Inr s2(1) by (simp add: host1x_memory_context_active_def take_hw_def Let_def)
      ultimately show thesis using that add_active_keeps s2(2) by blast
    qed
  qed
qed

lemma map_total:
  assumes env: "pins_succeed env" and inv: "pins_inv s" and pid: "pid_inv ext s" and c: "xl_ctxs s c \<noteq> None"
    and new: "case k of Some m \<Rightarrow> xl_maps s m = None | None \<Rightarrow> True"
  obtains r s' where "host1x_memory_context_map env k c bo dir s = Some (r, s')" and "pins_inv s'" and "pid_inv ext s'"
proof (cases k)
  case None
  then show thesis using that inv pid by (simp add: host1x_memory_context_map_def)
next
  case (Some m)
  obtain ctx where ctx: "xl_ctxs s c = Some ctx" using c by blast
  let ?n = "xl_next s"
  let ?s = "case mc_hw ctx of None \<Rightarrow> s | Some h \<Rightarrow> s\<lparr>xl_next := ?n + 1, xl_pins := (xl_pins s)(?n \<mapsto> (h, bo))\<rparr>"
  let ?p = "case mc_hw ctx of None \<Rightarrow> None | Some h \<Rightarrow> Some ?n"
  let ?cm = "\<lparr>cm_ctx = c, cm_bo = bo, cm_direction = dir, cm_mapping = ?p\<rparr>"
  define s' where s'_def: "s' = set_ctx c (ctx\<lparr>mc_mappings := m # mc_mappings ctx\<rparr>) (set_map m ?cm ?s)"
  have run: "host1x_memory_context_map env k c bo dir s = Some (Inr m, s')"
    using env ctx Some by (cases "mc_hw ctx") (simp_all add: s'_def host1x_memory_context_map_def context_pin_def Let_def)
  have m: "xl_maps s m = None" using new Some by simp
  have m': "m \<notin> set (mc_mappings x)" if x: "xl_ctxs s d = Some x" for d x
  proof
    assume "m \<in> set (mc_mappings x)"
    then obtain cm where "xl_maps s m = Some cm" by (rule pins_inv_mapped [OF inv x])
    then show False using m by simp
  qed
  note old = pins_inv_less [OF inv]
  have ctxs: "xl_ctxs s' = (xl_ctxs s)(c \<mapsto> ctx\<lparr>mc_mappings := m # mc_mappings ctx\<rparr>)" unfolding s'_def by (cases "mc_hw ctx") simp_all
  have maps: "xl_maps s' = (xl_maps s)(m \<mapsto> ?cm)" unfolding s'_def by (cases "mc_hw ctx") simp_all
  have pins: "xl_pins s' p = (if p = ?n \<and> mc_hw ctx \<noteq> None then Some (the (mc_hw ctx), bo) else xl_pins s p)" for p
    unfolding s'_def by (cases "mc_hw ctx") simp_all
  have "next": "?n \<le> xl_next s'" "mc_hw ctx \<noteq> None \<Longrightarrow> ?n < xl_next s'" unfolding s'_def by (cases "mc_hw ctx"; simp)+
  have "pins_inv s'"
  proof (rule pins_invI)
    show "distinct (mc_mappings x)" if "xl_ctxs s' d = Some x" for d x
      using that ctxs m' ctx pins_inv_distinct [OF inv] by (auto split: if_splits)
    show "\<exists>cm. xl_maps s' l = Some cm \<and> cm_ctx cm = d" if x: "xl_ctxs s' d = Some x" "l \<in> set (mc_mappings x)" for d x l
    proof (cases "l = m")
      case True
      then have "d = c" using x m' ctxs by (auto split: if_splits)
      then show ?thesis using True maps by simp
    next
      case False
      then obtain y where y: "xl_ctxs s d = Some y" "l \<in> set (mc_mappings y)" using x ctx ctxs by (auto split: if_splits)
      obtain cm where "xl_maps s l = Some cm" "cm_ctx cm = d" by (rule pins_inv_mapped [OF inv y])
      then show ?thesis using False maps by simp
    qed
    show "map_ok s' l cm" if l: "xl_maps s' l = Some cm" for l cm
    proof (cases "l = m")
      case True
      then show ?thesis using l maps ctxs pins by (cases "mc_hw ctx") (auto simp: map_ok_def)
    next
      case False
      then have l0: "xl_maps s l = Some cm" using l maps by simp
      obtain x where x: "xl_ctxs s (cm_ctx cm) = Some x" "l \<in> set (mc_mappings x)" "mc_hw x = None \<longrightarrow> cm_mapping cm = None"
          "\<forall>h. mc_hw x = Some h \<longrightarrow> (\<exists>p. cm_mapping cm = Some p \<and> xl_pins s p = Some (h, cm_bo cm))"
        by (rule pins_inv_map [OF inv l0])
      have "\<exists>p. cm_mapping cm = Some p \<and> xl_pins s' p = Some (h, cm_bo cm)" if "mc_hw x = Some h" for h
        using x(4) that old [OF l0] pins by fastforce
      then show ?thesis using x ctx ctxs unfolding map_ok_def by (cases "cm_ctx cm = c") auto
    qed
    show "p < xl_next s'" if "xl_pins s' p = Some hb" for p hb
      using that pins "next" pins_inv_lt [OF inv, of p] by (fastforce split: if_splits)
    show "\<exists>l cm. xl_maps s' l = Some cm \<and> cm_mapping cm = Some p" if p: "xl_pins s' p = Some hb" for p hb
    proof (cases "p = ?n \<and> mc_hw ctx \<noteq> None")
      case True
      then show ?thesis using maps by auto
    next
      case False
      then have "xl_pins s p = Some hb" using p pins by auto
      then obtain l cl where l: "xl_maps s l = Some cl" "cm_mapping cl = Some p" using pins_inv_pin [OF inv] by blast
      then have "xl_maps s' l = Some cl" using maps m by auto
      then show ?thesis using l(2) by blast
    qed
    show "l = n" if lh: "xl_maps s' l = Some cl" "xl_maps s' n = Some cn" "cm_mapping cl \<noteq> None" "cm_mapping cl = cm_mapping cn" for l n cl cn
    proof -
      have other: "xl_maps s k = Some ck" if "xl_maps s' k = Some ck" "k \<noteq> m" for k ck using that maps by simp
      have fresh: "cm_mapping ck \<noteq> ?p" if "xl_maps s k = Some ck" "cm_mapping ck \<noteq> None" for k ck
        using old [OF that(1)] that(2) by (cases "mc_hw ctx") auto
      show ?thesis
      proof (cases "l = m"; cases "n = m")
        assume "l \<noteq> m" "n \<noteq> m"
        then show ?thesis using other lh pins_inv_inj [OF inv] by blast
      next
        assume "l = m" "n \<noteq> m"
        then show ?thesis using other [of n cn] fresh [of n cn] lh maps by auto
      next
        assume "l \<noteq> m" "n = m"
        then show ?thesis using other [of l cl] fresh [of l cl] lh maps by auto
      qed simp
    qed
  qed
  moreover have "pid_inv ext s'"
    by (rule pid_inv_same [OF pid]) (use ctx ctxs in \<open>auto simp: same_pids_def s'_def split: option.split\<close>)
  ultimately show thesis using that run by blast
qed

lemma unmap_total:
  assumes inv: "pins_inv s" and pid: "pid_inv ext s" and m: "xl_maps s m = Some cm"
  obtains s' where "host1x_memory_context_unmap m s = Some s'" and "pins_inv s'" and "pid_inv ext s'"
proof -
  obtain ctx where ctx: "xl_ctxs s (cm_ctx cm) = Some ctx" "m \<in> set (mc_mappings ctx)" "mc_hw ctx = None \<longrightarrow> cm_mapping cm = None"
      "\<forall>h. mc_hw ctx = Some h \<longrightarrow> (\<exists>p. cm_mapping cm = Some p \<and> xl_pins s p = Some (h, cm_bo cm))"
    by (rule pins_inv_map [OF inv m])
  let ?ctx = "ctx\<lparr>mc_mappings := remove1 m (mc_mappings ctx)\<rparr>"
  define s' where "s' = s\<lparr>xl_ctxs := (xl_ctxs s)(cm_ctx cm \<mapsto> ?ctx),
    xl_pins := (case cm_mapping cm of None \<Rightarrow> xl_pins s | Some p \<Rightarrow> (xl_pins s)(p := None)), xl_maps := (xl_maps s)(m := None)\<rparr>"
  have run: "host1x_memory_context_unmap m s = Some s'"
    using ctx m by (cases "mc_hw ctx") (auto simp: host1x_memory_context_unmap_def s'_def Let_def)
  have ctxs: "xl_ctxs s' = (xl_ctxs s)(cm_ctx cm \<mapsto> ?ctx)" and maps: "xl_maps s' = (xl_maps s)(m := None)" and nxt: "xl_next s' = xl_next s"
    by (simp_all add: s'_def)
  have pins: "xl_pins s' p = (if cm_mapping cm = Some p then None else xl_pins s p)" for p
    by (cases "cm_mapping cm") (simp_all add: s'_def)
  have d: "distinct (mc_mappings ctx)" using pins_inv_distinct [OF inv ctx(1)] .
  have "pins_inv s'"
  proof (rule pins_invI)
    show "distinct (mc_mappings x)" if "xl_ctxs s' c = Some x" for c x
      using that ctxs d pins_inv_distinct [OF inv] by (auto split: if_splits)
    show "\<exists>cn. xl_maps s' l = Some cn \<and> cm_ctx cn = c" if x: "xl_ctxs s' c = Some x" "l \<in> set (mc_mappings x)" for c x l
    proof -
      have l: "\<exists>y. xl_ctxs s c = Some y \<and> l \<in> set (mc_mappings y)" using x ctx(1) ctxs d by (auto split: if_splits)
      then obtain y where y: "xl_ctxs s c = Some y" "l \<in> set (mc_mappings y)" by blast
      obtain cn where cn: "xl_maps s l = Some cn" "cm_ctx cn = c" by (rule pins_inv_mapped [OF inv y])
      have "l \<noteq> m" using x ctxs d cn m by (auto split: if_splits)
      then show ?thesis using cn maps by simp
    qed
    show "map_ok s' l cn" if l: "xl_maps s' l = Some cn" for l cn
    proof -
      have l0: "xl_maps s l = Some cn" "l \<noteq> m" using l maps by (auto split: if_splits)
      obtain x where x: "xl_ctxs s (cm_ctx cn) = Some x" "l \<in> set (mc_mappings x)" "mc_hw x = None \<longrightarrow> cm_mapping cn = None"
          "\<forall>h. mc_hw x = Some h \<longrightarrow> (\<exists>p. cm_mapping cn = Some p \<and> xl_pins s p = Some (h, cm_bo cn))"
        by (rule pins_inv_map [OF inv l0(1)])
      have "cm_mapping cm \<noteq> Some p" if "cm_mapping cn = Some p" for p
        using pins_inv_inj [OF inv m l0(1)] l0(2) that by auto
      then have "\<forall>h. mc_hw x = Some h \<longrightarrow> (\<exists>p. cm_mapping cn = Some p \<and> xl_pins s' p = Some (h, cm_bo cn))"
        using x(4) pins by fastforce
      then show ?thesis using x(1-3) ctx(1) ctxs l0(2) unfolding map_ok_def by (cases "cm_ctx cn = cm_ctx cm") auto
    qed
    show "p < xl_next s'" if "xl_pins s' p = Some hb" for p hb
      using that pins nxt pins_inv_lt [OF inv, of p hb] by (simp split: if_splits)
    show "\<exists>l cn. xl_maps s' l = Some cn \<and> cm_mapping cn = Some p" if p: "xl_pins s' p = Some hb" for p hb
    proof -
      have p0: "xl_pins s p = Some hb" "cm_mapping cm \<noteq> Some p" using p pins by (auto split: if_splits)
      obtain l cn where l: "xl_maps s l = Some cn" "cm_mapping cn = Some p" by (rule pins_inv_pin [OF inv p0(1)])
      then have "xl_maps s' l = Some cn" using p0(2) m maps by auto
      then show ?thesis using l(2) by blast
    qed
    show "l = n" if "xl_maps s' l = Some cl" "xl_maps s' n = Some cn" "cm_mapping cl \<noteq> None" "cm_mapping cl = cm_mapping cn" for l n cl cn
      using that maps pins_inv_inj [OF inv, of l cl n cn] by (auto split: if_splits)
  qed
  moreover have "pid_inv ext s'"
    by (rule pid_inv_same [OF pid]) (use ctx in \<open>auto simp: same_pids_def s'_def\<close>)
  ultimately show thesis using that run by blast
qed

lemma pins_inv_ctx:
  assumes inv: "pins_inv s" and ctx: "xl_ctxs s c = Some ctx" and same: "mc_mappings ctx' = mc_mappings ctx" "mc_hw ctx' = mc_hw ctx"
    and s': "s' = set_ctx c ctx' s"
  shows "pins_inv s'"
proof (rule pins_invI)
  show "distinct (mc_mappings x)" if "xl_ctxs s' d = Some x" for d x
    using that s' same ctx pins_inv_distinct [OF inv] by (auto split: if_splits)
  show "\<exists>cm. xl_maps s' m = Some cm \<and> cm_ctx cm = d" if x: "xl_ctxs s' d = Some x" "m \<in> set (mc_mappings x)" for d x m
  proof -
    obtain y where y: "xl_ctxs s d = Some y" "m \<in> set (mc_mappings y)" using x s' same ctx by (auto split: if_splits)
    obtain cm where "xl_maps s m = Some cm" "cm_ctx cm = d" by (rule pins_inv_mapped [OF inv y])
    then show ?thesis using s' by simp
  qed
  show "map_ok s' m cm" if m: "xl_maps s' m = Some cm" for m cm
  proof -
    have m0: "xl_maps s m = Some cm" using m s' by simp
    obtain x where "xl_ctxs s (cm_ctx cm) = Some x" "m \<in> set (mc_mappings x)" "mc_hw x = None \<longrightarrow> cm_mapping cm = None"
        "\<forall>h. mc_hw x = Some h \<longrightarrow> (\<exists>p. cm_mapping cm = Some p \<and> xl_pins s p = Some (h, cm_bo cm))"
      by (rule pins_inv_map [OF inv m0])
    then show ?thesis using s' same ctx unfolding map_ok_def by (cases "cm_ctx cm = c") auto
  qed
  show "p < xl_next s'" if "xl_pins s' p = Some hb" for p hb using that s' pins_inv_lt [OF inv] by simp
  show "\<exists>m cm. xl_maps s' m = Some cm \<and> cm_mapping cm = Some p" if p: "xl_pins s' p = Some hb" for p hb
  proof -
    have p0: "xl_pins s p = Some hb" using p s' by simp
    show ?thesis by (rule pins_inv_pin [OF inv p0]) (use s' in auto)
  qed
  show "m = n" if "xl_maps s' m = Some cm" "xl_maps s' n = Some cn" "cm_mapping cm \<noteq> None" "cm_mapping cm = cm_mapping cn" for m n cm cn
    using that s' pins_inv_inj [OF inv] by simp
qed

lemma put_total:
  assumes o: "owners_inv holds s" and inv: "pins_inv s" and pid: "pid_inv ext s" and ctx: "xl_ctxs s c = Some ctx"
    and ref: "mc_ref ctx \<noteq> 0" and last_ref: "mc_ref ctx = 1 \<Longrightarrow> mc_mappings ctx = []"
  obtains s' where "host1x_memory_context_put c s = Some s'" and "pins_inv s'" and "pid_inv ext s'"
proof (cases "mc_ref ctx = 1")
  case False
  let ?s = "set_ctx c (ctx\<lparr>mc_ref := mc_ref ctx - 1\<rparr>) s"
  have run: "host1x_memory_context_put c s = Some ?s" using ctx ref False by (simp add: host1x_memory_context_put_def)
  have "pins_inv ?s" by (rule pins_inv_ctx [OF inv ctx]) simp_all
  moreover have "pid_inv ext ?s" by (rule pid_inv_same [OF pid]) (use ctx in \<open>auto simp: same_pids_def\<close>)
  ultimately show thesis using that run by blast
next
  case last: True
  obtain s1 where s1: "(case mc_hw ctx of None \<Rightarrow> Some s
      | Some h \<Rightarrow> host1x_memory_context_hw_put h (upd_hw h (\<lambda>w. w\<lparr>hc_owners := remove1 c (hc_owners w)\<rparr>) s)) = Some s1"
      and pid1: "pid_inv ext s1" and same: "same_maps s s1"
  proof (cases "mc_hw ctx")
    case None
    then show thesis using that pid by (simp add: same_maps_def)
  next
    case (Some h)
    have lt: "h < length (xl_devs s)" using o ctx Some unfolding owners_inv_def by blast
    let ?s = "upd_hw h (\<lambda>w. w\<lparr>hc_owners := remove1 c (hc_owners w)\<rparr>) s"
    have "pid_inv ext ?s" by (rule pid_inv_same [OF pid]) (use lt in \<open>simp_all add: same_pids_def map_update list_update_same_conv\<close>)
    moreover have "c \<in> set (hc_owners (xl_devs s ! h))" using owners_invD [OF o lt] ctx Some by (auto simp: hw_ok_def on_hw_def)
    then have "hc_ref (xl_devs ?s ! h) \<noteq> 0" using owners_invD [OF o lt] lt by (auto simp: hw_ok_def)
    ultimately obtain s1 where s1: "host1x_memory_context_hw_put h ?s = Some s1" "pid_inv ext s1"
      using hw_put_pid [of ext ?s h] lt by auto
    then show thesis using that Some hw_put_frame [OF s1(1)] by (simp add: same_maps_def)
  qed
  let ?p = "mc_pid ctx"
  have ctx1: "xl_ctxs s1 c = Some ctx" using same ctx by (simp add: same_maps_def)
  let ?set = "\<lambda>f q. {d. map_option mc_pid (f d) = Some q}"
  have mem: "?set (xl_ctxs s1) q = (if q = ?p then insert c (?set ((xl_ctxs s1)(c := None)) q) else ?set ((xl_ctxs s1)(c := None)) q)" for q
    using ctx1 by (auto simp: map_option_eq_Some)
  have fin: "finite (?set ((xl_ctxs s1)(c := None)) q)" for q
  proof (rule finite_subset)
    show "?set ((xl_ctxs s1)(c := None)) q \<subseteq> dom (xl_ctxs s1)" by (auto simp: map_option_eq_Some split: if_splits)
  qed (use pid1 in \<open>simp add: pid_inv_def\<close>)
  have card: "card (?set (xl_ctxs s1) q) = card (?set ((xl_ctxs s1)(c := None)) q) + (if q = ?p then 1 else 0)" for q
    unfolding mem using fin by (simp add: card_insert_if)
  let ?s2 = "s1\<lparr>xl_pid_ref := (xl_pid_ref s1)(?p := xl_pid_ref s1 ?p - 1)\<rparr>"
  let ?s3 = "?s2\<lparr>xl_ctxs := (xl_ctxs ?s2)(c := None)\<rparr>"
  have users: "pid_users s1 q = pid_users ?s3 q + (if q = ?p then 1 else 0)" for q
    using card [of q] by (simp add: pid_users_def)
  have ref1: "xl_pid_ref s1 q = ext q + pid_users s1 q" for q using pid1 by (simp add: pid_inv_def)
  have "put_pid (Some ?p) s1 = Some ?s2" using ref1 [of ?p] users [of ?p] by simp
  then have run: "host1x_memory_context_put c s = Some ?s3"
    using ctx last s1 by (simp add: host1x_memory_context_put_def del: put_pid.simps)
  have "pid_inv ext ?s3"
    unfolding pid_inv_def
  proof (intro conjI allI)
    show "finite (dom (xl_ctxs ?s3))" using pid1 by (simp add: pid_inv_def)
    show "xl_pid_ref ?s3 q = ext q + pid_users ?s3 q" for q using ref1 [of q] users [of q] by (cases "q = ?p") simp_all
  qed
  moreover have "pins_inv ?s3"
  proof -
    have "pins_inv s1" by (rule pins_inv_same [OF inv same])
    moreover have "cm_ctx cm \<noteq> c" if m: "xl_maps s1 m = Some cm" for m cm
    proof
      assume "cm_ctx cm = c"
      moreover obtain x where "xl_ctxs s1 (cm_ctx cm) = Some x" "m \<in> set (mc_mappings x)" by (rule pins_inv_map [OF \<open>pins_inv s1\<close> m])
      ultimately show False using ctx1 last_ref [OF last] by simp
    qed
    ultimately show ?thesis unfolding pins_inv_def map_ok_def by (auto split: if_splits)
  qed
  ultimately show thesis using that run by blast
qed

section \<open>Reachable states\<close>

definition context_full_inv :: "(nat \<Rightarrow> nat) \<Rightarrow> context_config \<Rightarrow> bool" where
  "context_full_inv ext g \<longleftrightarrow> context_inv g \<and> pins_inv (cg_list g) \<and> pid_inv ext (cg_list g)"

lemma alloc_keeps:
  assumes inv: "pins_inv s" and pid: "pid_inv ext s" and new: "case k of Some c \<Rightarrow> xl_ctxs s c = None | None \<Rightarrow> True"
  shows "pins_inv (snd (host1x_memory_context_alloc k dev p s)) \<and> pid_inv ext (snd (host1x_memory_context_alloc k dev p s))"
proof (cases "xl_devs s = [] \<or> k = None")
  case True
  then show ?thesis using inv pid by (auto simp: host1x_memory_context_alloc_def)
next
  case False
  then obtain c where k: "k = Some c" and c: "xl_ctxs s c = None" using new by auto
  let ?ctx = "\<lparr>mc_ref = 1, mc_pid = p, mc_dev = dev, mc_hw = None, mc_context_dev = None, mc_mappings = []\<rparr>"
  define s' where "s' = set_ctx c ?ctx (get_pid p s)"
  have s': "xl_ctxs s' = (xl_ctxs s)(c \<mapsto> ?ctx)" "xl_maps s' = xl_maps s" "xl_pins s' = xl_pins s" "xl_next s' = xl_next s" "xl_devs s' = xl_devs s"
      "xl_pid_ref s' = (xl_pid_ref s)(p := xl_pid_ref s p + 1)"
    by (simp_all add: s'_def get_pid_def)
  have "pins_inv s'"
  proof (rule pins_invI)
    show "distinct (mc_mappings x)" if "xl_ctxs s' d = Some x" for d x
      using that s' pins_inv_distinct [OF inv] by (auto split: if_splits)
    show "\<exists>cm. xl_maps s' m = Some cm \<and> cm_ctx cm = d" if x: "xl_ctxs s' d = Some x" "m \<in> set (mc_mappings x)" for d x m
    proof -
      have y: "xl_ctxs s d = Some x" using x s' by (auto split: if_splits)
      obtain cm where "xl_maps s m = Some cm" "cm_ctx cm = d" by (rule pins_inv_mapped [OF inv y x(2)])
      then show ?thesis using s' by simp
    qed
    show "map_ok s' m cm" if m: "xl_maps s' m = Some cm" for m cm
    proof -
      have m0: "xl_maps s m = Some cm" using m s' by simp
      obtain x where x: "xl_ctxs s (cm_ctx cm) = Some x" "m \<in> set (mc_mappings x)" "mc_hw x = None \<longrightarrow> cm_mapping cm = None"
          "\<forall>h. mc_hw x = Some h \<longrightarrow> (\<exists>p. cm_mapping cm = Some p \<and> xl_pins s p = Some (h, cm_bo cm))"
        by (rule pins_inv_map [OF inv m0])
      then have "cm_ctx cm \<noteq> c" using c by auto
      then show ?thesis using x s' unfolding map_ok_def by simp
    qed
    show "q < xl_next s'" if "xl_pins s' q = Some hb" for q hb using that s' pins_inv_lt [OF inv] by simp
    show "\<exists>m cm. xl_maps s' m = Some cm \<and> cm_mapping cm = Some q" if q: "xl_pins s' q = Some hb" for q hb
    proof -
      have q0: "xl_pins s q = Some hb" using q s' by simp
      show ?thesis by (rule pins_inv_pin [OF inv q0]) (use s' in auto)
    qed
    show "m = n" if "xl_maps s' m = Some cm" "xl_maps s' n = Some cn" "cm_mapping cm \<noteq> None" "cm_mapping cm = cm_mapping cn" for m n cm cn
      using that s' pins_inv_inj [OF inv] by simp
  qed
  moreover have "pid_users s' q = pid_users s q + (if q = p then 1 else 0)" for q
  proof -
    let ?set = "{d. map_option mc_pid (xl_ctxs s d) = Some q}"
    have set: "{d. map_option mc_pid (xl_ctxs s' d) = Some q} = (if q = p then insert c ?set else ?set)" using c s' by auto
    have fin: "finite ?set"
    proof (rule finite_subset)
      show "?set \<subseteq> dom (xl_ctxs s)" by (auto simp: map_option_eq_Some)
    qed (use pid in \<open>simp add: pid_inv_def\<close>)
    have "c \<notin> ?set" using c by simp
    then have "card {d. map_option mc_pid (xl_ctxs s' d) = Some q} = card ?set + (if q = p then 1 else 0)"
      unfolding set using card_insert_disjoint [OF fin] by (cases "q = p") (simp_all del: map_option_eq_Some)
    then show ?thesis using s'(5) by (simp add: pid_users_def)
  qed
  then have "pid_inv ext s'" using pid s' by (simp add: pid_inv_def)
  ultimately show ?thesis using False k by (simp add: host1x_memory_context_alloc_def s'_def)
qed

text \<open>Every permitted operation goes through and keeps everything.\<close>

lemma full_step:
  assumes env: "pins_succeed env" and inv: "context_full_inv ext g" and perm: "permitted op g"
  shows "\<exists>g'. exec env op g = Some g' \<and> context_full_inv ext g'"
proof -
  obtain s holds where g: "g = \<lparr>cg_list = s, cg_holds = holds\<rparr>" by (cases g)
  have c: "context_inv g" and o: "owners_inv holds s" and w: "waiters_inv s" and pins: "pins_inv s" and pid: "pid_inv ext s"
    using inv by (simp_all add: g context_full_inv_def context_inv_def)
  have "\<exists>g'. exec env op g = Some g' \<and> pins_inv (cg_list g') \<and> pid_inv ext (cg_list g')"
  proof (cases op)
    case (Ctx_alloc k dev p)
    then show ?thesis using alloc_keeps [OF pins pid, of k dev p] perm by (simp add: g split: option.splits)
  next
    case (Ctx_get d)
    then obtain ctx where ctx: "xl_ctxs s d = Some ctx" using perm by (auto simp: g)
    let ?s = "set_ctx d (ctx\<lparr>mc_ref := mc_ref ctx + 1\<rparr>) s"
    have "pins_inv ?s" by (rule pins_inv_ctx [OF pins ctx]) simp_all
    moreover have "pid_inv ext ?s" by (rule pid_inv_same [OF pid]) (use ctx in \<open>auto simp: same_pids_def\<close>)
    ultimately show ?thesis using Ctx_get ctx by (simp add: g host1x_memory_context_get_def)
  next
    case (Ctx_put d)
    then obtain ctx where ctx: "xl_ctxs s d = Some ctx" "mc_ref ctx \<noteq> 0" "mc_ref ctx = 1 \<Longrightarrow> mc_mappings ctx = []"
      using perm by (auto simp: g split: option.splits)
    show ?thesis by (rule put_total [OF o pins pid ctx]) (simp_all add: Ctx_put g)
  next
    case (Ctx_map k d bo dir)
    have "xl_ctxs s d \<noteq> None" "case k of Some m \<Rightarrow> xl_maps s m = None | None \<Rightarrow> True"
      using perm by (auto simp: Ctx_map g split: option.splits)
    then show ?thesis by (rule map_total [OF env pins pid, where bo = bo and dir = dir]) (simp add: Ctx_map g)
  next
    case (Ctx_unmap m)
    then obtain cm where "xl_maps s m = Some cm" using perm by (auto simp: g)
    then show ?thesis by (rule unmap_total [OF pins pid]) (simp add: Ctx_unmap g)
  next
    case (Ctx_active d)
    then have "xl_ctxs s d \<noteq> None" using perm by (simp add: g)
    then show ?thesis by (rule active_total [OF env o pins pid]) (simp add: Ctx_active g active_result_def)
  next
    case (Ctx_woken i)
    let ?s = "s\<lparr>xl_waiters := take i (xl_waiters s) @ drop (i + 1) (xl_waiters s)\<rparr>"
    have i: "i < length (xl_waiters s)" using perm by (simp add: Ctx_woken g)
    have o': "owners_inv holds ?s" using o by (simp add: owners_inv_def)
    have pins': "pins_inv ?s" by (rule pins_inv_same [OF pins]) (simp add: same_maps_def)
    have pid': "pid_inv ext ?s" by (rule pid_inv_same [OF pid]) (simp_all add: same_pids_def)
    obtain ctx where "xl_ctxs s (wt_ctx (xl_waiters s ! i)) = Some ctx" using w nth_mem [OF i] unfolding waiters_inv_def by blast
    then have ctx: "xl_ctxs ?s (wt_ctx (xl_waiters s ! i)) \<noteq> None" by simp
    show ?thesis
    proof (cases "wt_done (xl_waiters s ! i)")
      case True
      show ?thesis
        by (rule active_total [OF env o' pins' pid' ctx])
          (use True in \<open>simp add: Ctx_woken g host1x_memory_context_active_woken_def Let_def active_result_def\<close>)
    next
      case False
      then show ?thesis using pins' pid' by (simp add: Ctx_woken g host1x_memory_context_active_woken_def Let_def active_result_def)
    qed
  next
    case (Ctx_inactive d)
    then have "0 < holds d" using perm by (simp add: g)
    then obtain h s' where h: "h < length (xl_devs s)" and run: "host1x_memory_context_inactive d s = Some s'"
        and s': "s' = (upd_hw h (\<lambda>w. w\<lparr>hc_active := hc_active w - 1\<rparr>) s)\<lparr>xl_waiters := if hc_active (xl_devs s ! h) = 1
          then map (\<lambda>w. if hc_iommu (xl_devs s ! h) = wt_dev w then w\<lparr>wt_done := True\<rparr> else w) (xl_waiters s) else xl_waiters s\<rparr>"
      by (rule inactive_owners [OF o]) blast
    have "pins_inv s'" by (rule pins_inv_same [OF pins]) (simp add: same_maps_def s')
    moreover have "pid_inv ext s'"
      by (rule pid_inv_same [OF pid]) (use h in \<open>simp_all add: same_pids_def s' map_update list_update_same_conv\<close>)
    ultimately show ?thesis using run by (simp add: Ctx_inactive g)
  qed
  then show ?thesis using context_step_inv [OF c perm] by (auto simp: context_full_inv_def)
qed

lemma full_reachable:
  assumes "context_reachable env pids g" and env: "pins_succeed env"
  shows "context_full_inv pids g"
  using assms(1)
proof (induction rule: context_reachable.induct)
  case (start cells kcalloc dev r devs)
  have "\<forall>w \<in> set devs. hc_owner w = None" using list_init_fresh [OF start] by blast
  then have "count_list (map hc_owner devs) (Some p) = 0" for p by (auto simp: count_list_0_iff)
  then show ?case using context_start_inv [OF start]
    by (simp add: context_full_inv_def context_start_def pins_inv_def pid_inv_def pid_users_def)
next
  case (step g op g')
  then show ?case using full_step [OF env step.IH step.hyps(2)] by simp
qed

text \<open>C15:
  As long as no attempt to pin a buffer fails, nothing the clients may do follows a dangling pointer or unpins a buffer twice; the
  pinned buffers are exactly those of the mappings whose context has a hardware context, each pinned once and
  there; and the references of a process identifier are those of the contexts and hardware contexts of the process.
\<close>

theorem context_pins_exact:
  assumes "context_reachable env pids g" and "\<forall>n. env n = None"
  shows "(\<forall>op. permitted op g \<longrightarrow> exec env op g \<noteq> None) \<and>
    (\<forall>p h b. xl_pins (cg_list g) p = Some (h, b) \<longleftrightarrow>
      (\<exists>m cm ctx. xl_maps (cg_list g) m = Some cm \<and> cm_mapping cm = Some p \<and> cm_bo cm = b \<and>
         xl_ctxs (cg_list g) (cm_ctx cm) = Some ctx \<and> mc_hw ctx = Some h)) \<and>
    (\<forall>m cm ctx. xl_maps (cg_list g) m = Some cm \<and> xl_ctxs (cg_list g) (cm_ctx cm) = Some ctx \<longrightarrow>
      (cm_mapping cm = None \<longleftrightarrow> mc_hw ctx = None)) \<and>
    (\<forall>m n cm cn. xl_maps (cg_list g) m = Some cm \<and> xl_maps (cg_list g) n = Some cn \<and> cm_mapping cm \<noteq> None \<and>
      cm_mapping cm = cm_mapping cn \<longrightarrow> m = n) \<and>
    (\<forall>p. xl_pid_ref (cg_list g) p = pids p + card {c. map_option mc_pid (xl_ctxs (cg_list g) c) = Some p} +
      count_list (map hc_owner (xl_devs (cg_list g))) (Some p))"
proof (intro conjI)
  let ?s = "cg_list g"
  have full: "context_full_inv pids g" using full_reachable assms by blast
  then have inv: "pins_inv ?s" and pid: "pid_inv pids ?s" by (simp_all add: context_full_inv_def)
  show "\<forall>op. permitted op g \<longrightarrow> exec env op g \<noteq> None" using full_step [OF assms(2) full] by fastforce
  have live: "\<exists>ctx. xl_ctxs ?s (cm_ctx cm) = Some ctx \<and> (mc_hw ctx = None \<longrightarrow> cm_mapping cm = None) \<and>
      (\<forall>h. mc_hw ctx = Some h \<longrightarrow> (\<exists>p. cm_mapping cm = Some p \<and> xl_pins ?s p = Some (h, cm_bo cm)))" if m: "xl_maps ?s m = Some cm" for m cm
  proof -
    obtain ctx where "xl_ctxs ?s (cm_ctx cm) = Some ctx" "m \<in> set (mc_mappings ctx)" "mc_hw ctx = None \<longrightarrow> cm_mapping cm = None"
        "\<forall>h. mc_hw ctx = Some h \<longrightarrow> (\<exists>p. cm_mapping cm = Some p \<and> xl_pins ?s p = Some (h, cm_bo cm))"
      by (rule pins_inv_map [OF inv m])
    then show ?thesis by (intro exI conjI)
  qed
  show "\<forall>p h b. xl_pins ?s p = Some (h, b) \<longleftrightarrow> (\<exists>m cm ctx. xl_maps ?s m = Some cm \<and> cm_mapping cm = Some p \<and> cm_bo cm = b \<and>
      xl_ctxs ?s (cm_ctx cm) = Some ctx \<and> mc_hw ctx = Some h)"
  proof (intro allI iffI)
    fix p h b
    assume p: "xl_pins ?s p = Some (h, b)"
    obtain m cm where m: "xl_maps ?s m = Some cm" "cm_mapping cm = Some p" by (rule pins_inv_pin [OF inv p])
    obtain ctx where ctx: "xl_ctxs ?s (cm_ctx cm) = Some ctx" "mc_hw ctx = None \<longrightarrow> cm_mapping cm = None"
        "\<forall>h. mc_hw ctx = Some h \<longrightarrow> (\<exists>p. cm_mapping cm = Some p \<and> xl_pins ?s p = Some (h, cm_bo cm))"
      using live [OF m(1)] by (elim exE conjE) (rule that)
    then have "mc_hw ctx = Some h \<and> cm_bo cm = b" using m(2) p by (cases "mc_hw ctx") auto
    then show "\<exists>m cm ctx. xl_maps ?s m = Some cm \<and> cm_mapping cm = Some p \<and> cm_bo cm = b \<and>
        xl_ctxs ?s (cm_ctx cm) = Some ctx \<and> mc_hw ctx = Some h"
      using m ctx(1) by blast
  next
    fix p h b
    assume "\<exists>m cm ctx. xl_maps ?s m = Some cm \<and> cm_mapping cm = Some p \<and> cm_bo cm = b \<and>
        xl_ctxs ?s (cm_ctx cm) = Some ctx \<and> mc_hw ctx = Some h"
    then obtain m cm ctx where m: "xl_maps ?s m = Some cm" "cm_mapping cm = Some p" "cm_bo cm = b" "xl_ctxs ?s (cm_ctx cm) = Some ctx" "mc_hw ctx = Some h"
      by blast
    then show "xl_pins ?s p = Some (h, b)" using live [OF m(1)] by auto
  qed
  show "\<forall>m cm ctx. xl_maps ?s m = Some cm \<and> xl_ctxs ?s (cm_ctx cm) = Some ctx \<longrightarrow> (cm_mapping cm = None \<longleftrightarrow> mc_hw ctx = None)"
  proof (intro allI impI)
    fix m cm ctx
    assume m: "xl_maps ?s m = Some cm \<and> xl_ctxs ?s (cm_ctx cm) = Some ctx"
    show "cm_mapping cm = None \<longleftrightarrow> mc_hw ctx = None" using live [of m cm] m by (cases "mc_hw ctx") auto
  qed
  show "\<forall>m n cm cn. xl_maps ?s m = Some cm \<and> xl_maps ?s n = Some cn \<and> cm_mapping cm \<noteq> None \<and>
      cm_mapping cm = cm_mapping cn \<longrightarrow> m = n"
    using pins_inv_inj [OF inv] by blast
  show "\<forall>p. xl_pid_ref ?s p = pids p + card {c. map_option mc_pid (xl_ctxs ?s c) = Some p} + count_list (map hc_owner (xl_devs ?s)) (Some p)"
    using pid by (simp add: pid_inv_def pid_users_def)
qed

lemma context_pins_exact_witness:
  "\<exists>g m cm ctx. run_ops (\<lambda>_. None) two_processes (context_start one_hw (\<lambda>_. 1)) = Some g \<and> xl_pins (cg_list g) 0 = Some (0, 5) \<and>
     xl_maps (cg_list g) m = Some cm \<and> cm_bo cm = 5 \<and> xl_ctxs (cg_list g) (cm_ctx cm) = Some ctx \<and> mc_hw ctx = Some 0"
proof -
  obtain g where g: "run_ops (\<lambda>_. None) two_processes (context_start one_hw (\<lambda>_. 1)) = Some g" "xl_pins (cg_list g) 0 = Some (0, 5)"
    by (simp add: run_simps)
  show ?thesis using context_pins_exact [OF context_run_reachable [OF g(1) one_hw_reachable]] g by blast
qed

text \<open>
  Two buffers in a context that gets a hardware context: the buffer mapped last is pinned first, the other one cannot be
  pinned.  The error path unpins the first, but its mapping keeps the pointer.
\<close>

definition half_pinned :: "context_op list" where
  "half_pinned = [Ctx_alloc (Some 1) 3 7, Ctx_map (Some 1) 1 5 DMA_TO_DEVICE, Ctx_map (Some 2) 1 6 DMA_TO_DEVICE, Ctx_active 1]"

text \<open>C17:
  When a hardware context cannot be taken because a buffer cannot be pinned, the buffers pinned before it are unpinned but not
  forgotten: unmapping one of them unpins it a second time, in a state that the clients reach by what they may do.
\<close>

theorem context_double_unpin:
  "\<exists>g. run_ops (\<lambda>n. if n = 1 then Some ENOMEM else None) half_pinned (context_start one_hw (\<lambda>_. 1)) = Some g \<and>
     xl_pins (cg_list g) = Map.empty \<and> permitted (Ctx_unmap 2) g \<and> host1x_memory_context_unmap 2 (cg_list g) = None"
  by (simp add: run_simps half_pinned_def host1x_memory_context_hw_put_def host1x_memory_context_unmap_def)

end
