(* ===== verification/Drm_Firewall.thy ===== *)
theory Drm_Firewall imports Host1x_Channel begin

text \<open>
  The firewall of the Tegra DRM driver (\<open>drivers/gpu/drm/tegra/firewall.c\<close>): it reads the words of a
  gather as the host1x hardware will and rejects it unless the classes are valid and every address
  register is written with an address inside a mapping of the job.  The callbacks of the client are
  functions (\<open>None\<close> for a null pointer).  A read outside of the gather data is the value \<open>None\<close>.
\<close>

section \<open>Clients, mappings and the state of the firewall\<close>

record tegra_drm_client =
  cl_class :: u32
  cl_is_addr_reg :: "(u32 \<Rightarrow> u32 \<Rightarrow> bool) option"
  cl_is_valid_class :: "(u32 \<Rightarrow> bool) option"

text \<open>\<open>m_bo_map\<close>, \<open>m_ctx_map\<close>: the address of the pinned buffer or of the mapping in the memory context.\<close>

record tegra_drm_mapping =
  m_ref :: nat
  m_bo_map :: "u64 option"
  m_ctx_map :: "u64 option"
  m_bo :: nat
  m_iova :: u64
  m_iova_end :: u64

record tegra_drm_firewall =
  fw_submit :: "tegra_drm_mapping list"
  fw_client :: tegra_drm_client
  fw_data :: "u32 list"
  fw_pos :: u32
  fw_end :: u32
  fw_class :: u32

section \<open>The checks\<close>

definition fw_next :: "tegra_drm_firewall \<Rightarrow> ((errno + u32) \<times> tegra_drm_firewall) option" where
  "fw_next fw =
     (if fw_pos fw = fw_end fw then Some (Inl EINVAL, fw)
      else if length (fw_data fw) \<le> unat (fw_pos fw) then None
      else Some (Inr (fw_data fw ! unat (fw_pos fw)), fw\<lparr>fw_pos := fw_pos fw + 1\<rparr>))"

definition fw_check_addr_valid :: "tegra_drm_firewall \<Rightarrow> u32 \<Rightarrow> bool" where
  "fw_check_addr_valid fw offset \<longleftrightarrow> list_ex (\<lambda>m. m_iova m \<le> ucast offset \<and> ucast offset \<le> m_iova_end m) (fw_submit fw)"

definition fw_check_reg :: "u32 \<Rightarrow> tegra_drm_firewall \<Rightarrow> ((errno + unit) \<times> tegra_drm_firewall) option" where
  "fw_check_reg offset fw =
     (case fw_next fw of
        None \<Rightarrow> None
      | Some (Inl e, fw) \<Rightarrow> Some (Inl e, fw)
      | Some (Inr word, fw) \<Rightarrow>
          Some (case cl_is_addr_reg (fw_client fw) of
                  None \<Rightarrow> Inr ()
                | Some is_addr_reg \<Rightarrow>
                    if \<not> is_addr_reg (fw_class fw) offset then Inr ()
                    else if \<not> fw_check_addr_valid fw word then Inl EINVAL
                    else Inr (), fw))"

fun fw_check_regs_seq :: "u32 \<Rightarrow> nat \<Rightarrow> bool \<Rightarrow> tegra_drm_firewall \<Rightarrow> ((errno + unit) \<times> tegra_drm_firewall) option" where
  "fw_check_regs_seq offset 0 incr fw = Some (Inr (), fw)"
| "fw_check_regs_seq offset (Suc count) incr fw =
     (case fw_check_reg offset fw of
        None \<Rightarrow> None
      | Some (Inl _, fw) \<Rightarrow> Some (Inl EINVAL, fw)
      | Some (Inr _, fw) \<Rightarrow> fw_check_regs_seq (if incr then offset + 1 else offset) count incr fw)"

fun fw_check_bits :: "u32 \<Rightarrow> nat list \<Rightarrow> tegra_drm_firewall \<Rightarrow> ((errno + unit) \<times> tegra_drm_firewall) option" where
  "fw_check_bits offset [] fw = Some (Inr (), fw)"
| "fw_check_bits offset (b # bs) fw =
     (case fw_check_reg (offset + of_nat b) fw of
        None \<Rightarrow> None
      | Some (Inl _, fw) \<Rightarrow> Some (Inl EINVAL, fw)
      | Some (Inr _, fw) \<Rightarrow> fw_check_bits offset bs fw)"

definition fw_check_regs_mask :: "u32 \<Rightarrow> u16 \<Rightarrow> tegra_drm_firewall \<Rightarrow> ((errno + unit) \<times> tegra_drm_firewall) option" where
  "fw_check_regs_mask offset msk fw = fw_check_bits offset (filter (bit msk) [0..<16]) fw"

definition fw_check_regs_imm :: "u32 \<Rightarrow> tegra_drm_firewall \<Rightarrow> errno + unit" where
  "fw_check_regs_imm offset fw =
     (case cl_is_addr_reg (fw_client fw) of
        None \<Rightarrow> Inr ()
      | Some is_addr_reg \<Rightarrow> if is_addr_reg (fw_class fw) offset then Inl EINVAL else Inr ())"

definition fw_check_class :: "u32 \<Rightarrow> tegra_drm_firewall \<Rightarrow> errno + unit" where
  "fw_check_class cls fw =
     (case cl_is_valid_class (fw_client fw) of
        None \<Rightarrow> if cls = cl_class (fw_client fw) then Inr () else Inl EINVAL
      | Some is_valid_class \<Rightarrow> if is_valid_class cls then Inr () else Inl EINVAL)"

text \<open>One turn of the loop behind the fetch of \<open>word\<close>; \<open>payload\<close> is \<open>None\<close> while \<open>payload_valid\<close> is false.\<close>

definition fw_opcode ::
  "u32 \<Rightarrow> u32 option \<Rightarrow> tegra_drm_firewall \<Rightarrow> ((errno + u32 option) \<times> tegra_drm_firewall) option" where
  "fw_opcode word payload fw =
     (let opcode = drop_bit 28 (word AND 0xf0000000);
          offset = drop_bit 16 word AND 0xfff;
          keep = map_option (\<lambda>(r, fw). (map_sum id (\<lambda>_. payload) r, fw))
      in if opcode = 0 then
           let msk = word AND 0x3f; cls = drop_bit 6 word AND 0x3ff; err = fw_check_class cls fw;
               fw = fw\<lparr>fw_class := cls\<rparr>
           in (case err of Inl e \<Rightarrow> Some (Inl e, fw) | Inr _ \<Rightarrow> keep (fw_check_regs_mask offset (ucast msk) fw))
         else if opcode = 1 then keep (fw_check_regs_seq offset (unat (word AND 0xffff)) True fw)
         else if opcode = 2 then keep (fw_check_regs_seq offset (unat (word AND 0xffff)) False fw)
         else if opcode = 3 then keep (fw_check_regs_mask offset (ucast (word AND 0xffff)) fw)
         else if opcode = 4 then keep (Some (fw_check_regs_imm offset fw, fw))
         else if opcode = 9 then Some (Inr (Some (word AND 0xffff)), fw)
         else if opcode = 0xa \<or> opcode = 0xb then
           (case payload of
              None \<Rightarrow> Some (Inl EINVAL, fw)
            | Some count \<Rightarrow> keep (fw_check_regs_seq (word AND 0x3fffff) (unat count) (opcode = 0xa) fw))
         else Some (Inl EINVAL, fw))"

section \<open>Termination\<close>

text \<open>Words still to be read.\<close>

definition fw_left :: "tegra_drm_firewall \<Rightarrow> nat" where
  "fw_left fw = unat (fw_end fw - fw_pos fw)"

lemma fw_next_left: "fw_next fw = Some (r, fw') \<Longrightarrow> fw_left fw' \<le> fw_left fw \<and> (isl r \<or> fw_left fw' < fw_left fw)"
proof -
  assume a: "fw_next fw = Some (r, fw')"
  have "fw_pos fw = fw_end fw \<or> unat (fw_end fw - (fw_pos fw + 1)) < unat (fw_end fw - fw_pos fw)"
  proof (cases "fw_pos fw = fw_end fw")
    case False
    then have "fw_end fw - fw_pos fw \<noteq> 0" by simp
    then have "unat (fw_end fw - fw_pos fw - 1) < unat (fw_end fw - fw_pos fw)" by (simp add: measure_unat)
    then show ?thesis by (simp add: diff_diff_add)
  qed simp
  then show ?thesis using a by (auto simp: fw_next_def fw_left_def split: if_splits)
qed

lemma fw_check_reg_left: "fw_check_reg r fw = Some (e, fw') \<Longrightarrow> fw_left fw' \<le> fw_left fw"
  by (auto simp: fw_check_reg_def split: option.splits sum.splits prod.splits dest: fw_next_left)

lemma fw_check_regs_seq_left: "fw_check_regs_seq r n incr fw = Some (e, fw') \<Longrightarrow> fw_left fw' \<le> fw_left fw"
  by (induction n arbitrary: r fw) (fastforce split: option.splits sum.splits prod.splits dest!: fw_check_reg_left)+

lemma fw_check_bits_left: "fw_check_bits r bs fw = Some (e, fw') \<Longrightarrow> fw_left fw' \<le> fw_left fw"
  by (induction bs arbitrary: fw) (fastforce split: option.splits sum.splits prod.splits dest!: fw_check_reg_left)+

lemma fw_left_class [simp]: "fw_left (fw\<lparr>fw_class := c\<rparr>) = fw_left fw"
  by (simp add: fw_left_def)

lemma fw_opcode_left: "fw_opcode w p fw = Some (e, fw') \<Longrightarrow> fw_left fw' \<le> fw_left fw"
  by (auto simp: fw_opcode_def Let_def fw_check_regs_mask_def split: if_splits sum.splits option.splits
      dest: fw_check_regs_seq_left fw_check_bits_left)

function fw_loop :: "u32 option \<Rightarrow> tegra_drm_firewall \<Rightarrow> ((errno + unit) \<times> tegra_drm_firewall) option" where
  "fw_loop payload fw =
     (if fw_pos fw = fw_end fw then Some (Inr (), fw)
      else case fw_next fw of
             None \<Rightarrow> None
           | Some (Inl e, fw) \<Rightarrow> Some (Inl e, fw)
           | Some (Inr word, fw) \<Rightarrow>
               (case fw_opcode word payload fw of
                  None \<Rightarrow> None
                | Some (Inl e, fw) \<Rightarrow> Some (Inl e, fw)
                | Some (Inr payload, fw) \<Rightarrow> fw_loop payload fw))"
  by pat_completeness auto
termination
  by (relation "measure (\<lambda>(payload, fw). fw_left fw)") (auto dest!: fw_next_left fw_opcode_left)

declare fw_loop.simps [simp del]

text \<open>The verdict and the class that is in force behind the gather.\<close>

definition tegra_drm_fw_validate ::
  "tegra_drm_client \<Rightarrow> u32 list \<Rightarrow> u32 \<Rightarrow> u32 \<Rightarrow> tegra_drm_mapping list \<Rightarrow> u32 \<Rightarrow> ((errno + unit) \<times> u32) option" where
  "tegra_drm_fw_validate client data start words submit job_class =
     map_option (\<lambda>(r, fw). (r, fw_class fw))
       (fw_loop None \<lparr>fw_submit = submit, fw_client = client, fw_data = data, fw_pos = start, fw_end = start + words,
          fw_class = job_class\<rparr>)"

section \<open>The command stream\<close>

text \<open>
  What the words mean, instruction by instruction: the registers an instruction writes with the words
  that follow it.  The model of the hardware the firewall is compared with.
\<close>

datatype fw_event =
    Register_write u32 u32 u32 \<comment> \<open>class, register, value\<close>
  | Immediate_write u32 u32 \<comment> \<open>class, register\<close>
  | Class_change u32

definition written_registers :: "u32 \<Rightarrow> u32 option \<Rightarrow> u32 list option" where
  "written_registers w payload =
     (let base = drop_bit 16 w AND 0xfff; n = unat (w AND 0xffff); opcode = drop_bit 28 w
      in if opcode = 0 then Some (map (\<lambda>i. base + of_nat i) (filter (bit w) [0..<6]))
         else if opcode = 1 then Some (map (\<lambda>i. base + of_nat i) [0..<n])
         else if opcode = 2 then Some (replicate n base)
         else if opcode = 3 then Some (map (\<lambda>i. base + of_nat i) (filter (bit w) [0..<16]))
         else if opcode = 4 \<or> opcode = 9 then Some []
         else if opcode = 0xa then map_option (\<lambda>p. map (\<lambda>i. (w AND 0x3fffff) + of_nat i) [0..<unat p]) payload
         else if opcode = 0xb then map_option (\<lambda>p. replicate (unat p) (w AND 0x3fffff)) payload
         else None)"

definition word_class :: "u32 \<Rightarrow> u32 \<Rightarrow> u32" where
  "word_class w cls = (if drop_bit 28 w = 0 then drop_bit 6 w AND 0x3ff else cls)"

definition word_payload :: "u32 \<Rightarrow> u32 option \<Rightarrow> u32 option" where
  "word_payload w payload = (if drop_bit 28 w = 9 then Some (w AND 0xffff) else payload)"

definition word_events :: "u32 \<Rightarrow> u32 \<Rightarrow> fw_event list" where
  "word_events w cls =
     (if drop_bit 28 w = 0 then [Class_change (word_class w cls)]
      else if drop_bit 28 w = 4 then [Immediate_write cls (drop_bit 16 w AND 0xfff)]
      else [])"

text \<open>The events of a list of words and the class behind it; \<open>None\<close> if an instruction is not known or cut off.\<close>

function decode :: "u32 option \<Rightarrow> u32 \<Rightarrow> u32 list \<Rightarrow> (fw_event list \<times> u32) option" where
  "decode payload cls [] = Some ([], cls)"
| "decode payload cls (w # ws) =
     (case written_registers w payload of
        None \<Rightarrow> None
      | Some regs \<Rightarrow>
          if length ws < length regs then None
          else map_option (\<lambda>(es, c). (word_events w cls @ map2 (Register_write (word_class w cls)) regs ws @ es, c))
                 (decode (word_payload w payload) (word_class w cls) (drop (length regs) ws)))"
  by pat_completeness auto
termination
  by (relation "measure (\<lambda>(payload, cls, ws). length ws)") auto

definition is_addr :: "tegra_drm_client \<Rightarrow> u32 \<Rightarrow> u32 \<Rightarrow> bool" where
  "is_addr client cls reg \<longleftrightarrow> (case cl_is_addr_reg client of None \<Rightarrow> False | Some f \<Rightarrow> f cls reg)"

definition class_ok :: "tegra_drm_client \<Rightarrow> u32 \<Rightarrow> bool" where
  "class_ok client cls \<longleftrightarrow> (case cl_is_valid_class client of None \<Rightarrow> cls = cl_class client | Some f \<Rightarrow> f cls)"

text \<open>A mapping ends in front of its iova_end (tegra_drm_ioctl_channel_map adds the size to the first
  address), so the mapped addresses form a half open interval. The firewall also lets the first address
  behind a mapping pass, which is kept apart here.\<close>

definition mapped :: "tegra_drm_mapping list \<Rightarrow> u32 \<Rightarrow> bool" where
  "mapped ms v \<longleftrightarrow> (\<exists>m \<in> set ms. unat v \<in> {unat (m_iova m)..<unat (m_iova_end m)})"

definition just_behind :: "tegra_drm_mapping list \<Rightarrow> u32 \<Rightarrow> bool" where
  "just_behind ms v \<longleftrightarrow> (\<exists>m \<in> set ms. unat v = unat (m_iova_end m) \<and> unat (m_iova m) \<le> unat (m_iova_end m))"

primrec event_ok :: "tegra_drm_client \<Rightarrow> tegra_drm_mapping list \<Rightarrow> fw_event \<Rightarrow> bool" where
  "event_ok client ms (Register_write cls reg v) \<longleftrightarrow> (is_addr client cls reg \<longrightarrow> mapped ms v \<or> just_behind ms v)"
| "event_ok client ms (Immediate_write cls reg) \<longleftrightarrow> \<not> is_addr client cls reg"
| "event_ok client ms (Class_change cls) \<longleftrightarrow> class_ok client cls"

section \<open>The firewall against the command stream\<close>

text \<open>The words the firewall has still to read.\<close>

definition fw_rest :: "tegra_drm_firewall \<Rightarrow> u32 list" where
  "fw_rest fw = take (fw_left fw) (drop (unat (fw_pos fw)) (fw_data fw))"

definition fw_inside :: "tegra_drm_firewall \<Rightarrow> bool" where
  "fw_inside fw \<longleftrightarrow> unat (fw_pos fw) \<le> unat (fw_end fw) \<and> unat (fw_end fw) \<le> length (fw_data fw)"

lemma fw_left_inside: "fw_inside fw \<Longrightarrow> fw_left fw = unat (fw_end fw) - unat (fw_pos fw)"
  by (simp add: fw_inside_def fw_left_def unat_sub word_le_unat)

definition advance :: "nat \<Rightarrow> tegra_drm_firewall \<Rightarrow> tegra_drm_firewall" where
  "advance n fw = fw\<lparr>fw_pos := fw_pos fw + of_nat n\<rparr>"

lemma advance_fields [simp]:
  "fw_submit (advance n fw) = fw_submit fw" "fw_client (advance n fw) = fw_client fw" "fw_class (advance n fw) = fw_class fw"
  "advance 0 fw = fw" "advance m (advance n fw) = advance (n + m) fw" "(advance n fw)\<lparr>fw_class := c\<rparr> = advance n (fw\<lparr>fw_class := c\<rparr>)"
  by (simp_all add: advance_def add.assoc)

lemma fw_rest_length: "fw_inside fw \<Longrightarrow> length (fw_rest fw) = fw_left fw"
  by (simp add: fw_rest_def fw_left_inside) (auto simp: fw_inside_def min_def)

lemma fw_rest_empty: "fw_inside fw \<Longrightarrow> fw_rest fw = [] \<longleftrightarrow> fw_pos fw = fw_end fw"
proof -
  assume i: "fw_inside fw"
  have "fw_rest fw = [] \<longleftrightarrow> unat (fw_end fw) - unat (fw_pos fw) = 0"
    using fw_rest_length [OF i] by (simp add: fw_left_inside [OF i] flip: length_0_conv)
  also have "\<dots> \<longleftrightarrow> fw_pos fw = fw_end fw" using i by (auto simp: fw_inside_def word_unat_eq_iff)
  finally show ?thesis .
qed

lemma advance_rest:
  assumes "fw_inside fw" and "n \<le> length (fw_rest fw)"
  shows "fw_inside (advance n fw)" and "fw_rest (advance n fw) = drop n (fw_rest fw)"
proof -
  have n: "n \<le> unat (fw_end fw) - unat (fw_pos fw)" using assms fw_rest_length [OF assms(1)] fw_left_inside [OF assms(1)] by simp
  have e: "unat (fw_pos fw) \<le> unat (fw_end fw)" "unat (fw_end fw) \<le> length (fw_data fw)" using assms(1) by (simp_all add: fw_inside_def)
  have "unat (fw_pos fw) + n < 2 ^ 32" using n e unat_lt2p_32 [of "fw_end fw"] by linarith
  then have p: "unat (fw_pos fw + of_nat n) = unat (fw_pos fw) + n"
    by (simp add: unat_word_ariths unat_of_nat)
  then show i: "fw_inside (advance n fw)" using n e by (simp add: fw_inside_def advance_def)
  show "fw_rest (advance n fw) = drop n (fw_rest fw)"
    unfolding fw_rest_def fw_left_inside [OF i] fw_left_inside [OF assms(1)] using n e
    by (simp add: advance_def p drop_take add.commute)
qed

lemma fw_next_rest:
  assumes "fw_inside fw"
  shows "fw_next fw = (case fw_rest fw of [] \<Rightarrow> Some (Inl EINVAL, fw) | w # _ \<Rightarrow> Some (Inr w, advance (Suc 0) fw))"
proof (cases "fw_pos fw = fw_end fw")
  case True
  then show ?thesis using fw_rest_empty [OF assms] by (simp add: fw_next_def)
next
  case False
  then have "unat (fw_pos fw) < unat (fw_end fw)" using assms by (auto simp: fw_inside_def nat_less_le word_unat_eq_iff)
  then have "unat (fw_pos fw) < length (fw_data fw)" "fw_left fw \<noteq> 0" using assms fw_left_inside [OF assms] by (auto simp: fw_inside_def)
  moreover from this obtain ws where "fw_rest fw = fw_data fw ! unat (fw_pos fw) # ws"
    by (cases "fw_left fw") (simp_all add: fw_rest_def flip: Cons_nth_drop_Suc)
  ultimately show ?thesis using False by (simp add: fw_next_def advance_def)
qed

abbreviation fw_ok :: "tegra_drm_firewall \<Rightarrow> fw_event \<Rightarrow> bool" where
  "fw_ok fw \<equiv> event_ok (fw_client fw) (fw_submit fw)"

lemma unat_ucast_64: "unat (ucast (v :: u32) :: u64) = unat v"
proof -
  have "unat v < 2 ^ 64" using unat_lt2p_32 [of v] by simp
  then show ?thesis by (simp add: unsigned_ucast_eq unsigned_take_bit_eq take_bit_nat_eq_self)
qed

lemma addr_valid_mapped: "fw_check_addr_valid fw v \<longleftrightarrow> mapped (fw_submit fw) v \<or> just_behind (fw_submit fw) v"
proof -
  have "unat (m_iova m) \<le> unat v \<and> unat v \<le> unat (m_iova_end m) \<longleftrightarrow>
      unat v \<in> {unat (m_iova m)..<unat (m_iova_end m)} \<or> unat v = unat (m_iova_end m) \<and> unat (m_iova m) \<le> unat (m_iova_end m)" for m
    by auto
  then show ?thesis
    by (auto simp: fw_check_addr_valid_def mapped_def just_behind_def list_ex_iff word_le_unat unat_ucast_64)
qed

lemma fw_check_reg_rest:
  assumes "fw_inside fw"
  shows "fw_check_reg r fw = (case fw_rest fw of [] \<Rightarrow> Some (Inl EINVAL, fw)
    | w # _ \<Rightarrow> Some (if fw_ok fw (Register_write (fw_class fw) r w) then Inr () else Inl EINVAL, advance (Suc 0) fw))"
  using fw_next_rest [OF assms]
  by (auto simp: fw_check_reg_def is_addr_def fw_check_addr_valid_def addr_valid_mapped [unfolded fw_check_addr_valid_def]
      split: list.split option.split)

text \<open>The result of checking a list of registers against the words that follow.\<close>

definition checked :: "u32 list \<Rightarrow> tegra_drm_firewall \<Rightarrow> ((errno + unit) \<times> tegra_drm_firewall) option \<Rightarrow> bool" where
  "checked regs fw res \<longleftrightarrow>
     (if length regs \<le> length (fw_rest fw) \<and> list_all (fw_ok fw) (map2 (Register_write (fw_class fw)) regs (fw_rest fw))
      then res = Some (Inr (), advance (length regs) fw) else \<exists>fw'. res = Some (Inl EINVAL, fw'))"

lemma checked_Nil: "checked [] fw (Some (Inr (), fw))"
  by (simp add: checked_def)

lemma checked_Cons:
  assumes "fw_inside fw" and k: "fw_inside (advance (Suc 0) fw) \<Longrightarrow> checked regs (advance (Suc 0) fw) (k (advance (Suc 0) fw))"
  shows "checked (r # regs) fw (case fw_check_reg r fw of None \<Rightarrow> None
    | Some (Inl _, fw) \<Rightarrow> Some (Inl EINVAL, fw) | Some (Inr _, fw) \<Rightarrow> k fw)"
proof (cases "fw_rest fw")
  case Nil
  then show ?thesis by (simp add: fw_check_reg_rest [OF assms(1)] checked_def)
next
  case (Cons w ws)
  then have a: "fw_inside (advance (Suc 0) fw)" "fw_rest (advance (Suc 0) fw) = ws" using advance_rest [OF assms(1), of "Suc 0"] by simp_all
  show ?thesis using k [OF a(1)] by (auto simp: fw_check_reg_rest [OF assms(1)] checked_def a(2) Cons split: if_splits)
qed

lemma check_regs_seq:
  "fw_inside fw \<Longrightarrow>
    checked (if incr then map (\<lambda>i. r + of_nat i) [0..<n] else replicate n r) fw (fw_check_regs_seq r n incr fw)"
proof (induction n arbitrary: r fw)
  case (Suc n)
  have "(if incr then map (\<lambda>i. r + of_nat i) [0..<Suc n] else replicate (Suc n) r) =
      r # (if incr then map (\<lambda>i. (if incr then r + 1 else r) + of_nat i) [0..<n] else replicate n (if incr then r + 1 else r))"
    by (simp add: map_upt_Suc add.assoc del: upt_Suc)
  then show ?case unfolding fw_check_regs_seq.simps by (simp only:) (rule checked_Cons [OF Suc.prems], rule Suc.IH)
qed (simp add: checked_Nil)

lemma check_bits: "fw_inside fw \<Longrightarrow> checked (map (\<lambda>i. r + of_nat i) bs) fw (fw_check_bits r bs fw)"
proof (induction bs arbitrary: fw)
  case (Cons b bs)
  show ?case unfolding fw_check_bits.simps list.map by (rule checked_Cons [OF Cons.prems], rule Cons.IH)
qed (simp add: checked_Nil)

lemma check_regs_mask:
  "fw_inside fw \<Longrightarrow> (\<And>i. i < 16 \<Longrightarrow> bit msk i \<longleftrightarrow> P i) \<Longrightarrow>
    checked (map (\<lambda>i. r + of_nat i) (filter P [0..<16])) fw (fw_check_regs_mask r msk fw)"
proof -
  assume i: "fw_inside fw" and P: "\<And>i. i < 16 \<Longrightarrow> bit msk i \<longleftrightarrow> P i"
  have "filter P [0..<16] = filter (bit msk) [0..<16]" using P by (intro filter_cong) simp_all
  then show ?thesis using check_bits [OF i] by (simp add: fw_check_regs_mask_def)
qed

lemma opcode_15 [simp]: "drop_bit 28 (w :: u32) AND 0xf = drop_bit 28 w"
proof -
  have "unat (drop_bit 28 w) < 16" using unat_lt2p_32 [of w] by (simp add: unat_drop_bit_eq drop_bit_nat_def)
  then have "drop_bit 28 w < 2 ^ 4" by (simp add: word_less_unat)
  then have "drop_bit 28 w AND Bit_Operations.mask 4 = drop_bit 28 w" by (simp only: less_mask_eq)
  then show ?thesis by (simp add: mask_eq_exp_minus_1)
qed

lemma opcode_of: "drop_bit 28 (w AND 0xf0000000) = drop_bit 28 (w :: u32)"
  by (simp add: drop_bit_and)

lemma checked_keep:
  assumes "checked regs fw res"
  shows "if length regs \<le> length (fw_rest fw) \<and> list_all (fw_ok fw) (map2 (Register_write (fw_class fw)) regs (fw_rest fw))
    then map_option (\<lambda>(r, fw). (map_sum id (\<lambda>_. payload) r, fw)) res = Some (Inr payload, advance (length regs) fw)
    else \<exists>fw'. map_option (\<lambda>(r, fw). (map_sum id (\<lambda>_. payload) r, fw)) res = Some (Inl EINVAL, fw')"
  using assms by (auto simp: checked_def split: if_splits)

lemma setclass_fields [simp]:
  "fw_inside (fw\<lparr>fw_class := c\<rparr>) = fw_inside fw" "fw_rest (fw\<lparr>fw_class := c\<rparr>) = fw_rest fw"
  "fw_inside (advance n (fw\<lparr>fw_class := c\<rparr>)) = fw_inside (advance n fw)"
  "fw_rest (advance n (fw\<lparr>fw_class := c\<rparr>)) = fw_rest (advance n fw)"
  by (simp_all add: fw_inside_def fw_rest_def advance_def fw_left_def)

text \<open>One instruction.\<close>

lemma fw_opcode_rest:
  fixes fw w payload
  assumes i: "fw_inside fw"
  defines "c \<equiv> word_class w (fw_class fw)"
  shows "case written_registers w payload of
      None \<Rightarrow> \<exists>fw'. fw_opcode w payload fw = Some (Inl EINVAL, fw')
    | Some regs \<Rightarrow>
        if length regs \<le> length (fw_rest fw) \<and>
           list_all (fw_ok fw) (word_events w (fw_class fw) @ map2 (Register_write c) regs (fw_rest fw))
        then fw_opcode w payload fw = Some (Inr (word_payload w payload), advance (length regs) (fw\<lparr>fw_class := c\<rparr>))
        else \<exists>fw'. fw_opcode w payload fw = Some (Inl EINVAL, fw')"
proof -
  let ?op = "drop_bit 28 w" and ?base = "drop_bit 16 w AND 0xfff" and ?n = "unat (w AND 0xffff)"
  let ?fw = "fw\<lparr>fw_class := drop_bit 6 w AND 0x3ff\<rparr>"
  have m63: "(0x3f :: u32) = Bit_Operations.mask 6" and m16: "(0xffff :: u32) = Bit_Operations.mask 16"
    by (simp_all add: mask_eq_exp_minus_1)
  have six: "bit (ucast (w AND 0x3f) :: u16) j \<longleftrightarrow> j < 6 \<and> bit w j" if "j < 16" for j
    using that unfolding m63 by (auto simp: bit_simps)
  have mask: "bit (ucast (w AND 0xffff) :: u16) j \<longleftrightarrow> bit w j" if "j < 16" for j
    using that unfolding m16 by (auto simp: bit_simps)
  have f6: "filter (\<lambda>j. j < 6 \<and> bit w j) [0..<16] = filter (bit w) [0..<6]"
    by (simp add: upt_rec)
  have seq: "checked (map (\<lambda>i. r + of_nat i) [0..<n]) fw (fw_check_regs_seq r n True fw)"
    "checked (replicate n r) fw (fw_check_regs_seq r n False fw)" for r n
    using check_regs_seq [OF i, of True r n] check_regs_seq [OF i, of False r n] by simp_all
  note defs = fw_opcode_def Let_def opcode_of written_registers_def word_events_def c_def word_class_def word_payload_def
  consider (c1) "?op = 0" | (c2) "?op = 1" | (c3) "?op = 2" | (c4) "?op = 3" | (c5) "?op = 4" | (c6) "?op = 9"
    | (c7) "?op = 0xa" | (c8) "?op = 0xb" | (c9) "?op \<notin> {0, 1, 2, 3, 4, 9, 0xa, 0xb}" by blast
  then show ?thesis
  proof cases
    case c1
    have k: "checked (map (\<lambda>i. ?base + of_nat i) (filter (bit w) [0..<6])) ?fw (fw_check_regs_mask ?base (ucast (w AND 0x3f)) ?fw)"
      using check_regs_mask [of ?fw "ucast (w AND 0x3f)" "\<lambda>j. j < 6 \<and> bit w j" ?base] i six f6 by simp
    show ?thesis
    proof (cases "class_ok (fw_client fw) (drop_bit 6 w AND 0x3ff)")
      case True
      then have "fw_check_class (drop_bit 6 w AND 0x3ff) fw = Inr ()"
        by (auto simp: fw_check_class_def class_ok_def split: option.splits)
      then show ?thesis using checked_keep [OF k, of payload] True c1 by (simp add: defs del: map_option_eq_Some)
    next
      case False
      then have "fw_check_class (drop_bit 6 w AND 0x3ff) fw = Inl EINVAL"
        by (auto simp: fw_check_class_def class_ok_def split: option.splits)
      then show ?thesis using False c1 by (simp add: defs del: map_option_eq_Some)
    qed
  next
    case c2
    then show ?thesis using checked_keep [OF seq(1) [of ?base ?n], of payload] by (simp add: defs del: map_option_eq_Some)
  next
    case c3
    then show ?thesis using checked_keep [OF seq(2) [of ?n ?base], of payload] by (simp add: defs del: map_option_eq_Some)
  next
    case c4
    then show ?thesis using checked_keep [OF check_regs_mask [OF i mask, of ?base], of payload] by (simp add: defs del: map_option_eq_Some)
  next
    case c5
    then show ?thesis by (auto simp: defs fw_check_regs_imm_def is_addr_def split: option.split)
  next
    case c6
    then show ?thesis by (simp add: defs del: map_option_eq_Some)
  next
    case c7
    show ?thesis
    proof (cases payload)
      case (Some a)
      then show ?thesis using checked_keep [OF seq(1) [of "w AND 0x3fffff" "unat a"], of "Some a"] c7 by (simp add: defs del: map_option_eq_Some)
    qed (use c7 in \<open>simp add: defs\<close>)
  next
    case c8
    show ?thesis
    proof (cases payload)
      case (Some a)
      then show ?thesis using checked_keep [OF seq(2) [of "unat a" "w AND 0x3fffff"], of "Some a"] c8 by (simp add: defs del: map_option_eq_Some)
    qed (use c8 in \<open>simp add: defs\<close>)
  qed (simp add: defs del: map_option_eq_Some)
qed

text \<open>The whole loop.\<close>

lemma fw_loop_decode:
  "fw_inside fw \<Longrightarrow>
    (case decode payload (fw_class fw) (fw_rest fw) of
       None \<Rightarrow> \<exists>fw'. fw_loop payload fw = Some (Inl EINVAL, fw')
     | Some (es, c) \<Rightarrow>
         if list_all (fw_ok fw) es then \<exists>fw'. fw_loop payload fw = Some (Inr (), fw') \<and> fw_class fw' = c
         else \<exists>fw'. fw_loop payload fw = Some (Inl EINVAL, fw'))"
proof (induction "length (fw_rest fw)" arbitrary: payload fw rule: less_induct)
  case less
  show ?case
  proof (cases "fw_rest fw")
    case Nil
    then show ?thesis using fw_rest_empty [OF less.prems] by (simp add: fw_loop.simps [of payload fw])
  next
    case (Cons w ws)
    let ?fw = "advance (Suc 0) fw"
    have a: "fw_inside ?fw" "fw_rest ?fw = ws" using advance_rest [OF less.prems, of "Suc 0"] Cons by simp_all
    have ne: "fw_pos fw \<noteq> fw_end fw" using Cons fw_rest_empty [OF less.prems] by simp
    have step: "fw_loop payload fw = (case fw_opcode w payload ?fw of
                  None \<Rightarrow> None
                | Some (Inl e, fw) \<Rightarrow> Some (Inl e, fw)
                | Some (Inr payload, fw) \<Rightarrow> fw_loop payload fw)"
      using ne fw_next_rest [OF less.prems] by (simp add: fw_loop.simps [of payload fw] Cons)
    note r = fw_opcode_rest [OF a(1), of w payload, unfolded a(2)]
    show ?thesis
    proof (cases "written_registers w payload")
      case None
      then show ?thesis using r by (auto simp: step Cons)
    next
      case (Some regs)
      let ?c = "word_class w (fw_class fw)"
      let ?es = "word_events w (fw_class fw) @ map2 (Register_write ?c) regs ws"
      show ?thesis
      proof (cases "length regs \<le> length ws \<and> list_all (fw_ok fw) ?es")
        case False
        then have "\<exists>fw'. fw_loop payload fw = Some (Inl EINVAL, fw')" using r Some by (auto simp: step)
        then show ?thesis using Some False by (auto simp: Cons split: option.split)
      next
        case True
        let ?fw1 = "advance (length regs) (?fw\<lparr>fw_class := ?c\<rparr>)"
        have b: "fw_inside ?fw1" "fw_rest ?fw1 = drop (length regs) ws"
          using advance_rest [OF a(1), of "length regs"] a(2) True by simp_all
        have l: "fw_loop payload fw = fw_loop (word_payload w payload) ?fw1" using r Some True by (simp add: step)
        have "length (fw_rest ?fw1) < length (fw_rest fw)" unfolding b(2) Cons by simp
        from less.hyps [OF this b(1), of "word_payload w payload"] show ?thesis
          unfolding l [symmetric] b(2) using Some True by (auto simp: Cons split: option.splits)
      qed
    qed
  qed
qed

lemma fw_validate:
  assumes "unat start + unat words \<le> length data" and "unat start + unat words < 2 ^ 32"
  shows "case decode None cls (take (unat words) (drop (unat start) data)) of
      None \<Rightarrow> \<exists>c. tegra_drm_fw_validate client data start words ms cls = Some (Inl EINVAL, c)
    | Some (es, c) \<Rightarrow>
        if list_all (event_ok client ms) es then tegra_drm_fw_validate client data start words ms cls = Some (Inr (), c)
        else \<exists>c. tegra_drm_fw_validate client data start words ms cls = Some (Inl EINVAL, c)"
proof -
  let ?fw = "\<lparr>fw_submit = ms, fw_client = client, fw_data = data, fw_pos = start, fw_end = start + words, fw_class = cls\<rparr>"
  have e: "unat (start + words) = unat start + unat words" using assms(2) by (simp add: unat_add_no_wrap)
  have i: "fw_inside ?fw" using assms(1) by (simp add: fw_inside_def e)
  then have r: "fw_rest ?fw = take (unat words) (drop (unat start) data)"
    by (simp add: fw_rest_def fw_left_inside e)
  show ?thesis using fw_loop_decode [OF i, of None] unfolding r
    by (auto simp: tegra_drm_fw_validate_def split: option.split)
qed


text \<open>C1: For a gather whose words lie inside the gather data (start + words within its length and below
  2^32) the firewall never reads a word that is not there, always ends, and accepts the gather exactly when
  its words decode completely, every class it selects is valid for the client, no address register is
  written by an immediate, and every word written to an address register lies in a mapping of the job or is
  the first address behind one: iova_end is exclusive, but the firewall compares with it inclusively. The
  class it hands on is the one the stream ends in.\<close>

theorem fw_validate_decodes:
  assumes "unat start + unat words \<le> length data" and "unat start + unat words < 2 ^ 32"
  shows "case decode None cls (take (unat words) (drop (unat start) data)) of
      None \<Rightarrow> \<exists>c. tegra_drm_fw_validate client data start words ms cls = Some (Inl EINVAL, c)
    | Some (es, c) \<Rightarrow>
        if list_all (event_ok client ms) es then tegra_drm_fw_validate client data start words ms cls = Some (Inr (), c)
        else \<exists>c. tegra_drm_fw_validate client data start words ms cls = Some (Inl EINVAL, c)"
  using fw_validate [OF assms] .

section \<open>Example\<close>

text \<open>Register 0x2b takes an address; the mapping reaches from 0x1000 to 0x2000.\<close>

definition fw_client_ex :: tegra_drm_client where
  "fw_client_ex = \<lparr>cl_class = 0x51, cl_is_addr_reg = Some (\<lambda>cls reg. reg = 0x2b), cl_is_valid_class = None\<rparr>"

definition fw_mapping_ex :: tegra_drm_mapping where
  "fw_mapping_ex = \<lparr>m_ref = 1, m_bo_map = Some 0x1000, m_ctx_map = None, m_bo = 0, m_iova = 0x1000, m_iova_end = 0x2000\<rparr>"

theorem fw_validate_decodes_witness:
  "tegra_drm_fw_validate fw_client_ex [7, 0x1440, 0x102a0002, 0x40, 0x1800] 1 4 [fw_mapping_ex] 1 = Some (Inr (), 0x51) \<and>
   tegra_drm_fw_validate fw_client_ex [0x202b0001, 0x2000] 0 2 [fw_mapping_ex] 0x51 = Some (Inr (), 0x51) \<and>
   \<not> mapped [fw_mapping_ex] 0x2000 \<and>
   (\<exists>c. tegra_drm_fw_validate fw_client_ex [0x202b0002, 0x1800, 0x2001] 0 3 [fw_mapping_ex] 0x51 = Some (Inl EINVAL, c)) \<and>
   (\<exists>c. tegra_drm_fw_validate fw_client_ex [0x202b0002, 0x1800, 0x2000] 0 2 [fw_mapping_ex] 0x51 = Some (Inl EINVAL, c))"
proof -
  have d: "decode None 1 [0x1440, 0x102a0002, 0x40, 0x1800] =
      Some ([Class_change 0x51, Register_write 0x51 0x2a 0x40, Register_write 0x51 0x2b 0x1800], 0x51)"
    "decode None 0x51 [0x202b0002, 0x1800, 0x2001] = Some ([Register_write 0x51 0x2b 0x1800, Register_write 0x51 0x2b 0x2001], 0x51)"
    "decode None 0x51 [0x202b0002, 0x1800] = None" "decode None 0x51 [0x202b0001, 0x2000] = Some ([Register_write 0x51 0x2b 0x2000], 0x51)"
    by code_simp+
  show ?thesis
    using fw_validate_decodes [where start = 1 and words = 4 and data = "[7, 0x1440, 0x102a0002, 0x40, 0x1800]" and cls = 1 and client = fw_client_ex and ms = "[fw_mapping_ex]"]
      fw_validate_decodes [where start = 0 and words = 3 and data = "[0x202b0002, 0x1800, 0x2001]" and cls = "0x51" and client = fw_client_ex and ms = "[fw_mapping_ex]"]
      fw_validate_decodes [where start = 0 and words = 2 and data = "[0x202b0001, 0x2000]" and cls = "0x51" and client = fw_client_ex and ms = "[fw_mapping_ex]"]
      fw_validate_decodes [where start = 0 and words = 2 and data = "[0x202b0002, 0x1800, 0x2000]" and cls = "0x51" and client = fw_client_ex and ms = "[fw_mapping_ex]"]
    by (simp add: d class_ok_def is_addr_def mapped_def just_behind_def fw_client_ex_def fw_mapping_ex_def del: decode.simps)
qed

end
