(* ===== verification/Drm_Submit.thy ===== *)
theory Drm_Submit imports Drm_Firewall Host1x_Job begin

text \<open>
  Job submission of the Tegra DRM driver (\<open>drivers/gpu/drm/tegra/submit.c\<close>): the gather data and the
  buffers a job uses, relocations, the commands of the job and the checks on them.  User memory is a
  function from positions to elements, \<open>None\<close> if it cannot be read; \<open>kvmalloc\<close> and the like tell whether
  there is memory.  The result \<open>None\<close> is an access to freed memory or outside of an array, or a shift
  by 64 and more.
\<close>

section \<open>Contexts and mappings\<close>

datatype drm_release = Memory_context_unmap u64 | Bo_unpin u64 | Bo_put nat

text \<open>The mappings that exist by address, and what was given back to host1x.\<close>

record drm_memory =
  dm_mappings :: "nat \<rightharpoonup> tegra_drm_mapping"
  dm_log :: "drm_release list"

record tegra_drm_context =
  ctx_client :: tegra_drm_client
  ctx_mappings :: "u32 \<rightharpoonup> nat"
  ctx_memory_context :: "nat option"

definition tegra_drm_mapping_get :: "tegra_drm_context \<Rightarrow> u32 \<Rightarrow> drm_memory \<Rightarrow> (nat option \<times> drm_memory) option" where
  "tegra_drm_mapping_get context i s =
     (case ctx_mappings context i of
        None \<Rightarrow> Some (None, s)
      | Some a \<Rightarrow>
          (case dm_mappings s a of
             None \<Rightarrow> None
           | Some m \<Rightarrow> Some (Some a, s\<lparr>dm_mappings := (dm_mappings s)(a \<mapsto> m\<lparr>m_ref := m_ref m + 1\<rparr>)\<rparr>)))"

definition tegra_drm_mapping_release :: "nat \<Rightarrow> tegra_drm_mapping \<Rightarrow> drm_memory \<Rightarrow> drm_memory option" where
  "tegra_drm_mapping_release a m s =
     map_option (\<lambda>r. s\<lparr>dm_mappings := (dm_mappings s)(a := None), dm_log := dm_log s @ [r, Bo_put (m_bo m)]\<rparr>)
       (case m_ctx_map m of
          Some phys \<Rightarrow> Some (Memory_context_unmap phys)
        | None \<Rightarrow> map_option Bo_unpin (m_bo_map m))"

definition tegra_drm_mapping_put :: "nat \<Rightarrow> drm_memory \<Rightarrow> drm_memory option" where
  "tegra_drm_mapping_put a s =
     (case dm_mappings s a of
        None \<Rightarrow> None
      | Some m \<Rightarrow>
          if m_ref m = 0 then None
          else if m_ref m = 1 then tegra_drm_mapping_release a m s
          else Some (s\<lparr>dm_mappings := (dm_mappings s)(a \<mapsto> m\<lparr>m_ref := m_ref m - 1\<rparr>)\<rparr>))"

section \<open>Data from user space\<close>

definition alloc_copy_user_array :: "bool \<Rightarrow> (nat \<Rightarrow> 'a) option \<Rightarrow> nat \<Rightarrow> nat \<Rightarrow> errno + 'a list" where
  "alloc_copy_user_array kvmalloc from count sz =
     (if 2 ^ 64 \<le> count * sz then Inl EINVAL
      else if 0x4000 < count * sz then Inl E2BIG
      else if \<not> kvmalloc then Inl ENOMEM
      else case from of None \<Rightarrow> Inl EFAULT | Some user \<Rightarrow> Inr (map user [0..<count]))"

record gather_bo =
  gb_ref :: nat
  gb_data :: "u32 list"

definition gather_bo_get :: "gather_bo \<Rightarrow> gather_bo" where
  "gather_bo_get bo = bo\<lparr>gb_ref := gb_ref bo + 1\<rparr>"

text \<open>\<open>None\<close> once the buffer is released.\<close>

definition gather_bo_put :: "gather_bo \<Rightarrow> gather_bo option" where
  "gather_bo_put bo = (if gb_ref bo \<le> 1 then None else Some (bo\<lparr>gb_ref := gb_ref bo - 1\<rparr>))"

definition submit_copy_gather_data :: "bool \<Rightarrow> bool \<Rightarrow> (nat \<Rightarrow> u32) option \<Rightarrow> u32 \<Rightarrow> errno + gather_bo" where
  "submit_copy_gather_data kzalloc dma_alloc from gather_data_words =
     (if gather_data_words = 0 then Inl EINVAL
      else if 2 ^ 64 \<le> unat gather_data_words * 4 then Inl EINVAL
      else if \<not> kzalloc then Inl ENOMEM
      else if \<not> dma_alloc then Inl ENOMEM
      else case from of
             None \<Rightarrow> Inl EFAULT
           | Some user \<Rightarrow> Inr \<lparr>gb_ref = 1, gb_data = map user [0..<unat gather_data_words]\<rparr>)"

section \<open>Buffers and relocations\<close>

record drm_tegra_submit_buf =
  b_mapping :: u32
  b_flags :: u32
  b_target_offset :: u64
  b_gather_offset_words :: u32
  b_shift :: u32

definition DRM_TEGRA_SUBMIT_RELOC_SECTOR_LAYOUT :: u32 where "DRM_TEGRA_SUBMIT_RELOC_SECTOR_LAYOUT = 1"

text \<open>\<open>dma_addr_t\<close> has 64 bits; \<open>array_index_nospec\<close> keeps an index that has passed the test before it.\<close>

definition submit_write_reloc ::
  "u32 list \<Rightarrow> drm_tegra_submit_buf \<Rightarrow> tegra_drm_mapping \<Rightarrow> ((errno + unit) \<times> u32 list) option" where
  "submit_write_reloc data buf mapping = do {
     base \<leftarrow> (if m_bo_map mapping \<noteq> None then Some (m_iova mapping) else m_ctx_map mapping);
     let iova = (b_target_offset buf + base :: u64);
     let iova = (if b_flags buf AND DRM_TEGRA_SUBMIT_RELOC_SECTOR_LAYOUT \<noteq> 0 then iova OR push_bit 39 1 else iova);
     if 64 \<le> unat (b_shift buf) then None
     else
       let written_ptr = (ucast (drop_bit (unat (b_shift buf)) iova) :: u32)
       in if length data \<le> unat (b_gather_offset_words buf) then Some (Inl EINVAL, data)
          else Some (Inr (), data[unat (b_gather_offset_words buf) := written_ptr]) }"

fun drop_refs :: "nat list \<Rightarrow> drm_memory \<Rightarrow> drm_memory option" where
  "drop_refs [] s = Some s"
| "drop_refs (a # as) s = do { s \<leftarrow> tegra_drm_mapping_put a s; drop_refs as s }"

text \<open>The loop over the buffers; \<open>used\<close> are the mappings taken so far, the last one first.\<close>

fun process_bufs ::
  "tegra_drm_context \<Rightarrow> drm_tegra_submit_buf list \<Rightarrow> nat list \<Rightarrow> u32 list \<Rightarrow> drm_memory \<Rightarrow>
    ((errno + nat list) \<times> u32 list \<times> drm_memory) option" where
  "process_bufs context [] used data s = Some (Inr (rev used), data, s)"
| "process_bufs context (buf # bufs) used data s =
     (if b_flags buf AND NOT DRM_TEGRA_SUBMIT_RELOC_SECTOR_LAYOUT \<noteq> 0
      then do { s \<leftarrow> drop_refs used s; Some (Inl EINVAL, data, s) }
      else do {
        (p, s) \<leftarrow> tegra_drm_mapping_get context (b_mapping buf) s;
        case p of
          None \<Rightarrow> do { s \<leftarrow> drop_refs used s; Some (Inl EINVAL, data, s) }
        | Some a \<Rightarrow> do {
            m \<leftarrow> dm_mappings s a;
            (r, data) \<leftarrow> submit_write_reloc data buf m;
            case r of
              Inl e \<Rightarrow> do { s \<leftarrow> tegra_drm_mapping_put a s; s \<leftarrow> drop_refs used s; Some (Inl e, data, s) }
            | Inr _ \<Rightarrow> process_bufs context bufs (a # used) data s } })"

definition submit_process_bufs ::
  "bool \<Rightarrow> bool \<Rightarrow> (nat \<Rightarrow> drm_tegra_submit_buf) option \<Rightarrow> u32 \<Rightarrow> tegra_drm_context \<Rightarrow> u32 list \<Rightarrow> drm_memory \<Rightarrow>
    ((errno + nat list) \<times> u32 list \<times> drm_memory) option" where
  "submit_process_bufs kvmalloc kcalloc from num_bufs context data s =
     (case alloc_copy_user_array kvmalloc from (unat num_bufs) 24 of
        Inl e \<Rightarrow> Some (Inl e, data, s)
      | Inr bufs \<Rightarrow> if \<not> kcalloc then Some (Inl ENOMEM, data, s) else process_bufs context bufs [] data s)"

section \<open>The commands of a job\<close>

text \<open>The four words of the union: \<open>words\<close> or \<open>id\<close> and \<open>value\<close>, the rest reserved.\<close>

record drm_tegra_submit_cmd =
  c_type :: u32
  c_flags :: u32
  c_word0 :: u32
  c_word1 :: u32
  c_word2 :: u32
  c_word3 :: u32

definition DRM_TEGRA_SUBMIT_CMD_GATHER_UPTR :: u32 where "DRM_TEGRA_SUBMIT_CMD_GATHER_UPTR = 0"
definition DRM_TEGRA_SUBMIT_CMD_WAIT_SYNCPT :: u32 where "DRM_TEGRA_SUBMIT_CMD_WAIT_SYNCPT = 1"
definition DRM_TEGRA_SUBMIT_CMD_WAIT_SYNCPT_RELATIVE :: u32 where "DRM_TEGRA_SUBMIT_CMD_WAIT_SYNCPT_RELATIVE = 2"
definition DRM_TEGRA_SUBMIT_SECONDARY_SYNCPT :: u32 where "DRM_TEGRA_SUBMIT_SECONDARY_SYNCPT = 1"
definition FALCON_UCLASS_METHOD_OFFSET :: u32 where "FALCON_UCLASS_METHOD_OFFSET = 0x40"
definition FALCON_METHOD_TSP :: u32 where "FALCON_METHOD_TSP = 0xc8"
definition FALCON_UCLASS_METHOD_DATA :: u32 where "FALCON_UCLASS_METHOD_DATA = 0x44"

record drm_tegra_channel_submit =
  a_flags :: u32
  a_num_cmds :: u32
  a_syncpt_id :: u32
  a_syncpt_flags :: u32
  a_syncpt_increments :: u32
  a_secondary_syncpt_id :: u32

definition submit_get_syncpt ::
  "(u32 \<rightharpoonup> nat) \<Rightarrow> drm_tegra_channel_submit \<Rightarrow> job_object \<Rightarrow> host1x \<Rightarrow> (errno + unit) \<times> job_object \<times> host1x" where
  "submit_get_syncpt syncpoints args job h =
     (if a_syncpt_flags args \<noteq> 0 then (Inl EINVAL, job, h)
      else case syncpoints (a_syncpt_id args) of
             None \<Rightarrow> (Inl EINVAL, job, h)
           | Some sp \<Rightarrow>
               let h = host1x_syncpt_get sp h;
                   job = job\<lparr>jo_syncpt := Some sp, jo_syncpt_incrs := a_syncpt_increments args\<rparr>
               in if a_flags args AND DRM_TEGRA_SUBMIT_SECONDARY_SYNCPT \<noteq> 0 then
                    (case syncpoints (a_secondary_syncpt_id args) of
                       None \<Rightarrow> (Inl EINVAL, job, h)
                     | Some sp \<Rightarrow> (Inr (), job\<lparr>jo_secondary := Some sp\<rparr>, host1x_syncpt_get sp h))
                  else (Inr (), job, h))"

text \<open>The new offset and class, with the gather added to the job.\<close>

definition submit_job_add_gather ::
  "tegra_drm_context \<Rightarrow> drm_tegra_submit_cmd \<Rightarrow> nat \<Rightarrow> u32 list \<Rightarrow> u32 \<Rightarrow> tegra_drm_mapping list \<Rightarrow> u32 \<Rightarrow> job_object \<Rightarrow>
    (errno + u32 \<times> u32 \<times> job_object) option" where
  "submit_job_add_gather context cmd bo data offset used_mappings cls job =
     (if c_word1 cmd \<noteq> 0 \<or> c_word2 cmd \<noteq> 0 \<or> c_word3 cmd \<noteq> 0 then Some (Inl EINVAL)
      else if 16383 < c_word0 cmd then Some (Inl EINVAL)
      else if 2 ^ 32 \<le> unat offset + unat (c_word0 cmd) then Some (Inl EINVAL)
      else
        let next_offset = offset + c_word0 cmd
        in if length data < unat next_offset then Some (Inl EINVAL)
           else do {
             (r, cls) \<leftarrow> tegra_drm_fw_validate (ctx_client context) data offset (c_word0 cmd) used_mappings cls;
             if isl r then Some (Inl EINVAL)
             else do {
               job \<leftarrow> host1x_job_add_gather bo (c_word0 cmd) (offset * 4) job;
               Some (Inr (next_offset, cls, job)) } })"

text \<open>
  The loop over the commands.  \<open>tsp\<close> is the address of the buffer for time stamps divided by 256, if there
  is one; \<open>first_gather\<close> as in the code.
\<close>

fun submit_cmds ::
  "tegra_drm_context \<Rightarrow> drm_tegra_channel_submit \<Rightarrow> nat \<Rightarrow> u32 list \<Rightarrow> tegra_drm_mapping list \<Rightarrow> u32 option \<Rightarrow>
    drm_tegra_submit_cmd list \<Rightarrow> bool \<Rightarrow> u32 \<Rightarrow> u32 \<Rightarrow> job_object \<Rightarrow> ((errno + u32) \<times> job_object) option" where
  "submit_cmds context args bo data ms tsp [] first_gather offset cls job = Some (Inr offset, job)"
| "submit_cmds context args bo data ms tsp (cmd # cmds) first_gather offset cls job =
     (if c_flags cmd \<noteq> 0 then Some (Inl EINVAL, job)
      else if c_type cmd = DRM_TEGRA_SUBMIT_CMD_GATHER_UPTR then do {
        (first_gather, job) \<leftarrow>
          (case tsp of
             Some addr \<Rightarrow>
               if first_gather then do {
                 job \<leftarrow> host1x_job_add_reg_write FALCON_UCLASS_METHOD_OFFSET FALCON_METHOD_TSP job;
                 job \<leftarrow> host1x_job_add_reg_write FALCON_UCLASS_METHOD_DATA addr job;
                 Some (False, job) }
               else Some (first_gather, job)
           | None \<Rightarrow> Some (first_gather, job));
        r \<leftarrow> submit_job_add_gather context cmd bo data offset ms cls job;
        case r of
          Inl e \<Rightarrow> Some (Inl e, job)
        | Inr (offset, cls, job) \<Rightarrow> submit_cmds context args bo data ms tsp cmds first_gather offset cls job }
      else if c_type cmd = DRM_TEGRA_SUBMIT_CMD_WAIT_SYNCPT then
        (if c_word2 cmd \<noteq> 0 \<or> c_word3 cmd \<noteq> 0 then Some (Inl EINVAL, job)
         else do {
           job \<leftarrow> host1x_job_add_wait (c_word0 cmd) (c_word1 cmd) False cls job;
           submit_cmds context args bo data ms tsp cmds first_gather offset cls job })
      else if c_type cmd = DRM_TEGRA_SUBMIT_CMD_WAIT_SYNCPT_RELATIVE then
        (if c_word2 cmd \<noteq> 0 \<or> c_word3 cmd \<noteq> 0 then Some (Inl EINVAL, job)
         else if c_word0 cmd \<noteq> a_syncpt_id args then Some (Inl EINVAL, job)
         else do {
           job \<leftarrow> host1x_job_add_wait (c_word0 cmd) (c_word1 cmd) True cls job;
           submit_cmds context args bo data ms tsp cmds first_gather offset cls job })
      else Some (Inl EINVAL, job))"

definition submit_create_job ::
  "bool \<Rightarrow> bool \<Rightarrow> tegra_drm_context \<Rightarrow> nat \<Rightarrow> u32 list \<Rightarrow> drm_tegra_channel_submit \<Rightarrow> tegra_drm_mapping list \<Rightarrow>
    u32 option \<Rightarrow> (u32 \<rightharpoonup> nat) \<Rightarrow> drm_tegra_submit_cmd list \<Rightarrow> host1x \<Rightarrow> ((errno + job_object) \<times> host1x) option" where
  "submit_create_job kzalloc config_firewall context bo data args ms tsp syncpoints cmds h =
     (if tsp \<noteq> None \<and> 2 ^ 32 \<le> unat (a_num_cmds args) + 2 then Some (Inl EINVAL, h)
      else
        let needed_cmds = (if tsp \<noteq> None then a_num_cmds args + 2 else a_num_cmds args); cls = cl_class (ctx_client context)
        in case host1x_job_alloc kzalloc config_firewall needed_cmds 0 True of
             None \<Rightarrow> Some (Inl ENOMEM, h)
           | Some job \<Rightarrow>
               (case submit_get_syncpt syncpoints args job h of
                  (Inl e, job, h) \<Rightarrow> do { (_, h) \<leftarrow> host1x_job_put True True job h; Some (Inl e, h) }
                | (Inr _, job, h) \<Rightarrow>
                    let job = job\<lparr>jo_class := cls, jo_serialize := True\<rparr>
                    in do {
                      (r, job) \<leftarrow> submit_cmds context args bo data ms tsp (take (unat (a_num_cmds args)) cmds) True 0 cls job;
                      case r of
                        Inl e \<Rightarrow> do { (_, h) \<leftarrow> host1x_job_put True True job h; Some (Inl e, h) }
                      | Inr offset \<Rightarrow>
                          if offset = 0 then do { (_, h) \<leftarrow> host1x_job_put True True job h; Some (Inl EINVAL, h) }
                          else Some (Inr job, h) }))"

end
