(* ===== verification/Drm_Submit_Facts.thy ===== *)
theory Drm_Submit_Facts imports Drm_Submit begin

text \<open>
  What submission promises: references of mappings are balanced on every path, a job that is built has
  passed the firewall as a whole, and a job that is refused leaves nothing behind.
\<close>

section \<open>References of mappings\<close>

definition add_refs :: "nat list \<Rightarrow> drm_memory \<Rightarrow> drm_memory" where
  "add_refs as s = s\<lparr>dm_mappings := (\<lambda>a. map_option (\<lambda>m. m\<lparr>m_ref := m_ref m + count_list as a\<rparr>) (dm_mappings s a))\<rparr>"

definition mappings_ok :: "tegra_drm_context \<Rightarrow> drm_memory \<Rightarrow> bool" where
  "mappings_ok context s \<longleftrightarrow> (\<forall>i a. ctx_mappings context i = Some a \<longrightarrow>
     (\<exists>m. dm_mappings s a = Some m \<and> 0 < m_ref m \<and> (m_bo_map m \<noteq> None \<or> m_ctx_map m \<noteq> None)))"

lemma add_refs_Nil [simp]: "add_refs [] s = s"
  by (cases s) (simp add: add_refs_def map_option.identity [unfolded id_def])

lemma mapping_get_ref:
  assumes "mappings_ok context s" and "ctx_mappings context i = Some a"
  shows "tegra_drm_mapping_get context i (add_refs as s) = Some (Some a, add_refs (a # as) s)"
  using assms by (auto simp: tegra_drm_mapping_get_def mappings_ok_def add_refs_def fun_eq_iff dest!: spec)

lemma mapping_put_ref:
  assumes "dm_mappings s a = Some m" and "0 < m_ref m"
  shows "tegra_drm_mapping_put a (add_refs (a # as) s) = Some (add_refs as s)"
  using assms by (auto simp: tegra_drm_mapping_put_def add_refs_def fun_eq_iff)

lemma drop_refs_ref:
  assumes "\<forall>a \<in> set as. \<exists>m. dm_mappings s a = Some m \<and> 0 < m_ref m"
  shows "drop_refs as (add_refs as s) = Some s"
  using assms
proof (induction as)
  case (Cons a as)
  then obtain m where "dm_mappings s a = Some m" "0 < m_ref m" by auto
  then show ?case using Cons by (simp add: mapping_put_ref)
qed simp

text \<open>The address a relocation writes; the buffers of a job write theirs in order.\<close>

definition reloc_word :: "drm_tegra_submit_buf \<Rightarrow> tegra_drm_mapping \<Rightarrow> u32" where
  "reloc_word buf m =
     (let iova = b_target_offset buf + (if m_bo_map m \<noteq> None then m_iova m else the (m_ctx_map m))
      in ucast (drop_bit (unat (b_shift buf)) (if bit (b_flags buf) 0 then iova OR push_bit 39 1 else iova)))"

definition write_relocs :: "(drm_tegra_submit_buf \<times> tegra_drm_mapping) list \<Rightarrow> u32 list \<Rightarrow> u32 list" where
  "write_relocs bms data = fold (\<lambda>(buf, m) data. data[unat (b_gather_offset_words buf) := reloc_word buf m]) bms data"

lemma and_1_bit: "w AND 1 \<noteq> 0 \<longleftrightarrow> bit (w :: u32) 0"
  by (simp add: and_one_eq bit_0 flip: odd_iff_mod_2_eq_one)

lemma write_reloc:
  assumes "m_bo_map m \<noteq> None \<or> m_ctx_map m \<noteq> None" and "unat (b_shift buf) < 64"
  shows "submit_write_reloc data buf m =
    (if length data \<le> unat (b_gather_offset_words buf) then Some (Inl EINVAL, data)
     else Some (Inr (), data[unat (b_gather_offset_words buf) := reloc_word buf m]))"
proof -
  have b: "b_flags buf AND DRM_TEGRA_SUBMIT_RELOC_SECTOR_LAYOUT \<noteq> 0 \<longleftrightarrow> bit (b_flags buf) 0"
    unfolding DRM_TEGRA_SUBMIT_RELOC_SECTOR_LAYOUT_def by (rule and_1_bit)
  show ?thesis
    using assms by (auto simp: submit_write_reloc_def Let_def reloc_word_def b split: option.split)
qed

lemma reloc_word_ref [simp]: "reloc_word buf (m\<lparr>m_ref := x\<rparr>) = reloc_word buf m"
  by (simp add: reloc_word_def)

lemma add_refs_cong: "(\<And>a. count_list as a = count_list bs a) \<Longrightarrow> add_refs as s = add_refs bs s"
  by (simp add: add_refs_def)

text \<open>The buffers with the mappings they name.\<close>

definition buf_mappings :: "tegra_drm_context \<Rightarrow> drm_memory \<Rightarrow> drm_tegra_submit_buf list \<Rightarrow> (drm_tegra_submit_buf \<times> tegra_drm_mapping) list" where
  "buf_mappings context s bufs = map (\<lambda>buf. (buf, the (dm_mappings s (the (ctx_mappings context (b_mapping buf)))))) bufs"

definition bufs_accepted :: "tegra_drm_context \<Rightarrow> nat \<Rightarrow> drm_tegra_submit_buf list \<Rightarrow> bool" where
  "bufs_accepted context words bufs \<longleftrightarrow> list_all (\<lambda>buf. b_flags buf AND NOT DRM_TEGRA_SUBMIT_RELOC_SECTOR_LAYOUT = 0 \<and>
     ctx_mappings context (b_mapping buf) \<noteq> None \<and> unat (b_gather_offset_words buf) < words) bufs"

lemma bufs_accepted_simps [simp]:
  "bufs_accepted context n []"
  "bufs_accepted context n (buf # bufs) \<longleftrightarrow> b_flags buf AND NOT DRM_TEGRA_SUBMIT_RELOC_SECTOR_LAYOUT = 0 \<and>
     ctx_mappings context (b_mapping buf) \<noteq> None \<and> unat (b_gather_offset_words buf) < n \<and> bufs_accepted context n bufs"
  by (simp_all add: bufs_accepted_def)

lemma process_bufs_balanced:
  assumes ok: "mappings_ok context s" and "\<forall>buf \<in> set bufs. unat (b_shift buf) < 64"
    and "\<forall>a \<in> set used. \<exists>m. dm_mappings s a = Some m \<and> 0 < m_ref m"
  shows "if bufs_accepted context (length data) bufs
    then process_bufs context bufs used data (add_refs used s) =
      Some (Inr (rev used @ map (the \<circ> ctx_mappings context \<circ> b_mapping) bufs), write_relocs (buf_mappings context s bufs) data,
        add_refs (rev used @ map (the \<circ> ctx_mappings context \<circ> b_mapping) bufs) s)
    else \<exists>data'. process_bufs context bufs used data (add_refs used s) = Some (Inl EINVAL, data', s)"
  using assms(2,3)
proof (induction bufs arbitrary: used data)
  case Nil
  have "add_refs used s = add_refs (rev used) s" by (rule add_refs_cong) simp
  then show ?case by (simp add: write_relocs_def buf_mappings_def)
next
  case (Cons buf bufs)
  have drop: "drop_refs used (add_refs used s) = Some s" using Cons.prems(2) by (rule drop_refs_ref)
  show ?case
  proof (cases "b_flags buf AND NOT DRM_TEGRA_SUBMIT_RELOC_SECTOR_LAYOUT = 0")
    case False
    then show ?thesis by (simp add: drop)
  next
    case flags: True
    show ?thesis
    proof (cases "ctx_mappings context (b_mapping buf)")
      case None
      then show ?thesis using flags by (simp add: tegra_drm_mapping_get_def drop)
    next
      case (Some a)
      then obtain m where m: "dm_mappings s a = Some m" "0 < m_ref m" "m_bo_map m \<noteq> None \<or> m_ctx_map m \<noteq> None"
        using ok unfolding mappings_ok_def by blast
      note get = mapping_get_ref [OF ok Some, of used]
      let ?m = "m\<lparr>m_ref := m_ref m + count_list (a # used) a\<rparr>"
      have lookup: "dm_mappings (add_refs (a # used) s) a = Some ?m" by (simp add: add_refs_def m)
      have w: "submit_write_reloc data buf (m\<lparr>m_ref := x\<rparr>) = (if length data \<le> unat (b_gather_offset_words buf) then Some (Inl EINVAL, data)
          else Some (Inr (), data[unat (b_gather_offset_words buf) := reloc_word buf m]))" for x
        using write_reloc [of "m\<lparr>m_ref := x\<rparr>" buf data] m(3) Cons.prems(1) by simp
      show ?thesis
      proof (cases "length data \<le> unat (b_gather_offset_words buf)")
        case True
        then show ?thesis using flags mapping_put_ref [OF m(1,2), of used] by (simp add: get lookup w drop)
      next
        case False
        let ?data = "data[unat (b_gather_offset_words buf) := reloc_word buf m]"
        have step: "process_bufs context (buf # bufs) used data (add_refs used s) =
            process_bufs context bufs (a # used) ?data (add_refs (a # used) s)"
          using flags False by (simp add: get lookup w)
        have "\<forall>a \<in> set (a # used). \<exists>m. dm_mappings s a = Some m \<and> 0 < m_ref m" using Cons.prems(2) m by auto
        from Cons.IH [OF _ this, of ?data] show ?thesis
          unfolding step using Cons.prems(1) flags Some False by (simp add: write_relocs_def buf_mappings_def m comp_def)
      qed
    qed
  qed
qed

text \<open>C40: With a readable table of buffers and shifts below 64, taking the buffers of a job balances the
  references of the mappings on every path: when there are at most 682 buffers and memory for them, and every
  buffer names a mapping of the context, a word of the gather data and no unknown flag, each mapping holds one more
  reference for every buffer that names it and the words hold the addresses, written in the order of the
  buffers; in every other case the mappings are as before.\<close>

theorem process_bufs_references:
  assumes ok: "mappings_ok context s" and shifts: "\<forall>i < unat num_bufs. unat (b_shift (user i)) < 64"
  defines "bufs \<equiv> map user [0..<unat num_bufs]"
  shows "\<exists>r data' s'. submit_process_bufs kvmalloc kcalloc (Some user) num_bufs context data s = Some (r, data', s') \<and>
    (case r of
       Inl e \<Rightarrow> s' = s
     | Inr used \<Rightarrow> used = map (the \<circ> ctx_mappings context \<circ> b_mapping) bufs \<and> s' = add_refs used s \<and>
         data' = write_relocs (buf_mappings context s bufs) data) \<and>
    (isl r \<longleftrightarrow> 682 < unat num_bufs \<or> \<not> kvmalloc \<or> \<not> kcalloc \<or> \<not> bufs_accepted context (length data) bufs)"
proof -
  have "\<forall>buf \<in> set bufs. unat (b_shift buf) < 64" using shifts by (auto simp: bufs_def)
  note p = process_bufs_balanced [OF ok this, of "[]" data]
  have "unat num_bufs * 24 < 2 ^ 64" using unat_lt2p_32 [of num_bufs] by simp
  then have c: "alloc_copy_user_array kvmalloc (Some user) (unat num_bufs) 24 =
      (if 682 < unat num_bufs then Inl E2BIG else if \<not> kvmalloc then Inl ENOMEM else Inr bufs)"
    by (auto simp: alloc_copy_user_array_def bufs_def)
  show ?thesis
  proof (cases "682 < unat num_bufs \<or> \<not> kvmalloc \<or> \<not> kcalloc")
    case True
    then show ?thesis by (auto simp: submit_process_bufs_def c)
  next
    case False
    then have "submit_process_bufs kvmalloc kcalloc (Some user) num_bufs context data s = process_bufs context bufs [] data s"
      unfolding submit_process_bufs_def c by simp
    then show ?thesis using p False by (cases "bufs_accepted context (length data) bufs") auto
  qed
qed

section \<open>The commands of a job\<close>

text \<open>
  A list of commands is sound from word \<open>off\<close> on with class \<open>cls\<close> in force: the gathers follow each
  other in the gather data, each decodes and passes the firewall in the class the one before it ended in,
  and a wait returns to the class in force.
\<close>

fun commands_sound :: "tegra_drm_client \<Rightarrow> tegra_drm_mapping list \<Rightarrow> u32 list \<Rightarrow> nat \<Rightarrow> u32 \<Rightarrow> host1x_job_cmd list \<Rightarrow> bool" where
  "commands_sound client ms data off cls [] \<longleftrightarrow> True"
| "commands_sound client ms data off cls (HOST1X_JOB_CMD_GATHER g # cs) \<longleftrightarrow>
     unat (g_offset g) = 4 * off \<and> unat (g_words g) \<le> 16383 \<and> off + unat (g_words g) \<le> length data \<and>
     (case decode None cls (take (unat (g_words g)) (drop off data)) of
        None \<Rightarrow> False
      | Some (es, c) \<Rightarrow> list_all (event_ok client ms) es \<and> commands_sound client ms data (off + unat (g_words g)) c cs)"
| "commands_sound client ms data off cls (HOST1X_JOB_CMD_WAIT w # cs) \<longleftrightarrow>
     w_next_class w = cls \<and> commands_sound client ms data off cls cs"
| "commands_sound client ms data off cls (HOST1X_JOB_CMD_REG_WRITE r # cs) \<longleftrightarrow> commands_sound client ms data off cls cs"

fun command_shape :: "host1x_job_cmd \<Rightarrow> (u32 \<times> u32 \<times> u32) list" where
  "command_shape (HOST1X_JOB_CMD_GATHER g) = [(DRM_TEGRA_SUBMIT_CMD_GATHER_UPTR, g_words g, 0)]"
| "command_shape (HOST1X_JOB_CMD_WAIT w) =
     [(if w_relative w then DRM_TEGRA_SUBMIT_CMD_WAIT_SYNCPT_RELATIVE else DRM_TEGRA_SUBMIT_CMD_WAIT_SYNCPT, w_id w, w_threshold w)]"
| "command_shape (HOST1X_JOB_CMD_REG_WRITE r) = []"

definition user_shape :: "drm_tegra_submit_cmd \<Rightarrow> u32 \<times> u32 \<times> u32" where
  "user_shape cmd = (c_type cmd, c_word0 cmd, c_word1 cmd)"

definition added :: "host1x_job_cmd list \<Rightarrow> job_object \<Rightarrow> job_object" where
  "added cs job = job\<lparr>jo_cmds := jo_cmds job @ cs\<rparr>"

lemma added_simps [simp]:
  "added [] job = job" "added ds (added cs job) = added (cs @ ds) job" "jo_max_cmds (added cs job) = jo_max_cmds job"
  "jo_cmds (added cs job) = jo_cmds job @ cs"
  by (simp_all add: added_def)

lemma add_cmd_room: "length (jo_cmds job) < jo_max_cmds job \<Longrightarrow> add_cmd c job = Some (added [c] job)"
  by (simp add: add_cmd_def added_def)

definition job_gather :: "nat \<Rightarrow> u32 \<Rightarrow> u32 \<Rightarrow> host1x_job_cmd" where
  "job_gather bo words offset =
     HOST1X_JOB_CMD_GATHER \<lparr>g_words = words, g_base = 0, g_bo = bo, g_offset = offset * 4, g_handled = False\<rparr>"

lemma add_gather_checks:
  assumes room: "length (jo_cmds job) < jo_max_cmds job" and off: "unat offset + 16383 < 2 ^ 30"
  obtains "submit_job_add_gather context cmd bo data offset ms cls job = Some (Inl EINVAL)"
  | c es where "submit_job_add_gather context cmd bo data offset ms cls job =
        Some (Inr (offset + c_word0 cmd, c, added [job_gather bo (c_word0 cmd) offset] job))"
      and "unat (offset + c_word0 cmd) = unat offset + unat (c_word0 cmd)" and "unat (c_word0 cmd) \<le> 16383"
      and "unat offset + unat (c_word0 cmd) \<le> length data" and "c_word1 cmd = 0"
      and "decode None cls (take (unat (c_word0 cmd)) (drop (unat offset) data)) = Some (es, c)"
      and "list_all (event_ok (ctx_client context) ms) es"
proof (cases "c_word1 cmd \<noteq> 0 \<or> c_word2 cmd \<noteq> 0 \<or> c_word3 cmd \<noteq> 0 \<or> 16383 < c_word0 cmd")
  case True
  then show thesis using that(1) by (auto simp: submit_job_add_gather_def)
next
  case False
  then have w: "unat (c_word0 cmd) \<le> 16383" by (simp add: word_le_unat not_less)
  have s: "unat offset + unat (c_word0 cmd) < 2 ^ 32" using off w by simp
  then have n: "unat (offset + c_word0 cmd) = unat offset + unat (c_word0 cmd)" by (simp add: unat_add_no_wrap)
  show thesis
  proof (cases "unat offset + unat (c_word0 cmd) \<le> length data")
    case len: True
    note v = fw_validate [OF len s, where cls = cls and client = "ctx_client context" and ms = ms]
    have g: "host1x_job_add_gather bo (c_word0 cmd) (offset * 4) job = Some (added [job_gather bo (c_word0 cmd) offset] job)"
      using add_cmd_room [OF room] by (simp add: host1x_job_add_gather_def job_gather_def)
    show thesis
    proof (cases "decode None cls (take (unat (c_word0 cmd)) (drop (unat offset) data))")
      case None
      then show thesis using v that(1) False s len by (auto simp: submit_job_add_gather_def n not_le)
    next
      case (Some ec)
      obtain es c where ec: "ec = (es, c)" by fastforce
      show thesis
      proof (cases "list_all (event_ok (ctx_client context) ms) es")
        case True
        then have "submit_job_add_gather context cmd bo data offset ms cls job =
            Some (Inr (offset + c_word0 cmd, c, added [job_gather bo (c_word0 cmd) offset] job))"
          using v False s len Some ec g by (simp add: submit_job_add_gather_def n not_le)
        from that(2) [OF this n w len _ _ True] show thesis using Some ec False by simp
      next
        case bad: False
        then show thesis using v that(1) False s len Some ec by (auto simp: submit_job_add_gather_def n not_le)
      qed
    qed
  next
    case False': False
    then show thesis using that(1) False s by (auto simp: submit_job_add_gather_def n not_le)
  qed
qed

fun gather_words :: "host1x_job_cmd \<Rightarrow> nat" where
  "gather_words (HOST1X_JOB_CMD_GATHER g) = unat (g_words g)"
| "gather_words _ = 0"

definition cmds_ended ::
  "tegra_drm_context \<Rightarrow> tegra_drm_mapping list \<Rightarrow> u32 list \<Rightarrow> drm_tegra_submit_cmd list \<Rightarrow> u32 \<Rightarrow> u32 \<Rightarrow> job_object \<Rightarrow>
    ((errno + u32) \<times> job_object) option \<Rightarrow> bool" where
  "cmds_ended context ms data cmds offset cls job res \<longleftrightarrow>
     (\<exists>r new. res = Some (r, added new job) \<and>
       (case r of
          Inl e \<Rightarrow> e = EINVAL
        | Inr off \<Rightarrow>
            commands_sound (ctx_client context) ms data (unat offset) cls new \<and>
            concat (map command_shape new) = map user_shape cmds \<and>
            unat off = unat offset + sum_list (map gather_words new)))"

lemma cmds_ended_error: "cmds_ended context ms data cmds offset cls job (Some (Inl EINVAL, job))"
  unfolding cmds_ended_def by (rule exI [of _ "Inl EINVAL"], rule exI [of _ "[]"]) simp

lemma cmds_ended_added:
  assumes "cmds_ended context ms data cmds offset' cls' (added pre job) res"
    and "\<And>new. commands_sound (ctx_client context) ms data (unat offset') cls' new \<Longrightarrow>
      commands_sound (ctx_client context) ms data (unat offset) cls (pre @ new)"
    and "concat (map command_shape pre) = [user_shape cmd]"
    and "unat offset' = unat offset + sum_list (map gather_words pre)"
  shows "cmds_ended context ms data (cmd # cmds) offset cls job res"
proof -
  obtain r new where r: "res = Some (r, added (pre @ new) job)" "case r of Inl e \<Rightarrow> e = EINVAL | Inr off \<Rightarrow>
      commands_sound (ctx_client context) ms data (unat offset') cls' new \<and> concat (map command_shape new) = map user_shape cmds \<and>
      unat off = unat offset' + sum_list (map gather_words new)"
    using assms(1) by (auto simp: cmds_ended_def)
  show ?thesis unfolding cmds_ended_def
    by (rule exI [of _ r], rule exI [of _ "pre @ new"]) (use r assms(2-4) in \<open>auto split: sum.splits\<close>)
qed

lemma submit_cmds_ended:
  assumes "length (jo_cmds job) + length cmds + (if tsp \<noteq> None \<and> first then 2 else 0) \<le> jo_max_cmds job"
    and "unat offset + 16383 * length cmds < 2 ^ 30"
  shows "cmds_ended context ms data cmds offset cls job (submit_cmds context args bo data ms tsp cmds first offset cls job)"
  using assms
proof (induction cmds arbitrary: first offset cls job)
  case Nil
  show ?case unfolding cmds_ended_def by (rule exI [of _ "Inr offset"], rule exI [of _ "[]"]) simp
next
  case (Cons cmd cmds)
  note err = cmds_ended_error [of "context" ms data "cmd # cmds" offset cls job]
  consider (bad) "c_flags cmd \<noteq> 0 \<or> c_type cmd \<notin> {DRM_TEGRA_SUBMIT_CMD_GATHER_UPTR, DRM_TEGRA_SUBMIT_CMD_WAIT_SYNCPT,
        DRM_TEGRA_SUBMIT_CMD_WAIT_SYNCPT_RELATIVE}"
    | (gather) "c_flags cmd = 0" "c_type cmd = DRM_TEGRA_SUBMIT_CMD_GATHER_UPTR"
    | (wait) rel where "c_flags cmd = 0"
        "c_type cmd = (if rel then DRM_TEGRA_SUBMIT_CMD_WAIT_SYNCPT_RELATIVE else DRM_TEGRA_SUBMIT_CMD_WAIT_SYNCPT)"
    by auto metis+
  then show ?case
  proof cases
    case bad
    then show ?thesis using err by auto
  next
    case gather
    obtain regs where regs: "regs = (if tsp \<noteq> None \<and> first
        then [HOST1X_JOB_CMD_REG_WRITE \<lparr>rw_reg = FALCON_UCLASS_METHOD_OFFSET, rw_value = FALCON_METHOD_TSP\<rparr>,
          HOST1X_JOB_CMD_REG_WRITE \<lparr>rw_reg = FALCON_UCLASS_METHOD_DATA, rw_value = the tsp\<rparr>] else [])" by blast
    let ?first = "first \<and> tsp = None"
    let ?job = "added regs job"
    have step: "submit_cmds context args bo data ms tsp (cmd # cmds) first offset cls job =
        do { r \<leftarrow> submit_job_add_gather context cmd bo data offset ms cls ?job;
             case r of Inl e \<Rightarrow> Some (Inl e, ?job)
             | Inr (offset, cls, job) \<Rightarrow> submit_cmds context args bo data ms tsp cmds ?first offset cls job }"
      using gather Cons.prems(1)
      by (cases tsp; cases first) (simp_all add: host1x_job_add_reg_write_def add_cmd_room regs)
    have r: "commands_sound (ctx_client context) ms data (unat offset) cls (regs @ ns) =
        commands_sound (ctx_client context) ms data (unat offset) cls ns" for ns by (simp add: regs)
    have shape: "concat (map command_shape regs) = []" "sum_list (map gather_words regs) = 0" by (auto simp: regs)
    have room: "length (jo_cmds ?job) + Suc (length cmds) \<le> jo_max_cmds ?job" and off: "unat offset + 16383 < 2 ^ 30"
      using Cons.prems by (cases tsp; cases first; simp add: regs)+
    have "length (jo_cmds ?job) < jo_max_cmds ?job" using room by simp
    from this off show ?thesis
    proof (rule add_gather_checks [of ?job offset "context" cmd bo data ms cls])
      assume "submit_job_add_gather context cmd bo data offset ms cls ?job = Some (Inl EINVAL)"
      then show ?thesis unfolding step cmds_ended_def
        by (intro exI [of _ "Inl EINVAL"] exI [of _ regs]) simp
    next
      fix c es
      let ?pre = "regs @ [job_gather bo (c_word0 cmd) offset]"
      assume g: "submit_job_add_gather context cmd bo data offset ms cls ?job =
          Some (Inr (offset + c_word0 cmd, c, added [job_gather bo (c_word0 cmd) offset] ?job))"
        and n: "unat (offset + c_word0 cmd) = unat offset + unat (c_word0 cmd)" "unat (c_word0 cmd) \<le> 16383"
          "unat offset + unat (c_word0 cmd) \<le> length data" "c_word1 cmd = 0"
        and d: "decode None cls (take (unat (c_word0 cmd)) (drop (unat offset) data)) = Some (es, c)"
          "list_all (event_ok (ctx_client context) ms) es"
      have IH: "cmds_ended context ms data cmds (offset + c_word0 cmd) c (added ?pre job)
          (submit_cmds context args bo data ms tsp cmds ?first (offset + c_word0 cmd) c (added ?pre job))"
        using Cons.prems n room by (intro Cons.IH; cases tsp; simp)
      have four: "unat (offset * 4) = 4 * unat offset" using off by (simp add: unat_word_ariths)
      have "submit_cmds context args bo data ms tsp (cmd # cmds) first offset cls job =
          submit_cmds context args bo data ms tsp cmds ?first (offset + c_word0 cmd) c (added ?pre job)"
        unfolding step g by simp
      moreover have "cmds_ended context ms data (cmd # cmds) offset cls job
          (submit_cmds context args bo data ms tsp cmds ?first (offset + c_word0 cmd) c (added ?pre job))"
        by (rule cmds_ended_added [OF IH]) (use n d four gather shape in \<open>simp_all add: r job_gather_def user_shape_def\<close>)
      ultimately show ?thesis by simp
    qed
  next
    case wait
    let ?w = "HOST1X_JOB_CMD_WAIT \<lparr>w_id = c_word0 cmd, w_threshold = c_word1 cmd, w_next_class = cls, w_relative = rel\<rparr>"
    have IH: "cmds_ended context ms data cmds offset cls (added [?w] job)
        (submit_cmds context args bo data ms tsp cmds first offset cls (added [?w] job))"
      using Cons.prems by (intro Cons.IH) (auto split: if_splits)
    have "host1x_job_add_wait (c_word0 cmd) (c_word1 cmd) rel cls job = Some (added [?w] job)"
      using Cons.prems(1) by (simp add: host1x_job_add_wait_def add_cmd_room)
    moreover have "cmds_ended context ms data (cmd # cmds) offset cls job
        (submit_cmds context args bo data ms tsp cmds first offset cls (added [?w] job))"
      by (rule cmds_ended_added [OF IH]) (use wait in \<open>auto simp: user_shape_def\<close>)
    ultimately show ?thesis using wait err
      by (auto simp: DRM_TEGRA_SUBMIT_CMD_GATHER_UPTR_def DRM_TEGRA_SUBMIT_CMD_WAIT_SYNCPT_def
          DRM_TEGRA_SUBMIT_CMD_WAIT_SYNCPT_RELATIVE_def split: if_splits)
  qed
qed

section \<open>Building a job\<close>

definition file_syncpoints :: "(u32 \<rightharpoonup> nat) \<Rightarrow> host1x \<Rightarrow> bool" where
  "file_syncpoints syncpoints h \<longleftrightarrow>
     (\<forall>i sp. syncpoints i = Some sp \<longrightarrow> sp < length (h_syncpt h) \<and> 0 < sp_ref (sp_get sp h))"

lemma syncpt_get_then_put:
  assumes "i < length (h_syncpt h)" and "0 < sp_ref (sp_get i h)"
  shows "host1x_syncpt_put (Some i) (host1x_syncpt_get i h) = Some h"
  using assms by (simp add: host1x_syncpt_put_def syncpt_put_ref_def host1x_syncpt_get_def Let_def sp_put_get)

lemma syncpt_get_commute:
  "i \<noteq> j \<Longrightarrow> host1x_syncpt_get i (host1x_syncpt_get j h) = host1x_syncpt_get j (host1x_syncpt_get i h)"
  by (simp add: host1x_syncpt_get_def sp_put_def sp_get_def nth_list_update list_update_swap)

lemma syncpt_get_refs:
  "i < length (h_syncpt h) \<Longrightarrow> sp_ref (sp_get i (host1x_syncpt_get j h)) = sp_ref (sp_get i h) + (if i = j then 1 else 0)"
  by (simp add: host1x_syncpt_get_def sp_put_def sp_get_def nth_list_update)

lemma syncpt_get_length [simp]: "length (h_syncpt (host1x_syncpt_get j h)) = length (h_syncpt h)"
  by (simp add: host1x_syncpt_get_def)

text \<open>The references a job holds are given back when it is freed.\<close>

definition job_refs :: "nat option \<Rightarrow> nat option \<Rightarrow> host1x \<Rightarrow> host1x" where
  "job_refs p q h = (case q of None \<Rightarrow> id | Some j \<Rightarrow> host1x_syncpt_get j) ((case p of None \<Rightarrow> id | Some i \<Rightarrow> host1x_syncpt_get i) h)"

lemma job_refs_released:
  assumes "\<forall>i \<in> set_option p \<union> set_option q. i < length (h_syncpt h) \<and> 0 < sp_ref (sp_get i h)"
  shows "host1x_syncpt_put p (job_refs p q h) \<bind> host1x_syncpt_put q = Some h"
proof (cases p; cases q)
  fix i j assume pq: "p = Some i" "q = Some j"
  have "host1x_syncpt_put (Some i) (host1x_syncpt_get j (host1x_syncpt_get i h)) = Some (host1x_syncpt_get j h)"
  proof (cases "i = j")
    case True
    then show ?thesis using assms pq syncpt_get_then_put [of i "host1x_syncpt_get i h"] by (simp add: syncpt_get_refs)
  next
    case False
    then show ?thesis
      unfolding syncpt_get_commute [OF not_sym [OF False]]
      using assms pq syncpt_get_then_put [of i "host1x_syncpt_get j h"] by (simp add: syncpt_get_refs)
  qed
  then show ?thesis using assms pq by (simp add: job_refs_def syncpt_get_then_put)
qed (use assms in \<open>simp_all add: job_refs_def syncpt_get_then_put host1x_syncpt_put_def [of None]\<close>)

lemma get_syncpt_cases:
  assumes "submit_get_syncpt syncpoints args job h = (r, job', h')" and ok: "file_syncpoints syncpoints h"
    and none: "jo_syncpt job = None" "jo_secondary job = None"
  obtains p q n where "h' = job_refs p q h" and "job' = job\<lparr>jo_syncpt := p, jo_syncpt_incrs := n, jo_secondary := q\<rparr>"
    and "\<forall>i \<in> set_option p \<union> set_option q. i < length (h_syncpt h) \<and> 0 < sp_ref (sp_get i h)"
    and "r = Inr () \<longrightarrow> p = syncpoints (a_syncpt_id args) \<and> p \<noteq> None \<and> n = a_syncpt_increments args"
proof (cases "a_syncpt_flags args \<noteq> 0 \<or> syncpoints (a_syncpt_id args) = None")
  case True
  then have "r \<noteq> Inr ()" "job' = job" "h' = h" using assms(1) by (auto simp: submit_get_syncpt_def split: if_splits)
  then show thesis using that [of None None "jo_syncpt_incrs job"] none by (simp add: job_refs_def)
next
  case False
  then obtain i where i: "syncpoints (a_syncpt_id args) = Some i" by auto
  let ?two = "a_flags args AND DRM_TEGRA_SUBMIT_SECONDARY_SYNCPT \<noteq> 0"
  let ?q = "if ?two then syncpoints (a_secondary_syncpt_id args) else None"
  have "h' = job_refs (Some i) ?q h" "job' = job\<lparr>jo_syncpt := Some i, jo_syncpt_incrs := a_syncpt_increments args, jo_secondary := ?q\<rparr>"
    using assms(1) False i none by (auto simp: submit_get_syncpt_def job_refs_def Let_def split: if_splits option.splits)
  moreover have "\<forall>k \<in> set_option (Some i) \<union> set_option ?q. k < length (h_syncpt h) \<and> 0 < sp_ref (sp_get k h)"
    using ok i by (auto simp: file_syncpoints_def split: if_splits)
  ultimately show thesis using that [of "Some i" ?q "a_syncpt_increments args"] i by simp
qed

lemma job_put_refs:
  assumes "jo_ref job = 1" and "jo_fence job = None" and "jo_syncpt job = p" and "jo_secondary job = q"
    and "\<forall>i \<in> set_option p \<union> set_option q. i < length (h_syncpt h) \<and> 0 < sp_ref (sp_get i h)"
  shows "host1x_job_put a b job (job_refs p q h) = Some (None, h)"
  using job_refs_released [OF assms(5)] assms(1-4)
  by (auto simp: host1x_job_put_def job_free_def split: option.splits)

text \<open>C2: Building a job from the commands of user space always returns: it fails without a trace, the
  references of the syncpoints being what they were, or gives a job whose commands are those of
  the user and sound as a whole: the gathers take successive words of the gather data, at least one
  word in all, each passes the firewall in the class the one before it ended in, and every wait goes
  back to the class in force; no command is stored outside of the array of the job.\<close>

theorem create_job_sound:
  assumes ok: "file_syncpoints syncpoints h" and len: "length cmds = unat (a_num_cmds args)"
    and user: "alloc_copy_user_array True from (unat (a_num_cmds args)) 24 = Inr cmds"
  shows "\<exists>r h'. submit_create_job kzalloc config_firewall context bo data args ms tsp syncpoints cmds h = Some (r, h') \<and>
    (case r of
       Inl e \<Rightarrow> h' = h
     | Inr job \<Rightarrow>
         commands_sound (ctx_client context) ms data 0 (cl_class (ctx_client context)) (jo_cmds job) \<and>
         concat (map command_shape (jo_cmds job)) = map user_shape cmds \<and> 0 < sum_list (map gather_words (jo_cmds job)) \<and>
         jo_syncpt job = syncpoints (a_syncpt_id args) \<and> jo_syncpt_incrs job = a_syncpt_increments args \<and>
         h' = job_refs (jo_syncpt job) (jo_secondary job) h)"
proof -
  have few: "length cmds \<le> 682" using user by (auto simp: alloc_copy_user_array_def split: if_splits option.splits)
  then have n: "unat (a_num_cmds args) \<le> 682" by (simp add: len)
  let ?needed = "if tsp \<noteq> None then a_num_cmds args + 2 else a_num_cmds args"
  have needed: "unat ?needed = length cmds + (if tsp \<noteq> None then 2 else 0)" using n by (simp add: len unat_add_no_wrap)
  have "\<not> 2 ^ 32 \<le> unat (a_num_cmds args) + 2" using n by simp
  note create = submit_create_job_def this
  show ?thesis
  proof (cases "host1x_job_alloc kzalloc config_firewall ?needed 0 True")
    case None
    then show ?thesis using n by (simp add: submit_create_job_def)
  next
    case (Some job)
    then have job: "jo_ref job = 1" "jo_fence job = None" "jo_cmds job = []" "jo_max_cmds job = unat ?needed"
        "jo_syncpt job = None" "jo_secondary job = None"
      by (auto simp: host1x_job_alloc_def Let_def split: if_splits)
    obtain r job1 h1 where g: "submit_get_syncpt syncpoints args job h = (r, job1, h1)" by (metis prod_cases3)
    then obtain p q k where pq: "h1 = job_refs p q h" "job1 = job\<lparr>jo_syncpt := p, jo_syncpt_incrs := k, jo_secondary := q\<rparr>"
        "\<forall>i \<in> set_option p \<union> set_option q. i < length (h_syncpt h) \<and> 0 < sp_ref (sp_get i h)"
        "r = Inr () \<longrightarrow> p = syncpoints (a_syncpt_id args) \<and> p \<noteq> None \<and> k = a_syncpt_increments args"
      using ok job(5,6) by (rule get_syncpt_cases)
    have put: "host1x_job_put True True j (job_refs p q h) = Some (None, h)"
      if "jo_ref j = 1" "jo_fence j = None" "jo_syncpt j = p" "jo_secondary j = q" for j
      using job_put_refs [OF that pq(3)] .
    show ?thesis
    proof (cases r)
      case (Inl e)
      then have "submit_create_job kzalloc config_firewall context bo data args ms tsp syncpoints cmds h = Some (Inl e, h)"
        using n Some g put [of job1] pq job by (simp add: submit_create_job_def)
      then show ?thesis by auto
    next
      case (Inr u)
      let ?cls = "cl_class (ctx_client context)"
      let ?job = "job1\<lparr>jo_class := ?cls, jo_serialize := True\<rparr>"
      have "cmds_ended context ms data cmds 0 ?cls ?job (submit_cmds context args bo data ms tsp cmds True 0 ?cls ?job)"
        using few job needed pq(2) by (intro submit_cmds_ended) simp_all
      then obtain r2 new where c: "submit_cmds context args bo data ms tsp cmds True 0 ?cls ?job = Some (r2, added new ?job)"
          "case r2 of Inl e \<Rightarrow> e = EINVAL | Inr off \<Rightarrow> commands_sound (ctx_client context) ms data 0 ?cls new \<and>
             concat (map command_shape new) = map user_shape cmds \<and> unat off = sum_list (map gather_words new)"
        unfolding cmds_ended_def unat_0 add_0 by blast
      have all: "submit_create_job kzalloc config_firewall context bo data args ms tsp syncpoints cmds h =
          (case r2 of Inl e \<Rightarrow> Some (Inl e, h)
           | Inr off \<Rightarrow> if off = 0 then Some (Inl EINVAL, h) else Some (Inr (added new ?job), job_refs p q h))"
        using n Some g Inr c(1) put [of "added new ?job"] pq(1,2) job len
        by (simp add: submit_create_job_def added_def split: sum.split)
      show ?thesis
      proof (cases r2)
        case (Inr off)
        then have "unat off = sum_list (map gather_words new)" using c(2) by simp
        then have "off = 0 \<longleftrightarrow> sum_list (map gather_words new) = 0" by (metis unat_eq_zero)
        then show ?thesis using c(2) Inr pq(4) \<open>r = Inr u\<close> unfolding all by (auto simp: added_def pq(2) job)
      qed (simp add: all)
    qed
  qed
qed

section \<open>Examples\<close>

definition drm_context_ex :: tegra_drm_context where
  "drm_context_ex = \<lparr>ctx_client = fw_client_ex, ctx_mappings = [7 \<mapsto> 100], ctx_memory_context = None\<rparr>"

definition drm_memory_ex :: drm_memory where
  "drm_memory_ex = \<lparr>dm_mappings = [100 \<mapsto> fw_mapping_ex], dm_log = []\<rparr>"

definition buf_ex :: "u32 \<Rightarrow> u32 \<Rightarrow> drm_tegra_submit_buf" where
  "buf_ex i word = \<lparr>b_mapping = i, b_flags = 0, b_target_offset = 0x800, b_gather_offset_words = word, b_shift = 0\<rparr>"

theorem process_bufs_references_witness:
  "submit_process_bufs True True (Some (\<lambda>i. buf_ex 7 (of_nat i + 2))) 2 drm_context_ex [0, 0, 0, 0] drm_memory_ex =
     Some (Inr [100, 100], [0, 0, 0x1800, 0x1800], add_refs [100, 100] drm_memory_ex) \<and>
   (\<exists>e data. submit_process_bufs True True (Some (\<lambda>i. buf_ex (of_nat i + 7) 0)) 2 drm_context_ex [0] drm_memory_ex =
     Some (Inl e, data, drm_memory_ex))"
proof -
  let ?u = "\<lambda>i. buf_ex 7 (of_nat i + 2)" and ?v = "\<lambda>i. buf_ex (of_nat i + 7) 0"
  have ok: "mappings_ok drm_context_ex drm_memory_ex"
    by (simp add: mappings_ok_def drm_context_ex_def drm_memory_ex_def fw_mapping_ex_def)
  have two: "map f [0..<unat (2 :: u32)] = [f 0, f 1]" for f :: "nat \<Rightarrow> drm_tegra_submit_buf" by (simp add: upt_rec)
  have u: "\<forall>i < unat (2 :: u32). unat (b_shift (?u i)) < 64" and v: "\<forall>i < unat (2 :: u32). unat (b_shift (?v i)) < 64"
    by (simp_all add: buf_ex_def)
  have bu: "[?u 0, ?u 1] = [buf_ex 7 2, buf_ex 7 3]" and bv: "[?v 0, ?v 1] = [buf_ex 7 0, buf_ex 8 0]" by simp_all
  have acc: "bufs_accepted drm_context_ex (length [0, 0, 0, 0 :: u32]) [buf_ex 7 2, buf_ex 7 3]"
    and rej: "\<not> bufs_accepted drm_context_ex (length [0 :: u32]) [buf_ex 7 0, buf_ex 8 0]"
    by (simp_all add: buf_ex_def drm_context_ex_def)
  have small: "\<not> 682 < unat (2 :: u32)" by simp
  have words: "write_relocs (buf_mappings drm_context_ex drm_memory_ex [buf_ex 7 2, buf_ex 7 3]) [0, 0, 0, 0] = [0, 0, 0x1800, 0x1800]"
    by (simp add: write_relocs_def buf_mappings_def drm_context_ex_def drm_memory_ex_def buf_ex_def reloc_word_def fw_mapping_ex_def)
  have names: "map (the \<circ> ctx_mappings drm_context_ex \<circ> b_mapping) [buf_ex 7 2, buf_ex 7 3] = [100, 100]"
    by (simp add: drm_context_ex_def buf_ex_def)
  obtain r d t where 1: "submit_process_bufs True True (Some ?u) 2 drm_context_ex [0, 0, 0, 0] drm_memory_ex = Some (r, d, t)"
      "case r of Inl e \<Rightarrow> t = drm_memory_ex | Inr us \<Rightarrow> us = [100, 100] \<and> t = add_refs us drm_memory_ex \<and> d = [0, 0, 0x1800, 0x1800]"
      "\<not> isl r"
    using process_bufs_references [OF ok u, of True True "[0, 0, 0, 0]", unfolded two bu words names] acc small by blast
  obtain r2 d2 t2 where 2: "submit_process_bufs True True (Some ?v) 2 drm_context_ex [0] drm_memory_ex = Some (r2, d2, t2)"
      "isl r2" "isl r2 \<Longrightarrow> t2 = drm_memory_ex"
    using process_bufs_references [OF ok v, of True True "[0]", unfolded two bv] rej by (fastforce split: sum.splits simp del: bufs_accepted_simps)
  show ?thesis using 1 2 by (cases r; cases r2) auto
qed

definition submit_args_ex :: drm_tegra_channel_submit where
  "submit_args_ex = \<lparr>a_flags = 0, a_num_cmds = 2, a_syncpt_id = 5, a_syncpt_flags = 0, a_syncpt_increments = 1, a_secondary_syncpt_id = 0\<rparr>"

definition user_cmds_ex :: "drm_tegra_submit_cmd list" where
  "user_cmds_ex =
     [\<lparr>c_type = 1, c_flags = 0, c_word0 = 3, c_word1 = 9, c_word2 = 0, c_word3 = 0\<rparr>,
      \<lparr>c_type = 0, c_flags = 0, c_word0 = 4, c_word1 = 0, c_word2 = 0, c_word3 = 0\<rparr>]"

definition drm_host_ex :: host1x where
  "drm_host_ex = host_ex\<lparr>h_syncpt := replicate 4 (zero_syncpt\<lparr>sp_ref := 1\<rparr>)\<rparr>"

lemma submit_ex_checked:
  "tegra_drm_fw_validate fw_client_ex [0x1440, 0x102a0002, 0x40, 0x1800] 0 4 [fw_mapping_ex] 0x51 = Some (Inr (), 0x51)"
proof -
  have "decode None 0x51 [0x1440, 0x102a0002, 0x40, 0x1800] =
      Some ([Class_change 0x51, Register_write 0x51 0x2a 0x40, Register_write 0x51 0x2b 0x1800], 0x51)" by code_simp
  then show ?thesis
    using fw_validate [where start = 0 and words = 4 and data = "[0x1440, 0x102a0002, 0x40, 0x1800]" and cls = "0x51"
        and client = fw_client_ex and ms = "[fw_mapping_ex]"]
    by (simp add: class_ok_def is_addr_def mapped_def just_behind_def fw_client_ex_def fw_mapping_ex_def del: decode.simps)
qed

theorem create_job_sound_witness:
  "\<exists>job. submit_create_job True False drm_context_ex 3 [0x1440, 0x102a0002, 0x40, 0x1800] submit_args_ex [fw_mapping_ex] (Some 0x40)
      [5 \<mapsto> 1] user_cmds_ex drm_host_ex = Some (Inr job, job_refs (Some 1) (jo_secondary job) drm_host_ex) \<and>
    commands_sound fw_client_ex [fw_mapping_ex] [0x1440, 0x102a0002, 0x40, 0x1800] 0 0x51 (jo_cmds job) \<and>
    concat (map command_shape (jo_cmds job)) = [(1, 3, 9), (0, 4, 0)]"
proof -
  let ?data = "[0x1440, 0x102a0002, 0x40, 0x1800]" and ?sp = "[5 \<mapsto> 1] :: u32 \<rightharpoonup> nat"
  let ?res = "submit_create_job True False drm_context_ex 3 ?data submit_args_ex [fw_mapping_ex] (Some 0x40) ?sp user_cmds_ex drm_host_ex"
  have ok: "file_syncpoints ?sp drm_host_ex"
    by (simp add: file_syncpoints_def drm_host_ex_def sp_get_def zero_syncpt_def)
  have user: "alloc_copy_user_array True (Some (\<lambda>i. user_cmds_ex ! i)) (unat (a_num_cmds submit_args_ex)) 24 = Inr user_cmds_ex"
    and len: "length user_cmds_ex = unat (a_num_cmds submit_args_ex)"
    by (simp_all add: alloc_copy_user_array_def submit_args_ex_def user_cmds_ex_def upt_rec)
  have "?res \<noteq> None \<and> \<not> isl (fst (the ?res))"
    using submit_ex_checked
    by (simp add: submit_create_job_def submit_args_ex_def host1x_job_alloc_def submit_get_syncpt_def user_cmds_ex_def
        drm_context_ex_def fw_client_ex_def Let_def host1x_job_add_wait_def host1x_job_add_reg_write_def add_cmd_def
        submit_job_add_gather_def host1x_job_add_gather_def DRM_TEGRA_SUBMIT_CMD_GATHER_UPTR_def
        DRM_TEGRA_SUBMIT_CMD_WAIT_SYNCPT_def DRM_TEGRA_SUBMIT_SECONDARY_SYNCPT_def)
  then obtain job h' where e: "?res = Some (Inr job, h')" by (cases ?res) (auto simp: isl_def split: sum.splits, metis sum.exhaust)
  show ?thesis
    using create_job_sound [OF ok len user, of True False drm_context_ex 3 ?data "[fw_mapping_ex]" "Some 0x40"] unfolding e
    by (auto simp: user_cmds_ex_def user_shape_def drm_context_ex_def fw_client_ex_def submit_args_ex_def)
qed

end
