(* ===== verification/Pva_Types.thy ===== *)
theory Pva_Types imports Prelude "HOL-Library.Monad_Syntax" begin

text \<open>
  The data of the PVA driver (\<open>drivers/video/tegra/host/pva\<close>) that its checks of DMA descriptors use:
  the descriptors and channels as user space passes them (\<open>include/uapi/linux/nvpva_ioctl.h\<close>), the descriptors as the
  hardware reads them, and the task that carries both.  A C function that may access an array
  outside of its bounds or divide by zero has an option around its result.
\<close>

section \<open>Signed arithmetic and arrays\<close>

type_synonym s32 = "32 word" \<comment> \<open>\<open>int32_t\<close>, read by \<open>sint\<close>\<close>
type_synonym s16 = "16 word"

text \<open>The result of an operation on \<open>int32_t\<close> and \<open>int64_t\<close>, which the kernel compiles to wrap around.\<close>

definition wrap32 :: "int \<Rightarrow> int" where
  "wrap32 x = (x + 2 ^ 31) mod 2 ^ 32 - 2 ^ 31"

definition wrap64 :: "int \<Rightarrow> int" where
  "wrap64 x = (x + 2 ^ 63) mod 2 ^ 64 - 2 ^ 63"

lemma wrap64_id [simp]: "- (2 ^ 63) \<le> x \<Longrightarrow> x < 2 ^ 63 \<Longrightarrow> wrap64 x = x"
  unfolding wrap64_def by simp

lemma wrap32_id [simp]: "- (2 ^ 31) \<le> x \<Longrightarrow> x < 2 ^ 31 \<Longrightarrow> wrap32 x = x"
  unfolding wrap32_def by simp

lemma wrap64_above:
  assumes "2 ^ 63 \<le> x" and "x < 2 ^ 64"
  shows "wrap64 x = x - 2 ^ 64"
proof -
  have "(x + 2 ^ 63) mod 2 ^ 64 = (x - 2 ^ 63) mod 2 ^ 64"
    using mod_add_self2 [of "x - 2 ^ 63" "2 ^ 64"] by (simp add: add.commute)
  then show ?thesis using assms by (simp add: wrap64_def)
qed

definition arr_get :: "'a list \<Rightarrow> nat \<Rightarrow> 'a option" where
  "arr_get xs i = (if i < length xs then Some (xs ! i) else None)"

definition arr_set :: "'a list \<Rightarrow> nat \<Rightarrow> 'a \<Rightarrow> 'a list option" where
  "arr_set xs i v = (if i < length xs then Some (xs[i := v]) else None)"

lemma arr_get_Some [simp]: "arr_get xs i = Some v \<longleftrightarrow> i < length xs \<and> v = xs ! i"
  by (auto simp: arr_get_def)

lemma arr_set_Some [simp]: "arr_set xs i v = Some ys \<longleftrightarrow> i < length xs \<and> ys = xs[i := v]"
  by (auto simp: arr_set_def)

lemma arr_get_None [simp]: "arr_get xs i = None \<longleftrightarrow> length xs \<le> i"
  by (auto simp: arr_get_def)

lemma arr_set_None [simp]: "arr_set xs i v = None \<longleftrightarrow> length xs \<le> i"
  by (auto simp: arr_set_def)

section \<open>Descriptors and channels\<close>

record nvpva_dma_descriptor =
  srcPtr :: u32
  dstPtr :: u32
  dst2Ptr :: u32
  src_offset :: u64
  dst_offset :: u64
  dst2Offset :: u64
  surfBLOffset :: u64
  tx :: u16
  ty :: u16
  srcLinePitch :: u16
  dstLinePitch :: u16
  srcAdv1 :: s32
  dstAdv1 :: s32
  srcAdv2 :: s32
  dstAdv2 :: s32
  srcAdv3 :: s32
  dstAdv3 :: s32
  srcRpt1 :: u8
  dstRpt1 :: u8
  srcRpt2 :: u8
  dstRpt2 :: u8
  srcRpt3 :: u8
  dstRpt3 :: u8
  linkDescId :: u8
  px :: u8
  py :: u32
  srcCbEnable :: u8
  dstCbEnable :: u8
  srcCbStart :: u32
  dstCbStart :: u32
  srcCbSize :: u32
  dstCbSize :: u32
  trigEventMode :: u8
  trigVpuEvents :: u8
  descReloadEnable :: u8
  srcTransferMode :: u8
  dstTransferMode :: u8
  srcFormat :: u8
  dstFormat :: u8
  bytePerPixel :: u8
  pxDirection :: u8
  pyDirection :: u8
  boundaryPixelExtension :: u8
  transTrueCompletion :: u8
  prefetchEnable :: u8


record nvpva_dma_channel =
  descIndex :: u8
  blockHeight :: u8
  adbSize :: u16
  vdbSize :: u8
  adbOffset :: u16
  vdbOffset :: u8
  outputEnableMask :: u32
  padValue :: u32
  reqPerGrant :: u8
  ch_prefetchEnable :: u8
  chRepFactor :: u8
  hwseqStart :: u8
  hwseqEnd :: u8
  hwseqEnable :: u8
  hwseqTraversalOrder :: u8
  hwseqTxSelect :: u8
  hwseqTriggerDone :: u8

abbreviation (input) "PVA_HW_GEN1 \<equiv> (1 :: nat)"
abbreviation (input) "PVA_HW_GEN2 \<equiv> (2 :: nat)"
abbreviation (input) "PVA_HW_GEN3 \<equiv> (3 :: nat)"

abbreviation (input) "DMA_DESC_SRC_XFER_INVAL \<equiv> (0 :: u8)"
abbreviation (input) "DMA_DESC_SRC_XFER_MC \<equiv> (1 :: u8)"
abbreviation (input) "DMA_DESC_SRC_XFER_VMEM \<equiv> (2 :: u8)"
abbreviation (input) "DMA_DESC_SRC_XFER_L2RAM \<equiv> (3 :: u8)"
abbreviation (input) "DMA_DESC_SRC_XFER_R5TCM \<equiv> (4 :: u8)"
abbreviation (input) "DMA_DESC_SRC_XFER_MMIO \<equiv> (5 :: u8)"
abbreviation (input) "DMA_DESC_SRC_XFER_RSVD \<equiv> (6 :: u8)"
abbreviation (input) "DMA_DESC_SRC_XFER_VPU_CONFIG \<equiv> (7 :: u8)"

abbreviation (input) "DMA_DESC_DST_XFER_INVAL \<equiv> (0 :: u8)"
abbreviation (input) "DMA_DESC_DST_XFER_MC \<equiv> (1 :: u8)"
abbreviation (input) "DMA_DESC_DST_XFER_VMEM \<equiv> (2 :: u8)"
abbreviation (input) "DMA_DESC_DST_XFER_L2RAM \<equiv> (3 :: u8)"
abbreviation (input) "DMA_DESC_DST_XFER_R5TCM \<equiv> (4 :: u8)"
abbreviation (input) "DMA_DESC_DST_XFER_MMIO \<equiv> (5 :: u8)"
abbreviation (input) "DMA_DESC_DST_XFER_RSVD1 \<equiv> (6 :: u8)"
abbreviation (input) "DMA_DESC_DST_XFER_RSVD2 \<equiv> (7 :: u8)"

abbreviation (input) "TRIG_EVENT_MODE_DIM4 \<equiv> (1 :: u8)"
abbreviation (input) "TRIG_EVENT_MODE_DIM3 \<equiv> (2 :: u8)"
abbreviation (input) "NVPVA_HWSEQTM_VPUTRIG \<equiv> (0 :: u32)"
abbreviation (input) "NVPVA_HWSEQTM_DMATRIG \<equiv> (1 :: u32)"
abbreviation (input) "NVPVA_NOOP_EXE_ID \<equiv> (65535 :: u32)"
abbreviation (input) "NVPVA_INVALID_SYMBOL_ID \<equiv> (0xFFFF :: u32)"
abbreviation (input) "MAX_NUM_DESCS \<equiv> (60 :: nat)"
abbreviation (input) "MAX_NUM_CHANNELS \<equiv> (15 :: nat)"
abbreviation (input) "RESV_DESC_START \<equiv> (60 :: nat)" \<comment> \<open>\<open>NVPVA_RESERVED_DESCRIPTORS_START_IDX\<close>\<close>
abbreviation (input) "RESV_DESC_END \<equiv> (63 :: nat)"
abbreviation (input) "U32_MAX \<equiv> (0xFFFFFFFF :: u64)"


section \<open>Hardware descriptors and tasks\<close>

text \<open>\<open>struct pva_dtd_s\<close>, a descriptor as the DMA engine reads it.\<close>

record pva_dtd_s =
  transfer_control0 :: u8
  link_did :: u8
  src_adr1 :: u8
  dst_adr1 :: u8
  src_adr0 :: u32
  dst_adr0 :: u32
  hw_tx :: u16
  hw_ty :: u16
  slp_adv :: u16
  dlp_adv :: u16
  srcpt1_cntl :: u32
  dstpt1_cntl :: u32
  srcpt2_cntl :: u32
  dstpt2_cntl :: u32
  srcpt3_cntl :: u32
  dstpt3_cntl :: u32
  sb_start :: u16
  db_start :: u16
  sb_size :: u16
  db_size :: u16
  trig_ch_events :: u16
  hw_sw_trig_events :: u16
  hw_px :: u8
  hw_py :: u8
  transfer_control1 :: u8
  transfer_control2 :: u8
  cb_ext :: u8
  frda :: u16

record pva_dma_task_buffer_info_s =
  src_buffer_size :: u64
  dst_buffer_size :: u64
  dst2_buffer_size :: u64

text \<open>A buffer that the client has pinned, and what a task keeps of the ones it uses.\<close>

record nvpva_vm_buffer =
  user_addr :: u64
  user_size :: u64
  submit_map_count :: int

record pva_pinned_memory =
  mem_id :: u32
  mem_size :: u64
  mem_dma_addr :: u64

record pva_elf_symbol =
  sym_addr :: u32
  sym_size :: u32

text \<open>The headers of a program of the hardware sequencer (\<open>pva_hwseq.h\<close>).\<close>

record pva_hwseq_frame_header_s =
  fid :: u16
  fr :: u8
  no_cr :: u8
  hdr_to :: s16
  fo :: s16
  pad_r :: u8
  pad_t :: u8
  pad_l :: u8
  pad_b :: u8

record pva_hwseq_cr_header_s =
  dec :: u8
  crr :: u8
  cro :: s16

record pva_dma_hwseq_desc_entry_s =
  entry_did :: u8
  entry_dr :: u8

text \<open>\<open>struct pva_hwseq_priv_s\<close>: a pointer to a descriptor is its index.\<close>

record pva_hwseq_priv_s =
  hdr :: pva_hwseq_frame_header_s
  colrow :: pva_hwseq_cr_header_s
  dma_ch :: nat
  head_desc :: nat
  tail_desc :: nat
  dma_descs :: "pva_dma_hwseq_desc_entry_s list"
  tiles_per_packet :: u32
  is_split_padding :: bool
  is_raster_scan :: bool
  verify_bounds :: bool

text \<open>
  The part of \<open>struct pva_submit_task\<close> that the DMA checks use.  \<open>elf_images\<close> gives the symbols of the registered
  VPU programs, \<open>buffers\<close> the pinned buffers of the client by their id.
\<close>

record pva_submit_task =
  version :: nat
  elf_images :: "u16 \<Rightarrow> pva_elf_symbol list option"
  buffers :: "u32 \<Rightarrow> nvpva_vm_buffer option"
  exe_id1 :: u32
  exe_id2 :: u32
  l2_alloc_size :: u32
  num_dma_descriptors :: u8
  num_dma_channels :: u8
  special_access :: u8
  desc_hwseq_frm :: "u64 list"
  desc_hwseq_t26x :: "u64 list"
  desc_processed :: "u64 list"
  num_dma_desc_processed :: u8
  dma_descriptors :: "nvpva_dma_descriptor list"
  dma_channels :: "nvpva_dma_channel list"
  misr_enable :: u32
  misr_descriptor_mask :: u64
  hwseqTrigMode :: u32
  hwseqBuf_pin_id :: u32
  hwseqBuf_offset :: u32
  hwseqBuf_size :: u32
  pinned_memory :: "pva_pinned_memory list"
  hwseq_info :: "pva_hwseq_priv_s list"
  desc_block_height_log2 :: "u8 list"
  task_buff_info :: "pva_dma_task_buffer_info_s list"
  desc_entries :: "pva_dma_hwseq_desc_entry_s list list"
  src_surf_base_addr :: u64
  dst_surf_base_addr :: u64
  is_system_app :: bool

end
