(* ===== verification/Pva_Range.thy ===== *)
theory Pva_Range imports Pva_Types begin

text \<open>
  The two functions of \<open>pva_dma.c\<close> that decide whether the accesses of a descriptor stay inside of its
  buffer: \<open>pitch_linear_eq_offset\<close>, which turns an offset in a block-linear surface into the offset that the same
  place has in a surface stored line by line, and \<open>check_address_range\<close>, which compares the extent of the
  five nested loops of a transfer with the size of the buffer.
\<close>

section \<open>Definitions\<close>

definition BL_GOB_WIDTH_LOG2 :: nat where "BL_GOB_WIDTH_LOG2 = 6"
definition BL_GOB_HEIGHT_LOG2 :: nat where "BL_GOB_HEIGHT_LOG2 = 3"
definition BL_GOB_SIZE_LOG2 :: nat where "BL_GOB_SIZE_LOG2 = BL_GOB_WIDTH_LOG2 + BL_GOB_HEIGHT_LOG2"
definition NVPVA_MAX_VALID_BLK_HGT_LG2 :: u8 where "NVPVA_MAX_VALID_BLK_HGT_LG2 = 5"

lemmas bl_consts = BL_GOB_WIDTH_LOG2_def BL_GOB_HEIGHT_LOG2_def BL_GOB_SIZE_LOG2_def
  NVPVA_MAX_VALID_BLK_HGT_LG2_def

text \<open>The coordinates inside of a GOB (64 bytes by 8 lines) of an offset, from the bits of the offset.\<close>

definition gob_x :: "u32 \<Rightarrow> u32" where
  "gob_x ofs = (ofs AND 0xF) + of_bool (ofs AND 0x20 \<noteq> 0) * 16 + of_bool (ofs AND 0x100 \<noteq> 0) * 32"

definition gob_y :: "u32 \<Rightarrow> u32" where
  "gob_y ofs = of_bool (ofs AND 0x10 \<noteq> 0) + of_bool (ofs AND 0x40 \<noteq> 0) * 2 + of_bool (ofs AND 0x80 \<noteq> 0) * 4"

text \<open>The block-linear branch, with the line pitch in bytes; \<open>None\<close> is the division by a ROP of size 0.\<close>

definition bl_frame_offset :: "int \<Rightarrow> u32 \<Rightarrow> u32 \<Rightarrow> nat \<Rightarrow> int option" where
  "bl_frame_offset surf ofs line_pitch_bytes block_ht_log2 =
    (let block_size_log2 = BL_GOB_SIZE_LOG2 + block_ht_log2;
         block_mask = drop_bit (32 - block_size_log2) (0xFFFFFFFF :: u32);
         blocks_per_rop = drop_bit BL_GOB_WIDTH_LOG2 line_pitch_bytes;
         rop_size = push_bit block_size_log2 blocks_per_rop
     in if rop_size = 0 then None
        else let rop_idx = ofs div rop_size;
                 offset_to_rop = rop_idx * rop_size;
                 offset_within_rop = ofs - offset_to_rop;
                 block_idx = drop_bit block_size_log2 offset_within_rop;
                 offset_within_block = ofs AND block_mask;
                 gob_idx = drop_bit BL_GOB_SIZE_LOG2 offset_within_block;
                 x = gob_x ofs + push_bit BL_GOB_WIDTH_LOG2 block_idx;
                 y = gob_y ofs + push_bit BL_GOB_HEIGHT_LOG2 gob_idx
             in Some (wrap64 (wrap64 (wrap64 (surf + uint offset_to_rop) + uint (y * line_pitch_bytes)) + uint x)))"

definition pitch_linear_eq_offset ::
  "nvpva_dma_descriptor \<Rightarrow> int \<Rightarrow> u8 \<Rightarrow> u8 \<Rightarrow> bool \<Rightarrow> bool \<Rightarrow> (errno + int) option" where
  "pitch_linear_eq_offset dma_desc surf_bl_offset block_ht_log2 bpp_log2 is_dst is_dst2 =
    (let format = (if is_dst \<or> is_dst2 then dstFormat dma_desc else srcFormat dma_desc);
         offset = (if is_dst then dst_offset dma_desc else if is_dst2 then dst2Offset dma_desc
                   else src_offset dma_desc);
         line_pitch = (if is_dst \<or> is_dst2 then dstLinePitch dma_desc else srcLinePitch dma_desc);
         cb_enable = (if is_dst \<or> is_dst2 then dstCbEnable dma_desc else srcCbEnable dma_desc)
     in if format = 0 then Some (Inr (sint offset))
        else if block_ht_log2 > NVPVA_MAX_VALID_BLK_HGT_LG2 then Some (Inl EINVAL)
        else if unat bpp_log2 \<ge> 32 then None
        else let line_pitch_bytes = push_bit (unat bpp_log2) (ucast line_pitch) :: u32
             in if cb_enable \<noteq> 0 then Some (Inl EINVAL)
                else if line_pitch_bytes AND drop_bit (32 - BL_GOB_WIDTH_LOG2) 0xFFFFFFFF \<noteq> 0 then Some (Inl EINVAL)
                else if offset mod 64 \<noteq> 0 then Some (Inl EINVAL)
                else map_option Inr
                  (bl_frame_offset surf_bl_offset (word_of_int (uint offset - surf_bl_offset)) line_pitch_bytes
                    (unat block_ht_log2)))"

text \<open>\<open>bppSize\<close>, and the positions of the last element in the first two dimensions, as 64-bit integers.\<close>

definition bppSize :: "nvpva_dma_descriptor \<Rightarrow> int" where
  "bppSize desc = (if bytePerPixel desc = 0 then 1 else if bytePerPixel desc = 1 then 2 else 4)"

definition last_tx :: "nvpva_dma_descriptor \<Rightarrow> bool \<Rightarrow> int" where
  "last_tx desc src_dst = (let l = uint (tx desc) - 1 in if src_dst then l else l - uint (px desc))"

definition last_ty :: "nvpva_dma_descriptor \<Rightarrow> bool \<Rightarrow> int" where
  "last_ty desc src_dst = (let l = uint (ty desc) - 1 in if src_dst then l else l - uint (py desc))"

definition check_address_range ::
  "nvpva_dma_descriptor \<Rightarrow> u64 \<Rightarrow> u64 \<Rightarrow> bool \<Rightarrow> bool \<Rightarrow> u8 \<Rightarrow> (errno + unit) option" where
  "check_address_range desc max_size max_size2 src_dst dst2 block_height_log2 =
    (if tx desc = 0 then Some (Inr ())
     else if ty desc = 0 then Some (Inl EINVAL)
     else
       let bpp = bppSize desc;
           s0 = last_tx desc src_dst;
           start0 = min (wrap64 (s0 * bpp)) 0;
           end0 = max (wrap64 (wrap64 (s0 * bpp) + (bpp - 1))) 0;
           s1 = wrap64 ((if src_dst then uint (dstLinePitch desc) else uint (srcLinePitch desc)) * last_ty desc src_dst)
       in if (if src_dst then dstCbEnable desc else srcCbEnable desc) = 1
          then (if wrap64 ((s1 + s0 + 1) * bpp)
                   \<le> (if src_dst then uint (dstCbSize desc) else uint (srcCbSize desc))
                then Some (Inr ()) else Some (Inl EINVAL))
          else
            case pitch_linear_eq_offset desc (sint (surfBLOffset desc)) block_height_log2 (bytePerPixel desc) src_dst False of
              None \<Rightarrow> None
            | Some (Inl e) \<Rightarrow> Some (Inl e)
            | Some (Inr offset) \<Rightarrow>
              (case (if src_dst then pitch_linear_eq_offset desc (sint (surfBLOffset desc)) block_height_log2
                                      (bytePerPixel desc) False True
                     else Some (Inr 0)) of
                 None \<Rightarrow> None
               | Some (Inl e) \<Rightarrow> Some (Inl e)
               | Some (Inr offset2) \<Rightarrow>
                 let s2 = (if src_dst then wrap64 (sint (dstAdv1 desc) * uint (dstRpt1 desc))
                           else wrap64 (sint (srcAdv1 desc) * uint (srcRpt1 desc)));
                     s3 = (if src_dst then wrap64 (sint (dstAdv2 desc) * uint (dstRpt2 desc))
                           else wrap64 (sint (srcAdv2 desc) * uint (srcRpt2 desc)));
                     s4 = (if src_dst then wrap64 (sint (dstAdv3 desc) * uint (dstRpt3 desc))
                           else wrap64 (sint (srcAdv3 desc) * uint (srcRpt3 desc)));
                     (start, endd) = foldl (\<lambda>(st, en) s. (wrap64 (st + min (wrap64 (s * bpp)) 0),
                                                         wrap64 (en + max (wrap64 (s * bpp)) 0)))
                                      (start0, end0) [s1, s2, s3, s4]
                 in if sint max_size < 0 then Some (Inl EINVAL)
                    else
                      let out1 = \<not> (0 \<le> wrap64 (offset + start) \<and> wrap64 (offset + endd) < sint max_size);
                          out2 = (dst2 \<and> (max_size2 > U32_MAX
                                    \<or> \<not> (0 \<le> wrap64 (offset2 + start) \<and> wrap64 (offset2 + endd) < sint max_size2)))
                      in if out1 \<or> out2 then Some (Inl EINVAL) else Some (Inr ())))"

end
