(* ===== verification/Pva_Patch.thy ===== *)
theory Pva_Patch imports Pva_Range begin

text \<open>
  From the descriptor of user space to the descriptor of the DMA engine (\<open>pva_dma.c\<close>): the addresses of
  source and destination with their range checks (\<open>patch_dma_desc_address\<close>), the checks of the other fields
  (\<open>validate_descriptor\<close>), and the loop over descriptors (\<open>nvpva_task_dma_desc_mapping\<close>).  Pinning a
  buffer for a task is \<open>pva_task_pin_mem\<close> of \<open>pva_queue.c\<close>, symbols come from \<open>pva_vpu_exe.c\<close>.
\<close>

section \<open>Buffers and symbols\<close>

text \<open>\<open>nvpva_buffer_submit_pin_id\<close> for one id.\<close>

definition nvpva_buffer_submit_pin_id :: "(u32 \<Rightarrow> nvpva_vm_buffer option) \<Rightarrow> u32
    \<Rightarrow> (errno + nvpva_vm_buffer) \<times> (u32 \<Rightarrow> nvpva_vm_buffer option)" where
  "nvpva_buffer_submit_pin_id bufs i =
    (case bufs i of
       None \<Rightarrow> (Inl EINVAL, bufs)
     | Some vm \<Rightarrow> let vm' = vm\<lparr>submit_map_count := wrap32 (submit_map_count vm + 1)\<rparr> in (Inr vm', bufs(i \<mapsto> vm')))"

definition pva_task_pin_mem :: "pva_submit_task \<Rightarrow> u32 \<Rightarrow> (errno + pva_pinned_memory) \<times> pva_submit_task" where
  "pva_task_pin_mem task i =
    (if 256 \<le> length (pinned_memory task) then (Inl ENOMEM, task)
     else if i = 0 then (Inl EFAULT, task)
     else case nvpva_buffer_submit_pin_id (buffers task) i of
       (Inl e, _) \<Rightarrow> (Inl e, task)
     | (Inr vm, bufs) \<Rightarrow>
         let mem = \<lparr>mem_id = i, mem_size = user_size vm, mem_dma_addr = user_addr vm\<rparr>
         in (Inr mem, task\<lparr>buffers := bufs, pinned_memory := pinned_memory task @ [mem]\<rparr>))"

definition pva_get_sym_offset :: "(u16 \<Rightarrow> pva_elf_symbol list option) \<Rightarrow> u16 \<Rightarrow> u32 \<Rightarrow> errno + (u32 \<times> u32)" where
  "pva_get_sym_offset images exe_id sym_id =
    (case images exe_id of
       None \<Rightarrow> Inl EINVAL
     | Some syms \<Rightarrow> if length syms \<le> unat sym_id \<or> sym_id = NVPVA_INVALID_SYMBOL_ID then Inl EINVAL
                    else let s = syms ! unat sym_id in Inr (sym_addr s, sym_size s))"

definition get_sym_exe_id :: "pva_submit_task \<Rightarrow> u16" where
  "get_sym_exe_id task =
    (if exe_id1 task \<noteq> NVPVA_NOOP_EXE_ID then ucast (exe_id1 task)
     else if exe_id2 task \<noteq> NVPVA_NOOP_EXE_ID then ucast (exe_id2 task)
     else ucast NVPVA_NOOP_EXE_ID)"

definition is_hwseq_mode_frm :: "pva_submit_task \<Rightarrow> u8 \<Rightarrow> bool option" where
  "is_hwseq_mode_frm task desc_id =
    map_option (\<lambda>w. bit w (unat desc_id mod 64)) (arr_get (desc_hwseq_frm task) (unat desc_id div 64))"

definition set_hwseq_mode_frm :: "pva_submit_task \<Rightarrow> u8 \<Rightarrow> pva_submit_task option" where
  "set_hwseq_mode_frm task desc_id =
    (case arr_get (desc_hwseq_frm task) (unat desc_id div 64) of
       None \<Rightarrow> None
     | Some w \<Rightarrow> Some (task\<lparr>desc_hwseq_frm :=
         (desc_hwseq_frm task)[unat desc_id div 64 := w OR push_bit (unat desc_id mod 64) 1]\<rparr>))"

definition is_hwseq_mode_t26x :: "pva_submit_task \<Rightarrow> u8 \<Rightarrow> bool option" where
  "is_hwseq_mode_t26x task desc_id =
    map_option (\<lambda>w. bit w (unat desc_id mod 64)) (arr_get (desc_hwseq_t26x task) (unat desc_id div 64))"

section \<open>Addresses\<close>

text \<open>The writes through \<open>buff_info\<close>.\<close>

definition set_buff_info :: "pva_submit_task \<Rightarrow> u8 \<Rightarrow>
    (pva_dma_task_buffer_info_s \<Rightarrow> pva_dma_task_buffer_info_s) \<Rightarrow> pva_submit_task option" where
  "set_buff_info task desc_id f =
    (case arr_get (task_buff_info task) (unat desc_id) of
       None \<Rightarrow> None
     | Some b \<Rightarrow> Some (task\<lparr>task_buff_info := (task_buff_info task)[unat desc_id := f b]\<rparr>))"

text \<open>
  One side of a descriptor: the base address or an error, with the task.  The first function is the \<open>switch\<close> on
  the source mode, the second one that on the destination mode.
\<close>

definition patch_src :: "pva_submit_task \<Rightarrow> nvpva_dma_descriptor \<Rightarrow> u8 \<Rightarrow> u8
    \<Rightarrow> ((errno + u64) \<times> pva_submit_task) option" where
  "patch_src task umd desc_id bh =
    (let exe_id = get_sym_exe_id task; mode = srcTransferMode umd in
     if mode = DMA_DESC_SRC_XFER_L2RAM then
       (if version task = PVA_HW_GEN1 then
          case pva_task_pin_mem task (srcPtr umd) of
            (Inl e, task1) \<Rightarrow> Some (Inl e, task1)
          | (Inr mem, task1) \<Rightarrow> do {
              err \<leftarrow> check_address_range umd (mem_size mem) 0 False False bh;
              task2 \<leftarrow> set_buff_info task1 desc_id (\<lambda>b. b\<lparr>src_buffer_size := mem_size mem\<rparr>);
              Some (case err of Inl e \<Rightarrow> Inl e | Inr _ \<Rightarrow> Inr (mem_dma_addr mem), task2) }
        else do {
          frm \<leftarrow> is_hwseq_mode_frm task desc_id;
          err \<leftarrow> (if frm then Some (Inr ()) else check_address_range umd (ucast (l2_alloc_size task)) 0 False False bh);
          task1 \<leftarrow> set_buff_info task desc_id (\<lambda>b. b\<lparr>src_buffer_size := ucast (l2_alloc_size task)\<rparr>);
          Some (case err of Inl e \<Rightarrow> Inl e | Inr _ \<Rightarrow> Inr 0, task1) })
     else if mode = DMA_DESC_SRC_XFER_VMEM then
       (if src_offset umd > U32_MAX then Some (Inl EINVAL, task)
        else case pva_get_sym_offset (elf_images task) exe_id (srcPtr umd) of
          Inl _ \<Rightarrow> Some (Inl EINVAL, task)
        | Inr (addr, sz) \<Rightarrow> do {
            err \<leftarrow> check_address_range umd (ucast sz) 0 False False bh;
            (case err of
               Inl _ \<Rightarrow> Some (Inl EINVAL, task)
             | Inr _ \<Rightarrow> do {
                 task1 \<leftarrow> set_buff_info task desc_id (\<lambda>b. b\<lparr>src_buffer_size := ucast sz\<rparr>);
                 Some (Inr (ucast addr), task1) }) })
     else if mode = DMA_DESC_SRC_XFER_VPU_CONFIG then
       (if dstPtr umd \<noteq> NVPVA_INVALID_SYMBOL_ID \<or> dst2Ptr umd \<noteq> NVPVA_INVALID_SYMBOL_ID \<or> src_offset umd > U32_MAX
        then Some (Inl EINVAL, task)
        else case pva_get_sym_offset (elf_images task) exe_id (srcPtr umd) of
          Inl _ \<Rightarrow> Some (Inl EINVAL, task)
        | Inr (addr, sz) \<Rightarrow> do {
            task1 \<leftarrow> set_buff_info task desc_id (\<lambda>b. b\<lparr>src_buffer_size := ucast sz\<rparr>);
            Some (Inr (ucast addr), task1) })
     else if mode = DMA_DESC_SRC_XFER_MC then
       (case pva_task_pin_mem task (srcPtr umd) of
          (Inl e, task1) \<Rightarrow> Some (Inl e, task1)
        | (Inr mem, task1) \<Rightarrow> do {
            frm \<leftarrow> is_hwseq_mode_frm task1 desc_id;
            err \<leftarrow> (if frm then Some (Inr ()) else check_address_range umd (mem_size mem) 0 False False bh);
            (case err of
               Inl _ \<Rightarrow> Some (Inl EINVAL, task1)
             | Inr _ \<Rightarrow> do {
                 task2 \<leftarrow> set_buff_info (task1\<lparr>src_surf_base_addr := mem_dma_addr mem\<rparr>) desc_id
                           (\<lambda>b. b\<lparr>src_buffer_size := mem_size mem\<rparr>);
                 Some (Inr (if version task \<le> PVA_HW_GEN2 then mem_dma_addr mem OR push_bit 39 (ucast (srcFormat umd))
                            else mem_dma_addr mem), task2) }) })
     else if mode = DMA_DESC_SRC_XFER_R5TCM then
       (if \<not> is_system_app task then Some (Inl EFAULT, task) else Some (Inr 0, task\<lparr>special_access := 1\<rparr>))
     else if mode = DMA_DESC_SRC_XFER_MMIO \<or> mode = DMA_DESC_SRC_XFER_INVAL \<or> mode = DMA_DESC_SRC_XFER_RSVD
     then Some (Inl EINVAL, task)
     else Some (Inl EFAULT, task))"

definition patch_dst :: "pva_submit_task \<Rightarrow> nvpva_dma_descriptor \<Rightarrow> u8 \<Rightarrow> u8
    \<Rightarrow> ((errno + u64) \<times> pva_submit_task) option" where
  "patch_dst task umd desc_id bh =
    (let exe_id = get_sym_exe_id task; mode = dstTransferMode umd in
     if mode = DMA_DESC_DST_XFER_L2RAM then
       (if version task = PVA_HW_GEN1 then
          case pva_task_pin_mem task (dstPtr umd) of
            (Inl e, task1) \<Rightarrow> Some (Inl e, task1)
          | (Inr mem, task1) \<Rightarrow> do {
              err \<leftarrow> check_address_range umd (mem_size mem) 0 True False bh;
              task2 \<leftarrow> set_buff_info task1 desc_id (\<lambda>b. b\<lparr>dst_buffer_size := mem_size mem\<rparr>);
              Some (case err of Inl _ \<Rightarrow> Inl EINVAL | Inr _ \<Rightarrow> Inr (mem_dma_addr mem), task2) }
        else do {
          err \<leftarrow> check_address_range umd (ucast (l2_alloc_size task)) 0 True False bh;
          task1 \<leftarrow> set_buff_info task desc_id (\<lambda>b. b\<lparr>dst_buffer_size := ucast (l2_alloc_size task)\<rparr>);
          Some (case err of Inl _ \<Rightarrow> Inl EINVAL | Inr _ \<Rightarrow> Inr 0, task1) })
     else if mode = DMA_DESC_DST_XFER_VMEM then
       (if dst_offset umd > U32_MAX \<or> dst2Offset umd > U32_MAX then Some (Inl EINVAL, task)
        else case pva_get_sym_offset (elf_images task) exe_id (dstPtr umd) of
          Inl _ \<Rightarrow> Some (Inl EINVAL, task)
        | Inr (addr, sz) \<Rightarrow>
            (case (if dst2Ptr umd = NVPVA_INVALID_SYMBOL_ID then Inr (0, False)
                   else case pva_get_sym_offset (elf_images task) exe_id (dst2Ptr umd) of
                     Inl _ \<Rightarrow> Inl EINVAL
                   | Inr (addr2, sz2) \<Rightarrow>
                       if (ucast addr2 + dst2Offset umd) AND 0x3F \<noteq> 0 then Inl EINVAL else Inr (sz2, True)) of
               Inl e \<Rightarrow> Some (Inl e, task)
             | Inr (sz2, check_size2) \<Rightarrow> do {
                 err \<leftarrow> check_address_range umd (ucast sz) (ucast sz2) True check_size2 bh;
                 (case err of
                    Inl _ \<Rightarrow> Some (Inl EINVAL, task)
                  | Inr _ \<Rightarrow> do {
                      task1 \<leftarrow> set_buff_info task desc_id
                        (\<lambda>b. b\<lparr>dst_buffer_size := ucast sz, dst2_buffer_size := ucast sz2\<rparr>);
                      Some (Inr (ucast addr), task1) }) }))
     else if mode = DMA_DESC_DST_XFER_MC then
       (case pva_task_pin_mem task (dstPtr umd) of
          (Inl e, task1) \<Rightarrow> Some (Inl e, task1)
        | (Inr mem, task1) \<Rightarrow> do {
            err \<leftarrow> check_address_range umd (mem_size mem) 0 True False bh;
            (case err of
               Inl _ \<Rightarrow> Some (Inl EINVAL, task1)
             | Inr _ \<Rightarrow> do {
                 task2 \<leftarrow> set_buff_info (task1\<lparr>dst_surf_base_addr := mem_dma_addr mem\<rparr>) desc_id
                           (\<lambda>b. b\<lparr>dst_buffer_size := mem_size mem\<rparr>);
                 Some (Inr (if version task \<le> PVA_HW_GEN2 then mem_dma_addr mem OR push_bit 39 (ucast (dstFormat umd))
                            else mem_dma_addr mem), task2) }) })
     else if mode = DMA_DESC_DST_XFER_R5TCM then
       (if \<not> is_system_app task then Some (Inl EFAULT, task) else Some (Inr 0, task\<lparr>special_access := 1\<rparr>))
     else if mode = DMA_DESC_DST_XFER_MMIO \<or> mode = DMA_DESC_DST_XFER_INVAL \<or> mode = DMA_DESC_DST_XFER_RSVD1
             \<or> mode = DMA_DESC_DST_XFER_RSVD2
     then Some (Inl EINVAL, task)
     else Some (Inl EFAULT, task))"

definition set_src_adr :: "u64 \<Rightarrow> pva_dtd_s \<Rightarrow> pva_dtd_s" where
  "set_src_adr a dd = dd\<lparr>src_adr0 := ucast a, src_adr1 := ucast (drop_bit 32 a)\<rparr>"

definition set_dst_adr :: "u64 \<Rightarrow> pva_dtd_s \<Rightarrow> pva_dtd_s" where
  "set_dst_adr a dd = dd\<lparr>dst_adr0 := ucast a, dst_adr1 := ucast (drop_bit 32 a)\<rparr>"

definition patch_dma_desc_address :: "pva_submit_task \<Rightarrow> nvpva_dma_descriptor \<Rightarrow> pva_dtd_s \<Rightarrow> u8 \<Rightarrow> bool \<Rightarrow> u8
    \<Rightarrow> (errno option \<times> pva_submit_task \<times> pva_dtd_s) option" where
  "patch_dma_desc_address task umd dma_desc desc_id is_misr bh = do {
     (src, task1) \<leftarrow> patch_src task umd desc_id bh;
     (case src of
        Inl e \<Rightarrow> Some (Some e, task1, dma_desc)
      | Inr addr_base \<Rightarrow>
          let dd1 = set_src_adr (addr_base + src_offset umd) dma_desc in
          if srcTransferMode umd = DMA_DESC_SRC_XFER_VPU_CONFIG then Some (None, task1, dd1)
          else if is_misr then
            (if dstTransferMode umd = DMA_DESC_DST_XFER_L2RAM \<or> dstTransferMode umd = DMA_DESC_DST_XFER_MC
             then Some (None, task1, set_dst_adr (ucast (dstPtr umd) + dst_offset umd) dd1)
             else Some (Some EINVAL, task1, dd1))
          else do {
            (dst, task2) \<leftarrow> patch_dst task1 umd desc_id bh;
            Some (case dst of
                Inl e \<Rightarrow> (Some e, task2, dd1)
              | Inr addr_base2 \<Rightarrow> (None, task2, set_dst_adr (addr_base2 + dst_offset umd) dd1)) }) }"


section \<open>The other fields\<close>

definition is_valid_vpu_trigger_mode :: "nvpva_dma_descriptor \<Rightarrow> u32 \<Rightarrow> bool" where
  "is_valid_vpu_trigger_mode desc trigger_mode =
    (if trigEventMode desc = 0 then True
     else let ev = trigVpuEvents desc in
       if ev = 0 then trigger_mode = NVPVA_HWSEQTM_DMATRIG
       else if ev = 3 then srcTransferMode desc = DMA_DESC_SRC_XFER_VPU_CONFIG
       else if ev \<in> {1, 4, 6, 8, 10, 12, 14}
         then srcTransferMode desc = DMA_DESC_SRC_XFER_VPU_CONFIG \<or> dstTransferMode desc = DMA_DESC_DST_XFER_VMEM
       else if ev \<in> {2, 5, 7, 9, 11, 13, 15}
         then srcTransferMode desc = DMA_DESC_SRC_XFER_VPU_CONFIG \<or> srcTransferMode desc = DMA_DESC_SRC_XFER_VMEM
       else False)"

definition validate_descriptor :: "nvpva_dma_descriptor \<Rightarrow> u32 \<Rightarrow> bool \<Rightarrow> errno + unit" where
  "validate_descriptor desc trigger_mode dim3_check_relaxed =
    (let padding = (dstTransferMode desc = DMA_DESC_DST_XFER_VMEM \<and>
           (px desc \<noteq> 0 \<and> uint (px desc) \<ge> uint (tx desc) \<or> py desc \<noteq> 0 \<and> uint (py desc) \<ge> uint (ty desc)));
         trigger = (\<not> is_valid_vpu_trigger_mode desc trigger_mode);
         dim4 = (trigEventMode desc = TRIG_EVENT_MODE_DIM4 \<and>
           (srcRpt1 desc = 0 \<or> srcRpt2 desc = 0 \<or> dstRpt1 desc = 0 \<or> dstRpt2 desc = 0));
         dim3 = (trigEventMode desc = TRIG_EVENT_MODE_DIM3 \<and>
           (if \<not> dim3_check_relaxed then srcRpt1 desc = 0 \<or> dstRpt1 desc = 0
            else dstRpt1 desc = 0 \<or> srcRpt1 desc > dstRpt1 desc));
         src_bl = (srcFormat desc = 1 \<and> srcTransferMode desc \<noteq> DMA_DESC_SRC_XFER_MC);
         dst_bl = (dstFormat desc = 1 \<and> dstTransferMode desc \<noteq> DMA_DESC_DST_XFER_MC)
     in if padding \<or> trigger \<or> dim4 \<or> dim3 \<or> src_bl \<or> dst_bl then Inl EINVAL else Inr ())"

text \<open>The control words, as written before and after the check of the prefetch flag.\<close>

definition fill_control :: "nvpva_dma_descriptor \<Rightarrow> pva_dtd_s \<Rightarrow> pva_dtd_s" where
  "fill_control umd dd = dd\<lparr>
     transfer_control0 := srcTransferMode umd OR push_bit 3 (srcFormat umd) OR push_bit 4 (dstTransferMode umd)
                          OR push_bit 7 (dstFormat umd),
     transfer_control1 := bytePerPixel umd OR push_bit 2 (pxDirection umd) OR push_bit 3 (pyDirection umd)
                          OR push_bit 4 (boundaryPixelExtension umd) OR push_bit 7 (transTrueCompletion umd)\<rparr>"

definition bad_prefetch :: "nvpva_dma_descriptor \<Rightarrow> bool" where
  "bad_prefetch umd \<longleftrightarrow> prefetchEnable umd \<noteq> 0 \<and>
    (tx umd = 0 \<or> ty umd = 0 \<or> srcTransferMode umd \<noteq> DMA_DESC_SRC_XFER_MC \<or> dstTransferMode umd \<noteq> DMA_DESC_DST_XFER_VMEM)"

definition fill_control2 :: "pva_submit_task \<Rightarrow> nvpva_dma_descriptor \<Rightarrow> pva_dtd_s \<Rightarrow> pva_submit_task \<times> pva_dtd_s" where
  "fill_control2 task umd dd =
    (let ctl = prefetchEnable umd OR push_bit 1 (dstCbEnable umd) OR push_bit 2 (srcCbEnable umd) in
     if srcFormat umd = 1 \<and> srcTransferMode umd = DMA_DESC_SRC_XFER_MC then
       let base = src_surf_base_addr task + surfBLOffset umd
       in (task\<lparr>src_surf_base_addr := base\<rparr>, dd\<lparr>transfer_control2 := ctl OR ucast (drop_bit 6 (base AND 0x3E00))\<rparr>)
     else if dstFormat umd = 1 \<and> dstTransferMode umd = DMA_DESC_DST_XFER_MC then
       let base = dst_surf_base_addr task + surfBLOffset umd
       in (task\<lparr>dst_surf_base_addr := base\<rparr>, dd\<lparr>transfer_control2 := ctl OR ucast (drop_bit 6 (base AND 0x3E00))\<rparr>)
     else (task, dd\<lparr>transfer_control2 := ctl\<rparr>))"

text \<open>Comparisons of \<open>linkDescId\<close> with the number of descriptors and with the reserved ones.\<close>

definition bad_link :: "pva_submit_task \<Rightarrow> nvpva_dma_descriptor \<Rightarrow> bool" where
  "bad_link task umd \<longleftrightarrow> linkDescId umd > num_dma_descriptors task \<or>
    (unat (linkDescId umd) > RESV_DESC_START \<and> unat (linkDescId umd) \<le> RESV_DESC_END + 1)"

definition adv_cntl :: "u8 \<Rightarrow> s32 \<Rightarrow> u32" where
  "adv_cntl r a = push_bit 24 (ucast r AND 0xFF) OR (a AND 0xFFFFFF)"

definition fill_sizes :: "nvpva_dma_descriptor \<Rightarrow> pva_dtd_s \<Rightarrow> pva_dtd_s" where
  "fill_sizes umd dd = dd\<lparr>
     link_did := linkDescId umd,
     hw_tx := tx umd, hw_ty := ty umd,
     dlp_adv := dstLinePitch umd, slp_adv := srcLinePitch umd,
     db_start := ucast (dstCbStart umd), db_size := ucast (dstCbSize umd),
     sb_start := ucast (srcCbStart umd), sb_size := ucast (srcCbSize umd),
     trig_ch_events := 0,
     hw_sw_trig_events := ucast (trigEventMode umd) OR push_bit 2 (ucast (trigVpuEvents umd))
                          OR push_bit 12 (ucast (descReloadEnable umd)),
     hw_px := px umd, hw_py := ucast (py umd)\<rparr>"

definition fill_steps :: "nvpva_dma_descriptor \<Rightarrow> pva_dtd_s \<Rightarrow> pva_dtd_s" where
  "fill_steps umd dd = dd\<lparr>
     cb_ext := ucast ((drop_bit 16 (srcCbStart umd) AND 1) OR push_bit 2 (drop_bit 16 (dstCbStart umd) AND 1)
               OR push_bit 4 (drop_bit 16 (srcCbSize umd) AND 1) OR push_bit 6 (drop_bit 16 (dstCbSize umd) AND 1)),
     srcpt1_cntl := adv_cntl (srcRpt1 umd) (srcAdv1 umd), dstpt1_cntl := adv_cntl (dstRpt1 umd) (dstAdv1 umd),
     srcpt2_cntl := adv_cntl (srcRpt2 umd) (srcAdv2 umd), dstpt2_cntl := adv_cntl (dstRpt2 umd) (dstAdv2 umd),
     srcpt3_cntl := adv_cntl (srcRpt3 umd) (srcAdv3 umd), dstpt3_cntl := adv_cntl (dstRpt3 umd) (dstAdv3 umd)\<rparr>"

definition fill_frda :: "pva_submit_task \<Rightarrow> nvpva_dma_descriptor \<Rightarrow> pva_dtd_s \<Rightarrow> errno + pva_dtd_s" where
  "fill_frda task umd dd =
    (if dst2Ptr umd = NVPVA_INVALID_SYMBOL_ID then Inr dd
     else case pva_get_sym_offset (elf_images task) (get_sym_exe_id task) (dst2Ptr umd) of
       Inl e \<Rightarrow> Inl e
     | Inr (addr, _) \<Rightarrow>
         let a = addr + ucast (dst2Offset umd)
         in Inr (dd\<lparr>frda := frda dd OR ucast (drop_bit 6 a AND 0x3FFF)\<rparr>))"

section \<open>The loop over descriptors\<close>

text \<open>
  What the loop changes besides its counters: the task, the hardware descriptors, \<open>*did\<close> and the flag for block-linear
  transfers.
\<close>

record map_state =
  m_task :: pva_submit_task
  m_hw :: "pva_dtd_s list"
  m_did :: u8
  m_bl :: u8

text \<open>The body of the loop for one descriptor.\<close>

definition map_one :: "map_state \<Rightarrow> nat \<Rightarrow> u8 list \<Rightarrow> (errno option \<times> map_state) option" where
  "map_one st desc_num block_height = do {
     let task = m_task st;
     umd \<leftarrow> arr_get (dma_descriptors task) desc_num;
     dd \<leftarrow> arr_get (m_hw st) desc_num;
     frm \<leftarrow> is_hwseq_mode_frm task (of_nat desc_num);
     t26x \<leftarrow> is_hwseq_mode_t26x task (of_nat desc_num);
     let is_misr = bit (misr_descriptor_mask task) desc_num \<and> misr_enable task \<noteq> 0;
     (case validate_descriptor umd (hwseqTrigMode task) (frm \<or> t26x) of
        Inl e \<Rightarrow> Some (Some e, st)
      | Inr _ \<Rightarrow> do {
          bh \<leftarrow> arr_get block_height desc_num;
          (err, task1, dd1) \<leftarrow> patch_dma_desc_address task umd dd (of_nat desc_num) is_misr bh;
          let st1 = st\<lparr>m_task := task1, m_hw := (m_hw st)[desc_num := dd1]\<rparr>;
          (case err of
             Some e \<Rightarrow> Some (Some e, st1)
           | None \<Rightarrow>
               let bl = (if srcFormat umd = 1 \<or> dstFormat umd = 1 then m_bl st OR 1 else m_bl st);
                   dd2 = fill_control umd dd1;
                   st2 = st1\<lparr>m_hw := (m_hw st)[desc_num := dd2], m_bl := bl\<rparr>
               in if bad_prefetch umd then Some (Some EINVAL, st2)
                  else let (task3, dd3) = fill_control2 task1 umd dd2;
                           st3 = st2\<lparr>m_task := task3, m_hw := (m_hw st)[desc_num := dd3]\<rparr>
                       in if bad_link task3 umd then Some (Some EINVAL, st3)
                          else let dd4 = fill_sizes umd dd3;
                                   st4 = st3\<lparr>m_hw := (m_hw st)[desc_num := dd4], m_did := linkDescId umd\<rparr>
                               in case fill_frda task3 umd dd4 of
                                    Inl e \<Rightarrow> Some (Some e, st4)
                                  | Inr dd5 \<Rightarrow> Some (None, st4\<lparr>m_hw := (m_hw st)[desc_num := fill_steps umd dd5]\<rparr>)) }) }"

text \<open>\<open>nvpva_task_dma_desc_mapping\<close> with the loop counter \<open>i\<close> and \<open>desc_num\<close>.\<close>

function map_loop :: "nat \<Rightarrow> nat \<Rightarrow> nat \<Rightarrow> map_state \<Rightarrow> u8 list \<Rightarrow> (errno option \<times> map_state) option" where
  "map_loop i desc_num num_descs st block_height =
    (if i < num_descs \<and> num_dma_desc_processed (m_task st) < num_dma_descriptors (m_task st) then
       case arr_get (desc_processed (m_task st)) (desc_num div 64) of
         None \<Rightarrow> None
       | Some w \<Rightarrow>
           if bit w (desc_num mod 64) then map_loop (i + 1) (desc_num + 1) num_descs st block_height
           else let task1 = (m_task st)\<lparr>
                      desc_processed := (desc_processed (m_task st))[desc_num div 64 := w OR push_bit (desc_num mod 64) 1],
                      num_dma_desc_processed := num_dma_desc_processed (m_task st) + 1\<rparr>;
                    st1 = st\<lparr>m_task := task1\<rparr>
                in if desc_num = RESV_DESC_START then map_loop (i + 5) (RESV_DESC_END + 1) num_descs st1 block_height
                   else (case map_one st1 desc_num block_height of
                           None \<Rightarrow> None
                         | Some (Some e, st2) \<Rightarrow> Some (Some e, st2)
                         | Some (None, st2) \<Rightarrow> map_loop (i + 1) (desc_num + 1) num_descs st2 block_height)
     else Some (None, st))"
  by pat_completeness auto
termination
  by (relation "measure (\<lambda>(i, desc_num, num_descs, st, bh). num_descs - i)") auto

declare map_loop.simps [simp del]

definition nvpva_task_dma_desc_mapping :: "map_state \<Rightarrow> nat \<Rightarrow> (errno option \<times> map_state) option" where
  "nvpva_task_dma_desc_mapping st num_descs =
    map_loop 0 (unat (m_did st)) num_descs st (desc_block_height_log2 (m_task st))"

end
