(* ===== verification/Pva_Hwseq.thy ===== *)
theory Pva_Hwseq imports Pva_Patch begin

text \<open>
  The bounds of programs of the hardware sequencer (\<open>pva_dma.c\<close>, \<open>pva_hwseq.h\<close>): a program moves a grid of tiles
  between a frame and VMEM, and \<open>validate_dma_boundaries\<close> compares the rectangle that the grid covers with the
  buffer of the frame.
\<close>

section \<open>Grids and frames\<close>

text \<open>Arrays of two elements are pairs; all fields are \<open>int32_t\<close>.\<close>

record pva_hwseq_grid_info_s =
  tile_x :: "int \<times> int"
  tile_y :: "int \<times> int"
  gi_pad_x :: "int \<times> int"
  gi_pad_y :: "int \<times> int"
  grid_size_x :: int
  grid_size_y :: int
  grid_step_x :: int
  grid_step_y :: int
  head_tile_count :: int
  gi_split_padding :: bool

record pva_hwseq_frame_info_s =
  start_x :: int
  start_y :: int
  end_x :: int
  end_y :: int

definition validate_grid_padding :: "pva_hwseq_grid_info_s \<Rightarrow> errno + unit" where
  "validate_grid_padding gi =
    (if fst (gi_pad_x gi) > 0 \<and> snd (gi_pad_x gi) > 0 \<and> grid_size_x gi < 2 then Inl EINVAL
     else if fst (gi_pad_y gi) > 0 \<and> snd (gi_pad_y gi) > 0 \<and> grid_size_y gi < 1 then Inl EINVAL
     else if fst (tile_y gi) \<le> max (fst (gi_pad_y gi)) (snd (gi_pad_y gi)) then Inl EINVAL
     else if fst (tile_y gi) \<noteq> snd (tile_y gi) then Inl EINVAL
     else Inr ())"

text \<open>
  \<open>compute_frame_info\<close>: the vertical span, then the horizontal one, with split padding or with the span of the
  tiles of the first descriptor.
\<close>

definition frame_y :: "pva_hwseq_grid_info_s \<Rightarrow> int \<times> int" where
  "frame_y gi =
    (let dim_offset = wrap32 (grid_step_y gi * wrap32 (grid_size_y gi - 1));
         s0 = min dim_offset 0;
         s = (if grid_step_y gi < 0 then wrap32 (s0 + fst (gi_pad_y gi)) else s0);
         e = wrap32 (max dim_offset 0 + wrap32 (wrap32 (snd (tile_y gi) - fst (gi_pad_y gi)) - snd (gi_pad_y gi)))
     in (s, e))"

definition frame_x_split :: "pva_hwseq_grid_info_s \<Rightarrow> errno + (int \<times> int)" where
  "frame_x_split gi =
    (let dim_offset = wrap32 (grid_step_x gi * wrap32 (grid_size_x gi - 1));
         left_tile_x = (if grid_step_x gi \<ge> 0 then fst (tile_x gi) else snd (tile_x gi));
         e = wrap32 (max dim_offset 0 + snd (tile_x gi))
     in if left_tile_x > \<bar>grid_step_x gi\<bar> then Inl EINVAL else Inr (min dim_offset 0, e))"

definition frame_x_plain :: "pva_hwseq_grid_info_s \<Rightarrow> errno + (int \<times> int)" where
  "frame_x_plain gi =
    (let dim_offset = wrap32 (grid_step_x gi * wrap32 (grid_size_x gi - 1));
         s0 = min dim_offset 0;
         e0 = max dim_offset 0;
         pad_start = (if grid_step_x gi \<ge> 0 then fst (gi_pad_x gi) else snd (gi_pad_x gi));
         pad_end = (if grid_step_x gi \<ge> 0 then snd (gi_pad_x gi) else fst (gi_pad_x gi));
         e = wrap32 (e0 + wrap32 (wrap32 (snd (tile_x gi) - fst (gi_pad_x gi)) - snd (gi_pad_x gi)))
     in if fst (tile_x gi) \<le> pad_start \<or> snd (tile_x gi) \<le> pad_end then Inl EINVAL
        else let alt_offset = wrap32 (grid_step_x gi * wrap32 (head_tile_count gi - 1));
                 alt_start0 = min alt_offset 0;
                 s = (if grid_step_x gi < 0 then wrap32 (s0 + fst (gi_pad_x gi)) else s0);
                 alt_start = (if grid_step_x gi < 0 then wrap32 (alt_start0 + fst (gi_pad_x gi)) else alt_start0);
                 alt_end0 = wrap32 (max alt_offset 0 + wrap32 (fst (tile_x gi) - pad_start));
                 alt_end = (if head_tile_count gi = grid_size_x gi then wrap32 (alt_end0 - pad_end) else alt_end0)
             in Inr (min alt_start s, max alt_end e))"

definition compute_frame_info :: "pva_hwseq_grid_info_s \<Rightarrow> errno + pva_hwseq_frame_info_s" where
  "compute_frame_info gi =
    (case validate_grid_padding gi of
       Inl e \<Rightarrow> Inl e
     | Inr _ \<Rightarrow>
         let (sy, ey) = frame_y gi in
         case (if gi_split_padding gi then frame_x_split gi else frame_x_plain gi) of
           Inl e \<Rightarrow> Inl e
         | Inr (sx, ex) \<Rightarrow> Inr \<lparr>start_x = sx, start_y = sy, end_x = ex, end_y = ey\<rparr>)"

definition swap_frame_boundaries :: "pva_hwseq_frame_info_s \<Rightarrow> pva_hwseq_frame_info_s" where
  "swap_frame_boundaries fi = \<lparr>start_x = start_y fi, start_y = start_x fi, end_x = end_y fi, end_y = end_x fi\<rparr>"

section \<open>The side in VMEM\<close>

definition get_buffer_size_hwseq :: "pva_submit_task \<Rightarrow> pva_hwseq_priv_s \<Rightarrow> bool \<Rightarrow> u64 option" where
  "get_buffer_size_hwseq task hwseq is_dst = do {
     e \<leftarrow> arr_get (dma_descs hwseq) 0;
     b \<leftarrow> arr_get (task_buff_info task) (unat (entry_did e));
     Some (if is_dst then dst_buffer_size b else src_buffer_size b) }"

definition validate_adv_params :: "nvpva_dma_descriptor \<Rightarrow> bool \<Rightarrow> errno + unit" where
  "validate_adv_params head is_dst =
    (if is_dst then
       (if srcAdv1 head \<noteq> 0 \<or> srcAdv2 head \<noteq> 0 \<or> srcAdv3 head \<noteq> 0 \<or>
           uint (srcRpt1 head) + uint (srcRpt2 head) + uint (srcRpt3 head) \<noteq> 0 then Inl EINVAL else Inr ())
     else
       (if dstAdv1 head \<noteq> 0 \<or> dstAdv2 head \<noteq> 0 \<or> dstAdv3 head \<noteq> 0 \<or>
           uint (dstRpt1 head) + uint (dstRpt2 head) + uint (dstRpt3 head) \<noteq> 0 then Inl EINVAL else Inr ()))"

definition check_vmem_setup :: "nvpva_dma_descriptor \<Rightarrow> int \<Rightarrow> bool \<Rightarrow> errno + unit" where
  "check_vmem_setup head vmem_tile_count is_dst =
    (if vmem_tile_count > 1 \<and> (if is_dst then dstAdv1 head \<noteq> 0 \<or> dstAdv2 head \<noteq> 0 \<or> dstAdv3 head \<noteq> 0
                               else srcAdv1 head \<noteq> 0 \<or> srcAdv2 head \<noteq> 0 \<or> srcAdv3 head \<noteq> 0)
     then Inl EINVAL else Inr ())"

definition validate_xfer_mode :: "nvpva_dma_descriptor \<Rightarrow> errno + unit" where
  "validate_xfer_mode d =
    (if srcTransferMode d = DMA_DESC_SRC_XFER_VMEM then
       (if \<not> (dstTransferMode d = DMA_DESC_DST_XFER_MC \<or> dstTransferMode d = DMA_DESC_DST_XFER_L2RAM) \<or> dstCbEnable d = 1
        then Inl EINVAL else Inr ())
     else if srcTransferMode d = DMA_DESC_SRC_XFER_L2RAM \<or> srcTransferMode d = DMA_DESC_SRC_XFER_MC then
       (if dstTransferMode d \<noteq> DMA_DESC_DST_XFER_VMEM \<or> srcCbEnable d = 1 then Inl EINVAL else Inr ())
     else Inl EINVAL)"

text \<open>\<open>tile_size << bytePerPixel\<close> on 64 bits; a shift by 64 or more is undefined.\<close>

definition shift64 :: "u64 \<Rightarrow> u8 \<Rightarrow> u64 option" where
  "shift64 w n = (if unat n < 64 then Some (push_bit (unat n) w) else None)"

definition validate_cb_tiles :: "nvpva_dma_descriptor \<Rightarrow> nvpva_dma_descriptor \<Rightarrow> pva_hwseq_priv_s \<Rightarrow> u64 \<Rightarrow> (errno + unit) option" where
  "validate_cb_tiles head tail hwseq vmem_size =
    (let h = hdr hwseq;
         d0 = (if sint (hdr_to h) \<ge> 0 then head else tail);
         d1 = (if sint (hdr_to h) \<ge> 0 then tail else head);
         wx0 = uint (tx d0) + uint (pad_l h); wx1 = uint (tx d1) + uint (pad_r h);
         wy0 = uint (ty d0) + uint (pad_t h); wy1 = uint (ty d1) + uint (pad_b h)
     in if ucast (dstCbSize head) > vmem_size then Some (Inl EINVAL)
        else if is_split_padding hwseq \<and> is_raster_scan hwseq \<and> (wx0 > 0xFFFF \<or> wx1 > 0xFFFF) then Some (Inl EINVAL)
        else if is_split_padding hwseq \<and> \<not> is_raster_scan hwseq \<and> (wy0 > 0xFFFF \<or> wy1 > 0xFFFF) then Some (Inl EINVAL)
        else
          let tx' = (if is_split_padding hwseq then (if is_raster_scan hwseq then max wx0 wx1 else uint (tx head))
                     else max (uint (tx head)) (uint (tx tail)));
              ty' = (if is_split_padding hwseq then (if is_raster_scan hwseq then uint (ty head) else max wy0 wy1)
                     else max (uint (ty head)) (uint (ty tail)));
              tile_size = word_of_int (uint (dstLinePitch head) * uint (word_of_int ty' - 1 :: u32) + tx') :: u64
          in case shift64 tile_size (bytePerPixel head) of
               None \<Rightarrow> None
             | Some t \<Rightarrow> if t > ucast (dstCbSize head) then Some (Inl EINVAL) else Some (Inr ()))"

text \<open>\<open>validate_dst_vmem\<close> and \<open>validate_src_vmem\<close> return the number of tiles in VMEM.\<close>

definition validate_dst_vmem :: "pva_submit_task \<Rightarrow> nvpva_dma_descriptor \<Rightarrow> nvpva_dma_descriptor \<Rightarrow> pva_hwseq_priv_s
    \<Rightarrow> (errno + int) option" where
  "validate_dst_vmem task head tail hwseq =
    (let count = (uint (dstRpt1 head) + 1) * (uint (dstRpt2 head) + 1) * (uint (dstRpt3 head) + 1) in
     if validate_xfer_mode head \<noteq> Inr () \<or> validate_adv_params head True \<noteq> Inr () then Some (Inl EINVAL)
     else do {
       vmem_size \<leftarrow> get_buffer_size_hwseq task hwseq True;
       if vmem_size = 0 then Some (Inl EINVAL)
       else if dstCbEnable head \<noteq> 0 then
         map_option (\<lambda>r. case r of Inl _ \<Rightarrow> Inl EINVAL | Inr _ \<Rightarrow> Inr count) (validate_cb_tiles head tail hwseq vmem_size)
       else if is_split_padding hwseq then Some (Inl EINVAL)
       else if check_vmem_setup head count True \<noteq> Inr () then Some (Inl EINVAL)
       else do {
         let tx' = max (uint (tx head)) (uint (tx tail));
         let ty' = max (uint (ty head)) (uint (ty tail));
         let tile_size = (word_of_int (uint (dstLinePitch head) * uint (word_of_int ty' - 1 :: u32) + tx') :: u64);
         t \<leftarrow> shift64 tile_size (bytePerPixel head);
         Some (if t + dst_offset head > vmem_size then Inl EINVAL else Inr count) } })"

definition check_no_padding :: "pva_hwseq_frame_header_s \<Rightarrow> bool" where
  "check_no_padding h \<longleftrightarrow> pad_l h = 0 \<and> pad_r h = 0 \<and> pad_t h = 0 \<and> pad_b h = 0"

definition validate_src_vmem :: "pva_submit_task \<Rightarrow> nvpva_dma_descriptor \<Rightarrow> nvpva_dma_descriptor \<Rightarrow> pva_hwseq_priv_s
    \<Rightarrow> (errno + int) option" where
  "validate_src_vmem task head tail hwseq =
    (let count = (uint (srcRpt1 head) + 1) * (uint (srcRpt2 head) + 1) * (uint (srcRpt3 head) + 1) in
     if validate_xfer_mode head \<noteq> Inr () \<or> validate_adv_params head False \<noteq> Inr () \<or> \<not> check_no_padding (hdr hwseq)
     then Some (Inl EINVAL)
     else do {
       vmem_size \<leftarrow> get_buffer_size_hwseq task hwseq False;
       let tx' = max (uint (tx head)) (uint (tx tail));
       let ty' = max (uint (ty head)) (uint (ty tail));
       let tile_size = uint (srcLinePitch head) * (ty' - 1) + tx';
       Some (if srcCbEnable head \<noteq> 0 then
               (if ucast (srcCbSize head) > vmem_size then Inl EINVAL
                else if tile_size > uint (srcCbSize head) then Inl EINVAL else Inr count)
             else if check_vmem_setup head count False \<noteq> Inr () then Inl EINVAL
             else if word_of_int tile_size + src_offset head > vmem_size then Inl EINVAL else Inr count) })"


section \<open>The frame against its buffer\<close>

definition check_cb_for_bl_inputs :: "nvpva_dma_descriptor \<Rightarrow> errno + unit" where
  "check_cb_for_bl_inputs d =
    (if srcCbEnable d \<noteq> 0 \<and> srcFormat d \<noteq> 0 then Inl EINVAL
     else if dstCbEnable d \<noteq> 0 \<and> dstFormat d \<noteq> 0 then Inl EINVAL else Inr ())"

definition check_padding_tiles :: "nvpva_dma_descriptor \<Rightarrow> nvpva_dma_descriptor \<Rightarrow> errno + unit" where
  "check_padding_tiles head tail =
    (if px head \<noteq> 0 \<or> py head \<noteq> 0 \<or> descReloadEnable head \<noteq> 0 then Inl EINVAL
     else if tx head = 0 \<or> ty head = 0 \<or> tx tail = 0 \<or> ty tail = 0 then Inl EINVAL
     else Inr ())"

text \<open>The mask is \<open>31 >> bytePerPixel\<close>; a shift by 32 or more is undefined.\<close>

definition validate_head_desc_transfer_fmt ::
  "nvpva_dma_descriptor \<Rightarrow> pva_hwseq_priv_s \<Rightarrow> u16 \<Rightarrow> int \<Rightarrow> (errno + unit) option" where
  "validate_head_desc_transfer_fmt head hwseq frame_line_pitch frame_buffer_offset =
    (if srcFormat head = 0 \<and> dstFormat head = 0 then Some (Inr ())
     else if is_split_padding hwseq \<and> hdr_to (hdr hwseq) = 0 then Some (Inl EINVAL)
     else if srcFormat head \<noteq> 0 \<and> dstFormat head \<noteq> 0 then Some (Inl EINVAL)
     else if check_cb_for_bl_inputs head \<noteq> Inr () then Some (Inl EINVAL)
     else if frame_buffer_offset mod 64 \<noteq> 0 then Some (Inl EINVAL)
     else if 32 \<le> unat (bytePerPixel head) then None
     else let grid_step = (if is_raster_scan hwseq then sint (hdr_to (hdr hwseq)) else sint (cro (colrow hwseq)))
          in if (grid_step OR uint frame_line_pitch) AND drop_bit (unat (bytePerPixel head)) 31 \<noteq> 0
             then Some (Inl EINVAL) else Some (Inr ()))"

text \<open>The grid of a program; in vertical mining the tiles and their padding are transposed.\<close>

definition hwseq_grid :: "nvpva_dma_descriptor \<Rightarrow> nvpva_dma_descriptor \<Rightarrow> pva_hwseq_priv_s \<Rightarrow> pva_dma_hwseq_desc_entry_s
    \<Rightarrow> pva_hwseq_grid_info_s" where
  "hwseq_grid head tail hwseq first =
    (let h = hdr hwseq;
         tx2 = (uint (tx head), uint (tx tail)); ty2 = (uint (ty head), uint (ty tail));
         lr = (uint (pad_l h), uint (pad_r h)); tb = (uint (pad_t h), uint (pad_b h))
     in \<lparr>tile_x = (if is_raster_scan hwseq then tx2 else ty2),
         tile_y = (if is_raster_scan hwseq then ty2 else tx2),
         gi_pad_x = (if is_raster_scan hwseq then lr else tb),
         gi_pad_y = (if is_raster_scan hwseq then tb else lr),
         grid_size_x = sint (tiles_per_packet hwseq),
         grid_size_y = uint (crr (colrow hwseq)) + 1,
         grid_step_x = sint (hdr_to h),
         grid_step_y = sint (cro (colrow hwseq)),
         head_tile_count = uint (entry_dr first) + 1,
         gi_split_padding = is_raster_scan hwseq \<and> is_split_padding hwseq\<rparr>)"

text \<open>The comparison at the end of \<open>validate_dma_boundaries\<close>; line pitch and coordinates are multiplied in 32 bits.\<close>

definition frame_in_buffer :: "pva_hwseq_frame_info_s \<Rightarrow> u16 \<Rightarrow> u8 \<Rightarrow> int \<Rightarrow> int \<Rightarrow> (errno + unit) option" where
  "frame_in_buffer fi frame_line_pitch bpp offset size' =
    (if 64 \<le> unat bpp then None
     else let st = wrap32 (wrap32 (start_y fi * uint frame_line_pitch) + start_x fi);
              en = wrap32 (wrap32 (wrap32 (end_y fi - 1) * uint frame_line_pitch) + end_x fi);
              st' = wrap64 (st * 2 ^ unat bpp);
              en' = wrap64 (en * 2 ^ unat bpp)
          in if wrap64 (st' + offset) < 0 \<or> wrap64 (en' + offset) > size' then Some (Inl EINVAL) else Some (Inr ()))"

definition validate_frame :: "pva_submit_task \<Rightarrow> pva_hwseq_priv_s \<Rightarrow> nvpva_dma_descriptor \<Rightarrow> nvpva_dma_descriptor \<Rightarrow> bool
    \<Rightarrow> (errno + unit) option" where
  "validate_frame task hwseq head tail to_vmem = do {
     first \<leftarrow> arr_get (dma_descs hwseq) 0;
     (case compute_frame_info (hwseq_grid head tail hwseq first) of
        Inl _ \<Rightarrow> Some (Inl EINVAL)
      | Inr fi0 \<Rightarrow> do {
          let fi = (if is_raster_scan hwseq then fi0 else swap_frame_boundaries fi0);
          let flp = (if to_vmem then srcLinePitch head else dstLinePitch head);
          ch \<leftarrow> arr_get (dma_channels task) (dma_ch hwseq);
          res \<leftarrow> pitch_linear_eq_offset head (sint (surfBLOffset head)) (blockHeight ch) (bytePerPixel head) (\<not> to_vmem) False;
          (case res of
             Inl e \<Rightarrow> Some (Inl e)
           | Inr offset \<Rightarrow> do {
               fmt \<leftarrow> validate_head_desc_transfer_fmt head hwseq flp offset;
               if fmt \<noteq> Inr () then Some (Inl EINVAL)
               else do {
                 sz \<leftarrow> get_buffer_size_hwseq task hwseq (\<not> to_vmem);
                 frame_in_buffer fi flp (bytePerPixel head) offset (sint sz) } }) }) }"

definition validate_dma_boundaries :: "pva_submit_task \<Rightarrow> pva_hwseq_priv_s \<Rightarrow> (errno + unit) option" where
  "validate_dma_boundaries task hwseq = do {
     head \<leftarrow> arr_get (dma_descriptors task) (head_desc hwseq);
     tail \<leftarrow> arr_get (dma_descriptors task) (tail_desc hwseq);
     if tiles_per_packet hwseq > 1 \<and> hdr_to (hdr hwseq) = 0 then Some (Inl EINVAL)
     else if check_padding_tiles head tail \<noteq> Inr () then Some (Inl EINVAL)
     else do {
       let to_vmem = (dstTransferMode head = DMA_DESC_DST_XFER_VMEM);
       vmem \<leftarrow> (if to_vmem then validate_dst_vmem task head tail hwseq else validate_src_vmem task head tail hwseq);
       (case vmem of
          Inl _ \<Rightarrow> Some (Inl EINVAL)
        | Inr vmem_tile_count \<Rightarrow>
            if vmem_tile_count \<noteq> sint (tiles_per_packet hwseq * (ucast (crr (colrow hwseq)) + 1)) then Some (Inl EINVAL)
            else if \<not> is_raster_scan hwseq \<and> is_split_padding hwseq then Some (Inl EINVAL)
            else validate_frame task hwseq head tail to_vmem) } }"

end
