(* ===== verification/Pva_Range_Facts.thy ===== *)
theory Pva_Range_Facts imports Pva_Range begin

text \<open>
  What the range check accepts: exactly the transfers whose every byte lies in the buffer; and what the
  conversion of block-linear offsets computes: the place of the same bytes in a surface stored line by line.
\<close>

section \<open>The extent of a transfer\<close>

text \<open>
  A transfer visits the element \<open>x\<close> of line \<open>y\<close> of the tile \<open>(i1, i2, i3)\<close>; \<open>transfer_pos\<close> is its
  distance from the start of the buffer access, in bytes.
\<close>

definition adv :: "nvpva_dma_descriptor \<Rightarrow> bool \<Rightarrow> nat \<Rightarrow> int" where
  "adv desc src_dst k =
    (if k = 1 then sint (if src_dst then dstAdv1 desc else srcAdv1 desc)
     else if k = 2 then sint (if src_dst then dstAdv2 desc else srcAdv2 desc)
     else sint (if src_dst then dstAdv3 desc else srcAdv3 desc))"

definition rpt :: "nvpva_dma_descriptor \<Rightarrow> bool \<Rightarrow> nat \<Rightarrow> int" where
  "rpt desc src_dst k =
    (if k = 1 then uint (if src_dst then dstRpt1 desc else srcRpt1 desc)
     else if k = 2 then uint (if src_dst then dstRpt2 desc else srcRpt2 desc)
     else uint (if src_dst then dstRpt3 desc else srcRpt3 desc))"

definition pitch :: "nvpva_dma_descriptor \<Rightarrow> bool \<Rightarrow> int" where
  "pitch desc src_dst = uint (if src_dst then dstLinePitch desc else srcLinePitch desc)"

definition transfer_pos :: "nvpva_dma_descriptor \<Rightarrow> bool \<Rightarrow> int \<Rightarrow> int \<Rightarrow> int \<Rightarrow> int \<Rightarrow> int \<Rightarrow> int" where
  "transfer_pos desc src_dst x y i1 i2 i3 =
    (x + pitch desc src_dst * y + adv desc src_dst 1 * i1 + adv desc src_dst 2 * i2 + adv desc src_dst 3 * i3)
      * bppSize desc"

definition in_transfer :: "nvpva_dma_descriptor \<Rightarrow> bool \<Rightarrow> int \<Rightarrow> int \<Rightarrow> int \<Rightarrow> int \<Rightarrow> int \<Rightarrow> bool" where
  "in_transfer desc src_dst x y i1 i2 i3 \<longleftrightarrow>
    0 \<le> x \<and> x \<le> last_tx desc src_dst \<and> 0 \<le> y \<and> y \<le> last_ty desc src_dst \<and>
    0 \<le> i1 \<and> i1 \<le> rpt desc src_dst 1 \<and> 0 \<le> i2 \<and> i2 \<le> rpt desc src_dst 2 \<and> 0 \<le> i3 \<and> i3 \<le> rpt desc src_dst 3"

definition transfer_within :: "nvpva_dma_descriptor \<Rightarrow> bool \<Rightarrow> int \<Rightarrow> int \<Rightarrow> bool" where
  "transfer_within desc src_dst offset limit \<longleftrightarrow>
    (\<forall>x y i1 i2 i3 b. in_transfer desc src_dst x y i1 i2 i3 \<and> 0 \<le> b \<and> b < bppSize desc \<longrightarrow>
      0 \<le> offset + transfer_pos desc src_dst x y i1 i2 i3 + b \<and>
      offset + transfer_pos desc src_dst x y i1 i2 i3 + b < limit)"

text \<open>The lowest and the highest byte, relative to the offset, as the sums that the code computes.\<close>

definition lowest :: "nvpva_dma_descriptor \<Rightarrow> bool \<Rightarrow> int" where
  "lowest desc d = min (pitch desc d * last_ty desc d * bppSize desc) 0 + min (adv desc d 1 * rpt desc d 1 * bppSize desc) 0
    + min (adv desc d 2 * rpt desc d 2 * bppSize desc) 0 + min (adv desc d 3 * rpt desc d 3 * bppSize desc) 0"

definition highest :: "nvpva_dma_descriptor \<Rightarrow> bool \<Rightarrow> int" where
  "highest desc d = last_tx desc d * bppSize desc + (bppSize desc - 1)
    + max (pitch desc d * last_ty desc d * bppSize desc) 0 + max (adv desc d 1 * rpt desc d 1 * bppSize desc) 0
    + max (adv desc d 2 * rpt desc d 2 * bppSize desc) 0 + max (adv desc d 3 * rpt desc d 3 * bppSize desc) 0"

lemma bppSize_cases: "bppSize d = 1 \<or> bppSize d = 2 \<or> bppSize d = 4"
  by (simp add: bppSize_def)

lemma bppSize_pos: "0 < bppSize d" and bppSize_le: "bppSize d \<le> 4"
  using bppSize_cases [of d] by auto

lemma dim_between:
  fixes a i n c :: int
  assumes "0 \<le> i" and "i \<le> n"
  shows "min (a * n * c) 0 \<le> a * i * c" and "a * i * c \<le> max (a * n * c) 0"
proof -
  have *: "min (k * n) 0 \<le> k * i \<and> k * i \<le> max (k * n) 0" for k :: int
  proof (cases "0 \<le> k")
    case True
    then have "0 \<le> k * i" "k * i \<le> k * n" using assms by (simp_all add: mult_left_mono)
    then show ?thesis by simp
  next
    case False
    then have "k * n \<le> k * i" "k * i \<le> 0" using assms by (simp_all add: mult_left_mono_neg mult_nonpos_nonneg)
    then show ?thesis by simp
  qed
  show "min (a * n * c) 0 \<le> a * i * c" and "a * i * c \<le> max (a * n * c) 0"
    using * [of "a * c"] by (simp_all add: ac_simps)
qed

lemma dim_low:
  fixes a n c :: int
  assumes "0 \<le> n"
  shows "\<exists>i. 0 \<le> i \<and> i \<le> n \<and> a * i * c = min (a * n * c) 0"
  by (cases "a * n * c \<le> 0") (use assms in \<open>auto intro: exI [of _ n] exI [of _ 0]\<close>)

lemma dim_high:
  fixes a n c :: int
  assumes "0 \<le> n"
  shows "\<exists>i. 0 \<le> i \<and> i \<le> n \<and> a * i * c = max (a * n * c) 0"
  by (cases "a * n * c \<le> 0") (use assms in \<open>auto intro: exI [of _ n] exI [of _ 0]\<close>)

lemma rpt_nonneg [simp]: "0 \<le> rpt d s k"
  by (simp add: rpt_def)

lemma transfer_pos_sum:
  "transfer_pos d s x y i1 i2 i3 = x * bppSize d + pitch d s * y * bppSize d + adv d s 1 * i1 * bppSize d
     + adv d s 2 * i2 * bppSize d + adv d s 3 * i3 * bppSize d"
  by (simp add: transfer_pos_def algebra_simps)

lemma transfer_pos_between:
  assumes "in_transfer d s x y i1 i2 i3"
  shows "lowest d s \<le> transfer_pos d s x y i1 i2 i3"
    and "transfer_pos d s x y i1 i2 i3 + bppSize d - 1 \<le> highest d s"
proof -
  have c: "0 < bppSize d" by (rule bppSize_pos)
  note r = assms [unfolded in_transfer_def]
  have x0: "0 \<le> x * bppSize d" using r c by simp
  have x1: "x * bppSize d \<le> last_tx d s * bppSize d" using r c by (simp add: mult_right_mono)
  have y: "min (pitch d s * last_ty d s * bppSize d) 0 \<le> pitch d s * y * bppSize d"
    "pitch d s * y * bppSize d \<le> max (pitch d s * last_ty d s * bppSize d) 0"
    using r c by (simp_all add: dim_between)
  have i: "min (adv d s k * rpt d s k * bppSize d) 0 \<le> adv d s k * j * bppSize d"
    "adv d s k * j * bppSize d \<le> max (adv d s k * rpt d s k * bppSize d) 0"
    if "0 \<le> j" "j \<le> rpt d s k" for j k
    using that c by (simp_all add: dim_between)
  show "lowest d s \<le> transfer_pos d s x y i1 i2 i3"
    unfolding transfer_pos_sum lowest_def using x0 y(1) i(1) [of i1 1] i(1) [of i2 2] i(1) [of i3 3] r by linarith
  show "transfer_pos d s x y i1 i2 i3 + bppSize d - 1 \<le> highest d s"
    unfolding transfer_pos_sum highest_def using x1 y(2) i(2) [of i1 1] i(2) [of i2 2] i(2) [of i3 3] r by linarith
qed

lemma lowest_attained:
  assumes "0 \<le> last_tx d s" and "0 \<le> last_ty d s"
  obtains x y i1 i2 i3 where "in_transfer d s x y i1 i2 i3" and "transfer_pos d s x y i1 i2 i3 = lowest d s"
proof -
  obtain y where y: "0 \<le> y" "y \<le> last_ty d s" "pitch d s * y * bppSize d = min (pitch d s * last_ty d s * bppSize d) 0"
    using dim_low [OF assms(2)] by blast
  have "\<exists>j. 0 \<le> j \<and> j \<le> rpt d s k \<and> adv d s k * j * bppSize d = min (adv d s k * rpt d s k * bppSize d) 0" for k
    by (rule dim_low) simp
  then obtain i where i: "0 \<le> i k" "i k \<le> rpt d s k"
    "adv d s k * i k * bppSize d = min (adv d s k * rpt d s k * bppSize d) 0" for k :: nat
    by metis
  show thesis
  proof (rule that)
    show "in_transfer d s 0 y (i 1) (i 2) (i 3)" unfolding in_transfer_def using assms y i by simp
    show "transfer_pos d s 0 y (i 1) (i 2) (i 3) = lowest d s"
      unfolding transfer_pos_sum lowest_def using y(3) i(3) by simp
  qed
qed

lemma highest_attained:
  assumes "0 \<le> last_tx d s" and "0 \<le> last_ty d s"
  obtains x y i1 i2 i3 where "in_transfer d s x y i1 i2 i3"
    and "transfer_pos d s x y i1 i2 i3 + bppSize d - 1 = highest d s"
proof -
  obtain y where y: "0 \<le> y" "y \<le> last_ty d s" "pitch d s * y * bppSize d = max (pitch d s * last_ty d s * bppSize d) 0"
    using dim_high [OF assms(2)] by blast
  have "\<exists>j. 0 \<le> j \<and> j \<le> rpt d s k \<and> adv d s k * j * bppSize d = max (adv d s k * rpt d s k * bppSize d) 0" for k
    by (rule dim_high) simp
  then obtain i where i: "0 \<le> i k" "i k \<le> rpt d s k"
    "adv d s k * i k * bppSize d = max (adv d s k * rpt d s k * bppSize d) 0" for k :: nat
    by metis
  show thesis
  proof (rule that)
    show "in_transfer d s (last_tx d s) y (i 1) (i 2) (i 3)" unfolding in_transfer_def using assms y i by simp
    show "transfer_pos d s (last_tx d s) y (i 1) (i 2) (i 3) + bppSize d - 1 = highest d s"
      unfolding transfer_pos_sum highest_def using y(3) i(3) by simp
  qed
qed

lemma transfer_within_iff:
  assumes "0 \<le> last_tx d s" and "0 \<le> last_ty d s"
  shows "transfer_within d s offset limit \<longleftrightarrow> 0 \<le> offset + lowest d s \<and> offset + highest d s < limit"
proof
  assume w: "transfer_within d s offset limit"
  note c = bppSize_pos [of d]
  obtain x y i1 i2 i3 where l: "in_transfer d s x y i1 i2 i3" "transfer_pos d s x y i1 i2 i3 = lowest d s"
    by (rule lowest_attained [OF assms])
  have "0 \<le> offset + transfer_pos d s x y i1 i2 i3 + 0"
    using w l(1) c unfolding transfer_within_def by blast
  moreover obtain x y i1 i2 i3 where h: "in_transfer d s x y i1 i2 i3"
    "transfer_pos d s x y i1 i2 i3 + bppSize d - 1 = highest d s"
    by (rule highest_attained [OF assms])
  have "offset + transfer_pos d s x y i1 i2 i3 + (bppSize d - 1) < limit"
    using w [unfolded transfer_within_def, rule_format, of x y i1 i2 i3 "bppSize d - 1"] h(1) c by simp
  ultimately show "0 \<le> offset + lowest d s \<and> offset + highest d s < limit" using l h by linarith
next
  assume a: "0 \<le> offset + lowest d s \<and> offset + highest d s < limit"
  show "transfer_within d s offset limit"
    unfolding transfer_within_def using a transfer_pos_between by (smt (verit))
qed


section \<open>The check computes exactly this extent\<close>

lemma uint_nonneg: "0 \<le> uint (w :: 'a::len word)"
  by simp

lemma sint_uint_cases: "sint (w :: 64 word) = (if uint w < 2 ^ 63 then uint w else uint w - 2 ^ 64)"
proof -
  have w: "sint w = wrap64 (uint w)"
    by (simp add: sint_uint wrap64_def signed_take_bit_eq_take_bit_shift take_bit_eq_mod)
  have "uint w < 2 ^ 64" using uint_bounded [of w] by simp
  moreover have "- (2 ^ 63) \<le> uint w" by (rule order_trans [OF _ uint_nonneg]) simp
  ultimately show ?thesis unfolding w using wrap64_above [of "uint w"] wrap64_id [of "uint w"]
    by (auto simp del: wrap64_id power_numeral)
qed

lemma sint32_bounds: "- (2 ^ 31) \<le> sint (w :: 32 word)" "sint w < 2 ^ 31"
  using sint_ge [of w] sint_lt [of w] by simp_all

lemma uint_bounds: "uint (b :: 8 word) < 2 ^ 8" "uint (h :: 16 word) < 2 ^ 16" "uint (w :: 32 word) < 2 ^ 32"
  using uint_bounded [of b] uint_bounded [of h] uint_bounded [of w] by simp_all

lemma uint8_le: "uint (b :: 8 word) \<le> 255"
  using uint_bounds(1) [of b] by simp

lemma adv_rpt_bound: "\<bar>adv d s k * rpt d s k\<bar> \<le> 2 ^ 31 * 255"
proof -
  have "\<bar>adv d s k\<bar> \<le> 2 ^ 31"
    unfolding adv_def using sint32_bounds by (smt (verit))
  moreover have "\<bar>rpt d s k\<bar> \<le> 255"
    using uint8_le by (simp add: rpt_def)
  ultimately have "\<bar>adv d s k\<bar> * \<bar>rpt d s k\<bar> \<le> 2 ^ 31 * 255"
    by (intro mult_mono) simp_all
  then show ?thesis by (simp add: abs_mult)
qed

lemma pitch_bound: "0 \<le> pitch d s" "pitch d s < 2 ^ 16"
  using uint_bounds(2) [of "dstLinePitch d"] uint_bounds(2) [of "srcLinePitch d"] by (simp_all add: pitch_def)

lemma last_tx_bound: "last_tx d s < 2 ^ 16" and last_ty_bound: "last_ty d s < 2 ^ 16"
proof -
  have "uint (tx d) < 2 ^ 16" "uint (ty d) < 2 ^ 16"
    using uint_bounds(2) [of "tx d"] uint_bounds(2) [of "ty d"] by simp_all
  moreover have "last_tx d s \<le> uint (tx d) - 1" "last_ty d s \<le> uint (ty d) - 1"
    using uint_nonneg [of "px d"] uint_nonneg [of "py d"] unfolding last_tx_def last_ty_def Let_def
    by (simp_all only: split: if_split) linarith+
  ultimately show "last_tx d s < 2 ^ 16" "last_ty d s < 2 ^ 16" by linarith+
qed

lemma pitch_ty_bound:
  assumes "0 \<le> last_ty d s"
  shows "0 \<le> pitch d s * last_ty d s" "pitch d s * last_ty d s \<le> 2 ^ 32"
proof -
  show "0 \<le> pitch d s * last_ty d s" using assms pitch_bound(1) by simp
  have "pitch d s * last_ty d s \<le> 2 ^ 16 * 2 ^ 16"
    using pitch_bound [of d s] last_ty_bound [of d s] assms by (intro mult_mono) simp_all
  then show "pitch d s * last_ty d s \<le> 2 ^ 32" by simp
qed

lemma times_bpp: "\<bar>k\<bar> \<le> m \<Longrightarrow> \<bar>k * bppSize d\<bar> \<le> m * 4"
proof -
  assume a: "\<bar>k\<bar> \<le> m"
  have "\<bar>k * bppSize d\<bar> = \<bar>k\<bar> * bppSize d" using bppSize_pos [of d] by (simp add: abs_mult)
  also have "\<dots> \<le> m * 4" using a bppSize_pos [of d] bppSize_le [of d] by (intro mult_mono) simp_all
  finally show ?thesis .
qed

text \<open>What the code adds up for the five dimensions, all of it far from the limits of 64 bits.\<close>

lemma extent_bounds:
  assumes "0 \<le> last_tx d s" and "0 \<le> last_ty d s"
  shows "- (2 ^ 44) \<le> lowest d s" "lowest d s \<le> 0" "0 \<le> highest d s" "highest d s < 2 ^ 44"
proof -
  note c = bppSize_pos [of d]
  have p: "\<bar>pitch d s * last_ty d s * bppSize d\<bar> \<le> 2 ^ 32 * 4"
    by (rule times_bpp) (use pitch_ty_bound [OF assms(2)] in simp)
  have r: "\<bar>adv d s k * rpt d s k * bppSize d\<bar> \<le> 2 ^ 31 * 255 * 4" for k
    by (rule times_bpp) (rule adv_rpt_bound)
  have t: "\<bar>last_tx d s * bppSize d\<bar> \<le> 2 ^ 16 * 4"
    by (rule times_bpp) (use assms(1) last_tx_bound [of d s] in simp)
  have t0: "0 \<le> last_tx d s * bppSize d" using assms(1) c by simp
  note [simp] = lowest_def highest_def
  have r1: "\<bar>adv d s 1 * rpt d s 1 * bppSize d\<bar> \<le> 2 ^ 31 * 255 * 4" by (rule r)
  have r2: "\<bar>adv d s 2 * rpt d s 2 * bppSize d\<bar> \<le> 2 ^ 31 * 255 * 4" by (rule r)
  have r3: "\<bar>adv d s 3 * rpt d s 3 * bppSize d\<bar> \<le> 2 ^ 31 * 255 * 4" by (rule r)
  show "- (2 ^ 44) \<le> lowest d s" unfolding lowest_def using p r1 r2 r3 by (simp add: min_def abs_le_iff)
  show "lowest d s \<le> 0" unfolding lowest_def by simp
  show "0 \<le> highest d s" unfolding highest_def using t0 c by simp
  show "highest d s < 2 ^ 44" unfolding highest_def using p r1 r2 r3 t bppSize_le [of d]
    by (simp add: max_def abs_le_iff)
qed


lemma uint64_bound: "uint (w :: 64 word) < 2 ^ 64"
  using uint_bounded [of w] by simp

lemma wrap64_small: "\<bar>x\<bar> \<le> 2 ^ 62 \<Longrightarrow> wrap64 x = x"
  by (rule wrap64_id) (simp_all add: abs_le_iff)

lemma wrap_dims:
  "wrap64 (sint (if s then dstAdv1 d else srcAdv1 d) * uint (if s then dstRpt1 d else srcRpt1 d)) = adv d s 1 * rpt d s 1"
  "wrap64 (sint (if s then dstAdv2 d else srcAdv2 d) * uint (if s then dstRpt2 d else srcRpt2 d)) = adv d s 2 * rpt d s 2"
  "wrap64 (sint (if s then dstAdv3 d else srcAdv3 d) * uint (if s then dstRpt3 d else srcRpt3 d)) = adv d s 3 * rpt d s 3"
proof -
  have w: "wrap64 (adv d s k * rpt d s k) = adv d s k * rpt d s k" for k
    by (rule wrap64_small) (use adv_rpt_bound [of d s k] in simp)
  show "wrap64 (sint (if s then dstAdv1 d else srcAdv1 d) * uint (if s then dstRpt1 d else srcRpt1 d)) = adv d s 1 * rpt d s 1"
    "wrap64 (sint (if s then dstAdv2 d else srcAdv2 d) * uint (if s then dstRpt2 d else srcRpt2 d)) = adv d s 2 * rpt d s 2"
    "wrap64 (sint (if s then dstAdv3 d else srcAdv3 d) * uint (if s then dstRpt3 d else srcRpt3 d)) = adv d s 3 * rpt d s 3"
    using w [of 1] w [of 2] w [of 3] by (simp_all add: adv_def rpt_def)
qed

lemma extent_folded:
  assumes "0 \<le> last_tx d s" and "0 \<le> last_ty d s"
  shows "foldl (\<lambda>(st, en) k. (wrap64 (st + min (wrap64 (k * bppSize d)) 0), wrap64 (en + max (wrap64 (k * bppSize d)) 0)))
      (min (wrap64 (last_tx d s * bppSize d)) 0, max (wrap64 (wrap64 (last_tx d s * bppSize d) + (bppSize d - 1))) 0)
      [wrap64 (pitch d s * last_ty d s), adv d s 1 * rpt d s 1, adv d s 2 * rpt d s 2, adv d s 3 * rpt d s 3]
    = (lowest d s, highest d s)"
proof -
  note c = bppSize_pos [of d] bppSize_le [of d]
  define t where "t = last_tx d s * bppSize d"
  define p where "p = pitch d s * last_ty d s * bppSize d"
  define r where "r k = adv d s k * rpt d s k * bppSize d" for k
  have p: "\<bar>p\<bar> \<le> 2 ^ 34" using times_bpp [of "pitch d s * last_ty d s" "2 ^ 32" d] pitch_ty_bound [OF assms(2)]
    by (simp add: p_def)
  have r: "\<bar>r k\<bar> \<le> 2 ^ 41" for k
    using times_bpp [OF adv_rpt_bound [of d s k], of d] by (simp add: r_def)
  have t: "\<bar>t\<bar> \<le> 2 ^ 18" "0 \<le> t"
    using times_bpp [of "last_tx d s" "2 ^ 16" d] assms(1) last_tx_bound [of d s] c(1) by (simp_all add: t_def)
  have wp: "wrap64 (pitch d s * last_ty d s) = pitch d s * last_ty d s"
    by (rule wrap64_small) (use pitch_ty_bound [OF assms(2)] in simp)
  have b: "0 \<le> bppSize d - 1" "bppSize d - 1 \<le> 3" using c by simp_all
  have w [simp]: "wrap64 t = t" "wrap64 p = p" "wrap64 (r k) = r k" "wrap64 (t + (bppSize d - 1)) = t + (bppSize d - 1)" for k
    by (rule wrap64_small, use p r [of k] t b in simp)+
  define mp where "mp = min p 0"
  define m where "m k = min (r k) 0" for k
  define xp where "xp = max p 0"
  define x where "x k = max (r k) 0" for k
  have bb: "\<bar>mp\<bar> \<le> 2 ^ 34" "\<bar>xp\<bar> \<le> 2 ^ 34" "\<bar>m k\<bar> \<le> 2 ^ 41" "\<bar>x k\<bar> \<le> 2 ^ 41" for k
    using p r [of k] by (simp_all add: mp_def xp_def m_def x_def abs_le_iff min_def max_def)
  note b3 = bb(3) [of 1] bb(3) [of 2] bb(3) [of 3] bb(4) [of 1] bb(4) [of 2] bb(4) [of 3]
  have low: "wrap64 (wrap64 (wrap64 (wrap64 (0 + mp) + m 1) + m 2) + m 3) = mp + m 1 + m 2 + m 3"
    using bb(1) b3 by (simp add: wrap64_small)
  have high: "wrap64 (wrap64 (wrap64 (wrap64 (t + (bppSize d - 1) + xp) + x 1) + x 2) + x 3)
    = t + (bppSize d - 1) + xp + x 1 + x 2 + x 3"
    using bb(2) b3 t b by (simp add: wrap64_small)
  have f: "min t 0 = 0" "max (t + (bppSize d - 1)) 0 = t + (bppSize d - 1)"
    using t b by simp_all
  show ?thesis
    unfolding wp foldl_Cons foldl_Nil prod.case
    unfolding t_def [symmetric] p_def [symmetric] r_def [symmetric] w f
    unfolding mp_def [symmetric] m_def [symmetric] xp_def [symmetric] x_def [symmetric] low high
    by (simp add: lowest_def highest_def mp_def m_def xp_def x_def t_def p_def r_def)
qed


lemma check_address_range_extent:
  assumes "tx d \<noteq> 0" and "ty d \<noteq> 0" and "(if s then dstCbEnable d else srcCbEnable d) \<noteq> 1"
    and "pitch_linear_eq_offset d (sint (surfBLOffset d)) bh (bytePerPixel d) s False = Some (Inr offset)"
    and "s \<longrightarrow> pitch_linear_eq_offset d (sint (surfBLOffset d)) bh (bytePerPixel d) False True = Some (Inr offset2)"
    and "\<not> s \<longrightarrow> offset2 = 0"
    and "0 \<le> last_tx d s" and "0 \<le> last_ty d s"
  shows "check_address_range d max_size max_size2 s dst2 bh = Some
    (if 0 \<le> sint max_size \<and> 0 \<le> wrap64 (offset + lowest d s) \<and> wrap64 (offset + highest d s) < sint max_size \<and>
        (dst2 \<longrightarrow> max_size2 \<le> U32_MAX \<and> 0 \<le> wrap64 (offset2 + lowest d s) \<and>
                 wrap64 (offset2 + highest d s) < sint max_size2)
     then Inr () else Inl EINVAL)"
proof -
  have second: "(if s then pitch_linear_eq_offset d (sint (surfBLOffset d)) bh (bytePerPixel d) False True
      else Some (Inr 0)) = Some (Inr offset2)"
    using assms(5,6) by simp
  have dims: "(if s then wrap64 (sint (dstAdv1 d) * uint (dstRpt1 d)) else wrap64 (sint (srcAdv1 d) * uint (srcRpt1 d)))
      = adv d s 1 * rpt d s 1"
    "(if s then wrap64 (sint (dstAdv2 d) * uint (dstRpt2 d)) else wrap64 (sint (srcAdv2 d) * uint (srcRpt2 d)))
      = adv d s 2 * rpt d s 2"
    "(if s then wrap64 (sint (dstAdv3 d) * uint (dstRpt3 d)) else wrap64 (sint (srcAdv3 d) * uint (srcRpt3 d)))
      = adv d s 3 * rpt d s 3"
    using wrap_dims [of s d] by (cases s; simp)+
  have pit: "(if s then uint (dstLinePitch d) else uint (srcLinePitch d)) = pitch d s"
    by (simp add: pitch_def)
  show ?thesis
    unfolding check_address_range_def Let_def second assms(4) dims pit option.case sum.case
      extent_folded [OF assms(7,8)] prod.case
    using assms(1-3) by (auto simp: not_less not_le)
qed

section \<open>What an accepted descriptor may touch\<close>

text \<open>The check against the offset that \<open>pitch_linear_eq_offset\<close> gives, for both layouts of a surface.\<close>

lemma check_address_range_offset:
  assumes "tx d \<noteq> 0" and "ty d \<noteq> 0" and "(if s then dstCbEnable d else srcCbEnable d) \<noteq> 1"
    and "pitch_linear_eq_offset d (sint (surfBLOffset d)) bh (bytePerPixel d) s False = Some (Inr offset)"
    and "s \<longrightarrow> pitch_linear_eq_offset d (sint (surfBLOffset d)) bh (bytePerPixel d) False True = Some (Inr offset2)"
    and "\<not> s \<longrightarrow> offset2 = 0"
    and "0 \<le> last_tx d s" and "0 \<le> last_ty d s"
    and "\<bar>offset\<bar> \<le> 2 ^ 61" and "\<bar>offset2\<bar> \<le> 2 ^ 61"
  shows "check_address_range d max_size max_size2 s dst2 bh = Some (Inr ()) \<longleftrightarrow>
    uint max_size < 2 ^ 63 \<and> transfer_within d s offset (uint max_size) \<and>
    (dst2 \<longrightarrow> uint max_size2 < 2 ^ 32 \<and> transfer_within d s offset2 (uint max_size2))"
proof -
  have w: "wrap64 (k + lowest d s) = k + lowest d s" "wrap64 (k + highest d s) = k + highest d s"
    if "\<bar>k\<bar> \<le> 2 ^ 61" for k
    by (rule wrap64_small, use that extent_bounds [OF assms(7,8)] in \<open>simp add: abs_le_iff\<close>)+
  have m: "0 \<le> sint max_size \<longleftrightarrow> uint max_size < 2 ^ 63" "uint max_size < 2 ^ 63 \<longrightarrow> sint max_size = uint max_size"
    using uint64_bound [of max_size] by (simp_all add: sint_uint_cases)
  have m2: "max_size2 \<le> U32_MAX \<longleftrightarrow> uint max_size2 < 2 ^ 32" "uint max_size2 < 2 ^ 32 \<longrightarrow> sint max_size2 = uint max_size2"
    by (auto simp: word_le_def sint_uint_cases)
  show ?thesis
    unfolding check_address_range_extent [OF assms(1-8)] w [OF assms(9)] w [OF assms(10)]
      transfer_within_iff [OF assms(7,8)]
    using m m2 by auto
qed

text \<open>C3: for a surface stored line by line (format 0), a transfer with at least one element and without circular
  buffer, and offsets of at most \<open>2 ^ 61\<close> in magnitude, \<open>check_address_range\<close> accepts exactly when every byte of
  every element of the five nested loops lies inside of the buffer, and inside of the second destination when that
  is checked as well.
\<close>

theorem check_address_range_exact:
  assumes "(if s then dstFormat d else srcFormat d) = 0"
    and "tx d \<noteq> 0" and "ty d \<noteq> 0" and "0 \<le> last_tx d s" and "0 \<le> last_ty d s"
    and "(if s then dstCbEnable d else srcCbEnable d) \<noteq> 1"
    and "offset = sint (if s then dst_offset d else src_offset d)" and "\<bar>offset\<bar> \<le> 2 ^ 61"
    and "s \<longrightarrow> \<bar>sint (dst2Offset d)\<bar> \<le> 2 ^ 61" and "dst2 \<longrightarrow> s"
  shows "check_address_range d max_size max_size2 s dst2 bh = Some (Inr ()) \<longleftrightarrow>
    uint max_size < 2 ^ 63 \<and> transfer_within d s offset (uint max_size) \<and>
    (dst2 \<longrightarrow> uint max_size2 < 2 ^ 32 \<and> transfer_within d s (sint (dst2Offset d)) (uint max_size2))"
proof -
  define offset2 where "offset2 = (if s then sint (dst2Offset d) else 0)"
  have o: "pitch_linear_eq_offset d (sint (surfBLOffset d)) bh (bytePerPixel d) s False = Some (Inr offset)"
    using assms(1,7) by (simp add: pitch_linear_eq_offset_def)
  have o2: "s \<longrightarrow> pitch_linear_eq_offset d (sint (surfBLOffset d)) bh (bytePerPixel d) False True = Some (Inr offset2)"
    using assms(1) by (cases s) (simp_all add: pitch_linear_eq_offset_def offset2_def)
  have b: "\<not> s \<longrightarrow> offset2 = 0" "\<bar>offset2\<bar> \<le> 2 ^ 61" "dst2 \<Longrightarrow> offset2 = sint (dst2Offset d)"
    using assms(9,10) by (simp_all add: offset2_def)
  show ?thesis
    by (subst check_address_range_offset [OF assms(2,3,6) o o2 b(1) assms(4,5,8) b(2)]) (cases dst2; simp add: b(3))
qed

section \<open>Block-linear surfaces\<close>

text \<open>
  The layout of a block-linear surface: a row of blocks (ROP) holds blocks of 64 bytes by \<open>2 ^ h\<close> GOBs, a
  GOB has 64 bytes in 8 lines, whose addresses interleave the bits of column and line.
  \<open>gob_swizzle x y\<close> is the place of column \<open>x\<close> and line \<open>y\<close> in its GOB, \<open>bl_offset h x y\<close> that in its ROP.
\<close>

definition gob_swizzle :: "nat \<Rightarrow> nat \<Rightarrow> nat" where
  "gob_swizzle x y = x mod 16 + 16 * (y mod 2) + 32 * (x div 16 mod 2) + 64 * (y div 2) + 256 * (x div 32)"

definition bl_offset :: "nat \<Rightarrow> nat \<Rightarrow> nat \<Rightarrow> nat" where
  "bl_offset h x y = x div 64 * 2 ^ (9 + h) + y div 8 * 512 + gob_swizzle (x mod 64) (y mod 8)"

lemma and_bit_iff:
  fixes w :: u32
  shows "w AND 0x10 \<noteq> 0 \<longleftrightarrow> odd (unat w div 16)" "w AND 0x20 \<noteq> 0 \<longleftrightarrow> odd (unat w div 32)"
    "w AND 0x40 \<noteq> 0 \<longleftrightarrow> odd (unat w div 64)" "w AND 0x80 \<noteq> 0 \<longleftrightarrow> odd (unat w div 128)"
    "w AND 0x100 \<noteq> 0 \<longleftrightarrow> odd (unat w div 256)"
proof -
  have *: "w AND 2 ^ n \<noteq> 0 \<longleftrightarrow> odd (unat w div 2 ^ n)" if "n < 32" for n
  proof -
    have "w AND 2 ^ n \<noteq> 0 \<longleftrightarrow> bit w n" by (simp add: and_exp_eq_0_iff_not_bit)
    also have "\<dots> \<longleftrightarrow> bit (unat w) n" using that by (simp add: bit_unsigned_iff exp_eq_zero_iff)
    finally show ?thesis by (simp only: bit_iff_odd)
  qed
  show "w AND 0x10 \<noteq> 0 \<longleftrightarrow> odd (unat w div 16)" using * [of 4] by simp
  show "w AND 0x20 \<noteq> 0 \<longleftrightarrow> odd (unat w div 32)" using * [of 5] by simp
  show "w AND 0x40 \<noteq> 0 \<longleftrightarrow> odd (unat w div 64)" using * [of 6] by simp
  show "w AND 0x80 \<noteq> 0 \<longleftrightarrow> odd (unat w div 128)" using * [of 7] by simp
  show "w AND 0x100 \<noteq> 0 \<longleftrightarrow> odd (unat w div 256)" using * [of 8] by simp
qed

lemma gob_x_unat: "unat (gob_x w) = unat w mod 16 + 16 * (unat w div 32 mod 2) + 32 * (unat w div 256 mod 2)"
proof -
  have "unat (w AND 0xF) = unat w AND 15" by (simp add: unsigned_and_eq)
  also have "\<dots> = take_bit 4 (unat w)" unfolding take_bit_eq_mask by (simp add: mask_numeral)
  also have "\<dots> = unat w mod 16" by (simp add: take_bit_eq_mod)
  finally have a: "unat (w AND 0xF) = unat w mod 16" .
  then have l: "unat (w AND 0xF) < 16" by simp
  have "unat (gob_x w) = unat (w AND 0xF) + of_bool (w AND 0x20 \<noteq> 0) * 16 + of_bool (w AND 0x100 \<noteq> 0) * 32"
    unfolding gob_x_def using l by (cases "w AND 0x20 = 0"; cases "w AND 0x100 = 0") (simp_all add: unat_word_ariths)
  then show ?thesis unfolding a and_bit_iff by (simp add: mod2_eq_if)
qed

lemma gob_y_unat: "unat (gob_y w) = unat w div 16 mod 2 + 2 * (unat w div 64 mod 2) + 4 * (unat w div 128 mod 2)"
  unfolding gob_y_def and_bit_iff by (simp add: mod2_eq_if)

lemma low_bits_split:
  fixes u :: nat
  shows "u mod 512 = u mod 16 + 16 * (u div 16 mod 2) + 32 * (u div 32 mod 2) + 64 * (u div 64 mod 2)
    + 128 * (u div 128 mod 2) + 256 * (u div 256 mod 2)"
  using mod_mult2_eq [of u 16 2] mod_mult2_eq [of u 32 2] mod_mult2_eq [of u 64 2]
    mod_mult2_eq [of u 128 2] mod_mult2_eq [of u 256 2] by simp

lemma gob_bounds: "unat (gob_x w) < 64" "unat (gob_y w) < 8"
proof -
  have m: "n mod 2 \<le> 1" for n :: nat by linarith
  have "unat w mod 16 < 16" by simp
  then show "unat (gob_x w) < 64" unfolding gob_x_unat using m [of "unat w div 32"] m [of "unat w div 256"] by linarith
  show "unat (gob_y w) < 8" unfolding gob_y_unat
    using m [of "unat w div 16"] m [of "unat w div 64"] m [of "unat w div 128"] by linarith
qed

lemma swizzle_bits:
  fixes a b4 b5 b6 b7 b8 :: nat
  assumes "a < 16" and "b4 < 2" and "b5 < 2" and "b6 < 2" and "b7 < 2" and "b8 < 2"
  shows "gob_swizzle (a + 16 * b5 + 32 * b8) (b4 + 2 * b6 + 4 * b7) = a + 16 * b4 + 32 * b5 + 64 * b6 + 128 * b7 + 256 * b8"
proof -
  have k: "a + 16 * b5 + 32 * b8 = a + 16 * (b5 + 2 * b8)" by simp
  have d: "(a + 16 * b5 + 32 * b8) div 16 = b5 + 2 * b8" unfolding k using assms(1) by simp
  have m: "(a + 16 * b5 + 32 * b8) mod 16 = a" unfolding k mod_mult_self2 using assms(1) by simp
  have x: "(a + 16 * b5 + 32 * b8) div 16 mod 2 = b5"
    "(a + 16 * b5 + 32 * b8) div 32 = b8"
    using assms(1,3,6) div_mult2_eq [of "a + 16 * b5 + 32 * b8" 16 2] unfolding d
    by simp_all
  have y: "(b4 + 2 * b6 + 4 * b7) mod 2 = b4" "(b4 + 2 * b6 + 4 * b7) div 2 = b6 + 2 * b7"
    using assms(2,4,5) by (auto simp: less_2_cases_iff)
  show ?thesis unfolding gob_swizzle_def m x y by simp
qed

lemma gob_swizzle_inverse: "gob_swizzle (unat (gob_x w)) (unat (gob_y w)) = unat w mod 512"
  unfolding gob_x_unat gob_y_unat low_bits_split by (rule swizzle_bits) simp_all


definition rop_bytes :: "nat \<Rightarrow> nat \<Rightarrow> nat" where
  "rop_bytes lpb h = lpb div 64 * 2 ^ (9 + h)"

definition bl_x :: "u32 \<Rightarrow> nat \<Rightarrow> nat \<Rightarrow> nat" where
  "bl_x ofs lpb h = unat (gob_x ofs) + 64 * (unat ofs mod rop_bytes lpb h div 2 ^ (9 + h))"

definition bl_y :: "u32 \<Rightarrow> nat \<Rightarrow> nat" where
  "bl_y ofs h = unat (gob_y ofs) + 8 * (unat ofs mod 2 ^ (9 + h) div 512)"

lemma unat_push_no_wrap:
  "unat (w :: u32) * 2 ^ n < 2 ^ 32 \<Longrightarrow> unat (push_bit n w) = unat w * 2 ^ n"
  unfolding unsigned_push_bit_eq by (simp add: take_bit_eq_mod push_bit_eq_mult)

lemma unat_mult_no_wrap: "unat (a :: u32) * unat b < 2 ^ 32 \<Longrightarrow> unat (a * b) = unat a * unat b"
  by (simp add: unat_word_ariths)

lemma unat_drop_div: "unat (drop_bit n (w :: u32)) = unat w div 2 ^ n"
  unfolding unsigned_drop_bit_eq using unat_lt2p_32 [of w]
  by (simp add: drop_bit_eq_div take_bit_nat_eq_self)

lemma block_size_le: "h \<le> 5 \<Longrightarrow> (2 :: nat) ^ (9 + h) \<le> 2 ^ 14"
  by (rule power_increasing) simp_all

lemma rop_bytes_le:
  assumes "h \<le> 5" and "lpb \<le> 2 ^ 18"
  shows "rop_bytes lpb h \<le> 2 ^ 26"
proof -
  have "lpb div 64 \<le> 2 ^ 18 div 64" by (rule div_le_mono) (rule assms(2))
  then have "lpb div 64 * 2 ^ (9 + h) \<le> 2 ^ 12 * 2 ^ 14"
    using block_size_le [OF assms(1)] by (intro mult_mono) simp_all
  then show ?thesis by (simp add: rop_bytes_def)
qed

lemma bl_x_less:
  assumes "0 < lpb div 64"
  shows "bl_x ofs lpb h < lpb div 64 * 64"
proof -
  have "unat ofs mod rop_bytes lpb h < lpb div 64 * 2 ^ (9 + h)"
    using assms by (simp add: rop_bytes_def)
  then have "unat ofs mod rop_bytes lpb h div 2 ^ (9 + h) < lpb div 64"
    by (simp add: less_mult_imp_div_less)
  then show ?thesis unfolding bl_x_def using gob_bounds(1) [of ofs] by linarith
qed

lemma bl_y_less: "bl_y ofs h < 8 * 2 ^ h"
proof -
  have "unat ofs mod 2 ^ (9 + h) < 2 ^ h * 512" by (simp add: power_add mult.commute)
  then have "unat ofs mod 2 ^ (9 + h) div 512 < 2 ^ h" by (rule less_mult_imp_div_less)
  then show ?thesis unfolding bl_y_def using gob_bounds(2) [of ofs] by linarith
qed

lemma bl_frame_offset_unat:
  fixes lpb :: u32
  assumes "h \<le> 5" and "unat lpb \<le> 2 ^ 18" and "0 < unat lpb div 64"
  defines "rop \<equiv> rop_bytes (unat lpb) h"
  shows "bl_frame_offset surf ofs lpb h = Some (wrap64 (wrap64 (wrap64 (surf + int (unat ofs div rop * rop))
    + int (bl_y ofs h * unat lpb)) + int (bl_x ofs (unat lpb) h)))"
proof -
  have B: "(2 :: nat) ^ (9 + h) \<le> 2 ^ 14" by (rule block_size_le) (rule assms(1))
  define rs where "rs = push_bit (9 + h) (drop_bit 6 lpb)"
  have rs: "unat rs = rop"
    unfolding rs_def using rop_bytes_le [OF assms(1,2)]
    by (subst unat_push_no_wrap) (simp_all add: unat_drop_div rop_bytes_def rop_def)
  have rop0: "0 < rop" using assms(3) by (simp add: rop_def rop_bytes_def)
  have rs0: "rs \<noteq> 0" using rs rop0 by auto
  have q: "unat (ofs div rs * rs) = unat ofs div rop * rop"
  proof -
    have "unat ofs div rop * rop < 2 ^ 32"
      using unat_lt2p_32 [of ofs] by (rule le_less_trans [OF div_times_less_eq_dividend])
    moreover have "unat ofs div rop < 2 ^ 32"
      using unat_lt2p_32 [of ofs] by (rule le_less_trans [OF div_le_dividend])
    ultimately show ?thesis by (simp add: unat_word_ariths unat_div rs)
  qed
  have within: "unat (ofs - ofs div rs * rs) = unat ofs mod rop"
    by (subst unat_sub_le) (simp_all add: q minus_div_mult_eq_mod)
  have mask: "ofs AND drop_bit (32 - (9 + h)) 0xFFFFFFFF = take_bit (9 + h) ofs"
  proof -
    have f: "(0xFFFFFFFF :: u32) = - 1" by simp
    have "drop_bit (32 - (9 + h)) (0xFFFFFFFF :: u32) = mask (9 + h)"
      unfolding f using assms(1) by (auto simp: bit_eq_iff bit_simps mask_numeral simp flip: mask_eq_exp_minus_1)
    then show ?thesis by (simp add: take_bit_eq_mask)
  qed
  have m: "unat (take_bit (9 + h) ofs) = unat ofs mod 2 ^ (9 + h)"
    unfolding unsigned_take_bit_eq by (simp add: take_bit_eq_mod)
  have xl: "bl_x ofs (unat lpb) h < 2 ^ 18" using bl_x_less [OF assms(3), of ofs h] assms(2) by simp
  have yl: "bl_y ofs h < 2 ^ 8" using bl_y_less [of ofs h] power_increasing [of h 5 "2 :: nat"] assms(1) by simp
  have x: "unat (gob_x ofs + push_bit 6 (drop_bit (9 + h) (ofs - ofs div rs * rs))) = bl_x ofs (unat lpb) h"
  proof -
    have "unat (push_bit 6 (drop_bit (9 + h) (ofs - ofs div rs * rs))) = unat ofs mod rop div 2 ^ (9 + h) * 64"
      using xl by (subst unat_push_no_wrap) (simp_all add: unat_drop_div within bl_x_def rop_def)
    then show ?thesis using xl by (subst unat_add_no_wrap) (simp_all add: bl_x_def rop_def)
  qed
  have y: "unat (gob_y ofs + push_bit 3 (drop_bit 9 (take_bit (9 + h) ofs))) = bl_y ofs h"
  proof -
    have "unat (push_bit 3 (drop_bit 9 (take_bit (9 + h) ofs))) = unat ofs mod 2 ^ (9 + h) div 512 * 8"
      using yl by (subst unat_push_no_wrap) (simp_all add: unat_drop_div m bl_y_def)
    then show ?thesis using yl by (subst unat_add_no_wrap) (simp_all add: bl_y_def)
  qed
  have yp: "unat ((gob_y ofs + push_bit 3 (drop_bit 9 (take_bit (9 + h) ofs))) * lpb) = bl_y ofs h * unat lpb"
  proof -
    have "bl_y ofs h * unat lpb \<le> 2 ^ 8 * 2 ^ 18" using yl assms(2) by (intro mult_mono) simp_all
    then show ?thesis by (subst unat_mult_no_wrap) (simp_all add: y)
  qed
  have un: "uint w = int (unat w)" for w :: u32 by simp
  have form: "bl_frame_offset surf ofs lpb h = Some (wrap64 (wrap64 (wrap64 (surf + uint (ofs div rs * rs))
    + uint ((gob_y ofs + push_bit 3 (drop_bit 9 (take_bit (9 + h) ofs))) * lpb))
    + uint (gob_x ofs + push_bit 6 (drop_bit (9 + h) (ofs - ofs div rs * rs)))))"
    unfolding bl_frame_offset_def Let_def bl_consts
    using rs0 mask by (simp add: rs_def)
  show ?thesis unfolding form un q yp x ..
qed


lemma bl_offset_inverse:
  assumes "0 < lpb div 64"
  shows "unat ofs = unat ofs div rop_bytes lpb h * rop_bytes lpb h + bl_offset h (bl_x ofs lpb h) (bl_y ofs h)"
proof -
  define B where "B = (2 :: nat) ^ (9 + h)"
  define w where "w = unat ofs mod rop_bytes lpb h"
  have wB: "w mod B = unat ofs mod B"
    unfolding w_def by (rule mod_mod_cancel) (simp add: B_def rop_bytes_def)
  have w512: "unat ofs mod B mod 512 = unat ofs mod 512"
    by (rule mod_mod_cancel) (simp add: B_def power_add)
  have x: "bl_x ofs lpb h div 64 = w div B" "bl_x ofs lpb h mod 64 = unat (gob_x ofs)"
    using gob_bounds(1) [of ofs] by (simp_all add: bl_x_def w_def B_def)
  have y: "bl_y ofs h div 8 = unat ofs mod B div 512" "bl_y ofs h mod 8 = unat (gob_y ofs)"
    using gob_bounds(2) [of ofs] by (simp_all add: bl_y_def B_def)
  have "bl_offset h (bl_x ofs lpb h) (bl_y ofs h) = w div B * B + (unat ofs mod B div 512 * 512 + unat ofs mod B mod 512)"
    unfolding bl_offset_def x y gob_swizzle_inverse w512 B_def [symmetric] by (simp only: add.assoc)
  also have "\<dots> = w" unfolding div_mult_mod_eq wB [symmetric] ..
  finally have "bl_offset h (bl_x ofs lpb h) (bl_y ofs h) = w" .
  then show ?thesis using div_mult_mod_eq [of "unat ofs" "rop_bytes lpb h"] unfolding w_def by linarith
qed

lemma line_pitch_aligned: "(w :: u32) AND drop_bit (32 - BL_GOB_WIDTH_LOG2) 0xFFFFFFFF = 0 \<longleftrightarrow> unat w mod 64 = 0"
proof -
  have "w AND drop_bit (32 - BL_GOB_WIDTH_LOG2) 0xFFFFFFFF = take_bit 6 w"
    by (simp add: bl_consts take_bit_eq_mask mask_numeral)
  moreover have "unat (take_bit 6 w) = unat w mod 64"
    unfolding unsigned_take_bit_eq by (simp add: take_bit_eq_mod)
  ultimately show ?thesis by (metis unat_eq_zero)
qed

lemma bl_accepted:
  assumes "pitch_linear_eq_offset d surf bh bpp is_dst is_dst2 = Some (Inr r)"
    and "(if is_dst \<or> is_dst2 then dstFormat d else srcFormat d) \<noteq> 0" and "bpp \<le> 2"
    and "pit = (if is_dst \<or> is_dst2 then dstLinePitch d else srcLinePitch d)"
    and "ofs = (if is_dst then dst_offset d else if is_dst2 then dst2Offset d else src_offset d)"
  obtains "unat bh \<le> 5" and "unat pit * 2 ^ unat bpp mod 64 = 0" and "0 < unat pit"
    and "bl_frame_offset surf (word_of_int (uint ofs - surf)) (push_bit (unat bpp) (ucast pit)) (unat bh) = Some r"
    and "unat (push_bit (unat bpp) (ucast pit) :: u32) = unat pit * 2 ^ unat bpp"
proof -
  have b: "unat bpp \<le> 2" using assms(3) by (simp add: word_le_nat_alt)
  have pw: "unat pit < 2 ^ 16" using unsigned_less [of pit] by simp
  moreover have "(2 :: nat) ^ unat bpp \<le> 2 ^ 2" using b by (rule power_increasing) simp
  ultimately have "unat pit * 2 ^ unat bpp \<le> 2 ^ 16 * 2 ^ 2" by (intro mult_mono) simp_all
  then have u: "unat (push_bit (unat bpp) (ucast pit) :: u32) = unat pit * 2 ^ unat bpp"
    using pw by (subst unat_push_no_wrap) (simp_all add: unsigned_ucast_eq take_bit_eq_mod)
  have acc: "bh \<le> 5" "(push_bit (unat bpp) (ucast pit) :: u32) AND drop_bit (32 - BL_GOB_WIDTH_LOG2) 0xFFFFFFFF = 0"
    "bl_frame_offset surf (word_of_int (uint ofs - surf)) (push_bit (unat bpp) (ucast pit)) (unat bh) = Some r"
    using assms(1,2) b unfolding pitch_linear_eq_offset_def Let_def assms(4,5)
    by (simp_all only: NVPVA_MAX_VALID_BLK_HGT_LG2_def not_less [symmetric] split: if_split_asm) (auto simp: not_less)
  have "pit \<noteq> 0"
  proof
    assume "pit = 0"
    then show False using acc(3) by (simp add: bl_frame_offset_def)
  qed
  then show thesis
    using that acc(1,3) u acc(2) [unfolded line_pitch_aligned u] by (simp add: word_le_nat_alt unat_gt_0)
qed

lemma wrap64_sum:
  assumes "\<bar>s\<bar> \<le> 2 ^ 61" and "a < (2 :: nat) ^ 32" and "b \<le> (2 :: nat) ^ 26" and "c < (2 :: nat) ^ 18"
  shows "wrap64 (s + int a) = s + int a" "wrap64 (s + int a + int b) = s + int a + int b"
    "wrap64 (s + int a + int b + int c) = s + int a + int b + int c"
  by (rule wrap64_small, use assms in simp)+

text \<open>C8: the block-linear branch of \<open>pitch_linear_eq_offset\<close>, for at most four bytes per element and a surface that starts
  within \<open>2 ^ 61\<close>, takes an offset into the surface modulo \<open>2 ^ 32\<close> to the column and line that are stored there:
  they lie in the row of blocks of the offset, storing them block by block gives back the offset modulo
  \<open>2 ^ 32\<close>, and the result is their place in a surface stored line by line.  The offset into the surface is
  kept in 32 bits, so an offset of \<open>2 ^ 32\<close> or more behind the start of the surface is truncated.
\<close>

theorem pitch_linear_roundtrip:
  assumes "pitch_linear_eq_offset d surf bh bpp is_dst is_dst2 = Some (Inr r)"
    and "(if is_dst \<or> is_dst2 then dstFormat d else srcFormat d) \<noteq> 0" and "bpp \<le> 2"
    and "pit = (if is_dst \<or> is_dst2 then dstLinePitch d else srcLinePitch d)"
    and "ofs = (if is_dst then dst_offset d else if is_dst2 then dst2Offset d else src_offset d)"
    and "\<bar>surf\<bar> \<le> 2 ^ 61"
  shows "\<exists>row x y. x < unat pit * 2 ^ unat bpp \<and> y < 8 * 2 ^ unat bh \<and>
    (uint ofs - surf) mod 2 ^ 32 = int (row * (8 * 2 ^ unat bh * (unat pit * 2 ^ unat bpp)) + bl_offset (unat bh) x y) \<and>
    r = surf + int ((row * (8 * 2 ^ unat bh) + y) * (unat pit * 2 ^ unat bpp) + x)"
proof -
  define w :: u32 where "w = word_of_int (uint ofs - surf)"
  define p where "p = unat pit * 2 ^ unat bpp"
  define lpb :: u32 where "lpb = push_bit (unat bpp) (ucast pit)"
  define rop where "rop = rop_bytes p (unat bh)"
  define row where "row = unat w div rop"
  define x where "x = bl_x w p (unat bh)"
  define y where "y = bl_y w (unat bh)"
  have acc: "unat bh \<le> 5" "p mod 64 = 0" "0 < unat pit" "bl_frame_offset surf w lpb (unat bh) = Some r" "unat lpb = p"
    unfolding w_def p_def lpb_def by (rule bl_accepted [OF assms(1-5)]; assumption)+
  have b: "unat bpp \<le> 2" using assms(3) by (simp add: word_le_nat_alt)
  have "unat pit < 2 ^ 16" using unsigned_less [of pit] by simp
  moreover have "(2 :: nat) ^ unat bpp \<le> 2 ^ 2" using b by (rule power_increasing) simp
  ultimately have "p \<le> 2 ^ 16 * 2 ^ 2" unfolding p_def by (intro mult_mono) simp_all
  then have p18: "p \<le> 2 ^ 18" by simp
  have p0: "0 < p" using acc(3) by (simp add: p_def)
  have p64: "p div 64 * 64 = p" using acc(2) by auto
  then have pd: "0 < p div 64" using p0 by (cases "p div 64") simp_all
  have rop: "rop = 8 * 2 ^ unat bh * p"
  proof -
    have "rop = p div 64 * 64 * (8 * 2 ^ unat bh)" by (simp add: rop_def rop_bytes_def power_add)
    then show ?thesis unfolding p64 by simp
  qed
  have uw: "(uint ofs - surf) mod 2 ^ 32 = int (unat w)"
  proof -
    have "uint w = (uint ofs - surf) mod 2 ^ 32" unfolding w_def uint_word_of_int by simp
    then show ?thesis by simp
  qed
  have inv: "unat w = row * rop + bl_offset (unat bh) x y"
    unfolding row_def rop_def x_def y_def by (rule bl_offset_inverse [OF pd])
  have xl: "x < p" using bl_x_less [OF pd, of w "unat bh"] p64 by (simp add: x_def)
  have yl: "y < 8 * 2 ^ unat bh" unfolding y_def by (rule bl_y_less)
  have r: "r = surf + int (row * rop) + int (y * p) + int x"
  proof -
    have "row * rop \<le> unat w" by (simp add: row_def)
    then have 1: "row * rop < 2 ^ 32" using unat_lt2p_32 [of w] by linarith
    have "y * p \<le> rop" unfolding rop using yl by simp
    also have "\<dots> \<le> 2 ^ 26" unfolding rop_def using acc(1) p18 by (rule rop_bytes_le)
    finally have 2: "y * p \<le> 2 ^ 26" .
    have 3: "x < 2 ^ 18" using xl p18 by simp
    have "Some r = Some (wrap64 (wrap64 (wrap64 (surf + int (row * rop)) + int (y * p)) + int x))"
      using bl_frame_offset_unat [of "unat bh" lpb surf w] acc p18 pd
      by (simp add: row_def rop_def x_def y_def)
    moreover have "wrap64 (surf + int (row * rop)) = surf + int (row * rop)"
      "wrap64 (surf + int (row * rop) + int (y * p)) = surf + int (row * rop) + int (y * p)"
      "wrap64 (surf + int (row * rop) + int (y * p) + int x) = surf + int (row * rop) + int (y * p) + int x"
      using wrap64_sum [OF assms(6) 1 2 3] by simp_all
    ultimately show ?thesis by simp
  qed
  show ?thesis
  proof (intro exI conjI)
    show "x < unat pit * 2 ^ unat bpp" using xl by (simp add: p_def)
    show "y < 8 * 2 ^ unat bh" by (rule yl)
    show "(uint ofs - surf) mod 2 ^ 32 = int (row * (8 * 2 ^ unat bh * (unat pit * 2 ^ unat bpp)) + bl_offset (unat bh) x y)"
      unfolding uw inv rop p_def ..
    show "r = surf + int ((row * (8 * 2 ^ unat bh) + y) * (unat pit * 2 ^ unat bpp) + x)"
      unfolding r rop p_def by (simp add: algebra_simps)
  qed
qed

end
