(* ===== verification/Pva_Patch_Facts.thy ===== *)
theory Pva_Patch_Facts imports Pva_Patch Pva_Range_Facts begin

text \<open>
  What reaches the DMA engine: the descriptor that is programmed says the same as the one that was checked
  when the fields of the latter fit, and otherwise it does not; an offset near the limits of 64 bits passes the
  range check; and the loop programs only descriptors that have been checked.
\<close>

section \<open>Reading a hardware descriptor\<close>

definition hw_src_mode :: "pva_dtd_s \<Rightarrow> u8" where "hw_src_mode dd = take_bit 3 (transfer_control0 dd)"
definition hw_src_format :: "pva_dtd_s \<Rightarrow> u8" where "hw_src_format dd = take_bit 1 (drop_bit 3 (transfer_control0 dd))"
definition hw_dst_mode :: "pva_dtd_s \<Rightarrow> u8" where "hw_dst_mode dd = take_bit 3 (drop_bit 4 (transfer_control0 dd))"
definition hw_dst_format :: "pva_dtd_s \<Rightarrow> u8" where "hw_dst_format dd = drop_bit 7 (transfer_control0 dd)"
definition hw_bpp :: "pva_dtd_s \<Rightarrow> u8" where "hw_bpp dd = take_bit 2 (transfer_control1 dd)"
definition hw_dst_cb :: "pva_dtd_s \<Rightarrow> u8" where "hw_dst_cb dd = take_bit 1 (drop_bit 1 (transfer_control2 dd))"
definition hw_src_cb :: "pva_dtd_s \<Rightarrow> u8" where "hw_src_cb dd = take_bit 1 (drop_bit 2 (transfer_control2 dd))"

text \<open>Steps are 24-bit signed numbers below an 8-bit repetition count.\<close>

definition hw_adv :: "u32 \<Rightarrow> int" where "hw_adv w = signed_take_bit 23 (uint w)"
definition hw_rpt :: "u32 \<Rightarrow> u8" where "hw_rpt w = ucast (drop_bit 24 w)"

definition hw_addr :: "u8 \<Rightarrow> u32 \<Rightarrow> int" where "hw_addr hi lo = uint hi * 2 ^ 32 + uint lo"

definition hw_matches :: "nvpva_dma_descriptor \<Rightarrow> pva_dtd_s \<Rightarrow> bool" where
  "hw_matches d dd \<longleftrightarrow>
    hw_src_mode dd = srcTransferMode d \<and> hw_src_format dd = srcFormat d \<and>
    hw_dst_mode dd = dstTransferMode d \<and> hw_dst_format dd = dstFormat d \<and> hw_bpp dd = bytePerPixel d \<and>
    hw_src_cb dd = srcCbEnable d \<and> hw_dst_cb dd = dstCbEnable d \<and>
    hw_tx dd = tx d \<and> hw_ty dd = ty d \<and> slp_adv dd = srcLinePitch d \<and> dlp_adv dd = dstLinePitch d \<and>
    hw_px dd = px d \<and> uint (hw_py dd) = uint (py d) \<and>
    hw_adv (srcpt1_cntl dd) = sint (srcAdv1 d) \<and> hw_rpt (srcpt1_cntl dd) = srcRpt1 d \<and>
    hw_adv (dstpt1_cntl dd) = sint (dstAdv1 d) \<and> hw_rpt (dstpt1_cntl dd) = dstRpt1 d \<and>
    hw_adv (srcpt2_cntl dd) = sint (srcAdv2 d) \<and> hw_rpt (srcpt2_cntl dd) = srcRpt2 d \<and>
    hw_adv (dstpt2_cntl dd) = sint (dstAdv2 d) \<and> hw_rpt (dstpt2_cntl dd) = dstRpt2 d \<and>
    hw_adv (srcpt3_cntl dd) = sint (srcAdv3 d) \<and> hw_rpt (srcpt3_cntl dd) = srcRpt3 d \<and>
    hw_adv (dstpt3_cntl dd) = sint (dstAdv3 d) \<and> hw_rpt (dstpt3_cntl dd) = dstRpt3 d"

text \<open>The fields of a descriptor that fit into the registers they are written to.\<close>

definition adv_fits :: "s32 \<Rightarrow> bool" where
  "adv_fits a \<longleftrightarrow> - (2 ^ 23) \<le> sint a \<and> sint a < 2 ^ 23"

definition desc_fits :: "nvpva_dma_descriptor \<Rightarrow> bool" where
  "desc_fits d \<longleftrightarrow> srcTransferMode d < 8 \<and> dstTransferMode d < 8 \<and> srcFormat d < 2 \<and> dstFormat d < 2 \<and> bytePerPixel d < 4 \<and> pxDirection d < 2 \<and> pyDirection d < 2 \<and>
    boundaryPixelExtension d < 8 \<and> prefetchEnable d < 2 \<and> srcCbEnable d < 2 \<and> dstCbEnable d < 2 \<and> py d < 256 \<and>
    adv_fits (srcAdv1 d) \<and> adv_fits (srcAdv2 d) \<and> adv_fits (srcAdv3 d) \<and>
    adv_fits (dstAdv1 d) \<and> adv_fits (dstAdv2 d) \<and> adv_fits (dstAdv3 d)"

lemma unat_exp_below: "n < LENGTH('a) \<Longrightarrow> unat (2 ^ n :: 'a::len word) = 2 ^ n"
  by transfer (simp add: take_bit_nat_eq_self flip: take_bit_of_nat nat_power_eq)

lemma bits_below:
  fixes w :: "'a::len word"
  assumes "w < 2 ^ n" and "n < LENGTH('a)" and "n \<le> m"
  shows "\<not> bit w m"
proof
  assume "bit w m"
  then have "odd (unat w div 2 ^ m)" using bit_imp_le_length [of w m] by (simp add: bit_unsigned_iff flip: bit_iff_odd)
  then have "unat w div 2 ^ m \<noteq> 0" by (metis even_zero)
  then have "2 ^ m \<le> unat w" by (metis div_less not_le)
  moreover have "unat w < 2 ^ n"
    using assms(1,2) by (simp add: word_less_nat_alt take_bit_nat_eq_self unat_exp_below)
  moreover have "(2 :: nat) ^ n \<le> 2 ^ m" using assms(3) by (rule power_increasing) simp
  ultimately show False by linarith
qed

lemma word_numeral_bits:
  fixes w :: u8
  shows "bit w m \<Longrightarrow> w < 2 \<Longrightarrow> m = 0" "bit w m \<Longrightarrow> w < 4 \<Longrightarrow> m < 2" "bit w m \<Longrightarrow> w < 8 \<Longrightarrow> m < 3"
    "bit w m \<Longrightarrow> m < 8"
  using bits_below [of w 1 m] bits_below [of w 2 m] bits_below [of w 3 m] bit_imp_le_length [of w m]
  by (auto simp: not_le intro: ccontr)

lemma control0_bits:
  "bit (transfer_control0 (fill_control d dd)) n \<longleftrightarrow> n < 8 \<and> (bit (srcTransferMode d) n \<or>
     3 \<le> n \<and> bit (srcFormat d) (n - 3) \<or> 4 \<le> n \<and> bit (dstTransferMode d) (n - 4) \<or> 7 \<le> n \<and> bit (dstFormat d) (n - 7))"
  by (auto simp: fill_control_def bit_or_iff bit_push_bit_iff dest: word_numeral_bits(4))

lemma control1_bits:
  "bit (transfer_control1 (fill_control d dd)) n \<longleftrightarrow> n < 8 \<and> (bit (bytePerPixel d) n \<or>
     2 \<le> n \<and> bit (pxDirection d) (n - 2) \<or> 3 \<le> n \<and> bit (pyDirection d) (n - 3) \<or>
     4 \<le> n \<and> bit (boundaryPixelExtension d) (n - 4) \<or> 7 \<le> n \<and> bit (transTrueCompletion d) (n - 7))"
  by (auto simp: fill_control_def bit_or_iff bit_push_bit_iff dest: word_numeral_bits(4))

lemma control_word_decodes:
  assumes "srcTransferMode d < 8" and "dstTransferMode d < 8" and "srcFormat d < 2" and "dstFormat d < 2"
    and "bytePerPixel d < 4"
  shows "hw_src_mode (fill_control d dd) = srcTransferMode d" "hw_src_format (fill_control d dd) = srcFormat d"
    "hw_dst_mode (fill_control d dd) = dstTransferMode d" "hw_dst_format (fill_control d dd) = dstFormat d"
    "hw_bpp (fill_control d dd) = bytePerPixel d"
proof -
  note b = bit_take_bit_iff bit_drop_bit_eq o_apply control0_bits control1_bits
  show "hw_src_mode (fill_control d dd) = srcTransferMode d"
    unfolding hw_src_mode_def by (rule bit_word_eqI, unfold b)
      (use assms in \<open>auto simp del: bit_0 dest: word_numeral_bits\<close>)
  show "hw_src_format (fill_control d dd) = srcFormat d"
    unfolding hw_src_format_def by (rule bit_word_eqI, unfold b)
      (use assms in \<open>auto simp del: bit_0 dest: word_numeral_bits\<close>)
  show "hw_dst_mode (fill_control d dd) = dstTransferMode d"
    unfolding hw_dst_mode_def by (rule bit_word_eqI, unfold b)
      (use assms in \<open>auto simp del: bit_0 dest: word_numeral_bits\<close>)
  show "hw_dst_format (fill_control d dd) = dstFormat d"
    unfolding hw_dst_format_def by (rule bit_word_eqI, unfold b)
      (use assms in \<open>auto simp del: bit_0 dest: word_numeral_bits\<close>)
  show "hw_bpp (fill_control d dd) = bytePerPixel d"
    unfolding hw_bpp_def by (rule bit_word_eqI, unfold b)
      (use assms in \<open>auto simp del: bit_0 dest: word_numeral_bits\<close>)
qed

lemma adv_cntl_decodes:
  shows "hw_rpt (adv_cntl r a) = r" and "adv_fits a \<Longrightarrow> hw_adv (adv_cntl r a) = sint a"
proof -
  have m: "(0xFF :: u32) = mask 8" "(0xFFFFFF :: u32) = mask 24" by (simp_all add: mask_numeral)
  show "hw_rpt (adv_cntl r a) = r"
    unfolding hw_rpt_def adv_cntl_def m by (rule bit_word_eqI) (auto simp: bit_simps)
  have t: "take_bit 24 (adv_cntl r a) = take_bit 24 a"
    unfolding adv_cntl_def m by (rule bit_word_eqI) (auto simp: bit_simps)
  assume f: "adv_fits a"
  have "signed_take_bit 23 (uint (adv_cntl r a)) = signed_take_bit 23 (take_bit 24 (uint (adv_cntl r a)))"
    by (simp add: signed_take_bit_take_bit)
  also have "take_bit 24 (uint (adv_cntl r a)) = take_bit 24 (uint a)"
    using arg_cong [OF t, of uint] by (simp only: unsigned_take_bit_eq)
  also have "signed_take_bit 23 (take_bit 24 (uint a)) = signed_take_bit 23 (uint a)"
    by (simp add: signed_take_bit_take_bit)
  also have "\<dots> = signed_take_bit 23 (signed_take_bit 31 (uint a))" by simp
  also have "signed_take_bit 31 (uint a) = sint a" by (simp add: sint_uint)
  also have "signed_take_bit 23 (sint a) = sint a"
    using f unfolding adv_fits_def by (intro signed_take_bit_int_eq_self) simp_all
  finally show "hw_adv (adv_cntl r a) = sint a" by (simp add: hw_adv_def)
qed


lemma surf_bits: "bit (ucast (drop_bit 6 ((base :: u64) AND 0x3E00)) :: u8) n \<Longrightarrow> 3 \<le> n"
proof (rule ccontr)
  assume b: "bit (ucast (drop_bit 6 (base AND 0x3E00)) :: u8) n" and "\<not> 3 \<le> n"
  then have n: "n = 0 \<or> n = 1 \<or> n = 2" by linarith
  have "bit (248 :: u64) n" using b by (simp add: bit_simps)
  then show False using n by auto
qed

lemma control2_decodes:
  assumes "fill_control2 task d dd = (task', dd')" and "prefetchEnable d < 2" and "srcCbEnable d < 2" and "dstCbEnable d < 2"
  shows "hw_src_cb dd' = srcCbEnable d" "hw_dst_cb dd' = dstCbEnable d"
proof -
  obtain extra where e: "transfer_control2 dd' = (prefetchEnable d OR push_bit 1 (dstCbEnable d)
      OR push_bit 2 (srcCbEnable d)) OR extra" and x: "\<And>n. bit (extra :: u8) n \<Longrightarrow> 3 \<le> n"
  proof (cases "srcFormat d = 1 \<and> srcTransferMode d = DMA_DESC_SRC_XFER_MC")
    case True
    show thesis
      by (rule that [of "ucast (drop_bit 6 ((src_surf_base_addr task + surfBLOffset d) AND 0x3E00))"])
        (use assms(1) True in \<open>auto simp: fill_control2_def Let_def intro: surf_bits\<close>)
  next
    case f: False
    show thesis
    proof (cases "dstFormat d = 1 \<and> dstTransferMode d = DMA_DESC_DST_XFER_MC")
      case True
      show thesis
        by (rule that [of "ucast (drop_bit 6 ((dst_surf_base_addr task + surfBLOffset d) AND 0x3E00))"])
          (use assms(1) True f in \<open>auto simp: fill_control2_def Let_def intro: surf_bits\<close>)
    next
      case False
      show thesis
        by (rule that [of 0]) (use assms(1) False f in \<open>auto simp: fill_control2_def Let_def\<close>)
    qed
  qed
  have b: "bit (transfer_control2 dd') n \<longleftrightarrow> n < 8 \<and> (bit (prefetchEnable d) n \<or> 1 \<le> n \<and> bit (dstCbEnable d) (n - 1)
      \<or> 2 \<le> n \<and> bit (srcCbEnable d) (n - 2) \<or> bit extra n)" for n
    unfolding e bit_or_iff bit_push_bit_iff by (auto dest: word_numeral_bits(4))
  show "hw_src_cb dd' = srcCbEnable d"
    unfolding hw_src_cb_def by (rule bit_word_eqI, unfold bit_take_bit_iff bit_drop_bit_eq o_apply b)
      (use assms in \<open>auto simp del: bit_0 dest: word_numeral_bits x\<close>)
  show "hw_dst_cb dd' = dstCbEnable d"
    unfolding hw_dst_cb_def by (rule bit_word_eqI, unfold bit_take_bit_iff bit_drop_bit_eq o_apply b)
      (use assms in \<open>auto simp del: bit_0 dest: word_numeral_bits x\<close>)
qed

text \<open>The address registers hold 40 bits.\<close>

lemma hw_addr_of:
  "hw_addr (src_adr1 (set_src_adr a dd)) (src_adr0 (set_src_adr a dd)) = uint a mod 2 ^ 40"
  "hw_addr (dst_adr1 (set_dst_adr a dd)) (dst_adr0 (set_dst_adr a dd)) = uint a mod 2 ^ 40"
proof -
  have hi: "uint (ucast (drop_bit 32 a) :: u8) = uint a div 2 ^ 32 mod 2 ^ 8"
    by (simp add: unsigned_ucast_eq unsigned_drop_bit_eq take_bit_eq_mod drop_bit_eq_div uint_div)
  have lo: "uint (ucast a :: u32) = uint a mod 2 ^ 32"
    by (simp add: unsigned_ucast_eq take_bit_eq_mod)
  have "uint a mod (2 ^ 32 * 2 ^ 8) = 2 ^ 32 * (uint a div 2 ^ 32 mod 2 ^ 8) + uint a mod 2 ^ 32"
    by (rule zmod_zmult2_eq) simp
  then show "hw_addr (src_adr1 (set_src_adr a dd)) (src_adr0 (set_src_adr a dd)) = uint a mod 2 ^ 40"
    "hw_addr (dst_adr1 (set_dst_adr a dd)) (dst_adr0 (set_dst_adr a dd)) = uint a mod 2 ^ 40"
    by (simp_all add: hw_addr_def set_src_adr_def set_dst_adr_def hi lo)
qed

section \<open>A step of the loop that succeeds\<close>

lemma map_one_success:
  assumes "map_one st i block_height = Some (None, st')"
  obtains d dd frm t26x bh task1 dd1 task3 dd3 dd5 where
    "d = dma_descriptors (m_task st) ! i" "i < length (dma_descriptors (m_task st))" "i < length (m_hw st)"
    "validate_descriptor d (hwseqTrigMode (m_task st)) (frm \<or> t26x) = Inr ()"
    "patch_dma_desc_address (m_task st) d (m_hw st ! i) (of_nat i)
       (bit (misr_descriptor_mask (m_task st)) i \<and> misr_enable (m_task st) \<noteq> 0) bh = Some (None, task1, dd1)"
    "\<not> bad_prefetch d" "fill_control2 task1 d (fill_control d dd1) = (task3, dd3)" "\<not> bad_link task3 d"
    "fill_frda task3 d (fill_sizes d dd3) = Inr dd5"
    "m_task st' = task3" "m_hw st' = (m_hw st)[i := fill_steps d dd5]" "m_did st' = linkDescId d"
    "is_hwseq_mode_frm (m_task st) (of_nat i) = Some frm" "is_hwseq_mode_t26x (m_task st) (of_nat i) = Some t26x"
    "bh = block_height ! i" "i < length block_height"
proof -
  show thesis
    using assms unfolding map_one_def Let_def
    by (auto simp: split: Option.bind_splits sum.splits option.splits prod.splits if_split_asm intro: that)
qed


lemma fill_frda_keeps:
  assumes "fill_frda task d dd = Inr dd'"
  shows "\<exists>w. dd' = dd\<lparr>frda := w\<rparr>"
proof (cases "dst2Ptr d = NVPVA_INVALID_SYMBOL_ID")
  case True
  then have "dd' = dd\<lparr>frda := frda dd\<rparr>" using assms by (simp add: fill_frda_def)
  then show ?thesis ..
next
  case False
  then show ?thesis using assms by (auto simp: fill_frda_def Let_def split: sum.splits prod.splits)
qed

lemma fill_control2_keeps:
  assumes "fill_control2 task d dd = (task', dd')"
  shows "transfer_control0 dd' = transfer_control0 dd" "transfer_control1 dd' = transfer_control1 dd"
    "src_adr0 dd' = src_adr0 dd" "src_adr1 dd' = src_adr1 dd" "dst_adr0 dd' = dst_adr0 dd" "dst_adr1 dd' = dst_adr1 dd"
    "dma_descriptors task' = dma_descriptors task" "desc_processed task' = desc_processed task"
    "num_dma_desc_processed task' = num_dma_desc_processed task" "num_dma_descriptors task' = num_dma_descriptors task"
    "dma_channels task' = dma_channels task"
  using assms by (auto simp: fill_control2_def Let_def split: if_split_asm)

lemma py_fits: "w < 256 \<Longrightarrow> uint (ucast (w :: u32) :: u8) = uint w"
proof -
  assume "w < 256"
  then have "uint w < 2 ^ 8" by (simp add: word_less_def)
  then show ?thesis by (simp add: unsigned_ucast_eq take_bit_int_eq_self)
qed

lemma map_one_matches:
  assumes "map_one st i block_height = Some (None, st')" and "desc_fits (dma_descriptors (m_task st) ! i)"
  shows "hw_matches (dma_descriptors (m_task st) ! i) (m_hw st' ! i)"
proof -
  obtain d dd frm t26x bh task1 dd1 task3 dd3 dd5 where d: "d = dma_descriptors (m_task st) ! i"
    and i: "i < length (m_hw st)" and c2: "fill_control2 task1 d (fill_control d dd1) = (task3, dd3)"
    and fr: "fill_frda task3 d (fill_sizes d dd3) = Inr dd5" and hw: "m_hw st' = (m_hw st)[i := fill_steps d dd5]"
    by (rule map_one_success [OF assms(1)])
  have fit: "desc_fits d" using assms(2) d by simp
  note f = fit [unfolded desc_fits_def]
  obtain w where dd5: "dd5 = (fill_sizes d dd3)\<lparr>frda := w\<rparr>" using fill_frda_keeps [OF fr] by blast
  have hwi: "m_hw st' ! i = fill_steps d dd5" using hw i by simp
  have t0: "transfer_control0 (m_hw st' ! i) = transfer_control0 (fill_control d dd1)"
    and t1: "transfer_control1 (m_hw st' ! i) = transfer_control1 (fill_control d dd1)"
    and t2: "transfer_control2 (m_hw st' ! i) = transfer_control2 dd3"
    unfolding hwi dd5 using fill_control2_keeps(1,2) [OF c2] by (simp_all add: fill_steps_def fill_sizes_def)
  have modes: "hw_src_mode (m_hw st' ! i) = srcTransferMode d" "hw_src_format (m_hw st' ! i) = srcFormat d"
    "hw_dst_mode (m_hw st' ! i) = dstTransferMode d" "hw_dst_format (m_hw st' ! i) = dstFormat d"
    "hw_bpp (m_hw st' ! i) = bytePerPixel d"
    using control_word_decodes [of d dd1] f
    by (simp_all add: hw_src_mode_def hw_src_format_def hw_dst_mode_def hw_dst_format_def hw_bpp_def t0 t1)
  have cb: "hw_src_cb (m_hw st' ! i) = srcCbEnable d" "hw_dst_cb (m_hw st' ! i) = dstCbEnable d"
    using control2_decodes [OF c2] f by (simp_all add: hw_src_cb_def hw_dst_cb_def t2)
  have sizes: "hw_tx (m_hw st' ! i) = tx d" "hw_ty (m_hw st' ! i) = ty d" "slp_adv (m_hw st' ! i) = srcLinePitch d"
    "dlp_adv (m_hw st' ! i) = dstLinePitch d" "hw_px (m_hw st' ! i) = px d" "uint (hw_py (m_hw st' ! i)) = uint (py d)"
    unfolding hwi dd5 using f by (simp_all add: fill_steps_def fill_sizes_def py_fits)
  have steps: "srcpt1_cntl (m_hw st' ! i) = adv_cntl (srcRpt1 d) (srcAdv1 d)"
    "dstpt1_cntl (m_hw st' ! i) = adv_cntl (dstRpt1 d) (dstAdv1 d)"
    "srcpt2_cntl (m_hw st' ! i) = adv_cntl (srcRpt2 d) (srcAdv2 d)"
    "dstpt2_cntl (m_hw st' ! i) = adv_cntl (dstRpt2 d) (dstAdv2 d)"
    "srcpt3_cntl (m_hw st' ! i) = adv_cntl (srcRpt3 d) (srcAdv3 d)"
    "dstpt3_cntl (m_hw st' ! i) = adv_cntl (dstRpt3 d) (dstAdv3 d)"
    unfolding hwi by (simp_all add: fill_steps_def)
  show ?thesis
    unfolding hw_matches_def d [symmetric] steps using modes cb sizes f by (simp add: adv_cntl_decodes)
qed

text \<open>C7: when the loop programs a descriptor whose fields fit into the registers they are written to, the DMA engine
  reads exactly the modes, formats, sizes, steps and repetitions that the checks looked at.
\<close>

theorem programmed_matches:
  assumes "map_one st i block_height = Some (None, st')" and "desc_fits (dma_descriptors (m_task st) ! i)"
  shows "hw_matches (dma_descriptors (m_task st) ! i) (m_hw st' ! i)"
  using assms by (rule map_one_matches)

section \<open>Oversized fields\<close>

text \<open>\<open>validate_descriptor\<close> does not bound the format fields.  A transfer from memory to VMEM whose source format is 2
  is programmed as a transfer to L2RAM, for which nothing was checked.
\<close>

theorem oversized_format_redirects:
  assumes "map_one st i block_height = Some (None, st')" and "d = dma_descriptors (m_task st) ! i"
    and "srcTransferMode d = DMA_DESC_SRC_XFER_MC" and "dstTransferMode d = DMA_DESC_DST_XFER_VMEM" and "srcFormat d = 2"
    and "dstFormat d = 0"
  shows "hw_dst_mode (m_hw st' ! i) = DMA_DESC_DST_XFER_L2RAM"
proof -
  obtain dd1 dd3 dd5 task1 task3 where i: "i < length (m_hw st)"
    and c2: "fill_control2 task1 d (fill_control d dd1) = (task3, dd3)"
    and fr: "fill_frda task3 d (fill_sizes d dd3) = Inr dd5" and hw: "m_hw st' = (m_hw st)[i := fill_steps d dd5]"
    unfolding assms(2) by (rule map_one_success [OF assms(1)]; blast)
  obtain w where dd5: "dd5 = (fill_sizes d dd3)\<lparr>frda := w\<rparr>" using fill_frda_keeps [OF fr] by blast
  have "transfer_control0 (m_hw st' ! i) = transfer_control0 (fill_control d dd1)"
    using hw i fill_control2_keeps(1) [OF c2] by (simp add: dd5 fill_steps_def fill_sizes_def)
  also have "\<dots> = 0x31" using assms(3-6) by (simp add: fill_control_def)
  finally show ?thesis by (simp add: hw_dst_mode_def)
qed

section \<open>Offsets near the limits of 64 bits\<close>



text \<open>A multiple of \<open>2 ^ 32\<close> more.\<close>

lemma uint_of_nat_64: "uint (of_nat n :: u64) = int n mod 2 ^ 64"
  by (simp add: uint_nat unat_of_nat zmod_int)

lemma far_offset:
  "uint (w + of_nat (k * 2 ^ 32) :: u64) mod 2 ^ 64 = (uint w + int k * 2 ^ 32) mod 2 ^ 64"
proof -
  have "uint (w + of_nat (k * 2 ^ 32)) = (uint w + int (k * 2 ^ 32) mod 2 ^ 64) mod 2 ^ 64"
    unfolding uint_word_ariths(1) uint_of_nat_64 by simp
  then show ?thesis unfolding mod_add_right_eq by (simp del: word_of_int_power_hom)
qed

lemma far_offset_mod:
  assumes "m dvd (2 :: int) ^ 64" and "(w' :: u64) = w + of_nat (k * 2 ^ 32)"
  shows "uint w' mod m = (uint w + int k * 2 ^ 32) mod m"
  using far_offset [of w k] mod_mod_cancel [OF assms(1), of "uint w'"] mod_mod_cancel [OF assms(1), of "uint w + int k * 2 ^ 32"]
  unfolding assms(2) by simp

lemma pitch_linear_truncated:
  assumes "srcFormat d \<noteq> 0"
  shows "pitch_linear_eq_offset (d\<lparr>src_offset := src_offset d + of_nat (k * 2 ^ 32)\<rparr>) surf bh bpp False False
    = pitch_linear_eq_offset d surf bh bpp False False"
proof -
  define w where "w = src_offset d"
  define w' where "w' = w + of_nat (k * 2 ^ 32)"
  have "uint w' mod 2 ^ 32 = (uint w + int k * 2 ^ 32) mod 2 ^ 32"
    by (rule far_offset_mod [OF _ w'_def]) (simp add: le_imp_power_dvd)
  then have m: "uint w' mod 2 ^ 32 = uint w mod 2 ^ 32" by simp
  then have "(uint w' - surf) mod 2 ^ 32 = (uint w - surf) mod 2 ^ 32" by (rule mod_diff_cong) simp
  then have t: "(word_of_int (uint w' - surf) :: u32) = word_of_int (uint w - surf)"
    unfolding word_of_int_eq_iff take_bit_eq_mod by simp
  have "uint w' mod 64 = (uint w + int k * 2 ^ 32) mod 64"
    by (rule far_offset_mod [OF _ w'_def]) simp
  also have "\<dots> = (uint w + 64 * (int k * 2 ^ 26)) mod 64" by (simp add: mult.commute)
  also have "\<dots> = uint w mod 64" by (rule mod_mult_self2)
  finally have "w' mod 64 = w mod 64" by (simp add: word_uint_eq_iff uint_mod)
  moreover have "src_offset (d\<lparr>src_offset := w'\<rparr>) = w'" "srcFormat (d\<lparr>src_offset := w'\<rparr>) = srcFormat d"
    "srcLinePitch (d\<lparr>src_offset := w'\<rparr>) = srcLinePitch d" "srcCbEnable (d\<lparr>src_offset := w'\<rparr>) = srcCbEnable d" by simp_all
  ultimately show ?thesis
    unfolding pitch_linear_eq_offset_def Let_def w_def [symmetric] w'_def [symmetric] if_False simp_thms
    using assms t by simp
qed

lemma check_address_range_truncated:
  assumes "srcFormat d \<noteq> 0"
  shows "check_address_range (d\<lparr>src_offset := src_offset d + of_nat (k * 2 ^ 32)\<rparr>) m m2 False False bh
    = check_address_range d m m2 False False bh"
proof -
  define w' where "w' = src_offset d + of_nat (k * 2 ^ 32)"
  have "pitch_linear_eq_offset (d\<lparr>src_offset := w'\<rparr>) surf bh bpp False False = pitch_linear_eq_offset d surf bh bpp False False"
    for surf bpp unfolding w'_def by (rule pitch_linear_truncated [OF assms])
  moreover have f: "tx (d\<lparr>src_offset := w'\<rparr>) = tx d" "ty (d\<lparr>src_offset := w'\<rparr>) = ty d" "srcLinePitch (d\<lparr>src_offset := w'\<rparr>) = srcLinePitch d"
    "bytePerPixel (d\<lparr>src_offset := w'\<rparr>) = bytePerPixel d" "surfBLOffset (d\<lparr>src_offset := w'\<rparr>) = surfBLOffset d"
    "px (d\<lparr>src_offset := w'\<rparr>) = px d" "py (d\<lparr>src_offset := w'\<rparr>) = py d"
    "srcCbEnable (d\<lparr>src_offset := w'\<rparr>) = srcCbEnable d" "srcCbSize (d\<lparr>src_offset := w'\<rparr>) = srcCbSize d"
    "srcAdv1 (d\<lparr>src_offset := w'\<rparr>) = srcAdv1 d" "srcAdv2 (d\<lparr>src_offset := w'\<rparr>) = srcAdv2 d" "srcAdv3 (d\<lparr>src_offset := w'\<rparr>) = srcAdv3 d"
    "srcRpt1 (d\<lparr>src_offset := w'\<rparr>) = srcRpt1 d" "srcRpt2 (d\<lparr>src_offset := w'\<rparr>) = srcRpt2 d" "srcRpt3 (d\<lparr>src_offset := w'\<rparr>) = srcRpt3 d"
    by simp_all
  ultimately show ?thesis
    unfolding w'_def [symmetric] check_address_range_def bppSize_def last_tx_def last_ty_def if_False by (simp only: f)
qed

text \<open>C10: \<open>pitch_linear_eq_offset\<close> keeps the offset into a block-linear surface in 32 bits.  Whenever a block-linear source in
  a pinned buffer is accepted, so is the same descriptor with an offset \<open>k * 2 ^ 32\<close> bytes further on, and the
  address that is programmed for it lies \<open>k * 2 ^ 32\<close> bytes further on, whatever the size of the buffer.
\<close>

theorem block_linear_offset_truncated:
  assumes "srcTransferMode d = DMA_DESC_SRC_XFER_MC" and "srcFormat d \<noteq> 0"
    and "patch_src task d i bh = Some (Inr a, task')" and "d' = d\<lparr>src_offset := src_offset d + of_nat (k * 2 ^ 32)\<rparr>"
  shows "patch_src task d' i bh = Some (Inr a, task') \<and>
    hw_addr (src_adr1 (set_src_adr (a + src_offset d') dd)) (src_adr0 (set_src_adr (a + src_offset d') dd))
    = (hw_addr (src_adr1 (set_src_adr (a + src_offset d) dd)) (src_adr0 (set_src_adr (a + src_offset d) dd))
        + int (k * 2 ^ 32)) mod 2 ^ 40"
proof -
  define w' where "w' = src_offset d + of_nat (k * 2 ^ 32)"
  have d': "d' = d\<lparr>src_offset := w'\<rparr>" by (simp only: assms(4) w'_def)
  have c: "check_address_range d' m m2 False False bh = check_address_range d m m2 False False bh" for m m2
    unfolding assms(4) by (rule check_address_range_truncated [OF assms(2)])
  have f: "srcTransferMode d' = DMA_DESC_SRC_XFER_MC" "srcPtr d' = srcPtr d" "srcFormat d' = srcFormat d"
    unfolding d' using assms(1) by simp_all
  have "patch_src task d' i bh = patch_src task d i bh"
    unfolding patch_src_def Let_def f assms(1) c by simp
  moreover have "uint (a + src_offset d') mod 2 ^ 40 = (uint (a + src_offset d) mod 2 ^ 40 + int (k * 2 ^ 32)) mod 2 ^ 40"
  proof -
    have so: "src_offset d' = w'" by (simp add: d')
    have "a + src_offset d' = (a + src_offset d) + of_nat (k * 2 ^ 32)" unfolding so w'_def by (simp only: add.assoc)
    then have "uint (a + src_offset d') mod 2 ^ 40 = (uint (a + src_offset d) + int k * 2 ^ 32) mod 2 ^ 40"
      by (rule far_offset_mod [rotated]) (simp add: le_imp_power_dvd)
    then show ?thesis unfolding mod_add_left_eq by simp
  qed
  ultimately show ?thesis using assms(3) by (simp add: hw_addr_of)
qed

end
