(* ===== verification/Pva_Mapping_Facts.thy ===== *)
theory Pva_Mapping_Facts imports Pva_Patch_Facts begin

text \<open>
  The loop over the descriptors of a task: what it programs comes from checked descriptors and is complete at the
  end; and concrete tasks, on which the properties of the range check and of the descriptors are evaluated.
\<close>

section \<open>What a programmed descriptor has passed\<close>

text \<open>Bit \<open>i\<close> of an array of 64-bit words.\<close>

definition marked_in :: "u64 list \<Rightarrow> nat \<Rightarrow> bool" where
  "marked_in ws i \<longleftrightarrow> i div 64 < length ws \<and> bit (ws ! (i div 64)) (i mod 64)"

definition processed :: "pva_submit_task \<Rightarrow> nat \<Rightarrow> bool" where
  "processed task i \<longleftrightarrow> marked_in (desc_processed task) i"

text \<open>Address and size of the pinned buffers of a task.\<close>

definition places :: "pva_submit_task \<Rightarrow> u32 \<Rightarrow> (u64 \<times> u64) option" where
  "places task i = map_option (\<lambda>vm. (user_addr vm, user_size vm)) (buffers task i)"

text \<open>
  What the checks promise, stated over the task alone: the base address \<open>a\<close> of the source of \<open>d\<close> is the address of
  something that the task owns, and the bytes that the transfer touches lie inside of it; \<open>seq\<close> says that a program of
  the sequencer uses the descriptor in frame mode, so that its transfer is checked with the whole frame.
\<close>

definition source_ok :: "pva_submit_task \<Rightarrow> bool \<Rightarrow> nvpva_dma_descriptor \<Rightarrow> u8 \<Rightarrow> u64 \<Rightarrow> bool" where
  "source_ok task seq d bh a \<longleftrightarrow>
    (srcTransferMode d = DMA_DESC_SRC_XFER_MC \<and>
      (\<exists>p sz. places task (srcPtr d) = Some (p, sz) \<and> (seq \<or> check_address_range d sz 0 False False bh = Some (Inr ())) \<and>
        a = (if version task \<le> PVA_HW_GEN2 then p OR push_bit 39 (ucast (srcFormat d)) else p))) \<or>
    (srcTransferMode d = DMA_DESC_SRC_XFER_L2RAM \<and>
      (if version task = PVA_HW_GEN1
       then \<exists>sz. places task (srcPtr d) = Some (a, sz) \<and> check_address_range d sz 0 False False bh = Some (Inr ())
       else a = 0 \<and> (seq \<or> check_address_range d (ucast (l2_alloc_size task)) 0 False False bh = Some (Inr ())))) \<or>
    (srcTransferMode d = DMA_DESC_SRC_XFER_VMEM \<and> src_offset d \<le> U32_MAX \<and>
      (\<exists>p sz. pva_get_sym_offset (elf_images task) (get_sym_exe_id task) (srcPtr d) = Inr (p, sz) \<and> a = ucast p \<and>
        check_address_range d (ucast sz) 0 False False bh = Some (Inr ()))) \<or>
    (srcTransferMode d = DMA_DESC_SRC_XFER_VPU_CONFIG \<and> src_offset d \<le> U32_MAX \<and>
      dstPtr d = NVPVA_INVALID_SYMBOL_ID \<and> dst2Ptr d = NVPVA_INVALID_SYMBOL_ID \<and>
      (\<exists>p sz. pva_get_sym_offset (elf_images task) (get_sym_exe_id task) (srcPtr d) = Inr (p, sz) \<and> a = ucast p)) \<or>
    (srcTransferMode d = DMA_DESC_SRC_XFER_R5TCM \<and> is_system_app task \<and> a = 0)"

text \<open>The same for the destination; in VMEM a second destination is a symbol as well, aligned to 64 bytes.\<close>

definition dest_ok :: "pva_submit_task \<Rightarrow> nvpva_dma_descriptor \<Rightarrow> u8 \<Rightarrow> u64 \<Rightarrow> bool" where
  "dest_ok task d bh a \<longleftrightarrow>
    (dstTransferMode d = DMA_DESC_DST_XFER_MC \<and>
      (\<exists>p sz. places task (dstPtr d) = Some (p, sz) \<and> check_address_range d sz 0 True False bh = Some (Inr ()) \<and>
        a = (if version task \<le> PVA_HW_GEN2 then p OR push_bit 39 (ucast (dstFormat d)) else p))) \<or>
    (dstTransferMode d = DMA_DESC_DST_XFER_L2RAM \<and>
      (if version task = PVA_HW_GEN1
       then \<exists>sz. places task (dstPtr d) = Some (a, sz) \<and> check_address_range d sz 0 True False bh = Some (Inr ())
       else a = 0 \<and> check_address_range d (ucast (l2_alloc_size task)) 0 True False bh = Some (Inr ()))) \<or>
    (dstTransferMode d = DMA_DESC_DST_XFER_VMEM \<and> dst_offset d \<le> U32_MAX \<and> dst2Offset d \<le> U32_MAX \<and>
      (\<exists>p sz. pva_get_sym_offset (elf_images task) (get_sym_exe_id task) (dstPtr d) = Inr (p, sz) \<and> a = ucast p \<and>
        (if dst2Ptr d = NVPVA_INVALID_SYMBOL_ID then check_address_range d (ucast sz) 0 True False bh = Some (Inr ())
         else \<exists>p2 sz2. pva_get_sym_offset (elf_images task) (get_sym_exe_id task) (dst2Ptr d) = Inr (p2, sz2) \<and>
           (ucast p2 + dst2Offset d) AND 0x3F = 0 \<and>
           check_address_range d (ucast sz) (ucast sz2) True True bh = Some (Inr ())))) \<or>
    (dstTransferMode d = DMA_DESC_DST_XFER_R5TCM \<and> is_system_app task \<and> a = 0)"

text \<open>A descriptor of the MISR checks has no destination: only its mode is looked at.\<close>

definition dest_checked :: "pva_submit_task \<Rightarrow> nvpva_dma_descriptor \<Rightarrow> nat \<Rightarrow> u8 \<Rightarrow> u64 \<Rightarrow> bool" where
  "dest_checked task d i bh a \<longleftrightarrow>
    (if bit (misr_descriptor_mask task) i \<and> misr_enable task \<noteq> 0
     then dstTransferMode d \<in> {DMA_DESC_DST_XFER_L2RAM, DMA_DESC_DST_XFER_MC} \<and> a = ucast (dstPtr d)
     else dest_ok task d bh a)"

text \<open>Block heights that the channels of a task name, or the initial 255.\<close>

definition heights_in :: "pva_submit_task \<Rightarrow> u8 list \<Rightarrow> bool" where
  "heights_in task hs \<longleftrightarrow> set hs \<subseteq> insert 255 (blockHeight ` set (dma_channels task))"

text \<open>
  The hardware descriptor \<open>dd\<close> was programmed from the descriptor \<open>d\<close> of index \<open>i\<close>, which passed the checks: its fields
  are valid (with the relaxed rule for repetitions only when a program of the sequencer uses it), so are its
  prefetch flag and its link, its source and destination belong to the task, the programmed addresses are
  the offsets from there, and the engine reads the modes, sizes and steps that were checked when they fit.
  The block height of the checks is that of a channel of the task or 255, which no block-linear transfer passes.
  The marks of the sequencer are those of \<open>task'\<close>.
\<close>

definition was_checked :: "pva_submit_task \<Rightarrow> pva_submit_task \<Rightarrow> nvpva_dma_descriptor \<Rightarrow> nat \<Rightarrow> pva_dtd_s \<Rightarrow> bool" where
  "was_checked task task' d i dd \<longleftrightarrow> (\<exists>seq bh a.
     (seq \<longrightarrow> marked_in (desc_hwseq_frm task') i) \<and> heights_in task [bh] \<and>
     validate_descriptor d (hwseqTrigMode task) (seq \<or> marked_in (desc_hwseq_t26x task') i) = Inr () \<and>
     \<not> bad_prefetch d \<and> \<not> bad_link task d \<and>
     source_ok task seq d bh a \<and> hw_addr (src_adr1 dd) (src_adr0 dd) = uint (a + src_offset d) mod 2 ^ 40 \<and>
     (srcTransferMode d \<noteq> DMA_DESC_SRC_XFER_VPU_CONFIG \<longrightarrow>
       (\<exists>b. dest_checked task d i bh b \<and> hw_addr (dst_adr1 dd) (dst_adr0 dd) = uint (b + dst_offset d) mod 2 ^ 40)) \<and>
     (desc_fits d \<longrightarrow> hw_matches d dd))"

section \<open>What no step changes\<close>

definition same_limits :: "pva_submit_task \<Rightarrow> pva_submit_task \<Rightarrow> bool" where
  "same_limits task task' \<longleftrightarrow> dma_descriptors task' = dma_descriptors task \<and>
     num_dma_descriptors task' = num_dma_descriptors task \<and> dma_channels task' = dma_channels task \<and>
     version task' = version task \<and> elf_images task' = elf_images task \<and> exe_id1 task' = exe_id1 task \<and>
     exe_id2 task' = exe_id2 task \<and> l2_alloc_size task' = l2_alloc_size task \<and>
     is_system_app task' = is_system_app task \<and> hwseqTrigMode task' = hwseqTrigMode task \<and>
     misr_enable task' = misr_enable task \<and> misr_descriptor_mask task' = misr_descriptor_mask task \<and>
     places task' = places task"

lemma places_updates [simp]:
  "places (task\<lparr>desc_processed := p, num_dma_desc_processed := c\<rparr>) = places task"
  "places (task\<lparr>special_access := a\<rparr>) = places task" "places (task\<lparr>task_buff_info := b\<rparr>) = places task"
  "places (task\<lparr>src_surf_base_addr := s\<rparr>) = places task" "places (task\<lparr>dst_surf_base_addr := s\<rparr>) = places task"
  "places (task\<lparr>desc_hwseq_frm := f\<rparr>) = places task" "places (task\<lparr>desc_block_height_log2 := h\<rparr>) = places task"
  "places (task\<lparr>hwseq_info := info\<rparr>) = places task"
  "places (task\<lparr>desc_block_height_log2 := h, desc_entries := d, hwseq_info := info\<rparr>) = places task"
  by (simp_all add: places_def fun_eq_iff)

lemma same_limits_refl [simp]: "same_limits task task"
  by (simp add: same_limits_def)

lemma same_limits_trans: "same_limits t1 t2 \<Longrightarrow> same_limits t2 t3 \<Longrightarrow> same_limits t1 t3"
  by (simp add: same_limits_def)

lemma checks_same_limits:
  assumes "same_limits task task'"
  shows "source_ok task' = source_ok task" "dest_ok task' = dest_ok task" "dest_checked task' = dest_checked task" "bad_link task' = bad_link task"
    "hwseqTrigMode task' = hwseqTrigMode task" "heights_in task' = heights_in task"
proof -
  have e: "get_sym_exe_id task' = get_sym_exe_id task" using assms by (simp add: same_limits_def get_sym_exe_id_def)
  have l: "version task' = version task" "elf_images task' = elf_images task" "l2_alloc_size task' = l2_alloc_size task"
    "is_system_app task' = is_system_app task" "misr_enable task' = misr_enable task" "places task' = places task"
    "misr_descriptor_mask task' = misr_descriptor_mask task" "num_dma_descriptors task' = num_dma_descriptors task"
    using assms by (simp_all add: same_limits_def)
  show "source_ok task' = source_ok task" by (intro ext) (simp only: source_ok_def l e)
  show d: "dest_ok task' = dest_ok task" by (intro ext) (simp only: dest_ok_def l e)
  show "dest_checked task' = dest_checked task" by (intro ext) (simp only: dest_checked_def d l)
  show "bad_link task' = bad_link task" by (intro ext) (simp only: bad_link_def l)
  show "hwseqTrigMode task' = hwseqTrigMode task" "heights_in task' = heights_in task"
    using assms by (simp_all add: same_limits_def heights_in_def fun_eq_iff)
qed

text \<open>Between two descriptors the marks stay as well, apart from new ones of the sequencer; new block heights are those
  of channels.\<close>

definition same_marks :: "pva_submit_task \<Rightarrow> pva_submit_task \<Rightarrow> bool" where
  "same_marks task task' \<longleftrightarrow> same_limits task task' \<and> desc_processed task' = desc_processed task \<and>
     num_dma_desc_processed task' = num_dma_desc_processed task \<and> desc_hwseq_t26x task' = desc_hwseq_t26x task \<and>
     (\<forall>i. marked_in (desc_hwseq_frm task) i \<longrightarrow> marked_in (desc_hwseq_frm task') i) \<and>
     set (desc_block_height_log2 task') \<subseteq> set (desc_block_height_log2 task) \<union> blockHeight ` set (dma_channels task)"

lemma heights_same_marks:
  assumes "same_marks task task'" and "same_limits t task" and "heights_in t (desc_block_height_log2 task)"
  shows "heights_in t (desc_block_height_log2 task')"
  using assms by (auto simp: heights_in_def same_marks_def same_limits_def)

lemma was_checked_mono:
  assumes "was_checked task task1 d i dd" and "same_limits task task'" and "desc_hwseq_t26x task2 = desc_hwseq_t26x task1"
    and "\<And>i. marked_in (desc_hwseq_frm task1) i \<Longrightarrow> marked_in (desc_hwseq_frm task2) i"
  shows "was_checked task' task2 d i dd"
  using assms(1,4) unfolding was_checked_def checks_same_limits [OF assms(2)] assms(3) by blast

lemma was_checked_same_marks:
  "was_checked task task1 d i dd \<Longrightarrow> same_marks task1 task2 \<Longrightarrow> was_checked task task2 d i dd"
  by (erule was_checked_mono [OF _ same_limits_refl]) (simp_all add: same_marks_def)

lemma same_marks_updates [simp]:
  "same_marks task (task\<lparr>special_access := a\<rparr>)" "same_marks task (task\<lparr>task_buff_info := t\<rparr>)"
  "same_marks task (task\<lparr>src_surf_base_addr := s\<rparr>)" "same_marks task (task\<lparr>dst_surf_base_addr := s\<rparr>)"
  "same_marks (task\<lparr>src_surf_base_addr := s\<rparr>) task2 = same_marks task task2"
  "same_marks (task\<lparr>dst_surf_base_addr := s\<rparr>) task2 = same_marks task task2"
  by (simp_all add: same_marks_def same_limits_def)

lemma same_marks_refl [simp]: "same_marks task task"
  by (simp add: same_marks_def)

lemma same_marks_trans: "same_marks t1 t2 \<Longrightarrow> same_marks t2 t3 \<Longrightarrow> same_marks t1 t3"
  by (fastforce simp: same_marks_def same_limits_def)

lemma set_buff_info_keeps:
  assumes "set_buff_info task i f = Some task'"
  shows "same_marks task task'"
  using assms by (auto simp: set_buff_info_def split: option.splits)

lemma pva_task_pin_mem_keeps:
  assumes "pva_task_pin_mem task i = (r, task')"
  shows "same_marks task task'" "is_hwseq_mode_frm task' = is_hwseq_mode_frm task"
    "r = Inr mem \<Longrightarrow> places task i = Some (mem_dma_addr mem, mem_size mem)"
  using assms by (auto simp: pva_task_pin_mem_def nvpva_buffer_submit_pin_id_def Let_def same_marks_def same_limits_def places_def
      is_hwseq_mode_frm_def fun_eq_iff split: option.splits if_split_asm prod.splits sum.splits)

lemma patch_src_keeps:
  assumes "patch_src task d i bh = Some (r, task')"
  shows "same_marks task task'"
  using assms unfolding patch_src_def Let_def
  by (auto split: if_split_asm Option.bind_split_asm sum.split_asm prod.split_asm
      dest!: set_buff_info_keeps pva_task_pin_mem_keeps(1) intro: same_marks_trans)

lemma patch_dst_keeps:
  assumes "patch_dst task d i bh = Some (r, task')"
  shows "same_marks task task'"
  using assms unfolding patch_dst_def Let_def
  by (auto split: if_split_asm Option.bind_split_asm sum.split_asm prod.split_asm
      dest!: set_buff_info_keeps pva_task_pin_mem_keeps(1) intro: same_marks_trans)

lemma patch_address_keeps:
  assumes "patch_dma_desc_address task d dd i misr bh = Some (r, task', dd')"
  shows "same_marks task task'"
  using assms unfolding patch_dma_desc_address_def Let_def
  by (auto split: if_split_asm Option.bind_split_asm sum.split_asm prod.split_asm
      dest!: patch_src_keeps patch_dst_keeps intro: same_marks_trans)

lemma fill_control2_marks:
  assumes "fill_control2 task d dd = (task', dd')"
  shows "same_marks task task'"
  using assms by (auto simp: fill_control2_def Let_def split: if_split_asm)

lemma map_one_keeps:
  assumes "map_one st i block_height = Some (None, st')"
  shows "same_marks (m_task st) (m_task st')" "length (m_hw st') = length (m_hw st)" "j \<noteq> i \<Longrightarrow> m_hw st' ! j = m_hw st ! j"
proof -
  obtain d frm t26x bh task1 dd1 task3 dd3 dd5 where p: "patch_dma_desc_address (m_task st) d (m_hw st ! i) (of_nat i)
       (bit (misr_descriptor_mask (m_task st)) i \<and> misr_enable (m_task st) \<noteq> 0) bh = Some (None, task1, dd1)"
    and c: "fill_control2 task1 d (fill_control d dd1) = (task3, dd3)" and m: "m_task st' = task3"
    and h: "m_hw st' = (m_hw st)[i := fill_steps d dd5]"
    by (rule map_one_success [OF assms])
  show "same_marks (m_task st) (m_task st')"
    unfolding m by (rule same_marks_trans [OF patch_address_keeps [OF p] fill_control2_marks [OF c]])
  show "length (m_hw st') = length (m_hw st)" "j \<noteq> i \<Longrightarrow> m_hw st' ! j = m_hw st ! j"
    using h by simp_all
qed

lemma map_one_fields:
  assumes "map_one st i block_height = Some (None, st')"
  shows "desc_processed (m_task st') = desc_processed (m_task st)"
    "num_dma_desc_processed (m_task st') = num_dma_desc_processed (m_task st)"
    "num_dma_descriptors (m_task st') = num_dma_descriptors (m_task st)"
    "dma_channels (m_task st') = dma_channels (m_task st)"
  using map_one_keeps(1) [OF assms] by (simp_all add: same_marks_def same_limits_def)

section \<open>A programmed descriptor has passed the checks\<close>

lemma patch_src_ok:
  assumes "patch_src task d i bh = Some (Inr a, task')"
  shows "source_ok task (is_hwseq_mode_frm task i = Some True) d bh a"
proof -
  note run = assms [unfolded patch_src_def Let_def]
  let ?m = "srcTransferMode d"
  have "?m = 1 \<or> ?m = 2 \<or> ?m = 3 \<or> ?m = 4 \<or> ?m = 7" using run by (auto split: if_split_asm)
  then consider "?m = 1" | "?m = 2" | "?m = 3" | "?m = 4" | "?m = 7" by blast
  then show ?thesis
  proof cases
    case 1
    then show ?thesis using run
      by (auto simp: source_ok_def pva_task_pin_mem_keeps(2) split: sum.split_asm prod.split_asm if_split_asm Option.bind_split_asm
          dest: pva_task_pin_mem_keeps(3) [OF _ refl])
  next
    case 2
    then show ?thesis using run
      by (auto simp: source_ok_def split: sum.split_asm prod.split_asm if_split_asm Option.bind_split_asm)
  next
    case 3
    then show ?thesis using run
      by (auto simp: source_ok_def split: sum.split_asm prod.split_asm if_split_asm Option.bind_split_asm
          dest: pva_task_pin_mem_keeps(3) [OF _ refl])
  next
    case 4
    then show ?thesis using run by (auto simp: source_ok_def split: if_split_asm)
  next
    case 5
    then show ?thesis using run
      by (auto simp: source_ok_def split: sum.split_asm prod.split_asm if_split_asm Option.bind_split_asm)
  qed
qed

lemma patch_dst_ok:
  assumes "patch_dst task d i bh = Some (Inr a, task')"
  shows "dest_ok task d bh a"
proof -
  note run = assms [unfolded patch_dst_def Let_def]
  let ?m = "dstTransferMode d"
  have "?m = 1 \<or> ?m = 2 \<or> ?m = 3 \<or> ?m = 4" using run by (auto split: if_split_asm)
  then consider "?m = 1" | "?m = 2" | "?m = 3" | "?m = 4" by blast
  then show ?thesis
  proof cases
    case 1
    then show ?thesis using run
      by (auto simp: dest_ok_def split: sum.split_asm prod.split_asm if_split_asm Option.bind_split_asm
          dest: pva_task_pin_mem_keeps(3) [OF _ refl])
  next
    case 2
    then show ?thesis using run
      by (auto simp: dest_ok_def split: sum.split_asm prod.split_asm if_split_asm Option.bind_split_asm)
  next
    case 3
    then show ?thesis using run
      by (auto simp: dest_ok_def split: sum.split_asm prod.split_asm if_split_asm Option.bind_split_asm
          dest: pva_task_pin_mem_keeps(3) [OF _ refl])
  next
    case 4
    then show ?thesis using run by (auto simp: dest_ok_def split: if_split_asm)
  qed
qed

lemma patch_address_ok:
  assumes "patch_dma_desc_address task d dd k misr bh = Some (None, task', dd')"
    and "misr \<longleftrightarrow> bit (misr_descriptor_mask task) i \<and> misr_enable task \<noteq> 0"
  obtains a where "source_ok task (is_hwseq_mode_frm task k = Some True) d bh a"
    "hw_addr (src_adr1 dd') (src_adr0 dd') = uint (a + src_offset d) mod 2 ^ 40"
    "srcTransferMode d \<noteq> DMA_DESC_SRC_XFER_VPU_CONFIG \<longrightarrow>
      (\<exists>b. dest_checked task d i bh b \<and> hw_addr (dst_adr1 dd') (dst_adr0 dd') = uint (b + dst_offset d) mod 2 ^ 40)"
proof -
  obtain a task1 where s: "patch_src task d k bh = Some (Inr a, task1)"
    and r: "(let dd1 = set_src_adr (a + src_offset d) dd in
          if srcTransferMode d = DMA_DESC_SRC_XFER_VPU_CONFIG then Some (None, task1, dd1)
          else if misr then
            (if dstTransferMode d = DMA_DESC_DST_XFER_L2RAM \<or> dstTransferMode d = DMA_DESC_DST_XFER_MC
             then Some (None, task1, set_dst_adr (ucast (dstPtr d) + dst_offset d) dd1)
             else Some (Some EINVAL, task1, dd1))
          else do {
            (dst, task2) \<leftarrow> patch_dst task1 d k bh;
            Some (case dst of
                Inl e \<Rightarrow> (Some e, task2, dd1)
              | Inr b \<Rightarrow> (None, task2, set_dst_adr (b + dst_offset d) dd1)) }) = Some (None, task', dd')"
    using assms(1) unfolding patch_dma_desc_address_def Let_def by (auto split: Option.bind_split_asm sum.split_asm)
  have lim: "same_limits task task1" using patch_src_keeps [OF s] by (simp add: same_marks_def)
  have keep: "src_adr1 (set_dst_adr b dd1) = src_adr1 dd1" "src_adr0 (set_dst_adr b dd1) = src_adr0 dd1" for b dd1
    by (simp_all add: set_dst_adr_def)
  have src: "hw_addr (src_adr1 dd') (src_adr0 dd') = uint (a + src_offset d) mod 2 ^ 40"
    using r by (auto simp: Let_def hw_addr_of keep split: if_split_asm Option.bind_split_asm sum.split_asm prod.split_asm)
  have dst: "\<exists>b. dest_checked task d i bh b \<and> hw_addr (dst_adr1 dd') (dst_adr0 dd') = uint (b + dst_offset d) mod 2 ^ 40"
    if v: "srcTransferMode d \<noteq> DMA_DESC_SRC_XFER_VPU_CONFIG"
  proof (cases misr)
    case True
    then show ?thesis using r v assms(2) by (auto simp: Let_def dest_checked_def hw_addr_of split: if_split_asm)
  next
    case False
    then obtain b task2 where b: "patch_dst task1 d k bh = Some (Inr b, task2)"
      and e: "dd' = set_dst_adr (b + dst_offset d) (set_src_adr (a + src_offset d) dd)"
      using r v by (auto simp: Let_def split: Option.bind_split_asm sum.split_asm prod.split_asm)
    have "dest_checked task d i bh b"
      using patch_dst_ok [OF b] False assms(2) checks_same_limits(2) [OF lim] by (auto simp: dest_checked_def)
    then show ?thesis unfolding e hw_addr_of by blast
  qed
  show thesis by (rule that [OF patch_src_ok [OF s] src]) (use dst in blast)
qed

lemma map_one_was_checked:
  assumes "map_one st i block_height = Some (None, st')" and "i < 256" and "heights_in (m_task st) block_height"
  shows "was_checked (m_task st) (m_task st) (dma_descriptors (m_task st) ! i) i (m_hw st' ! i)"
proof -
  obtain d frm t26x bh task1 dd1 task3 dd3 dd5 where d: "d = dma_descriptors (m_task st) ! i" and i: "i < length (m_hw st)"
    and v: "validate_descriptor d (hwseqTrigMode (m_task st)) (frm \<or> t26x) = Inr ()"
    and p: "patch_dma_desc_address (m_task st) d (m_hw st ! i) (of_nat i)
       (bit (misr_descriptor_mask (m_task st)) i \<and> misr_enable (m_task st) \<noteq> 0) bh = Some (None, task1, dd1)"
    and pf: "\<not> bad_prefetch d" and c: "fill_control2 task1 d (fill_control d dd1) = (task3, dd3)" and l: "\<not> bad_link task3 d"
    and fr: "fill_frda task3 d (fill_sizes d dd3) = Inr dd5" and hw: "m_hw st' = (m_hw st)[i := fill_steps d dd5]"
    and bh: "bh = block_height ! i" "i < length block_height"
    and frm: "is_hwseq_mode_frm (m_task st) (of_nat i) = Some frm" and t26x: "is_hwseq_mode_t26x (m_task st) (of_nat i) = Some t26x"
    by (rule map_one_success [OF assms(1)])
  have u: "unat (of_nat i :: u8) = i" using assms(2) by (simp add: unat_of_nat)
  have bits: "frm \<longleftrightarrow> marked_in (desc_hwseq_frm (m_task st)) i" "t26x \<longleftrightarrow> marked_in (desc_hwseq_t26x (m_task st)) i"
    using frm t26x by (auto simp: is_hwseq_mode_frm_def is_hwseq_mode_t26x_def marked_in_def u)
  obtain a where s: "source_ok (m_task st) (is_hwseq_mode_frm (m_task st) (of_nat i) = Some True) d bh a"
    "hw_addr (src_adr1 dd1) (src_adr0 dd1) = uint (a + src_offset d) mod 2 ^ 40"
    and t: "srcTransferMode d \<noteq> DMA_DESC_SRC_XFER_VPU_CONFIG \<longrightarrow>
      (\<exists>b. dest_checked (m_task st) d i bh b \<and> hw_addr (dst_adr1 dd1) (dst_adr0 dd1) = uint (b + dst_offset d) mod 2 ^ 40)"
    by (rule patch_address_ok [OF p refl])
  have "same_limits (m_task st) task3"
    using patch_address_keeps [OF p] fill_control2_marks [OF c] by (auto simp: same_marks_def intro: same_limits_trans)
  note l' = l [unfolded checks_same_limits(4) [OF this]]
  obtain w where dd5: "dd5 = (fill_sizes d dd3)\<lparr>frda := w\<rparr>" using fill_frda_keeps [OF fr] by blast
  have regs: "src_adr0 (m_hw st' ! i) = src_adr0 dd1" "src_adr1 (m_hw st' ! i) = src_adr1 dd1"
    "dst_adr0 (m_hw st' ! i) = dst_adr0 dd1" "dst_adr1 (m_hw st' ! i) = dst_adr1 dd1"
    using hw i fill_control2_keeps(3-6) [OF c] by (simp_all add: dd5 fill_steps_def fill_sizes_def fill_control_def)
  have fits: "desc_fits d \<longrightarrow> hw_matches d (m_hw st' ! i)" using map_one_matches [OF assms(1)] d by simp
  have "bh \<in> set block_height" using bh by simp
  then have h: "heights_in (m_task st) [bh]" using assms(3) by (auto simp: heights_in_def)
  show ?thesis
    unfolding was_checked_def d [symmetric] regs using h bits(1) v [unfolded bits(2)] pf l' s [unfolded frm] t fits by fastforce
qed

section \<open>What the loop leaves behind\<close>

text \<open>
  Between two descriptors of the task \<open>t\<close>: a hardware descriptor is as it was at the start or comes from a checked
  descriptor, the latter exactly for the descriptors marked as processed, and the counter is the number of marks.
\<close>

definition map_inv :: "pva_submit_task \<Rightarrow> pva_dtd_s list \<Rightarrow> map_state \<Rightarrow> bool" where
  "map_inv t hw0 st \<longleftrightarrow>
     same_limits t (m_task st) \<and> heights_in t (desc_block_height_log2 (m_task st)) \<and>
     length (desc_processed (m_task st)) = 2 \<and> length (m_hw st) = length hw0 \<and> length hw0 \<le> RESV_DESC_START \<and>
     unat (num_dma_desc_processed (m_task st)) = card {i. processed (m_task st) i} \<and>
     (\<forall>i < length hw0. if processed (m_task st) i then was_checked t (m_task st) (dma_descriptors t ! i) i (m_hw st ! i)
       else m_hw st ! i = hw0 ! i)"

lemma unat_lt_256: "unat (w :: u8) < 256"
proof -
  have "unat w < 2 ^ LENGTH(8)" by (rule unsigned_less)
  then show ?thesis by simp
qed

lemma processed_finite: "finite {i. processed task i}"
proof (rule finite_subset)
  show "{i. processed task i} \<subseteq> {..< 64 * length (desc_processed task)}"
    by (auto simp: processed_def marked_in_def)
qed simp

lemma processed_mark:
  assumes "i div 64 < length (desc_processed task)"
    and "task' = task\<lparr>desc_processed := (desc_processed task)[i div 64 := desc_processed task ! (i div 64) OR push_bit (i mod 64) 1],
      num_dma_desc_processed := c\<rparr>"
  shows "processed task' j \<longleftrightarrow> processed task j \<or> j = i"
proof (cases "j div 64 = i div 64")
  case True
  have "j = i \<longleftrightarrow> j mod 64 = i mod 64"
    using True div_mult_mod_eq [of i 64] div_mult_mod_eq [of j 64] by metis
  moreover have "bit (w OR push_bit (i mod 64) 1 :: u64) (j mod 64) \<longleftrightarrow> bit w (j mod 64) \<or> j mod 64 = i mod 64" for w
    unfolding bit_or_iff bit_push_bit_iff bit_1_iff by auto
  ultimately show ?thesis using assms True by (simp add: processed_def marked_in_def)
next
  case False
  then show ?thesis using assms by (auto simp: processed_def marked_in_def)
qed

text \<open>Marking one more descriptor, before its body runs.\<close>

lemma map_inv_mark:
  assumes "map_inv t hw0 st" and "num_dma_desc_processed (m_task st) < num_dma_descriptors (m_task st)"
    and "arr_get (desc_processed (m_task st)) (i div 64) = Some w" and "\<not> bit w (i mod 64)"
    and "task1 = (m_task st)\<lparr>desc_processed := (desc_processed (m_task st))[i div 64 := w OR push_bit (i mod 64) 1],
      num_dma_desc_processed := num_dma_desc_processed (m_task st) + 1\<rparr>"
  shows "processed task1 j \<longleftrightarrow> processed (m_task st) j \<or> j = i" "\<not> processed (m_task st) i"
    "unat (num_dma_desc_processed task1) = card {i. processed task1 i}"
proof -
  have w: "i div 64 < length (desc_processed (m_task st))" "w = desc_processed (m_task st) ! (i div 64)"
    using assms(3) by simp_all
  have mark: "processed task1 j \<longleftrightarrow> processed (m_task st) j \<or> j = i" for j
    by (rule processed_mark [OF w(1)]) (use assms(5) w(2) in simp)
  show "processed task1 j \<longleftrightarrow> processed (m_task st) j \<or> j = i" by (rule mark)
  show new: "\<not> processed (m_task st) i" using assms(4) w(2) by (simp add: processed_def marked_in_def)
  have "unat (num_dma_desc_processed (m_task st) + 1) = unat (num_dma_desc_processed (m_task st)) + 1"
  proof -
    have "unat (num_dma_desc_processed (m_task st)) < unat (num_dma_descriptors (m_task st))"
      using assms(2) by (simp add: word_less_nat_alt)
    then have "unat (num_dma_desc_processed (m_task st)) + 1 < 2 ^ 8"
      using unat_lt_256 [of "num_dma_descriptors (m_task st)"] by simp
    then show ?thesis by (subst unat_add_no_wrap) simp_all
  qed
  moreover have "card {i. processed task1 i} = card {i. processed (m_task st) i} + 1"
  proof -
    have "{i. processed task1 i} = insert i {i. processed (m_task st) i}" using mark by auto
    then show ?thesis using new processed_finite [of "m_task st"] by simp
  qed
  ultimately show "unat (num_dma_desc_processed task1) = card {i. processed task1 i}"
    using assms(1,5) by (simp add: map_inv_def)
qed

lemma map_inv_reserved:
  assumes "map_inv t hw0 st" and "num_dma_desc_processed (m_task st) < num_dma_descriptors (m_task st)"
    and "arr_get (desc_processed (m_task st)) (RESV_DESC_START div 64) = Some w" and "\<not> bit w (RESV_DESC_START mod 64)"
    and "task1 = (m_task st)\<lparr>desc_processed := (desc_processed (m_task st))[RESV_DESC_START div 64 := w OR push_bit (RESV_DESC_START mod 64) 1],
      num_dma_desc_processed := num_dma_desc_processed (m_task st) + 1\<rparr>"
  shows "map_inv t hw0 (st\<lparr>m_task := task1\<rparr>)"
proof -
  note m = map_inv_mark [OF assms]
  have f: "same_limits (m_task st) task1" "length (desc_processed task1) = length (desc_processed (m_task st))"
    "desc_hwseq_t26x task1 = desc_hwseq_t26x (m_task st)" "desc_hwseq_frm task1 = desc_hwseq_frm (m_task st)"
    "desc_block_height_log2 task1 = desc_block_height_log2 (m_task st)"
    unfolding assms(5) by (simp_all add: same_limits_def)
  note inv = assms(1) [unfolded map_inv_def]
  have old: "was_checked t (m_task st) d i dd \<Longrightarrow> was_checked t task1 d i dd" for d i dd
    by (erule was_checked_mono [OF _ same_limits_refl]) (simp_all add: f)
  have all: "\<forall>i < length hw0. if processed task1 i then was_checked t task1 (dma_descriptors t ! i) i (m_hw st ! i)
      else m_hw st ! i = hw0 ! i"
    using inv m(1) old by auto
  show ?thesis
    using inv f m(3) all same_limits_trans [of t "m_task st" task1] unfolding map_inv_def by simp
qed

lemma map_inv_one:
  assumes "map_inv t hw0 st" and "num_dma_desc_processed (m_task st) < num_dma_descriptors (m_task st)"
    and "arr_get (desc_processed (m_task st)) (i div 64) = Some w" and "\<not> bit w (i mod 64)"
    and "task1 = (m_task st)\<lparr>desc_processed := (desc_processed (m_task st))[i div 64 := w OR push_bit (i mod 64) 1],
      num_dma_desc_processed := num_dma_desc_processed (m_task st) + 1\<rparr>"
    and "map_one (st\<lparr>m_task := task1\<rparr>) i block_height = Some (None, st2)" and "heights_in t block_height"
  shows "map_inv t hw0 st2" and "processed (m_task st2) j \<longleftrightarrow> processed (m_task st) j \<or> j = i"
proof -
  note m = map_inv_mark [OF assms(1-5)]
  note k = map_one_keeps [OF assms(6), simplified]
  note inv = assms(1) [unfolded map_inv_def]
  have l: "same_limits (m_task st) task1" "desc_hwseq_t26x task1 = desc_hwseq_t26x (m_task st)"
    "desc_hwseq_frm task1 = desc_hwseq_frm (m_task st)" "desc_block_height_log2 task1 = desc_block_height_log2 (m_task st)"
    "length (desc_processed task1) = length (desc_processed (m_task st))"
    unfolding assms(5) by (simp_all add: same_limits_def)
  have t1: "same_limits t task1" using inv l(1) same_limits_trans by blast
  have t2: "same_limits task1 (m_task st2)" using k(1) by (simp add: same_marks_def)
  have p: "processed (m_task st2) j \<longleftrightarrow> processed (m_task st) j \<or> j = i" for j
    using m(1) [of j] k(1) by (simp add: processed_def same_marks_def)
  show "processed (m_task st2) j \<longleftrightarrow> processed (m_task st) j \<or> j = i" by (rule p)
  have i: "i < 256"
  proof -
    obtain d where "i < length (m_hw (st\<lparr>m_task := task1\<rparr>))" by (rule map_one_success [OF assms(6)])
    then show ?thesis using inv by simp
  qed
  have ds: "dma_descriptors task1 = dma_descriptors t" using t1 by (simp add: same_limits_def)
  have t1r: "same_limits task1 t" using t1 by (simp add: same_limits_def)
  have bh: "heights_in (m_task (st\<lparr>m_task := task1\<rparr>)) block_height"
    using assms(7) checks_same_limits(6) [OF t1] by simp
  have "was_checked t task1 (dma_descriptors t ! i) i (m_hw st2 ! i)"
    by (rule was_checked_mono [OF map_one_was_checked [OF assms(6) i bh, simplified, unfolded ds] t1r]) simp_all
  then have new: "was_checked t (m_task st2) (dma_descriptors t ! i) i (m_hw st2 ! i)"
    by (rule was_checked_same_marks) (use k(1) in simp)
  have old: "was_checked t (m_task st2) d j dd" if "was_checked t (m_task st) d j dd" for d j dd
  proof -
    have "was_checked t task1 d j dd" using that by (rule was_checked_mono [OF _ same_limits_refl]) (simp_all add: l)
    then show ?thesis by (rule was_checked_same_marks) (use k(1) in simp)
  qed
  have "m_hw st2 ! j = m_hw st ! j" if "j \<noteq> i" for j using k(3) [OF that] .
  then have all: "\<forall>j < length hw0. if processed (m_task st2) j then was_checked t (m_task st2) (dma_descriptors t ! j) j (m_hw st2 ! j)
      else m_hw st2 ! j = hw0 ! j"
    using inv p new old by metis
  have "unat (num_dma_desc_processed (m_task st2)) = card {j. processed (m_task st2) j}"
  proof -
    have "{j. processed (m_task st2) j} = {j. processed task1 j}" using p m(1) by auto
    then show ?thesis using k(1) m(3) by (simp add: same_marks_def)
  qed
  moreover have "length (desc_processed (m_task st2)) = 2" using k(1) l(5) inv by (simp add: same_marks_def)
  moreover have "heights_in t (desc_block_height_log2 (m_task st2))"
    by (rule heights_same_marks [of task1]) (use k(1) t1 inv l(4) in simp_all)
  ultimately show "map_inv t hw0 st2"
    using inv k(2) all same_limits_trans [OF t1 t2] unfolding map_inv_def by simp
qed

lemma map_loop_inv:
  assumes "map_loop i desc_num num_descs st block_height = Some (None, st')" and "map_inv t hw0 st"
    and "heights_in t block_height"
  shows "map_inv t hw0 st'"
  using assms
proof (induction i desc_num num_descs st block_height rule: map_loop.induct)
  case (1 i desc_num num_descs st block_height)
  show ?case
  proof (cases "i < num_descs \<and> num_dma_desc_processed (m_task st) < num_dma_descriptors (m_task st)")
    case False
    have "map_loop i desc_num num_descs st block_height = Some (None, st)"
      by (subst map_loop.simps) (rule if_not_P [OF False])
    then show ?thesis using 1(4,5) by simp
  next
    case run: True
    then obtain w where w: "arr_get (desc_processed (m_task st)) (desc_num div 64) = Some w"
      using 1(4) by (auto simp: map_loop.simps [of i] split: option.splits)
    define task1 where "task1 = (m_task st)\<lparr>desc_processed := (desc_processed (m_task st))[desc_num div 64 := w OR push_bit (desc_num mod 64) 1],
      num_dma_desc_processed := num_dma_desc_processed (m_task st) + 1\<rparr>"
    note eq = 1(4) [unfolded map_loop.simps [of i], unfolded w option.case, folded task1_def]
    show ?thesis
    proof (cases "bit w (desc_num mod 64)")
      case True
      then show ?thesis using 1(1) [OF run w True] eq run 1(5,6) by simp
    next
      case new: False
      show ?thesis
      proof (cases "desc_num = RESV_DESC_START")
        case True
        have "map_inv t hw0 (st\<lparr>m_task := task1\<rparr>)"
          by (rule map_inv_reserved [OF 1(5) _ w [unfolded True] new [unfolded True]]) (use run task1_def True in auto)
        then show ?thesis using 1(2) [OF run w new task1_def refl True] eq run new True 1(6) by (simp add: Let_def)
      next
        case other: False
        then obtain st2 where m: "map_one (st\<lparr>m_task := task1\<rparr>) desc_num block_height = Some (None, st2)"
          and r: "map_loop (i + 1) (desc_num + 1) num_descs st2 block_height = Some (None, st')"
          using eq run new by (auto simp: Let_def split: option.splits prod.splits)
        have "map_inv t hw0 st2"
          by (rule map_inv_one(1) [OF 1(5) _ w new task1_def m 1(6)]) (use run in simp)
        then show ?thesis using 1(3) [OF run w new task1_def refl other m refl refl] r 1(6) by simp
      qed
    qed
  qed
qed


lemma all_processed:
  assumes "map_inv t hw0 st" and "n = num_dma_descriptors t" and "\<And>i. processed (m_task st) i \<Longrightarrow> i < unat n"
    and "\<not> num_dma_desc_processed (m_task st) < num_dma_descriptors (m_task st)" and "i < unat n"
  shows "processed (m_task st) i"
proof -
  have "unat n \<le> card {i. processed (m_task st) i}"
    using assms(1,2,4) by (simp add: map_inv_def same_limits_def word_less_nat_alt not_less)
  moreover have "{i. processed (m_task st) i} \<subseteq> {..<unat n}" using assms(3) by auto
  ultimately have "{i. processed (m_task st) i} = {..<unat n}"
    by (intro card_seteq) simp_all
  then show ?thesis using assms(5) by auto
qed

lemma map_loop_complete:
  assumes "map_loop i desc_num num_descs st block_height = Some (None, st')" and "map_inv t hw0 st"
    and "desc_num = i" and "num_descs = unat n" and "unat n \<le> RESV_DESC_START"
    and "\<And>j. processed (m_task st) j \<Longrightarrow> j < unat n" and "\<And>j. j < i \<Longrightarrow> j < unat n \<Longrightarrow> processed (m_task st) j"
    and "heights_in t block_height" and n: "n = num_dma_descriptors t"
  shows "\<forall>j. processed (m_task st') j \<longleftrightarrow> j < unat n"
  using assms(1-8)
proof (induction i desc_num num_descs st block_height rule: map_loop.induct)
  case (1 i desc_num num_descs st block_height)
  show ?case
  proof (cases "i < num_descs \<and> num_dma_desc_processed (m_task st) < num_dma_descriptors (m_task st)")
    case False
    have "map_loop i desc_num num_descs st block_height = Some (None, st)"
      by (subst map_loop.simps) (rule if_not_P [OF False])
    then have st: "st' = st" using 1(4) by simp
    have "processed (m_task st) j" if j: "j < unat n" for j
    proof (cases "i < num_descs")
      case True
      then show ?thesis using all_processed [OF 1(5) n 1(9)] False j by simp
    next
      case i: False
      then show ?thesis using 1(7) 1(10) [of j] j by simp
    qed
    then show ?thesis using st 1(9) by auto
  next
    case run: True
    then have il: "i < unat n" "desc_num \<noteq> RESV_DESC_START" using 1(6-8) by auto
    obtain w where w: "arr_get (desc_processed (m_task st)) (desc_num div 64) = Some w"
      using 1(4) run by (auto simp: map_loop.simps [of i] split: option.splits)
    define task1 where "task1 = (m_task st)\<lparr>desc_processed := (desc_processed (m_task st))[desc_num div 64 := w OR push_bit (desc_num mod 64) 1],
      num_dma_desc_processed := num_dma_desc_processed (m_task st) + 1\<rparr>"
    note eq = 1(4) [unfolded map_loop.simps [of i], unfolded w option.case, folded task1_def]
    show ?thesis
    proof (cases "bit w (desc_num mod 64)")
      case True
      then have "processed (m_task st) i" using w 1(6) by (simp add: processed_def marked_in_def)
      then have below: "\<And>j. j < i + 1 \<Longrightarrow> j < unat n \<Longrightarrow> processed (m_task st) j" using 1(10) by (metis less_SucE Suc_eq_plus1)
      have rest: "map_loop (i + 1) (desc_num + 1) num_descs st block_height = Some (None, st')"
        using eq by (simp only: run True if_True simp_thms)
      show ?thesis
        by (rule 1(1) [OF run w True rest 1(5) _ 1(7) 1(8) 1(9) below 1(11)]) (use 1(6) in simp_all)
    next
      case new: False
      obtain st2 where m: "map_one (st\<lparr>m_task := task1\<rparr>) desc_num block_height = Some (None, st2)"
        and r: "map_loop (i + 1) (desc_num + 1) num_descs st2 block_height = Some (None, st')"
        using eq run new il by (auto simp: Let_def split: option.splits prod.splits)
      have lt: "num_dma_desc_processed (m_task st) < num_dma_descriptors (m_task st)" using run by simp
      note one = map_inv_one [OF 1(5) lt w new task1_def m 1(11)]
      show ?thesis
      proof (rule 1(3) [OF run w new task1_def refl il(2) m refl refl r one(1)])
        show "heights_in t block_height" by (rule 1(11))
        show "desc_num + 1 = i + 1" "num_descs = unat n" "unat n \<le> RESV_DESC_START" using 1(6-8) by simp_all
        show "processed (m_task st2) j \<Longrightarrow> j < unat n" for j using one(2) [of j] 1(9) [of j] il(1) 1(6) by auto
        show "j < i + 1 \<Longrightarrow> j < unat n \<Longrightarrow> processed (m_task st2) j" for j
          using one(2) [of j] 1(10) [of j] 1(6) by (cases "j = i") auto
      qed
    qed
  qed
qed

text \<open>When the final run over all descriptors of a task succeeds, every hardware descriptor below their number has been
  programmed from a descriptor that passed the checks, and the others are untouched.
\<close>

theorem mapping_programs_checked:
  assumes "map_inv t hw0 st" and "m_did st = 0" and "n = num_dma_descriptors t" and "unat n \<le> length hw0"
    and "\<And>i. processed (m_task st) i \<Longrightarrow> i < unat n"
    and "nvpva_task_dma_desc_mapping st (unat n) = Some (None, st')"
  shows "\<forall>i < length hw0. if i < unat n then was_checked t (m_task st') (dma_descriptors t ! i) i (m_hw st' ! i)
    else m_hw st' ! i = hw0 ! i"
proof -
  have run: "map_loop 0 0 (unat n) st (desc_block_height_log2 (m_task st)) = Some (None, st')"
    using assms(2,6) by (simp add: nvpva_task_dma_desc_mapping_def)
  have b: "unat n \<le> RESV_DESC_START" "heights_in t (desc_block_height_log2 (m_task st))"
    using assms(1,4) by (simp_all add: map_inv_def)
  then have "\<forall>j. processed (m_task st') j \<longleftrightarrow> j < unat n"
    using map_loop_complete [OF run assms(1) refl refl b(1) assms(5) _ b(2) assms(3)] by simp
  then show ?thesis using map_loop_inv [OF run assms(1) b(2)] by (simp add: map_inv_def)
qed

section \<open>Concrete tasks\<close>

definition zero_desc :: nvpva_dma_descriptor where
  "zero_desc = \<lparr>srcPtr = 0, dstPtr = 0, dst2Ptr = 0, src_offset = 0, dst_offset = 0, dst2Offset = 0, surfBLOffset = 0,
     tx = 0, ty = 0, srcLinePitch = 0, dstLinePitch = 0, srcAdv1 = 0, dstAdv1 = 0, srcAdv2 = 0, dstAdv2 = 0,
     srcAdv3 = 0, dstAdv3 = 0, srcRpt1 = 0, dstRpt1 = 0, srcRpt2 = 0, dstRpt2 = 0, srcRpt3 = 0, dstRpt3 = 0,
     linkDescId = 0, px = 0, py = 0, srcCbEnable = 0, dstCbEnable = 0, srcCbStart = 0, dstCbStart = 0,
     srcCbSize = 0, dstCbSize = 0, trigEventMode = 0, trigVpuEvents = 0, descReloadEnable = 0, srcTransferMode = 0,
     dstTransferMode = 0, srcFormat = 0, dstFormat = 0, bytePerPixel = 0, pxDirection = 0, pyDirection = 0,
     boundaryPixelExtension = 0, transTrueCompletion = 0, prefetchEnable = 0\<rparr>"

definition zero_dtd :: pva_dtd_s where
  "zero_dtd = \<lparr>transfer_control0 = 0, link_did = 0, src_adr1 = 0, dst_adr1 = 0, src_adr0 = 0, dst_adr0 = 0, hw_tx = 0,
     hw_ty = 0, slp_adv = 0, dlp_adv = 0, srcpt1_cntl = 0, dstpt1_cntl = 0, srcpt2_cntl = 0, dstpt2_cntl = 0,
     srcpt3_cntl = 0, dstpt3_cntl = 0, sb_start = 0, db_start = 0, sb_size = 0, db_size = 0, trig_ch_events = 0,
     hw_sw_trig_events = 0, hw_px = 0, hw_py = 0, transfer_control1 = 0, transfer_control2 = 0, cb_ext = 0, frda = 0\<rparr>"

text \<open>A transfer of two lines of four bytes from a pinned buffer into a symbol of the VPU program.\<close>

definition ex_desc :: nvpva_dma_descriptor where
  "ex_desc = zero_desc\<lparr>srcPtr := 1, dst2Ptr := 0xFFFF, tx := 4, ty := 2, srcLinePitch := 64, dstLinePitch := 16,
     srcTransferMode := 1, dstTransferMode := 2\<rparr>"

definition ex_pva_task :: "nvpva_dma_descriptor \<Rightarrow> pva_submit_task" where
  "ex_pva_task d = \<lparr>version = 2, elf_images = (\<lambda>i. if i = 0 then Some [\<lparr>sym_addr = 0x40, sym_size = 4096\<rparr>] else None),
     buffers = (\<lambda>i. if i = 1 then Some \<lparr>user_addr = 0x100000, user_size = 8192, submit_map_count = 0\<rparr> else None),
     exe_id1 = 0, exe_id2 = 65535, l2_alloc_size = 0, num_dma_descriptors = 1, num_dma_channels = 1, special_access = 0,
     desc_hwseq_frm = [0, 0], desc_hwseq_t26x = [0, 0], desc_processed = [0, 0], num_dma_desc_processed = 0,
     dma_descriptors = [d], dma_channels = [], misr_enable = 0, misr_descriptor_mask = 0, hwseqTrigMode = 0,
     hwseqBuf_pin_id = 0, hwseqBuf_offset = 0, hwseqBuf_size = 0, pinned_memory = [], hwseq_info = [],
     desc_block_height_log2 = [255],
     task_buff_info = [\<lparr>src_buffer_size = 0, dst_buffer_size = 0, dst2_buffer_size = 0\<rparr>], desc_entries = [],
     src_surf_base_addr = 0, dst_surf_base_addr = 0, is_system_app = False\<rparr>"

definition ex_map :: "nvpva_dma_descriptor \<Rightarrow> map_state" where
  "ex_map d = \<lparr>m_task = ex_pva_task d, m_hw = [zero_dtd], m_did = 0, m_bl = 0\<rparr>"

definition succeeded :: "(errno option \<times> map_state) option \<Rightarrow> bool" where
  "succeeded r = (case r of Some (None, _) \<Rightarrow> True | _ \<Rightarrow> False)"

lemma ex_runs: "succeeded (map_one (ex_map ex_desc) 0 [4])" 
  by code_simp

lemma ex_runs2: "succeeded (map_one (ex_map (ex_desc\<lparr>srcFormat := 2\<rparr>)) 0 [4])" 
  by code_simp

lemma ex_runs3: "succeeded (nvpva_task_dma_desc_mapping (ex_map ex_desc) 1)" 
  by code_simp

lemma succeededE: "succeeded r \<Longrightarrow> (\<And>st. r = Some (None, st) \<Longrightarrow> P) \<Longrightarrow> P"
  by (auto simp: succeeded_def split: option.splits prod.splits)

lemma programmed_matches_witness:
  "\<exists>st. map_one (ex_map ex_desc) 0 [4] = Some (None, st) \<and> hw_matches ex_desc (m_hw st ! 0)"
proof (rule succeededE [OF ex_runs])
  fix st assume r: "map_one (ex_map ex_desc) 0 [4] = Some (None, st)"
  have "desc_fits ex_desc" by code_simp
  then show ?thesis using programmed_matches [OF r] r by (simp add: ex_map_def ex_pva_task_def)
qed

lemma oversized_format_redirects_witness:
  "\<exists>st. map_one (ex_map (ex_desc\<lparr>srcFormat := 2\<rparr>)) 0 [4] = Some (None, st) \<and> hw_dst_mode (m_hw st ! 0) = DMA_DESC_DST_XFER_L2RAM"
proof (rule succeededE [OF ex_runs2])
  fix st assume r: "map_one (ex_map (ex_desc\<lparr>srcFormat := 2\<rparr>)) 0 [4] = Some (None, st)"
  show ?thesis using oversized_format_redirects [OF r refl] r
    by (simp add: ex_map_def ex_pva_task_def ex_desc_def zero_desc_def)
qed



lemma mapping_programs_checked_witness:
  "\<exists>st. nvpva_task_dma_desc_mapping (ex_map ex_desc) 1 = Some (None, st) \<and>
    was_checked (ex_pva_task ex_desc) (m_task st) ex_desc 0 (m_hw st ! 0)"
proof (rule succeededE [OF ex_runs3])
  fix st assume r: "nvpva_task_dma_desc_mapping (ex_map ex_desc) 1 = Some (None, st)"
  have p: "\<not> processed (m_task (ex_map ex_desc)) i" for i
    by (auto simp: processed_def marked_in_def ex_map_def ex_pva_task_def nth_Cons split: nat.splits)
  have f: "dma_descriptors (ex_pva_task ex_desc) = [ex_desc]" "num_dma_descriptors (ex_pva_task ex_desc) = 1"
    "m_task (ex_map ex_desc) = ex_pva_task ex_desc" "m_hw (ex_map ex_desc) = [zero_dtd]" "m_did (ex_map ex_desc) = 0"
    by (simp_all add: ex_map_def ex_pva_task_def)
  have inv: "map_inv (ex_pva_task ex_desc) [zero_dtd] (ex_map ex_desc)"
    using p by (simp add: map_inv_def f) (simp add: ex_pva_task_def heights_in_def)
  have r1: "nvpva_task_dma_desc_mapping (ex_map ex_desc) (unat (1 :: u8)) = Some (None, st)" using r by simp
  show ?thesis using mapping_programs_checked [OF inv f(5) f(2) [symmetric] _ _ r1] p r f(1) by simp
qed

lemma check_address_range_exact_witness:
  "transfer_within ex_desc False 0 8192 \<and> \<not> transfer_within ex_desc False 0 67"
proof -
  have c: "check_address_range ex_desc 8192 0 False False 4 = Some (Inr ())"
    "check_address_range ex_desc 67 0 False False 4 = Some (Inl EINVAL)" by code_simp+
  have l: "last_tx ex_desc False = 3" "last_ty ex_desc False = 1" by code_simp+
  have "check_address_range ex_desc m 0 False False 4 = Some (Inr ()) \<longleftrightarrow>
      uint m < 2 ^ 63 \<and> transfer_within ex_desc False 0 (uint m)" for m
    using check_address_range_exact [of False ex_desc 0 False m 0 4] l by (simp add: ex_desc_def zero_desc_def)
  from this [of 8192] this [of 67] c show ?thesis by simp
qed

definition ex_bl :: nvpva_dma_descriptor where
  "ex_bl = ex_desc\<lparr>srcFormat := 1, src_offset := 0x1A40\<rparr>"

definition ex_bl_far :: nvpva_dma_descriptor where
  "ex_bl_far = ex_bl\<lparr>src_offset := 0x700001A40\<rparr>"

lemma pitch_linear_roundtrip_witness:
  "(\<exists>row x y. x < 64 \<and> y < 16 \<and> 0x1A40 = int (row * 1024 + bl_offset 1 x y) \<and> 6784 = int ((row * 16 + y) * 64 + x)) \<and>
   (\<exists>row x y. x < 64 \<and> y < 16 \<and> 0x700001A40 mod 2 ^ 32 = int (row * 1024 + bl_offset 1 x y) \<and>
     6784 = int ((row * 16 + y) * 64 + x))"
proof -
  have a: "pitch_linear_eq_offset ex_bl 0 1 0 False False = Some (Inr 6784)"
    "pitch_linear_eq_offset ex_bl_far 0 1 0 False False = Some (Inr 6784)" by code_simp+
  have d: "srcFormat ex_bl = 1" "srcLinePitch ex_bl = 64" "src_offset ex_bl = 0x1A40"
    "srcFormat ex_bl_far = 1" "srcLinePitch ex_bl_far = 64" "src_offset ex_bl_far = 0x700001A40"
    by (simp_all add: ex_bl_def ex_bl_far_def ex_desc_def zero_desc_def)
  show ?thesis
    using pitch_linear_roundtrip [OF a(1), of "srcLinePitch ex_bl" "src_offset ex_bl"]
      pitch_linear_roundtrip [OF a(2), of "srcLinePitch ex_bl_far" "src_offset ex_bl_far"] d by simp
qed

definition src_accepted :: "((errno + u64) \<times> pva_submit_task) option \<Rightarrow> bool" where
  "src_accepted r = (case r of Some (Inr _, _) \<Rightarrow> True | _ \<Rightarrow> False)"

text \<open>A transfer inside of a buffer of 8192 bytes, and one 28 GiB behind it.\<close>

lemma block_linear_offset_truncated_witness:
  "\<exists>a task'. patch_src (ex_pva_task ex_bl) ex_bl 0 1 = Some (Inr a, task') \<and>
     patch_src (ex_pva_task ex_bl) ex_bl_far 0 1 = Some (Inr a, task') \<and>
     hw_addr (src_adr1 (set_src_adr (a + src_offset ex_bl_far) zero_dtd)) (src_adr0 (set_src_adr (a + src_offset ex_bl_far) zero_dtd))
       = (hw_addr (src_adr1 (set_src_adr (a + src_offset ex_bl) zero_dtd)) (src_adr0 (set_src_adr (a + src_offset ex_bl) zero_dtd))
           + 7 * 2 ^ 32) mod 2 ^ 40"
proof -
  have "src_accepted (patch_src (ex_pva_task ex_bl) ex_bl 0 1)" by code_simp
  then obtain a task' where r: "patch_src (ex_pva_task ex_bl) ex_bl 0 1 = Some (Inr a, task')"
    by (auto simp: src_accepted_def split: option.splits prod.splits sum.splits)
  have d: "srcTransferMode ex_bl = DMA_DESC_SRC_XFER_MC" "srcFormat ex_bl \<noteq> 0"
    "ex_bl_far = ex_bl\<lparr>src_offset := src_offset ex_bl + of_nat (7 * 2 ^ 32)\<rparr>"
    by (simp_all add: ex_bl_far_def ex_bl_def ex_desc_def zero_desc_def)
  show ?thesis using block_linear_offset_truncated [OF d(1,2) r d(3)] r by auto
qed

end
