(* ===== verification/Pva_Hwseq_Facts.thy ===== *)
theory Pva_Hwseq_Facts imports Pva_Hwseq Pva_Mapping_Facts begin

text \<open>
  What the checks of hardware sequencer programs guarantee: without padding and as long as nothing wraps around
  in 32 bits, every byte of every tile lies in the buffer of the frame; and two programs for which
  they guarantee nothing.
\<close>

section \<open>The rectangle of a grid\<close>

definition tile_width :: "pva_hwseq_grid_info_s \<Rightarrow> int \<Rightarrow> int" where
  "tile_width gi i = (if i < head_tile_count gi then fst (tile_x gi) else snd (tile_x gi))"

definition in_grid :: "pva_hwseq_grid_info_s \<Rightarrow> int \<Rightarrow> int \<Rightarrow> int \<Rightarrow> int \<Rightarrow> bool" where
  "in_grid gi i j x y \<longleftrightarrow> 0 \<le> i \<and> i < grid_size_x gi \<and> 0 \<le> j \<and> j < grid_size_y gi \<and>
     0 \<le> x \<and> x < tile_width gi i \<and> 0 \<le> y \<and> y < fst (tile_y gi)"

text \<open>A grid without padding whose numbers have the ranges they get from a program.\<close>

definition plain_grid :: "pva_hwseq_grid_info_s \<Rightarrow> bool" where
  "plain_grid gi \<longleftrightarrow> gi_pad_x gi = (0, 0) \<and> gi_pad_y gi = (0, 0) \<and>
     1 \<le> grid_size_x gi \<and> grid_size_x gi \<le> 1024 \<and> 1 \<le> grid_size_y gi \<and> grid_size_y gi \<le> 256 \<and>
     \<bar>grid_step_x gi\<bar> \<le> 2 ^ 15 \<and> \<bar>grid_step_y gi\<bar> \<le> 2 ^ 15 \<and>
     1 \<le> head_tile_count gi \<and> head_tile_count gi \<le> grid_size_x gi \<and>
     0 \<le> fst (tile_x gi) \<and> fst (tile_x gi) < 2 ^ 16 \<and> 0 \<le> snd (tile_x gi) \<and> snd (tile_x gi) < 2 ^ 16 \<and>
     0 \<le> fst (tile_y gi) \<and> fst (tile_y gi) < 2 ^ 16"

lemma step_bound:
  fixes s k m :: int
  assumes "\<bar>s\<bar> \<le> 2 ^ 15" and "0 \<le> k" and "k < m" and "m \<le> 1024"
  shows "\<bar>s * k\<bar> \<le> 2 ^ 25" and "\<bar>s * k\<bar> \<le> \<bar>s\<bar> * m" and "wrap32 (s * k) = s * k" and "wrap32 k = k"
proof -
  have "\<bar>s\<bar> * \<bar>k\<bar> \<le> 2 ^ 15 * 1024" using assms by (intro mult_mono) simp_all
  then show b: "\<bar>s * k\<bar> \<le> 2 ^ 25" by (simp add: abs_mult)
  have "\<bar>s\<bar> * \<bar>k\<bar> \<le> \<bar>s\<bar> * m" using assms by (intro mult_left_mono) simp_all
  then show "\<bar>s * k\<bar> \<le> \<bar>s\<bar> * m" by (simp add: abs_mult)
  show "wrap32 (s * k) = s * k" using b by (intro wrap32_id) (simp_all add: abs_le_iff)
  show "wrap32 k = k" using assms by (intro wrap32_id) simp_all
qed

lemma steps_between:
  fixes s :: int
  assumes "0 \<le> i" and "i \<le> k"
  shows "min (s * k) 0 \<le> s * i" and "s * i \<le> max (s * k) 0"
  using dim_between [of i k s 1] assms by simp_all

lemma frame_y_plain:
  assumes "plain_grid gi" and "fst (tile_y gi) = snd (tile_y gi)"
  shows "frame_y gi = (min (grid_step_y gi * (grid_size_y gi - 1)) 0,
    max (grid_step_y gi * (grid_size_y gi - 1)) 0 + fst (tile_y gi))"
proof -
  note g = assms(1) [unfolded plain_grid_def]
  note b = step_bound [of "grid_step_y gi" "grid_size_y gi - 1" "grid_size_y gi"]
  have w: "wrap32 (grid_step_y gi * (grid_size_y gi - 1)) = grid_step_y gi * (grid_size_y gi - 1)"
    "wrap32 (grid_size_y gi - 1) = grid_size_y gi - 1" "\<bar>grid_step_y gi * (grid_size_y gi - 1)\<bar> \<le> 2 ^ 25"
    using b g by simp_all
  have "wrap32 (max (grid_step_y gi * (grid_size_y gi - 1)) 0 + fst (tile_y gi))
      = max (grid_step_y gi * (grid_size_y gi - 1)) 0 + fst (tile_y gi)"
    using w(3) g by (intro wrap32_id) (simp_all add: max_def abs_le_iff)
  moreover have "wrap32 (min (grid_step_y gi * (grid_size_y gi - 1)) 0) = min (grid_step_y gi * (grid_size_y gi - 1)) 0"
    using w(3) by (intro wrap32_id) (simp_all add: min_def abs_le_iff)
  moreover have "wrap32 (fst (tile_y gi)) = fst (tile_y gi)" using g by (intro wrap32_id) simp_all
  ultimately show ?thesis
    unfolding frame_y_def Let_def w using g assms(2) by simp
qed

lemma frame_x_plain_plain:
  assumes "plain_grid gi" and "frame_x_plain gi = Inr (sx, ex)"
  shows "sx = min (min (grid_step_x gi * (head_tile_count gi - 1)) 0) (min (grid_step_x gi * (grid_size_x gi - 1)) 0)"
    and "ex = max (max (grid_step_x gi * (head_tile_count gi - 1)) 0 + fst (tile_x gi))
                  (max (grid_step_x gi * (grid_size_x gi - 1)) 0 + snd (tile_x gi))"
proof -
  note g = assms(1) [unfolded plain_grid_def]
  define a where "a = grid_step_x gi * (head_tile_count gi - 1)"
  define b where "b = grid_step_x gi * (grid_size_x gi - 1)"
  have w: "wrap32 a = a" "wrap32 (head_tile_count gi - 1) = head_tile_count gi - 1" "\<bar>a\<bar> \<le> 2 ^ 25"
    using step_bound [of "grid_step_x gi" "head_tile_count gi - 1" "grid_size_x gi"] g by (simp_all add: a_def)
  have v: "wrap32 b = b" "wrap32 (grid_size_x gi - 1) = grid_size_x gi - 1" "\<bar>b\<bar> \<le> 2 ^ 25"
    using step_bound [of "grid_step_x gi" "grid_size_x gi - 1" "grid_size_x gi"] g by (simp_all add: b_def)
  have m: "wrap32 (max a 0 + fst (tile_x gi)) = max a 0 + fst (tile_x gi)"
    "wrap32 (max b 0 + snd (tile_x gi)) = max b 0 + snd (tile_x gi)"
    "wrap32 (min a 0) = min a 0" "wrap32 (min b 0) = min b 0"
    "wrap32 (fst (tile_x gi)) = fst (tile_x gi)" "wrap32 (snd (tile_x gi)) = snd (tile_x gi)"
    using w(3) v(3) g by (auto intro!: wrap32_id simp: max_def min_def abs_le_iff)
  have p: "fst (gi_pad_x gi) = 0" "snd (gi_pad_x gi) = 0" using g by simp_all
  have "Inr (min (min a 0) (min b 0), max (max a 0 + fst (tile_x gi)) (max b 0 + snd (tile_x gi))) = (Inr (sx, ex) :: errno + int \<times> int)"
    using assms(2) unfolding frame_x_plain_def Let_def p w(2) v(2) a_def [symmetric] b_def [symmetric] w(1) v(1)
    by (simp add: m split: if_split_asm)
  then show "sx = min (min (grid_step_x gi * (head_tile_count gi - 1)) 0) (min (grid_step_x gi * (grid_size_x gi - 1)) 0)"
    and "ex = max (max (grid_step_x gi * (head_tile_count gi - 1)) 0 + fst (tile_x gi))
                  (max (grid_step_x gi * (grid_size_x gi - 1)) 0 + snd (tile_x gi))"
    unfolding a_def b_def by simp_all
qed

lemma frame_x_split_plain:
  assumes "plain_grid gi" and "frame_x_split gi = Inr (sx, ex)"
  shows "sx = min (grid_step_x gi * (grid_size_x gi - 1)) 0"
    and "ex = max (grid_step_x gi * (grid_size_x gi - 1)) 0 + snd (tile_x gi)"
    and "(if grid_step_x gi \<ge> 0 then fst (tile_x gi) else snd (tile_x gi)) \<le> \<bar>grid_step_x gi\<bar>"
proof -
  note g = assms(1) [unfolded plain_grid_def]
  define b where "b = grid_step_x gi * (grid_size_x gi - 1)"
  have v: "wrap32 b = b" "wrap32 (grid_size_x gi - 1) = grid_size_x gi - 1" "\<bar>b\<bar> \<le> 2 ^ 25"
    using step_bound [of "grid_step_x gi" "grid_size_x gi - 1" "grid_size_x gi"] g by (simp_all add: b_def)
  have m: "wrap32 (max b 0 + snd (tile_x gi)) = max b 0 + snd (tile_x gi)"
    using v(3) g by (auto intro!: wrap32_id simp: max_def abs_le_iff)
  have r: "(if grid_step_x gi \<ge> 0 then fst (tile_x gi) else snd (tile_x gi)) \<le> \<bar>grid_step_x gi\<bar>
      \<and> sx = min b 0 \<and> ex = max b 0 + snd (tile_x gi)"
    using assms(2) unfolding frame_x_split_def Let_def v(2) b_def [symmetric] v(1) m
    by (simp add: not_less split: if_split_asm)
  then show "sx = min (grid_step_x gi * (grid_size_x gi - 1)) 0"
    and "ex = max (grid_step_x gi * (grid_size_x gi - 1)) 0 + snd (tile_x gi)"
    and "(if grid_step_x gi \<ge> 0 then fst (tile_x gi) else snd (tile_x gi)) \<le> \<bar>grid_step_x gi\<bar>"
    unfolding b_def by simp_all
qed


text \<open>Split padding needs more: see the second program at the end of this theory.\<close>

definition split_safe :: "pva_hwseq_grid_info_s \<Rightarrow> bool" where
  "split_safe gi \<longleftrightarrow> (gi_split_padding gi \<longrightarrow>
     (grid_step_x gi < 0 \<longrightarrow> fst (tile_x gi) \<le> snd (tile_x gi)) \<and>
     (head_tile_count gi = grid_size_x gi \<longrightarrow> fst (tile_x gi) = snd (tile_x gi)))"

lemma columns_covered:
  assumes "plain_grid gi" and "split_safe gi" and "in_grid gi i j x y"
    and "(if gi_split_padding gi then frame_x_split gi else frame_x_plain gi) = Inr (sx, ex)"
  shows "sx \<le> grid_step_x gi * i + x" and "grid_step_x gi * i + x < ex"
proof -
  define s where "s = grid_step_x gi"
  define n where "n = grid_size_x gi"
  define hc where "hc = head_tile_count gi"
  note g = assms(1) [unfolded plain_grid_def, folded s_def n_def hc_def]
  note p = assms(3) [unfolded in_grid_def tile_width_def, folded n_def hc_def]
  have i: "min (s * (n - 1)) 0 \<le> s * i" "s * i \<le> max (s * (n - 1)) 0"
    using steps_between [of i "n - 1" s] p by simp_all
  have h: "s * i \<le> max (s * (hc - 1)) 0" if "i < hc"
    using steps_between [of i "hc - 1" s] that p by simp_all
  have "sx \<le> s * i + x \<and> s * i + x < ex"
  proof (cases "gi_split_padding gi")
    case False
    note f = frame_x_plain_plain [OF assms(1), of sx ex, folded s_def n_def hc_def]
    have fx: "frame_x_plain gi = Inr (sx, ex)" using assms(4) False by simp
    show ?thesis using f [OF fx] i h p by (cases "i < hc") (simp_all add: min_le_iff_disj less_max_iff_disj, linarith+)
  next
    case True
    have fx: "frame_x_split gi = Inr (sx, ex)" using assms(4) True by simp
    note f = frame_x_split_plain [OF assms(1) fx, folded s_def n_def hc_def]
    note safe = assms(2) [unfolded split_safe_def, folded s_def n_def hc_def]
    have low: "sx \<le> s * i + x" using f(1) i(1) p by linarith
    moreover have "s * i + x < ex"
    proof (cases "i < hc")
      case tail: False
      then show ?thesis using f(2) i(2) p by simp
    next
      case head: True
      then have x: "x < fst (tile_x gi)" using p by simp
      show ?thesis
      proof (cases "hc = n \<or> s < 0")
        case True
        then have "fst (tile_x gi) \<le> snd (tile_x gi)" using safe \<open>gi_split_padding gi\<close> by auto
        then show ?thesis using f(2) i(2) x by linarith
      next
        case False
        then have "i + 1 \<le> n - 1" "0 \<le> s" using head g by auto
        then have "s * (i + 1) \<le> s * (n - 1)" by (intro mult_left_mono) simp_all
        moreover have "fst (tile_x gi) \<le> s" using f(3) \<open>0 \<le> s\<close> by simp
        ultimately have "s * i + x < s * (n - 1)" using x by (simp add: algebra_simps)
        then show ?thesis using f(2) g by linarith
      qed
    qed
    ultimately show ?thesis ..
  qed
  then show "sx \<le> grid_step_x gi * i + x" and "grid_step_x gi * i + x < ex" unfolding s_def by simp_all
qed

lemma rows_covered:
  assumes "plain_grid gi" and "fst (tile_y gi) = snd (tile_y gi)" and "in_grid gi i j x y" and "frame_y gi = (sy, ey)"
  shows "sy \<le> grid_step_y gi * j + y" and "grid_step_y gi * j + y < ey"
proof -
  have "min (grid_step_y gi * (grid_size_y gi - 1)) 0 \<le> grid_step_y gi * j"
    "grid_step_y gi * j \<le> max (grid_step_y gi * (grid_size_y gi - 1)) 0"
    using steps_between [of j "grid_size_y gi - 1" "grid_step_y gi"] assms(3) by (simp_all add: in_grid_def)
  then show "sy \<le> grid_step_y gi * j + y" and "grid_step_y gi * j + y < ey"
    using assms(3,4) frame_y_plain [OF assms(1,2)] by (simp_all add: in_grid_def)
qed

text \<open>Every element of every tile lies in the rectangle that \<open>compute_frame_info\<close> returns.\<close>

lemma compute_frame_info_covers:
  assumes "compute_frame_info gi = Inr fi" and "plain_grid gi" and "split_safe gi" and "in_grid gi i j x y"
  shows "start_x fi \<le> grid_step_x gi * i + x" "grid_step_x gi * i + x < end_x fi"
    "start_y fi \<le> grid_step_y gi * j + y" "grid_step_y gi * j + y < end_y fi"
proof -
  obtain sy ey sx ex where v: "validate_grid_padding gi = Inr ()" and y: "frame_y gi = (sy, ey)"
    and x: "(if gi_split_padding gi then frame_x_split gi else frame_x_plain gi) = Inr (sx, ex)"
    and fi: "fi = \<lparr>start_x = sx, start_y = sy, end_x = ex, end_y = ey\<rparr>"
    using assms(1) unfolding compute_frame_info_def by (auto split: sum.splits prod.splits)
  have ty: "fst (tile_y gi) = snd (tile_y gi)"
    using v by (simp add: validate_grid_padding_def split: if_split_asm)
  show "start_x fi \<le> grid_step_x gi * i + x" "grid_step_x gi * i + x < end_x fi"
    using columns_covered [OF assms(2-4) x] fi by simp_all
  show "start_y fi \<le> grid_step_y gi * j + y" "grid_step_y gi * j + y < end_y fi"
    using rows_covered [OF assms(2) ty assms(4) y] fi by simp_all
qed

text \<open>A bound on all coordinates of the rectangle.\<close>

definition grid_span :: "pva_hwseq_grid_info_s \<Rightarrow> int" where
  "grid_span gi = \<bar>grid_step_x gi\<bar> * grid_size_x gi + \<bar>grid_step_y gi\<bar> * grid_size_y gi + 2 ^ 16"

lemma compute_frame_info_bounds:
  assumes "compute_frame_info gi = Inr fi" and "plain_grid gi"
  shows "- grid_span gi \<le> start_x fi" "start_x fi \<le> 0" "0 \<le> end_x fi" "end_x fi \<le> grid_span gi"
    "- grid_span gi \<le> start_y fi" "start_y fi \<le> 0" "0 \<le> end_y fi" "end_y fi \<le> grid_span gi"
proof -
  obtain sy ey sx ex where v: "validate_grid_padding gi = Inr ()" and y: "frame_y gi = (sy, ey)"
    and x: "(if gi_split_padding gi then frame_x_split gi else frame_x_plain gi) = Inr (sx, ex)"
    and fi: "fi = \<lparr>start_x = sx, start_y = sy, end_x = ex, end_y = ey\<rparr>"
    using assms(1) unfolding compute_frame_info_def by (auto split: sum.splits prod.splits)
  have ty: "fst (tile_y gi) = snd (tile_y gi)"
    using v by (simp add: validate_grid_padding_def split: if_split_asm)
  note g = assms(2) [unfolded plain_grid_def]
  have b: "\<bar>grid_step_y gi * (grid_size_y gi - 1)\<bar> \<le> \<bar>grid_step_y gi\<bar> * grid_size_y gi"
    "\<bar>grid_step_x gi * (grid_size_x gi - 1)\<bar> \<le> \<bar>grid_step_x gi\<bar> * grid_size_x gi"
    "\<bar>grid_step_x gi * (head_tile_count gi - 1)\<bar> \<le> \<bar>grid_step_x gi\<bar> * grid_size_x gi"
    using g step_bound(2) [of "grid_step_y gi" "grid_size_y gi - 1" "grid_size_y gi"]
      step_bound(2) [of "grid_step_x gi" "grid_size_x gi - 1" "grid_size_x gi"]
      step_bound(2) [of "grid_step_x gi" "head_tile_count gi - 1" "grid_size_x gi"] by simp_all
  have nn: "0 \<le> \<bar>grid_step_x gi\<bar> * grid_size_x gi" "0 \<le> \<bar>grid_step_y gi\<bar> * grid_size_y gi" using g by simp_all
  define U where "U = \<bar>grid_step_x gi\<bar> * grid_size_x gi"
  define V where "V = \<bar>grid_step_y gi\<bar> * grid_size_y gi"
  define Y where "Y = grid_step_y gi * (grid_size_y gi - 1)"
  define X where "X = grid_step_x gi * (grid_size_x gi - 1)"
  define H where "H = grid_step_x gi * (head_tile_count gi - 1)"
  have r: "\<bar>Y\<bar> \<le> V" "\<bar>X\<bar> \<le> U" "\<bar>H\<bar> \<le> U" "0 \<le> U" "0 \<le> V" "grid_span gi = U + V + 65536"
    using b nn unfolding U_def V_def X_def Y_def H_def grid_span_def by simp_all
  have t: "0 \<le> fst (tile_x gi)" "fst (tile_x gi) < 65536" "0 \<le> snd (tile_x gi)" "snd (tile_x gi) < 65536"
    "0 \<le> fst (tile_y gi)" "fst (tile_y gi) < 65536" using g by simp_all
  have "sy = min Y 0" "ey = max Y 0 + fst (tile_y gi)"
    using frame_y_plain [OF assms(2) ty] y unfolding Y_def by simp_all
  then show "- grid_span gi \<le> start_y fi" "start_y fi \<le> 0" "0 \<le> end_y fi" "end_y fi \<le> grid_span gi"
    unfolding fi pva_hwseq_frame_info_s.simps using r t by linarith+
  have "- grid_span gi \<le> sx \<and> sx \<le> 0 \<and> 0 \<le> ex \<and> ex \<le> grid_span gi"
  proof (cases "gi_split_padding gi")
    case True
    then have "frame_x_split gi = Inr (sx, ex)" using x by simp
    note f = frame_x_split_plain(1,2) [OF assms(2) this, folded X_def]
    then show ?thesis using r t by linarith
  next
    case False
    then have "frame_x_plain gi = Inr (sx, ex)" using x by simp
    note f = frame_x_plain_plain [OF assms(2) this, folded X_def H_def]
    then show ?thesis using r t by linarith
  qed
  then show "- grid_span gi \<le> start_x fi" "start_x fi \<le> 0" "0 \<le> end_x fi" "end_x fi \<le> grid_span gi"
    using fi by simp_all
qed


section \<open>The rectangle in its buffer\<close>

lemma frame_in_buffer_sound:
  assumes "frame_in_buffer fi flp bpp offset sz = Some (Inr ())" and "bpp \<le> 2" and "\<bar>offset\<bar> \<le> 2 ^ 61"
    and "- B \<le> start_x fi" "start_x fi \<le> 0" "0 \<le> end_x fi" "end_x fi \<le> B"
    and "- B \<le> start_y fi" "start_y fi \<le> 0" "0 \<le> end_y fi" "end_y fi \<le> B"
    and "(B + 1) * uint flp + B < 2 ^ 31"
    and "start_x fi \<le> X" "X < end_x fi" "start_y fi \<le> Y" "Y < end_y fi" "0 \<le> b" "b < 2 ^ unat bpp"
  shows "0 \<le> offset + (Y * uint flp + X) * 2 ^ unat bpp + b" and "offset + (Y * uint flp + X) * 2 ^ unat bpp + b < sz"
proof -
  define p where "p = uint flp"
  define c where "c = (2 :: int) ^ unat bpp"
  define st where "st = start_y fi * p + start_x fi"
  define en where "en = (end_y fi - 1) * p + end_x fi"
  have B: "0 \<le> B" using assms(6,7) by linarith
  have p0: "0 \<le> p" by (simp add: p_def)
  have c: "1 \<le> c" "c \<le> 4"
  proof -
    have "unat bpp \<le> 2" using assms(2) by (simp add: word_le_nat_alt)
    then have "c \<le> 2 ^ 2" unfolding c_def by (intro power_increasing) simp_all
    then show "c \<le> 4" by simp
    show "1 \<le> c" by (simp add: c_def)
  qed
  have lim: "(B + 1) * p + B < 2 ^ 31" using assms(12) by (simp add: p_def)
  have Bp: "B * p \<le> (B + 1) * p" "0 \<le> B * p" using p0 B by (simp_all add: mult_right_mono)
  have y0: "- (B * p) \<le> start_y fi * p" "start_y fi * p \<le> 0"
    using mult_right_mono [OF assms(8) p0] mult_right_mono [OF assms(9) p0] by simp_all
  have y1: "- p \<le> (end_y fi - 1) * p" "(end_y fi - 1) * p \<le> B * p"
    using mult_right_mono [of "-1" "end_y fi - 1" p] mult_right_mono [of "end_y fi - 1" B p] assms(10,11) p0 by simp_all
  have pB: "p \<le> (B + 1) * p" using mult_right_mono [of 1 "B + 1" p] B p0 by simp
  have w: "wrap32 (start_y fi * p) = start_y fi * p" "wrap32 (start_y fi * p + start_x fi) = st"
    "wrap32 (end_y fi - 1) = end_y fi - 1" "wrap32 ((end_y fi - 1) * p) = (end_y fi - 1) * p"
    "wrap32 ((end_y fi - 1) * p + end_x fi) = en"
  proof -
    have P: "(2 :: int) ^ 31 = 2147483648" by simp
    note l = lim [unfolded P]
    have BB: "B < 2147483648" using l Bp p0 B by (smt (verit) mult_nonneg_nonneg)
    have small: "wrap32 k = k" if "- 2147483648 \<le> k" "k < 2147483648" for k by (rule wrap32_id) (use that in simp_all)
    show "wrap32 (start_y fi * p) = start_y fi * p" by (rule small) (use y0 Bp l B in linarith)+
    show "wrap32 (start_y fi * p + start_x fi) = st" unfolding st_def by (rule small) (use y0 Bp l B assms(4,5) in linarith)+
    show "wrap32 (end_y fi - 1) = end_y fi - 1" by (rule small) (use BB assms(10,11) in linarith)+
    show "wrap32 ((end_y fi - 1) * p) = (end_y fi - 1) * p" by (rule small) (use y1 pB Bp l B in linarith)+
    show "wrap32 ((end_y fi - 1) * p + end_x fi) = en" unfolding en_def by (rule small) (use y1 pB Bp l B assms(6,7) in linarith)+
  qed
  have sb: "\<bar>st\<bar> < 2 ^ 31" "\<bar>en\<bar> < 2 ^ 31"
    unfolding st_def en_def using y0 y1 Bp pB lim B assms(4-7) by (simp_all add: abs_less_iff) 
  have "\<bar>k * c\<bar> \<le> 2 ^ 31 * 4" if "\<bar>k\<bar> < 2 ^ 31" for k
    using mult_mono [of "\<bar>k\<bar>" "2 ^ 31" "\<bar>c\<bar>" 4] that c by (simp add: abs_mult)
  then have "\<bar>st * c\<bar> \<le> 2 ^ 31 * 4" "\<bar>en * c\<bar> \<le> 2 ^ 31 * 4" using sb by blast+
  then have v: "wrap64 (st * c) = st * c" "wrap64 (en * c) = en * c" "wrap64 (st * c + offset) = st * c + offset"
    "wrap64 (en * c + offset) = en * c + offset"
    using assms(3) by (simp_all add: wrap64_small abs_le_iff)
  have chk: "0 \<le> st * c + offset" "en * c + offset \<le> sz"
    using assms(1) unfolding frame_in_buffer_def Let_def p_def [symmetric] c_def [symmetric] w v
    by (simp_all add: not_less split: if_split_asm)
  have lo: "st \<le> Y * p + X" unfolding st_def using mult_right_mono [OF assms(15) p0] assms(13) by linarith
  have hi: "Y * p + X + 1 \<le> en" unfolding en_def using mult_right_mono [of Y "end_y fi - 1" p] assms(14,16) p0 by simp
  have "st * c \<le> (Y * p + X) * c" using lo c by (simp add: mult_right_mono)
  moreover have "(Y * p + X + 1) * c \<le> en * c" using hi c by (simp add: mult_right_mono)
  ultimately show "0 \<le> offset + (Y * uint flp + X) * 2 ^ unat bpp + b" and "offset + (Y * uint flp + X) * 2 ^ unat bpp + b < sz"
    using chk assms(17,18) unfolding p_def [symmetric] c_def [symmetric] by (simp_all add: distrib_right)
qed


text \<open>The grid of a program without padding, as it comes out of the checks.\<close>

lemma hwseq_plain_grid:
  assumes "check_padding_tiles head tail = Inr ()" and "check_no_padding (hdr hwseq)"
    and "1 \<le> sint (tiles_per_packet hwseq)" and "sint (tiles_per_packet hwseq) \<le> 1024"
    and "uint (entry_dr first) + 1 \<le> sint (tiles_per_packet hwseq)"
  shows "plain_grid (hwseq_grid head tail hwseq first)"
proof -
  have s: "\<bar>sint (w :: s16)\<bar> \<le> 2 ^ 15" for w
    using sint_ge [of w] sint_lt [of w] by (simp add: abs_le_iff)
  have u: "uint (h :: u16) < 65536" "uint (b :: u8) \<le> 255" for h b
    using uint_bounds(2) [of h] uint_bounds(1) [of b] by simp_all
  have pads: "pad_l (hdr hwseq) = 0" "pad_r (hdr hwseq) = 0" "pad_t (hdr hwseq) = 0" "pad_b (hdr hwseq) = 0"
    using assms(2) by (simp_all add: check_no_padding_def)
  show ?thesis
    unfolding plain_grid_def hwseq_grid_def Let_def
    using assms(3-5) s [of "hdr_to (hdr hwseq)"] s [of "cro (colrow hwseq)"] u(1) u(2) [of "crr (colrow hwseq)"]
    by (cases "is_raster_scan hwseq") (simp_all add: pads)
qed

text \<open>The position of an element of the frame, in elements: the grid is transposed in vertical mining.\<close>

definition frame_pos :: "pva_hwseq_priv_s \<Rightarrow> int \<Rightarrow> int \<Rightarrow> int \<Rightarrow> int \<Rightarrow> int \<Rightarrow> int" where
  "frame_pos hwseq flp i j x y =
    (let gx = sint (hdr_to (hdr hwseq)) * i + x; gy = sint (cro (colrow hwseq)) * j + y
     in if is_raster_scan hwseq then gy * flp + gx else gx * flp + gy)"

lemma validate_frame_accepted:
  assumes "validate_frame task hwseq head tail to_vmem = Some (Inr ())"
    and "flp = (if to_vmem then srcLinePitch head else dstLinePitch head)"
    and "pitch_linear_eq_offset head (sint (surfBLOffset head)) (blockHeight (dma_channels task ! dma_ch hwseq))
           (bytePerPixel head) (\<not> to_vmem) False = Some (Inr offset)"
    and "get_buffer_size_hwseq task hwseq (\<not> to_vmem) = Some sz"
  obtains fi where "compute_frame_info (hwseq_grid head tail hwseq (dma_descs hwseq ! 0)) = Inr fi"
    and "frame_in_buffer (if is_raster_scan hwseq then fi else swap_frame_boundaries fi) flp (bytePerPixel head)
      offset (sint sz) = Some (Inr ())"
proof (cases "compute_frame_info (hwseq_grid head tail hwseq (dma_descs hwseq ! 0))")
  case (Inl e)
  then show thesis using assms(1) by (auto simp: validate_frame_def bind_eq_Some_conv)
next
  case (Inr fi)
  show thesis
  proof (rule that [OF Inr])
    show "frame_in_buffer (if is_raster_scan hwseq then fi else swap_frame_boundaries fi) flp (bytePerPixel head)
      offset (sint sz) = Some (Inr ())"
      using assms(1) unfolding validate_frame_def bind_eq_Some_conv arr_get_Some Let_def assms(2)
      using assms(4) by (elim exE conjE) (auto simp: Inr assms(3) bind_eq_Some_conv split: if_split_asm)
  qed
qed

lemma validate_dma_boundaries_accepted:
  assumes "validate_dma_boundaries task hwseq = Some (Inr ())"
    and "head = dma_descriptors task ! head_desc hwseq" and "tail = dma_descriptors task ! tail_desc hwseq"
  shows "check_padding_tiles head tail = Inr ()"
    and "validate_frame task hwseq head tail (dstTransferMode head = DMA_DESC_DST_XFER_VMEM) = Some (Inr ())"
proof -
  define to_vmem where "to_vmem \<longleftrightarrow> dstTransferMode head = DMA_DESC_DST_XFER_VMEM"
  have l1: "head_desc hwseq < length (dma_descriptors task)"
    by (rule ccontr) (use assms(1) in \<open>simp add: validate_dma_boundaries_def arr_get_def\<close>)
  have l2: "tail_desc hwseq < length (dma_descriptors task)"
    by (rule ccontr) (use assms(1) l1 in \<open>simp add: validate_dma_boundaries_def arr_get_def\<close>)
  have run: "(if tiles_per_packet hwseq > 1 \<and> hdr_to (hdr hwseq) = 0 then Some (Inl EINVAL)
     else if check_padding_tiles head tail \<noteq> Inr () then Some (Inl EINVAL)
     else do {
       vmem \<leftarrow> (if to_vmem then validate_dst_vmem task head tail hwseq else validate_src_vmem task head tail hwseq);
       (case vmem of
          Inl _ \<Rightarrow> Some (Inl EINVAL)
        | Inr vmem_tile_count \<Rightarrow>
            if vmem_tile_count \<noteq> sint (tiles_per_packet hwseq * (ucast (crr (colrow hwseq)) + 1)) then Some (Inl EINVAL)
            else if \<not> is_raster_scan hwseq \<and> is_split_padding hwseq then Some (Inl EINVAL)
            else validate_frame task hwseq head tail to_vmem) }) = Some (Inr ())"
    using assms(1) by (simp only: validate_dma_boundaries_def arr_get_def l1 l2 if_True Option.bind.simps assms(2,3) to_vmem_def Let_def)
  have pad: "check_padding_tiles head tail = Inr ()"
  proof (rule ccontr)
    assume "check_padding_tiles head tail \<noteq> Inr ()"
    then show False using run by (simp split: if_split_asm)
  qed
  have go: "\<not> (tiles_per_packet hwseq > 1 \<and> hdr_to (hdr hwseq) = 0)" using run by (auto split: if_split_asm)
  obtain vmem where "(if to_vmem then validate_dst_vmem task head tail hwseq else validate_src_vmem task head tail hwseq) = Some vmem"
    and "(case vmem of
          Inl _ \<Rightarrow> Some (Inl EINVAL)
        | Inr vmem_tile_count \<Rightarrow>
            if vmem_tile_count \<noteq> sint (tiles_per_packet hwseq * (ucast (crr (colrow hwseq)) + 1)) then Some (Inl EINVAL)
            else if \<not> is_raster_scan hwseq \<and> is_split_padding hwseq then Some (Inl EINVAL)
            else validate_frame task hwseq head tail to_vmem) = Some (Inr ())"
    using run [unfolded if_not_P [OF go] pad simp_thms if_False bind_eq_Some_conv] by blast
  then have "validate_frame task hwseq head tail to_vmem = Some (Inr ())"
    by (cases vmem) (simp_all split: if_split_asm)
  then show "check_padding_tiles head tail = Inr ()"
    and "validate_frame task hwseq head tail (dstTransferMode head = DMA_DESC_DST_XFER_VMEM) = Some (Inr ())"
    using pad by (simp_all add: to_vmem_def)
qed

text \<open>For both layouts of the frame, relative to the offset that \<open>pitch_linear_eq_offset\<close> gives.\<close>

lemma hwseq_frame_within:
  assumes "validate_dma_boundaries task hwseq = Some (Inr ())"
    and "head = dma_descriptors task ! head_desc hwseq" and "tail = dma_descriptors task ! tail_desc hwseq"
    and "grid = hwseq_grid head tail hwseq (dma_descs hwseq ! 0)"
    and "to_vmem \<longleftrightarrow> dstTransferMode head = DMA_DESC_DST_XFER_VMEM"
    and "flp = (if to_vmem then srcLinePitch head else dstLinePitch head)"
    and "pitch_linear_eq_offset head (sint (surfBLOffset head)) (blockHeight (dma_channels task ! dma_ch hwseq))
           (bytePerPixel head) (\<not> to_vmem) False = Some (Inr offset)"
    and "get_buffer_size_hwseq task hwseq (\<not> to_vmem) = Some sz" and "uint sz < 2 ^ 63"
    and "check_no_padding (hdr hwseq)" and "split_safe grid"
    and "1 \<le> sint (tiles_per_packet hwseq)" and "sint (tiles_per_packet hwseq) \<le> 1024"
    and "uint (entry_dr (dma_descs hwseq ! 0)) + 1 \<le> sint (tiles_per_packet hwseq)"
    and "bytePerPixel head \<le> 2" and "\<bar>offset\<bar> \<le> 2 ^ 61"
    and "(grid_span grid + 1) * uint flp + grid_span grid < 2 ^ 31"
    and "in_grid grid i j x y" and "0 \<le> b" and "b < 2 ^ unat (bytePerPixel head)"
  shows "0 \<le> offset + frame_pos hwseq (uint flp) i j x y * 2 ^ unat (bytePerPixel head) + b \<and>
    offset + frame_pos hwseq (uint flp) i j x y * 2 ^ unat (bytePerPixel head) + b < uint sz"
proof -
  note acc = validate_dma_boundaries_accepted [OF assms(1-3), folded assms(5)]
  note pad = acc(1)
  obtain fi where fi: "compute_frame_info grid = Inr fi"
    and inb: "frame_in_buffer (if is_raster_scan hwseq then fi else swap_frame_boundaries fi) flp (bytePerPixel head)
      offset (sint sz) = Some (Inr ())"
    by (rule validate_frame_accepted [OF acc(2) assms(6-8)]) (simp add: assms(4))
  have plain: "plain_grid grid"
    unfolding assms(4) by (rule hwseq_plain_grid [OF pad assms(10) assms(12-14)])
  note cov = compute_frame_info_covers [OF fi plain assms(11,18)]
  note bnd = compute_frame_info_bounds [OF fi plain]
  have gs: "grid_step_x grid = sint (hdr_to (hdr hwseq))" "grid_step_y grid = sint (cro (colrow hwseq))"
    by (simp_all add: assms(4) hwseq_grid_def Let_def)
  have size: "sint sz = uint sz" using assms(9) by (simp add: sint_uint_cases)
  show ?thesis
  proof (cases "is_raster_scan hwseq")
    case True
    then have inb': "frame_in_buffer fi flp (bytePerPixel head) offset (uint sz) = Some (Inr ())" using inb size by simp
    show ?thesis
      using frame_in_buffer_sound [OF inb' assms(15,16) bnd assms(17) cov(1,2,3,4) assms(19,20)] True
      by (simp add: frame_pos_def gs)
  next
    case False
    then have inb': "frame_in_buffer (swap_frame_boundaries fi) flp (bytePerPixel head) offset (uint sz) = Some (Inr ())"
      using inb size by simp
    show ?thesis
      using frame_in_buffer_sound [OF inb' assms(15,16), of "grid_span grid" "grid_step_y grid * j + y" "grid_step_x grid * i + x" b]
        bnd assms(17) cov assms(19,20) False
      by (simp add: frame_pos_def gs swap_frame_boundaries_def)
  qed
qed

text \<open>C4: a program of the hardware sequencer that \<open>validate_dma_boundaries\<close> accepts keeps every byte of every tile inside
  of the buffer of its frame, under these conditions: the frame is stored line by line (format 0) and has a buffer of
  less than \<open>2 ^ 63\<close> bytes; the offset of its first byte is at most \<open>2 ^ 61\<close> in magnitude; elements have at most
  four bytes; the program has no padding, and with split padding its tiles have the order of the split;
  a packet has 1 to 1024 tiles and the repetitions of its first descriptor are among them; and the
  coordinates of the frame times its line pitch fit in 31 bits.
\<close>

theorem hwseq_frame_in_buffer:
  assumes "validate_dma_boundaries task hwseq = Some (Inr ())"
    and "head = dma_descriptors task ! head_desc hwseq" and "tail = dma_descriptors task ! tail_desc hwseq"
    and "grid = hwseq_grid head tail hwseq (dma_descs hwseq ! 0)"
    and "to_vmem \<longleftrightarrow> dstTransferMode head = DMA_DESC_DST_XFER_VMEM"
    and "flp = (if to_vmem then srcLinePitch head else dstLinePitch head)"
    and "(if to_vmem then srcFormat head else dstFormat head) = 0"
    and "offset = sint (if to_vmem then src_offset head else dst_offset head)" and "\<bar>offset\<bar> \<le> 2 ^ 61"
    and "get_buffer_size_hwseq task hwseq (\<not> to_vmem) = Some sz" and "uint sz < 2 ^ 63"
    and "check_no_padding (hdr hwseq)" and "split_safe grid"
    and "1 \<le> sint (tiles_per_packet hwseq)" and "sint (tiles_per_packet hwseq) \<le> 1024"
    and "uint (entry_dr (dma_descs hwseq ! 0)) + 1 \<le> sint (tiles_per_packet hwseq)"
    and "bytePerPixel head \<le> 2"
    and "(grid_span grid + 1) * uint flp + grid_span grid < 2 ^ 31"
    and "in_grid grid i j x y" and "0 \<le> b" and "b < 2 ^ unat (bytePerPixel head)"
  shows "0 \<le> offset + frame_pos hwseq (uint flp) i j x y * 2 ^ unat (bytePerPixel head) + b \<and>
    offset + frame_pos hwseq (uint flp) i j x y * 2 ^ unat (bytePerPixel head) + b < uint sz"
proof -
  have "pitch_linear_eq_offset head (sint (surfBLOffset head)) (blockHeight (dma_channels task ! dma_ch hwseq))
      (bytePerPixel head) (\<not> to_vmem) False = Some (Inr offset)"
    using assms(7,8) by (cases to_vmem) (simp_all add: pitch_linear_eq_offset_def)
  then show ?thesis
    by (rule hwseq_frame_within [OF assms(1-6) _ assms(10-17,9,18-21)])
qed


section \<open>Three programs\<close>

definition ex_channel :: nvpva_dma_channel where
  "ex_channel = \<lparr>descIndex = 0, blockHeight = 0, adbSize = 0, vdbSize = 0, adbOffset = 0, vdbOffset = 0,
     outputEnableMask = 0, padValue = 0, reqPerGrant = 0, ch_prefetchEnable = 0, chRepFactor = 0, hwseqStart = 0,
     hwseqEnd = 0, hwseqEnable = 1, hwseqTraversalOrder = 0, hwseqTxSelect = 0, hwseqTriggerDone = 0\<rparr>"

definition ex_frame_task :: "nvpva_dma_descriptor list \<Rightarrow> u64 \<Rightarrow> pva_submit_task" where
  "ex_frame_task ds sz = (ex_pva_task zero_desc)\<lparr>dma_descriptors := ds, dma_channels := [ex_channel],
     task_buff_info := [\<lparr>src_buffer_size = sz, dst_buffer_size = 4096, dst2_buffer_size = 0\<rparr>]\<rparr>"

definition ex_program :: "s16 \<Rightarrow> s16 \<Rightarrow> u8 \<Rightarrow> pva_dma_hwseq_desc_entry_s list \<Rightarrow> u32 \<Rightarrow> bool \<Rightarrow> pva_hwseq_priv_s" where
  "ex_program to' cro' crr' es tiles split = \<lparr>hdr = \<lparr>fid = 0xC0DE, fr = 0, no_cr = 0, hdr_to = to', fo = 0, pad_r = 0,
       pad_t = 0, pad_l = 0, pad_b = 0\<rparr>, colrow = \<lparr>dec = of_nat (length es - 1), crr = crr', cro = cro'\<rparr>,
     dma_ch = 0, head_desc = 0, tail_desc = length es - 1, dma_descs = es, tiles_per_packet = tiles,
     is_split_padding = split, is_raster_scan = True, verify_bounds = True\<rparr>"

text \<open>Two by two tiles of 16 by 4 bytes, next to each other, in a frame with lines of 64 bytes.\<close>

definition ex_tile :: nvpva_dma_descriptor where
  "ex_tile = zero_desc\<lparr>tx := 16, ty := 4, srcLinePitch := 64, dstLinePitch := 16, srcTransferMode := 1,
     dstTransferMode := 2, dstRpt1 := 3\<rparr>"

definition ex_good :: pva_hwseq_priv_s where
  "ex_good = ex_program 16 4 1 [\<lparr>entry_did = 0, entry_dr = 1\<rparr>] 2 False"

lemma hwseq_frame_in_buffer_witness:
  "validate_dma_boundaries (ex_frame_task [ex_tile] 480) ex_good = Some (Inr ()) \<and>
   0 \<le> 0 + frame_pos ex_good 64 1 1 15 3 * 2 ^ 0 + 0 \<and> 0 + frame_pos ex_good 64 1 1 15 3 * 2 ^ 0 + 0 < (480 :: int)"
proof -
  define grid where "grid = hwseq_grid ex_tile ex_tile ex_good (dma_descs ex_good ! 0)"
  have v: "validate_dma_boundaries (ex_frame_task [ex_tile] 480) ex_good = Some (Inr ())" by code_simp
  have o: "(if True then srcFormat ex_tile else dstFormat ex_tile) = 0"
    "0 = sint (if True then src_offset ex_tile else dst_offset ex_tile)" "\<bar>0 :: int\<bar> \<le> 2 ^ 61"
    by (simp_all add: ex_tile_def zero_desc_def)
  have b: "get_buffer_size_hwseq (ex_frame_task [ex_tile] 480) ex_good (\<not> True) = Some 480" by code_simp
  have g: "in_grid grid 1 1 15 3" "split_safe grid" "(grid_span grid + 1) * uint (64 :: u16) + grid_span grid < 2 ^ 31"
    unfolding grid_def by code_simp+
  have f: "check_no_padding (hdr ex_good)" "sint (tiles_per_packet ex_good) = 2"
    "uint (entry_dr (dma_descs ex_good ! 0)) = 1" by code_simp+
  have d: "ex_tile = dma_descriptors (ex_frame_task [ex_tile] 480) ! head_desc ex_good"
    "ex_tile = dma_descriptors (ex_frame_task [ex_tile] 480) ! tail_desc ex_good"
    by (simp_all add: ex_frame_task_def ex_good_def ex_program_def)
  have e: "True \<longleftrightarrow> dstTransferMode ex_tile = DMA_DESC_DST_XFER_VMEM"
    "64 = (if True then srcLinePitch ex_tile else dstLinePitch ex_tile)" "bytePerPixel ex_tile = 0"
    by (simp_all add: ex_tile_def zero_desc_def)
  have "0 \<le> 0 + frame_pos ex_good (uint (64 :: u16)) 1 1 15 3 * 2 ^ unat (bytePerPixel ex_tile) + 0 \<and>
      0 + frame_pos ex_good (uint (64 :: u16)) 1 1 15 3 * 2 ^ unat (bytePerPixel ex_tile) + 0 < uint (480 :: u64)"
    by (rule hwseq_frame_in_buffer [OF v d grid_def e(1,2) o b]) (use f g in \<open>simp_all add: e(3)\<close>)
  then show ?thesis using v by (simp add: e(3))
qed

text \<open>
  A column of 33 tiles, 4096 lines of 32768 bytes apart: the last line times the pitch is \<open>2 ^ 32\<close>.
  And a row of two tiles, read from right to left with split padding, whose first tile is the wider one.
\<close>

definition ex_tall :: pva_hwseq_priv_s where
  "ex_tall = ex_program 0 4096 32 [\<lparr>entry_did = 0, entry_dr = 0\<rparr>] 1 False"

definition ex_tall_tile :: nvpva_dma_descriptor where
  "ex_tall_tile = ex_tile\<lparr>ty := 1, srcLinePitch := 0x8000, dstRpt1 := 32\<rparr>"

definition ex_reverse :: pva_hwseq_priv_s where
  "ex_reverse = ex_program (- 16) 0 0 [\<lparr>entry_did = 0, entry_dr = 0\<rparr>, \<lparr>entry_did = 1, entry_dr = 0\<rparr>] 2 True"

definition ex_wide :: nvpva_dma_descriptor where
  "ex_wide = ex_tile\<lparr>tx := 64, ty := 1, src_offset := 16, dstRpt1 := 1, dstCbEnable := 1, dstCbSize := 4096\<rparr>"

text \<open>\<open>validate_dma_boundaries\<close> accepts programs that leave their frame.  A line number times the pitch
  wraps around in 32 bits: a tile 4 GiB behind a frame of 4096 bytes is accepted.  With split padding and a negative step
  the width of the last tile is taken for that of the rightmost one, which is the first: a tile that ends at byte 80 of a frame
  of 32 bytes is accepted.
\<close>

theorem hwseq_bounds_incomplete:
  "validate_dma_boundaries (ex_frame_task [ex_tall_tile] 4096) ex_tall = Some (Inr ()) \<and>
   in_grid (hwseq_grid ex_tall_tile ex_tall_tile ex_tall (dma_descs ex_tall ! 0)) 0 32 0 0 \<and>
   frame_pos ex_tall (uint (srcLinePitch ex_tall_tile)) 0 32 0 0 = 2 ^ 32 \<and>
   validate_dma_boundaries (ex_frame_task [ex_wide, ex_wide\<lparr>tx := 16\<rparr>] 32) ex_reverse = Some (Inr ()) \<and>
   in_grid (hwseq_grid ex_wide (ex_wide\<lparr>tx := 16\<rparr>) ex_reverse (dma_descs ex_reverse ! 0)) 0 0 63 0 \<and>
   uint (src_offset ex_wide) + frame_pos ex_reverse (uint (srcLinePitch ex_wide)) 0 0 63 0 = 79"
  by (intro conjI; code_simp)

end
