(* ===== verification/Pva_Dma.thy ===== *)
theory Pva_Dma imports Pva_Hwseq begin

text \<open>
  The programs of the hardware sequencer that a channel of a PVA task uses (\<open>verify_hwseq_blob\<close> of
  \<open>pva_dma.c\<close>) and the registers of a channel (\<open>nvpva_task_dma_channel_mapping\<close>).
\<close>

section \<open>Programs in memory\<close>

text \<open>Little-endian fields of the program at a byte offset; \<open>None\<close> is a read outside of the mapping.\<close>

definition get16 :: "u8 list \<Rightarrow> nat \<Rightarrow> u16 option" where
  "get16 bytes i = do { lo \<leftarrow> arr_get bytes i; hi \<leftarrow> arr_get bytes (i + 1); Some (ucast lo OR push_bit 8 (ucast hi)) }"

definition read_frame_header :: "u8 list \<Rightarrow> nat \<Rightarrow> pva_hwseq_frame_header_s option" where
  "read_frame_header bytes i = do {
     id \<leftarrow> get16 bytes i; f \<leftarrow> arr_get bytes (i + 2); n \<leftarrow> arr_get bytes (i + 3);
     t \<leftarrow> get16 bytes (i + 4); o' \<leftarrow> get16 bytes (i + 6);
     r \<leftarrow> arr_get bytes (i + 8); tp \<leftarrow> arr_get bytes (i + 9); l \<leftarrow> arr_get bytes (i + 10); b \<leftarrow> arr_get bytes (i + 11);
     Some \<lparr>fid = id, fr = f, no_cr = n, hdr_to = t, fo = o', pad_r = r, pad_t = tp, pad_l = l, pad_b = b\<rparr> }"

definition read_cr_header :: "u8 list \<Rightarrow> nat \<Rightarrow> pva_hwseq_cr_header_s option" where
  "read_cr_header bytes i = do {
     d \<leftarrow> arr_get bytes i; c \<leftarrow> arr_get bytes (i + 1); o' \<leftarrow> get16 bytes (i + 2);
     Some \<lparr>dec = d, crr = c, cro = o'\<rparr> }"

record pva_hwseq_desc_header_s =
  did1 :: u8
  dr1 :: u8
  did2 :: u8
  dr2 :: u8

definition read_desc_header :: "u8 list \<Rightarrow> nat \<Rightarrow> pva_hwseq_desc_header_s option" where
  "read_desc_header bytes i = do {
     a \<leftarrow> arr_get bytes i; b \<leftarrow> arr_get bytes (i + 1); c \<leftarrow> arr_get bytes (i + 2); d \<leftarrow> arr_get bytes (i + 3);
     Some \<lparr>did1 = a, dr1 = b, did2 = c, dr2 = d\<rparr> }"

definition is_frame_mode :: "u16 \<Rightarrow> bool" where "is_frame_mode i \<longleftrightarrow> i = 0xC0DE"
definition is_desc_mode :: "u16 \<Rightarrow> bool" where "is_desc_mode i \<longleftrightarrow> i = 0xDEAD"

definition max_desc_id :: "nat \<Rightarrow> nat" where
  "max_desc_id v = (if v = 0 then 0 else 60)"

text \<open>The flags for block-linear transfers are a bit that is only ever set.\<close>

definition verify_dma_desc_hwseq :: "pva_submit_task \<Rightarrow> nvpva_dma_channel \<Rightarrow> pva_hwseq_frame_header_s \<Rightarrow> u8 \<Rightarrow> bool
    \<Rightarrow> (errno option \<times> pva_submit_task \<times> bool) option" where
  "verify_dma_desc_hwseq task user_ch h did bl =
    (if did = 0 \<or> unat did \<ge> max_desc_id (version task)
        \<or> (RESV_DESC_START \<le> unat did - 1 \<and> unat did - 1 \<le> RESV_DESC_END) then Some (Some EINVAL, task, bl)
     else do {
       desc \<leftarrow> arr_get (dma_descriptors task) (unat did - 1);
       let bl' = (bl \<or> srcFormat desc = 1 \<or> dstFormat desc = 1);
       if is_desc_mode (fid h) then Some (None, task, bl')
       else do {
         frm \<leftarrow> is_hwseq_mode_frm task (did - 1);
         if frm then Some (None, task, bl')
         else do {
           task1 \<leftarrow> set_hwseq_mode_frm task (did - 1);
           let bl_bad = ((srcFormat desc = 1 \<or> dstFormat desc = 1) \<and> hdr_to h = 0);
           Some (if px desc \<noteq> 0 \<or> py desc \<noteq> 0 \<or> descReloadEnable desc \<noteq> 0 then (Some EINVAL, task1, bl')
                 else if validate_xfer_mode desc \<noteq> Inr () then (Some EINVAL, task1, bl')
                 else if hwseqTxSelect user_ch \<noteq> 1 then (None, task1, bl')
                 else if bl_bad then (Some EINVAL, task1, bl')
                 else if hwseqTraversalOrder user_ch = 0 then
                   (if uint (tx desc) + uint (pad_l h) > 0xFFFF \<or> uint (tx desc) + uint (pad_r h) > 0xFFFF
                    then (Some EINVAL, task1, bl') else (None, task1, bl'))
                 else if hwseqTraversalOrder user_ch = 1 then
                   (if uint (ty desc) + uint (pad_t h) > 0xFFFF \<or> uint (ty desc) + uint (pad_b h) > 0xFFFF
                    then (Some EINVAL, task1, bl') else (None, task1, bl'))
                 else (Some EINVAL, task1, bl')) } } })"


text \<open>
  What is kept of one descriptor of a program: its block height, and in frame mode its place and its
  repetitions; \<open>c\<close> is the index of the channel.
\<close>

definition keep_entry :: "pva_submit_task \<Rightarrow> nvpva_dma_channel \<Rightarrow> u16 \<Rightarrow> nat \<Rightarrow> u8 \<Rightarrow> u8 \<Rightarrow> nat \<Rightarrow> pva_submit_task option" where
  "keep_entry task user_ch mode c did dr k = do {
     heights \<leftarrow> arr_set (desc_block_height_log2 task) (unat (did - 1)) (blockHeight user_ch);
     let task1 = task\<lparr>desc_block_height_log2 := heights\<rparr>;
     if is_desc_mode mode then Some task1
     else do {
       es \<leftarrow> arr_get (desc_entries task1) c;
       es' \<leftarrow> arr_set es k \<lparr>entry_did = did - 1, entry_dr = dr\<rparr>;
       info \<leftarrow> arr_get (hwseq_info task1) c;
       let info' = info\<lparr>tiles_per_packet := tiles_per_packet info + (ucast dr + 1)\<rparr>;
       Some (task1\<lparr>desc_entries := (desc_entries task1)[c := es'], hwseq_info := (hwseq_info task1)[c := info']\<rparr>) } }"

definition seq_one :: "pva_submit_task \<Rightarrow> nvpva_dma_channel \<Rightarrow> pva_hwseq_frame_header_s \<Rightarrow> nat \<Rightarrow> u8 \<Rightarrow> u8 \<Rightarrow> nat \<Rightarrow> bool
    \<Rightarrow> (errno option \<times> pva_submit_task \<times> bool) option" where
  "seq_one task user_ch h c did dr k bl = do {
     (err, task1, bl1) \<leftarrow> verify_dma_desc_hwseq task user_ch h did bl;
     if err \<noteq> None then Some (err, task1, bl1)
     else do { task2 \<leftarrow> keep_entry task1 user_ch (fid h) c did dr k; Some (None, task2, bl1) } }"

text \<open>
  The inner loop, over the entries of two descriptors each, with \<open>n\<close> entries left and the position of the next
  one; after the second descriptor of an entry \<open>k\<close> stays as it is.
\<close>

fun desc_loop :: "nat \<Rightarrow> u8 list \<Rightarrow> nat \<Rightarrow> nat \<Rightarrow> nat \<Rightarrow> nvpva_dma_channel \<Rightarrow> pva_hwseq_frame_header_s \<Rightarrow> nat
    \<Rightarrow> pva_submit_task \<Rightarrow> bool \<Rightarrow> (errno option \<times> pva_submit_task \<times> bool \<times> nat) option" where
  "desc_loop 0 bytes pos k num user_ch h c task bl = Some (None, task, bl, pos)"
| "desc_loop (Suc n) bytes pos k num user_ch h c task bl = do {
     d \<leftarrow> read_desc_header bytes pos;
     (err, task1, bl1) \<leftarrow> seq_one task user_ch h c (did1 d) (dr1 d) k bl;
     if err \<noteq> None then Some (err, task1, bl1, pos)
     else if k + 1 \<ge> num then Some (None, task1, bl1, pos + 4)
     else do {
       (err2, task2, bl2) \<leftarrow> seq_one task1 user_ch h c (did2 d) (dr2 d) (k + 1) bl1;
       if err2 \<noteq> None then Some (err2, task2, bl2, pos)
       else desc_loop n bytes (pos + 4) (k + 1) num user_ch h c task2 bl2 } }"

text \<open>The outer loop over rows or columns; \<open>start\<close>, \<open>limit\<close> and \<open>end_addr\<close> bound the program.\<close>

fun cr_loop :: "nat \<Rightarrow> u8 list \<Rightarrow> nat \<Rightarrow> nat \<Rightarrow> nat \<Rightarrow> nat \<Rightarrow> nvpva_dma_channel \<Rightarrow> pva_hwseq_frame_header_s \<Rightarrow> nat \<Rightarrow> nat
    \<Rightarrow> pva_submit_task \<Rightarrow> bool \<Rightarrow> (errno option \<times> pva_submit_task \<times> bool \<times> nat) option" where
  "cr_loop 0 bytes pos start limit end_addr user_ch h c num task bl = Some (None, task, bl, num)"
| "cr_loop (Suc n) bytes pos start limit end_addr user_ch h c num task bl = do {
     cr \<leftarrow> read_cr_header bytes pos;
     let num_descriptors = unat (dec cr) + 1;
     let num_desc_entries = (unat (dec cr) + 2) div 2;
     let entry_size = num_desc_entries * 4 + 4;
     if is_frame_mode (fid h) \<and> num_descriptors > 2 then Some (Some EINVAL, task, bl, num_descriptors)
     else if start + entry_size > limit then Some (Some EINVAL, task, bl, num_descriptors)
     else do {
       (err, task1, bl1, pos1) \<leftarrow> desc_loop num_desc_entries bytes (pos + 4) 0 num_descriptors user_ch h c task bl;
       if err \<noteq> None then Some (err, task1, bl1, num_descriptors)
       else if pos1 > end_addr then Some (Some EINVAL, task1, bl1, num_descriptors)
       else cr_loop n bytes pos1 (start + entry_size) limit end_addr user_ch h c num_descriptors task1 bl1 } }"

text \<open>
  \<open>hwseqbuf\<close> are the bytes from the start of the program buffer, as far as it is mapped.  In C \<open>hdr\<close> and \<open>colrow\<close> are
  pointers into the program; here they are what the pointers lead to when the sizes have been checked.
\<close>

definition verify_hwseq_blob :: "pva_submit_task \<Rightarrow> nvpva_dma_channel \<Rightarrow> u8 list \<Rightarrow> bool \<Rightarrow> nat
    \<Rightarrow> (errno option \<times> pva_submit_task \<times> bool) option" where
  "verify_hwseq_blob task user_ch hwseqbuf bl c = do {
     let endd = unat (hwseqEnd user_ch) * 4;
     let start = unat (hwseqStart user_ch) * 4;
     if endd \<le> start \<or> endd - start + 4 < 20 then Some (Some EINVAL, task, bl)
     else if endd > unat (hwseqBuf_size task) then Some (Some EINVAL, task, bl)
     else do {
       h \<leftarrow> read_frame_header hwseqbuf start;
       cr \<leftarrow> read_cr_header hwseqbuf (start + 12);
       if is_desc_mode (fid h) \<and> hwseqTrigMode task = NVPVA_HWSEQTM_DMATRIG then Some (Some EINVAL, task, bl)
       else if \<not> is_desc_mode (fid h) \<and> \<not> is_frame_mode (fid h) then Some (Some EINVAL, task, bl)
       else if unat (no_cr h) + 1 > 1 \<and> version task \<le> PVA_HW_GEN2 then Some (Some EINVAL, task, bl)
       else do {
         info \<leftarrow> arr_get (hwseq_info task) c;
         let info1 = info\<lparr>hdr := h, colrow := cr, dma_ch := c, is_split_padding := hwseqTxSelect user_ch \<noteq> 0,
                          is_raster_scan := hwseqTraversalOrder user_ch = 0\<rparr>;
         (err, task1, bl1, num) \<leftarrow> cr_loop (unat (no_cr h) + 1) hwseqbuf (start + 12) (start + 12) (endd + 4) (endd + 4)
            user_ch h c 0 (task\<lparr>hwseq_info := (hwseq_info task)[c := info1]\<rparr>) bl;
         if err \<noteq> None then Some (err, task1, bl1)
         else if is_desc_mode (fid h) then Some (None, task1, bl1)
         else do {
           es \<leftarrow> arr_get (desc_entries task1) c;
           first \<leftarrow> arr_get es 0;
           lst \<leftarrow> arr_get es (num - 1);
           info2 \<leftarrow> arr_get (hwseq_info task1) c;
           let info3 = info2\<lparr>dma_descs := es, head_desc := unat (entry_did first), tail_desc := unat (entry_did lst),
                             verify_bounds := True\<rparr>;
           Some (None, task1\<lparr>hwseq_info := (hwseq_info task1)[c := info3]\<rparr>, bl1) } } } }"

section \<open>Channels\<close>

record pva_dma_ch_config_s =
  ch_number :: u32
  cntl0 :: u32
  cntl1 :: u32
  boundary_pad :: u32
  hwseqcntl :: u32

definition nvpva_update_blockheight :: "pva_dma_ch_config_s \<Rightarrow> u8 \<Rightarrow> errno + pva_dma_ch_config_s" where
  "nvpva_update_blockheight ch block_height_log2 =
    (if block_height_log2 > NVPVA_MAX_VALID_BLK_HGT_LG2 then Inl EINVAL
     else Inr (ch\<lparr>cntl0 := (cntl0 ch AND NOT (push_bit 25 7)) OR push_bit 25 (ucast block_height_log2 AND 7)\<rparr>))"

text \<open>\<open>PVA_NUM_DYNAMIC_VDB_BUFFS\<close> and the AXI buffers of the generations.\<close>

definition adb_limit :: "nat \<Rightarrow> nat" where
  "adb_limit hwgen = (if hwgen = PVA_HW_GEN1 then 248 else 256)"

definition bad_channel :: "nat \<Rightarrow> nvpva_dma_channel \<Rightarrow> bool" where
  "bad_channel hwgen user_ch \<longleftrightarrow>
    (unat (descIndex user_ch) > RESV_DESC_START \<and> unat (descIndex user_ch) \<le> RESV_DESC_END) \<or>
    unat (vdbSize user_ch) + unat (vdbOffset user_ch) > 128 \<or>
    unat (adbSize user_ch) + unat (adbOffset user_ch) > adb_limit hwgen"

text \<open>The control registers of a channel, with the error of the replication factor behind the first ones.\<close>

definition channel_registers :: "nat \<Rightarrow> nvpva_dma_channel \<Rightarrow> pva_dma_ch_config_s \<Rightarrow> errno option \<times> pva_dma_ch_config_s" where
  "channel_registers hwgen user_ch ch =
    (let c0 = ((ucast (descIndex user_ch) + 1) AND 0xFF) OR push_bit 8 (ucast (vdbSize user_ch) AND 0xFF)
              OR push_bit 16 (ucast (adbSize user_ch) AND 0x1FF) OR push_bit 25 5
              OR push_bit 30 (ucast (ch_prefetchEnable user_ch) AND 1) OR push_bit 31 1;
         c1 = push_bit 2 (ucast (reqPerGrant user_ch) AND 7) OR push_bit 16 (ucast (vdbOffset user_ch) AND 0x7F)
              OR (if hwgen = PVA_HW_GEN1 then push_bit 24 (ucast (adbOffset user_ch) AND 0xFF)
                  else push_bit 23 (ucast (adbOffset user_ch) AND 0x1FF));
         ch1 = ch\<lparr>cntl0 := c0, cntl1 := c1, boundary_pad := padValue user_ch\<rparr>
     in if hwgen = PVA_HW_GEN1 then (None, ch1)
        else if chRepFactor user_ch \<noteq> 0 \<and> chRepFactor user_ch \<noteq> 6 then (Some EINVAL, ch1)
        else (None, ch1\<lparr>cntl1 := c1 OR push_bit 8 (ucast (chRepFactor user_ch) AND 7),
               hwseqcntl := (ucast (hwseqStart user_ch) AND 0xFF) OR push_bit 12 (ucast (hwseqEnd user_ch) AND 0xFF)
                 OR push_bit 24 (ucast (hwseqTriggerDone user_ch) AND 3) OR push_bit 27 (ucast (hwseqTxSelect user_ch) AND 1)
                 OR push_bit 30 (ucast (hwseqTraversalOrder user_ch) AND 1)
                 OR push_bit 31 (ucast (hwseqEnable user_ch) AND 1)\<rparr>))"

definition nvpva_task_dma_channel_mapping :: "pva_submit_task \<Rightarrow> pva_dma_ch_config_s \<Rightarrow> u8 list \<Rightarrow> nat \<Rightarrow> bool
    \<Rightarrow> (errno option \<times> pva_submit_task \<times> pva_dma_ch_config_s) option" where
  "nvpva_task_dma_channel_mapping task ch hwseqbuf c hwseq_in_use = do {
     user_ch \<leftarrow> arr_get (dma_channels task) c;
     if bad_channel (version task) user_ch then Some (Some EINVAL, task, ch)
     else case channel_registers (version task) user_ch ch of (reg_err, ch1) \<Rightarrow>
         if reg_err \<noteq> None then Some (reg_err, task, ch1)
         else if version task = PVA_HW_GEN1 then Some (None, task, ch1)
         else do {
           (err, task1, bl) \<leftarrow> (if hwseqEnable user_ch AND 1 \<noteq> 0 \<and> hwseq_in_use
                               then verify_hwseq_blob task user_ch hwseqbuf False c else Some (None, task, False));
           Some (if err \<noteq> None then (err, task1, ch1)
                 else if bl then (case nvpva_update_blockheight ch1 (blockHeight user_ch) of
                                    Inl e \<Rightarrow> (Some e, task1, ch1) | Inr ch2 \<Rightarrow> (None, task1, ch2))
                 else (None, task1, ch1)) } }"

end
