(* ===== verification/Pva_Task.thy ===== *)
theory Pva_Task imports Pva_Hwseq_Facts Pva_Mapping_Facts Pva_Dma begin

text \<open>
  \<open>pva_task_write_dma_info\<close> and \<open>pva_task_write_dma_misr_info\<close> of \<open>pva_dma.c\<close>: the DMA part of a task, from the
  reset of its bookkeeping over the channels, the descriptors that they link and the remaining descriptors to the bounds of
  the sequencer programs.
\<close>

section \<open>The task\<close>

text \<open>
  The structures of the firmware interface that the task descriptor points to.  \<open>pva_hw_task\<close> is reduced to the
  parts that the DMA code writes; \<open>hw_layout\<close> holds the bus address of the task and the places of these parts
  in it, as the compiler lays them out.
\<close>

record pva_dma_info_s =
  dma_info_size :: u16
  dma_info_version :: u16
  num_channels :: u8
  num_descriptors :: u8
  num_hwseq :: u16
  descriptor_id :: u8
  dma_triggers :: "u32 list"
  info_dma_channels :: "pva_dma_ch_config_s list"
  dma_common_config :: u32
  dma_descriptor_base :: u64
  dma_hwseq_base :: u64
  dma_misr_base :: u64

record pva_dma_misr_config_s =
  ref_addr :: u32
  seed_crc0 :: u32
  ref_data_1 :: u32
  seed_crc1 :: u32
  ref_data_2 :: u32
  misr_timeout :: u32

record pva_hw_task =
  hw_dma_info :: pva_dma_info_s
  hw_dma_desc :: "pva_dtd_s list"
  hw_misr :: pva_dma_misr_config_s
  hw_task_dma_info :: u64

record hw_layout =
  task_dma_addr :: u64
  off_dma_info :: u64
  off_dma_desc :: u64
  off_misr :: u64
  sizeof_dma_info :: u16

definition zero_hwseq :: pva_hwseq_priv_s where
  "zero_hwseq = \<lparr>hdr = \<lparr>fid = 0, fr = 0, no_cr = 0, hdr_to = 0, fo = 0, pad_r = 0, pad_t = 0, pad_l = 0, pad_b = 0\<rparr>,
     colrow = \<lparr>dec = 0, crr = 0, cro = 0\<rparr>, dma_ch = 0, head_desc = 0, tail_desc = 0, dma_descs = [],
     tiles_per_packet = 0, is_split_padding = False, is_raster_scan = False, verify_bounds = False\<rparr>"

text \<open>The \<open>memset\<close>s at the start, and those before the channels.\<close>

definition reset_task :: "pva_submit_task \<Rightarrow> pva_submit_task" where
  "reset_task task = task\<lparr>desc_block_height_log2 := replicate MAX_NUM_DESCS 255,
     hwseq_info := replicate MAX_NUM_CHANNELS zero_hwseq, desc_processed := [0, 0], num_dma_desc_processed := 0,
     special_access := 0\<rparr>"

definition reset_modes :: "pva_submit_task \<Rightarrow> pva_submit_task" where
  "reset_modes task = task\<lparr>desc_hwseq_frm := [0, 0], desc_hwseq_t26x := [0, 0]\<rparr>"

text \<open>The events of a channel in the trigger registers.\<close>

definition trigger_bits :: "u32 \<Rightarrow> nat \<Rightarrow> nat \<Rightarrow> u32 \<Rightarrow> u32" where
  "trigger_bits m ch_num j t =
    t OR push_bit ch_num (drop_bit (2 * j) m AND 1) OR push_bit (ch_num + 16) (drop_bit (2 * j + 1) m AND 1)"

definition set_triggers :: "nat \<Rightarrow> u32 \<Rightarrow> nat \<Rightarrow> u32 list \<Rightarrow> u32 list" where
  "set_triggers hwgen m ch_num ts =
    (let ts1 = foldl (\<lambda>l j. l[j := trigger_bits m ch_num j (l ! j)]) ts [0..<7];
         ts2 = ts1[7 := ts1 ! 7 OR push_bit ch_num (drop_bit 14 m AND 1)]
     in if hwgen = PVA_HW_GEN2
        then ts2[8 := ts2 ! 8 OR push_bit ch_num (drop_bit 15 m AND 1) OR push_bit (ch_num + 16) (drop_bit 16 m AND 1)]
        else ts2)"

text \<open>
  The loop that follows the links of a channel from \<open>did\<close>, which holds the id of a descriptor, one more than its
  index.  A turn sets \<open>*did\<close> to the link of the descriptor it maps; when it maps none, \<open>*did\<close> stays one below.
\<close>

function follow_links :: "u8 \<Rightarrow> u8 \<Rightarrow> map_state \<Rightarrow> (errno option \<times> map_state) option" where
  "follow_links height prev_did st =
    (if m_did st \<noteq> 0 \<and> m_did st \<noteq> prev_did then
       (case arr_set (desc_block_height_log2 (m_task st)) (unat (m_did st - 1)) height of
          None \<Rightarrow> None
        | Some hs \<Rightarrow>
            (case nvpva_task_dma_desc_mapping (st\<lparr>m_task := (m_task st)\<lparr>desc_block_height_log2 := hs\<rparr>, m_did := m_did st - 1\<rparr>) 1 of
               None \<Rightarrow> None
             | Some (Some e, st') \<Rightarrow> Some (Some e, st')
             | Some (None, st') \<Rightarrow> follow_links height (m_did st) st'))
     else Some (None, st))"
  by pat_completeness auto


text \<open>A run for a single descriptor stops at once, marks the reserved index or maps the descriptor.\<close>

definition mark :: "nat \<Rightarrow> u64 \<Rightarrow> pva_submit_task \<Rightarrow> pva_submit_task" where
  "mark i w task = task\<lparr>desc_processed := (desc_processed task)[i div 64 := w OR push_bit (i mod 64) 1],
     num_dma_desc_processed := num_dma_desc_processed task + 1\<rparr>"

lemma mapping_one_cases:
  assumes "nvpva_task_dma_desc_mapping st 1 = Some (None, st')"
  obtains (old) "st' = st"
  | (marked) w st1 where "num_dma_desc_processed (m_task st) < num_dma_descriptors (m_task st)"
      "arr_get (desc_processed (m_task st)) (unat (m_did st) div 64) = Some w" "\<not> bit w (unat (m_did st) mod 64)"
      "st1 = st\<lparr>m_task := mark (unat (m_did st)) w (m_task st)\<rparr>"
      "unat (m_did st) = RESV_DESC_START \<and> st' = st1 \<or>
       map_one st1 (unat (m_did st)) (desc_block_height_log2 (m_task st)) = Some (None, st')"
proof -
  have stop: "map_loop i k 1 s h = Some (None, s)" if "0 < i" for i k s h
    by (subst map_loop.simps) (use that in simp)
  have step: "map_loop 0 (unat (m_did st)) 1 st (desc_block_height_log2 (m_task st)) = Some (None, st')"
    using assms by (simp add: nvpva_task_dma_desc_mapping_def)
  show thesis
  proof (cases "num_dma_desc_processed (m_task st) < num_dma_descriptors (m_task st)")
    case False
    then show thesis using step old by (simp add: map_loop.simps [of 0])
  next
    case run: True
    then obtain w where w: "arr_get (desc_processed (m_task st)) (unat (m_did st) div 64) = Some w"
      using step by (auto simp: map_loop.simps [of 0] split: option.splits)
    have go: "0 < (1 :: nat) \<and> num_dma_desc_processed (m_task st) < num_dma_descriptors (m_task st)" using run by simp
    note eq = step [unfolded map_loop.simps [of 0] w option.case if_P [OF go], folded mark_def]
    show thesis
    proof (cases "bit w (unat (m_did st) mod 64)")
      case True
      then show thesis using eq old by (simp add: stop [simplified] del: One_nat_def) (simp add: stop [simplified])
    next
      case False
      have "unat (m_did st) = RESV_DESC_START \<and> st' = st\<lparr>m_task := mark (unat (m_did st)) w (m_task st)\<rparr> \<or>
          map_one (st\<lparr>m_task := mark (unat (m_did st)) w (m_task st)\<rparr>) (unat (m_did st)) (desc_block_height_log2 (m_task st))
            = Some (None, st')"
        using eq False by (auto simp: Let_def stop [simplified] stop simp del: One_nat_def
            split: if_split_asm option.split_asm prod.split_asm)
      then show thesis by (rule marked [OF run w False refl])
    qed
  qed
qed

lemma mapping_one_step:
  assumes "nvpva_task_dma_desc_mapping st 1 = Some (None, st')"
  shows "num_dma_descriptors (m_task st') = num_dma_descriptors (m_task st) \<and>
    (st' = st \<or> num_dma_desc_processed (m_task st) < num_dma_descriptors (m_task st) \<and>
      num_dma_desc_processed (m_task st') = num_dma_desc_processed (m_task st) + 1)"
  by (rule mapping_one_cases [OF assms]) (auto simp: mark_def dest: map_one_fields(2) map_one_fields(3))

termination follow_links
proof (relation "measures [\<lambda>(h, p, st). unat (num_dma_descriptors (m_task st)) - unat (num_dma_desc_processed (m_task st)),
      \<lambda>(h, p, st). unat (m_did st)]", goal_cases)
  case 1
  then show ?case by simp
next
  case (2 height prev_did st hs p e st')
  let ?st = "st\<lparr>m_task := (m_task st)\<lparr>desc_block_height_log2 := hs\<rparr>, m_did := m_did st - 1\<rparr>"
  have run: "nvpva_task_dma_desc_mapping ?st 1 = Some (None, st')" using 2 by simp
  have less: "unat (m_did st - 1) < unat (m_did st)"
    using 2(1) by (simp add: measure_unat)
  show ?case
  proof (cases "st' = ?st")
    case True
    then show ?thesis using less by simp
  next
    case False
    then have lt: "num_dma_desc_processed (m_task st) < num_dma_descriptors (m_task st)"
      and new: "num_dma_desc_processed (m_task st') = num_dma_desc_processed (m_task st) + 1"
      and n: "num_dma_descriptors (m_task st') = num_dma_descriptors (m_task st)"
      using mapping_one_step [OF run] by auto
    have "unat (num_dma_desc_processed (m_task st) + 1) = unat (num_dma_desc_processed (m_task st)) + 1"
      using lt unat_lt_256 [of "num_dma_descriptors (m_task st)"]
      by (subst unat_add_no_wrap) (simp_all add: word_less_nat_alt)
    then show ?thesis using lt new n by (simp add: word_less_nat_alt diff_less_mono2)
  qed
qed

declare follow_links.simps [simp del]

text \<open>The body of the loop over the channels for the channel of index \<open>c\<close>.\<close>

record dma_state =
  d_map :: map_state
  d_info :: pva_dma_info_s

definition write_channel :: "bool \<Rightarrow> u8 list \<Rightarrow> nat \<Rightarrow> dma_state \<Rightarrow> (errno option \<times> dma_state) option" where
  "write_channel is_hwseq_mode hwseqbuf c st = do {
     let task = m_task (d_map st);
     user_ch \<leftarrow> arr_get (dma_channels task) c;
     ch \<leftarrow> arr_get (info_dma_channels (d_info st)) c;
     (err, task1, ch1) \<leftarrow> nvpva_task_dma_channel_mapping task ch hwseqbuf c is_hwseq_mode;
     let mp1 = (d_map st)\<lparr>m_task := task1, m_bl := 0\<rparr>;
     let info1 = (d_info st)\<lparr>info_dma_channels := (info_dma_channels (d_info st))[c := ch1]\<rparr>;
     if err \<noteq> None then Some (err, \<lparr>d_map = mp1, d_info = info1\<rparr>)
     else if \<not> is_hwseq_mode \<and> hwseqcntl ch1 \<noteq> 0 then Some (Some EINVAL, \<lparr>d_map = mp1, d_info = info1\<rparr>)
     else do {
       let ch2 = ch1\<lparr>ch_number := of_nat (c + 1)\<rparr>;
       let info2 = info1\<lparr>info_dma_channels := (info_dma_channels info1)[c := ch2],
                         dma_triggers := set_triggers (version task) (outputEnableMask user_ch) (c + 1) (dma_triggers info1)\<rparr>;
       if hwseqEnable user_ch = 1 then Some (None, \<lparr>d_map = mp1, d_info = info2\<rparr>)
       else do {
         (err2, mp2) \<leftarrow> follow_links (blockHeight user_ch) 0 (mp1\<lparr>m_did := descIndex user_ch + 1\<rparr>);
         if err2 \<noteq> None then Some (err2, \<lparr>d_map = mp2, d_info = info2\<rparr>)
         else do {
           let ch3 = (if m_bl mp2 \<noteq> 0 then (case nvpva_update_blockheight ch2 (blockHeight user_ch) of
                        Inl _ \<Rightarrow> ch2 | Inr c' \<Rightarrow> c') else ch2);
           Some (None, \<lparr>d_map = mp2, d_info = info2\<lparr>info_dma_channels := (info_dma_channels info2)[c := ch3]\<rparr>\<rparr>) } } } }"

fun write_channels :: "bool \<Rightarrow> u8 list \<Rightarrow> nat list \<Rightarrow> dma_state \<Rightarrow> (errno option \<times> dma_state) option" where
  "write_channels is_hwseq_mode hwseqbuf [] st = Some (None, st)"
| "write_channels is_hwseq_mode hwseqbuf (c # cs) st = do {
     (err, st1) \<leftarrow> write_channel is_hwseq_mode hwseqbuf c st;
     if err \<noteq> None then Some (err, st1) else write_channels is_hwseq_mode hwseqbuf cs st1 }"

text \<open>The checks of the bounds of the sequencer programs, for the channels of the given indices.\<close>

fun check_bounds :: "pva_submit_task \<Rightarrow> nat list \<Rightarrow> (errno option) option" where
  "check_bounds task [] = Some None"
| "check_bounds task (c # cs) = do {
     info \<leftarrow> arr_get (hwseq_info task) c;
     if verify_bounds info then do {
       r \<leftarrow> validate_dma_boundaries task info;
       (case r of Inl _ \<Rightarrow> Some (Some EINVAL) | Inr _ \<Rightarrow> check_bounds task cs) }
     else check_bounds task cs }"

text \<open>
  The buffer of the program of the sequencer: whether there is one, its bytes from the offset in it, the task and
  the part of the DMA information that is written.  \<open>contents\<close> gives the bytes of a pinned buffer.
\<close>

definition pin_hwseq :: "(u32 \<Rightarrow> u8 list) \<Rightarrow> pva_submit_task \<Rightarrow> pva_dma_info_s
    \<Rightarrow> errno option \<times> bool \<times> u8 list \<times> pva_submit_task \<times> pva_dma_info_s" where
  "pin_hwseq contents task info =
    (if hwseqBuf_pin_id task = 0 then (None, False, [], task, info)
     else if version task = PVA_HW_GEN1 then (Some EINVAL, False, [], task, info)
     else if hwseqBuf_size task = 0 \<or> hwseqBuf_size task > 1024 then (Some EINVAL, False, [], task, info)
     else let info1 = info\<lparr>dma_common_config := dma_common_config info OR push_bit 12 (hwseqTrigMode task AND 1)\<rparr>
          in case pva_task_pin_mem task (hwseqBuf_pin_id task) of
               (Inl e, task1) \<Rightarrow> (Some e, True, [], task1, info1)
             | (Inr mem, task1) \<Rightarrow>
                 (None, True, List.drop (unat (hwseqBuf_offset task)) (contents (hwseqBuf_pin_id task)), task1,
                  info1\<lparr>dma_hwseq_base := mem_dma_addr mem + ucast (hwseqBuf_offset task),
                        num_hwseq := ucast (hwseqBuf_size task)\<rparr>))"

definition pva_task_write_dma_info :: "(u32 \<Rightarrow> u8 list) \<Rightarrow> hw_layout \<Rightarrow> pva_submit_task \<Rightarrow> pva_hw_task
    \<Rightarrow> (errno option \<times> pva_submit_task \<times> pva_hw_task) option" where
  "pva_task_write_dma_info contents lay task hw =
    (let task0 = reset_task task in
     if num_dma_descriptors task = 0 \<or> num_dma_channels task = 0 then Some (None, task0, hw)
     else case pin_hwseq contents task0 (hw_dma_info hw) of
       (Some e, _, _, task1, info1) \<Rightarrow> Some (Some e, task1, hw\<lparr>hw_dma_info := info1\<rparr>)
     | (None, is_hwseq_mode, hwseqbuf, task1, info1) \<Rightarrow> do {
         let info2 = info1\<lparr>num_channels := num_dma_channels task, num_descriptors := num_dma_descriptors task,
                           descriptor_id := 1\<rparr>;
         let st = \<lparr>d_map = \<lparr>m_task = reset_modes task1, m_hw = hw_dma_desc hw, m_did = 0, m_bl = 0\<rparr>, d_info = info2\<rparr>;
         (err, st1) \<leftarrow> write_channels is_hwseq_mode hwseqbuf [0..<unat (num_dma_channels task)] st;
         if err \<noteq> None then Some (err, m_task (d_map st1), hw\<lparr>hw_dma_info := d_info st1, hw_dma_desc := m_hw (d_map st1)\<rparr>)
         else do {
           (err2, mp) \<leftarrow> nvpva_task_dma_desc_mapping ((d_map st1)\<lparr>m_did := 0\<rparr>) (unat (num_dma_descriptors task));
           let hw2 = hw\<lparr>hw_dma_info := d_info st1, hw_dma_desc := m_hw mp\<rparr>;
           if err2 \<noteq> None then Some (err2, m_task mp, hw2)
           else do {
             err3 \<leftarrow> (if version task \<le> PVA_HW_GEN2 then check_bounds (m_task mp) [0..<unat (num_dma_channels task)]
                     else Some None);
             if err3 \<noteq> None then Some (err3, m_task mp, hw2)
             else Some (None, m_task mp, hw2\<lparr>hw_task_dma_info := task_dma_addr lay + off_dma_info lay,
                 hw_dma_info := (d_info st1)\<lparr>dma_descriptor_base := task_dma_addr lay + off_dma_desc lay,
                   dma_info_version := 1, dma_info_size := sizeof_dma_info lay\<rparr>\<rparr>) } } })"

text \<open>The configuration of the MISR checks of a system application.\<close>

definition misr_common :: "u32 \<Rightarrow> u32 \<Rightarrow> u32" where
  "misr_common common_config channel_mask =
    ((((common_config AND NOT (push_bit 16 0xFFFF)) OR push_bit 16 (NOT channel_mask)) AND NOT (push_bit 5 1))
      AND NOT (push_bit 15 1)) OR push_bit 0 1"

definition pva_task_write_dma_misr_info :: "hw_layout \<Rightarrow> pva_submit_task \<Rightarrow> u32 \<Rightarrow> pva_dma_misr_config_s \<Rightarrow> pva_hw_task
    \<Rightarrow> pva_hw_task" where
  "pva_task_write_dma_misr_info lay task channel_mask cfg hw =
    (let info = (hw_dma_info hw)\<lparr>dma_misr_base := 0\<rparr>
     in if misr_enable task = 0 then hw\<lparr>hw_dma_info := info\<rparr>
        else hw\<lparr>hw_misr := cfg,
                hw_dma_info := info\<lparr>dma_misr_base := task_dma_addr lay + off_misr lay,
                  dma_common_config := misr_common (dma_common_config info) channel_mask\<rparr>\<rparr>)"

end
