(* ===== verification/Pva_Task_Facts.thy ===== *)
theory Pva_Task_Facts imports Pva_Task begin

text \<open>
  What \<open>pva_task_write_dma_info\<close> leaves behind: no step before the descriptors touches their marks, the walk over the
  links of a channel and the final run keep the invariant of the descriptors, and so the hardware only gets descriptors
  that were checked.
\<close>

section \<open>Channels leave the descriptors alone\<close>

lemma places_entries [simp]: "places (task\<lparr>desc_block_height_log2 := h, desc_entries := d\<rparr>) = places task"
  by (simp add: places_def fun_eq_iff)

lemma same_marks_hwseq [simp]:
  "same_marks task (task\<lparr>hwseq_info := i\<rparr>)" "same_marks (task\<lparr>hwseq_info := i\<rparr>) task2 = same_marks task task2"
  "same_marks task (task2\<lparr>hwseq_info := i\<rparr>) = same_marks task task2"
  by (simp_all add: same_marks_def same_limits_def)



















section \<open>The walk over the links of a channel\<close>




lemma mapping_channels:
  assumes "nvpva_task_dma_desc_mapping st 1 = Some (None, st')"
  shows "dma_channels (m_task st') = dma_channels (m_task st)"
  by (rule mapping_one_cases [OF assms]) (auto simp: mark_def dest: map_one_fields(4))




section \<open>The whole task\<close>










section \<open>Channels that start elsewhere\<close>

text \<open>C11: the test of \<open>descIndex\<close> lets through the first reserved index, 60, and everything from 64 on.  For a channel
  that starts at 60 or at 64 to 254 (at 255 the walk does not begin), with valid sizes of its buffers, the walk
  over the links writes outside of the array of block heights at its first step.
\<close>

theorem desc_index_escapes:
  assumes "unat (descIndex ch) = RESV_DESC_START \<or> RESV_DESC_END < unat (descIndex ch) \<and> descIndex ch \<noteq> 255"
    and "unat (vdbSize ch) + unat (vdbOffset ch) \<le> 128" and "unat (adbSize ch) + unat (adbOffset ch) \<le> adb_limit hwgen"
    and "length (desc_block_height_log2 (m_task st)) = MAX_NUM_DESCS"
  shows "\<not> bad_channel hwgen ch \<and> follow_links height 0 (st\<lparr>m_did := descIndex ch + 1\<rparr>) = None"
proof
  show "\<not> bad_channel hwgen ch" using assms(1-3) by (auto simp: bad_channel_def)
  have "descIndex ch + 1 \<noteq> 0"
  proof
    assume "descIndex ch + 1 = 0"
    then have "descIndex ch = - 1" by (simp add: eq_neg_iff_add_eq_0)
    moreover have "unat (- 1 :: u8) = 255" by code_simp
    ultimately show False using assms(1) by auto
  qed
  moreover have "arr_set (desc_block_height_log2 (m_task st)) (unat (descIndex ch)) height = None"
    using assms(1,4) by (auto simp: arr_set_def)
  ultimately show "follow_links height 0 (st\<lparr>m_did := descIndex ch + 1\<rparr>) = None"
    by (simp add: follow_links.simps arr_set_def)
qed

definition ex_ch :: nvpva_dma_channel where
  "ex_ch = ex_channel\<lparr>blockHeight := 4, hwseqEnable := 0\<rparr>"

definition zero_ch_config :: pva_dma_ch_config_s where
  "zero_ch_config = \<lparr>ch_number = 0, cntl0 = 0, cntl1 = 0, boundary_pad = 0, hwseqcntl = 0\<rparr>"

definition zero_hw_task :: pva_hw_task where
  "zero_hw_task = \<lparr>hw_dma_info = \<lparr>dma_info_size = 0, dma_info_version = 0, num_channels = 0, num_descriptors = 0, num_hwseq = 0,
       descriptor_id = 0, dma_triggers = replicate 9 0, info_dma_channels = replicate 15 zero_ch_config,
       dma_common_config = 0, dma_descriptor_base = 0, dma_hwseq_base = 0, dma_misr_base = 0\<rparr>,
     hw_dma_desc = replicate 60 zero_dtd,
     hw_misr = \<lparr>ref_addr = 0, seed_crc0 = 0, ref_data_1 = 0, seed_crc1 = 0, ref_data_2 = 0, misr_timeout = 0\<rparr>, hw_task_dma_info = 0\<rparr>"

definition ex_layout :: hw_layout where
  "ex_layout = \<lparr>task_dma_addr = 0x10000, off_dma_info = 0x400, off_dma_desc = 0x800, off_misr = 0x700, sizeof_dma_info = 560\<rparr>"

text \<open>A task of one descriptor and one channel that starts at the given index.\<close>

definition ex_full_task :: "nvpva_dma_descriptor list \<Rightarrow> u8 \<Rightarrow> pva_submit_task" where
  "ex_full_task ds i = (ex_pva_task ex_desc)\<lparr>dma_descriptors := ds @ replicate (60 - length ds) zero_desc,
     dma_channels := [ex_ch\<lparr>descIndex := i\<rparr>],
     task_buff_info := replicate 60 \<lparr>src_buffer_size = 0, dst_buffer_size = 0, dst2_buffer_size = 0\<rparr>\<rparr>"




lemma desc_index_escapes_witness:
  "\<not> bad_channel 2 (ex_ch\<lparr>descIndex := 60\<rparr>) \<and>
   follow_links 4 0 ((ex_map ex_desc)\<lparr>m_task := (ex_pva_task ex_desc)\<lparr>desc_block_height_log2 := replicate 60 255\<rparr>,
     m_did := descIndex (ex_ch\<lparr>descIndex := 60\<rparr>) + 1\<rparr>) = None"
  by (rule desc_index_escapes) (simp_all add: ex_ch_def ex_channel_def adb_limit_def)

text \<open>The index at which a channel starts is not compared with the number of descriptors.  A task of one descriptor
  whose channel starts at the second one succeeds with the second one programmed and the first one not.
\<close>

theorem channel_behind_descriptors:
  "case pva_task_write_dma_info (\<lambda>_. []) ex_layout (ex_full_task [ex_desc, ex_desc] 1) zero_hw_task of
     Some (None, task', hw') \<Rightarrow> num_dma_descriptors task' = 1 \<and> \<not> processed task' 0 \<and> processed task' 1 \<and>
       src_adr0 (hw_dma_desc hw' ! 0) = 0 \<and> src_adr0 (hw_dma_desc hw' ! 1) = 0x100000 \<and>
       transfer_control0 (hw_dma_desc hw' ! 0) = 0 \<and> transfer_control0 (hw_dma_desc hw' ! 1) = 0x21
   | _ \<Rightarrow> False"
  by code_simp

end
