(* ===== verification/Pva_Task_Type.thy ===== *)
theory Pva_Task_Type imports Pva_Task_Facts begin

text \<open>
  Tasks on which the DMA part of a task is defined: with the arrays of the driver at their sizes, descriptors that do
  not make the block-linear address divide by zero, and channels whose index lies in the table, no step
  indexes outside of an array, shifts too far or divides by zero.
\<close>

section \<open>Results that exist\<close>

definition gives :: "'a option \<Rightarrow> ('a \<Rightarrow> bool) \<Rightarrow> bool" where
  "gives m P \<longleftrightarrow> (\<exists>v. m = Some v \<and> P v)"

lemma gives_Some [simp]: "gives (Some v) P = P v"
  by (simp add: gives_def)

lemma gives_if: "(b \<Longrightarrow> gives m P) \<Longrightarrow> (\<not> b \<Longrightarrow> gives q P) \<Longrightarrow> gives (if b then m else q) P"
  by simp

lemma gives_bind: "gives m Q \<Longrightarrow> (\<And>v. Q v \<Longrightarrow> gives (f v) P) \<Longrightarrow> gives (m \<bind> f) P"
  by (auto simp: gives_def)

lemma gives_mono: "gives m Q \<Longrightarrow> (\<And>v. Q v \<Longrightarrow> P v) \<Longrightarrow> gives m P"
  by (auto simp: gives_def)

lemma gives_get: "i < length xs \<Longrightarrow> gives (arr_get xs i) (\<lambda>v. v = xs ! i)"
  by (simp add: gives_def)

lemma gives_map [simp]: "gives (map_option f m) P = gives m (\<lambda>v. P (f v))"
  by (auto simp: gives_def)

lemma gives_sum: "(\<And>e. r = Inl e \<Longrightarrow> gives (f e) P) \<Longrightarrow> (\<And>v. r = Inr v \<Longrightarrow> gives (g v) P) \<Longrightarrow>
  gives (case r of Inl e \<Rightarrow> f e | Inr v \<Rightarrow> g v) P"
  by (cases r) simp_all

section \<open>Well-formed tasks\<close>

definition desc_ok :: "nvpva_dma_descriptor \<Rightarrow> bool" where
  "desc_ok d \<longleftrightarrow> bytePerPixel d \<le> 2 \<and> (srcFormat d = 0 \<or> srcLinePitch d \<noteq> 0) \<and> (dstFormat d = 0 \<or> dstLinePitch d \<noteq> 0)"

definition task_ok :: "pva_submit_task \<Rightarrow> bool" where
  "task_ok task \<longleftrightarrow> length (dma_descriptors task) = MAX_NUM_DESCS \<and> length (task_buff_info task) = MAX_NUM_DESCS \<and>
     length (desc_block_height_log2 task) = MAX_NUM_DESCS \<and> length (desc_hwseq_frm task) = 2 \<and>
     length (desc_hwseq_t26x task) = 2 \<and> length (desc_processed task) = 2 \<and>
     unat (num_dma_descriptors task) \<le> MAX_NUM_DESCS \<and> length (hwseq_info task) = MAX_NUM_CHANNELS \<and>
     (\<forall>h \<in> set (hwseq_info task). \<not> verify_bounds h) \<and> length (dma_channels task) = MAX_NUM_CHANNELS \<and>
     (\<forall>ch \<in> set (dma_channels task). unat (descIndex ch) < MAX_NUM_DESCS) \<and> (\<forall>d \<in> set (dma_descriptors task). desc_ok d)"

lemma task_ok_updates [simp]:
  "task_ok (task\<lparr>special_access := a\<rparr>) = task_ok task" "task_ok (task\<lparr>buffers := b, pinned_memory := p\<rparr>) = task_ok task"
  "task_ok (task\<lparr>src_surf_base_addr := s\<rparr>) = task_ok task" "task_ok (task\<lparr>dst_surf_base_addr := s\<rparr>) = task_ok task"
  by (simp_all add: task_ok_def)

lemma pitch_linear_defined:
  assumes "desc_ok d"
  shows "gives (pitch_linear_eq_offset d surf bh (bytePerPixel d) is_dst is_dst2) (\<lambda>_. True)"
proof -
  define pit where "pit = (if is_dst \<or> is_dst2 then dstLinePitch d else srcLinePitch d)"
  define fmt where "fmt = (if is_dst \<or> is_dst2 then dstFormat d else srcFormat d)"
  define lpb where "lpb = (push_bit (unat (bytePerPixel d)) (ucast pit) :: u32)"
  have bpp: "unat (bytePerPixel d) \<le> 2" using assms by (simp add: desc_ok_def word_le_nat_alt)
  have pit0: "fmt = 0 \<or> pit \<noteq> 0" using assms by (auto simp: desc_ok_def fmt_def pit_def)
  have bl: "gives (bl_frame_offset surf ofs lpb (unat bh)) (\<lambda>_. True)"
    if "pit \<noteq> 0" and "lpb AND drop_bit (32 - BL_GOB_WIDTH_LOG2) 0xFFFFFFFF = 0" and "\<not> bh > NVPVA_MAX_VALID_BLK_HGT_LG2" for ofs
  proof -
    have pw: "unat pit < 2 ^ 16" using unsigned_less [of pit] by simp
    have "(2 :: nat) ^ unat (bytePerPixel d) \<le> 2 ^ 2" using bpp by (rule power_increasing) simp
    then have le: "unat pit * 2 ^ unat (bytePerPixel d) \<le> 2 ^ 16 * 2 ^ 2" using pw by (intro mult_mono) simp_all
    have u: "unat lpb = unat pit * 2 ^ unat (bytePerPixel d)"
      unfolding lpb_def using le pw by (subst unat_push_no_wrap) (simp_all add: unsigned_ucast_eq take_bit_eq_mod)
    have "0 < unat lpb" using u that(1) by (simp add: unat_gt_0)
    then have "0 < unat lpb div 64"
      using that(2) unfolding line_pitch_aligned by (metis div_mod_decomp gr0I mult_is_0 add.right_neutral)
    moreover have "unat bh \<le> 5" using that(3) by (simp add: NVPVA_MAX_VALID_BLK_HGT_LG2_def word_less_nat_alt)
    ultimately show ?thesis using le u by (simp add: gives_def bl_frame_offset_unat)
  qed
  show ?thesis
    using bl pit0 bpp
    unfolding pitch_linear_eq_offset_def Let_def pit_def [symmetric] fmt_def [symmetric] lpb_def [symmetric]
    by (intro gives_if) simp_all
qed

lemma check_range_defined:
  assumes "desc_ok d"
  shows "gives (check_address_range d m1 m2 src_dst dst2 bh) (\<lambda>_. True)"
proof -
  have p: "\<exists>r. pitch_linear_eq_offset d (sint (surfBLOffset d)) bh (bytePerPixel d) x y = Some r" for x y
    using pitch_linear_defined [OF assms] by (simp add: gives_def)
  obtain r1 r2 where r1: "pitch_linear_eq_offset d (sint (surfBLOffset d)) bh (bytePerPixel d) src_dst False = Some r1"
    and r2: "pitch_linear_eq_offset d (sint (surfBLOffset d)) bh (bytePerPixel d) False True = Some r2"
    using p by meson
  show ?thesis
  proof (cases src_dst)
    case True
    show ?thesis
      unfolding check_address_range_def Let_def r1 r2 option.case if_P [OF True]
      by (cases r1; cases r2) (simp_all only: sum.case split_beta gives_Some if_distrib [of "\<lambda>x. gives x P" for P] if_cancel)
  next
    case False
    show ?thesis
      unfolding check_address_range_def Let_def r1 option.case if_not_P [OF False]
      by (cases r1) (simp_all only: sum.case split_beta gives_Some if_distrib [of "\<lambda>x. gives x P" for P] if_cancel)
  qed
qed

lemma set_buff_info_defined:
  assumes "task_ok task" and "unat i < MAX_NUM_DESCS"
  shows "gives (set_buff_info task i f) task_ok"
  using assms by (auto simp: set_buff_info_def task_ok_def split: option.split)

lemma is_hwseq_defined:
  assumes "task_ok task" and "unat i < MAX_NUM_DESCS"
  shows "gives (is_hwseq_mode_frm task i) (\<lambda>_. True)" "gives (is_hwseq_mode_t26x task i) (\<lambda>_. True)"
  using assms by (auto simp: is_hwseq_mode_frm_def is_hwseq_mode_t26x_def task_ok_def gives_def)

lemma pin_mem_ok: "task_ok task \<Longrightarrow> pva_task_pin_mem task i = (r, task') \<Longrightarrow> task_ok task'"
  by (auto simp: pva_task_pin_mem_def Let_def split: if_split_asm prod.split_asm sum.split_asm)

lemma gives_prod: "(\<And>a b. p = (a, b) \<Longrightarrow> gives (f a b) P) \<Longrightarrow> gives (case p of (a, b) \<Rightarrow> f a b) P"
  by (cases p) simp

lemma check_unless_defined:
  assumes "desc_ok d"
  shows "gives (if b then Some (Inr ()) else check_address_range d m1 m2 src_dst dst2 bh) (\<lambda>_. True)"
  using check_range_defined [OF assms] by simp

lemma patch_src_defined:
  assumes "task_ok task" and "desc_ok d" and "unat i < MAX_NUM_DESCS"
  shows "gives (patch_src task d i bh) (\<lambda>v. task_ok (snd v))"
  unfolding patch_src_def Let_def
  by (assumption | rule assms refl gives_if gives_prod gives_sum gives_bind [OF check_range_defined] gives_bind [OF check_unless_defined]
      gives_bind [OF set_buff_info_defined] gives_bind [OF is_hwseq_defined(1)]
    | erule pin_mem_ok [rotated] | simp)+

lemma patch_dst_defined:
  assumes "task_ok task" and "desc_ok d" and "unat i < MAX_NUM_DESCS"
  shows "gives (patch_dst task d i bh) (\<lambda>v. task_ok (snd v))"
  unfolding patch_dst_def Let_def
  by (assumption | rule assms refl gives_if gives_prod gives_sum gives_bind [OF check_range_defined] gives_bind [OF check_unless_defined]
      gives_bind [OF set_buff_info_defined] gives_bind [OF is_hwseq_defined(1)]
    | erule pin_mem_ok [rotated] | simp)+

lemma patch_address_defined:
  assumes "task_ok task" and "desc_ok d" and "unat i < MAX_NUM_DESCS"
  shows "gives (patch_dma_desc_address task d dd i misr bh) (\<lambda>v. task_ok (fst (snd v)))"
  unfolding patch_dma_desc_address_def Let_def split_beta
  by (rule gives_bind [OF patch_src_defined [OF assms]])
    (auto intro!: gives_sum gives_if gives_bind [OF patch_dst_defined] assms(2,3) split: sum.split)

section \<open>The loops\<close>

definition st_ok :: "map_state \<Rightarrow> bool" where
  "st_ok st \<longleftrightarrow> task_ok (m_task st) \<and> length (m_hw st) = MAX_NUM_DESCS \<and> unat (m_did st) \<le> MAX_NUM_DESCS"

lemma fill_control2_ok [simp]: "task_ok task \<Longrightarrow> task_ok (fst (fill_control2 task d dd))"
  by (simp add: fill_control2_def Let_def)

lemma gives_option: "(r = None \<Longrightarrow> gives g P) \<Longrightarrow> (\<And>e. r = Some e \<Longrightarrow> gives (f e) P) \<Longrightarrow>
  gives (case r of None \<Rightarrow> g | Some e \<Rightarrow> f e) P"
  by (cases r) simp_all

lemma link_ok: "\<not> bad_link task d \<Longrightarrow> task_ok task \<Longrightarrow> unat (linkDescId d) \<le> MAX_NUM_DESCS"
  by (auto simp: bad_link_def task_ok_def word_less_nat_alt not_less)

lemma map_one_defined:
  assumes "st_ok st" and "i < MAX_NUM_DESCS" and "length heights = MAX_NUM_DESCS"
  shows "gives (map_one st i heights) (\<lambda>v. st_ok (snd v))"
proof -
  have t: "task_ok (m_task st)" and l: "i < length (dma_descriptors (m_task st))" "i < length (m_hw st)" "i < length heights"
    using assms by (simp_all add: st_ok_def task_ok_def)
  have u: "unat (of_nat i :: u8) < MAX_NUM_DESCS"
    using assms(2) by (simp add: unsigned_of_nat take_bit_eq_mod)
  have d: "desc_ok (dma_descriptors (m_task st) ! i)" using t l(1) by (simp add: task_ok_def)
  have ok: "st_ok (st\<lparr>m_task := task1, m_hw := (m_hw st)[i := dd]\<rparr>)" if "task_ok task1" for task1 dd
    using assms(1) that by (simp add: st_ok_def)
  show ?thesis
    unfolding map_one_def Let_def split_beta
    by (rule gives_bind [OF gives_get [OF l(1)]] gives_bind [OF gives_get [OF l(2)]] gives_bind [OF gives_get [OF l(3)]]
        gives_bind [OF is_hwseq_defined(1) [OF t u]] gives_bind [OF is_hwseq_defined(2) [OF t u]]
        gives_bind [OF patch_address_defined [OF t d u]] gives_sum gives_option gives_if
      | hypsubst | simp add: st_ok_def assms(1) [unfolded st_ok_def] link_ok)+
qed

lemma task_ok_mark [simp]:
  "task_ok (task\<lparr>desc_processed := (desc_processed task)[j := x], num_dma_desc_processed := c\<rparr>) = task_ok task"
  by (simp add: task_ok_def)

lemma map_loop_defined:
  assumes "st_ok st" and "length heights = MAX_NUM_DESCS" and "desc_num + (num_descs - i) \<le> MAX_NUM_DESCS"
  shows "gives (map_loop i desc_num num_descs st heights) (\<lambda>v. st_ok (snd v))"
  using assms
proof (induction i desc_num num_descs st heights rule: map_loop.induct)
  case (1 i desc_num num_descs st heights)
  show ?case
  proof (cases "i < num_descs \<and> num_dma_desc_processed (m_task st) < num_dma_descriptors (m_task st)")
    case False
    then show ?thesis using 1(4) by (subst map_loop.simps) (simp add: if_not_P [OF False])
  next
    case run: True
    have n: "desc_num < MAX_NUM_DESCS" using run 1(6) by linarith
    have next_num: "desc_num + 1 + (num_descs - (i + 1)) \<le> MAX_NUM_DESCS" using run 1(6) by linarith
    have len: "length (desc_processed (m_task st)) = 2" using 1(4) by (simp add: st_ok_def task_ok_def)
    have w: "arr_get (desc_processed (m_task st)) (desc_num div 64) = Some (desc_processed (m_task st) ! (desc_num div 64))"
      using n len by simp
    let ?w = "desc_processed (m_task st) ! (desc_num div 64)"
    let ?task1 = "(m_task st)\<lparr>desc_processed := (desc_processed (m_task st))[desc_num div 64 := ?w OR push_bit (desc_num mod 64) 1],
      num_dma_desc_processed := num_dma_desc_processed (m_task st) + 1\<rparr>"
    have st1: "st_ok (st\<lparr>m_task := ?task1\<rparr>)" using 1(4) by (simp add: st_ok_def)
    show ?thesis
    proof (cases "bit ?w (desc_num mod 64)")
      case True
      then show ?thesis
        using 1(1) [OF run w True 1(4,5) next_num] by (subst map_loop.simps) (simp only: run w option.case if_True simp_thms)
    next
      case new: False
      have other: "desc_num \<noteq> RESV_DESC_START" using n by simp
      obtain r st2 where m: "map_one (st\<lparr>m_task := ?task1\<rparr>) desc_num heights = Some (r, st2)" and st2: "st_ok st2"
        using map_one_defined [OF st1 n 1(5)] by (auto simp: gives_def)
      have "map_loop i desc_num num_descs st heights = (case r of Some e \<Rightarrow> Some (Some e, st2)
          | None \<Rightarrow> map_loop (i + 1) (desc_num + 1) num_descs st2 heights)"
        by (subst map_loop.simps) (use run new other m n len in \<open>simp add: Let_def split: option.split\<close>)
      then show ?thesis
        using 1(3) [OF run w new refl refl other m refl _ st2 1(5) next_num] st2 by (cases r) simp_all
    qed
  qed
qed

lemma mapping_defined:
  assumes "st_ok st" and "unat (m_did st) + k \<le> MAX_NUM_DESCS"
  shows "gives (nvpva_task_dma_desc_mapping st k) (\<lambda>v. st_ok (snd v))"
  unfolding nvpva_task_dma_desc_mapping_def
  by (rule map_loop_defined) (use assms in \<open>simp_all add: st_ok_def task_ok_def\<close>)

lemma follow_links_defined:
  assumes "st_ok st"
  shows "gives (follow_links height prev_did st) (\<lambda>v. st_ok (snd v))"
  using assms
proof (induction height prev_did st rule: follow_links.induct)
  case (1 height prev_did st)
  show ?case
  proof (cases "m_did st \<noteq> 0 \<and> m_did st \<noteq> prev_did")
    case False
    then show ?thesis using 1(2) by (subst follow_links.simps) (simp add: if_not_P [OF False])
  next
    case True
    have less: "unat (m_did st - 1) < unat (m_did st)" using True by (simp add: measure_unat)
    define hs where "hs = (desc_block_height_log2 (m_task st))[unat (m_did st - 1) := height]"
    have hs: "arr_set (desc_block_height_log2 (m_task st)) (unat (m_did st - 1)) height = Some hs"
      using 1(2) less by (simp add: st_ok_def task_ok_def arr_set_def hs_def)
    let ?st = "st\<lparr>m_task := (m_task st)\<lparr>desc_block_height_log2 := hs\<rparr>, m_did := m_did st - 1\<rparr>"
    have ok: "st_ok ?st" using 1(2) less by (simp add: st_ok_def task_ok_def hs_def)
    have "unat (m_did ?st) + 1 \<le> MAX_NUM_DESCS" using 1(2) less by (simp add: st_ok_def)
    then obtain r st1 where m: "nvpva_task_dma_desc_mapping ?st 1 = Some (r, st1)" and st1: "st_ok st1"
      using mapping_defined [OF ok, of 1] by (auto simp: gives_def)
    have "follow_links height prev_did st = (case r of Some e \<Rightarrow> Some (Some e, st1) | None \<Rightarrow> follow_links height (m_did st) st1)"
      by (subst follow_links.simps) (use True hs m in \<open>simp split: option.split\<close>)
    then show ?thesis using 1(1) [OF True hs m refl _ st1] st1 by (cases r) simp_all
  qed
qed

section \<open>The task\<close>

lemma channel_mapping_defined:
  assumes "c < length (dma_channels task)"
  shows "gives (nvpva_task_dma_channel_mapping task ch buf c False) (\<lambda>v. fst (snd v) = task)"
  unfolding nvpva_task_dma_channel_mapping_def split_beta Let_def
  by (rule gives_bind [OF gives_get [OF assms]]) simp

definition dma_ok :: "dma_state \<Rightarrow> bool" where
  "dma_ok st \<longleftrightarrow> st_ok (d_map st) \<and> length (info_dma_channels (d_info st)) = MAX_NUM_CHANNELS"

lemma write_channel_defined:
  assumes "dma_ok st" and "c < MAX_NUM_CHANNELS"
  shows "gives (write_channel False buf c st) (\<lambda>v. dma_ok (snd v))"
proof -
  have l: "c < length (dma_channels (m_task (d_map st)))" "c < length (info_dma_channels (d_info st))"
    using assms by (simp_all add: dma_ok_def st_ok_def task_ok_def)
  then have g: "arr_get (dma_channels (m_task (d_map st))) c = Some (dma_channels (m_task (d_map st)) ! c)"
    "arr_get (info_dma_channels (d_info st)) c = Some (info_dma_channels (d_info st) ! c)" by simp_all
  have idx: "unat (descIndex (dma_channels (m_task (d_map st)) ! c) + 1) \<le> MAX_NUM_DESCS"
  proof -
    have "unat (descIndex (dma_channels (m_task (d_map st)) ! c)) < MAX_NUM_DESCS"
      using assms l by (simp add: dma_ok_def st_ok_def task_ok_def)
    then show ?thesis by (subst unat_add_no_wrap) simp_all
  qed
  have start: "st_ok ((d_map st)\<lparr>m_bl := b, m_did := descIndex (dma_channels (m_task (d_map st)) ! c) + 1\<rparr>)" for b
    using assms(1) idx by (simp add: dma_ok_def st_ok_def)
  obtain err ch1 where k: "nvpva_task_dma_channel_mapping (m_task (d_map st)) (info_dma_channels (d_info st) ! c) buf c False
      = Some (err, m_task (d_map st), ch1)"
    using channel_mapping_defined [OF l(1)] by (fastforce simp: gives_def)
  obtain err2 mp2 where f: "follow_links (blockHeight (dma_channels (m_task (d_map st)) ! c)) 0
      ((d_map st)\<lparr>m_bl := 0, m_did := descIndex (dma_channels (m_task (d_map st)) ! c) + 1\<rparr>) = Some (err2, mp2)" and ok2: "st_ok mp2"
    using follow_links_defined [OF start] by (force simp: gives_def)
  show ?thesis
    unfolding write_channel_def Let_def g k Option.bind.simps prod.case
    using assms(1) f ok2 by (simp add: dma_ok_def st_ok_def)
qed

lemma write_channels_defined:
  assumes "dma_ok st" and "\<forall>c \<in> set cs. c < MAX_NUM_CHANNELS"
  shows "gives (write_channels False buf cs st) (\<lambda>v. dma_ok (snd v))"
  using assms
proof (induction cs arbitrary: st)
  case (Cons c cs)
  then have "gives (write_channel False buf c st) (\<lambda>v. dma_ok (snd v))" by (simp add: write_channel_defined)
  then show ?case
    unfolding write_channels.simps split_beta
    by (rule gives_bind) (use Cons in simp)
qed simp

lemma check_bounds_none:
  assumes "task_ok task" and "\<forall>c \<in> set cs. c < MAX_NUM_CHANNELS"
  shows "check_bounds task cs = Some None"
  using assms(2)
proof (induction cs)
  case (Cons c cs)
  have g: "arr_get (hwseq_info task) c = Some (hwseq_info task ! c)" and "\<not> verify_bounds (hwseq_info task ! c)"
    using assms(1) Cons.prems by (simp_all add: task_ok_def)
  then show ?case unfolding check_bounds.simps g Option.bind.simps using Cons by simp
qed simp

text \<open>C6: without a sequencer program the DMA part of a task is written without access outside of an array, shift
  beyond a width or division by zero, and the arrays keep their sizes, for every task whose channels have
  an index below 60 and whose block-linear descriptors have a line pitch and a valid pixel size.
\<close>

theorem write_dma_info_defined:
  assumes "task_ok (reset_modes (reset_task task))" and "unat (num_dma_channels task) \<le> MAX_NUM_CHANNELS"
    and "hwseqBuf_pin_id task = 0" and "length (hw_dma_desc hw) = MAX_NUM_DESCS"
    and "length (info_dma_channels (hw_dma_info hw)) = MAX_NUM_CHANNELS"
  shows "\<exists>err task' hw'. pva_task_write_dma_info contents lay task hw = Some (err, task', hw') \<and>
    length (hw_dma_desc hw') = MAX_NUM_DESCS \<and> length (info_dma_channels (hw_dma_info hw')) = MAX_NUM_CHANNELS"
proof -
  have pin: "pin_hwseq contents (reset_task task) (hw_dma_info hw) = (None, False, [], reset_task task, hw_dma_info hw)"
    using assms(3) by (simp add: pin_hwseq_def reset_task_def)
  define info2 where "info2 = (hw_dma_info hw)\<lparr>num_channels := num_dma_channels task, num_descriptors := num_dma_descriptors task,
    descriptor_id := 1\<rparr>"
  define st where "st = \<lparr>d_map = \<lparr>m_task = reset_modes (reset_task task), m_hw = hw_dma_desc hw, m_did = 0, m_bl = 0\<rparr>, d_info = info2\<rparr>"
  have st: "dma_ok st" using assms(1,4,5) by (simp add: dma_ok_def st_ok_def st_def info2_def)
  have cs: "\<forall>c \<in> set [0..<unat (num_dma_channels task)]. c < MAX_NUM_CHANNELS" using assms(2) by auto
  obtain e1 st1 where w: "write_channels False [] [0..<unat (num_dma_channels task)] st = Some (e1, st1)" and st1: "dma_ok st1"
    using write_channels_defined [OF st cs, of "[]"] by (auto simp: gives_def)
  have "unat (num_dma_descriptors task) \<le> MAX_NUM_DESCS"
    using assms(1) by (simp add: task_ok_def reset_modes_def reset_task_def)
  then obtain e2 mp where d: "nvpva_task_dma_desc_mapping ((d_map st1)\<lparr>m_did := 0\<rparr>) (unat (num_dma_descriptors task)) = Some (e2, mp)"
    and mp: "st_ok mp"
    using mapping_defined [of "(d_map st1)\<lparr>m_did := 0\<rparr>" "unat (num_dma_descriptors task)"] st1
    by (auto simp: gives_def dma_ok_def st_ok_def)
  have b: "check_bounds (m_task mp) [0..<unat (num_dma_channels task)] = Some None"
    by (rule check_bounds_none [OF _ cs]) (use mp in \<open>simp add: st_ok_def\<close>)
  show ?thesis
    unfolding pva_task_write_dma_info_def Let_def pin
    using assms(4,5) w d b st1 mp
    by (simp add: st_def [symmetric] info2_def [symmetric] dma_ok_def st_ok_def)
qed

definition ex_type_task :: pva_submit_task where
  "ex_type_task = (ex_full_task [ex_desc\<lparr>srcFormat := 1\<rparr>] 0)\<lparr>dma_channels := replicate 15 ex_ch\<rparr>"

lemma write_dma_info_defined_witness:
  "\<exists>err task' hw'. pva_task_write_dma_info (\<lambda>_. []) ex_layout ex_type_task zero_hw_task = Some (err, task', hw') \<and>
    length (hw_dma_desc hw') = MAX_NUM_DESCS \<and> length (info_dma_channels (hw_dma_info hw')) = MAX_NUM_CHANNELS"
proof (rule write_dma_info_defined)
  show "task_ok (reset_modes (reset_task ex_type_task))" by code_simp
  show "unat (num_dma_channels ex_type_task) \<le> MAX_NUM_CHANNELS" "hwseqBuf_pin_id ex_type_task = 0" by code_simp+
  show "length (hw_dma_desc zero_hw_task) = MAX_NUM_DESCS"
    "length (info_dma_channels (hw_dma_info zero_hw_task)) = MAX_NUM_CHANNELS"
    by code_simp+
qed

section \<open>MISR\<close>

text \<open>The common configuration selects the channels of the mask by zeros, clears the software event and the output
  and enables the timeout interrupt; the other bits stay.
\<close>

lemma misr_common_bits:
  assumes "k < 32"
  shows "bit (misr_common c m) k \<longleftrightarrow> (if 16 \<le> k then \<not> bit m (k - 16) else k = 0 \<or> k \<noteq> 5 \<and> k \<noteq> 15 \<and> bit c k)"
proof -
  have ff: "bit (0xFFFF :: u32) n \<longleftrightarrow> n < 16" for n
  proof -
    have "(0xFFFF :: u32) = mask 16" by (simp add: mask_numeral)
    then show ?thesis by (simp only: bit_mask_iff) auto
  qed
  show ?thesis
    unfolding misr_common_def bit_or_iff bit_and_iff bit_not_iff bit_push_bit_iff ff bit_1_iff
    using assms by auto
qed

text \<open>Without MISR the registers of the task stay, with the address of the MISR data cleared.\<close>

lemma misr_disabled:
  assumes "misr_enable task = 0"
  shows "pva_task_write_dma_misr_info lay task m cfg hw = hw\<lparr>hw_dma_info := (hw_dma_info hw)\<lparr>dma_misr_base := 0\<rparr>\<rparr>"
  using assms by (simp add: pva_task_write_dma_misr_info_def)

end
