(* ===== verification/Spec2Isabelle.thy ===== *)
theory Spec2Isabelle imports Iova_Mngr Mem_Manager Adsp_Mailbox Msgq Dce_Pm Dce_Boot_Facts
  Host1x_Fence_Race Host1x_Intr_Facts Host1x_Timeout Host1x_Job_Facts Host1x_Context_Pins Drm_Submit_Facts
  Pva_Task_Type begin

text \<open>
  This library models a part of NVIDIA's out-of-tree Linux drivers for Tegra and proves what makes that part
  correct.  The repository holds several hundred drivers; the library takes those whose own logic decides
  over memory, ordering and life times, in four groups that do not call each other:

  \<^item> address-space allocators: the IOVA manager of nvscic2c-pcie and the memory manager of the audio processor,
    which hand out ranges of a fixed space from sorted lists of chunks;
  \<^item> mailboxes and message queues of the audio processor (ADSP): a hardware mailbox register with a software
    queue behind it, mailboxes with their own queues above it, and the circular queue in shared memory;
  \<^item> the driver of the display controller engine (DCE), whose firmware runs on a core of its own: the event state
    machine, mailboxes, signals, IVC channels, clients, boot, admin messages, suspend and resume;
  \<^item> host1x, which feeds commands to the engines: syncpoints, fences and their interrupt, command DMA with its
    push buffer, channels, timeouts, jobs and memory contexts; with the Tegra DRM driver on top of it, which
    takes jobs from user space and checks their commands in a firewall.

  A fifth part, the checks of DMA descriptors that user space hands to the programmable vision accelerator
  (PVA), is modelled on its own.

  In the PVA driver a task carries descriptors of nested loops over pixels and channels that run chains of them.  The
  driver follows the chains, computes the bytes that a descriptor reads and writes, compares them with the buffer it
  names, writes the descriptor in the format of the DMA engine, and for programs of the hardware sequencer compares
  the rectangle of all tiles with the frame.

  Theories and sources

  \<^item> \<open>Prelude\<close>: C integers at their width, errno values, shared lemmas on words, lists and maps.
  \<^item> \<open>Range_Alloc\<close>, \<open>Chunk_List\<close>, \<open>Iova_Mngr\<close>, \<open>Mem_Manager\<close>: \<open>drivers/misc/nvscic2c-pcie/iova-mngr.c\<close> and
    \<open>drivers/platform/tegra/nvadsp/mem_manager.c\<close>.  \<open>range_allocator\<close> is the contract of an allocator of
    ranges, \<open>reclaiming_allocator\<close> extends it by a release that always succeeds; the clients' facts (live ranges never
    overlap, a round trip restores the free space) are proved there.  Both drivers interpret the first
    contract and the IOVA manager the second one: \<open>mem_release\<close> cannot release a chunk above which
    everything is in use.
  \<^item> \<open>Fifo\<close>, \<open>Adsp_Queue\<close>, \<open>Adsp_Mailbox\<close>, \<open>Msgq\<close>: \<open>nvadsp/mailbox.c\<close>, \<open>hwmailbox.c\<close>, \<open>hwmailbox.h\<close>, \<open>msgq.c\<close>.
    \<open>bounded_fifo\<close> is the contract of a queue of fixed capacity; the two rings of the driver interpret it.
    The send side with its interrupt is refined to one queue of words.
  \<^item> \<open>Dce_Types\<close>, \<open>Dce_Hsp\<close>, \<open>Dce_Fsm\<close>, \<open>Dce_Mailbox\<close>, \<open>Dce_Signal\<close>, \<open>Dce_Client\<close>, \<open>Dce_Isr\<close>, \<open>Dce_Ipc\<close>, \<open>Dce_Events\<close>,
    \<open>Dce_Admin\<close>, \<open>Dce_Boot\<close>, \<open>Dce_Pm\<close>: the files of \<open>drivers/platform/tegra/dce\<close> with the same names, each theory
    opening with the files it holds; \<open>Dce_Ipc_Facts\<close> and \<open>Dce_Boot_Facts\<close> hold the proofs on channels and on the
    boot sequence.
  \<^item> \<open>Host1x_Syncpt\<close>: \<open>drivers/gpu/host1x/syncpt.c\<close> and \<open>hw/syncpt_hw.c\<close>; \<open>Host1x_Fence\<close>: \<open>fence.c\<close>, \<open>intr.c\<close> and
    \<open>hw/intr_hw.c\<close>; \<open>Host1x_Fence_Race\<close> has the two paths that end a fence as a step relation, \<open>Host1x_Intr_Facts\<close>
    the sorted list of waiting fences.
  \<^item> \<open>Host1x_Cdma\<close>: \<open>cdma.c\<close> and \<open>hw/cdma_hw.c\<close>; \<open>Host1x_Ring\<close> states the push buffer as the locale \<open>slot_ring\<close>
    and interprets it on the push buffer of the driver; \<open>Host1x_Cdma_Facts\<close> has the queue of pending jobs over it.
  \<^item> \<open>Host1x_Channel\<close>: \<open>hw/channel_hw.c\<close> and the opcodes, for both hardware generations; \<open>Host1x_Submit\<close> states the
    program that a job is meant to become and proves that submission emits it; \<open>Host1x_Submit_Facts\<close> says
    when a submission returns; \<open>Host1x_Timeout\<close> what the timeout handler cancels.
  \<^item> \<open>Host1x_Job\<close>, \<open>Host1x_Job_Facts\<close>: \<open>job.c\<close>, allocation, pinning, the copy of gathers and the firewall of
    the older interface.  \<open>Host1x_Context\<close>, \<open>Host1x_Context_Facts\<close>, \<open>Host1x_Context_Pins\<close>: \<open>context.c\<close>, the
    hardware contexts, who uses them and what is pinned in them.
  \<^item> \<open>Drm_Firewall\<close>, \<open>Drm_Submit\<close>, \<open>Drm_Submit_Facts\<close>: \<open>drivers/gpu/drm/tegra/firewall.c\<close> and \<open>submit.c\<close>.
  \<^item> \<open>Pva_Types\<close>, \<open>Pva_Range\<close>, \<open>Pva_Patch\<close>, \<open>Pva_Hwseq\<close>, \<open>Pva_Dma\<close>, \<open>Pva_Task\<close>: \<open>drivers/video/tegra/host/pva/pva_dma.c\<close> with the pinning of
    buffers (\<open>pva_queue.c\<close>, \<open>nvpva_buffer.c\<close>) and the symbols of VPU programs (\<open>pva_vpu_exe.c\<close>): the structures, the
    range check with the block-linear addresses, the loop that validates and programs descriptors, the bounds
    of sequencer programs, the programs and channels, and \<open>pva_task_write_dma_info\<close>, which goes over the channels
    and follows the links of their descriptors.  \<open>Pva_Range_Facts\<close> relates the range check to the bytes that the loops touch and
    inverts the block-linear address, \<open>Pva_Patch_Facts\<close> and \<open>Pva_Mapping_Facts\<close> relate what is programmed to what was
    checked, \<open>Pva_Hwseq_Facts\<close> does the same for the tiles of a program, \<open>Pva_Task_Facts\<close> has the invariant that the
    whole task keeps, \<open>Pva_Task_Type\<close> the tasks for which no access leaves an array.

  Conventions

  A struct is a record, an enum a datatype or its constants, a C integer a word of its width (or an integer
  with the wrap-around written out), a pointer an index or a key into a map of the objects that exist.  A C
  function returns an error as \<open>Inl\<close> and a value as \<open>Inr\<close>; where C would dereference a pointer that is not
  valid, index outside of an array or divide by zero, the model returns \<open>None\<close>, and a property
  that the code returns shows that \<open>None\<close> is excluded.  Definitions are executable; the witnesses evaluate them.

  A wait for hardware, firmware or another thread consumes a finite list of what the others do: changes of
  registers, actions of the firmware, words that arrive.  When the list ends before the wait does, the result is
  \<open>None\<close>, so no bound on time is built in: statements that a call returns name the event that makes it return, and
  statements that it does not return hold for every list.  Loops without a structural bound are
  partial functions (the walk over a chain of signals, the draining of a channel) for which termination is a
  theorem of its own, or recursions over a measure.  Code that is not in this repository (the IVC library, DMA mapping,
  memory allocation, callbacks of clients) is a parameter of the operations that call it.

  What the lemmas show

  Each theory has the functional behaviour of its operations on every branch, then an invariant and its
  preservation, then the statements about sequences of operations.  Allocators: the managed space is at all times
  split into free and live ranges; requests are best fit.  Queues: first in, first out, with the
  exact condition of being full, and messages whole wherever they wrap.  DCE: events are accepted as the
  table of the driver says, replies only while their request is out, a work item drains its channel (on the older kernel interface), the boot
  sequence sends its commands in order.  Syncpoints and contexts: reference counts agree with
  the references that clients hold over every sequence of calls.  Timeouts: the job and the later jobs of its syncpoint are
  cancelled when no wrap of the counter lies in between.  Fences: signalled exactly once, exactly
  when the counter has reached the threshold across wraps; every interleaving of interrupt and timeout is
  safe.  Submission: the ring holds the programs of the pending jobs in order; a failing call gives back what it took, or
  the theorem says what it keeps.  Firewall: it accepts a command stream exactly when the decoded stream
  selects valid classes and writes address registers only with addresses of the mappings of the job or the first one
  behind a mapping.  PVA: \<open>was_checked\<close> spells out what a programmed descriptor has passed; a descriptor or
  sequencer program with a surface stored line by line that is accepted stays in its buffers, under bounds on
  offsets and pitches that the code does not establish; the theorems next to it show accepted descriptors
  beyond these bounds, and with block-linear surfaces, that leave them.

  Where a theorem needs a hypothesis that the code does not establish, a finding of the manifest says so, and
  where the code goes wrong a theorem shows the wrong behaviour.

  Not modelled

  Output for debugging and tracing, device probing, clocks and power domains, thread creation and locks (an
  operation that holds a lock throughout is atomic; where a lock is dropped the model has separate steps).  Of
  the DCE driver the address translation and the debug files.  Of host1x the bus, the device model, MIPI calibration and
  activity monitor.  Of the Tegra DRM driver the display side, the older interface and the frame of the submission
  call: power-up, synchronisation objects and the pinning of the gather data, which are calls into the kernel.
  Of the PVA driver the task queues, the firmware interface, the loading of VPU programs and the branches for hardware
  whose code is in files that are not in the repository.
  Of the ADSP drivers firmware loading and the console.  Of nvscic2c-pcie the end points and
  channels.  The remaining drivers of the repository are not modelled: video capture, NVDLA, nvmap, CAN, sensors,
  sound and crypto drivers are sequences of register accesses behind kernel frameworks whose effect is in the hardware, and
  the wireless and Ethernet drivers are vendored from other suppliers.
\<close>

end
